(* ===== verification/Prelude.thy ===== *)
theory Prelude
  imports Main "HOL-Library.Char_ord" "HOL-Library.List_Lexorder" "HOL-Library.AList"
    "HOL-Library.Multiset"
begin

text \<open>
  Shared vocabulary of the development: the JavaScript values and the string, array and Map
  operations that the sources use, as executable functions, and the generic lemmas on them.

  A JavaScript string is a \<^typ>\<open>string\<close>, so one character is one code unit below 256 (Latin-1);
  on such strings \<open>js_trim\<close>, \<open>js_lower\<close>, \<open>js_split\<close> and their kin compute what the language
  computes. A byte of a \<^verbatim>\<open>Buffer\<close> is a \<^typ>\<open>char\<close> too, which is exactly eight bits. A JavaScript
  \<^verbatim>\<open>Map\<close> is an association list in insertion order: \<^const>\<open>AList.update\<close> overwrites in place and
  appends a new key at the end, as \<^verbatim>\<open>Map.set\<close> does. The collation of \<^verbatim>\<open>localeCompare\<close> is a parameter of what
  sorts with it: a \<open>collation\<close> gives the sort key of a string.
\<close>

named_theorems js_simps \<open>unfolding rules for the JavaScript string and array operations\<close>
named_theorems store_laws \<open>laws of the row store that its clients use\<close>
named_theorems frame_laws \<open>what an operation leaves unchanged\<close>
named_theorems preserve_laws \<open>introduction rules for the preservation of an invariant\<close>

type_synonym byte = char
type_synonym buffer = "byte list"
type_synonym timestamp = string
type_synonym collation = "string \<Rightarrow> nat list"
type_synonym ('k, 'v) js_map = "('k \<times> 'v) list"

datatype json =
    JNull
  | JBool bool
  | JNum int
  | JStr string
  | JArr "json list"
  | JObj "(string \<times> json) list"

definition js_ws :: "char \<Rightarrow> bool" where
  "js_ws c = (of_char c \<in> {9, 10, 11, 12, 13, 32, 160 :: nat})"

definition js_trim :: "string \<Rightarrow> string" where
  "js_trim s = rev (dropWhile js_ws (rev (dropWhile js_ws s)))"

definition js_lower_char :: "char \<Rightarrow> char" where
  "js_lower_char c =
     (let n = of_char c :: nat in
      if 65 \<le> n \<and> n \<le> 90 \<or> 192 \<le> n \<and> n \<le> 222 \<and> n \<noteq> 215 then char_of (n + 32) else c)"

definition js_lower :: "string \<Rightarrow> string" where
  "js_lower s = map js_lower_char s"

definition js_startsWith :: "string \<Rightarrow> string \<Rightarrow> bool" where
  "js_startsWith s p = (take (length p) s = p)"

definition js_endsWith :: "string \<Rightarrow> string \<Rightarrow> bool" where
  "js_endsWith s p = (length p \<le> length s \<and> drop (length s - length p) s = p)"

fun js_includes :: "string \<Rightarrow> string \<Rightarrow> bool" where
  "js_includes [] p = (p = [])"
| "js_includes (c # cs) p = (js_startsWith (c # cs) p \<or> js_includes cs p)"

text \<open>\<open>js_indexOf s p\<close> is the position of the first occurrence of \<open>p\<close>; \<open>None\<close> is JavaScript's -1.\<close>

fun js_indexOf :: "string \<Rightarrow> string \<Rightarrow> nat option" where
  "js_indexOf [] p = (if p = [] then Some 0 else None)"
| "js_indexOf (c # cs) p =
     (if js_startsWith (c # cs) p then Some 0 else map_option Suc (js_indexOf cs p))"

text \<open>
  \<open>js_split s sep\<close> is \<^verbatim>\<open>s.split(sep)\<close> for a non-empty separator: the accumulator holds the piece
  read so far, reversed.
\<close>

function js_split_aux :: "string \<Rightarrow> string \<Rightarrow> string \<Rightarrow> string list" where
  "js_split_aux sep acc [] = [rev acc]"
| "js_split_aux sep acc (c # cs) =
     (if sep \<noteq> [] \<and> js_startsWith (c # cs) sep
      then rev acc # js_split_aux sep [] (drop (length sep) (c # cs))
      else js_split_aux sep (c # acc) cs)"
  by pat_completeness auto
termination
  by (relation "measure (\<lambda>(sep, acc, s). length s)") auto

definition js_split :: "string \<Rightarrow> string \<Rightarrow> string list" where
  "js_split s sep = js_split_aux sep [] s"

fun js_join :: "string \<Rightarrow> string list \<Rightarrow> string" where
  "js_join sep [] = []"
| "js_join sep [x] = x"
| "js_join sep (x # y # ys) = x @ sep @ js_join sep (y # ys)"

text \<open>The elements in order of first occurrence: \<^verbatim>\<open>Array.from(new Set(xs))\<close>.\<close>

definition js_unique :: "'a list \<Rightarrow> 'a list" where
  "js_unique xs = rev (remdups (rev xs))"

text \<open>\<open>js_slice_last n xs\<close> is \<^verbatim>\<open>xs.slice(-n)\<close>; for \<open>n = 0\<close> that is the whole array.\<close>

definition js_slice_last :: "nat \<Rightarrow> 'a list \<Rightarrow> 'a list" where
  "js_slice_last n xs = (if n = 0 then xs else drop (length xs - n) xs)"

definition nullish :: "'a option \<Rightarrow> 'a \<Rightarrow> 'a" where
  "nullish x d = (case x of None \<Rightarrow> d | Some v \<Rightarrow> v)"

definition digit_char :: "nat \<Rightarrow> char" where
  "digit_char d = char_of (48 + d)"

definition is_digit :: "char \<Rightarrow> bool" where
  "is_digit c = (48 \<le> (of_char c :: nat) \<and> (of_char c :: nat) \<le> 57)"

definition digit_val :: "char \<Rightarrow> nat" where
  "digit_val c = of_char c - 48"

fun show_nat :: "nat \<Rightarrow> string" where
  "show_nat n = (if n < 10 then [digit_char n] else show_nat (n div 10) @ [digit_char (n mod 10)])"

declare show_nat.simps [simp del]

definition read_nat :: "string \<Rightarrow> nat" where
  "read_nat s = foldl (\<lambda>acc c. 10 * acc + digit_val c) 0 s"

text \<open>A run of a partial computation over a list, stopping at the first error.\<close>

fun fold_sum :: "('s \<Rightarrow> 'a \<Rightarrow> 'e + 's) \<Rightarrow> 's \<Rightarrow> 'a list \<Rightarrow> 'e + 's" where
  "fold_sum f s [] = Inr s"
| "fold_sum f s (x # xs) = (case f s x of Inl e \<Rightarrow> Inl e | Inr s' \<Rightarrow> fold_sum f s' xs)"

section \<open>Decimal numerals\<close>

lemma of_char_char_of_nat [simp]: "n < 256 \<Longrightarrow> of_char (char_of n :: char) = (n :: nat)"
  by (simp add: of_char_of)

lemma digit_char_digit [simp]: "d < 10 \<Longrightarrow> is_digit (digit_char d)"
  by (simp add: is_digit_def digit_char_def)

lemma digit_val_char [simp]: "d < 10 \<Longrightarrow> digit_val (digit_char d) = d"
  by (simp add: digit_val_def digit_char_def)

lemma show_nat_digits: "list_all is_digit (show_nat n)"
proof (induction n rule: show_nat.induct)
  case (1 n)
  then show ?case
    by (cases "n < 10") (simp_all add: show_nat.simps [of n])
qed

lemma show_nat_nonempty [simp]: "show_nat n \<noteq> []"
  by (subst show_nat.simps) simp

lemma read_nat_snoc: "read_nat (s @ [c]) = 10 * read_nat s + digit_val c"
  by (simp add: read_nat_def)

lemma read_show_nat [simp]: "read_nat (show_nat n) = n"
proof (induction n rule: show_nat.induct)
  case (1 n)
  show ?case
  proof (cases "n < 10")
    case True
    then show ?thesis by (simp add: show_nat.simps [of n] read_nat_def)
  next
    case False
    then have "read_nat (show_nat n) = 10 * (n div 10) + n mod 10"
      using 1 by (simp add: show_nat.simps [of n] read_nat_snoc)
    then show ?thesis by simp
  qed
qed

section \<open>Strings\<close>

lemma js_startsWith_append [simp]: "js_startsWith (p @ s) p"
  by (simp add: js_startsWith_def)

lemma js_startsWith_Nil [simp]: "js_startsWith s []"
  by (simp add: js_startsWith_def)

lemma js_startsWith_iff: "js_startsWith s p \<longleftrightarrow> (\<exists>r. s = p @ r)"
proof
  assume "js_startsWith s p"
  then have "s = p @ drop (length p) s"
    by (metis js_startsWith_def append_take_drop_id)
  then show "\<exists>r. s = p @ r" ..
next
  assume "\<exists>r. s = p @ r"
  then show "js_startsWith s p" by auto
qed

lemma js_startsWith_hd: "p \<noteq> [] \<Longrightarrow> js_startsWith (c # cs) p \<Longrightarrow> c = hd p"
  by (cases p) (auto simp: js_startsWith_def)

lemma js_endsWith_iff: "js_endsWith s p \<longleftrightarrow> (\<exists>r. s = r @ p)"
proof
  assume "js_endsWith s p"
  then have "s = take (length s - length p) s @ p"
    by (metis js_endsWith_def append_take_drop_id)
  then show "\<exists>r. s = r @ p" ..
next
  assume "\<exists>r. s = r @ p"
  then show "js_endsWith s p" by (auto simp: js_endsWith_def)
qed

lemma js_includes_iff: "js_includes s p \<longleftrightarrow> (\<exists>a b. s = a @ p @ b)"
proof (induction s)
  case Nil
  then show ?case by auto
next
  case (Cons c cs)
  show ?case
  proof
    assume "js_includes (c # cs) p"
    then consider "js_startsWith (c # cs) p" | "js_includes cs p" by auto
    then show "\<exists>a b. c # cs = a @ p @ b"
    proof cases
      case 1
      then obtain r where "c # cs = [] @ p @ r" by (auto simp: js_startsWith_iff)
      then show ?thesis by blast
    next
      case 2
      with Cons.IH obtain a b where "cs = a @ p @ b" by blast
      then have "c # cs = (c # a) @ p @ b" by simp
      then show ?thesis by blast
    qed
  next
    assume "\<exists>a b. c # cs = a @ p @ b"
    then obtain a b where ab: "c # cs = a @ p @ b" by blast
    show "js_includes (c # cs) p"
    proof (cases a)
      case Nil
      with ab have "js_startsWith (c # cs) p" by (auto simp: js_startsWith_iff)
      then show ?thesis by simp
    next
      case (Cons x a')
      with ab have "cs = a' @ p @ b" by simp
      with Cons.IH show ?thesis by auto
    qed
  qed
qed

lemma js_trim_id: "s \<noteq> [] \<Longrightarrow> \<not> js_ws (hd s) \<Longrightarrow> \<not> js_ws (last s) \<Longrightarrow> js_trim s = s"
proof -
  assume a: "s \<noteq> []" "\<not> js_ws (hd s)" "\<not> js_ws (last s)"
  have "dropWhile js_ws s = s" using a by (cases s) auto
  moreover have "dropWhile js_ws (rev s) = rev s" using a by (cases s rule: rev_cases) auto
  ultimately show ?thesis by (simp add: js_trim_def)
qed

lemma js_trim_Nil [simp]: "js_trim [] = []"
  by (simp add: js_trim_def)

lemma js_split_aux_no_sep:
  "sep \<noteq> [] \<Longrightarrow> hd sep \<notin> set s \<Longrightarrow> js_split_aux sep acc s = [rev acc @ s]"
proof (induction s arbitrary: acc)
  case Nil
  then show ?case by simp
next
  case (Cons c cs)
  then have "\<not> js_startsWith (c # cs) sep"
    using js_startsWith_hd by fastforce
  with Cons show ?case by simp
qed

lemma js_split_aux_step:
  assumes "sep \<noteq> []" "hd sep \<notin> set s"
  shows "js_split_aux sep acc (s @ sep @ r) = (rev acc @ s) # js_split_aux sep [] r"
  using assms
proof (induction s arbitrary: acc)
  case Nil
  then obtain d ds where sep: "sep = d # ds" by (cases sep) auto
  have "js_startsWith (sep @ r) sep" by simp
  then show ?case using sep by simp
next
  case (Cons c cs)
  then have "\<not> js_startsWith (c # cs @ sep @ r) sep"
    using js_startsWith_hd by fastforce
  with Cons show ?case by simp
qed

lemma js_split_no_sep: "sep \<noteq> [] \<Longrightarrow> hd sep \<notin> set s \<Longrightarrow> js_split s sep = [s]"
  by (simp add: js_split_def js_split_aux_no_sep)

lemma js_split_step:
  "sep \<noteq> [] \<Longrightarrow> hd sep \<notin> set s \<Longrightarrow> js_split (s @ sep @ r) sep = s # js_split r sep"
  by (simp add: js_split_def js_split_aux_step)

lemma js_split_aux_nonempty [simp]: "js_split_aux sep acc s \<noteq> []"
  by (induction sep acc s rule: js_split_aux.induct) auto

lemma js_join_Cons: "xs \<noteq> [] \<Longrightarrow> js_join sep (x # xs) = x @ sep @ js_join sep xs"
  by (cases xs) auto

lemma js_join_split_aux: "sep \<noteq> [] \<Longrightarrow> js_join sep (js_split_aux sep acc s) = rev acc @ s"
proof (induction sep acc s rule: js_split_aux.induct)
  case (1 sep acc)
  then show ?case by simp
next
  case (2 sep acc c cs)
  show ?case
  proof (cases "js_startsWith (c # cs) sep")
    case True
    then have "sep @ drop (length sep) (c # cs) = c # cs"
      by (metis js_startsWith_def append_take_drop_id)
    with True 2 show ?thesis by (simp add: js_join_Cons)
  next
    case False
    with 2 show ?thesis by simp
  qed
qed

lemma js_join_split: "sep \<noteq> [] \<Longrightarrow> js_join sep (js_split s sep) = s"
  by (simp add: js_split_def js_join_split_aux)

section \<open>Lists\<close>

lemma set_js_unique [simp]: "set (js_unique xs) = set xs"
  by (simp add: js_unique_def)

lemma distinct_js_unique [simp]: "distinct (js_unique xs)"
  by (simp add: js_unique_def)

lemma js_unique_distinct: "distinct xs \<Longrightarrow> js_unique xs = xs"
  by (simp add: js_unique_def distinct_remdups_id)

lemma length_js_unique: "length (js_unique xs) = card (set xs)"
  by (simp add: js_unique_def length_remdups_card_conv)

lemma js_slice_last_subset: "set (js_slice_last n xs) \<subseteq> set xs"
  by (auto simp: js_slice_last_def dest: in_set_dropD)

lemma length_js_slice_last: "0 < n \<Longrightarrow> length (js_slice_last n xs) = min n (length xs)"
  by (auto simp: js_slice_last_def)

lemma mset_delete:
  "distinct (map fst al) \<Longrightarrow> map_of al k = Some v \<Longrightarrow>
     mset (map fst al) = add_mset k (mset (map fst (AList.delete k al)))"
proof (induction al)
  case (Cons a al)
  show ?case
  proof (cases "fst a = k")
    case True
    with Cons.prems have "k \<notin> set (map fst al)" by (cases a) auto
    then have "AList.delete k al = al" by simp
    with True show ?thesis by (cases a) simp
  next
    case False
    with Cons show ?thesis by (cases a) auto
  qed
qed simp

lemma update_append_new: "k \<notin> set (map fst al) \<Longrightarrow> AList.update k v al = al @ [(k, v)]"
  by (induction al) auto

lemma find_append:
  "List.find P (xs @ ys) = (case List.find P xs of None \<Rightarrow> List.find P ys | Some x \<Rightarrow> Some x)"
  by (induction xs) auto

lemma nullish_simps [simp]: "nullish None d = d" "nullish (Some v) d = v"
  by (simp_all add: nullish_def)

lemma fold_sum_invariant:
  assumes "fold_sum f s xs = Inr s'" and "P s"
    and "\<And>t t' x. x \<in> set xs \<Longrightarrow> P t \<Longrightarrow> f t x = Inr t' \<Longrightarrow> P t'"
  shows "P s'"
  using assms
proof (induction xs arbitrary: s)
  case Nil
  then show ?case by simp
next
  case (Cons x xs)
  then obtain t where t: "f s x = Inr t" "fold_sum f t xs = Inr s'"
    by (auto split: sum.splits)
  have "P t" using Cons.prems t by auto
  then show ?case using Cons.IH [OF t(2)] Cons.prems(3) by auto
qed

end
