(* ===== verification/JsonText.thy ===== *)
theory JsonText
  imports Prelude
begin

text \<open>
  \<^verbatim>\<open>JSON.stringify\<close>, compact and indented, and \<^verbatim>\<open>JSON.parse\<close> with the UTF-8 conversion around them, on the values the
  development has: integers, Latin-1 strings, arrays, objects. The reader is a recursive descent with
  fuel, one unit per nested call; \<open>JSON_parse\<close> gives it the length of the text plus one, which is
  enough for every text the writer produces (\<open>JSON_parse_stringify\<close>, \<open>JSON_parse_pretty\<close>). \<open>None\<close> stands for a syntax error
  and for what lies outside the fragment: a fraction or an exponent, a code point above 255.
\<close>

definition show_int :: "int \<Rightarrow> string" where
  "show_int i = (if i < 0 then ''-'' @ show_nat (nat (- i)) else show_nat (nat i))"

definition hex_char :: "nat \<Rightarrow> char" where
  "hex_char d = (if d < 10 then digit_char d else char_of (87 + d))"

definition hex_val :: "char \<Rightarrow> nat option" where
  "hex_val c =
     (let n = of_char c :: nat in
      if 48 \<le> n \<and> n \<le> 57 then Some (n - 48)
      else if 97 \<le> n \<and> n \<le> 102 then Some (n - 87)
      else if 65 \<le> n \<and> n \<le> 70 then Some (n - 55) else None)"

abbreviation QUOTE :: char where "QUOTE \<equiv> CHR 0x22"
abbreviation BACKSLASH :: char where "BACKSLASH \<equiv> CHR 0x5C"

text \<open>The one-letter escapes: the character and the letter that stands for it.\<close>

definition short_escapes :: "(char \<times> char) list" where
  "short_escapes = [(QUOTE, QUOTE), (BACKSLASH, BACKSLASH), (CHR 0x08, CHR ''b''), (CHR 0x09, CHR ''t''),
     (CHR 0x0A, CHR ''n''), (CHR 0x0C, CHR ''f''), (CHR 0x0D, CHR ''r'')]"

definition escape_char :: "char \<Rightarrow> string" where
  "escape_char c =
     (case map_of short_escapes c of
        Some e \<Rightarrow> [BACKSLASH, e]
      | None \<Rightarrow>
          if (of_char c :: nat) < 32
          then [BACKSLASH, CHR ''u'', CHR ''0'', CHR ''0'', hex_char (of_char c div 16), hex_char (of_char c mod 16)]
          else [c])"

definition quote_string :: "string \<Rightarrow> string" where
  "quote_string s = [QUOTE] @ concat (map escape_char s) @ [QUOTE]"

fun JSON_stringify :: "json \<Rightarrow> string" where
  "JSON_stringify JNull = ''null''"
| "JSON_stringify (JBool b) = (if b then ''true'' else ''false'')"
| "JSON_stringify (JNum i) = show_int i"
| "JSON_stringify (JStr s) = quote_string s"
| "JSON_stringify (JArr xs) = ''['' @ js_join '','' (map JSON_stringify xs) @ '']''"
| "JSON_stringify (JObj fs) =
     ''{'' @ js_join '','' (map (\<lambda>(k, v). quote_string k @ '':'' @ JSON_stringify v) fs) @ ''}''"

text \<open>\<^verbatim>\<open>JSON.stringify(v, null, 2)\<close>; \<open>ind\<close> is what a new line starts with.\<close>

fun JSON_pretty :: "string \<Rightarrow> json \<Rightarrow> string" where
  "JSON_pretty ind (JArr xs) =
     (if xs = [] then ''[]''
      else ''['' @ CHR 0x0A # ind @ ''  '' @ js_join ('','' @ CHR 0x0A # ind @ ''  '') (map (JSON_pretty (ind @ ''  '')) xs)
           @ CHR 0x0A # ind @ '']'')"
| "JSON_pretty ind (JObj fs) =
     (if fs = [] then ''{}''
      else ''{'' @ CHR 0x0A # ind @ ''  ''
           @ js_join ('','' @ CHR 0x0A # ind @ ''  '') (map (\<lambda>(k, v). quote_string k @ '': '' @ JSON_pretty (ind @ ''  '') v) fs)
           @ CHR 0x0A # ind @ ''}'')"
| "JSON_pretty ind JNull = ''null''"
| "JSON_pretty ind (JBool b) = (if b then ''true'' else ''false'')"
| "JSON_pretty ind (JNum i) = show_int i"
| "JSON_pretty ind (JStr s) = quote_string s"

definition json_ws :: "char \<Rightarrow> bool" where
  "json_ws c = (of_char c \<in> {9, 10, 13, 32 :: nat})"

definition skip_ws :: "string \<Rightarrow> string" where
  "skip_ws s = dropWhile json_ws s"

text \<open>The characters of a string literal after its opening quote, up to the closing one.\<close>

fun parse_chars :: "string \<Rightarrow> (string \<times> string) option" where
  "parse_chars [] = None"
| "parse_chars (c # s) =
     (if c = QUOTE then Some ([], s)
      else if c = BACKSLASH then
        (case s of
           [] \<Rightarrow> None
         | e # s' \<Rightarrow>
             if e = CHR ''u'' then
               (case s' of
                  h1 # h2 # h3 # h4 # r \<Rightarrow>
                    (case (hex_val h1, hex_val h2, hex_val h3, hex_val h4) of
                       (Some 0, Some 0, Some a, Some b) \<Rightarrow>
                         map_option (\<lambda>(t, r'). (char_of (16 * a + b) # t, r')) (parse_chars r)
                     | _ \<Rightarrow> None)
                | _ \<Rightarrow> None)
             else if e = CHR ''/'' then map_option (\<lambda>(t, r'). (e # t, r')) (parse_chars s')
             else
               (case map_of (map prod.swap short_escapes) e of
                  Some d \<Rightarrow> map_option (\<lambda>(t, r'). (d # t, r')) (parse_chars s')
                | None \<Rightarrow> None))
      else if (of_char c :: nat) < 32 then None
      else map_option (\<lambda>(t, r'). (c # t, r')) (parse_chars s))"

text \<open>An unsigned numeral: no leading zero, no fraction, no exponent.\<close>

definition parse_digits :: "string \<Rightarrow> (nat \<times> string) option" where
  "parse_digits s =
     (let ds = takeWhile is_digit s; r = dropWhile is_digit s in
      if ds = [] \<or> (hd ds = CHR ''0'' \<and> tl ds \<noteq> [])
         \<or> (r \<noteq> [] \<and> hd r \<in> {CHR ''.'', CHR ''e'', CHR ''E''})
      then None else Some (read_nat ds, r))"

definition parse_word :: "string \<Rightarrow> json \<Rightarrow> string \<Rightarrow> (json \<times> string) option" where
  "parse_word w v s = (if js_startsWith s w then Some (v, drop (length w) s) else None)"

fun parse_value :: "nat \<Rightarrow> string \<Rightarrow> (json \<times> string) option"
and parse_items :: "nat \<Rightarrow> string \<Rightarrow> (json list \<times> string) option"
and parse_fields :: "nat \<Rightarrow> string \<Rightarrow> ((string \<times> json) list \<times> string) option"
where
  "parse_value 0 s = None"
| "parse_value (Suc n) s =
     (case skip_ws s of
        [] \<Rightarrow> None
      | c # r \<Rightarrow>
          if c = CHR ''n'' then parse_word ''null'' JNull (c # r)
          else if c = CHR ''t'' then parse_word ''true'' (JBool True) (c # r)
          else if c = CHR ''f'' then parse_word ''false'' (JBool False) (c # r)
          else if c = QUOTE then map_option (\<lambda>(t, r'). (JStr t, r')) (parse_chars r)
          else if c = CHR ''['' then
            (case skip_ws r of
               [] \<Rightarrow> None
             | d # r' \<Rightarrow> if d = CHR '']'' then Some (JArr [], r')
                 else map_option (\<lambda>(xs, r''). (JArr xs, r'')) (parse_items n r))
          else if c = CHR ''{'' then
            (case skip_ws r of
               [] \<Rightarrow> None
             | d # r' \<Rightarrow> if d = CHR ''}'' then Some (JObj [], r')
                 else map_option (\<lambda>(fs, r''). (JObj (foldl (\<lambda>m (k, v). AList.update k v m) [] fs), r''))
                        (parse_fields n r))
          else if c = CHR ''-'' then map_option (\<lambda>(i, r'). (JNum (- int i), r')) (parse_digits r)
          else map_option (\<lambda>(i, r'). (JNum (int i), r')) (parse_digits (c # r)))"
| "parse_items 0 s = None"
| "parse_items (Suc n) s =
     (case parse_value n s of
        None \<Rightarrow> None
      | Some (v, r) \<Rightarrow>
          (case skip_ws r of
             [] \<Rightarrow> None
           | d # r' \<Rightarrow>
               if d = CHR '']'' then Some ([v], r')
               else if d = CHR '','' then map_option (\<lambda>(xs, r''). (v # xs, r'')) (parse_items n r')
               else None))"
| "parse_fields 0 s = None"
| "parse_fields (Suc n) s =
     (case skip_ws s of
        [] \<Rightarrow> None
      | q # s1 \<Rightarrow>
          if q \<noteq> QUOTE then None
          else
            (case parse_chars s1 of
               None \<Rightarrow> None
             | Some (k, s2) \<Rightarrow>
                 (case skip_ws s2 of
                    [] \<Rightarrow> None
                  | c # s3 \<Rightarrow>
                      if c \<noteq> CHR '':'' then None
                      else
                        (case parse_value n s3 of
                           None \<Rightarrow> None
                         | Some (v, s4) \<Rightarrow>
                             (case skip_ws s4 of
                                [] \<Rightarrow> None
                              | d # s5 \<Rightarrow>
                                  if d = CHR ''}'' then Some ([(k, v)], s5)
                                  else if d = CHR '','' then
                                    map_option (\<lambda>(fs, r). ((k, v) # fs, r)) (parse_fields n s5)
                                  else None)))))"

declare parse_value.simps [simp del] parse_items.simps [simp del] parse_fields.simps [simp del]

definition JSON_parse :: "string \<Rightarrow> json option" where
  "JSON_parse s =
     (case parse_value (length s + 1) s of
        Some (v, r) \<Rightarrow> if skip_ws r = [] then Some v else None
      | None \<Rightarrow> None)"

definition utf8_char :: "char \<Rightarrow> buffer" where
  "utf8_char c =
     (let n = of_char c :: nat in
      if n < 128 then [c] else [char_of (192 + n div 64), char_of (128 + n mod 64)])"

definition utf8_encode :: "string \<Rightarrow> buffer" where
  "utf8_encode s = concat (map utf8_char s)"

fun utf8_decode :: "buffer \<Rightarrow> string option" where
  "utf8_decode [] = Some []"
| "utf8_decode (b # bs) =
     (let n = of_char b :: nat in
      if n < 128 then map_option ((#) b) (utf8_decode bs)
      else if n \<in> {194, 195} then
        (case bs of
           [] \<Rightarrow> None
         | d # ds \<Rightarrow>
             (let m = of_char d :: nat in
              if 128 \<le> m \<and> m < 192
              then map_option ((#) (char_of (64 * (n - 192) + (m - 128)))) (utf8_decode ds) else None))
      else None)"

definition json_bytes :: "json \<Rightarrow> buffer" where
  "json_bytes v = utf8_encode (JSON_stringify v)"

definition json_of_bytes :: "buffer \<Rightarrow> json option" where
  "json_of_bytes b = Option.bind (utf8_decode b) JSON_parse"

text \<open>A JavaScript object has every key once.\<close>

fun wf_json :: "json \<Rightarrow> bool" where
  "wf_json (JArr xs) = list_all wf_json xs"
| "wf_json (JObj fs) = (distinct (map fst fs) \<and> list_all (\<lambda>(k, v). wf_json v) fs)"
| "wf_json _ = True"

section \<open>UTF-8\<close>

lemma utf8_decode_char: "utf8_decode (utf8_char c @ bs) = map_option ((#) c) (utf8_decode bs)"
proof -
  define n where "n = (of_char c :: nat)"
  have c: "c = char_of n" and n: "n < 256" by (simp_all add: n_def)
  show ?thesis
  proof (cases "n < 128")
    case True
    then show ?thesis by (simp add: utf8_char_def n_def)
  next
    case False
    define h where "h = n div 64"
    define l where "l = n mod 64"
    have l: "l < 64" and hl: "64 * h + l = n" by (simp_all add: h_def l_def)
    have h: "h = 2 \<or> h = 3" using hl l n False by linarith
    have u: "utf8_char c = [char_of (192 + h), char_of (128 + l)]"
      using False by (simp add: utf8_char_def n_def [symmetric] h_def l_def)
    show ?thesis
      unfolding u using h l hl by (auto simp: c)
  qed
qed

lemma utf8_decode_encode: "utf8_decode (utf8_encode s) = Some s"
  by (induction s) (simp_all add: utf8_encode_def utf8_decode_char)

section \<open>Reading back what the writer wrote\<close>

lemma short_escapes_range: "map_of short_escapes c = Some e \<Longrightarrow>
    e \<noteq> CHR ''u'' \<and> e \<noteq> CHR ''/'' \<and> map_of (map prod.swap short_escapes) e = Some c"
  by (auto simp: short_escapes_def split: if_splits)

lemma short_escapes_None: "map_of short_escapes c = None \<Longrightarrow> c \<noteq> QUOTE \<and> c \<noteq> BACKSLASH"
  by (auto simp: short_escapes_def split: if_splits)

lemma hex_val_char: "d < 16 \<Longrightarrow> hex_val (hex_char d) = Some d"
  by (auto simp: hex_val_def hex_char_def digit_char_def Let_def)

lemma hex_val_0: "hex_val (CHR ''0'') = Some 0"
  by (simp add: hex_val_def)

lemma parse_chars_escape:
  "parse_chars (escape_char c @ t) = map_option (\<lambda>(u, r). (c # u, r)) (parse_chars t)"
proof (cases "map_of short_escapes c")
  case (Some e)
  then show ?thesis using short_escapes_range [OF Some] by (simp add: escape_char_def)
next
  case None
  note nq = short_escapes_None [OF None]
  show ?thesis
  proof (cases "(of_char c :: nat) < 32")
    case True
    let ?n = "of_char c :: nat"
    have "char_of (16 * (?n div 16) + ?n mod 16) = c" by (simp add: mult_div_mod_eq)
    moreover have "?n div 16 < 16" "?n mod 16 < 16" using True by auto
    ultimately show ?thesis
      using None True by (simp add: escape_char_def hex_val_char hex_val_0 del: mult_div_mod_eq)
  next
    case False
    then show ?thesis using None nq by (simp add: escape_char_def)
  qed
qed

lemma parse_chars_quoted:
  "parse_chars (concat (map escape_char s) @ QUOTE # r) = Some (s, r)"
  by (induction s) (simp_all add: parse_chars_escape)

definition ends_number :: "string \<Rightarrow> bool" where
  "ends_number r = (r = [] \<or> \<not> is_digit (hd r) \<and> hd r \<notin> {CHR ''.'', CHR ''e'', CHR ''E''})"

lemma ends_number_delims [simp]:
  "ends_number []" "ends_number (CHR '','' # r)" "ends_number (CHR '']'' # r)" "ends_number (CHR ''}'' # r)"
  by (simp_all add: ends_number_def is_digit_def)

lemma show_nat_leading: "hd (show_nat n) = CHR ''0'' \<Longrightarrow> tl (show_nat n) = []"
proof (induction n rule: show_nat.induct)
  case (1 n)
  show ?case
  proof (cases "n < 10")
    case True
    then show ?thesis by (simp add: show_nat.simps [of n])
  next
    case False
    then have sn: "show_nat n = show_nat (n div 10) @ [digit_char (n mod 10)]"
      by (simp add: show_nat.simps [of n])
    then have h: "hd (show_nat (n div 10)) = CHR ''0''" using "1.prems" by simp
    then have "show_nat (n div 10) = ''0''"
      using "1.IH" [OF False h] by (cases "show_nat (n div 10)") auto
    then have "n div 10 = read_nat ''0''" by (metis read_show_nat)
    also have "\<dots> = 0" by (simp add: read_nat_def digit_val_def)
    finally have "n div 10 = 0" .
    then show ?thesis using False by simp
  qed
qed

lemma parse_digits_show_nat:
  assumes "ends_number r"
  shows "parse_digits (show_nat n @ r) = Some (n, r)"
proof -
  have d: "\<forall>c \<in> set (show_nat n). is_digit c" using show_nat_digits by (simp add: list_all_iff)
  have "takeWhile is_digit (show_nat n @ r) = show_nat n @ takeWhile is_digit r"
    "dropWhile is_digit (show_nat n @ r) = dropWhile is_digit r"
    using d by (simp_all add: takeWhile_append2 dropWhile_append2)
  moreover have "takeWhile is_digit r = []" "dropWhile is_digit r = r"
    using assms by (cases r; auto simp: ends_number_def)+
  ultimately show ?thesis
    using assms show_nat_leading [of n] by (auto simp: parse_digits_def Let_def ends_number_def)
qed

text \<open>What a value's text starts with: never a blank and never a closing bracket.\<close>

definition starts_value :: "string \<Rightarrow> bool" where
  "starts_value s = (s \<noteq> [] \<and> \<not> json_ws (hd s) \<and> hd s \<noteq> CHR '']'' \<and> hd s \<noteq> CHR ''}'')"

lemma digit_starts: "is_digit c \<Longrightarrow> starts_value (c # s)
    \<and> c \<notin> {CHR ''n'', CHR ''t'', CHR ''f'', QUOTE, CHR ''['', CHR ''{'', CHR ''-''}"
  by (auto simp: starts_value_def is_digit_def json_ws_def)

lemma show_nat_Cons: obtains c s where "show_nat n = c # s" "is_digit c"
  using show_nat_digits [of n] show_nat_nonempty [of n] by (cases "show_nat n") auto

lemma starts_digits: "starts_value (show_int i @ r)"
proof -
  obtain c s where "show_nat (nat i) = c # s" "is_digit c" by (rule show_nat_Cons)
  then show ?thesis using digit_starts by (auto simp: show_int_def starts_value_def json_ws_def)
qed

lemma skip_ws_starts: "starts_value s \<Longrightarrow> skip_ws s = s"
  by (cases s) (simp_all add: starts_value_def skip_ws_def)

lemma skip_ws_blanks: "list_all json_ws w \<Longrightarrow> skip_ws (w @ s) = skip_ws s"
  by (induction w) (simp_all add: skip_ws_def)

lemma skip_ws_quote [simp]: "skip_ws (QUOTE # s) = QUOTE # s"
  by (simp add: skip_ws_def json_ws_def)

lemma skip_ws_delims [simp]:
  "skip_ws (CHR '','' # r) = CHR '','' # r" "skip_ws (CHR '':'' # r) = CHR '':'' # r"
  "skip_ws (CHR '']'' # r) = CHR '']'' # r" "skip_ws (CHR ''}'' # r) = CHR ''}'' # r" "skip_ws [] = []"
  by (simp_all add: skip_ws_def json_ws_def)

lemma parse_value_blanks: "list_all json_ws w \<Longrightarrow> parse_value n (w @ s) = parse_value n s"
  by (cases n) (simp_all add: parse_value.simps skip_ws_blanks)

lemma ends_number_blanks: "list_all json_ws w \<Longrightarrow> ends_number r \<Longrightarrow> ends_number (w @ r)"
  by (cases w) (auto simp: ends_number_def is_digit_def json_ws_def)

text \<open>The text \<open>t\<close> is read as the value \<open>v\<close>, whatever follows it.\<close>

definition reads_as :: "string \<Rightarrow> json \<Rightarrow> bool" where
  "reads_as t v \<longleftrightarrow> (\<forall>r. starts_value (t @ r)) \<and>
     (\<forall>n r. length t \<le> n \<longrightarrow> ends_number r \<longrightarrow> parse_value n (t @ r) = Some (v, r))"

lemma reads_asD: "reads_as t v \<Longrightarrow> length t \<le> n \<Longrightarrow> ends_number r \<Longrightarrow> parse_value n (t @ r) = Some (v, r)"
  by (simp add: reads_as_def)

lemma reads_as_starts: "reads_as t v \<Longrightarrow> starts_value (t @ r)"
  by (simp add: reads_as_def)

lemma reads_asI:
  assumes "\<And>r. starts_value (t @ r)" and "\<And>m r. length t \<le> Suc m \<Longrightarrow> ends_number r \<Longrightarrow> parse_value (Suc m) (t @ r) = Some (v, r)"
  shows "reads_as t v"
  unfolding reads_as_def
proof (intro conjI allI impI)
  fix n r
  assume "length t \<le> n" "ends_number r"
  moreover have "t \<noteq> []" using assms(1) [of "[]"] by (auto simp: starts_value_def)
  ultimately show "parse_value n (t @ r) = Some (v, r)" using assms(2) by (cases n) auto
qed (rule assms(1))

text \<open>Items and fields, with blanks \<open>w\<close> before each of them, \<open>w'\<close> after the last and \<open>u\<close> before the value of a field.\<close>

lemma parse_items_join:
  assumes "xs \<noteq> []" and "\<forall>x \<in> set xs. reads_as (f x) x" and "length (js_join ('','' @ w) (map f xs)) < n"
    and w: "list_all json_ws w" "list_all json_ws w'"
  shows "parse_items n (w @ js_join ('','' @ w) (map f xs) @ w' @ CHR '']'' # r) = Some (xs, r)"
  using assms(1-3)
proof (induction xs arbitrary: n)
  case (Cons x xs)
  then obtain m where n: "n = Suc m" by (cases n) auto
  have val: "parse_value m (w @ f x @ s) = Some (x, s)" if "length (f x) \<le> m" "ends_number s" for s
    using reads_asD [of "f x" x m s] Cons.prems(2) that by (simp add: parse_value_blanks [OF w(1)])
  show ?case
  proof (cases "xs = []")
    case True
    then show ?thesis
      using Cons.prems val [of "w' @ CHR '']'' # r"] by (simp add: n parse_items.simps ends_number_blanks skip_ws_blanks w)
  next
    case False
    let ?t = "js_join ('','' @ w) (map f xs)"
    have j: "js_join ('','' @ w) (map f (x # xs)) = f x @ '','' @ w @ ?t" using False by (simp add: js_join_Cons)
    have "parse_items m (w @ ?t @ w' @ CHR '']'' # r) = Some (xs, r)"
      using Cons.IH [of m] Cons.prems False j by (simp add: n)
    then show ?thesis
      using val [of "CHR '','' # w @ ?t @ w' @ CHR '']'' # r"] Cons.prems(3) j
      by (simp only: n parse_items.simps j append_assoc) (simp add: n)
  qed
qed simp

lemma parse_fields_join:
  fixes g :: "json \<Rightarrow> string"
  assumes "fs \<noteq> []" and "\<forall>(k, v) \<in> set fs. reads_as (g v) v"
    and "length (js_join ('','' @ w) (map (\<lambda>(k, v). quote_string k @ '':'' @ u @ g v) fs)) < n"
    and w: "list_all json_ws w" "list_all json_ws w'" "list_all json_ws u"
  shows "parse_fields n (w @ js_join ('','' @ w) (map (\<lambda>(k, v). quote_string k @ '':'' @ u @ g v) fs) @ w' @ CHR ''}'' # r) = Some (fs, r)"
  using assms(1-3)
proof (induction fs arbitrary: n)
  case (Cons f fs)
  obtain k v where f: "f = (k, v)" by (cases f)
  obtain m where n: "n = Suc m" using Cons.prems by (cases n) auto
  have key: "quote_string k @ t = QUOTE # concat (map escape_char k) @ QUOTE # t" for t
    by (simp add: quote_string_def)
  have val: "parse_value m (u @ g v @ s) = Some (v, s)" if "length (g v) \<le> m" "ends_number s" for s
    using reads_asD [of "g v" v m s] Cons.prems(2) f that by (simp add: parse_value_blanks [OF w(3)])
  show ?case
  proof (cases "fs = []")
    case True
    then show ?thesis
      using Cons.prems val [of "w' @ CHR ''}'' # r"]
      by (simp add: n f parse_fields.simps key parse_chars_quoted skip_ws_blanks w ends_number_blanks)
  next
    case False
    let ?t = "js_join ('','' @ w) (map (\<lambda>(k, v). quote_string k @ '':'' @ u @ g v) fs)"
    have j: "js_join ('','' @ w) (map (\<lambda>(k, v). quote_string k @ '':'' @ u @ g v) (f # fs)) = quote_string k @ '':'' @ u @ g v @ '','' @ w @ ?t"
      using False by (simp add: js_join_Cons f)
    have "parse_fields m (w @ ?t @ w' @ CHR ''}'' # r) = Some (fs, r)"
      using Cons.IH [of m] Cons.prems False j by (simp add: n)
    then show ?thesis
      using val [of "CHR '','' # w @ ?t @ w' @ CHR ''}'' # r"] Cons.prems(3) j
      by (simp only: n parse_fields.simps j append_assoc key) (simp add: parse_chars_quoted f n skip_ws_blanks w)
  qed
qed simp

lemma update_all:
  "distinct (map fst (acc @ fs)) \<Longrightarrow> foldl (\<lambda>m (k, v). AList.update k v m) acc fs = acc @ fs"
proof (induction fs arbitrary: acc)
  case (Cons f fs)
  obtain k v where f: "f = (k, v)" by (cases f)
  have "AList.update k v acc = acc @ [(k, v)]"
    using Cons.prems f by (intro update_append_new) auto
  then show ?case using Cons.IH [of "acc @ [f]"] Cons.prems f by simp
qed simp

lemma starts_brackets [simp]: "starts_value (CHR ''['' # r)" "starts_value (CHR ''{'' # r)"
  by (simp_all add: starts_value_def json_ws_def)

lemma reads_empty: "reads_as ''[]'' (JArr [])" "reads_as ''{}'' (JObj [])"
  by (rule reads_asI; simp add: parse_value.simps skip_ws_starts)+

lemma reads_arr:
  assumes "xs \<noteq> []" "\<forall>x \<in> set xs. reads_as (f x) x" and w: "list_all json_ws w" "list_all json_ws w'"
  shows "reads_as (''['' @ w @ js_join ('','' @ w) (map f xs) @ w' @ '']'') (JArr xs)"
proof (rule reads_asI)
  fix m r
  let ?j = "js_join ('','' @ w) (map f xs)"
  assume len: "length (''['' @ w @ ?j @ w' @ '']'') \<le> Suc m"
  obtain x xs' where x: "xs = x # xs'" using assms(1) by (cases xs) auto
  have "\<exists>t. ?j = f x @ t" by (cases xs') (auto simp: x)
  then have "starts_value (?j @ w' @ CHR '']'' # r)" using reads_as_starts [of "f x" x] assms(2) x by auto
  then obtain d t where "skip_ws (w @ ?j @ w' @ CHR '']'' # r) = d # t" "d \<noteq> CHR '']''"
    by (cases "?j @ w' @ CHR '']'' # r") (auto simp: starts_value_def skip_ws_def skip_ws_blanks [OF w(1), unfolded skip_ws_def])
  then show "parse_value (Suc m) ((''['' @ w @ ?j @ w' @ '']'') @ r) = Some (JArr xs, r)"
    using parse_items_join [OF assms(1,2) _ w, of m r] len by (simp add: parse_value.simps skip_ws_starts)
qed simp

lemma reads_obj:
  fixes g :: "json \<Rightarrow> string"
  assumes "fs \<noteq> []" "\<forall>(k, v) \<in> set fs. reads_as (g v) v" and "distinct (map fst fs)"
    and w: "list_all json_ws w" "list_all json_ws w'" "list_all json_ws u"
  shows "reads_as (''{'' @ w @ js_join ('','' @ w) (map (\<lambda>(k, v). quote_string k @ '':'' @ u @ g v) fs) @ w' @ ''}'') (JObj fs)"
proof (rule reads_asI)
  fix m r
  let ?j = "js_join ('','' @ w) (map (\<lambda>(k, v). quote_string k @ '':'' @ u @ g v) fs)"
  assume len: "length (''{'' @ w @ ?j @ w' @ ''}'') \<le> Suc m"
  obtain f fs' where "fs = f # fs'" using assms(1) by (cases fs) auto
  then have "\<exists>t. ?j = QUOTE # t" by (cases fs'; cases f) (auto simp: quote_string_def)
  then obtain t where t: "?j = QUOTE # t" by blast
  have "skip_ws (w @ ?j @ w' @ CHR ''}'' # r) = QUOTE # t @ w' @ CHR ''}'' # r" unfolding t by (simp add: skip_ws_blanks w)
  then show "parse_value (Suc m) ((''{'' @ w @ ?j @ w' @ ''}'') @ r) = Some (JObj fs, r)"
    using parse_fields_join [OF assms(1,2) _ w, of m r] update_all [of "[]" fs] assms(3) len
    by (simp add: parse_value.simps skip_ws_starts)
qed simp

lemma reads_num: "reads_as (show_int i) (JNum i)"
proof (rule reads_asI [OF starts_digits])
  fix m r
  assume r: "ends_number r"
  note skip = skip_ws_starts [OF starts_digits [of i r]]
  show "parse_value (Suc m) (show_int i @ r) = Some (JNum i, r)"
  proof (cases "i < 0")
    case True
    then show ?thesis
      using skip parse_digits_show_nat [OF r, of "nat (- i)"] by (simp add: parse_value.simps show_int_def)
  next
    case False
    obtain c s where c: "show_nat (nat i) = c # s" "is_digit c" by (rule show_nat_Cons)
    then show ?thesis
      using False skip digit_starts [OF c(2)] parse_digits_show_nat [OF r, of "nat i"]
      by (simp add: parse_value.simps show_int_def)
  qed
qed

lemma reads_atoms:
  "reads_as ''null'' JNull" "reads_as (if b then ''true'' else ''false'') (JBool b)" "reads_as (quote_string s) (JStr s)"
proof -
  have skip: "skip_ws (CHR ''n'' # r) = CHR ''n'' # r" "skip_ws (CHR ''t'' # r) = CHR ''t'' # r"
    "skip_ws (CHR ''f'' # r) = CHR ''f'' # r" for r
    by (simp_all add: skip_ws_def json_ws_def)
  show "reads_as ''null'' JNull" "reads_as (if b then ''true'' else ''false'') (JBool b)"
    by (rule reads_asI; simp add: parse_value.simps parse_word_def js_startsWith_def skip starts_value_def json_ws_def)+
  show "reads_as (quote_string s) (JStr s)"
    by (rule reads_asI) (simp_all add: parse_value.simps quote_string_def parse_chars_quoted starts_value_def json_ws_def)
qed

lemma reads_stringify: "wf_json v \<Longrightarrow> reads_as (JSON_stringify v) v"
proof (induction v rule: wf_json.induct)
  case (1 xs)
  then show ?case using reads_arr [of xs JSON_stringify "[]" "[]"] reads_empty by (cases "xs = []") (auto simp: list_all_iff)
next
  case (2 fs)
  then have "\<forall>(k, v) \<in> set fs. reads_as (JSON_stringify v) v" by (fastforce simp: list_all_iff)
  then show ?case using 2(2) reads_obj [of fs JSON_stringify "[]" "[]" "[]"] reads_empty by (cases "fs = []") (auto simp: list_all_iff)
qed (simp_all add: reads_num reads_atoms [simplified])

lemma reads_pretty: "wf_json v \<Longrightarrow> list_all json_ws ind \<Longrightarrow> reads_as (JSON_pretty ind v) v"
proof (induction v arbitrary: ind rule: wf_json.induct)
  case (1 xs)
  have ws: "list_all json_ws (CHR 0x0A # ind @ ''  '')" "list_all json_ws (CHR 0x0A # ind)" "list_all json_ws (ind @ ''  '')"
    using 1(3) by (simp_all, simp_all add: json_ws_def)
  show ?case
    using reads_arr [of xs "JSON_pretty (ind @ ''  '')", OF _ _ ws(1,2)] 1 ws(3) reads_empty by (cases "xs = []") (auto simp: list_all_iff)
next
  case (2 fs)
  have ws: "list_all json_ws (CHR 0x0A # ind @ ''  '')" "list_all json_ws (CHR 0x0A # ind)" "list_all json_ws '' ''" "list_all json_ws (ind @ ''  '')"
    using 2(3) by (simp_all, simp_all add: json_ws_def)
  have "\<forall>(k, v) \<in> set fs. reads_as (JSON_pretty (ind @ ''  '') v) v" using 2 ws(4) by (fastforce simp: list_all_iff)
  then show ?case
    using reads_obj [of fs "JSON_pretty (ind @ ''  '')", OF _ _ _ ws(1-3)] 2(2) reads_empty by (cases "fs = []") (auto simp: list_all_iff)
qed (simp_all add: reads_num reads_atoms [simplified])

lemma parse_reads:
  assumes "reads_as t v" "list_all json_ws w"
  shows "JSON_parse (t @ w) = Some v"
  using reads_asD [OF assms(1), of "length (t @ w) + 1" w] ends_number_blanks [OF assms(2), of "[]"] skip_ws_blanks [OF assms(2), of "[]"]
  by (simp add: JSON_parse_def)

lemma JSON_parse_stringify: "wf_json v \<Longrightarrow> JSON_parse (JSON_stringify v) = Some v"
  using parse_reads [OF reads_stringify, of v "[]"] by simp

lemma JSON_parse_pretty: "wf_json v \<Longrightarrow> JSON_parse (JSON_pretty [] v @ [CHR 0x0A]) = Some v"
  by (rule parse_reads [OF reads_pretty]) (simp_all add: json_ws_def)

lemma json_of_bytes_json_bytes: "wf_json v \<Longrightarrow> json_of_bytes (json_bytes v) = Some v"
  by (simp add: json_of_bytes_def json_bytes_def utf8_decode_encode JSON_parse_stringify)

end
