(* ===== verification/StdioCodec.thy ===== *)
theory StdioCodec
  imports JsonText
begin

text \<open>
  The framing layer of the bridge, \<^verbatim>\<open>packages/opencode-app/src/bridge/stdio-codec.ts\<close>: a frame is an
  ASCII header block (\<^verbatim>\<open>Content-Length\<close>, \<^verbatim>\<open>Content-Type\<close>, a blank line) and a body of that many bytes.

  The body functions are arguments of \<open>encodeRpcBody\<close> and \<open>decodeRpcBody\<close>: those of the JSON codec are
  \<open>json_bytes\<close> and \<open>json_parse_body\<close>, those of the other come from the third-party package
  \<^verbatim>\<open>@msgpack/msgpack\<close>. What a client relies on is the locale \<open>body_codec\<close>, interpreted on the JSON codec.
\<close>

datatype bridge_rpc_codec = JSON_RPC_CODEC | MSGPACK_RPC_CODEC

datatype bridge_codec_mode = ModeAuto | ModeJson | ModeMsgpack

definition MAX_SAFE_INTEGER :: nat where
  "MAX_SAFE_INTEGER = 2 ^ 53 - 1"

definition DEFAULT_BRIDGE_MAX_FRAME_BYTES :: nat where
  "DEFAULT_BRIDGE_MAX_FRAME_BYTES = 16 * 1024 * 1024"

definition MIN_BRIDGE_MAX_FRAME_BYTES :: nat where
  "MIN_BRIDGE_MAX_FRAME_BYTES = 64 * 1024"

definition JSON_RPC_CONTENT_TYPE :: string where
  "JSON_RPC_CONTENT_TYPE = ''application/vscode-jsonrpc; charset=utf-8''"

definition MSGPACK_RPC_CONTENT_TYPE :: string where
  "MSGPACK_RPC_CONTENT_TYPE = ''application/x-msgpack; bridge=dh-jsonrpc; version=1''"

record bridge_frame_headers =
  contentLength :: "nat option"
  contentType :: "string option"
  malformedContentLength :: bool

datatype codec_error =
    MaxFrameBytesRange int
  | BodyTooLarge nat nat
  | BodyDecode string

definition isValidBridgeMaxFrameBytes :: "int \<Rightarrow> bool" where
  "isValidBridgeMaxFrameBytes v =
     (\<bar>v\<bar> \<le> int MAX_SAFE_INTEGER \<and> int MIN_BRIDGE_MAX_FRAME_BYTES \<le> v
      \<and> v \<le> int DEFAULT_BRIDGE_MAX_FRAME_BYTES)"

definition validateBridgeMaxFrameBytes :: "int \<Rightarrow> codec_error + int" where
  "validateBridgeMaxFrameBytes v =
     (if \<not> isValidBridgeMaxFrameBytes v then Inl (MaxFrameBytesRange v) else Inr v)"

text \<open>The argument has type \<^verbatim>\<open>unknown\<close>; anything but a string selects \<^verbatim>\<open>auto\<close>.\<close>

definition normalizeBridgeCodecModeOverride :: "json \<Rightarrow> bridge_codec_mode" where
  "normalizeBridgeCodecModeOverride value =
     (case value of
        JStr s \<Rightarrow>
          (let normalized = js_lower (js_trim s) in
           if normalized = ''json'' then ModeJson
           else if normalized = ''msgpack'' then ModeMsgpack
           else if normalized = ''auto'' then ModeAuto
           else ModeAuto)
      | _ \<Rightarrow> ModeAuto)"

abbreviation CR :: byte where "CR \<equiv> CHR 0x0D"
abbreviation LF :: byte where "LF \<equiv> CHR 0x0A"
abbreviation CRLF :: string where "CRLF \<equiv> [CR, LF]"

text \<open>The index of the first blank line; the loop runs over \<open>index \<le> buffer.length - 4\<close>.\<close>

fun findFrameHeaderEnd :: "buffer \<Rightarrow> nat option" where
  "findFrameHeaderEnd (a # b # c # d # rest) =
     (if a = CR \<and> b = LF \<and> c = CR \<and> d = LF then Some 0
      else map_option Suc (findFrameHeaderEnd (b # c # d # rest)))"
| "findFrameHeaderEnd _ = None"

definition all_digits :: "string \<Rightarrow> bool" where
  "all_digits s = (s \<noteq> [] \<and> list_all is_digit s)"

text \<open>
  One iteration of the loop over the header lines. \<open>Number(value)\<close> on a digit string is a safe
  integer exactly when the decimal value is at most $2^{53} - 1$, and then it is that value.
\<close>

definition parseHeaderLine :: "bridge_frame_headers \<Rightarrow> string \<Rightarrow> bridge_frame_headers" where
  "parseHeaderLine h line =
     (case js_split line '':'' of
        [] \<Rightarrow> h
      | name # rest \<Rightarrow>
          if name = [] \<or> rest = [] then h
          else
            let normalizedName = js_lower (js_trim name); value = js_trim (js_join '':'' rest) in
            if normalizedName = ''content-length'' then
              (if contentLength h \<noteq> None \<or> \<not> all_digits value
               then h\<lparr>malformedContentLength := True, contentLength := None\<rparr>
               else
                 let parsed = read_nat value in
                 if parsed \<le> MAX_SAFE_INTEGER then h\<lparr>contentLength := Some parsed\<rparr>
                 else h\<lparr>malformedContentLength := True, contentLength := None\<rparr>)
            else if normalizedName = ''content-type'' then h\<lparr>contentType := Some value\<rparr>
            else h)"

definition parseFrameHeaders :: "string \<Rightarrow> bridge_frame_headers" where
  "parseFrameHeaders header =
     foldl parseHeaderLine
       \<lparr>contentLength = None, contentType = None, malformedContentLength = False\<rparr>
       (js_split header CRLF)"

definition contentTypeForCodec :: "bridge_rpc_codec \<Rightarrow> string" where
  "contentTypeForCodec codec =
     (if codec = MSGPACK_RPC_CODEC then MSGPACK_RPC_CONTENT_TYPE else JSON_RPC_CONTENT_TYPE)"

definition encodeRpcBody ::
  "('v \<Rightarrow> buffer) \<Rightarrow> ('v \<Rightarrow> buffer) \<Rightarrow> bridge_rpc_codec \<Rightarrow> 'v \<Rightarrow> buffer" where
  "encodeRpcBody encodeJson encodeMsgpack codec value =
     (if codec = JSON_RPC_CODEC then encodeJson value else encodeMsgpack value)"

definition decodeRpcBody ::
  "(buffer \<Rightarrow> string + 'v) \<Rightarrow> (nat \<Rightarrow> buffer \<Rightarrow> string + 'v) \<Rightarrow> bridge_rpc_codec \<Rightarrow> buffer \<Rightarrow> int
   \<Rightarrow> codec_error + 'v" where
  "decodeRpcBody decodeJson decodeMsgpack codec body maxFrameBytes =
     (case validateBridgeMaxFrameBytes maxFrameBytes of
        Inl e \<Rightarrow> Inl e
      | Inr _ \<Rightarrow>
          (case (if codec = JSON_RPC_CODEC then decodeJson body
                 else decodeMsgpack (nat maxFrameBytes) body) of
             Inl msg \<Rightarrow> Inl (BodyDecode msg)
           | Inr v \<Rightarrow> Inr v))"

text \<open>The text of a \<^verbatim>\<open>SyntaxError\<close> is the engine's: an argument.\<close>

definition json_parse_body :: "(buffer \<Rightarrow> string) \<Rightarrow> buffer \<Rightarrow> string + json" where
  "json_parse_body syntaxMessage body =
     (case json_of_bytes body of Some v \<Rightarrow> Inr v | None \<Rightarrow> Inl (syntaxMessage body))"

definition frameHeader :: "bridge_rpc_codec \<Rightarrow> nat \<Rightarrow> string" where
  "frameHeader codec n =
     ''Content-Length: '' @ show_nat n @ CRLF @ ''Content-Type: '' @ contentTypeForCodec codec"

definition encodeRpcFrame ::
  "(bridge_rpc_codec \<Rightarrow> 'v \<Rightarrow> buffer) \<Rightarrow> bridge_rpc_codec \<Rightarrow> 'v \<Rightarrow> int \<Rightarrow> codec_error + buffer" where
  "encodeRpcFrame enc codec value maxFrameBytes =
     (case validateBridgeMaxFrameBytes maxFrameBytes of
        Inl e \<Rightarrow> Inl e
      | Inr _ \<Rightarrow>
          let body = enc codec value in
          if int (length body) > maxFrameBytes then Inl (BodyTooLarge (length body) (nat maxFrameBytes))
          else Inr (frameHeader codec (length body) @ CRLF @ CRLF @ body))"

text \<open>\<open>buffer.toString("ascii")\<close> clears the top bit of every byte.\<close>

definition ascii_of :: "buffer \<Rightarrow> string" where
  "ascii_of bs = map (\<lambda>b. char_of ((of_char b :: nat) mod 128)) bs"

section \<open>A reference reading of the Content-Length headers\<close>

text \<open>The values of the lines whose normalised name is \<^verbatim>\<open>content-length\<close>, in order.\<close>

definition headerField :: "string \<Rightarrow> (string \<times> string) option" where
  "headerField line =
     (case js_split line '':'' of
        name # r # rs \<Rightarrow>
          if name = [] then None else Some (js_lower (js_trim name), js_trim (js_join '':'' (r # rs)))
      | _ \<Rightarrow> None)"

definition contentLengthValues :: "string \<Rightarrow> string list" where
  "contentLengthValues header =
     [v. Some (n, v) \<leftarrow> map headerField (js_split header CRLF), n = ''content-length'']"

definition goodLength :: "string \<Rightarrow> bool" where
  "goodLength v = (all_digits v \<and> read_nat v \<le> MAX_SAFE_INTEGER)"

section \<open>Header parsing\<close>

lemma parseHeaderLine_field:
  "parseHeaderLine h line =
     (case headerField line of
        None \<Rightarrow> h
      | Some (n, v) \<Rightarrow>
          if n = ''content-length'' then
            (if contentLength h = None \<and> goodLength v then h\<lparr>contentLength := Some (read_nat v)\<rparr>
             else h\<lparr>malformedContentLength := True, contentLength := None\<rparr>)
          else if n = ''content-type'' then h\<lparr>contentType := Some v\<rparr> else h)"
  by (auto simp: parseHeaderLine_def headerField_def goodLength_def Let_def split: list.splits)

text \<open>Reading the length values one after the other, as the loop does.\<close>

fun lengthState :: "nat option \<times> bool \<Rightarrow> string list \<Rightarrow> nat option \<times> bool" where
  "lengthState s [] = s"
| "lengthState (cl, m) (v # vs) =
     lengthState (if cl = None \<and> goodLength v then (Some (read_nat v), m) else (None, True)) vs"

lemma foldl_parseHeaderLine_length:
  "(contentLength (foldl parseHeaderLine h ls), malformedContentLength (foldl parseHeaderLine h ls))
   = lengthState (contentLength h, malformedContentLength h)
       [v. Some (n, v) \<leftarrow> map headerField ls, n = ''content-length'']"
proof (induction ls arbitrary: h)
  case Nil
  then show ?case by simp
next
  case (Cons l ls)
  then show ?case
    by (cases "headerField l") (auto simp: parseHeaderLine_field)
qed

lemma lengthState_malformed: "snd (lengthState (cl, True) vs)"
  by (induction vs arbitrary: cl) auto

lemma lengthState_spec:
  "lengthState (None, False) vs =
     (case vs of [] \<Rightarrow> (None, False)
      | v # vs' \<Rightarrow> if vs' = [] \<and> goodLength v then (Some (read_nat v), False)
                   else (fst (lengthState (None, False) vs), True))"
proof (cases vs)
  case Nil
  then show ?thesis by simp
next
  case (Cons v vs')
  show ?thesis
  proof (cases vs')
    case Nil
    with Cons show ?thesis by simp
  next
    case (Cons w ws)
    have "snd (lengthState (None, False) vs)"
      using \<open>vs = v # vs'\<close> Cons lengthState_malformed by auto
    with \<open>vs = v # vs'\<close> Cons show ?thesis by (simp add: prod_eq_iff)
  qed
qed

lemma parseFrameHeaders_lengthState:
  "(contentLength (parseFrameHeaders h), malformedContentLength (parseFrameHeaders h))
   = lengthState (None, False) (contentLengthValues h)"
  by (simp add: parseFrameHeaders_def contentLengthValues_def foldl_parseHeaderLine_length)

section \<open>Finding the end of the header\<close>

lemma findFrameHeaderEnd_append:
  "findFrameHeaderEnd b = Some i \<Longrightarrow> findFrameHeaderEnd (b @ c) = Some i"
proof (induction b arbitrary: i rule: findFrameHeaderEnd.induct)
  case (1 a b c d rest)
  then show ?case by (auto split: if_splits)
qed auto

lemma findFrameHeaderEnd_bound: "findFrameHeaderEnd b = Some i \<Longrightarrow> i + 4 \<le> length b"
proof (induction b arbitrary: i rule: findFrameHeaderEnd.induct)
  case (1 a b c d rest)
  then show ?case by (fastforce split: if_splits)
qed auto

lemma findFrameHeaderEnd_hit:
  "findFrameHeaderEnd b = Some i \<Longrightarrow> take 4 (drop i b) = [CR, LF, CR, LF]"
proof (induction b arbitrary: i rule: findFrameHeaderEnd.induct)
  case (1 a b c d rest)
  then show ?case by (auto split: if_splits)
qed auto

lemma findFrameHeaderEnd_Cons:
  "c \<noteq> CR \<Longrightarrow> findFrameHeaderEnd (c # bs) = map_option Suc (findFrameHeaderEnd bs)"
  by (cases bs rule: findFrameHeaderEnd.cases) auto

lemma findFrameHeaderEnd_skip:
  "CR \<notin> set h \<Longrightarrow> findFrameHeaderEnd (h @ bs) = map_option ((+) (length h)) (findFrameHeaderEnd bs)"
proof (induction h)
  case Nil
  then show ?case by (simp add: option.map_ident)
next
  case (Cons c h)
  then have "c \<noteq> CR" by auto
  with Cons show ?case
    by (simp add: findFrameHeaderEnd_Cons option.map_comp comp_def)
qed

lemma findFrameHeaderEnd_CRLF:
  "c \<noteq> CR \<Longrightarrow> findFrameHeaderEnd (CR # LF # c # bs) = map_option (\<lambda>i. i + 2) (findFrameHeaderEnd (c # bs))"
  by (cases bs) (auto simp: findFrameHeaderEnd_Cons option.map_comp comp_def)

section \<open>The header that the encoder writes\<close>

lemma digits_not: "list_all is_digit s \<Longrightarrow> \<not> is_digit c \<Longrightarrow> c \<notin> set s"
  by (auto simp: list_all_iff)

lemma show_nat_no_CR [simp]: "CR \<notin> set (show_nat n)"
  using show_nat_digits by (rule digits_not) (simp add: is_digit_def)

lemma show_nat_no_colon [simp]: "CHR '':'' \<notin> set (show_nat n)"
  using show_nat_digits by (rule digits_not) (simp add: is_digit_def)

lemma contentType_no_CR [simp]: "CR \<notin> set (contentTypeForCodec c)"
  by (simp add: contentTypeForCodec_def MSGPACK_RPC_CONTENT_TYPE_def JSON_RPC_CONTENT_TYPE_def)

lemma contentType_no_colon [simp]: "CHR '':'' \<notin> set (contentTypeForCodec c)"
  by (simp add: contentTypeForCodec_def MSGPACK_RPC_CONTENT_TYPE_def JSON_RPC_CONTENT_TYPE_def)

lemma findFrameHeaderEnd_frameHeader:
  "findFrameHeaderEnd (frameHeader codec n @ CRLF @ CRLF @ body) = Some (length (frameHeader codec n))"
  unfolding frameHeader_def
  by (simp only: append_assoc)
    (simp add: findFrameHeaderEnd_skip findFrameHeaderEnd_Cons findFrameHeaderEnd_CRLF)

lemma js_ws_digit: "is_digit c \<Longrightarrow> \<not> js_ws c"
  by (auto simp: is_digit_def js_ws_def)

lemma js_trim_show_nat: "js_trim (CHR '' '' # show_nat n) = show_nat n"
proof -
  have ws: "js_ws (CHR '' '')" by (simp add: js_ws_def)
  have hd: "is_digit (hd (show_nat n))" "is_digit (last (show_nat n))"
    using show_nat_digits [of n] by (auto simp: list_all_iff)
  have "js_trim (CHR '' '' # show_nat n) = js_trim (show_nat n)"
    by (simp add: js_trim_def ws)
  also have "\<dots> = show_nat n"
    by (rule js_trim_id) (use hd js_ws_digit in auto)
  finally show ?thesis .
qed

lemma js_trim_contentType: "js_trim (CHR '' '' # contentTypeForCodec c) = contentTypeForCodec c"
  by (simp add: contentTypeForCodec_def MSGPACK_RPC_CONTENT_TYPE_def JSON_RPC_CONTENT_TYPE_def
      js_trim_def js_ws_def)

lemma headerField_colon:
  assumes "name \<noteq> []" "CHR '':'' \<notin> set name" "CHR '':'' \<notin> set v"
  shows "headerField (name @ '':'' @ v) = Some (js_lower (js_trim name), js_trim v)"
proof -
  have "js_split (name @ '':'' @ v) '':'' = [name, v]"
    using assms by (simp only: js_split_step js_split_no_sep list.sel list.simps simp_thms)
  then show ?thesis using assms(1) by (simp add: headerField_def)
qed

lemma name_lower [simp]:
  "js_lower (js_trim ''Content-Length'') = ''content-length''"
  "js_lower (js_trim ''Content-Type'') = ''content-type''"
  by code_simp+

lemma split_frameHeader:
  "js_split (frameHeader codec n) CRLF =
     [''Content-Length'' @ '':'' @ '' '' @ show_nat n,
      ''Content-Type'' @ '':'' @ '' '' @ contentTypeForCodec codec]"
proof -
  have "frameHeader codec n =
      (''Content-Length: '' @ show_nat n) @ CRLF @ (''Content-Type: '' @ contentTypeForCodec codec)"
    by (simp add: frameHeader_def)
  moreover have "js_split \<dots> CRLF = (''Content-Length: '' @ show_nat n)
      # js_split (''Content-Type: '' @ contentTypeForCodec codec) CRLF"
    by (rule js_split_step) simp_all
  moreover have "js_split (''Content-Type: '' @ contentTypeForCodec codec) CRLF
      = [''Content-Type: '' @ contentTypeForCodec codec]"
    by (rule js_split_no_sep) simp_all
  ultimately show ?thesis by simp
qed

lemma header_fields:
  "headerField (''Content-Length'' @ '':'' @ '' '' @ show_nat n) = Some (''content-length'', show_nat n)"
  "headerField (''Content-Type'' @ '':'' @ '' '' @ contentTypeForCodec codec)
   = Some (''content-type'', contentTypeForCodec codec)"
  using headerField_colon [of "''Content-Length''" "'' '' @ show_nat n"]
    headerField_colon [of "''Content-Type''" "'' '' @ contentTypeForCodec codec"]
  by (simp_all only: name_lower) (simp_all add: js_trim_show_nat js_trim_contentType)

lemma parse_frameHeader:
  assumes "n \<le> MAX_SAFE_INTEGER"
  shows "parseFrameHeaders (frameHeader codec n) =
     \<lparr>contentLength = Some n, contentType = Some (contentTypeForCodec codec),
      malformedContentLength = False\<rparr>"
proof -
  have "goodLength (show_nat n)"
    using assms show_nat_digits by (simp add: goodLength_def all_digits_def)
  then show ?thesis
    by (simp only: parseFrameHeaders_def split_frameHeader foldl.simps parseHeaderLine_field
        header_fields) simp
qed

lemma ascii_of_ascii: "list_all (\<lambda>c. (of_char c :: nat) < 128) s \<Longrightarrow> ascii_of s = s"
  by (induction s) (auto simp: ascii_of_def)

lemma is_digit_ascii: "is_digit c \<Longrightarrow> (of_char c :: nat) < 128"
  by (simp add: is_digit_def)

lemma ascii_frameHeader: "ascii_of (frameHeader codec n) = frameHeader codec n"
proof (rule ascii_of_ascii)
  have "list_all (\<lambda>c. (of_char c :: nat) < 128) (show_nat n)"
    using show_nat_digits [of n] by (auto simp: list_all_iff intro: is_digit_ascii)
  then show "list_all (\<lambda>c. (of_char c :: nat) < 128) (frameHeader codec n)"
    by (simp add: frameHeader_def contentTypeForCodec_def MSGPACK_RPC_CONTENT_TYPE_def
        JSON_RPC_CONTENT_TYPE_def)
qed

lemma validate_iff:
  "validateBridgeMaxFrameBytes v = Inr w \<longleftrightarrow> w = v \<and> 65536 \<le> v \<and> v \<le> 16777216"
  by (auto simp: validateBridgeMaxFrameBytes_def isValidBridgeMaxFrameBytes_def
      MAX_SAFE_INTEGER_def MIN_BRIDGE_MAX_FRAME_BYTES_def DEFAULT_BRIDGE_MAX_FRAME_BYTES_def)

lemma encodeRpcFrame_Inr:
  assumes "encodeRpcFrame enc codec v m = Inr f"
  shows "f = frameHeader codec (length (enc codec v)) @ CRLF @ CRLF @ enc codec v"
    and "int (length (enc codec v)) \<le> m" and "65536 \<le> m" and "m \<le> 16777216"
  using assms
  by (auto simp: encodeRpcFrame_def Let_def validate_iff split: sum.splits if_splits)

section \<open>The contract of a body codec\<close>

locale body_codec =
  fixes enc :: "'v \<Rightarrow> buffer" and dec :: "buffer \<Rightarrow> string + 'v" and representable :: "'v \<Rightarrow> bool"
  assumes dec_enc: "representable v \<Longrightarrow> dec (enc v) = Inr v"
begin

lemma decode_encode:
  "65536 \<le> m \<Longrightarrow> m \<le> 16777216 \<Longrightarrow> representable v \<Longrightarrow>
     decodeRpcBody dec decodeMsgpack JSON_RPC_CODEC (encodeRpcBody enc encodeMsgpack JSON_RPC_CODEC v) m
     = Inr v"
  using validate_iff [of m m] by (simp add: decodeRpcBody_def encodeRpcBody_def dec_enc)

lemma enc_inj: "representable v \<Longrightarrow> representable w \<Longrightarrow> enc v = enc w \<Longrightarrow> v = w"
  by (metis dec_enc sum.inject(2))

end

interpretation json_codec: body_codec json_bytes "json_parse_body syntaxMessage" wf_json
  by unfold_locales (simp add: json_parse_body_def json_of_bytes_json_bytes)

section \<open>Properties\<close>

text \<open>
  Content-Length is read strictly. For any header block, a length is accepted exactly when it
  holds one \<^verbatim>\<open>content-length\<close> line (case and surrounding blanks ignored) and its value is a decimal
  numeral that is a safe integer; no such line gives no length and no error; every other header block,
  a repeated line included, is flagged malformed.
\<close>

theorem parseFrameHeaders_content_length:
  "(contentLength (parseFrameHeaders h) = Some n \<and> \<not> malformedContentLength (parseFrameHeaders h)
     \<longleftrightarrow> (\<exists>v. contentLengthValues h = [v] \<and> goodLength v \<and> read_nat v = n))
   \<and> (contentLength (parseFrameHeaders h) = None \<and> \<not> malformedContentLength (parseFrameHeaders h)
     \<longleftrightarrow> contentLengthValues h = [])"
  using parseFrameHeaders_lengthState [of h] lengthState_spec [of "contentLengthValues h"]
  by (auto simp: prod_eq_iff split: list.splits if_splits)

text \<open>
  What \<^verbatim>\<open>encodeRpcFrame\<close> writes, the header functions read back: whatever bytes follow the frame,
  the header end is found right before the blank line, the header parses to the body's length and the
  codec's content type, and the next \<open>length body\<close> bytes are the body.
\<close>

theorem encodeRpcFrame_header_roundtrip:
  assumes "encodeRpcFrame enc codec v m = Inr f"
  shows "\<exists>i. findFrameHeaderEnd (f @ rest) = Some i
     \<and> parseFrameHeaders (ascii_of (take i (f @ rest)))
         = \<lparr>contentLength = Some (length (enc codec v)),
            contentType = Some (contentTypeForCodec codec), malformedContentLength = False\<rparr>
     \<and> length f = i + 4 + length (enc codec v)
     \<and> take (length (enc codec v)) (drop (i + 4) (f @ rest)) = enc codec v"
proof -
  let ?b = "enc codec v"
  have f: "f = frameHeader codec (length ?b) @ CRLF @ CRLF @ ?b"
    using encodeRpcFrame_Inr(1) [OF assms] .
  have "length ?b \<le> MAX_SAFE_INTEGER"
    using encodeRpcFrame_Inr(2,4) [OF assms] by (simp add: MAX_SAFE_INTEGER_def)
  then show ?thesis
    using findFrameHeaderEnd_frameHeader [of codec "length ?b" "?b @ rest"]
    by (intro exI [of _ "length (frameHeader codec (length ?b))"])
      (simp add: f ascii_frameHeader parse_frameHeader)
qed

theorem encodeRpcFrame_header_roundtrip_witness:
  "encodeRpcFrame (\<lambda>_ v. v) JSON_RPC_CODEC ''{}'' 65536
     = Inr (frameHeader JSON_RPC_CODEC 2 @ CRLF @ CRLF @ ''{}'')
   \<and> (\<exists>i. findFrameHeaderEnd (frameHeader JSON_RPC_CODEC 2 @ CRLF @ CRLF @ ''{}'') = Some i)"
proof -
  have h: "encodeRpcFrame (\<lambda>_ v. v) JSON_RPC_CODEC ''{}'' 65536
      = Inr (frameHeader JSON_RPC_CODEC 2 @ CRLF @ CRLF @ ''{}'')"
    by (simp add: encodeRpcFrame_def validateBridgeMaxFrameBytes_def isValidBridgeMaxFrameBytes_def
        MAX_SAFE_INTEGER_def MIN_BRIDGE_MAX_FRAME_BYTES_def DEFAULT_BRIDGE_MAX_FRAME_BYTES_def
        numeral_2_eq_2)
  show ?thesis
    using h encodeRpcFrame_header_roundtrip [OF h, of "[]"] by auto
qed

end
