(* ===== verification/RpcPeer.thy ===== *)
theory RpcPeer
  imports StdioCodec
begin

text \<open>
  The JSON-RPC peer of the worker process, \<^verbatim>\<open>packages/opencode-app/src/worker/worker-jsonrpc-stdio.ts\<close>,
  as a state machine. The state \<open>peer\<close> has the fields of the class \<^verbatim>\<open>WorkerJsonRpcPeer\<close>; an event is
  one turn of the event loop (a data chunk, the end of the input, a timer that fires, a handler that
  settles, a call of a public method); a step returns the new state and what it did to the outside:
  the promises it settled, the frames it wrote, the callbacks and handlers it ran.

  A registered handler is a name: it runs outside the model, after the turn that called it, and reports
  back with \<open>EvHandlerDone\<close>. A failing \<^verbatim>\<open>output.write\<close> of a request is the event \<open>EvWriteFailed\<close>.
\<close>

datatype peer_error_kind = PeClosed | PeTimeout | PeProtocol | PeRpc

record json_rpc_peer_error =
  pe_kind :: peer_error_kind
  pe_method :: "string option"
  pe_rpcCode :: "json option"
  pe_rpcData :: "json option"
  pe_message :: "json option"

datatype peer_out =
    Settle nat "json_rpc_peer_error + json"
  | WriteFrame buffer
  | WriteRejected codec_error
  | ProtocolError string
  | InvokeRequestHandler string json
  | InvokeNotificationHandler string json
  | InvokeAfterResponse string
  | RejectCall json_rpc_peer_error
  | UnhandledRejection nat

datatype handler_outcome =
    HandlerResult json
  | HandlerResponseError json string "json option"
  | HandlerError "string option"

datatype peer_event =
    EvData buffer
  | EvInputError string
  | EvEnd
  | EvRequest string "json option"
  | EvNotify string "json option"
  | EvTimeout nat nat
  | EvWriteFailed nat string
  | EvHandlerDone json handler_outcome
  | EvAfterResponseFailed json handler_outcome
  | EvNotificationFailed "string option"
  | EvClose

record rpc_config =
  cfg_codec :: bridge_rpc_codec
  cfg_maxFrameBytes :: int
  cfg_enc :: "bridge_rpc_codec \<Rightarrow> json \<Rightarrow> buffer"
  cfg_dec :: "bridge_rpc_codec \<Rightarrow> buffer \<Rightarrow> int \<Rightarrow> codec_error + json"
  cfg_requestHandlers :: "string list"
  cfg_notificationHandlers :: "string list"
  cfg_afterResponseHandlers :: "string list"

text \<open>\<open>pending\<close> maps a request id to its method; timers and promise callbacks go with the entry.\<close>

record peer =
  pending :: "(nat, string) js_map"
  readBuffer :: buffer
  expectedFrameLength :: "nat option"
  nextRequestId :: nat
  started :: bool
  closed :: bool

definition peer_init :: peer where
  "peer_init = \<lparr>pending = [], readBuffer = [], expectedFrameLength = None, nextRequestId = 1,
     started = False, closed = False\<rparr>"

text \<open>Template-literal conversion of a JSON value.\<close>

fun js_toString :: "json \<Rightarrow> string" where
  "js_toString JNull = ''null''"
| "js_toString (JBool b) = (if b then ''true'' else ''false'')"
| "js_toString (JNum i) = show_int i"
| "js_toString (JStr s) = s"
| "js_toString (JArr xs) = js_join '','' (map (\<lambda>x. if x = JNull then [] else js_toString x) xs)"
| "js_toString (JObj _) = ''[object Object]''"

definition codec_name :: "bridge_rpc_codec \<Rightarrow> string" where
  "codec_name c = (case c of JSON_RPC_CODEC \<Rightarrow> ''json-rpc-v1'' | MSGPACK_RPC_CODEC \<Rightarrow> ''msgpack-rpc-v1'')"

definition codec_error_message :: "codec_error \<Rightarrow> string" where
  "codec_error_message e =
     (case e of
        MaxFrameBytesRange v \<Rightarrow>
          ''maxFrameBytes must be an integer between 65536 and 16777216; received '' @ show_int v @ ''.''
      | BodyTooLarge n m \<Rightarrow>
          ''RPC frame body is '' @ show_nat n @ '' bytes, exceeding maxFrameBytes='' @ show_nat m @ ''.''
      | BodyDecode msg \<Rightarrow> msg)"

definition field :: "string \<Rightarrow> json \<Rightarrow> json option" where
  "field k v = (case v of JObj fs \<Rightarrow> map_of fs k | _ \<Rightarrow> None)"

definition isJsonRpcMessage :: "json \<Rightarrow> bool" where
  "isJsonRpcMessage m = (case m of JObj fs \<Rightarrow> map_of fs ''jsonrpc'' = Some (JStr ''2.0'') | _ \<Rightarrow> False)"

definition isRequest :: "json \<Rightarrow> bool" where
  "isRequest m = (field ''id'' m \<noteq> None \<and> field ''method'' m \<noteq> None)"

definition isResponse :: "json \<Rightarrow> bool" where
  "isResponse m = (field ''id'' m \<noteq> None \<and> (field ''result'' m \<noteq> None \<or> field ''error'' m \<noteq> None)
     \<and> field ''method'' m = None)"

definition local_error :: "peer_error_kind \<Rightarrow> string option \<Rightarrow> string \<Rightarrow> json_rpc_peer_error" where
  "local_error k m msg = \<lparr>pe_kind = k, pe_method = m, pe_rpcCode = None, pe_rpcData = None,
     pe_message = Some (JStr msg)\<rparr>"

definition failAllPending :: "json_rpc_peer_error \<Rightarrow> peer \<Rightarrow> peer \<times> peer_out list" where
  "failAllPending e p = (p\<lparr>pending := []\<rparr>, map (\<lambda>(rid, m). Settle rid (Inl e)) (pending p))"

definition handleProtocolError :: "string \<Rightarrow> peer \<Rightarrow> peer \<times> peer_out list" where
  "handleProtocolError msg p =
     (let (p', o1) = failAllPending (local_error PeProtocol None msg) p
      in (p', ProtocolError msg # o1))"

definition writeMessage :: "rpc_config \<Rightarrow> json \<Rightarrow> codec_error + buffer" where
  "writeMessage cfg m = encodeRpcFrame (cfg_enc cfg) (cfg_codec cfg) m (cfg_maxFrameBytes cfg)"

definition request_message :: "json \<Rightarrow> string \<Rightarrow> json option \<Rightarrow> json" where
  "request_message rid method params =
     JObj ([(''jsonrpc'', JStr ''2.0''), (''id'', rid), (''method'', JStr method)]
           @ (case params of None \<Rightarrow> [] | Some v \<Rightarrow> [(''params'', v)]))"

definition notification_message :: "string \<Rightarrow> json option \<Rightarrow> json" where
  "notification_message method params =
     JObj ([(''jsonrpc'', JStr ''2.0''), (''method'', JStr method)]
           @ (case params of None \<Rightarrow> [] | Some v \<Rightarrow> [(''params'', v)]))"

definition success_message :: "json \<Rightarrow> json \<Rightarrow> json" where
  "success_message rid result = JObj [(''jsonrpc'', JStr ''2.0''), (''id'', rid), (''result'', result)]"

definition error_message :: "json \<Rightarrow> json \<Rightarrow> string \<Rightarrow> json option \<Rightarrow> json" where
  "error_message rid code msg dat =
     JObj [(''jsonrpc'', JStr ''2.0''), (''id'', rid),
           (''error'', JObj ([(''code'', code), (''message'', JStr msg)]
              @ (case dat of None \<Rightarrow> [] | Some d \<Rightarrow> [(''data'', d)])))]"

text \<open>A message written with no one waiting: a rejected write leaves its promise unhandled.\<close>

definition write_out :: "rpc_config \<Rightarrow> json \<Rightarrow> peer_out list" where
  "write_out cfg m = (case writeMessage cfg m of Inr f \<Rightarrow> [WriteFrame f] | Inl e \<Rightarrow> [WriteRejected e])"

text \<open>
  \<open>handleResponse\<close>: the entry leaves the map before the payload is looked at, so reading \<^verbatim>\<open>.code\<close> of a
  null error throws with the request already forgotten. The rejection of \<^verbatim>\<open>handleIncoming\<close> is unhandled;
  \<open>UnhandledRejection\<close> records the request whose promise it leaves behind.
\<close>

definition settleResponse :: "nat \<Rightarrow> string \<Rightarrow> json \<Rightarrow> peer_out list" where
  "settleResponse i m r =
     (case field ''error'' r of
        Some JNull \<Rightarrow> [UnhandledRejection i]
      | Some e \<Rightarrow> [Settle i (Inl \<lparr>pe_kind = PeRpc, pe_method = Some m,
          pe_rpcCode = field ''code'' e, pe_rpcData = field ''data'' e,
          pe_message = field ''message'' e\<rparr>)]
      | None \<Rightarrow> (case field ''result'' r of Some v \<Rightarrow> [Settle i (Inr v)] | None \<Rightarrow> []))"

definition handleResponse :: "json \<Rightarrow> peer \<Rightarrow> peer \<times> peer_out list" where
  "handleResponse r p =
     (case field ''id'' r of
        Some (JNum i) \<Rightarrow>
          if i < 0 then (p, []) else
          (case map_of (pending p) (nat i) of
             None \<Rightarrow> (p, [])
           | Some m \<Rightarrow>
               (p\<lparr>pending := AList.delete (nat i) (pending p)\<rparr>, settleResponse (nat i) m r))
      | _ \<Rightarrow> (p, []))"

definition handleRequest :: "rpc_config \<Rightarrow> json \<Rightarrow> peer_out list" where
  "handleRequest cfg r =
     (case (field ''id'' r, field ''method'' r) of
        (Some rid, Some method) \<Rightarrow>
          (case method of
             JStr m \<Rightarrow>
               if m \<in> set (cfg_requestHandlers cfg) then [InvokeRequestHandler m r]
               else write_out cfg (error_message rid (JNum (-32601)) (''method not found: '' @ m) None)
           | _ \<Rightarrow> write_out cfg
                 (error_message rid (JNum (-32601)) (''method not found: '' @ js_toString method) None))
      | _ \<Rightarrow> [])"

definition handleNotification :: "rpc_config \<Rightarrow> json \<Rightarrow> peer_out list" where
  "handleNotification cfg n =
     (case field ''method'' n of
        Some (JStr m) \<Rightarrow>
          if m \<in> set (cfg_notificationHandlers cfg) then [InvokeNotificationHandler m n] else []
      | _ \<Rightarrow> [])"

definition handleIncoming :: "rpc_config \<Rightarrow> json \<Rightarrow> peer \<Rightarrow> peer \<times> peer_out list" where
  "handleIncoming cfg m p =
     (if \<not> isJsonRpcMessage m then handleProtocolError ''Ignoring malformed JSON-RPC message.'' p
      else if isResponse m then handleResponse m p
      else if isRequest m then (p, handleRequest cfg m)
      else (p, handleNotification cfg m))"

text \<open>The part of \<open>drainFrames\<close> that looks at the buffer: one iteration of its loop.\<close>

datatype frame_step =
    FNone
  | FBad string
  | FPartial nat
  | FFrame buffer buffer

definition frameAt :: "int \<Rightarrow> nat \<Rightarrow> bridge_frame_headers \<Rightarrow> buffer \<Rightarrow> frame_step" where
  "frameAt maxFrameBytes headerEnd h buf =
     (case contentLength h of
        None \<Rightarrow> FBad (if malformedContentLength h
          then ''JSON-RPC frame has a malformed Content-Length header.''
          else ''JSON-RPC frame is missing a valid Content-Length header.'')
      | Some n \<Rightarrow>
          if malformedContentLength h
          then FBad ''JSON-RPC frame has a malformed Content-Length header.''
          else if int n > maxFrameBytes
          then FBad (''JSON-RPC frame is '' @ show_nat n @ '' bytes, exceeding maxFrameBytes=''
                     @ show_int maxFrameBytes @ ''.'')
          else if length buf < headerEnd + 4 + n then FPartial (headerEnd + 4 + n)
          else FFrame (take n (drop (headerEnd + 4) buf)) (drop (headerEnd + 4 + n) buf))"

definition nextFrame :: "int \<Rightarrow> buffer \<Rightarrow> frame_step" where
  "nextFrame maxFrameBytes buf =
     (case findFrameHeaderEnd buf of
        None \<Rightarrow> FNone
      | Some headerEnd \<Rightarrow>
          frameAt maxFrameBytes headerEnd (parseFrameHeaders (ascii_of (take headerEnd buf))) buf)"

definition deliver :: "rpc_config \<Rightarrow> buffer \<Rightarrow> peer \<Rightarrow> peer \<times> peer_out list" where
  "deliver cfg body p =
     (case cfg_dec cfg (cfg_codec cfg) body (cfg_maxFrameBytes cfg) of
        Inl e \<Rightarrow> handleProtocolError
          (''JSON-RPC payload could not be decoded as '' @ codec_name (cfg_codec cfg) @ '': ''
           @ codec_error_message e) p
      | Inr v \<Rightarrow> handleIncoming cfg v p)"

text \<open>What the handlers write of the peer is its \<open>pending\<close> map, and they read nothing else of it.\<close>

lemma handleProtocolError_pending:
  "handleProtocolError msg p =
     (p\<lparr>pending := []\<rparr>, snd (handleProtocolError msg (peer_init\<lparr>pending := pending p\<rparr>)))"
  by (simp add: handleProtocolError_def failAllPending_def)

lemma handleResponse_pending:
  "handleResponse r p =
     (p\<lparr>pending := pending (fst (handleResponse r (peer_init\<lparr>pending := pending p\<rparr>)))\<rparr>,
      snd (handleResponse r (peer_init\<lparr>pending := pending p\<rparr>)))"
proof (cases "field ''id'' r")
  case (Some v)
  then show ?thesis
    by (cases v) (simp_all add: handleResponse_def split: option.split)
qed (simp add: handleResponse_def)

lemma handleIncoming_pending:
  "handleIncoming cfg m p =
     (p\<lparr>pending := pending (fst (handleIncoming cfg m (peer_init\<lparr>pending := pending p\<rparr>)))\<rparr>,
      snd (handleIncoming cfg m (peer_init\<lparr>pending := pending p\<rparr>)))"
  unfolding handleIncoming_def
  using handleResponse_pending [of m p] handleProtocolError_pending
  by (auto simp: handleProtocolError_def failAllPending_def)

lemma deliver_pending:
  "deliver cfg b p =
     (p\<lparr>pending := pending (fst (deliver cfg b (peer_init\<lparr>pending := pending p\<rparr>)))\<rparr>,
      snd (deliver cfg b (peer_init\<lparr>pending := pending p\<rparr>)))"
  unfolding deliver_def
  using handleIncoming_pending [of cfg _ p]
  by (auto simp: handleProtocolError_def failAllPending_def split: sum.split)

lemma deliver_frame [simp]:
  "readBuffer (fst (deliver cfg b p)) = readBuffer p"
  "closed (fst (deliver cfg b p)) = closed p"
  "nextRequestId (fst (deliver cfg b p)) = nextRequestId p"
  "started (fst (deliver cfg b p)) = started p"
  by (subst deliver_pending, simp)+

lemma deliver_with_buffer:
  "deliver cfg b (p\<lparr>readBuffer := x\<rparr>) = ((fst (deliver cfg b p))\<lparr>readBuffer := x\<rparr>, snd (deliver cfg b p))"
  by (subst (1 2 3) deliver_pending) simp

lemma frameAt_shorter: "frameAt m i h buf = FFrame body rest \<Longrightarrow> length rest < length buf"
  by (auto simp: frameAt_def split: option.splits if_splits)

lemma nextFrame_shorter: "nextFrame m buf = FFrame body rest \<Longrightarrow> length rest < length buf"
  by (auto simp: nextFrame_def dest: frameAt_shorter split: option.splits)

function drainFrames :: "rpc_config \<Rightarrow> peer \<Rightarrow> peer \<times> peer_out list" where
  "drainFrames cfg p =
     (case nextFrame (cfg_maxFrameBytes cfg) (readBuffer p) of
        FNone \<Rightarrow> (p, [])
      | FBad msg \<Rightarrow>
          let r = handleProtocolError msg p in ((fst r)\<lparr>readBuffer := []\<rparr>, snd r)
      | FPartial n \<Rightarrow> (p\<lparr>expectedFrameLength := Some n\<rparr>, [])
      | FFrame body rest \<Rightarrow>
          let r = deliver cfg body (p\<lparr>expectedFrameLength := None, readBuffer := rest\<rparr>);
              r' = drainFrames cfg (fst r)
          in (fst r', snd r @ snd r'))"
  by pat_completeness auto
termination
  by (relation "measure (\<lambda>(cfg, p). length (readBuffer p))") (auto dest: nextFrame_shorter)

declare drainFrames.simps [simp del]

text \<open>
  The rest of \<open>handleRequest\<close>, after the handler: its \<^verbatim>\<open>catch\<close> clause, which a failing after-response
  handler reaches too, and the call of that handler.
\<close>

definition requestFailed :: "rpc_config \<Rightarrow> json \<Rightarrow> handler_outcome \<Rightarrow> peer_out list" where
  "requestFailed cfg rid outcome =
     (case outcome of
        HandlerResult _ \<Rightarrow> []
      | HandlerResponseError code msg dat \<Rightarrow> write_out cfg (error_message rid code msg dat)
      | HandlerError m \<Rightarrow>
          write_out cfg (error_message rid (JNum (-32000)) (nullish m ''JSON-RPC request failed.'') None))"

definition afterResponse :: "rpc_config \<Rightarrow> json \<Rightarrow> peer_out list" where
  "afterResponse cfg r =
     (case field ''method'' r of
        Some (JStr m) \<Rightarrow> if m \<in> set (cfg_afterResponseHandlers cfg) then [InvokeAfterResponse m] else []
      | _ \<Rightarrow> [])"

text \<open>One turn of the event loop. Only the \<^verbatim>\<open>data\<close> listener, \<^verbatim>\<open>request\<close>, \<^verbatim>\<open>notify\<close> and \<^verbatim>\<open>close\<close> look
  at \<open>closed\<close>.\<close>

fun peer_step :: "rpc_config \<Rightarrow> peer \<Rightarrow> peer_event \<Rightarrow> peer \<times> peer_out list" where
  "peer_step cfg p (EvData chunk) =
     (if closed p then (p, []) else drainFrames cfg (p\<lparr>readBuffer := readBuffer p @ chunk\<rparr>))"
| "peer_step cfg p (EvInputError msg) =
     (let r = failAllPending (local_error PeProtocol None (''JSON-RPC input stream failed: '' @ msg)) p
      in (fst r, snd r @ [ProtocolError msg]))"
| "peer_step cfg p EvEnd =
     (let r = (if expectedFrameLength p \<noteq> None \<or> readBuffer p \<noteq> []
               then (let q = handleProtocolError ''JSON-RPC input stream ended with a truncated frame.'' p
                     in ((fst q)\<lparr>readBuffer := [], expectedFrameLength := None\<rparr>, snd q))
               else (p, []));
          r' = failAllPending (local_error PeClosed None ''JSON-RPC input stream ended.'') (fst r)
      in (fst r', snd r @ snd r'))"
| "peer_step cfg p (EvRequest method params) =
     (if closed p
      then (p, [RejectCall (local_error PeClosed (Some method) ''JSON-RPC peer is closed.'')])
      else
        let rid = nextRequestId p; m = request_message (JNum (int rid)) method params in
        (p\<lparr>nextRequestId := rid + 1, pending := AList.update rid method (pending p)\<rparr>, write_out cfg m))"
| "peer_step cfg p (EvNotify method params) =
     (if closed p
      then (p, [RejectCall (local_error PeClosed (Some method) ''JSON-RPC peer is closed.'')])
      else (p, write_out cfg (notification_message method params)))"
| "peer_step cfg p (EvTimeout rid ms) =
     (case map_of (pending p) rid of
        None \<Rightarrow> (p, [])
      | Some m \<Rightarrow> (p\<lparr>pending := AList.delete rid (pending p)\<rparr>,
          [Settle rid (Inl (local_error PeTimeout (Some m)
             (''JSON-RPC request '' @ [CHR 0x27] @ m @ [CHR 0x27] @ '' timed out after ''
              @ show_nat ms @ ''ms.'')))]))"
| "peer_step cfg p (EvWriteFailed rid msg) =
     (case map_of (pending p) rid of
        None \<Rightarrow> (p, [])
      | Some m \<Rightarrow> (p\<lparr>pending := AList.delete rid (pending p)\<rparr>,
          [Settle rid (Inl (local_error PeClosed (Some m)
             (''Failed to write JSON-RPC request '' @ [CHR 0x27] @ m @ [CHR 0x27] @ '': '' @ msg)))]))"
| "peer_step cfg p (EvHandlerDone r outcome) =
     (p, case field ''id'' r of
        None \<Rightarrow> []
      | Some rid \<Rightarrow>
          (case outcome of
             HandlerResult v \<Rightarrow>
               (case writeMessage cfg (success_message rid v) of
                  Inr f \<Rightarrow> WriteFrame f # afterResponse cfg r
                | Inl e \<Rightarrow> write_out cfg (error_message rid (JNum (-32000)) (codec_error_message e) None))
           | _ \<Rightarrow> requestFailed cfg rid outcome))"
| "peer_step cfg p (EvAfterResponseFailed r outcome) =
     (p, case field ''id'' r of None \<Rightarrow> [] | Some rid \<Rightarrow> requestFailed cfg rid outcome)"
| "peer_step cfg p (EvNotificationFailed msg) =
     handleProtocolError (nullish msg ''JSON-RPC notification handler failed.'') p"
| "peer_step cfg p EvClose =
     (if closed p then (p, [])
      else failAllPending (local_error PeClosed None ''JSON-RPC peer was closed.'') (p\<lparr>closed := True\<rparr>))"

fun peer_run :: "rpc_config \<Rightarrow> peer \<Rightarrow> peer_event list \<Rightarrow> peer \<times> peer_out list" where
  "peer_run cfg p [] = (p, [])"
| "peer_run cfg p (e # es) =
     (let r = peer_step cfg p e; r' = peer_run cfg (fst r) es in (fst r', snd r @ snd r'))"

text \<open>The specification of the stream reader: the messages handled one after the other.\<close>

fun handleAll :: "rpc_config \<Rightarrow> json list \<Rightarrow> peer \<Rightarrow> peer \<times> peer_out list" where
  "handleAll cfg [] p = (p, [])"
| "handleAll cfg (m # ms) p =
     (let r = handleIncoming cfg m p; r' = handleAll cfg ms (fst r) in (fst r', snd r @ snd r'))"

definition settled_ids :: "peer_out list \<Rightarrow> nat list" where
  "settled_ids os = [i. Settle i _ \<leftarrow> os]"

text \<open>The requests whose response carried a null error: settled by nothing, lost.\<close>

definition lost_ids :: "peer_out list \<Rightarrow> nat list" where
  "lost_ids os = [i. UnhandledRejection i \<leftarrow> os]"

text \<open>No frame of the buffer has a bad header: the loop never resets the buffer.\<close>

function noBad :: "int \<Rightarrow> buffer \<Rightarrow> bool" where
  "noBad m buf =
     (case nextFrame m buf of
        FNone \<Rightarrow> True
      | FBad _ \<Rightarrow> False
      | FPartial _ \<Rightarrow> True
      | FFrame _ rest \<Rightarrow> noBad m rest)"
  by pat_completeness auto
termination
  by (relation "measure (\<lambda>(m, buf). length buf)") (auto dest: nextFrame_shorter)

declare noBad.simps [simp del]

section \<open>Reading a stream in chunks\<close>

lemma nextFrame_at:
  "findFrameHeaderEnd b = Some i \<Longrightarrow>
     nextFrame m (b @ c) = frameAt m i (parseFrameHeaders (ascii_of (take i b))) (b @ c)"
  using findFrameHeaderEnd_append [of b i c] findFrameHeaderEnd_bound [of b i]
  by (simp add: nextFrame_def)

lemma nextFrame_header: "nextFrame m b \<noteq> FNone \<Longrightarrow> \<exists>i. findFrameHeaderEnd b = Some i"
  by (auto simp: nextFrame_def split: option.splits)

lemma frameAt_append:
  "frameAt m i h b = FFrame body rest \<Longrightarrow> frameAt m i h (b @ c) = FFrame body (rest @ c)"
  "frameAt m i h b = FBad msg \<Longrightarrow> frameAt m i h (b @ c) = FBad msg"
  "frameAt m i h b = FPartial n \<Longrightarrow> frameAt m i h (b @ c) = FPartial n
     \<or> (\<exists>body rest. frameAt m i h (b @ c) = FFrame body rest)"
  unfolding frameAt_def by (cases "contentLength h"; simp split: if_splits)+

lemma nextFrame_append:
  "nextFrame m b = FFrame body rest \<Longrightarrow> nextFrame m (b @ c) = FFrame body (rest @ c)"
  "nextFrame m b = FBad msg \<Longrightarrow> nextFrame m (b @ c) = FBad msg"
  "nextFrame m b = FPartial n \<Longrightarrow> nextFrame m (b @ c) = FPartial n
     \<or> (\<exists>body rest. nextFrame m (b @ c) = FFrame body rest)"
proof -
  have *: "\<exists>i h. \<forall>c. nextFrame m (b @ c) = frameAt m i h (b @ c)" if "nextFrame m b \<noteq> FNone"
    using nextFrame_header [OF that] nextFrame_at by blast
  show "nextFrame m b = FFrame body rest \<Longrightarrow> nextFrame m (b @ c) = FFrame body (rest @ c)"
    using * frameAt_append(1) by (metis append_Nil2 frame_step.distinct(5))
  show "nextFrame m b = FBad msg \<Longrightarrow> nextFrame m (b @ c) = FBad msg"
    using * frameAt_append(2) by (metis append_Nil2 frame_step.distinct(1))
  show "nextFrame m b = FPartial n \<Longrightarrow> nextFrame m (b @ c) = FPartial n
     \<or> (\<exists>body rest. nextFrame m (b @ c) = FFrame body rest)"
    using * frameAt_append(3) by (metis append_Nil2 frame_step.distinct(3))
qed

lemma noBad_append: "noBad m (b @ c) \<Longrightarrow> noBad m b"
proof (induction "length b" arbitrary: b rule: less_induct)
  case less
  show ?case
  proof (cases "nextFrame m b")
    case (FFrame body rest)
    then have "noBad m (rest @ c)"
      using less.prems by (simp add: noBad.simps [of m "b @ c"] nextFrame_append(1))
    with FFrame less.hyps [OF nextFrame_shorter [OF FFrame]] show ?thesis
      by (simp add: noBad.simps [of m b])
  next
    case (FBad msg)
    then show ?thesis
      using less.prems by (simp add: noBad.simps [of m "b @ c"] nextFrame_append(2))
  qed (simp_all add: noBad.simps [of m b])
qed

lemma drain_append:
  assumes "noBad (cfg_maxFrameBytes cfg) (readBuffer p)"
  shows "drainFrames cfg (p\<lparr>readBuffer := readBuffer p @ c\<rparr>) =
     (let r = drainFrames cfg p;
          r' = drainFrames cfg ((fst r)\<lparr>readBuffer := readBuffer (fst r) @ c\<rparr>)
      in (fst r', snd r @ snd r'))"
  using assms
proof (induction cfg p rule: drainFrames.induct)
  case (1 cfg p)
  let ?m = "cfg_maxFrameBytes cfg"
  show ?case
  proof (cases "nextFrame ?m (readBuffer p)")
    case FNone
    then show ?thesis by (simp add: drainFrames.simps [of cfg p])
  next
    case (FBad msg)
    with "1.prems" show ?thesis by (simp add: noBad.simps [of ?m])
  next
    case (FPartial n)
    then show ?thesis
      using nextFrame_append(3) [OF FPartial, of c]
      by (auto simp: drainFrames.simps [of cfg p] Let_def
          drainFrames.simps [of cfg "p\<lparr>readBuffer := readBuffer p @ c\<rparr>"]
          drainFrames.simps [of cfg "p\<lparr>expectedFrameLength := Some n, readBuffer := readBuffer p @ c\<rparr>"])
  next
    case (FFrame body rest)
    let ?q = "p\<lparr>expectedFrameLength := None, readBuffer := rest\<rparr>"
    let ?d = "deliver cfg body ?q"
    have nb: "noBad ?m (readBuffer (fst ?d))"
      using "1.prems" FFrame by (simp add: noBad.simps [of ?m "readBuffer p"])
    have IH: "drainFrames cfg ((fst ?d)\<lparr>readBuffer := readBuffer (fst ?d) @ c\<rparr>) =
        (let r = drainFrames cfg (fst ?d);
             r' = drainFrames cfg ((fst r)\<lparr>readBuffer := readBuffer (fst r) @ c\<rparr>)
         in (fst r', snd r @ snd r'))"
      using "1.IH" [OF FFrame refl nb] .
    have dl: "deliver cfg body (p\<lparr>expectedFrameLength := None, readBuffer := rest @ c\<rparr>)
        = ((fst ?d)\<lparr>readBuffer := readBuffer (fst ?d) @ c\<rparr>, snd ?d)"
      using deliver_with_buffer [of cfg body "rest @ c" ?q] by simp
    show ?thesis
      using FFrame IH dl nextFrame_append(1) [OF FFrame, of c]
      by (simp add: drainFrames.simps [of cfg p] Let_def
          drainFrames.simps [of cfg "p\<lparr>readBuffer := readBuffer p @ c\<rparr>"])
  qed
qed

lemma drain_open: "closed (fst (drainFrames cfg p)) = closed p"
proof (induction cfg p rule: drainFrames.induct)
  case (1 cfg p)
  then show ?case
    by (cases "nextFrame (cfg_maxFrameBytes cfg) (readBuffer p)")
      (simp_all add: drainFrames.simps [of cfg p] Let_def handleProtocolError_def failAllPending_def)
qed

lemma drain_idem: "noBad (cfg_maxFrameBytes cfg) (readBuffer p) \<Longrightarrow>
    drainFrames cfg (fst (drainFrames cfg p)) = (fst (drainFrames cfg p), [])"
  using drain_append [of cfg p "[]"]
  by (cases "drainFrames cfg p") (simp add: Let_def prod_eq_iff)

lemma noBad_rest:
  "noBad (cfg_maxFrameBytes cfg) (readBuffer p @ c) \<Longrightarrow>
     noBad (cfg_maxFrameBytes cfg) (readBuffer (fst (drainFrames cfg p)) @ c)"
proof (induction cfg p rule: drainFrames.induct)
  case (1 cfg p)
  let ?m = "cfg_maxFrameBytes cfg"
  show ?case
  proof (cases "nextFrame ?m (readBuffer p)")
    case (FBad msg)
    with "1.prems" show ?thesis
      by (simp add: noBad.simps [of ?m "readBuffer p @ c"] nextFrame_append(2))
  next
    case (FFrame body rest)
    then have "noBad ?m (rest @ c)"
      using "1.prems" by (simp add: noBad.simps [of ?m "readBuffer p @ c"] nextFrame_append(1))
    then show ?thesis
      using "1.IH" [OF FFrame refl] FFrame by (simp add: drainFrames.simps [of cfg p] Let_def)
  qed (use "1.prems" in \<open>simp_all add: drainFrames.simps [of cfg p]\<close>)
qed

text \<open>Feeding chunks is draining their concatenation, as long as no header is bad.\<close>

lemma run_chunks:
  assumes "\<not> closed p" and "noBad (cfg_maxFrameBytes cfg) (readBuffer p @ concat cs)"
    and "drainFrames cfg p = (p, [])"
  shows "peer_run cfg p (map EvData cs) = drainFrames cfg (p\<lparr>readBuffer := readBuffer p @ concat cs\<rparr>)"
  using assms
proof (induction cs arbitrary: p)
  case Nil
  then show ?case by simp
next
  case (Cons c cs)
  let ?q = "p\<lparr>readBuffer := readBuffer p @ c\<rparr>"
  let ?r = "drainFrames cfg ?q"
  have nb: "noBad (cfg_maxFrameBytes cfg) (readBuffer ?q @ concat cs)"
    using Cons.prems by simp
  then have nbq: "noBad (cfg_maxFrameBytes cfg) (readBuffer ?q)" by (rule noBad_append)
  have "peer_run cfg (fst ?r) (map EvData cs)
      = drainFrames cfg ((fst ?r)\<lparr>readBuffer := readBuffer (fst ?r) @ concat cs\<rparr>)"
    using Cons.IH noBad_rest [OF nb] drain_idem [OF nbq] Cons.prems(1) by (simp add: drain_open)
  moreover have "drainFrames cfg (?q\<lparr>readBuffer := readBuffer ?q @ concat cs\<rparr>) =
      (let r' = drainFrames cfg ((fst ?r)\<lparr>readBuffer := readBuffer (fst ?r) @ concat cs\<rparr>)
       in (fst r', snd ?r @ snd r'))"
    using drain_append [OF nbq] by (simp add: Let_def)
  ultimately show ?case using Cons.prems(1) by (simp add: Let_def)
qed

lemma nextFrame_encoded:
  assumes "writeMessage cfg v = Inr f"
  shows "nextFrame (cfg_maxFrameBytes cfg) (f @ rest) = FFrame (cfg_enc cfg (cfg_codec cfg) v) rest"
proof -
  let ?b = "cfg_enc cfg (cfg_codec cfg) v"
  let ?h = "frameHeader (cfg_codec cfg) (length ?b)"
  have enc: "encodeRpcFrame (cfg_enc cfg) (cfg_codec cfg) v (cfg_maxFrameBytes cfg) = Inr f"
    using assms by (simp add: writeMessage_def)
  note f = encodeRpcFrame_Inr(1) [OF enc]
  have "length ?b \<le> MAX_SAFE_INTEGER"
    using encodeRpcFrame_Inr(2,4) [OF enc] by (simp add: MAX_SAFE_INTEGER_def)
  then show ?thesis
    using findFrameHeaderEnd_frameHeader [of "cfg_codec cfg" "length ?b" "?b @ rest"]
      encodeRpcFrame_Inr(2) [OF enc]
    by (simp add: f nextFrame_def frameAt_def ascii_frameHeader parse_frameHeader numeral_eq_Suc)
qed

lemma nextFrame_Nil [simp]: "nextFrame m [] = FNone"
  by (simp add: nextFrame_def)

lemma drain_Nil [simp]: "readBuffer p = [] \<Longrightarrow> drainFrames cfg p = (p, [])"
  by (simp add: drainFrames.simps [of cfg p])

lemma noBad_stream:
  "list_all2 (\<lambda>v f. writeMessage cfg v = Inr f) vs fs \<Longrightarrow> noBad (cfg_maxFrameBytes cfg) (concat fs)"
proof (induction vs fs rule: list_all2_induct)
  case Nil
  then show ?case by (simp add: noBad.simps)
next
  case (Cons v vs f fs)
  then show ?case by (simp add: noBad.simps [of _ "f @ concat fs"] nextFrame_encoded)
qed

lemma handleIncoming_frame [simp]:
  "readBuffer (fst (handleIncoming cfg m p)) = readBuffer p"
  "expectedFrameLength (fst (handleIncoming cfg m p)) = expectedFrameLength p"
  by (subst handleIncoming_pending, simp)+

lemma peer_buffer_id: "readBuffer p = [] \<Longrightarrow> expectedFrameLength p = None \<Longrightarrow>
    p\<lparr>expectedFrameLength := None, readBuffer := []\<rparr> = p"
  by simp

lemma drain_stream:
  assumes "list_all2 (\<lambda>v f. writeMessage cfg v = Inr f) vs fs"
    and "\<forall>v \<in> set vs. cfg_dec cfg (cfg_codec cfg) (cfg_enc cfg (cfg_codec cfg) v)
           (cfg_maxFrameBytes cfg) = Inr v"
    and "readBuffer p = []" and "expectedFrameLength p = None"
  shows "drainFrames cfg (p\<lparr>readBuffer := concat fs\<rparr>) = handleAll cfg vs p"
  using assms
proof (induction vs fs arbitrary: p rule: list_all2_induct)
  case Nil
  then show ?case by simp
next
  case (Cons v vs f fs)
  let ?h = "handleIncoming cfg v p"
  have "deliver cfg (cfg_enc cfg (cfg_codec cfg) v) (p\<lparr>readBuffer := concat fs\<rparr>)
      = ((fst ?h)\<lparr>readBuffer := concat fs\<rparr>, snd ?h)"
    using Cons.prems(1) by (simp add: deliver_with_buffer) (simp add: deliver_def)
  moreover have "p\<lparr>expectedFrameLength := None, readBuffer := concat fs\<rparr> = p\<lparr>readBuffer := concat fs\<rparr>"
    using Cons.prems(3) by simp
  moreover have "drainFrames cfg ((fst ?h)\<lparr>readBuffer := concat fs\<rparr>) = handleAll cfg vs (fst ?h)"
    using Cons.IH [of "fst ?h"] Cons.prems by simp
  ultimately show ?case
    using nextFrame_encoded [OF Cons.hyps(1)]
    by (simp add: drainFrames.simps [of cfg "p\<lparr>readBuffer := f @ concat fs\<rparr>"] Let_def)
qed

section \<open>Requests are settled once\<close>

text \<open>
  The ids handed out are the pending ones, the settled ones and the lost ones, each exactly once.
\<close>

definition peer_inv :: "peer \<Rightarrow> peer_out list \<Rightarrow> bool" where
  "peer_inv p os \<longleftrightarrow> 1 \<le> nextRequestId p \<and>
     mset (map fst (pending p) @ settled_ids os @ lost_ids os) = mset [1 ..< nextRequestId p]"

text \<open>A step that hands out no id moves ids from the pending ones to the settled and the lost ones.\<close>

definition consumes :: "peer \<Rightarrow> peer \<times> peer_out list \<Rightarrow> bool" where
  "consumes p r \<longleftrightarrow> nextRequestId (fst r) = nextRequestId p
     \<and> mset (map fst (pending p))
       = mset (map fst (pending (fst r)) @ settled_ids (snd r) @ lost_ids (snd r))"

lemma ids_append [simp]:
  "settled_ids (a @ b) = settled_ids a @ settled_ids b" "lost_ids (a @ b) = lost_ids a @ lost_ids b"
  by (simp_all add: settled_ids_def lost_ids_def)

lemma ids_simps [simp]:
  "settled_ids [] = []" "lost_ids [] = []"
  "settled_ids (Settle i x # os) = i # settled_ids os" "lost_ids (Settle i x # os) = lost_ids os"
  "settled_ids (UnhandledRejection i # os) = settled_ids os"
  "lost_ids (UnhandledRejection i # os) = i # lost_ids os"
  by (simp_all add: settled_ids_def lost_ids_def)

lemma ids_other [simp]:
  "settled_ids (WriteFrame f # os) = settled_ids os" "lost_ids (WriteFrame f # os) = lost_ids os"
  "settled_ids (WriteRejected e # os) = settled_ids os" "lost_ids (WriteRejected e # os) = lost_ids os"
  "settled_ids (ProtocolError m # os) = settled_ids os" "lost_ids (ProtocolError m # os) = lost_ids os"
  "settled_ids (RejectCall x # os) = settled_ids os" "lost_ids (RejectCall x # os) = lost_ids os"
  "settled_ids (InvokeRequestHandler s r # os) = settled_ids os"
  "lost_ids (InvokeRequestHandler s r # os) = lost_ids os"
  "settled_ids (InvokeNotificationHandler s r # os) = settled_ids os"
  "lost_ids (InvokeNotificationHandler s r # os) = lost_ids os"
  "settled_ids (InvokeAfterResponse s # os) = settled_ids os"
  "lost_ids (InvokeAfterResponse s # os) = lost_ids os"
  by (simp_all add: settled_ids_def lost_ids_def)

lemma ids_write [simp]: "settled_ids (write_out cfg m) = []" "lost_ids (write_out cfg m) = []"
  by (simp_all add: write_out_def split: sum.split)

lemma ids_handlers [simp]:
  "settled_ids (handleRequest cfg m) = []" "lost_ids (handleRequest cfg m) = []"
  "settled_ids (handleNotification cfg m) = []" "lost_ids (handleNotification cfg m) = []"
  "settled_ids (requestFailed cfg rid x) = []" "lost_ids (requestFailed cfg rid x) = []"
  "settled_ids (afterResponse cfg m) = []" "lost_ids (afterResponse cfg m) = []"
  by (simp_all add: handleRequest_def handleNotification_def requestFailed_def afterResponse_def
      split: option.split json.split handler_outcome.split)

lemma ids_failAll [simp]:
  "settled_ids (snd (failAllPending e p)) = map fst (pending p)" "lost_ids (snd (failAllPending e p)) = []"
  "pending (fst (failAllPending e p)) = []" "nextRequestId (fst (failAllPending e p)) = nextRequestId p"
proof -
  have "settled_ids (map (\<lambda>(rid, m). Settle rid (Inl e)) ps) = map fst ps
      \<and> lost_ids (map (\<lambda>(rid, m). Settle rid (Inl e)) ps) = []" for ps :: "(nat \<times> string) list"
    by (induction ps) auto
  then show "settled_ids (snd (failAllPending e p)) = map fst (pending p)"
    "lost_ids (snd (failAllPending e p)) = []"
    by (simp_all add: failAllPending_def)
qed (simp_all add: failAllPending_def)

lemma consumes_same: "pending (fst r) = pending p \<Longrightarrow> nextRequestId (fst r) = nextRequestId p \<Longrightarrow>
    settled_ids (snd r) = [] \<Longrightarrow> lost_ids (snd r) = [] \<Longrightarrow> consumes p r"
  by (simp add: consumes_def)

lemma consumes_failAll: "pending q = pending p \<Longrightarrow> nextRequestId q = nextRequestId p \<Longrightarrow>
    consumes p (failAllPending e q)"
  by (simp add: consumes_def)

lemma consumes_protocolError: "consumes p (handleProtocolError msg p)"
  by (simp add: consumes_def handleProtocolError_def case_prod_beta)

lemma consumes_trans:
  "consumes p (q, a) \<Longrightarrow> consumes q (r, b) \<Longrightarrow> consumes p (r, a @ b)"
  by (simp add: consumes_def)

lemma consumes_buffer [simp]:
  "consumes (p\<lparr>readBuffer := x\<rparr>) r = consumes p r"
  "consumes (p\<lparr>expectedFrameLength := y\<rparr>) r = consumes p r"
  "consumes p (q\<lparr>readBuffer := x\<rparr>, os) = consumes p (q, os)"
  "consumes p (q\<lparr>expectedFrameLength := y\<rparr>, os) = consumes p (q, os)"
  by (simp_all add: consumes_def)

lemma consumes_one:
  assumes "distinct (map fst (pending p))" "map_of (pending p) i = Some m"
    and "mset (settled_ids os @ lost_ids os) = {#i#}"
  shows "consumes p (p\<lparr>pending := AList.delete i (pending p)\<rparr>, os)"
  using mset_delete [OF assms(1,2)] assms(3) by (simp add: consumes_def)

lemma consumes_response:
  assumes "distinct (map fst (pending p))" and "isResponse r"
  shows "consumes p (handleResponse r p)"
proof -
  consider i m where "field ''id'' r = Some (JNum i)" "\<not> i < 0" "map_of (pending p) (nat i) = Some m"
    | "handleResponse r p = (p, [])"
  proof (cases "\<exists>i m. field ''id'' r = Some (JNum i) \<and> \<not> i < 0 \<and> map_of (pending p) (nat i) = Some m")
    case True
    then show ?thesis using that(1) by blast
  next
    case False
    then have "handleResponse r p = (p, [])"
      by (auto simp: handleResponse_def split: json.split option.split)
    then show ?thesis by (rule that(2))
  qed
  then show ?thesis
  proof cases
    case 1
    let ?os = "snd (handleResponse r p)"
    have "handleResponse r p = (p\<lparr>pending := AList.delete (nat i) (pending p)\<rparr>, ?os)"
      using 1 by (simp add: handleResponse_def)
    moreover have "mset (settled_ids ?os @ lost_ids ?os) = {#nat i#}"
      using 1 assms(2)
      by (auto simp: handleResponse_def settleResponse_def isResponse_def split: option.split json.split)
    ultimately show ?thesis using consumes_one [OF assms(1) 1(3), of ?os] by simp
  next
    case 2
    then show ?thesis by (simp add: consumes_same)
  qed
qed

lemma consumes_incoming:
  "distinct (map fst (pending p)) \<Longrightarrow> consumes p (handleIncoming cfg m p)"
  by (simp add: handleIncoming_def consumes_protocolError consumes_response consumes_same)

lemma consumes_deliver: "distinct (map fst (pending p)) \<Longrightarrow> consumes p (deliver cfg b p)"
  by (simp add: deliver_def consumes_protocolError consumes_incoming split: sum.split)

lemma consumes_distinct:
  "consumes p r \<Longrightarrow> distinct (map fst (pending p)) \<Longrightarrow> distinct (map fst (pending (fst r)))"
  unfolding consumes_def by (metis distinct_append mset_eq_imp_distinct_iff)

lemma consumes_drain: "distinct (map fst (pending p)) \<Longrightarrow> consumes p (drainFrames cfg p)"
proof (induction cfg p rule: drainFrames.induct)
  case (1 cfg p)
  show ?case
  proof (cases "nextFrame (cfg_maxFrameBytes cfg) (readBuffer p)")
    case (FFrame body rest)
    let ?d = "deliver cfg body (p\<lparr>expectedFrameLength := None, readBuffer := rest\<rparr>)"
    have d: "consumes p ?d"
      using consumes_deliver [of "p\<lparr>expectedFrameLength := None, readBuffer := rest\<rparr>"] "1.prems" by simp
    have "consumes (fst ?d) (drainFrames cfg (fst ?d))"
      using "1.IH" [OF FFrame refl] consumes_distinct [OF d "1.prems"] by simp
    then show ?thesis
      using d consumes_trans [of p "fst ?d" "snd ?d"]
      by (simp add: FFrame drainFrames.simps [of cfg p] Let_def)
  next
    case (FBad msg)
    then show ?thesis
      using consumes_protocolError [of p msg] by (simp add: drainFrames.simps [of cfg p] Let_def)
  qed (simp_all add: drainFrames.simps [of cfg p] consumes_same)
qed

lemma peer_inv_distinct: "peer_inv p os \<Longrightarrow> distinct (map fst (pending p))"
  unfolding peer_inv_def by (metis distinct_append distinct_upt mset_eq_imp_distinct_iff)

lemma peer_inv_fresh: "peer_inv p os \<Longrightarrow> nextRequestId p \<notin> set (map fst (pending p))"
  unfolding peer_inv_def
  by (metis Un_iff atLeastLessThan_iff less_irrefl mset_eq_setD set_append set_upt)

lemma peer_inv_consumes: "peer_inv p os \<Longrightarrow> consumes p r \<Longrightarrow> peer_inv (fst r) (os @ snd r)"
  by (auto simp: peer_inv_def consumes_def ac_simps)

lemma step_consumes:
  assumes "distinct (map fst (pending p))" and "\<And>m v. e \<noteq> EvRequest m v"
  shows "consumes p (peer_step cfg p e)"
proof (cases e)
  case (EvData b)
  then show ?thesis
    using assms consumes_drain [of "p\<lparr>readBuffer := readBuffer p @ b\<rparr>" cfg] by (simp add: consumes_same)
next
  case (EvInputError msg)
  have "consumes p (failAllPending x p)" for x by (simp add: consumes_failAll)
  then show ?thesis by (simp add: EvInputError Let_def consumes_def)
next
  case EvEnd
  then show ?thesis
    by (simp add: EvEnd Let_def consumes_def handleProtocolError_def case_prod_beta)
next
  case (EvTimeout rid ms)
  then show ?thesis
    using consumes_one [OF assms(1)] by (auto simp: consumes_same split: option.split)
next
  case (EvWriteFailed rid msg)
  then show ?thesis
    using consumes_one [OF assms(1)] by (auto simp: consumes_same split: option.split)
next
  case (EvHandlerDone r x)
  then show ?thesis
    by (auto intro!: consumes_same split: option.split handler_outcome.split sum.split)
qed (use assms(2) in \<open>simp_all add: consumes_same consumes_failAll consumes_protocolError
    split: option.split\<close>)

lemma peer_inv_step:
  assumes "peer_inv p os"
  shows "peer_inv (fst (peer_step cfg p e)) (os @ snd (peer_step cfg p e))"
proof (cases "\<exists>m v. e = EvRequest m v")
  case True
  then obtain m v where e: "e = EvRequest m v" by blast
  show ?thesis
  proof (cases "closed p")
    case True
    then show ?thesis using assms by (simp add: e peer_inv_def)
  next
    case False
    have "map fst (AList.update (nextRequestId p) m (pending p)) = map fst (pending p) @ [nextRequestId p]"
      using peer_inv_fresh [OF assms] by (simp add: update_keys)
    then show ?thesis
      using assms False by (simp add: e peer_inv_def Let_def)
  qed
next
  case False
  then show ?thesis
    using peer_inv_consumes [OF assms] step_consumes peer_inv_distinct [OF assms] by blast
qed

lemma peer_inv_run:
  "peer_inv p os \<Longrightarrow> peer_inv (fst (peer_run cfg p es)) (os @ snd (peer_run cfg p es))"
proof (induction es arbitrary: p os)
  case (Cons e es)
  then show ?case using peer_inv_step [OF Cons.prems] by (simp add: Let_def) (metis append_assoc)
qed simp

section \<open>Properties\<close>

text \<open>
  C1. The reader does not depend on how the stream is cut. Take any values that the peer can write and
  whose bodies the decoder gives back, write their frames one after the other, and cut the bytes into
  chunks in any way, inside a header or a body too: feeding the chunks to an open peer with an empty
  buffer does exactly what handling the values one after the other does, and leaves no byte behind.
\<close>

theorem data_chunks_deliver_stream:
  assumes "\<not> closed p" and "readBuffer p = []" and "expectedFrameLength p = None"
    and "list_all2 (\<lambda>v f. writeMessage cfg v = Inr f) vs fs"
    and "\<forall>v \<in> set vs. cfg_dec cfg (cfg_codec cfg) (cfg_enc cfg (cfg_codec cfg) v)
           (cfg_maxFrameBytes cfg) = Inr v"
    and "concat chunks = concat fs"
  shows "peer_run cfg p (map EvData chunks) = handleAll cfg vs p"
  using run_chunks [of p cfg chunks] noBad_stream [OF assms(4)] drain_stream [OF assms(4,5,2,3)] assms
  by simp

definition json_peer_config :: rpc_config where
  "json_peer_config = \<lparr>cfg_codec = JSON_RPC_CODEC, cfg_maxFrameBytes = 65536,
     cfg_enc = encodeRpcBody json_bytes json_bytes,
     cfg_dec = decodeRpcBody (json_parse_body (\<lambda>_. ''Unexpected token''))
       (\<lambda>_. json_parse_body (\<lambda>_. ''Unexpected token'')),
     cfg_requestHandlers = [], cfg_notificationHandlers = [''event''], cfg_afterResponseHandlers = []\<rparr>"

theorem data_chunks_deliver_stream_witness:
  "peer_run json_peer_config peer_init (map EvData
       [take 7 (frameHeader JSON_RPC_CODEC 4 @ CRLF @ CRLF @ ''null''),
        drop 7 (frameHeader JSON_RPC_CODEC 4 @ CRLF @ CRLF @ ''null'')])
   = (peer_init, [ProtocolError ''Ignoring malformed JSON-RPC message.''])"
proof -
  let ?f = "frameHeader JSON_RPC_CODEC 4 @ CRLF @ CRLF @ ''null''"
  have b: "json_bytes JNull = ''null''" by code_simp
  have l: "length (json_bytes JNull) = 4" by (simp add: b)
  have "validateBridgeMaxFrameBytes 65536 = Inr 65536" by (simp add: validate_iff)
  then have w: "writeMessage json_peer_config JNull = Inr ?f"
    by (simp add: writeMessage_def encodeRpcFrame_def json_peer_config_def encodeRpcBody_def l)
      (simp add: b)
  have d: "cfg_dec json_peer_config (cfg_codec json_peer_config)
      (cfg_enc json_peer_config (cfg_codec json_peer_config) JNull)
      (cfg_maxFrameBytes json_peer_config) = Inr JNull"
    using json_codec.decode_encode [of 65536 JNull] by (simp add: json_peer_config_def)
  have c: "concat [take 7 ?f, drop 7 ?f] = concat [?f]"
    by (simp only: concat.simps append_Nil2 append_take_drop_id)
  have "peer_run json_peer_config peer_init (map EvData [take 7 ?f, drop 7 ?f])
      = handleAll json_peer_config [JNull] peer_init"
    by (rule data_chunks_deliver_stream [OF _ _ _ _ _ c]) (simp_all add: peer_init_def w d)
  then show ?thesis
    by (simp add: handleIncoming_def isJsonRpcMessage_def handleProtocolError_def failAllPending_def
        peer_init_def)
qed

text \<open>
  C2. Every request id is accounted for, once. After any sequence of events from the start, the ids
  handed out so far, 1 up to the counter, are the pending ids, the ids whose promise was settled and
  the ids lost to an unhandled rejection, with no repetition: no promise is settled twice, none is
  settled while it is still pending, and none is forgotten except through a null error.
\<close>

theorem request_ids_settle_once:
  "mset (map fst (pending (fst (peer_run cfg peer_init es)))
         @ settled_ids (snd (peer_run cfg peer_init es)) @ lost_ids (snd (peer_run cfg peer_init es)))
   = mset [1 ..< nextRequestId (fst (peer_run cfg peer_init es))]"
  using peer_inv_run [of peer_init "[]" cfg es] by (simp add: peer_inv_def peer_init_def)

text \<open>
  A response whose \<^verbatim>\<open>error\<close> member is null loses its request: the entry and its timer are gone,
  nothing is settled, and no later event settles the promise.
\<close>

theorem null_error_response_never_settles:
  assumes "peer_inv p os" and "map_of (pending p) i = Some m"
    and "isJsonRpcMessage r" and "isResponse r"
    and "field ''id'' r = Some (JNum (int i))" and "field ''error'' r = Some JNull"
  shows "map_of (pending (fst (handleIncoming cfg r p))) i = None
     \<and> settled_ids (snd (handleIncoming cfg r p)) = []
     \<and> i \<notin> set (settled_ids (snd (peer_run cfg (fst (handleIncoming cfg r p)) es)))"
proof -
  let ?h = "handleIncoming cfg r p"
  let ?r = "peer_run cfg (fst ?h) es"
  have h: "?h = (p\<lparr>pending := AList.delete i (pending p)\<rparr>, [UnhandledRejection i])"
    using assms by (simp add: handleIncoming_def handleResponse_def settleResponse_def)
  have "peer_inv (fst ?h) (os @ snd ?h)"
    by (rule peer_inv_consumes [OF assms(1)])
      (simp add: consumes_incoming peer_inv_distinct [OF assms(1)])
  from peer_inv_run [OF this, of cfg es]
  have "distinct (map fst (pending (fst ?r)) @ settled_ids ((os @ snd ?h) @ snd ?r)
      @ lost_ids ((os @ snd ?h) @ snd ?r))"
    unfolding peer_inv_def by (metis distinct_upt mset_eq_imp_distinct_iff)
  then show ?thesis by (auto simp: h delete_conv')
qed

theorem null_error_response_never_settles_witness:
  "1 \<notin> set (settled_ids (snd (peer_run json_peer_config
     (fst (handleIncoming json_peer_config
        (JObj [(''jsonrpc'', JStr ''2.0''), (''id'', JNum 1), (''error'', JNull)])
        (peer_init\<lparr>pending := [(1, ''ping'')], nextRequestId := 2\<rparr>)))
     [EvTimeout 1 10, EvClose])))"
proof -
  let ?r = "JObj [(''jsonrpc'', JStr ''2.0''), (''id'', JNum 1), (''error'', JNull)]"
  let ?p = "peer_init\<lparr>pending := [(1, ''ping'')], nextRequestId := 2\<rparr>"
  have inv: "peer_inv ?p []" by (simp add: peer_inv_def numeral_2_eq_2)
  have m: "map_of (pending ?p) 1 = Some ''ping''" by simp
  have r: "isJsonRpcMessage ?r" "isResponse ?r" "field ''id'' ?r = Some (JNum (int 1))"
    "field ''error'' ?r = Some JNull"
    by (simp_all add: isJsonRpcMessage_def isResponse_def field_def)
  show ?thesis
    by (rule null_error_response_never_settles [OF inv m r, THEN conjunct2, THEN conjunct2])
qed

end
