(* ===== verification/BridgeResults.thy ===== *)
theory BridgeResults
  imports RpcPeer
begin

text \<open>
  The values that cross the bridge to the Rust engine, of \<^verbatim>\<open>packages/opencode-app/src/bridge/dh-jsonrpc-stdio-client.ts\<close>:
  the call a query is turned into, the readers of answers, evidence and capabilities, and the errors. A member of a received
  value is looked up with \<open>field\<close>, where \<open>None\<close> is \<^verbatim>\<open>undefined\<close>; \<^verbatim>\<open>null\<close> and a missing optional member of a result are
  both \<open>None\<close>. Numbers are integers; the score of an item is \<open>None\<close> for the default 0.5.
\<close>

section \<open>Types\<close>

datatype bridge_failure_code =
    BRIDGE_STARTUP_FAILED | BRIDGE_UNREACHABLE | BRIDGE_TIMEOUT | METHOD_NOT_SUPPORTED | INVALID_REQUEST | ACCESS_DENIED
  | NOT_FOUND | TIMEOUT | EXECUTION_FAILED | RUNTIME_UNAVAILABLE | BINARY_FILE_UNSUPPORTED | BRIDGE_CODEC_UNSUPPORTED
  | BRIDGE_CODEC_DECODE_FAILED | BRIDGE_FRAME_TOO_LARGE | BRIDGE_CODEC_NEGOTIATION_FAILED | CAPABILITY_UNSUPPORTED | REQUEST_FAILED

datatype bridge_phase = PhaseStartup | PhaseRequest

record dh_bridge_error =
  be_code :: bridge_failure_code
  be_phase :: bridge_phase
  be_message :: string
  be_retryable :: bool

text \<open>What a promise of the client is rejected with: its own error, or the \<^verbatim>\<open>TypeError\<close> of reading a member of null.\<close>

datatype bridge_rejection = BridgeError dh_bridge_error | MemberOfNull

datatype answer_state = AnswerGrounded | AnswerPartial | AnswerInsufficient | AnswerUnsupported

datatype evidence_confidence = ConfidenceGrounded | ConfidencePartial

datatype capability_state = CapSupported | CapPartial | CapBestEffort | CapUnsupported

datatype transport_mode = ModeJsonRpc | ModeMsgpackRpc | ModeJsonFallback

record bridge_search_item =
  bi_filePath :: string
  bi_lineStart :: int
  bi_lineEnd :: int
  bi_snippet :: string
  bi_reason :: string
  bi_score :: "int option"

record bridge_evidence_entry =
  bv_kind :: string
  bv_filePath :: string
  bv_reason :: string
  bv_source :: string
  bv_confidence :: evidence_confidence
  bv_symbol :: "string option"
  bv_lineStart :: "int option"
  bv_lineEnd :: "int option"
  bv_snippet :: "string option"

record bridge_evidence_packet =
  bp_answerState :: answer_state
  bp_questionClass :: string
  bp_subject :: string
  bp_summary :: string
  bp_conclusion :: string
  bp_evidence :: "bridge_evidence_entry list"
  bp_gaps :: "string list"
  bp_hopCount :: "int option"
  bp_nodeLimit :: "int option"
  bp_traversalScope :: "string option"
  bp_stopReason :: "string option"

record language_summary =
  ls_language :: string
  ls_state :: capability_state
  ls_reason :: string
  ls_parserBacked :: bool

record capability_summary =
  cs_capability :: string
  cs_weakestState :: capability_state
  cs_languages :: "language_summary list"
  cs_retrievalOnly :: bool

record capability_entry =
  ce_language :: string
  ce_capability :: string
  ce_state :: capability_state
  ce_reason :: string
  ce_parserBacked :: bool

record transport_snapshot =
  ts_selectedCodec :: bridge_rpc_codec
  ts_selectedMode :: transport_mode
  ts_fallbackReason :: "string option"
  ts_maxFrameBytes :: int
  ts_codecVersion :: int

record initialize_capabilities =
  ic_protocolVersion :: string
  ic_methods :: "string list"
  ic_supportedRelations :: "string list"
  ic_languageCapabilityMatrix :: "capability_entry list"
  ic_transport :: "transport_snapshot option"

datatype query_class =
    SearchFileDiscovery | GraphDefinition | GraphRelationshipUsage | GraphRelationshipDependencies | GraphRelationshipDependents
  | GraphCallHierarchy | GraphEntryPoints | GraphBuildEvidence

datatype query_method = QuerySearch | QueryDefinition | QueryRelationship | QueryBuildEvidence | QueryCallHierarchy | QueryEntryPoints

record evidence_budget =
  eb_maxFiles :: "int option"
  eb_maxSymbols :: "int option"
  eb_maxSnippets :: "int option"

record ask_request =
  ar_query :: string
  ar_repoRoot :: string
  ar_queryClass :: query_class
  ar_limit :: "int option"
  ar_maxDepth :: "int option"
  ar_symbol :: "string option"
  ar_targetPath :: "string option"
  ar_intent :: "string option"
  ar_targets :: "string list option"
  ar_budget :: "evidence_budget option"
  ar_freshness :: "string option"

record ask_derived =
  ad_answerState :: answer_state
  ad_questionClass :: string
  ad_items :: "bridge_search_item list"
  ad_evidence :: "bridge_evidence_packet option"
  ad_languageCapabilitySummary :: "capability_summary option"

definition V2_PROTOCOL_VERSION :: string where
  "V2_PROTOCOL_VERSION = ''1''"

definition V2_METHODS :: "string list" where
  "V2_METHODS =
     [''dh.initialize'', ''query.search'', ''query.definition'', ''query.relationship'', ''query.buildEvidence'',
      ''query.callHierarchy'', ''query.entryPoints'', ''runtime.ping'']"

definition V2_RELATIONS :: "string list" where
  "V2_RELATIONS = [''usage'', ''dependencies'', ''dependents'']"

section \<open>Reading values\<close>

definition asRecord :: "json option \<Rightarrow> json" where
  "asRecord v = (case v of Some (JObj fs) \<Rightarrow> JObj fs | _ \<Rightarrow> JObj [])"

definition asString :: "json option \<Rightarrow> string option" where
  "asString v = (case v of Some (JStr s) \<Rightarrow> Some s | _ \<Rightarrow> None)"

definition asNumber :: "json option \<Rightarrow> int option" where
  "asNumber v = (case v of Some (JNum i) \<Rightarrow> Some i | _ \<Rightarrow> None)"

definition asBoolean :: "json option \<Rightarrow> bool option" where
  "asBoolean v = (case v of Some (JBool b) \<Rightarrow> Some b | _ \<Rightarrow> None)"

definition asBridgeRpcCodec :: "json option \<Rightarrow> bridge_rpc_codec option" where
  "asBridgeRpcCodec v =
     (if v = Some (JStr ''json-rpc-v1'') then Some JSON_RPC_CODEC
      else if v = Some (JStr ''msgpack-rpc-v1'') then Some MSGPACK_RPC_CODEC else None)"

definition asBridgeAnswerState :: "json option \<Rightarrow> answer_state option" where
  "asBridgeAnswerState v =
     (if v = Some (JStr ''grounded'') then Some AnswerGrounded
      else if v = Some (JStr ''partial'') then Some AnswerPartial
      else if v = Some (JStr ''insufficient'') then Some AnswerInsufficient
      else if v = Some (JStr ''unsupported'') then Some AnswerUnsupported else None)"

definition asBridgeLanguageCapabilityState :: "json option \<Rightarrow> capability_state option" where
  "asBridgeLanguageCapabilityState v =
     (if v = Some (JStr ''supported'') then Some CapSupported
      else if v = Some (JStr ''partial'') then Some CapPartial
      else if v = Some (JStr ''best-effort'') then Some CapBestEffort
      else if v = Some (JStr ''unsupported'') then Some CapUnsupported
      else if v = Some (JStr ''best_effort'') then Some CapBestEffort else None)"

definition asBridgeEvidenceConfidence :: "json option \<Rightarrow> evidence_confidence option" where
  "asBridgeEvidenceConfidence v =
     (if v = Some (JStr ''grounded'') then Some ConfidenceGrounded
      else if v = Some (JStr ''partial'') then Some ConfidencePartial else None)"

definition asStringArray :: "json option \<Rightarrow> string list option" where
  "asStringArray v =
     (case v of
        Some (JArr xs) \<Rightarrow> if list_ex (\<lambda>x. asString (Some x) = None) xs then None else Some (List.map_filter (\<lambda>x. asString (Some x)) xs)
      | _ \<Rightarrow> None)"

text \<open>\<^verbatim>\<open>a ?? b\<close> on members and on results; the members of an array, \<open>[]\<close> for another value; a text that is not falsy.\<close>

definition member_or :: "json option \<Rightarrow> json option \<Rightarrow> json option" where
  "member_or a b = (if a = None \<or> a = Some JNull then b else a)"

definition or_else :: "'a option \<Rightarrow> 'a option \<Rightarrow> 'a option" where
  "or_else a b = (case a of None \<Rightarrow> b | Some v \<Rightarrow> Some v)"

definition elements :: "json option \<Rightarrow> json list" where
  "elements v = (case v of Some (JArr xs) \<Rightarrow> xs | _ \<Rightarrow> [])"

definition given_text :: "string option \<Rightarrow> string option" where
  "given_text s = (if s = Some [] then None else s)"

definition toBridgeSearchItem :: "json \<Rightarrow> bridge_search_item option" where
  "toBridgeSearchItem raw =
     (let v = asRecord (Some raw);
          filePath = or_else (asString (field ''filePath'' v)) (asString (field ''file_path'' v));
          lineStart = or_else (asNumber (field ''lineStart'' v)) (asNumber (field ''line_start'' v));
          lineEnd = or_else (asNumber (field ''lineEnd'' v)) (asNumber (field ''line_end'' v)) in
      case (given_text filePath, lineStart, lineEnd) of
        (Some p, Some a, Some b) \<Rightarrow>
          Some \<lparr>bi_filePath = p, bi_lineStart = a, bi_lineEnd = b, bi_snippet = nullish (asString (field ''snippet'' v)) [],
            bi_reason = nullish (asString (field ''reason'' v)) ''rust query match'', bi_score = asNumber (field ''score'' v)\<rparr>
      | _ \<Rightarrow> None)"

definition parseBridgeEvidenceEntry :: "json \<Rightarrow> bridge_evidence_entry option" where
  "parseBridgeEvidenceEntry v =
     (let raw = asRecord (Some v) in
      case (given_text (asString (field ''kind'' raw)),
            given_text (or_else (asString (field ''filePath'' raw)) (asString (field ''file_path'' raw))),
            given_text (asString (field ''reason'' raw)), given_text (asString (field ''source'' raw)),
            asBridgeEvidenceConfidence (field ''confidence'' raw)) of
        (Some kind, Some filePath, Some reason, Some source, Some confidence) \<Rightarrow>
          Some \<lparr>bv_kind = kind, bv_filePath = filePath, bv_reason = reason, bv_source = source, bv_confidence = confidence,
            bv_symbol = asString (field ''symbol'' raw),
            bv_lineStart = or_else (asNumber (field ''lineStart'' raw)) (asNumber (field ''line_start'' raw)),
            bv_lineEnd = or_else (asNumber (field ''lineEnd'' raw)) (asNumber (field ''line_end'' raw)),
            bv_snippet = asString (field ''snippet'' raw)\<rparr>
      | _ \<Rightarrow> None)"

definition parseBridgeEvidencePacket :: "json option \<Rightarrow> bridge_evidence_packet option" where
  "parseBridgeEvidencePacket v =
     (if v = None \<or> v = Some JNull then None
      else
        let raw = asRecord v; bounds = asRecord (field ''bounds'' raw) in
        case (asBridgeAnswerState (member_or (field ''answerState'' raw) (field ''answer_state'' raw)),
              given_text (or_else (asString (field ''questionClass'' raw)) (asString (field ''question_class'' raw))),
              given_text (asString (field ''subject'' raw)), given_text (asString (field ''summary'' raw)),
              given_text (asString (field ''conclusion'' raw))) of
          (Some answerState, Some questionClass, Some subject, Some summary, Some conclusion) \<Rightarrow>
            Some \<lparr>bp_answerState = answerState, bp_questionClass = questionClass, bp_subject = subject, bp_summary = summary,
              bp_conclusion = conclusion, bp_evidence = List.map_filter parseBridgeEvidenceEntry (elements (field ''evidence'' raw)),
              bp_gaps = List.map_filter (\<lambda>g. asString (Some g)) (elements (field ''gaps'' raw)),
              bp_hopCount = or_else (asNumber (field ''hopCount'' bounds)) (asNumber (field ''hop_count'' bounds)),
              bp_nodeLimit = or_else (asNumber (field ''nodeLimit'' bounds)) (asNumber (field ''node_limit'' bounds)),
              bp_traversalScope = or_else (asString (field ''traversalScope'' bounds)) (asString (field ''traversal_scope'' bounds)),
              bp_stopReason = or_else (asString (field ''stopReason'' bounds)) (asString (field ''stop_reason'' bounds))\<rparr>
        | _ \<Rightarrow> None)"

definition parseBridgeLanguageCapabilityLanguageSummary :: "json \<Rightarrow> language_summary option" where
  "parseBridgeLanguageCapabilityLanguageSummary v =
     (let raw = asRecord (Some v) in
      case (given_text (asString (field ''language'' raw)), asBridgeLanguageCapabilityState (field ''state'' raw),
            given_text (asString (field ''reason'' raw)), asBoolean (field ''parserBacked'' raw)) of
        (Some language, Some state, Some reason, Some backed) \<Rightarrow>
          Some \<lparr>ls_language = language, ls_state = state, ls_reason = reason, ls_parserBacked = backed\<rparr>
      | _ \<Rightarrow> None)"

definition parseBridgeLanguageCapabilitySummary :: "json option \<Rightarrow> capability_summary option" where
  "parseBridgeLanguageCapabilitySummary v =
     (if v = None \<or> v = Some JNull then None
      else
        let raw = asRecord v in
        case (given_text (asString (field ''capability'' raw)), asBridgeLanguageCapabilityState (field ''weakestState'' raw),
              asBoolean (field ''retrievalOnly'' raw)) of
          (Some capability, Some weakest, Some only) \<Rightarrow>
            Some \<lparr>cs_capability = capability, cs_weakestState = weakest,
              cs_languages = List.map_filter parseBridgeLanguageCapabilityLanguageSummary (elements (field ''languages'' raw)),
              cs_retrievalOnly = only\<rparr>
        | _ \<Rightarrow> None)"

definition parseBridgeLanguageCapabilityEntry :: "json \<Rightarrow> capability_entry option" where
  "parseBridgeLanguageCapabilityEntry v =
     (let raw = asRecord (Some v) in
      case (given_text (asString (field ''language'' raw)), given_text (asString (field ''capability'' raw)),
            asBridgeLanguageCapabilityState (field ''state'' raw), given_text (asString (field ''reason'' raw)),
            asBoolean (field ''parserBacked'' raw)) of
        (Some language, Some capability, Some state, Some reason, Some backed) \<Rightarrow>
          Some \<lparr>ce_language = language, ce_capability = capability, ce_state = state, ce_reason = reason, ce_parserBacked = backed\<rparr>
      | _ \<Rightarrow> None)"

definition parseBridgeTransportSnapshot :: "json option \<Rightarrow> transport_snapshot option" where
  "parseBridgeTransportSnapshot v =
     (let raw = asRecord v in
      case asBridgeRpcCodec (field ''selectedCodec'' raw) of
        None \<Rightarrow> None
      | Some selectedCodec \<Rightarrow>
          let rawMax = nullish (asNumber (field ''maxFrameBytes'' raw)) (int DEFAULT_BRIDGE_MAX_FRAME_BYTES);
              mode = field ''selectedMode'' raw in
          Some \<lparr>ts_selectedCodec = selectedCodec,
            ts_selectedMode =
              (if mode = Some (JStr ''json'') then ModeJsonRpc
               else if mode = Some (JStr ''json-fallback'') then ModeJsonFallback
               else if mode = Some (JStr ''msgpack-rpc-v1'') then ModeMsgpackRpc
               else if selectedCodec = MSGPACK_RPC_CODEC then ModeMsgpackRpc else ModeJsonRpc),
            ts_fallbackReason = asString (field ''fallbackReason'' raw),
            ts_maxFrameBytes =
              (if int MIN_BRIDGE_MAX_FRAME_BYTES \<le> rawMax \<and> rawMax \<le> int DEFAULT_BRIDGE_MAX_FRAME_BYTES
               then rawMax else int DEFAULT_BRIDGE_MAX_FRAME_BYTES),
            ts_codecVersion = nullish (asNumber (field ''codecVersion'' raw)) 1\<rparr>)"

text \<open>The check of the advertised lists: as many entries, and every expected one among them.\<close>

definition advertises :: "string list \<Rightarrow> json option \<Rightarrow> bool" where
  "advertises expected v =
     (case asStringArray v of
        None \<Rightarrow> False
      | Some given \<Rightarrow> length given = length expected \<and> list_all (\<lambda>m. m \<in> set given) expected)"

definition parseV2Capabilities :: "json option \<Rightarrow> initialize_capabilities option" where
  "parseV2Capabilities v =
     (let c = asRecord v; rows = elements (field ''languageCapabilityMatrix'' c);
          matrix = List.map_filter parseBridgeLanguageCapabilityEntry rows in
      if asString (field ''protocolVersion'' c) \<noteq> Some V2_PROTOCOL_VERSION then None
      else if \<not> advertises V2_METHODS (field ''methods'' c) then None
      else if \<not> advertises V2_RELATIONS (field ''supportedRelations'' (asRecord (field ''queryRelationship'' c))) then None
      else if rows = [] \<or> length matrix \<noteq> length rows then None
      else Some \<lparr>ic_protocolVersion = V2_PROTOCOL_VERSION, ic_methods = V2_METHODS, ic_supportedRelations = V2_RELATIONS,
             ic_languageCapabilityMatrix = matrix, ic_transport = parseBridgeTransportSnapshot (field ''transport'' c)\<rparr>)"

section \<open>Calls and answers\<close>

definition query_method_text :: "query_method \<Rightarrow> string" where
  "query_method_text m =
     (case m of QuerySearch \<Rightarrow> ''query.search'' | QueryDefinition \<Rightarrow> ''query.definition'' | QueryRelationship \<Rightarrow> ''query.relationship''
      | QueryBuildEvidence \<Rightarrow> ''query.buildEvidence'' | QueryCallHierarchy \<Rightarrow> ''query.callHierarchy'' | QueryEntryPoints \<Rightarrow> ''query.entryPoints'')"

definition query_class_text :: "query_class \<Rightarrow> string" where
  "query_class_text q =
     (case q of SearchFileDiscovery \<Rightarrow> ''search_file_discovery'' | GraphDefinition \<Rightarrow> ''graph_definition''
      | GraphRelationshipUsage \<Rightarrow> ''graph_relationship_usage'' | GraphRelationshipDependencies \<Rightarrow> ''graph_relationship_dependencies''
      | GraphRelationshipDependents \<Rightarrow> ''graph_relationship_dependents'' | GraphCallHierarchy \<Rightarrow> ''graph_call_hierarchy''
      | GraphEntryPoints \<Rightarrow> ''graph_entry_points'' | GraphBuildEvidence \<Rightarrow> ''graph_build_evidence'')"

definition isDelegatedSessionQueryClass :: "query_class \<Rightarrow> bool" where
  "isDelegatedSessionQueryClass q \<longleftrightarrow>
     q = SearchFileDiscovery \<or> q = GraphDefinition \<or> q = GraphRelationshipUsage \<or> q = GraphRelationshipDependencies
     \<or> q = GraphRelationshipDependents \<or> q = GraphCallHierarchy \<or> q = GraphEntryPoints \<or> q = GraphBuildEvidence"

text \<open>An object literal whose members may be \<^verbatim>\<open>undefined\<close>: both encoders leave those out.\<close>

definition members :: "(string \<times> json option) list \<Rightarrow> json" where
  "members kvs = JObj (List.map_filter (\<lambda>(k, v). map_option (Pair k) v) kvs)"

definition boundedBuildEvidenceBudgetFromLimit :: "int option \<Rightarrow> evidence_budget" where
  "boundedBuildEvidenceBudgetFromLimit limit =
     (case limit of
        None \<Rightarrow> \<lparr>eb_maxFiles = Some 5, eb_maxSymbols = Some 8, eb_maxSnippets = Some 8\<rparr>
      | Some l \<Rightarrow>
          if l \<le> 0 then \<lparr>eb_maxFiles = Some 5, eb_maxSymbols = Some 8, eb_maxSnippets = Some 8\<rparr>
          else \<lparr>eb_maxFiles = Some (min (max 1 l) 5), eb_maxSymbols = Some 8, eb_maxSnippets = Some 8\<rparr>)"

definition budget_json :: "evidence_budget \<Rightarrow> json" where
  "budget_json b =
     members [(''maxFiles'', map_option JNum (eb_maxFiles b)), (''maxSymbols'', map_option JNum (eb_maxSymbols b)),
       (''maxSnippets'', map_option JNum (eb_maxSnippets b))]"

definition buildAskCall :: "ask_request \<Rightarrow> query_method \<times> json" where
  "buildAskCall r =
     (let limit = JNum (nullish (ar_limit r) 5); root = JStr (ar_repoRoot r);
          symbol = JStr (nullish (ar_symbol r) (ar_query r)); target = JStr (nullish (ar_targetPath r) (ar_query r));
          walk = members [(''symbol'', Some symbol), (''workspaceRoot'', Some root), (''filePath'', map_option JStr (ar_targetPath r)),
            (''limit'', Some limit), (''maxDepth'', Some (JNum (nullish (ar_maxDepth r) 3)))] in
      case ar_queryClass r of
        SearchFileDiscovery \<Rightarrow>
          (QuerySearch, JObj [(''query'', JStr (ar_query r)), (''workspaceRoot'', root), (''mode'', JStr ''file_path''), (''limit'', limit)])
      | GraphDefinition \<Rightarrow> (QueryDefinition, JObj [(''symbol'', symbol), (''workspaceRoot'', root), (''limit'', limit)])
      | GraphRelationshipUsage \<Rightarrow>
          (QueryRelationship, JObj [(''relation'', JStr ''usage''), (''symbol'', symbol), (''workspaceRoot'', root), (''limit'', limit)])
      | GraphRelationshipDependencies \<Rightarrow>
          (QueryRelationship, JObj [(''relation'', JStr ''dependencies''), (''filePath'', target), (''workspaceRoot'', root), (''limit'', limit)])
      | GraphRelationshipDependents \<Rightarrow>
          (QueryRelationship, JObj [(''relation'', JStr ''dependents''), (''target'', target), (''workspaceRoot'', root), (''limit'', limit)])
      | GraphCallHierarchy \<Rightarrow> (QueryCallHierarchy, walk)
      | GraphEntryPoints \<Rightarrow> (QueryEntryPoints, walk)
      | GraphBuildEvidence \<Rightarrow>
          (QueryBuildEvidence,
           JObj [(''query'', JStr (ar_query r)), (''workspaceRoot'', root), (''intent'', JStr (nullish (ar_intent r) ''explain'')),
             (''targets'', JArr (map JStr (nullish (ar_targets r) []))),
             (''budget'', budget_json (nullish (ar_budget r) (boundedBuildEvidenceBudgetFromLimit (ar_limit r)))),
             (''freshness'', JStr (nullish (ar_freshness r) ''indexed''))]))"

definition inferQuestionClassFromCall :: "query_method \<Rightarrow> json \<Rightarrow> string" where
  "inferQuestionClassFromCall method params =
     (case method of
        QuerySearch \<Rightarrow>
          let mode = nullish (asString (field ''mode'' params)) ''symbol'' in
          if mode = ''file_path'' then ''search_file_discovery''
          else if mode = ''structural'' then ''search_structural''
          else if mode = ''concept'' then ''search_concept_relevance'' else ''search_symbol''
      | QueryDefinition \<Rightarrow> ''definition''
      | QueryBuildEvidence \<Rightarrow> ''build_evidence''
      | QueryCallHierarchy \<Rightarrow> ''call_hierarchy''
      | QueryEntryPoints \<Rightarrow> ''entry_points''
      | QueryRelationship \<Rightarrow>
          let relation = asString (field ''relation'' params) in
          if relation = Some ''usage'' then ''references''
          else if relation = Some ''dependencies'' then ''dependencies''
          else if relation = Some ''dependents'' then ''dependents'' else ''unknown'')"

definition bridge_error :: "bridge_failure_code \<Rightarrow> bridge_phase \<Rightarrow> string \<Rightarrow> dh_bridge_error" where
  "bridge_error code phase msg = \<lparr>be_code = code, be_phase = phase, be_message = msg, be_retryable = False\<rparr>"

definition in_quotes :: "string \<Rightarrow> string" where
  "in_quotes s = [CHR 0x27] @ s @ [CHR 0x27]"

definition parseBridgeAskResult :: "query_method \<Rightarrow> json \<Rightarrow> json option \<Rightarrow> dh_bridge_error + ask_derived" where
  "parseBridgeAskResult method params res =
     (let obj = asRecord res; questionClass = asString (field ''questionClass'' obj);
          evidence = parseBridgeEvidencePacket (field ''evidence'' obj) in
      case or_else (asBridgeAnswerState (field ''answerState'' obj)) (map_option bp_answerState evidence) of
        None \<Rightarrow> Inl (bridge_error INVALID_REQUEST PhaseRequest
                  (''Rust bridge response for '' @ in_quotes (query_method_text method) @ '' is missing answerState.''))
      | Some answerState \<Rightarrow>
          Inr \<lparr>ad_answerState = answerState,
            ad_questionClass = nullish (or_else questionClass (map_option bp_questionClass evidence)) (inferQuestionClassFromCall method params),
            ad_items = List.map_filter toBridgeSearchItem (elements (field ''items'' obj)),
            ad_evidence = evidence,
            ad_languageCapabilitySummary = parseBridgeLanguageCapabilitySummary (field ''languageCapabilitySummary'' obj)\<rparr>)"

text \<open>The message of an \<^verbatim>\<open>Error\<close> made from a value that may be \<^verbatim>\<open>undefined\<close>.\<close>

definition message_text :: "json option \<Rightarrow> string" where
  "message_text v = (case v of None \<Rightarrow> [] | Some m \<Rightarrow> js_toString m)"

definition symbolic_codes :: "(string \<times> bridge_failure_code) list" where
  "symbolic_codes =
     [(''CAPABILITY_UNSUPPORTED'', CAPABILITY_UNSUPPORTED), (''ACCESS_DENIED'', ACCESS_DENIED), (''NOT_FOUND'', NOT_FOUND),
      (''TIMEOUT'', TIMEOUT), (''EXECUTION_FAILED'', EXECUTION_FAILED), (''RUNTIME_UNAVAILABLE'', RUNTIME_UNAVAILABLE),
      (''BINARY_FILE_UNSUPPORTED'', BINARY_FILE_UNSUPPORTED), (''BRIDGE_CODEC_UNSUPPORTED'', BRIDGE_CODEC_UNSUPPORTED),
      (''BRIDGE_CODEC_DECODE_FAILED'', BRIDGE_CODEC_DECODE_FAILED), (''BRIDGE_FRAME_TOO_LARGE'', BRIDGE_FRAME_TOO_LARGE),
      (''BRIDGE_CODEC_NEGOTIATION_FAILED'', BRIDGE_CODEC_NEGOTIATION_FAILED)]"

definition mapRpcError :: "json option \<Rightarrow> json option \<Rightarrow> bridge_phase \<Rightarrow> json option \<Rightarrow> dh_bridge_error" where
  "mapRpcError code msg phase dat =
     (case Option.bind (asString (field ''code'' (asRecord dat))) (map_of symbolic_codes) of
        Some c \<Rightarrow> \<lparr>be_code = c, be_phase = phase, be_message = message_text msg, be_retryable = (c = TIMEOUT)\<rparr>
      | None \<Rightarrow>
          bridge_error
            (if code = Some (JNum (-32601)) then METHOD_NOT_SUPPORTED
             else if code = Some (JNum (-32600)) \<or> code = Some (JNum (-32602)) then INVALID_REQUEST else REQUEST_FAILED)
            phase (message_text msg))"

text \<open>What a caller does with a response before it looks at the result.\<close>

definition response_result :: "bridge_phase \<Rightarrow> json \<Rightarrow> bridge_rejection + json option" where
  "response_result phase response =
     (case field ''error'' response of
        Some JNull \<Rightarrow> Inl MemberOfNull
      | Some e \<Rightarrow> Inl (BridgeError (mapRpcError (field ''code'' e) (field ''message'' e) phase (field ''data'' e)))
      | None \<Rightarrow> Inr (field ''result'' response))"

end
