(* ===== verification/ScanPaths.thy ===== *)
theory ScanPaths
  imports Prelude "HOL-Library.Sublist"
begin

text \<open>
  The path helpers of \<^verbatim>\<open>packages/intelligence/src/workspace/scan-paths.ts\<close> over the POSIX functions of \<^verbatim>\<open>node:path\<close>,
  which are modelled on the list of segments of a path. \<open>cwd\<close> is the working directory of the process.
\<close>

section \<open>POSIX paths\<close>

definition isAbsolute :: "string \<Rightarrow> bool" where
  "isAbsolute p = js_startsWith p ''/''"

text \<open>Empty and \<^verbatim>\<open>.\<close> segments are dropped, \<^verbatim>\<open>..\<close> takes the segment before it with it; above the root it is kept
  only where \<open>up\<close> says so. The accumulator is the path so far, reversed.\<close>

definition norm_step :: "bool \<Rightarrow> string \<Rightarrow> string list \<Rightarrow> string list" where
  "norm_step up s acc =
     (if s = [] \<or> s = ''.'' then acc
      else if s = ''..'' then
        (case acc of [] \<Rightarrow> if up then [s] else [] | t # ts \<Rightarrow> if t = ''..'' then s # acc else ts)
      else s # acc)"

definition norm_segs :: "bool \<Rightarrow> string list \<Rightarrow> string list" where
  "norm_segs up ss = rev (fold (norm_step up) ss [])"

definition resolve_segs :: "string \<Rightarrow> string \<Rightarrow> string list" where
  "resolve_segs cwd p = norm_segs False (js_split (if isAbsolute p then p else cwd @ ''/'' @ p) ''/'')"

definition path_resolve :: "string \<Rightarrow> string \<Rightarrow> string" where
  "path_resolve cwd p = ''/'' @ js_join ''/'' (resolve_segs cwd p)"

definition path_relative :: "string \<Rightarrow> string \<Rightarrow> string \<Rightarrow> string" where
  "path_relative cwd a b =
     (let from = resolve_segs cwd a; to = resolve_segs cwd b; common = length (longest_common_prefix from to) in
      js_join ''/'' (replicate (length from - common) ''..'' @ drop common to))"

definition path_normalize :: "string \<Rightarrow> string" where
  "path_normalize p =
     (if p = [] then ''.''
      else
        let absolute = isAbsolute p; trailing = js_endsWith p ''/'';
            ss = js_join ''/'' (norm_segs (\<not> absolute) (js_split p ''/''))
        in if ss = [] then (if absolute then ''/'' else if trailing then ''./'' else ''.'')
           else (if absolute then ''/'' else []) @ ss @ (if trailing then ''/'' else []))"

definition path_join :: "string \<Rightarrow> string \<Rightarrow> string" where
  "path_join a b = path_normalize (js_join ''/'' (filter (\<lambda>x. x \<noteq> []) [a, b]))"

section \<open>The helpers\<close>

definition normalizePathSlashes :: "string \<Rightarrow> string" where
  "normalizePathSlashes s = map (\<lambda>c. if c = CHR 0x5C then CHR ''/'' else c) s"

definition canonicalizeAbsolutePath :: "string \<Rightarrow> string \<Rightarrow> string" where
  "canonicalizeAbsolutePath cwd p = normalizePathSlashes (path_resolve cwd p)"

definition toWorkspaceRelativePath :: "string \<Rightarrow> string \<Rightarrow> string \<Rightarrow> string option" where
  "toWorkspaceRelativePath cwd workspaceRootAbs targetAbs =
     (let root = canonicalizeAbsolutePath cwd workspaceRootAbs; target = canonicalizeAbsolutePath cwd targetAbs;
          relative = normalizePathSlashes (path_relative cwd root target)
      in if relative = [] \<or> relative = ''.'' then None
         else if js_startsWith relative ''../'' \<or> relative = ''..'' \<or> isAbsolute relative then None
         else Some relative)"

definition isPathWithinWorkspace :: "string \<Rightarrow> string \<Rightarrow> string \<Rightarrow> bool" where
  "isPathWithinWorkspace cwd workspaceRootAbs targetAbs =
     (let root = canonicalizeAbsolutePath cwd workspaceRootAbs; target = canonicalizeAbsolutePath cwd targetAbs;
          relative = normalizePathSlashes (path_relative cwd root target)
      in if relative = [] then True
         else if relative = ''.'' then True
         else if js_startsWith relative ''../'' \<or> relative = ''..'' then False
         else \<not> isAbsolute relative)"

definition isSameOrParentPath :: "string \<Rightarrow> string \<Rightarrow> string \<Rightarrow> bool" where
  "isSameOrParentPath cwd parentCandidateAbs childCandidateAbs =
     (let parent = canonicalizeAbsolutePath cwd parentCandidateAbs; child = canonicalizeAbsolutePath cwd childCandidateAbs;
          relative = normalizePathSlashes (path_relative cwd parent child)
      in if relative = [] \<or> relative = ''.'' then True
         else if js_startsWith relative ''../'' \<or> relative = ''..'' then False
         else \<not> isAbsolute relative)"

definition resolveIndexedFileAbsolutePath :: "string \<Rightarrow> string \<Rightarrow> string option \<Rightarrow> string \<Rightarrow> string option" where
  "resolveIndexedFileAbsolutePath cwd repoRootAbs fileWorkspaceRoot filePath =
     (let workspaceRoot = canonicalizeAbsolutePath cwd
            (case fileWorkspaceRoot of None \<Rightarrow> repoRootAbs | Some r \<Rightarrow> if r = [] then repoRootAbs else r);
          absolutePath = canonicalizeAbsolutePath cwd (path_join workspaceRoot filePath)
      in if \<not> isPathWithinWorkspace cwd workspaceRoot absolutePath then None else Some absolutePath)"

definition toRepoRelativePath :: "string \<Rightarrow> string \<Rightarrow> string \<Rightarrow> string option" where
  "toRepoRelativePath cwd repoRootAbs absolutePath =
     (let repoRoot = canonicalizeAbsolutePath cwd repoRootAbs; target = canonicalizeAbsolutePath cwd absolutePath in
      if \<not> isPathWithinWorkspace cwd repoRoot target then None
      else
        let relative = normalizePathSlashes (path_relative cwd repoRoot target) in
        if relative = [] \<or> relative = ''.'' then None
        else if js_startsWith relative ''../'' \<or> relative = ''..'' \<or> isAbsolute relative then None
        else Some relative)"

text \<open>\<^verbatim>\<open>replace(/^\.\//, "")\<close>.\<close>

definition dropDotSlash :: "string \<Rightarrow> string" where
  "dropDotSlash s = (if js_startsWith s ''./'' then drop 2 s else s)"

definition normalizeToRepoRelativePath :: "string \<Rightarrow> string \<Rightarrow> string \<Rightarrow> string option" where
  "normalizeToRepoRelativePath cwd repoRootAbs candidatePath =
     (let trimmed = js_trim candidatePath in
      if trimmed = [] then None
      else if isAbsolute trimmed then toRepoRelativePath cwd repoRootAbs trimmed
      else
        let posixNormalized = path_normalize (dropDotSlash (normalizePathSlashes trimmed)) in
        if posixNormalized = [] \<or> posixNormalized = ''.'' then None
        else if js_startsWith posixNormalized ''../'' \<or> posixNormalized = ''..'' \<or> isAbsolute posixNormalized then None
        else
          let absolute = canonicalizeAbsolutePath cwd (path_join repoRootAbs posixNormalized) in
          if \<not> isPathWithinWorkspace cwd repoRootAbs absolute then None
          else toRepoRelativePath cwd repoRootAbs absolute)"

section \<open>Segments\<close>

definition seg_ok :: "string \<Rightarrow> bool" where
  "seg_ok s \<longleftrightarrow> s \<noteq> [] \<and> s \<noteq> ''.'' \<and> s \<noteq> ''..'' \<and> CHR ''/'' \<notin> set s"

lemma split_aux_no_slash: "CHR ''/'' \<notin> set acc \<Longrightarrow> s \<in> set (js_split_aux ''/'' acc p) \<Longrightarrow> CHR ''/'' \<notin> set s"
  by (induction "''/''" acc p rule: js_split_aux.induct) (auto simp: js_startsWith_def split: if_splits)

lemma split_no_slash: "s \<in> set (js_split p ''/'') \<Longrightarrow> CHR ''/'' \<notin> set s"
  using split_aux_no_slash [of "[]"] by (simp add: js_split_def)

lemma norm_step_ok: "CHR ''/'' \<notin> set s \<Longrightarrow> list_all seg_ok acc \<Longrightarrow> list_all seg_ok (norm_step False s acc)"
  by (cases acc) (auto simp: norm_step_def list_all_iff seg_ok_def)

lemma fold_norm_ok:
  "\<forall>s \<in> set ss. CHR ''/'' \<notin> set s \<Longrightarrow> list_all seg_ok acc \<Longrightarrow> list_all seg_ok (fold (norm_step False) ss acc)"
  by (induction ss arbitrary: acc) (simp_all add: norm_step_ok)

lemma resolve_segs_ok: "list_all seg_ok (resolve_segs cwd p)"
  unfolding resolve_segs_def norm_segs_def list_all_rev
  by (intro fold_norm_ok) (auto dest: split_no_slash)

lemma split_join: "ss \<noteq> [] \<Longrightarrow> list_all (\<lambda>s. CHR ''/'' \<notin> set s) ss \<Longrightarrow> js_split (js_join ''/'' ss) ''/'' = ss"
proof (induction "''/''" ss rule: js_join.induct)
  case (3 x y ys)
  then show ?case using js_split_step [of "''/''" x "js_join ''/'' (y # ys)"] by simp
qed (simp_all add: js_split_no_sep)

lemma fold_norm_id: "list_all seg_ok ss \<Longrightarrow> fold (norm_step up) ss acc = rev ss @ acc"
  by (induction ss arbitrary: acc) (simp_all add: norm_step_def seg_ok_def)

lemma norm_segs_id: "list_all seg_ok ss \<Longrightarrow> norm_segs up ss = ss"
  by (simp add: norm_segs_def fold_norm_id)

lemma norm_segs_Nil: "norm_segs up ([] # ss) = norm_segs up ss"
  by (simp add: norm_segs_def norm_step_def)

lemma split_slash: "js_split (''/'' @ s) ''/'' = [] # js_split s ''/''"
  using js_split_step [of "''/''" "[]" s] by simp

lemma resolve_join:
  assumes "list_all seg_ok ss"
  shows "resolve_segs cwd (''/'' @ js_join ''/'' ss) = ss"
proof (cases "ss = []")
  case True
  then show ?thesis
    by (simp add: resolve_segs_def isAbsolute_def js_startsWith_def split_slash [of "[]", simplified] js_split_no_sep norm_segs_def norm_step_def)
next
  case False
  have "js_split (js_join ''/'' ss) ''/'' = ss"
    using False assms by (intro split_join) (auto simp: list_all_iff seg_ok_def)
  then show ?thesis
    using assms split_slash [of "js_join ''/'' ss"]
    by (simp add: resolve_segs_def isAbsolute_def js_startsWith_def norm_segs_Nil norm_segs_id)
qed

section \<open>Relative paths\<close>

lemma join_seg:
  assumes "list_all seg_ok (x # xs)"
  shows "js_join ''/'' (x # xs) \<noteq> []" "js_join ''/'' (x # xs) \<noteq> ''.''" "js_join ''/'' (x # xs) \<noteq> ''..''"
    "\<not> js_startsWith (js_join ''/'' (x # xs)) ''../''" "\<not> isAbsolute (js_join ''/'' (x # xs))"
proof -
  obtain c cs where x: "x = c # cs" using assms by (cases x) (auto simp: seg_ok_def)
  obtain r where r: "js_join ''/'' (x # xs) = x @ r" "r = [] \<or> hd r = CHR ''/''" by (cases xs) auto
  have s: "seg_ok x" using assms by simp
  show "js_join ''/'' (x # xs) \<noteq> []" "js_join ''/'' (x # xs) \<noteq> ''.''" "js_join ''/'' (x # xs) \<noteq> ''..''" "\<not> isAbsolute (js_join ''/'' (x # xs))"
    using r s by (auto simp: x seg_ok_def isAbsolute_def js_startsWith_def Cons_eq_append_conv append_eq_Cons_conv)
  show "\<not> js_startsWith (js_join ''/'' (x # xs)) ''../''"
    using r s by (cases cs; cases "tl cs") (auto simp: x seg_ok_def js_startsWith_def take_Cons' split: if_splits)
qed

lemma lcp_append: "longest_common_prefix xs (xs @ s) = xs"
  by (induction xs) auto

lemma relative_inside:
  assumes "resolve_segs cwd b = resolve_segs cwd a @ s"
  shows "path_relative cwd a b = js_join ''/'' s"
  using assms by (simp add: path_relative_def lcp_append)

lemma relative_outside:
  assumes "\<not> prefix (resolve_segs cwd a) (resolve_segs cwd b)"
  shows "js_startsWith (path_relative cwd a b) ''../'' \<or> path_relative cwd a b = ''..''"
proof -
  let ?a = "resolve_segs cwd a" and ?b = "resolve_segs cwd b"
  let ?k = "length (longest_common_prefix ?a ?b)"
  obtain zs where zs: "?a = longest_common_prefix ?a ?b @ zs" using longest_common_prefix_prefix1 [of ?a ?b] by (auto simp: prefix_def)
  have "zs \<noteq> []" using zs assms longest_common_prefix_prefix2 [of ?a ?b] by auto
  then have "?k < length ?a" using arg_cong [OF zs, of length] by simp
  then obtain m where m: "length ?a - ?k = Suc m" by (metis Suc_diff_Suc)
  show ?thesis
    unfolding path_relative_def Let_def m by (cases "replicate m ''..'' @ drop ?k ?b") (simp_all add: js_startsWith_def)
qed

section \<open>Canonical paths\<close>

text \<open>The segments of a path once its backslashes are slashes.\<close>

definition csegs :: "string \<Rightarrow> string \<Rightarrow> string list" where
  "csegs cwd p = resolve_segs cwd (canonicalizeAbsolutePath cwd p)"

lemma canonical_text: "canonicalizeAbsolutePath cwd p = ''/'' @ normalizePathSlashes (js_join ''/'' (resolve_segs cwd p))"
  by (simp add: canonicalizeAbsolutePath_def path_resolve_def normalizePathSlashes_def)

lemma no_backslash: "CHR 0x5C \<notin> set (normalizePathSlashes s)"
  by (auto simp: normalizePathSlashes_def)

lemma slashes_id: "CHR 0x5C \<notin> set s \<Longrightarrow> normalizePathSlashes s = s"
  by (auto simp: normalizePathSlashes_def intro: map_idI)

lemma split_chars: "s \<in> set (js_split_aux sep acc p) \<Longrightarrow> set s \<subseteq> set acc \<union> set p"
proof (induction sep acc p rule: js_split_aux.induct)
  case (2 sep acc c cs)
  then show ?case using set_drop_subset [of "length sep" "c # cs"] by (auto split: if_splits)
qed simp

lemma norm_step_sub: "set (norm_step up s acc) \<subseteq> insert s (set acc)"
  by (auto simp: norm_step_def split: list.splits if_splits)

lemma fold_norm_sub: "set (fold (norm_step up) ss acc) \<subseteq> set ss \<union> set acc"
proof (induction ss arbitrary: acc)
  case (Cons s ss)
  then show ?case using norm_step_sub [of up s acc] by fastforce
qed simp

lemma csegs_no_backslash: "s \<in> set (csegs cwd p) \<Longrightarrow> CHR 0x5C \<notin> set s"
proof -
  let ?c = "canonicalizeAbsolutePath cwd p"
  assume "s \<in> set (csegs cwd p)"
  moreover have "isAbsolute ?c" by (simp add: canonical_text isAbsolute_def js_startsWith_def)
  ultimately have "s \<in> set (js_split ?c ''/'')"
    using fold_norm_sub [of False "js_split ?c ''/''" "[]"] by (auto simp: csegs_def resolve_segs_def norm_segs_def)
  then have "set s \<subseteq> set ?c" using split_chars [of s "''/''" "[]" ?c] by (simp add: js_split_def)
  then show ?thesis using no_backslash by (auto simp: canonicalizeAbsolutePath_def)
qed

lemma set_join: "c \<in> set (js_join sep ss) \<Longrightarrow> c \<in> set sep \<or> (\<exists>s \<in> set ss. c \<in> set s)"
  by (induction sep ss rule: js_join.induct) auto

lemma join_no_backslash: "\<forall>s \<in> set ss. CHR 0x5C \<notin> set s \<Longrightarrow> normalizePathSlashes (js_join ''/'' ss) = js_join ''/'' ss"
  by (intro slashes_id) (auto dest!: set_join)

lemma csegs_canonical [simp]: "csegs cwd (canonicalizeAbsolutePath cwd p) = csegs cwd p"
proof -
  have "canonicalizeAbsolutePath cwd (canonicalizeAbsolutePath cwd p) = ''/'' @ js_join ''/'' (csegs cwd p)"
    unfolding canonical_text [of cwd "canonicalizeAbsolutePath cwd p"] csegs_def [symmetric]
    using join_no_backslash [of "csegs cwd p"] csegs_no_backslash by simp
  then show ?thesis
    unfolding csegs_def [of cwd "canonicalizeAbsolutePath cwd p"] using resolve_join resolve_segs_ok csegs_def by metis
qed

text \<open>What the helpers see of the relative path of two canonical paths.\<close>

lemma canonical_relative:
  fixes cwd root t
  defines "rel \<equiv> normalizePathSlashes (path_relative cwd (canonicalizeAbsolutePath cwd root) (canonicalizeAbsolutePath cwd t))"
  shows "csegs cwd t = csegs cwd root @ s \<Longrightarrow> rel = js_join ''/'' s"
    and "\<not> prefix (csegs cwd root) (csegs cwd t) \<Longrightarrow> js_startsWith rel ''../'' \<or> rel = ''..''"
proof -
  let ?a = "canonicalizeAbsolutePath cwd root" and ?b = "canonicalizeAbsolutePath cwd t"
  show "rel = js_join ''/'' s" if s: "csegs cwd t = csegs cwd root @ s"
  proof -
    have "CHR 0x5C \<notin> set x" if "x \<in> set s" for x using csegs_no_backslash [of x cwd t] that s by simp
    then show ?thesis using s join_no_backslash unfolding rel_def csegs_def by (simp add: relative_inside)
  qed
  show "js_startsWith rel ''../'' \<or> rel = ''..''" if "\<not> prefix (csegs cwd root) (csegs cwd t)"
    using relative_outside [of cwd ?a ?b] that unfolding rel_def csegs_def
    by (auto simp: js_startsWith_def normalizePathSlashes_def take_map)
qed

lemma within_iff_prefix: "isPathWithinWorkspace cwd root t \<longleftrightarrow> prefix (csegs cwd root) (csegs cwd t)"
proof (cases "prefix (csegs cwd root) (csegs cwd t)")
  case True
  then obtain s where s: "csegs cwd t = csegs cwd root @ s" by (auto simp: prefix_def)
  show ?thesis
  proof (cases s)
    case Nil
    then show ?thesis using True canonical_relative(1) [OF s] by (simp add: isPathWithinWorkspace_def Let_def)
  next
    case (Cons x xs)
    have "list_all seg_ok (x # xs)" using resolve_segs_ok [of cwd "canonicalizeAbsolutePath cwd t"] s Cons by (simp add: csegs_def)
    from join_seg [OF this] show ?thesis
      using True canonical_relative(1) [OF s] Cons by (simp add: isPathWithinWorkspace_def Let_def)
  qed
next
  case False
  from canonical_relative(2) [OF this] False show ?thesis by (auto simp: isPathWithinWorkspace_def Let_def js_startsWith_def)
qed

lemma toRepoRelativePath_iff:
  "toRepoRelativePath cwd root t = Some r \<longleftrightarrow> (\<exists>s. s \<noteq> [] \<and> csegs cwd t = csegs cwd root @ s \<and> r = js_join ''/'' s)"
proof (cases "prefix (csegs cwd root) (csegs cwd t)")
  case True
  then obtain s where s: "csegs cwd t = csegs cwd root @ s" by (auto simp: prefix_def)
  show ?thesis
  proof (cases s)
    case Nil
    then show ?thesis using canonical_relative(1) [OF s] s True by (simp add: toRepoRelativePath_def Let_def within_iff_prefix)
  next
    case (Cons x xs)
    have "list_all seg_ok (x # xs)" using resolve_segs_ok [of cwd "canonicalizeAbsolutePath cwd t"] s Cons by (simp add: csegs_def)
    from join_seg [OF this] show ?thesis
      using canonical_relative(1) [OF s] s Cons True by (auto simp: toRepoRelativePath_def Let_def within_iff_prefix)
  qed
next
  case False
  then show ?thesis by (auto simp: toRepoRelativePath_def Let_def within_iff_prefix)
qed

text \<open>
  C33. The path helpers never leave the workspace, whatever dots, doubled slashes or backslashes a path has:
  a repository-relative path exists exactly for a target strictly below the root and is the rest of its segments;
  a path that normalizing returns is a non-empty list of plain segments, without dot segments, that names the
  same file below the root; and an indexed file resolves only to a path below its workspace root.
\<close>

theorem scan_paths_stay_inside:
  "(toRepoRelativePath cwd root t = Some r) = (\<exists>s. s \<noteq> [] \<and> csegs cwd t = csegs cwd root @ s \<and> r = js_join ''/'' s)
   \<and> set_option (normalizeToRepoRelativePath cwd root p)
       \<subseteq> {q. \<exists>s. s \<noteq> [] \<and> list_all seg_ok s \<and> q = js_join ''/'' s \<and> csegs cwd (''/'' @ js_join ''/'' (csegs cwd root @ s)) = csegs cwd root @ s}
   \<and> set_option (resolveIndexedFileAbsolutePath cwd root (Some ws) f) \<subseteq> {q. prefix (csegs cwd (if ws = [] then root else ws)) (csegs cwd q)}"
proof -
  have "\<exists>s. s \<noteq> [] \<and> list_all seg_ok s \<and> q = js_join ''/'' s \<and> csegs cwd (''/'' @ js_join ''/'' (csegs cwd root @ s)) = csegs cwd root @ s"
    if rel: "toRepoRelativePath cwd root t' = Some q" for t' q
  proof -
    obtain s where s: "s \<noteq> []" "csegs cwd t' = csegs cwd root @ s" "q = js_join ''/'' s" using rel toRepoRelativePath_iff by blast
    have ok: "list_all seg_ok (csegs cwd t')" unfolding csegs_def by (rule resolve_segs_ok)
    have "csegs cwd (''/'' @ js_join ''/'' (csegs cwd t')) = csegs cwd t'"
      unfolding csegs_def [of cwd "''/'' @ js_join ''/'' (csegs cwd t')"] canonical_text resolve_join [OF ok]
      using join_no_backslash [of "csegs cwd t'"] csegs_no_backslash resolve_join [OF ok] by simp
    then show ?thesis using s ok by auto
  qed
  moreover have "\<exists>t'. toRepoRelativePath cwd root t' = Some q" if "normalizeToRepoRelativePath cwd root p = Some q" for q
    using that by (auto simp: normalizeToRepoRelativePath_def Let_def split: if_splits)
  ultimately show ?thesis
    using toRepoRelativePath_iff [of cwd root t r]
    by (fastforce simp: resolveIndexedFileAbsolutePath_def Let_def within_iff_prefix split: if_splits)
qed

end
