(* ===== verification/BridgeClient.thy ===== *)
theory BridgeClient
  imports BridgeResults ScanPaths
begin

text \<open>
  The client of the Rust engine, \<^verbatim>\<open>packages/opencode-app/src/bridge/dh-jsonrpc-stdio-client.ts\<close>, as a state machine. The state
  has the fields of the class \<^verbatim>\<open>DhJsonRpcStdioClient\<close>, the number of processes spawned and the queue of microtasks. An event is one
  turn of the event loop: a call of a public method, output of a process, a timer that fires, a write that fails, the end of a
  process. A promise that settles queues the continuation that awaits it; the queue is run to its end after the turn, in order,
  so that the continuation of \<^verbatim>\<open>ensureInitialized\<close> comes before that of its caller and may let other continuations in between.

  A process is the number of its spawn. The timer of a request is live as long as its entry is pending; the event of a timer
  that was cleared does nothing.
\<close>

section \<open>State\<close>

datatype bridge_call = AskQuery ask_request | SessionCommand ask_request | InitializeSnapshot | RuntimePing

text \<open>Who awaits a request: \<^verbatim>\<open>ensureInitialized\<close> on behalf of a call, or the call itself.\<close>

datatype awaiting = AwaitInitialize nat bridge_call | AwaitAnswer nat bridge_call nat

record pending_request =
  pr_awaiting :: awaiting
  pr_phase :: bridge_phase
  pr_method :: string
  pr_timeoutMs :: nat

datatype microtask =
    AfterInitialize nat bridge_call "bridge_rejection + json"
  | AfterReady nat bridge_call "bridge_rejection option"
  | AfterAnswer nat bridge_call nat "bridge_rejection + json"

record bridge_client =
  bc_child :: "nat option"
  bc_closed :: bool
  bc_nextRequestId :: nat
  bc_readBuffer :: buffer
  bc_activeCodec :: bridge_rpc_codec
  bc_negotiatedCodec :: bridge_rpc_codec
  bc_selectedMode :: transport_mode
  bc_fallbackReason :: "string option"
  bc_maxFrameBytes :: int
  bc_codecVersion :: int
  bc_pending :: "(nat, pending_request) js_map"
  bc_initialized :: bool
  bc_engineName :: string
  bc_engineVersion :: string
  bc_protocolVersion :: string
  bc_capabilities :: initialize_capabilities
  bc_spawned :: nat
  bc_tasks :: "microtask list"

record ask_result = ask_derived +
  aq_method :: query_method
  aq_seamMethod :: "string option"
  aq_delegatedMethod :: "query_method option"
  aq_requestId :: nat
  aq_engineName :: string
  aq_engineVersion :: string
  aq_protocolVersion :: string
  aq_capabilities :: initialize_capabilities

record initialize_snapshot =
  is_engineName :: string
  is_engineVersion :: string
  is_protocolVersion :: string
  is_capabilities :: initialize_capabilities
  is_transport :: transport_snapshot

record runtime_ping =
  rp_ok :: bool
  rp_workerState :: string
  rp_healthState :: string
  rp_phase :: string

datatype call_result = AskResult ask_result | SnapshotResult initialize_snapshot | PingResult runtime_ping

datatype bridge_out =
    SpawnChild nat string string
  | WriteStdin nat buffer
  | KillChild nat
  | StderrLine string
  | CallDone nat "bridge_rejection + call_result"
  | UncaughtMemberOfNull

datatype bridge_event =
    EvCall nat bridge_call
  | EvStdout nat buffer
  | EvStderr nat string
  | EvChildError nat string
  | EvChildExit nat "int option" "string option"
  | EvTimer nat
  | EvStdinFailed nat string
  | EvCloseClient

record bridge_config =
  bg_repoRoot :: string
  bg_startupTimeoutMs :: nat
  bg_requestTimeoutMs :: nat
  bg_codecEnv :: json
  bg_exists :: "string \<Rightarrow> bool"
  bg_sourceLayout :: string
  bg_enc :: "bridge_rpc_codec \<Rightarrow> json \<Rightarrow> buffer"
  bg_dec :: "bridge_rpc_codec \<Rightarrow> buffer \<Rightarrow> int \<Rightarrow> codec_error + json"

definition default_capabilities :: initialize_capabilities where
  "default_capabilities =
     \<lparr>ic_protocolVersion = V2_PROTOCOL_VERSION, ic_methods = V2_METHODS, ic_supportedRelations = V2_RELATIONS,
      ic_languageCapabilityMatrix = [], ic_transport = None\<rparr>"

definition bridge_client_init :: bridge_client where
  "bridge_client_init =
     \<lparr>bc_child = None, bc_closed = False, bc_nextRequestId = 1, bc_readBuffer = [], bc_activeCodec = JSON_RPC_CODEC,
      bc_negotiatedCodec = JSON_RPC_CODEC, bc_selectedMode = ModeJsonRpc, bc_fallbackReason = None,
      bc_maxFrameBytes = int DEFAULT_BRIDGE_MAX_FRAME_BYTES, bc_codecVersion = 1, bc_pending = [], bc_initialized = False,
      bc_engineName = ''dh-engine'', bc_engineVersion = ''unknown'', bc_protocolVersion = V2_PROTOCOL_VERSION,
      bc_capabilities = default_capabilities, bc_spawned = 0, bc_tasks = []\<rparr>"

section \<open>Settling requests\<close>

fun resume :: "awaiting \<Rightarrow> bridge_rejection + json \<Rightarrow> microtask" where
  "resume (AwaitInitialize k call) x = AfterInitialize k call x"
| "resume (AwaitAnswer k call rid) x = AfterAnswer k call rid x"

definition queue :: "microtask list \<Rightarrow> bridge_client \<Rightarrow> bridge_client" where
  "queue ts c = c\<lparr>bc_tasks := bc_tasks c @ ts\<rparr>"

definition failAllPendingRequests :: "(bridge_phase \<Rightarrow> dh_bridge_error) \<Rightarrow> bridge_client \<Rightarrow> bridge_client" where
  "failAllPendingRequests createError c =
     queue (map (\<lambda>(rid, e). resume (pr_awaiting e) (Inl (BridgeError (createError (pr_phase e))))) (bc_pending c)) (c\<lparr>bc_pending := []\<rparr>)"

definition settle_request :: "nat \<Rightarrow> (pending_request \<Rightarrow> bridge_rejection + json) \<Rightarrow> bridge_client \<Rightarrow> bridge_client" where
  "settle_request rid outcome c =
     (case map_of (bc_pending c) rid of
        None \<Rightarrow> c
      | Some e \<Rightarrow> queue [resume (pr_awaiting e) (outcome e)] (c\<lparr>bc_pending := AList.delete rid (bc_pending c)\<rparr>))"

definition bridge_request ::
  "bridge_config \<Rightarrow> nat \<Rightarrow> string \<Rightarrow> json option \<Rightarrow> awaiting \<Rightarrow> bridge_phase \<Rightarrow> nat \<Rightarrow> bridge_client \<Rightarrow> bridge_client \<times> bridge_out list" where
  "bridge_request cfg rid method params w phase timeoutMs c =
     (if bc_closed c then
        (queue [resume w (Inl (BridgeError (bridge_error BRIDGE_UNREACHABLE phase ''Bridge client is already closed.'')))] c, [])
      else
        (case bc_child c of
           None \<Rightarrow> (queue [resume w (Inl (BridgeError (bridge_error BRIDGE_UNREACHABLE phase ''Bridge process is not available.'')))] c, [])
         | Some n \<Rightarrow>
             let c1 = c\<lparr>bc_pending :=
                   AList.update rid \<lparr>pr_awaiting = w, pr_phase = phase, pr_method = method, pr_timeoutMs = timeoutMs\<rparr> (bc_pending c)\<rparr> in
             (case encodeRpcFrame (bg_enc cfg) (bc_activeCodec c) (request_message (JNum (int rid)) method params) (bc_maxFrameBytes c) of
                Inl e \<Rightarrow>
                  (queue [resume w (Inl (BridgeError (bridge_error BRIDGE_FRAME_TOO_LARGE phase
                       (''Failed to encode bridge request '' @ in_quotes method @ '': '' @ codec_error_message e))))]
                     (c1\<lparr>bc_pending := AList.delete rid (bc_pending c1)\<rparr>), [])
              | Inr frame \<Rightarrow> (c1, [WriteStdin n frame]))))"

section \<open>Start and negotiation\<close>

definition resolveRustEngineRoot :: "bridge_config \<Rightarrow> string \<Rightarrow> string" where
  "resolveRustEngineRoot cfg repoRoot =
     (let fromRepoRoot = path_join repoRoot ''rust-engine'' in
      if bg_exists cfg fromRepoRoot then fromRepoRoot
      else if bg_exists cfg (bg_sourceLayout cfg) then bg_sourceLayout cfg else fromRepoRoot)"

definition mode_name :: "bridge_codec_mode \<Rightarrow> string" where
  "mode_name m = (case m of ModeAuto \<Rightarrow> ''auto'' | ModeJson \<Rightarrow> ''json'' | ModeMsgpack \<Rightarrow> ''msgpack'')"

definition initializeTransportParams :: "bridge_config \<Rightarrow> bridge_client \<Rightarrow> json" where
  "initializeTransportParams cfg c =
     (let override = normalizeBridgeCodecModeOverride (bg_codecEnv cfg);
          supported = (if override = ModeJson then [JSON_RPC_CODEC] else [JSON_RPC_CODEC, MSGPACK_RPC_CODEC]);
          preferred = (if override = ModeJson then JSON_RPC_CODEC else MSGPACK_RPC_CODEC) in
      JObj [(''supportedCodecs'', JArr (map (JStr \<circ> codec_name) supported)), (''preferredCodec'', JStr (codec_name preferred)),
        (''maxFrameBytes'', JNum (bc_maxFrameBytes c)),
        (''binaryBridge'', JObj [(''enabled'', JBool (override \<noteq> ModeJson)), (''minPayloadBytes'', JNum 0)]),
        (''codecOverride'', JStr (mode_name override))])"

definition transportSnapshot :: "bridge_client \<Rightarrow> transport_snapshot" where
  "transportSnapshot c =
     \<lparr>ts_selectedCodec = bc_negotiatedCodec c, ts_selectedMode = bc_selectedMode c, ts_fallbackReason = bc_fallbackReason c,
      ts_maxFrameBytes = bc_maxFrameBytes c, ts_codecVersion = bc_codecVersion c\<rparr>"

definition transport_mode_name :: "transport_mode \<Rightarrow> string" where
  "transport_mode_name m =
     (case m of ModeJsonRpc \<Rightarrow> ''json'' | ModeMsgpackRpc \<Rightarrow> ''msgpack-rpc-v1'' | ModeJsonFallback \<Rightarrow> ''json-fallback'')"

definition applyNegotiatedTransport ::
  "bridge_config \<Rightarrow> json option \<Rightarrow> transport_snapshot option \<Rightarrow> bridge_client \<Rightarrow> dh_bridge_error + bridge_client \<times> bridge_out list" where
  "applyNegotiatedTransport cfg resultTransport capsTransport c =
     (let transport = asRecord resultTransport;
          selectedCodec = nullish (or_else (asBridgeRpcCodec (field ''selectedCodec'' transport)) (map_option ts_selectedCodec capsTransport)) JSON_RPC_CODEC;
          fallbackReason = or_else (asString (field ''fallbackReason'' transport)) (Option.bind capsTransport ts_fallbackReason);
          maxFrameBytes = nullish (or_else (asNumber (field ''maxFrameBytes'' transport)) (map_option ts_maxFrameBytes capsTransport))
            (int DEFAULT_BRIDGE_MAX_FRAME_BYTES);
          codecVersion = nullish (or_else (asNumber (field ''codecVersion'' transport)) (map_option ts_codecVersion capsTransport)) 1;
          override = normalizeBridgeCodecModeOverride (bg_codecEnv cfg) in
      case validateBridgeMaxFrameBytes maxFrameBytes of
        Inl e \<Rightarrow> Inl (bridge_error BRIDGE_CODEC_NEGOTIATION_FAILED PhaseStartup
                  (''Bridge selected invalid maxFrameBytes: '' @ codec_error_message e))
      | Inr _ \<Rightarrow>
          if override = ModeMsgpack \<and> selectedCodec \<noteq> MSGPACK_RPC_CODEC then
            Inl (bridge_error BRIDGE_CODEC_NEGOTIATION_FAILED PhaseStartup
              (''DH_BRIDGE_CODEC=msgpack required '' @ codec_name MSGPACK_RPC_CODEC @ '', but bridge selected '' @ codec_name selectedCodec @ ''.''))
          else if selectedCodec = MSGPACK_RPC_CODEC \<and> codecVersion \<noteq> 1 then
            Inl (bridge_error BRIDGE_CODEC_UNSUPPORTED PhaseStartup
              (''Bridge selected unsupported MessagePack codecVersion '' @ in_quotes (show_int codecVersion) @ ''.''))
          else
            let mode = (if selectedCodec = MSGPACK_RPC_CODEC then ModeMsgpackRpc
                        else if given_text fallbackReason \<noteq> None then ModeJsonFallback else ModeJsonRpc);
                c1 = c\<lparr>bc_negotiatedCodec := selectedCodec, bc_activeCodec := selectedCodec, bc_maxFrameBytes := maxFrameBytes,
                       bc_codecVersion := codecVersion, bc_fallbackReason := fallbackReason, bc_selectedMode := mode\<rparr>;
                c2 = c1\<lparr>bc_capabilities := (bc_capabilities c1)\<lparr>ic_transport := Some (transportSnapshot c1)\<rparr>\<rparr> in
            Inr (c2, [StderrLine (''[dh-bridge] selected codec: '' @ transport_mode_name mode
              @ (case given_text fallbackReason of None \<Rightarrow> [] | Some r \<Rightarrow> '' ('' @ r @ '')'') @ [CHR 0x0A])]))"

definition call_root :: "bridge_config \<Rightarrow> bridge_call \<Rightarrow> string" where
  "call_root cfg call = (case call of AskQuery r \<Rightarrow> ar_repoRoot r | SessionCommand r \<Rightarrow> ar_repoRoot r | _ \<Rightarrow> bg_repoRoot cfg)"

text \<open>\<^verbatim>\<open>ensureInitialized\<close> up to its await, and what follows the response.\<close>

definition ensureInitialized :: "bridge_config \<Rightarrow> nat \<Rightarrow> bridge_call \<Rightarrow> bridge_client \<Rightarrow> bridge_client \<times> bridge_out list" where
  "ensureInitialized cfg k call c =
     (if bc_initialized c then (queue [AfterReady k call None] c, [])
      else
        let repoRoot = call_root cfg call; n = bc_spawned c; rid = bc_nextRequestId c;
            c1 = c\<lparr>bc_child := Some n, bc_spawned := n + 1, bc_nextRequestId := rid + 1\<rparr>;
            r = bridge_request cfg rid ''dh.initialize''
              (Some (JObj [(''protocolVersion'', JStr ''1''), (''workspaceRoot'', JStr repoRoot),
                 (''client'', JObj [(''name'', JStr ''dh-cli''), (''version'', JStr ''0.1.0'')]),
                 (''transport'', initializeTransportParams cfg c1)]))
              (AwaitInitialize k call) PhaseStartup (bg_startupTimeoutMs cfg) c1 in
        (fst r, SpawnChild n (resolveRustEngineRoot cfg repoRoot) repoRoot # snd r))"

definition finishInitialize :: "bridge_config \<Rightarrow> json \<Rightarrow> bridge_client \<Rightarrow> bridge_rejection option \<times> bridge_client \<times> bridge_out list" where
  "finishInitialize cfg response c =
     (case response_result PhaseStartup response of
        Inl e \<Rightarrow> (Some e, c, [])
      | Inr res \<Rightarrow>
          let obj = asRecord res;
              c1 = c\<lparr>bc_engineName := nullish (asString (field ''serverName'' obj)) ''dh-engine'',
                     bc_engineVersion := nullish (asString (field ''serverVersion'' obj)) ''unknown''\<rparr>;
              protocolVersion = asString (field ''protocolVersion'' obj) in
          if protocolVersion \<noteq> Some V2_PROTOCOL_VERSION then
            (Some (BridgeError (bridge_error INVALID_REQUEST PhaseStartup
               (''Bridge initialize returned unsupported protocolVersion '' @ in_quotes (nullish protocolVersion ''missing'') @ ''.''))), c1, [])
          else
            (case parseV2Capabilities (field ''capabilities'' obj) of
               None \<Rightarrow> (Some (BridgeError (bridge_error INVALID_REQUEST PhaseStartup
                         ''Bridge initialize did not advertise required V2 capabilities.'')), c1, [])
             | Some caps \<Rightarrow>
                 (case applyNegotiatedTransport cfg (field ''transport'' obj) (ic_transport caps)
                         (c1\<lparr>bc_protocolVersion := V2_PROTOCOL_VERSION, bc_capabilities := caps\<rparr>) of
                    Inl e \<Rightarrow> (Some (BridgeError e), c1\<lparr>bc_protocolVersion := V2_PROTOCOL_VERSION, bc_capabilities := caps\<rparr>, [])
                  | Inr (c2, os) \<Rightarrow> (None, c2\<lparr>bc_initialized := True\<rparr>, os))))"

section \<open>The continuations of a call\<close>

definition next_request ::
  "bridge_config \<Rightarrow> nat \<Rightarrow> bridge_call \<Rightarrow> string \<Rightarrow> json option \<Rightarrow> bridge_client \<Rightarrow> bridge_client \<times> bridge_out list" where
  "next_request cfg k call method params c =
     (let rid = bc_nextRequestId c in
      bridge_request cfg rid method params (AwaitAnswer k call rid) PhaseRequest (bg_requestTimeoutMs cfg) (c\<lparr>bc_nextRequestId := rid + 1\<rparr>))"

definition startCall :: "bridge_config \<Rightarrow> nat \<Rightarrow> bridge_call \<Rightarrow> bridge_client \<Rightarrow> bridge_client \<times> bridge_out list" where
  "startCall cfg k call c =
     (case call of
        AskQuery r \<Rightarrow>
          if \<not> isDelegatedSessionQueryClass (ar_queryClass r) then
            (c, [CallDone k (Inl (BridgeError (bridge_error CAPABILITY_UNSUPPORTED PhaseRequest
               (''Direct bridge ask does not support query class '' @ in_quotes (query_class_text (ar_queryClass r)) @ '' in this bounded path.''))))])
          else
            let (m, params) = buildAskCall r in next_request cfg k call (query_method_text m) (Some params) c
      | SessionCommand r \<Rightarrow>
          let (m, params) = buildAskCall r in
          next_request cfg k call ''session.runCommand''
            (Some (JObj [(''query'', JObj [(''method'', JStr (query_method_text m)), (''params'', params)])])) c
      | RuntimePing \<Rightarrow> next_request cfg k call ''runtime.ping'' None c
      | InitializeSnapshot \<Rightarrow>
          (c, [CallDone k (Inr (SnapshotResult
             \<lparr>is_engineName = bc_engineName c, is_engineVersion = bc_engineVersion c, is_protocolVersion = bc_protocolVersion c,
              is_capabilities = bc_capabilities c, is_transport = transportSnapshot c\<rparr>))]))"

fun json_truthy :: "json \<Rightarrow> bool" where
  "json_truthy JNull = False"
| "json_truthy (JBool b) = b"
| "json_truthy (JNum i) = (i \<noteq> 0)"
| "json_truthy (JStr s) = (s \<noteq> [])"
| "json_truthy _ = True"

definition ask_answer :: "ask_request \<Rightarrow> string option \<Rightarrow> nat \<Rightarrow> json option \<Rightarrow> bridge_client \<Rightarrow> bridge_rejection + call_result" where
  "ask_answer r seam rid res c =
     (let (m, params) = buildAskCall r in
      case parseBridgeAskResult m params res of
        Inl e \<Rightarrow> Inl (BridgeError e)
      | Inr d \<Rightarrow>
          Inr (AskResult (ask_derived.extend d
            \<lparr>aq_method = m, aq_seamMethod = seam, aq_delegatedMethod = (if seam = None then None else Some m), aq_requestId = rid,
             aq_engineName = bc_engineName c, aq_engineVersion = bc_engineVersion c, aq_protocolVersion = bc_protocolVersion c,
             aq_capabilities = bc_capabilities c\<rparr>)))"

definition finishCall :: "bridge_call \<Rightarrow> nat \<Rightarrow> json \<Rightarrow> bridge_client \<Rightarrow> bridge_rejection + call_result" where
  "finishCall call rid response c =
     (case response_result PhaseRequest response of
        Inl e \<Rightarrow> Inl e
      | Inr res \<Rightarrow>
          (case call of
             AskQuery r \<Rightarrow> ask_answer r None rid res c
           | SessionCommand r \<Rightarrow> ask_answer r (Some ''session.runCommand'') rid res c
           | _ \<Rightarrow>
               let obj = asRecord res; text = (\<lambda>f. message_text (member_or (field f obj) (Some (JStr ''unknown'')))) in
               Inr (PingResult \<lparr>rp_ok = (case field ''ok'' obj of None \<Rightarrow> False | Some v \<Rightarrow> json_truthy v),
                 rp_workerState = text ''workerState'', rp_healthState = text ''healthState'', rp_phase = text ''phase''\<rparr>)))"

fun run_microtask :: "bridge_config \<Rightarrow> microtask \<Rightarrow> bridge_client \<Rightarrow> bridge_client \<times> bridge_out list" where
  "run_microtask cfg (AfterInitialize k call (Inl e)) c = (queue [AfterReady k call (Some e)] c, [])"
| "run_microtask cfg (AfterInitialize k call (Inr response)) c =
     (case finishInitialize cfg response c of (failure, c1, os) \<Rightarrow> (queue [AfterReady k call failure] c1, os))"
| "run_microtask cfg (AfterReady k call (Some e)) c = (c, [CallDone k (Inl e)])"
| "run_microtask cfg (AfterReady k call None) c = startCall cfg k call c"
| "run_microtask cfg (AfterAnswer k call rid (Inl e)) c = (c, [CallDone k (Inl e)])"
| "run_microtask cfg (AfterAnswer k call rid (Inr response)) c = (c, [CallDone k (finishCall call rid response c)])"

text \<open>The work left in the queue: a continuation queues at most one other, of a smaller weight.\<close>

fun task_weight :: "microtask \<Rightarrow> nat" where
  "task_weight (AfterInitialize _ _ _) = 3"
| "task_weight (AfterReady _ _ _) = 2"
| "task_weight (AfterAnswer _ _ _ _) = 1"

definition queue_weight :: "bridge_client \<Rightarrow> nat" where
  "queue_weight c = sum_list (map task_weight (bc_tasks c))"

lemma queue_simps [simp]:
  "bc_tasks (queue ts c) = bc_tasks c @ ts" "bc_pending (queue ts c) = bc_pending c" "bc_nextRequestId (queue ts c) = bc_nextRequestId c"
  "bc_closed (queue ts c) = bc_closed c" "bc_maxFrameBytes (queue ts c) = bc_maxFrameBytes c"
  "bc_readBuffer (queue ts c) = bc_readBuffer c" "bc_child (queue ts c) = bc_child c" "queue [] c = c"
  by (simp_all add: queue_def)

lemma bridge_request_tasks:
  "bc_tasks (fst (bridge_request cfg rid m p w ph t c)) = bc_tasks c \<or>
   (\<exists>x. bc_tasks (fst (bridge_request cfg rid m p w ph t c)) = bc_tasks c @ [resume w x])"
  by (auto simp: bridge_request_def Let_def split: option.split sum.split)

text \<open>A call that starts is done at once or makes one request.\<close>

lemma startCall_cases:
  obtains x where "startCall cfg k call c = (c, [CallDone k x])"
  | m p where "startCall cfg k call c = next_request cfg k call m p c"
proof -
  have "(\<exists>x. startCall cfg k call c = (c, [CallDone k x])) \<or> (\<exists>m p. startCall cfg k call c = next_request cfg k call m p c)"
  proof (cases call)
    case (AskQuery r)
    obtain m params where "buildAskCall r = (m, params)" by fastforce
    then show ?thesis unfolding AskQuery startCall_def by (cases "isDelegatedSessionQueryClass (ar_queryClass r)") (simp_all, blast)
  next
    case (SessionCommand r)
    obtain m params where "buildAskCall r = (m, params)" by fastforce
    then show ?thesis unfolding SessionCommand startCall_def by (simp, blast)
  qed (simp_all add: startCall_def, blast)
  then show ?thesis using that by blast
qed

lemma startCall_tasks: "queue_weight (fst (startCall cfg k call c)) \<le> queue_weight c + 1"
proof (cases rule: startCall_cases [of cfg k call c])
  case (2 m p)
  then show ?thesis
    using bridge_request_tasks [of cfg "bc_nextRequestId c" m p "AwaitAnswer k call (bc_nextRequestId c)" PhaseRequest
        "bg_requestTimeoutMs cfg" "c\<lparr>bc_nextRequestId := bc_nextRequestId c + 1\<rparr>"]
    by (auto simp: next_request_def Let_def queue_weight_def)
qed simp

lemma finishInitialize_tasks [simp]: "bc_tasks (fst (snd (finishInitialize cfg r c))) = bc_tasks c"
  by (auto simp: finishInitialize_def applyNegotiatedTransport_def Let_def split: sum.splits option.splits if_splits prod.splits)

lemma run_microtask_weight:
  assumes "bc_tasks c = t # ts"
  shows "queue_weight (fst (run_microtask cfg t (c\<lparr>bc_tasks := ts\<rparr>))) < queue_weight c"
proof (cases "(cfg, t, c)" rule: run_microtask.cases)
  case (2 _ k call response)
  obtain f c1 os where f: "finishInitialize cfg response (c\<lparr>bc_tasks := ts\<rparr>) = (f, c1, os)" by (metis prod_cases3)
  have "bc_tasks c1 = ts" using finishInitialize_tasks [of cfg response "c\<lparr>bc_tasks := ts\<rparr>"] unfolding f by simp
  then show ?thesis using 2 assms f by (auto simp: queue_weight_def)
next
  case (4 _ k call)
  then show ?thesis using assms startCall_tasks [of cfg k call "c\<lparr>bc_tasks := ts\<rparr>"] by (auto simp: queue_weight_def)
qed (use assms in \<open>auto simp: queue_weight_def\<close>)

function run_microtasks :: "bridge_config \<Rightarrow> bridge_client \<Rightarrow> bridge_client \<times> bridge_out list" where
  "run_microtasks cfg c =
     (case bc_tasks c of
        [] \<Rightarrow> (c, [])
      | t # ts \<Rightarrow>
          let r = run_microtask cfg t (c\<lparr>bc_tasks := ts\<rparr>); r' = run_microtasks cfg (fst r) in (fst r', snd r @ snd r'))"
  by pat_completeness auto
termination
  by (relation "measure (\<lambda>(cfg, c). queue_weight c)") (auto dest: run_microtask_weight)

declare run_microtasks.simps [simp del]

section \<open>Events\<close>

text \<open>One iteration of \<^verbatim>\<open>drainFrames\<close>: no whole frame, a header the client gives up on, or a body and the bytes after it.\<close>

datatype bridge_frame = BridgeNone | BridgeBad bridge_failure_code string | BridgeFrame buffer buffer

definition bridgeFrame :: "int \<Rightarrow> buffer \<Rightarrow> bridge_frame" where
  "bridgeFrame maxFrameBytes buf =
     (case findFrameHeaderEnd buf of
        None \<Rightarrow> BridgeNone
      | Some headerEnd \<Rightarrow>
          let h = parseFrameHeaders (ascii_of (take headerEnd buf)) in
          (case contentLength h of
             None \<Rightarrow> BridgeBad INVALID_REQUEST
               (if malformedContentLength h then ''Bridge response has a malformed Content-Length header.''
                else ''Bridge response is missing a valid Content-Length header.'')
           | Some n \<Rightarrow>
               if malformedContentLength h then BridgeBad INVALID_REQUEST ''Bridge response has a malformed Content-Length header.''
               else if int n > maxFrameBytes then
                 BridgeBad BRIDGE_FRAME_TOO_LARGE
                   (''Bridge response frame is '' @ show_nat n @ '' bytes, exceeding maxFrameBytes='' @ show_int maxFrameBytes @ ''.'')
               else if length buf < headerEnd + 4 + n then BridgeNone
               else BridgeFrame (take n (drop (headerEnd + 4) buf)) (drop (headerEnd + 4 + n) buf)))"

lemma bridgeFrame_shorter: "bridgeFrame m buf = BridgeFrame body rest \<Longrightarrow> length rest < length buf"
  by (auto simp: bridgeFrame_def Let_def split: option.splits if_splits)

text \<open>What the loop does with a decoded value. The member of null that it reads of a null value ends the listener.\<close>

definition deliver_value :: "json \<Rightarrow> bridge_client \<Rightarrow> bridge_client" where
  "deliver_value v c =
     (case field ''id'' v of
        Some (JNum i) \<Rightarrow> if i < 0 then c else settle_request (nat i) (\<lambda>_. Inr v) c
      | _ \<Rightarrow> c)"

lemma deliver_value_buffer [simp]: "bc_readBuffer (deliver_value v c) = bc_readBuffer c"
  by (simp add: deliver_value_def settle_request_def split: option.split json.split)

function drainBridge :: "bridge_config \<Rightarrow> bridge_client \<Rightarrow> bridge_client \<times> bridge_out list" where
  "drainBridge cfg c =
     (case bridgeFrame (bc_maxFrameBytes c) (bc_readBuffer c) of
        BridgeNone \<Rightarrow> (c, [])
      | BridgeBad code msg \<Rightarrow> ((failAllPendingRequests (\<lambda>phase. bridge_error code phase msg) c)\<lparr>bc_readBuffer := []\<rparr>, [])
      | BridgeFrame body rest \<Rightarrow>
          let c1 = c\<lparr>bc_readBuffer := rest\<rparr> in
          (case bg_dec cfg (bc_activeCodec c) body (bc_maxFrameBytes c) of
             Inl e \<Rightarrow>
               (failAllPendingRequests (\<lambda>phase. bridge_error
                  (if bc_activeCodec c = MSGPACK_RPC_CODEC then BRIDGE_CODEC_DECODE_FAILED else INVALID_REQUEST) phase
                  (''Bridge response payload could not be decoded as '' @ codec_name (bc_activeCodec c) @ '': '' @ codec_error_message e)) c1, [])
           | Inr v \<Rightarrow> if v = JNull then (c1, [UncaughtMemberOfNull]) else drainBridge cfg (deliver_value v c1)))"
  by pat_completeness auto
termination
  by (relation "measure (\<lambda>(cfg, c). length (bc_readBuffer c))") (auto dest: bridgeFrame_shorter)

declare drainBridge.simps [simp del]

definition process_failure :: "string \<Rightarrow> bridge_phase \<Rightarrow> dh_bridge_error" where
  "process_failure msg phase = bridge_error (if phase = PhaseStartup then BRIDGE_STARTUP_FAILED else BRIDGE_UNREACHABLE) phase msg"

definition closeClient :: "bridge_client \<Rightarrow> bridge_client \<times> bridge_out list" where
  "closeClient c =
     (if bc_closed c then (c, [])
      else
        (queue (map (\<lambda>(rid, e). resume (pr_awaiting e) (Inl (BridgeError (bridge_error BRIDGE_UNREACHABLE (pr_phase e)
                  (''Bridge connection closed while request '' @ show_nat rid @ '' was pending.''))))) (bc_pending c))
           (c\<lparr>bc_closed := True, bc_child := None, bc_pending := []\<rparr>),
         case bc_child c of None \<Rightarrow> [] | Some n \<Rightarrow> [KillChild n]))"

fun bridge_handle :: "bridge_config \<Rightarrow> bridge_client \<Rightarrow> bridge_event \<Rightarrow> bridge_client \<times> bridge_out list" where
  "bridge_handle cfg c (EvCall k call) = ensureInitialized cfg k call c"
| "bridge_handle cfg c (EvStdout n chunk) = drainBridge cfg (c\<lparr>bc_readBuffer := bc_readBuffer c @ chunk\<rparr>)"
| "bridge_handle cfg c (EvStderr n msg) = (c, if js_trim msg = [] then [] else [StderrLine (''[dh-bridge] '' @ msg)])"
| "bridge_handle cfg c (EvChildError n msg) =
     (failAllPendingRequests (process_failure (''Failed to start rust bridge process: '' @ msg)) c, [])"
| "bridge_handle cfg c (EvChildExit n code signal) =
     (if bc_closed c then c
      else failAllPendingRequests (process_failure
        (''Rust bridge process exited unexpectedly (code='' @ nullish (map_option show_int code) ''null'' @ '', signal=''
         @ nullish signal ''null'' @ '').'')) c, [])"
| "bridge_handle cfg c (EvTimer rid) =
     (settle_request rid (\<lambda>e. Inl (BridgeError \<lparr>be_code = BRIDGE_TIMEOUT, be_phase = pr_phase e,
        be_message = ''Bridge request timed out after '' @ show_nat (pr_timeoutMs e) @ ''ms for method '' @ in_quotes (pr_method e) @ ''.'',
        be_retryable = True\<rparr>)) c, [])"
| "bridge_handle cfg c (EvStdinFailed rid msg) =
     (settle_request rid (\<lambda>e. Inl (BridgeError (bridge_error BRIDGE_UNREACHABLE (pr_phase e) (''Failed to send bridge request: '' @ msg)))) c, [])"
| "bridge_handle cfg c EvCloseClient = closeClient c"

definition bridge_turn :: "bridge_config \<Rightarrow> bridge_client \<Rightarrow> bridge_event \<Rightarrow> bridge_client \<times> bridge_out list" where
  "bridge_turn cfg c e =
     (let r = bridge_handle cfg c e; r' = run_microtasks cfg (fst r) in (fst r', snd r @ snd r'))"

fun bridge_run :: "bridge_config \<Rightarrow> bridge_client \<Rightarrow> bridge_event list \<Rightarrow> bridge_client \<times> bridge_out list" where
  "bridge_run cfg c [] = (c, [])"
| "bridge_run cfg c (e # es) =
     (let r = bridge_turn cfg c e; r' = bridge_run cfg (fst r) es in (fst r', snd r @ snd r'))"

end
