(* ===== verification/BridgeCalls.thy ===== *)
theory BridgeCalls
  imports BridgeClient
begin

text \<open>
  What the client of the Rust engine promises to its callers: every call is answered once, and with the answer to its own request.
  The last section shows two ways to leave a process behind.
\<close>

section \<open>Every call is accounted for\<close>

fun awaiting_call :: "awaiting \<Rightarrow> nat" where
  "awaiting_call (AwaitInitialize k _) = k"
| "awaiting_call (AwaitAnswer k _ _) = k"

fun task_call :: "microtask \<Rightarrow> nat" where
  "task_call (AfterInitialize k _ _) = k"
| "task_call (AfterReady k _ _) = k"
| "task_call (AfterAnswer k _ _ _) = k"

definition pending_calls :: "bridge_client \<Rightarrow> nat multiset" where
  "pending_calls c = mset (map (\<lambda>p. awaiting_call (pr_awaiting (snd p))) (bc_pending c))"

definition open_calls :: "bridge_client \<Rightarrow> nat multiset" where
  "open_calls c = pending_calls c + mset (map task_call (bc_tasks c))"

definition done_calls :: "bridge_out list \<Rightarrow> nat list" where
  "done_calls os = [k. CallDone k _ \<leftarrow> os]"

definition started_calls :: "bridge_event list \<Rightarrow> nat list" where
  "started_calls es = [k. EvCall k _ \<leftarrow> es]"

definition client_wf :: "bridge_client \<Rightarrow> bool" where
  "client_wf c \<longleftrightarrow> distinct (map fst (bc_pending c)) \<and> (\<forall>rid \<in> set (map fst (bc_pending c)). rid < bc_nextRequestId c)
     \<and> (bc_closed c \<longrightarrow> bc_pending c = [])"

text \<open>A step that opens the calls \<open>new\<close>: every call open before or opened is open after it or done by it.\<close>

definition accounts :: "nat multiset \<Rightarrow> bridge_client \<Rightarrow> bridge_client \<times> bridge_out list \<Rightarrow> bool" where
  "accounts new c r \<longleftrightarrow> client_wf (fst r) \<and> open_calls c + new = open_calls (fst r) + mset (done_calls (snd r))"

lemma done_calls_simps [simp]:
  "done_calls [] = []" "done_calls (CallDone k x # os) = k # done_calls os" "done_calls (a @ b) = done_calls a @ done_calls b"
  "done_calls (SpawnChild n r s # os) = done_calls os" "done_calls (WriteStdin n f # os) = done_calls os"
  "done_calls (KillChild n # os) = done_calls os" "done_calls (StderrLine t # os) = done_calls os"
  "done_calls (UncaughtMemberOfNull # os) = done_calls os"
  by (simp_all add: done_calls_def)

lemma task_call_resume [simp]: "task_call (resume w x) = awaiting_call w"
  by (cases w) auto

lemma wf_queue [simp]: "client_wf (queue ts c) = client_wf c"
  by (simp add: client_wf_def)

lemma open_queue [simp]: "open_calls (queue ts c) = open_calls c + mset (map task_call ts)"
  by (simp add: open_calls_def pending_calls_def)

lemma accounts_failAll: "client_wf c \<Longrightarrow> accounts {#} c (failAllPendingRequests f c, [])"
  by (simp add: accounts_def failAllPendingRequests_def)
    (simp add: client_wf_def open_calls_def pending_calls_def comp_def case_prod_beta)

lemma mset_AList_delete:
  assumes "distinct (map fst xs)" and "map_of xs i = Some e"
  shows "mset (map f xs) = add_mset (f (i, e)) (mset (map f (AList.delete i xs)))"
  using assms by (induction xs) (auto simp: delete_notin_dom split: if_splits)

lemma wf_settle: "client_wf c \<Longrightarrow> client_wf (settle_request rid f c)"
  by (auto simp: settle_request_def client_wf_def AList.delete_eq split: option.split intro!: distinct_map_filter)

lemma accounts_settle: "client_wf c \<Longrightarrow> accounts {#} c (settle_request rid f c, [])"
  using wf_settle [of c rid f]
proof (cases "map_of (bc_pending c) rid")
  case (Some e)
  assume "client_wf c" "client_wf c \<Longrightarrow> client_wf (settle_request rid f c)"
  then show ?thesis
    using Some mset_AList_delete [of "bc_pending c" rid e "\<lambda>p. awaiting_call (pr_awaiting (snd p))"]
    by (simp add: accounts_def) (simp add: settle_request_def open_calls_def pending_calls_def client_wf_def)
qed (simp add: accounts_def settle_request_def)

lemma wf_buffer [simp]: "client_wf (c\<lparr>bc_readBuffer := b\<rparr>) = client_wf c" "open_calls (c\<lparr>bc_readBuffer := b\<rparr>) = open_calls c"
  by (simp_all add: client_wf_def open_calls_def pending_calls_def)

lemma accounts_request:
  assumes "client_wf c" and "rid = bc_nextRequestId c"
  shows "accounts {#awaiting_call w#} c (bridge_request cfg rid m p w ph t (c\<lparr>bc_nextRequestId := rid + 1\<rparr>))"
proof -
  have new: "rid \<notin> set (map fst (bc_pending c))" using assms by (auto simp: client_wf_def)
  have upd: "AList.update rid e (bc_pending c) = bc_pending c @ [(rid, e)]" for e by (rule update_append_new [OF new])
  have del: "AList.delete rid (bc_pending c @ [(rid, e)]) = bc_pending c" for e
    using new by (force simp: AList.delete_eq intro!: filter_True)
  define c' where "c' = c\<lparr>bc_nextRequestId := rid + 1\<rparr>"
  have c': "bc_pending c' = bc_pending c" "bc_closed c' = bc_closed c" "bc_nextRequestId c' = rid + 1" "bc_tasks c' = bc_tasks c"
    "c'\<lparr>bc_pending := bc_pending c\<rparr> = c'" by (simp_all add: c'_def)
  have "(\<exists>x. bridge_request cfg rid m p w ph t c' = (queue [resume w x] c', []))
    \<or> (\<exists>n f e. bridge_request cfg rid m p w ph t c' = (c'\<lparr>bc_pending := bc_pending c @ [(rid, e)]\<rparr>, [WriteStdin n f])
         \<and> pr_awaiting e = w \<and> \<not> bc_closed c)"
  proof (cases "bc_closed c'")
    case False
    show ?thesis
    proof (cases "bc_child c'")
      case (Some n)
      let ?e = "\<lparr>pr_awaiting = w, pr_phase = ph, pr_method = m, pr_timeoutMs = t\<rparr>"
      show ?thesis
      proof (cases "encodeRpcFrame (bg_enc cfg) (bc_activeCodec c') (request_message (JNum (int rid)) m p) (bc_maxFrameBytes c')")
        case (Inl x)
        then have "fst (bridge_request cfg rid m p w ph t c') = queue [resume w (Inl (BridgeError (bridge_error BRIDGE_FRAME_TOO_LARGE ph
            (''Failed to encode bridge request '' @ in_quotes m @ '': '' @ codec_error_message x))))] c' \<and> snd (bridge_request cfg rid m p w ph t c') = []"
          using False Some by (simp add: bridge_request_def Let_def c'(1,5) upd del)
        then show ?thesis by (metis prod.collapse)
      next
        case (Inr f)
        then have "bridge_request cfg rid m p w ph t c' = (c'\<lparr>bc_pending := bc_pending c @ [(rid, ?e)]\<rparr>, [WriteStdin n f])"
          using False Some c'(1) by (simp add: bridge_request_def Let_def upd)
        then show ?thesis using False c'(2) by (intro disjI2 exI [of _ n] exI [of _ f] exI [of _ ?e]) simp
      qed
    qed (use False in \<open>simp add: bridge_request_def, blast\<close>)
  qed (simp add: bridge_request_def, blast)
  then consider (at_once) x where "bridge_request cfg rid m p w ph t c' = (queue [resume w x] c', [])"
    | (sent) n f e where "bridge_request cfg rid m p w ph t c' = (c'\<lparr>bc_pending := bc_pending c @ [(rid, e)]\<rparr>, [WriteStdin n f])"
      "pr_awaiting e = w" "\<not> bc_closed c" by blast
  then have "accounts {#awaiting_call w#} c (bridge_request cfg rid m p w ph t c')"
  proof cases
    case at_once
    then show ?thesis using assms c' by (simp add: accounts_def) (auto simp: client_wf_def open_calls_def pending_calls_def)
  next
    case sent
    then show ?thesis using assms new c' by (auto simp: accounts_def client_wf_def open_calls_def pending_calls_def less_Suc_eq)
  qed
  then show ?thesis by (simp add: c'_def)
qed

lemma accounts_startCall: "client_wf c \<Longrightarrow> accounts {#k#} c (startCall cfg k call c)"
proof (cases rule: startCall_cases [of cfg k call c])
  case (2 m p)
  then show "client_wf c \<Longrightarrow> ?thesis"
    using accounts_request [of c "bc_nextRequestId c" "AwaitAnswer k call (bc_nextRequestId c)" cfg m p PhaseRequest "bg_requestTimeoutMs cfg"]
    by (simp add: next_request_def Let_def)
qed (simp add: accounts_def)

lemma finishInitialize_keeps:
  "bc_pending (fst (snd (finishInitialize cfg r c))) = bc_pending c" "bc_nextRequestId (fst (snd (finishInitialize cfg r c))) = bc_nextRequestId c"
  "bc_closed (fst (snd (finishInitialize cfg r c))) = bc_closed c" "done_calls (snd (snd (finishInitialize cfg r c))) = []"
  by (auto simp: finishInitialize_def applyNegotiatedTransport_def Let_def split: sum.splits option.splits if_splits prod.splits)

lemma accounts_microtask: "client_wf c \<Longrightarrow> accounts {#task_call t#} c (run_microtask cfg t c)"
proof (cases "(cfg, t, c)" rule: run_microtask.cases)
  case (2 _ k call response)
  obtain f c1 os where f: "finishInitialize cfg response c = (f, c1, os)" by (metis prod_cases3)
  have "bc_pending c1 = bc_pending c" "bc_nextRequestId c1 = bc_nextRequestId c" "bc_closed c1 = bc_closed c" "done_calls os = []"
      "bc_tasks c1 = bc_tasks c"
    using finishInitialize_keeps [of cfg response c] finishInitialize_tasks [of cfg response c] unfolding f by simp_all
  then show "client_wf c \<Longrightarrow> ?thesis" using 2 f by (simp add: accounts_def) (simp add: client_wf_def open_calls_def pending_calls_def)
next
  case (4 _ k call)
  then show "client_wf c \<Longrightarrow> ?thesis" using accounts_startCall by simp
qed (auto simp: accounts_def)

lemma accounts_microtasks: "client_wf c \<Longrightarrow> accounts {#} c (run_microtasks cfg c) \<and> bc_tasks (fst (run_microtasks cfg c)) = []"
proof (induction cfg c rule: run_microtasks.induct)
  case (1 cfg c)
  show ?case
  proof (cases "bc_tasks c")
    case Nil
    then show ?thesis using 1 by (simp add: run_microtasks.simps [of cfg c] accounts_def)
  next
    case (Cons t ts)
    have wf: "client_wf (c\<lparr>bc_tasks := ts\<rparr>)" using 1(2) by (simp add: client_wf_def)
    let ?r = "run_microtask cfg t (c\<lparr>bc_tasks := ts\<rparr>)"
    have m: "accounts {#task_call t#} (c\<lparr>bc_tasks := ts\<rparr>) ?r" by (rule accounts_microtask [OF wf])
    then have "accounts {#} (fst ?r) (run_microtasks cfg (fst ?r)) \<and> bc_tasks (fst (run_microtasks cfg (fst ?r))) = []"
      using 1(1) [OF Cons refl] by (simp add: accounts_def)
    then show ?thesis using m Cons
      by (simp add: run_microtasks.simps [of cfg c] Let_def accounts_def) (simp add: open_calls_def pending_calls_def)
  qed
qed

lemma accounts_drain: "client_wf c \<Longrightarrow> accounts {#} c (drainBridge cfg c)"
proof (induction cfg c rule: drainBridge.induct)
  case (1 cfg c)
  show ?case
  proof (cases "bridgeFrame (bc_maxFrameBytes c) (bc_readBuffer c)")
    case BridgeNone
    then show ?thesis using 1(2) by (simp add: drainBridge.simps [of cfg c] accounts_def)
  next
    case (BridgeBad code msg)
    then show ?thesis using accounts_failAll [OF 1(2)] by (simp add: drainBridge.simps [of cfg c] accounts_def)
  next
    case (BridgeFrame body rest)
    let ?c = "c\<lparr>bc_readBuffer := rest\<rparr>"
    have wf: "client_wf ?c" using 1(2) by simp
    show ?thesis
    proof (cases "bg_dec cfg (bc_activeCodec c) body (bc_maxFrameBytes c)")
      case (Inl e)
      then show ?thesis using BridgeFrame accounts_failAll [OF wf] by (simp add: drainBridge.simps [of cfg c] Let_def accounts_def)
    next
      case (Inr v)
      have d: "accounts {#} ?c (deliver_value v ?c, [])"
        using accounts_settle [OF wf] wf by (simp add: deliver_value_def accounts_def split: option.split json.split)
      show ?thesis
      proof (cases "v = JNull")
        case False
        then have "accounts {#} (deliver_value v ?c) (drainBridge cfg (deliver_value v ?c))"
          using 1(1) [OF BridgeFrame refl Inr] d by (simp add: accounts_def)
        then show ?thesis using False BridgeFrame Inr d by (simp add: drainBridge.simps [of cfg c] Let_def accounts_def)
      qed (use BridgeFrame Inr wf in \<open>simp add: drainBridge.simps [of cfg c] Let_def accounts_def\<close>)
    qed
  qed
qed

lemma wf_spawn [simp]: "client_wf (c\<lparr>bc_child := x, bc_spawned := n\<rparr>) = client_wf c"
  "open_calls (c\<lparr>bc_child := x, bc_spawned := n\<rparr>) = open_calls c"
  by (simp_all add: client_wf_def open_calls_def pending_calls_def)

lemma accounts_ensureInitialized:
  assumes "client_wf c"
  shows "accounts {#k#} c (ensureInitialized cfg k call c)"
proof (cases "bc_initialized c")
  case True
  then show ?thesis using assms by (simp add: ensureInitialized_def accounts_def)
next
  case False
  let ?c = "c\<lparr>bc_child := Some (bc_spawned c), bc_spawned := bc_spawned c + 1\<rparr>"
  have "accounts {#k#} ?c (bridge_request cfg (bc_nextRequestId c) m p (AwaitInitialize k call) ph t (?c\<lparr>bc_nextRequestId := bc_nextRequestId c + 1\<rparr>))" for m p ph t
    using accounts_request [of ?c "bc_nextRequestId c" "AwaitInitialize k call" cfg m p ph t] assms by simp
  then show ?thesis using False by (simp add: ensureInitialized_def Let_def accounts_def)
qed

lemma accounts_close: "client_wf c \<Longrightarrow> accounts {#} c (closeClient c)"
  by (simp add: closeClient_def accounts_def)
    (auto simp: client_wf_def open_calls_def pending_calls_def comp_def case_prod_beta split: option.split)

lemma accounts_handle: "client_wf c \<Longrightarrow> accounts (mset (started_calls [e])) c (bridge_handle cfg c e)"
proof (cases e)
  case (EvStdout n chunk)
  assume "client_wf c"
  then show ?thesis using EvStdout accounts_drain [of "c\<lparr>bc_readBuffer := bc_readBuffer c @ chunk\<rparr>" cfg]
    by (simp add: started_calls_def accounts_def)
qed (simp_all add: started_calls_def accounts_ensureInitialized accounts_failAll accounts_settle accounts_close, auto simp: accounts_def)

lemma accounts_turn:
  assumes "client_wf c"
  shows "accounts (mset (started_calls [e])) c (bridge_turn cfg c e) \<and> bc_tasks (fst (bridge_turn cfg c e)) = []"
  using accounts_handle [OF assms, of e cfg] accounts_microtasks [of "fst (bridge_handle cfg c e)" cfg]
  by (auto simp: bridge_turn_def Let_def accounts_def)

lemma started_calls_Cons: "started_calls (e # es) = started_calls [e] @ started_calls es"
  by (simp add: started_calls_def)

lemma accounts_run: "client_wf c \<Longrightarrow> accounts (mset (started_calls es)) c (bridge_run cfg c es)"
proof (induction es arbitrary: c)
  case (Cons e es)
  have t: "accounts (mset (started_calls [e])) c (bridge_turn cfg c e)" using accounts_turn [OF Cons.prems] by blast
  have "accounts (mset (started_calls es)) (fst (bridge_turn cfg c e)) (bridge_run cfg (fst (bridge_turn cfg c e)) es)"
    using t by (intro Cons.IH) (simp add: accounts_def)
  then show ?case using t by (simp add: Let_def accounts_def started_calls_Cons [of e es] ac_simps) (metis add.assoc add.commute)
qed (simp add: accounts_def started_calls_def)

lemma run_tasks_empty: "bc_tasks c = [] \<Longrightarrow> client_wf c \<Longrightarrow> bc_tasks (fst (bridge_run cfg c es)) = []"
proof (induction es arbitrary: c)
  case (Cons e es)
  then show ?case using accounts_turn [OF Cons.prems(2), of e cfg] by (simp add: Let_def accounts_def)
qed simp

section \<open>Timers\<close>

lemma run_failed:
  assumes "bc_tasks c = [resume w (Inl x)]"
  shows "run_microtasks cfg c = (c\<lparr>bc_tasks := []\<rparr>, [CallDone (awaiting_call w) (Inl x)])"
proof (cases w)
  case (AwaitInitialize k call)
  have "run_microtasks cfg (c\<lparr>bc_tasks := [AfterReady k call (Some x)]\<rparr>) = (c\<lparr>bc_tasks := []\<rparr>, [CallDone k (Inl x)])"
    by (simp add: run_microtasks.simps [of cfg "c\<lparr>bc_tasks := [AfterReady k call (Some x)]\<rparr>"] run_microtasks.simps [of cfg "c\<lparr>bc_tasks := []\<rparr>"])
  then show ?thesis using assms AwaitInitialize by (simp add: run_microtasks.simps [of cfg c] queue_def)
next
  case (AwaitAnswer k call rid)
  then show ?thesis using assms
    by (simp add: run_microtasks.simps [of cfg c] run_microtasks.simps [of cfg "c\<lparr>bc_tasks := []\<rparr>"])
qed

lemma run_idle [simp]: "bc_tasks c = [] \<Longrightarrow> run_microtasks cfg c = (c, [])"
  by (simp add: run_microtasks.simps [of cfg c])

lemma timer_turn: "bc_tasks c = [] \<Longrightarrow> bc_pending (fst (bridge_turn cfg c (EvTimer rid))) = AList.delete rid (bc_pending c)"
proof (cases "map_of (bc_pending c) rid")
  case None
  assume "bc_tasks c = []"
  moreover have "AList.delete rid (bc_pending c) = bc_pending c" using None by (simp add: delete_idem map_of_eq_None_iff)
  ultimately show ?thesis using None by (simp add: bridge_turn_def settle_request_def)
next
  case (Some e)
  assume "bc_tasks c = []"
  then show ?thesis using Some
    by (simp add: bridge_turn_def Let_def settle_request_def run_failed [of _ "pr_awaiting e"] queue_def)
qed

lemma timers_empty:
  "bc_tasks c = [] \<Longrightarrow> client_wf c \<Longrightarrow> set (map fst (bc_pending c)) \<subseteq> set rids \<Longrightarrow>
     bc_pending (fst (bridge_run cfg c (map EvTimer rids))) = []"
proof (induction rids arbitrary: c)
  case (Cons rid rids)
  let ?c = "fst (bridge_turn cfg c (EvTimer rid))"
  have "client_wf ?c" "bc_tasks ?c = []" using accounts_turn [OF Cons.prems(2), of "EvTimer rid" cfg] by (simp_all add: accounts_def)
  moreover have "set (map fst (bc_pending ?c)) \<subseteq> set rids"
    using Cons.prems(1,3) by (auto simp: timer_turn AList.delete_eq)
  ultimately show ?case using Cons.IH by (simp add: Let_def)
qed simp

section \<open>Answers\<close>

lemma bridgeFrame_next:
  "nextFrame m b = FFrame x y \<Longrightarrow> bridgeFrame m b = BridgeFrame x y"
  "nextFrame m b = FNone \<Longrightarrow> bridgeFrame m b = BridgeNone"
  "nextFrame m b = FPartial l \<Longrightarrow> bridgeFrame m b = BridgeNone"
  by (auto simp: nextFrame_def frameAt_def bridgeFrame_def Let_def split: option.splits if_splits)

lemma nextFrame_of_encoded:
  fixes v :: json
  assumes "encodeRpcFrame enc codec v m = Inr g"
  shows "nextFrame m (g @ rest) = FFrame (enc codec v) rest"
  using nextFrame_encoded [of "\<lparr>cfg_codec = codec, cfg_maxFrameBytes = m, cfg_enc = enc, cfg_dec = undefined,
      cfg_requestHandlers = [], cfg_notificationHandlers = [], cfg_afterResponseHandlers = []\<rparr>" v g rest] assms
  by (simp add: writeMessage_def)

lemma bridgeFrame_prefix:
  fixes v :: json
  assumes "encodeRpcFrame enc codec v m = Inr (b @ r)" and "r \<noteq> []"
  shows "bridgeFrame m b = BridgeNone"
proof (cases "nextFrame m b")
  case (FFrame x y)
  then show ?thesis using nextFrame_append(1) [OF FFrame, of r] nextFrame_of_encoded [OF assms(1), of "[]"] assms(2) by simp
next
  case (FBad msg)
  then show ?thesis using nextFrame_append(2) [OF FBad, of r] nextFrame_of_encoded [OF assms(1), of "[]"] by simp
qed (simp_all add: bridgeFrame_next)

lemma stdout_turn_waiting:
  assumes "bc_tasks c = []" and "bridgeFrame (bc_maxFrameBytes c) (bc_readBuffer c @ chunk) = BridgeNone"
  shows "bridge_turn cfg c (EvStdout n chunk) = (c\<lparr>bc_readBuffer := bc_readBuffer c @ chunk\<rparr>, [])"
  using assms by (simp add: bridge_turn_def drainBridge.simps [of cfg "c\<lparr>bc_readBuffer := bc_readBuffer c @ chunk\<rparr>"])

lemma stdout_run_idle:
  assumes "bc_tasks c = []" and "bc_readBuffer c = []" and "concat chunks = []"
  shows "bridge_run cfg c (map (EvStdout n) chunks) = (c, [])"
  using assms(3)
proof (induction chunks)
  case (Cons b chunks)
  have "bridge_turn cfg c (EvStdout n b) = (c, [])"
    using stdout_turn_waiting [of c b cfg n] assms(1,2) Cons.prems by (simp add: bridgeFrame_def)
  then show ?case using Cons by simp
qed simp

text \<open>The bytes of one frame, cut into chunks in any way, do what the value does.\<close>

lemma stdout_run_frame:
  assumes "bc_tasks c = []" and "bc_readBuffer c @ concat chunks = g" and "bc_readBuffer c \<noteq> g"
    and "encodeRpcFrame (bg_enc cfg) (bc_activeCodec c) v (bc_maxFrameBytes c) = Inr g" and "v \<noteq> JNull"
    and "bg_dec cfg (bc_activeCodec c) (bg_enc cfg (bc_activeCodec c) v) (bc_maxFrameBytes c) = Inr v"
    and "bc_readBuffer (fst (run_microtasks cfg (deliver_value v (c\<lparr>bc_readBuffer := []\<rparr>)))) = []" and "client_wf c"
  shows "bridge_run cfg c (map (EvStdout n) chunks) = run_microtasks cfg (deliver_value v (c\<lparr>bc_readBuffer := []\<rparr>))"
  using assms
proof (induction chunks arbitrary: c)
  case (Cons b chunks)
  let ?b = "bc_readBuffer c @ b" and ?d = "run_microtasks cfg (deliver_value v (c\<lparr>bc_readBuffer := []\<rparr>))"
  show ?case
  proof (cases "?b = g")
    case True
    have "bridgeFrame (bc_maxFrameBytes c) ?b = BridgeFrame (bg_enc cfg (bc_activeCodec c) v) []"
      using bridgeFrame_next(1) nextFrame_of_encoded [OF Cons.prems(4), of "[]"] True by simp
    then have "drainBridge cfg (c\<lparr>bc_readBuffer := ?b\<rparr>) = (deliver_value v (c\<lparr>bc_readBuffer := []\<rparr>), [])"
      using Cons.prems(5,6)
      by (simp add: drainBridge.simps [of cfg "c\<lparr>bc_readBuffer := ?b\<rparr>"]
          drainBridge.simps [of cfg "deliver_value v (c\<lparr>bc_readBuffer := []\<rparr>)"] bridgeFrame_def Let_def)
    then have t: "bridge_turn cfg c (EvStdout n b) = ?d" by (simp add: bridge_turn_def Let_def)
    moreover have "concat chunks = []" using True Cons.prems(2) by (metis append.assoc append_self_conv concat.simps(2))
    moreover have "bc_tasks (fst ?d) = []" using accounts_turn [OF Cons.prems(8), of "EvStdout n b" cfg] t by simp
    ultimately show ?thesis using stdout_run_idle [of "fst ?d" chunks cfg n] Cons.prems(7) by (simp add: Let_def)
  next
    case False
    then have "bridgeFrame (bc_maxFrameBytes c) ?b = BridgeNone"
      using bridgeFrame_prefix [of "bg_enc cfg" "bc_activeCodec c" v "bc_maxFrameBytes c" ?b "concat chunks"] Cons.prems(2,4) by fastforce
    then have "bridge_turn cfg c (EvStdout n b) = (c\<lparr>bc_readBuffer := ?b\<rparr>, [])" by (rule stdout_turn_waiting [OF Cons.prems(1)])
    moreover have "bridge_run cfg (c\<lparr>bc_readBuffer := ?b\<rparr>) (map (EvStdout n) chunks) = ?d"
      using Cons.IH [of "c\<lparr>bc_readBuffer := ?b\<rparr>"] Cons.prems False by simp
    ultimately show ?thesis by (simp add: Let_def)
  qed
qed simp

text \<open>The request of a call once the client is initialised.\<close>

definition call_message :: "bridge_call \<Rightarrow> (string \<times> json option) option" where
  "call_message call =
     (case call of
        AskQuery r \<Rightarrow> let (m, params) = buildAskCall r in Some (query_method_text m, Some params)
      | SessionCommand r \<Rightarrow>
          let (m, params) = buildAskCall r in
          Some (''session.runCommand'', Some (JObj [(''query'', JObj [(''method'', JStr (query_method_text m)), (''params'', params)])]))
      | RuntimePing \<Rightarrow> Some (''runtime.ping'', None)
      | InitializeSnapshot \<Rightarrow> None)"

lemma delegated_always [simp]: "isDelegatedSessionQueryClass q"
  by (cases q) (simp_all add: isDelegatedSessionQueryClass_def)

lemma startCall_message: "call_message call = Some (m, p) \<Longrightarrow> startCall cfg k call c = next_request cfg k call m p c"
  by (cases call) (auto simp: call_message_def startCall_def split: prod.splits)

lemma finishCall_cong:
  "bc_engineName c' = bc_engineName c \<Longrightarrow> bc_engineVersion c' = bc_engineVersion c \<Longrightarrow> bc_protocolVersion c' = bc_protocolVersion c \<Longrightarrow>
   bc_capabilities c' = bc_capabilities c \<Longrightarrow> finishCall call rid v c' = finishCall call rid v c"
  by (simp add: finishCall_def ask_answer_def split: sum.split bridge_call.split prod.split)

lemma call_turn:
  assumes "bc_initialized c" and "\<not> bc_closed c" and "bc_child c = Some n" and "bc_tasks c = []" and "client_wf c"
    and "call_message call = Some (m, p)" and "rid = bc_nextRequestId c"
    and "encodeRpcFrame (bg_enc cfg) (bc_activeCodec c) (request_message (JNum (int rid)) m p) (bc_maxFrameBytes c) = Inr f"
  shows "bridge_turn cfg c (EvCall k call) =
    (c\<lparr>bc_nextRequestId := rid + 1, bc_pending := bc_pending c @
        [(rid, \<lparr>pr_awaiting = AwaitAnswer k call rid, pr_phase = PhaseRequest, pr_method = m, pr_timeoutMs = bg_requestTimeoutMs cfg\<rparr>)]\<rparr>,
     [WriteStdin n f])"
proof -
  have "rid \<notin> set (map fst (bc_pending c))" using assms(5,7) by (auto simp: client_wf_def)
  then have "next_request cfg k call m p c = (c\<lparr>bc_nextRequestId := rid + 1, bc_pending := bc_pending c @
        [(rid, \<lparr>pr_awaiting = AwaitAnswer k call rid, pr_phase = PhaseRequest, pr_method = m, pr_timeoutMs = bg_requestTimeoutMs cfg\<rparr>)]\<rparr>,
     [WriteStdin n f])"
    using assms by (simp add: next_request_def bridge_request_def Let_def update_append_new)
  moreover have c: "c\<lparr>bc_tasks := []\<rparr> = c" using assms(4) by simp
  ultimately show ?thesis using assms(1,4) startCall_message [OF assms(6), of cfg k c]
    by (simp add: c bridge_turn_def ensureInitialized_def Let_def queue_def run_microtasks.simps [of cfg "c\<lparr>bc_tasks := [AfterReady k call None]\<rparr>"])
qed

lemma answer_turn:
  assumes "client_wf c" and "bc_tasks c = []" and "rid \<notin> set (map fst (bc_pending c))" and "field ''id'' v = Some (JNum (int rid))"
    and "pr_awaiting e = AwaitAnswer k call rid"
  shows "run_microtasks cfg (deliver_value v (c\<lparr>bc_pending := bc_pending c @ [(rid, e)]\<rparr>)) = (c, [CallDone k (finishCall call rid v c)])"
proof -
  let ?c = "c\<lparr>bc_pending := bc_pending c @ [(rid, e)]\<rparr>"
  have "map_of (bc_pending c) rid = None" using assms(3) by (simp add: map_of_eq_None_iff)
  moreover have "AList.delete rid (bc_pending c @ [(rid, e)]) = bc_pending c"
    using assms(3) by (force simp: AList.delete_eq intro!: filter_True)
  ultimately have d: "deliver_value v ?c = c\<lparr>bc_tasks := [AfterAnswer k call rid (Inr v)]\<rparr>"
    using assms(2,4,5) by (simp add: deliver_value_def settle_request_def queue_def map_of_append map_add_def)
  have c: "c\<lparr>bc_tasks := []\<rparr> = c" using assms(2) by simp
  show ?thesis unfolding d using assms(2) by (simp add: run_microtasks.simps [of cfg "c\<lparr>bc_tasks := [AfterAnswer k call rid (Inr v)]\<rparr>"] c)
qed

section \<open>Properties\<close>

text \<open>
  C3. No call of the client is lost and none is answered twice. Take any sequence of events: calls of its methods in any number
  and order, output of any of its processes cut in any way, garbage included, failed writes, timers, errors and exits of
  processes, and closing. Then every call that was made has been answered exactly once, with a result or an error, or is
  waiting for exactly one pending request. Once the client is closed every call has been answered, those made after the
  closing too. And when the timers of the requests still pending fire, all calls have been answered.
\<close>

theorem bridge_calls_settle_once:
  assumes "bridge_run cfg bridge_client_init es = (c, os)"
  shows "mset (done_calls os) + pending_calls c = mset (started_calls es)
    \<and> (bc_closed c \<longrightarrow> mset (done_calls os) = mset (started_calls es))
    \<and> mset (done_calls (os @ snd (bridge_run cfg c (map (\<lambda>(rid, e). EvTimer rid) (bc_pending c))))) = mset (started_calls es)"
proof -
  have wf0: "client_wf bridge_client_init" by (simp add: client_wf_def bridge_client_init_def)
  have t: "bc_tasks c = []" using run_tasks_empty [OF _ wf0, of cfg es] assms by (simp add: bridge_client_init_def)
  have a: "client_wf c" "mset (started_calls es) = pending_calls c + mset (done_calls os)"
    using accounts_run [OF wf0, of es cfg] assms t by (simp_all add: accounts_def open_calls_def pending_calls_def bridge_client_init_def)
  let ?ts = "map (\<lambda>(rid, e). EvTimer rid) (bc_pending c)" and ?r = "bridge_run cfg c (map (\<lambda>(rid, e). EvTimer rid) (bc_pending c))"
  have ts: "?ts = map EvTimer (map fst (bc_pending c))" by auto
  have "started_calls ?ts = []" by (auto simp: started_calls_def)
  then have "accounts {#} c ?r" using accounts_run [OF a(1), of ?ts cfg] by simp
  moreover have "bc_pending (fst ?r) = []" unfolding ts by (rule timers_empty [OF t a(1)]) simp
  moreover have "bc_tasks (fst ?r) = []" by (rule run_tasks_empty [OF t a(1)])
  ultimately have "pending_calls c = mset (done_calls (snd ?r))" using t by (simp add: accounts_def open_calls_def pending_calls_def)
  moreover have "bc_closed c \<longrightarrow> pending_calls c = {#}" using a(1) by (simp add: client_wf_def pending_calls_def)
  ultimately show ?thesis using a(2) by (auto simp: ac_simps)
qed

lemma request_closed [simp]: "bc_closed (fst (bridge_request cfg rid m p w ph t c)) = bc_closed c"
  by (simp add: bridge_request_def Let_def split: option.split sum.split)

lemma run_microtask_closed: "bc_closed (fst (run_microtask cfg t c)) = bc_closed c"
proof (cases "(cfg, t, c)" rule: run_microtask.cases)
  case (2 _ k call response)
  then show ?thesis using finishInitialize_keeps(3) [of cfg response c] by (simp split: prod.split) (metis fst_conv snd_conv)
next
  case (4 _ k call)
  then show ?thesis by (cases rule: startCall_cases [of cfg k call c]) (simp_all add: next_request_def Let_def)
qed auto

lemma run_microtasks_closed [simp]: "bc_closed (fst (run_microtasks cfg c)) = bc_closed c"
proof (induction cfg c rule: run_microtasks.induct)
  case (1 cfg c)
  then show ?case by (cases "bc_tasks c") (simp_all add: run_microtasks.simps [of cfg c] Let_def run_microtask_closed)
qed

lemma close_turn_closed: "bc_closed (fst (bridge_turn cfg c EvCloseClient))"
  by (simp add: bridge_turn_def Let_def closeClient_def)

definition sample_bridge :: bridge_config where
  "sample_bridge =
     \<lparr>bg_repoRoot = ''/repo'', bg_startupTimeoutMs = 10000, bg_requestTimeoutMs = 10000, bg_codecEnv = JNull, bg_exists = (\<lambda>p. False),
      bg_sourceLayout = ''/rust-engine'', bg_enc = encodeRpcBody json_bytes json_bytes,
      bg_dec = decodeRpcBody (json_parse_body (\<lambda>_. ''Unexpected token'')) (\<lambda>_. json_parse_body (\<lambda>_. ''Unexpected token''))\<rparr>"

theorem bridge_calls_settle_once_witness:
  "mset (done_calls (snd (bridge_run sample_bridge bridge_client_init [EvCall 0 RuntimePing, EvCall 1 InitializeSnapshot, EvCloseClient]))) = {#0, 1#}"
proof -
  let ?es = "[EvCall 0 RuntimePing, EvCall 1 InitializeSnapshot, EvCloseClient]"
  have "bc_closed (fst (bridge_run sample_bridge bridge_client_init ?es))" by (simp add: Let_def close_turn_closed)
  moreover have "mset (started_calls ?es) = {#0, 1#}" by (simp add: started_calls_def)
  ultimately show ?thesis
    using bridge_calls_settle_once [of sample_bridge ?es "fst (bridge_run sample_bridge bridge_client_init ?es)"
        "snd (bridge_run sample_bridge bridge_client_init ?es)"] by simp
qed

text \<open>
  C4. A call gets the answer to its own request. The client is initialised and open and waits for nothing but answers, whatever
  other requests are pending. A call of one of the query methods or of the ping writes one frame with a new request id to the
  process; once the bytes of a response with that id arrive, cut into chunks in any way, the call is answered with what the
  client reads of that response, its error or its result, and the client is as before but for the used id: the other
  requests stay pending and no byte is left over.
\<close>

theorem bridge_answers_reach_their_call:
  assumes "bc_initialized c" and "\<not> bc_closed c" and "bc_child c = Some n" and "bc_tasks c = []" and "bc_readBuffer c = []" and "client_wf c"
    and "call_message call = Some (m, p)" and "rid = bc_nextRequestId c"
    and "encodeRpcFrame (bg_enc cfg) (bc_activeCodec c) (request_message (JNum (int rid)) m p) (bc_maxFrameBytes c) = Inr f"
    and "field ''id'' v = Some (JNum (int rid))" and "encodeRpcFrame (bg_enc cfg) (bc_activeCodec c) v (bc_maxFrameBytes c) = Inr g"
    and "bg_dec cfg (bc_activeCodec c) (bg_enc cfg (bc_activeCodec c) v) (bc_maxFrameBytes c) = Inr v" and "concat chunks = g"
  shows "bridge_run cfg c (EvCall k call # map (EvStdout n) chunks)
    = (c\<lparr>bc_nextRequestId := rid + 1\<rparr>, [WriteStdin n f, CallDone k (finishCall call rid v c)])"
proof -
  let ?e = "\<lparr>pr_awaiting = AwaitAnswer k call rid, pr_phase = PhaseRequest, pr_method = m, pr_timeoutMs = bg_requestTimeoutMs cfg\<rparr>"
  define c1 where "c1 = c\<lparr>bc_nextRequestId := rid + 1\<rparr>"
  let ?c2 = "c1\<lparr>bc_pending := bc_pending c1 @ [(rid, ?e)]\<rparr>"
  have turn: "bridge_turn cfg c (EvCall k call) = (?c2, [WriteStdin n f])"
    using call_turn [OF assms(1-4,6-9), of k] by (simp add: c1_def)
  have new: "rid \<notin> set (map fst (bc_pending c1))" "client_wf c1" using assms(6,8) by (auto simp: client_wf_def c1_def)
  have wf: "client_wf ?c2" using accounts_turn [OF assms(6), of "EvCall k call" cfg] turn by (simp add: accounts_def)
  have ans: "run_microtasks cfg (deliver_value v ?c2) = (c1, [CallDone k (finishCall call rid v c1)])"
    by (rule answer_turn) (use new assms(4,10) in \<open>auto simp: c1_def\<close>)
  have v: "v \<noteq> JNull" using assms(10) by (auto simp: field_def)
  have g: "g \<noteq> []" using encodeRpcFrame_Inr(1) [OF assms(11)] by simp
  have b: "?c2\<lparr>bc_readBuffer := []\<rparr> = ?c2" using assms(5) by (simp add: c1_def)
  have buf: "bc_readBuffer (fst (run_microtasks cfg (deliver_value v (?c2\<lparr>bc_readBuffer := []\<rparr>)))) = []"
    unfolding b ans using assms(5) by (simp add: c1_def)
  have "bridge_run cfg ?c2 (map (EvStdout n) chunks) = run_microtasks cfg (deliver_value v (?c2\<lparr>bc_readBuffer := []\<rparr>))"
    by (rule stdout_run_frame [OF _ _ _ _ v _ buf wf, where g = g]) (use assms(4,5,11-13) g in \<open>simp_all add: c1_def\<close>)
  then show ?thesis unfolding b ans using turn finishCall_cong [of c1 c call rid v] by (simp add: Let_def c1_def)
qed

definition sample_ready :: bridge_client where
  "sample_ready = bridge_client_init\<lparr>bc_initialized := True, bc_child := Some 0, bc_maxFrameBytes := 65536, bc_spawned := 1, bc_nextRequestId := 2\<rparr>"

definition sample_pong :: json where
  "sample_pong = success_message (JNum 2) (JObj [(''ok'', JBool True), (''workerState'', JStr ''ready'')])"

lemma json_frame:
  assumes "length (json_bytes v) \<le> 65536"
  shows "encodeRpcFrame (bg_enc sample_bridge) (bc_activeCodec sample_ready) v (bc_maxFrameBytes sample_ready)
    = Inr (frameHeader JSON_RPC_CODEC (length (json_bytes v)) @ CRLF @ CRLF @ json_bytes v)"
proof -
  have "validateBridgeMaxFrameBytes 65536 = Inr 65536" by (simp add: validate_iff)
  then show ?thesis using assms by (simp add: encodeRpcFrame_def sample_bridge_def sample_ready_def bridge_client_init_def encodeRpcBody_def Let_def)
qed

theorem bridge_answers_reach_their_call_witness:
  "\<exists>f g. bridge_run sample_bridge sample_ready (EvCall 7 RuntimePing # map (EvStdout 0) [take 9 g, drop 9 g])
    = (sample_ready\<lparr>bc_nextRequestId := 3\<rparr>,
       [WriteStdin 0 f, CallDone 7 (Inr (PingResult \<lparr>rp_ok = True, rp_workerState = ''ready'', rp_healthState = ''unknown'', rp_phase = ''unknown''\<rparr>))])"
proof -
  let ?m = "request_message (JNum (int 2)) ''runtime.ping'' None" and ?c = sample_ready
  have "length (json_bytes ?m) \<le> 100" "length (json_bytes sample_pong) \<le> 100" by code_simp+
  then have lens: "length (json_bytes ?m) \<le> 65536" "length (json_bytes sample_pong) \<le> 65536" by simp_all
  note f = json_frame [OF lens(1)] and g = json_frame [OF lens(2)]
  let ?g = "frameHeader JSON_RPC_CODEC (length (json_bytes sample_pong)) @ CRLF @ CRLF @ json_bytes sample_pong"
  have i: "field ''id'' sample_pong = Some (JNum (int 2))" by (simp add: sample_pong_def success_message_def field_def)
  have dec: "bg_dec sample_bridge (bc_activeCodec ?c) (bg_enc sample_bridge (bc_activeCodec ?c) sample_pong) (bc_maxFrameBytes ?c) = Inr sample_pong"
    using json_codec.decode_encode [of 65536 sample_pong]
    by (simp add: sample_bridge_def sample_ready_def bridge_client_init_def sample_pong_def success_message_def)
  have r: "finishCall RuntimePing 2 sample_pong ?c
      = Inr (PingResult \<lparr>rp_ok = True, rp_workerState = ''ready'', rp_healthState = ''unknown'', rp_phase = ''unknown''\<rparr>)"
    by (simp add: finishCall_def response_result_def sample_pong_def success_message_def field_def asRecord_def member_or_def message_text_def Let_def)
  have c: "concat [take 9 ?g, drop 9 ?g] = ?g" by (simp only: concat.simps append_Nil2 append_take_drop_id)
  have s: "bc_initialized ?c" "\<not> bc_closed ?c" "bc_child ?c = Some 0" "bc_tasks ?c = []" "bc_readBuffer ?c = []" "client_wf ?c"
    "call_message RuntimePing = Some (''runtime.ping'', None)" "2 = bc_nextRequestId ?c"
    by (simp_all add: sample_ready_def bridge_client_init_def client_wf_def call_message_def)
  have three: "(2 :: nat) + 1 = 3" by simp
  show ?thesis using bridge_answers_reach_their_call [OF s f i g dec c, of 7] unfolding r three by blast
qed

section \<open>Processes left behind\<close>

definition spawned_processes :: "bridge_out list \<Rightarrow> nat list" where
  "spawned_processes os = [n. SpawnChild n _ _ \<leftarrow> os]"

definition killed_processes :: "bridge_out list \<Rightarrow> nat list" where
  "killed_processes os = [n. KillChild n \<leftarrow> os]"

lemma process_lists [simp]:
  "spawned_processes [] = []" "killed_processes [] = []"
  "spawned_processes (a @ b) = spawned_processes a @ spawned_processes b" "killed_processes (a @ b) = killed_processes a @ killed_processes b"
  "spawned_processes (SpawnChild n r t # os) = n # spawned_processes os" "killed_processes (SpawnChild n r t # os) = killed_processes os"
  "spawned_processes (KillChild n # os) = spawned_processes os" "killed_processes (KillChild n # os) = n # killed_processes os"
  "spawned_processes (WriteStdin n f # os) = spawned_processes os" "killed_processes (WriteStdin n f # os) = killed_processes os"
  "spawned_processes (CallDone k x # os) = spawned_processes os" "killed_processes (CallDone k x # os) = killed_processes os"
  by (simp_all add: spawned_processes_def killed_processes_def)

text \<open>The first call spawns a process; it stays uninitialised until the process answers.\<close>

lemma start_turn:
  assumes "\<not> bc_initialized c" and "bc_tasks c = []"
  shows "\<not> bc_initialized (fst (bridge_turn cfg c (EvCall k call))) \<and> bc_tasks (fst (bridge_turn cfg c (EvCall k call))) = []
    \<and> bc_child (fst (bridge_turn cfg c (EvCall k call))) = Some (bc_spawned c)
    \<and> bc_spawned (fst (bridge_turn cfg c (EvCall k call))) = bc_spawned c + 1
    \<and> bc_closed (fst (bridge_turn cfg c (EvCall k call))) = bc_closed c
    \<and> spawned_processes (snd (bridge_turn cfg c (EvCall k call))) = [bc_spawned c] \<and> killed_processes (snd (bridge_turn cfg c (EvCall k call))) = []"
proof -
  let ?r = "ensureInitialized cfg k call c"
  have "(bc_tasks (fst ?r) = [] \<or> (\<exists>x. bc_tasks (fst ?r) = [resume (AwaitInitialize k call) (Inl x)]))
    \<and> \<not> bc_initialized (fst ?r) \<and> bc_child (fst ?r) = Some (bc_spawned c) \<and> bc_spawned (fst ?r) = bc_spawned c + 1 \<and> bc_closed (fst ?r) = bc_closed c
    \<and> spawned_processes (snd ?r) = [bc_spawned c] \<and> killed_processes (snd ?r) = []"
    using assms by (simp add: ensureInitialized_def bridge_request_def Let_def queue_def split: sum.split)
  then show ?thesis using run_failed [of "fst ?r" "AwaitInitialize k call" _ cfg] by (auto simp: bridge_turn_def Let_def)
qed

lemma failures_only_settle:
  assumes "list_all (\<lambda>t. \<exists>k call x rid. t = AfterInitialize k call (Inl x) \<or> t = AfterReady k call (Some x) \<or> t = AfterAnswer k call rid (Inl x)) (bc_tasks c)"
  shows "spawned_processes (snd (run_microtasks cfg c)) = [] \<and> killed_processes (snd (run_microtasks cfg c)) = []"
  using assms
proof (induction cfg c rule: run_microtasks.induct)
  case (1 cfg c)
  show ?case
  proof (cases "bc_tasks c")
    case (Cons t ts)
    then have "list_all (\<lambda>t. \<exists>k call x rid. t = AfterInitialize k call (Inl x) \<or> t = AfterReady k call (Some x) \<or> t = AfterAnswer k call rid (Inl x))
          (bc_tasks (fst (run_microtask cfg t (c\<lparr>bc_tasks := ts\<rparr>))))
        \<and> spawned_processes (snd (run_microtask cfg t (c\<lparr>bc_tasks := ts\<rparr>))) = [] \<and> killed_processes (snd (run_microtask cfg t (c\<lparr>bc_tasks := ts\<rparr>))) = []"
      using 1(2) by auto
    then show ?thesis using 1(1) [OF Cons refl] Cons by (simp add: run_microtasks.simps [of cfg c] Let_def)
  qed (simp add: run_microtasks.simps [of cfg c])
qed

lemma closing_only_settles:
  assumes "bc_tasks c = []"
  shows "spawned_processes (snd (run_microtasks cfg (fst (closeClient c)))) = [] \<and> killed_processes (snd (run_microtasks cfg (fst (closeClient c)))) = []"
proof (rule failures_only_settle)
  have "\<exists>k call x rid. resume w (Inl y) = AfterInitialize k call (Inl x) \<or> resume w (Inl y) = AfterReady k call (Some x) \<or> resume w (Inl y) = AfterAnswer k call rid (Inl x)" for w y
    by (cases w) auto
  then show "list_all (\<lambda>t. \<exists>k call x rid. t = AfterInitialize k call (Inl x) \<or> t = AfterReady k call (Some x) \<or> t = AfterAnswer k call rid (Inl x)) (bc_tasks (fst (closeClient c)))"
    using assms by (auto simp: closeClient_def list_all_iff)
qed

text \<open>
  Two calls before the engine has answered spawn two processes, and closing the client kills only the second one.
\<close>

lemma second_start_leaks_process:
  "spawned_processes (snd (bridge_run cfg bridge_client_init [EvCall a x, EvCall b y, EvCloseClient])) = [0, 1]
   \<and> killed_processes (snd (bridge_run cfg bridge_client_init [EvCall a x, EvCall b y, EvCloseClient])) = [1]"
proof -
  let ?r = "bridge_turn cfg bridge_client_init (EvCall a x)"
  let ?q = "bridge_turn cfg (fst ?r) (EvCall b y)"
  have r: "\<not> bc_initialized (fst ?r)" "bc_tasks (fst ?r) = []" "bc_spawned (fst ?r) = 1" "\<not> bc_closed (fst ?r)"
      "spawned_processes (snd ?r) = [0]" "killed_processes (snd ?r) = []"
    using start_turn [of bridge_client_init cfg a x] by (simp_all add: bridge_client_init_def)
  have q: "bc_child (fst ?q) = Some 1" "bc_tasks (fst ?q) = []" "\<not> bc_closed (fst ?q)" "spawned_processes (snd ?q) = [1]" "killed_processes (snd ?q) = []"
    using start_turn [OF r(1,2), of cfg b y] r(3,4) by simp_all
  obtain c os where c: "closeClient (fst ?q) = (c, os)" "spawned_processes os = []" "killed_processes os = [1]"
    using q(1,3) by (simp add: closeClient_def)
  have "spawned_processes (snd (run_microtasks cfg c)) = []" "killed_processes (snd (run_microtasks cfg c)) = []"
    using closing_only_settles [of "fst ?q" cfg] q(2,3) c(1) by simp_all
  then show ?thesis using r(5,6) q(4,5) c by (simp add: Let_def bridge_turn_def [of cfg _ EvCloseClient])
qed

text \<open>A call on a client that was closed before its first call spawns a process that nothing kills.\<close>

lemma call_after_close_leaks_process:
  "spawned_processes (snd (bridge_run cfg bridge_client_init [EvCloseClient, EvCall k call, EvCloseClient])) = [0]
   \<and> killed_processes (snd (bridge_run cfg bridge_client_init [EvCloseClient, EvCall k call, EvCloseClient])) = []"
proof -
  let ?c = "bridge_client_init\<lparr>bc_closed := True\<rparr>"
  have close: "bridge_turn cfg bridge_client_init EvCloseClient = (?c, [])"
    by (simp add: bridge_turn_def closeClient_def bridge_client_init_def queue_def)
  let ?r = "bridge_turn cfg ?c (EvCall k call)"
  have r: "bc_tasks (fst ?r) = []" "bc_closed (fst ?r)" "spawned_processes (snd ?r) = [0]" "killed_processes (snd ?r) = []"
    using start_turn [of ?c cfg k call] by (simp_all add: bridge_client_init_def)
  have "bridge_turn cfg (fst ?r) EvCloseClient = (fst ?r, [])" using r(1,2) by (simp add: bridge_turn_def closeClient_def)
  then show ?thesis using close r by (simp add: Let_def)
qed

end
