(* ===== verification/Workflow.thy ===== *)
theory Workflow
  imports JsonText
begin

text \<open>
  Lanes, stages and their pure functions: the types of \<^verbatim>\<open>packages/shared/src/types\<close>, the stage table
  \<^verbatim>\<open>constants/stages.ts\<close>, the lane lock, the initial workflow state, the gates
  (\<^verbatim>\<open>gate-evaluator.ts\<close>) and the handoffs (\<^verbatim>\<open>handoff-manager.ts\<close>). A TypeScript string union is a
  datatype with a function to its strings, which the code's suffix tests look at. An operation that calls
  \<^verbatim>\<open>createId\<close> or \<^verbatim>\<open>nowIso\<close> takes the value as an argument.
\<close>

datatype workflow_lane = LaneQuick | LaneDelivery | LaneMigration | LaneFull

datatype workflow_stage =
    QuickIntake | QuickPlan | QuickExecute | QuickVerify | QuickComplete
  | DeliveryIntake | DeliveryAnalysis | DeliverySolution | DeliveryTaskSplit | DeliveryExecute
  | DeliveryReview | DeliveryVerify | DeliveryComplete
  | MigrationIntake | MigrationBaseline | MigrationStrategy | MigrationTaskSplit | MigrationExecute
  | MigrationReview | MigrationVerify | MigrationComplete
  | FullIntake | FullProduct | FullSolution | FullImplementation | FullCodeReview | FullQa | FullDone

datatype stage_status = StPending | StInProgress | StPassed | StFailed | StBlocked

datatype gate_status = GatePending | GatePass | GateFail

datatype session_status = SsPending | SsInProgress | SsBlocked | SsComplete

datatype semantic_mode = SemAlways | SemAuto | SemOff

datatype agent_role =
    RoleQuick | RoleCoordinator | RoleAnalyst | RoleArchitect | RoleImplementer | RoleReviewer | RoleTester

record workflow_state =
  wf_lane :: workflow_lane
  wf_stage :: workflow_stage
  wf_stageStatus :: stage_status
  wf_previousStage :: "workflow_stage option"
  wf_nextStage :: "workflow_stage option"
  wf_gateStatus :: gate_status
  wf_blockers :: "string list"

text \<open>The type of \<^verbatim>\<open>laneLocked\<close> is \<^verbatim>\<open>true\<close> and that of \<^verbatim>\<open>toolEnforcementLevel\<close> one string: no field.\<close>

record session_state =
  ss_sessionId :: string
  ss_repoRoot :: string
  ss_lane :: workflow_lane
  ss_currentStage :: workflow_stage
  ss_status :: session_status
  ss_createdAt :: timestamp
  ss_updatedAt :: timestamp
  ss_activeWorkItemIds :: "string list"
  ss_semanticMode :: semantic_mode
  ss_latestSummaryId :: "string option"
  ss_latestCheckpointId :: "string option"
  ss_latestRevertId :: "string option"

fun lane_name :: "workflow_lane \<Rightarrow> string" where
  "lane_name LaneQuick = ''quick''"
| "lane_name LaneDelivery = ''delivery''"
| "lane_name LaneMigration = ''migration''"
| "lane_name LaneFull = ''full''"

fun stage_name :: "workflow_stage \<Rightarrow> string" where
  "stage_name QuickIntake = ''quick_intake''"
| "stage_name QuickPlan = ''quick_plan''"
| "stage_name QuickExecute = ''quick_execute''"
| "stage_name QuickVerify = ''quick_verify''"
| "stage_name QuickComplete = ''quick_complete''"
| "stage_name DeliveryIntake = ''delivery_intake''"
| "stage_name DeliveryAnalysis = ''delivery_analysis''"
| "stage_name DeliverySolution = ''delivery_solution''"
| "stage_name DeliveryTaskSplit = ''delivery_task_split''"
| "stage_name DeliveryExecute = ''delivery_execute''"
| "stage_name DeliveryReview = ''delivery_review''"
| "stage_name DeliveryVerify = ''delivery_verify''"
| "stage_name DeliveryComplete = ''delivery_complete''"
| "stage_name MigrationIntake = ''migration_intake''"
| "stage_name MigrationBaseline = ''migration_baseline''"
| "stage_name MigrationStrategy = ''migration_strategy''"
| "stage_name MigrationTaskSplit = ''migration_task_split''"
| "stage_name MigrationExecute = ''migration_execute''"
| "stage_name MigrationReview = ''migration_review''"
| "stage_name MigrationVerify = ''migration_verify''"
| "stage_name MigrationComplete = ''migration_complete''"
| "stage_name FullIntake = ''full_intake''"
| "stage_name FullProduct = ''full_product''"
| "stage_name FullSolution = ''full_solution''"
| "stage_name FullImplementation = ''full_implementation''"
| "stage_name FullCodeReview = ''full_code_review''"
| "stage_name FullQa = ''full_qa''"
| "stage_name FullDone = ''full_done''"

fun stage_status_name :: "stage_status \<Rightarrow> string" where
  "stage_status_name StPending = ''pending''"
| "stage_status_name StInProgress = ''in_progress''"
| "stage_status_name StPassed = ''passed''"
| "stage_status_name StFailed = ''failed''"
| "stage_status_name StBlocked = ''blocked''"

fun gate_status_name :: "gate_status \<Rightarrow> string" where
  "gate_status_name GatePending = ''pending''"
| "gate_status_name GatePass = ''pass''"
| "gate_status_name GateFail = ''fail''"

definition WORKFLOW_LANES :: "workflow_lane list" where
  "WORKFLOW_LANES = [LaneQuick, LaneDelivery, LaneMigration, LaneFull]"

fun STAGES_BY_LANE :: "workflow_lane \<Rightarrow> workflow_stage list" where
  "STAGES_BY_LANE LaneQuick = [QuickIntake, QuickPlan, QuickExecute, QuickVerify, QuickComplete]"
| "STAGES_BY_LANE LaneDelivery =
     [DeliveryIntake, DeliveryAnalysis, DeliverySolution, DeliveryTaskSplit, DeliveryExecute,
      DeliveryReview, DeliveryVerify, DeliveryComplete]"
| "STAGES_BY_LANE LaneMigration =
     [MigrationIntake, MigrationBaseline, MigrationStrategy, MigrationTaskSplit, MigrationExecute,
      MigrationReview, MigrationVerify, MigrationComplete]"
| "STAGES_BY_LANE LaneFull =
     [FullIntake, FullProduct, FullSolution, FullImplementation, FullCodeReview, FullQa, FullDone]"

text \<open>\<open>index_of xs x\<close> is \<^verbatim>\<open>xs.indexOf(x)\<close>, and reading an array past its end gives \<^verbatim>\<open>undefined\<close>.\<close>

fun index_of :: "'a list \<Rightarrow> 'a \<Rightarrow> nat option" where
  "index_of [] x = None"
| "index_of (y # ys) x = (if y = x then Some 0 else map_option Suc (index_of ys x))"

definition array_at :: "'a list \<Rightarrow> nat \<Rightarrow> 'a option" where
  "array_at xs i = (if i < length xs then Some (xs ! i) else None)"

definition getNextStage :: "workflow_stage list \<Rightarrow> workflow_stage \<Rightarrow> workflow_stage option" where
  "getNextStage stages currentStage =
     (case index_of stages currentStage of None \<Rightarrow> None | Some i \<Rightarrow> array_at stages (i + 1))"

definition createWorkflowState :: "session_state \<Rightarrow> workflow_state" where
  "createWorkflowState session =
     (let stages = STAGES_BY_LANE (ss_lane session) in
      \<lparr>wf_lane = ss_lane session, wf_stage = hd stages, wf_stageStatus = StInProgress,
       wf_previousStage = None, wf_nextStage = array_at stages 1, wf_gateStatus = GatePending,
       wf_blockers = []\<rparr>)"

definition createLaneLockedSession ::
  "string \<Rightarrow> timestamp \<Rightarrow> string \<Rightarrow> workflow_lane \<Rightarrow> session_state" where
  "createLaneLockedSession newId now repoRoot lane =
     \<lparr>ss_sessionId = newId, ss_repoRoot = repoRoot, ss_lane = lane,
      ss_currentStage = hd (STAGES_BY_LANE lane), ss_status = SsInProgress, ss_createdAt = now,
      ss_updatedAt = now, ss_activeWorkItemIds = [], ss_semanticMode = SemAlways,
      ss_latestSummaryId = None, ss_latestCheckpointId = None, ss_latestRevertId = None\<rparr>"

definition enforceLaneLock :: "workflow_lane \<Rightarrow> workflow_lane \<Rightarrow> string + unit" where
  "enforceLaneLock currentLane requestedLane =
     (if currentLane \<noteq> requestedLane
      then Inl (''Lane is locked to '' @ [CHR 0x27] @ lane_name currentLane @ [CHR 0x27]
        @ '', cannot switch to '' @ [CHR 0x27] @ lane_name requestedLane @ [CHR 0x27]
        @ '' without explicit user command.'')
      else Inr ())"

text \<open>
  What \<^verbatim>\<open>resumeSession\<close> reads: a file that cannot be read, no file, or a record whose lane may be any
  JSON value.
\<close>

datatype session_file = SfError string | SfMissing | SfLane "json option"

definition resumeSession :: "session_file \<Rightarrow> string \<Rightarrow> workflow_lane \<Rightarrow> bool \<times> string" where
  "resumeSession file sessionId requestedLane =
     (let q = (\<lambda>s. [CHR 0x27] @ s @ [CHR 0x27]) in
      case file of
        SfError msg \<Rightarrow> (False, ''Failed to read session '' @ q sessionId @ '': '' @ msg)
      | SfMissing \<Rightarrow> (False, ''Session '' @ q sessionId @ '' was not found.'')
      | SfLane v \<Rightarrow>
          (case filter (\<lambda>l. v = Some (JStr (lane_name l))) WORKFLOW_LANES of
             [] \<Rightarrow> (False, ''Session '' @ q sessionId @ '' is corrupted: invalid lane value.'')
           | l # _ \<Rightarrow>
               (case enforceLaneLock l requestedLane of
                  Inl msg \<Rightarrow> (False, msg)
                | Inr _ \<Rightarrow> (True, ''Resumed session '' @ q sessionId @ '' in lane ''
                    @ q (lane_name requestedLane) @ ''.''))))"

section \<open>Gates\<close>

record gate_evidence =
  requirementsClear :: "bool option"
  acceptanceCriteriaDefined :: "bool option"
  solutionDefined :: "bool option"
  sequencingDefined :: "bool option"
  blockerFindingsResolved :: "bool option"
  verificationEvidencePresent :: "bool option"

datatype gate_kind = GkIntake | GkAnalysis | GkSolution | GkReview | GkVerification | GkNone

record gate_result =
  gr_pass :: bool
  gr_gate :: gate_kind
  gr_reason :: string

definition no_evidence :: gate_evidence where
  "no_evidence = \<lparr>requirementsClear = None, acceptanceCriteriaDefined = None, solutionDefined = None,
     sequencingDefined = None, blockerFindingsResolved = None, verificationEvidencePresent = None\<rparr>"

definition gateResult :: "bool \<Rightarrow> gate_kind \<Rightarrow> string \<Rightarrow> string \<Rightarrow> gate_result" where
  "gateResult pass g yes no = \<lparr>gr_pass = pass, gr_gate = g, gr_reason = (if pass then yes else no)\<rparr>"

definition evaluateGate :: "workflow_state \<Rightarrow> string \<Rightarrow> gate_evidence option \<Rightarrow> gate_result" where
  "evaluateGate workflow objective ev =
     (let stage = stage_name (wf_stage workflow); evidence = nullish ev no_evidence in
      if js_endsWith stage ''intake'' then
        gateResult (js_trim objective \<noteq> []) GkIntake ''Objective is present.''
          ''Objective is required for intake gate.''
      else if js_endsWith stage ''analysis'' \<or> js_endsWith stage ''baseline'' \<or> stage = ''quick_plan'' then
        gateResult (requirementsClear evidence = Some True \<and> acceptanceCriteriaDefined evidence = Some True)
          GkAnalysis ''Requirements and acceptance criteria are defined.''
          ''Requirements clarity and acceptance criteria are required.''
      else if js_endsWith stage ''solution'' \<or> js_endsWith stage ''strategy'' \<or> js_endsWith stage ''task_split'' then
        gateResult (solutionDefined evidence = Some True \<and> sequencingDefined evidence = Some True)
          GkSolution ''Solution and sequencing are defined.''
          ''Solution and sequencing must be defined before execution.''
      else if js_endsWith stage ''review'' then
        gateResult (blockerFindingsResolved evidence = Some True) GkReview
          ''Review blockers are resolved.'' ''Review blockers must be resolved.''
      else if js_endsWith stage ''verify'' \<or> js_endsWith stage ''complete'' then
        gateResult (verificationEvidencePresent evidence = Some True) GkVerification
          ''Verification evidence is present.'' ''Verification evidence is required.''
      else \<lparr>gr_pass = True, gr_gate = GkNone, gr_reason = ''No gate applies to this stage.''\<rparr>)"

section \<open>Handoffs\<close>

text \<open>\<open>None\<close> as the receiving role is \<^verbatim>\<open>complete\<close>.\<close>

record handoff_payload =
  ho_lane :: workflow_lane
  ho_fromRole :: agent_role
  ho_toRole :: "agent_role option"
  ho_stage :: string
  ho_notes :: "string list"
  ho_requiredArtifacts :: "string list"

definition buildNotes :: "workflow_lane \<Rightarrow> agent_role \<Rightarrow> agent_role option \<Rightarrow> string list" where
  "buildNotes lane fromRole toRole =
     (if fromRole = RoleCoordinator \<and> toRole = Some RoleAnalyst then
        [''Lane is locked.'', ''Objective and repo target are established.'']
      else if fromRole = RoleAnalyst \<and> toRole = Some RoleArchitect then
        [''Problem statement is clarified.'', ''Acceptance criteria are defined.'']
      else if fromRole = RoleArchitect \<and> toRole = Some RoleImplementer then
        [''Solution direction is approved.'', ''Task decomposition is ready.'']
      else if fromRole = RoleImplementer \<and> toRole = Some RoleReviewer then
        [''Changed areas are listed.'', ''Local verification notes are attached.'']
      else if fromRole = RoleReviewer \<and> toRole = Some RoleTester then
        (if lane = LaneMigration
         then [''Review findings are resolved or accepted.'',
               ''Residual risks and preserve-behavior invariants are stated.'']
         else [''Review findings are resolved or accepted.'', ''Residual risks are stated.''])
      else [''Handoff is ready.''])"

definition buildArtifacts :: "workflow_lane \<Rightarrow> agent_role \<Rightarrow> agent_role option \<Rightarrow> string list" where
  "buildArtifacts lane fromRole toRole =
     (if fromRole = RoleCoordinator \<and> toRole = Some RoleAnalyst then
        [''session_state'', ''lane_state'', ''objective'']
      else if fromRole = RoleAnalyst \<and> toRole = Some RoleArchitect then
        [''problem_statement'', ''scope'', ''acceptance_criteria'']
      else if fromRole = RoleArchitect \<and> toRole = Some RoleImplementer then
        (if lane = LaneMigration
         then [''solution_summary'', ''work_items'', ''validation_plan'', ''migration_invariants'']
         else [''solution_summary'', ''work_items'', ''validation_plan''])
      else if fromRole = RoleImplementer \<and> toRole = Some RoleReviewer then
        [''changed_areas'', ''summary'', ''local_verification'']
      else if fromRole = RoleReviewer \<and> toRole = Some RoleTester then
        (if lane = LaneMigration
         then [''findings'', ''quality_gate'', ''residual_risks'', ''preserve_behavior_evidence'']
         else [''findings'', ''quality_gate'', ''residual_risks''])
      else [''handoff_notes''])"

definition buildHandoff ::
  "workflow_lane \<Rightarrow> agent_role \<Rightarrow> agent_role option \<Rightarrow> string \<Rightarrow> handoff_payload" where
  "buildHandoff lane fromRole toRole stage =
     \<lparr>ho_lane = lane, ho_fromRole = fromRole, ho_toRole = toRole, ho_stage = stage,
      ho_notes = buildNotes lane fromRole toRole,
      ho_requiredArtifacts = buildArtifacts lane fromRole toRole\<rparr>"

end
