(* ===== verification/WorkItems.thy ===== *)
theory WorkItems
  imports Prelude
begin

text \<open>
  The work-item planner, \<^verbatim>\<open>packages/runtime/src/workflow/work-item-planner.ts\<close>, on the work items of
  \<^verbatim>\<open>packages/shared/src/types/work-item.ts\<close>: which pending items can run, in which order and in which
  parallel groups. The maps and sets of the code are association lists and lists in insertion order;
  the \<^verbatim>\<open>while\<close> loop is the terminating function \<open>planLoop\<close>.
\<close>

datatype work_item_status = WiPending | WiInProgress | WiDone | WiBlocked

datatype work_item_lane = WiDelivery | WiMigration

datatype owner_role = OwnerImplementer | OwnerReviewer | OwnerTester

datatype review_status = RsPending | RsPass | RsFail

datatype test_status = TsPending | TsPass | TsFail | TsPartial

record work_item =
  wi_id :: string
  wi_sessionId :: string
  wi_lane :: work_item_lane
  wi_title :: string
  wi_description :: string
  wi_ownerRole :: owner_role
  wi_dependencies :: "string list"
  wi_parallelizable :: bool
  wi_executionGroup :: "string option"
  wi_status :: work_item_status
  wi_targetAreas :: "string list"
  wi_acceptance :: "string list"
  wi_validationPlan :: "string list"
  wi_reviewStatus :: review_status
  wi_testStatus :: test_status

record work_item_plan =
  ready :: "work_item list"
  blocked :: "work_item list"
  parallelizableGroups :: "work_item list list"
  executionOrder :: "work_item list list"

definition doneIds :: "work_item list \<Rightarrow> string list" where
  "doneIds items = map wi_id (filter (\<lambda>i. wi_status i = WiDone) items)"

definition pendingItems :: "work_item list \<Rightarrow> work_item list" where
  "pendingItems items = filter (\<lambda>i. wi_status i = WiPending) items"

definition missingDependencies :: "work_item list \<Rightarrow> work_item \<Rightarrow> string list" where
  "missingDependencies items item =
     filter (\<lambda>d. d \<notin> set (doneIds items) \<and> d \<notin> set (map wi_id items)) (wi_dependencies item)"

text \<open>The keys of \<^verbatim>\<open>missingDependencyIdsByItem\<close>.\<close>

definition missingIds :: "work_item list \<Rightarrow> string list" where
  "missingIds items = map wi_id (filter (\<lambda>i. missingDependencies items i \<noteq> []) (pendingItems items))"

definition schedulable :: "work_item list \<Rightarrow> work_item list" where
  "schedulable items = filter (\<lambda>i. wi_id i \<notin> set (missingIds items)) (pendingItems items)"

definition unresolvedDeps :: "work_item list \<Rightarrow> work_item \<Rightarrow> string list" where
  "unresolvedDeps items item =
     js_unique (filter (\<lambda>d. d \<notin> set (doneIds items) \<and> d \<in> set (map wi_id (schedulable items)))
       (wi_dependencies item))"

definition unresolvedDepsByItem :: "work_item list \<Rightarrow> (string, string list) js_map" where
  "unresolvedDepsByItem items =
     foldl (\<lambda>m i. AList.update (wi_id i) (unresolvedDeps items i) m) [] (schedulable items)"

definition groupKey :: "work_item \<Rightarrow> string" where
  "groupKey i = nullish (wi_executionGroup i) (''solo:'' @ wi_id i)"

definition addToGroup :: "(string, work_item list) js_map \<Rightarrow> work_item \<Rightarrow> (string, work_item list) js_map" where
  "addToGroup m i =
     AList.update (groupKey i) (nullish (map_of m (groupKey i)) [] @ [i]) m"

definition groupParallelizable :: "work_item list \<Rightarrow> work_item list list" where
  "groupParallelizable items =
     filter (\<lambda>g. g \<noteq> []) (map snd (foldl addToGroup [] (filter wi_parallelizable items)))
     @ map (\<lambda>i. [i]) (filter (\<lambda>i. \<not> wi_parallelizable i) items)"

definition planLayer ::
  "work_item list \<Rightarrow> (string, string list) js_map \<Rightarrow> string list \<Rightarrow> work_item list" where
  "planLayer items deps scheduled =
     filter (\<lambda>i. wi_id i \<notin> set scheduled
       \<and> (case map_of deps (wi_id i) of None \<Rightarrow> True | Some ds \<Rightarrow> set ds \<subseteq> set scheduled)) items"

text \<open>\<open>scheduled.add\<close> for every item of every group; a set keeps the first occurrence.\<close>

definition addScheduled :: "string list \<Rightarrow> work_item list list \<Rightarrow> string list" where
  "addScheduled scheduled groups = js_unique (scheduled @ map wi_id (concat groups))"

section \<open>The groups of a layer\<close>

lemma addToGroup_keys: "distinct (map fst m) \<Longrightarrow> distinct (map fst (addToGroup m i))"
  by (simp add: addToGroup_def distinct_update)

lemma mset_concat_update:
  assumes "distinct (map fst m)"
  shows "mset (concat (map snd (AList.update k (nullish (map_of m k) [] @ [i]) m)))
    = add_mset i (mset (concat (map snd m)))"
  using assms
proof (induction m)
  case (Cons p m)
  obtain k' g where p: "p = (k', g)" by (cases p)
  show ?case
  proof (cases "k' = k")
    case True
    then show ?thesis by (simp add: p)
  next
    case False
    with Cons p show ?thesis by simp
  qed
qed simp

lemma groups_foldl:
  assumes "distinct (map fst m)"
  shows "mset (concat (map snd (foldl addToGroup m xs))) = mset (concat (map snd m)) + mset xs"
  using assms
proof (induction xs arbitrary: m)
  case (Cons x xs)
  have "mset (concat (map snd (foldl addToGroup (addToGroup m x) xs)))
      = mset (concat (map snd (addToGroup m x))) + mset xs"
    using Cons.IH addToGroup_keys Cons.prems by blast
  also have "mset (concat (map snd (addToGroup m x))) = add_mset x (mset (concat (map snd m)))"
    unfolding addToGroup_def by (rule mset_concat_update [OF Cons.prems])
  finally show ?case by simp
qed simp

lemma concat_nonempty: "concat (filter (\<lambda>g. g \<noteq> []) gs) = concat gs"
  by (induction gs) auto

lemma concat_singletons: "concat (map (\<lambda>i. [i]) xs) = xs"
  by (induction xs) auto

lemma mset_groups: "mset (concat (groupParallelizable xs)) = mset xs"
  using groups_foldl [of "[]" "filter wi_parallelizable xs"]
  by (simp add: groupParallelizable_def concat_nonempty concat_singletons)

lemma set_groups: "set (concat (groupParallelizable xs)) = set xs"
  using mset_groups by (metis set_mset_mset)

lemma groups_nonempty: "g \<in> set (groupParallelizable xs) \<Longrightarrow> g \<noteq> []"
  by (auto simp: groupParallelizable_def)

lemma set_addScheduled [simp]:
  "set (addScheduled s (groupParallelizable l)) = set s \<union> wi_id ` set l"
  unfolding addScheduled_def using set_groups [of l] by auto

lemma planLayer_decreases:
  assumes "planLayer items deps s \<noteq> []"
  shows "length (filter (\<lambda>i. wi_id i \<notin> set s \<union> wi_id ` set (planLayer items deps s)) items)
    < length (filter (\<lambda>i. wi_id i \<notin> set s) items)"
proof -
  let ?l = "planLayer items deps s"
  from assms obtain x where x: "x \<in> set ?l" by (meson last_in_set)
  then have xi: "x \<in> set items" "wi_id x \<notin> set s" by (auto simp: planLayer_def)
  have "filter (\<lambda>i. wi_id i \<notin> set s \<union> wi_id ` set ?l) items
      = filter (\<lambda>i. wi_id i \<notin> wi_id ` set ?l) (filter (\<lambda>i. wi_id i \<notin> set s) items)"
    by (simp add: conj_commute)
  moreover have "x \<in> set (filter (\<lambda>i. wi_id i \<notin> set s) items)" using xi by simp
  ultimately show ?thesis
    using x length_filter_less [of x "filter (\<lambda>i. wi_id i \<notin> set s) items"] by simp
qed

function planLoop ::
  "work_item list \<Rightarrow> (string, string list) js_map \<Rightarrow> string list \<Rightarrow> work_item list list
   \<Rightarrow> string list \<times> work_item list list" where
  "planLoop items deps scheduled order =
     (if length scheduled < length items then
        (let layer = planLayer items deps scheduled in
         if layer = [] then (scheduled, order)
         else (let groups = groupParallelizable layer in
               planLoop items deps (addScheduled scheduled groups) (order @ groups)))
      else (scheduled, order))"
  by pat_completeness auto
termination
  by (relation "measure (\<lambda>(items, deps, scheduled, order). length (filter (\<lambda>i. wi_id i \<notin> set scheduled) items))")
    (auto simp: planLayer_decreases [simplified])

declare planLoop.simps [simp del]

definition planWorkItems :: "work_item list \<Rightarrow> work_item_plan" where
  "planWorkItems items =
     (let sch = schedulable items;
          deps = unresolvedDepsByItem items;
          (scheduled, order) = planLoop sch deps [] [];
          rdy = filter (\<lambda>i. case map_of deps (wi_id i) of None \<Rightarrow> True | Some ds \<Rightarrow> ds = []) sch;
          unscheduledIds = map wi_id (filter (\<lambda>i. wi_id i \<notin> set scheduled) sch)
      in \<lparr>ready = rdy,
          blocked = filter (\<lambda>i. wi_id i \<in> set (missingIds items) \<or> wi_id i \<in> set unscheduledIds)
            (pendingItems items),
          parallelizableGroups = groupParallelizable rdy,
          executionOrder = order\<rparr>)"

section \<open>The loop\<close>

abbreviation ids :: "work_item list \<Rightarrow> string set" where
  "ids xs \<equiv> wi_id ` set xs"

definition depSet :: "(string, string list) js_map \<Rightarrow> work_item \<Rightarrow> string set" where
  "depSet deps i = (case map_of deps (wi_id i) of None \<Rightarrow> {} | Some ds \<Rightarrow> set ds)"

text \<open>Every item runs after the items it waits for: \<open>S\<close> are the ids done before the groups.\<close>

fun inOrder :: "(string, string list) js_map \<Rightarrow> string set \<Rightarrow> work_item list list \<Rightarrow> bool" where
  "inOrder deps S [] = True"
| "inOrder deps S (g # gs) = ((\<forall>i \<in> set g. depSet deps i \<subseteq> S) \<and> inOrder deps (S \<union> ids g) gs)"

lemma inOrder_append:
  "inOrder deps S (a @ b) \<longleftrightarrow> inOrder deps S a \<and> inOrder deps (S \<union> ids (concat a)) b"
  by (induction a arbitrary: S) (auto simp: Un_assoc image_Un)

lemma inOrder_mono: "inOrder deps S gs \<Longrightarrow> S \<subseteq> T \<Longrightarrow> inOrder deps T gs"
proof (induction gs arbitrary: S T)
  case (Cons g gs)
  then have "inOrder deps (T \<union> ids g) gs" using Cons.IH [of "S \<union> ids g" "T \<union> ids g"] by auto
  with Cons.prems show ?case by auto
qed simp

lemma inOrder_all: "(\<forall>i \<in> set (concat gs). depSet deps i \<subseteq> S) \<Longrightarrow> inOrder deps S gs"
proof (induction gs arbitrary: S)
  case (Cons g gs)
  then have "inOrder deps S gs" by auto
  then have "inOrder deps (S \<union> ids g) gs" by (rule inOrder_mono) simp
  with Cons.prems show ?case by auto
qed simp

lemma planLayer_iff: "i \<in> set (planLayer items deps s) \<longleftrightarrow>
    i \<in> set items \<and> wi_id i \<notin> set s \<and> depSet deps i \<subseteq> set s"
  by (auto simp: planLayer_def depSet_def split: option.splits)

definition loop_inv ::
  "work_item list \<Rightarrow> (string, string list) js_map \<Rightarrow> string list \<Rightarrow> work_item list list \<Rightarrow> bool" where
  "loop_inv items deps s order \<longleftrightarrow> distinct s \<and> set s = ids (concat order)
     \<and> set (concat order) \<subseteq> set items \<and> distinct (map wi_id (concat order)) \<and> inOrder deps {} order"

lemma distinct_groups:
  assumes "distinct (map wi_id xs)"
  shows "distinct (map wi_id (concat (groupParallelizable xs)))"
proof -
  have "mset (map wi_id (concat (groupParallelizable xs))) = mset (map wi_id xs)"
    by (simp only: mset_map mset_groups)
  with assms show ?thesis using mset_eq_imp_distinct_iff by blast
qed

lemma loop_inv_layer:
  assumes inv: "loop_inv items deps s order" and d: "distinct (map wi_id items)"
  shows "loop_inv items deps (addScheduled s (groupParallelizable (planLayer items deps s)))
    (order @ groupParallelizable (planLayer items deps s))"
proof -
  let ?l = "planLayer items deps s"
  let ?g = "groupParallelizable ?l"
  have g: "set (concat ?g) = set ?l" by (rule set_groups)
  have dl: "distinct (map wi_id ?l)" using d by (simp add: planLayer_def distinct_map_filter)
  have s: "set s = ids (concat order)" using inv by (simp add: loop_inv_def)
  have "set s \<inter> ids ?l = {}" by (auto simp: planLayer_iff)
  then have disj: "ids (concat order) \<inter> ids ?l = {}" by (simp add: s)
  have "inOrder deps (ids (concat order)) ?g"
    by (rule inOrder_all) (use inv g in \<open>auto simp: loop_inv_def planLayer_iff\<close>)
  moreover have "distinct (map wi_id (concat (order @ ?g)))"
    using inv distinct_groups [OF dl] disj g by (auto simp: loop_inv_def)
  moreover have "distinct (addScheduled s ?g)" by (simp add: addScheduled_def)
  moreover have "set (addScheduled s ?g) = ids (concat (order @ ?g))"
    using inv g by (auto simp: loop_inv_def image_Un)
  moreover have "set (concat (order @ ?g)) \<subseteq> set items"
    using inv g by (auto simp: loop_inv_def planLayer_iff)
  ultimately show ?thesis
    using inv unfolding loop_inv_def by (simp add: inOrder_append)
qed

lemma full_no_layer:
  assumes "loop_inv items deps s order" and "distinct (map wi_id items)" and "\<not> length s < length items"
  shows "planLayer items deps s = []"
proof -
  have sub: "set s \<subseteq> ids items" using assms(1) by (auto simp: loop_inv_def)
  have "card (set s) \<ge> card (ids items)"
    using assms by (simp add: loop_inv_def distinct_card [of s] flip: distinct_card [of "map wi_id items", simplified])
      (metis card_length distinct_card length_map list.set_map not_less order_trans)
  then have "set s = ids items" using sub card_seteq [of "ids items" "set s"] by simp
  then show ?thesis by (auto simp: planLayer_def filter_empty_conv)
qed

lemma planLoop_inv:
  assumes "loop_inv items deps s order" and "distinct (map wi_id items)"
  shows "loop_inv items deps (fst (planLoop items deps s order)) (snd (planLoop items deps s order))
    \<and> planLayer items deps (fst (planLoop items deps s order)) = []"
  using assms
proof (induction items deps s order rule: planLoop.induct)
  case (1 items deps s order)
  show ?case
  proof (cases "length s < length items \<and> planLayer items deps s \<noteq> []")
    case True
    then show ?thesis
      using "1.IH" [OF _ refl _ refl] loop_inv_layer [OF "1.prems"] "1.prems"
      by (simp add: planLoop.simps [of items deps s order] Let_def)
  next
    case False
    then show ?thesis
      using "1.prems" full_no_layer by (auto simp: planLoop.simps [of items deps s order] Let_def)
  qed
qed

section \<open>The plan\<close>

lemma same_id: "distinct (map wi_id xs) \<Longrightarrow> j \<in> set xs \<Longrightarrow> k \<in> set xs \<Longrightarrow> wi_id j = wi_id k \<Longrightarrow> j = k"
  by (simp add: distinct_map inj_on_def)

lemma map_of_foldl_update:
  assumes "distinct (map wi_id xs)" and "i \<in> set xs"
  shows "map_of (foldl (\<lambda>m i. AList.update (wi_id i) (f i) m) m xs) (wi_id i) = Some (f i)"
  using assms
proof (induction xs arbitrary: m rule: rev_induct)
  case (snoc x xs)
  show ?case
  proof (cases "i = x")
    case True
    then show ?thesis by (simp add: update_conv')
  next
    case False
    with snoc.prems(2) have "i \<in> set xs" by simp
    moreover from False have "wi_id i \<noteq> wi_id x" using same_id [OF snoc.prems(1,2)] by auto
    ultimately have "i \<in> set xs" "wi_id i \<noteq> wi_id x" by auto
    with snoc show ?thesis by (simp add: update_conv')
  qed
qed simp

lemma distinct_schedulable: "distinct (map wi_id items) \<Longrightarrow> distinct (map wi_id (schedulable items))"
  by (simp add: schedulable_def pendingItems_def distinct_map_filter)

lemma depSet_unresolved:
  assumes "distinct (map wi_id items)" and "i \<in> set (schedulable items)"
  shows "map_of (unresolvedDepsByItem items) (wi_id i) = Some (unresolvedDeps items i)"
    and "depSet (unresolvedDepsByItem items) i = set (unresolvedDeps items i)"
proof -
  show "map_of (unresolvedDepsByItem items) (wi_id i) = Some (unresolvedDeps items i)"
    unfolding unresolvedDepsByItem_def
    by (rule map_of_foldl_update [OF distinct_schedulable [OF assms(1)] assms(2)])
  then show "depSet (unresolvedDepsByItem items) i = set (unresolvedDeps items i)"
    by (simp add: depSet_def)
qed

abbreviation planResult :: "work_item list \<Rightarrow> string list \<times> work_item list list" where
  "planResult items \<equiv> planLoop (schedulable items) (unresolvedDepsByItem items) [] []"

lemma plan_fields:
  "executionOrder (planWorkItems items) = snd (planResult items)"
  "blocked (planWorkItems items) = filter (\<lambda>i. wi_id i \<in> set (missingIds items)
     \<or> wi_id i \<in> ids (filter (\<lambda>i. wi_id i \<notin> set (fst (planResult items))) (schedulable items)))
       (pendingItems items)"
  by (simp_all add: planWorkItems_def Let_def case_prod_beta)

lemma plan_inv:
  assumes "distinct (map wi_id items)"
  shows "loop_inv (schedulable items) (unresolvedDepsByItem items)
      (fst (planResult items)) (snd (planResult items))"
    and "planLayer (schedulable items) (unresolvedDepsByItem items) (fst (planResult items)) = []"
proof -
  have "loop_inv (schedulable items) (unresolvedDepsByItem items) [] []" by (simp add: loop_inv_def)
  from planLoop_inv [OF this distinct_schedulable [OF assms]]
  show "loop_inv (schedulable items) (unresolvedDepsByItem items)
      (fst (planResult items)) (snd (planResult items))"
    and "planLayer (schedulable items) (unresolvedDepsByItem items) (fst (planResult items)) = []"
    by simp_all
qed

lemma plan_scheduled_iff:
  assumes "distinct (map wi_id items)" and "i \<in> set (schedulable items)"
  shows "wi_id i \<in> set (fst (planResult items)) \<longleftrightarrow> i \<in> set (concat (snd (planResult items)))"
proof -
  define s order where "s = fst (planResult items)" and "order = concat (snd (planResult items))"
  have inv: "set s = ids order" "set order \<subseteq> set (schedulable items)"
    using plan_inv(1) [OF assms(1)] unfolding loop_inv_def s_def order_def by blast+
  have inj: "inj_on wi_id (set (schedulable items))"
    using distinct_schedulable [OF assms(1)] by (simp add: distinct_map)
  have "wi_id i \<in> set s \<longleftrightarrow> i \<in> set order"
    using inv inj_on_image_mem_iff [OF inj assms(2) inv(2)] by simp
  then show ?thesis by (simp only: s_def order_def)
qed

text \<open>The items the loop leaves out wait for each other.\<close>

definition waiting :: "work_item list \<Rightarrow> work_item set \<Rightarrow> bool" where
  "waiting items U \<longleftrightarrow> U \<subseteq> set (schedulable items)
     \<and> (\<forall>i \<in> U. \<exists>d \<in> set (unresolvedDeps items i). d \<in> wi_id ` U)"

lemma waiting_unscheduled:
  assumes "distinct (map wi_id items)"
  shows "waiting items {i \<in> set (schedulable items). wi_id i \<notin> set (fst (planResult items))}"
    (is "waiting items ?U")
  unfolding waiting_def
proof (intro conjI ballI)
  fix i assume i: "i \<in> ?U"
  then have "i \<notin> set (planLayer (schedulable items) (unresolvedDepsByItem items) (fst (planResult items)))"
    using plan_inv(2) [OF assms] by simp
  then obtain d where d: "d \<in> set (unresolvedDeps items i)" "d \<notin> set (fst (planResult items))"
    using i depSet_unresolved(2) [OF assms, of i] by (auto simp: planLayer_iff)
  then have "d \<in> ids (schedulable items)" by (auto simp: unresolvedDeps_def)
  with d show "\<exists>d \<in> set (unresolvedDeps items i). d \<in> wi_id ` ?U" by auto
qed simp

lemma scheduled_not_waiting:
  assumes "inOrder deps S gs" and "\<forall>i \<in> U. \<exists>d \<in> depSet deps i. d \<in> wi_id ` U"
    and "S \<inter> wi_id ` U = {}" and "inj_on wi_id (U \<union> set (concat gs))"
  shows "set (concat gs) \<inter> U = {}"
  using assms
proof (induction gs arbitrary: S)
  case (Cons g gs)
  have g: "set g \<inter> U = {}" using Cons.prems(1,2,3) by fastforce
  have "ids g \<inter> wi_id ` U = {}"
    using g Cons.prems(4) by (fastforce dest: inj_onD)
  then have disj: "(S \<union> ids g) \<inter> wi_id ` U = {}" using Cons.prems(3) by auto
  have inj: "inj_on wi_id (U \<union> set (concat gs))"
    using Cons.prems(4) by (rule inj_on_subset) auto
  have "inOrder deps (S \<union> ids g) gs" using Cons.prems(1) by simp
  then have "set (concat gs) \<inter> U = {}" by (rule Cons.IH [OF _ Cons.prems(2) disj inj])
  with g show ?case by auto
qed simp

lemma order_split:
  assumes "inOrder deps {} (a @ g # b)" and "i \<in> set g" and "d \<in> depSet deps i"
  shows "d \<in> ids (concat a)"
  using assms by (auto simp: inOrder_append)

lemma blocked_iff:
  assumes "distinct (map wi_id items)" and "i \<in> set (pendingItems items)"
  shows "i \<in> set (blocked (planWorkItems items)) \<longleftrightarrow>
    missingDependencies items i \<noteq> []
    \<or> i \<in> set (schedulable items) \<and> i \<notin> set (concat (executionOrder (planWorkItems items)))"
proof -
  have inj: "\<And>j. j \<in> set (pendingItems items) \<Longrightarrow> wi_id j = wi_id i \<Longrightarrow> j = i"
    using assms by (auto simp: pendingItems_def distinct_map dest: inj_onD)
  have m: "wi_id i \<in> set (missingIds items) \<longleftrightarrow> missingDependencies items i \<noteq> []"
    using inj assms(2) by (fastforce simp: missingIds_def)
  have "wi_id i \<in> ids (filter (\<lambda>i. wi_id i \<notin> set (fst (planResult items))) (schedulable items))
      \<longleftrightarrow> i \<in> set (schedulable items) \<and> wi_id i \<notin> set (fst (planResult items))"
    using inj by (force simp: schedulable_def)
  then show ?thesis
    using m plan_scheduled_iff [OF assms(1), of i] assms(2) by (auto simp: plan_fields)
qed

lemma schedulable_iff:
  assumes "distinct (map wi_id items)"
  shows "i \<in> set (schedulable items) \<longleftrightarrow> i \<in> set (pendingItems items) \<and> missingDependencies items i = []"
proof -
  have inj: "\<And>i j. i \<in> set (pendingItems items) \<Longrightarrow> j \<in> set (pendingItems items) \<Longrightarrow> wi_id j = wi_id i \<Longrightarrow> j = i"
    using assms by (auto simp: pendingItems_def distinct_map dest: inj_onD)
  then show ?thesis by (fastforce simp: schedulable_def missingIds_def)
qed

section \<open>Properties\<close>

lemma planLoop_nonempty: "[] \<notin> set order \<Longrightarrow> [] \<notin> set (snd (planLoop items deps s order))"
proof (induction items deps s order rule: planLoop.induct)
  case (1 items deps s order)
  have "[] \<notin> set (order @ groupParallelizable (planLayer items deps s))" using 1(2) groups_nonempty by auto
  with 1 show ?case by (subst planLoop.simps) (simp add: Let_def)
qed

lemma order_after_dependency:
  assumes "distinct (map wi_id items)" "executionOrder (planWorkItems items) = before @ grp # after"
    and "i \<in> set grp" "d \<in> set (wi_dependencies i)" "d \<in> wi_id ` set (schedulable items)"
  shows "d \<in> wi_id ` set (concat before) \<and> d \<notin> wi_id ` set grp"
proof -
  let ?o = "snd (planResult items)"
  have o: "?o = before @ grp # after" using assms(2) by (simp add: plan_fields)
  have inv: "inOrder (unresolvedDepsByItem items) {} ?o" "set (concat ?o) \<subseteq> set (schedulable items)"
    "distinct (map wi_id (concat ?o))"
    using plan_inv(1) [OF assms(1)] unfolding loop_inv_def by blast+
  have i: "i \<in> set (schedulable items)" using inv(2) o assms(3) by auto
  have "d \<notin> set (doneIds items)"
  proof
    assume "d \<in> set (doneIds items)"
    then obtain j where "j \<in> set items" "wi_status j = WiDone" "wi_id j = d" by (auto simp: doneIds_def)
    moreover obtain k where "k \<in> set items" "wi_status k = WiPending" "wi_id k = d"
      using assms(5) by (auto simp: schedulable_def pendingItems_def)
    ultimately show False using same_id [OF assms(1), of j k] by simp
  qed
  then have "d \<in> depSet (unresolvedDepsByItem items) i"
    using depSet_unresolved(2) [OF assms(1) i] assms(4,5) by (auto simp: unresolvedDeps_def)
  then have "d \<in> wi_id ` set (concat before)"
    using order_split [of _ before grp after i d] inv(1) o assms(3) by simp
  moreover have "ids (concat before) \<inter> ids grp = {}" using inv(3) by (simp add: o Int_Un_distrib)
  ultimately show ?thesis by blast
qed

text \<open>
  C28. The execution order respects the dependencies. When the items have distinct ids, every group of
  the order is non-empty, and an item's dependency that is itself schedulable stands in an earlier
  group, never in the same one.
\<close>

theorem execution_order_respects_dependencies:
  assumes "distinct (map wi_id items)"
  shows "[] \<notin> set (executionOrder (planWorkItems items))
    \<and> (\<forall>before grp after i d. executionOrder (planWorkItems items) = before @ grp # after \<and> i \<in> set grp
         \<and> d \<in> set (wi_dependencies i) \<and> d \<in> wi_id ` set (schedulable items)
       \<longrightarrow> d \<in> wi_id ` set (concat before) \<and> d \<notin> wi_id ` set grp)"
proof (intro conjI [OF _ allI [OF allI [OF allI [OF allI [OF allI [OF impI]]]]]])
  show "[] \<notin> set (executionOrder (planWorkItems items))" unfolding plan_fields by (rule planLoop_nonempty) simp
qed (use order_after_dependency [OF assms] in blast)

text \<open>
  Nothing pending is lost or duplicated: with distinct ids, the items of the execution order and
  the blocked items are, counted with multiplicity, exactly the pending items.
\<close>

theorem plan_partitions_pending:
  assumes "distinct (map wi_id items)"
  shows "mset (concat (executionOrder (planWorkItems items))) + mset (blocked (planWorkItems items))
    = mset (pendingItems items)"
proof -
  let ?o = "concat (executionOrder (planWorkItems items))"
  have inv: "set ?o \<subseteq> set (schedulable items)" "distinct (map wi_id ?o)"
    using plan_inv(1) [OF assms] unfolding loop_inv_def plan_fields by blast+
  have dp: "distinct (pendingItems items)" using assms by (simp add: pendingItems_def distinct_map)
  have db: "distinct (blocked (planWorkItems items))" using dp by (simp add: plan_fields)
  have bp: "set (blocked (planWorkItems items)) \<subseteq> set (pendingItems items)" by (auto simp: plan_fields)
  have iff: "i \<in> set ?o \<longleftrightarrow> i \<in> set (pendingItems items) \<and> i \<notin> set (blocked (planWorkItems items))" for i
    using blocked_iff [OF assms, of i] schedulable_iff [OF assms, of i] inv(1) by blast
  have "distinct (?o @ blocked (planWorkItems items))"
    using inv(2) db iff by (auto simp: distinct_map)
  moreover have "set (?o @ blocked (planWorkItems items)) = set (pendingItems items)"
    using iff bp by auto
  ultimately have "mset (?o @ blocked (planWorkItems items)) = mset (pendingItems items)"
    using dp set_eq_iff_mset_eq_distinct by blast
  then show ?thesis by simp
qed

text \<open>
  C29. An item is blocked for a reason. With distinct ids, a pending item is reported as blocked exactly
  when one of its dependencies does not exist, or when it belongs to a set of schedulable items each of
  which waits for another member of the set: the dependency cycles and what hangs behind them.
\<close>

theorem blocked_iff_missing_or_cycle:
  assumes "distinct (map wi_id items)" and "i \<in> set (pendingItems items)"
  shows "i \<in> set (blocked (planWorkItems items)) \<longleftrightarrow>
    missingDependencies items i \<noteq> [] \<or> (\<exists>U. waiting items U \<and> i \<in> U)"
proof -
  let ?o = "snd (planResult items)"
  have "i \<in> set (schedulable items) \<and> i \<notin> set (concat ?o) \<longleftrightarrow> (\<exists>U. waiting items U \<and> i \<in> U)"
  proof
    assume "i \<in> set (schedulable items) \<and> i \<notin> set (concat ?o)"
    then show "\<exists>U. waiting items U \<and> i \<in> U"
      using waiting_unscheduled [OF assms(1)] plan_scheduled_iff [OF assms(1)] by blast
  next
    assume "\<exists>U. waiting items U \<and> i \<in> U"
    then obtain U where U: "waiting items U" "i \<in> U" by blast
    then have US: "U \<subseteq> set (schedulable items)" by (simp add: waiting_def)
    have inv: "inOrder (unresolvedDepsByItem items) {} ?o" "set (concat ?o) \<subseteq> set (schedulable items)"
      using plan_inv(1) [OF assms(1)] unfolding loop_inv_def by blast+
    have "inj_on wi_id (U \<union> set (concat ?o))"
      by (rule inj_on_subset [of _ "set (schedulable items)"])
        (use distinct_schedulable [OF assms(1)] US inv(2) in \<open>simp_all add: distinct_map\<close>)
    moreover have "\<forall>j \<in> U. \<exists>d \<in> depSet (unresolvedDepsByItem items) j. d \<in> wi_id ` U"
      using U(1) US depSet_unresolved(2) [OF assms(1)] by (auto simp: waiting_def)
    ultimately have "set (concat ?o) \<inter> U = {}"
      using scheduled_not_waiting [OF inv(1)] by blast
    then show "i \<in> set (schedulable items) \<and> i \<notin> set (concat ?o)" using U US by blast
  qed
  then show ?thesis using blocked_iff [OF assms] by (simp add: plan_fields)
qed

text \<open>
  Work that is not finished does not hold back what depends on it: a pending item all of whose
  dependencies exist but are in progress or blocked is reported as ready.
\<close>

theorem unfinished_dependency_is_ready:
  assumes "distinct (map wi_id items)" and "i \<in> set (pendingItems items)"
    and "\<forall>d \<in> set (wi_dependencies i). \<exists>j \<in> set items. wi_id j = d \<and> wi_status j \<in> {WiInProgress, WiBlocked}"
  shows "i \<in> set (ready (planWorkItems items))"
proof -
  have "missingDependencies items i = []"
    using assms(3) by (auto simp: missingDependencies_def filter_empty_conv)
  then have i: "i \<in> set (schedulable items)" using schedulable_iff [OF assms(1)] assms(2) by blast
  have "d \<notin> wi_id ` set (schedulable items)" if "d \<in> set (wi_dependencies i)" for d
  proof
    assume "d \<in> wi_id ` set (schedulable items)"
    then obtain k where "k \<in> set items" "wi_status k = WiPending" "wi_id k = d"
      by (auto simp: schedulable_def pendingItems_def)
    then show False using that assms(3) same_id [OF assms(1)] by fastforce
  qed
  then have "unresolvedDeps items i = []" by (auto simp: unresolvedDeps_def js_unique_def filter_empty_conv)
  then show ?thesis
    using i depSet_unresolved(1) [OF assms(1) i] by (simp add: planWorkItems_def Let_def case_prod_beta)
qed

section \<open>Witnesses\<close>

definition sample_item :: "string \<Rightarrow> work_item_status \<Rightarrow> string list \<Rightarrow> work_item" where
  "sample_item n st ds = \<lparr>wi_id = n, wi_sessionId = ''s'', wi_lane = WiDelivery, wi_title = n,
     wi_description = [], wi_ownerRole = OwnerImplementer, wi_dependencies = ds, wi_parallelizable = True,
     wi_executionGroup = None, wi_status = st, wi_targetAreas = [], wi_acceptance = [],
     wi_validationPlan = [], wi_reviewStatus = RsPending, wi_testStatus = TsPending\<rparr>"

text \<open>Three items, listed in the wrong order: \<open>c\<close> waits for \<open>b\<close> and \<open>b\<close> for \<open>a\<close>.\<close>

abbreviation chain_items :: "work_item list" where
  "chain_items \<equiv> [sample_item ''c'' WiPending [''b''], sample_item ''b'' WiPending [''a''], sample_item ''a'' WiPending []]"

theorem execution_order_respects_dependencies_witness:
  "map (map wi_id) (executionOrder (planWorkItems chain_items)) = [[''a''], [''b''], [''c'']]
   \<and> [] \<notin> set (executionOrder (planWorkItems chain_items))
   \<and> (\<exists>before grp after. executionOrder (planWorkItems chain_items) = before @ grp # after \<and> sample_item ''c'' WiPending [''b''] \<in> set grp
        \<and> ''b'' \<in> wi_id ` set (concat before) \<and> ''b'' \<notin> wi_id ` set grp)"
proof -
  let ?c = "sample_item ''c'' WiPending [''b'']"
  have o: "map (map wi_id) (executionOrder (planWorkItems chain_items)) = [[''a''], [''b''], [''c'']]" by code_simp
  have b: "''b'' \<in> wi_id ` set (schedulable chain_items)" by code_simp
  have "?c \<in> set (concat (executionOrder (planWorkItems chain_items)))" by code_simp
  then obtain before grp after where g: "executionOrder (planWorkItems chain_items) = before @ grp # after" "?c \<in> set grp"
    by (auto dest: split_list)
  have "distinct (map wi_id chain_items)" "''b'' \<in> set (wi_dependencies ?c)" by (simp_all add: sample_item_def)
  with execution_order_respects_dependencies [of chain_items] o b g show ?thesis by blast
qed

theorem plan_partitions_pending_witness:
  "mset (concat (executionOrder (planWorkItems [sample_item ''b'' WiPending [''x''], sample_item ''a'' WiPending []])))
   + mset (blocked (planWorkItems [sample_item ''b'' WiPending [''x''], sample_item ''a'' WiPending []]))
   = {#sample_item ''b'' WiPending [''x''], sample_item ''a'' WiPending []#}"
  using plan_partitions_pending [of "[sample_item ''b'' WiPending [''x''], sample_item ''a'' WiPending []]"]
  by (simp add: sample_item_def pendingItems_def)

theorem blocked_iff_missing_or_cycle_witness:
  "sample_item ''a'' WiPending [''b''] \<in> set (blocked (planWorkItems
     [sample_item ''b'' WiPending [''a''], sample_item ''a'' WiPending [''b'']]))
   \<and> (\<exists>U. waiting [sample_item ''b'' WiPending [''a''], sample_item ''a'' WiPending [''b'']] U
        \<and> sample_item ''a'' WiPending [''b''] \<in> U)"
proof -
  let ?items = "[sample_item ''b'' WiPending [''a''], sample_item ''a'' WiPending [''b'']]"
  have d: "distinct (map wi_id ?items)" by (simp add: sample_item_def)
  have p: "sample_item ''a'' WiPending [''b''] \<in> set (pendingItems ?items)"
    by (simp add: sample_item_def pendingItems_def)
  have b: "sample_item ''a'' WiPending [''b''] \<in> set (blocked (planWorkItems ?items))" by code_simp
  have m: "missingDependencies ?items (sample_item ''a'' WiPending [''b'']) = []" by code_simp
  show ?thesis using b m blocked_iff_missing_or_cycle [OF d p] by blast
qed

theorem unfinished_dependency_is_ready_witness:
  "sample_item ''b'' WiPending [''a''] \<in> set (ready (planWorkItems
     [sample_item ''b'' WiPending [''a''], sample_item ''a'' WiInProgress []]))"
  by (rule unfinished_dependency_is_ready) (simp_all add: sample_item_def pendingItems_def)

end
