(* ===== verification/Store.thy ===== *)
theory Store
  imports Workflow WorkItems
begin

text \<open>
  The SQLite store: the tables of \<^verbatim>\<open>packages/storage/src/sqlite/db.ts\<close> that the session code uses and
  their repositories under \<^verbatim>\<open>repositories/\<close>. A table is the list of its rows in \<^verbatim>\<open>rowid\<close> order. An
  \<^verbatim>\<open>INSERT\<close> appends and fails on a used primary key; \<^verbatim>\<open>ON CONFLICT DO UPDATE\<close> overwrites in place; a
  foreign key to \<^verbatim>\<open>sessions\<close> is enforced (the default of \<^verbatim>\<open>node:sqlite\<close>); text compares bytewise, as the
  lexicographic order on strings does. Every statement commits on its own, so an operation that fails
  half-way leaves its earlier writes behind: an effectful operation maps a world to a result \<^emph>\<open>and\<close> a
  world, on the error path too.

  \<^verbatim>\<open>createId\<close> and \<^verbatim>\<open>nowIso\<close> read the environment: \<open>entropy\<close> is an arbitrary stream of random suffixes and
  of times, and \<open>seq\<close> counts the values drawn.
\<close>

datatype dh_error =
    ErrMessage string
  | ErrBusy string
  | ErrUnique string
  | ErrForeignKey string
  | ErrBind string
  | ErrNotNull string

record entropy =
  rnd :: "nat \<Rightarrow> string"
  clk :: "nat \<Rightarrow> timestamp"

record workflow_row =
  wr_sessionId :: string
  wr_lane :: string
  wr_stage :: string
  wr_stageStatus :: string
  wr_previousStage :: "string option"
  wr_nextStage :: "string option"
  wr_gateStatus :: string
  wr_blockersJson :: string

record resolved_model =
  rm_providerId :: string
  rm_modelId :: string
  rm_variantId :: string

record execution_envelope =
  ee_id :: string
  ee_sessionId :: string
  ee_lane :: workflow_lane
  ee_role :: agent_role
  ee_agentId :: string
  ee_stage :: string
  ee_workItemId :: "string option"
  ee_resolvedModel :: resolved_model
  ee_activeSkills :: "string list"
  ee_activeMcps :: "string list"
  ee_requiredTools :: "string list"
  ee_semanticMode :: semantic_mode
  ee_createdAt :: timestamp

record runtime_event =
  re_id :: string
  re_sessionId :: string
  re_eventType :: string
  re_eventJson :: json
  re_createdAt :: timestamp

record session_summary =
  sm_id :: string
  sm_sessionId :: string
  sm_filesChanged :: int
  sm_additions :: int
  sm_deletions :: int
  sm_lastDiffAt :: "string option"
  sm_latestStage :: "string option"
  sm_latestCheckpointId :: "string option"
  sm_continuationSummary :: "string option"
  sm_continuationCreatedAt :: "string option"
  sm_updatedAt :: timestamp

datatype checkpoint_type = CpSessionBootstrap | CpPostWorkflow | CpPostStageAdvance | CpPreRevert

record session_checkpoint =
  cp_id :: string
  cp_sessionId :: string
  cp_checkpointType :: checkpoint_type
  cp_lane :: workflow_lane
  cp_stage :: workflow_stage
  cp_summarySnapshot :: json
  cp_workflowSnapshot :: json
  cp_continuation :: json
  cp_metadata :: json
  cp_createdAt :: timestamp

record session_revert =
  rv_id :: string
  rv_sessionId :: string
  rv_checkpointId :: string
  rv_previousCheckpointId :: "string option"
  rv_reason :: string
  rv_createdAt :: timestamp

text \<open>The in-process run registry of \<^verbatim>\<open>session-run-state.ts\<close> and the files of the session store and the
  workflow mirror are part of the world too.\<close>

record run_entry =
  run_runId :: string
  run_sessionId :: string
  run_startedAt :: timestamp
  run_metadata :: "json option"
  run_cancelRequestedAt :: "timestamp option"
  run_cancelReason :: "string option"

record persisted_session =
  ps_session :: session_state
  ps_workflow :: workflow_state
  ps_envelopes :: "execution_envelope list"

record world =
  t_sessions :: "session_state list"
  t_workflow :: "workflow_row list"
  t_envelopes :: "execution_envelope list"
  t_workItems :: "work_item list"
  t_events :: "runtime_event list"
  t_summaries :: "session_summary list"
  t_checkpoints :: "session_checkpoint list"
  t_reverts :: "session_revert list"
  runs :: "(string, run_entry) js_map"
  f_sessions :: "(string, persisted_session) js_map"
  f_mirror :: "json option"
  seq :: nat

type_synonym 'a dh = "world \<Rightarrow> (dh_error + 'a) \<times> world"

definition return_dh :: "'a \<Rightarrow> 'a dh" where
  "return_dh x w = (Inr x, w)"

definition throw_dh :: "dh_error \<Rightarrow> 'a dh" where
  "throw_dh e w = (Inl e, w)"

definition bind_dh :: "'a dh \<Rightarrow> ('a \<Rightarrow> 'b dh) \<Rightarrow> 'b dh" where
  "bind_dh m f w = (case m w of (Inl e, w') \<Rightarrow> (Inl e, w') | (Inr x, w') \<Rightarrow> f x w')"

definition read_dh :: "(world \<Rightarrow> 'a) \<Rightarrow> 'a dh" where
  "read_dh f w = (Inr (f w), w)"

definition write_dh :: "(world \<Rightarrow> world) \<Rightarrow> unit dh" where
  "write_dh f w = (Inr (), f w)"

text \<open>A loop over an array that runs an effect per element.\<close>

fun each_dh :: "('a \<Rightarrow> unit dh) \<Rightarrow> 'a list \<Rightarrow> unit dh" where
  "each_dh f [] = return_dh ()"
| "each_dh f (x # xs) = bind_dh (f x) (\<lambda>_. each_dh f xs)"

definition newId :: "entropy \<Rightarrow> string \<Rightarrow> nat \<Rightarrow> string" where
  "newId E prefix n = prefix @ ''-'' @ rnd E n"

definition createId :: "entropy \<Rightarrow> string \<Rightarrow> string dh" where
  "createId E prefix w = (Inr (newId E prefix (seq w)), w\<lparr>seq := seq w + 1\<rparr>)"

definition nowIso :: "entropy \<Rightarrow> timestamp dh" where
  "nowIso E w = (Inr (clk E (seq w)), w\<lparr>seq := seq w + 1\<rparr>)"

section \<open>Rows\<close>

definition row_upsert :: "('r \<Rightarrow> string) \<Rightarrow> 'r \<Rightarrow> 'r list \<Rightarrow> 'r list" where
  "row_upsert key r t =
     (if key r \<in> key ` set t then map (\<lambda>x. if key x = key r then r else x) t else t @ [r])"

definition row_find :: "('r \<Rightarrow> string) \<Rightarrow> string \<Rightarrow> 'r list \<Rightarrow> 'r option" where
  "row_find key k t = List.find (\<lambda>r. key r = k) t"

text \<open>\<^verbatim>\<open>WHERE session_id = ? ORDER BY stamp DESC, rowid DESC\<close>.\<close>

definition row_list :: "('r \<Rightarrow> string) \<Rightarrow> ('r \<Rightarrow> timestamp) \<Rightarrow> string \<Rightarrow> 'r list \<Rightarrow> 'r list" where
  "row_list owner stamp s t = rev (sort_key stamp (filter (\<lambda>r. owner r = s) t))"

text \<open>\<^verbatim>\<open>DELETE ... WHERE session_id = ?\<close> and its number of changes.\<close>

definition row_delete :: "('r \<Rightarrow> string) \<Rightarrow> string \<Rightarrow> 'r list \<Rightarrow> 'r list \<times> nat" where
  "row_delete owner s t = (filter (\<lambda>r. owner r \<noteq> s) t, length (filter (\<lambda>r. owner r = s) t))"

section \<open>Repositories\<close>

definition sessionExists :: "string \<Rightarrow> world \<Rightarrow> bool" where
  "sessionExists sid w = (sid \<in> ss_sessionId ` set (t_sessions w))"

definition sessions_save :: "session_state \<Rightarrow> unit dh" where
  "sessions_save s = write_dh (\<lambda>w. w\<lparr>t_sessions := row_upsert ss_sessionId s (t_sessions w)\<rparr>)"

definition sessions_findById :: "string \<Rightarrow> world \<Rightarrow> session_state option" where
  "sessions_findById sid w = row_find ss_sessionId sid (t_sessions w)"

text \<open>\<^verbatim>\<open>ORDER BY updated_at DESC, created_at DESC\<close>; rows that tie come in \<^verbatim>\<open>rowid\<close> order.\<close>

definition sessions_list :: "nat option \<Rightarrow> world \<Rightarrow> session_state list" where
  "sessions_list limit w =
     take (nullish limit 20)
       (rev (sort_key (\<lambda>s. [ss_updatedAt s, ss_createdAt s]) (rev (t_sessions w))))"

definition sessions_findLatest :: "world \<Rightarrow> session_state option" where
  "sessions_findLatest w = (case sessions_list (Some 1) w of [] \<Rightarrow> None | s # _ \<Rightarrow> Some s)"

definition sessions_findLatestByLane :: "workflow_lane \<Rightarrow> world \<Rightarrow> session_state option" where
  "sessions_findLatestByLane lane w =
     (case rev (sort_key (\<lambda>s. [ss_updatedAt s, ss_createdAt s])
         (rev (filter (\<lambda>s. ss_lane s = lane) (t_sessions w)))) of
        [] \<Rightarrow> None
      | s # _ \<Rightarrow> sessions_findById (ss_sessionId s) w)"

text \<open>The tables with a foreign key to \<^verbatim>\<open>sessions\<close>.\<close>

definition sessionReferenced :: "string \<Rightarrow> world \<Rightarrow> bool" where
  "sessionReferenced sid w \<longleftrightarrow>
     sid \<in> wr_sessionId ` set (t_workflow w) \<or> sid \<in> ee_sessionId ` set (t_envelopes w)
     \<or> sid \<in> wi_sessionId ` set (t_workItems w) \<or> sid \<in> re_sessionId ` set (t_events w)
     \<or> sid \<in> sm_sessionId ` set (t_summaries w) \<or> sid \<in> cp_sessionId ` set (t_checkpoints w)
     \<or> sid \<in> rv_sessionId ` set (t_reverts w)"

definition sessions_deleteById :: "string \<Rightarrow> nat dh" where
  "sessions_deleteById sid w =
     (if sessionExists sid w \<and> sessionReferenced sid w then (Inl (ErrForeignKey ''sessions''), w)
      else let (t, n) = row_delete ss_sessionId sid (t_sessions w) in (Inr n, w\<lparr>t_sessions := t\<rparr>))"

text \<open>
  \<^verbatim>\<open>WorkflowStateRepo.save\<close> binds the members of its argument, which a revert takes unchecked from a
  checkpoint: the argument is a JSON value. A string binds as itself, a number is stored as text, null
  violates \<^verbatim>\<open>NOT NULL\<close>, an absent member, a boolean, an array or an object cannot be bound.
\<close>

definition obj_field :: "string \<Rightarrow> json \<Rightarrow> json option" where
  "obj_field k v = (case v of JObj fs \<Rightarrow> map_of fs k | _ \<Rightarrow> None)"

definition bind_text :: "string \<Rightarrow> json option \<Rightarrow> dh_error + string" where
  "bind_text col v =
     (case v of
        Some (JStr s) \<Rightarrow> Inr s
      | Some (JNum i) \<Rightarrow> Inr (show_int i)
      | Some JNull \<Rightarrow> Inl (ErrNotNull col)
      | _ \<Rightarrow> Inl (ErrBind col))"

definition bind_nullable :: "string \<Rightarrow> json option \<Rightarrow> dh_error + string option" where
  "bind_nullable col v =
     (case v of
        None \<Rightarrow> Inr None
      | Some JNull \<Rightarrow> Inr None
      | Some x \<Rightarrow> map_sum id Some (bind_text col (Some x)))"

definition bind_json :: "string \<Rightarrow> json option \<Rightarrow> dh_error + string" where
  "bind_json col v = (case v of None \<Rightarrow> Inl (ErrBind col) | Some x \<Rightarrow> Inr (JSON_stringify x))"

definition bind_sum :: "'e + 'a \<Rightarrow> ('a \<Rightarrow> 'e + 'b) \<Rightarrow> 'e + 'b" where
  "bind_sum m f = (case m of Inl e \<Rightarrow> Inl e | Inr x \<Rightarrow> f x)"

definition workflow_row_of :: "string \<Rightarrow> json \<Rightarrow> dh_error + workflow_row" where
  "workflow_row_of sid j =
     bind_sum (bind_text ''lane'' (obj_field ''lane'' j)) (\<lambda>l.
     bind_sum (bind_text ''stage'' (obj_field ''stage'' j)) (\<lambda>st.
     bind_sum (bind_text ''stage_status'' (obj_field ''stageStatus'' j)) (\<lambda>ss.
     bind_sum (bind_nullable ''previous_stage'' (obj_field ''previousStage'' j)) (\<lambda>p.
     bind_sum (bind_nullable ''next_stage'' (obj_field ''nextStage'' j)) (\<lambda>n.
     bind_sum (bind_text ''gate_status'' (obj_field ''gateStatus'' j)) (\<lambda>g.
     bind_sum (bind_json ''blockers_json'' (obj_field ''blockers'' j)) (\<lambda>b.
       Inr \<lparr>wr_sessionId = sid, wr_lane = l, wr_stage = st, wr_stageStatus = ss, wr_previousStage = p,
            wr_nextStage = n, wr_gateStatus = g, wr_blockersJson = b\<rparr>)))))))"

definition workflow_save :: "string \<Rightarrow> json \<Rightarrow> unit dh" where
  "workflow_save sid j w =
     (case workflow_row_of sid j of
        Inl e \<Rightarrow> (Inl e, w)
      | Inr r \<Rightarrow>
          if \<not> sessionExists sid w then (Inl (ErrForeignKey ''workflow_state''), w)
          else (Inr (), w\<lparr>t_workflow := row_upsert wr_sessionId r (t_workflow w)\<rparr>))"

text \<open>The object a typed workflow state is; \<^verbatim>\<open>undefined\<close> members are absent.\<close>

definition opt_field :: "string \<Rightarrow> json option \<Rightarrow> (string \<times> json) list" where
  "opt_field k v = (case v of None \<Rightarrow> [] | Some x \<Rightarrow> [(k, x)])"

definition workflow_json :: "workflow_state \<Rightarrow> json" where
  "workflow_json s =
     JObj ([(''lane'', JStr (lane_name (wf_lane s))), (''stage'', JStr (stage_name (wf_stage s))),
            (''stageStatus'', JStr (stage_status_name (wf_stageStatus s)))]
       @ opt_field ''previousStage'' (map_option (JStr \<circ> stage_name) (wf_previousStage s))
       @ opt_field ''nextStage'' (map_option (JStr \<circ> stage_name) (wf_nextStage s))
       @ [(''gateStatus'', JStr (gate_status_name (wf_gateStatus s))),
          (''blockers'', JArr (map JStr (wf_blockers s)))])"

definition envelopes_save :: "execution_envelope \<Rightarrow> unit dh" where
  "envelopes_save e w =
     (if \<not> sessionExists (ee_sessionId e) w then (Inl (ErrForeignKey ''execution_envelopes''), w)
      else (Inr (), w\<lparr>t_envelopes := row_upsert ee_id e (t_envelopes w)\<rparr>))"

definition workItems_save :: "work_item \<Rightarrow> unit dh" where
  "workItems_save i w =
     (if \<not> sessionExists (wi_sessionId i) w then (Inl (ErrForeignKey ''work_items''), w)
      else (Inr (), w\<lparr>t_workItems := row_upsert wi_id i (t_workItems w)\<rparr>))"

definition workItems_listBySession :: "string \<Rightarrow> world \<Rightarrow> work_item list" where
  "workItems_listBySession sid w = sort_key wi_title (filter (\<lambda>i. wi_sessionId i = sid) (t_workItems w))"

subsection \<open>Runtime events\<close>

definition events_insert :: "runtime_event \<Rightarrow> runtime_event dh" where
  "events_insert r w =
     (if re_id r \<in> re_id ` set (t_events w) then (Inl (ErrUnique ''session_runtime_events''), w)
      else if \<not> sessionExists (re_sessionId r) w then (Inl (ErrForeignKey ''session_runtime_events''), w)
      else (Inr r, w\<lparr>t_events := t_events w @ [r]\<rparr>))"

text \<open>\<^verbatim>\<open>save\<close>: the object literal draws the id first, then the time unless one is given.\<close>

definition events_save ::
  "entropy \<Rightarrow> string \<Rightarrow> string \<Rightarrow> json \<Rightarrow> timestamp option \<Rightarrow> runtime_event dh" where
  "events_save E sid eventType eventJson createdAt =
     bind_dh (createId E ''session-runtime-event'') (\<lambda>i.
     bind_dh (case createdAt of Some t \<Rightarrow> return_dh t | None \<Rightarrow> nowIso E) (\<lambda>t.
       events_insert \<lparr>re_id = i, re_sessionId = sid, re_eventType = eventType, re_eventJson = eventJson,
         re_createdAt = t\<rparr>))"

definition events_saveRecord :: "runtime_event \<Rightarrow> unit dh" where
  "events_saveRecord r w =
     (if \<not> sessionExists (re_sessionId r) w then (Inl (ErrForeignKey ''session_runtime_events''), w)
      else (Inr (), w\<lparr>t_events := row_upsert re_id r (t_events w)\<rparr>))"

definition events_listBySession :: "string \<Rightarrow> world \<Rightarrow> runtime_event list" where
  "events_listBySession sid w = row_list re_sessionId re_createdAt sid (t_events w)"

definition events_listByEventType :: "string \<Rightarrow> world \<Rightarrow> runtime_event list" where
  "events_listByEventType ty w = row_list re_eventType re_createdAt ty (t_events w)"

definition events_deleteBySession :: "string \<Rightarrow> nat dh" where
  "events_deleteBySession sid w =
     (let (t, n) = row_delete re_sessionId sid (t_events w) in (Inr n, w\<lparr>t_events := t\<rparr>))"

subsection \<open>Summaries\<close>

text \<open>\<^verbatim>\<open>save\<close> with all columns given upserts; the callers below draw id and time first.\<close>

definition summaries_saveRecord :: "session_summary \<Rightarrow> unit dh" where
  "summaries_saveRecord r w =
     (if \<not> sessionExists (sm_sessionId r) w then (Inl (ErrForeignKey ''session_summaries''), w)
      else (Inr (), w\<lparr>t_summaries := row_upsert sm_id r (t_summaries w)\<rparr>))"

definition summaries_save :: "entropy \<Rightarrow> (string \<Rightarrow> timestamp \<Rightarrow> session_summary) \<Rightarrow> session_summary dh" where
  "summaries_save E mk =
     bind_dh (createId E ''session-summary'') (\<lambda>i.
     bind_dh (nowIso E) (\<lambda>t.
     bind_dh (summaries_saveRecord (mk i t)) (\<lambda>_. return_dh (mk i t))))"

definition summaries_listBySession :: "string \<Rightarrow> world \<Rightarrow> session_summary list" where
  "summaries_listBySession sid w = row_list sm_sessionId sm_updatedAt sid (t_summaries w)"

definition summaries_findLatestBySession :: "string \<Rightarrow> world \<Rightarrow> session_summary option" where
  "summaries_findLatestBySession sid w =
     (case summaries_listBySession sid w of [] \<Rightarrow> None | r # _ \<Rightarrow> Some r)"

definition summaries_deleteBySession :: "string \<Rightarrow> nat dh" where
  "summaries_deleteBySession sid w =
     (let (t, n) = row_delete sm_sessionId sid (t_summaries w) in (Inr n, w\<lparr>t_summaries := t\<rparr>))"

subsection \<open>Checkpoints\<close>

definition checkpoints_save ::
  "entropy \<Rightarrow> (string \<Rightarrow> timestamp \<Rightarrow> session_checkpoint) \<Rightarrow> session_checkpoint dh" where
  "checkpoints_save E mk =
     bind_dh (createId E ''session-checkpoint'') (\<lambda>i.
     bind_dh (nowIso E) (\<lambda>t w.
       let r = mk i t in
       if cp_id r \<in> cp_id ` set (t_checkpoints w) then (Inl (ErrUnique ''session_checkpoints''), w)
       else if \<not> sessionExists (cp_sessionId r) w then (Inl (ErrForeignKey ''session_checkpoints''), w)
       else (Inr r, w\<lparr>t_checkpoints := t_checkpoints w @ [r]\<rparr>)))"

definition checkpoints_saveRecord :: "session_checkpoint \<Rightarrow> unit dh" where
  "checkpoints_saveRecord r w =
     (if \<not> sessionExists (cp_sessionId r) w then (Inl (ErrForeignKey ''session_checkpoints''), w)
      else (Inr (), w\<lparr>t_checkpoints := row_upsert cp_id r (t_checkpoints w)\<rparr>))"

definition checkpoints_findById :: "string \<Rightarrow> world \<Rightarrow> session_checkpoint option" where
  "checkpoints_findById i w = row_find cp_id i (t_checkpoints w)"

definition checkpoints_listBySession :: "string \<Rightarrow> world \<Rightarrow> session_checkpoint list" where
  "checkpoints_listBySession sid w = row_list cp_sessionId cp_createdAt sid (t_checkpoints w)"

definition checkpoints_deleteBySession :: "string \<Rightarrow> nat dh" where
  "checkpoints_deleteBySession sid w =
     (let (t, n) = row_delete cp_sessionId sid (t_checkpoints w) in (Inr n, w\<lparr>t_checkpoints := t\<rparr>))"

subsection \<open>Reverts\<close>

definition reverts_save ::
  "entropy \<Rightarrow> (string \<Rightarrow> timestamp \<Rightarrow> session_revert) \<Rightarrow> session_revert dh" where
  "reverts_save E mk =
     bind_dh (createId E ''session-revert'') (\<lambda>i.
     bind_dh (nowIso E) (\<lambda>t w.
       let r = mk i t in
       if rv_id r \<in> rv_id ` set (t_reverts w) then (Inl (ErrUnique ''session_reverts''), w)
       else if \<not> sessionExists (rv_sessionId r) w then (Inl (ErrForeignKey ''session_reverts''), w)
       else (Inr r, w\<lparr>t_reverts := t_reverts w @ [r]\<rparr>)))"

definition reverts_saveRecord :: "session_revert \<Rightarrow> unit dh" where
  "reverts_saveRecord r w =
     (if \<not> sessionExists (rv_sessionId r) w then (Inl (ErrForeignKey ''session_reverts''), w)
      else (Inr (), w\<lparr>t_reverts := row_upsert rv_id r (t_reverts w)\<rparr>))"

definition reverts_listBySession :: "string \<Rightarrow> world \<Rightarrow> session_revert list" where
  "reverts_listBySession sid w = row_list rv_sessionId rv_createdAt sid (t_reverts w)"

definition reverts_findLatestBySession :: "string \<Rightarrow> world \<Rightarrow> session_revert option" where
  "reverts_findLatestBySession sid w =
     (case reverts_listBySession sid w of [] \<Rightarrow> None | r # _ \<Rightarrow> Some r)"

definition reverts_deleteBySession :: "string \<Rightarrow> nat dh" where
  "reverts_deleteBySession sid w =
     (let (t, n) = row_delete rv_sessionId sid (t_reverts w) in (Inr n, w\<lparr>t_reverts := t\<rparr>))"

section \<open>Laws of the rows\<close>

lemma row_upsert_new: "key r \<notin> key ` set t \<Longrightarrow> row_upsert key r t = t @ [r]"
  by (simp add: row_upsert_def)

lemma row_upsert_keys [simp]: "key ` set (row_upsert key r t) = insert (key r) (key ` set t)"
proof (cases "key r \<in> key ` set t")
  case True
  then have "key ` set (row_upsert key r t) = key ` set t"
    by (auto simp: row_upsert_def image_iff)
  with True show ?thesis by auto
qed (simp add: row_upsert_def)

lemma row_upsert_map: "key r \<in> key ` set t \<Longrightarrow> map key (row_upsert key r t) = map key t"
  by (auto simp: row_upsert_def)

lemma distinct_row_upsert: "distinct (map key t) \<Longrightarrow> distinct (map key (row_upsert key r t))"
  by (cases "key r \<in> key ` set t") (simp_all add: row_upsert_map row_upsert_new)

lemma set_row_upsert: "set (row_upsert key r t) \<subseteq> insert r (set t)"
  by (auto simp: row_upsert_def)

lemma row_find_upsert [store_laws]:
  "row_find key k (row_upsert key r t) = (if k = key r then Some r else row_find key k t)"
proof (cases "key r \<in> key ` set t")
  case True
  have "List.find (\<lambda>x. key x = k) (map (\<lambda>x. if key x = key r then r else x) t)
      = (if k = key r then Some r else List.find (\<lambda>x. key x = k) t)"
    if "k = key r \<longrightarrow> key r \<in> key ` set t"
    using that by (induction t) auto
  with True show ?thesis by (simp add: row_find_def row_upsert_def)
next
  case False
  have "List.find (\<lambda>x. key x = key r) t = None" using False by (auto simp: find_None_iff image_iff)
  then show ?thesis using False
    by (auto simp: row_find_def row_upsert_new find_append split: option.split)
qed

lemma row_find_Some: "row_find key k t = Some r \<Longrightarrow> r \<in> set t \<and> key r = k"
  by (auto simp: row_find_def find_Some_iff)

lemma row_find_mem: "distinct (map key t) \<Longrightarrow> r \<in> set t \<Longrightarrow> row_find key (key r) t = Some r"
  by (induction t) (auto simp: row_find_def)

lemma set_row_list: "set (row_list owner stamp s t) = {r \<in> set t. owner r = s}"
  by (auto simp: row_list_def)

lemma mset_row_list: "mset (row_list owner stamp s t) = mset (filter (\<lambda>r. owner r = s) t)"
  by (simp add: row_list_def)

lemma row_list_newest_first: "sorted_wrt (\<lambda>a b. stamp b \<le> stamp a) (row_list owner stamp s t)"
  using sorted_sort_key [of stamp "filter (\<lambda>r. owner r = s) t"]
  by (simp add: row_list_def sorted_wrt_rev sorted_wrt_map)

section \<open>The contract of a table of session children\<close>

text \<open>
  What fork, import, export and delete rely on in the four child tables: what a listing shows after a
  save and after a delete. The rows of the store provide it, each table once.
\<close>

locale child_repo =
  fixes key owner stamp :: "'r \<Rightarrow> string"
    and saveRecord :: "'r \<Rightarrow> 'r list \<Rightarrow> 'r list"
    and listBy :: "string \<Rightarrow> 'r list \<Rightarrow> 'r list"
    and deleteBy :: "string \<Rightarrow> 'r list \<Rightarrow> 'r list \<times> nat"
  assumes listBy_new: "key r \<notin> key ` set t \<Longrightarrow>
      mset (listBy (owner r) (saveRecord r t)) = add_mset r (mset (listBy (owner r) t))"
    and listBy_other: "key r \<notin> key ` set t \<Longrightarrow> s \<noteq> owner r \<Longrightarrow> listBy s (saveRecord r t) = listBy s t"
    and saveRecord_keys: "key ` set (saveRecord r t) = insert (key r) (key ` set t)"
    and newest_first: "sorted_wrt (\<lambda>a b. stamp b \<le> stamp a) (listBy s t)"
    and delete_own: "listBy s (fst (deleteBy s t)) = []"
    and delete_other: "s' \<noteq> s \<Longrightarrow> listBy s' (fst (deleteBy s t)) = listBy s' t"
    and delete_count: "snd (deleteBy s t) = length (listBy s t)"
begin

lemma copy_all:
  assumes "distinct (map key rs)" and "key ` set rs \<inter> key ` set t = {}" and "\<forall>r \<in> set rs. owner r = s"
  shows "mset (listBy s (fold saveRecord rs t)) = mset rs + mset (listBy s t)"
    and "s' \<noteq> s \<Longrightarrow> listBy s' (fold saveRecord rs t) = listBy s' t"
proof -
  have "mset (listBy s (fold saveRecord rs t)) = mset rs + mset (listBy s t)
      \<and> (s' \<noteq> s \<longrightarrow> listBy s' (fold saveRecord rs t) = listBy s' t)"
    using assms
  proof (induction rs arbitrary: t)
    case (Cons r rs)
    have new: "key r \<notin> key ` set t" and s: "owner r = s" using Cons.prems by auto
    have "key ` set rs \<inter> key ` set (saveRecord r t) = {}"
      using Cons.prems by (auto simp: saveRecord_keys)
    with Cons have "mset (listBy s (fold saveRecord rs (saveRecord r t)))
        = mset rs + mset (listBy s (saveRecord r t))
      \<and> (s' \<noteq> s \<longrightarrow> listBy s' (fold saveRecord rs (saveRecord r t)) = listBy s' (saveRecord r t))"
      by simp
    then show ?case using listBy_new [OF new] listBy_other [OF new, of s'] s by simp
  qed simp
  then show "mset (listBy s (fold saveRecord rs t)) = mset rs + mset (listBy s t)"
    and "s' \<noteq> s \<Longrightarrow> listBy s' (fold saveRecord rs t) = listBy s' t"
    by simp_all
qed

text \<open>Two newest-first listings of the same rows agree when no two rows have the same time.\<close>

lemma listing_unique:
  assumes "mset xs = mset (listBy s t)" and "sorted_wrt (\<lambda>a b. stamp b < stamp a) xs"
  shows "listBy s t = xs"
proof -
  have d: "distinct (map stamp xs)"
    using assms(2) by (induction xs) auto
  then have inj: "inj_on stamp (set xs)" by (simp add: distinct_map)
  have s: "set (listBy s t) = set xs" using assms(1) by (metis set_mset_mset)
  have "sorted (map stamp (rev xs))"
    using sorted_wrt_mono_rel [OF _ assms(2), of "\<lambda>a b. stamp b \<le> stamp a"]
    by (simp add: rev_map [symmetric] sorted_wrt_rev sorted_wrt_map)
  moreover have "sorted (map stamp (rev (listBy s t)))"
    using newest_first [of s t] by (simp add: rev_map [symmetric] sorted_wrt_rev sorted_wrt_map)
  moreover have "distinct (map stamp (rev (listBy s t)))"
    using d assms(1) by (metis distinct_rev mset_eq_imp_distinct_iff mset_map rev_map)
  moreover have "distinct (map stamp (rev xs))" using d by (simp add: rev_map [symmetric])
  ultimately have "rev xs = rev (listBy s t)"
    using inj s by (intro map_sorted_distinct_set_unique [of stamp]) simp_all
  then show ?thesis by simp
qed

end

lemma child_repo_rows:
  "child_repo key owner stamp (row_upsert key) (row_list owner stamp) (row_delete owner)"
proof
  show "sorted_wrt (\<lambda>a b. stamp b \<le> stamp a) (row_list owner stamp s t)" for s t
    by (rule row_list_newest_first)
qed (auto simp: row_upsert_new row_list_def row_delete_def filter_empty_conv conj_commute
    intro!: arg_cong [of _ _ "sort_key stamp"] filter_cong)

interpretation events_table: child_repo re_id re_sessionId re_createdAt "row_upsert re_id"
  "row_list re_sessionId re_createdAt" "row_delete re_sessionId"
  by (rule child_repo_rows)

interpretation summaries_table: child_repo sm_id sm_sessionId sm_updatedAt "row_upsert sm_id"
  "row_list sm_sessionId sm_updatedAt" "row_delete sm_sessionId"
  by (rule child_repo_rows)

interpretation checkpoints_table: child_repo cp_id cp_sessionId cp_createdAt "row_upsert cp_id"
  "row_list cp_sessionId cp_createdAt" "row_delete cp_sessionId"
  by (rule child_repo_rows)

interpretation reverts_table: child_repo rv_id rv_sessionId rv_createdAt "row_upsert rv_id"
  "row_list rv_sessionId rv_createdAt" "row_delete rv_sessionId"
  by (rule child_repo_rows)

section \<open>The store invariant\<close>

text \<open>Primary keys are unique and every child row belongs to a session that exists.\<close>

definition wf_world :: "world \<Rightarrow> bool" where
  "wf_world w \<longleftrightarrow>
     distinct (map ss_sessionId (t_sessions w)) \<and> distinct (map wr_sessionId (t_workflow w))
     \<and> distinct (map ee_id (t_envelopes w)) \<and> distinct (map wi_id (t_workItems w))
     \<and> distinct (map re_id (t_events w)) \<and> distinct (map sm_id (t_summaries w))
     \<and> distinct (map cp_id (t_checkpoints w)) \<and> distinct (map rv_id (t_reverts w))
     \<and> (\<forall>sid. sessionReferenced sid w \<longrightarrow> sessionExists sid w)"

definition preserves :: "(world \<Rightarrow> bool) \<Rightarrow> 'a dh \<Rightarrow> bool" where
  "preserves P m \<longleftrightarrow> (\<forall>w. P w \<longrightarrow> P (snd (m w)))"

lemma preservesI: "(\<And>w. P w \<Longrightarrow> P (snd (m w))) \<Longrightarrow> preserves P m"
  by (simp add: preserves_def)

lemma preservesD: "preserves P m \<Longrightarrow> P w \<Longrightarrow> P (snd (m w))"
  by (simp add: preserves_def)

lemma preserves_bind [preserve_laws]:
  "preserves P m \<Longrightarrow> (\<And>x. preserves P (f x)) \<Longrightarrow> preserves P (bind_dh m f)"
  unfolding preserves_def bind_dh_def by (auto split: prod.split sum.split)

lemma preserves_basic [preserve_laws]:
  "preserves P (return_dh x)" "preserves P (throw_dh e)" "preserves P (read_dh f)"
  by (simp_all add: preserves_def return_dh_def throw_dh_def read_dh_def)

lemma preserves_each [preserve_laws]: "(\<And>x. preserves P (f x)) \<Longrightarrow> preserves P (each_dh f xs)"
  by (induction xs) (auto intro!: preserve_laws)

lemma preserves_if [preserve_laws]:
  "preserves P a \<Longrightarrow> preserves P b \<Longrightarrow> preserves P (if c then a else b)"
  by simp

lemma preserves_case_option [preserve_laws]:
  "preserves P a \<Longrightarrow> (\<And>x. preserves P (f x)) \<Longrightarrow> preserves P (case v of None \<Rightarrow> a | Some x \<Rightarrow> f x)"
  by (cases v) simp_all

lemma wf_world_seq [simp]: "wf_world (w\<lparr>seq := n\<rparr>) = wf_world w"
  by (simp add: wf_world_def sessionReferenced_def sessionExists_def)

lemma wf_world_files [simp]:
  "wf_world (w\<lparr>runs := r\<rparr>) = wf_world w" "wf_world (w\<lparr>f_sessions := f\<rparr>) = wf_world w"
  "wf_world (w\<lparr>f_mirror := m\<rparr>) = wf_world w"
  by (simp_all add: wf_world_def sessionReferenced_def sessionExists_def)

lemma preserves_supply [preserve_laws]:
  "preserves wf_world (createId E p)" "preserves wf_world (nowIso E)"
  by (simp_all add: preserves_def createId_def nowIso_def)

lemmas wf_defs = wf_world_def sessionReferenced_def sessionExists_def

lemma sessions_save_wf [preserve_laws]: "preserves wf_world (sessions_save s)"
  by (auto simp: preserves_def sessions_save_def write_dh_def wf_defs distinct_row_upsert)

lemma upsert_owner: "x \<in> set (row_upsert key r t) \<Longrightarrow> x = r \<or> x \<in> set t"
  using set_row_upsert by fastforce

lemma workflow_row_owner: "workflow_row_of sid j = Inr r \<Longrightarrow> wr_sessionId r = sid"
  by (auto simp: workflow_row_of_def bind_sum_def split: sum.splits)

lemma workflow_save_wf [preserve_laws]: "preserves wf_world (workflow_save sid j)"
proof (rule preservesI)
  fix w assume w: "wf_world w"
  show "wf_world (snd (workflow_save sid j w))"
  proof (cases "workflow_row_of sid j")
    case (Inr r)
    then show ?thesis
      using w workflow_row_owner [OF Inr] by (auto simp: workflow_save_def wf_defs distinct_row_upsert dest!: upsert_owner)
  qed (simp add: workflow_save_def w)
qed

lemma saves_wf [preserve_laws]:
  "preserves wf_world (envelopes_save e)" "preserves wf_world (workItems_save i)"
  "preserves wf_world (events_saveRecord ev)" "preserves wf_world (summaries_saveRecord sm)"
  "preserves wf_world (checkpoints_saveRecord cp)" "preserves wf_world (reverts_saveRecord rv)"
  by (auto simp: preserves_def envelopes_save_def workItems_save_def events_saveRecord_def
      summaries_saveRecord_def checkpoints_saveRecord_def reverts_saveRecord_def wf_defs
      distinct_row_upsert dest!: upsert_owner)

lemma inserts_wf [preserve_laws]:
  "preserves wf_world (events_insert ev)"
  "preserves wf_world (checkpoints_save E mkc)" "preserves wf_world (reverts_save E mkr)"
  unfolding checkpoints_save_def reverts_save_def
  by (intro preserve_laws preservesI; auto simp: events_insert_def wf_defs Let_def)+

lemma events_save_wf [preserve_laws]: "preserves wf_world (events_save E sid ty j t)"
  unfolding events_save_def by (intro preserve_laws)

lemma summaries_save_wf [preserve_laws]: "preserves wf_world (summaries_save E mk)"
  unfolding summaries_save_def by (intro preserve_laws)

lemma referenced_filter:
  "sessionReferenced s (w\<lparr>t_events := filter P1 (t_events w)\<rparr>) \<Longrightarrow> sessionReferenced s w"
  "sessionReferenced s (w\<lparr>t_summaries := filter P2 (t_summaries w)\<rparr>) \<Longrightarrow> sessionReferenced s w"
  "sessionReferenced s (w\<lparr>t_checkpoints := filter P3 (t_checkpoints w)\<rparr>) \<Longrightarrow> sessionReferenced s w"
  "sessionReferenced s (w\<lparr>t_reverts := filter P4 (t_reverts w)\<rparr>) \<Longrightarrow> sessionReferenced s w"
proof -
  have sub: "f ` set (filter P xs) \<subseteq> f ` set xs" for f :: "'b \<Rightarrow> string" and P xs by auto
  show "sessionReferenced s (w\<lparr>t_events := filter P1 (t_events w)\<rparr>) \<Longrightarrow> sessionReferenced s w"
    using sub [of re_sessionId P1 "t_events w"] by (simp add: sessionReferenced_def subset_iff) metis
  show "sessionReferenced s (w\<lparr>t_summaries := filter P2 (t_summaries w)\<rparr>) \<Longrightarrow> sessionReferenced s w"
    using sub [of sm_sessionId P2 "t_summaries w"] by (simp add: sessionReferenced_def subset_iff) metis
  show "sessionReferenced s (w\<lparr>t_checkpoints := filter P3 (t_checkpoints w)\<rparr>) \<Longrightarrow> sessionReferenced s w"
    using sub [of cp_sessionId P3 "t_checkpoints w"] by (simp add: sessionReferenced_def subset_iff) metis
  show "sessionReferenced s (w\<lparr>t_reverts := filter P4 (t_reverts w)\<rparr>) \<Longrightarrow> sessionReferenced s w"
    using sub [of rv_sessionId P4 "t_reverts w"] by (simp add: sessionReferenced_def subset_iff) metis
qed

lemma exists_children [simp]:
  "sessionExists s (w\<lparr>t_events := a\<rparr>) = sessionExists s w"
  "sessionExists s (w\<lparr>t_summaries := b\<rparr>) = sessionExists s w"
  "sessionExists s (w\<lparr>t_checkpoints := c\<rparr>) = sessionExists s w"
  "sessionExists s (w\<lparr>t_reverts := d\<rparr>) = sessionExists s w"
  "sessionExists s (w\<lparr>t_workflow := e\<rparr>) = sessionExists s w"
  "sessionExists s (w\<lparr>t_envelopes := f\<rparr>) = sessionExists s w"
  "sessionExists s (w\<lparr>t_workItems := g\<rparr>) = sessionExists s w"
  "sessionExists s (w\<lparr>seq := n\<rparr>) = sessionExists s w"
  by (simp_all add: sessionExists_def)

lemma wf_filter_children:
  assumes "wf_world w"
  shows "wf_world (w\<lparr>t_events := filter P1 (t_events w)\<rparr>)"
    and "wf_world (w\<lparr>t_summaries := filter P2 (t_summaries w)\<rparr>)"
    and "wf_world (w\<lparr>t_checkpoints := filter P3 (t_checkpoints w)\<rparr>)"
    and "wf_world (w\<lparr>t_reverts := filter P4 (t_reverts w)\<rparr>)"
proof -
  note r = referenced_filter [where w = w]
  have e: "\<forall>s. sessionReferenced s w \<longrightarrow> sessionExists s w" using assms by (simp add: wf_world_def)
  show "wf_world (w\<lparr>t_events := filter P1 (t_events w)\<rparr>)"
    using assms e r(1) unfolding wf_world_def by (simp add: distinct_map_filter)
  show "wf_world (w\<lparr>t_summaries := filter P2 (t_summaries w)\<rparr>)"
    using assms e r(2) unfolding wf_world_def by (simp add: distinct_map_filter)
  show "wf_world (w\<lparr>t_checkpoints := filter P3 (t_checkpoints w)\<rparr>)"
    using assms e r(3) unfolding wf_world_def by (simp add: distinct_map_filter)
  show "wf_world (w\<lparr>t_reverts := filter P4 (t_reverts w)\<rparr>)"
    using assms e r(4) unfolding wf_world_def by (simp add: distinct_map_filter)
qed

lemma deletes_wf [preserve_laws]:
  "preserves wf_world (events_deleteBySession sid)" "preserves wf_world (summaries_deleteBySession sid)"
  "preserves wf_world (checkpoints_deleteBySession sid)" "preserves wf_world (reverts_deleteBySession sid)"
  by (simp_all add: preserves_def events_deleteBySession_def summaries_deleteBySession_def
      checkpoints_deleteBySession_def reverts_deleteBySession_def row_delete_def
      wf_filter_children)

lemma sessions_delete_wf [preserve_laws]: "preserves wf_world (sessions_deleteById sid)"
proof (rule preservesI)
  fix w assume w: "wf_world w"
  show "wf_world (snd (sessions_deleteById sid w))"
  proof (cases "sessionReferenced sid w")
    case True
    then show ?thesis using w by (simp add: sessions_deleteById_def wf_world_def)
  next
    case False
    let ?w = "w\<lparr>t_sessions := filter (\<lambda>r. ss_sessionId r \<noteq> sid) (t_sessions w)\<rparr>"
    have r: "sessionReferenced s ?w = sessionReferenced s w" for s
      by (simp add: sessionReferenced_def)
    have e: "s \<noteq> sid \<Longrightarrow> sessionExists s ?w = sessionExists s w" for s
      by (auto simp: sessionExists_def)
    have "\<forall>s. sessionReferenced s ?w \<longrightarrow> sessionExists s ?w"
      using w False e by (metis r wf_world_def)
    then have "wf_world ?w"
      using w unfolding wf_world_def by (simp add: distinct_map_filter)
    then show ?thesis using False by (simp add: sessions_deleteById_def row_delete_def)
  qed
qed

end
