(* ===== verification/SessionOps.thy ===== *)
theory SessionOps
  imports Store
begin

text \<open>
  The session operations of \<^verbatim>\<open>packages/runtime/src/session\<close> and the stage runner, on the store: the run
  registry and its guard (\<^verbatim>\<open>session-run-state.ts\<close>), \<^verbatim>\<open>StageRunner.advance\<close>, revert and undo
  (\<^verbatim>\<open>session-revert.ts\<close>), fork, delete, import, export, queries and the event stream. Each definition
  follows its function statement by statement; a thrown error stops it and keeps what was written.
\<close>

abbreviation quoted :: "string \<Rightarrow> string" where
  "quoted s \<equiv> [CHR 0x27] @ s @ [CHR 0x27]"

section \<open>The run registry\<close>

definition isBusy :: "string \<Rightarrow> world \<Rightarrow> bool" where
  "isBusy sid w = (map_of (runs w) sid \<noteq> None)"

definition assertNotBusy :: "string \<Rightarrow> unit dh" where
  "assertNotBusy sid w = (if isBusy sid w then (Inl (ErrBusy sid), w) else (Inr (), w))"

definition markBusy :: "entropy \<Rightarrow> string \<Rightarrow> json option \<Rightarrow> run_entry dh" where
  "markBusy E sid metadata =
     bind_dh (assertNotBusy sid) (\<lambda>_.
     bind_dh (createId E ''session-run'') (\<lambda>i.
     bind_dh (nowIso E) (\<lambda>t.
       let entry = \<lparr>run_runId = i, run_sessionId = sid, run_startedAt = t, run_metadata = metadata,
             run_cancelRequestedAt = None, run_cancelReason = None\<rparr>
       in bind_dh (write_dh (\<lambda>w. w\<lparr>runs := AList.update sid entry (runs w)\<rparr>)) (\<lambda>_. return_dh entry))))"

definition markIdle :: "string \<Rightarrow> unit dh" where
  "markIdle sid = write_dh (\<lambda>w. w\<lparr>runs := AList.delete sid (runs w)\<rparr>)"

definition cancel :: "entropy \<Rightarrow> string \<Rightarrow> string option \<Rightarrow> bool dh" where
  "cancel E sid reason w =
     (case map_of (runs w) sid of
        None \<Rightarrow> (Inr False, w)
      | Some cur \<Rightarrow>
          bind_dh (nowIso E) (\<lambda>t.
          bind_dh (write_dh (\<lambda>w. w\<lparr>runs := AList.update sid
              (cur\<lparr>run_cancelRequestedAt := Some t, run_cancelReason := reason\<rparr>) (runs w)\<rparr>)) (\<lambda>_.
            return_dh True)) w)"

definition isCancelRequested :: "string \<Rightarrow> world \<Rightarrow> bool" where
  "isCancelRequested sid w =
     (case map_of (runs w) sid of
        None \<Rightarrow> False
      | Some r \<Rightarrow> (case run_cancelRequestedAt r of None \<Rightarrow> False | Some t \<Rightarrow> t \<noteq> []))"

definition getRunEntry :: "string \<Rightarrow> world \<Rightarrow> run_entry option" where
  "getRunEntry sid w = map_of (runs w) sid"

text \<open>
  \<open>fn\<close> runs between \<open>onBusy\<close>, which is outside the \<^verbatim>\<open>try\<close>, and the \<^verbatim>\<open>finally\<close> block. The entry that
  \<open>onIdle\<close> sees is the object that \<open>markBusy\<close> made, with what \<open>cancel\<close> wrote into it; the run id tells it
  from an entry that \<open>fn\<close> may have put in its place.
\<close>

definition withSessionRunGuard ::
  "entropy \<Rightarrow> string \<Rightarrow> json option \<Rightarrow> (run_entry \<Rightarrow> unit dh) \<Rightarrow> (run_entry \<Rightarrow> unit dh)
   \<Rightarrow> (string \<Rightarrow> 'a dh) \<Rightarrow> 'a dh" where
  "withSessionRunGuard E sid metadata onBusy onIdle fn =
     bind_dh (markBusy E sid metadata) (\<lambda>entry.
     bind_dh (onBusy entry) (\<lambda>_ w.
       let (r, w1) = fn (run_runId entry) w;
           final = (case map_of (runs w1) sid of
             Some e \<Rightarrow> if run_runId e = run_runId entry then e else entry | None \<Rightarrow> entry);
           (i, w2) = bind_dh (markIdle sid) (\<lambda>_. onIdle final) w1
       in case i of Inl e \<Rightarrow> (Inl e, w2) | Inr _ \<Rightarrow> (r, w2)))"

section \<open>Advancing a stage\<close>

definition opt_text :: "string \<Rightarrow> string option \<Rightarrow> (string \<times> json) list" where
  "opt_text k v = opt_field k (map_option JStr v)"

definition summary_snapshot :: "session_summary \<Rightarrow> json" where
  "summary_snapshot s =
     JObj ([(''filesChanged'', JNum (sm_filesChanged s)), (''additions'', JNum (sm_additions s)),
            (''deletions'', JNum (sm_deletions s))]
       @ opt_text ''lastDiffAt'' (sm_lastDiffAt s)
       @ opt_text ''latestStage'' (sm_latestStage s)
       @ opt_text ''latestCheckpointId'' (sm_latestCheckpointId s)
       @ opt_text ''continuationSummary'' (sm_continuationSummary s)
       @ opt_text ''continuationCreatedAt'' (sm_continuationCreatedAt s))"

fun checkpoint_type_name :: "checkpoint_type \<Rightarrow> string" where
  "checkpoint_type_name CpSessionBootstrap = ''session_bootstrap''"
| "checkpoint_type_name CpPostWorkflow = ''post_workflow''"
| "checkpoint_type_name CpPostStageAdvance = ''post_stage_advance''"
| "checkpoint_type_name CpPreRevert = ''pre_revert''"

definition sessionStore_write :: "persisted_session \<Rightarrow> unit dh" where
  "sessionStore_write r =
     write_dh (\<lambda>w. w\<lparr>f_sessions := AList.update (ss_sessionId (ps_session r)) r (f_sessions w)\<rparr>)"

fun semantic_mode_name :: "semantic_mode \<Rightarrow> string" where
  "semantic_mode_name SemAlways = ''always''"
| "semantic_mode_name SemAuto = ''auto''"
| "semantic_mode_name SemOff = ''off''"

fun role_name :: "agent_role \<Rightarrow> string" where
  "role_name RoleQuick = ''quick''"
| "role_name RoleCoordinator = ''coordinator''"
| "role_name RoleAnalyst = ''analyst''"
| "role_name RoleArchitect = ''architect''"
| "role_name RoleImplementer = ''implementer''"
| "role_name RoleReviewer = ''reviewer''"
| "role_name RoleTester = ''tester''"

definition mirror_json :: "session_state \<Rightarrow> workflow_state \<Rightarrow> execution_envelope \<Rightarrow> json" where
  "mirror_json session workflow env =
     JObj [(''sessionId'', JStr (ss_sessionId session)), (''lane'', JStr (lane_name (ss_lane session))),
       (''laneLocked'', JBool True), (''currentStage'', JStr (stage_name (wf_stage workflow))),
       (''stageStatus'', JStr (stage_status_name (wf_stageStatus workflow))),
       (''semanticMode'', JStr (semantic_mode_name (ss_semanticMode session))),
       (''toolEnforcementLevel'', JStr ''very-hard''),
       (''activeWorkItemIds'', JArr (map JStr (ss_activeWorkItemIds session))),
       (''latestEnvelope'', JObj [(''id'', JStr (ee_id env)), (''agentId'', JStr (ee_agentId env)),
          (''role'', JStr (role_name (ee_role env))), (''stage'', JStr (ee_stage env)),
          (''resolvedModel'', JObj [(''providerId'', JStr (rm_providerId (ee_resolvedModel env))),
             (''modelId'', JStr (rm_modelId (ee_resolvedModel env))),
             (''variantId'', JStr (rm_variantId (ee_resolvedModel env)))])]),
       (''updatedAt'', JStr (ss_updatedAt session))]"

definition writeWorkflowCompatibilityMirror ::
  "session_state \<Rightarrow> workflow_state \<Rightarrow> execution_envelope \<Rightarrow> unit dh" where
  "writeWorkflowCompatibilityMirror session workflow env =
     write_dh (\<lambda>w. w\<lparr>f_mirror := Some (mirror_json session workflow env)\<rparr>)"

definition advancedWorkflow :: "workflow_stage list \<Rightarrow> workflow_stage \<Rightarrow> workflow_state \<Rightarrow> workflow_state" where
  "advancedWorkflow stages nextStage workflow = workflow\<lparr>
     wf_previousStage := Some (wf_stage workflow), wf_stage := nextStage,
     wf_stageStatus := (if js_endsWith (stage_name nextStage) ''complete'' then StPassed else StInProgress),
     wf_nextStage := getNextStage stages nextStage, wf_gateStatus := GatePending\<rparr>"

definition advance_checkpoint ::
  "session_state \<Rightarrow> workflow_state \<Rightarrow> session_summary option \<Rightarrow> string \<Rightarrow> timestamp \<Rightarrow> session_checkpoint" where
  "advance_checkpoint session workflow latest i t =
     \<lparr>cp_id = i, cp_sessionId = ss_sessionId session, cp_checkpointType = CpPostStageAdvance,
      cp_lane = ss_lane session, cp_stage = ss_currentStage session,
      cp_summarySnapshot = (case latest of None \<Rightarrow> JObj [] | Some s \<Rightarrow> summary_snapshot s),
      cp_workflowSnapshot = workflow_json workflow,
      cp_continuation = JObj (opt_text ''continuationSummary'' (Option.bind latest sm_continuationSummary)),
      cp_metadata = JObj [(''source'', JStr ''stage-runner.advance''),
        (''runtimeAuthority'', JStr ''typescript_worker'')],
      cp_createdAt = t\<rparr>"

definition advance_to ::
  "entropy \<Rightarrow> workflow_stage list \<Rightarrow> workflow_stage \<Rightarrow> session_state \<Rightarrow> workflow_state \<Rightarrow> execution_envelope
   \<Rightarrow> (session_state \<times> workflow_state) dh" where
  "advance_to E stages nextStage session workflow envelope =
     bind_dh (nowIso E) (\<lambda>now.
     let updatedSession = session\<lparr>ss_currentStage := nextStage, ss_updatedAt := now\<rparr>;
         updatedWorkflow = advancedWorkflow stages nextStage workflow in
     bind_dh (read_dh (summaries_findLatestBySession (ss_sessionId session))) (\<lambda>latest.
     bind_dh (checkpoints_save E (advance_checkpoint updatedSession updatedWorkflow latest)) (\<lambda>checkpoint.
     let saved = updatedSession\<lparr>ss_latestCheckpointId := Some (cp_id checkpoint)\<rparr>;
         rec = \<lparr>ps_session = saved, ps_workflow = updatedWorkflow, ps_envelopes = [envelope]\<rparr> in
     bind_dh (sessions_save saved) (\<lambda>_.
     bind_dh (workflow_save (ss_sessionId saved) (workflow_json updatedWorkflow)) (\<lambda>_.
     bind_dh (sessionStore_write rec) (\<lambda>_.
     bind_dh (writeWorkflowCompatibilityMirror saved updatedWorkflow envelope) (\<lambda>_.
     bind_dh (events_save E (ss_sessionId saved) ''checkpoint_created''
       (JObj [(''checkpointId'', JStr (cp_id checkpoint)),
              (''checkpointType'', JStr (checkpoint_type_name (cp_checkpointType checkpoint)))]) None) (\<lambda>_.
       return_dh (saved, updatedWorkflow)))))))))"

definition advance ::
  "entropy \<Rightarrow> session_state \<Rightarrow> workflow_state \<Rightarrow> execution_envelope \<Rightarrow> (session_state \<times> workflow_state) dh" where
  "advance E session workflow envelope =
     (let stages = STAGES_BY_LANE (ss_lane session) in
      case index_of stages (wf_stage workflow) of
        None \<Rightarrow> throw_dh (ErrMessage (''Stage '' @ quoted (stage_name (wf_stage workflow))
          @ '' is not valid for lane '' @ quoted (lane_name (ss_lane session)) @ ''.''))
      | Some i \<Rightarrow>
          (case array_at stages (i + 1) of
             None \<Rightarrow> return_dh (session, workflow)
           | Some nextStage \<Rightarrow> advance_to E stages nextStage session workflow envelope))"

section \<open>Reverting to a checkpoint\<close>

text \<open>
  Reading a member of a snapshot: absent or null is \<^verbatim>\<open>undefined\<close>; a value that SQLite cannot bind makes
  the insert throw. (A string where a count is expected, which the code would store, counts as one.)
\<close>

definition snapshot_int :: "string \<Rightarrow> json \<Rightarrow> dh_error + int" where
  "snapshot_int k j =
     (case obj_field k j of
        None \<Rightarrow> Inr 0
      | Some JNull \<Rightarrow> Inr 0
      | Some (JNum i) \<Rightarrow> Inr i
      | _ \<Rightarrow> Inl (ErrBind k))"

definition snapshot_text :: "string \<Rightarrow> json \<Rightarrow> dh_error + string option" where
  "snapshot_text k j = bind_nullable k (obj_field k j)"

definition reverted_summary ::
  "session_checkpoint \<Rightarrow> dh_error + (string \<Rightarrow> timestamp \<Rightarrow> session_summary)" where
  "reverted_summary c =
     (let j = cp_summarySnapshot c in
      bind_sum (snapshot_int ''filesChanged'' j) (\<lambda>f.
      bind_sum (snapshot_int ''additions'' j) (\<lambda>a.
      bind_sum (snapshot_int ''deletions'' j) (\<lambda>d.
      bind_sum (snapshot_text ''lastDiffAt'' j) (\<lambda>l.
      bind_sum (snapshot_text ''latestStage'' j) (\<lambda>s.
      bind_sum (snapshot_text ''latestCheckpointId'' j) (\<lambda>k.
      bind_sum (snapshot_text ''continuationSummary'' j) (\<lambda>cs.
      bind_sum (snapshot_text ''continuationCreatedAt'' j) (\<lambda>cc.
        Inr (\<lambda>i t. \<lparr>sm_id = i, sm_sessionId = cp_sessionId c, sm_filesChanged = f, sm_additions = a,
          sm_deletions = d, sm_lastDiffAt = l, sm_latestStage = s,
          sm_latestCheckpointId = Some (nullish k (cp_id c)), sm_continuationSummary = cs,
          sm_continuationCreatedAt = cc, sm_updatedAt = t\<rparr>))))))))))"

definition lift_sum :: "dh_error + 'a \<Rightarrow> 'a dh" where
  "lift_sum r w = (r, w)"

definition revert_row :: "string \<Rightarrow> string \<Rightarrow> session_revert option \<Rightarrow> string \<Rightarrow> string \<Rightarrow> timestamp \<Rightarrow> session_revert" where
  "revert_row sid checkpointId previous reason i t =
     \<lparr>rv_id = i, rv_sessionId = sid, rv_checkpointId = checkpointId,
      rv_previousCheckpointId = map_option rv_checkpointId previous, rv_reason = reason, rv_createdAt = t\<rparr>"

definition historyCheck :: "string \<Rightarrow> session_revert option \<Rightarrow> session_revert option \<Rightarrow> unit dh" where
  "historyCheck sid latestBefore previous =
     (case (latestBefore, previous) of
        (Some b, Some p) \<Rightarrow>
          if rv_id p \<noteq> [] \<and> rv_id b \<noteq> rv_id p
          then throw_dh (ErrMessage (''Revert history changed during revert for session '' @ quoted sid @ ''.''))
          else return_dh ()
      | _ \<Rightarrow> return_dh ())"

text \<open>The part of \<open>revertTo\<close> after its guards.\<close>

definition applyRevert ::
  "entropy \<Rightarrow> session_revert option \<Rightarrow> session_state \<Rightarrow> session_checkpoint \<Rightarrow> string
   \<Rightarrow> (string \<times> string) dh" where
  "applyRevert E latestBefore session checkpoint reason =
     (let sid = ss_sessionId session; checkpointId = cp_id checkpoint in
     bind_dh (workflow_save sid (cp_workflowSnapshot checkpoint)) (\<lambda>_.
     bind_dh (lift_sum (reverted_summary checkpoint)) (\<lambda>mk.
     bind_dh (summaries_save E mk) (\<lambda>summary.
     bind_dh (read_dh (reverts_findLatestBySession sid)) (\<lambda>previous.
     bind_dh (reverts_save E (revert_row sid checkpointId previous reason)) (\<lambda>revert.
     bind_dh (historyCheck sid latestBefore previous) (\<lambda>_.
     bind_dh (nowIso E) (\<lambda>now.
     bind_dh (sessions_save (session\<lparr>ss_currentStage := cp_stage checkpoint, ss_updatedAt := now,
         ss_latestSummaryId := Some (sm_id summary), ss_latestCheckpointId := Some (cp_id checkpoint),
         ss_latestRevertId := Some (rv_id revert)\<rparr>)) (\<lambda>_.
     bind_dh (events_save E sid ''revert''
       (JObj [(''checkpointId'', JStr checkpointId), (''revertId'', JStr (rv_id revert)),
              (''reason'', JStr reason)]) None) (\<lambda>_.
       return_dh (rv_id revert, checkpointId)))))))))))"

definition revertTo :: "entropy \<Rightarrow> string \<Rightarrow> string \<Rightarrow> string \<Rightarrow> (string \<times> string) dh" where
  "revertTo E sid checkpointId reason =
     bind_dh (read_dh (reverts_findLatestBySession sid)) (\<lambda>latestBefore.
     bind_dh (assertNotBusy sid) (\<lambda>_.
     bind_dh (read_dh (checkpoints_findById checkpointId)) (\<lambda>found.
       let noCheckpoint = throw_dh (ErrMessage (''Checkpoint '' @ quoted checkpointId
             @ '' does not exist for session '' @ quoted sid @ ''.'')) in
       case found of
         None \<Rightarrow> noCheckpoint
       | Some checkpoint \<Rightarrow>
           if cp_sessionId checkpoint \<noteq> sid then noCheckpoint
           else bind_dh (read_dh (sessions_findById sid)) (\<lambda>s.
             case s of
               None \<Rightarrow> throw_dh (ErrMessage (''Session '' @ quoted sid @ '' was not found.''))
             | Some session \<Rightarrow> applyRevert E latestBefore session checkpoint reason))))"

definition undoRevert :: "entropy \<Rightarrow> string \<Rightarrow> (string \<times> string) dh" where
  "undoRevert E sid =
     bind_dh (read_dh (reverts_findLatestBySession sid)) (\<lambda>latest.
       let nothing = throw_dh (ErrMessage
             (''No previous checkpoint available for undoRevert on session '' @ quoted sid @ ''.'')) in
       case latest of
         None \<Rightarrow> nothing
       | Some l \<Rightarrow>
           (case rv_previousCheckpointId l of
              None \<Rightarrow> nothing
            | Some prev \<Rightarrow>
                if prev = [] then nothing
                else bind_dh (read_dh (checkpoints_findById prev)) (\<lambda>c.
                  let unavailable = throw_dh (ErrMessage (''Cannot undo revert for session '' @ quoted sid
                        @ '' because previous checkpoint '' @ quoted prev @ '' is unavailable.'')) in
                  case c of
                    None \<Rightarrow> unavailable
                  | Some checkpoint \<Rightarrow>
                      if cp_sessionId checkpoint \<noteq> sid then unavailable
                      else if rv_checkpointId l = prev
                      then throw_dh (ErrMessage (''Cannot undo revert for session '' @ quoted sid
                        @ '' because revert history is self-referential.''))
                      else revertTo E sid prev ''undo-revert'')))"

section \<open>Fork\<close>

fun rewriteValue :: "string \<Rightarrow> string \<Rightarrow> json \<Rightarrow> json" where
  "rewriteValue src tgt (JStr s) = (if s = src then JStr tgt else JStr s)"
| "rewriteValue src tgt (JArr xs) = JArr (map (rewriteValue src tgt) xs)"
| "rewriteValue src tgt (JObj fs) = JObj (map (\<lambda>(k, v). (k, rewriteValue src tgt v)) fs)"
| "rewriteValue src tgt v = v"

record copy_counts =
  n_runtimeEvents :: nat
  n_summaries :: nat
  n_checkpoints :: nat
  n_reverts :: nat

definition forked_session :: "session_state \<Rightarrow> string \<Rightarrow> timestamp \<Rightarrow> session_state" where
  "forked_session source sid now = source\<lparr>ss_sessionId := sid, ss_status := SsInProgress,
     ss_createdAt := now, ss_updatedAt := now, ss_activeWorkItemIds := [], ss_latestSummaryId := None,
     ss_latestCheckpointId := None, ss_latestRevertId := None\<rparr>"

definition fork_event :: "entropy \<Rightarrow> string \<Rightarrow> string \<Rightarrow> runtime_event \<Rightarrow> unit dh" where
  "fork_event E src sid e =
     bind_dh (createId E ''session-runtime-event'') (\<lambda>i.
       events_saveRecord (e\<lparr>re_id := i, re_sessionId := sid,
         re_eventJson := rewriteValue src sid (re_eventJson e)\<rparr>))"

definition fork_summary :: "entropy \<Rightarrow> string \<Rightarrow> session_summary \<Rightarrow> unit dh" where
  "fork_summary E sid s =
     bind_dh (createId E ''session-summary'') (\<lambda>i. summaries_saveRecord (s\<lparr>sm_id := i, sm_sessionId := sid\<rparr>))"

text \<open>The loop over the checkpoints also builds \<^verbatim>\<open>checkpointIdMap\<close>.\<close>

fun fork_checkpoints ::
  "entropy \<Rightarrow> string \<Rightarrow> (string, string) js_map \<Rightarrow> session_checkpoint list \<Rightarrow> (string, string) js_map dh" where
  "fork_checkpoints E sid m [] = return_dh m"
| "fork_checkpoints E sid m (c # cs) =
     bind_dh (createId E ''session-checkpoint'') (\<lambda>i.
     bind_dh (checkpoints_saveRecord (c\<lparr>cp_id := i, cp_sessionId := sid\<rparr>)) (\<lambda>_.
       fork_checkpoints E sid (AList.update (cp_id c) i m) cs))"

definition remapId :: "(string, string) js_map \<Rightarrow> string \<Rightarrow> string" where
  "remapId m i = nullish (map_of m i) i"

definition fork_revert :: "entropy \<Rightarrow> string \<Rightarrow> (string, string) js_map \<Rightarrow> session_revert \<Rightarrow> unit dh" where
  "fork_revert E sid m r =
     bind_dh (createId E ''session-revert'') (\<lambda>i.
       reverts_saveRecord (r\<lparr>rv_id := i, rv_sessionId := sid, rv_checkpointId := remapId m (rv_checkpointId r),
         rv_previousCheckpointId := (case rv_previousCheckpointId r of
            None \<Rightarrow> None | Some p \<Rightarrow> if p = [] then None else Some (remapId m p))\<rparr>))"

definition forkSession ::
  "entropy \<Rightarrow> string \<Rightarrow> string option \<Rightarrow> (string \<times> copy_counts) dh" where
  "forkSession E src title =
     bind_dh (read_dh (sessions_findById src)) (\<lambda>found.
       case found of
         None \<Rightarrow> throw_dh (ErrMessage (''Session '' @ quoted src @ '' was not found.''))
       | Some source \<Rightarrow>
           bind_dh (createId E ''session'') (\<lambda>sid.
           bind_dh (nowIso E) (\<lambda>now.
           bind_dh (sessions_save (forked_session source sid now)) (\<lambda>_.
           bind_dh (read_dh (events_listBySession src)) (\<lambda>events.
           bind_dh (read_dh (summaries_listBySession src)) (\<lambda>summaries.
           bind_dh (read_dh (checkpoints_listBySession src)) (\<lambda>checkpoints.
           bind_dh (read_dh (reverts_listBySession src)) (\<lambda>reverts.
           bind_dh (each_dh (fork_event E src sid) events) (\<lambda>_.
           bind_dh (each_dh (fork_summary E sid) summaries) (\<lambda>_.
           bind_dh (fork_checkpoints E sid [] checkpoints) (\<lambda>m.
           bind_dh (each_dh (fork_revert E sid m) reverts) (\<lambda>_.
           bind_dh (events_save E sid ''session.created''
             (JObj [(''type'', JStr ''session.created''), (''sessionId'', JStr sid),
               (''payload'', JObj ([(''commandFamily'', JStr ''session''),
                  (''forkedFromSessionId'', JStr src)] @ opt_text ''title'' title))]) (Some now)) (\<lambda>_.
             return_dh (sid, \<lparr>n_runtimeEvents = length events, n_summaries = length summaries,
               n_checkpoints = length checkpoints, n_reverts = length reverts\<rparr>))))))))))))))"

section \<open>Delete\<close>

record delete_counts =
  del_session :: nat
  del_runtimeEvents :: nat
  del_summaries :: nat
  del_checkpoints :: nat
  del_reverts :: nat

definition deleteSession :: "string \<Rightarrow> delete_counts dh" where
  "deleteSession sid =
     bind_dh (read_dh (sessions_findById sid)) (\<lambda>found.
       if found = None then throw_dh (ErrMessage (''Session '' @ quoted sid @ '' was not found.''))
       else
         bind_dh (events_deleteBySession sid) (\<lambda>runtimeEvents.
         bind_dh (summaries_deleteBySession sid) (\<lambda>summaries.
         bind_dh (reverts_deleteBySession sid) (\<lambda>reverts.
         bind_dh (checkpoints_deleteBySession sid) (\<lambda>checkpoints.
         bind_dh (sessions_deleteById sid) (\<lambda>session.
           return_dh \<lparr>del_session = session, del_runtimeEvents = runtimeEvents, del_summaries = summaries,
             del_checkpoints = checkpoints, del_reverts = reverts\<rparr>))))))"

section \<open>Export and import\<close>

record session_payload =
  pl_session :: session_state
  pl_runtimeEvents :: "runtime_event list"
  pl_summaries :: "session_summary list"
  pl_checkpoints :: "session_checkpoint list"
  pl_reverts :: "session_revert list"

record session_document =
  doc_schemaVersion :: int
  doc_exportedAt :: timestamp
  doc_version :: string
  doc_repoRoot :: string
  doc_sanitized :: bool
  doc_payload :: session_payload

definition SESSION_EXPORT_SCHEMA_VERSION :: int where
  "SESSION_EXPORT_SCHEMA_VERSION = 1"

text \<open>\<open>buildSessionExport\<close> without \<^verbatim>\<open>sanitize\<close>; redaction works on the document's JSON form.\<close>

definition buildSessionExport ::
  "entropy \<Rightarrow> string \<Rightarrow> string option \<Rightarrow> string \<Rightarrow> session_document dh" where
  "buildSessionExport E repoRoot sessionId version =
     bind_dh (read_dh (\<lambda>w. case sessionId of
         Some s \<Rightarrow> if s = [] then sessions_findLatest w else sessions_findById s w
       | None \<Rightarrow> sessions_findLatest w)) (\<lambda>found.
       case found of
         None \<Rightarrow> throw_dh (ErrMessage (case sessionId of
             Some s \<Rightarrow> if s = [] then ''No session is available to export.''
               else ''Session '' @ quoted s @ '' was not found.''
           | None \<Rightarrow> ''No session is available to export.''))
       | Some session \<Rightarrow>
           bind_dh (nowIso E) (\<lambda>now.
           bind_dh (read_dh (\<lambda>w.
               \<lparr>pl_session = session, pl_runtimeEvents = events_listBySession (ss_sessionId session) w,
                pl_summaries = summaries_listBySession (ss_sessionId session) w,
                pl_checkpoints = checkpoints_listBySession (ss_sessionId session) w,
                pl_reverts = reverts_listBySession (ss_sessionId session) w\<rparr>)) (\<lambda>payload.
             return_dh \<lparr>doc_schemaVersion = SESSION_EXPORT_SCHEMA_VERSION, doc_exportedAt = now,
               doc_version = version, doc_repoRoot = repoRoot, doc_sanitized = False,
               doc_payload = payload\<rparr>)))"

text \<open>
  The checks of \<open>assertSessionExportDocument\<close> that a document of this shape can fail; the others, that
  a member is missing or not an array, concern values that are no such document.
\<close>

definition assertSessionExportDocument :: "session_document \<Rightarrow> unit dh" where
  "assertSessionExportDocument d =
     (if doc_schemaVersion d \<noteq> SESSION_EXPORT_SCHEMA_VERSION
      then throw_dh (ErrMessage (''Unsupported session export schema version '' @ show_int (doc_schemaVersion d)
        @ ''. This DH build supports version 1.''))
      else if ss_sessionId (pl_session (doc_payload d)) = []
      then throw_dh (ErrMessage ''Invalid session export: payload.session.sessionId is required.'')
      else return_dh ())"

definition importSessionDocument :: "string \<Rightarrow> session_document \<Rightarrow> (string \<times> copy_counts) dh" where
  "importSessionDocument repoRoot d =
     bind_dh (assertSessionExportDocument d) (\<lambda>_.
     let p = doc_payload d; session = (pl_session p)\<lparr>ss_repoRoot := repoRoot\<rparr>; sid = ss_sessionId session in
     bind_dh (sessions_save session) (\<lambda>_.
     bind_dh (each_dh (\<lambda>e. events_saveRecord (e\<lparr>re_sessionId := sid\<rparr>)) (pl_runtimeEvents p)) (\<lambda>_.
     bind_dh (each_dh (\<lambda>s. summaries_saveRecord (s\<lparr>sm_sessionId := sid\<rparr>)) (pl_summaries p)) (\<lambda>_.
     bind_dh (each_dh (\<lambda>c. checkpoints_saveRecord (c\<lparr>cp_sessionId := sid\<rparr>)) (pl_checkpoints p)) (\<lambda>_.
     bind_dh (each_dh (\<lambda>r. reverts_saveRecord (r\<lparr>rv_sessionId := sid\<rparr>)) (pl_reverts p)) (\<lambda>_.
       return_dh (sid, \<lparr>n_runtimeEvents = length (pl_runtimeEvents p), n_summaries = length (pl_summaries p),
         n_checkpoints = length (pl_checkpoints p), n_reverts = length (pl_reverts p)\<rparr>)))))))"

section \<open>Queries and the event stream\<close>

definition listSessions :: "nat option \<Rightarrow> world \<Rightarrow> session_state list" where
  "listSessions limit w = sessions_list (Some (nullish limit 20)) w"

record session_show =
  sh_session :: session_state
  sh_latestSummary :: "session_summary option"
  sh_counts :: copy_counts

definition showSession :: "string \<Rightarrow> session_show dh" where
  "showSession sid =
     bind_dh (read_dh (sessions_findById sid)) (\<lambda>found.
       case found of
         None \<Rightarrow> throw_dh (ErrMessage (''Session '' @ quoted sid @ '' was not found.''))
       | Some session \<Rightarrow> read_dh (\<lambda>w.
           \<lparr>sh_session = session,
            sh_latestSummary = (case summaries_listBySession sid w of [] \<Rightarrow> None | s # _ \<Rightarrow> Some s),
            sh_counts = \<lparr>n_runtimeEvents = length (events_listBySession sid w),
              n_summaries = length (summaries_listBySession sid w),
              n_checkpoints = length (checkpoints_listBySession sid w),
              n_reverts = length (reverts_listBySession sid w)\<rparr>\<rparr>))"

record run_event =
  ev_type :: string
  ev_sessionId :: string
  ev_sequence :: nat
  ev_timestamp :: timestamp
  ev_payload :: json

record event_stream =
  es_sessionId :: string
  es_events :: "run_event list"
  es_sequence :: nat

definition run_event_json :: "run_event \<Rightarrow> json" where
  "run_event_json e = JObj [(''type'', JStr (ev_type e)), (''sessionId'', JStr (ev_sessionId e)),
     (''sequence'', JNum (int (ev_sequence e))), (''timestamp'', JStr (ev_timestamp e)),
     (''payload'', ev_payload e)]"

text \<open>The stream object keeps the event even when the store then refuses the row.\<close>

definition emit :: "entropy \<Rightarrow> event_stream \<Rightarrow> string \<Rightarrow> json \<Rightarrow> world \<Rightarrow> (dh_error + run_event) \<times> event_stream \<times> world" where
  "emit E st ty payload w =
     (let (_, w1) = nowIso E w;
          event = \<lparr>ev_type = ty, ev_sessionId = es_sessionId st, ev_sequence = es_sequence st + 1,
            ev_timestamp = clk E (seq w), ev_payload = payload\<rparr>;
          st' = st\<lparr>es_events := es_events st @ [event], es_sequence := ev_sequence event\<rparr>;
          (r, w2) = events_save E (es_sessionId st) ty (run_event_json event) (Some (ev_timestamp event)) w1
      in (case r of Inl e \<Rightarrow> Inl e | Inr _ \<Rightarrow> Inr event, st', w2))"

section \<open>The invariant\<close>

lemma registry_wf [preserve_laws]:
  "preserves wf_world (assertNotBusy sid)" "preserves wf_world (markIdle sid)"
  by (simp_all add: preserves_def assertNotBusy_def markIdle_def write_dh_def)

lemma write_files_wf [preserve_laws]:
  "preserves wf_world (write_dh (\<lambda>w. w\<lparr>runs := f w\<rparr>))"
  "preserves wf_world (sessionStore_write r)" "preserves wf_world (writeWorkflowCompatibilityMirror s wfl env)"
  "preserves wf_world (lift_sum x)"
  by (simp_all add: preserves_def write_dh_def sessionStore_write_def writeWorkflowCompatibilityMirror_def
      lift_sum_def)

lemma markBusy_wf [preserve_laws]: "preserves wf_world (markBusy E sid md)"
  unfolding markBusy_def Let_def by (intro preserve_laws)

lemma advance_wf [preserve_laws]: "preserves wf_world (advance E s wfl e)"
  unfolding advance_def advance_to_def Let_def by (intro preserve_laws)

lemma historyCheck_wf [preserve_laws]: "preserves wf_world (historyCheck sid a b)"
  by (auto simp: historyCheck_def split: option.split intro: preserve_laws)

lemma applyRevert_wf [preserve_laws]: "preserves wf_world (applyRevert E lb s c reason)"
  unfolding applyRevert_def Let_def by (intro preserve_laws)

lemma revertTo_wf [preserve_laws]: "preserves wf_world (revertTo E sid cid reason)"
  unfolding revertTo_def Let_def by (intro preserve_laws)

lemma undoRevert_wf [preserve_laws]: "preserves wf_world (undoRevert E sid)"
  unfolding undoRevert_def Let_def by (intro preserve_laws)

lemma fork_checkpoints_wf [preserve_laws]: "preserves wf_world (fork_checkpoints E sid m cs)"
  by (induction cs arbitrary: m) (auto intro!: preserve_laws)

lemma forkSession_wf [preserve_laws]: "preserves wf_world (forkSession E src title)"
  unfolding forkSession_def fork_event_def fork_summary_def fork_revert_def by (intro preserve_laws)

lemma deleteSession_wf [preserve_laws]: "preserves wf_world (deleteSession sid)"
  unfolding deleteSession_def by (intro preserve_laws)

lemma importSessionDocument_wf [preserve_laws]: "preserves wf_world (importSessionDocument root d)"
  unfolding importSessionDocument_def assertSessionExportDocument_def Let_def by (intro preserve_laws)

section \<open>Evaluating an operation\<close>

lemmas dh_simps = bind_dh_def return_dh_def throw_dh_def read_dh_def write_dh_def createId_def nowIso_def
  lift_sum_def

text \<open>
  The ids that the next draws give are not in use. A suffix is a base-36 numeral, so it has no hyphen
  and an id tells its prefix and its suffix apart.
\<close>

definition fresh_ids :: "entropy \<Rightarrow> world \<Rightarrow> bool" where
  "fresh_ids E w \<longleftrightarrow> inj (rnd E) \<and> (\<forall>n. CHR ''-'' \<notin> set (rnd E n)) \<and> (\<forall>n \<ge> seq w. \<forall>p. newId E p n \<notin>
     ss_sessionId ` set (t_sessions w) \<union> re_id ` set (t_events w) \<union> sm_id ` set (t_summaries w)
     \<union> cp_id ` set (t_checkpoints w) \<union> rv_id ` set (t_reverts w))"

lemma fresh_idsD:
  assumes "fresh_ids E w" and "seq w \<le> n"
  shows "newId E p n \<notin> ss_sessionId ` set (t_sessions w)"
    and "newId E p n \<notin> re_id ` set (t_events w)"
    and "newId E p n \<notin> sm_id ` set (t_summaries w)"
    and "newId E p n \<notin> cp_id ` set (t_checkpoints w)"
    and "newId E p n \<notin> rv_id ` set (t_reverts w)"
  using assms unfolding fresh_ids_def by auto

lemma hyphen_split:
  "c \<notin> set s \<Longrightarrow> c \<notin> set t \<Longrightarrow> p @ c # s = q @ c # t \<longleftrightarrow> p = q \<and> s = t"
proof
  assume st: "c \<notin> set s" "c \<notin> set t" and eq: "p @ c # s = q @ c # t"
  have tw: "takeWhile (\<lambda>x. x \<noteq> c) (rev v @ c # y) = rev v" if "c \<notin> set v" for v y
    using that by (subst takeWhile_append2) auto
  have "rev s @ c # rev p = rev t @ c # rev q" using arg_cong [OF eq, of rev] by simp
  then have "rev s = rev t" using tw [OF st(1), of "rev p"] tw [OF st(2), of "rev q"] by simp
  then have "s = t" by simp
  with eq show "p = q \<and> s = t" by simp
qed simp

lemma newId_inj: "fresh_ids E w \<Longrightarrow> newId E p m = newId E q n \<longleftrightarrow> p = q \<and> m = n"
proof -
  assume "fresh_ids E w"
  then have "inj (rnd E)" and h: "\<And>n. CHR ''-'' \<notin> set (rnd E n)" by (simp_all add: fresh_ids_def)
  then show ?thesis using hyphen_split [OF h h] by (simp add: newId_def inj_eq)
qed

lemma exists_upsert [simp]:
  "sessionExists sid (w\<lparr>t_sessions := row_upsert ss_sessionId s t\<rparr>)
   = (sid = ss_sessionId s \<or> sid \<in> ss_sessionId ` set t)"
  by (simp add: sessionExists_def)

lemma exists_other [simp]:
  "sessionExists s (w\<lparr>runs := r\<rparr>) = sessionExists s w"
  "sessionExists s (w\<lparr>f_sessions := fs\<rparr>) = sessionExists s w"
  "sessionExists s (w\<lparr>f_mirror := m\<rparr>) = sessionExists s w"
  by (simp_all add: sessionExists_def)

lemma find_exists: "sessions_findById sid w = Some s \<Longrightarrow> sessionExists sid w \<and> ss_sessionId s = sid"
  by (auto simp: sessions_findById_def sessionExists_def dest: row_find_Some)

lemma summaries_save_eval:
  assumes "\<And>i t. sm_sessionId (mk i t) = sid" and "sessionExists sid w"
  shows "summaries_save E mk w =
    (let r = mk (newId E ''session-summary'' (seq w)) (clk E (seq w + 1))
     in (Inr r, w\<lparr>t_summaries := row_upsert sm_id r (t_summaries w), seq := seq w + 2\<rparr>))"
  using assms by (simp add: summaries_save_def summaries_saveRecord_def dh_simps Let_def)

lemma reverts_save_eval:
  assumes "\<And>i t. rv_id (mk i t) = i \<and> rv_sessionId (mk i t) = sid" and "sessionExists sid w"
    and "newId E ''session-revert'' (seq w) \<notin> rv_id ` set (t_reverts w)"
  shows "reverts_save E mk w =
    (let r = mk (newId E ''session-revert'' (seq w)) (clk E (seq w + 1))
     in (Inr r, w\<lparr>t_reverts := t_reverts w @ [r], seq := seq w + 2\<rparr>))"
  using assms by (simp add: reverts_save_def dh_simps Let_def)

lemma checkpoints_save_eval:
  assumes "\<And>i t. cp_id (mk i t) = i \<and> cp_sessionId (mk i t) = sid" and "sessionExists sid w"
    and "newId E ''session-checkpoint'' (seq w) \<notin> cp_id ` set (t_checkpoints w)"
  shows "checkpoints_save E mk w =
    (let r = mk (newId E ''session-checkpoint'' (seq w)) (clk E (seq w + 1))
     in (Inr r, w\<lparr>t_checkpoints := t_checkpoints w @ [r], seq := seq w + 2\<rparr>))"
  using assms by (simp add: checkpoints_save_def dh_simps Let_def)

lemma events_save_eval:
  assumes "newId E ''session-runtime-event'' (seq w) \<notin> re_id ` set (t_events w)" and "sessionExists sid w"
  shows "events_save E sid ty j None w =
    (let e = \<lparr>re_id = newId E ''session-runtime-event'' (seq w), re_sessionId = sid, re_eventType = ty,
         re_eventJson = j, re_createdAt = clk E (seq w + 1)\<rparr>
     in (Inr e, w\<lparr>t_events := t_events w @ [e], seq := seq w + 2\<rparr>))"
  using assms by (simp add: events_save_def events_insert_def dh_simps Let_def)

end
