(* ===== verification/ExtensionState.thy ===== *)
theory ExtensionState
  imports SessionOps
begin

text \<open>
  The extension runtime state of \<^verbatim>\<open>packages/runtime/src/extensions\<close>: the fingerprint of an extension
  specification, the JSON file that remembers the last fingerprint of every extension, the operation
  that classifies an extension as first seen, same or updated, and the drift report.

  SHA-256 and the collation of \<^verbatim>\<open>localeCompare\<close> are parameters: \<open>sha\<close> maps a text to its digest and \<open>ck\<close> a
  string to its collation sort key, so that \<open>a\<close> comes before \<open>b\<close> when \<open>ck a < ck b\<close>. The file is what its
  reader sees of it: missing, unreadable with a message, no JSON, or a JSON value. A write may fail with
  a message, which is an argument.
\<close>

record extension_spec =
  ex_id :: string
  ex_contractVersion :: string
  ex_entry :: string
  ex_capabilities :: "string list"
  ex_priority :: int
  ex_lanes :: "workflow_lane list"
  ex_roles :: "agent_role list"

section \<open>Fingerprint\<close>

definition normalizeStringArray :: "collation \<Rightarrow> string list \<Rightarrow> string list" where
  "normalizeStringArray ck values = sort_key ck (js_unique values)"

definition toExtensionFingerprintPayload :: "collation \<Rightarrow> extension_spec \<Rightarrow> json" where
  "toExtensionFingerprintPayload ck s =
     JObj [(''id'', JStr (ex_id s)), (''contractVersion'', JStr (ex_contractVersion s)),
       (''entry'', JStr (ex_entry s)),
       (''capabilities'', JArr (map JStr (normalizeStringArray ck (ex_capabilities s)))),
       (''priority'', JNum (ex_priority s)),
       (''lanes'', JArr (map JStr (normalizeStringArray ck (map lane_name (ex_lanes s))))),
       (''roles'', JArr (map JStr (normalizeStringArray ck (map role_name (ex_roles s)))))]"

definition deriveExtensionFingerprint :: "collation \<Rightarrow> (string \<Rightarrow> string) \<Rightarrow> extension_spec \<Rightarrow> string" where
  "deriveExtensionFingerprint ck sha s = sha (JSON_stringify (toExtensionFingerprintPayload ck s))"

section \<open>The state file\<close>

datatype store_file = FileMissing | FileUnreadable string | FileBadJson | FileJson json

type_synonym ext_store = "(string, json) js_map"

definition STORE_VERSION :: string where
  "STORE_VERSION = ''v1''"

definition isRecord :: "string \<Rightarrow> json \<Rightarrow> bool" where
  "isRecord key j =
     (obj_field ''version'' j = Some (JStr STORE_VERSION) \<and> obj_field ''extensionId'' j = Some (JStr key)
      \<and> (case obj_field ''fingerprint'' j of Some (JStr f) \<Rightarrow> f \<noteq> [] | _ \<Rightarrow> False)
      \<and> (case obj_field ''lastSeenAt'' j of None \<Rightarrow> True | Some (JStr _) \<Rightarrow> True | _ \<Rightarrow> False)
      \<and> (case obj_field ''loadCount'' j of None \<Rightarrow> True | Some (JNum _) \<Rightarrow> True | _ \<Rightarrow> False))"

text \<open>\<^verbatim>\<open>Object.entries\<close> of a value that \<^verbatim>\<open>typeof\<close> calls an object; an array has its indices as keys.\<close>

definition object_entries :: "json \<Rightarrow> ext_store option" where
  "object_entries j =
     (case j of
        JObj fs \<Rightarrow> Some fs
      | JArr xs \<Rightarrow> Some (zip (map show_nat [0 ..< length xs]) xs)
      | _ \<Rightarrow> None)"

definition store_records :: "json \<Rightarrow> ext_store option" where
  "store_records j = Option.bind (obj_field ''records'' j) object_entries"

definition isStore :: "json \<Rightarrow> bool" where
  "isStore j =
     (obj_field ''version'' j = Some (JStr STORE_VERSION)
      \<and> (case store_records j of None \<Rightarrow> False | Some rs \<Rightarrow> list_all (\<lambda>(k, r). isRecord k r) rs))"

definition createEmptyStore :: ext_store where
  "createEmptyStore = []"

definition store_json :: "ext_store \<Rightarrow> json" where
  "store_json rs = JObj [(''version'', JStr STORE_VERSION), (''records'', JObj rs)]"

definition store_read :: "store_file \<Rightarrow> string + ext_store" where
  "store_read f =
     (case f of
        FileMissing \<Rightarrow> Inr createEmptyStore
      | FileUnreadable msg \<Rightarrow> Inl msg
      | FileBadJson \<Rightarrow> Inl ''Extension runtime-state store JSON is malformed.''
      | FileJson j \<Rightarrow>
          if \<not> isStore j
          then Inl ''Extension runtime-state store is malformed or has unsupported schema version.''
          else (case store_records j of Some rs \<Rightarrow> Inr rs | None \<Rightarrow> Inr []))"

definition store_write :: "string option \<Rightarrow> ext_store \<Rightarrow> store_file \<Rightarrow> string option \<times> store_file" where
  "store_write fail rs f =
     (if \<not> isStore (store_json rs) then (Some ''Extension runtime-state store payload is invalid.'', f)
      else case fail of Some msg \<Rightarrow> (Some msg, f) | None \<Rightarrow> (None, FileJson (store_json rs)))"

definition loadCount_of :: "json option \<Rightarrow> int" where
  "loadCount_of previous =
     (case Option.bind previous (obj_field ''loadCount'') of Some (JNum n) \<Rightarrow> n | _ \<Rightarrow> 0)"

definition upsertRecord :: "timestamp \<Rightarrow> string \<Rightarrow> string \<Rightarrow> ext_store \<Rightarrow> ext_store" where
  "upsertRecord now extensionId fingerprint rs =
     AList.update extensionId
       (JObj [(''version'', JStr STORE_VERSION), (''extensionId'', JStr extensionId),
          (''fingerprint'', JStr fingerprint), (''lastSeenAt'', JStr now),
          (''loadCount'', JNum (loadCount_of (map_of rs extensionId) + 1))]) rs"

datatype ext_state = XsFirst | XsUpdated | XsSame

record touch_result =
  tr_state :: ext_state
  tr_fingerprint :: string
  tr_warning :: "string option"

definition touchExtensionState ::
  "collation \<Rightarrow> (string \<Rightarrow> string) \<Rightarrow> timestamp \<Rightarrow> string option \<Rightarrow> extension_spec \<Rightarrow> store_file
   \<Rightarrow> touch_result \<times> store_file" where
  "touchExtensionState ck sha now fail spec f =
     (let fingerprint = deriveExtensionFingerprint ck sha spec in
      case store_read f of
        Inl reason \<Rightarrow>
          (\<lparr>tr_state = XsFirst, tr_fingerprint = fingerprint,
            tr_warning = Some (''Extension runtime-state read failed: '' @ reason)\<rparr>, f)
      | Inr store \<Rightarrow>
          let state = (case map_of store (ex_id spec) of
                None \<Rightarrow> XsFirst
              | Some prior \<Rightarrow>
                  if obj_field ''fingerprint'' prior = Some (JStr fingerprint) then XsSame else XsUpdated);
              (failed, f') = store_write fail (upsertRecord now (ex_id spec) fingerprint store) f
          in (\<lparr>tr_state = state, tr_fingerprint = fingerprint,
               tr_warning = map_option (\<lambda>reason. ''Extension runtime-state write failed: '' @ reason) failed\<rparr>, f'))"

section \<open>Drift report\<close>

type_synonym runtime_states = "(string, ext_state \<times> string) js_map"

record drift_entry =
  dr_extensionId :: string
  dr_fingerprint :: string
  dr_state :: "ext_state option"
  dr_lastSeenAt :: "json option"
  dr_loadCount :: "json option"

record drift_report =
  dr_generatedAt :: timestamp
  dr_persistedExtensionCount :: nat
  dr_classifiedExtensionCount :: nat
  dr_firstCount :: nat
  dr_sameCount :: nat
  dr_updatedCount :: nat
  dr_driftedExtensionIds :: "string list"
  dr_extensions :: "drift_entry list"
  dr_warnings :: "string list"

definition in_state :: "runtime_states \<Rightarrow> ext_state \<Rightarrow> string \<Rightarrow> bool" where
  "in_state states st i = (map_option fst (map_of states i) = Some st)"

definition buildExtensionStateDriftReport ::
  "collation \<Rightarrow> timestamp \<Rightarrow> store_file \<Rightarrow> runtime_states \<Rightarrow> drift_report" where
  "buildExtensionStateDriftReport ck now f states =
     (let store = (case store_read f of Inr rs \<Rightarrow> rs | Inl _ \<Rightarrow> createEmptyStore);
          runtimeStateIds = sort_key ck (map fst states);
          persistedIds = sort_key ck (map fst store);
          allIds = sort_key ck (js_unique (persistedIds @ runtimeStateIds));
          entry = (\<lambda>i. \<lparr>dr_extensionId = i,
            dr_fingerprint = (case map_of states i of
                Some (_, fp) \<Rightarrow> fp
              | None \<Rightarrow> (case Option.bind (map_of store i) (obj_field ''fingerprint'') of Some (JStr fp) \<Rightarrow> fp | _ \<Rightarrow> [])),
            dr_state = map_option fst (map_of states i),
            dr_lastSeenAt = Option.bind (map_of store i) (obj_field ''lastSeenAt''),
            dr_loadCount = Option.bind (map_of store i) (obj_field ''loadCount'')\<rparr>)
      in \<lparr>dr_generatedAt = now, dr_persistedExtensionCount = length persistedIds,
          dr_classifiedExtensionCount = length runtimeStateIds,
          dr_firstCount = length (filter (in_state states XsFirst) runtimeStateIds),
          dr_sameCount = length (filter (in_state states XsSame) runtimeStateIds),
          dr_updatedCount = length (filter (in_state states XsUpdated) runtimeStateIds),
          dr_driftedExtensionIds = filter (in_state states XsUpdated) runtimeStateIds,
          dr_extensions = map entry allIds,
          dr_warnings = (case store_read f of
              Inl reason \<Rightarrow> [''Extension runtime-state drift report degraded: '' @ reason] | Inr _ \<Rightarrow> [])\<rparr>)"

section \<open>The store contract\<close>

text \<open>
  What the classification relies on: a fingerprint that was remembered is the one that is known, the
  others stay, and a write that succeeds is what the next read returns.
\<close>

locale fingerprint_store =
  fixes readS :: "'f \<Rightarrow> 'e + 's"
    and writeS :: "'s \<Rightarrow> 'f \<Rightarrow> 'e option \<times> 'f"
    and remember :: "timestamp \<Rightarrow> string \<Rightarrow> string \<Rightarrow> 's \<Rightarrow> 's"
    and known :: "'s \<Rightarrow> string \<Rightarrow> string option"
  assumes read_write: "readS f = Inr s \<Longrightarrow> fp \<noteq> [] \<Longrightarrow>
      fst (writeS (remember t k fp s) f) = None
      \<and> readS (snd (writeS (remember t k fp s) f)) = Inr (remember t k fp s)"
    and known_remember: "known (remember t k fp s) k' = (if k' = k then Some fp else known s k')"
begin

fun remember_all :: "timestamp \<Rightarrow> (string \<times> string) list \<Rightarrow> 'f \<Rightarrow> 'f" where
  "remember_all t [] f = f"
| "remember_all t ((k, fp) # ks) f =
     (case readS f of Inl _ \<Rightarrow> f | Inr s \<Rightarrow> remember_all t ks (snd (writeS (remember t k fp s) f)))"

lemma remembered:
  assumes "readS f = Inr s" and "\<forall>(k, fp) \<in> set ks. fp \<noteq> []" and "distinct (map fst ks)"
  shows "\<exists>s'. readS (remember_all t ks f) = Inr s'
    \<and> (\<forall>k. known s' k = (case map_of ks k of Some fp \<Rightarrow> Some fp | None \<Rightarrow> known s k))"
  using assms
proof (induction t ks f arbitrary: s rule: remember_all.induct)
  case (2 t k fp ks f)
  let ?s = "remember t k fp s"
  have ne: "fp \<noteq> []" using "2.prems"(2) by simp
  have r: "readS (snd (writeS ?s f)) = Inr ?s" using read_write [OF "2.prems"(1) ne] by simp
  have "\<exists>s'. readS (remember_all t ks (snd (writeS ?s f))) = Inr s'
      \<and> (\<forall>k'. known s' k' = (case map_of ks k' of Some fp \<Rightarrow> Some fp | None \<Rightarrow> known ?s k'))"
    using "2.IH" [OF "2.prems"(1) r] "2.prems"(2,3) by auto
  then obtain s' where s': "readS (remember_all t ks (snd (writeS ?s f))) = Inr s'"
    "\<forall>k'. known s' k' = (case map_of ks k' of Some fp \<Rightarrow> Some fp | None \<Rightarrow> known ?s k')" by blast
  have "map_of ks k = None" using "2.prems"(3) by (simp add: map_of_eq_None_iff)
  then have "\<forall>k'. known s' k' = (case map_of ((k, fp) # ks) k' of Some fp \<Rightarrow> Some fp | None \<Rightarrow> known s k')"
    using s'(2) by (auto simp: known_remember split: option.split)
  then show ?case using s'(1) "2.prems"(1) by auto
qed simp

end

definition known_fingerprint :: "ext_store \<Rightarrow> string \<Rightarrow> string option" where
  "known_fingerprint rs k =
     (case Option.bind (map_of rs k) (obj_field ''fingerprint'') of Some (JStr fp) \<Rightarrow> Some fp | _ \<Rightarrow> None)"

lemma set_alist_update: "set (AList.update k v xs) \<subseteq> insert (k, v) (set xs)"
  by (induction xs) auto

lemma store_json_fields [simp]:
  "obj_field ''version'' (store_json rs) = Some (JStr STORE_VERSION)"
  "store_records (store_json rs) = Some rs"
  by (simp_all add: store_json_def obj_field_def store_records_def object_entries_def)

lemma store_read_json: "list_all (\<lambda>(k, r). isRecord k r) rs \<Longrightarrow> store_read (FileJson (store_json rs)) = Inr rs"
  by (simp add: store_read_def isStore_def)

lemma store_read_records: "store_read f = Inr rs \<Longrightarrow> list_all (\<lambda>(k, r). isRecord k r) rs"
  by (auto simp: store_read_def createEmptyStore_def isStore_def split: store_file.splits if_splits option.splits)

lemma upsert_records:
  assumes "list_all (\<lambda>(k, r). isRecord k r) rs" and "fp \<noteq> []"
  shows "list_all (\<lambda>(k, r). isRecord k r) (upsertRecord t k fp rs)"
proof -
  have "isRecord k (JObj [(''version'', JStr STORE_VERSION), (''extensionId'', JStr k), (''fingerprint'', JStr fp),
      (''lastSeenAt'', JStr t), (''loadCount'', JNum n)])" for n
    using assms(2) by (simp add: isRecord_def obj_field_def)
  then show ?thesis
    using assms(1) set_alist_update [of k _ rs] by (fastforce simp: upsertRecord_def list_all_iff)
qed

lemma upsert_fields:
  "map_of (upsertRecord t k fp rs) k' = (if k' = k then Some (JObj [(''version'', JStr STORE_VERSION),
     (''extensionId'', JStr k), (''fingerprint'', JStr fp), (''lastSeenAt'', JStr t),
     (''loadCount'', JNum (loadCount_of (map_of rs k) + 1))]) else map_of rs k')"
  by (simp add: upsertRecord_def update_conv')

lemma store_write_upsert:
  assumes "store_read f = Inr rs" and "fp \<noteq> []"
  shows "store_write None (upsertRecord t k fp rs) f = (None, FileJson (store_json (upsertRecord t k fp rs)))"
    and "store_read (FileJson (store_json (upsertRecord t k fp rs))) = Inr (upsertRecord t k fp rs)"
proof -
  note r = upsert_records [OF store_read_records [OF assms(1)] assms(2), of t k]
  show "store_write None (upsertRecord t k fp rs) f = (None, FileJson (store_json (upsertRecord t k fp rs)))"
    using r by (simp add: store_write_def isStore_def)
  show "store_read (FileJson (store_json (upsertRecord t k fp rs))) = Inr (upsertRecord t k fp rs)"
    by (rule store_read_json [OF r])
qed

interpretation state_file: fingerprint_store store_read "store_write None" upsertRecord known_fingerprint
proof
  show "fst (store_write None (upsertRecord t k fp s) f) = None
      \<and> store_read (snd (store_write None (upsertRecord t k fp s) f)) = Inr (upsertRecord t k fp s)"
    if "store_read f = Inr s" and "fp \<noteq> []" for f s fp t k
    using store_write_upsert [OF that] by simp
  show "known_fingerprint (upsertRecord t k fp s) k' = (if k' = k then Some fp else known_fingerprint s k')" for t k fp s k'
    by (simp add: known_fingerprint_def upsert_fields obj_field_def)
qed

section \<open>Properties\<close>

fun touch_all ::
  "collation \<Rightarrow> (string \<Rightarrow> string) \<Rightarrow> timestamp \<Rightarrow> extension_spec list \<Rightarrow> store_file \<Rightarrow> ext_state list \<times> store_file" where
  "touch_all ck sha t [] f = ([], f)"
| "touch_all ck sha t (s # ss) f =
     (let (r, f1) = touchExtensionState ck sha t None s f; (rs, f2) = touch_all ck sha t ss f1
      in (tr_state r # rs, f2))"

lemma isRecord_fingerprint: "isRecord k r \<Longrightarrow> \<exists>fp. obj_field ''fingerprint'' r = Some (JStr fp)"
  unfolding isRecord_def by (cases "obj_field ''fingerprint'' r") (auto split: json.splits)

lemma touch_eval:
  assumes "store_read f = Inr rs" and "deriveExtensionFingerprint ck sha s \<noteq> []"
  shows "touchExtensionState ck sha t None s f =
    (\<lparr>tr_state = (case known_fingerprint rs (ex_id s) of None \<Rightarrow> XsFirst
        | Some fp \<Rightarrow> if fp = deriveExtensionFingerprint ck sha s then XsSame else XsUpdated),
      tr_fingerprint = deriveExtensionFingerprint ck sha s, tr_warning = None\<rparr>,
     snd (store_write None (upsertRecord t (ex_id s) (deriveExtensionFingerprint ck sha s) rs) f))"
proof -
  have "isRecord k r" if "map_of rs k = Some r" for k r
    using store_read_records [OF assms(1)] map_of_SomeD [OF that] by (auto simp: list_all_iff)
  then have "map_of rs k = Some r \<Longrightarrow> \<exists>fp. obj_field ''fingerprint'' r = Some (JStr fp)" for k r
    by (rule isRecord_fingerprint)
  then have "(case map_of rs (ex_id s) of None \<Rightarrow> XsFirst
      | Some prior \<Rightarrow> if obj_field ''fingerprint'' prior = Some (JStr fp) then XsSame else XsUpdated)
    = (case known_fingerprint rs (ex_id s) of None \<Rightarrow> XsFirst | Some fp' \<Rightarrow> if fp' = fp then XsSame else XsUpdated)" for fp
    by (fastforce simp: known_fingerprint_def split: option.split)
  then show ?thesis
    using store_write_upsert [OF assms, of t "ex_id s"] assms
    by (simp add: touchExtensionState_def Let_def)
qed

lemma touch_all_file:
  assumes "\<And>x. sha x \<noteq> []" and "store_read f = Inr rs"
  shows "snd (touch_all ck sha t ss f)
    = state_file.remember_all t (map (\<lambda>s. (ex_id s, deriveExtensionFingerprint ck sha s)) ss) f"
  using assms(2)
proof (induction ss arbitrary: f rs)
  case (Cons s ss)
  have ne: "deriveExtensionFingerprint ck sha s \<noteq> []" using assms(1) by (simp add: deriveExtensionFingerprint_def)
  note w = store_write_upsert [OF Cons.prems ne, of t "ex_id s"]
  show ?case
    using Cons.IH [OF w(2)] Cons.prems w(1)
    by (simp add: touch_eval [OF Cons.prems ne] Let_def split: prod.split)
      (metis (lifting) snd_conv surj_pair)
qed simp

lemma touch_all_same:
  assumes "\<And>x. sha x \<noteq> []" and "store_read f = Inr rs" and "distinct (map ex_id ss)"
    and "\<forall>s \<in> set ss. known_fingerprint rs (ex_id s) = Some (deriveExtensionFingerprint ck sha s)"
  shows "set (fst (touch_all ck sha t ss f)) \<subseteq> {XsSame}"
  using assms(2-4)
proof (induction ss arbitrary: f rs)
  case (Cons s ss)
  have ne: "deriveExtensionFingerprint ck sha s \<noteq> []" using assms(1) by (simp add: deriveExtensionFingerprint_def)
  let ?rs = "upsertRecord t (ex_id s) (deriveExtensionFingerprint ck sha s) rs"
  have "\<forall>x \<in> set ss. known_fingerprint ?rs (ex_id x) = Some (deriveExtensionFingerprint ck sha x)"
    using Cons.prems by (auto simp: state_file.known_remember)
  then have "set (fst (touch_all ck sha t ss (FileJson (store_json ?rs)))) \<subseteq> {XsSame}"
    using Cons.IH [OF store_write_upsert(2) [OF Cons.prems(1) ne]] Cons.prems(2) by simp
  then show ?case
    using Cons.prems(3) store_write_upsert(1) [OF Cons.prems(1) ne, of t "ex_id s"]
    by (auto simp: touch_eval [OF Cons.prems(1) ne] Let_def split: prod.splits)
qed simp

lemma normalize_eq_iff:
  assumes "inj ck"
  shows "normalizeStringArray ck xs = normalizeStringArray ck ys \<longleftrightarrow> set xs = set ys"
proof
  assume "set xs = set ys"
  then have "mset (js_unique xs) = mset (js_unique ys)"
    using set_eq_iff_mset_eq_distinct [of "js_unique xs" "js_unique ys"] by simp
  then have "sort_key ck (js_unique xs) = sort_key ck (js_unique ys)"
    using assms by (intro sort_key_inj_key_eq) (auto intro: inj_on_subset)
  then show "normalizeStringArray ck xs = normalizeStringArray ck ys" by (simp add: normalizeStringArray_def)
next
  assume "normalizeStringArray ck xs = normalizeStringArray ck ys"
  then show "set xs = set ys"
    unfolding normalizeStringArray_def by (metis set_js_unique set_sort)
qed

lemma names_inj: "lane_name l = lane_name l' \<longleftrightarrow> l = l'" "role_name r = role_name r' \<longleftrightarrow> r = r'"
  by (cases l; cases l'; simp) (cases r; cases r'; simp)

lemma image_lane_name: "lane_name ` A = lane_name ` B \<longleftrightarrow> A = B" "role_name ` C = role_name ` D \<longleftrightarrow> C = D"
  by (simp_all add: inj_image_eq_iff inj_def names_inj)

lemma map_JStr [simp]: "map JStr xs = map JStr ys \<longleftrightarrow> xs = ys"
  by (simp add: inj_map_eq_map inj_def)

lemma wf_payload: "wf_json (toExtensionFingerprintPayload ck s)"
  by (simp add: toExtensionFingerprintPayload_def list_all_iff)

lemma JSON_stringify_inj: "wf_json a \<Longrightarrow> wf_json b \<Longrightarrow> JSON_stringify a = JSON_stringify b \<longleftrightarrow> a = b"
  by (metis JSON_parse_stringify option.inject)

text \<open>
  C40. A touch classifies and remembers. On a file that can be read and written, an extension is first
  seen when the file has no record of it, the same when the recorded fingerprint is its fingerprint, and
  updated otherwise; afterwards the file can be read again, has that fingerprint with a load count one
  higher, and the records of the other extensions are as before.
\<close>

theorem touch_classifies_and_remembers:
  assumes "\<And>x. sha x \<noteq> []" and "store_read f = Inr rs"
  shows "\<exists>f' rs'. touchExtensionState ck sha t None s f =
      (\<lparr>tr_state = (case known_fingerprint rs (ex_id s) of None \<Rightarrow> XsFirst
          | Some fp \<Rightarrow> if fp = deriveExtensionFingerprint ck sha s then XsSame else XsUpdated),
        tr_fingerprint = deriveExtensionFingerprint ck sha s, tr_warning = None\<rparr>, f')
    \<and> store_read f' = Inr rs'
    \<and> known_fingerprint rs' (ex_id s) = Some (deriveExtensionFingerprint ck sha s)
    \<and> loadCount_of (map_of rs' (ex_id s)) = loadCount_of (map_of rs (ex_id s)) + 1
    \<and> (\<forall>k. k \<noteq> ex_id s \<longrightarrow> map_of rs' k = map_of rs k)"
proof -
  have ne: "deriveExtensionFingerprint ck sha s \<noteq> []" using assms(1) by (simp add: deriveExtensionFingerprint_def)
  note w = store_write_upsert [OF assms(2) ne, of t "ex_id s"]
  have count: "loadCount_of (map_of (upsertRecord t k fp rs) k) = loadCount_of (map_of rs k) + 1" for k fp
    unfolding upsert_fields loadCount_of_def by (simp add: obj_field_def)
  show ?thesis
    unfolding touch_eval [OF assms(2) ne] using w count by (auto simp: state_file.known_remember upsert_fields)
qed

text \<open>
  Nothing drifts without a change: when the extensions with distinct ids are touched one after the
  other and then touched again, each one is reported as the same the second time.
\<close>

theorem second_pass_reports_same:
  assumes "\<And>x. sha x \<noteq> []" and "store_read f = Inr rs" and "distinct (map ex_id ss)"
  shows "fst (touch_all ck sha t' ss (snd (touch_all ck sha t ss f))) = replicate (length ss) XsSame"
proof -
  let ?ks = "map (\<lambda>s. (ex_id s, deriveExtensionFingerprint ck sha s)) ss"
  have d: "distinct (map fst ?ks)" using assms(3) by (simp add: o_def)
  have ne: "\<forall>(k, fp) \<in> set ?ks. fp \<noteq> []" using assms(1) by (auto simp: deriveExtensionFingerprint_def)
  obtain rs' where rs': "store_read (snd (touch_all ck sha t ss f)) = Inr rs'"
    "\<forall>k. known_fingerprint rs' k = (case map_of ?ks k of Some fp \<Rightarrow> Some fp | None \<Rightarrow> known_fingerprint rs k)"
    using state_file.remembered [OF assms(2) ne d, of t] touch_all_file [OF assms(1,2), where ck = ck and t = t and ss = ss] by auto
  have "map_of ?ks (ex_id s) = Some (deriveExtensionFingerprint ck sha s)" if "s \<in> set ss" for s
    using that d by (intro map_of_is_SomeI) auto
  then have "\<forall>s \<in> set ss. known_fingerprint rs' (ex_id s) = Some (deriveExtensionFingerprint ck sha s)"
    using rs'(2) by simp
  from touch_all_same [OF assms(1) rs'(1) assms(3) this, of t']
  have "set (fst (touch_all ck sha t' ss (snd (touch_all ck sha t ss f)))) \<subseteq> {XsSame}" .
  moreover have "length (fst (touch_all ck sha u xs g)) = length xs" for u xs g
    by (induction xs arbitrary: g) (simp_all add: Let_def split: prod.split, metis fst_conv)
  ultimately show ?thesis by (intro replicate_eqI) auto
qed

text \<open>
  What a fingerprint is taken of. With a collation that tells every two strings apart, the texts
  that are hashed for two specifications are equal exactly when id, contract version, entry and priority
  are equal and capabilities, lanes and roles are equal as sets.
\<close>

theorem fingerprint_text_iff:
  assumes "inj ck"
  shows "JSON_stringify (toExtensionFingerprintPayload ck s) = JSON_stringify (toExtensionFingerprintPayload ck s')
    \<longleftrightarrow> ex_id s = ex_id s' \<and> ex_contractVersion s = ex_contractVersion s' \<and> ex_entry s = ex_entry s'
      \<and> ex_priority s = ex_priority s' \<and> set (ex_capabilities s) = set (ex_capabilities s')
      \<and> set (ex_lanes s) = set (ex_lanes s') \<and> set (ex_roles s) = set (ex_roles s')"
  unfolding JSON_stringify_inj [OF wf_payload wf_payload]
  by (auto simp: toExtensionFingerprintPayload_def normalize_eq_iff [OF assms] image_lane_name)

section \<open>Witnesses\<close>

definition sample_ck :: collation where
  "sample_ck s = map of_char s"

definition sample_spec :: extension_spec where
  "sample_spec = \<lparr>ex_id = ''a'', ex_contractVersion = ''v1'', ex_entry = ''tool:a'',
     ex_capabilities = [''x'', ''y''], ex_priority = 1, ex_lanes = [LaneQuick], ex_roles = [RoleQuick]\<rparr>"

theorem touch_classifies_and_remembers_witness:
  "\<exists>r f'. touchExtensionState sample_ck (\<lambda>x. CHR ''h'' # x) ''2024'' None sample_spec FileMissing = (r, f')
     \<and> tr_state r = XsFirst"
proof -
  have "store_read FileMissing = Inr []" by (simp add: store_read_def createEmptyStore_def)
  from touch_classifies_and_remembers [where sha = "\<lambda>x. CHR ''h'' # x", OF _ this, of sample_ck "''2024''" sample_spec]
  show ?thesis by (auto simp: known_fingerprint_def)
qed

theorem second_pass_reports_same_witness:
  "fst (touch_all sample_ck (\<lambda>x. CHR ''h'' # x) ''2025'' [sample_spec, sample_spec\<lparr>ex_id := ''b''\<rparr>]
     (snd (touch_all sample_ck (\<lambda>x. CHR ''h'' # x) ''2024'' [sample_spec, sample_spec\<lparr>ex_id := ''b''\<rparr>] FileMissing)))
   = [XsSame, XsSame]"
proof -
  have "store_read FileMissing = Inr []" by (simp add: store_read_def createEmptyStore_def)
  from second_pass_reports_same [where sha = "\<lambda>x. CHR ''h'' # x", OF _ this,
      of "[sample_spec, sample_spec\<lparr>ex_id := ''b''\<rparr>]" sample_ck "''2025''" "''2024''"]
  show ?thesis by (simp add: sample_spec_def numeral_2_eq_2)
qed

theorem fingerprint_text_iff_witness:
  "JSON_stringify (toExtensionFingerprintPayload sample_ck sample_spec)
   = JSON_stringify (toExtensionFingerprintPayload sample_ck (sample_spec\<lparr>ex_capabilities := [''y'', ''x'', ''y'']\<rparr>))"
proof -
  have "inj sample_ck" by (auto simp: sample_ck_def inj_def inj_map_eq_map)
  from fingerprint_text_iff [OF this, of sample_spec "sample_spec\<lparr>ex_capabilities := [''y'', ''x'', ''y'']\<rparr>"]
  show ?thesis by (simp add: sample_spec_def) auto
qed

end
