(* ===== verification/McpRouting.thy ===== *)
theory McpRouting
  imports ExtensionState "HOL-Library.Product_Lexorder"
begin

text \<open>
  Choosing the MCP servers and skills of an execution envelope: the registries, the intent tags and
  scores of \<^verbatim>\<open>mcp-routing-policy.ts\<close>, the planner of \<^verbatim>\<open>choose-mcps.ts\<close> and \<^verbatim>\<open>choose-skills.ts\<close>, the envelope
  built from them, and the enforcement of \<^verbatim>\<open>enforce-mcp-routing.ts\<close>, which checks the plan against the
  runtime status of each server, blocks or falls back, and touches the extension state file.

  Options that are absent are \<open>None\<close>; absent options altogether behave like options that are all absent,
  because the code reads each of them with its own default.
\<close>

datatype reason_code =
    LaneMatch | LaneMismatch | RoleMatch | RoleMismatch | IntentMatch | IntentNoMatch | CapabilityMatch
  | CapabilityDenied | PriorityBoost | Deprioritized | RequiresAuth | NeedsAuth | StatusUnavailable
  | StatusDegraded | FallbackApplied | BlockedByPrecondition | NoRuntimeStatus | NoAuthContext
  | EntryMissing | ContractVersionMismatch | CompatCheckFailed | StatusStale | MissingRuntimeSignal

datatype routing_status = RsAvailable | RsDegraded | RsNeedsAuth | RsUnavailable

datatype health_class = HcCritical | HcStandard | HcBestEffort

datatype decision_kind = DkAllow | DkBlock | DkModify

datatype fail_safe = AllowWithWarning | DegradeOrFallback

record mcp_entry =
  mc_id :: string
  mc_contractVersion :: string
  mc_entry :: string
  mc_description :: string
  mc_lanes :: "workflow_lane list"
  mc_roles :: "agent_role list"
  mc_triggerTags :: "string list"
  mc_capabilities :: "string list"
  mc_priority :: int
  mc_requiresAuth :: "bool option"
  mc_degradeTo :: "string list option"
  mc_healthClass :: "health_class option"

record mcp_runtime =
  mr_status :: routing_status
  mr_serverKey :: "string option"
  mr_authReady :: "bool option"
  mr_observedAt :: "string option"
  mr_freshnessWindowMs :: "int option"
  mr_stale :: "bool option"
  mr_transitionReason :: "string option"
  mr_transitionFrom :: "routing_status option"
  mr_signalMissing :: "bool option"

type_synonym runtime_snapshot = "(string, mcp_runtime) js_map"

record mcp_options =
  op_runtimeSnapshot :: "runtime_snapshot option"
  op_maxSelected :: "int option"
  op_requiredCapabilities :: "string list option"
  op_supportedContractVersions :: "string list option"
  op_runtimeStateRepoRoot :: "string option"
  op_staleRuntimeFailSafe :: "fail_safe option"
  op_missingRuntimeFailSafe :: "fail_safe option"

record routing =
  rt_selected :: "string list"
  rt_blocked :: "string list"
  rt_warnings :: "string list"
  rt_decisions :: "(string, decision_kind) js_map"
  rt_reasons :: "(string, reason_code list) js_map"
  rt_rejected :: "(string, reason_code list) js_map"

section \<open>Registry\<close>

definition MCP_EXTENSION_CONTRACT_VERSION :: string where
  "MCP_EXTENSION_CONTRACT_VERSION = ''v1''"

definition DEFAULT_MCP_REGISTRY :: "mcp_entry list" where
  "DEFAULT_MCP_REGISTRY =
    [\<lparr>mc_id = ''augment_context_engine'', mc_contractVersion = MCP_EXTENSION_CONTRACT_VERSION,
      mc_entry = ''tool:augment_context_engine'', mc_description = ''Semantic workspace code search'',
      mc_lanes = [LaneQuick, LaneDelivery, LaneMigration],
      mc_roles = [RoleQuick, RoleAnalyst, RoleArchitect, RoleImplementer, RoleReviewer],
      mc_triggerTags = [''codebase'', ''trace'', ''impact'', ''bug''],
      mc_capabilities = [''code_search'', ''impact_analysis'', ''traceability''], mc_priority = 100,
      mc_requiresAuth = None, mc_degradeTo = None, mc_healthClass = Some HcCritical\<rparr>,
     \<lparr>mc_id = ''context7'', mc_contractVersion = MCP_EXTENSION_CONTRACT_VERSION,
      mc_entry = ''tool:context7'', mc_description = ''Official docs and snippets'',
      mc_lanes = [LaneQuick, LaneDelivery, LaneMigration],
      mc_roles = [RoleQuick, RoleAnalyst, RoleArchitect, RoleReviewer],
      mc_triggerTags = [''library'', ''framework'', ''migration'', ''api''],
      mc_capabilities = [''docs_lookup'', ''api_reference'', ''migration_research''], mc_priority = 90,
      mc_requiresAuth = None, mc_degradeTo = None, mc_healthClass = Some HcStandard\<rparr>,
     \<lparr>mc_id = ''grep_app'', mc_contractVersion = MCP_EXTENSION_CONTRACT_VERSION,
      mc_entry = ''tool:grep_app'', mc_description = ''Real-world GitHub examples'',
      mc_lanes = [LaneDelivery, LaneMigration], mc_roles = [RoleAnalyst, RoleArchitect],
      mc_triggerTags = [''research'', ''pattern'', ''migration''],
      mc_capabilities = [''pattern_research'', ''migration_research''], mc_priority = 80,
      mc_requiresAuth = None, mc_degradeTo = None, mc_healthClass = Some HcBestEffort\<rparr>,
     \<lparr>mc_id = ''websearch'', mc_contractVersion = MCP_EXTENSION_CONTRACT_VERSION,
      mc_entry = ''tool:websearch'', mc_description = ''External research and release notes'',
      mc_lanes = [LaneDelivery, LaneMigration], mc_roles = [RoleAnalyst, RoleArchitect, RoleTester],
      mc_triggerTags = [''research'', ''release-notes'', ''ecosystem''],
      mc_capabilities = [''ecosystem_research'', ''release_notes'', ''external_lookup''], mc_priority = 70,
      mc_requiresAuth = None, mc_degradeTo = None, mc_healthClass = Some HcBestEffort\<rparr>,
     \<lparr>mc_id = ''chrome-devtools'', mc_contractVersion = MCP_EXTENSION_CONTRACT_VERSION,
      mc_entry = ''tool:chrome-devtools'', mc_description = ''Browser diagnostics'',
      mc_lanes = [LaneQuick, LaneDelivery, LaneMigration], mc_roles = [RoleQuick, RoleTester],
      mc_triggerTags = [''browser'', ''frontend'', ''performance''],
      mc_capabilities = [''browser_diag'', ''performance_diagnostics''], mc_priority = 95,
      mc_requiresAuth = Some True, mc_degradeTo = Some [''playwright'', ''augment_context_engine''],
      mc_healthClass = Some HcStandard\<rparr>,
     \<lparr>mc_id = ''playwright'', mc_contractVersion = MCP_EXTENSION_CONTRACT_VERSION,
      mc_entry = ''tool:playwright'', mc_description = ''Browser automation'',
      mc_lanes = [LaneQuick, LaneDelivery, LaneMigration], mc_roles = [RoleQuick, RoleTester],
      mc_triggerTags = [''browser'', ''frontend'', ''ui-flow''],
      mc_capabilities = [''browser_automation'', ''ui_flow'', ''frontend_verification''], mc_priority = 85,
      mc_requiresAuth = Some True, mc_degradeTo = Some [''augment_context_engine''],
      mc_healthClass = Some HcStandard\<rparr>]"

section \<open>Routing policy\<close>

definition has_any :: "string \<Rightarrow> string list \<Rightarrow> bool" where
  "has_any s ws = list_ex (\<lambda>w. js_includes s w) ws"

definition inferIntentTags :: "string \<Rightarrow> string list" where
  "inferIntentTags intent =
     (let normalized = js_lower intent in
      js_unique ([''codebase'']
        @ (if has_any normalized [''trace''] then [''trace''] else [])
        @ (if has_any normalized [''impact''] then [''impact''] else [])
        @ (if has_any normalized [''bug'', ''debug''] then [''bug''] else [])
        @ (if has_any normalized [''library'', ''framework'', ''api''] then [''library'', ''framework'', ''api''] else [])
        @ (if has_any normalized [''browser'', ''ui'', ''frontend'']
           then [''browser'', ''frontend'', ''ui-flow'', ''performance''] else [])
        @ (if has_any normalized [''migration'', ''release'']
           then [''migration'', ''research'', ''release-notes'', ''ecosystem'', ''pattern''] else [])))"

definition scoreRegistryEntry :: "mcp_entry \<Rightarrow> string list \<Rightarrow> int \<times> reason_code list" where
  "scoreRegistryEntry entry intentTags =
     (if list_ex (\<lambda>tag. tag \<in> set intentTags) (mc_triggerTags entry)
      then (mc_priority entry + 20, [PriorityBoost, IntentMatch, CapabilityMatch])
      else (mc_priority entry - 25, [PriorityBoost, IntentNoMatch, Deprioritized]))"

definition runtimeRecordFor :: "string \<Rightarrow> runtime_snapshot option \<Rightarrow> mcp_runtime option" where
  "runtimeRecordFor mcpName snapshot = Option.bind snapshot (\<lambda>s. map_of s mcpName)"

definition runtimeStatusFor :: "string \<Rightarrow> runtime_snapshot option \<Rightarrow> routing_status option" where
  "runtimeStatusFor mcpName snapshot = map_option mr_status (runtimeRecordFor mcpName snapshot)"

definition fallbackTargets :: "mcp_entry \<Rightarrow> string list" where
  "fallbackTargets entry = nullish (mc_degradeTo entry) []"

definition canUseDegraded :: "mcp_entry \<Rightarrow> bool" where
  "canUseDegraded entry = (case mc_healthClass entry of None \<Rightarrow> False | Some h \<Rightarrow> h \<noteq> HcCritical)"

definition hasAllRequiredCapabilities :: "mcp_entry \<Rightarrow> string list \<Rightarrow> bool" where
  "hasAllRequiredCapabilities entry required = list_all (\<lambda>c. c \<in> set (mc_capabilities entry)) required"

definition truthy :: "bool option \<Rightarrow> bool" where
  "truthy b = nullish b False"

section \<open>Planning\<close>

abbreviation op_capabilities :: "mcp_options \<Rightarrow> string list" where
  "op_capabilities opts \<equiv> nullish (op_requiredCapabilities opts) []"

abbreviation op_versions :: "mcp_options \<Rightarrow> string list" where
  "op_versions opts \<equiv> nullish (op_supportedContractVersions opts) [''v1'']"

record mcp_candidate =
  cd_entry :: mcp_entry
  cd_score :: int
  cd_reasons :: "reason_code list"

text \<open>
  The callback of \<^verbatim>\<open>map\<close> over the registry: \<open>Inl\<close> is a \<^verbatim>\<open>null\<close> with what it writes to \<^verbatim>\<open>rejected\<close>. A record
  with no status cannot occur, the status of a record is required.
\<close>

definition candidateFor ::
  "execution_envelope \<Rightarrow> string list \<Rightarrow> mcp_options \<Rightarrow> mcp_entry \<Rightarrow> reason_code list + mcp_candidate" where
  "candidateFor env tags opts entry =
     (let stale_fs = nullish (op_staleRuntimeFailSafe opts) AllowWithWarning;
          missing_fs = nullish (op_missingRuntimeFailSafe opts) AllowWithWarning in
      if mc_contractVersion entry \<notin> set (op_versions opts) then Inl [ContractVersionMismatch]
      else if mc_entry entry = [] then Inl [EntryMissing]
      else if ee_lane env \<notin> set (mc_lanes entry) then Inl [LaneMismatch]
      else if ee_role env \<notin> set (mc_roles entry) then Inl [RoleMismatch]
      else if \<not> hasAllRequiredCapabilities entry (op_capabilities opts) then Inl [CapabilityDenied]
      else
        let r0 = [LaneMatch, RoleMatch] @ (if op_capabilities opts \<noteq> [] then [CapabilityMatch] else []);
            (score, scoreReasons) = scoreRegistryEntry entry tags;
            runtimeStatus = runtimeStatusFor (mc_id entry) (op_runtimeSnapshot opts);
            runtimeRecord = runtimeRecordFor (mc_id entry) (op_runtimeSnapshot opts);
            missing = (case runtimeRecord of None \<Rightarrow> False | Some r \<Rightarrow> truthy (mr_signalMissing r));
            stale = (case runtimeRecord of None \<Rightarrow> False | Some r \<Rightarrow> truthy (mr_stale r)) in
        if runtimeStatus = None \<and> missing_fs = DegradeOrFallback then Inl (r0 @ [MissingRuntimeSignal])
        else
          let r1 = r0 @ (if runtimeStatus = None then [NoRuntimeStatus] else []) in
          if missing \<and> missing_fs = DegradeOrFallback then Inl (r1 @ [MissingRuntimeSignal])
          else
            let r2 = r1 @ (if missing \<and> missing_fs = AllowWithWarning then [MissingRuntimeSignal] else []) in
            if stale \<and> stale_fs = DegradeOrFallback then Inl (r2 @ [StatusStale])
            else
              let r3 = r2 @ (if stale \<and> stale_fs = AllowWithWarning then [StatusStale] else [])
              in Inr \<lparr>cd_entry = entry, cd_score = score, cd_reasons = r3 @ scoreReasons\<rparr>)"

definition sortCandidates :: "collation \<Rightarrow> mcp_candidate list \<Rightarrow> mcp_candidate list" where
  "sortCandidates ck cs = sort_key (\<lambda>c. (- cd_score c, ck (mc_id (cd_entry c)))) cs"

definition selectCandidate :: "int \<Rightarrow> mcp_candidate \<Rightarrow> routing \<Rightarrow> routing" where
  "selectCandidate maxSelected c r =
     (let i = mc_id (cd_entry c) in
      if int (length (rt_selected r)) \<ge> maxSelected
      then r\<lparr>rt_rejected := AList.update i (cd_reasons c @ [Deprioritized]) (rt_rejected r)\<rparr>
      else r\<lparr>rt_selected := rt_selected r @ [i],
             rt_decisions := AList.update i DkAllow (rt_decisions r),
             rt_reasons := AList.update i (cd_reasons c) (rt_reasons r)\<rparr>)"

definition byPriority :: "collation \<Rightarrow> mcp_entry list \<Rightarrow> mcp_entry list" where
  "byPriority ck es = sort_key (\<lambda>e. (- mc_priority e, ck (mc_id e))) es"

definition plannerSafe :: "execution_envelope \<Rightarrow> mcp_options \<Rightarrow> mcp_entry \<Rightarrow> bool" where
  "plannerSafe env opts entry =
     (let stale_fs = nullish (op_staleRuntimeFailSafe opts) AllowWithWarning;
          missing_fs = nullish (op_missingRuntimeFailSafe opts) AllowWithWarning in
      mc_contractVersion entry \<in> set (op_versions opts) \<and> mc_entry entry \<noteq> []
      \<and> ee_lane env \<in> set (mc_lanes entry) \<and> ee_role env \<in> set (mc_roles entry)
      \<and> hasAllRequiredCapabilities entry (op_capabilities opts)
      \<and> (case runtimeRecordFor (mc_id entry) (op_runtimeSnapshot opts) of
           None \<Rightarrow> missing_fs \<noteq> DegradeOrFallback
         | Some r \<Rightarrow> \<not> (truthy (mr_signalMissing r) \<and> missing_fs = DegradeOrFallback)
             \<and> \<not> (truthy (mr_stale r) \<and> stale_fs = DegradeOrFallback)
             \<and> \<not> (mr_status r = RsUnavailable \<or> mr_status r = RsNeedsAuth)))"

definition pickPlannerSafeFallback :: "collation \<Rightarrow> execution_envelope \<Rightarrow> mcp_options \<Rightarrow> string option" where
  "pickPlannerSafeFallback ck env opts =
     map_option mc_id (List.find (plannerSafe env opts) (byPriority ck DEFAULT_MCP_REGISTRY))"

definition rejectEntries ::
  "(mcp_entry \<Rightarrow> reason_code list + mcp_candidate) \<Rightarrow> mcp_entry list \<Rightarrow> (string, reason_code list) js_map" where
  "rejectEntries f es =
     fold (\<lambda>e m. case f e of Inl rs \<Rightarrow> AList.update (mc_id e) rs m | Inr _ \<Rightarrow> m) es []"

definition candidates_of ::
  "(mcp_entry \<Rightarrow> reason_code list + mcp_candidate) \<Rightarrow> mcp_entry list \<Rightarrow> mcp_candidate list" where
  "candidates_of f es = List.map_filter (\<lambda>e. case f e of Inl _ \<Rightarrow> None | Inr c \<Rightarrow> Some c) es"

definition plannerFallback :: "collation \<Rightarrow> execution_envelope \<Rightarrow> mcp_options \<Rightarrow> routing \<Rightarrow> routing" where
  "plannerFallback ck env opts r =
     (if rt_selected r \<noteq> [] then r
      else case pickPlannerSafeFallback ck env opts of
        Some i \<Rightarrow> r\<lparr>rt_warnings := rt_warnings r @
              [''No MCP candidate selected by lane/role policy. Fallback to '' @ i @ ''.''],
            rt_selected := [i], rt_decisions := AList.update i DkModify (rt_decisions r),
            rt_reasons := AList.update i [FallbackApplied] (rt_reasons r)\<rparr>
      | None \<Rightarrow> r\<lparr>rt_warnings := rt_warnings r @
              [''No MCP candidate selected by lane/role policy and no safe fallback is available.'']\<rparr>)"

definition chooseMcpsDetailed ::
  "collation \<Rightarrow> execution_envelope \<Rightarrow> string \<Rightarrow> mcp_options \<Rightarrow> routing" where
  "chooseMcpsDetailed ck env intent opts =
     (let f = candidateFor env (inferIntentTags intent) opts;
          start = \<lparr>rt_selected = [], rt_blocked = [], rt_warnings = [], rt_decisions = [], rt_reasons = [],
            rt_rejected = rejectEntries f DEFAULT_MCP_REGISTRY\<rparr>;
          chosen = fold (selectCandidate (nullish (op_maxSelected opts) 4))
            (sortCandidates ck (candidates_of f DEFAULT_MCP_REGISTRY)) start
      in plannerFallback ck env opts chosen)"

definition v1_options :: mcp_options where
  "v1_options = \<lparr>op_runtimeSnapshot = None, op_maxSelected = None, op_requiredCapabilities = None,
     op_supportedContractVersions = Some [''v1''], op_runtimeStateRepoRoot = None,
     op_staleRuntimeFailSafe = None, op_missingRuntimeFailSafe = None\<rparr>"

definition chooseMcps :: "collation \<Rightarrow> execution_envelope \<Rightarrow> string \<Rightarrow> string list" where
  "chooseMcps ck env intent = rt_selected (chooseMcpsDetailed ck env intent v1_options)"

section \<open>Enforcement\<close>

text \<open>
  The variables of \<open>enforceMcpRoutingDetailed\<close> and the state file. \<open>env_*\<close> is what the touches read: the
  collation, the hash, the clock and the outcome of each write to the file.
\<close>

record touch_env =
  te_ck :: collation
  te_sha :: "string \<Rightarrow> string"
  te_now :: "nat \<Rightarrow> timestamp"
  te_fail :: "nat \<Rightarrow> string option"

record enforcing =
  en_selected :: "string list"
  en_blocked :: "string list"
  en_warnings :: "string list"
  en_decisions :: "(string, decision_kind) js_map"
  en_reasons :: "(string, reason_code list) js_map"
  en_rejected :: "(string, reason_code list) js_map"
  en_runtimeStates :: runtime_states
  en_file :: store_file
  en_count :: nat

definition toExtensionSpec :: "mcp_entry \<Rightarrow> extension_spec" where
  "toExtensionSpec e = \<lparr>ex_id = mc_id e, ex_contractVersion = mc_contractVersion e, ex_entry = mc_entry e,
     ex_capabilities = mc_capabilities e, ex_priority = mc_priority e, ex_lanes = mc_lanes e,
     ex_roles = mc_roles e\<rparr>"

definition applyRuntimeStateTouch ::
  "touch_env \<Rightarrow> mcp_options \<Rightarrow> mcp_entry \<Rightarrow> enforcing \<Rightarrow> enforcing" where
  "applyRuntimeStateTouch T opts entry s =
     (if nullish (op_runtimeStateRepoRoot opts) [] = [] then s
      else if map_of (en_runtimeStates s) (mc_id entry) \<noteq> None then s
      else
        let (res, file) = touchExtensionState (te_ck T) (te_sha T) (te_now T (en_count s)) (te_fail T (en_count s))
              (toExtensionSpec entry) (en_file s)
        in s\<lparr>en_runtimeStates := AList.update (mc_id entry) (tr_state res, tr_fingerprint res) (en_runtimeStates s),
             en_warnings := en_warnings s @ (case tr_warning res of None \<Rightarrow> [] | Some w \<Rightarrow> [w]),
             en_file := file, en_count := en_count s + 1\<rparr>)"

definition enforcedRuntimeOk :: "mcp_options \<Rightarrow> string \<Rightarrow> bool" where
  "enforcedRuntimeOk opts i =
     (let stale_fs = nullish (op_staleRuntimeFailSafe opts) DegradeOrFallback;
          missing_fs = nullish (op_missingRuntimeFailSafe opts) DegradeOrFallback in
      case runtimeRecordFor i (op_runtimeSnapshot opts) of
        None \<Rightarrow> missing_fs \<noteq> DegradeOrFallback
      | Some r \<Rightarrow> \<not> (mr_status r = RsUnavailable \<or> mr_status r = RsNeedsAuth)
          \<and> \<not> (stale_fs = DegradeOrFallback \<and> truthy (mr_stale r))
          \<and> \<not> (missing_fs = DegradeOrFallback \<and> truthy (mr_signalMissing r)))"

definition fallbackOk :: "mcp_options \<Rightarrow> string list \<Rightarrow> mcp_entry \<Rightarrow> bool" where
  "fallbackOk opts blk e =
     (mc_id e \<notin> set blk \<and> mc_contractVersion e \<in> set (op_versions opts) \<and> mc_entry e \<noteq> []
      \<and> hasAllRequiredCapabilities e (op_capabilities opts) \<and> enforcedRuntimeOk opts (mc_id e))"

definition registryEntry :: "string \<Rightarrow> mcp_entry option" where
  "registryEntry i = List.find (\<lambda>e. mc_id e = i) DEFAULT_MCP_REGISTRY"

definition pickFallback :: "mcp_entry \<Rightarrow> string list \<Rightarrow> mcp_options \<Rightarrow> string option" where
  "pickFallback entry blk opts =
     List.find (\<lambda>i. case registryEntry i of None \<Rightarrow> False | Some e \<Rightarrow> fallbackOk opts blk e)
       (fallbackTargets entry)"

definition pickGlobalSafeFallback :: "collation \<Rightarrow> string list \<Rightarrow> mcp_options \<Rightarrow> string option" where
  "pickGlobalSafeFallback ck blk opts =
     map_option mc_id (List.find (fallbackOk opts blk) (byPriority ck DEFAULT_MCP_REGISTRY))"

definition dedupeExcluding :: "string list \<Rightarrow> string list \<Rightarrow> string list" where
  "dedupeExcluding values blk = js_unique (filter (\<lambda>v. v \<notin> set blk) values)"

definition warn :: "string \<Rightarrow> enforcing \<Rightarrow> enforcing" where
  "warn msg s = s\<lparr>en_warnings := en_warnings s @ [msg]\<rparr>"

definition addReasons :: "string \<Rightarrow> reason_code list \<Rightarrow> enforcing \<Rightarrow> enforcing" where
  "addReasons i rs s = s\<lparr>en_reasons := AList.update i (nullish (map_of (en_reasons s) i) [] @ rs) (en_reasons s)\<rparr>"

definition blockMcp :: "string \<Rightarrow> reason_code \<Rightarrow> enforcing \<Rightarrow> enforcing" where
  "blockMcp i code s =
     (let existing = nullish (map_of (en_rejected s) i) [] in
      s\<lparr>en_blocked := (if i \<in> set (en_blocked s) then en_blocked s else en_blocked s @ [i]),
        en_rejected := AList.update i (if code \<in> set existing then existing else existing @ [code]) (en_rejected s),
        en_decisions := AList.update i DkBlock (en_decisions s)\<rparr>)"

definition forgetReasons :: "string \<Rightarrow> enforcing \<Rightarrow> enforcing" where
  "forgetReasons i s = s\<lparr>en_reasons := AList.delete i (en_reasons s)\<rparr>"

definition denyMcp :: "string \<Rightarrow> reason_code \<Rightarrow> string \<Rightarrow> enforcing \<Rightarrow> enforcing" where
  "denyMcp i code msg s = warn msg (forgetReasons i (blockMcp i code s))"

text \<open>The fallback that follows a block, the same in every branch but for its texts and the touch.\<close>

definition fallBack ::
  "touch_env \<Rightarrow> mcp_options \<Rightarrow> bool \<Rightarrow> mcp_entry \<Rightarrow> reason_code \<Rightarrow> (string \<Rightarrow> string) \<Rightarrow> string \<Rightarrow> enforcing \<Rightarrow> enforcing" where
  "fallBack T opts touch entry code applied none s =
     (case pickFallback entry (en_blocked s) opts of
        None \<Rightarrow> warn none s
      | Some i \<Rightarrow>
          let s1 = warn (applied i) (addReasons i [FallbackApplied, code]
                (s\<lparr>en_selected := en_selected s @ [i], en_decisions := AList.update i DkModify (en_decisions s)\<rparr>))
          in if touch then (case registryEntry i of None \<Rightarrow> s1 | Some e \<Rightarrow> applyRuntimeStateTouch T opts e s1)
             else s1)"

definition admitMcp :: "touch_env \<Rightarrow> mcp_options \<Rightarrow> mcp_entry \<Rightarrow> enforcing \<Rightarrow> enforcing" where
  "admitMcp T opts entry s =
     (let s1 = s\<lparr>en_decisions := (if map_of (en_decisions s) (mc_id entry) = None
             then AList.update (mc_id entry) DkAllow (en_decisions s) else en_decisions s)\<rparr>;
          s2 = applyRuntimeStateTouch T opts entry s1
      in s2\<lparr>en_selected := en_selected s2 @ [mc_id entry]\<rparr>)"

text \<open>The body of the loop over the planned servers after the checks that deny one outright.\<close>

definition enforceRuntime :: "touch_env \<Rightarrow> mcp_options \<Rightarrow> mcp_entry \<Rightarrow> enforcing \<Rightarrow> enforcing" where
  "enforceRuntime T opts entry s =
     (let i = mc_id entry;
          stale_fs = nullish (op_staleRuntimeFailSafe opts) DegradeOrFallback;
          missing_fs = nullish (op_missingRuntimeFailSafe opts) DegradeOrFallback;
          block = (\<lambda>code s. forgetReasons i (blockMcp i code s));
          missing = (\<lambda>s. fallBack T opts True entry MissingRuntimeSignal
            (\<lambda>f. ''Fail-safe fallback applied: '' @ quoted i @ '' missing runtime signal -> '' @ quoted f @ ''.'')
            (''MCP '' @ quoted i @ '' missing runtime signal and no fallback is available.'')
            (block MissingRuntimeSignal s)) in
      case runtimeRecordFor i (op_runtimeSnapshot opts) of
        None \<Rightarrow>
          if missing_fs = AllowWithWarning
          then let s1 = addReasons i [NoRuntimeStatus] s;
                   s2 = warn (''No runtime status for '' @ quoted i @ '', using metadata-only routing.'')
                     (s1\<lparr>en_decisions := AList.update i DkAllow (en_decisions s1)\<rparr>);
                   s3 = applyRuntimeStateTouch T opts entry s2
               in s3\<lparr>en_selected := en_selected s3 @ [i]\<rparr>
          else missing s
      | Some r \<Rightarrow>
          if truthy (mr_signalMissing r) \<and> missing_fs = DegradeOrFallback then missing s
          else if truthy (mr_stale r) \<and> stale_fs = DegradeOrFallback
          then fallBack T opts True entry StatusStale
            (\<lambda>f. ''Fail-safe fallback applied: '' @ quoted i @ '' stale runtime status -> '' @ quoted f @ ''.'')
            (''MCP '' @ quoted i @ '' runtime status is stale and no fallback is available.'')
            (block StatusStale s)
          else
            let s1 = (if truthy (mr_signalMissing r) \<and> missing_fs = AllowWithWarning
                  then warn (''MCP '' @ quoted i @ '' runtime signal is missing; continuing with caution.'')
                    (addReasons i [MissingRuntimeSignal] s) else s);
                s2 = (if truthy (mr_stale r) \<and> stale_fs = AllowWithWarning
                  then warn (''MCP '' @ quoted i @ '' runtime status is stale; continuing with caution.'')
                    (addReasons i [StatusStale] s1) else s1) in
            if mr_status r = RsUnavailable
            then fallBack T opts True entry StatusUnavailable
              (\<lambda>f. ''Fallback applied: '' @ quoted i @ '' unavailable -> '' @ quoted f @ ''.'')
              (''No fallback available for unavailable MCP '' @ quoted i @ ''.'')
              (block StatusUnavailable s2)
            else if mr_status r = RsNeedsAuth
            then fallBack T opts True entry NeedsAuth
              (\<lambda>f. ''Fallback applied: '' @ quoted i @ '' needs auth -> '' @ quoted f @ ''.'')
              (''MCP '' @ quoted i @ '' needs auth and has no fallback.'')
              (block NeedsAuth s2)
            else if truthy (mc_requiresAuth entry) \<and> mr_authReady r = Some False
            then fallBack T opts True entry RequiresAuth
              (\<lambda>f. ''Fallback applied: '' @ quoted i @ '' auth not ready -> '' @ quoted f @ ''.'')
              (''MCP '' @ quoted i @ '' requires auth and no non-auth fallback is available.'')
              (block RequiresAuth s2)
            else
              let s3 = (if truthy (mc_requiresAuth entry) \<and> mr_authReady r = None
                    then addReasons i [RequiresAuth, NoAuthContext]
                      (warn (''Auth context missing for '' @ quoted i @ ''.'') s2) else s2) in
              if mr_status r = RsDegraded \<and> \<not> canUseDegraded entry
              then fallBack T opts False entry StatusDegraded
                (\<lambda>f. ''Fallback applied: critical MCP '' @ quoted i @ '' degraded -> '' @ quoted f @ ''.'')
                (''Critical MCP '' @ quoted i @ '' is degraded and has no fallback.'')
                (blockMcp i StatusDegraded s3)
              else
                let s4 = (if mr_status r = RsDegraded
                      then warn (''MCP '' @ quoted i @ '' is degraded but still allowed by policy.'')
                        (let t = addReasons i [StatusDegraded] s3
                         in t\<lparr>en_decisions := AList.update i DkModify (en_decisions t)\<rparr>) else s3)
                in admitMcp T opts entry s4)"

definition enforceOne :: "touch_env \<Rightarrow> execution_envelope \<Rightarrow> mcp_options \<Rightarrow> string \<Rightarrow> enforcing \<Rightarrow> enforcing" where
  "enforceOne T env opts i s =
     (case registryEntry i of
        None \<Rightarrow> warn (''MCP '' @ quoted i @ '' is not present in registry metadata.'')
          (blockMcp i BlockedByPrecondition s)
      | Some entry \<Rightarrow>
          if mc_contractVersion entry \<notin> set (op_versions opts)
          then denyMcp i ContractVersionMismatch (''MCP '' @ quoted i @ '' contract version ''
            @ quoted (mc_contractVersion entry) @ '' is not supported.'') s
          else if mc_entry entry = []
          then denyMcp i EntryMissing (''MCP '' @ quoted i @ '' is missing required entry metadata.'') s
          else if ee_lane env \<notin> set (mc_lanes entry)
          then denyMcp i LaneMismatch (''MCP '' @ quoted i @ '' is not allowed for lane ''
            @ quoted (lane_name (ee_lane env)) @ ''.'') s
          else if ee_role env \<notin> set (mc_roles entry)
          then denyMcp i RoleMismatch (''MCP '' @ quoted i @ '' is not allowed for role ''
            @ quoted (role_name (ee_role env)) @ ''.'') s
          else if \<not> hasAllRequiredCapabilities entry (op_capabilities opts)
          then denyMcp i CapabilityDenied (''MCP '' @ quoted i @ '' does not satisfy required capabilities: ''
            @ js_join '','' (op_capabilities opts) @ ''.'') s
          else enforceRuntime T opts entry s)"

definition forceFallback :: "touch_env \<Rightarrow> mcp_options \<Rightarrow> enforcing \<Rightarrow> enforcing" where
  "forceFallback T opts s =
     (if en_selected s \<noteq> [] then s
      else case pickGlobalSafeFallback (te_ck T) (en_blocked s) opts of
        None \<Rightarrow> warn ''All selected MCPs were blocked and no safe fallback is available.'' s
      | Some i \<Rightarrow>
          let s1 = warn (''All selected MCPs were blocked; forcing safe fallback to '' @ i @ ''.'') s;
              s2 = addReasons i [FallbackApplied] (s1\<lparr>en_selected := [i],
                en_decisions := AList.update i DkModify (en_decisions s1)\<rparr>)
          in case registryEntry i of None \<Rightarrow> s2 | Some e \<Rightarrow> applyRuntimeStateTouch T opts e s2)"

definition driftOf :: "touch_env \<Rightarrow> mcp_options \<Rightarrow> enforcing \<Rightarrow> drift_report option" where
  "driftOf T opts s =
     (if nullish (op_runtimeStateRepoRoot opts) [] = [] then None
      else Some (buildExtensionStateDriftReport (te_ck T) (te_now T (en_count s)) (en_file s) (en_runtimeStates s)))"

definition enforceMcpRoutingDetailed ::
  "touch_env \<Rightarrow> execution_envelope \<Rightarrow> string \<Rightarrow> mcp_options \<Rightarrow> store_file \<Rightarrow> enforcing \<times> drift_report option" where
  "enforceMcpRoutingDetailed T env intent opts file =
     (let planned = chooseMcpsDetailed (te_ck T) env intent opts;
          start = \<lparr>en_selected = [], en_blocked = rt_blocked planned, en_warnings = rt_warnings planned,
            en_decisions = rt_decisions planned, en_reasons = rt_reasons planned,
            en_rejected = rt_rejected planned, en_runtimeStates = [], en_file = file, en_count = 0\<rparr>;
          looped = fold (enforceOne T env opts) (rt_selected planned) start;
          deduped = looped\<lparr>en_selected := dedupeExcluding (en_selected looped) (en_blocked looped)\<rparr>;
          drift = driftOf T opts deduped;
          warned = (case drift of None \<Rightarrow> deduped
            | Some d \<Rightarrow> deduped\<lparr>en_warnings := en_warnings deduped @ dr_warnings d, en_count := en_count deduped + 1\<rparr>)
      in (forceFallback T opts warned, drift))"

definition enforceMcpRouting :: "touch_env \<Rightarrow> execution_envelope \<Rightarrow> string \<Rightarrow> store_file \<Rightarrow> string list" where
  "enforceMcpRouting T env intent file = en_selected (fst (enforceMcpRoutingDetailed T env intent v1_options file))"

section \<open>Skills, tools and the envelope\<close>

record skill_entry =
  sk_skillName :: string
  sk_description :: string
  sk_lanes :: "workflow_lane list"
  sk_roles :: "agent_role list"
  sk_triggerTags :: "string list"

abbreviation skill :: "string \<Rightarrow> string \<Rightarrow> workflow_lane list \<Rightarrow> agent_role list \<Rightarrow> string list \<Rightarrow> skill_entry" where
  "skill n d ls rs ts \<equiv>
     \<lparr>sk_skillName = n, sk_description = d, sk_lanes = ls, sk_roles = rs, sk_triggerTags = ts\<rparr>"

definition DEFAULT_SKILL_REGISTRY :: "skill_entry list" where
  "DEFAULT_SKILL_REGISTRY =
    [skill ''using-skills'' ''Always-on SOP reminder'' [LaneQuick, LaneDelivery, LaneMigration]
       [RoleQuick, RoleCoordinator, RoleAnalyst, RoleArchitect, RoleImplementer, RoleReviewer, RoleTester] [''always''],
     skill ''codebase-exploration'' ''Broad code understanding'' [LaneQuick, LaneDelivery, LaneMigration]
       [RoleQuick, RoleAnalyst, RoleArchitect] [''explain_module'', ''trace_flow'', ''broad_codebase_question''],
     skill ''systematic-debugging'' ''Bug investigation workflow'' [LaneQuick, LaneDelivery, LaneMigration]
       [RoleQuick, RoleAnalyst, RoleImplementer] [''bug_investigation''],
     skill ''verification-before-completion'' ''Pre-completion verification'' [LaneQuick, LaneDelivery, LaneMigration]
       [RoleQuick, RoleCoordinator, RoleReviewer, RoleTester] [''always'', ''verify''],
     skill ''writing-solution'' ''Architectural solution writing'' [LaneDelivery, LaneMigration] [RoleArchitect] [''solution''],
     skill ''subagent-driven-development'' ''Task-split execution discipline'' [LaneDelivery, LaneMigration]
       [RoleImplementer] [''execute''],
     skill ''code-review'' ''Review discipline'' [LaneDelivery, LaneMigration] [RoleReviewer] [''review''],
     skill ''test-driven-development'' ''TDD execution'' [LaneDelivery] [RoleImplementer] [''execute'', ''tests''],
     skill ''brainstorming'' ''Ambiguity reduction'' [LaneDelivery, LaneMigration] [RoleAnalyst] [''analysis''],
     skill ''refactoring'' ''Safe restructure workflow'' [LaneQuick, LaneDelivery, LaneMigration]
       [RoleQuick, RoleImplementer] [''refactor''],
     skill ''deep-research'' ''External research heavy tasks'' [LaneDelivery, LaneMigration]
       [RoleArchitect, RoleAnalyst] [''research'', ''migration''],
     skill ''browser-automation'' ''Browser verification flows'' [LaneQuick, LaneDelivery, LaneMigration]
       [RoleQuick, RoleTester] [''browser''],
     skill ''dev-browser'' ''Browser diagnostics'' [LaneQuick, LaneDelivery, LaneMigration]
       [RoleQuick, RoleTester] [''browser'', ''debug''],
     skill ''frontend-ui-ux'' ''Frontend quality guidance'' [LaneQuick, LaneDelivery, LaneMigration]
       [RoleQuick, RoleArchitect, RoleImplementer] [''frontend'', ''react''],
     skill ''vercel-composition-patterns'' ''React composition guidance'' [LaneQuick, LaneDelivery, LaneMigration]
       [RoleQuick, RoleArchitect, RoleImplementer] [''react'', ''composition''],
     skill ''vercel-react-best-practices'' ''React runtime quality guidance'' [LaneQuick, LaneDelivery, LaneMigration]
       [RoleQuick, RoleArchitect, RoleImplementer] [''react'', ''frontend''],
     skill ''vercel-react-native-skills'' ''React Native guidance'' [LaneQuick, LaneDelivery, LaneMigration]
       [RoleQuick, RoleArchitect, RoleImplementer] [''react-native'', ''expo''],
     skill ''find-skills'' ''Capability discovery'' [LaneQuick, LaneDelivery, LaneMigration]
       [RoleQuick, RoleAnalyst] [''find-skills'']]"

definition buildSkillTags :: "execution_envelope \<Rightarrow> string \<Rightarrow> string list" where
  "buildSkillTags env intent =
     [''always'']
     @ (if has_any intent [''trace''] then [''trace_flow''] else [])
     @ (if has_any intent [''explain'', ''codebase''] then [''explain_module'', ''broad_codebase_question''] else [])
     @ (if has_any intent [''bug'', ''debug''] then [''bug_investigation'', ''debug''] else [])
     @ (if has_any intent [''browser'', ''frontend''] then [''browser'', ''frontend''] else [])
     @ (if has_any intent [''react''] then [''react''] else [])
     @ (if has_any intent [''react-native'', ''expo''] then [''react-native'', ''expo''] else [])
     @ (if ee_lane env \<noteq> LaneQuick then [''verify''] else [])
     @ (if ee_role env = RoleArchitect then [''solution''] else [])
     @ (if ee_role env = RoleImplementer then [''execute''] else [])
     @ (if ee_role env = RoleReviewer then [''review''] else [])
     @ (if ee_role env = RoleAnalyst then [''analysis''] else [])
     @ (if ee_lane env = LaneMigration then [''migration'', ''research''] else [])"

definition chooseSkills :: "execution_envelope \<Rightarrow> string \<Rightarrow> string list" where
  "chooseSkills env intent =
     js_unique (map sk_skillName (filter (\<lambda>e. ee_lane env \<in> set (sk_lanes e) \<and> ee_role env \<in> set (sk_roles e)
       \<and> list_ex (\<lambda>tag. tag \<in> set (buildSkillTags env intent)) (sk_triggerTags e)) DEFAULT_SKILL_REGISTRY))"

definition defaultMcpIntentForStage :: "string \<Rightarrow> string" where
  "defaultMcpIntentForStage stage =
     (let normalized = js_lower stage in
      if has_any normalized [''migration''] then ''migration''
      else if has_any normalized [''verify'', ''test'', ''review''] then ''browser verification''
      else if has_any normalized [''delivery''] then ''delivery codebase''
      else ''codebase'')"

record agent_entry =
  ag_agentId :: string
  ag_displayName :: string
  ag_role :: agent_role
  ag_lanes :: "workflow_lane list"

text \<open>The fields of an agent that the envelope does not read are left out of \<open>agent_entry\<close>.\<close>

definition buildExecutionEnvelope ::
  "collation \<Rightarrow> entropy \<Rightarrow> session_state \<Rightarrow> agent_entry \<Rightarrow> resolved_model \<Rightarrow> execution_envelope dh" where
  "buildExecutionEnvelope ck E session agent resolvedModel =
     bind_dh (createId E ''env'') (\<lambda>i.
     bind_dh (nowIso E) (\<lambda>now.
       let base = \<lparr>ee_id = i, ee_sessionId = ss_sessionId session, ee_lane = ss_lane session,
             ee_role = ag_role agent, ee_agentId = ag_agentId agent,
             ee_stage = stage_name (ss_currentStage session), ee_workItemId = None,
             ee_resolvedModel = resolvedModel, ee_activeSkills = [], ee_activeMcps = [],
             ee_requiredTools = [], ee_semanticMode = ss_semanticMode session, ee_createdAt = now\<rparr>
       in return_dh (base\<lparr>ee_activeSkills := chooseSkills base ''codebase'',
            ee_activeMcps := chooseMcps ck base (defaultMcpIntentForStage (ee_stage base))\<rparr>)))"

datatype query_intent =
    FindDefinition | ExplainModule | TraceFlow | ImpactAnalysis | BugInvestigation
  | BroadCodebaseQuestion | LibraryLookup | BrowserVerification

fun REQUIRED_TOOLS_BY_INTENT :: "query_intent \<Rightarrow> string list" where
  "REQUIRED_TOOLS_BY_INTENT FindDefinition = [''symbol_search'', ''keyword_search'']"
| "REQUIRED_TOOLS_BY_INTENT ExplainModule = [''keyword_search'', ''symbol_search'', ''semantic_search'']"
| "REQUIRED_TOOLS_BY_INTENT TraceFlow = [''symbol_search'', ''graph_expand'', ''semantic_search'']"
| "REQUIRED_TOOLS_BY_INTENT ImpactAnalysis = [''symbol_search'', ''reference_search'', ''graph_expand'']"
| "REQUIRED_TOOLS_BY_INTENT BugInvestigation = [''keyword_search'', ''symbol_search'', ''semantic_search'']"
| "REQUIRED_TOOLS_BY_INTENT BroadCodebaseQuestion = [''keyword_search'', ''semantic_search'']"
| "REQUIRED_TOOLS_BY_INTENT LibraryLookup = [''context7'']"
| "REQUIRED_TOOLS_BY_INTENT BrowserVerification = [''chrome-devtools'', ''playwright'']"

definition inferIntentFromInput :: "string \<Rightarrow> query_intent" where
  "inferIntentFromInput input =
     (let normalized = js_lower input in
      if has_any normalized [''trace'', ''flow''] then TraceFlow
      else if has_any normalized [''impact''] then ImpactAnalysis
      else if has_any normalized [''bug'', ''error'', ''debug''] then BugInvestigation
      else if has_any normalized [''library'', ''framework'', ''api''] then LibraryLookup
      else if has_any normalized [''browser'', ''ui'', ''frontend''] then BrowserVerification
      else if has_any normalized [''definition'', ''where defined''] then FindDefinition
      else if has_any normalized [''explain'', ''module''] then ExplainModule
      else BroadCodebaseQuestion)"

end
