(* ===== verification/BridgeLog.thy ===== *)
theory BridgeLog
  imports McpRouting
begin

text \<open>
  The decision log between the policy code and the runtime hooks: the payload functions and clients of
  \<^verbatim>\<open>packages/opencode-sdk/src\<close> and the repository
  \<^verbatim>\<open>packages/storage/src/sqlite/repositories/hook-invocation-logs-repo.ts\<close>.

  A payload is a JSON object. It is written with the keys of all its objects in snake case and read back in camel case. The
  table is the list of its rows in \<^verbatim>\<open>rowid\<close> order. An object keeps its keys in the order of their first
  assignment here; the language moves keys that are array indices to the front.
\<close>

section \<open>Keys\<close>

definition lower_ascii :: "char \<Rightarrow> bool" where
  "lower_ascii c = (let n = of_char c :: nat in 97 \<le> n \<and> n \<le> 122)"

definition upper_ascii :: "char \<Rightarrow> bool" where
  "upper_ascii c = (let n = of_char c :: nat in 65 \<le> n \<and> n \<le> 90)"

definition dash_char :: "char \<Rightarrow> bool" where
  "dash_char c \<longleftrightarrow> c = CHR ''-'' \<or> js_ws c"

text \<open>\<^verbatim>\<open>replace(/([a-z0-9])([A-Z])/g, "$1_$2")\<close> and \<^verbatim>\<open>replace(/[-\s]+/g, "_")\<close>.\<close>

fun split_camel :: "string \<Rightarrow> string" where
  "split_camel (a # b # s) =
     (if (lower_ascii a \<or> is_digit a) \<and> upper_ascii b then a # CHR ''_'' # b # split_camel s else a # split_camel (b # s))"
| "split_camel s = s"

fun join_dashes :: "string \<Rightarrow> string" where
  "join_dashes [] = []"
| "join_dashes (c # s) =
     (if dash_char c then (if s \<noteq> [] \<and> dash_char (hd s) then join_dashes s else CHR ''_'' # join_dashes s) else c # join_dashes s)"

definition toSnakeCase :: "string \<Rightarrow> string" where
  "toSnakeCase v = js_lower (join_dashes (split_camel v))"

text \<open>\<^verbatim>\<open>replace(/_([a-z])/g, (_, char) => char.toUpperCase())\<close>.\<close>

fun toCamelCase :: "string \<Rightarrow> string" where
  "toCamelCase (a # b # s) =
     (if a = CHR ''_'' \<and> lower_ascii b then char_of (of_char b - 32 :: nat) # toCamelCase s else a # toCamelCase (b # s))"
| "toCamelCase s = s"

text \<open>Assignments to the fields of a new object.\<close>

definition assign_fields :: "(string \<times> json) list \<Rightarrow> (string \<times> json) list" where
  "assign_fields kvs = fold (\<lambda>(k, v). AList.update k v) kvs []"

fun normalizeValue :: "(string \<Rightarrow> string) \<Rightarrow> json \<Rightarrow> json" where
  "normalizeValue key (JArr xs) = JArr (map (normalizeValue key) xs)"
| "normalizeValue key (JObj fs) = JObj (assign_fields (map (\<lambda>(k, v). (key k, normalizeValue key v)) fs))"
| "normalizeValue key v = v"

definition normalizeToSnakeCase :: "json \<Rightarrow> json" where
  "normalizeToSnakeCase payload = normalizeValue toSnakeCase payload"

definition normalizeToCamelCase :: "json \<Rightarrow> json" where
  "normalizeToCamelCase payload = normalizeValue toCamelCase payload"

section \<open>Envelope and texts\<close>

definition serializeBridgePayload :: "json \<Rightarrow> string" where
  "serializeBridgePayload payload = JSON_stringify payload"

definition deserializeBridgePayload :: "(string \<Rightarrow> string) \<Rightarrow> string \<Rightarrow> string + json" where
  "deserializeBridgePayload parseMessage payload =
     (case JSON_parse payload of
        Some (JObj fs) \<Rightarrow> Inr (JObj fs)
      | Some v \<Rightarrow> Inl ''Malformed bridge payload JSON: Bridge payload must decode to an object record''
      | None \<Rightarrow> Inl (''Malformed bridge payload JSON: '' @ parseMessage payload))"

text \<open>\<open>None\<close> is an envelope id that was not given.\<close>

definition envelope_identity :: "string \<Rightarrow> string option \<Rightarrow> string" where
  "envelope_identity sessionId envelopeId =
     (case envelopeId of None \<Rightarrow> sessionId | Some e \<Rightarrow> if js_trim e = [] then sessionId else e)"

section \<open>The repository\<close>

datatype hook_name = ModelOverride | PreToolExec | PreAnswer | HookSessionState | SkillActivation | McpRoutingHook

datatype hook_decision = HdAllow | HdBlock | HdModify

record hook_log =
  hl_id :: string
  hl_sessionId :: string
  hl_envelopeId :: string
  hl_hookName :: hook_name
  hl_input :: json
  hl_output :: json
  hl_decision :: hook_decision
  hl_reason :: string
  hl_durationMs :: int
  hl_timestamp :: timestamp

record hook_row =
  hr_id :: string
  hr_session_id :: string
  hr_envelope_id :: string
  hr_hook_name :: hook_name
  hr_input_json :: string
  hr_output_json :: string
  hr_decision :: hook_decision
  hr_reason :: string
  hr_duration_ms :: int
  hr_timestamp :: timestamp

definition toHookLog :: "(string \<Rightarrow> string) \<Rightarrow> hook_row \<Rightarrow> string + hook_log" where
  "toHookLog parseMessage raw =
     (case deserializeBridgePayload parseMessage (hr_input_json raw) of
        Inl e \<Rightarrow> Inl e
      | Inr i \<Rightarrow>
          (case deserializeBridgePayload parseMessage (hr_output_json raw) of
             Inl e \<Rightarrow> Inl e
           | Inr out \<Rightarrow>
               Inr \<lparr>hl_id = hr_id raw, hl_sessionId = hr_session_id raw, hl_envelopeId = hr_envelope_id raw, hl_hookName = hr_hook_name raw,
                 hl_input = normalizeToCamelCase i, hl_output = normalizeToCamelCase out, hl_decision = hr_decision raw,
                 hl_reason = hr_reason raw, hl_durationMs = hr_duration_ms raw, hl_timestamp = hr_timestamp raw\<rparr>))"

definition logs_save :: "hook_log \<Rightarrow> hook_row list \<Rightarrow> string + hook_row list" where
  "logs_save r logs =
     (if hl_id r \<in> hr_id ` set logs then Inl ''UNIQUE constraint failed: hook_invocation_logs.id''
      else Inr (logs @ [\<lparr>hr_id = hl_id r, hr_session_id = hl_sessionId r, hr_envelope_id = hl_envelopeId r, hr_hook_name = hl_hookName r,
        hr_input_json = serializeBridgePayload (hl_input r), hr_output_json = serializeBridgePayload (hl_output r),
        hr_decision = hl_decision r, hr_reason = hl_reason r, hr_duration_ms = hl_durationMs r, hr_timestamp = hl_timestamp r\<rparr>]))"

text \<open>
  \<^verbatim>\<open>ORDER BY timestamp DESC\<close>, with rows that tie in \<^verbatim>\<open>rowid\<close> order, which SQL leaves open; \<open>visible\<close> is the condition of the query for the latest
  decision, whose order puts the rows of the envelope itself before those of the session.
\<close>

definition newest_first :: "hook_row list \<Rightarrow> hook_row list" where
  "newest_first rows = rev (sort_key hr_timestamp (rev rows))"

definition visible :: "string \<Rightarrow> string \<Rightarrow> hook_name \<Rightarrow> hook_row \<Rightarrow> bool" where
  "visible sessionId envelopeId hookName r \<longleftrightarrow>
     hr_session_id r = sessionId \<and> hr_hook_name r = hookName
     \<and> (envelopeId \<noteq> [] \<and> (hr_envelope_id r = envelopeId \<or> hr_envelope_id r = hr_session_id r)
        \<or> envelopeId = [] \<and> hr_envelope_id r = hr_session_id r)"

definition findLatestDecision :: "(string \<Rightarrow> string) \<Rightarrow> hook_row list \<Rightarrow> string \<Rightarrow> string \<Rightarrow> hook_name \<Rightarrow> string + hook_log option" where
  "findLatestDecision parseMessage logs sessionId envelopeId hookName =
     (case sort_key (\<lambda>r. if hr_envelope_id r = envelopeId then 0 else 1 :: nat)
             (newest_first (filter (visible sessionId envelopeId hookName) logs)) of
        [] \<Rightarrow> Inr None
      | r # _ \<Rightarrow> (case toHookLog parseMessage r of Inl e \<Rightarrow> Inl e | Inr l \<Rightarrow> Inr (Some l)))"

definition listBySession :: "(string \<Rightarrow> string) \<Rightarrow> hook_row list \<Rightarrow> string \<Rightarrow> string + hook_log list" where
  "listBySession parseMessage logs sessionId =
     fold_sum (\<lambda>acc r. case toHookLog parseMessage r of Inl e \<Rightarrow> Inl e | Inr l \<Rightarrow> Inr (acc @ [l])) []
       (newest_first (filter (\<lambda>r. hr_session_id r = sessionId) logs))"

section \<open>Writing a decision\<close>

record decision_input =
  di_sessionId :: string
  di_envelopeId :: string
  di_hookName :: hook_name
  di_decision :: hook_decision
  di_reason :: string
  di_payloadIn :: json
  di_payloadOut :: json
  di_durationMs :: "int option"
  di_id :: "string option"
  di_timestamp :: "timestamp option"

text \<open>The log, and the number of ids and times drawn.\<close>

record log_state =
  lg_rows :: "hook_row list"
  lg_seq :: nat

text \<open>An error of the database is caught: the left value is its message.\<close>

definition writeHookDecision :: "entropy \<Rightarrow> decision_input \<Rightarrow> log_state \<Rightarrow> (string + hook_log) \<times> log_state" where
  "writeHookDecision E d s =
     (let (i, n1) = (case di_id d of Some i \<Rightarrow> (i, lg_seq s) | None \<Rightarrow> (newId E ''hook-log'' (lg_seq s), lg_seq s + 1));
          (t, n2) = (case di_timestamp d of Some t \<Rightarrow> (t, n1) | None \<Rightarrow> (clk E n1, n1 + 1));
          record' = \<lparr>hl_id = i, hl_sessionId = di_sessionId d, hl_envelopeId = di_envelopeId d, hl_hookName = di_hookName d,
            hl_input = normalizeToSnakeCase (di_payloadIn d), hl_output = normalizeToSnakeCase (di_payloadOut d),
            hl_decision = di_decision d, hl_reason = di_reason d, hl_durationMs = nullish (di_durationMs d) 0, hl_timestamp = t\<rparr>;
          s1 = s\<lparr>lg_seq := n2\<rparr>
      in case logs_save record' (lg_rows s) of
           Inl e \<Rightarrow> (Inl e, s1)
         | Inr rows \<Rightarrow> (Inr record', s1\<lparr>lg_rows := rows\<rparr>))"

definition client_decision :: "string \<Rightarrow> string option \<Rightarrow> hook_name \<Rightarrow> hook_decision \<Rightarrow> string \<Rightarrow> json \<Rightarrow> json \<Rightarrow> decision_input" where
  "client_decision sessionId envelopeId hookName decision reason payloadIn payloadOut =
     \<lparr>di_sessionId = sessionId, di_envelopeId = envelope_identity sessionId envelopeId, di_hookName = hookName, di_decision = decision,
      di_reason = reason, di_payloadIn = payloadIn, di_payloadOut = payloadOut, di_durationMs = None, di_id = None, di_timestamp = None\<rparr>"

definition only_id :: "(string + hook_log) \<times> log_state \<Rightarrow> (string + string) \<times> log_state" where
  "only_id r = (map_sum id hl_id (fst r), snd r)"

definition texts :: "string list \<Rightarrow> json" where
  "texts xs = JArr (map JStr xs)"

definition writeModelOverrideDecision ::
  "entropy \<Rightarrow> string \<Rightarrow> string option \<Rightarrow> resolved_model \<Rightarrow> string option \<Rightarrow> log_state \<Rightarrow> (string + string) \<times> log_state" where
  "writeModelOverrideDecision E sessionId envelopeId model reason s =
     only_id (writeHookDecision E (client_decision sessionId envelopeId ModelOverride HdModify (nullish reason ''model override resolved'')
       (JObj [(''sessionId'', JStr sessionId)])
       (JObj [(''providerId'', JStr (rm_providerId model)), (''modelId'', JStr (rm_modelId model)), (''variantId'', JStr (rm_variantId model))])) s)"

record session_bridge =
  sb_sessionId :: string
  sb_lane :: string
  sb_laneLocked :: bool
  sb_currentStage :: string
  sb_semanticMode :: string
  sb_toolEnforcementLevel :: string
  sb_activeWorkItemIds :: "string list"

definition writeSessionStateDecision ::
  "entropy \<Rightarrow> string \<Rightarrow> string option \<Rightarrow> session_bridge \<Rightarrow> string option \<Rightarrow> log_state \<Rightarrow> (string + string) \<times> log_state" where
  "writeSessionStateDecision E sessionId envelopeId state reason s =
     only_id (writeHookDecision E (client_decision sessionId envelopeId HookSessionState HdModify (nullish reason ''session state synchronized'')
       (JObj [(''sessionId'', JStr sessionId)])
       (JObj [(''lane'', JStr (sb_lane state)), (''laneLocked'', JBool (sb_laneLocked state)), (''currentStage'', JStr (sb_currentStage state)),
          (''semanticMode'', JStr (sb_semanticMode state)), (''toolEnforcementLevel'', JStr (sb_toolEnforcementLevel state)),
          (''activeWorkItemIds'', texts (sb_activeWorkItemIds state))])) s)"

definition writeSkillActivationDecision ::
  "entropy \<Rightarrow> string \<Rightarrow> string option \<Rightarrow> string \<Rightarrow> string \<Rightarrow> string list \<Rightarrow> string option \<Rightarrow> log_state \<Rightarrow> (string + string) \<times> log_state" where
  "writeSkillActivationDecision E sessionId envelopeId lane role skills reason s =
     only_id (writeHookDecision E (client_decision sessionId envelopeId SkillActivation HdAllow (nullish reason ''skills selected'')
       (JObj [(''lane'', JStr lane), (''role'', JStr role)]) (JObj [(''skills'', texts skills)])) s)"

record mcp_decision =
  md_mcps :: "string list"
  md_blocked :: "string list option"
  md_warnings :: "string list option"
  md_decisions :: "(string, string) js_map option"
  md_reasons :: "(string, string list) js_map option"
  md_rejected :: "(string, string list) js_map option"

definition writeMcpRoutingDecision ::
  "entropy \<Rightarrow> string \<Rightarrow> string option \<Rightarrow> string \<Rightarrow> mcp_decision \<Rightarrow> string option \<Rightarrow> log_state \<Rightarrow> (string + string) \<times> log_state" where
  "writeMcpRoutingDecision E sessionId envelopeId intent m reason s =
     only_id (writeHookDecision E (client_decision sessionId envelopeId McpRoutingHook HdAllow (nullish reason ''mcp routing selected'')
       (JObj [(''intent'', JStr intent)])
       (JObj [(''mcps'', texts (md_mcps m)), (''blocked'', texts (nullish (md_blocked m) [])), (''warnings'', texts (nullish (md_warnings m) [])),
          (''decisions'', JObj (map (\<lambda>(k, d). (k, JStr d)) (nullish (md_decisions m) []))),
          (''reasons'', JObj (map (\<lambda>(k, r). (k, texts r)) (nullish (md_reasons m) []))),
          (''rejected'', JObj (map (\<lambda>(k, r). (k, texts r)) (nullish (md_rejected m) [])))])) s)"

section \<open>Camel keys\<close>

text \<open>
  The keys that survive the way to snake case and back: no dash or blank, no capital beyond ASCII, every capital right
  after a lower-case letter or a digit, and no underscore before a letter.
\<close>

definition capital_beyond_ascii :: "char \<Rightarrow> bool" where
  "capital_beyond_ascii c = (let n = of_char c :: nat in 192 \<le> n \<and> n \<le> 222 \<and> n \<noteq> 215)"

definition camel_step :: "char \<Rightarrow> char \<Rightarrow> bool" where
  "camel_step a b \<longleftrightarrow> (upper_ascii b \<longrightarrow> lower_ascii a \<or> is_digit a) \<and> (a = CHR ''_'' \<longrightarrow> \<not> lower_ascii b)"

definition camel_key :: "string \<Rightarrow> bool" where
  "camel_key k \<longleftrightarrow>
     list_all (\<lambda>c. \<not> dash_char c \<and> \<not> capital_beyond_ascii c) k \<and> (k = [] \<or> \<not> upper_ascii (hd k)) \<and> successively camel_step k"

fun camel_payload :: "json \<Rightarrow> bool" where
  "camel_payload (JArr xs) = list_all camel_payload xs"
| "camel_payload (JObj fs) = list_all (\<lambda>(k, v). camel_key k \<and> camel_payload v) fs"
| "camel_payload v = True"

lemma upper_ascii_simps:
  assumes "upper_ascii c"
  shows "lower_ascii (js_lower_char c)" and "char_of (of_char (js_lower_char c) - 32 :: nat) = c"
    and "\<not> lower_ascii c" and "\<not> is_digit c" and "c \<noteq> CHR ''_''" and "\<not> dash_char c" and "js_lower_char c \<noteq> c"
proof -
  obtain n where n: "n = (of_char c :: nat)" "65 \<le> n" "n \<le> 90" using assms by (simp add: upper_ascii_def Let_def)
  then have l: "js_lower_char c = char_of (n + 32)" "of_char (js_lower_char c) = n + 32"
    by (simp_all add: js_lower_char_def Let_def)
  show "lower_ascii (js_lower_char c)" "char_of (of_char (js_lower_char c) - 32 :: nat) = c" "\<not> lower_ascii c" "\<not> is_digit c"
    using n l by (simp_all add: lower_ascii_def is_digit_def)
  show "js_lower_char c \<noteq> c" using n l by (metis n_not_Suc_n add_cancel_right_right zero_neq_numeral)
  show "c \<noteq> CHR ''_''" "\<not> dash_char c" using n by (auto simp: dash_char_def js_ws_def)
qed

lemma of_char_underscore: "(of_char CHR ''_'' :: nat) = 95"
  by simp

lemma lower_ascii_simps:
  assumes "lower_ascii c"
  shows "c \<noteq> CHR ''_''" and "\<not> upper_ascii c" and "js_lower_char c = c" and "char_of (of_char c - 32 :: nat) \<noteq> CHR ''_''"
proof -
  obtain n where n: "n = (of_char c :: nat)" "97 \<le> n" "n \<le> 122" using assms by (simp add: lower_ascii_def Let_def)
  show "c \<noteq> CHR ''_''" "\<not> upper_ascii c" "js_lower_char c = c" using n by (auto simp: upper_ascii_def js_lower_char_def Let_def)
  have v: "of_char (char_of (n - 32) :: char) = n - 32" using n(3) by simp
  show "char_of (of_char c - 32 :: nat) \<noteq> CHR ''_''"
  proof
    assume "char_of (of_char c - 32 :: nat) = CHR ''_''"
    then have "n - 32 = (of_char CHR ''_'' :: nat)" using v n(1) by metis
    then show False using n(2,3) unfolding of_char_underscore by arith
  qed
qed

lemma js_lower_char_id: "js_lower_char c = c \<longleftrightarrow> \<not> upper_ascii c \<and> \<not> capital_beyond_ascii c"
proof -
  define n where "n = (of_char c :: nat)"
  have b: "n < 256" by (simp add: n_def)
  have "js_lower_char c = c \<longleftrightarrow> of_char (js_lower_char c) = n" by (simp add: n_def)
  then show ?thesis using b by (auto simp: js_lower_char_def upper_ascii_def capital_beyond_ascii_def Let_def simp flip: n_def)
qed

lemma split_camel_Cons:
  "split_camel (a # s) =
     (if s \<noteq> [] \<and> (lower_ascii a \<or> is_digit a) \<and> upper_ascii (hd s) then a # CHR ''_'' # split_camel s else a # split_camel s)"
proof (cases s)
  case (Cons b t)
  have "split_camel (b # t) = b # split_camel t" if "upper_ascii b" using upper_ascii_simps(3,4) [OF that] by (cases t) auto
  then show ?thesis using Cons by auto
qed simp

lemma set_split_camel: "set (split_camel s) \<subseteq> insert (CHR ''_'') (set s)"
  by (induction s) (auto simp: split_camel_Cons)

lemma join_dashes_id: "list_all (\<lambda>c. \<not> dash_char c) s \<Longrightarrow> join_dashes s = s"
  by (induction s) auto

lemma toCamelCase_Cons:
  "toCamelCase (a # s) =
     (if a = CHR ''_'' \<and> s \<noteq> [] \<and> lower_ascii (hd s) then char_of (of_char (hd s) - 32 :: nat) # toCamelCase (tl s) else a # toCamelCase s)"
  by (cases s) auto

lemma hd_split_camel: "s \<noteq> [] \<Longrightarrow> split_camel s \<noteq> [] \<and> hd (split_camel s) = hd s"
  by (cases s) (auto simp: split_camel_Cons)

lemma camel_of_split:
  assumes "list_all (\<lambda>c. \<not> capital_beyond_ascii c) k"
  shows "toCamelCase (js_lower (split_camel k)) = k \<longleftrightarrow> (k = [] \<or> \<not> upper_ascii (hd k)) \<and> successively camel_step k"
  using assms
proof (induction k rule: induct_list012)
  case (3 a b s)
  show ?case
  proof (cases "(lower_ascii a \<or> is_digit a) \<and> upper_ascii b")
    case True
    then have a: "js_lower_char a = a" "a \<noteq> CHR ''_''" "\<not> upper_ascii a"
      using "3.prems" upper_ascii_simps(3,4) [of a] lower_ascii_simps(1) [of a] by (auto simp: js_lower_char_id is_digit_def)
    have "toCamelCase (js_lower (split_camel (a # b # s))) = a # b # toCamelCase (js_lower (split_camel s))"
      using True a upper_ascii_simps(1,2) [of b] by (simp add: js_lower_def toCamelCase_Cons js_lower_char_def [of "CHR ''_''"])
    moreover have "successively camel_step (b # s) \<longleftrightarrow> (s = [] \<or> \<not> upper_ascii (hd s)) \<and> successively camel_step s"
      using True upper_ascii_simps(3-5) [of b] by (cases s) (auto simp: camel_step_def)
    moreover have "camel_step a b" using True a by (simp add: camel_step_def)
    ultimately show ?thesis using True 3 a by simp
  next
    case False
    define r where "r = js_lower (split_camel (b # s))"
    have r: "r \<noteq> []" "hd r = js_lower_char b"
      using hd_split_camel [of "b # s"] by (auto simp: js_lower_def hd_map r_def)
    have split: "js_lower (split_camel (a # b # s)) = js_lower_char a # r" using False by (auto simp: js_lower_def r_def)
    show ?thesis
    proof (cases "a = CHR ''_'' \<and> lower_ascii (js_lower_char b)")
      case True
      then have "js_lower_char a = CHR ''_''" using "3.prems" lower_ascii_simps(1) upper_ascii_simps(5) [of a] by (auto simp: js_lower_char_id)
      then have "toCamelCase (js_lower_char a # r) \<noteq> a # b # s"
        using True r lower_ascii_simps(4) [of "js_lower_char b"] by (simp add: toCamelCase_Cons)
      moreover have "\<not> camel_step a b"
      proof (cases "upper_ascii b")
        case False
        then show ?thesis using True "3.prems" js_lower_char_id [of b] by (simp add: camel_step_def)
      qed (use False in \<open>simp add: camel_step_def\<close>)
      ultimately show ?thesis unfolding split by simp
    next
      case letter: False
      have "js_lower_char a \<noteq> CHR ''_''" if "a \<noteq> CHR ''_''"
        using that js_lower_char_id [of a] "3.prems" upper_ascii_simps(1) [of a] lower_ascii_simps(1) [of "js_lower_char a"] by auto
      then have "toCamelCase (js_lower_char a # r) = js_lower_char a # toCamelCase r"
        using letter r by (auto simp: toCamelCase_Cons)
      moreover have "\<not> lower_ascii b" if "a = CHR ''_''" using letter that lower_ascii_simps(3) [of b] by auto
      then have "camel_step a b \<longleftrightarrow> \<not> upper_ascii b" using False by (auto simp: camel_step_def)
      ultimately show ?thesis using "3.IH"(2) "3.prems" js_lower_char_id [of a] unfolding split r_def [symmetric] by auto
    qed
  qed
qed (simp_all add: js_lower_def js_lower_char_id)

lemma toCamelCase_set: "c \<in> set (toCamelCase s) \<Longrightarrow> c \<in> set s \<or> upper_ascii c"
proof (induction s rule: toCamelCase.induct)
  case (1 a b s)
  have "upper_ascii (char_of (of_char b - 32 :: nat))" if "lower_ascii b"
  proof -
    have "of_char (char_of (of_char b - 32 :: nat) :: char) = (of_char b - 32 :: nat)"
      using that by (auto simp: lower_ascii_def Let_def intro!: mod_less)
    then show ?thesis using that by (auto simp: upper_ascii_def lower_ascii_def Let_def)
  qed
  then show ?case using 1 by (auto split: if_splits)
qed auto

lemma set_join_dashes: "c \<in> set (join_dashes s) \<Longrightarrow> \<not> dash_char c"
  by (induction s) (auto split: if_splits simp: dash_char_def js_ws_def)

lemma js_lower_no_capitals: "c \<in> set (js_lower s) \<Longrightarrow> \<not> capital_beyond_ascii c"
proof -
  have "\<not> capital_beyond_ascii (js_lower_char d)" for d
  proof -
    define n where "n = (of_char d :: nat)"
    then have "d = char_of n" "n < 256" by simp_all
    then show ?thesis by (auto simp: js_lower_char_def capital_beyond_ascii_def Let_def)
  qed
  then show "c \<in> set (js_lower s) \<Longrightarrow> \<not> capital_beyond_ascii c" by (auto simp: js_lower_def)
qed

lemma dash_char_code: "dash_char c \<longleftrightarrow> (of_char c :: nat) \<in> {9, 10, 11, 12, 13, 32, 45, 160}"
proof -
  have "c = CHR ''-'' \<longleftrightarrow> (of_char c :: nat) = of_char CHR ''-''" by (simp only: of_char_eq_iff)
  then show ?thesis by (auto simp: dash_char_def js_ws_def)
qed

lemma js_lower_dash: "dash_char (js_lower_char c) \<Longrightarrow> dash_char c"
proof (cases "js_lower_char c = c")
  case False
  assume d: "dash_char (js_lower_char c)"
  define n where "n = (of_char c :: nat)"
  have "js_lower_char c = char_of (n + 32)" "65 \<le> n \<and> n \<le> 90 \<or> 192 \<le> n \<and> n \<le> 222"
    using False by (auto simp: js_lower_char_def n_def Let_def split: if_splits)
  moreover from this have "of_char (js_lower_char c) = n + 32" by auto
  ultimately show ?thesis using d by (auto simp: dash_char_code)
qed simp

text \<open>Exactly these keys come back as they were.\<close>

lemma camel_key_iff: "toCamelCase (toSnakeCase k) = k \<longleftrightarrow> camel_key k"
proof
  assume k: "toCamelCase (toSnakeCase k) = k"
  have "\<not> dash_char c \<and> \<not> capital_beyond_ascii c" if "c \<in> set k" for c
  proof -
    have "c \<in> set (toSnakeCase k) \<or> upper_ascii c" using that toCamelCase_set [of c "toSnakeCase k"] k by simp
    then show ?thesis
    proof
      assume s: "c \<in> set (toSnakeCase k)"
      then obtain d where "d \<in> set (join_dashes (split_camel k))" "c = js_lower_char d" by (auto simp: toSnakeCase_def js_lower_def)
      then show ?thesis using s js_lower_no_capitals set_join_dashes js_lower_dash unfolding toSnakeCase_def by blast
    qed (auto simp: upper_ascii_simps(6), simp add: upper_ascii_def capital_beyond_ascii_def Let_def)
  qed
  then have a: "list_all (\<lambda>c. \<not> dash_char c) k" "list_all (\<lambda>c. \<not> capital_beyond_ascii c) k" by (auto simp: list_all_iff)
  moreover have "join_dashes (split_camel k) = split_camel k"
    using a(1) set_split_camel [of k] by (intro join_dashes_id) (force simp: list_all_iff dash_char_def js_ws_def)
  ultimately show "camel_key k" using k camel_of_split [OF a(2)] by (auto simp: camel_key_def toSnakeCase_def list_all_iff)
next
  assume k: "camel_key k"
  then have a: "list_all (\<lambda>c. \<not> dash_char c) k" "list_all (\<lambda>c. \<not> capital_beyond_ascii c) k" by (auto simp: camel_key_def list_all_iff)
  moreover have "join_dashes (split_camel k) = split_camel k"
    using a(1) set_split_camel [of k] by (intro join_dashes_id) (force simp: list_all_iff dash_char_def js_ws_def)
  ultimately show "toCamelCase (toSnakeCase k) = k" using k camel_of_split [OF a(2)] by (simp add: camel_key_def toSnakeCase_def)
qed

section \<open>Payloads there and back\<close>

lemma assign_fields_distinct: "distinct (map fst kvs) \<Longrightarrow> assign_fields kvs = kvs"
proof -
  have "fold (\<lambda>(k, v). AList.update k v) kvs acc = acc @ kvs" if "distinct (map fst (acc @ kvs))" for acc :: "(string \<times> json) list"
    using that
  proof (induction kvs arbitrary: acc)
    case (Cons kv kvs)
    obtain k v where kv: "kv = (k, v)" by fastforce
    have "AList.update k v acc = acc @ [(k, v)]" using Cons.prems kv by (intro update_append_new) auto
    then show ?case using Cons kv by simp
  qed simp
  then show "distinct (map fst kvs) \<Longrightarrow> assign_fields kvs = kvs" by (simp add: assign_fields_def)
qed

lemma fields_update: "set (AList.update k v acc) \<subseteq> insert (k, v) (set acc)"
  by (induction acc) auto

lemma assign_fields_wf:
  "distinct (map fst (assign_fields kvs)) \<and> set (assign_fields kvs) \<subseteq> set kvs"
proof -
  have "distinct (map fst (fold (\<lambda>(k, v). AList.update k v) kvs acc))
      \<and> set (fold (\<lambda>(k, v). AList.update k v) kvs acc) \<subseteq> set acc \<union> set kvs"
    if "distinct (map fst acc)" for acc :: "(string \<times> json) list"
    using that
  proof (induction kvs arbitrary: acc)
    case (Cons kv kvs)
    obtain k v where kv: "kv = (k, v)" by fastforce
    have "distinct (map fst (AList.update k v acc))" using Cons.prems by (rule distinct_update)
    then show ?case using Cons.IH fields_update [of k v acc] kv by fastforce
  qed simp
  from this [of "[]"] show ?thesis by (simp add: assign_fields_def)
qed

lemma wf_normalizeValue: "wf_json v \<Longrightarrow> wf_json (normalizeValue key v)"
proof (induction key v rule: normalizeValue.induct)
  case (2 key fs)
  have "wf_json (normalizeValue key x)" if "(k, x) \<in> set fs" for k x
    using 2 that by (fastforce simp: list_all_iff)
  then have "\<forall>(k, x) \<in> set (map (\<lambda>(k, v). (key k, normalizeValue key v)) fs). wf_json x" by auto
  then show ?case using assign_fields_wf [of "map (\<lambda>(k, v). (key k, normalizeValue key v)) fs"]
    by (auto simp: list_all_iff)
qed (auto simp: list_all_iff)

lemma inj_toSnakeCase: "inj_on toSnakeCase (Collect camel_key)"
  by (rule inj_on_inverseI [of _ toCamelCase]) (simp add: camel_key_iff)

lemma camel_of_snake: "wf_json v \<Longrightarrow> camel_payload v \<Longrightarrow> normalizeToCamelCase (normalizeToSnakeCase v) = v"
  unfolding normalizeToCamelCase_def normalizeToSnakeCase_def
proof (induction toSnakeCase v rule: normalizeValue.induct)
  case (1 xs)
  then show ?case by (auto simp: list_all_iff intro: map_idI)
next
  case (2 fs)
  let ?f = "\<lambda>(k, v). (toSnakeCase k, normalizeValue toSnakeCase v)" and ?g = "\<lambda>(k, v). (toCamelCase k, normalizeValue toCamelCase v)"
  have k: "camel_key k" "normalizeValue toCamelCase (normalizeValue toSnakeCase x) = x" if "(k, x) \<in> set fs" for k x
    using 2 that by (fastforce simp: list_all_iff)+
  have "map fst (map ?f fs) = map toSnakeCase (map fst fs)" by auto
  moreover have "inj_on toSnakeCase (set (map fst fs))" using k(1) by (intro inj_on_subset [OF inj_toSnakeCase]) auto
  moreover have "distinct (map fst fs)" using 2(2) by simp
  ultimately have d: "distinct (map fst (map ?f fs))" using distinct_map [of toSnakeCase "map fst fs"] by (simp del: map_map)
  have "?g (?f x) = x" if "x \<in> set fs" for x
  proof -
    obtain a b where "x = (a, b)" by fastforce
    then show ?thesis using that k camel_key_iff by auto
  qed
  then have g: "map ?g (map ?f fs) = fs" by (simp add: map_idI)
  show ?case using 2(2) d g by (simp add: assign_fields_distinct del: map_map)
qed simp_all

lemma assign_fields_keys: "set (map fst (assign_fields kvs)) = set (map fst kvs)"
proof -
  have "set (map fst (fold (\<lambda>(k, v). AList.update k v) kvs acc)) = set (map fst acc) \<union> set (map fst kvs)" for acc :: "(string \<times> json) list"
    by (induction kvs arbitrary: acc) (simp_all add: case_prod_beta AList.dom_update)
  from this [of "[]"] show ?thesis by (simp add: assign_fields_def)
qed

text \<open>No field is lost only when no two keys coincide.\<close>

lemma assign_fields_length: "length (assign_fields kvs) \<le> length kvs" "length kvs \<le> length (assign_fields kvs) \<Longrightarrow> assign_fields kvs = kvs"
proof -
  have "length (assign_fields kvs) = card (set (map fst kvs))"
    using distinct_card [OF conjunct1 [OF assign_fields_wf [of kvs]]] unfolding assign_fields_keys by simp
  then show "length (assign_fields kvs) \<le> length kvs" "length kvs \<le> length (assign_fields kvs) \<Longrightarrow> assign_fields kvs = kvs"
    using card_length [of "map fst kvs"] card_distinct [of "map fst kvs"] assign_fields_distinct by auto
qed

lemma camel_of_snake_iff: "wf_json v \<Longrightarrow> normalizeToCamelCase (normalizeToSnakeCase v) = v \<longleftrightarrow> camel_payload v"
proof
  show "wf_json v \<Longrightarrow> normalizeToCamelCase (normalizeToSnakeCase v) = v \<Longrightarrow> camel_payload v"
    unfolding normalizeToCamelCase_def normalizeToSnakeCase_def
  proof (induction toSnakeCase v rule: normalizeValue.induct)
    case (1 xs)
    have "normalizeValue toCamelCase (normalizeValue toSnakeCase x) = x" if "x \<in> set xs" for x
      using 1(3) that by (simp add: map_idI) (metis comp_apply map_eq_conv map_idI id_apply list.map_id0 map_map)
    then show ?case using 1 by (simp add: list_all_iff)
  next
    case (2 fs)
    let ?f = "\<lambda>(k, v). (toSnakeCase k, normalizeValue toSnakeCase v)" and ?g = "\<lambda>(k, v). (toCamelCase k, normalizeValue toCamelCase v)"
    have e: "assign_fields (map ?g (assign_fields (map ?f fs))) = fs" using 2(3) by simp
    have le: "length fs \<le> length (assign_fields (map ?f fs))"
      using assign_fields_length(1) [of "map ?g (assign_fields (map ?f fs))"] unfolding e by simp
    have a: "assign_fields (map ?f fs) = map ?f fs" by (rule assign_fields_length(2)) (use le in simp)
    have "assign_fields (map ?g (map ?f fs)) = map ?g (map ?f fs)" by (rule assign_fields_length(2)) (use e a in simp)
    then have m: "map (?g \<circ> ?f) fs = map id fs" using e unfolding a by simp
    have "camel_key k \<and> camel_payload x" if "(k, x) \<in> set fs" for k x
    proof -
      have "toCamelCase (toSnakeCase k) = k" "normalizeValue toCamelCase (normalizeValue toSnakeCase x) = x"
        using m that unfolding map_eq_conv by fastforce+
      then show ?thesis using 2 that by (fastforce simp: camel_key_iff list_all_iff)
    qed
    then show ?case by (auto simp: list_all_iff)
  qed simp_all
qed (rule camel_of_snake)

section \<open>The latest decision\<close>

text \<open>The row of a new decision heads the answer when it is later than every row of its own envelope.\<close>

lemma latest_is_new:
  assumes new: "visible sid env hook r" "hr_envelope_id r = env"
    and later: "\<And>q. q \<in> set rows \<Longrightarrow> visible sid env hook q \<Longrightarrow> hr_envelope_id q = env \<Longrightarrow> hr_timestamp q < hr_timestamp r"
  shows "\<exists>qs. sort_key (\<lambda>q. if hr_envelope_id q = env then 0 else 1 :: nat)
           (newest_first (filter (visible sid env hook) (rows @ [r]))) = r # qs"
proof -
  let ?own = "\<lambda>q. hr_envelope_id q = env" and ?f = "\<lambda>q. if hr_envelope_id q = env then 0 else 1 :: nat"
  let ?vs = "filter (visible sid env hook) rows"
  let ?n = "newest_first (?vs @ [r])"
  have sn: "set ?n = insert r (set ?vs)" by (simp add: newest_first_def set_insort_key)
  then obtain h qs where h: "sort_key ?f ?n = h # qs" by (cases "sort_key ?f ?n") (auto simp flip: set_sort [of ?f ?n])
  have "r \<in> set (h # qs)" using sn by (simp flip: h)
  moreover have "sorted (map ?f (h # qs))" by (simp flip: h)
  ultimately have own: "hr_envelope_id h = env" using new(2) by (auto split: if_splits)
  have f0: "(\<lambda>q. ?f q = 0) = ?own" by auto
  have "filter ?own (h # qs) = filter ?own ?n" using sort_key_stable [of ?f 0 ?n] unfolding h f0 .
  then have n: "filter ?own ?n = h # filter ?own qs" using own by simp
  have "sorted_wrt (\<lambda>p q. hr_timestamp q \<le> hr_timestamp p) ?n"
    using sorted_sort_key [of hr_timestamp "rev (?vs @ [r])"] unfolding newest_first_def sorted_wrt_rev sorted_map .
  then have "sorted_wrt (\<lambda>p q. hr_timestamp q \<le> hr_timestamp p) (h # filter ?own qs)" unfolding n [symmetric] by (rule sorted_wrt_filter)
  moreover have "r \<in> set (filter ?own ?n)" using sn new(2) by simp
  ultimately have "hr_timestamp r \<le> hr_timestamp h" unfolding n by auto
  moreover have "h \<in> set (sort_key ?f ?n)" by (simp only: h list.set_intros)
  then have "h \<in> set ?n" by simp
  ultimately have "h = r" using later [of h] own sn by (auto simp: not_less)
  then show ?thesis using h new(1) by simp
qed

text \<open>A payload as \<^verbatim>\<open>JSON.stringify\<close> takes it, and what is left of it after the way to snake case and back.\<close>

fun readable :: "json \<Rightarrow> bool" where
  "readable (JObj fs) = wf_json (JObj fs)"
| "readable _ = False"

abbreviation reread :: "json \<Rightarrow> json" where
  "reread v \<equiv> normalizeToCamelCase (normalizeToSnakeCase v)"

lemma readable_round_trip:
  assumes "readable v"
  shows "deserializeBridgePayload pm (serializeBridgePayload (normalizeToSnakeCase v)) = Inr (normalizeToSnakeCase v)"
    and "reread v = v \<longleftrightarrow> camel_payload v"
proof -
  obtain fs where v: "v = JObj fs" "wf_json v" using assms by (cases v) auto
  then have "JSON_parse (JSON_stringify (normalizeToSnakeCase v)) = Some (normalizeToSnakeCase v)"
    unfolding normalizeToSnakeCase_def by (intro JSON_parse_stringify wf_normalizeValue)
  moreover obtain gs where "normalizeToSnakeCase v = JObj gs" using v by (simp add: normalizeToSnakeCase_def)
  ultimately show "deserializeBridgePayload pm (serializeBridgePayload (normalizeToSnakeCase v)) = Inr (normalizeToSnakeCase v)"
    by (simp add: deserializeBridgePayload_def serializeBridgePayload_def)
  show "reread v = v \<longleftrightarrow> camel_payload v" using v(2) by (rule camel_of_snake_iff)
qed

text \<open>A write appends one row or, when its id is taken, leaves the rows as they were.\<close>

lemma writeHookDecision_cases:
  obtains (taken) e s' where "writeHookDecision E d s = (Inl e, s')" "lg_rows s' = lg_rows s"
      "nullish (di_id d) (newId E ''hook-log'' (lg_seq s)) \<in> hr_id ` set (lg_rows s)"
  | (written) r s' row where "writeHookDecision E d s = (Inr r, s')" "lg_rows s' = lg_rows s @ [row]"
      "hl_id r = nullish (di_id d) (newId E ''hook-log'' (lg_seq s))" "hl_id r \<notin> hr_id ` set (lg_rows s)"
      "hl_input r = normalizeToSnakeCase (di_payloadIn d)" "hl_output r = normalizeToSnakeCase (di_payloadOut d)"
      "hl_sessionId r = di_sessionId d" "hl_envelopeId r = di_envelopeId d" "hl_hookName r = di_hookName d"
      "hl_decision r = di_decision d" "hl_reason r = di_reason d" "hl_durationMs r = nullish (di_durationMs d) 0"
      "row = \<lparr>hr_id = hl_id r, hr_session_id = hl_sessionId r, hr_envelope_id = hl_envelopeId r, hr_hook_name = hl_hookName r,
        hr_input_json = serializeBridgePayload (hl_input r), hr_output_json = serializeBridgePayload (hl_output r),
        hr_decision = hl_decision r, hr_reason = hl_reason r, hr_duration_ms = hl_durationMs r, hr_timestamp = hl_timestamp r\<rparr>"
proof -
  define i where "i = nullish (di_id d) (newId E ''hook-log'' (lg_seq s))"
  obtain n1 where n1: "(case di_id d of Some i \<Rightarrow> (i, lg_seq s) | None \<Rightarrow> (newId E ''hook-log'' (lg_seq s), lg_seq s + 1)) = (i, n1)"
    by (cases "di_id d") (auto simp: i_def)
  obtain t n2 where n2: "(case di_timestamp d of Some t \<Rightarrow> (t, n1) | None \<Rightarrow> (clk E n1, n1 + 1)) = (t, n2)" by fastforce
  show ?thesis
  proof (cases "i \<in> hr_id ` set (lg_rows s)")
    case True
    then show ?thesis using taken [of _ "s\<lparr>lg_seq := n2\<rparr>"] n1 n2 by (simp add: writeHookDecision_def logs_save_def i_def)
  next
    case False
    show ?thesis
      by (rule written [rotated 1]) (use False n1 n2 in \<open>simp_all add: writeHookDecision_def logs_save_def i_def\<close>)
  qed
qed

lemma toHookLog_written:
  assumes "readable i" and "readable out" and "hl_input r = normalizeToSnakeCase i" and "hl_output r = normalizeToSnakeCase out"
  shows "toHookLog pm \<lparr>hr_id = hl_id r, hr_session_id = hl_sessionId r, hr_envelope_id = hl_envelopeId r, hr_hook_name = hl_hookName r,
        hr_input_json = serializeBridgePayload (hl_input r), hr_output_json = serializeBridgePayload (hl_output r),
        hr_decision = hl_decision r, hr_reason = hl_reason r, hr_duration_ms = hl_durationMs r, hr_timestamp = hl_timestamp r\<rparr>
      = Inr (r\<lparr>hl_input := reread i, hl_output := reread out\<rparr>)"
  using readable_round_trip [OF assms(1)] readable_round_trip [OF assms(2)] by (simp add: toHookLog_def assms(3,4))

text \<open>
  C19. What the policy code decides is what a hook reads, up to the names of the keys. Writing a decision whose payloads are objects, under
  an id that is not taken, succeeds and appends one row. The query for the latest decision of its session, envelope and hook
  then returns that decision, provided its time is strictly later than those of the decisions already stored for the same envelope and
  hook. Its payloads are the given ones with every key converted to snake case and back; a payload is returned as it was given exactly
  when all its keys are camel keys, which holds for the field names of the code and not for the server ids \<^verbatim>\<open>augment_context_engine\<close>,
  \<^verbatim>\<open>grep_app\<close> and \<^verbatim>\<open>chrome-devtools\<close> that are keys of a routing decision. A query that names another
  session or another hook, or another envelope when the decision was not stored for the whole session, returns what it
  returned before.
\<close>

theorem decision_log_reads_back:
  assumes "readable (di_payloadIn d)" and "readable (di_payloadOut d)" and "di_envelopeId d \<noteq> []"
    and "nullish (di_id d) (newId E ''hook-log'' (lg_seq s)) \<notin> hr_id ` set (lg_rows s)"
  shows "\<exists>r s'. writeHookDecision E d s = (Inr r, s')
    \<and> length (lg_rows s') = length (lg_rows s) + 1
    \<and> hl_decision r = di_decision d \<and> hl_reason r = di_reason d
    \<and> ((\<forall>q \<in> set (lg_rows s). hr_session_id q = di_sessionId d \<and> hr_hook_name q = di_hookName d \<and> hr_envelope_id q = di_envelopeId d
          \<longrightarrow> hr_timestamp q < hl_timestamp r)
       \<longrightarrow> findLatestDecision pm (lg_rows s') (di_sessionId d) (di_envelopeId d) (di_hookName d)
           = Inr (Some (r\<lparr>hl_input := reread (di_payloadIn d), hl_output := reread (di_payloadOut d)\<rparr>)))
    \<and> (\<forall>v \<in> {di_payloadIn d, di_payloadOut d}. reread v = v \<longleftrightarrow> camel_payload v)
    \<and> (\<forall>sid env hook. sid \<noteq> di_sessionId d \<or> hook \<noteq> di_hookName d \<or> env \<noteq> di_envelopeId d \<and> di_sessionId d \<noteq> di_envelopeId d
       \<longrightarrow> findLatestDecision pm (lg_rows s') sid env hook = findLatestDecision pm (lg_rows s) sid env hook)"
proof (cases rule: writeHookDecision_cases [of E d s])
  case taken
  then show ?thesis using assms(4) by blast
next
  case (written r s' row)
  let ?sid = "di_sessionId d" and ?env = "di_envelopeId d" and ?hook = "di_hookName d"
  have row: "hr_session_id row = ?sid" "hr_envelope_id row = ?env" "hr_hook_name row = ?hook" "hr_timestamp row = hl_timestamp r"
    by (simp_all add: written(7-9,13))
  have log: "toHookLog pm row = Inr (r\<lparr>hl_input := reread (di_payloadIn d), hl_output := reread (di_payloadOut d)\<rparr>)"
    unfolding written(13) by (rule toHookLog_written [OF assms(1,2) written(5,6)])
  have "findLatestDecision pm (lg_rows s') ?sid ?env ?hook = Inr (Some (r\<lparr>hl_input := reread (di_payloadIn d), hl_output := reread (di_payloadOut d)\<rparr>))"
    if "\<forall>q \<in> set (lg_rows s). hr_session_id q = ?sid \<and> hr_hook_name q = ?hook \<and> hr_envelope_id q = ?env \<longrightarrow> hr_timestamp q < hl_timestamp r"
  proof -
    have "\<exists>qs. sort_key (\<lambda>q. if hr_envelope_id q = ?env then 0 else 1 :: nat)
        (newest_first (filter (visible ?sid ?env ?hook) (lg_rows s @ [row]))) = row # qs"
      by (rule latest_is_new) (use that row assms(3) in \<open>auto simp: visible_def\<close>)
    then show ?thesis by (auto simp: findLatestDecision_def written(2) log simp del: filter_append)
  qed
  moreover have "\<not> visible sid env hook row"
    if "sid \<noteq> ?sid \<or> hook \<noteq> ?hook \<or> env \<noteq> ?env \<and> ?sid \<noteq> ?env" for sid env hook
    using that row by (auto simp: visible_def)
  moreover have "\<forall>v \<in> {di_payloadIn d, di_payloadOut d}. reread v = v \<longleftrightarrow> camel_payload v"
    using readable_round_trip(2) assms(1,2) by blast
  ultimately show ?thesis using written(1,2,10,11) by (intro exI [of _ r] exI [of _ s']) (auto simp: findLatestDecision_def)
qed

definition sample_decision :: decision_input where
  "sample_decision =
     client_decision ''s1'' (Some ''e1'') McpRoutingHook HdAllow ''mcp routing selected''
       (JObj [(''intent'', JStr ''plan'')]) (JObj [(''mcps'', JArr [JStr ''context7'']), (''semanticMode2'', JBool True)])"

definition sample_log :: log_state where
  "sample_log =
     \<lparr>lg_rows = [\<lparr>hr_id = ''hook-log-a'', hr_session_id = ''s1'', hr_envelope_id = ''e1'', hr_hook_name = McpRoutingHook,
        hr_input_json = ''{}'', hr_output_json = ''{}'', hr_decision = HdBlock, hr_reason = ''old'', hr_duration_ms = 0, hr_timestamp = ''2025-01-01T00:00:00.001Z''\<rparr>],
      lg_seq = 4\<rparr>"

definition log_entropy :: entropy where
  "log_entropy = \<lparr>rnd = (\<lambda>n. if n = 4 then ''b'' else ''c''), clk = (\<lambda>n. if n = 5 then ''2025-01-01T00:00:00.002Z'' else ''2025-01-01T00:00:00.003Z'')\<rparr>"

lemma sample_decision_hyps:
  "readable (di_payloadIn sample_decision)" "readable (di_payloadOut sample_decision)" "di_envelopeId sample_decision \<noteq> []"
  "nullish (di_id sample_decision) (newId log_entropy ''hook-log'' (lg_seq sample_log)) \<notin> hr_id ` set (lg_rows sample_log)"
  "hl_timestamp (projr (fst (writeHookDecision log_entropy sample_decision sample_log))) = ''2025-01-01T00:00:00.002Z''"
  "\<forall>q \<in> set (lg_rows sample_log). hr_timestamp q < ''2025-01-01T00:00:00.002Z''"
  "camel_payload (di_payloadIn sample_decision)" "camel_payload (di_payloadOut sample_decision)"
  by code_simp+

theorem decision_log_reads_back_witness:
  "\<exists>r s'. writeHookDecision log_entropy sample_decision sample_log = (Inr r, s')
     \<and> findLatestDecision (\<lambda>t. []) (lg_rows s') (di_sessionId sample_decision) (di_envelopeId sample_decision) (di_hookName sample_decision)
       = Inr (Some (r\<lparr>hl_input := di_payloadIn sample_decision, hl_output := di_payloadOut sample_decision\<rparr>))"
proof -
  obtain r s' where w: "writeHookDecision log_entropy sample_decision sample_log = (Inr r, s')"
    and l: "(\<forall>q \<in> set (lg_rows sample_log). hr_session_id q = di_sessionId sample_decision \<and> hr_hook_name q = di_hookName sample_decision
        \<and> hr_envelope_id q = di_envelopeId sample_decision \<longrightarrow> hr_timestamp q < hl_timestamp r)
      \<longrightarrow> findLatestDecision (\<lambda>t. []) (lg_rows s') (di_sessionId sample_decision) (di_envelopeId sample_decision) (di_hookName sample_decision)
        = Inr (Some (r\<lparr>hl_input := reread (di_payloadIn sample_decision), hl_output := reread (di_payloadOut sample_decision)\<rparr>))"
    and same: "reread (di_payloadIn sample_decision) = di_payloadIn sample_decision" "reread (di_payloadOut sample_decision) = di_payloadOut sample_decision"
    using decision_log_reads_back [OF sample_decision_hyps(1-4), of "\<lambda>t. []"] sample_decision_hyps(7,8) by blast
  have "hl_timestamp r = ''2025-01-01T00:00:00.002Z''" using sample_decision_hyps(5) w by simp
  then have "\<forall>q \<in> set (lg_rows sample_log). hr_timestamp q < hl_timestamp r" using sample_decision_hyps(6) by simp
  then show ?thesis using w l same by (metis (no_types))
qed

text \<open>The ids of servers are keys of the routing payloads, and three of them are not camel keys.\<close>

lemma server_ids_renamed:
  "filter (\<lambda>k. toCamelCase (toSnakeCase k) \<noteq> k) (map mc_id DEFAULT_MCP_REGISTRY) = [''augment_context_engine'', ''grep_app'', ''chrome-devtools'']"
  by code_simp

end
