(* ===== verification/SessionRevert.thy ===== *)
theory SessionRevert
  imports SessionOps
begin

text \<open>
  What \<^verbatim>\<open>revertTo\<close>, \<^verbatim>\<open>undoRevert\<close> and \<^verbatim>\<open>StageRunner.advance\<close> do to the store, evaluated to the last row
  (\<open>reverted_world\<close>, \<open>advanced_world\<close>), and the properties that follow: a revert brings back the stage and
  the workflow row of its checkpoint, undo goes back to the previous checkpoint, a stage moves along its
  lane. The hypotheses on the environment are that drawn ids are unused (\<open>fresh_ids\<close>) and that the clock
  does not run backwards (\<open>clock_ahead\<close>).
\<close>

section \<open>Evaluating a revert\<close>

lemma historyCheck_same [simp]: "historyCheck sid x x = return_dh ()"
  by (cases x) (simp_all add: historyCheck_def)

definition reverted_session :: "session_state \<Rightarrow> session_checkpoint \<Rightarrow> string \<Rightarrow> string \<Rightarrow> timestamp \<Rightarrow> session_state" where
  "reverted_session s c smid rvid now = s\<lparr>ss_currentStage := cp_stage c, ss_updatedAt := now,
     ss_latestSummaryId := Some smid, ss_latestCheckpointId := Some (cp_id c), ss_latestRevertId := Some rvid\<rparr>"

definition reverted_world :: "entropy \<Rightarrow> session_state \<Rightarrow> session_checkpoint \<Rightarrow> string \<Rightarrow> workflow_row
    \<Rightarrow> (string \<Rightarrow> timestamp \<Rightarrow> session_summary) \<Rightarrow> world \<Rightarrow> world" where
  "reverted_world E s c reason row mk w =
     (let n = seq w; sid = ss_sessionId s;
          sm = mk (newId E ''session-summary'' n) (clk E (n + 1));
          rv = revert_row sid (cp_id c) (reverts_findLatestBySession sid w) reason
            (newId E ''session-revert'' (n + 2)) (clk E (n + 3));
          ev = \<lparr>re_id = newId E ''session-runtime-event'' (n + 5), re_sessionId = sid,
            re_eventType = ''revert'', re_eventJson = JObj [(''checkpointId'', JStr (cp_id c)),
              (''revertId'', JStr (rv_id rv)), (''reason'', JStr reason)], re_createdAt = clk E (n + 6)\<rparr>
      in w\<lparr>t_sessions := row_upsert ss_sessionId (reverted_session s c (sm_id sm) (rv_id rv) (clk E (n + 4))) (t_sessions w),
           t_workflow := row_upsert wr_sessionId row (t_workflow w),
           t_events := t_events w @ [ev],
           t_summaries := row_upsert sm_id sm (t_summaries w),
           t_reverts := t_reverts w @ [rv],
           seq := n + 7\<rparr>)"

lemma revert_row_simps [simp]:
  "rv_id (revert_row sid c p r i t) = i" "rv_sessionId (revert_row sid c p r i t) = sid"
  "rv_checkpointId (revert_row sid c p r i t) = c"
  "rv_previousCheckpointId (revert_row sid c p r i t) = map_option rv_checkpointId p"
  "rv_createdAt (revert_row sid c p r i t) = t"
  by (simp_all add: revert_row_def)

lemma reverted_summary_session: "reverted_summary c = Inr mk \<Longrightarrow> sm_sessionId (mk i t) = cp_sessionId c \<and> sm_id (mk i t) = i"
  by (auto simp: reverted_summary_def bind_sum_def Let_def split: sum.splits)

lemma latest_reverts_frame [simp]:
  "reverts_findLatestBySession sid (w\<lparr>t_workflow := a, t_summaries := b, seq := n\<rparr>) = reverts_findLatestBySession sid w"
  by (simp add: reverts_findLatestBySession_def reverts_listBySession_def)

lemma applyRevert_eval:
  assumes "fresh_ids E w" and "sessionExists (ss_sessionId s) w" and "cp_sessionId c = ss_sessionId s"
    and "workflow_row_of (ss_sessionId s) (cp_workflowSnapshot c) = Inr row" and "reverted_summary c = Inr mk"
  shows "applyRevert E (reverts_findLatestBySession (ss_sessionId s) w) s c reason w =
    (Inr (newId E ''session-revert'' (seq w + 2), cp_id c), reverted_world E s c reason row mk w)"
proof -
  note f = fresh_idsD [OF assms(1)]
  note sm = reverted_summary_session [OF assms(5)]
  have wf: "workflow_save (ss_sessionId s) (cp_workflowSnapshot c) w
      = (Inr (), w\<lparr>t_workflow := row_upsert wr_sessionId row (t_workflow w)\<rparr>)"
    using assms by (simp add: workflow_save_def)
  show ?thesis
    unfolding applyRevert_def
    by (simp add: bind_dh_def return_dh_def read_dh_def lift_sum_def nowIso_def sessions_save_def write_dh_def
        wf assms sm f Let_def reverted_world_def reverted_session_def
        summaries_save_eval [where sid = "ss_sessionId s"]
        reverts_save_eval [where sid = "ss_sessionId s"] events_save_eval eval_nat_numeral)
qed

lemma revertTo_eval:
  assumes "fresh_ids E w" and "\<not> isBusy sid w" and "checkpoints_findById cid w = Some c"
    and "cp_sessionId c = sid" and "sessions_findById sid w = Some s"
    and "workflow_row_of sid (cp_workflowSnapshot c) = Inr row" and "reverted_summary c = Inr mk"
  shows "revertTo E sid cid reason w =
    (Inr (newId E ''session-revert'' (seq w + 2), cid), reverted_world E s c reason row mk w)"
proof -
  have s: "sessionExists sid w" "ss_sessionId s = sid" using find_exists [OF assms(5)] by simp_all
  have c: "cp_id c = cid" using assms(3) by (simp add: checkpoints_findById_def row_find_Some)
  show ?thesis
    using applyRevert_eval [of E w s c row mk reason] assms s c
    by (simp add: revertTo_def bind_dh_def read_dh_def assertNotBusy_def Let_def)
qed

lemma sort_key_snoc:
  assumes "\<forall>x \<in> set xs. f x \<le> f r"
  shows "sort_key f (xs @ [r]) = sort_key f xs @ [r]"
proof (rule properties_for_sort_key)
  show "mset (sort_key f xs @ [r]) = mset (xs @ [r])" by simp
  show "filter (\<lambda>x. f k = f x) (sort_key f xs @ [r]) = filter (\<lambda>x. f k = f x) (xs @ [r])" for k
    using sort_key_stable [of f "f k" xs] by (simp add: eq_commute)
  show "sorted (map f (sort_key f xs @ [r]))" using assms by (simp add: sorted_append)
qed

lemma row_list_snoc:
  assumes "owner r = s" and "\<forall>x \<in> set t. owner x = s \<longrightarrow> stamp x \<le> stamp r"
  shows "row_list owner stamp s (t @ [r]) = r # row_list owner stamp s t"
  using assms by (simp add: row_list_def sort_key_snoc)

text \<open>The clock does not run backwards.\<close>

definition clock_ahead :: "entropy \<Rightarrow> world \<Rightarrow> bool" where
  "clock_ahead E w \<longleftrightarrow> (\<forall>m n. m \<le> n \<longrightarrow> clk E m \<le> clk E n)
     \<and> (\<forall>r \<in> set (t_reverts w). rv_createdAt r \<le> clk E (seq w))"

lemma reverted_fields [simp]:
  "t_checkpoints (reverted_world E s c reason row mk w) = t_checkpoints w"
  "runs (reverted_world E s c reason row mk w) = runs w"
  "seq (reverted_world E s c reason row mk w) = seq w + 7"
  by (simp_all add: reverted_world_def Let_def)

lemma reverted_latest:
  assumes "clock_ahead E w"
  shows "reverts_findLatestBySession (ss_sessionId s) (reverted_world E s c reason row mk w) =
    Some (revert_row (ss_sessionId s) (cp_id c) (reverts_findLatestBySession (ss_sessionId s) w) reason
            (newId E ''session-revert'' (seq w + 2)) (clk E (seq w + 3)))"
proof -
  have le: "\<forall>x \<in> set (t_reverts w). rv_createdAt x \<le> clk E (seq w + 3)"
    using assms unfolding clock_ahead_def by (meson le_add1 order_trans)
  have t: "t_reverts (reverted_world E s c reason row mk w) = t_reverts w @
    [revert_row (ss_sessionId s) (cp_id c) (reverts_findLatestBySession (ss_sessionId s) w) reason
      (newId E ''session-revert'' (seq w + 2)) (clk E (seq w + 3))]"
    by (simp add: reverted_world_def Let_def)
  show ?thesis
    unfolding reverts_findLatestBySession_def [of _ "reverted_world E s c reason row mk w"]
      reverts_listBySession_def t
    using le by (simp add: row_list_snoc)
qed

lemma reverted_fresh:
  assumes "fresh_ids E w" and "sessionExists (ss_sessionId s) w"
    and "reverted_summary c = Inr mk"
  shows "fresh_ids E (reverted_world E s c reason row mk w)"
proof -
  note sm = reverted_summary_session [OF assms(3)]
  have keys: "ss_sessionId ` set (t_sessions (reverted_world E s c reason row mk w)) = ss_sessionId ` set (t_sessions w)"
    using assms(2) by (auto simp: reverted_world_def Let_def sessionExists_def reverted_session_def)
  show ?thesis
    unfolding fresh_ids_def keys
    using assms(1) fresh_idsD [OF assms(1)] newId_inj [OF assms(1)] sm
    by (auto simp: fresh_ids_def reverted_world_def Let_def)
qed

lemma reverted_clock:
  assumes "clock_ahead E w"
  shows "clock_ahead E (reverted_world E s c reason row mk w)"
proof -
  have "\<forall>r \<in> set (t_reverts w). rv_createdAt r \<le> clk E (seq w + 7)"
    using assms unfolding clock_ahead_def by (meson le_add1 order_trans)
  then show ?thesis using assms by (auto simp: clock_ahead_def reverted_world_def Let_def)
qed

lemma reverted_session_simps [simp]:
  "ss_sessionId (reverted_session s c a b t) = ss_sessionId s"
  "ss_currentStage (reverted_session s c a b t) = cp_stage c"
  "ss_latestCheckpointId (reverted_session s c a b t) = Some (cp_id c)"
  "ss_latestRevertId (reverted_session s c a b t) = Some b"
  by (simp_all add: reverted_session_def)

lemma reverted_find:
  "sessions_findById x (reverted_world E s c reason row mk w) =
     (if x = ss_sessionId s
      then Some (reverted_session s c (sm_id (mk (newId E ''session-summary'' (seq w)) (clk E (seq w + 1))))
        (newId E ''session-revert'' (seq w + 2)) (clk E (seq w + 4)))
      else sessions_findById x w)"
  "row_find wr_sessionId x (t_workflow (reverted_world E s c reason row mk w)) =
     (if x = wr_sessionId row then Some row else row_find wr_sessionId x (t_workflow w))"
  by (simp_all add: sessions_findById_def reverted_world_def Let_def store_laws)

lemma undoRevert_eval:
  assumes "reverts_findLatestBySession sid w = Some l" and "rv_previousCheckpointId l = Some prev"
    and "prev \<noteq> []" and "checkpoints_findById prev w = Some c" and "cp_sessionId c = sid"
    and "rv_checkpointId l \<noteq> prev"
  shows "undoRevert E sid w = revertTo E sid prev ''undo-revert'' w"
  using assms by (simp add: undoRevert_def bind_dh_def read_dh_def Let_def)

section \<open>A workflow state and its row\<close>

definition workflow_row_typed :: "string \<Rightarrow> workflow_state \<Rightarrow> workflow_row" where
  "workflow_row_typed sid s =
     \<lparr>wr_sessionId = sid, wr_lane = lane_name (wf_lane s), wr_stage = stage_name (wf_stage s),
      wr_stageStatus = stage_status_name (wf_stageStatus s),
      wr_previousStage = map_option stage_name (wf_previousStage s),
      wr_nextStage = map_option stage_name (wf_nextStage s),
      wr_gateStatus = gate_status_name (wf_gateStatus s),
      wr_blockersJson = JSON_stringify (JArr (map JStr (wf_blockers s)))\<rparr>"

lemma workflow_json_fields:
  "obj_field ''lane'' (workflow_json s) = Some (JStr (lane_name (wf_lane s)))"
  "obj_field ''stage'' (workflow_json s) = Some (JStr (stage_name (wf_stage s)))"
  "obj_field ''stageStatus'' (workflow_json s) = Some (JStr (stage_status_name (wf_stageStatus s)))"
  "obj_field ''previousStage'' (workflow_json s) = map_option (JStr \<circ> stage_name) (wf_previousStage s)"
  "obj_field ''nextStage'' (workflow_json s) = map_option (JStr \<circ> stage_name) (wf_nextStage s)"
  "obj_field ''gateStatus'' (workflow_json s) = Some (JStr (gate_status_name (wf_gateStatus s)))"
  "obj_field ''blockers'' (workflow_json s) = Some (JArr (map JStr (wf_blockers s)))"
  by (simp_all add: obj_field_def workflow_json_def opt_field_def split: option.split)

lemma workflow_row_json: "workflow_row_of sid (workflow_json s) = Inr (workflow_row_typed sid s)"
  unfolding workflow_row_of_def workflow_json_fields workflow_row_typed_def
  by (simp add: bind_sum_def bind_text_def bind_nullable_def bind_json_def split: option.split)

lemma summary_snapshot_fields:
  "obj_field ''filesChanged'' (summary_snapshot s) = Some (JNum (sm_filesChanged s))"
  "obj_field ''additions'' (summary_snapshot s) = Some (JNum (sm_additions s))"
  "obj_field ''deletions'' (summary_snapshot s) = Some (JNum (sm_deletions s))"
  "obj_field ''lastDiffAt'' (summary_snapshot s) = map_option JStr (sm_lastDiffAt s)"
  "obj_field ''latestStage'' (summary_snapshot s) = map_option JStr (sm_latestStage s)"
  "obj_field ''latestCheckpointId'' (summary_snapshot s) = map_option JStr (sm_latestCheckpointId s)"
  "obj_field ''continuationSummary'' (summary_snapshot s) = map_option JStr (sm_continuationSummary s)"
  "obj_field ''continuationCreatedAt'' (summary_snapshot s) = map_option JStr (sm_continuationCreatedAt s)"
  by (simp_all add: obj_field_def summary_snapshot_def opt_text_def opt_field_def split: option.split)

lemma snapshot_text_of: "obj_field k j = map_option JStr v \<Longrightarrow> snapshot_text k j = Inr v"
  by (cases v) (simp_all add: snapshot_text_def bind_nullable_def bind_text_def)

lemma snapshot_int_of: "obj_field k j = Some (JNum i) \<Longrightarrow> snapshot_int k j = Inr i"
  by (simp add: snapshot_int_def)

text \<open>Reverting to a checkpoint that recorded a summary writes that summary again, under a new id.\<close>

lemma reverted_summary_snapshot:
  assumes "cp_summarySnapshot c = summary_snapshot s"
  shows "reverted_summary c = Inr (\<lambda>i t. s\<lparr>sm_id := i, sm_sessionId := cp_sessionId c,
    sm_latestCheckpointId := Some (nullish (sm_latestCheckpointId s) (cp_id c)), sm_updatedAt := t\<rparr>)"
proof -
  note i = summary_snapshot_fields(1-3) [of s, THEN snapshot_int_of]
  note t = summary_snapshot_fields(4-8) [of s, THEN snapshot_text_of]
  show ?thesis
    unfolding reverted_summary_def assms Let_def i t bind_sum_def
    by (cases s) (simp add: fun_eq_iff)
qed

lemma reverted_summary_empty:
  assumes "cp_summarySnapshot c = JObj []"
  shows "\<exists>mk. reverted_summary c = Inr mk"
  using assms
  by (simp add: reverted_summary_def Let_def snapshot_int_def snapshot_text_def bind_nullable_def
      obj_field_def bind_sum_def)

section \<open>Properties\<close>

text \<open>
  C23. Reverting restores the checkpoint. When the session is idle and exists, the checkpoint belongs to
  it and its snapshots can be stored, \<^verbatim>\<open>revertTo\<close> returns, the session's current stage and latest
  checkpoint are the checkpoint's, its workflow row is the one of the snapshot, the revert is recorded
  as the latest one with the earlier revert's target as its predecessor, and no checkpoint, no other
  session and no other session's workflow row is touched.
\<close>

theorem revertTo_restores_checkpoint:
  assumes "fresh_ids E w" and "clock_ahead E w" and "\<not> isBusy sid w"
    and "checkpoints_findById cid w = Some c" and "cp_sessionId c = sid"
    and "sessions_findById sid w = Some s"
    and "workflow_row_of sid (cp_workflowSnapshot c) = Inr row" and "reverted_summary c = Inr mk"
  shows "\<exists>rid w' s' r. revertTo E sid cid reason w = (Inr (rid, cid), w')
    \<and> sessions_findById sid w' = Some s' \<and> ss_currentStage s' = cp_stage c
    \<and> ss_latestCheckpointId s' = Some cid \<and> ss_latestRevertId s' = Some rid
    \<and> row_find wr_sessionId sid (t_workflow w') = Some row
    \<and> reverts_findLatestBySession sid w' = Some r \<and> rv_checkpointId r = cid \<and> rv_id r = rid
    \<and> rv_previousCheckpointId r = map_option rv_checkpointId (reverts_findLatestBySession sid w)
    \<and> t_checkpoints w' = t_checkpoints w
    \<and> (\<forall>x. x \<noteq> sid \<longrightarrow> sessions_findById x w' = sessions_findById x w
         \<and> row_find wr_sessionId x (t_workflow w') = row_find wr_sessionId x (t_workflow w))"
proof -
  let ?w = "reverted_world E s c reason row mk w"
  have s: "ss_sessionId s = sid" using find_exists [OF assms(6)] by simp
  have c: "cp_id c = cid" using assms(4) by (simp add: checkpoints_findById_def row_find_Some)
  have row: "wr_sessionId row = sid" by (rule workflow_row_owner [OF assms(7)])
  show ?thesis
    using revertTo_eval [OF assms(1,3-8), of reason] reverted_latest [OF assms(2), of s c reason row mk]
    by (simp add: reverted_find s c row)
qed

text \<open>
  C24. Undo goes back where the last revert came from. When the session's latest revert went to
  checkpoint \<open>a\<close> and it is then reverted to another checkpoint \<open>b\<close>, \<^verbatim>\<open>undoRevert\<close> returns \<open>a\<close>, brings
  back \<open>a\<close>'s stage and workflow row, and leaves \<open>b\<close> as the target of the next undo.
\<close>

theorem undoRevert_returns_to_previous:
  assumes "fresh_ids E w" and "clock_ahead E w" and "\<not> isBusy sid w"
    and "sessions_findById sid w = Some s"
    and "checkpoints_findById a w = Some ca" and "cp_sessionId ca = sid"
    and "workflow_row_of sid (cp_workflowSnapshot ca) = Inr rowa" and "reverted_summary ca = Inr mka"
    and "checkpoints_findById b w = Some cb" and "cp_sessionId cb = sid"
    and "workflow_row_of sid (cp_workflowSnapshot cb) = Inr rowb" and "reverted_summary cb = Inr mkb"
    and "reverts_findLatestBySession sid w = Some p" and "rv_checkpointId p = a"
    and "a \<noteq> b" and "a \<noteq> []"
  shows "\<exists>rid w2 s2 r. undoRevert E sid (snd (revertTo E sid b reason w)) = (Inr (rid, a), w2)
    \<and> sessions_findById sid w2 = Some s2 \<and> ss_currentStage s2 = cp_stage ca
    \<and> row_find wr_sessionId sid (t_workflow w2) = Some rowa
    \<and> reverts_findLatestBySession sid w2 = Some r \<and> rv_previousCheckpointId r = Some b"
proof -
  let ?w1 = "reverted_world E s cb reason rowb mkb w"
  have s: "ss_sessionId s = sid" "sessionExists sid w" using find_exists [OF assms(4)] by simp_all
  have ids: "cp_id ca = a" "cp_id cb = b"
    using assms(5,9) by (simp_all add: checkpoints_findById_def row_find_Some)
  have rowa: "wr_sessionId rowa = sid" by (rule workflow_row_owner [OF assms(7)])
  have w1: "snd (revertTo E sid b reason w) = ?w1"
    using revertTo_eval [OF assms(1,3,9,10,4,11,12)] by simp
  have f1: "fresh_ids E ?w1" using reverted_fresh [OF assms(1) _ assms(12)] s by simp
  have k1: "clock_ahead E ?w1" by (rule reverted_clock [OF assms(2)])
  have b1: "\<not> isBusy sid ?w1" using assms(3) by (simp add: isBusy_def)
  have c1: "checkpoints_findById a ?w1 = Some ca" using assms(5) by (simp add: checkpoints_findById_def)
  have l1: "reverts_findLatestBySession sid ?w1 = Some (revert_row sid b (Some p) reason
      (newId E ''session-revert'' (seq w + 2)) (clk E (seq w + 3)))"
    using reverted_latest [OF assms(2), of s cb] s ids assms(13) by simp
  obtain s1 where s1: "sessions_findById sid ?w1 = Some s1" "ss_sessionId s1 = sid"
    using s by (simp add: reverted_find)
  have "undoRevert E sid ?w1 = revertTo E sid a ''undo-revert'' ?w1"
    by (rule undoRevert_eval [OF l1 _ assms(16) c1 assms(6)]) (use assms(14,15) in simp_all)
  then show ?thesis
    using revertTo_eval [OF f1 b1 c1 assms(6) s1(1) assms(7,8)] reverted_latest [OF k1, of s1 ca]
      l1 w1 s1(2) ids rowa
    by (simp add: reverted_find)
qed

section \<open>Witnesses\<close>

definition sample_entropy :: entropy where
  "sample_entropy = \<lparr>rnd = show_nat, clk = (\<lambda>_. ''2024'')\<rparr>"

definition sample_session :: session_state where
  "sample_session = createLaneLockedSession ''s'' ''2024'' ''/repo'' LaneQuick"

definition sample_checkpoint :: "string \<Rightarrow> workflow_stage \<Rightarrow> session_checkpoint" where
  "sample_checkpoint i st = \<lparr>cp_id = i, cp_sessionId = ''s'', cp_checkpointType = CpPostStageAdvance,
     cp_lane = LaneQuick, cp_stage = st, cp_summarySnapshot = JObj [],
     cp_workflowSnapshot = workflow_json ((createWorkflowState sample_session)\<lparr>wf_stage := st\<rparr>),
     cp_continuation = JObj [], cp_metadata = JObj [], cp_createdAt = ''2024''\<rparr>"

definition sample_world :: world where
  "sample_world = \<lparr>t_sessions = [sample_session], t_workflow = [], t_envelopes = [], t_workItems = [],
     t_events = [], t_summaries = [],
     t_checkpoints = [sample_checkpoint ''a'' QuickPlan, sample_checkpoint ''b'' QuickExecute],
     t_reverts = [revert_row ''s'' ''a'' None ''manual'' ''r'' ''2024''],
     runs = [], f_sessions = [], f_mirror = None, seq = 0\<rparr>"

lemma sample_fresh: "fresh_ids sample_entropy sample_world"
proof -
  have "inj show_nat" by (metis injI read_show_nat)
  moreover have "CHR ''-'' \<notin> set (show_nat n)" for n
    using show_nat_digits [of n] by (auto simp: list_all_iff is_digit_def)
  moreover have "newId \<lparr>rnd = show_nat, clk = k\<rparr> p n \<noteq> [c]" for k p n c
    by (cases p) (simp_all add: newId_def)
  ultimately show ?thesis
    by (auto simp: fresh_ids_def sample_entropy_def sample_world_def sample_session_def
        createLaneLockedSession_def sample_checkpoint_def)
qed

lemma sample_facts:
  "clock_ahead sample_entropy sample_world" "\<not> isBusy ''s'' sample_world"
  "sessions_findById ''s'' sample_world = Some sample_session"
  "checkpoints_findById ''a'' sample_world = Some (sample_checkpoint ''a'' QuickPlan)"
  "checkpoints_findById ''b'' sample_world = Some (sample_checkpoint ''b'' QuickExecute)"
  "cp_sessionId (sample_checkpoint i st) = ''s''"
  "reverts_findLatestBySession ''s'' sample_world = Some (revert_row ''s'' ''a'' None ''manual'' ''r'' ''2024'')"
  by (simp_all add: clock_ahead_def sample_entropy_def sample_world_def isBusy_def sessions_findById_def
      row_find_def sample_session_def createLaneLockedSession_def checkpoints_findById_def
      sample_checkpoint_def reverts_findLatestBySession_def reverts_listBySession_def row_list_def)

lemma sample_rows:
  "workflow_row_of ''s'' (cp_workflowSnapshot (sample_checkpoint i st)) =
     Inr (workflow_row_typed ''s'' ((createWorkflowState sample_session)\<lparr>wf_stage := st\<rparr>))"
  "\<exists>mk. reverted_summary (sample_checkpoint i st) = Inr mk"
  by (simp_all add: sample_checkpoint_def workflow_row_json reverted_summary_empty)

theorem revertTo_restores_checkpoint_witness:
  "\<exists>rid w' s'. revertTo sample_entropy ''s'' ''a'' ''manual'' sample_world = (Inr (rid, ''a''), w')
     \<and> sessions_findById ''s'' w' = Some s' \<and> ss_currentStage s' = QuickPlan"
proof -
  obtain mk where mk: "reverted_summary (sample_checkpoint ''a'' QuickPlan) = Inr mk"
    using sample_rows(2) by blast
  have "cp_stage (sample_checkpoint ''a'' QuickPlan) = QuickPlan" by (simp add: sample_checkpoint_def)
  then show ?thesis
    using revertTo_restores_checkpoint [OF sample_fresh sample_facts(1,2,4,6,3) sample_rows(1) mk,
        of "''manual''"] by auto
qed

theorem undoRevert_returns_to_previous_witness:
  "\<exists>rid w2. undoRevert sample_entropy ''s'' (snd (revertTo sample_entropy ''s'' ''b'' ''manual'' sample_world))
     = (Inr (rid, ''a''), w2)"
proof -
  obtain mka mkb where mk: "reverted_summary (sample_checkpoint ''a'' QuickPlan) = Inr mka"
    "reverted_summary (sample_checkpoint ''b'' QuickExecute) = Inr mkb"
    using sample_rows(2) by blast
  show ?thesis
    using undoRevert_returns_to_previous [OF sample_fresh sample_facts(1,2,3,4,6) sample_rows(1) mk(1)
        sample_facts(5,6) sample_rows(1) mk(2) sample_facts(7)] by simp blast
qed

end
