(* ===== verification/StageRunner.thy ===== *)
theory StageRunner
  imports SessionRevert
begin

text \<open>
  \<^verbatim>\<open>StageRunner.advance\<close> (\<^verbatim>\<open>packages/runtime/src/workflow/stage-runner.ts\<close>), evaluated on the store: a session
  walks through the stages of its lane one by one, the checkpoint written on the way restores the state it
  was written in.
\<close>

section \<open>Evaluating an advance\<close>

lemma index_of_nth_distinct: "distinct xs \<Longrightarrow> i < length xs \<Longrightarrow> index_of xs (xs ! i) = Some i"
proof (induction xs arbitrary: i)
  case (Cons y ys)
  show ?case
  proof (cases i)
    case (Suc j)
    then have "ys ! j \<noteq> y" using Cons.prems by (metis Suc_less_eq distinct.simps(2) length_Cons nth_mem)
    then show ?thesis using Cons Suc by auto
  qed simp
qed simp

lemma distinct_stages: "distinct (STAGES_BY_LANE l)"
  by (cases l) simp_all

lemma stages_nonempty [simp]: "STAGES_BY_LANE l \<noteq> []"
  by (cases l) simp_all

lemma index_of_nth: "i < length (STAGES_BY_LANE l) \<Longrightarrow> index_of (STAGES_BY_LANE l) (STAGES_BY_LANE l ! i) = Some i"
  by (simp add: index_of_nth_distinct distinct_stages)

lemma getNextStage_nth:
  "i < length (STAGES_BY_LANE l) \<Longrightarrow> getNextStage (STAGES_BY_LANE l) (STAGES_BY_LANE l ! i) = array_at (STAGES_BY_LANE l) (i + 1)"
  by (simp add: getNextStage_def index_of_nth)

definition advanced_session :: "entropy \<Rightarrow> workflow_stage \<Rightarrow> session_state \<Rightarrow> world \<Rightarrow> session_state" where
  "advanced_session E st s w = s\<lparr>ss_currentStage := st, ss_updatedAt := clk E (seq w),
     ss_latestCheckpointId := Some (newId E ''session-checkpoint'' (seq w + 1))\<rparr>"

definition advanced_world ::
  "entropy \<Rightarrow> workflow_stage list \<Rightarrow> workflow_stage \<Rightarrow> session_state \<Rightarrow> workflow_state \<Rightarrow> execution_envelope \<Rightarrow> world \<Rightarrow> world" where
  "advanced_world E stages st s wfl env w =
     (let n = seq w; sid = ss_sessionId s; wf' = advancedWorkflow stages st wfl;
          cp = advance_checkpoint (s\<lparr>ss_currentStage := st, ss_updatedAt := clk E n\<rparr>) wf'
            (summaries_findLatestBySession sid w) (newId E ''session-checkpoint'' (n + 1)) (clk E (n + 2));
          s' = advanced_session E st s w;
          rec = \<lparr>ps_session = s', ps_workflow = wf', ps_envelopes = [env]\<rparr>;
          ev = \<lparr>re_id = newId E ''session-runtime-event'' (n + 3), re_sessionId = sid,
            re_eventType = ''checkpoint_created'',
            re_eventJson = JObj [(''checkpointId'', JStr (cp_id cp)),
              (''checkpointType'', JStr (checkpoint_type_name (cp_checkpointType cp)))],
            re_createdAt = clk E (n + 4)\<rparr>
      in w\<lparr>t_sessions := row_upsert ss_sessionId s' (t_sessions w),
           t_workflow := row_upsert wr_sessionId (workflow_row_typed sid wf') (t_workflow w),
           t_events := t_events w @ [ev],
           t_checkpoints := t_checkpoints w @ [cp],
           f_sessions := AList.update sid rec (f_sessions w), f_mirror := Some (mirror_json s' wf' env),
           seq := n + 5\<rparr>)"

lemma advance_checkpoint_simps [simp]:
  "cp_id (advance_checkpoint s wfl l i t) = i" "cp_sessionId (advance_checkpoint s wfl l i t) = ss_sessionId s"
  "cp_stage (advance_checkpoint s wfl l i t) = ss_currentStage s"
  "cp_workflowSnapshot (advance_checkpoint s wfl l i t) = workflow_json wfl" "cp_lane (advance_checkpoint s wfl l i t) = ss_lane s"
  "cp_checkpointType (advance_checkpoint s wfl l i t) = CpPostStageAdvance"
  by (simp_all add: advance_checkpoint_def)

lemma summaries_latest_seq [simp]:
  "summaries_findLatestBySession sid (w\<lparr>seq := n\<rparr>) = summaries_findLatestBySession sid w"
  by (simp add: summaries_findLatestBySession_def summaries_listBySession_def)

lemma advance_to_eval:
  assumes "fresh_ids E w" and "sessionExists (ss_sessionId s) w"
  shows "advance_to E stages st s wfl env w =
    (Inr (advanced_session E st s w, advancedWorkflow stages st wfl), advanced_world E stages st s wfl env w)"
proof -
  note f = fresh_idsD [OF assms(1)]
  have ws: "workflow_save sid (workflow_json wf') v
      = (if sessionExists sid v then (Inr (), v\<lparr>t_workflow := row_upsert wr_sessionId (workflow_row_typed sid wf') (t_workflow v)\<rparr>)
         else (Inl (ErrForeignKey ''workflow_state''), v))" for sid wf' v
    by (simp add: workflow_save_def workflow_row_json)
  have ex: "ss_sessionId s \<in> ss_sessionId ` set (t_sessions w)" using assms(2) by (simp add: sessionExists_def)
  show ?thesis
    unfolding advance_to_def
    by (simp add: bind_dh_def return_dh_def read_dh_def nowIso_def sessions_save_def write_dh_def
        ws assms f ex Let_def advanced_world_def advanced_session_def sessionStore_write_def
        writeWorkflowCompatibilityMirror_def
        checkpoints_save_eval [where sid = "ss_sessionId s"] events_save_eval eval_nat_numeral)
qed

lemma advanced_fresh:
  assumes "fresh_ids E w" and "sessionExists (ss_sessionId s) w"
  shows "fresh_ids E (advanced_world E stages st s wfl env w)"
proof -
  have keys: "ss_sessionId ` set (t_sessions (advanced_world E stages st s wfl env w)) = ss_sessionId ` set (t_sessions w)"
    using assms(2) by (auto simp: advanced_world_def Let_def sessionExists_def advanced_session_def)
  show ?thesis
    unfolding fresh_ids_def keys
    using assms(1) fresh_idsD [OF assms(1)] newId_inj [OF assms(1)]
    by (auto simp: fresh_ids_def advanced_world_def Let_def)
qed

lemma advanced_find:
  "sessions_findById (ss_sessionId s) (advanced_world E stages st s wfl env w) = Some (advanced_session E st s w)"
  "row_find wr_sessionId (ss_sessionId s) (t_workflow (advanced_world E stages st s wfl env w))
   = Some (workflow_row_typed (ss_sessionId s) (advancedWorkflow stages st wfl))"
  by (simp_all add: sessions_findById_def advanced_world_def Let_def store_laws advanced_session_def
      workflow_row_typed_def)

lemma advanced_simps [simp]:
  "ss_sessionId (advanced_session E st s w) = ss_sessionId s" "ss_lane (advanced_session E st s w) = ss_lane s"
  "ss_currentStage (advanced_session E st s w) = st" "wf_stage (advancedWorkflow stages st wfl) = st"
  "wf_previousStage (advancedWorkflow stages st wfl) = Some (wf_stage wfl)"
  "wf_nextStage (advancedWorkflow stages st wfl) = getNextStage stages st"
  "wf_lane (advancedWorkflow stages st wfl) = wf_lane wfl"
  by (simp_all add: advanced_session_def advancedWorkflow_def)

text \<open>Calling \<open>advance\<close> \<open>n\<close> times, each time on what the last call returned.\<close>

fun advance_times :: "entropy \<Rightarrow> nat \<Rightarrow> execution_envelope \<Rightarrow> session_state \<Rightarrow> workflow_state
    \<Rightarrow> (session_state \<times> workflow_state) dh" where
  "advance_times E 0 env s wfl = return_dh (s, wfl)"
| "advance_times E (Suc n) env s wfl =
     bind_dh (advance_times E n env s wfl) (\<lambda>(s', wfl'). advance E s' wfl' env)"

lemma advance_eval:
  assumes "fresh_ids E w" and "sessionExists (ss_sessionId s) w"
    and "wf_stage wfl = STAGES_BY_LANE (ss_lane s) ! i" and "i + 1 < length (STAGES_BY_LANE (ss_lane s))"
  shows "advance E s wfl env w =
    (let stages = STAGES_BY_LANE (ss_lane s); st = stages ! (i + 1) in
     (Inr (advanced_session E st s w, advancedWorkflow stages st wfl), advanced_world E stages st s wfl env w))"
  using assms(3,4) advance_to_eval [OF assms(1,2)]
  by (simp add: advance_def Let_def index_of_nth array_at_def)

text \<open>
  The checkpoints \<open>cps\<close> of a walk of \<open>n\<close> steps: one for each stage that was entered, in order; the last one holds the
  workflow that the walk returns, and the session points to it.
\<close>

definition walk_checkpoints :: "session_state \<Rightarrow> nat \<Rightarrow> session_state \<Rightarrow> workflow_state \<Rightarrow> session_checkpoint list \<Rightarrow> bool" where
  "walk_checkpoints s n s' wfl cps \<longleftrightarrow> map cp_stage cps = take n (tl (STAGES_BY_LANE (ss_lane s)))
     \<and> (\<forall>c \<in> set cps. cp_sessionId c = ss_sessionId s \<and> cp_lane c = ss_lane s \<and> cp_checkpointType c = CpPostStageAdvance)
     \<and> (cps \<noteq> [] \<longrightarrow> cp_workflowSnapshot (last cps) = workflow_json wfl \<and> ss_latestCheckpointId s' = Some (cp_id (last cps)))"

lemma advanced_checkpoints:
  assumes "walk_checkpoints s n s0 wfl0 cps" "n + 1 < length (STAGES_BY_LANE (ss_lane s))" "ss_sessionId s0 = ss_sessionId s" "ss_lane s0 = ss_lane s"
    and "st = STAGES_BY_LANE (ss_lane s) ! (n + 1)"
  shows "\<exists>cp. t_checkpoints (advanced_world E stages st s0 wfl env w) = t_checkpoints w @ [cp]
    \<and> walk_checkpoints s (n + 1) (advanced_session E st s0 w) (advancedWorkflow stages st wfl) (cps @ [cp])"
proof -
  have "take (n + 1) (tl (STAGES_BY_LANE (ss_lane s))) = take n (tl (STAGES_BY_LANE (ss_lane s))) @ [st]"
    using assms(2,5) by (simp add: take_Suc_conv_app_nth nth_tl)
  then show ?thesis
    using assms(1,3,4) by (auto simp: walk_checkpoints_def advanced_world_def advanced_session_def Let_def)
qed

definition walked :: "entropy \<Rightarrow> world \<Rightarrow> session_state \<Rightarrow> nat \<Rightarrow> session_state \<Rightarrow> workflow_state \<Rightarrow> world \<Rightarrow> bool" where
  "walked E w0 s n s' wfl w \<longleftrightarrow> (let stages = STAGES_BY_LANE (ss_lane s) in
     fresh_ids E w \<and> ss_sessionId s' = ss_sessionId s \<and> ss_lane s' = ss_lane s
     \<and> sessions_findById (ss_sessionId s) w = Some s' \<and> ss_currentStage s' = stages ! n
     \<and> wf_lane wfl = ss_lane s \<and> wf_stage wfl = stages ! n \<and> wf_nextStage wfl = array_at stages (n + 1)
     \<and> (\<exists>cps. t_checkpoints w = t_checkpoints w0 @ cps \<and> walk_checkpoints s n s' wfl cps)
     \<and> (0 < n \<longrightarrow> row_find wr_sessionId (ss_sessionId s) (t_workflow w) = Some (workflow_row_typed (ss_sessionId s) wfl)
          \<and> wf_previousStage wfl = Some (stages ! (n - 1))
          \<and> wf_stageStatus wfl = (if js_endsWith (stage_name (stages ! n)) ''complete'' then StPassed else StInProgress)))"

lemma walked_step:
  assumes "walked E w0 s n s' wfl w" and "n + 1 < length (STAGES_BY_LANE (ss_lane s))"
  shows "\<exists>s'' wfl' w'. advance E s' wfl env w = (Inr (s'', wfl'), w') \<and> walked E w0 s (n + 1) s'' wfl' w'"
proof -
  note a = assms(1) [unfolded walked_def Let_def]
  let ?stages = "STAGES_BY_LANE (ss_lane s)"
  have ex: "sessionExists (ss_sessionId s') w" using a find_exists by simp
  have fresh: "fresh_ids E w" using a by simp
  note ev = advance_eval [OF fresh ex, of wfl n env]
  obtain cps where cps: "t_checkpoints w = t_checkpoints w0 @ cps" "walk_checkpoints s n s' wfl cps" using a by blast
  obtain cp where cp: "t_checkpoints (advanced_world E ?stages (?stages ! (n + 1)) s' wfl env w) = t_checkpoints w @ [cp]"
    "walk_checkpoints s (n + 1) (advanced_session E (?stages ! (n + 1)) s' w) (advancedWorkflow ?stages (?stages ! (n + 1)) wfl) (cps @ [cp])"
    using advanced_checkpoints [OF cps(2) assms(2) _ _ refl, of E ?stages wfl env w] a by blast
  have "\<exists>cs. t_checkpoints (advanced_world E ?stages (?stages ! (n + 1)) s' wfl env w) = t_checkpoints w0 @ cs
      \<and> walk_checkpoints s (n + 1) (advanced_session E (?stages ! (n + 1)) s' w) (advancedWorkflow ?stages (?stages ! (n + 1)) wfl) cs"
    using cps(1) cp by (intro exI [of _ "cps @ [cp]"]) simp
  then have "walked E w0 s (n + 1) (advanced_session E (?stages ! (n + 1)) s' w)
      (advancedWorkflow ?stages (?stages ! (n + 1)) wfl) (advanced_world E ?stages (?stages ! (n + 1)) s' wfl env w)"
    using a assms(2) advanced_fresh [OF fresh ex] advanced_find [of s'] getNextStage_nth [of "n + 1" "ss_lane s"]
    by (simp add: walked_def Let_def) (simp add: advancedWorkflow_def)
  then show ?thesis using ev a assms(2) by (simp add: Let_def)
qed

lemma walked_times:
  assumes "fresh_ids E w" and "sessions_findById (ss_sessionId s) w = Some s"
    and "ss_currentStage s = hd (STAGES_BY_LANE (ss_lane s))" and "n < length (STAGES_BY_LANE (ss_lane s))"
  shows "\<exists>s' wfl w'. advance_times E n env s (createWorkflowState s) w = (Inr (s', wfl), w') \<and> walked E w s n s' wfl w'"
  using assms(4)
proof (induction n)
  case 0
  then show ?case
    using assms by (simp add: return_dh_def walked_def walk_checkpoints_def Let_def createWorkflowState_def hd_conv_nth)
next
  case (Suc n)
  then obtain s' wfl w' where "advance_times E n env s (createWorkflowState s) w = (Inr (s', wfl), w')"
    "walked E w s n s' wfl w'" by auto
  then show ?case using walked_step [of E w s n s' wfl w' env] Suc.prems by (auto simp: bind_dh_def)
qed

lemma advanced_checkpoint:
  assumes "fresh_ids E w"
  shows "checkpoints_findById (newId E ''session-checkpoint'' (seq w + 1)) (advanced_world E stages st s wfl env w) =
    Some (advance_checkpoint (s\<lparr>ss_currentStage := st, ss_updatedAt := clk E (seq w)\<rparr>) (advancedWorkflow stages st wfl)
      (summaries_findLatestBySession (ss_sessionId s) w) (newId E ''session-checkpoint'' (seq w + 1)) (clk E (seq w + 2)))"
proof -
  have "List.find (\<lambda>r. cp_id r = newId E ''session-checkpoint'' (seq w + 1)) (t_checkpoints w) = None"
    using fresh_idsD(4) [OF assms, of "seq w + 1" "''session-checkpoint''"] 
    by (force simp: find_None_iff image_iff)
  then show ?thesis
    by (simp add: checkpoints_findById_def row_find_def advanced_world_def Let_def find_append)
qed

lemma advance_checkpoint_summary: "\<exists>mk. reverted_summary (advance_checkpoint s wfl l i t) = Inr mk"
proof (cases l)
  case None
  then show ?thesis by (simp add: reverted_summary_empty advance_checkpoint_def)
next
  case (Some x)
  then have "cp_summarySnapshot (advance_checkpoint s wfl l i t) = summary_snapshot x"
    by (simp add: advance_checkpoint_def)
  then show ?thesis using reverted_summary_snapshot by blast
qed

section \<open>Properties\<close>

text \<open>
  C25. A session walks through its lane. From the state a session starts in, \<open>n\<close> calls of \<^verbatim>\<open>advance\<close>
  return for every \<open>n\<close> below the number of stages, and then the returned workflow, the stored session
  and the stored workflow row are at the \<open>n\<close>-th stage of the lane, with the stages before and after it as
  previous and next stage. The stored checkpoints are those from before and one more per step, of this session and for the
  stage that the step entered; the last one holds the returned workflow and is the one the session points to.
\<close>

theorem advance_walks_lane:
  assumes "fresh_ids E w" and "sessions_findById (ss_sessionId s) w = Some s"
    and "ss_currentStage s = hd (STAGES_BY_LANE (ss_lane s))" and "n < length (STAGES_BY_LANE (ss_lane s))"
  shows "\<exists>s' wfl w'. advance_times E n env s (createWorkflowState s) w = (Inr (s', wfl), w')
    \<and> wf_stage wfl = STAGES_BY_LANE (ss_lane s) ! n \<and> wf_lane wfl = ss_lane s
    \<and> wf_nextStage wfl = array_at (STAGES_BY_LANE (ss_lane s)) (n + 1)
    \<and> sessions_findById (ss_sessionId s) w' = Some s' \<and> ss_currentStage s' = wf_stage wfl
    \<and> (0 < n \<longrightarrow> wf_previousStage wfl = Some (STAGES_BY_LANE (ss_lane s) ! (n - 1))
         \<and> row_find wr_sessionId (ss_sessionId s) (t_workflow w') = Some (workflow_row_typed (ss_sessionId s) wfl))
    \<and> (\<exists>cps. t_checkpoints w' = t_checkpoints w @ cps \<and> map cp_stage cps = take n (tl (STAGES_BY_LANE (ss_lane s)))
         \<and> (\<forall>c \<in> set cps. cp_sessionId c = ss_sessionId s \<and> cp_lane c = ss_lane s \<and> cp_checkpointType c = CpPostStageAdvance)
         \<and> (0 < n \<longrightarrow> cp_workflowSnapshot (last cps) = workflow_json wfl \<and> ss_latestCheckpointId s' = Some (cp_id (last cps))))"
proof -
  obtain s' wfl w' where w: "advance_times E n env s (createWorkflowState s) w = (Inr (s', wfl), w')" "walked E w s n s' wfl w'"
    using walked_times [OF assms, of env] by blast
  note a = w(2) [unfolded walked_def Let_def]
  obtain cps where cps: "t_checkpoints w' = t_checkpoints w @ cps" "walk_checkpoints s n s' wfl cps" using a by blast
  have "0 < n \<longrightarrow> cps \<noteq> []"
    using cps(2) assms(4) by (cases "STAGES_BY_LANE (ss_lane s)") (auto simp: walk_checkpoints_def)
  then show ?thesis using w(1) a cps by (intro exI [of _ s'] exI [of _ wfl] exI [of _ w']) (simp add: walk_checkpoints_def)
qed

text \<open>
  The ends of a lane. On the last stage of its lane \<^verbatim>\<open>advance\<close> returns its arguments and writes
  nothing; on a stage of another lane it throws and writes nothing.
\<close>

theorem advance_at_the_ends:
  "(wf_stage wfl = last (STAGES_BY_LANE (ss_lane s)) \<longrightarrow> advance E s wfl env w = (Inr (s, wfl), w))
   \<and> (wf_stage wfl \<notin> set (STAGES_BY_LANE (ss_lane s)) \<longrightarrow>
        (\<exists>msg. advance E s wfl env w = (Inl (ErrMessage msg), w)))"
proof -
  have none: "x \<notin> set xs \<Longrightarrow> index_of xs x = None" for x :: workflow_stage and xs by (induction xs) auto
  have "advance E s wfl env w = (Inr (s, wfl), w)" if "wf_stage wfl = last (STAGES_BY_LANE (ss_lane s))"
    using that index_of_nth [of "length (STAGES_BY_LANE (ss_lane s)) - 1" "ss_lane s"]
    by (simp add: advance_def Let_def last_conv_nth array_at_def return_dh_def)
  then show ?thesis by (simp add: advance_def Let_def none throw_dh_def)
qed

text \<open>
  A full-lane session never counts as passed. Entering the last stage marks it as passed in every
  lane but the full one, whose last stage \<^verbatim>\<open>full_done\<close> does not end in \<^verbatim>\<open>complete\<close> and stays in progress.
\<close>

theorem last_stage_status:
  "wf_stageStatus (advancedWorkflow (STAGES_BY_LANE l) (last (STAGES_BY_LANE l)) wfl)
   = (if l = LaneFull then StInProgress else StPassed)"
  by (cases l) (simp_all add: advancedWorkflow_def js_endsWith_def)

text \<open>
  The checkpoint that \<^verbatim>\<open>advance\<close> writes restores what \<^verbatim>\<open>advance\<close> stored. Reverting to it in any later
  world that still has the checkpoint and the session, the session being idle, returns, and the workflow
  row and the current stage are those right after the advance.
\<close>

theorem revert_to_advance_checkpoint:
  assumes "fresh_ids E w" and "sessionExists (ss_sessionId s) w"
    and "wf_stage wfl = STAGES_BY_LANE (ss_lane s) ! i" and "i + 1 < length (STAGES_BY_LANE (ss_lane s))"
    and "advance E s wfl env w = (Inr (s1, wf1), w1)" and "ss_latestCheckpointId s1 = Some cid"
    and "checkpoints_findById cid w2 = checkpoints_findById cid w1"
    and "sessions_findById (ss_sessionId s) w2 = Some s2" and "\<not> isBusy (ss_sessionId s) w2"
    and "fresh_ids E2 w2"
  shows "\<exists>rid w3 s3. revertTo E2 (ss_sessionId s) cid reason w2 = (Inr (rid, cid), w3)
    \<and> row_find wr_sessionId (ss_sessionId s) (t_workflow w3) = row_find wr_sessionId (ss_sessionId s) (t_workflow w1)
    \<and> sessions_findById (ss_sessionId s) w3 = Some s3 \<and> ss_currentStage s3 = wf_stage wf1"
proof -
  let ?stages = "STAGES_BY_LANE (ss_lane s)"
  let ?st = "?stages ! (i + 1)"
  have adv: "s1 = advanced_session E ?st s w" "wf1 = advancedWorkflow ?stages ?st wfl"
    "w1 = advanced_world E ?stages ?st s wfl env w"
    using advance_eval [OF assms(1-4), of env] assms(5) by (simp_all add: Let_def)
  have cid: "cid = newId E ''session-checkpoint'' (seq w + 1)"
    using assms(6) adv(1) by (simp add: advanced_session_def)
  obtain c where c: "checkpoints_findById cid w2 = Some c" "cp_sessionId c = ss_sessionId s"
    "cp_stage c = ?st" "cp_workflowSnapshot c = workflow_json wf1" "\<exists>mk. reverted_summary c = Inr mk"
    using advanced_checkpoint [OF assms(1), of ?stages ?st s wfl env] assms(7) adv cid advance_checkpoint_summary
    by simp
  then obtain mk where mk: "reverted_summary c = Inr mk" by blast
  have row: "workflow_row_of (ss_sessionId s) (cp_workflowSnapshot c) = Inr (workflow_row_typed (ss_sessionId s) wf1)"
    by (simp add: c(4) workflow_row_json)
  have s2: "ss_sessionId s2 = ss_sessionId s" using find_exists [OF assms(8)] by simp
  show ?thesis
    using revertTo_eval [OF assms(10,9) c(1,2) assms(8) row mk, of reason] s2 c(3) adv
      advanced_find(2) [of s E ?stages ?st wfl env w]
    by (simp add: reverted_find workflow_row_typed_def)
qed

section \<open>Witnesses\<close>

definition sample_envelope :: execution_envelope where
  "sample_envelope = \<lparr>ee_id = ''env'', ee_sessionId = ''s'', ee_lane = LaneQuick, ee_role = RoleQuick,
     ee_agentId = ''quick'', ee_stage = ''quick_intake'', ee_workItemId = None,
     ee_resolvedModel = \<lparr>rm_providerId = ''p'', rm_modelId = ''m'', rm_variantId = ''v''\<rparr>,
     ee_activeSkills = [], ee_activeMcps = [], ee_requiredTools = [], ee_semanticMode = SemAlways,
     ee_createdAt = ''2024''\<rparr>"

lemma sample_session_simps:
  "ss_sessionId sample_session = ''s''" "ss_lane sample_session = LaneQuick"
  "ss_currentStage sample_session = QuickIntake"
  by (simp_all add: sample_session_def createLaneLockedSession_def)

theorem advance_walks_lane_witness:
  "\<exists>s' wfl w'. advance_times sample_entropy 4 sample_envelope sample_session
       (createWorkflowState sample_session) sample_world = (Inr (s', wfl), w') \<and> wf_stage wfl = QuickComplete
     \<and> (\<exists>cps. t_checkpoints w' = t_checkpoints sample_world @ cps \<and> map cp_stage cps = [QuickPlan, QuickExecute, QuickVerify, QuickComplete])"
  using advance_walks_lane [of sample_entropy sample_world sample_session 4 sample_envelope]
    sample_fresh sample_facts(3)
  by (auto simp: sample_session_simps)

theorem revert_to_advance_checkpoint_witness:
  "\<exists>rid w3 s3. revertTo sample_entropy ''s'' (newId sample_entropy ''session-checkpoint'' 1) ''manual''
       (snd (advance sample_entropy sample_session (createWorkflowState sample_session) sample_envelope sample_world))
     = (Inr (rid, newId sample_entropy ''session-checkpoint'' 1), w3)
     \<and> sessions_findById ''s'' w3 = Some s3 \<and> ss_currentStage s3 = QuickPlan"
proof -
  let ?w1 = "advanced_world sample_entropy (STAGES_BY_LANE LaneQuick) QuickPlan sample_session
      (createWorkflowState sample_session) sample_envelope sample_world"
  let ?s1 = "advanced_session sample_entropy QuickPlan sample_session sample_world"
  let ?wf1 = "advancedWorkflow (STAGES_BY_LANE LaneQuick) QuickPlan (createWorkflowState sample_session)"
  have ex: "sessionExists (ss_sessionId sample_session) sample_world"
    using find_exists [OF sample_facts(3)] by (simp add: sample_session_simps)
  have st: "wf_stage (createWorkflowState sample_session) = STAGES_BY_LANE (ss_lane sample_session) ! 0"
    by (simp add: createWorkflowState_def sample_session_simps)
  have adv: "advance sample_entropy sample_session (createWorkflowState sample_session) sample_envelope sample_world
      = (Inr (?s1, ?wf1), ?w1)"
    using advance_eval [OF sample_fresh ex st, of sample_envelope] by (simp add: sample_session_simps Let_def)
  have cid: "ss_latestCheckpointId ?s1 = Some (newId sample_entropy ''session-checkpoint'' 1)"
    by (simp add: advanced_session_def sample_world_def)
  have f: "sessions_findById (ss_sessionId sample_session) ?w1 = Some ?s1" by (rule advanced_find(1))
  have b: "\<not> isBusy (ss_sessionId sample_session) ?w1"
    by (simp add: isBusy_def advanced_world_def Let_def sample_world_def)
  show ?thesis
    using revert_to_advance_checkpoint [OF sample_fresh ex st _ adv cid refl f b
        advanced_fresh [OF sample_fresh ex], of "''manual''"] adv
    by (simp add: sample_session_simps) blast
qed

theorem advance_at_the_ends_witness:
  "advance sample_entropy sample_session ((createWorkflowState sample_session)\<lparr>wf_stage := QuickComplete\<rparr>)
     sample_envelope sample_world
   = (Inr (sample_session, (createWorkflowState sample_session)\<lparr>wf_stage := QuickComplete\<rparr>), sample_world)"
  using advance_at_the_ends [of "(createWorkflowState sample_session)\<lparr>wf_stage := QuickComplete\<rparr>" sample_session]
  by (simp add: sample_session_simps)

end
