(* ===== verification/SessionTransfer.thy ===== *)
theory SessionTransfer
  imports StageRunner
begin

text \<open>
  Moving whole sessions: \<^verbatim>\<open>forkSession\<close>, \<^verbatim>\<open>deleteSession\<close>, and the round trip from \<^verbatim>\<open>buildSessionExport\<close>
  to \<^verbatim>\<open>importSessionDocument\<close>. The loops that copy rows are evaluated in closed form (\<open>numbered\<close> is the list
  of copies with the ids drawn for them), which gives the world after the operation; the properties
  read the listings off it.
\<close>

section \<open>Copying rows\<close>

lemma fold_upsert_fresh:
  "distinct (map key rs) \<Longrightarrow> key ` set rs \<inter> key ` set t = {} \<Longrightarrow> fold (row_upsert key) rs t = t @ rs"
proof (induction rs arbitrary: t)
  case (Cons r rs)
  have "row_upsert key r t = t @ [r]" using Cons.prems by (simp add: row_upsert_new)
  moreover have "key ` set rs \<inter> key ` set (t @ [r]) = {}" using Cons.prems by auto
  ultimately show ?case using Cons.IH [of "t @ [r]"] Cons.prems by simp
qed simp

lemma row_list_copied:
  assumes "\<forall>x \<in> set t. owner x \<noteq> s" and "\<forall>r \<in> set rs. owner r = s"
  shows "row_list owner stamp s (t @ rs) = rev (sort_key stamp rs)"
proof -
  have "filter (\<lambda>r. owner r = s) t = []" "filter (\<lambda>r. owner r = s) rs = rs"
    using assms by (auto simp: filter_empty_conv filter_id_conv)
  then show ?thesis by (simp add: row_list_def)
qed

lemma row_list_other:
  "\<forall>r \<in> set rs. owner r \<noteq> s \<Longrightarrow> row_list owner stamp s (t @ rs) = row_list owner stamp s t"
proof -
  assume "\<forall>r \<in> set rs. owner r \<noteq> s"
  then have "filter (\<lambda>r. owner r = s) rs = []" by (auto simp: filter_empty_conv)
  then show ?thesis by (simp add: row_list_def)
qed

text \<open>The listing of a copy: equal to the copied listing when no two times are equal, and the other
  way round when all are.\<close>

lemma relist_strict: "sorted_wrt (\<lambda>a b. f b < f a) xs \<Longrightarrow> rev (sort_key f xs) = xs"
proof -
  assume a: "sorted_wrt (\<lambda>a b. f b < f a) xs"
  then have "sorted (map f (rev xs))"
    using sorted_wrt_mono_rel [OF _ a, of "\<lambda>a b. f b \<le> f a"]
    by (simp add: rev_map [symmetric] sorted_wrt_rev sorted_wrt_map)
  moreover have "distinct (map f xs)" using a by (induction xs) auto
  ultimately have "sort_key f xs = rev xs"
    using sort_key_inj_key_eq [of xs "rev xs" f] by (simp add: distinct_map)
  then show ?thesis by simp
qed

lemma relist_ties: "(\<forall>x \<in> set xs. f x = t) \<Longrightarrow> rev (sort_key f xs) = rev xs"
proof -
  assume "\<forall>x \<in> set xs. f x = t"
  then have "sorted (map f xs)" by (auto intro!: sorted_iff_nth_mono [THEN iffD2])
  then show ?thesis by (simp add: sort_key_id_if_sorted)
qed

section \<open>The loops of a fork\<close>

fun numbered :: "(nat \<Rightarrow> 'a \<Rightarrow> 'b) \<Rightarrow> nat \<Rightarrow> 'a list \<Rightarrow> 'b list" where
  "numbered f n [] = []"
| "numbered f n (x # xs) = f n x # numbered f (n + 1) xs"

lemma map_numbered: "(\<And>n x. g (f n x) = h x) \<Longrightarrow> map g (numbered f n xs) = map h xs"
  by (induction xs arbitrary: n) simp_all

lemma length_numbered [simp]: "length (numbered f n xs) = length xs"
  by (induction xs arbitrary: n) simp_all

lemma numbered_all: "(\<And>n x. P (f n x)) \<Longrightarrow> \<forall>y \<in> set (numbered f n xs). P y"
  by (induction xs arbitrary: n) auto

lemma keys_numbered:
  "(\<And>n x. key (f n x) = newId E p n) \<Longrightarrow> map key (numbered f n xs) = map (newId E p) [n ..< n + length xs]"
proof (induction xs arbitrary: n)
  case (Cons x xs)
  have "[n ..< n + length (x # xs)] = n # [n + 1 ..< n + 1 + length xs]" by (simp add: upt_rec [of n] Suc_le_eq)
  then show ?case using Cons.IH [OF Cons.prems, of "n + 1"] Cons.prems by simp
qed simp

lemma distinct_numbered:
  assumes "fresh_ids E w" and "\<And>n x. key (f n x) = newId E p n"
  shows "distinct (map key (numbered f n xs))"
  unfolding keys_numbered [where key = key and f = f and E = E and p = p, OF assms(2)]
  by (simp add: distinct_map inj_on_def newId_inj [OF assms(1)])

lemma set_keys_numbered:
  assumes "\<And>n x. key (f n x) = newId E p n"
  shows "key ` set (numbered f n xs) = newId E p ` {n ..< n + length xs}"
  using arg_cong [OF keys_numbered [where key = key and f = f and E = E and p = p, OF assms, of n xs], of set]
  by simp

abbreviation forked_events :: "entropy \<Rightarrow> string \<Rightarrow> string \<Rightarrow> nat \<Rightarrow> runtime_event list \<Rightarrow> runtime_event list" where
  "forked_events E src sid \<equiv> numbered (\<lambda>n e. e\<lparr>re_id := newId E ''session-runtime-event'' n,
     re_sessionId := sid, re_eventJson := rewriteValue src sid (re_eventJson e)\<rparr>)"

abbreviation forked_summaries :: "entropy \<Rightarrow> string \<Rightarrow> nat \<Rightarrow> session_summary list \<Rightarrow> session_summary list" where
  "forked_summaries E sid \<equiv> numbered (\<lambda>n s. s\<lparr>sm_id := newId E ''session-summary'' n, sm_sessionId := sid\<rparr>)"

abbreviation forked_checkpoints :: "entropy \<Rightarrow> string \<Rightarrow> nat \<Rightarrow> session_checkpoint list \<Rightarrow> session_checkpoint list" where
  "forked_checkpoints E sid \<equiv> numbered (\<lambda>n c. c\<lparr>cp_id := newId E ''session-checkpoint'' n, cp_sessionId := sid\<rparr>)"

fun forked_ids :: "entropy \<Rightarrow> nat \<Rightarrow> (string, string) js_map \<Rightarrow> session_checkpoint list \<Rightarrow> (string, string) js_map" where
  "forked_ids E n m [] = m"
| "forked_ids E n m (c # cs) = forked_ids E (n + 1) (AList.update (cp_id c) (newId E ''session-checkpoint'' n) m) cs"

definition remapRevert :: "(string, string) js_map \<Rightarrow> session_revert \<Rightarrow> session_revert" where
  "remapRevert m r = r\<lparr>rv_checkpointId := remapId m (rv_checkpointId r),
     rv_previousCheckpointId := (case rv_previousCheckpointId r of
       None \<Rightarrow> None | Some p \<Rightarrow> if p = [] then None else Some (remapId m p))\<rparr>"

abbreviation forked_reverts :: "entropy \<Rightarrow> string \<Rightarrow> (string, string) js_map \<Rightarrow> nat \<Rightarrow> session_revert list \<Rightarrow> session_revert list" where
  "forked_reverts E sid m \<equiv> numbered (\<lambda>n r. remapRevert m (r\<lparr>rv_id := newId E ''session-revert'' n, rv_sessionId := sid\<rparr>))"

lemma each_fork_event:
  "sessionExists sid w \<Longrightarrow> each_dh (fork_event E src sid) es w =
     (Inr (), w\<lparr>t_events := fold (row_upsert re_id) (forked_events E src sid (seq w) es) (t_events w),
        seq := seq w + length es\<rparr>)"
  by (induction es arbitrary: w) (simp_all add: return_dh_def bind_dh_def fork_event_def createId_def events_saveRecord_def)

lemma each_fork_summary:
  "sessionExists sid w \<Longrightarrow> each_dh (fork_summary E sid) ss w =
     (Inr (), w\<lparr>t_summaries := fold (row_upsert sm_id) (forked_summaries E sid (seq w) ss) (t_summaries w),
        seq := seq w + length ss\<rparr>)"
  by (induction ss arbitrary: w) (simp_all add: return_dh_def bind_dh_def fork_summary_def createId_def summaries_saveRecord_def)

lemma fork_checkpoints_eval:
  "sessionExists sid w \<Longrightarrow> fork_checkpoints E sid m cs w =
     (Inr (forked_ids E (seq w) m cs),
      w\<lparr>t_checkpoints := fold (row_upsert cp_id) (forked_checkpoints E sid (seq w) cs) (t_checkpoints w),
        seq := seq w + length cs\<rparr>)"
  by (induction cs arbitrary: w m) (simp_all add: return_dh_def bind_dh_def createId_def checkpoints_saveRecord_def)

lemma each_fork_revert:
  "sessionExists sid w \<Longrightarrow> each_dh (fork_revert E sid m) rs w =
     (Inr (), w\<lparr>t_reverts := fold (row_upsert rv_id) (forked_reverts E sid m (seq w) rs) (t_reverts w),
        seq := seq w + length rs\<rparr>)"
  by (induction rs arbitrary: w) (simp_all add: return_dh_def bind_dh_def fork_revert_def createId_def
      reverts_saveRecord_def remapRevert_def)

lemma forked_ids_eval:
  assumes "distinct (map cp_id cs)"
  shows "map (remapId (forked_ids E n m cs)) (map cp_id cs) = map cp_id (forked_checkpoints E sid n cs)"
    and "i \<notin> set (map cp_id cs) \<Longrightarrow> remapId (forked_ids E n m cs) i = remapId m i"
proof -
  have "map (remapId (forked_ids E n m cs)) (map cp_id cs) = map cp_id (forked_checkpoints E sid n cs)
     \<and> (\<forall>i. i \<notin> set (map cp_id cs) \<longrightarrow> remapId (forked_ids E n m cs) i = remapId m i)"
    using assms
  proof (induction cs arbitrary: n m)
    case (Cons c cs)
    then show ?case by (auto simp: remapId_def update_conv')
  qed simp
  then show "map (remapId (forked_ids E n m cs)) (map cp_id cs) = map cp_id (forked_checkpoints E sid n cs)"
    and "i \<notin> set (map cp_id cs) \<Longrightarrow> remapId (forked_ids E n m cs) i = remapId m i" by blast+
qed

definition fork_created :: "entropy \<Rightarrow> string \<Rightarrow> string \<Rightarrow> string option \<Rightarrow> nat \<Rightarrow> timestamp \<Rightarrow> runtime_event" where
  "fork_created E src sid title n now = \<lparr>re_id = newId E ''session-runtime-event'' n, re_sessionId = sid,
     re_eventType = ''session.created'', re_eventJson =
       JObj [(''type'', JStr ''session.created''), (''sessionId'', JStr sid),
         (''payload'', JObj ([(''commandFamily'', JStr ''session''),
            (''forkedFromSessionId'', JStr src)] @ opt_text ''title'' title))], re_createdAt = now\<rparr>"

lemma keys_fresh:
  assumes "fresh_ids E w" and "\<And>n x. key (f n x) = newId E p n"
    and "\<And>n. seq w \<le> n \<Longrightarrow> newId E p n \<notin> key ` set t" and "seq w \<le> n"
  shows "fold (row_upsert key) (numbered f n xs) t = t @ numbered f n xs"
proof (rule fold_upsert_fresh)
  show "distinct (map key (numbered f n xs))" 
    by (rule distinct_numbered [where key = key and f = f and E = E and p = p, OF assms(1,2)])
  show "key ` set (numbered f n xs) \<inter> key ` set t = {}"
    unfolding set_keys_numbered [where key = key and f = f and E = E and p = p, OF assms(2)]
    using assms(3) order_trans [OF assms(4)] by (metis (no_types, lifting) Int_emptyI atLeastLessThan_iff image_iff)
qed

definition forked_world :: "entropy \<Rightarrow> session_state \<Rightarrow> string option \<Rightarrow> world \<Rightarrow> world" where
  "forked_world E source title w =
     (let n = seq w; src = ss_sessionId source; sid = newId E ''session'' n; now = clk E (n + 1);
          evs = events_listBySession src w; sms = summaries_listBySession src w;
          cps = checkpoints_listBySession src w; rvs = reverts_listBySession src w;
          n1 = n + 2 + length evs; n2 = n1 + length sms; n3 = n2 + length cps; n4 = n3 + length rvs;
          m = forked_ids E n2 [] cps
      in w\<lparr>t_sessions := t_sessions w @ [forked_session source sid now],
           t_events := t_events w @ forked_events E src sid (n + 2) evs @ [fork_created E src sid title n4 now],
           t_summaries := t_summaries w @ forked_summaries E sid n1 sms,
           t_checkpoints := t_checkpoints w @ forked_checkpoints E sid n2 cps,
           t_reverts := t_reverts w @ forked_reverts E sid m n3 rvs,
           seq := n4 + 1\<rparr>)"

lemma lists_frame [simp]:
  "events_listBySession x (w\<lparr>t_sessions := a\<rparr>) = events_listBySession x w"
  "summaries_listBySession x (w\<lparr>t_sessions := a\<rparr>) = summaries_listBySession x w"
  "checkpoints_listBySession x (w\<lparr>t_sessions := a\<rparr>) = checkpoints_listBySession x w"
  "reverts_listBySession x (w\<lparr>t_sessions := a\<rparr>) = reverts_listBySession x w"
  "events_listBySession x (w\<lparr>seq := n\<rparr>) = events_listBySession x w"
  "summaries_listBySession x (w\<lparr>seq := n\<rparr>) = summaries_listBySession x w"
  "checkpoints_listBySession x (w\<lparr>seq := n\<rparr>) = checkpoints_listBySession x w"
  "reverts_listBySession x (w\<lparr>seq := n\<rparr>) = reverts_listBySession x w"
  by (simp_all add: events_listBySession_def summaries_listBySession_def checkpoints_listBySession_def
      reverts_listBySession_def)

lemma forked_session_id [simp]: "ss_sessionId (forked_session s sid now) = sid"
  by (simp add: forked_session_def)

lemma forkSession_eval:
  assumes "fresh_ids E w" and "sessions_findById src w = Some source"
  shows "forkSession E src title w =
    (Inr (newId E ''session'' (seq w),
       \<lparr>n_runtimeEvents = length (events_listBySession src w), n_summaries = length (summaries_listBySession src w),
        n_checkpoints = length (checkpoints_listBySession src w), n_reverts = length (reverts_listBySession src w)\<rparr>),
     forked_world E source title w)"
proof -
  note f = fresh_idsD [OF assms(1)]
  have src: "ss_sessionId source = src" using find_exists [OF assms(2)] by simp
  let ?sid = "newId E ''session'' (seq w)"
  have up: "row_upsert ss_sessionId (forked_session source ?sid now) (t_sessions w)
      = t_sessions w @ [forked_session source ?sid now]" for now
    using f(1) by (simp add: row_upsert_new)
  have ev: "fold (row_upsert re_id) (forked_events E src ?sid n xs) (t_events w)
      = t_events w @ forked_events E src ?sid n xs" if "seq w \<le> n" for n xs
    by (rule keys_fresh [OF assms(1), where p = "''session-runtime-event''"]) (use f(2) that in simp_all)
  have sm: "fold (row_upsert sm_id) (forked_summaries E ?sid n xs) (t_summaries w)
      = t_summaries w @ forked_summaries E ?sid n xs" if "seq w \<le> n" for n xs
    by (rule keys_fresh [OF assms(1), where p = "''session-summary''"]) (use f(3) that in simp_all)
  have cp: "fold (row_upsert cp_id) (forked_checkpoints E ?sid n xs) (t_checkpoints w)
      = t_checkpoints w @ forked_checkpoints E ?sid n xs" if "seq w \<le> n" for n xs
    by (rule keys_fresh [OF assms(1), where p = "''session-checkpoint''"]) (use f(4) that in simp_all)
  have rv: "fold (row_upsert rv_id) (forked_reverts E ?sid m n xs) (t_reverts w)
      = t_reverts w @ forked_reverts E ?sid m n xs" if "seq w \<le> n" for m n xs
    by (rule keys_fresh [OF assms(1), where p = "''session-revert''"]) (use f(5) that in \<open>simp_all add: remapRevert_def\<close>)
  have ids: "re_id ` set (forked_events E src ?sid n xs) = newId E ''session-runtime-event'' ` {n ..< n + length xs}" for n xs
    by (rule set_keys_numbered) simp
  show ?thesis
    unfolding forkSession_def
    by (simp add: bind_dh_def return_dh_def read_dh_def createId_def nowIso_def sessions_save_def write_dh_def
        assms(2) src up each_fork_event each_fork_summary fork_checkpoints_eval each_fork_revert
        ev sm cp rv events_save_def events_insert_def f ids newId_inj [OF assms(1)]
        forked_world_def fork_created_def Let_def sessionExists_def image_Un)
      (auto simp: newId_inj [OF assms(1)])
qed

lemma map_sort_key:
  assumes "\<And>x. f (g x) = h x"
  shows "map g (sort_key h xs) = sort_key f (map g xs)"
proof -
  have "map g (insort_key h x ys) = insort_key f (g x) (map g ys)" for x ys
    using assms by (induction ys) auto
  then show ?thesis by (induction xs) simp_all
qed

lemma fork_listing:
  assumes "\<forall>x \<in> set t. owner x \<noteq> sid" and "\<And>n x. owner (f n x) = sid"
    and "\<And>n x. strip (f n x) = strip' x" and "\<And>y. stamp (strip y) = stamp y"
  shows "map strip (row_list owner stamp sid (t @ numbered f n xs)) = rev (sort_key stamp (map strip' xs))"
proof -
  have "row_list owner stamp sid (t @ numbered f n xs) = rev (sort_key stamp (numbered f n xs))"
    by (rule row_list_copied [OF assms(1)]) (rule numbered_all, rule assms(2))
  moreover have "map strip (sort_key stamp (numbered f n xs)) = sort_key stamp (map strip (numbered f n xs))"
    by (rule map_sort_key) (rule assms(4))
  ultimately show ?thesis by (simp add: rev_map [symmetric] map_numbered [of strip f strip', OF assms(3)])
qed

definition blank_event :: "runtime_event \<Rightarrow> runtime_event" where
  "blank_event e = e\<lparr>re_id := [], re_sessionId := []\<rparr>"

definition blank_summary :: "session_summary \<Rightarrow> session_summary" where
  "blank_summary s = s\<lparr>sm_id := [], sm_sessionId := []\<rparr>"

definition blank_checkpoint :: "session_checkpoint \<Rightarrow> session_checkpoint" where
  "blank_checkpoint c = c\<lparr>cp_id := [], cp_sessionId := []\<rparr>"

definition blank_revert :: "session_revert \<Rightarrow> session_revert" where
  "blank_revert r = r\<lparr>rv_id := [], rv_sessionId := []\<rparr>"

lemmas blank_defs = blank_event_def blank_summary_def blank_checkpoint_def blank_revert_def

lemma fresh_no_children:
  assumes "wf_world w" and "fresh_ids E w"
  shows "\<forall>x \<in> set (t_events w). re_sessionId x \<noteq> newId E ''session'' (seq w)"
    and "\<forall>x \<in> set (t_summaries w). sm_sessionId x \<noteq> newId E ''session'' (seq w)"
    and "\<forall>x \<in> set (t_checkpoints w). cp_sessionId x \<noteq> newId E ''session'' (seq w)"
    and "\<forall>x \<in> set (t_reverts w). rv_sessionId x \<noteq> newId E ''session'' (seq w)"
proof -
  have "\<not> sessionReferenced (newId E ''session'' (seq w)) w"
    using assms(1) fresh_idsD(1) [OF assms(2) order_refl, of "''session''"]
    by (auto simp: wf_world_def sessionExists_def)
  then show "\<forall>x \<in> set (t_events w). re_sessionId x \<noteq> newId E ''session'' (seq w)"
    and "\<forall>x \<in> set (t_summaries w). sm_sessionId x \<noteq> newId E ''session'' (seq w)"
    and "\<forall>x \<in> set (t_checkpoints w). cp_sessionId x \<noteq> newId E ''session'' (seq w)"
    and "\<forall>x \<in> set (t_reverts w). rv_sessionId x \<noteq> newId E ''session'' (seq w)"
    by (auto simp: sessionReferenced_def image_iff)
qed

lemma forked_source:
  assumes "fresh_ids E w" and "sessions_findById src w = Some s"
  shows "sessions_findById src (forked_world E s title w) = Some s"
    and "events_listBySession src (forked_world E s title w) = events_listBySession src w"
    and "summaries_listBySession src (forked_world E s title w) = summaries_listBySession src w"
    and "checkpoints_listBySession src (forked_world E s title w) = checkpoints_listBySession src w"
    and "reverts_listBySession src (forked_world E s title w) = reverts_listBySession src w"
proof -
  have ne: "newId E ''session'' (seq w) \<noteq> src"
    using find_exists [OF assms(2)] fresh_idsD(1) [OF assms(1) order_refl, of "''session''"]
    by (auto simp: sessionExists_def)
  note o = row_list_other [OF ballI]
  show "sessions_findById src (forked_world E s title w) = Some s"
    using assms(2) by (simp add: sessions_findById_def row_find_def forked_world_def Let_def find_append)
  show "events_listBySession src (forked_world E s title w) = events_listBySession src w"
    unfolding events_listBySession_def forked_world_def Let_def
    by (simp, rule row_list_other) (use ne in \<open>auto simp: fork_created_def dest!: numbered_all [where P = "\<lambda>r. re_sessionId r \<noteq> src", THEN bspec, rotated]\<close>)
  show "summaries_listBySession src (forked_world E s title w) = summaries_listBySession src w"
    unfolding summaries_listBySession_def forked_world_def Let_def
    by (simp, rule row_list_other, rule numbered_all) (use ne in simp)
  show "checkpoints_listBySession src (forked_world E s title w) = checkpoints_listBySession src w"
    unfolding checkpoints_listBySession_def forked_world_def Let_def
    by (simp, rule row_list_other, rule numbered_all) (use ne in simp)
  show "reverts_listBySession src (forked_world E s title w) = reverts_listBySession src w"
    unfolding reverts_listBySession_def forked_world_def Let_def
    by (simp, rule row_list_other, rule numbered_all) (use ne in \<open>simp add: remapRevert_def\<close>)
qed

section \<open>What a fork shows\<close>

definition blank_forked_event :: "string \<Rightarrow> string \<Rightarrow> runtime_event \<Rightarrow> runtime_event" where
  "blank_forked_event src sid e = blank_event (e\<lparr>re_eventJson := rewriteValue src sid (re_eventJson e)\<rparr>)"

lemma forked_children:
  fixes E :: entropy and s :: session_state and title :: "string option" and w :: world
  assumes "wf_world w" and "fresh_ids E w"
  defines "sid \<equiv> newId E ''session'' (seq w)"
  defines "src \<equiv> ss_sessionId s"
  defines "w' \<equiv> forked_world E s title w"
  defines "m \<equiv> forked_ids E (seq w + 2 + length (events_listBySession src w)
      + length (summaries_listBySession src w)) [] (checkpoints_listBySession src w)"
  shows "map blank_summary (summaries_listBySession sid w')
      = rev (sort_key sm_updatedAt (map blank_summary (summaries_listBySession src w)))"
    and "map blank_checkpoint (checkpoints_listBySession sid w')
      = rev (sort_key cp_createdAt (map blank_checkpoint (checkpoints_listBySession src w)))"
    and "map blank_revert (reverts_listBySession sid w')
      = rev (sort_key rv_createdAt (map (blank_revert \<circ> remapRevert m) (reverts_listBySession src w)))"
    and "mset (map blank_event (events_listBySession sid w'))
      = add_mset (blank_event (fork_created E src sid title (seq w' - 1) (clk E (seq w + 1))))
          (mset (map (blank_forked_event src sid) (events_listBySession src w)))"
proof -
  note fr = fresh_no_children [OF assms(1,2), folded sid_def]
  note fl = fork_listing [where sid = sid]
  show "map blank_summary (summaries_listBySession sid w')
      = rev (sort_key sm_updatedAt (map blank_summary (summaries_listBySession src w)))"
    unfolding summaries_listBySession_def w'_def forked_world_def Let_def
    by (simp add: sid_def [symmetric] src_def [symmetric], rule fl [OF fr(2)]) (simp_all add: blank_defs)
  show "map blank_checkpoint (checkpoints_listBySession sid w')
      = rev (sort_key cp_createdAt (map blank_checkpoint (checkpoints_listBySession src w)))"
    unfolding checkpoints_listBySession_def w'_def forked_world_def Let_def
    by (simp add: sid_def [symmetric] src_def [symmetric], rule fl [OF fr(3)]) (simp_all add: blank_defs)
  show "map blank_revert (reverts_listBySession sid w')
      = rev (sort_key rv_createdAt (map (blank_revert \<circ> remapRevert m) (reverts_listBySession src w)))"
    unfolding reverts_listBySession_def w'_def forked_world_def Let_def m_def
    by (simp add: sid_def [symmetric] src_def [symmetric] reverts_listBySession_def, rule fl [OF fr(4)])
      (simp_all add: blank_defs remapRevert_def)
  have own: "\<forall>x \<in> set (forked_events E src sid (seq w + 2) (events_listBySession src w)
      @ [fork_created E src sid title (seq w' - 1) (clk E (seq w + 1))]). re_sessionId x = sid"
    unfolding set_append ball_Un by (intro conjI numbered_all) (simp_all add: fork_created_def)
  have "events_listBySession sid w' = rev (sort_key re_createdAt
      (forked_events E src sid (seq w + 2) (events_listBySession src w)
       @ [fork_created E src sid title (seq w' - 1) (clk E (seq w + 1))]))"
    unfolding row_list_copied [OF fr(1) own, symmetric]
    by (simp add: events_listBySession_def w'_def forked_world_def Let_def sid_def src_def)
  then have "mset (events_listBySession sid w') = mset
      (forked_events E src sid (seq w + 2) (events_listBySession src w)
       @ [fork_created E src sid title (seq w' - 1) (clk E (seq w + 1))])" by simp
  then have "mset (map blank_event (events_listBySession sid w')) = mset (map blank_event
      (forked_events E src sid (seq w + 2) (events_listBySession src w)
       @ [fork_created E src sid title (seq w' - 1) (clk E (seq w + 1))]))" by (simp only: mset_map)
  then show "mset (map blank_event (events_listBySession sid w'))
      = add_mset (blank_event (fork_created E src sid title (seq w' - 1) (clk E (seq w + 1))))
          (mset (map (blank_forked_event src sid) (events_listBySession src w)))"
    using map_numbered [of blank_event "\<lambda>n e. e\<lparr>re_id := newId E ''session-runtime-event'' n,
     re_sessionId := sid, re_eventJson := rewriteValue src sid (re_eventJson e)\<rparr>" "blank_forked_event src sid"]
    by (simp add: blank_forked_event_def blank_event_def)
qed

lemma forked_checkpoint_found:
  fixes E :: entropy and s :: session_state and w :: world
  assumes "wf_world w" and "fresh_ids E w" and "c \<in> set (checkpoints_listBySession (ss_sessionId s) w)"
  defines "sid \<equiv> newId E ''session'' (seq w)"
  defines "m \<equiv> forked_ids E (seq w + 2 + length (events_listBySession (ss_sessionId s) w)
      + length (summaries_listBySession (ss_sessionId s) w)) [] (checkpoints_listBySession (ss_sessionId s) w)"
  shows "\<exists>c' \<in> set (checkpoints_listBySession sid (forked_world E s title w)).
     cp_id c' = remapId m (cp_id c) \<and> blank_checkpoint c' = blank_checkpoint c"
proof -
  define cs where "cs = checkpoints_listBySession (ss_sessionId s) w"
  define n where "n = seq w + 2 + length (events_listBySession (ss_sessionId s) w)
      + length (summaries_listBySession (ss_sessionId s) w)"
  define fs where "fs = forked_checkpoints E sid n cs"
  have m: "m = forked_ids E n [] cs" by (simp add: m_def n_def cs_def)
  have d: "distinct (map cp_id cs)"
    using assms(1) by (simp add: cs_def checkpoints_listBySession_def row_list_def wf_world_def distinct_map inj_on_def)
  obtain i where i: "i < length cs" "cs ! i = c" using assms(3) by (auto simp: in_set_conv_nth cs_def)
  have len: "length fs = length cs" by (simp add: fs_def)
  have ids: "map (remapId m) (map cp_id cs) = map cp_id fs"
    unfolding m fs_def by (rule forked_ids_eval(1) [OF d])
  have id: "cp_id (fs ! i) = remapId m (cp_id c)"
    using arg_cong [OF ids, of "\<lambda>xs. xs ! i"] i len by simp
  have "map blank_checkpoint fs = map blank_checkpoint cs"
    unfolding fs_def by (rule map_numbered) (simp add: blank_checkpoint_def)
  from arg_cong [OF this, of "\<lambda>xs. xs ! i"] i len have b: "blank_checkpoint (fs ! i) = blank_checkpoint c" by simp
  have own: "\<forall>x \<in> set fs. cp_sessionId x = sid" unfolding fs_def by (rule numbered_all) simp
  have "checkpoints_listBySession sid (forked_world E s title w) = row_list cp_sessionId cp_createdAt sid (t_checkpoints w @ fs)"
    by (simp add: checkpoints_listBySession_def forked_world_def Let_def fs_def n_def cs_def sid_def)
  moreover have "fs ! i \<in> set fs" using i len by simp
  ultimately have "fs ! i \<in> set (checkpoints_listBySession sid (forked_world E s title w))"
    using own by (simp add: row_list_def)
  then show ?thesis using id b by blast
qed

text \<open>
  C20. A fork is a new session with the content of the old one. For every session that exists, a fork
  returns an id that was free; the old session and its listings are unchanged; the new session has its
  summaries, checkpoints, reverts and events, up to their ids and owner, with the session id replaced
  inside the events' payloads, the new checkpoints' ids in the reverts, and one event more, the
  \<^verbatim>\<open>session.created\<close> of the fork.
\<close>

theorem fork_copies_session:
  assumes "wf_world w" and "fresh_ids E w" and "sessions_findById src w = Some s"
  shows "\<exists>sid n now m created w'. forkSession E src title w = (Inr (sid, n), w')
    \<and> sessions_findById sid w = None \<and> sessions_findById sid w' = Some (forked_session s sid now)
    \<and> sessions_findById src w' = Some s
    \<and> events_listBySession src w' = events_listBySession src w
    \<and> summaries_listBySession src w' = summaries_listBySession src w
    \<and> checkpoints_listBySession src w' = checkpoints_listBySession src w
    \<and> reverts_listBySession src w' = reverts_listBySession src w
    \<and> mset (map blank_summary (summaries_listBySession sid w'))
        = mset (map blank_summary (summaries_listBySession src w))
    \<and> mset (map blank_checkpoint (checkpoints_listBySession sid w'))
        = mset (map blank_checkpoint (checkpoints_listBySession src w))
    \<and> mset (map blank_revert (reverts_listBySession sid w'))
        = mset (map (blank_revert \<circ> remapRevert m) (reverts_listBySession src w))
    \<and> mset (map blank_event (events_listBySession sid w'))
        = add_mset created (mset (map (blank_forked_event src sid) (events_listBySession src w)))
    \<and> re_eventType created = ''session.created''
    \<and> (\<forall>c \<in> set (checkpoints_listBySession src w). \<exists>c' \<in> set (checkpoints_listBySession sid w').
         cp_id c' = remapId m (cp_id c) \<and> blank_checkpoint c' = blank_checkpoint c)"
proof -
  let ?sid = "newId E ''session'' (seq w)"
  let ?w' = "forked_world E s title w"
  have s: "ss_sessionId s = src" using find_exists [OF assms(3)] by simp
  have new: "?sid \<notin> ss_sessionId ` set (t_sessions w)" by (rule fresh_idsD(1) [OF assms(2) order_refl])
  then have none: "sessions_findById ?sid w = None"
    by (simp add: sessions_findById_def row_find_def find_None_iff image_iff) metis
  have found: "sessions_findById ?sid ?w' = Some (forked_session s ?sid (clk E (seq w + 1)))"
    using none by (simp add: sessions_findById_def row_find_def forked_world_def Let_def find_append)
  have created: "re_eventType (blank_event (fork_created E src ?sid title n now)) = ''session.created''" for n now
    by (simp add: blank_event_def fork_created_def)
  note ch = forked_children [OF assms(1,2), of s title, unfolded s]
  show ?thesis
    using forkSession_eval [OF assms(2,3), of title] none found forked_source [OF assms(2,3), of title] ch
      forked_checkpoint_found [OF assms(1,2), of _ s title, unfolded s] created
    by (intro exI [of _ ?sid] exI [of _ ?w'] exI conjI) (assumption | simp)+
qed

text \<open>
  The order of the copies. A fork shows the checkpoints in the order of the original when no two of
  them have the same time, and in the opposite order when they all have: the rows are written back in
  the order of the listing, newest first, and the listing breaks ties by insertion.
\<close>

theorem fork_order_depends_on_times:
  assumes "wf_world w" and "fresh_ids E w" and "sessions_findById src w = Some s"
    and "forkSession E src title w = (Inr (sid, n), w')"
  shows "(sorted_wrt (\<lambda>a b. cp_createdAt b < cp_createdAt a) (checkpoints_listBySession src w) \<longrightarrow>
      map blank_checkpoint (checkpoints_listBySession sid w') = map blank_checkpoint (checkpoints_listBySession src w))
    \<and> ((\<forall>c \<in> set (checkpoints_listBySession src w). cp_createdAt c = t) \<longrightarrow>
      map blank_checkpoint (checkpoints_listBySession sid w') = rev (map blank_checkpoint (checkpoints_listBySession src w)))"
proof -
  have s: "ss_sessionId s = src" using find_exists [OF assms(3)] by simp
  have "sid = newId E ''session'' (seq w)" "w' = forked_world E s title w"
    using forkSession_eval [OF assms(2,3), of title] assms(4) by simp_all
  then have eq: "map blank_checkpoint (checkpoints_listBySession sid w')
      = rev (sort_key cp_createdAt (map blank_checkpoint (checkpoints_listBySession src w)))"
    using forked_children(2) [OF assms(1,2), of s title] s by simp
  have stamp: "cp_createdAt (blank_checkpoint c) = cp_createdAt c" for c by (simp add: blank_checkpoint_def)
  show ?thesis
    unfolding eq using relist_strict [of cp_createdAt "map blank_checkpoint (checkpoints_listBySession src w)"]
      relist_ties [of "map blank_checkpoint (checkpoints_listBySession src w)" cp_createdAt t]
    by (simp add: sorted_wrt_map stamp)
qed

section \<open>Delete\<close>

text \<open>The tables that \<^verbatim>\<open>deleteSession\<close> does not clear.\<close>

definition hasWorkflowRows :: "string \<Rightarrow> world \<Rightarrow> bool" where
  "hasWorkflowRows sid w \<longleftrightarrow> sid \<in> wr_sessionId ` set (t_workflow w) \<or> sid \<in> ee_sessionId ` set (t_envelopes w)
     \<or> sid \<in> wi_sessionId ` set (t_workItems w)"

definition children_deleted :: "string \<Rightarrow> world \<Rightarrow> world" where
  "children_deleted sid w = w\<lparr>t_events := filter (\<lambda>r. re_sessionId r \<noteq> sid) (t_events w),
     t_summaries := filter (\<lambda>r. sm_sessionId r \<noteq> sid) (t_summaries w),
     t_reverts := filter (\<lambda>r. rv_sessionId r \<noteq> sid) (t_reverts w),
     t_checkpoints := filter (\<lambda>r. cp_sessionId r \<noteq> sid) (t_checkpoints w)\<rparr>"

lemma referenced_children_deleted: "sessionReferenced sid (children_deleted sid w) = hasWorkflowRows sid w"
proof -
  have no: "sid \<notin> f ` {x \<in> set xs. f x \<noteq> sid}" for f :: "'b \<Rightarrow> string" and xs by auto
  show ?thesis by (simp add: sessionReferenced_def hasWorkflowRows_def children_deleted_def no)
qed

lemma bind_read: "bind_dh (read_dh g) f v = f (g v) v"
  by (simp add: bind_dh_def read_dh_def)

lemma bind_deletes:
  "bind_dh (events_deleteBySession sid) f v = f (length (events_listBySession sid v))
     (v\<lparr>t_events := filter (\<lambda>r. re_sessionId r \<noteq> sid) (t_events v)\<rparr>)"
  "bind_dh (summaries_deleteBySession sid) f v = f (length (summaries_listBySession sid v))
     (v\<lparr>t_summaries := filter (\<lambda>r. sm_sessionId r \<noteq> sid) (t_summaries v)\<rparr>)"
  "bind_dh (reverts_deleteBySession sid) f v = f (length (reverts_listBySession sid v))
     (v\<lparr>t_reverts := filter (\<lambda>r. rv_sessionId r \<noteq> sid) (t_reverts v)\<rparr>)"
  "bind_dh (checkpoints_deleteBySession sid) f v = f (length (checkpoints_listBySession sid v))
     (v\<lparr>t_checkpoints := filter (\<lambda>r. cp_sessionId r \<noteq> sid) (t_checkpoints v)\<rparr>)"
  by (simp_all add: bind_dh_def events_deleteBySession_def summaries_deleteBySession_def
        checkpoints_deleteBySession_def reverts_deleteBySession_def row_delete_def
        events_listBySession_def summaries_listBySession_def checkpoints_listBySession_def
        reverts_listBySession_def row_list_def)

lemma lists_other_tables [simp]:
  "summaries_listBySession x (w\<lparr>t_events := a\<rparr>) = summaries_listBySession x w"
  "reverts_listBySession x (w\<lparr>t_events := a, t_summaries := b\<rparr>) = reverts_listBySession x w"
  "checkpoints_listBySession x (w\<lparr>t_events := a, t_summaries := b, t_reverts := c\<rparr>) = checkpoints_listBySession x w"
  by (simp_all add: summaries_listBySession_def checkpoints_listBySession_def reverts_listBySession_def)

lemma distinct_key_once:
  "distinct (map f xs) \<Longrightarrow> k \<in> f ` set xs \<Longrightarrow> length (filter (\<lambda>x. f x = k) xs) = 1"
proof (induction xs)
  case (Cons a xs)
  show ?case
  proof (cases "f a = k")
    case True
    then have "filter (\<lambda>x. f x = k) xs = []" using Cons.prems by (simp add: filter_empty_conv image_iff) metis
    then show ?thesis using True by simp
  next
    case False
    then show ?thesis using Cons by auto
  qed
qed simp

lemma deleteSession_eval:
  assumes "sessions_findById sid w = Some s"
  shows "deleteSession sid w =
    (if hasWorkflowRows sid w then (Inl (ErrForeignKey ''sessions''), children_deleted sid w)
     else (Inr \<lparr>del_session = length (filter (\<lambda>s. ss_sessionId s = sid) (t_sessions w)),
         del_runtimeEvents = length (events_listBySession sid w), del_summaries = length (summaries_listBySession sid w),
         del_checkpoints = length (checkpoints_listBySession sid w), del_reverts = length (reverts_listBySession sid w)\<rparr>,
       (children_deleted sid w)\<lparr>t_sessions := filter (\<lambda>s. ss_sessionId s \<noteq> sid) (t_sessions w)\<rparr>))"
proof -
  have ex: "sessionExists sid (children_deleted sid w)"
    using find_exists [OF assms] by (simp add: children_deleted_def)
  have "deleteSession sid w = bind_dh (sessions_deleteById sid) (\<lambda>n.
      return_dh \<lparr>del_session = n, del_runtimeEvents = length (events_listBySession sid w),
        del_summaries = length (summaries_listBySession sid w), del_checkpoints = length (checkpoints_listBySession sid w),
        del_reverts = length (reverts_listBySession sid w)\<rparr>) (children_deleted sid w)"
    using assms by (simp add: deleteSession_def bind_read bind_deletes children_deleted_def)
  also have "\<dots> = (if hasWorkflowRows sid w then (Inl (ErrForeignKey ''sessions''), children_deleted sid w)
     else (Inr \<lparr>del_session = length (filter (\<lambda>s. ss_sessionId s = sid) (t_sessions w)),
         del_runtimeEvents = length (events_listBySession sid w), del_summaries = length (summaries_listBySession sid w),
         del_checkpoints = length (checkpoints_listBySession sid w), del_reverts = length (reverts_listBySession sid w)\<rparr>,
       (children_deleted sid w)\<lparr>t_sessions := filter (\<lambda>s. ss_sessionId s \<noteq> sid) (t_sessions w)\<rparr>))"
    using ex by (simp add: bind_dh_def return_dh_def sessions_deleteById_def referenced_children_deleted row_delete_def)
      (simp add: children_deleted_def)
  finally show ?thesis .
qed

lemma children_deleted_lists:
  "events_listBySession sid (children_deleted sid w) = []"
  "summaries_listBySession sid (children_deleted sid w) = []"
  "checkpoints_listBySession sid (children_deleted sid w) = []"
  "reverts_listBySession sid (children_deleted sid w) = []"
  "x \<noteq> sid \<Longrightarrow> events_listBySession x (children_deleted sid w) = events_listBySession x w"
  "x \<noteq> sid \<Longrightarrow> summaries_listBySession x (children_deleted sid w) = summaries_listBySession x w"
  "x \<noteq> sid \<Longrightarrow> checkpoints_listBySession x (children_deleted sid w) = checkpoints_listBySession x w"
  "x \<noteq> sid \<Longrightarrow> reverts_listBySession x (children_deleted sid w) = reverts_listBySession x w"
  using events_table.delete_own events_table.delete_other summaries_table.delete_own summaries_table.delete_other
    checkpoints_table.delete_own checkpoints_table.delete_other reverts_table.delete_own reverts_table.delete_other
  by (simp_all add: children_deleted_def events_listBySession_def summaries_listBySession_def
      checkpoints_listBySession_def reverts_listBySession_def row_delete_def)

text \<open>
  C22. Deleting a session that has no workflow, envelope or work-item row returns, removes the session
  and all its rows, reports how many there were, and leaves the rows of every other session alone.
\<close>

theorem delete_removes_session:
  assumes "wf_world w" and "sessions_findById sid w = Some s" and "\<not> hasWorkflowRows sid w"
  shows "\<exists>w'. deleteSession sid w =
      (Inr \<lparr>del_session = 1, del_runtimeEvents = length (events_listBySession sid w),
         del_summaries = length (summaries_listBySession sid w), del_checkpoints = length (checkpoints_listBySession sid w),
         del_reverts = length (reverts_listBySession sid w)\<rparr>, w')
    \<and> sessions_findById sid w' = None \<and> \<not> sessionReferenced sid w'
    \<and> (\<forall>x. x \<noteq> sid \<longrightarrow> sessions_findById x w' = sessions_findById x w
        \<and> events_listBySession x w' = events_listBySession x w
        \<and> summaries_listBySession x w' = summaries_listBySession x w
        \<and> checkpoints_listBySession x w' = checkpoints_listBySession x w
        \<and> reverts_listBySession x w' = reverts_listBySession x w)"
proof -
  have one: "length (filter (\<lambda>x. ss_sessionId x = sid) (t_sessions w)) = 1"
    by (rule distinct_key_once) (use assms(1) find_exists [OF assms(2)] in \<open>simp_all add: wf_world_def sessionExists_def\<close>)
  have find: "row_find ss_sessionId x (filter (\<lambda>s. ss_sessionId s \<noteq> sid) t)
      = (if x = sid then None else row_find ss_sessionId x t)" for x t
    by (induction t) (auto simp: row_find_def)
  have ref: "sessionReferenced sid (v\<lparr>t_sessions := t\<rparr>) = sessionReferenced sid v" for v t
    by (simp add: sessionReferenced_def)
  show ?thesis
    using deleteSession_eval [OF assms(2)] assms(3) one
    by (simp add: sessions_findById_def find ref referenced_children_deleted children_deleted_lists)
qed

text \<open>
  Deleting a session that has a workflow, an envelope or a work-item row fails on the foreign key
  of \<^verbatim>\<open>sessions\<close>, after its events, summaries, checkpoints and reverts are gone: the session is still
  there, without its history.
\<close>

theorem delete_with_workflow_loses_history:
  assumes "sessions_findById sid w = Some s" and "hasWorkflowRows sid w"
  shows "\<exists>w'. deleteSession sid w = (Inl (ErrForeignKey ''sessions''), w')
    \<and> sessions_findById sid w' = Some s
    \<and> events_listBySession sid w' = [] \<and> summaries_listBySession sid w' = []
    \<and> checkpoints_listBySession sid w' = [] \<and> reverts_listBySession sid w' = []"
  using deleteSession_eval [OF assms(1)] assms
  by (simp add: children_deleted_lists) (simp add: children_deleted_def sessions_findById_def)

section \<open>Export and import\<close>

abbreviation exported_payload :: "session_state \<Rightarrow> world \<Rightarrow> session_payload" where
  "exported_payload s w \<equiv> \<lparr>pl_session = s, pl_runtimeEvents = events_listBySession (ss_sessionId s) w,
     pl_summaries = summaries_listBySession (ss_sessionId s) w,
     pl_checkpoints = checkpoints_listBySession (ss_sessionId s) w,
     pl_reverts = reverts_listBySession (ss_sessionId s) w\<rparr>"

lemma buildSessionExport_eval:
  assumes "sessions_findById sid w = Some s" and "sid \<noteq> []"
  shows "buildSessionExport E root (Some sid) version w =
    (Inr \<lparr>doc_schemaVersion = SESSION_EXPORT_SCHEMA_VERSION, doc_exportedAt = clk E (seq w),
       doc_version = version, doc_repoRoot = root, doc_sanitized = False, doc_payload = exported_payload s w\<rparr>,
     w\<lparr>seq := seq w + 1\<rparr>)"
  using assms by (simp add: buildSessionExport_def dh_simps)

lemma own_rows:
  "re_sessionId e = sid \<Longrightarrow> e\<lparr>re_sessionId := sid\<rparr> = e" "sm_sessionId s = sid \<Longrightarrow> s\<lparr>sm_sessionId := sid\<rparr> = s"
  "cp_sessionId c = sid \<Longrightarrow> c\<lparr>cp_sessionId := sid\<rparr> = c" "rv_sessionId r = sid \<Longrightarrow> r\<lparr>rv_sessionId := sid\<rparr> = r"
  by simp_all

lemma each_save:
  "(\<And>e. e \<in> set es \<Longrightarrow> re_sessionId e = sid) \<Longrightarrow> sessionExists sid w \<Longrightarrow>
     each_dh (\<lambda>e. events_saveRecord (e\<lparr>re_sessionId := sid\<rparr>)) es w
     = (Inr (), w\<lparr>t_events := fold (row_upsert re_id) es (t_events w)\<rparr>)"
  "(\<And>e. e \<in> set ss \<Longrightarrow> sm_sessionId e = sid) \<Longrightarrow> sessionExists sid w \<Longrightarrow>
     each_dh (\<lambda>s. summaries_saveRecord (s\<lparr>sm_sessionId := sid\<rparr>)) ss w
     = (Inr (), w\<lparr>t_summaries := fold (row_upsert sm_id) ss (t_summaries w)\<rparr>)"
  "(\<And>e. e \<in> set cs \<Longrightarrow> cp_sessionId e = sid) \<Longrightarrow> sessionExists sid w \<Longrightarrow>
     each_dh (\<lambda>c. checkpoints_saveRecord (c\<lparr>cp_sessionId := sid\<rparr>)) cs w
     = (Inr (), w\<lparr>t_checkpoints := fold (row_upsert cp_id) cs (t_checkpoints w)\<rparr>)"
  "(\<And>e. e \<in> set rs \<Longrightarrow> rv_sessionId e = sid) \<Longrightarrow> sessionExists sid w \<Longrightarrow>
     each_dh (\<lambda>r. reverts_saveRecord (r\<lparr>rv_sessionId := sid\<rparr>)) rs w
     = (Inr (), w\<lparr>t_reverts := fold (row_upsert rv_id) rs (t_reverts w)\<rparr>)"
  subgoal by (induction es arbitrary: w) (simp_all add: dh_simps events_saveRecord_def own_rows)
  subgoal by (induction ss arbitrary: w) (simp_all add: dh_simps summaries_saveRecord_def own_rows)
  subgoal by (induction cs arbitrary: w) (simp_all add: dh_simps checkpoints_saveRecord_def own_rows)
  subgoal by (induction rs arbitrary: w) (simp_all add: dh_simps reverts_saveRecord_def own_rows)
  done

lemma row_list_owner: "x \<in> set (row_list owner stamp s t) \<Longrightarrow> owner x = s \<and> x \<in> set t"
  by (simp add: row_list_def)

lemma import_eval:
  assumes "sid \<noteq> []" and "ss_sessionId s = sid"
    and "doc_schemaVersion d = SESSION_EXPORT_SCHEMA_VERSION" and "doc_payload d = exported_payload s w"
  shows "importSessionDocument root d v =
    (Inr (sid, \<lparr>n_runtimeEvents = length (events_listBySession sid w), n_summaries = length (summaries_listBySession sid w),
        n_checkpoints = length (checkpoints_listBySession sid w), n_reverts = length (reverts_listBySession sid w)\<rparr>),
     v\<lparr>t_sessions := row_upsert ss_sessionId (s\<lparr>ss_repoRoot := root\<rparr>) (t_sessions v),
       t_events := fold (row_upsert re_id) (events_listBySession sid w) (t_events v),
       t_summaries := fold (row_upsert sm_id) (summaries_listBySession sid w) (t_summaries v),
       t_checkpoints := fold (row_upsert cp_id) (checkpoints_listBySession sid w) (t_checkpoints v),
       t_reverts := fold (row_upsert rv_id) (reverts_listBySession sid w) (t_reverts v)\<rparr>)"
proof -
  have o: "e \<in> set (events_listBySession sid w) \<Longrightarrow> re_sessionId e = sid"
    "f \<in> set (summaries_listBySession sid w) \<Longrightarrow> sm_sessionId f = sid"
    "g \<in> set (checkpoints_listBySession sid w) \<Longrightarrow> cp_sessionId g = sid"
    "h \<in> set (reverts_listBySession sid w) \<Longrightarrow> rv_sessionId h = sid" for e f g h
    by (simp_all add: events_listBySession_def summaries_listBySession_def checkpoints_listBySession_def
        reverts_listBySession_def row_list_owner)
  have saved: "sessionExists sid (v\<lparr>t_sessions := row_upsert ss_sessionId (s\<lparr>ss_repoRoot := root\<rparr>) (t_sessions v)\<rparr>)"
    using assms(2) by simp
  show ?thesis
    unfolding importSessionDocument_def assertSessionExportDocument_def
    using assms saved
    by (simp add: bind_dh_def return_dh_def sessions_save_def write_dh_def Let_def
        each_save(1) [OF o(1)] each_save(2) [OF o(2)] each_save(3) [OF o(3)] each_save(4) [OF o(4)])
qed

text \<open>Writing rows back where they are changes nothing.\<close>

lemma row_upsert_same:
  assumes "distinct (map key t)" and "r \<in> set t"
  shows "row_upsert key r t = t"
proof -
  have "\<forall>x \<in> set t. key x = key r \<longrightarrow> x = r" using assms by (auto simp: distinct_map inj_on_def)
  then have "map (\<lambda>x. if key x = key r then r else x) t = t" by (auto intro!: map_idI)
  then show ?thesis using assms(2) by (simp add: row_upsert_def)
qed

lemma fold_upsert_same:
  "distinct (map key t) \<Longrightarrow> set rs \<subseteq> set t \<Longrightarrow> fold (row_upsert key) rs t = t"
  by (induction rs) (simp_all add: row_upsert_same)

text \<open>
  Importing an export into the store it was taken from changes no row: for every session that
  exists, the document that \<^verbatim>\<open>buildSessionExport\<close> returns is accepted and every write puts back the row
  that is there.
\<close>

theorem import_export_is_identity:
  assumes "wf_world w" and "sessions_findById sid w = Some s" and "sid \<noteq> []" and "ss_repoRoot s = root"
  shows "\<exists>d n w1. buildSessionExport E root (Some sid) version w = (Inr d, w1)
    \<and> importSessionDocument root d w1 = (Inr (sid, n), w1) \<and> w1 = w\<lparr>seq := seq w + 1\<rparr>"
proof -
  have s: "ss_sessionId s = sid" "s \<in> set (t_sessions w)"
    using assms(2) find_exists [OF assms(2)] by (simp_all add: sessions_findById_def row_find_Some)
  have same: "s\<lparr>ss_repoRoot := root\<rparr> = s" using assms(4) by simp
  have sub: "set (events_listBySession sid w) \<subseteq> set (t_events w)"
    "set (summaries_listBySession sid w) \<subseteq> set (t_summaries w)"
    "set (checkpoints_listBySession sid w) \<subseteq> set (t_checkpoints w)"
    "set (reverts_listBySession sid w) \<subseteq> set (t_reverts w)"
    by (auto simp: events_listBySession_def summaries_listBySession_def checkpoints_listBySession_def
        reverts_listBySession_def dest: row_list_owner)
  have d: "distinct (map ss_sessionId (t_sessions w))" "distinct (map re_id (t_events w))"
    "distinct (map sm_id (t_summaries w))" "distinct (map cp_id (t_checkpoints w))"
    "distinct (map rv_id (t_reverts w))"
    using assms(1) by (simp_all add: wf_world_def)
  show ?thesis
    using buildSessionExport_eval [OF assms(2,3), of E root version] s
    by (simp add: import_eval [OF assms(3) s(1)] row_upsert_same [OF d(1) s(2)] same
        fold_upsert_same [OF d(2) sub(1)] fold_upsert_same [OF d(3) sub(2)]
        fold_upsert_same [OF d(4) sub(3)] fold_upsert_same [OF d(5) sub(4)])
qed

definition disjoint_rows :: "string \<Rightarrow> world \<Rightarrow> world \<Rightarrow> bool" where
  "disjoint_rows sid w v \<longleftrightarrow> sessions_findById sid v = None
     \<and> re_id ` set (events_listBySession sid w) \<inter> re_id ` set (t_events v) = {}
     \<and> sm_id ` set (summaries_listBySession sid w) \<inter> sm_id ` set (t_summaries v) = {}
     \<and> cp_id ` set (checkpoints_listBySession sid w) \<inter> cp_id ` set (t_checkpoints v) = {}
     \<and> rv_id ` set (reverts_listBySession sid w) \<inter> rv_id ` set (t_reverts v) = {}"

definition relisted :: "('r \<Rightarrow> timestamp) \<Rightarrow> 'r list \<Rightarrow> 'r list \<Rightarrow> bool" where
  "relisted stamp xs ys \<longleftrightarrow> mset ys = mset xs \<and> (sorted_wrt (\<lambda>a b. stamp b < stamp a) xs \<longrightarrow> ys = xs)"

lemma relisted_import:
  assumes "distinct (map key t)" and "key ` set (row_list owner stamp sid t) \<inter> key ` set t' = {}"
    and "sid \<notin> owner ` set t'"
  shows "relisted stamp (row_list owner stamp sid t)
    (row_list owner stamp sid (fold (row_upsert key) (row_list owner stamp sid t) t'))"
proof -
  let ?rs = "row_list owner stamp sid t"
  have "distinct (map key ?rs)"
    using assms(1) by (simp add: row_list_def distinct_map inj_on_def)
  then have f: "fold (row_upsert key) ?rs t' = t' @ ?rs" by (rule fold_upsert_fresh) (rule assms(2))
  have "row_list owner stamp sid (t' @ ?rs) = rev (sort_key stamp ?rs)"
    by (rule row_list_copied) (use assms(3) row_list_owner [of _ owner stamp sid t] in \<open>auto simp: image_iff\<close>)
  then show ?thesis unfolding f relisted_def by (simp add: relist_strict)
qed

text \<open>
  C21. Importing an export into a store that has no row with one of its ids makes the session and its
  rows appear there: the session differs in its repository root only, and each of the four listings has
  the exported rows, in the exported order when no two of them have the same time.
\<close>

theorem import_export_roundtrip:
  assumes "wf_world w" and "sessions_findById sid w = Some s" and "sid \<noteq> []"
    and "wf_world v" and "disjoint_rows sid w v"
  shows "\<exists>d n w1 v'. buildSessionExport E root (Some sid) version w = (Inr d, w1)
    \<and> importSessionDocument root' d v = (Inr (sid, n), v')
    \<and> sessions_findById sid v' = Some (s\<lparr>ss_repoRoot := root'\<rparr>)
    \<and> relisted re_createdAt (events_listBySession sid w) (events_listBySession sid v')
    \<and> relisted sm_updatedAt (summaries_listBySession sid w) (summaries_listBySession sid v')
    \<and> relisted cp_createdAt (checkpoints_listBySession sid w) (checkpoints_listBySession sid v')
    \<and> relisted rv_createdAt (reverts_listBySession sid w) (reverts_listBySession sid v')"
proof -
  have s: "ss_sessionId s = sid" using find_exists [OF assms(2)] by simp
  have d: "distinct (map re_id (t_events w))" "distinct (map sm_id (t_summaries w))"
    "distinct (map cp_id (t_checkpoints w))" "distinct (map rv_id (t_reverts w))"
    using assms(1) by (simp_all add: wf_world_def)
  have none: "\<not> sessionExists sid v"
    using assms(5) by (auto simp: disjoint_rows_def sessions_findById_def row_find_def find_None_iff sessionExists_def)
  then have "\<not> sessionReferenced sid v" using assms(4) by (auto simp: wf_world_def)
  then have o: "sid \<notin> re_sessionId ` set (t_events v)" "sid \<notin> sm_sessionId ` set (t_summaries v)"
    "sid \<notin> cp_sessionId ` set (t_checkpoints v)" "sid \<notin> rv_sessionId ` set (t_reverts v)"
    by (simp_all add: sessionReferenced_def)
  have new: "row_upsert ss_sessionId (s\<lparr>ss_repoRoot := root'\<rparr>) (t_sessions v) = t_sessions v @ [s\<lparr>ss_repoRoot := root'\<rparr>]"
    using none s by (simp add: row_upsert_def sessionExists_def)
  have j: "re_id ` set (events_listBySession sid w) \<inter> re_id ` set (t_events v) = {}"
    "sm_id ` set (summaries_listBySession sid w) \<inter> sm_id ` set (t_summaries v) = {}"
    "cp_id ` set (checkpoints_listBySession sid w) \<inter> cp_id ` set (t_checkpoints v) = {}"
    "rv_id ` set (reverts_listBySession sid w) \<inter> rv_id ` set (t_reverts v) = {}"
    and f: "row_find ss_sessionId sid (t_sessions v) = None"
    using assms(5) by (simp_all add: disjoint_rows_def sessions_findById_def)
  note lists = events_listBySession_def summaries_listBySession_def checkpoints_listBySession_def
    reverts_listBySession_def
  show ?thesis
    using buildSessionExport_eval [OF assms(2,3), of E root version] f s
      relisted_import [OF d(1) j(1) [unfolded lists] o(1)] relisted_import [OF d(2) j(2) [unfolded lists] o(2)]
      relisted_import [OF d(3) j(3) [unfolded lists] o(3)] relisted_import [OF d(4) j(4) [unfolded lists] o(4)]
    by (simp add: import_eval [OF assms(3) s] new sessions_findById_def row_find_def find_append lists)
qed

section \<open>Witnesses\<close>

lemma sample_wf: "wf_world sample_world"
  by (simp add: wf_world_def sessionReferenced_def sessionExists_def sample_world_def sample_session_def
      createLaneLockedSession_def sample_checkpoint_def revert_row_def)

lemma sample_lists:
  "checkpoints_listBySession ''s'' sample_world =
     [sample_checkpoint ''b'' QuickExecute, sample_checkpoint ''a'' QuickPlan]"
  "reverts_listBySession ''s'' sample_world = [revert_row ''s'' ''a'' None ''manual'' ''r'' ''2024'']"
  by (simp_all add: checkpoints_listBySession_def reverts_listBySession_def row_list_def sample_world_def
      sample_checkpoint_def revert_row_def)

theorem fork_copies_session_witness:
  "\<exists>sid n w'. forkSession sample_entropy ''s'' None sample_world = (Inr (sid, n), w')
     \<and> mset (map blank_checkpoint (checkpoints_listBySession sid w'))
       = {#blank_checkpoint (sample_checkpoint ''b'' QuickExecute), blank_checkpoint (sample_checkpoint ''a'' QuickPlan)#}"
proof -
  from fork_copies_session [OF sample_wf sample_fresh sample_facts(3), of None]
  obtain sid n w' where "forkSession sample_entropy ''s'' None sample_world = (Inr (sid, n), w')"
    "mset (map blank_checkpoint (checkpoints_listBySession sid w'))
       = mset (map blank_checkpoint (checkpoints_listBySession ''s'' sample_world))" by blast
  then show ?thesis by (simp add: sample_lists)
qed

theorem fork_order_depends_on_times_witness:
  "\<exists>sid n w'. forkSession sample_entropy ''s'' None sample_world = (Inr (sid, n), w')
     \<and> map blank_checkpoint (checkpoints_listBySession sid w')
       = [blank_checkpoint (sample_checkpoint ''a'' QuickPlan), blank_checkpoint (sample_checkpoint ''b'' QuickExecute)]"
proof -
  note ev = forkSession_eval [OF sample_fresh sample_facts(3), of None]
  have t: "cp_createdAt (sample_checkpoint i st) = ''2024''" for i st by (simp add: sample_checkpoint_def)
  from fork_order_depends_on_times [OF sample_wf sample_fresh sample_facts(3) ev, of "''2024''"]
  show ?thesis unfolding ev by (simp add: sample_lists t)
qed

theorem delete_removes_session_witness:
  "\<exists>counts w'. deleteSession ''s'' sample_world = (Inr counts, w') \<and> del_checkpoints counts = 2
     \<and> sessions_findById ''s'' w' = None"
proof -
  have "\<not> hasWorkflowRows ''s'' sample_world" by (simp add: hasWorkflowRows_def sample_world_def)
  from delete_removes_session [OF sample_wf sample_facts(3) this]
  show ?thesis by (auto simp: sample_lists)
qed

definition sample_advanced :: world where
  "sample_advanced = sample_world\<lparr>t_workflow := [workflow_row_typed ''s'' (createWorkflowState sample_session)]\<rparr>"

theorem delete_with_workflow_loses_history_witness:
  "\<exists>w'. deleteSession ''s'' sample_advanced = (Inl (ErrForeignKey ''sessions''), w')
     \<and> sessions_findById ''s'' w' = Some sample_session
     \<and> length (checkpoints_listBySession ''s'' sample_advanced) = 2 \<and> checkpoints_listBySession ''s'' w' = []"
proof -
  have f: "sessions_findById ''s'' sample_advanced = Some sample_session"
    using sample_facts(3) by (simp add: sample_advanced_def sessions_findById_def)
  have h: "hasWorkflowRows ''s'' sample_advanced"
    by (simp add: hasWorkflowRows_def sample_advanced_def workflow_row_typed_def)
  have l: "length (checkpoints_listBySession ''s'' sample_advanced) = 2"
    using sample_lists(1) by (simp add: sample_advanced_def checkpoints_listBySession_def)
  from delete_with_workflow_loses_history [OF f h] l show ?thesis by blast
qed

theorem import_export_is_identity_witness:
  "\<exists>d n w1. buildSessionExport sample_entropy ''/repo'' (Some ''s'') ''1'' sample_world = (Inr d, w1)
     \<and> importSessionDocument ''/repo'' d w1 = (Inr (''s'', n), w1)"
proof -
  have "ss_repoRoot sample_session = ''/repo''" by (simp add: sample_session_def createLaneLockedSession_def)
  then show ?thesis
    using import_export_is_identity [OF sample_wf sample_facts(3), of "''/repo''" sample_entropy "''1''"] by auto
qed

definition empty_world :: world where
  "empty_world = \<lparr>t_sessions = [], t_workflow = [], t_envelopes = [], t_workItems = [], t_events = [],
     t_summaries = [], t_checkpoints = [], t_reverts = [], runs = [], f_sessions = [], f_mirror = None, seq = 0\<rparr>"

lemma empty_world_wf: "wf_world empty_world"
  by (simp add: wf_world_def sessionReferenced_def empty_world_def)

theorem import_export_roundtrip_witness:
  "\<exists>d n w1 v'. buildSessionExport sample_entropy ''/repo'' (Some ''s'') ''1'' sample_world = (Inr d, w1)
     \<and> importSessionDocument ''/copy'' d empty_world = (Inr (''s'', n), v')
     \<and> relisted rv_createdAt (reverts_listBySession ''s'' sample_world) (reverts_listBySession ''s'' v')"
proof -
  have "disjoint_rows ''s'' sample_world empty_world"
    by (simp add: disjoint_rows_def empty_world_def sessions_findById_def row_find_def)
  from import_export_roundtrip [OF sample_wf sample_facts(3) _ empty_world_wf this,
      of sample_entropy "''/repo''" "''1''" "''/copy''"]
  show ?thesis by blast
qed

end
