(* ===== verification/FullWorkflow.thy ===== *)
theory FullWorkflow
  imports SessionTransfer
begin

text \<open>
  The full workflow of \<^verbatim>\<open>packages/runtime/src/workflow/full-workflow-runtime.ts\<close>: a parent session that
  moves through product, solution, implementation, review and QA, one approval gate at a time, with a
  child session per role task. Every operation reads the state file of the parent session, changes the
  state in memory while it writes the session, workflow and event rows, and writes the file at its end;
  an error leaves the file as it was and keeps the rows written so far.

  The context inspection of the scout role is an argument: \<open>scout\<close> maps the query to the id of the ledger
  it wrote or to an error. \<open>lossy\<close> is the decoding of bytes that may end inside a character.
\<close>

datatype full_role =
    MasterOrchestrator | ProductLead | SolutionLead | FullstackAgent | CodeReviewer | QaAgent
  | ContextScout | Summarizer

datatype full_permission = PermReadOnly | PermWriteWithPermission | PermBoundedShell

datatype full_stage =
    FsIntake | FsProduct | FsSolution | FsImplementation | FsCodeReview | FsQa | FsDone

datatype full_gate_id =
    ProductToSolution | SolutionToFullstack | FullstackToCodeReview | CodeReviewToQa | QaToDone

datatype full_status = FullRunning | FullBlocked | FullComplete

datatype child_status = ChPending | ChRunning | ChComplete | ChBlocked

datatype approval_decision = Approve | Reject

record role_contract =
  rc_id :: full_role
  rc_displayName :: string
  rc_permission :: full_permission
  rc_responsibility :: string

record approval_gate =
  gt_id :: full_gate_id
  gt_fromStage :: full_stage
  gt_toStage :: full_stage

record child_session =
  ch_id :: string
  ch_role :: full_role
  ch_stage :: full_stage
  ch_status :: child_status
  ch_permission :: full_permission
  ch_summary :: "string option"

record full_artifact =
  fa_id :: string
  fa_type :: string
  fa_role :: full_role
  fa_stage :: full_stage
  fa_summary :: string
  fa_evidenceRefs :: "string list"
  fa_createdAt :: timestamp

record full_approval =
  ap_gateId :: full_gate_id
  ap_decision :: approval_decision
  ap_reason :: "string option"
  ap_createdAt :: timestamp

record reroute_issue =
  ri_id :: string
  ri_finding :: string
  ri_targetStage :: full_stage
  ri_createdAt :: timestamp

record full_audit =
  au_id :: string
  au_eventType :: string
  au_role :: full_role
  au_stage :: full_stage
  au_createdAt :: timestamp

record full_state =
  fs_parentSessionId :: string
  fs_objective :: string
  fs_currentStage :: full_stage
  fs_currentOwner :: full_role
  fs_status :: full_status
  fs_childSessions :: "child_session list"
  fs_approvals :: "full_approval list"
  fs_artifacts :: "full_artifact list"
  fs_rerouteIssues :: "reroute_issue list"
  fs_evidenceLedgerRefs :: "string list"
  fs_audit :: "full_audit list"
  fs_maxReadOnlyWorkers :: int
  fs_singleWriteOwner :: full_role
  fs_createdAt :: timestamp
  fs_updatedAt :: timestamp

section \<open>Tables\<close>

fun full_role_name :: "full_role \<Rightarrow> string" where
  "full_role_name MasterOrchestrator = ''master_orchestrator''"
| "full_role_name ProductLead = ''product_lead''"
| "full_role_name SolutionLead = ''solution_lead''"
| "full_role_name FullstackAgent = ''fullstack_agent''"
| "full_role_name CodeReviewer = ''code_reviewer''"
| "full_role_name QaAgent = ''qa_agent''"
| "full_role_name ContextScout = ''context_scout''"
| "full_role_name Summarizer = ''summarizer''"

fun workflow_stage_of :: "full_stage \<Rightarrow> workflow_stage" where
  "workflow_stage_of FsIntake = FullIntake"
| "workflow_stage_of FsProduct = FullProduct"
| "workflow_stage_of FsSolution = FullSolution"
| "workflow_stage_of FsImplementation = FullImplementation"
| "workflow_stage_of FsCodeReview = FullCodeReview"
| "workflow_stage_of FsQa = FullQa"
| "workflow_stage_of FsDone = FullDone"

abbreviation full_stage_name :: "full_stage \<Rightarrow> string" where
  "full_stage_name s \<equiv> stage_name (workflow_stage_of s)"

fun gate_name :: "full_gate_id \<Rightarrow> string" where
  "gate_name ProductToSolution = ''product_to_solution''"
| "gate_name SolutionToFullstack = ''solution_to_fullstack''"
| "gate_name FullstackToCodeReview = ''fullstack_to_code_review''"
| "gate_name CodeReviewToQa = ''code_review_to_qa''"
| "gate_name QaToDone = ''qa_to_done''"

abbreviation role_row :: "full_role \<Rightarrow> string \<Rightarrow> full_permission \<Rightarrow> string \<Rightarrow> role_contract" where
  "role_row i n p r \<equiv> \<lparr>rc_id = i, rc_displayName = n, rc_permission = p, rc_responsibility = r\<rparr>"

definition FULL_WORKFLOW_ROLES :: "role_contract list" where
  "FULL_WORKFLOW_ROLES =
    [role_row MasterOrchestrator ''Master Orchestrator'' PermReadOnly
       ''Own parent session, route stages, enforce gates, and surface status.'',
     role_row ProductLead ''Product Lead'' PermReadOnly
       ''Convert intent into scope, user stories, acceptance criteria, and edge cases.'',
     role_row SolutionLead ''Solution Lead'' PermReadOnly
       ''Convert approved scope into architecture, work items, sequencing, and validation plan.'',
     role_row FullstackAgent ''Fullstack Agent'' PermWriteWithPermission
       ''Implement scoped code changes and record verification evidence.'',
     role_row CodeReviewer ''Code Reviewer'' PermReadOnly
       ''Review diffs for bugs, regressions, architecture drift, and missing tests.'',
     role_row QaAgent ''QA Agent'' PermBoundedShell
       ''Validate acceptance criteria, run tests, and record QA evidence.'',
     role_row ContextScout ''Context Scout'' PermReadOnly
       ''Gather semantic, symbol, LSP, test, docs, and recent-change evidence.'',
     role_row Summarizer ''Summarizer'' PermReadOnly
       ''Compress role outputs into parent-session memory without replacing evidence.'']"

definition FULL_WORKFLOW_STAGES :: "full_stage list" where
  "FULL_WORKFLOW_STAGES = [FsIntake, FsProduct, FsSolution, FsImplementation, FsCodeReview, FsQa, FsDone]"

abbreviation gate_row :: "full_gate_id \<Rightarrow> full_stage \<Rightarrow> full_stage \<Rightarrow> approval_gate" where
  "gate_row i a b \<equiv> \<lparr>gt_id = i, gt_fromStage = a, gt_toStage = b\<rparr>"

definition FULL_WORKFLOW_APPROVAL_GATES :: "approval_gate list" where
  "FULL_WORKFLOW_APPROVAL_GATES =
    [gate_row ProductToSolution FsProduct FsSolution,
     gate_row SolutionToFullstack FsSolution FsImplementation,
     gate_row FullstackToCodeReview FsImplementation FsCodeReview,
     gate_row CodeReviewToQa FsCodeReview FsQa,
     gate_row QaToDone FsQa FsDone]"

fun ownerForStage :: "full_stage \<Rightarrow> full_role" where
  "ownerForStage FsProduct = ProductLead"
| "ownerForStage FsSolution = SolutionLead"
| "ownerForStage FsImplementation = FullstackAgent"
| "ownerForStage FsCodeReview = CodeReviewer"
| "ownerForStage FsQa = QaAgent"
| "ownerForStage FsIntake = MasterOrchestrator"
| "ownerForStage FsDone = MasterOrchestrator"

definition nextStage :: "full_stage \<Rightarrow> full_stage option" where
  "nextStage st = (case index_of FULL_WORKFLOW_STAGES st of
     None \<Rightarrow> None | Some i \<Rightarrow> array_at FULL_WORKFLOW_STAGES (i + 1))"

definition roleContract :: "full_role \<Rightarrow> role_contract dh" where
  "roleContract role =
     (case List.find (\<lambda>c. rc_id c = role) FULL_WORKFLOW_ROLES of
        None \<Rightarrow> throw_dh (ErrMessage (''Unknown full workflow role '' @ quoted (full_role_name role) @ ''.''))
      | Some c \<Rightarrow> return_dh c)"

section \<open>Role tasks\<close>

definition truncateUtf8 :: "(buffer \<Rightarrow> string) \<Rightarrow> string \<Rightarrow> nat \<Rightarrow> string" where
  "truncateUtf8 lossy value maxBytes =
     (let buf = utf8_encode value in if length buf \<le> maxBytes then value else lossy (take maxBytes buf))"

text \<open>\<^verbatim>\<open>runSubagentTask\<close> as the runtime calls it, without a provider.\<close>

definition runSubagentTask :: "(buffer \<Rightarrow> string) \<Rightarrow> string \<Rightarrow> string \<Rightarrow> nat \<Rightarrow> string" where
  "runSubagentTask lossy agentId prompt maxResultBytes =
     truncateUtf8 lossy (''Subagent '' @ agentId @ '': '' @ prompt) maxResultBytes"

definition audit_json :: "full_audit \<Rightarrow> json" where
  "audit_json r = JObj [(''id'', JStr (au_id r)), (''eventType'', JStr (au_eventType r)),
     (''role'', JStr (full_role_name (au_role r))), (''stage'', JStr (full_stage_name (au_stage r))),
     (''createdAt'', JStr (au_createdAt r))]"

definition recordAudit ::
  "entropy \<Rightarrow> full_state \<Rightarrow> string \<Rightarrow> full_role \<Rightarrow> full_stage \<Rightarrow> full_state dh" where
  "recordAudit E st eventType role stage =
     bind_dh (createId E ''audit'') (\<lambda>i.
     bind_dh (nowIso E) (\<lambda>now.
       let rec = \<lparr>au_id = i, au_eventType = eventType, au_role = role, au_stage = stage, au_createdAt = now\<rparr> in
       bind_dh (events_save E (fs_parentSessionId st) eventType (audit_json rec) (Some now)) (\<lambda>_.
         return_dh (st\<lparr>fs_audit := fs_audit st @ [rec]\<rparr>))))"

definition inspectContext_dh :: "(string \<Rightarrow> string + string) \<Rightarrow> string \<Rightarrow> string dh" where
  "inspectContext_dh scout query =
     (case scout query of Inl msg \<Rightarrow> throw_dh (ErrMessage msg) | Inr i \<Rightarrow> return_dh i)"

text \<open>The child is the last of \<^verbatim>\<open>childSessions\<close>, where the task's end updates it.\<close>

definition runRoleTask ::
  "entropy \<Rightarrow> (string \<Rightarrow> string + string) \<Rightarrow> (buffer \<Rightarrow> string) \<Rightarrow> full_role \<Rightarrow> full_stage \<Rightarrow> full_state
   \<Rightarrow> full_state dh" where
  "runRoleTask E scout lossy role stage st0 =
     bind_dh (roleContract role) (\<lambda>contract.
     bind_dh (createId E ''child-session'') (\<lambda>cid.
       let child = \<lparr>ch_id = cid, ch_role = role, ch_stage = stage, ch_status = ChRunning,
             ch_permission = rc_permission contract, ch_summary = None\<rparr>;
           st1 = st0\<lparr>fs_childSessions := fs_childSessions st0 @ [child]\<rparr> in
       bind_dh (recordAudit E st1 ''full.role.started'' role stage) (\<lambda>st2.
       bind_dh (if role = ContextScout
                then bind_dh (inspectContext_dh scout (fs_objective st2)) (\<lambda>ledger.
                  return_dh (st2\<lparr>fs_evidenceLedgerRefs := js_unique (fs_evidenceLedgerRefs st2 @ [ledger])\<rparr>))
                else return_dh st2) (\<lambda>st3.
         let summary = runSubagentTask lossy (full_role_name role)
               (full_stage_name stage @ '': '' @ fs_objective st3) 2000;
             st4 = st3\<lparr>fs_childSessions :=
               fs_childSessions st0 @ [child\<lparr>ch_status := ChComplete, ch_summary := Some summary\<rparr>]\<rparr> in
         bind_dh (createId E ''artifact'') (\<lambda>aid.
         bind_dh (nowIso E) (\<lambda>now.
           let st5 = st4\<lparr>fs_artifacts := fs_artifacts st4 @ [\<lparr>fa_id = aid, fa_type = ''role_output'',
                 fa_role = role, fa_stage = stage, fa_summary = summary,
                 fa_evidenceRefs = fs_evidenceLedgerRefs st4, fa_createdAt = now\<rparr>]\<rparr> in
           bind_dh (recordAudit E st5 ''full.role.finished'' role stage) (\<lambda>st6.
           bind_dh (nowIso E) (\<lambda>done.
             return_dh (st6\<lparr>fs_updatedAt := done\<rparr>)))))))))"

definition full_session :: "string \<Rightarrow> full_state \<Rightarrow> session_state" where
  "full_session repoRoot st = \<lparr>ss_sessionId = fs_parentSessionId st, ss_repoRoot = repoRoot, ss_lane = LaneFull,
     ss_currentStage = workflow_stage_of (fs_currentStage st),
     ss_status = (case fs_status st of FullComplete \<Rightarrow> SsComplete | FullBlocked \<Rightarrow> SsBlocked | FullRunning \<Rightarrow> SsInProgress),
     ss_createdAt = fs_createdAt st, ss_updatedAt = fs_updatedAt st,
     ss_activeWorkItemIds = map ch_id (filter (\<lambda>c. ch_status c = ChRunning) (fs_childSessions st)),
     ss_semanticMode = SemAuto, ss_latestSummaryId = None, ss_latestCheckpointId = None, ss_latestRevertId = None\<rparr>"

definition full_workflow :: "full_state \<Rightarrow> workflow_state" where
  "full_workflow st = \<lparr>wf_lane = LaneFull, wf_stage = workflow_stage_of (fs_currentStage st),
     wf_stageStatus = (case fs_status st of FullComplete \<Rightarrow> StPassed | FullBlocked \<Rightarrow> StBlocked | FullRunning \<Rightarrow> StInProgress),
     wf_previousStage = None, wf_nextStage = map_option workflow_stage_of (nextStage (fs_currentStage st)),
     wf_gateStatus = GatePending, wf_blockers = map ri_finding (fs_rerouteIssues st)\<rparr>"

definition persistParentSession :: "string \<Rightarrow> full_state \<Rightarrow> unit dh" where
  "persistParentSession repoRoot st =
     bind_dh (sessions_save (full_session repoRoot st)) (\<lambda>_.
       workflow_save (fs_parentSessionId st) (workflow_json (full_workflow st)))"

section \<open>Operations\<close>

type_synonym full_files = "(string, full_state) js_map"

definition readState :: "full_files \<Rightarrow> string \<Rightarrow> dh_error + full_state" where
  "readState files pid =
     (case map_of files pid of
        None \<Rightarrow> Inl (ErrMessage (''Full workflow parent session '' @ quoted pid @ '' was not found.''))
      | Some st \<Rightarrow> Inr st)"

definition writeState :: "full_state \<Rightarrow> full_files \<Rightarrow> full_files" where
  "writeState st files = AList.update (fs_parentSessionId st) st files"

text \<open>The frame of the operations on an existing workflow: read the file, run the body, write the file.\<close>

definition onState ::
  "string \<Rightarrow> (full_state \<Rightarrow> full_state dh) \<Rightarrow> full_files \<times> world \<Rightarrow> (dh_error + full_state) \<times> full_files \<times> world" where
  "onState pid body fw =
     (let (files, w) = fw in
      case readState files pid of
        Inl e \<Rightarrow> (Inl e, files, w)
      | Inr st \<Rightarrow>
          (case body st w of
             (Inl e, w') \<Rightarrow> (Inl e, files, w')
           | (Inr st', w') \<Rightarrow> (Inr st', writeState st' files, w')))"

definition startFullWorkflow ::
  "entropy \<Rightarrow> (string \<Rightarrow> string + string) \<Rightarrow> (buffer \<Rightarrow> string) \<Rightarrow> string \<Rightarrow> string \<Rightarrow> int option
   \<Rightarrow> full_files \<times> world \<Rightarrow> (dh_error + full_state) \<times> full_files \<times> world" where
  "startFullWorkflow E scout lossy repoRoot objective0 maxWorkers fw =
     (let (files, w) = fw; objective = js_trim objective0;
          body = (if objective = [] then throw_dh (ErrMessage ''full workflow objective is required.'')
            else bind_dh (nowIso E) (\<lambda>now.
              bind_dh (createId E ''session'') (\<lambda>pid.
                let st = \<lparr>fs_parentSessionId = pid, fs_objective = objective, fs_currentStage = FsProduct,
                      fs_currentOwner = ProductLead, fs_status = FullRunning, fs_childSessions = [],
                      fs_approvals = [], fs_artifacts = [], fs_rerouteIssues = [], fs_evidenceLedgerRefs = [],
                      fs_audit = [], fs_maxReadOnlyWorkers = nullish maxWorkers 3,
                      fs_singleWriteOwner = FullstackAgent, fs_createdAt = now,
                      fs_updatedAt = now\<rparr> in
                bind_dh (persistParentSession repoRoot st) (\<lambda>_.
                bind_dh (recordAudit E st ''full.started'' MasterOrchestrator FsIntake) (\<lambda>st1.
                  runRoleTask E scout lossy ProductLead FsProduct st1)))))
      in case body w of
           (Inl e, w') \<Rightarrow> (Inl e, files, w')
         | (Inr st, w') \<Rightarrow> (Inr st, writeState st files, w'))"

definition inspectFullWorkflow ::
  "string \<Rightarrow> full_files \<times> world \<Rightarrow> (dh_error + full_state) \<times> full_files \<times> world" where
  "inspectFullWorkflow pid fw = (readState (fst fw) pid, fw)"

definition advanceBody ::
  "entropy \<Rightarrow> (string \<Rightarrow> string + string) \<Rightarrow> (buffer \<Rightarrow> string) \<Rightarrow> string \<Rightarrow> full_gate_id \<Rightarrow> approval_decision
   \<Rightarrow> string option \<Rightarrow> full_state \<Rightarrow> full_state dh" where
  "advanceBody E scout lossy repoRoot gateId decision reason st =
     (case List.find (\<lambda>g. gt_id g = gateId) FULL_WORKFLOW_APPROVAL_GATES of
        None \<Rightarrow> throw_dh (ErrMessage (''Unknown full workflow gate '' @ quoted (gate_name gateId) @ ''.''))
      | Some gate \<Rightarrow>
          if gt_fromStage gate \<noteq> fs_currentStage st
          then throw_dh (ErrMessage (''Gate '' @ quoted (gate_name gateId) @ '' cannot advance current stage ''
            @ quoted (full_stage_name (fs_currentStage st)) @ ''.''))
          else bind_dh (nowIso E) (\<lambda>now.
            let st1 = st\<lparr>fs_approvals := fs_approvals st @ [\<lparr>ap_gateId = gateId, ap_decision = decision,
                  ap_reason = reason, ap_createdAt = now\<rparr>]\<rparr> in
            if decision = Reject
            then recordAudit E (st1\<lparr>fs_status := FullBlocked, fs_updatedAt := now\<rparr>) ''full.gate.rejected''
              (fs_currentOwner st1) (fs_currentStage st1)
            else
              let to = gt_toStage gate;
                  st2 = st1\<lparr>fs_currentStage := to, fs_currentOwner := ownerForStage to,
                    fs_status := (if to = FsDone then FullComplete else FullRunning), fs_updatedAt := now\<rparr> in
              bind_dh (recordAudit E st2 ''full.gate.approved'' (fs_currentOwner st2) to) (\<lambda>st3.
              bind_dh (if to \<noteq> FsDone then runRoleTask E scout lossy (fs_currentOwner st3) to st3
                       else return_dh st3) (\<lambda>st4.
              bind_dh (persistParentSession repoRoot st4) (\<lambda>_. return_dh st4)))))"

definition advanceFullWorkflow where
  "advanceFullWorkflow E scout lossy repoRoot pid gateId decision reason =
     onState pid (advanceBody E scout lossy repoRoot gateId decision reason)"

definition rerouteBody :: "entropy \<Rightarrow> string \<Rightarrow> string \<Rightarrow> full_stage \<Rightarrow> full_state \<Rightarrow> full_state dh" where
  "rerouteBody E repoRoot finding target st =
     (if target \<notin> set FULL_WORKFLOW_STAGES
      then throw_dh (ErrMessage (''Unknown full workflow stage '' @ quoted (full_stage_name target) @ ''.''))
      else bind_dh (nowIso E) (\<lambda>now.
        bind_dh (createId E ''reroute'') (\<lambda>i.
          let st1 = st\<lparr>fs_rerouteIssues := fs_rerouteIssues st @ [\<lparr>ri_id = i, ri_finding = finding,
                ri_targetStage = target, ri_createdAt = now\<rparr>],
                fs_currentStage := target, fs_currentOwner := ownerForStage target,
                fs_status := (if target = FsDone then FullComplete else FullRunning), fs_updatedAt := now\<rparr> in
          bind_dh (recordAudit E st1 ''full.rerouted'' (fs_currentOwner st1) target) (\<lambda>st2.
          bind_dh (persistParentSession repoRoot st2) (\<lambda>_. return_dh st2)))))"

definition rerouteFullWorkflow where
  "rerouteFullWorkflow E repoRoot pid finding target = onState pid (rerouteBody E repoRoot finding target)"

definition blockBody :: "entropy \<Rightarrow> string \<Rightarrow> string \<Rightarrow> full_state \<Rightarrow> full_state dh" where
  "blockBody E repoRoot reason st =
     bind_dh (nowIso E) (\<lambda>now.
     bind_dh (createId E ''reroute'') (\<lambda>i.
       let st1 = st\<lparr>fs_status := FullBlocked, fs_rerouteIssues := fs_rerouteIssues st @ [\<lparr>ri_id = i,
             ri_finding = reason, ri_targetStage = fs_currentStage st, ri_createdAt = now\<rparr>],
             fs_updatedAt := now\<rparr> in
       bind_dh (recordAudit E st1 ''full.gate.rejected'' (fs_currentOwner st1) (fs_currentStage st1)) (\<lambda>st2.
       bind_dh (persistParentSession repoRoot st2) (\<lambda>_. return_dh st2))))"

definition blockFullWorkflow where
  "blockFullWorkflow E repoRoot pid reason = onState pid (blockBody E repoRoot reason)"

datatype support_role = SupportScout | SupportSummarizer

fun support_role_of :: "support_role \<Rightarrow> full_role" where
  "support_role_of SupportScout = ContextScout"
| "support_role_of SupportSummarizer = Summarizer"

definition runFullWorkflowSupportRole where
  "runFullWorkflowSupportRole E scout lossy pid role stage =
     onState pid (\<lambda>st. runRoleTask E scout lossy (support_role_of role) (nullish stage (fs_currentStage st)) st)"

definition closeBody :: "entropy \<Rightarrow> string \<Rightarrow> full_state \<Rightarrow> full_state dh" where
  "closeBody E repoRoot st =
     bind_dh (nowIso E) (\<lambda>now.
       let st1 = st\<lparr>fs_currentStage := FsDone, fs_currentOwner := MasterOrchestrator, fs_status := FullComplete,
             fs_updatedAt := now\<rparr> in
       bind_dh (recordAudit E st1 ''full.closed'' MasterOrchestrator FsDone) (\<lambda>st2.
       bind_dh (persistParentSession repoRoot st2) (\<lambda>_. return_dh st2)))"

definition closeFullWorkflow where
  "closeFullWorkflow E repoRoot pid = onState pid (closeBody E repoRoot)"

section \<open>What the steps return\<close>

lemma bind_Inr: "bind_dh m f w = (Inr y, w') \<longleftrightarrow> (\<exists>x w1. m w = (Inr x, w1) \<and> f x w1 = (Inr y, w'))"
  by (auto simp: bind_dh_def split: prod.splits sum.splits)

lemma createId_Inr [simp]: "createId E p w = (Inr x, w') \<longleftrightarrow> x = newId E p (seq w) \<and> w' = w\<lparr>seq := seq w + 1\<rparr>"
  by (auto simp: createId_def)

lemma nowIso_Inr [simp]: "nowIso E w = (Inr x, w') \<longleftrightarrow> x = clk E (seq w) \<and> w' = w\<lparr>seq := seq w + 1\<rparr>"
  by (auto simp: nowIso_def)

lemma return_Inr [simp]: "return_dh x w = (Inr y, w') \<longleftrightarrow> y = x \<and> w' = w"
  by (auto simp: return_dh_def)

lemma throw_Inr [simp]: "throw_dh e w \<noteq> (Inr y, w')"
  by (simp add: throw_dh_def)

lemma bind_createId: "bind_dh (createId E p) f w = f (newId E p (seq w)) (w\<lparr>seq := seq w + 1\<rparr>)"
  and bind_nowIso: "bind_dh (nowIso E) g w = g (clk E (seq w)) (w\<lparr>seq := seq w + 1\<rparr>)"
  and bind_return: "bind_dh (return_dh x) h w = h x w"
  by (simp_all add: bind_dh_def createId_def nowIso_def return_dh_def)

lemma bind_ok: "m w = (Inr x, w1) \<Longrightarrow> bind_dh m f w = f x w1"
  by (simp add: bind_dh_def)

lemmas run_simps = bind_createId bind_nowIso bind_return

text \<open>The rows of sessions and workflow states that an operation leaves alone.\<close>

definition same_rows :: "world \<Rightarrow> world \<Rightarrow> bool" where
  "same_rows w w' \<longleftrightarrow> t_sessions w' = t_sessions w \<and> t_workflow w' = t_workflow w"

lemma same_rows_trans: "same_rows a b \<Longrightarrow> same_rows b c \<Longrightarrow> same_rows a c"
  by (simp add: same_rows_def)

lemma events_save_Inr:
  "events_save E sid ty j t w = (Inr e, w') \<Longrightarrow> same_rows w w'"
  by (auto simp: events_save_def bind_Inr events_insert_def same_rows_def split: option.splits if_splits)

lemma recordAudit_Inr:
  "recordAudit E st ty role stage w = (Inr st', w') \<Longrightarrow>
     (\<exists>a. st' = st\<lparr>fs_audit := fs_audit st @ [a]\<rparr> \<and> au_eventType a = ty \<and> au_role a = role \<and> au_stage a = stage) \<and> same_rows w w'"
proof -
  assume "recordAudit E st ty role stage w = (Inr st', w')"
  then obtain a e w1 where "st' = st\<lparr>fs_audit := fs_audit st @ [a]\<rparr>" "au_eventType a = ty" "au_role a = role" "au_stage a = stage"
    "events_save E (fs_parentSessionId st) ty (audit_json a) (Some (clk E (seq w + 1))) w1 = (Inr e, w')"
    "same_rows w w1"
    unfolding recordAudit_def Let_def bind_Inr by (force simp: same_rows_def)
  then show ?thesis using events_save_Inr same_rows_trans by blast
qed

definition role_permission :: "full_role \<Rightarrow> full_permission" where
  "role_permission role = (case role of FullstackAgent \<Rightarrow> PermWriteWithPermission | QaAgent \<Rightarrow> PermBoundedShell | _ \<Rightarrow> PermReadOnly)"

lemma roleContract_eval:
  "\<exists>c. roleContract role w = (Inr c, w) \<and> rc_permission c = role_permission role"
  by (cases role) (simp_all add: roleContract_def FULL_WORKFLOW_ROLES_def role_permission_def return_dh_def)

text \<open>The part of a state that a role task does not change.\<close>

definition core :: "full_state \<Rightarrow> full_state" where
  "core st = st\<lparr>fs_childSessions := [], fs_artifacts := [], fs_evidenceLedgerRefs := [], fs_audit := [], fs_updatedAt := []\<rparr>"

definition finished_task :: "full_role \<Rightarrow> full_stage \<Rightarrow> child_session \<Rightarrow> full_artifact \<Rightarrow> bool" where
  "finished_task role stage c a \<longleftrightarrow> ch_role c = role \<and> ch_stage c = stage \<and> ch_status c = ChComplete
     \<and> ch_permission c = role_permission role \<and> ch_summary c = Some (fa_summary a)
     \<and> fa_role a = role \<and> fa_stage a = stage"

lemma runRoleTask_Inr:
  assumes "runRoleTask E scout lossy role stage st w = (Inr st', w')"
  shows "core st' = core st"
    and "\<exists>c a. fs_childSessions st' = fs_childSessions st @ [c] \<and> fs_artifacts st' = fs_artifacts st @ [a] \<and> finished_task role stage c a"
    and "same_rows w w'"
proof -
  obtain k where k: "roleContract role w = (Inr k, w)" "rc_permission k = role_permission role"
    using roleContract_eval by blast
  let ?c = "\<lparr>ch_id = newId E ''child-session'' (seq w), ch_role = role, ch_stage = stage, ch_status = ChRunning,
      ch_permission = role_permission role, ch_summary = None\<rparr>"
  let ?st1 = "st\<lparr>fs_childSessions := fs_childSessions st @ [?c]\<rparr>"
  obtain st2 w2 st3 w3 st6 w6 sm a where
    r2: "recordAudit E ?st1 ''full.role.started'' role stage (w\<lparr>seq := seq w + 1\<rparr>) = (Inr st2, w2)" and
    r3: "(if role = ContextScout then bind_dh (inspectContext_dh scout (fs_objective st2)) (\<lambda>ledger.
                  return_dh (st2\<lparr>fs_evidenceLedgerRefs := js_unique (fs_evidenceLedgerRefs st2 @ [ledger])\<rparr>))
                else return_dh st2) w2 = (Inr st3, w3)" and
    r6: "recordAudit E (st3\<lparr>fs_childSessions := fs_childSessions st @ [?c\<lparr>ch_status := ChComplete, ch_summary := Some sm\<rparr>],
        fs_artifacts := fs_artifacts st3 @ [a]\<rparr>) ''full.role.finished'' role stage (w3\<lparr>seq := seq w3 + 2\<rparr>) = (Inr st6, w6)" and
    st': "st' = st6\<lparr>fs_updatedAt := clk E (seq w6)\<rparr>" "w' = w6\<lparr>seq := seq w6 + 1\<rparr>" and
    a: "fa_role a = role" "fa_stage a = stage" "fa_summary a = sm"
    using assms unfolding runRoleTask_def Let_def bind_Inr by (force simp: k)
  have w3: "w3 = w2" and c3: "\<exists>refs. st3 = st2\<lparr>fs_evidenceLedgerRefs := refs\<rparr>"
    using r3 by (auto simp: bind_Inr inspectContext_dh_def split: if_splits sum.splits intro: exI [of _ "fs_evidenceLedgerRefs st2"])
  from recordAudit_Inr [OF r2] obtain a2 where st2: "st2 = ?st1\<lparr>fs_audit := fs_audit st @ [a2]\<rparr>" and s2: "same_rows w w2"
    by (auto simp: same_rows_def)
  from recordAudit_Inr [OF r6] obtain a6 where st6: "st6 = st3\<lparr>fs_childSessions := fs_childSessions st @
        [?c\<lparr>ch_status := ChComplete, ch_summary := Some sm\<rparr>], fs_artifacts := fs_artifacts st3 @ [a],
        fs_audit := fs_audit st3 @ [a6]\<rparr>" and s6: "same_rows w3 w6"
    by (auto simp: same_rows_def)
  show "core st' = core st" using st'(1) st6 st2 c3 by (auto simp: core_def)
  show "same_rows w w'" using s2 s6 w3 st'(2) by (simp add: same_rows_def)
  show "\<exists>c a. fs_childSessions st' = fs_childSessions st @ [c] \<and> fs_artifacts st' = fs_artifacts st @ [a] \<and> finished_task role stage c a"
    using st'(1) st6 st2 c3 a by (auto simp: finished_task_def)
qed

lemma coreD:
  assumes "core st' = core st"
  shows "fs_parentSessionId st' = fs_parentSessionId st" "fs_objective st' = fs_objective st"
    "fs_currentStage st' = fs_currentStage st" "fs_currentOwner st' = fs_currentOwner st" "fs_status st' = fs_status st"
    "fs_approvals st' = fs_approvals st" "fs_rerouteIssues st' = fs_rerouteIssues st" "fs_createdAt st' = fs_createdAt st"
  using arg_cong [OF assms, of fs_parentSessionId] arg_cong [OF assms, of fs_objective]
    arg_cong [OF assms, of fs_currentStage] arg_cong [OF assms, of fs_currentOwner] arg_cong [OF assms, of fs_status]
    arg_cong [OF assms, of fs_approvals] arg_cong [OF assms, of fs_rerouteIssues] arg_cong [OF assms, of fs_createdAt]
  by (simp_all add: core_def)

section \<open>The invariant\<close>

text \<open>
  Every child is a finished task with its artifact, run by the owner of its stage or by a support role;
  the owner is the one of the current stage; the workflow is complete only in the last stage and is not
  running there.
\<close>

definition may_run :: "full_role \<Rightarrow> full_stage \<Rightarrow> bool" where
  "may_run role stage \<longleftrightarrow> role = ContextScout \<or> role = Summarizer \<or> role = ownerForStage stage"

definition tasks_ok :: "full_state \<Rightarrow> bool" where
  "tasks_ok st \<longleftrightarrow> list_all2 (\<lambda>c a. may_run (ch_role c) (ch_stage c) \<and> finished_task (ch_role c) (ch_stage c) c a)
     (fs_childSessions st) (fs_artifacts st)"

definition stage_ok :: "full_state \<Rightarrow> bool" where
  "stage_ok st \<longleftrightarrow> fs_currentOwner st = ownerForStage (fs_currentStage st)
     \<and> (fs_status st = FullComplete \<longrightarrow> fs_currentStage st = FsDone)
     \<and> (fs_currentStage st = FsDone \<longrightarrow> fs_status st \<noteq> FullRunning)"

definition full_inv :: "full_state \<Rightarrow> bool" where
  "full_inv st \<longleftrightarrow> stage_ok st \<and> tasks_ok st"

lemma runRoleTask_inv:
  assumes "runRoleTask E scout lossy role stage st w = (Inr st', w')" and "full_inv st" and "may_run role stage"
  shows "full_inv st' \<and> fs_parentSessionId st' = fs_parentSessionId st"
proof -
  obtain c a where ca: "fs_childSessions st' = fs_childSessions st @ [c]" "fs_artifacts st' = fs_artifacts st @ [a]"
    "finished_task role stage c a" using runRoleTask_Inr(2) [OF assms(1)] by blast
  have "tasks_ok st'"
    using assms(2,3) ca by (auto simp: full_inv_def tasks_ok_def finished_task_def intro!: list_all2_appendI)
  moreover have "stage_ok st'"
    using assms(2) coreD [OF runRoleTask_Inr(1) [OF assms(1)]] by (simp add: full_inv_def stage_ok_def)
  ultimately show ?thesis using coreD [OF runRoleTask_Inr(1) [OF assms(1)]] by (simp add: full_inv_def)
qed

lemma recordAudit_inv:
  assumes "recordAudit E st ty role stage w = (Inr st', w')"
  shows "full_inv st' = full_inv st" "fs_parentSessionId st' = fs_parentSessionId st"
    "fs_currentOwner st' = fs_currentOwner st" "fs_status st' = fs_status st" "fs_currentStage st' = fs_currentStage st"
    "core st' = core st"
  using recordAudit_Inr [OF assms] by (auto simp: full_inv_def stage_ok_def tasks_ok_def core_def)

lemma gate_find:
  "List.find (\<lambda>g. gt_id g = i) FULL_WORKFLOW_APPROVAL_GATES = Some g \<Longrightarrow> gt_toStage g \<noteq> FsProduct \<and> gt_fromStage g \<noteq> FsDone"
  by (cases i) (auto simp: FULL_WORKFLOW_APPROVAL_GATES_def)

lemma advanceBody_inv:
  assumes "advanceBody E scout lossy root g d reason st w = (Inr st', w')" and "full_inv st"
  shows "full_inv st' \<and> fs_parentSessionId st' = fs_parentSessionId st"
proof -
  obtain gate where gate: "List.find (\<lambda>x. gt_id x = g) FULL_WORKFLOW_APPROVAL_GATES = Some gate" "gt_fromStage gate = fs_currentStage st"
    using assms(1) by (auto simp: advanceBody_def split: option.splits if_splits)
  let ?st1 = "st\<lparr>fs_approvals := fs_approvals st @ [\<lparr>ap_gateId = g, ap_decision = d, ap_reason = reason, ap_createdAt = clk E (seq w)\<rparr>]\<rparr>"
  show ?thesis
  proof (cases d)
    case Reject
    then have "recordAudit E (?st1\<lparr>fs_status := FullBlocked, fs_updatedAt := clk E (seq w)\<rparr>) ''full.gate.rejected''
        (fs_currentOwner st) (fs_currentStage st) (w\<lparr>seq := seq w + 1\<rparr>) = (Inr st', w')"
      using assms(1) gate by (simp add: advanceBody_def bind_Inr Let_def)
    from recordAudit_inv [OF this] show ?thesis
      using assms(2) by (simp add: full_inv_def stage_ok_def tasks_ok_def)
  next
    case Approve
    let ?to = "gt_toStage gate"
    let ?st2 = "?st1\<lparr>fs_currentStage := ?to, fs_currentOwner := ownerForStage ?to,
        fs_status := (if ?to = FsDone then FullComplete else FullRunning), fs_updatedAt := clk E (seq w)\<rparr>"
    have i2: "full_inv ?st2" using assms(2) by (simp add: full_inv_def stage_ok_def tasks_ok_def)
    obtain st3 w3 w4 where
      r3: "recordAudit E ?st2 ''full.gate.approved'' (ownerForStage ?to) ?to (w\<lparr>seq := seq w + 1\<rparr>) = (Inr st3, w3)" and
      r4: "(if ?to \<noteq> FsDone then runRoleTask E scout lossy (fs_currentOwner st3) ?to st3 else return_dh st3) w3 = (Inr st', w4)"
      using assms(1) gate Approve by (auto simp: advanceBody_def bind_Inr Let_def simp del: fun_upd_apply)
    have "may_run (fs_currentOwner st3) ?to" using recordAudit_inv(3) [OF r3] by (simp add: may_run_def)
    then show ?thesis
      using r4 runRoleTask_inv [of E scout lossy "fs_currentOwner st3" ?to st3 w3 st' w4] recordAudit_inv(1,2) [OF r3] i2
      by (auto split: if_splits)
  qed
qed

lemma audited_inv:
  assumes "bind_dh (recordAudit E st ty role stage) (\<lambda>st2. bind_dh (persistParentSession root st2) (\<lambda>_. return_dh st2)) w = (Inr st', w')"
    and "full_inv st"
  shows "full_inv st' \<and> fs_parentSessionId st' = fs_parentSessionId st"
proof -
  obtain w1 where "recordAudit E st ty role stage w = (Inr st', w1)"
    using assms(1) by (auto simp: bind_Inr)
  from recordAudit_inv(1,2) [OF this] show ?thesis using assms(2) by simp
qed

lemma all_stages: "s \<in> set FULL_WORKFLOW_STAGES"
  by (cases s) (simp_all add: FULL_WORKFLOW_STAGES_def)

lemma rerouteBody_eq:
  "rerouteBody E root f target st w = bind_dh (recordAudit E (st\<lparr>fs_rerouteIssues := fs_rerouteIssues st @
      [\<lparr>ri_id = newId E ''reroute'' (Suc (seq w)), ri_finding = f, ri_targetStage = target, ri_createdAt = clk E (seq w)\<rparr>],
      fs_currentStage := target, fs_currentOwner := ownerForStage target,
      fs_status := (if target = FsDone then FullComplete else FullRunning), fs_updatedAt := clk E (seq w)\<rparr>)
    ''full.rerouted'' (ownerForStage target) target) (\<lambda>st2. bind_dh (persistParentSession root st2) (\<lambda>_. return_dh st2))
    (w\<lparr>seq := seq w + 2\<rparr>)"
  by (simp add: rerouteBody_def Let_def run_simps all_stages)

lemma blockBody_eq:
  "blockBody E root r st w = bind_dh (recordAudit E (st\<lparr>fs_status := FullBlocked, fs_rerouteIssues := fs_rerouteIssues st @
      [\<lparr>ri_id = newId E ''reroute'' (Suc (seq w)), ri_finding = r, ri_targetStage = fs_currentStage st, ri_createdAt = clk E (seq w)\<rparr>],
      fs_updatedAt := clk E (seq w)\<rparr>) ''full.gate.rejected'' (fs_currentOwner st) (fs_currentStage st))
    (\<lambda>st2. bind_dh (persistParentSession root st2) (\<lambda>_. return_dh st2)) (w\<lparr>seq := seq w + 2\<rparr>)"
  by (simp add: blockBody_def Let_def run_simps)

lemma closeBody_eq:
  "closeBody E root st w = bind_dh (recordAudit E (st\<lparr>fs_currentStage := FsDone, fs_currentOwner := MasterOrchestrator,
      fs_status := FullComplete, fs_updatedAt := clk E (seq w)\<rparr>) ''full.closed'' MasterOrchestrator FsDone)
    (\<lambda>st2. bind_dh (persistParentSession root st2) (\<lambda>_. return_dh st2)) (w\<lparr>seq := seq w + 1\<rparr>)"
  by (simp add: closeBody_def Let_def run_simps)

lemma rerouteBody_inv:
  "rerouteBody E root f target st w = (Inr st', w') \<Longrightarrow> full_inv st \<Longrightarrow> full_inv st' \<and> fs_parentSessionId st' = fs_parentSessionId st"
  unfolding rerouteBody_eq by (drule audited_inv) (simp_all add: full_inv_def stage_ok_def tasks_ok_def)

lemma blockBody_inv:
  "blockBody E root r st w = (Inr st', w') \<Longrightarrow> full_inv st \<Longrightarrow> full_inv st' \<and> fs_parentSessionId st' = fs_parentSessionId st"
  unfolding blockBody_eq by (drule audited_inv) (simp_all add: full_inv_def stage_ok_def tasks_ok_def)

lemma closeBody_inv:
  "closeBody E root st w = (Inr st', w') \<Longrightarrow> full_inv st \<Longrightarrow> full_inv st' \<and> fs_parentSessionId st' = fs_parentSessionId st"
  unfolding closeBody_eq by (drule audited_inv) (simp_all add: full_inv_def stage_ok_def tasks_ok_def)

lemmas bodies_inv = advanceBody_inv rerouteBody_inv blockBody_inv closeBody_inv

section \<open>Reachable states\<close>

inductive full_step ::
  "entropy \<Rightarrow> (string \<Rightarrow> string + string) \<Rightarrow> (buffer \<Rightarrow> string) \<Rightarrow> full_files \<times> world \<Rightarrow> full_files \<times> world \<Rightarrow> bool"
  for E scout lossy where
  start: "full_step E scout lossy fw (snd (startFullWorkflow E scout lossy root objective maxWorkers fw))"
| advance: "full_step E scout lossy fw (snd (advanceFullWorkflow E scout lossy root pid gate decision reason fw))"
| reroute: "full_step E scout lossy fw (snd (rerouteFullWorkflow E root pid finding target fw))"
| block: "full_step E scout lossy fw (snd (blockFullWorkflow E root pid reason fw))"
| support: "full_step E scout lossy fw (snd (runFullWorkflowSupportRole E scout lossy pid role stage fw))"
| close: "full_step E scout lossy fw (snd (closeFullWorkflow E root pid fw))"

definition files_inv :: "full_files \<Rightarrow> bool" where
  "files_inv files \<longleftrightarrow> (\<forall>pid st. map_of files pid = Some st \<longrightarrow> full_inv st \<and> fs_parentSessionId st = pid)"

lemma writeState_inv: "files_inv files \<Longrightarrow> full_inv st \<Longrightarrow> files_inv (writeState st files)"
  by (auto simp: files_inv_def writeState_def update_conv')

lemma onState_cases:
  obtains (missing) e where "onState pid body fw = (Inl e, fw)"
  | (failed) st e w' where "map_of (fst fw) pid = Some st" "body st (snd fw) = (Inl e, w')" "onState pid body fw = (Inl e, fst fw, w')"
  | (finished) st st' w' where "map_of (fst fw) pid = Some st" "body st (snd fw) = (Inr st', w')"
      "onState pid body fw = (Inr st', writeState st' (fst fw), w')"
proof (cases "map_of (fst fw) pid")
  case None
  then show ?thesis using missing by (cases fw) (simp add: onState_def readState_def)
next
  case (Some st)
  obtain r w' where b: "body st (snd fw) = (r, w')" by fastforce
  show ?thesis
    using Some b failed finished by (cases fw; cases r) (simp_all add: onState_def readState_def)
qed

lemma onState_inv:
  assumes "files_inv (fst fw)"
    and "\<And>st w st' w'. full_inv st \<Longrightarrow> body st w = (Inr st', w') \<Longrightarrow> full_inv st' \<and> fs_parentSessionId st' = fs_parentSessionId st"
  shows "files_inv (fst (snd (onState pid body fw)))"
proof (cases rule: onState_cases [of pid body fw])
  case (finished st st' w')
  have "full_inv st" using assms(1) finished(1) by (simp add: files_inv_def)
  then show ?thesis using writeState_inv [OF assms(1)] assms(2) finished by simp
qed (use assms(1) in simp_all)

lemma start_inv:
  assumes "files_inv (fst fw)"
  shows "files_inv (fst (snd (startFullWorkflow E scout lossy root objective m fw)))"
proof -
  have "full_inv st" if "fs_currentStage st = FsProduct" "fs_currentOwner st = ProductLead" "fs_status st = FullRunning"
    "fs_childSessions st = []" "fs_artifacts st = []" for st
    using that by (simp add: full_inv_def stage_ok_def tasks_ok_def)
  then show ?thesis
    using assms unfolding startFullWorkflow_def Let_def
    by (auto split: prod.split sum.split intro!: writeState_inv simp: bind_Inr may_run_def
        dest!: runRoleTask_inv recordAudit_inv(1) split: if_splits)
qed

lemma full_step_inv: "full_step E scout lossy fw fw' \<Longrightarrow> files_inv (fst fw) \<Longrightarrow> files_inv (fst fw')"
proof (induction rule: full_step.induct)
  case (support fw pid role stage)
  have "may_run (support_role_of role) s" for s by (cases role) (simp_all add: may_run_def)
  then show ?case
    unfolding runFullWorkflowSupportRole_def using runRoleTask_inv by (intro onState_inv [OF support]) blast
qed (auto simp: advanceFullWorkflow_def rerouteFullWorkflow_def blockFullWorkflow_def closeFullWorkflow_def
    intro!: onState_inv start_inv dest: bodies_inv)

lemma reachable_inv: "(full_step E scout lossy)\<^sup>*\<^sup>* ([], w0) fw \<Longrightarrow> files_inv (fst fw)"
  by (induction rule: rtranclp_induct) (auto simp: files_inv_def [of "[]"] intro: full_step_inv)

end
