(* ===== verification/FullProgress.thy ===== *)
theory FullProgress
  imports FullWorkflow
begin

text \<open>
  What the operations of the full workflow achieve: that they return when the ids they draw are unused,
  the refinement of a two-field specification of the workflow, the way through all gates, and the rows a
  rejection leaves behind.
\<close>

section \<open>Operations that return\<close>

text \<open>The parent session has its row and the ids of the next events are unused.\<close>

definition live :: "entropy \<Rightarrow> string \<Rightarrow> world \<Rightarrow> bool" where
  "live E pid w \<longleftrightarrow> sessionExists pid w \<and> inj (rnd E)
     \<and> (\<forall>n \<ge> seq w. newId E ''session-runtime-event'' n \<notin> re_id ` set (t_events w))"

lemma live_seq [simp]: "live E pid w \<Longrightarrow> live E pid (w\<lparr>seq := seq w + k\<rparr>)"
  by (simp add: live_def sessionExists_def)

lemma events_save_live:
  assumes "live E pid w"
  shows "\<exists>e w'. events_save E pid ty j (Some t) w = (Inr e, w') \<and> live E pid w'"
proof -
  have new: "newId E ''session-runtime-event'' (seq w) \<notin> re_id ` set (t_events w)" using assms by (simp add: live_def)
  have "newId E ''session-runtime-event'' n \<noteq> newId E ''session-runtime-event'' (seq w)" if "Suc (seq w) \<le> n" for n
    using assms that by (simp add: live_def newId_def inj_eq)
  then show ?thesis
    using assms new by (auto simp: events_save_def run_simps events_insert_def sessionExists_def live_def)
qed

lemma recordAudit_live:
  assumes "live E (fs_parentSessionId st) w"
  shows "\<exists>st' w'. recordAudit E st ty role stage w = (Inr st', w') \<and> live E (fs_parentSessionId st) w'
    \<and> core st' = core st \<and> fs_childSessions st' = fs_childSessions st \<and> same_rows w w'"
proof -
  let ?r = "\<lparr>au_id = newId E ''audit'' (seq w), au_eventType = ty, au_role = role, au_stage = stage, au_createdAt = clk E (seq w + 1)\<rparr>"
  obtain e w' where "events_save E (fs_parentSessionId st) ty (audit_json ?r) (Some (clk E (seq w + 1))) (w\<lparr>seq := seq w + 2\<rparr>) = (Inr e, w')"
    "live E (fs_parentSessionId st) w'" using events_save_live [OF live_seq [OF assms, of 2]] by blast
  then have *: "recordAudit E st ty role stage w = (Inr (st\<lparr>fs_audit := fs_audit st @ [?r]\<rparr>), w')" "live E (fs_parentSessionId st) w'"
    by (simp_all add: recordAudit_def Let_def run_simps bind_ok return_dh_def)
  with recordAudit_Inr [OF *(1)] show ?thesis by (auto simp: core_def)
qed

lemma runRoleTask_live:
  assumes "live E (fs_parentSessionId st) w" and "role \<noteq> ContextScout"
  shows "\<exists>st' w'. runRoleTask E scout lossy role stage st w = (Inr st', w') \<and> live E (fs_parentSessionId st) w'
    \<and> core st' = core st \<and> map ch_role (fs_childSessions st') = map ch_role (fs_childSessions st) @ [role] \<and> same_rows w w'"
proof -
  obtain k where k: "roleContract role w = (Inr k, w)" using roleContract_eval by blast
  let ?c = "\<lparr>ch_id = newId E ''child-session'' (seq w), ch_role = role, ch_stage = stage, ch_status = ChRunning,
      ch_permission = rc_permission k, ch_summary = None\<rparr>"
  let ?st1 = "st\<lparr>fs_childSessions := fs_childSessions st @ [?c]\<rparr>"
  obtain st2 w2 where r2: "recordAudit E ?st1 ''full.role.started'' role stage (w\<lparr>seq := seq w + 1\<rparr>) = (Inr st2, w2)"
    and l2: "live E (fs_parentSessionId st) w2" and c2: "core st2 = core ?st1"
    using recordAudit_live [of E ?st1] live_seq [OF assms(1), of 1] by fastforce
  let ?sm = "runSubagentTask lossy (full_role_name role) (full_stage_name stage @ '': '' @ fs_objective st2) 2000"
  let ?st5 = "st2\<lparr>fs_childSessions := fs_childSessions st @ [?c\<lparr>ch_status := ChComplete, ch_summary := Some ?sm\<rparr>],
     fs_artifacts := fs_artifacts st2 @ [\<lparr>fa_id = newId E ''artifact'' (seq w2), fa_type = ''role_output'', fa_role = role,
       fa_stage = stage, fa_summary = ?sm, fa_evidenceRefs = fs_evidenceLedgerRefs st2, fa_createdAt = clk E (seq w2 + 1)\<rparr>]\<rparr>"
  have p: "fs_parentSessionId ?st5 = fs_parentSessionId st" using coreD(1) [OF c2] by simp
  obtain st6 w6 where r6: "recordAudit E ?st5 ''full.role.finished'' role stage (w2\<lparr>seq := seq w2 + 2\<rparr>) = (Inr st6, w6)"
    and l6: "live E (fs_parentSessionId st) w6"
    using recordAudit_live [of E ?st5 "w2\<lparr>seq := seq w2 + 2\<rparr>"] live_seq [OF l2, of 2] unfolding p by blast
  have run: "runRoleTask E scout lossy role stage st w = (Inr (st6\<lparr>fs_updatedAt := clk E (seq w6)\<rparr>), w6\<lparr>seq := seq w6 + 1\<rparr>)"
    unfolding runRoleTask_def Let_def using r2 r6 assms(2) by (simp add: bind_ok [of "roleContract role", OF k] run_simps bind_ok return_dh_def)
  show ?thesis using run runRoleTask_Inr [OF run] live_seq [OF l6, of 1] by (auto simp: finished_task_def)
qed

lemma persist_live:
  "\<exists>w'. persistParentSession root st w = (Inr (), w') \<and> sessions_findById (fs_parentSessionId st) w' = Some (full_session root st)
     \<and> row_find wr_sessionId (fs_parentSessionId st) (t_workflow w') = Some (workflow_row_typed (fs_parentSessionId st) (full_workflow st))
     \<and> (inj (rnd E) \<and> (\<forall>n \<ge> seq w. newId E ''session-runtime-event'' n \<notin> re_id ` set (t_events w)) \<longrightarrow> live E (fs_parentSessionId st) w')"
  by (auto simp: persistParentSession_def sessions_save_def write_dh_def bind_dh_def workflow_save_def workflow_row_json
      sessionExists_def sessions_findById_def full_session_def row_find_upsert workflow_row_typed_def live_def)

lemma persisted:
  assumes "live E (fs_parentSessionId st) w"
  shows "\<exists>w'. bind_dh (persistParentSession root st) (\<lambda>_. return_dh st) w = (Inr st, w') \<and> live E (fs_parentSessionId st) w'
    \<and> sessions_findById (fs_parentSessionId st) w' = Some (full_session root st)"
proof -
  obtain w' where w': "persistParentSession root st w = (Inr (), w')" "sessions_findById (fs_parentSessionId st) w' = Some (full_session root st)"
    "live E (fs_parentSessionId st) w'"
    using persist_live [of root st w E] assms by (auto simp: live_def)
  show ?thesis using w' by (simp add: bind_ok [of "persistParentSession root st", OF w'(1)] return_dh_def)
qed

lemma audited_returns:
  assumes "live E pid w" and "fs_parentSessionId st = pid"
  shows "\<exists>st' w'. bind_dh (recordAudit E st ty role stage) (\<lambda>st2. bind_dh (persistParentSession root st2) (\<lambda>_. return_dh st2)) w = (Inr st', w')"
proof -
  obtain st2 w2 where r: "recordAudit E st ty role stage w = (Inr st2, w2)" "live E (fs_parentSessionId st) w2" "core st2 = core st"
    using recordAudit_live assms by blast
  then have "live E (fs_parentSessionId st2) w2" using coreD(1) [OF r(3)] by simp
  from persisted [OF this, of root] show ?thesis
    by (auto simp: bind_ok [of "recordAudit E st ty role stage", OF r(1)])
qed

abbreviation settled :: "full_stage \<Rightarrow> full_status" where
  "settled s \<equiv> if s = FsDone then FullComplete else FullRunning"

lemma gate_cases:
  obtains gate where "List.find (\<lambda>x. gt_id x = g) FULL_WORKFLOW_APPROVAL_GATES = Some gate"
  by (cases g) (auto simp: FULL_WORKFLOW_APPROVAL_GATES_def)

lemma ownerForStage_not_scout: "ownerForStage s \<noteq> ContextScout"
  by (cases s) simp_all

lemma approve_eq:
  assumes "List.find (\<lambda>x. gt_id x = g) FULL_WORKFLOW_APPROVAL_GATES = Some gate" and "gt_fromStage gate = fs_currentStage st"
  shows "advanceBody E scout lossy root g Approve reason st w =
    bind_dh (recordAudit E (st\<lparr>fs_approvals := fs_approvals st @ [\<lparr>ap_gateId = g, ap_decision = Approve, ap_reason = reason, ap_createdAt = clk E (seq w)\<rparr>],
        fs_currentStage := gt_toStage gate, fs_currentOwner := ownerForStage (gt_toStage gate), fs_status := settled (gt_toStage gate),
        fs_updatedAt := clk E (seq w)\<rparr>) ''full.gate.approved'' (ownerForStage (gt_toStage gate)) (gt_toStage gate)) (\<lambda>st3.
      bind_dh (if gt_toStage gate \<noteq> FsDone then runRoleTask E scout lossy (fs_currentOwner st3) (gt_toStage gate) st3 else return_dh st3) (\<lambda>st4.
      bind_dh (persistParentSession root st4) (\<lambda>_. return_dh st4))) (w\<lparr>seq := seq w + 1\<rparr>)"
  using assms by (simp add: advanceBody_def Let_def bind_nowIso)

lemma reject_eq:
  assumes "List.find (\<lambda>x. gt_id x = g) FULL_WORKFLOW_APPROVAL_GATES = Some gate" and "gt_fromStage gate = fs_currentStage st"
  shows "advanceBody E scout lossy root g Reject reason st w =
    recordAudit E (st\<lparr>fs_approvals := fs_approvals st @ [\<lparr>ap_gateId = g, ap_decision = Reject, ap_reason = reason, ap_createdAt = clk E (seq w)\<rparr>],
        fs_status := FullBlocked, fs_updatedAt := clk E (seq w)\<rparr>) ''full.gate.rejected'' (fs_currentOwner st) (fs_currentStage st)
      (w\<lparr>seq := seq w + 1\<rparr>)"
  using assms by (simp add: advanceBody_def Let_def bind_nowIso)

lemma approve_live:
  assumes "live E (fs_parentSessionId st) w" and "List.find (\<lambda>x. gt_id x = g) FULL_WORKFLOW_APPROVAL_GATES = Some gate"
    and "gt_fromStage gate = fs_currentStage st"
  shows "\<exists>st' w'. advanceBody E scout lossy root g Approve reason st w = (Inr st', w') \<and> live E (fs_parentSessionId st) w'
    \<and> fs_parentSessionId st' = fs_parentSessionId st \<and> fs_currentStage st' = gt_toStage gate \<and> fs_status st' = settled (gt_toStage gate)
    \<and> map ch_role (fs_childSessions st') = map ch_role (fs_childSessions st) @ (if gt_toStage gate = FsDone then [] else [ownerForStage (gt_toStage gate)])
    \<and> sessions_findById (fs_parentSessionId st) w' = Some (full_session root st')"
proof -
  let ?to = "gt_toStage gate"
  let ?st2 = "st\<lparr>fs_approvals := fs_approvals st @ [\<lparr>ap_gateId = g, ap_decision = Approve, ap_reason = reason, ap_createdAt = clk E (seq w)\<rparr>],
      fs_currentStage := ?to, fs_currentOwner := ownerForStage ?to, fs_status := settled ?to, fs_updatedAt := clk E (seq w)\<rparr>"
  have l: "live E (fs_parentSessionId ?st2) (w\<lparr>seq := seq w + 1\<rparr>)" using live_seq [OF assms(1), of 1] by simp
  obtain st3 w3 where r3: "recordAudit E ?st2 ''full.gate.approved'' (ownerForStage ?to) ?to (w\<lparr>seq := seq w + 1\<rparr>) = (Inr st3, w3)"
    and l3: "live E (fs_parentSessionId ?st2) w3" and c3: "core st3 = core ?st2" "fs_childSessions st3 = fs_childSessions ?st2"
    using recordAudit_live [OF l] by blast
  have e3: "fs_parentSessionId st3 = fs_parentSessionId st" "fs_currentOwner st3 = ownerForStage ?to" using coreD [OF c3(1)] by simp_all
  obtain st4 w4 where r4: "(if ?to \<noteq> FsDone then runRoleTask E scout lossy (fs_currentOwner st3) ?to st3 else return_dh st3) w3 = (Inr st4, w4)"
    and l4: "live E (fs_parentSessionId st3) w4" and c4: "core st4 = core st3"
    and ch4: "map ch_role (fs_childSessions st4) = map ch_role (fs_childSessions st3) @ (if ?to = FsDone then [] else [ownerForStage ?to])"
  proof (cases "?to = FsDone")
    case False
    have "live E (fs_parentSessionId st3) w3" "fs_currentOwner st3 \<noteq> ContextScout"
      using l3 e3 ownerForStage_not_scout by simp_all
    from runRoleTask_live [OF this, of scout lossy ?to] obtain st4 w4 where
      "runRoleTask E scout lossy (fs_currentOwner st3) ?to st3 w3 = (Inr st4, w4)" "live E (fs_parentSessionId st3) w4" "core st4 = core st3"
      "map ch_role (fs_childSessions st4) = map ch_role (fs_childSessions st3) @ [fs_currentOwner st3]" by blast
    then show thesis using that [of st4 w4] False e3(2) by simp
  qed (use that l3 e3 in simp)
  have e4: "fs_parentSessionId st4 = fs_parentSessionId st" "fs_currentStage st4 = ?to" "fs_status st4 = settled ?to"
    using coreD [OF c4] coreD [OF c3(1)] by simp_all
  have "live E (fs_parentSessionId st4) w4" using l4 e3 e4 by simp
  from persisted [OF this] obtain w' where w': "bind_dh (persistParentSession root st4) (\<lambda>_. return_dh st4) w4 = (Inr st4, w')"
    "live E (fs_parentSessionId st4) w'" "sessions_findById (fs_parentSessionId st4) w' = Some (full_session root st4)" by blast
  have "advanceBody E scout lossy root g Approve reason st w = (Inr st4, w')"
    unfolding approve_eq [OF assms(2,3)] bind_ok [of "recordAudit E ?st2 ''full.gate.approved'' (ownerForStage ?to) ?to", OF r3]
      bind_ok [of "if ?to \<noteq> FsDone then runRoleTask E scout lossy (fs_currentOwner st3) ?to st3 else return_dh st3", OF r4]
    by (rule w'(1))
  then show ?thesis using w' e4 ch4 c3(2) by auto
qed

section \<open>The specification the operations refine\<close>

text \<open>A workflow as its stage and status; what a command makes of them, or None where it is refused.\<close>

datatype full_command =
    CmdAdvance full_gate_id approval_decision "string option"
  | CmdReroute string full_stage
  | CmdBlock string
  | CmdSupport support_role "full_stage option"
  | CmdClose

fun gate_ends :: "full_gate_id \<Rightarrow> full_stage \<times> full_stage" where
  "gate_ends ProductToSolution = (FsProduct, FsSolution)"
| "gate_ends SolutionToFullstack = (FsSolution, FsImplementation)"
| "gate_ends FullstackToCodeReview = (FsImplementation, FsCodeReview)"
| "gate_ends CodeReviewToQa = (FsCodeReview, FsQa)"
| "gate_ends QaToDone = (FsQa, FsDone)"

fun full_spec :: "full_command \<Rightarrow> full_stage \<times> full_status \<Rightarrow> (full_stage \<times> full_status) option" where
  "full_spec (CmdAdvance g Approve r) (s, t) =
     (if s = fst (gate_ends g) then Some (snd (gate_ends g), settled (snd (gate_ends g))) else None)"
| "full_spec (CmdAdvance g Reject r) (s, t) = (if s = fst (gate_ends g) then Some (s, FullBlocked) else None)"
| "full_spec (CmdReroute f target) (s, t) = Some (target, settled target)"
| "full_spec (CmdBlock r) (s, t) = Some (s, FullBlocked)"
| "full_spec (CmdSupport role stage) (s, t) = Some (s, t)"
| "full_spec CmdClose (s, t) = Some (FsDone, FullComplete)"

abbreviation stage_and_status :: "full_state \<Rightarrow> full_stage \<times> full_status" where
  "stage_and_status st \<equiv> (fs_currentStage st, fs_status st)"

fun run_command ::
  "entropy \<Rightarrow> (string \<Rightarrow> string + string) \<Rightarrow> (buffer \<Rightarrow> string) \<Rightarrow> string \<Rightarrow> string \<Rightarrow> full_command
   \<Rightarrow> full_files \<times> world \<Rightarrow> (dh_error + full_state) \<times> full_files \<times> world" where
  "run_command E scout lossy root pid (CmdAdvance g d r) = advanceFullWorkflow E scout lossy root pid g d r"
| "run_command E scout lossy root pid (CmdReroute f target) = rerouteFullWorkflow E root pid f target"
| "run_command E scout lossy root pid (CmdBlock r) = blockFullWorkflow E root pid r"
| "run_command E scout lossy root pid (CmdSupport role stage) = runFullWorkflowSupportRole E scout lossy pid role stage"
| "run_command E scout lossy root pid CmdClose = closeFullWorkflow E root pid"

fun command_body ::
  "entropy \<Rightarrow> (string \<Rightarrow> string + string) \<Rightarrow> (buffer \<Rightarrow> string) \<Rightarrow> string \<Rightarrow> full_command \<Rightarrow> full_state \<Rightarrow> full_state dh" where
  "command_body E scout lossy root (CmdAdvance g d r) = advanceBody E scout lossy root g d r"
| "command_body E scout lossy root (CmdReroute f target) = rerouteBody E root f target"
| "command_body E scout lossy root (CmdBlock r) = blockBody E root r"
| "command_body E scout lossy root (CmdSupport role stage) =
     (\<lambda>st. runRoleTask E scout lossy (support_role_of role) (nullish stage (fs_currentStage st)) st)"
| "command_body E scout lossy root CmdClose = closeBody E root"

lemma run_command_onState: "run_command E scout lossy root pid c = onState pid (command_body E scout lossy root c)"
  by (cases c) (simp_all add: advanceFullWorkflow_def rerouteFullWorkflow_def blockFullWorkflow_def
      runFullWorkflowSupportRole_def closeFullWorkflow_def fun_eq_iff)

lemma gate_table:
  "List.find (\<lambda>x. gt_id x = g) FULL_WORKFLOW_APPROVAL_GATES = Some (gate_row g (fst (gate_ends g)) (snd (gate_ends g)))"
  by (cases g) (simp_all add: FULL_WORKFLOW_APPROVAL_GATES_def)

lemma advance_refused: "fs_currentStage st \<noteq> fst (gate_ends g) \<Longrightarrow> \<exists>e. advanceBody E scout lossy root g d r st w = (Inl e, w)"
  using gate_table [of g] by (auto simp: advanceBody_def throw_dh_def)

lemma audited_core:
  assumes "bind_dh (recordAudit E st ty role stage) (\<lambda>st2. bind_dh (persistParentSession root st2) (\<lambda>_. return_dh st2)) w = (Inr st', w')"
  shows "core st' = core st"
proof -
  obtain w1 where "recordAudit E st ty role stage w = (Inr st', w1)" using assms by (auto simp: bind_Inr)
  then show ?thesis by (rule recordAudit_inv(6))
qed

lemma advance_spec:
  assumes "advanceBody E scout lossy root g d r st w = (Inr st', w')"
  shows "full_spec (CmdAdvance g d r) (stage_and_status st) = Some (stage_and_status st') \<and> fs_parentSessionId st' = fs_parentSessionId st"
proof -
  let ?gate = "gate_row g (fst (gate_ends g)) (snd (gate_ends g))"
  have at_gate: "gt_fromStage ?gate = fs_currentStage st" using advance_refused [of st g E scout lossy root d r w] assms by (cases "fs_currentStage st = fst (gate_ends g)") auto
  show ?thesis
  proof (cases d)
    case Reject
    with assms have "recordAudit E (st\<lparr>fs_approvals := fs_approvals st @ [\<lparr>ap_gateId = g, ap_decision = Reject, ap_reason = r, ap_createdAt = clk E (seq w)\<rparr>],
        fs_status := FullBlocked, fs_updatedAt := clk E (seq w)\<rparr>) ''full.gate.rejected'' (fs_currentOwner st) (fs_currentStage st)
      (w\<lparr>seq := seq w + 1\<rparr>) = (Inr st', w')" using reject_eq [OF gate_table at_gate] by simp
    from recordAudit_inv [OF this] show ?thesis using at_gate Reject by simp
  next
    case Approve
    obtain st3 w3 w4 where
      r3: "recordAudit E (st\<lparr>fs_approvals := fs_approvals st @ [\<lparr>ap_gateId = g, ap_decision = Approve, ap_reason = r, ap_createdAt = clk E (seq w)\<rparr>],
        fs_currentStage := gt_toStage ?gate, fs_currentOwner := ownerForStage (gt_toStage ?gate), fs_status := settled (gt_toStage ?gate),
        fs_updatedAt := clk E (seq w)\<rparr>) ''full.gate.approved'' (ownerForStage (gt_toStage ?gate)) (gt_toStage ?gate) (w\<lparr>seq := seq w + 1\<rparr>) = (Inr st3, w3)"
      and r4: "(if gt_toStage ?gate \<noteq> FsDone then runRoleTask E scout lossy (fs_currentOwner st3) (gt_toStage ?gate) st3 else return_dh st3) w3 = (Inr st', w4)"
      using assms unfolding Approve approve_eq [OF gate_table at_gate] bind_Inr by auto
    have "core st' = core st3"
      using r4 runRoleTask_Inr(1) [of E scout lossy "fs_currentOwner st3" "gt_toStage ?gate" st3 w3 st' w4] by (auto split: if_splits)
    from coreD [OF this] coreD [OF recordAudit_inv(6) [OF r3]] show ?thesis using at_gate Approve by simp
  qed
qed

lemma command_spec:
  assumes "command_body E scout lossy root c st w = (Inr st', w')"
  shows "full_spec c (stage_and_status st) = Some (stage_and_status st') \<and> fs_parentSessionId st' = fs_parentSessionId st"
proof (cases c)
  case (CmdAdvance g d r)
  then show ?thesis using advance_spec assms by simp
next
  case (CmdReroute f target)
  from coreD [OF audited_core [OF assms [unfolded this command_body.simps rerouteBody_eq]]] CmdReroute show ?thesis by simp
next
  case (CmdBlock r)
  from coreD [OF audited_core [OF assms [unfolded this command_body.simps blockBody_eq]]] CmdBlock show ?thesis by simp
next
  case (CmdSupport role stage)
  from coreD [OF runRoleTask_Inr(1) [OF assms [unfolded this command_body.simps]]] CmdSupport show ?thesis by simp
next
  case CmdClose
  from coreD [OF audited_core [OF assms [unfolded this command_body.simps closeBody_eq]]] CmdClose show ?thesis by simp
qed

lemma command_returns:
  assumes "live E (fs_parentSessionId st) w" and "\<And>stage. c \<noteq> CmdSupport SupportScout stage" and "full_spec c (stage_and_status st) \<noteq> None"
  shows "\<exists>st' w'. command_body E scout lossy root c st w = (Inr st', w')"
proof (cases c)
  case (CmdAdvance g d r)
  let ?gate = "gate_row g (fst (gate_ends g)) (snd (gate_ends g))"
  have at_gate: "gt_fromStage ?gate = fs_currentStage st" using assms(3) CmdAdvance by (cases d) (auto split: if_splits)
  show ?thesis
  proof (cases d)
    case Approve
    then show ?thesis using CmdAdvance approve_live [OF assms(1) gate_table at_gate, of scout lossy root r] by auto
  next
    case Reject
    have "live E (fs_parentSessionId (st\<lparr>fs_approvals := fs_approvals st @ [\<lparr>ap_gateId = g, ap_decision = Reject, ap_reason = r, ap_createdAt = clk E (seq w)\<rparr>],
        fs_status := FullBlocked, fs_updatedAt := clk E (seq w)\<rparr>)) (w\<lparr>seq := seq w + 1\<rparr>)" using live_seq [OF assms(1), of 1] by simp
    from recordAudit_live [OF this] show ?thesis using Reject CmdAdvance reject_eq [OF gate_table at_gate] by simp blast
  qed
next
  case (CmdSupport role stage)
  with assms(2) have "role = SupportSummarizer" by (cases role) auto
  then show ?thesis using runRoleTask_live [OF assms(1), of Summarizer] CmdSupport by fastforce
next
  case (CmdReroute f target)
  show ?thesis
    unfolding CmdReroute command_body.simps rerouteBody_eq
    using live_seq [OF assms(1), of 2] by (rule audited_returns) simp
next
  case (CmdBlock r)
  show ?thesis
    unfolding CmdBlock command_body.simps blockBody_eq
    using live_seq [OF assms(1), of 2] by (rule audited_returns) simp
next
  case CmdClose
  show ?thesis
    unfolding CmdClose command_body.simps closeBody_eq
    using live_seq [OF assms(1), of 1] by (rule audited_returns) simp
qed

lemma onState_spec:
  assumes "map_of files pid = Some st" and "fs_parentSessionId st = pid"
    and "\<And>st' w'. body st w = (Inr st', w') \<Longrightarrow> P st' \<and> fs_parentSessionId st' = fs_parentSessionId st"
  shows "case onState pid body (files, w) of
      (Inl e, files', w') \<Rightarrow> files' = files
    | (Inr st', files', w') \<Rightarrow> P st' \<and> map_of files' = (map_of files)(pid \<mapsto> st')"
  using assms by (cases rule: onState_cases [of pid body "(files, w)"]) (auto simp: writeState_def update_conv')

section \<open>All the way through the gates\<close>

lemma start_live:
  assumes "fresh_ids E w" and "js_trim objective \<noteq> []"
  shows "\<exists>st w'. startFullWorkflow E scout lossy root objective m (files, w) = (Inr st, writeState st files, w')
    \<and> fs_parentSessionId st = newId E ''session'' (seq w + 1) \<and> live E (newId E ''session'' (seq w + 1)) w'
    \<and> fs_currentStage st = FsProduct \<and> map ch_role (fs_childSessions st) = [ProductLead]"
proof -
  let ?pid = "newId E ''session'' (seq w + 1)"
  let ?st = "\<lparr>fs_parentSessionId = ?pid, fs_objective = js_trim objective, fs_currentStage = FsProduct,
      fs_currentOwner = ProductLead, fs_status = FullRunning, fs_childSessions = [], fs_approvals = [], fs_artifacts = [],
      fs_rerouteIssues = [], fs_evidenceLedgerRefs = [], fs_audit = [], fs_maxReadOnlyWorkers = nullish m 3, fs_singleWriteOwner = FullstackAgent,
      fs_createdAt = clk E (seq w), fs_updatedAt = clk E (seq w)\<rparr>"
  let ?w0 = "w\<lparr>seq := Suc (Suc (seq w))\<rparr>"
  have fresh: "inj (rnd E) \<and> (\<forall>n \<ge> seq ?w0. newId E ''session-runtime-event'' n \<notin> re_id ` set (t_events ?w0))"
    using assms(1) fresh_idsD(2) [OF assms(1)] by (simp add: fresh_ids_def)
  obtain w1 where r1: "persistParentSession root ?st ?w0 = (Inr (), w1)" "live E (fs_parentSessionId ?st) w1"
    using persist_live [of root ?st ?w0 E] fresh by blast
  obtain st2 w2 where r2: "recordAudit E ?st ''full.started'' MasterOrchestrator FsIntake w1 = (Inr st2, w2)"
      "live E (fs_parentSessionId ?st) w2" "core st2 = core ?st" "fs_childSessions st2 = fs_childSessions ?st"
    using recordAudit_live [OF r1(2)] by blast
  have l2: "live E (fs_parentSessionId st2) w2" using r2(2) coreD(1) [OF r2(3)] by simp
  obtain st3 w3 where r3: "runRoleTask E scout lossy ProductLead FsProduct st2 w2 = (Inr st3, w3)" "live E (fs_parentSessionId st2) w3"
      "core st3 = core st2" "map ch_role (fs_childSessions st3) = map ch_role (fs_childSessions st2) @ [ProductLead]"
    using runRoleTask_live [OF l2, of ProductLead] by blast
  have "startFullWorkflow E scout lossy root objective m (files, w) = (Inr st3, writeState st3 files, w3)"
    using assms(2) r1(1) r2(1) r3(1) by (simp add: startFullWorkflow_def Let_def run_simps bind_ok)
  then show ?thesis using r3 r2 coreD [OF r3(3)] coreD [OF r2(3)] by simp
qed

text \<open>A sequence of approvals on one workflow.\<close>

primrec approve_gates where
  "approve_gates E scout lossy root pid [] fw = fw"
| "approve_gates E scout lossy root pid (g # gs) fw =
     approve_gates E scout lossy root pid gs (snd (advanceFullWorkflow E scout lossy root pid g Approve None fw))"

definition at_stage :: "entropy \<Rightarrow> string \<Rightarrow> full_stage \<Rightarrow> full_role list \<Rightarrow> full_files \<times> world \<Rightarrow> bool" where
  "at_stage E pid s roles fw \<longleftrightarrow> live E pid (snd fw) \<and> (\<exists>st. map_of (fst fw) pid = Some st \<and> fs_parentSessionId st = pid
     \<and> fs_currentStage st = s \<and> map ch_role (fs_childSessions st) = roles)"

definition recorded :: "string \<Rightarrow> string \<Rightarrow> full_files \<times> world \<Rightarrow> bool" where
  "recorded root pid fw \<longleftrightarrow> (\<exists>st. map_of (fst fw) pid = Some st \<and> fs_status st = settled (fs_currentStage st)
     \<and> sessions_findById pid (snd fw) = Some (full_session root st))"

lemma approve_step:
  assumes "at_stage E pid (fst (gate_ends g)) roles fw"
  shows "at_stage E pid (snd (gate_ends g)) (roles @ (if snd (gate_ends g) = FsDone then [] else [ownerForStage (snd (gate_ends g))]))
      (snd (advanceFullWorkflow E scout lossy root pid g Approve r fw))"
    and "recorded root pid (snd (advanceFullWorkflow E scout lossy root pid g Approve r fw))"
proof -
  obtain files w where fw: "fw = (files, w)" by fastforce
  obtain st where st: "map_of files pid = Some st" "fs_parentSessionId st = pid" "fs_currentStage st = fst (gate_ends g)"
    "map ch_role (fs_childSessions st) = roles" and l: "live E (fs_parentSessionId st) w"
    using assms by (auto simp: at_stage_def fw)
  have at_gate: "gt_fromStage (gate_row g (fst (gate_ends g)) (snd (gate_ends g))) = fs_currentStage st" using st(3) by simp
  obtain st' w' where r: "advanceBody E scout lossy root g Approve r st w = (Inr st', w')" "live E pid w'" "fs_parentSessionId st' = pid"
    "fs_currentStage st' = snd (gate_ends g)" "fs_status st' = settled (snd (gate_ends g))"
    "map ch_role (fs_childSessions st') = roles @ (if snd (gate_ends g) = FsDone then [] else [ownerForStage (snd (gate_ends g))])"
    "sessions_findById pid w' = Some (full_session root st')"
    using approve_live [OF l gate_table at_gate, of scout lossy root r] st by auto
  have "advanceFullWorkflow E scout lossy root pid g Approve r fw = (Inr st', writeState st' files, w')"
    using st(1) r(1) by (simp add: advanceFullWorkflow_def onState_def readState_def fw)
  then show "at_stage E pid (snd (gate_ends g)) (roles @ (if snd (gate_ends g) = FsDone then [] else [ownerForStage (snd (gate_ends g))]))
      (snd (advanceFullWorkflow E scout lossy root pid g Approve r fw))"
    and "recorded root pid (snd (advanceFullWorkflow E scout lossy root pid g Approve r fw))"
    using r by (auto simp: at_stage_def recorded_def writeState_def update_conv')
qed

lemma approve_all:
  assumes "at_stage E pid FsProduct [ProductLead] fw"
  shows "let fw' = approve_gates E scout lossy root pid
      [ProductToSolution, SolutionToFullstack, FullstackToCodeReview, CodeReviewToQa, QaToDone] fw in
    at_stage E pid FsDone [ProductLead, SolutionLead, FullstackAgent, CodeReviewer, QaAgent] fw' \<and> recorded root pid fw'"
proof -
  note s = approve_step(1) [where scout = scout and lossy = lossy and root = root and r = None]
  note s1 = s [where g = ProductToSolution, simplified, OF assms]
  note s2 = s [where g = SolutionToFullstack, simplified, OF s1, simplified]
  note s3 = s [where g = FullstackToCodeReview, simplified, OF s2, simplified]
  note s4 = s [where g = CodeReviewToQa, simplified, OF s3, simplified]
  note s5 = approve_step [where g = QaToDone and scout = scout and lossy = lossy and root = root and r = None, simplified, OF s4, simplified]
  from s5 show ?thesis by (simp add: Let_def)
qed

section \<open>Properties\<close>

text \<open>
  C12. Whatever sequence of operations ran, failed ones included, every state file holds a consistent
  workflow: it names its own parent session, its owner is the owner of its stage, it is complete only in
  the last stage and not running there, and each child session is complete with the summary of the artifact
  recorded for it, which names the same role and stage.
\<close>

theorem full_workflow_files_consistent:
  assumes "(full_step E scout lossy)\<^sup>*\<^sup>* ([], w0) (files, w)" and "map_of files pid = Some st"
  shows "fs_parentSessionId st = pid \<and> fs_currentOwner st = ownerForStage (fs_currentStage st)
    \<and> (fs_status st = FullComplete \<longrightarrow> fs_currentStage st = FsDone)
    \<and> (fs_currentStage st = FsDone \<longrightarrow> fs_status st \<noteq> FullRunning)
    \<and> list_all2 (\<lambda>c a. ch_status c = ChComplete \<and> ch_summary c = Some (fa_summary a)
          \<and> fa_role a = ch_role c \<and> fa_stage a = ch_stage c)
        (fs_childSessions st) (fs_artifacts st)"
  using reachable_inv [OF assms(1)] assms(2)
  by (auto simp: files_inv_def full_inv_def stage_ok_def tasks_ok_def finished_task_def elim!: list_all2_mono)

text \<open>
  C13. Of all the child sessions the operations ever create, only the fullstack agent in the implementation
  stage holds the write permission, and only the QA agent in the QA stage the bounded shell.
\<close>

theorem write_permission_only_in_implementation:
  assumes "(full_step E scout lossy)\<^sup>*\<^sup>* ([], w0) (files, w)" and "map_of files pid = Some st"
    and "c \<in> set (fs_childSessions st)"
  shows "(ch_permission c = PermWriteWithPermission \<longrightarrow> ch_role c = FullstackAgent \<and> ch_stage c = FsImplementation)
    \<and> (ch_permission c = PermBoundedShell \<longrightarrow> ch_role c = QaAgent \<and> ch_stage c = FsQa)"
proof -
  have "tasks_ok st" using reachable_inv [OF assms(1)] assms(2) by (auto simp: files_inv_def full_inv_def)
  then obtain a where "may_run (ch_role c) (ch_stage c)" "finished_task (ch_role c) (ch_stage c) c a"
    using assms(3) by (auto simp: tasks_ok_def list_all2_conv_all_nth in_set_conv_nth)
  then show ?thesis
    by (cases "ch_stage c") (auto simp: may_run_def finished_task_def role_permission_def split: full_role.splits)
qed


text \<open>
  C5. Every command on a stored workflow does to its stage and status what the specification says: a
  refused or failed command leaves all state files as they were; one that returns writes the file of its
  own workflow and no other, with the specified stage and status. When the parent session has its row and
  the ids drawn for events are unused, a command (other than the context scout's, which runs an inspection
  that may fail) returns exactly when the specification allows it.
\<close>

theorem full_commands_refine_spec:
  assumes "map_of files pid = Some st" and "fs_parentSessionId st = pid"
  shows "case run_command E scout lossy root pid c (files, w) of
      (Inl e, files', w') \<Rightarrow> files' = files
        \<and> (live E pid w \<longrightarrow> full_spec c (stage_and_status st) = None \<or> (\<exists>stage. c = CmdSupport SupportScout stage))
    | (Inr st', files', w') \<Rightarrow> full_spec c (stage_and_status st) = Some (stage_and_status st')
        \<and> map_of files' = (map_of files)(pid \<mapsto> st')"
proof -
  let ?body = "command_body E scout lossy root c"
  have spec: "case onState pid ?body (files, w) of
      (Inl e, files', w') \<Rightarrow> files' = files
    | (Inr st', files', w') \<Rightarrow> full_spec c (stage_and_status st) = Some (stage_and_status st') \<and> map_of files' = (map_of files)(pid \<mapsto> st')"
    by (rule onState_spec [OF assms]) (rule command_spec)
  have "full_spec c (stage_and_status st) = None \<or> (\<exists>stage. c = CmdSupport SupportScout stage)"
    if failed: "onState pid ?body (files, w) = (Inl e, fw')" and live: "live E pid w" for e fw'
  proof (rule ccontr)
    assume "\<not> ?thesis"
    then obtain st' w' where "?body st w = (Inr st', w')"
      using command_returns [of E st w c scout lossy root] live assms(2) by blast
    then show False using failed assms(1) by (simp add: onState_def readState_def)
  qed
  with spec show ?thesis unfolding run_command_onState by (auto split: prod.splits sum.splits)
qed

text \<open>
  C14. Progress: a workflow started with a non-blank objective reaches the end by five approvals in the
  order of the gates. The start and every approval return, the five stage owners have run one task each, in
  order, and at the end the state file and the row of the parent session both say complete.
\<close>

theorem approvals_complete_workflow:
  assumes "fresh_ids E w" and "js_trim objective \<noteq> []"
  shows "\<exists>st0 fw0 st files w'. startFullWorkflow E scout lossy root objective m (files0, w) = (Inr st0, fw0)
    \<and> approve_gates E scout lossy root (fs_parentSessionId st0)
        [ProductToSolution, SolutionToFullstack, FullstackToCodeReview, CodeReviewToQa, QaToDone] fw0 = (files, w')
    \<and> map_of files (fs_parentSessionId st0) = Some st \<and> fs_currentStage st = FsDone \<and> fs_status st = FullComplete
    \<and> map ch_role (fs_childSessions st) = [ProductLead, SolutionLead, FullstackAgent, CodeReviewer, QaAgent]
    \<and> sessions_findById (fs_parentSessionId st0) w' = Some (full_session root st)
    \<and> ss_status (full_session root st) = SsComplete"
proof -
  obtain st0 w0 where s: "startFullWorkflow E scout lossy root objective m (files0, w) = (Inr st0, writeState st0 files0, w0)"
    "at_stage E (fs_parentSessionId st0) FsProduct [ProductLead] (writeState st0 files0, w0)"
    using start_live [OF assms, of scout lossy root m files0] by (auto simp: at_stage_def writeState_def update_conv')
  obtain files w' where fw: "approve_gates E scout lossy root (fs_parentSessionId st0)
      [ProductToSolution, SolutionToFullstack, FullstackToCodeReview, CodeReviewToQa, QaToDone] (writeState st0 files0, w0) = (files, w')"
    by fastforce
  show ?thesis
    using approve_all [OF s(2), of scout lossy root, unfolded fw Let_def] s(1) fw
    by (auto simp: at_stage_def recorded_def full_session_def)
qed

text \<open>
  A rejected gate is not carried to the database. The state file says blocked, but the rows of the
  parent session and of its workflow stay as they were before, so a session that was in progress is still
  listed as in progress; \<^verbatim>\<open>blockFullWorkflow\<close> writes the same status to both.
\<close>

theorem rejected_gate_leaves_session_row:
  assumes "map_of files pid = Some st" and "fs_parentSessionId st = pid" and "live E pid w"
    and "fs_currentStage st = fst (gate_ends g)"
  shows "\<exists>st' w'. advanceFullWorkflow E scout lossy root pid g Reject reason (files, w) = (Inr st', writeState st' files, w')
    \<and> fs_status st' = FullBlocked \<and> t_sessions w' = t_sessions w \<and> t_workflow w' = t_workflow w"
proof -
  have at_gate: "gt_fromStage (gate_row g (fst (gate_ends g)) (snd (gate_ends g))) = fs_currentStage st" using assms(4) by simp
  let ?st = "st\<lparr>fs_approvals := fs_approvals st @ [\<lparr>ap_gateId = g, ap_decision = Reject, ap_reason = reason, ap_createdAt = clk E (seq w)\<rparr>],
        fs_status := FullBlocked, fs_updatedAt := clk E (seq w)\<rparr>"
  have "live E (fs_parentSessionId ?st) (w\<lparr>seq := seq w + 1\<rparr>)" using live_seq [OF assms(3), of 1] assms(2) by simp
  from recordAudit_live [OF this, of "''full.gate.rejected''" "fs_currentOwner st" "fs_currentStage st"] obtain st' w' where
    r: "advanceBody E scout lossy root g Reject reason st w = (Inr st', w')" "core st' = core ?st" "same_rows w w'"
    unfolding reject_eq [OF gate_table at_gate] by (auto simp: same_rows_def)
  show ?thesis
    using r(1,3) coreD(5) [OF r(2)] assms(1) by (simp add: advanceFullWorkflow_def onState_def readState_def same_rows_def)
qed

section \<open>Witnesses\<close>

definition sample_scout :: "string \<Rightarrow> string + string" where
  "sample_scout query = Inr (''ledger-'' @ query)"

definition sample_pid :: string where
  "sample_pid = newId sample_entropy ''session'' (seq sample_world + 1)"

lemma sample_objective: "js_trim ''ship it'' \<noteq> []"
  by (simp add: js_trim_def js_ws_def)

lemma sample_started:
  "\<exists>st files w. startFullWorkflow sample_entropy sample_scout id ''/repo'' ''ship it'' None ([], sample_world) = (Inr st, files, w)
     \<and> at_stage sample_entropy sample_pid FsProduct [ProductLead] (files, w)"
  using start_live [OF sample_fresh sample_objective, of sample_scout id "''/repo''" None "[]", folded sample_pid_def]
  by (fastforce simp: at_stage_def writeState_def)

lemma approve_gates_reach: "(full_step E scout lossy)\<^sup>*\<^sup>* fw (approve_gates E scout lossy root pid gs fw)"
proof (induction gs arbitrary: fw)
  case (Cons g gs)
  show ?case
    using converse_rtranclp_into_rtranclp [OF full_step.advance Cons.IH] by simp
qed simp

lemma sample_reached:
  "\<exists>files w st. (full_step sample_entropy sample_scout id)\<^sup>*\<^sup>* ([], sample_world) (files, w) \<and> map_of files sample_pid = Some st
     \<and> fs_currentStage st = FsDone
     \<and> map ch_role (fs_childSessions st) = [ProductLead, SolutionLead, FullstackAgent, CodeReviewer, QaAgent]"
proof -
  let ?gates = "[ProductToSolution, SolutionToFullstack, FullstackToCodeReview, CodeReviewToQa, QaToDone]"
  obtain st files w where s: "startFullWorkflow sample_entropy sample_scout id ''/repo'' ''ship it'' None ([], sample_world) = (Inr st, files, w)"
    "at_stage sample_entropy sample_pid FsProduct [ProductLead] (files, w)" using sample_started by blast
  obtain files' w' where a: "approve_gates sample_entropy sample_scout id ''/repo'' sample_pid ?gates (files, w) = (files', w')" by fastforce
  have "full_step sample_entropy sample_scout id ([], sample_world) (files, w)"
    using full_step.start [of sample_entropy sample_scout id "([], sample_world)" "''/repo''" "''ship it''" None] s(1) by simp
  then have "(full_step sample_entropy sample_scout id)\<^sup>*\<^sup>* ([], sample_world) (files', w')"
    using approve_gates_reach [of sample_entropy sample_scout id "(files, w)" "''/repo''" sample_pid ?gates] a
    by (simp add: converse_rtranclp_into_rtranclp)
  then show ?thesis
    using approve_all [OF s(2), of sample_scout id "''/repo''", unfolded a Let_def] by (auto simp: at_stage_def)
qed

theorem full_workflow_files_consistent_witness:
  "\<exists>(files :: full_files) st. map_of files sample_pid = Some st \<and> fs_currentStage st = FsDone \<and> fs_currentOwner st = MasterOrchestrator
     \<and> fs_status st \<noteq> FullRunning \<and> length (fs_artifacts st) = 5"
proof -
  obtain files w st where r: "(full_step sample_entropy sample_scout id)\<^sup>*\<^sup>* ([], sample_world) (files, w)"
    "map_of files sample_pid = Some st" "fs_currentStage st = FsDone"
    "map ch_role (fs_childSessions st) = [ProductLead, SolutionLead, FullstackAgent, CodeReviewer, QaAgent]" using sample_reached by (elim exE conjE) (rule that)
  have "length (map ch_role (fs_childSessions st)) = 5" unfolding r(4) by simp
  then have "length (fs_childSessions st) = 5" by simp
  then show ?thesis
    using r full_workflow_files_consistent [OF r(1,2)] by (intro exI [of _ files] exI [of _ st]) (auto dest: list_all2_lengthD)
qed

theorem write_permission_only_in_implementation_witness:
  "\<exists>(files :: full_files) st c. map_of files sample_pid = Some st \<and> c \<in> set (fs_childSessions st) \<and> ch_role c = CodeReviewer
     \<and> ch_permission c = PermReadOnly"
proof -
  obtain files w st where r: "(full_step sample_entropy sample_scout id)\<^sup>*\<^sup>* ([], sample_world) (files, w)"
    "map_of files sample_pid = Some st"
    "map ch_role (fs_childSessions st) = [ProductLead, SolutionLead, FullstackAgent, CodeReviewer, QaAgent]" using sample_reached by (elim exE conjE) (rule that)
  then obtain c where c: "c \<in> set (fs_childSessions st)" "ch_role c = CodeReviewer"
    by (metis (no_types, lifting) in_set_conv_nth length_map list.set_intros(1,2) list.set_map imageE)
  show ?thesis
    using write_permission_only_in_implementation [OF r(1,2) c(1)] c r(2) by (cases "ch_permission c") auto
qed

theorem full_commands_refine_spec_witness:
  "\<exists>files w st. map_of files sample_pid = Some st \<and> fs_currentStage st = FsProduct \<and>
     (case run_command sample_entropy sample_scout id ''/repo'' sample_pid (CmdAdvance QaToDone Approve None) (files, w) of
        (Inl e, files', w') \<Rightarrow> files' = files \<and> full_spec (CmdAdvance QaToDone Approve None) (stage_and_status st) = None
      | (Inr st', files', w') \<Rightarrow> False)"
proof -
  obtain files :: full_files and w st where r: "map_of files sample_pid = Some st" "fs_parentSessionId st = sample_pid" "fs_currentStage st = FsProduct"
    "live sample_entropy sample_pid w" using sample_started unfolding at_stage_def by auto
  show ?thesis
    using full_commands_refine_spec [OF r(1,2), where E = sample_entropy and scout = sample_scout and lossy = id and root = "''/repo''" and w = w
      and c = "CmdAdvance QaToDone Approve None"] r(1,3,4)
    by (intro exI [of _ files] exI [of _ w] exI [of _ st]) (auto split: prod.splits sum.splits)
qed

theorem approvals_complete_workflow_witness:
  "\<exists>st0 fw0 st files w'. startFullWorkflow sample_entropy sample_scout id ''/repo'' ''ship it'' None ([], sample_world) = (Inr st0, fw0)
    \<and> approve_gates sample_entropy sample_scout id ''/repo'' (fs_parentSessionId st0)
        [ProductToSolution, SolutionToFullstack, FullstackToCodeReview, CodeReviewToQa, QaToDone] fw0 = (files, w')
    \<and> map_of files (fs_parentSessionId st0) = Some st \<and> fs_status st = FullComplete"
  using approvals_complete_workflow [OF sample_fresh sample_objective, of sample_scout id "''/repo''" None "[]"]
  by blast

theorem rejected_gate_leaves_session_row_witness:
  "\<exists>files w st' w'. advanceFullWorkflow sample_entropy sample_scout id ''/repo'' sample_pid ProductToSolution Reject None (files, w)
      = (Inr st', writeState st' files, w') \<and> fs_status st' = FullBlocked \<and> t_sessions w' = t_sessions w"
proof -
  obtain files :: full_files and w st where r: "map_of files sample_pid = Some st" "fs_parentSessionId st = sample_pid"
    "live sample_entropy sample_pid w" "fs_currentStage st = fst (gate_ends ProductToSolution)" using sample_started unfolding at_stage_def by auto
  from rejected_gate_leaves_session_row [OF r, of sample_scout id "''/repo''" None] show ?thesis by blast
qed

end
