(* ===== verification/McpSafety.thy ===== *)
theory McpSafety
  imports McpRouting
begin

text \<open>
  What the routing of \<open>McpRouting\<close> guarantees: the planner's choice is the best-scored prefix of the
  permitted servers and every other server is rejected with a reason, the enforced selection has only
  usable servers, and what the fallback of the enforcement does not check.
\<close>

section \<open>Registry facts\<close>

lemma registry_ids: "map mc_id DEFAULT_MCP_REGISTRY =
  [''augment_context_engine'', ''context7'', ''grep_app'', ''websearch'', ''chrome-devtools'', ''playwright'']"
  by (simp add: DEFAULT_MCP_REGISTRY_def)

lemma registry_distinct: "distinct (map mc_id DEFAULT_MCP_REGISTRY)"
  unfolding registry_ids by simp

lemma registryEntry_Some: "registryEntry i = Some e \<longleftrightarrow> e \<in> set DEFAULT_MCP_REGISTRY \<and> mc_id e = i"
proof
  assume "registryEntry i = Some e"
  then show "e \<in> set DEFAULT_MCP_REGISTRY \<and> mc_id e = i"
    by (auto simp: registryEntry_def find_Some_iff)
next
  assume e: "e \<in> set DEFAULT_MCP_REGISTRY \<and> mc_id e = i"
  then obtain e' where e': "registryEntry i = Some e'"
    by (cases "registryEntry i") (auto simp: registryEntry_def find_None_iff)
  then have "e' \<in> set DEFAULT_MCP_REGISTRY \<and> mc_id e' = i"
    by (auto simp: registryEntry_def find_Some_iff)
  then have "e' = e" using e registry_distinct by (auto simp: distinct_map inj_on_def)
  then show "registryEntry i = Some e" using e' by simp
qed

lemma set_byPriority [simp]: "set (byPriority ck es) = set es"
  by (simp add: byPriority_def)

section \<open>Enforcement\<close>

text \<open>A server that may be used under the options: supported, capable, and in order at run time.\<close>

definition usable :: "mcp_options \<Rightarrow> string \<Rightarrow> bool" where
  "usable opts i \<longleftrightarrow> (\<exists>e \<in> set DEFAULT_MCP_REGISTRY. mc_id e = i \<and> mc_contractVersion e \<in> set (op_versions opts)
     \<and> mc_entry e \<noteq> [] \<and> hasAllRequiredCapabilities e (op_capabilities opts) \<and> enforcedRuntimeOk opts i)"

lemma usable_fallback: "e \<in> set DEFAULT_MCP_REGISTRY \<Longrightarrow> fallbackOk opts blk e \<Longrightarrow> usable opts (mc_id e) \<and> mc_id e \<notin> set blk"
  by (auto simp: usable_def fallbackOk_def)

lemma frame_selected [simp]:
  "en_selected (warn m s) = en_selected s" "en_selected (addReasons i rs s) = en_selected s"
  "en_selected (blockMcp i c s) = en_selected s" "en_selected (forgetReasons i s) = en_selected s"
  "en_selected (denyMcp i c m s) = en_selected s"
  "en_selected (applyRuntimeStateTouch T opts e s) = en_selected s"
  by (simp_all add: warn_def addReasons_def blockMcp_def forgetReasons_def denyMcp_def Let_def
      applyRuntimeStateTouch_def split: prod.split)

lemma frame_blocked [simp]:
  "en_blocked (warn m s) = en_blocked s" "en_blocked (addReasons i rs s) = en_blocked s"
  "en_blocked (applyRuntimeStateTouch T opts e s) = en_blocked s"
  by (simp_all add: warn_def addReasons_def Let_def applyRuntimeStateTouch_def split: prod.split)

lemma pickFallback_usable: "pickFallback entry blk opts = Some i \<Longrightarrow> usable opts i"
proof -
  assume "pickFallback entry blk opts = Some i"
  then have "case registryEntry i of None \<Rightarrow> False | Some e \<Rightarrow> fallbackOk opts blk e"
    by (auto simp: pickFallback_def find_Some_iff)
  then obtain e where "e \<in> set DEFAULT_MCP_REGISTRY" "mc_id e = i" "fallbackOk opts blk e"
    by (auto simp: registryEntry_Some split: option.splits)
  then show "usable opts i" using usable_fallback by blast
qed

text \<open>A step that only adds usable servers to the selection.\<close>

definition grows :: "mcp_options \<Rightarrow> enforcing \<Rightarrow> enforcing \<Rightarrow> bool" where
  "grows opts s s' \<longleftrightarrow> set (en_selected s') \<subseteq> set (en_selected s) \<union> {i. usable opts i}"

lemma grows_if: "(c \<Longrightarrow> grows opts s a) \<Longrightarrow> (\<not> c \<Longrightarrow> grows opts s b) \<Longrightarrow> grows opts s (if c then a else b)"
  by simp

lemma grows_same: "en_selected t = en_selected s \<Longrightarrow> grows opts s t"
  by (simp add: grows_def)

lemma selected_if [simp]: "en_selected (if c then a else b) = (if c then en_selected a else en_selected b)"
  by simp

lemma grows_fallBack: "en_selected t = en_selected s \<Longrightarrow> grows opts s (fallBack T opts touch entry code f m t)"
  by (auto simp: grows_def fallBack_def Let_def split: option.splits dest: pickFallback_usable)

lemma grows_admit: "en_selected t = en_selected s \<Longrightarrow> usable opts (mc_id entry) \<Longrightarrow> grows opts s (admitMcp T opts entry t)"
  by (simp add: grows_def admitMcp_def Let_def)

lemma enforceRuntime_grows:
  assumes "enforcedRuntimeOk opts (mc_id entry) \<Longrightarrow> usable opts (mc_id entry)"
  shows "grows opts s (enforceRuntime T opts entry s)"
proof (cases "runtimeRecordFor (mc_id entry) (op_runtimeSnapshot opts)")
  case None
  have ok: "usable opts (mc_id entry)" if "nullish (op_missingRuntimeFailSafe opts) DegradeOrFallback = AllowWithWarning"
    using that None assms by (simp add: enforcedRuntimeOk_def)
  show ?thesis
    unfolding enforceRuntime_def Let_def None option.case
    by (intro grows_if grows_fallBack) (use ok in \<open>simp_all add: grows_def\<close>)
next
  case (Some r)
  have ok: "usable opts (mc_id entry)"
    if "\<not> (truthy (mr_signalMissing r) \<and> nullish (op_missingRuntimeFailSafe opts) DegradeOrFallback = DegradeOrFallback)"
      "\<not> (truthy (mr_stale r) \<and> nullish (op_staleRuntimeFailSafe opts) DegradeOrFallback = DegradeOrFallback)"
      "mr_status r \<noteq> RsUnavailable" "mr_status r \<noteq> RsNeedsAuth"
    using that Some assms by (auto simp: enforcedRuntimeOk_def)
  show ?thesis
    unfolding enforceRuntime_def Let_def Some option.case
    by (intro grows_if grows_fallBack grows_admit ok) simp_all
qed

lemma enforceOne_grows: "grows opts s (enforceOne T env opts i s)"
proof (cases "registryEntry i")
  case None
  then show ?thesis by (simp add: enforceOne_def grows_def)
next
  case (Some e)
  have e: "e \<in> set DEFAULT_MCP_REGISTRY" "mc_id e = i" using Some by (simp_all add: registryEntry_Some)
  have rt: "grows opts s (enforceRuntime T opts e s)"
    if "mc_contractVersion e \<in> set (op_versions opts)" "mc_entry e \<noteq> []" "hasAllRequiredCapabilities e (op_capabilities opts)"
    by (rule enforceRuntime_grows) (use that e in \<open>auto simp: usable_def\<close>)
  show ?thesis
    unfolding enforceOne_def Some option.case
    by (intro grows_if rt grows_same) simp_all
qed

lemma fold_grows: "grows opts s (fold (enforceOne T env opts) is s)"
proof (induction "is" arbitrary: s)
  case (Cons i "is")
  show ?case
    using Cons.IH [of "enforceOne T env opts i s"] enforceOne_grows [of opts s T env i] by (auto simp: grows_def)
qed (simp add: grows_def)

lemma pickGlobal_usable:
  "pickGlobalSafeFallback ck blk opts = Some i \<Longrightarrow> usable opts i \<and> i \<notin> set blk"
proof -
  assume "pickGlobalSafeFallback ck blk opts = Some i"
  then obtain e where e: "List.find (fallbackOk opts blk) (byPriority ck DEFAULT_MCP_REGISTRY) = Some e" "mc_id e = i"
    by (auto simp: pickGlobalSafeFallback_def)
  then have "e \<in> set (byPriority ck DEFAULT_MCP_REGISTRY)" "fallbackOk opts blk e"
    by (metis find_Some_iff nth_mem)+
  then show ?thesis using usable_fallback e(2) by auto
qed

lemma forceFallback_selected:
  "en_selected (forceFallback T opts s) = (if en_selected s \<noteq> [] then en_selected s
     else case pickGlobalSafeFallback (te_ck T) (en_blocked s) opts of None \<Rightarrow> [] | Some i \<Rightarrow> [i])"
  "en_blocked (forceFallback T opts s) = en_blocked s"
  by (simp_all add: forceFallback_def Let_def split: option.split)

text \<open>
  C26. The enforced selection is safe: it names no server twice and none that was blocked, and every
  server in it is registered with a supported contract version and an entry point, has the required
  capabilities, is neither unavailable nor waiting for authentication, and is stale or without a signal
  only where the options allow that.
\<close>

theorem enforced_selection_is_usable:
  "let s = fst (enforceMcpRoutingDetailed T env intent opts file)
   in distinct (en_selected s) \<and> set (en_selected s) \<inter> set (en_blocked s) = {}
      \<and> set (en_selected s) \<subseteq> {i. usable opts i}"
proof -
  define planned where "planned = chooseMcpsDetailed (te_ck T) env intent opts"
  define start where "start = \<lparr>en_selected = [], en_blocked = rt_blocked planned, en_warnings = rt_warnings planned,
            en_decisions = rt_decisions planned, en_reasons = rt_reasons planned,
            en_rejected = rt_rejected planned, en_runtimeStates = [], en_file = file, en_count = 0\<rparr>"
  define looped where "looped = fold (enforceOne T env opts) (rt_selected planned) start"
  have "set (en_selected looped) \<subseteq> {i. usable opts i}"
    using fold_grows [of opts start T env "rt_selected planned"] by (simp add: grows_def looped_def start_def)
  then have d: "distinct (dedupeExcluding (en_selected looped) (en_blocked looped))"
    "set (dedupeExcluding (en_selected looped) (en_blocked looped)) \<inter> set (en_blocked looped) = {}"
    "set (dedupeExcluding (en_selected looped) (en_blocked looped)) \<subseteq> {i. usable opts i}"
    by (auto simp: dedupeExcluding_def)
  obtain w where w: "fst (enforceMcpRoutingDetailed T env intent opts file) = forceFallback T opts w"
    "en_selected w = dedupeExcluding (en_selected looped) (en_blocked looped)" "en_blocked w = en_blocked looped"
    unfolding enforceMcpRoutingDetailed_def Let_def planned_def [symmetric] start_def [symmetric] looped_def [symmetric]
    by (auto split: option.split)
  show ?thesis
    unfolding Let_def w(1) forceFallback_selected using d w(2,3) pickGlobal_usable by (auto split: option.split)
qed

section \<open>Planning\<close>

definition permitted :: "execution_envelope \<Rightarrow> mcp_options \<Rightarrow> mcp_entry \<Rightarrow> bool" where
  "permitted env opts e \<longleftrightarrow> mc_contractVersion e \<in> set (op_versions opts) \<and> mc_entry e \<noteq> []
     \<and> ee_lane env \<in> set (mc_lanes e) \<and> ee_role env \<in> set (mc_roles e)
     \<and> hasAllRequiredCapabilities e (op_capabilities opts)"

lemma candidateFor_Inr:
  "candidateFor env tags opts e = Inr c \<Longrightarrow> permitted env opts e \<and> cd_entry c = e \<and> cd_score c = fst (scoreRegistryEntry e tags)"
  by (auto simp: candidateFor_def permitted_def Let_def split: if_splits prod.splits)

lemma candidateFor_Inl: "candidateFor env tags opts e = Inl rs \<Longrightarrow> rs \<noteq> []"
  by (auto simp: candidateFor_def Let_def split: if_splits prod.splits)

lemma fold_select:
  "rt_selected (fold (selectCandidate m) cs r)
     = rt_selected r @ map (mc_id \<circ> cd_entry) (take (nat m - length (rt_selected r)) cs)"
proof (induction cs arbitrary: r)
  case (Cons c cs)
  show ?case
  proof (cases "int (length (rt_selected r)) \<ge> m")
    case True
    then have "nat m - length (rt_selected r) = 0" by simp
    then show ?thesis using Cons.IH True by (simp add: selectCandidate_def Let_def)
  next
    case False
    then have "length (rt_selected r) < nat m" by linarith
    then have k: "nat m - length (rt_selected r) = Suc (nat m - Suc (length (rt_selected r)))" by simp
    show ?thesis
      unfolding fold_simps(2) Cons.IH k using False by (simp add: selectCandidate_def Let_def)
  qed
qed simp

lemma keep_rejected:
  "\<exists>rs. map_of (rt_rejected r) i = Some rs \<and> rs \<noteq> [] \<Longrightarrow>
   \<exists>rs. map_of (rt_rejected (fold (selectCandidate m) cs r)) i = Some rs \<and> rs \<noteq> []"
  by (induction cs arbitrary: r) (simp_all add: selectCandidate_def Let_def update_conv')

lemma fold_select_rejected:
  assumes "c \<in> set cs" and "mc_id (cd_entry c) \<notin> set (rt_selected (fold (selectCandidate m) cs r))"
  shows "\<exists>rs. map_of (rt_rejected (fold (selectCandidate m) cs r)) (mc_id (cd_entry c)) = Some rs \<and> rs \<noteq> []"
  using assms
proof (induction cs arbitrary: r)
  case (Cons d cs)
  show ?case
  proof (cases "c \<in> set cs")
    case True
    then show ?thesis using Cons by simp
  next
    case False
    then have d: "d = c" using Cons.prems(1) by simp
    have "int (length (rt_selected r)) \<ge> m"
    proof (rule ccontr)
      assume "\<not> m \<le> int (length (rt_selected r))"
      then have "mc_id (cd_entry c) \<in> set (rt_selected (fold (selectCandidate m) (d # cs) r))"
        unfolding d fold_simps(2) fold_select [of m cs "selectCandidate m c r"] by (simp add: selectCandidate_def Let_def)
      then show False using Cons.prems(2) by simp
    qed
    then have "\<exists>rs. map_of (rt_rejected (selectCandidate m c r)) (mc_id (cd_entry c)) = Some rs \<and> rs \<noteq> []"
      by (simp add: selectCandidate_def Let_def update_conv')
    from keep_rejected [OF this, of m cs] show ?thesis using d by simp
  qed
qed simp

lemma rejected_kept:
  assumes "distinct (map mc_id es)" and "e \<in> set es" and "f e = Inl rs"
  shows "map_of (fold (\<lambda>e m. case f e of Inl rs \<Rightarrow> AList.update (mc_id e) rs m | Inr _ \<Rightarrow> m) es m0) (mc_id e) = Some rs"
  using assms
proof (induction es arbitrary: m0)
  case (Cons d es)
  have other: "i \<notin> mc_id ` set ds \<Longrightarrow>
      map_of (fold (\<lambda>e m. case f e of Inl rs \<Rightarrow> AList.update (mc_id e) rs m | Inr _ \<Rightarrow> m) ds m1) i = map_of m1 i" for ds m1 i
    by (induction ds arbitrary: m1) (auto simp: update_conv' split: sum.split)
  show ?case
  proof (cases "d = e")
    case True
    then show ?thesis using Cons.prems other [of "mc_id e" es] by (simp add: update_conv')
  next
    case False
    then show ?thesis using Cons by simp
  qed
qed simp

abbreviation planned_candidates :: "collation \<Rightarrow> execution_envelope \<Rightarrow> string \<Rightarrow> mcp_options \<Rightarrow> mcp_candidate list" where
  "planned_candidates ck env intent opts \<equiv>
     sortCandidates ck (candidates_of (candidateFor env (inferIntentTags intent) opts) DEFAULT_MCP_REGISTRY)"

lemma set_planned:
  "c \<in> set (planned_candidates ck env intent opts) \<longleftrightarrow>
     (\<exists>e \<in> set DEFAULT_MCP_REGISTRY. candidateFor env (inferIntentTags intent) opts e = Inr c)"
proof -
  have "c \<in> set (candidates_of f es) \<longleftrightarrow> (\<exists>e \<in> set es. f e = Inr c)" for f es
    by (induction es) (auto simp: candidates_of_def map_filter_simps split: sum.splits)
  then show ?thesis by (simp add: sortCandidates_def)
qed

lemma planned_distinct: "distinct (map (mc_id \<circ> cd_entry) (planned_candidates ck env intent opts))"
proof -
  have "distinct (map (mc_id \<circ> cd_entry) (candidates_of (candidateFor env tags opts) es))"
    if "distinct (map mc_id es)" for tags es
    using that
  proof (induction es)
    case (Cons e es)
    then show ?case
      by (auto simp: candidates_of_def map_filter_simps image_iff split: sum.split option.split
          dest!: candidateFor_Inr) (auto simp: map_filter_def split: sum.splits dest!: candidateFor_Inr)
  qed (simp add: candidates_of_def map_filter_def)
  from this [OF registry_distinct] show ?thesis by (simp add: sortCandidates_def distinct_map)
qed

lemma planned_selection:
  "rt_selected (chooseMcpsDetailed ck env intent opts) =
    (case map (mc_id \<circ> cd_entry) (take (nat (nullish (op_maxSelected opts) 4)) (planned_candidates ck env intent opts)) of
       [] \<Rightarrow> (case pickPlannerSafeFallback ck env opts of None \<Rightarrow> [] | Some i \<Rightarrow> [i])
     | i # is \<Rightarrow> i # is)"
  unfolding chooseMcpsDetailed_def Let_def plannerFallback_def
  by (simp add: fold_select split: list.split option.split)

lemma fallback_permitted:
  "pickPlannerSafeFallback ck env opts = Some i \<Longrightarrow> i \<in> mc_id ` {e \<in> set DEFAULT_MCP_REGISTRY. permitted env opts e}"
proof -
  assume "pickPlannerSafeFallback ck env opts = Some i"
  then obtain e where e: "List.find (plannerSafe env opts) (byPriority ck DEFAULT_MCP_REGISTRY) = Some e" "mc_id e = i"
    by (auto simp: pickPlannerSafeFallback_def)
  then have "e \<in> set (byPriority ck DEFAULT_MCP_REGISTRY)" "plannerSafe env opts e"
    by (metis find_Some_iff nth_mem)+
  then show ?thesis using e(2) by (auto simp: plannerSafe_def permitted_def Let_def)
qed

lemma planned_rejected:
  assumes "e \<in> set DEFAULT_MCP_REGISTRY" and "mc_id e \<notin> set (rt_selected (chooseMcpsDetailed ck env intent opts))"
  shows "\<exists>rs. map_of (rt_rejected (chooseMcpsDetailed ck env intent opts)) (mc_id e) = Some rs \<and> rs \<noteq> []"
proof -
  let ?f = "candidateFor env (inferIntentTags intent) opts"
  let ?m = "nullish (op_maxSelected opts) 4"
  define start where "start = \<lparr>rt_selected = [], rt_blocked = [], rt_warnings = [], rt_decisions = [], rt_reasons = [],
      rt_rejected = rejectEntries ?f DEFAULT_MCP_REGISTRY\<rparr>"
  define chosen where "chosen = fold (selectCandidate ?m) (planned_candidates ck env intent opts) start"
  have r: "chooseMcpsDetailed ck env intent opts = plannerFallback ck env opts chosen"
    by (simp add: chooseMcpsDetailed_def Let_def chosen_def start_def)
  have same: "rt_rejected (plannerFallback ck env opts chosen) = rt_rejected chosen"
    by (simp add: plannerFallback_def split: option.split)
  have sub: "set (rt_selected chosen) \<subseteq> set (rt_selected (plannerFallback ck env opts chosen))"
    by (auto simp: plannerFallback_def split: option.split)
  show ?thesis
  proof (cases "?f e")
    case (Inl rs)
    have m: "map_of (rt_rejected start) (mc_id e) = Some rs"
      unfolding start_def rejectEntries_def using rejected_kept [where f = ?f, OF registry_distinct assms(1) Inl] by simp
    have "rs \<noteq> []" by (rule candidateFor_Inl [OF Inl])
    with m have "\<exists>rs. map_of (rt_rejected (fold (selectCandidate ?m) cs start)) (mc_id e) = Some rs \<and> rs \<noteq> []" for cs
      using keep_rejected by blast
    then show ?thesis unfolding r same unfolding chosen_def .
  next
    case (Inr c)
    then have c: "c \<in> set (planned_candidates ck env intent opts)" "cd_entry c = e"
      using assms(1) by (auto simp: set_planned dest: candidateFor_Inr)
    have "mc_id (cd_entry c) \<notin> set (rt_selected chosen)" using assms(2) sub unfolding r c(2) by blast
    from fold_select_rejected [OF c(1) this [unfolded chosen_def]] show ?thesis
      unfolding r same unfolding chosen_def c(2) .
  qed
qed

lemma selected_permitted:
  "set (rt_selected (chooseMcpsDetailed ck env intent opts))
     \<subseteq> mc_id ` {e \<in> set DEFAULT_MCP_REGISTRY. permitted env opts e}"
proof -
  let ?ids = "map (mc_id \<circ> cd_entry) (take (nat (nullish (op_maxSelected opts) 4)) (planned_candidates ck env intent opts))"
  have p: "set ?ids \<subseteq> mc_id ` {e \<in> set DEFAULT_MCP_REGISTRY. permitted env opts e}"
    using candidateFor_Inr by (fastforce simp: set_planned dest!: in_set_takeD)
  show ?thesis
    unfolding planned_selection using p fallback_permitted [of ck env opts] by (cases ?ids) (auto split: option.split)
qed

text \<open>
  C27. The plan accounts for every server. The planner selects no server twice, at most the requested
  number (one, when that leaves none and a safe fallback exists), only servers that are registered for
  the lane and the role with a supported contract version and the required capabilities, and it gives a
  reason for every server that it does not select.
\<close>

theorem plan_accounts_for_every_server:
  "let r = chooseMcpsDetailed ck env intent opts
   in distinct (rt_selected r) \<and> length (rt_selected r) \<le> max 1 (nat (nullish (op_maxSelected opts) 4))
      \<and> set (rt_selected r) \<subseteq> mc_id ` {e \<in> set DEFAULT_MCP_REGISTRY. permitted env opts e}
      \<and> mc_id ` set DEFAULT_MCP_REGISTRY
          \<subseteq> set (rt_selected r) \<union> {i. \<exists>rs. map_of (rt_rejected r) i = Some rs \<and> rs \<noteq> []}"
proof -
  let ?n = "nat (nullish (op_maxSelected opts) 4)"
  let ?ids = "map (mc_id \<circ> cd_entry) (take ?n (planned_candidates ck env intent opts))"
  have d: "distinct ?ids"
    using planned_distinct [of ck env intent opts] by (simp add: take_map [symmetric])
  have l: "length ?ids \<le> ?n" by simp
  note sel = planned_selection [of ck env intent opts]
  have "distinct (rt_selected (chooseMcpsDetailed ck env intent opts))"
    unfolding sel using d by (auto split: list.split option.split)
  moreover have "length (rt_selected (chooseMcpsDetailed ck env intent opts)) \<le> max 1 ?n"
    unfolding sel using l by (cases ?ids) (auto split: option.split)
  moreover have "mc_id ` set DEFAULT_MCP_REGISTRY \<subseteq> set (rt_selected (chooseMcpsDetailed ck env intent opts))
      \<union> {i. \<exists>rs. map_of (rt_rejected (chooseMcpsDetailed ck env intent opts)) i = Some rs \<and> rs \<noteq> []}"
    using planned_rejected by blast
  ultimately show ?thesis unfolding Let_def using selected_permitted by blast
qed

text \<open>
  The plan prefers high scores: when a candidate is selected by the planner and another candidate
  is not, the score of the other is not higher.
\<close>

theorem plan_prefers_high_scores:
  assumes "c \<in> set (planned_candidates ck env intent opts)" and "d \<in> set (planned_candidates ck env intent opts)"
    and "0 < nullish (op_maxSelected opts) 4"
    and "mc_id (cd_entry c) \<in> set (rt_selected (chooseMcpsDetailed ck env intent opts))"
    and "mc_id (cd_entry d) \<notin> set (rt_selected (chooseMcpsDetailed ck env intent opts))"
  shows "cd_score d \<le> cd_score c"
proof -
  let ?n = "nat (nullish (op_maxSelected opts) 4)"
  define cs where "cs = planned_candidates ck env intent opts"
  have ne: "map (mc_id \<circ> cd_entry) (take ?n cs) \<noteq> []"
    using assms(1,3) by (auto simp: cs_def)
  then have sel: "rt_selected (chooseMcpsDetailed ck env intent opts) = map (mc_id \<circ> cd_entry) (take ?n cs)"
    unfolding planned_selection cs_def by (auto split: list.split)
  have inj: "inj_on (mc_id \<circ> cd_entry) (set cs)"
    using planned_distinct [of ck env intent opts] by (simp add: distinct_map cs_def)
  obtain c' where "c' \<in> set (take ?n cs)" "mc_id (cd_entry c') = mc_id (cd_entry c)"
    using assms(4) unfolding sel by auto
  then have c: "c \<in> set (take ?n cs)"
    using inj_onD [OF inj, of c' c] assms(1) by (auto simp: cs_def dest: in_set_takeD)
  have "d \<notin> set (take ?n cs)" using assms(5) unfolding sel by auto
  then have d: "d \<in> set (drop ?n cs)" using assms(2) by (metis Un_iff append_take_drop_id cs_def set_append)
  have "sorted (map (\<lambda>c. (- cd_score c, ck (mc_id (cd_entry c)))) cs)"
    by (simp add: cs_def sortCandidates_def)
  then have "sorted (map (\<lambda>c. (- cd_score c, ck (mc_id (cd_entry c)))) (take ?n cs @ drop ?n cs))" by simp
  then have "(- cd_score c, ck (mc_id (cd_entry c))) \<le> (- cd_score d, ck (mc_id (cd_entry d)))"
    unfolding map_append sorted_append using c d by auto
  then show ?thesis by (auto simp: less_eq_prod_def)
qed

section \<open>The full lane\<close>

lemma no_full_lane: "e \<in> set DEFAULT_MCP_REGISTRY \<Longrightarrow> LaneFull \<notin> set (mc_lanes e)"
  by (auto simp: DEFAULT_MCP_REGISTRY_def)

lemma full_lane_plan:
  assumes "ee_lane env = LaneFull"
  shows "rt_selected (chooseMcpsDetailed ck env intent opts) = []" "rt_blocked (chooseMcpsDetailed ck env intent opts) = []"
proof -
  have "planned_candidates ck env intent opts = []"
    using set_planned [of _ ck env intent opts] no_full_lane assms candidateFor_Inr
    by (metis list.set_intros(1) neq_Nil_conv permitted_def)
  moreover have "pickPlannerSafeFallback ck env opts = None"
    using fallback_permitted [of ck env opts] no_full_lane assms
    by (cases "pickPlannerSafeFallback ck env opts") (auto simp: permitted_def)
  ultimately show "rt_selected (chooseMcpsDetailed ck env intent opts) = []" unfolding planned_selection by simp
  have "rt_blocked (fold (selectCandidate m) cs r) = rt_blocked r" for m cs r
    by (induction cs arbitrary: r) (simp_all add: selectCandidate_def Let_def)
  then show "rt_blocked (chooseMcpsDetailed ck env intent opts) = []"
    by (simp add: chooseMcpsDetailed_def Let_def plannerFallback_def split: option.split)
qed

text \<open>
  The fallback of the enforcement does not look at the lane. In the full lane the planner selects no
  server, because none is registered for it; as soon as some registered server is usable at all, the
  enforcement nevertheless selects one, which is not registered for the lane of the envelope.
\<close>

theorem enforcement_fallback_ignores_lane:
  assumes "ee_lane env = LaneFull" and "e \<in> set DEFAULT_MCP_REGISTRY" and "fallbackOk opts [] e"
  shows "rt_selected (chooseMcpsDetailed (te_ck T) env intent opts) = []
    \<and> (\<exists>i e'. en_selected (fst (enforceMcpRoutingDetailed T env intent opts file)) = [i]
         \<and> registryEntry i = Some e' \<and> ee_lane env \<notin> set (mc_lanes e'))"
proof -
  note p = full_lane_plan [OF assms(1), of "te_ck T" intent opts]
  obtain e' where e': "List.find (fallbackOk opts []) (byPriority (te_ck T) DEFAULT_MCP_REGISTRY) = Some e'"
    using assms(2,3) by (cases "List.find (fallbackOk opts []) (byPriority (te_ck T) DEFAULT_MCP_REGISTRY)")
      (auto simp: find_None_iff)
  then have "e' \<in> set (byPriority (te_ck T) DEFAULT_MCP_REGISTRY)" by (metis find_Some_iff nth_mem)
  then have r: "registryEntry (mc_id e') = Some e'" "LaneFull \<notin> set (mc_lanes e')"
    using no_full_lane by (simp_all add: registryEntry_Some)
  have "en_selected (fst (enforceMcpRoutingDetailed T env intent opts file)) = [mc_id e']"
    using e' p by (simp add: enforceMcpRoutingDetailed_def Let_def forceFallback_selected dedupeExcluding_def
        js_unique_def pickGlobalSafeFallback_def split: option.split)
  then show ?thesis using p r assms(1) by auto
qed

text \<open>
  What a new envelope carries: building the execution envelope of a session returns, with the
  session's lane and the agent's role, and its active MCP servers and skills are all registered for
  that lane and that role.
\<close>

theorem envelope_activates_registered_only:
  "\<exists>env w'. buildExecutionEnvelope ck E session agent model w = (Inr env, w')
    \<and> ee_lane env = ss_lane session \<and> ee_role env = ag_role agent \<and> ee_sessionId env = ss_sessionId session
    \<and> set (ee_activeMcps env) \<subseteq> mc_id ` {e \<in> set DEFAULT_MCP_REGISTRY.
        ss_lane session \<in> set (mc_lanes e) \<and> ag_role agent \<in> set (mc_roles e)}
    \<and> set (ee_activeSkills env) \<subseteq> sk_skillName ` {e \<in> set DEFAULT_SKILL_REGISTRY.
        ss_lane session \<in> set (sk_lanes e) \<and> ag_role agent \<in> set (sk_roles e)}"
proof -
  have m: "ee_lane env = l \<Longrightarrow> ee_role env = r \<Longrightarrow> set (chooseMcps ck env intent) \<subseteq> mc_id ` {e \<in> set DEFAULT_MCP_REGISTRY.
      l \<in> set (mc_lanes e) \<and> r \<in> set (mc_roles e)}" for env intent l r
    using selected_permitted [of ck env intent v1_options] by (auto simp: chooseMcps_def permitted_def)
  have s: "ee_lane env = l \<Longrightarrow> ee_role env = r \<Longrightarrow> set (chooseSkills env intent) \<subseteq> sk_skillName ` {e \<in> set DEFAULT_SKILL_REGISTRY.
      l \<in> set (sk_lanes e) \<and> r \<in> set (sk_roles e)}" for env intent l r
    by (auto simp: chooseSkills_def)
  show ?thesis
    unfolding buildExecutionEnvelope_def dh_simps Let_def prod.case sum.case
    by (intro exI conjI, rule refl) (simp_all add: m s)
qed

section \<open>Witnesses\<close>

definition available :: mcp_runtime where
  "available = \<lparr>mr_status = RsAvailable, mr_serverKey = None, mr_authReady = None, mr_observedAt = None,
     mr_freshnessWindowMs = None, mr_stale = None, mr_transitionReason = None, mr_transitionFrom = None,
     mr_signalMissing = None\<rparr>"

definition sample_options :: mcp_options where
  "sample_options = v1_options\<lparr>op_runtimeSnapshot := Some [(''augment_context_engine'', available)],
     op_maxSelected := Some 1\<rparr>"

definition sample_env :: "workflow_lane \<Rightarrow> execution_envelope" where
  "sample_env l = \<lparr>ee_id = ''e'', ee_sessionId = ''s'', ee_lane = l, ee_role = RoleQuick, ee_agentId = ''quick'',
     ee_stage = ''quick_intake'', ee_workItemId = None,
     ee_resolvedModel = \<lparr>rm_providerId = ''p'', rm_modelId = ''m'', rm_variantId = ''v''\<rparr>,
     ee_activeSkills = [], ee_activeMcps = [], ee_requiredTools = [], ee_semanticMode = SemAlways,
     ee_createdAt = ''2024''\<rparr>"

definition sample_touch :: touch_env where
  "sample_touch = \<lparr>te_ck = sample_ck, te_sha = (\<lambda>x. CHR ''h'' # x), te_now = (\<lambda>_. ''2024''), te_fail = (\<lambda>_. None)\<rparr>"

lemmas sample_defs = sample_options_def sample_env_def v1_options_def available_def

theorem enforcement_fallback_ignores_lane_witness:
  "\<exists>i e'. en_selected (fst (enforceMcpRoutingDetailed sample_touch (sample_env LaneFull) ''codebase'' sample_options FileMissing)) = [i]
     \<and> registryEntry i = Some e' \<and> LaneFull \<notin> set (mc_lanes e')"
proof -
  have "fallbackOk sample_options [] (hd DEFAULT_MCP_REGISTRY)"
    by (simp add: sample_defs DEFAULT_MCP_REGISTRY_def fallbackOk_def enforcedRuntimeOk_def runtimeRecordFor_def
        nullish_def truthy_def hasAllRequiredCapabilities_def MCP_EXTENSION_CONTRACT_VERSION_def)
  moreover have "hd DEFAULT_MCP_REGISTRY \<in> set DEFAULT_MCP_REGISTRY" by (simp add: DEFAULT_MCP_REGISTRY_def)
  moreover have "ee_lane (sample_env LaneFull) = LaneFull" by (simp add: sample_env_def)
  ultimately show ?thesis
    using enforcement_fallback_ignores_lane [of "sample_env LaneFull" "hd DEFAULT_MCP_REGISTRY" sample_options sample_touch
        "''codebase''" FileMissing] by simp
qed

lemma sample_plan:
  "map (mc_id \<circ> cd_entry) (planned_candidates sample_ck (sample_env LaneQuick) ''codebase'' sample_options)
     = [''augment_context_engine'', ''chrome-devtools'', ''context7'', ''playwright'']"
  "rt_selected (chooseMcpsDetailed sample_ck (sample_env LaneQuick) ''codebase'' sample_options)
     = [''augment_context_engine'']"
  by code_simp+

theorem plan_prefers_high_scores_witness:
  "\<exists>c d. mc_id (cd_entry c) = ''augment_context_engine'' \<and> mc_id (cd_entry d) = ''context7''
     \<and> {c, d} \<subseteq> set (planned_candidates sample_ck (sample_env LaneQuick) ''codebase'' sample_options)
     \<and> cd_score d \<le> cd_score c"
proof -
  let ?cs = "planned_candidates sample_ck (sample_env LaneQuick) ''codebase'' sample_options"
  have "''augment_context_engine'' \<in> set (map (mc_id \<circ> cd_entry) ?cs)" "''context7'' \<in> set (map (mc_id \<circ> cd_entry) ?cs)"
    unfolding sample_plan by simp_all
  then obtain c d where "c \<in> set ?cs" "mc_id (cd_entry c) = ''augment_context_engine''"
    "d \<in> set ?cs" "mc_id (cd_entry d) = ''context7''" by auto
  moreover from this have "cd_score d \<le> cd_score c"
    using plan_prefers_high_scores [of c sample_ck "sample_env LaneQuick" "''codebase''" sample_options d]
    unfolding sample_plan(2) by (simp add: sample_options_def nullish_def)
  ultimately show ?thesis by auto
qed

end
