(* ===== verification/BinaryHeap.thy ===== *)
theory BinaryHeap
  imports Prelude "HOL-Library.Multiset"
begin

text \<open>
  The priority queues of \<^verbatim>\<open>packages/retrieval/src/semantic/ann-index.ts\<close>: \<^verbatim>\<open>MinHeap\<close> and \<^verbatim>\<open>MaxHeap\<close>, arrays in heap
  order. The two classes differ in two comparisons: the one that stops \<^verbatim>\<open>_bubbleUp\<close> and the one by which
  \<^verbatim>\<open>_sinkDown\<close> prefers a child; they are arguments here. The locale \<open>heap_order\<close> says what the two have to do
  with each other and derives the contract of a priority queue, and both classes interpret it.
  Distances are of any linear order: doubles that are not NaN are one.
\<close>

record 'd heap_item =
  hi_id :: int
  hi_dist :: 'd

definition swap :: "'a list \<Rightarrow> nat \<Rightarrow> nat \<Rightarrow> 'a list" where
  "swap xs a b = xs[a := xs ! b, b := xs ! a]"

fun bubbleUp :: "('d \<Rightarrow> 'd \<Rightarrow> bool) \<Rightarrow> 'd heap_item list \<Rightarrow> nat \<Rightarrow> 'd heap_item list" where
  "bubbleUp stop xs i =
     (if i = 0 then xs
      else let parent = (i - 1) div 2 in
        if stop (hi_dist (xs ! parent)) (hi_dist (xs ! i)) then xs
        else bubbleUp stop (swap xs parent i) parent)"

declare bubbleUp.simps [simp del]

definition better_child :: "('d \<Rightarrow> 'd \<Rightarrow> bool) \<Rightarrow> 'd heap_item list \<Rightarrow> nat \<Rightarrow> nat" where
  "better_child better xs i =
     (let l = 2 * i + 1; r = 2 * i + 2;
          s = (if l < length xs \<and> better (hi_dist (xs ! l)) (hi_dist (xs ! i)) then l else i)
      in if r < length xs \<and> better (hi_dist (xs ! r)) (hi_dist (xs ! s)) then r else s)"

lemma better_child_range: "better_child better xs i \<noteq> i \<Longrightarrow> i < better_child better xs i \<and> better_child better xs i < length xs"
  by (auto simp: better_child_def Let_def split: if_splits)

lemma length_swap [simp]: "length (swap xs a b) = length xs"
  by (simp add: swap_def)

function sinkDown :: "('d \<Rightarrow> 'd \<Rightarrow> bool) \<Rightarrow> 'd heap_item list \<Rightarrow> nat \<Rightarrow> 'd heap_item list" where
  "sinkDown better xs i =
     (let smallest = better_child better xs i in
      if smallest = i then xs else sinkDown better (swap xs smallest i) smallest)"
  by auto
termination
proof (relation "measure (\<lambda>(better, xs, i). length xs - i)")
  fix better :: "'a \<Rightarrow> 'a \<Rightarrow> bool" and xs i x
  assume "x = better_child better xs i" "x \<noteq> i"
  then have "i < x \<and> x < length xs" using better_child_range by blast
  then show "((better, swap xs x i, x), (better, xs, i)) \<in> measure (\<lambda>(better, xs, i). length xs - i)"
    by (simp add: diff_less_mono2)
qed simp

declare sinkDown.simps [simp del]

definition heap_push :: "('d \<Rightarrow> 'd \<Rightarrow> bool) \<Rightarrow> 'd heap_item \<Rightarrow> 'd heap_item list \<Rightarrow> 'd heap_item list" where
  "heap_push stop item xs = bubbleUp stop (xs @ [item]) (length xs)"

definition heap_pop :: "('d \<Rightarrow> 'd \<Rightarrow> bool) \<Rightarrow> 'd heap_item list \<Rightarrow> 'd heap_item option \<times> 'd heap_item list" where
  "heap_pop better xs =
     (if xs = [] then (None, xs)
      else let top = xs ! 0; rest = butlast xs in
        (Some top, if rest = [] then rest else sinkDown better (rest[0 := last xs]) 0))"

definition heap_peek :: "'d heap_item list \<Rightarrow> 'd heap_item option" where
  "heap_peek xs = (if xs = [] then None else Some (xs ! 0))"

text \<open>\<^verbatim>\<open>MinHeap\<close> and \<^verbatim>\<open>MaxHeap\<close>.\<close>

definition min_push :: "('d :: linorder) heap_item \<Rightarrow> 'd heap_item list \<Rightarrow> 'd heap_item list" where
  "min_push = heap_push (\<lambda>parent child. parent \<le> child)"

definition min_pop :: "('d :: linorder) heap_item list \<Rightarrow> 'd heap_item option \<times> 'd heap_item list" where
  "min_pop = heap_pop (\<lambda>child smallest. child < smallest)"

definition max_push :: "('d :: linorder) heap_item \<Rightarrow> 'd heap_item list \<Rightarrow> 'd heap_item list" where
  "max_push = heap_push (\<lambda>parent child. parent \<ge> child)"

definition max_pop :: "('d :: linorder) heap_item list \<Rightarrow> 'd heap_item option \<times> 'd heap_item list" where
  "max_pop = heap_pop (\<lambda>child largest. child > largest)"

definition toSortedAsc :: "('d :: linorder) heap_item list \<Rightarrow> 'd heap_item list" where
  "toSortedAsc xs = sort_key hi_dist xs"

section \<open>Swaps\<close>

lemma mset_swap [simp]: "a < length xs \<Longrightarrow> b < length xs \<Longrightarrow> mset (swap xs a b) = mset xs"
  by (simp add: swap_def mset_swap)

lemma nth_swap: "a < length xs \<Longrightarrow> b < length xs \<Longrightarrow> swap xs a b ! k = (if k = b then xs ! a else if k = a then xs ! b else xs ! k)"
  by (simp add: swap_def nth_list_update)

lemma length_bubbleUp [simp]: "length (bubbleUp stop xs i) = length xs"
  by (induction stop xs i rule: bubbleUp.induct) (subst bubbleUp.simps, simp add: Let_def)

lemma length_sinkDown [simp]: "length (sinkDown better xs i) = length xs"
  by (induction better xs i rule: sinkDown.induct) (subst sinkDown.simps, simp add: Let_def)

lemma mset_bubbleUp [simp]: "i < length xs \<Longrightarrow> mset (bubbleUp stop xs i) = mset xs"
  by (induction stop xs i rule: bubbleUp.induct) (subst bubbleUp.simps, simp add: Let_def)

lemma mset_sinkDown [simp]: "i < length xs \<Longrightarrow> mset (sinkDown better xs i) = mset xs"
proof (induction better xs i rule: sinkDown.induct)
  case (1 better xs i)
  then show ?case
    using better_child_range [of better xs i] by (subst sinkDown.simps) (auto simp: Let_def)
qed

section \<open>Heap order\<close>

definition par :: "nat \<Rightarrow> nat" where
  "par i = (i - 1) div 2"

lemma par_less [simp]: "0 < i \<Longrightarrow> par i < i"
  by (simp add: par_def less_eq_div_iff_mult_less_eq)

lemma par_child: "0 < j \<Longrightarrow> par j = i \<longleftrightarrow> j = 2 * i + 1 \<or> j = 2 * i + 2"
  by (auto simp: par_def)

lemmas bubbleUp_eq = bubbleUp.simps [folded par_def, unfolded Let_def]

definition is_heap :: "('d \<Rightarrow> 'd \<Rightarrow> bool) \<Rightarrow> 'd heap_item list \<Rightarrow> bool" where
  "is_heap stop xs \<longleftrightarrow> (\<forall>i. 0 < i \<and> i < length xs \<longrightarrow> stop (hi_dist (xs ! par i)) (hi_dist (xs ! i)))"

text \<open>In heap order but for the edge above (or the edges below) \<open>i\<close>.\<close>

definition heap_above :: "('d \<Rightarrow> 'd \<Rightarrow> bool) \<Rightarrow> 'd heap_item list \<Rightarrow> nat \<Rightarrow> bool" where
  "heap_above stop xs i \<longleftrightarrow>
     (\<forall>j. 0 < j \<and> j < length xs \<and> j \<noteq> i \<longrightarrow> stop (hi_dist (xs ! par j)) (hi_dist (xs ! j)))
     \<and> (\<forall>j. 0 < i \<and> 0 < j \<and> j < length xs \<and> par j = i \<longrightarrow> stop (hi_dist (xs ! par i)) (hi_dist (xs ! j)))"

definition heap_below :: "('d \<Rightarrow> 'd \<Rightarrow> bool) \<Rightarrow> 'd heap_item list \<Rightarrow> nat \<Rightarrow> bool" where
  "heap_below stop xs i \<longleftrightarrow>
     (\<forall>j. 0 < j \<and> j < length xs \<and> par j \<noteq> i \<longrightarrow> stop (hi_dist (xs ! par j)) (hi_dist (xs ! j)))
     \<and> (\<forall>j. 0 < i \<and> 0 < j \<and> j < length xs \<and> par j = i \<longrightarrow> stop (hi_dist (xs ! par i)) (hi_dist (xs ! j)))"

text \<open>
  The contract: a run of pushes and pops answers each pop with an element that comes first among those in
  the queue, and with nothing only when the queue is empty.
\<close>

datatype 'd heap_op = Push "'d heap_item" | Pop

fun heap_run ::
  "('d heap_item \<Rightarrow> 'q \<Rightarrow> 'q) \<Rightarrow> ('q \<Rightarrow> 'd heap_item option \<times> 'q) \<Rightarrow> 'd heap_op list \<Rightarrow> 'q \<Rightarrow> 'd heap_item option list" where
  "heap_run push pop [] q = []"
| "heap_run push pop (Push x # ops) q = heap_run push pop ops (push x q)"
| "heap_run push pop (Pop # ops) q = fst (pop q) # heap_run push pop ops (snd (pop q))"

fun queue_spec :: "('d \<Rightarrow> 'd \<Rightarrow> bool) \<Rightarrow> 'd heap_op list \<Rightarrow> 'd heap_item option list \<Rightarrow> 'd heap_item multiset \<Rightarrow> bool" where
  "queue_spec le [] rs M \<longleftrightarrow> rs = []"
| "queue_spec le (Push x # ops) rs M \<longleftrightarrow> queue_spec le ops rs (add_mset x M)"
| "queue_spec le (Pop # ops) [] M \<longleftrightarrow> False"
| "queue_spec le (Pop # ops) (None # rs) M \<longleftrightarrow> M = {#} \<and> queue_spec le ops rs M"
| "queue_spec le (Pop # ops) (Some x # rs) M \<longleftrightarrow>
     x \<in># M \<and> (\<forall>y \<in># M. le (hi_dist x) (hi_dist y)) \<and> queue_spec le ops rs (M - {#x#})"

locale heap_order =
  fixes stop :: "'d \<Rightarrow> 'd \<Rightarrow> bool" and better :: "'d \<Rightarrow> 'd \<Rightarrow> bool"
  assumes better_iff: "better a b \<longleftrightarrow> \<not> stop b a"
    and stop_trans: "stop a b \<Longrightarrow> stop b c \<Longrightarrow> stop a c"
    and stop_total: "stop a b \<or> stop b a"
begin

lemma stop_refl [simp]: "stop a a"
  using stop_total by blast

lemma heap_above_step:
  assumes "heap_above stop xs i" and "0 < i" and "i < length xs" and "\<not> stop (hi_dist (xs ! par i)) (hi_dist (xs ! i))"
  shows "heap_above stop (swap xs (par i) i) (par i)"
proof -
  let ?d = "\<lambda>k. hi_dist (xs ! k)"
  have up: "stop (?d i) (?d (par i))" using assms(4) stop_total by blast
  have p: "par i < i" using assms(2) by simp
  have s: "swap xs (par i) i ! k = (if k = i then xs ! par i else if k = par i then xs ! i else xs ! k)" for k
    using nth_swap p assms(3) by (metis order.strict_trans)
  have a1: "stop (?d (par j)) (?d j)" if "0 < j" "j < length xs" "j \<noteq> i" for j
    using assms(1) that by (simp add: heap_above_def)
  have a2: "stop (?d (par i)) (?d j)" if "0 < j" "j < length xs" "par j = i" for j
    using assms(1,2) that unfolding heap_above_def by blast
  have "stop (hi_dist (swap xs (par i) i ! par j)) (hi_dist (swap xs (par i) i ! j))" if "0 < j" "j < length xs" "j \<noteq> par i" for j
  proof (cases "j = i")
    case True
    then show ?thesis using up p by (simp add: s)
  next
    case False
    consider "par j = par i" | "par j = i" | "par j \<noteq> par i" "par j \<noteq> i" by blast
    then show ?thesis
    proof cases
      case 1
      then show ?thesis using stop_trans [OF up] a1 [OF that(1,2) False] that(3) False p by (simp add: s)
    next
      case 2
      then show ?thesis using a2 [OF that(1,2)] that(3) False by (simp add: s)
    next
      case 3
      then show ?thesis using a1 [OF that(1,2) False] that(3) False by (simp add: s)
    qed
  qed
  moreover have "stop (hi_dist (swap xs (par i) i ! par (par i))) (hi_dist (swap xs (par i) i ! j))"
    if "0 < par i" "0 < j" "j < length xs" "par j = par i" for j
  proof -
    have q: "par (par i) < par i" using that(1) by simp
    have top: "stop (?d (par (par i))) (?d (par i))" using a1 [of "par i"] that(1) p assms(3) by simp
    have "j \<noteq> par i" using that(2,4) q by auto
    then show ?thesis
      using top stop_trans [OF top] a1 [OF that(2,3)] that(4) q p by (auto simp: s)
  qed
  ultimately show ?thesis unfolding heap_above_def by simp
qed

lemma bubbleUp_heap: "i < length xs \<Longrightarrow> heap_above stop xs i \<Longrightarrow> is_heap stop (bubbleUp stop xs i)"
proof (induction i arbitrary: xs rule: less_induct)
  case (less i)
  show ?case
  proof (cases "i = 0 \<or> stop (hi_dist (xs ! par i)) (hi_dist (xs ! i))")
    case True
    then have "is_heap stop xs" using less.prems by (auto simp: is_heap_def heap_above_def)
    then show ?thesis using True by (subst bubbleUp_eq) auto
  next
    case False
    have "is_heap stop (bubbleUp stop (swap xs (par i) i) (par i))"
      using False less.prems heap_above_step by (intro less.IH) (simp_all add: order.strict_trans [OF par_less])
    then show ?thesis using False by (subst bubbleUp_eq) simp
  qed
qed

lemma better_child_stops:
  fixes xs i
  defines "c \<equiv> better_child better xs i"
  shows "stop (hi_dist (xs ! c)) (hi_dist (xs ! i))"
    and "2 * i + 1 < length xs \<Longrightarrow> stop (hi_dist (xs ! c)) (hi_dist (xs ! (2 * i + 1)))"
    and "2 * i + 2 < length xs \<Longrightarrow> stop (hi_dist (xs ! c)) (hi_dist (xs ! (2 * i + 2)))"
proof -
  let ?d = "\<lambda>k. hi_dist (xs ! k)" and ?l = "2 * i + 1" and ?r = "2 * i + 2"
  define s where "s = (if ?l < length xs \<and> better (?d ?l) (?d i) then ?l else i)"
  have c: "c = (if ?r < length xs \<and> better (?d ?r) (?d s) then ?r else s)"
    by (simp add: c_def better_child_def Let_def s_def)
  have si: "stop (?d s) (?d i)" using stop_total [of "?d ?l" "?d i"] by (auto simp: s_def better_iff)
  have sl: "?l < length xs \<Longrightarrow> stop (?d s) (?d ?l)" using stop_total [of "?d ?l" "?d i"] by (auto simp: s_def better_iff)
  have cs: "stop (?d c) (?d s)" using stop_total [of "?d ?r" "?d s"] by (auto simp: c better_iff)
  show "stop (?d c) (?d i)" using cs si by (rule stop_trans)
  show "?l < length xs \<Longrightarrow> stop (?d c) (?d ?l)" using cs sl by (blast intro: stop_trans)
  show "?r < length xs \<Longrightarrow> stop (?d c) (?d ?r)" by (auto simp: c better_iff)
qed

lemma better_child_best:
  "0 < j \<Longrightarrow> j < length xs \<Longrightarrow> par j = i \<Longrightarrow> stop (hi_dist (xs ! better_child better xs i)) (hi_dist (xs ! j))"
  using better_child_stops(2,3) [of i xs] par_child [of j i] by auto

lemma better_child_is_child: "better_child better xs i \<noteq> i \<Longrightarrow> par (better_child better xs i) = i"
  by (auto simp: better_child_def Let_def par_def split: if_splits)

lemma heap_below_step:
  assumes "heap_below stop xs i" and "better_child better xs i \<noteq> i"
  shows "heap_below stop (swap xs (better_child better xs i) i) (better_child better xs i)"
proof -
  let ?c = "better_child better xs i" and ?d = "\<lambda>k. hi_dist (xs ! k)"
  have c: "i < ?c" "?c < length xs" "par ?c = i" using better_child_range better_child_is_child assms(2) by blast+
  have s: "swap xs ?c i ! k = (if k = i then xs ! ?c else if k = ?c then xs ! i else xs ! k)" for k
    using c nth_swap [of ?c xs i] by simp
  have a1: "stop (?d (par j)) (?d j)" if "0 < j" "j < length xs" "par j \<noteq> i" for j
    using assms(1) that by (simp add: heap_below_def)
  have a2: "stop (?d (par i)) (?d j)" if "0 < i" "0 < j" "j < length xs" "par j = i" for j
    using assms(1) that unfolding heap_below_def by blast
  have "stop (hi_dist (swap xs ?c i ! par j)) (hi_dist (swap xs ?c i ! j))" if "0 < j" "j < length xs" "par j \<noteq> ?c" for j
  proof (cases "par j = i")
    case True
    then have "j \<noteq> i" using par_less [OF that(1)] by auto
    then show ?thesis using True better_child_best [OF that(1,2) True] better_child_stops(1) [of xs i] by (simp add: s)
  next
    case False
    then have "j \<noteq> ?c" using c(3) by auto
    then show ?thesis using a1 [OF that(1,2) False] a2 [of ?c] c that False by (auto simp: s)
  qed
  moreover have "stop (hi_dist (swap xs ?c i ! par ?c)) (hi_dist (swap xs ?c i ! j))" if "0 < j" "j < length xs" "par j = ?c" for j
  proof -
    have "?c < j" using par_less [OF that(1)] that(3) by simp
    then show ?thesis using a1 [OF that(1,2)] that(3) c by (simp add: s)
  qed
  ultimately show ?thesis unfolding heap_below_def by simp
qed

lemma sinkDown_heap: "heap_below stop xs i \<Longrightarrow> is_heap stop (sinkDown better xs i)"
proof (induction "length xs - i" arbitrary: xs i rule: less_induct)
  case less
  let ?c = "better_child better xs i"
  show ?case
  proof (cases "?c = i")
    case True
    have "is_heap stop xs"
      using less.prems better_child_best [of _ xs i] True by (auto simp: is_heap_def heap_below_def)
    then show ?thesis using True by (subst sinkDown.simps) simp
  next
    case False
    have "length (swap xs ?c i) - ?c < length xs - i"
      using better_child_range [OF False] by (simp add: diff_less_mono2)
    from less.hyps [OF this heap_below_step [OF less.prems False]] show ?thesis
      using False by (subst sinkDown.simps) (simp add: Let_def)
  qed
qed

lemma heap_top: "is_heap stop xs \<Longrightarrow> i < length xs \<Longrightarrow> stop (hi_dist (xs ! 0)) (hi_dist (xs ! i))"
proof (induction i rule: less_induct)
  case (less i)
  show ?case
  proof (cases "i = 0")
    case False
    then have "par i < i" by simp
    then have "stop (hi_dist (xs ! 0)) (hi_dist (xs ! par i))" using less by simp
    then show ?thesis using less.prems False stop_trans by (auto simp: is_heap_def)
  qed simp
qed

lemma heap_Nil: "is_heap stop []"
  by (simp add: is_heap_def)

lemma heap_single: "is_heap stop [x]"
  by (simp add: is_heap_def)

lemma pop_Nil: "heap_pop better [] = (None, [])"
  by (simp add: heap_pop_def)

lemma push_heap:
  assumes "is_heap stop xs"
  shows "is_heap stop (heap_push stop x xs)"
proof -
  have p: "par j < length xs" if "0 < j" "j < length (xs @ [x])" for j
    using par_less [OF that(1)] that(2) by simp
  have "stop (hi_dist ((xs @ [x]) ! par j)) (hi_dist ((xs @ [x]) ! j))" if "0 < j" "j < length (xs @ [x])" "j \<noteq> length xs" for j
  proof -
    have "j < length xs" using that(2,3) by simp
    then show ?thesis using assms that(1) p [OF that(1,2)] by (simp add: is_heap_def nth_append)
  qed
  then have "heap_above stop (xs @ [x]) (length xs)"
    unfolding heap_above_def using p by (metis order_less_irrefl)
  then show ?thesis unfolding heap_push_def by (intro bubbleUp_heap) simp_all
qed

lemma push_mset: "mset (heap_push stop x xs) = add_mset x (mset xs)"
  by (simp add: heap_push_def)

lemma pop_heap: "is_heap stop xs \<Longrightarrow> is_heap stop (snd (heap_pop better xs))"
proof -
  assume h: "is_heap stop xs"
  have "heap_below stop ((butlast xs)[0 := last xs]) 0"
    using h by (auto simp: heap_below_def is_heap_def nth_list_update nth_butlast par_def less_diff_conv)
  then show ?thesis by (auto simp: heap_pop_def Let_def heap_Nil intro: sinkDown_heap)
qed

lemma pop_mset:
  assumes "xs \<noteq> []"
  shows "fst (heap_pop better xs) = Some (hd xs)" and "add_mset (hd xs) (mset (snd (heap_pop better xs))) = mset xs"
proof -
  show "fst (heap_pop better xs) = Some (hd xs)" using assms by (simp add: heap_pop_def Let_def hd_conv_nth)
  show "add_mset (hd xs) (mset (snd (heap_pop better xs))) = mset xs"
  proof (cases "butlast xs")
    case Nil
    then show ?thesis using assms by (cases xs) (auto simp: heap_pop_def Let_def split: if_splits)
  next
    case (Cons a ys)
    then have "xs = a # ys @ [last xs]" using assms append_butlast_last_id [OF assms] by simp
    then have "mset xs = add_mset a (mset (last xs # ys))" by (metis mset.simps(2) mset_append add_mset_add_single union_commute mset.simps(1))
    moreover have "hd xs = a" using \<open>xs = a # ys @ [last xs]\<close> by (metis list.sel(1))
    ultimately show ?thesis using Cons assms by (simp add: heap_pop_def Let_def)
  qed
qed

lemma pop_best:
  assumes "is_heap stop xs" and "y \<in># mset xs"
  shows "\<exists>x. fst (heap_pop better xs) = Some x \<and> heap_peek xs = Some x \<and> stop (hi_dist x) (hi_dist y)"
proof -
  obtain i where "i < length xs" "xs ! i = y" using assms(2) by (auto simp: in_set_conv_nth)
  then show ?thesis using heap_top [OF assms(1)] by (auto simp: heap_pop_def heap_peek_def Let_def)
qed

lemma run_refines:
  "is_heap stop xs \<Longrightarrow> queue_spec stop ops (heap_run (heap_push stop) (heap_pop better) ops xs) (mset xs)"
proof (induction ops arbitrary: xs)
  case (Cons p ops)
  show ?case
  proof (cases p)
    case (Push x)
    then show ?thesis using Cons.IH [OF push_heap [OF Cons.prems]] by (simp add: push_mset)
  next
    case Pop
    show ?thesis
    proof (cases "xs = []")
      case True
      then show ?thesis using Cons.IH [OF heap_Nil] Pop pop_Nil by simp
    next
      case False
      have best: "\<forall>y \<in># mset xs. stop (hi_dist (hd xs)) (hi_dist y)"
        using pop_best [OF Cons.prems] pop_mset(1) [OF False] by fastforce
      have "mset (snd (heap_pop better xs)) = mset xs - {#hd xs#}"
        using pop_mset(2) [OF False] by (metis add_mset_remove_trivial)
      then show ?thesis
        using Cons.IH [OF pop_heap [OF Cons.prems]] pop_mset(1) [OF False] best False Pop by simp
    qed
  qed
qed simp

end

interpretation min_heap: heap_order "\<lambda>a b :: 'd :: linorder. a \<le> b" "\<lambda>a b. a < b"
  by unfold_locales auto

interpretation max_heap: heap_order "\<lambda>a b :: 'd :: linorder. a \<ge> b" "\<lambda>a b. a > b"
  by unfold_locales auto

text \<open>
  C15. \<^verbatim>\<open>MinHeap\<close> and \<^verbatim>\<open>MaxHeap\<close> are priority queues: in every run of pushes and pops from an empty heap, each pop
  of the first gives an item of least distance among those held, each pop of the second one of greatest
  distance, the held items are those pushed and not popped, and nothing comes back only from an empty heap.
\<close>

theorem heaps_refine_priority_queue:
  fixes ops :: "('d :: linorder) heap_op list"
  shows "queue_spec (\<le>) ops (heap_run min_push min_pop ops []) {#} \<and> queue_spec (\<ge>) ops (heap_run max_push max_pop ops []) {#}"
  using min_heap.run_refines [OF min_heap.heap_Nil, of ops] max_heap.run_refines [OF max_heap.heap_Nil, of ops]
  by (simp add: min_push_def min_pop_def max_push_def max_pop_def)

section \<open>What the search uses of the heaps\<close>

abbreviation min_ordered :: "('d :: linorder) heap_item list \<Rightarrow> bool" where
  "min_ordered \<equiv> is_heap (\<lambda>a b. a \<le> b)"

abbreviation max_ordered :: "('d :: linorder) heap_item list \<Rightarrow> bool" where
  "max_ordered \<equiv> is_heap (\<lambda>a b. a \<ge> b)"

lemma min_push_laws:
  "min_ordered xs \<Longrightarrow> min_ordered (min_push x xs)" "mset (min_push x xs) = add_mset x (mset xs)"
  by (simp_all add: min_push_def min_heap.push_heap min_heap.push_mset)

lemma max_push_laws:
  "max_ordered xs \<Longrightarrow> max_ordered (max_push x xs)" "mset (max_push x xs) = add_mset x (mset xs)"
  by (simp_all add: max_push_def max_heap.push_heap max_heap.push_mset)

lemma min_pop_laws:
  assumes "min_ordered xs" and "xs \<noteq> []"
  obtains x ys where "min_pop xs = (Some x, ys)" "min_ordered ys" "mset xs = add_mset x (mset ys)" "\<forall>y \<in> set xs. hi_dist x \<le> hi_dist y"
proof -
  have "\<forall>y \<in> set xs. hi_dist (hd xs) \<le> hi_dist y"
    using min_heap.pop_best [OF assms(1)] min_heap.pop_mset(1) [OF assms(2)] by fastforce
  then show thesis
    using that [of "hd xs" "snd (min_pop xs)"] min_heap.pop_mset [OF assms(2)] min_heap.pop_heap [OF assms(1)]
    by (simp add: min_pop_def prod_eq_iff)
qed

lemma max_pop_laws:
  assumes "max_ordered xs" and "xs \<noteq> []"
  obtains x ys where "max_pop xs = (Some x, ys)" "max_ordered ys" "mset xs = add_mset x (mset ys)" "\<forall>y \<in> set xs. hi_dist y \<le> hi_dist x"
proof -
  have "\<forall>y \<in> set xs. hi_dist y \<le> hi_dist (hd xs)"
    using max_heap.pop_best [OF assms(1)] max_heap.pop_mset(1) [OF assms(2)] by fastforce
  then show thesis
    using that [of "hd xs" "snd (max_pop xs)"] max_heap.pop_mset [OF assms(2)] max_heap.pop_heap [OF assms(1)]
    by (simp add: max_pop_def prod_eq_iff)
qed

lemma max_peek: "max_ordered xs \<Longrightarrow> xs \<noteq> [] \<Longrightarrow> \<exists>x \<in> set xs. heap_peek xs = Some x \<and> (\<forall>y \<in> set xs. hi_dist y \<le> hi_dist x)"
  using max_heap.heap_top [of xs] by (fastforce simp: heap_peek_def in_set_conv_nth)

lemma sorted_toSortedAsc: "sorted (map hi_dist (toSortedAsc xs))" and mset_toSortedAsc [simp]: "mset (toSortedAsc xs) = mset xs"
  by (simp_all add: toSortedAsc_def)

end
