(* ===== verification/AnnIndex.thy ===== *)
theory AnnIndex
  imports Complex_Main BinaryHeap
begin

text \<open>
  The approximate nearest-neighbour index of \<^verbatim>\<open>packages/retrieval/src/semantic/ann-index.ts\<close>: a layered graph of
  embedding vectors (\<^verbatim>\<open>HnswIndex\<close>), its best-first search, insertion and serialization.

  Vectors are lists of any element type and the operations take the distance of two vectors as an argument,
  with values in any linear order; the cosine distance of the code is \<open>distance\<close>, with real numbers for
  doubles. The draws of \<^verbatim>\<open>Math.random\<close> are an argument too: \<open>coin n\<close> tells whether the \<open>n\<close>-th draw is below
  \<^verbatim>\<open>1 / m\<close>. An operation that would read a property of \<^verbatim>\<open>undefined\<close> gives None.
\<close>

section \<open>Distance\<close>

definition dot :: "real list \<Rightarrow> real list \<Rightarrow> real" where
  "dot a b = sum_list (map2 (*) a b)"

definition cosineSimilarity :: "real list \<Rightarrow> real list \<Rightarrow> real" where
  "cosineSimilarity a b =
     (if length a \<noteq> length b \<or> length a = 0 then 0
      else let denom = sqrt (dot a a) * sqrt (dot b b) in if denom > 0 then dot a b / denom else 0)"

definition distance :: "real list \<Rightarrow> real list \<Rightarrow> real" where
  "distance a b = 1 - cosineSimilarity a b"

section \<open>The index\<close>

record 'e ann_node =
  an_chunkId :: string
  an_vector :: "'e list"
  an_neighbors :: "int list list"

record hnsw_config =
  hc_m :: nat
  hc_efConstruction :: nat
  hc_efSearch :: nat

definition DEFAULT_HNSW_CONFIG :: hnsw_config where
  "DEFAULT_HNSW_CONFIG = \<lparr>hc_m = 16, hc_efConstruction = 200, hc_efSearch = 50\<rparr>"

type_synonym 'e ann_nodes = "(int, 'e ann_node) js_map"

record 'e hnsw =
  hn_nodes :: "'e ann_nodes"
  hn_entryPointId :: int
  hn_maxLayer :: nat
  hn_nextId :: int
  hn_modelName :: string
  hn_config :: hnsw_config

definition new_hnsw :: "string \<Rightarrow> hnsw_config \<Rightarrow> 'e hnsw" where
  "new_hnsw modelName config = \<lparr>hn_nodes = [], hn_entryPointId = -1, hn_maxLayer = 0, hn_nextId = 0,
     hn_modelName = modelName, hn_config = config\<rparr>"

text \<open>The draws stop at the first that is not below, or at level 16; the last draw is made in any case.\<close>

function randomLayer :: "(nat \<Rightarrow> bool) \<Rightarrow> nat \<Rightarrow> nat \<Rightarrow> nat \<times> nat" where
  "randomLayer coin draw level =
     (if coin draw \<and> level < 16 then randomLayer coin (draw + 1) (level + 1) else (level, draw + 1))"
  by auto
termination by (relation "measure (\<lambda>(coin, draw, level). 16 - level)") auto

declare randomLayer.simps [simp del]

section \<open>Search of a layer\<close>

type_synonym 'd search_state = "int list \<times> 'd heap_item list \<times> 'd heap_item list"

text \<open>The largest distance of the results, which are never empty (\<open>results_nonempty\<close>).\<close>

definition worst :: "'d heap_item list \<Rightarrow> 'd" where
  "worst results = hi_dist (hd results)"

definition visitNeighbor ::
  "('e list \<Rightarrow> 'e list \<Rightarrow> 'd :: linorder) \<Rightarrow> 'e list \<Rightarrow> 'e ann_nodes \<Rightarrow> nat \<Rightarrow> int \<Rightarrow> 'd search_state \<Rightarrow> 'd search_state" where
  "visitNeighbor metric q nodes ef neighborId st =
     (case st of (visited, candidates, results) \<Rightarrow>
        if neighborId \<in> set visited then st
        else case map_of nodes neighborId of
          None \<Rightarrow> (visited @ [neighborId], candidates, results)
        | Some neighborNode \<Rightarrow>
            let d = metric q (an_vector neighborNode); item = \<lparr>hi_id = neighborId, hi_dist = d\<rparr> in
            if length results < ef \<or> d < worst results
            then let pushed = max_push item results in
              (visited @ [neighborId], min_push item candidates, if length pushed > ef then snd (max_pop pushed) else pushed)
            else (visited @ [neighborId], candidates, results))"

definition visitAll ::
  "('e list \<Rightarrow> 'e list \<Rightarrow> 'd :: linorder) \<Rightarrow> 'e list \<Rightarrow> 'e ann_nodes \<Rightarrow> nat \<Rightarrow> int list \<Rightarrow> 'd search_state \<Rightarrow> 'd search_state" where
  "visitAll metric q nodes ef ids st = fold (visitNeighbor metric q nodes ef) ids st"

text \<open>The neighbours of a node on a layer; none for a node that is missing or does not reach the layer.\<close>

definition layer_neighbors :: "'e ann_nodes \<Rightarrow> nat \<Rightarrow> int \<Rightarrow> int list" where
  "layer_neighbors nodes layer i =
     (case map_of nodes i of None \<Rightarrow> []
      | Some node \<Rightarrow> if layer \<ge> length (an_neighbors node) then [] else an_neighbors node ! layer)"

lemma length_min_push [simp]: "length (min_push x xs) = Suc (length xs)"
  using arg_cong [OF min_push_laws(2) [of x xs], of size] by simp

lemma length_max_push [simp]: "length (max_push x xs) = Suc (length xs)"
  using arg_cong [OF max_push_laws(2) [of x xs], of size] by simp

lemma length_min_pop: "length (snd (min_pop xs)) = length xs - 1"
  by (cases xs rule: rev_cases) (auto simp: min_pop_def heap_pop_def Let_def)

lemma length_max_pop: "length (snd (max_pop xs)) = length xs - 1"
  by (cases xs rule: rev_cases) (auto simp: max_pop_def heap_pop_def Let_def)

definition search_measure :: "'e ann_nodes \<Rightarrow> 'd search_state \<Rightarrow> nat" where
  "search_measure nodes st = length (fst (snd st)) + card (fst ` set nodes - set (fst st))"

lemma visitNeighbor_measure: "search_measure nodes (visitNeighbor metric q nodes ef i st) \<le> search_measure nodes st"
proof -
  obtain v c r where st: "st = (v, c, r)" by (cases st) auto
  have mono: "card (fst ` set nodes - insert i (set v)) \<le> card (fst ` set nodes - set v)"
    by (intro card_mono) auto
  have less: "card (fst ` set nodes - insert i (set v)) < card (fst ` set nodes - set v)" if "i \<in> fst ` set nodes" "i \<notin> set v"
    using that by (intro psubset_card_mono) auto
  show ?thesis
  proof (cases "i \<in> set v \<or> map_of nodes i = None")
    case True
    then show ?thesis using mono by (auto simp: visitNeighbor_def search_measure_def st)
  next
    case False
    then have "i \<in> fst ` set nodes" "i \<notin> set v" by (auto simp: map_of_eq_None_iff)
    then show ?thesis
      using less False mono by (auto simp: visitNeighbor_def search_measure_def st Let_def split: option.splits)
  qed
qed

lemma visitAll_measure: "search_measure nodes (visitAll metric q nodes ef ids st) \<le> search_measure nodes st"
  unfolding visitAll_def
proof (induction ids arbitrary: st)
  case (Cons i ids)
  show ?case using order_trans [OF Cons.IH visitNeighbor_measure] by simp
qed simp

lemma pop_measure:
  assumes "min_pop candidates = (Some current, rest)"
  shows "search_measure nodes (visitAll metric q nodes ef ids (visited, rest, results)) < search_measure nodes (visited, candidates, results)"
proof -
  have "candidates \<noteq> []" using assms by (auto simp: min_pop_def heap_pop_def)
  then have "length rest < length candidates"
    using assms length_min_pop [of candidates] by (cases candidates) simp_all
  then have "search_measure nodes (visited, rest, results) < search_measure nodes (visited, candidates, results)"
    by (simp add: search_measure_def)
  then show ?thesis by (rule order.strict_trans1 [OF visitAll_measure])
qed

function searchLoop ::
  "('e list \<Rightarrow> 'e list \<Rightarrow> 'd :: linorder) \<Rightarrow> 'e list \<Rightarrow> 'e ann_nodes \<Rightarrow> nat \<Rightarrow> nat \<Rightarrow> 'd search_state \<Rightarrow> 'd search_state" where
  "searchLoop metric q nodes ef layer (visited, candidates, results) =
     (case min_pop candidates of
        (None, _) \<Rightarrow> (visited, candidates, results)
      | (Some current, rest) \<Rightarrow>
          if length results \<ge> ef \<and> hi_dist current > worst results then (visited, rest, results)
          else searchLoop metric q nodes ef layer
            (visitAll metric q nodes ef (layer_neighbors nodes layer (hi_id current)) (visited, rest, results)))"
  by auto
termination
  by (relation "measure (\<lambda>(metric, q, nodes, ef, layer, st). search_measure nodes st)") (simp_all add: pop_measure eq_commute)

declare searchLoop.simps [simp del]

definition searchLayer ::
  "('e list \<Rightarrow> 'e list \<Rightarrow> 'd :: linorder) \<Rightarrow> 'e list \<Rightarrow> 'e ann_nodes \<Rightarrow> int \<Rightarrow> nat \<Rightarrow> nat \<Rightarrow> 'd heap_item list" where
  "searchLayer metric q nodes entryId ef layer =
     (case map_of nodes entryId of
        None \<Rightarrow> []
      | Some entryNode \<Rightarrow>
          let item = \<lparr>hi_id = entryId, hi_dist = metric q (an_vector entryNode)\<rparr> in
          toSortedAsc (snd (snd (searchLoop metric q nodes ef layer ([entryId], min_push item [], max_push item [])))))"

section \<open>Insertion\<close>

text \<open>The greedy descent: from layer \<open>hi\<close> down to layer \<open>lo + 1\<close> the entry moves to the closest node found.\<close>

definition closest :: "'d heap_item list \<Rightarrow> int \<Rightarrow> int" where
  "closest candidates entry = (case candidates of [] \<Rightarrow> entry | c # _ \<Rightarrow> hi_id c)"

function descend ::
  "('e list \<Rightarrow> 'e list \<Rightarrow> 'd :: linorder) \<Rightarrow> 'e list \<Rightarrow> 'e ann_nodes \<Rightarrow> nat \<Rightarrow> nat \<Rightarrow> int \<Rightarrow> int" where
  "descend metric q nodes lc lo entry =
     (if lc > lo then descend metric q nodes (lc - 1) lo (closest (searchLayer metric q nodes entry 1 lc) entry) else entry)"
  by auto
termination by (relation "measure (\<lambda>(metric, q, nodes, lc, lo, entry). lc)") auto

declare descend.simps [simp del]

definition selectNeighbors :: "'d heap_item list \<Rightarrow> nat \<Rightarrow> 'd heap_item list" where
  "selectNeighbors candidates m = take m candidates"

definition pruneConnections ::
  "('e list \<Rightarrow> 'e list \<Rightarrow> 'd :: linorder) \<Rightarrow> 'e ann_nodes \<Rightarrow> 'e list \<Rightarrow> int list \<Rightarrow> nat \<Rightarrow> int list" where
  "pruneConnections metric nodes nodeVector neighborIds m =
     map hi_id (take m (sort_key hi_dist (List.map_filter (\<lambda>i.
       map_option (\<lambda>n. \<lparr>hi_id = i, hi_dist = metric nodeVector (an_vector n)\<rparr>) (map_of nodes i)) neighborIds)))"

text \<open>The connection back from a selected neighbour.\<close>

definition linkNeighbor ::
  "('e list \<Rightarrow> 'e list \<Rightarrow> 'd :: linorder) \<Rightarrow> nat \<Rightarrow> int \<Rightarrow> nat \<Rightarrow> int \<Rightarrow> 'e ann_nodes \<Rightarrow> 'e ann_nodes option" where
  "linkNeighbor metric m i lc neighborId nodes =
     (case map_of nodes neighborId of
        None \<Rightarrow> None
      | Some nb \<Rightarrow>
          Some (if lc < length (an_neighbors nb)
            then let pushed = an_neighbors nb ! lc @ [i];
                     kept = (if length pushed > m * 2 then pruneConnections metric nodes (an_vector nb) pushed m else pushed)
                 in AList.update neighborId (nb\<lparr>an_neighbors := (an_neighbors nb)[lc := kept]\<rparr>) nodes
            else nodes))"

fun linkAll ::
  "('e list \<Rightarrow> 'e list \<Rightarrow> 'd :: linorder) \<Rightarrow> nat \<Rightarrow> int \<Rightarrow> nat \<Rightarrow> int list \<Rightarrow> 'e ann_nodes \<Rightarrow> 'e ann_nodes option" where
  "linkAll metric m i lc [] nodes = Some nodes"
| "linkAll metric m i lc (nid # nids) nodes = Option.bind (linkNeighbor metric m i lc nid nodes) (linkAll metric m i lc nids)"

definition insertLayer ::
  "('e list \<Rightarrow> 'e list \<Rightarrow> 'd :: linorder) \<Rightarrow> hnsw_config \<Rightarrow> int \<Rightarrow> 'e list \<Rightarrow> nat \<Rightarrow> int \<times> 'e ann_nodes
   \<Rightarrow> (int \<times> 'e ann_nodes) option" where
  "insertLayer metric cfg i q lc s =
     (let (entry, nodes) = s;
          candidates = searchLayer metric q nodes entry (hc_efConstruction cfg) lc;
          selected = map hi_id (selectNeighbors candidates (hc_m cfg))
      in case map_of nodes i of
           None \<Rightarrow> None
         | Some node \<Rightarrow>
             let nodes1 = (if lc < length (an_neighbors node)
                   then AList.update i (node\<lparr>an_neighbors := (an_neighbors node)[lc := selected]\<rparr>) nodes else nodes)
             in map_option (\<lambda>nodes2. (closest candidates entry, nodes2)) (linkAll metric (hc_m cfg) i lc selected nodes1))"

primrec insertLayers ::
  "('e list \<Rightarrow> 'e list \<Rightarrow> 'd :: linorder) \<Rightarrow> hnsw_config \<Rightarrow> int \<Rightarrow> 'e list \<Rightarrow> nat \<Rightarrow> int \<times> 'e ann_nodes
   \<Rightarrow> (int \<times> 'e ann_nodes) option" where
  "insertLayers metric cfg i q 0 s = insertLayer metric cfg i q 0 s"
| "insertLayers metric cfg i q (Suc lc) s = Option.bind (insertLayer metric cfg i q (Suc lc) s) (insertLayers metric cfg i q lc)"

definition insertOne ::
  "('e list \<Rightarrow> 'e list \<Rightarrow> 'd :: linorder) \<Rightarrow> (nat \<Rightarrow> bool) \<Rightarrow> string \<Rightarrow> 'e list \<Rightarrow> 'e hnsw \<times> nat \<Rightarrow> ('e hnsw \<times> nat) option" where
  "insertOne metric coin chunkId vector s =
     (let (idx, draw) = s in
      if vector = [] then Some s
      else
        let i = hn_nextId idx;
            (nodeLayer, draw') = randomLayer coin draw 0;
            nodes = AList.update i \<lparr>an_chunkId = chunkId, an_vector = vector, an_neighbors = replicate (nodeLayer + 1) []\<rparr> (hn_nodes idx);
            idx1 = idx\<lparr>hn_nextId := i + 1, hn_nodes := nodes\<rparr>
        in if hn_entryPointId idx = -1 then Some (idx1\<lparr>hn_entryPointId := i, hn_maxLayer := nodeLayer\<rparr>, draw')
           else
             let entry = descend metric vector nodes (hn_maxLayer idx) nodeLayer (hn_entryPointId idx) in
             map_option (\<lambda>(_, nodes'). let idx2 = idx1\<lparr>hn_nodes := nodes'\<rparr> in
                 (if nodeLayer > hn_maxLayer idx then idx2\<lparr>hn_maxLayer := nodeLayer, hn_entryPointId := i\<rparr> else idx2, draw'))
               (insertLayers metric (hn_config idx) i vector (min nodeLayer (hn_maxLayer idx)) (entry, nodes)))"

fun buildFromEntries ::
  "('e list \<Rightarrow> 'e list \<Rightarrow> 'd :: linorder) \<Rightarrow> (nat \<Rightarrow> bool) \<Rightarrow> (string \<times> 'e list) list \<Rightarrow> 'e hnsw \<times> nat \<Rightarrow> ('e hnsw \<times> nat) option" where
  "buildFromEntries metric coin [] s = Some s"
| "buildFromEntries metric coin ((chunkId, vector) # es) s =
     Option.bind (insertOne metric coin chunkId vector s) (buildFromEntries metric coin es)"

section \<open>Search\<close>

definition result_of :: "'e ann_nodes \<Rightarrow> ('d :: linordered_idom) heap_item \<Rightarrow> (string \<times> 'd) option" where
  "result_of nodes c = map_option (\<lambda>node. (an_chunkId node, 1 - hi_dist c)) (map_of nodes (hi_id c))"

fun results_of :: "'e ann_nodes \<Rightarrow> ('d :: linordered_idom) heap_item list \<Rightarrow> (string \<times> 'd) list option" where
  "results_of nodes [] = Some []"
| "results_of nodes (c # cs) = Option.bind (result_of nodes c) (\<lambda>r. map_option ((#) r) (results_of nodes cs))"

definition search_index ::
  "('e list \<Rightarrow> 'e list \<Rightarrow> 'd :: linordered_idom) \<Rightarrow> 'e list \<Rightarrow> nat \<Rightarrow> nat option \<Rightarrow> 'e hnsw \<Rightarrow> (string \<times> 'd) list option" where
  "search_index metric q k ef0 idx =
     (let ef = nullish ef0 (hc_efSearch (hn_config idx)) in
      if hn_entryPointId idx = -1 \<or> length (hn_nodes idx) = 0 then Some []
      else
        let entry = descend metric q (hn_nodes idx) (hn_maxLayer idx) 0 (hn_entryPointId idx);
            candidates = searchLayer metric q (hn_nodes idx) entry (max ef k) 0
        in results_of (hn_nodes idx) (take k candidates))"

section \<open>Serialization\<close>

record 'e serial_node =
  sn_id :: int
  sn_chunkId :: string
  sn_vector :: "'e list"
  sn_neighbors :: "int list list"

record 'e hnsw_serial =
  hs_version :: int
  hs_modelName :: string
  hs_M :: nat
  hs_efConstruction :: nat
  hs_entryPointId :: int
  hs_maxLayer :: nat
  hs_nodes :: "'e serial_node list"

definition serialize :: "'e hnsw \<Rightarrow> 'e hnsw_serial" where
  "serialize idx = \<lparr>hs_version = 1, hs_modelName = hn_modelName idx, hs_M = hc_m (hn_config idx),
     hs_efConstruction = hc_efConstruction (hn_config idx), hs_entryPointId = hn_entryPointId idx,
     hs_maxLayer = hn_maxLayer idx,
     hs_nodes = map (\<lambda>(i, n). \<lparr>sn_id = i, sn_chunkId = an_chunkId n, sn_vector = an_vector n, sn_neighbors = an_neighbors n\<rparr>)
       (hn_nodes idx)\<rparr>"

definition load_node :: "'e serial_node \<Rightarrow> 'e hnsw \<Rightarrow> 'e hnsw" where
  "load_node sn idx = idx\<lparr>hn_nodes := AList.update (sn_id sn)
       \<lparr>an_chunkId = sn_chunkId sn, an_vector = sn_vector sn, an_neighbors = sn_neighbors sn\<rparr> (hn_nodes idx),
     hn_nextId := (if sn_id sn \<ge> hn_nextId idx then sn_id sn + 1 else hn_nextId idx)\<rparr>"

definition deserialize :: "'e hnsw_serial \<Rightarrow> 'e hnsw" where
  "deserialize serial =
     fold load_node (hs_nodes serial)
       ((new_hnsw (hs_modelName serial) (DEFAULT_HNSW_CONFIG\<lparr>hc_m := hs_M serial, hc_efConstruction := hs_efConstruction serial\<rparr>))
          \<lparr>hn_entryPointId := hs_entryPointId serial, hn_maxLayer := hs_maxLayer serial, hn_nextId := 0\<rparr>)"

text \<open>\<^verbatim>\<open>readHnswIndex\<close> on the parsed file, None for a file that is missing or does not parse.\<close>

definition readHnswIndex :: "'e hnsw_serial option \<Rightarrow> 'e hnsw option" where
  "readHnswIndex file = Option.bind file (\<lambda>serial. if hs_version serial \<noteq> 1 then None else Some (deserialize serial))"

end
