(* ===== verification/AnnSearch.thy ===== *)
theory AnnSearch
  imports AnnIndex
begin

text \<open>
  What the search of a layer returns, that insertion keeps the index well formed and never fails, and that
  a written index is read back.
\<close>

section \<open>The invariant of the search\<close>

definition item_ok :: "('e list \<Rightarrow> 'e list \<Rightarrow> 'd) \<Rightarrow> 'e list \<Rightarrow> 'e ann_nodes \<Rightarrow> 'd heap_item \<Rightarrow> bool" where
  "item_ok metric q nodes x \<longleftrightarrow> (\<exists>n. map_of nodes (hi_id x) = Some n \<and> hi_dist x = metric q (an_vector n))"

definition neighbors_in :: "'e ann_nodes \<Rightarrow> nat \<Rightarrow> int set \<Rightarrow> int \<Rightarrow> bool" where
  "neighbors_in nodes layer V i \<longleftrightarrow> set (layer_neighbors nodes layer i) \<subseteq> V"

text \<open>
  Visited nodes lie in \<open>S\<close>; no visited node is closer than all results; a result that is no longer a
  candidate, the one being expanded apart, has had its neighbours visited.
\<close>

definition search_inv where
  "search_inv metric q nodes ef layer S cur st \<longleftrightarrow>
     (case st of (v, c, r) \<Rightarrow>
        min_ordered c \<and> max_ordered r \<and> r \<noteq> [] \<and> length r \<le> max ef 1 \<and> distinct (map hi_id r) \<and> set v \<subseteq> S
        \<and> (\<forall>x \<in> set c \<union> set r. hi_id x \<in> set v \<and> item_ok metric q nodes x)
        \<and> (\<forall>i \<in> set v. \<forall>n. map_of nodes i = Some n \<longrightarrow> (\<exists>b \<in> set r. hi_dist b \<le> metric q (an_vector n)))
        \<and> (\<forall>x \<in> set r. x \<in> set c \<or> Some x = cur \<or> neighbors_in nodes layer (set v) (hi_id x)))"

lemma search_invI:
  assumes "min_ordered c" and "max_ordered r" and "r \<noteq> []" and "length r \<le> max ef 1" and "distinct (map hi_id r)" and "set v \<subseteq> S"
    and "\<And>x. x \<in> set c \<union> set r \<Longrightarrow> hi_id x \<in> set v \<and> item_ok metric q nodes x"
    and "\<And>i n. i \<in> set v \<Longrightarrow> map_of nodes i = Some n \<Longrightarrow> \<exists>b \<in> set r. hi_dist b \<le> metric q (an_vector n)"
    and "\<And>x. x \<in> set r \<Longrightarrow> x \<in> set c \<or> Some x = cur \<or> neighbors_in nodes layer (set v) (hi_id x)"
  shows "search_inv metric q nodes ef layer S cur (v, c, r)"
  using assms unfolding search_inv_def prod.case by blast

lemma search_invD:
  assumes "search_inv metric q nodes ef layer S cur (v, c, r)"
  shows "min_ordered c" and "max_ordered r" and "r \<noteq> []" and "length r \<le> max ef 1" and "distinct (map hi_id r)" and "set v \<subseteq> S"
    and "\<And>x. x \<in> set c \<union> set r \<Longrightarrow> hi_id x \<in> set v \<and> item_ok metric q nodes x"
    and "\<And>i n. i \<in> set v \<Longrightarrow> map_of nodes i = Some n \<Longrightarrow> \<exists>b \<in> set r. hi_dist b \<le> metric q (an_vector n)"
    and "\<And>x. x \<in> set r \<Longrightarrow> x \<in> set c \<or> Some x = cur \<or> neighbors_in nodes layer (set v) (hi_id x)"
  using assms unfolding search_inv_def prod.case by blast+

lemma set_push [simp]: "set (min_push x xs) = insert x (set xs)" "set (max_push x xs) = insert x (set xs)"
  using arg_cong [OF min_push_laws(2) [of x xs], of set_mset] arg_cong [OF max_push_laws(2) [of x xs], of set_mset] by simp_all

lemma distinct_max_push: "distinct (map hi_id (max_push x xs)) \<longleftrightarrow> hi_id x \<notin> hi_id ` set xs \<and> distinct (map hi_id xs)"
proof -
  have "mset (map hi_id (max_push x xs)) = mset (map hi_id (x # xs))" by (simp add: max_push_laws(2))
  then show ?thesis using mset_eq_imp_distinct_iff by fastforce
qed

lemma drop_worst:
  assumes "max_ordered p" and "2 \<le> length p" and "distinct (map hi_id p)"
  shows "max_ordered (snd (max_pop p))" "set (snd (max_pop p)) \<subseteq> set p" "snd (max_pop p) \<noteq> []"
    "length (snd (max_pop p)) = length p - 1" "distinct (map hi_id (snd (max_pop p)))"
    "z \<in> set p \<Longrightarrow> \<exists>b \<in> set (snd (max_pop p)). hi_dist b \<le> hi_dist z"
proof -
  have "p \<noteq> []" using assms(2) by auto
  from max_pop_laws [OF assms(1) this] obtain y r where
    r: "max_pop p = (Some y, r)" "max_ordered r" "mset p = add_mset y (mset r)" "\<forall>z \<in> set p. hi_dist z \<le> hi_dist y" .
  have sp: "set p = insert y (set r)" using arg_cong [OF r(3), of set_mset] by simp
  have len: "length p = Suc (length r)" using arg_cong [OF r(3), of size] by simp
  have "mset (map hi_id p) = mset (map hi_id (y # r))" using r(3) by simp
  then have "distinct (map hi_id (y # r))" using assms(3) mset_eq_imp_distinct_iff by blast
  then show "max_ordered (snd (max_pop p))" "set (snd (max_pop p)) \<subseteq> set p" "snd (max_pop p) \<noteq> []"
    "length (snd (max_pop p)) = length p - 1" "distinct (map hi_id (snd (max_pop p)))"
    using r(1,2) sp len assms(2) by auto
  show "\<exists>b \<in> set (snd (max_pop p)). hi_dist b \<le> hi_dist z" if "z \<in> set p"
  proof (cases "z \<in> set r")
    case False
    then have "z = y" using that sp by simp
    moreover obtain b where "b \<in> set r" using len assms(2) by (cases r) auto
    ultimately show ?thesis using r(1,4) sp by auto
  qed (use r(1) in auto)
qed

lemma visitNeighbor_visited: "set (fst (visitNeighbor metric q nodes ef i st)) = insert i (set (fst st))"
  by (cases st) (auto simp: visitNeighbor_def Let_def split: option.split)

lemma neighbors_in_mono: "neighbors_in nodes layer V i \<Longrightarrow> V \<subseteq> W \<Longrightarrow> neighbors_in nodes layer W i"
  by (auto simp: neighbors_in_def)

lemma push_result:
  fixes r :: "('d :: linorder) heap_item list"
  assumes "max_ordered r" and "r \<noteq> []" and "length r \<le> max ef 1" and "distinct (map hi_id r)" and "hi_id x \<notin> hi_id ` set r"
  defines "r' \<equiv> let pushed = max_push x r in if length pushed > ef then snd (max_pop pushed) else pushed"
  shows "max_ordered r'" "r' \<noteq> []" "length r' \<le> max ef 1" "distinct (map hi_id r')" "set r' \<subseteq> insert x (set r)"
    "z \<in> insert x (set r) \<Longrightarrow> \<exists>b \<in> set r'. hi_dist b \<le> hi_dist z"
proof -
  have o: "max_ordered (max_push x r)" "distinct (map hi_id (max_push x r))" using assms max_push_laws(1) distinct_max_push by blast+
  have l: "2 \<le> length (max_push x r)" using assms(2) by (cases r) simp_all
  have push_ne: "max_push x r \<noteq> []" using length_max_push [of x r] by (metis list.size(3) nat.distinct(1))
  note d = drop_worst [OF o(1) l o(2)]
  show "max_ordered r'" "r' \<noteq> []" "length r' \<le> max ef 1" "distinct (map hi_id r')" "set r' \<subseteq> insert x (set r)"
    using o d(1-5) l assms(3) push_ne by (auto simp: r'_def Let_def)
  show "z \<in> insert x (set r) \<Longrightarrow> \<exists>b \<in> set r'. hi_dist b \<le> hi_dist z"
    using d(6) [of z] by (auto simp: r'_def Let_def)
qed

lemma push_inv:
  assumes inv: "search_inv metric q nodes ef layer S cur (v, c, r)" and "i \<in> S" and "i \<notin> set v" and n: "map_of nodes i = Some n"
  defines "x \<equiv> \<lparr>hi_id = i, hi_dist = metric q (an_vector n)\<rparr>"
  shows "search_inv metric q nodes ef layer S cur
    (v @ [i], min_push x c, let pushed = max_push x r in if length pushed > ef then snd (max_pop pushed) else pushed)"
    (is "search_inv _ _ _ _ _ _ _ (_, _, ?r)")
proof -
  note I = search_invD [OF inv]
  have fresh: "hi_id x \<notin> hi_id ` set r" using I(7) assms(3) by (auto simp: x_def)
  note p = push_result [OF I(2-5) fresh]
  show ?thesis
  proof (rule search_invI)
    show "hi_id y \<in> set (v @ [i]) \<and> item_ok metric q nodes y" if "y \<in> set (min_push x c) \<union> set ?r" for y
    proof (cases "y = x")
      case True
      then show ?thesis using n by (simp add: x_def item_ok_def)
    next
      case False
      then have "y \<in> set c \<union> set r" using that p(5) by auto
      then show ?thesis using I(7) by simp
    qed
    show "\<exists>b \<in> set ?r. hi_dist b \<le> metric q (an_vector m)" if j: "j \<in> set (v @ [i])" "map_of nodes j = Some m" for j m
    proof (cases "j = i")
      case True
      then show ?thesis using j n p(6) [of x] by (simp add: x_def)
    next
      case False
      then obtain z where "z \<in> set r" "hi_dist z \<le> metric q (an_vector m)" using j I(8) [of j m] by auto
      then show ?thesis using p(6) [of z] by (auto intro: order_trans)
    qed
    show "y \<in> set (min_push x c) \<or> Some y = cur \<or> neighbors_in nodes layer (set (v @ [i])) (hi_id y)" if "y \<in> set ?r" for y
    proof (cases "y = x")
      case False
      then have "y \<in> set r" using that p(5) by auto
      then show ?thesis using I(9) [of y] neighbors_in_mono [of nodes layer "set v" "hi_id y" "set (v @ [i])"] by auto
    qed simp
  qed (use p(1-4) I(1,6) assms(2) in \<open>simp_all add: min_push_laws\<close>)
qed

lemma skip_inv:
  assumes inv: "search_inv metric q nodes ef layer S cur (v, c, r)" and "i \<in> S"
    and "\<And>n. map_of nodes i = Some n \<Longrightarrow> \<exists>b \<in> set r. hi_dist b \<le> metric q (an_vector n)"
  shows "search_inv metric q nodes ef layer S cur (v @ [i], c, r)"
proof -
  note I = search_invD [OF inv]
  show ?thesis
  proof (rule search_invI)
    show "\<exists>b \<in> set r. hi_dist b \<le> metric q (an_vector m)" if "j \<in> set (v @ [i])" "map_of nodes j = Some m" for j m
      using that I(8) assms(3) by (cases "j = i") auto
    show "y \<in> set c \<or> Some y = cur \<or> neighbors_in nodes layer (set (v @ [i])) (hi_id y)" if "y \<in> set r" for y
      using I(9) [OF that] neighbors_in_mono [of nodes layer "set v" "hi_id y" "set (v @ [i])"] by auto
    show "hi_id y \<in> set (v @ [i]) \<and> item_ok metric q nodes y" if "y \<in> set c \<union> set r" for y using I(7) [OF that] by simp
  qed (use I(1-6) assms(2) in simp_all)
qed

lemma visitNeighbor_inv:
  assumes inv: "search_inv metric q nodes ef layer S cur st" and "i \<in> S"
  shows "search_inv metric q nodes ef layer S cur (visitNeighbor metric q nodes ef i st)"
proof -
  obtain v c r where st: "st = (v, c, r)" by (cases st) auto
  note inv' = inv [unfolded st]
  show ?thesis
  proof (cases "i \<in> set v")
    case True
    then show ?thesis using inv by (simp add: st visitNeighbor_def)
  next
    case new: False
    show ?thesis
    proof (cases "map_of nodes i")
      case None
      then show ?thesis using skip_inv [OF inv' assms(2)] new by (simp add: st visitNeighbor_def)
    next
      case (Some n)
      show ?thesis
      proof (cases "length r < ef \<or> metric q (an_vector n) < worst r")
        case True
        then show ?thesis using push_inv [OF inv' assms(2) new Some] new Some by (simp add: st visitNeighbor_def Let_def)
      next
        case False
        have "hd r \<in> set r" "hi_dist (hd r) \<le> metric q (an_vector n)"
          using search_invD(3) [OF inv'] False by (auto simp: worst_def not_less)
        then show ?thesis using skip_inv [OF inv' assms(2)] new Some False by (auto simp: st visitNeighbor_def Let_def)
      qed
    qed
  qed
qed

lemma visitAll_visited: "set (fst (visitAll metric q nodes ef ids st)) = set ids \<union> set (fst st)"
  unfolding visitAll_def by (induction ids arbitrary: st) (auto simp: visitNeighbor_visited)

lemma visitAll_inv:
  "search_inv metric q nodes ef layer S cur st \<Longrightarrow> set ids \<subseteq> S \<Longrightarrow> search_inv metric q nodes ef layer S cur (visitAll metric q nodes ef ids st)"
  unfolding visitAll_def by (induction ids arbitrary: st) (simp_all add: visitNeighbor_inv)

definition closed_under :: "'e ann_nodes \<Rightarrow> nat \<Rightarrow> int set \<Rightarrow> bool" where
  "closed_under nodes layer S \<longleftrightarrow> (\<forall>i \<in> S. neighbors_in nodes layer S i)"

lemma expand_inv:
  assumes inv: "search_inv metric q nodes ef layer S None (v, c, r)" and "closed_under nodes layer S"
    and pop: "min_pop c = (Some x, rest)"
  shows "search_inv metric q nodes ef layer S None (visitAll metric q nodes ef (layer_neighbors nodes layer (hi_id x)) (v, rest, r))"
proof -
  note I = search_invD [OF inv]
  have "c \<noteq> []" using pop by (auto simp: min_pop_def heap_pop_def)
  from min_pop_laws [OF I(1) this] pop have rest: "min_ordered rest" "mset c = add_mset x (mset rest)" by auto
  have sc: "set c = insert x (set rest)" using arg_cong [OF rest(2), of set_mset] by simp
  have "search_inv metric q nodes ef layer S (Some x) (v, rest, r)"
  proof (rule search_invI)
    show "y \<in> set rest \<or> Some y = Some x \<or> neighbors_in nodes layer (set v) (hi_id y)" if "y \<in> set r" for y
      using I(9) [OF that] sc by auto
    show "hi_id y \<in> set v \<and> item_ok metric q nodes y" if "y \<in> set rest \<union> set r" for y
      using I(7) [of y] that sc by auto
  qed (use I rest in simp_all)
  moreover have "hi_id x \<in> S" using I(6) I(7) [of x] sc by auto
  ultimately have inv': "search_inv metric q nodes ef layer S (Some x)
      (visitAll metric q nodes ef (layer_neighbors nodes layer (hi_id x)) (v, rest, r))"
    using assms(2) by (intro visitAll_inv) (auto simp: closed_under_def neighbors_in_def)
  obtain v' c' r' where st: "visitAll metric q nodes ef (layer_neighbors nodes layer (hi_id x)) (v, rest, r) = (v', c', r')"
    by (metis prod_cases3)
  have "neighbors_in nodes layer (set v') (hi_id x)"
    using visitAll_visited [of metric q nodes ef "layer_neighbors nodes layer (hi_id x)" "(v, rest, r)"] st
    by (simp add: neighbors_in_def)
  then show ?thesis
    using search_invD [OF inv' [unfolded st]] unfolding st by (intro search_invI) (assumption | blast)+
qed

section \<open>What a search of a layer returns\<close>

definition found where
  "found metric q nodes ef layer S r \<longleftrightarrow>
     r \<noteq> [] \<and> length r \<le> max ef 1 \<and> distinct (map hi_id r) \<and> hi_id ` set r \<subseteq> S \<and> (\<forall>x \<in> set r. item_ok metric q nodes x)
     \<and> (\<forall>x \<in> set r. (\<forall>y \<in> set r. hi_dist x \<le> hi_dist y) \<longrightarrow>
          (\<forall>i \<in> set (layer_neighbors nodes layer (hi_id x)). \<forall>n. map_of nodes i = Some n \<longrightarrow> hi_dist x \<le> metric q (an_vector n)))"

lemma inv_found:
  assumes inv: "search_inv metric q nodes ef layer S None (v, c, r)"
    and stuck: "\<And>x. x \<in> set r \<Longrightarrow> \<forall>y \<in> set r. hi_dist x \<le> hi_dist y \<Longrightarrow> x \<notin> set c"
  shows "found metric q nodes ef layer S r"
proof -
  note I = search_invD [OF inv]
  have "hi_dist x \<le> metric q (an_vector n)"
    if "x \<in> set r" "\<forall>y \<in> set r. hi_dist x \<le> hi_dist y" "i \<in> set (layer_neighbors nodes layer (hi_id x))" "map_of nodes i = Some n" for x i n
  proof -
    have "i \<in> set v" using I(9) [OF that(1)] stuck [OF that(1,2)] that(3) by (auto simp: neighbors_in_def)
    then show ?thesis using I(8) [OF _ that(4)] that(2) by (fastforce intro: order_trans)
  qed
  then show ?thesis using I(3-7) unfolding found_def by auto
qed

lemma searchLoop_found:
  assumes "search_inv metric q nodes ef layer S None st" and "closed_under nodes layer S"
  shows "found metric q nodes ef layer S (snd (snd (searchLoop metric q nodes ef layer st)))"
  using assms
proof (induction metric q nodes ef layer st rule: searchLoop.induct)
  case (1 metric q nodes ef layer v c r)
  note I = search_invD [OF 1(2)]
  obtain res rest where pop: "min_pop c = (res, rest)" by fastforce
  show ?case
  proof (cases res)
    case None
    then have "c = []" using pop by (auto simp: min_pop_def heap_pop_def Let_def split: if_splits)
    then show ?thesis
      using inv_found [OF 1(2)] pop None by (simp add: searchLoop.simps)
  next
    case (Some x)
    note pop = pop [unfolded Some]
    show ?thesis
    proof (cases "length r \<ge> ef \<and> hi_dist x > worst r")
      case True
      have "c \<noteq> []" using pop by (auto simp: min_pop_def heap_pop_def)
      from min_pop_laws [OF I(1) this] pop have least: "\<forall>y \<in> set c. hi_dist x \<le> hi_dist y" by auto
      have "y \<notin> set c" if "y \<in> set r" "\<forall>z \<in> set r. hi_dist y \<le> hi_dist z" for y
      proof -
        have "hi_dist y \<le> worst r" using that(2) I(3) by (simp add: worst_def)
        then show ?thesis using least True by fastforce
      qed
      from inv_found [OF 1(2) this] show ?thesis using True pop by (simp add: searchLoop.simps)
    next
      case False
      show ?thesis
        using 1(1) [OF pop [symmetric] refl False expand_inv [OF 1(2,3) pop] 1(3)] False pop by (auto simp: searchLoop.simps)
    qed
  qed
qed

lemma search_start:
  fixes metric :: "'e list \<Rightarrow> 'e list \<Rightarrow> 'd :: linorder" and q
  assumes "map_of nodes entry = Some e" and "entry \<in> S"
  defines "x \<equiv> \<lparr>hi_id = entry, hi_dist = metric q (an_vector e)\<rparr>"
  shows "search_inv metric q nodes ef layer S None ([entry], min_push x [], max_push x [])"
proof -
  have "min_push x [] = [x]" "max_push x [] = [x]"
    by (simp_all add: min_push_def max_push_def heap_push_def bubbleUp.simps)
  then show ?thesis
    using assms by (auto intro!: search_invI simp: is_heap_def item_ok_def)
qed

lemma searchLayer_found:
  assumes "map_of nodes entry = Some e" and "entry \<in> S" and "closed_under nodes layer S"
  shows "found metric q nodes ef layer S (searchLayer metric q nodes entry ef layer)"
    and "sorted (map hi_dist (searchLayer metric q nodes entry ef layer))"
proof -
  define r where "r = snd (snd (searchLoop metric q nodes ef layer ([entry],
    min_push \<lparr>hi_id = entry, hi_dist = metric q (an_vector e)\<rparr> [], max_push \<lparr>hi_id = entry, hi_dist = metric q (an_vector e)\<rparr> [])))"
  have s: "searchLayer metric q nodes entry ef layer = toSortedAsc r" using assms(1) by (simp add: searchLayer_def r_def Let_def)
  have f: "found metric q nodes ef layer S r"
    unfolding r_def by (rule searchLoop_found [OF search_start [OF assms(1,2)] assms(3)])
  have set: "set (toSortedAsc r) = set r" by (simp add: toSortedAsc_def)
  have "distinct (map hi_id (toSortedAsc r)) \<longleftrightarrow> distinct (map hi_id r)"
    by (intro mset_eq_imp_distinct_iff) simp
  then show "found metric q nodes ef layer S (searchLayer metric q nodes entry ef layer)"
    using f set unfolding s found_def by (auto simp: toSortedAsc_def simp flip: set_empty)
  show "sorted (map hi_dist (searchLayer metric q nodes entry ef layer))" unfolding s by (rule sorted_toSortedAsc)
qed

section \<open>Well-formed graphs\<close>

definition on_layer :: "'e ann_nodes \<Rightarrow> nat \<Rightarrow> int set" where
  "on_layer nodes l = {i. \<exists>n. map_of nodes i = Some n \<and> l < length (an_neighbors n)}"

text \<open>
  Every list of neighbours names distinct other nodes that reach the layer, at most twice \<^verbatim>\<open>m\<close> of them.
\<close>

definition wf_nodes :: "nat \<Rightarrow> 'e ann_nodes \<Rightarrow> bool" where
  "wf_nodes m nodes \<longleftrightarrow> (\<forall>l i. length (layer_neighbors nodes l i) \<le> 2 * m \<and> distinct (layer_neighbors nodes l i)
     \<and> i \<notin> set (layer_neighbors nodes l i) \<and> set (layer_neighbors nodes l i) \<subseteq> on_layer nodes l)"

lemma wf_nodesD:
  assumes "wf_nodes m nodes"
  shows "length (layer_neighbors nodes l i) \<le> 2 * m" "distinct (layer_neighbors nodes l i)"
    "i \<notin> set (layer_neighbors nodes l i)" "set (layer_neighbors nodes l i) \<subseteq> on_layer nodes l"
  using assms unfolding wf_nodes_def by blast+

lemma on_layer_mono: "l \<le> k \<Longrightarrow> on_layer nodes k \<subseteq> on_layer nodes l"
  by (auto simp: on_layer_def)

lemma on_layer_node: "i \<in> on_layer nodes l \<Longrightarrow> \<exists>n. map_of nodes i = Some n \<and> l < length (an_neighbors n)"
  by (simp add: on_layer_def)

lemma on_layer_key: "i \<in> on_layer nodes l \<Longrightarrow> i \<in> fst ` set nodes"
  by (force simp: on_layer_def dest: map_of_SomeD)

text \<open>An update of one list.\<close>

definition set_list :: "int \<Rightarrow> nat \<Rightarrow> int list \<Rightarrow> 'e ann_nodes \<Rightarrow> 'e ann_nodes" where
  "set_list j l ns nodes = (case map_of nodes j of None \<Rightarrow> nodes
     | Some n \<Rightarrow> AList.update j (n\<lparr>an_neighbors := (an_neighbors n)[l := ns]\<rparr>) nodes)"

lemma on_layer_set_list [simp]: "on_layer (set_list j l ns nodes) k = on_layer nodes k"
  by (auto simp: on_layer_def set_list_def update_conv' split: option.splits if_splits)

lemma keys_set_list [simp]: "map fst (set_list j l ns nodes) = map fst nodes"
  by (auto simp: set_list_def update_keys map_of_eq_None_iff split: option.splits dest!: map_of_SomeD)

lemma layer_neighbors_set_list:
  "j \<in> on_layer nodes l \<Longrightarrow> layer_neighbors (set_list j l ns nodes) k i = (if i = j \<and> k = l then ns else layer_neighbors nodes k i)"
  by (auto simp: on_layer_def layer_neighbors_def set_list_def update_conv' nth_list_update split: option.splits)

lemma wf_set_list:
  assumes "wf_nodes m nodes" and "j \<in> on_layer nodes l" and "length ns \<le> 2 * m" and "distinct ns" and "j \<notin> set ns" and "set ns \<subseteq> on_layer nodes l"
  shows "wf_nodes m (set_list j l ns nodes)"
  using assms(3-6) wf_nodesD [OF assms(1)] unfolding wf_nodes_def layer_neighbors_set_list [OF assms(2)] on_layer_set_list by auto

section \<open>Insertion keeps the graph well formed\<close>

lemma pruneConnections_laws:
  shows "length (pruneConnections metric nodes v ids m) \<le> m" "set (pruneConnections metric nodes v ids m) \<subseteq> set ids"
    "distinct ids \<Longrightarrow> distinct (pruneConnections metric nodes v ids m)"
proof -
  let ?f = "\<lambda>i. map_option (\<lambda>n. \<lparr>hi_id = i, hi_dist = metric v (an_vector n)\<rparr>) (map_of nodes i)"
  let ?s = "sort_key hi_dist (List.map_filter ?f ids)"
  have sub: "hi_id ` set (List.map_filter ?f ids) \<subseteq> set ids" by (auto simp: List.map_filter_def)
  show "length (pruneConnections metric nodes v ids m) \<le> m" by (simp add: pruneConnections_def)
  show "set (pruneConnections metric nodes v ids m) \<subseteq> set ids"
    using sub by (auto simp: pruneConnections_def dest!: in_set_takeD)
  show "distinct (pruneConnections metric nodes v ids m)" if "distinct ids"
  proof -
    have "distinct (map hi_id (List.map_filter ?f ids))"
      using that by (induction ids) (auto simp: List.map_filter_def)
    moreover have "distinct (map hi_id ?s) \<longleftrightarrow> distinct (map hi_id (List.map_filter ?f ids))"
      by (intro mset_eq_imp_distinct_iff) simp
    ultimately show ?thesis unfolding pruneConnections_def take_map [symmetric] by (simp add: distinct_take)
  qed
qed

lemma linkNeighbor_ok:
  assumes wf: "wf_nodes m nodes" and j: "j \<in> on_layer nodes lc" "j \<noteq> i" "i \<notin> set (layer_neighbors nodes lc j)" and i: "i \<in> on_layer nodes lc"
  shows "\<exists>ns. linkNeighbor metric m i lc j nodes = Some (set_list j lc ns nodes) \<and> wf_nodes m (set_list j lc ns nodes)"
proof -
  obtain n where n: "map_of nodes j = Some n" "lc < length (an_neighbors n)" using on_layer_node [OF j(1)] by blast
  let ?old = "layer_neighbors nodes lc j"
  have old: "an_neighbors n ! lc = ?old" using n by (simp add: layer_neighbors_def)
  let ?pushed = "?old @ [i]"
  let ?ns = "if length ?pushed > m * 2 then pruneConnections metric nodes (an_vector n) ?pushed m else ?pushed"
  note w = wf_nodesD [OF wf, where l = lc and i = j]
  have d: "distinct ?pushed" using w(2) j(3) by simp
  have "set ?ns \<subseteq> set ?pushed" "distinct ?ns" "length ?ns \<le> 2 * m"
    using pruneConnections_laws [where metric = metric and nodes = nodes and v = "an_vector n" and ids = ?pushed and m = m] d by (auto split: if_splits)
  then have "wf_nodes m (set_list j lc ?ns nodes)"
    using w j i by (intro wf_set_list [OF wf j(1)]) auto
  moreover have "linkNeighbor metric m i lc j nodes = Some (set_list j lc ?ns nodes)"
    using n by (simp add: linkNeighbor_def set_list_def old Let_def)
  ultimately show ?thesis by blast
qed

text \<open>What the work on layer \<open>lc\<close> leaves alone.\<close>

definition same_but :: "nat \<Rightarrow> 'e ann_nodes \<Rightarrow> 'e ann_nodes \<Rightarrow> bool" where
  "same_but lc nodes nodes' \<longleftrightarrow> map fst nodes' = map fst nodes \<and> on_layer nodes' = on_layer nodes
     \<and> (\<forall>l i. l \<noteq> lc \<longrightarrow> layer_neighbors nodes' l i = layer_neighbors nodes l i)"

lemma same_but_trans: "same_but lc a b \<Longrightarrow> same_but lc b c \<Longrightarrow> same_but lc a c"
  by (simp add: same_but_def)

lemma same_but_set_list: "j \<in> on_layer nodes lc \<Longrightarrow> same_but lc nodes (set_list j lc ns nodes)"
  by (simp add: same_but_def layer_neighbors_set_list fun_eq_iff)

lemma linkAll_ok:
  "wf_nodes m nodes \<Longrightarrow> i \<in> on_layer nodes lc \<Longrightarrow> distinct js \<Longrightarrow>
   (\<And>j. j \<in> set js \<Longrightarrow> j \<in> on_layer nodes lc \<and> j \<noteq> i \<and> i \<notin> set (layer_neighbors nodes lc j)) \<Longrightarrow>
   \<exists>nodes'. linkAll metric m i lc js nodes = Some nodes' \<and> wf_nodes m nodes' \<and> same_but lc nodes nodes'"
proof (induction js arbitrary: nodes)
  case Nil
  then show ?case by (simp add: same_but_def)
next
  case (Cons j js)
  have j: "j \<in> on_layer nodes lc" "j \<noteq> i" "i \<notin> set (layer_neighbors nodes lc j)" using Cons.prems(4) [of j] by simp_all
  from linkNeighbor_ok [OF Cons.prems(1) j Cons.prems(2), of metric] obtain ns where
    ns: "linkNeighbor metric m i lc j nodes = Some (set_list j lc ns nodes)" "wf_nodes m (set_list j lc ns nodes)" by blast
  have "\<exists>nodes'. linkAll metric m i lc js (set_list j lc ns nodes) = Some nodes' \<and> wf_nodes m nodes' \<and> same_but lc (set_list j lc ns nodes) nodes'"
    using Cons.prems ns(2) by (intro Cons.IH) (auto simp: layer_neighbors_set_list [OF j(1)])
  then show ?case using ns(1) same_but_trans [OF same_but_set_list [OF j(1)]] by auto
qed

text \<open>Nothing links to \<open>i\<close> on layers up to \<open>lc\<close>.\<close>

definition unlinked :: "int \<Rightarrow> nat \<Rightarrow> 'e ann_nodes \<Rightarrow> bool" where
  "unlinked i lc nodes \<longleftrightarrow> (\<forall>l \<le> lc. \<forall>j. i \<notin> set (layer_neighbors nodes l j))"

lemma closed_without:
  "wf_nodes m nodes \<Longrightarrow> unlinked i lc nodes \<Longrightarrow> l \<le> lc \<Longrightarrow> closed_under nodes l (on_layer nodes l - {i})"
  using wf_nodesD(4) [of m nodes] by (fastforce simp: closed_under_def neighbors_in_def unlinked_def)

lemma closest_in: "found metric q nodes ef l S cs \<Longrightarrow> closest cs e \<in> S"
  by (cases cs) (auto simp: found_def closest_def)

lemma insertLayer_ok:
  assumes wf: "wf_nodes (hc_m cfg) nodes" and i: "i \<in> on_layer nodes lc" and entry: "entry \<in> on_layer nodes lc - {i}"
    and un: "unlinked i lc nodes"
  shows "\<exists>entry' nodes'. insertLayer metric cfg i q lc (entry, nodes) = Some (entry', nodes') \<and> entry' \<in> on_layer nodes lc - {i}
    \<and> wf_nodes (hc_m cfg) nodes' \<and> same_but lc nodes nodes'"
proof -
  let ?S = "on_layer nodes lc - {i}" and ?m = "hc_m cfg"
  let ?cs = "searchLayer metric q nodes entry (hc_efConstruction cfg) lc"
  obtain e where e: "map_of nodes entry = Some e" using on_layer_node [of entry nodes lc] entry by blast
  have f: "found metric q nodes (hc_efConstruction cfg) lc ?S ?cs"
    by (rule searchLayer_found(1) [OF e entry closed_without [OF wf un order_refl]])
  let ?sel = "map hi_id (selectNeighbors ?cs ?m)"
  have sel: "distinct ?sel" "set ?sel \<subseteq> ?S" "length ?sel \<le> ?m"
    using f unfolding selectNeighbors_def found_def take_map [symmetric] image_subset_iff
    by (auto simp: distinct_take dest!: in_set_takeD)
  obtain n where n: "map_of nodes i = Some n" "lc < length (an_neighbors n)" using on_layer_node [OF i] by blast
  have wf1: "wf_nodes ?m (set_list i lc ?sel nodes)" using sel by (intro wf_set_list [OF wf i]) auto
  have "\<exists>nodes'. linkAll metric ?m i lc ?sel (set_list i lc ?sel nodes) = Some nodes' \<and> wf_nodes ?m nodes'
      \<and> same_but lc (set_list i lc ?sel nodes) nodes'"
    using sel i un by (intro linkAll_ok [OF wf1]) (auto simp: layer_neighbors_set_list [OF i] unlinked_def)
  then obtain nodes' where link: "linkAll metric ?m i lc ?sel (set_list i lc ?sel nodes) = Some nodes'" "wf_nodes ?m nodes'"
    "same_but lc nodes nodes'" using same_but_trans [OF same_but_set_list [OF i]] by blast
  have "insertLayer metric cfg i q lc (entry, nodes) = Some (closest ?cs entry, nodes')"
    using link(1) n by (simp add: insertLayer_def set_list_def Let_def)
  then show ?thesis using link closest_in [OF f] by blast
qed

lemma insertLayers_ok:
  "wf_nodes (hc_m cfg) nodes \<Longrightarrow> i \<in> on_layer nodes lc \<Longrightarrow> entry \<in> on_layer nodes lc - {i} \<Longrightarrow> unlinked i lc nodes \<Longrightarrow>
   \<exists>entry' nodes'. insertLayers metric cfg i q lc (entry, nodes) = Some (entry', nodes') \<and> wf_nodes (hc_m cfg) nodes'
     \<and> map fst nodes' = map fst nodes \<and> on_layer nodes' = on_layer nodes"
proof (induction lc arbitrary: entry nodes)
  case 0
  then show ?case using insertLayer_ok [OF 0] unfolding insertLayers.simps same_but_def by blast
next
  case (Suc lc)
  obtain e1 n1 where s: "insertLayer metric cfg i q (Suc lc) (entry, nodes) = Some (e1, n1)" "e1 \<in> on_layer nodes (Suc lc) - {i}"
    "wf_nodes (hc_m cfg) n1" "same_but (Suc lc) nodes n1"
    using insertLayer_ok [OF Suc.prems] by blast
  have "i \<in> on_layer n1 lc" "e1 \<in> on_layer n1 lc - {i}" "unlinked i lc n1"
    using s Suc.prems(2,4) on_layer_mono [of lc "Suc lc" nodes] by (auto simp: same_but_def unlinked_def)
  from Suc.IH [OF s(3) this] show ?case using s by (auto simp: same_but_def)
qed

lemma descend_in:
  assumes "\<And>l. closed_under nodes l (S l)" and "\<And>l. S l \<subseteq> on_layer nodes l" and "\<And>l k. l \<le> k \<Longrightarrow> S k \<subseteq> S l"
  shows "entry \<in> S lc \<Longrightarrow> descend metric q nodes lc lo entry \<in> S (min lc lo)"
proof (induction lc arbitrary: entry)
  case 0
  then show ?case by (subst descend.simps) simp
next
  case (Suc lc)
  show ?case
  proof (cases "lo < Suc lc")
    case True
    obtain e where "map_of nodes entry = Some e" using on_layer_node assms(2) Suc.prems by blast
    from closest_in [OF searchLayer_found(1) [OF this Suc.prems assms(1), where metric = metric and q = q and ef = 1], of entry]
    have "closest (searchLayer metric q nodes entry 1 (Suc lc)) entry \<in> S lc" using assms(3) [of lc "Suc lc"] by auto
    from Suc.IH [OF this] show ?thesis using True by (subst descend.simps) (simp add: min_absorb2)
  next
    case False
    then show ?thesis using Suc.prems by (subst descend.simps) (simp add: min_absorb1)
  qed
qed

section \<open>Well-formed indices\<close>

definition wf_index :: "'e hnsw \<Rightarrow> bool" where
  "wf_index idx \<longleftrightarrow> wf_nodes (hc_m (hn_config idx)) (hn_nodes idx)
     \<and> map fst (hn_nodes idx) = map int [0 ..< length (hn_nodes idx)] \<and> hn_nextId idx = int (length (hn_nodes idx))
     \<and> (if hn_nodes idx = [] then hn_entryPointId idx = -1
        else hn_entryPointId idx \<in> on_layer (hn_nodes idx) (hn_maxLayer idx))
     \<and> on_layer (hn_nodes idx) (Suc (hn_maxLayer idx)) = {}"

lemma numbered_keys:
  assumes "map fst nodes = map int [0 ..< length nodes]"
  shows "fst ` set nodes = int ` {0 ..< length nodes}" and "map_of nodes (int (length nodes)) = None"
proof -
  show s: "fst ` set nodes = int ` {0 ..< length nodes}" using arg_cong [OF assms, of set] by simp
  show "map_of nodes (int (length nodes)) = None" unfolding map_of_eq_None_iff s by auto
qed

lemma layer_neighbors_append:
  "map_of nodes i = None \<Longrightarrow> layer_neighbors (nodes @ [(i, n)]) l j =
     (if j = i then (if l < length (an_neighbors n) then an_neighbors n ! l else []) else layer_neighbors nodes l j)"
  by (auto simp: layer_neighbors_def map_add_def split: option.splits)

lemma on_layer_append:
  "map_of nodes i = None \<Longrightarrow> on_layer (nodes @ [(i, n)]) l = on_layer nodes l \<union> (if l < length (an_neighbors n) then {i} else {})"
  by (auto simp: on_layer_def map_add_def split: option.splits if_splits)

lemma wf_nodes_append:
  assumes "wf_nodes m nodes" and "map_of nodes i = None"
  shows "wf_nodes m (nodes @ [(i, \<lparr>an_chunkId = c, an_vector = v, an_neighbors = replicate k []\<rparr>)])"
    and "unlinked i lc (nodes @ [(i, \<lparr>an_chunkId = c, an_vector = v, an_neighbors = replicate k []\<rparr>)])"
proof -
  have "i \<notin> on_layer nodes l" for l using assms(2) by (simp add: on_layer_def)
  then have "i \<notin> set (layer_neighbors nodes l j)" for l j using wf_nodesD(4) [OF assms(1)] by blast
  then show "unlinked i lc (nodes @ [(i, \<lparr>an_chunkId = c, an_vector = v, an_neighbors = replicate k []\<rparr>)])"
    unfolding unlinked_def layer_neighbors_append [OF assms(2)] by simp
  show "wf_nodes m (nodes @ [(i, \<lparr>an_chunkId = c, an_vector = v, an_neighbors = replicate k []\<rparr>)])"
    unfolding wf_nodes_def layer_neighbors_append [OF assms(2)] on_layer_append [OF assms(2)]
    using wf_nodesD(1-3) [OF assms(1)] by (auto dest: subsetD [OF wf_nodesD(4) [OF assms(1)]])
qed

lemma update_new: "map_of nodes i = None \<Longrightarrow> AList.update i n nodes = nodes @ [(i, n)]"
  by (induction nodes) (auto split: if_splits)

lemma insertOne_wf:
  assumes wf: "wf_index idx" and v: "vector \<noteq> []"
  shows "\<exists>idx' draw'. insertOne metric coin chunkId vector (idx, draw) = Some (idx', draw') \<and> wf_index idx'
    \<and> length (hn_nodes idx') = Suc (length (hn_nodes idx)) \<and> hn_config idx' = hn_config idx \<and> hn_modelName idx' = hn_modelName idx"
proof -
  let ?N = "hn_nodes idx" and ?i = "hn_nextId idx" and ?m = "hc_m (hn_config idx)"
  obtain L d' where L: "randomLayer coin draw 0 = (L, d')" by fastforce
  let ?n = "\<lparr>an_chunkId = chunkId, an_vector = vector, an_neighbors = replicate (L + 1) []\<rparr>"
  let ?N1 = "?N @ [(?i, ?n)]"
  have keys: "map fst ?N = map int [0 ..< length ?N]" "?i = int (length ?N)" using wf by (simp_all add: wf_index_def)
  have new: "map_of ?N ?i = None" using numbered_keys(2) [OF keys(1)] keys(2) by simp
  have keys1: "map fst ?N1 = map int [0 ..< Suc (length ?N)]" using keys by simp
  have "wf_nodes ?m ?N" using wf by (simp add: wf_index_def)
  note wf1 = wf_nodes_append(1) [OF this new, of chunkId vector "L + 1"]
    and un = wf_nodes_append(2) [OF this new, of _ chunkId vector "L + 1"]
  have on: "on_layer ?N1 l = on_layer ?N l \<union> (if l \<le> L then {?i} else {})" for l
    using on_layer_append [OF new, of ?n l] by (simp add: less_Suc_eq_le)
  show ?thesis
  proof (cases "?N = []")
    case True
    then have "hn_entryPointId idx = -1" using wf by (simp add: wf_index_def)
    moreover have "on_layer [] l = {}" for l by (simp add: on_layer_def)
    ultimately show ?thesis
      using v L True wf1 keys1 on by (auto simp: insertOne_def Let_def wf_index_def update_new [OF new] keys(2))
  next
    case False
    let ?e = "hn_entryPointId idx" and ?M = "hn_maxLayer idx"
    have e: "?e \<in> on_layer ?N ?M" and top: "on_layer ?N (Suc ?M) = {}" using wf False by (simp_all add: wf_index_def)
    have "?e \<in> fst ` set ?N" by (rule on_layer_key [OF e])
    then obtain k where "?e = int k" "k < length ?N" unfolding numbered_keys(1) [OF keys(1)] by auto
    then have ne: "?e \<noteq> ?i" "?e \<noteq> -1" using keys(2) by auto
    let ?S = "\<lambda>l. on_layer ?N1 l - {?i}" and ?lc = "min L ?M"
    let ?d = "descend metric vector ?N1 ?M L ?e"
    have "?d \<in> ?S (min ?M L)"
    proof (rule descend_in)
      show "closed_under ?N1 l (?S l)" for l by (rule closed_without [OF wf1 un order_refl])
      show "?S k \<subseteq> ?S l" if "l \<le> k" for l k using on_layer_mono [OF that, of ?N1] by blast
      show "?e \<in> ?S ?M" using e ne on by simp
    qed blast
    then have d: "?d \<in> ?S ?lc" by (simp add: min.commute)
    have i: "?i \<in> on_layer ?N1 ?lc" using on by simp
    obtain e' N2 where ins: "insertLayers metric (hn_config idx) ?i vector ?lc (?d, ?N1) = Some (e', N2)" "wf_nodes ?m N2"
      "map fst N2 = map fst ?N1" "on_layer N2 = on_layer ?N1"
      using insertLayers_ok [OF wf1 i d un] by blast
    have len: "length N2 = Suc (length ?N)" using arg_cong [OF ins(3), of length] by simp
    have up: "on_layer ?N (Suc L) = {}" if "?M < L" using on_layer_mono [of "Suc ?M" "Suc L" ?N] top that by auto
    let ?idx2 = "idx\<lparr>hn_nextId := ?i + 1, hn_nodes := N2\<rparr>"
    let ?idx' = "if L > ?M then ?idx2\<lparr>hn_maxLayer := L, hn_entryPointId := ?i\<rparr> else ?idx2"
    have "insertOne metric coin chunkId vector (idx, draw) = Some (?idx', d')"
      using v L ne(2) ins(1) by (simp add: insertOne_def Let_def update_new [OF new])
    moreover have "wf_index ?idx'"
    proof (cases "L > ?M")
      case True
      then show ?thesis using ins keys keys1 len up [OF True] on by (auto simp: wf_index_def)
    next
      case False
      then show ?thesis using ins keys keys1 len e on top by (auto simp: wf_index_def)
    qed
    ultimately show ?thesis using len by auto
  qed
qed

lemma new_hnsw_wf: "wf_index (new_hnsw name cfg)"
  by (simp add: wf_index_def new_hnsw_def wf_nodes_def layer_neighbors_def on_layer_def)

lemma build_wf:
  "wf_index idx \<Longrightarrow> \<exists>idx' draw'. buildFromEntries metric coin es (idx, draw) = Some (idx', draw') \<and> wf_index idx'
     \<and> length (hn_nodes idx') = length (hn_nodes idx) + length (filter (\<lambda>e. snd e \<noteq> []) es)
     \<and> hn_config idx' = hn_config idx \<and> hn_modelName idx' = hn_modelName idx"
proof (induction es arbitrary: idx draw)
  case (Cons e es)
  obtain c v where e: "e = (c, v)" by fastforce
  show ?case
  proof (cases "v = []")
    case True
    then show ?thesis using Cons.IH [OF Cons.prems, of draw] by (simp add: e insertOne_def)
  next
    case False
    obtain idx1 d1 where i: "insertOne metric coin c v (idx, draw) = Some (idx1, d1)" "wf_index idx1"
      "length (hn_nodes idx1) = Suc (length (hn_nodes idx))" "hn_config idx1 = hn_config idx" "hn_modelName idx1 = hn_modelName idx"
      using insertOne_wf [OF Cons.prems False] by blast
    show ?thesis using Cons.IH [OF i(2), of d1] i False by (simp add: e)
  qed
qed simp

lemma wf_closed: "wf_nodes m nodes \<Longrightarrow> closed_under nodes l (on_layer nodes l)"
  by (simp add: closed_under_def neighbors_in_def wf_nodesD(4))

text \<open>
  C7. The index that is built from any list of entries, with any draws, is well formed, and building it
  never fails: its nodes are numbered from 0, one for each entry with a non-empty vector; on every layer the
  neighbours of a node are distinct other nodes that reach the layer, at most \<^verbatim>\<open>2 * m\<close> of them; the entry point of
  a non-empty index reaches the top layer, and no node is above it.
\<close>

theorem built_index_well_formed:
  "\<exists>idx draw'. buildFromEntries metric coin es (new_hnsw name cfg, draw) = Some (idx, draw')
     \<and> map fst (hn_nodes idx) = map int [0 ..< length (filter (\<lambda>e. snd e \<noteq> []) es)]
     \<and> (\<forall>l i. let ns = layer_neighbors (hn_nodes idx) l i in
          length ns \<le> 2 * hc_m cfg \<and> distinct ns \<and> i \<notin> set ns \<and> set ns \<subseteq> on_layer (hn_nodes idx) l)
     \<and> (hn_nodes idx = [] \<or> hn_entryPointId idx \<in> on_layer (hn_nodes idx) (hn_maxLayer idx))
     \<and> on_layer (hn_nodes idx) (Suc (hn_maxLayer idx)) = {}"
proof -
  obtain idx d' where b: "buildFromEntries metric coin es (new_hnsw name cfg, draw) = Some (idx, d')" "wf_index idx"
    "length (hn_nodes idx) = length (filter (\<lambda>e. snd e \<noteq> []) es)" "hn_config idx = cfg"
    using build_wf [OF new_hnsw_wf [of name cfg], of metric coin es draw] by (auto simp: new_hnsw_def)
  have "wf_nodes (hc_m cfg) (hn_nodes idx)" using b by (simp add: wf_index_def)
  note w = wf_nodesD [OF this]
  show ?thesis
    using b w unfolding Let_def by (auto simp: wf_index_def split: if_splits)
qed

section \<open>Search of an index\<close>

lemma results_of_ok:
  "(\<And>c. c \<in> set cs \<Longrightarrow> item_ok metric q nodes c) \<Longrightarrow>
   results_of nodes cs = Some (map (\<lambda>c. (an_chunkId (the (map_of nodes (hi_id c))), 1 - hi_dist c)) cs)"
proof (induction cs)
  case (Cons c cs)
  obtain n where "map_of nodes (hi_id c) = Some n" using Cons.prems [of c] by (auto simp: item_ok_def)
  then show ?case using Cons by (simp add: result_of_def)
qed simp

lemma search_found:
  fixes metric :: "'e list \<Rightarrow> 'e list \<Rightarrow> 'd :: linorder" and q ef
  assumes wf: "wf_index idx" and ne: "hn_nodes idx \<noteq> []"
  defines "cs \<equiv> searchLayer metric q (hn_nodes idx) (descend metric q (hn_nodes idx) (hn_maxLayer idx) 0 (hn_entryPointId idx)) ef 0"
  shows "found metric q (hn_nodes idx) ef 0 (on_layer (hn_nodes idx) 0) cs" and "sorted (map hi_dist cs)"
proof -
  have wn: "wf_nodes (hc_m (hn_config idx)) (hn_nodes idx)" and e: "hn_entryPointId idx \<in> on_layer (hn_nodes idx) (hn_maxLayer idx)"
    using wf ne by (simp_all add: wf_index_def)
  have "descend metric q (hn_nodes idx) (hn_maxLayer idx) 0 (hn_entryPointId idx) \<in> on_layer (hn_nodes idx) (min (hn_maxLayer idx) 0)"
    by (rule descend_in) (use e in \<open>auto intro: wf_closed [OF wn] dest: subsetD [OF on_layer_mono]\<close>)
  then have d: "descend metric q (hn_nodes idx) (hn_maxLayer idx) 0 (hn_entryPointId idx) \<in> on_layer (hn_nodes idx) 0" by simp
  obtain n where "map_of (hn_nodes idx) (descend metric q (hn_nodes idx) (hn_maxLayer idx) 0 (hn_entryPointId idx)) = Some n"
    using on_layer_node [OF d] by blast
  from searchLayer_found [OF this d wf_closed [OF wn]]
  show "found metric q (hn_nodes idx) ef 0 (on_layer (hn_nodes idx) 0) cs" and "sorted (map hi_dist cs)" unfolding cs_def by blast+
qed

lemma found_head_optimal:
  assumes "found metric q nodes ef l S cs" and "sorted (map hi_dist cs)" and "map_of nodes i = Some n"
    and "i \<in> set (layer_neighbors nodes l (hi_id (hd cs)))"
  shows "hi_dist (hd cs) \<le> metric q (an_vector n)"
proof -
  obtain c cs' where cs: "cs = c # cs'" using assms(1) by (cases cs) (auto simp: found_def)
  have "\<forall>y \<in> set cs. hi_dist c \<le> hi_dist y" using assms(2) cs by auto
  then show ?thesis using assms cs unfolding found_def by auto
qed

text \<open>
  C8. A search of a built index for \<^verbatim>\<open>k\<close> nodes returns the chunk and similarity of at most \<^verbatim>\<open>k\<close> different nodes, the
  nearest first, each with its true distance; of a non-empty index it returns at least one when \<^verbatim>\<open>k\<close> is positive.
  The first is a local optimum of the graph: none of its neighbours on the bottom layer is nearer to the query.
\<close>

theorem search_returns_local_optimum:
  assumes "buildFromEntries metric coin es (new_hnsw name cfg, draw) = Some (idx, draw')"
  shows "\<exists>cs. search_index metric q k ef idx
        = Some (map (\<lambda>c. (an_chunkId (the (map_of (hn_nodes idx) (hi_id c))), 1 - hi_dist c)) cs)
     \<and> length cs \<le> k \<and> distinct (map hi_id cs) \<and> sorted (map hi_dist cs)
     \<and> set cs \<subseteq> {c. item_ok metric q (hn_nodes idx) c}
     \<and> (cs = [] \<longleftrightarrow> k = 0 \<or> hn_nodes idx = [])
     \<and> (\<forall>i n. cs \<noteq> [] \<and> i \<in> set (layer_neighbors (hn_nodes idx) 0 (hi_id (hd cs))) \<and> map_of (hn_nodes idx) i = Some n
          \<longrightarrow> hi_dist (hd cs) \<le> metric q (an_vector n))"
proof (cases "hn_nodes idx = []")
  case True
  then show ?thesis by (simp add: search_index_def)
next
  case False
  have wf: "wf_index idx" using build_wf [OF new_hnsw_wf, of metric coin es name cfg draw] assms by auto
  have ne: "hn_entryPointId idx \<noteq> -1"
  proof -
    have "hn_entryPointId idx \<in> fst ` set (hn_nodes idx)"
      using wf False by (auto simp: wf_index_def intro: on_layer_key)
    then show ?thesis using numbered_keys(1) [of "hn_nodes idx"] wf by (auto simp: wf_index_def)
  qed
  let ?ef = "max (nullish ef (hc_efSearch (hn_config idx))) k"
  define all where "all = searchLayer metric q (hn_nodes idx) (descend metric q (hn_nodes idx) (hn_maxLayer idx) 0 (hn_entryPointId idx)) ?ef 0"
  note f = search_found [OF wf False, of metric q ?ef, folded all_def]
  have ok: "c \<in> set (take k all) \<Longrightarrow> item_ok metric q (hn_nodes idx) c" for c
    using f(1) by (auto simp: found_def dest: in_set_takeD)
  have "search_index metric q k ef idx
      = Some (map (\<lambda>c. (an_chunkId (the (map_of (hn_nodes idx) (hi_id c))), 1 - hi_dist c)) (take k all))"
    using results_of_ok [OF ok] ne False by (simp add: search_index_def Let_def all_def)
  moreover have "all \<noteq> []" "distinct (map hi_id (take k all))" "sorted (map hi_dist (take k all))"
    using f by (auto simp: found_def take_map [symmetric] distinct_take sorted_wrt_take)
  moreover have "hi_dist (hd (take k all)) \<le> metric q (an_vector n)"
    if "take k all \<noteq> []" "i \<in> set (layer_neighbors (hn_nodes idx) 0 (hi_id (hd (take k all))))" "map_of (hn_nodes idx) i = Some n" for i n
    using found_head_optimal [OF f that(3)] that(1,2) by simp
  ultimately show ?thesis using ok False by (intro exI [of _ "take k all"]) auto
qed

section \<open>Reading back a written index\<close>

abbreviation written_node :: "int \<times> 'e ann_node \<Rightarrow> 'e serial_node" where
  "written_node \<equiv> \<lambda>(i, n). \<lparr>sn_id = i, sn_chunkId = an_chunkId n, sn_vector = an_vector n, sn_neighbors = an_neighbors n\<rparr>"

lemma load_nodes:
  "map fst (pre @ nodes) = map int [0 ..< length (pre @ nodes)] \<Longrightarrow> hn_nodes idx = pre \<Longrightarrow> hn_nextId idx = int (length pre) \<Longrightarrow>
   fold load_node (map written_node nodes) idx = idx\<lparr>hn_nodes := pre @ nodes, hn_nextId := int (length (pre @ nodes))\<rparr>"
proof (induction nodes arbitrary: pre idx)
  case (Cons x nodes)
  obtain i n where x: "x = (i, n)" by fastforce
  have "i = map fst (pre @ x # nodes) ! length pre" by (simp add: x nth_append)
  then have i: "i = int (length pre)" unfolding Cons.prems(1) by (simp add: nth_append del: upt_Suc)
  have "map fst pre = take (length pre) (map fst (pre @ x # nodes))" by simp
  then have "map fst pre = map int [0 ..< length pre]" unfolding Cons.prems(1) by (simp add: take_map del: upt_Suc)
  from numbered_keys(2) [OF this] have new: "map_of pre (int (length pre)) = None" .
  have "load_node (written_node x) idx = idx\<lparr>hn_nodes := pre @ [x], hn_nextId := int (length (pre @ [x]))\<rparr>"
    using Cons.prems(2,3) i by (simp add: load_node_def x update_new [OF new])
  then show ?case using Cons.IH [of "pre @ [x]"] Cons.prems(1) by simp
qed simp

text \<open>
  C30. An index that was built and written is read back as it was, with one exception: the beam width for
  searches is not written, so a reader searches with the default of 50 whatever the index was configured with.
\<close>

theorem written_index_reads_back:
  assumes "buildFromEntries metric coin es (new_hnsw name cfg, draw) = Some (idx, draw')"
  shows "readHnswIndex (Some (serialize idx)) = Some (idx\<lparr>hn_config := cfg\<lparr>hc_efSearch := 50\<rparr>\<rparr>)"
proof -
  have b: "wf_index idx" "hn_config idx = cfg" using build_wf [OF new_hnsw_wf, of metric coin es name cfg draw] assms by (auto simp: new_hnsw_def)
  then have "map fst ([] @ hn_nodes idx) = map int [0 ..< length ([] @ hn_nodes idx)]" "hn_nextId idx = int (length (hn_nodes idx))"
    by (simp_all add: wf_index_def)
  note l = load_nodes [OF this(1)] and n = this(2)
  show ?thesis
    using b(2) n by (simp add: readHnswIndex_def serialize_def deserialize_def l new_hnsw_def DEFAULT_HNSW_CONFIG_def)
qed

section \<open>Witnesses\<close>

definition sample_entries :: "(string \<times> real list) list" where
  "sample_entries = [(''a'', [1, 0]), (''b'', [0, 1]), (''c'', [1, 1])]"

lemma sample_built:
  "\<exists>idx draw. buildFromEntries distance (\<lambda>n. n = 1) sample_entries (new_hnsw ''model'' DEFAULT_HNSW_CONFIG, 0) = Some (idx, draw)
     \<and> length (hn_nodes idx) = 3"
  using build_wf [OF new_hnsw_wf [of "''model''" DEFAULT_HNSW_CONFIG], of distance "\<lambda>n. n = 1" sample_entries 0]
  by (auto simp: sample_entries_def new_hnsw_def)

theorem search_returns_local_optimum_witness:
  "\<exists>idx draw rs. buildFromEntries distance (\<lambda>n. n = 1) sample_entries (new_hnsw ''model'' DEFAULT_HNSW_CONFIG, 0) = Some (idx, draw)
     \<and> search_index distance [1, 2] 2 None idx = Some rs \<and> rs \<noteq> [] \<and> length rs \<le> 2"
proof -
  obtain idx draw where b: "buildFromEntries distance (\<lambda>n. n = 1) sample_entries (new_hnsw ''model'' DEFAULT_HNSW_CONFIG, 0) = Some (idx, draw)"
    "length (hn_nodes idx) = 3" using sample_built by blast
  from search_returns_local_optimum [OF b(1), of "[1, 2]" 2 None] b show ?thesis by fastforce
qed

theorem written_index_reads_back_witness:
  "\<exists>idx draw. buildFromEntries distance (\<lambda>n. n = 1) sample_entries (new_hnsw ''model'' (DEFAULT_HNSW_CONFIG\<lparr>hc_efSearch := 7\<rparr>), 0) = Some (idx, draw)
     \<and> (\<exists>back. readHnswIndex (Some (serialize idx)) = Some back \<and> hn_nodes back = hn_nodes idx \<and> hc_efSearch (hn_config back) = 50)"
proof -
  obtain idx draw where b: "buildFromEntries distance (\<lambda>n. n = 1) sample_entries
      (new_hnsw ''model'' (DEFAULT_HNSW_CONFIG\<lparr>hc_efSearch := 7\<rparr>), 0) = Some (idx, draw)"
    using build_wf [OF new_hnsw_wf] by blast
  from written_index_reads_back [OF this] b show ?thesis by auto
qed

end
