(* ===== verification/Chunker.thy ===== *)
theory Chunker
  imports ScanPaths
begin

text \<open>
  The chunker of \<^verbatim>\<open>packages/retrieval/src/semantic/chunker.ts\<close>: a file is cut into the ranges of its symbols and
  the gaps between them, or, without symbols, into overlapping windows. Line numbers are integers. The window
  loop need not end, so it is a partial function: None is a loop that runs forever.
\<close>

record chunk_input =
  ck_fileId :: string
  ck_filePath :: string
  ck_symbolId :: "string option"
  ck_lineStart :: int
  ck_lineEnd :: int
  ck_content :: string
  ck_language :: string

datatype file_status = FileIndexed | FilePending | FileIgnored

record indexed_file =
  if_id :: string
  if_path :: string
  if_extension :: string
  if_language :: string
  if_sizeBytes :: nat
  if_status :: file_status
  if_ignoredReason :: "string option"
  if_workspaceRoot :: "string option"

datatype symbol_kind =
    SkFunction | SkClass | SkMethod | SkInterface | SkType | SkConst | SkNamespace | SkUnknown

record indexed_symbol =
  sy_id :: string
  sy_fileId :: string
  sy_name :: string
  sy_kind :: symbol_kind
  sy_lineStart :: int
  sy_lineEnd :: int

record chunker_options =
  co_maxLines :: "int option"
  co_overlapLines :: "int option"

definition DEFAULT_CHUNK_MAX_LINES :: int where "DEFAULT_CHUNK_MAX_LINES = 60"

definition DEFAULT_CHUNK_OVERLAP_LINES :: int where "DEFAULT_CHUNK_OVERLAP_LINES = 8"

definition estimateTokens :: "string \<Rightarrow> nat" where
  "estimateTokens text = (length text + 3) div 4"

text \<open>\<^verbatim>\<open>xs.slice(a, b)\<close>: an index below zero counts from the end.\<close>

definition slice_index :: "nat \<Rightarrow> int \<Rightarrow> nat" where
  "slice_index n i = (if i < 0 then nat (max 0 (int n + i)) else nat (min i (int n)))"

definition js_slice :: "'a list \<Rightarrow> int \<Rightarrow> int \<Rightarrow> 'a list" where
  "js_slice xs a b = (let s = slice_index (length xs) a; e = slice_index (length xs) b in take (e - s) (drop s xs))"

text \<open>The chunk of a range of lines, pushed unless it is blank.\<close>

definition pushChunk ::
  "indexed_file \<Rightarrow> string \<Rightarrow> string option \<Rightarrow> string list \<Rightarrow> int \<Rightarrow> int \<Rightarrow> chunk_input list \<Rightarrow> chunk_input list" where
  "pushChunk file path symbolId lines a b chunks =
     (let content = js_join [CHR 0x0A] (js_slice lines a b) in
      if js_trim content \<noteq> []
      then chunks @ [\<lparr>ck_fileId = if_id file, ck_filePath = path, ck_symbolId = symbolId, ck_lineStart = a + 1, ck_lineEnd = b,
        ck_content = content, ck_language = if_language file\<rparr>]
      else chunks)"

definition symbolStep ::
  "indexed_file \<Rightarrow> string \<Rightarrow> string list \<Rightarrow> indexed_symbol \<Rightarrow> chunk_input list \<times> int \<Rightarrow> chunk_input list \<times> int" where
  "symbolStep file path lines symbol s =
     (let (chunks, cursor) = s;
          symStart = sy_lineStart symbol - 1;
          symEnd = min (sy_lineEnd symbol) (int (length lines));
          chunks1 = (if cursor < symStart then pushChunk file path None lines cursor symStart chunks else chunks);
          chunks2 = pushChunk file path (Some (sy_id symbol)) lines symStart symEnd chunks1
      in (chunks2, symEnd))"

definition chunkBySymbols :: "indexed_file \<Rightarrow> string \<Rightarrow> string list \<Rightarrow> indexed_symbol list \<Rightarrow> chunk_input list" where
  "chunkBySymbols file path lines symbols =
     (let (chunks, cursor) = fold (symbolStep file path lines) (sort_key sy_lineStart symbols) ([], 0) in
      if cursor < int (length lines) then pushChunk file path None lines cursor (int (length lines)) chunks else chunks)"

partial_function (option) windowLoop ::
  "indexed_file \<Rightarrow> string \<Rightarrow> string list \<Rightarrow> int \<Rightarrow> int \<Rightarrow> int \<Rightarrow> chunk_input list \<Rightarrow> chunk_input list option" where
  "windowLoop file path lines maxLines overlap start chunks =
     (if start < int (length lines)
      then let end = min (start + maxLines) (int (length lines));
               chunks1 = pushChunk file path None lines start end chunks
           in if end \<ge> int (length lines) then Some chunks1
              else windowLoop file path lines maxLines overlap (end - overlap) chunks1
      else Some chunks)"

definition chunkByWindow ::
  "indexed_file \<Rightarrow> string \<Rightarrow> string list \<Rightarrow> chunker_options option \<Rightarrow> chunk_input list option" where
  "chunkByWindow file path lines options =
     windowLoop file path lines
       (nullish (Option.bind options co_maxLines) DEFAULT_CHUNK_MAX_LINES)
       (nullish (Option.bind options co_overlapLines) DEFAULT_CHUNK_OVERLAP_LINES) 0 []"

text \<open>\<open>files\<close> is what \<^verbatim>\<open>fs.readFile\<close> gives for a path, None where it throws. A file that is outside its
  workspace or the repository, or cannot be read, has no chunks.\<close>

definition chunkFile ::
  "string \<Rightarrow> (string \<Rightarrow> string option) \<Rightarrow> string \<Rightarrow> indexed_file \<Rightarrow> indexed_symbol list \<Rightarrow> chunker_options option
   \<Rightarrow> chunk_input list option" where
  "chunkFile cwd files repoRoot file symbols options =
     (case resolveIndexedFileAbsolutePath cwd repoRoot (if_workspaceRoot file) (if_path file) of
        None \<Rightarrow> Some []
      | Some absolutePath \<Rightarrow>
          (case toRepoRelativePath cwd repoRoot absolutePath of
             None \<Rightarrow> Some []
           | Some canonicalFilePath \<Rightarrow>
               (case files absolutePath of
                  None \<Rightarrow> Some []
                | Some content \<Rightarrow>
                    let lines = js_split content [CHR 0x0A]; fileSymbols = filter (\<lambda>s. sy_fileId s = if_id file) symbols in
                    if fileSymbols \<noteq> [] then Some (chunkBySymbols file canonicalFilePath lines fileSymbols)
                    else chunkByWindow file canonicalFilePath lines options)))"

fun chunkFiles ::
  "string \<Rightarrow> (string \<Rightarrow> string option) \<Rightarrow> string \<Rightarrow> indexed_file list \<Rightarrow> indexed_symbol list \<Rightarrow> chunker_options option
   \<Rightarrow> chunk_input list option" where
  "chunkFiles cwd files repoRoot [] symbols options = Some []"
| "chunkFiles cwd files repoRoot (f # fs) symbols options =
     Option.bind (chunkFile cwd files repoRoot f symbols options) (\<lambda>cs.
       map_option (\<lambda>rest. cs @ rest) (chunkFiles cwd files repoRoot fs symbols options))"

section \<open>When the window loop ends\<close>

lemma windowLoop_ends:
  assumes "overlap < maxLines"
  shows "\<exists>r. windowLoop file path lines maxLines overlap start chunks = Some r"
proof (induction "nat (int (length lines) - start)" arbitrary: start chunks rule: less_induct)
  case less
  show ?case
  proof (cases "start < int (length lines) \<and> start + maxLines < int (length lines)")
    case True
    have "nat (int (length lines) - (start + maxLines - overlap)) < nat (int (length lines) - start)"
      using True assms by linarith
    from less.hyps [OF this] show ?thesis
      using True by (subst windowLoop.simps) (simp add: Let_def min_absorb1)
  next
    case False
    then show ?thesis by (subst windowLoop.simps) (auto simp: Let_def)
  qed
qed

lemma windowLoop_runs_forever:
  assumes "windowLoop file path lines maxLines overlap start chunks = Some r"
  shows "maxLines \<le> overlap \<longrightarrow> maxLines < int (length lines) \<longrightarrow> lines \<noteq> [] \<longrightarrow> 0 < start"
proof (rule windowLoop.raw_induct [OF _ assms])
  fix loop f p ls m ov st ch y
  assume IH: "\<And>f p ls m ov st ch y. loop f p ls m ov st ch = Some y \<Longrightarrow> m \<le> ov \<longrightarrow> m < int (length ls) \<longrightarrow> ls \<noteq> [] \<longrightarrow> 0 < (st :: int)"
    and body: "(if st < int (length ls)
      then let end = min (st + m) (int (length ls)); chunks1 = pushChunk f p None ls st end ch
           in if end \<ge> int (length ls) then Some chunks1 else loop f p ls m ov (end - ov) chunks1
      else Some ch) = Some y"
  show "m \<le> ov \<longrightarrow> m < int (length ls) \<longrightarrow> ls \<noteq> [] \<longrightarrow> 0 < st"
  proof (cases "st < int (length ls) \<and> st + m < int (length ls)")
    case True
    then have "loop f p ls m ov (st + m - ov) (pushChunk f p None ls st (st + m) ch) = Some y"
      using body by (simp add: Let_def min_absorb1)
    from IH [OF this] show ?thesis by linarith
  next
    case False
    then show ?thesis by (cases ls) auto
  qed
qed

section \<open>Slices and blank text\<close>

lemma js_slice_range: "0 \<le> a \<Longrightarrow> 0 \<le> b \<Longrightarrow> b \<le> int (length xs) \<Longrightarrow> js_slice xs a b = take (nat b - nat a) (drop (nat a) xs)"
  by (auto simp: js_slice_def slice_index_def Let_def min_def)

lemma trim_empty: "js_trim s = [] \<longleftrightarrow> (\<forall>c \<in> set s. js_ws c)"
proof -
  have "js_trim s = [] \<longleftrightarrow> (\<forall>c \<in> set (dropWhile js_ws s). js_ws c)"
    by (simp add: js_trim_def dropWhile_eq_Nil_conv)
  also have "\<dots> \<longleftrightarrow> (\<forall>c \<in> set s. js_ws c)" by (induction s) auto
  finally show ?thesis .
qed

lemma set_js_join: "x \<in> set xs \<Longrightarrow> set x \<subseteq> set (js_join sep xs)"
  by (induction sep xs rule: js_join.induct) auto

lemma js_split_ne: "js_split s sep \<noteq> []"
  by (simp add: js_split_def)

section \<open>What the chunks are\<close>

text \<open>A chunk is a range of lines with their text; chunks cover the first \<open>k\<close> lines if each that is not blank is in one.\<close>

definition chunk_ok :: "string list \<Rightarrow> chunk_input \<Rightarrow> bool" where
  "chunk_ok lines c \<longleftrightarrow> 1 \<le> ck_lineStart c \<and> ck_lineStart c \<le> ck_lineEnd c \<and> ck_lineEnd c \<le> int (length lines)
     \<and> ck_content c = js_join [CHR 0x0A] (take (nat (ck_lineEnd c - ck_lineStart c + 1)) (drop (nat (ck_lineStart c - 1)) lines))"

definition covers :: "string list \<Rightarrow> int \<Rightarrow> chunk_input list \<Rightarrow> bool" where
  "covers lines k chunks \<longleftrightarrow> (\<forall>i < length lines. int i < k \<and> js_trim (lines ! i) \<noteq> [] \<longrightarrow>
     (\<exists>c \<in> set chunks. ck_lineStart c \<le> int i + 1 \<and> int i + 1 \<le> ck_lineEnd c))"

definition chunk_lines :: "chunk_input \<Rightarrow> int" where
  "chunk_lines c = ck_lineEnd c - ck_lineStart c + 1"

lemma pushChunk_ok:
  assumes "0 \<le> a" and "0 \<le> b" and "b \<le> int (length lines)" and "list_all (chunk_ok lines) chunks"
  shows "list_all (chunk_ok lines) (pushChunk file path sid lines a b chunks)"
proof (cases "a < b")
  case True
  then show ?thesis
    using assms by (simp add: pushChunk_def Let_def chunk_ok_def js_slice_range nat_diff_distrib)
next
  case False
  then have "js_slice lines a b = []" using assms by (simp add: js_slice_range)
  then show ?thesis using assms(4) by (simp add: pushChunk_def Let_def js_trim_def)
qed

lemma pushChunk_covers:
  assumes "0 \<le> a" and "0 \<le> b" and "b \<le> int (length lines)" and "covers lines k chunks" and "a \<le> k"
  shows "covers lines (max k b) (pushChunk file path sid lines a b chunks)"
  unfolding covers_def
proof (intro allI impI, elim conjE)
  fix i
  assume i: "i < length lines" "int i < max k b" and nb: "js_trim (lines ! i) \<noteq> []"
  let ?slice = "js_slice lines a b"
  show "\<exists>c \<in> set (pushChunk file path sid lines a b chunks). ck_lineStart c \<le> int i + 1 \<and> int i + 1 \<le> ck_lineEnd c"
  proof (cases "int i < k")
    case True
    then show ?thesis using assms(4) i(1) nb by (auto simp: covers_def pushChunk_def Let_def)
  next
    case False
    then have r: "a \<le> int i" "int i < b" using i(2) assms(5) by auto
    have "lines ! i = ?slice ! (i - nat a)" "i - nat a < length ?slice"
      using r assms(1-3) by (auto simp: js_slice_range)
    then have "lines ! i \<in> set ?slice" by simp
    then have "js_trim (js_join [CHR 0x0A] ?slice) \<noteq> []"
      using nb set_js_join [of "lines ! i" ?slice "[CHR 0x0A]"] by (auto simp: trim_empty)
    then show ?thesis using r by (auto simp: pushChunk_def Let_def)
  qed
qed

lemma covers_mono: "covers lines k chunks \<Longrightarrow> j \<le> k \<Longrightarrow> covers lines j chunks"
  by (auto simp: covers_def)

definition symbol_ok :: "string list \<Rightarrow> indexed_symbol \<Rightarrow> bool" where
  "symbol_ok lines s \<longleftrightarrow> 1 \<le> sy_lineStart s \<and> sy_lineStart s \<le> int (length lines) \<and> 0 \<le> sy_lineEnd s"

definition cut_inv :: "string list \<Rightarrow> chunk_input list \<times> int \<Rightarrow> bool" where
  "cut_inv lines s \<longleftrightarrow> 0 \<le> snd s \<and> snd s \<le> int (length lines) \<and> list_all (chunk_ok lines) (fst s) \<and> covers lines (snd s) (fst s)"

lemma symbolStep_inv:
  assumes "cut_inv lines s" and "symbol_ok lines symbol"
  shows "cut_inv lines (symbolStep file path lines symbol s)"
proof -
  obtain chunks cursor where s: "s = (chunks, cursor)" by fastforce
  let ?a = "sy_lineStart symbol - 1" and ?b = "min (sy_lineEnd symbol) (int (length lines))"
  note I = assms(1) [unfolded cut_inv_def s fst_conv snd_conv]
  have ab: "0 \<le> ?a" "?a \<le> int (length lines)" "0 \<le> ?b" "?b \<le> int (length lines)" using assms(2) by (auto simp: symbol_ok_def)
  define chunks1 where "chunks1 = (if cursor < ?a then pushChunk file path None lines cursor ?a chunks else chunks)"
  have "list_all (chunk_ok lines) chunks1" "covers lines (max cursor ?a) chunks1"
    using I ab pushChunk_ok [of cursor ?a lines chunks] pushChunk_covers [of cursor ?a lines cursor chunks]
    by (auto simp: chunks1_def max_def intro: covers_mono)
  then have "list_all (chunk_ok lines) (pushChunk file path (Some (sy_id symbol)) lines ?a ?b chunks1)"
    "covers lines (max (max cursor ?a) ?b) (pushChunk file path (Some (sy_id symbol)) lines ?a ?b chunks1)"
    using ab by (auto intro: pushChunk_ok pushChunk_covers)
  then show ?thesis
    using ab covers_mono by (auto simp: symbolStep_def s Let_def chunks1_def cut_inv_def)
qed

lemma symbols_inv: "list_all (symbol_ok lines) symbols \<Longrightarrow> cut_inv lines s \<Longrightarrow> cut_inv lines (fold (symbolStep file path lines) symbols s)"
  by (induction symbols arbitrary: s) (simp_all add: symbolStep_inv)

lemma chunkBySymbols_ok:
  assumes "list_all (symbol_ok lines) symbols"
  shows "list_all (chunk_ok lines) (chunkBySymbols file path lines symbols)"
    and "covers lines (int (length lines)) (chunkBySymbols file path lines symbols)"
proof -
  obtain chunks cursor where f: "fold (symbolStep file path lines) (sort_key sy_lineStart symbols) ([], 0) = (chunks, cursor)" by fastforce
  have "cut_inv lines ([], 0)" by (simp add: cut_inv_def covers_def)
  then have "cut_inv lines (fold (symbolStep file path lines) (sort_key sy_lineStart symbols) ([], 0))"
    using assms by (intro symbols_inv) (simp_all add: list_all_iff)
  then have "cut_inv lines (chunks, cursor)" by (simp add: f)
  then show "list_all (chunk_ok lines) (chunkBySymbols file path lines symbols)"
    and "covers lines (int (length lines)) (chunkBySymbols file path lines symbols)"
    using pushChunk_ok [of cursor "int (length lines)" lines chunks]
      pushChunk_covers [of cursor "int (length lines)" lines cursor chunks] f
    by (auto simp: chunkBySymbols_def cut_inv_def Let_def max_def split: if_splits)
qed

lemma windowLoop_ok:
  assumes "0 \<le> overlap" and "overlap < maxLines"
  shows "0 \<le> start \<Longrightarrow> list_all (\<lambda>c. chunk_ok lines c \<and> chunk_lines c \<le> maxLines) chunks \<Longrightarrow> covers lines start chunks \<Longrightarrow>
    \<exists>r. windowLoop file path lines maxLines overlap start chunks = Some r
      \<and> list_all (\<lambda>c. chunk_ok lines c \<and> chunk_lines c \<le> maxLines) r \<and> covers lines (int (length lines)) r"
proof (induction "nat (int (length lines) - start)" arbitrary: start chunks rule: less_induct)
  case less
  let ?n = "int (length lines)"
  let ?e = "min (start + maxLines) ?n"
  let ?ch = "pushChunk file path None lines start ?e chunks"
  show ?case
  proof (cases "start < ?n")
    case True
    have "list_all (chunk_ok lines) ?ch" using True less.prems assms by (intro pushChunk_ok) (auto simp: list_all_iff)
    moreover have "list_all (\<lambda>c. chunk_lines c \<le> maxLines) ?ch"
      using less.prems(2) by (auto simp: pushChunk_def Let_def list_all_iff chunk_lines_def)
    ultimately have ok: "list_all (\<lambda>c. chunk_ok lines c \<and> chunk_lines c \<le> maxLines) ?ch" by (auto simp: list_all_iff)
    have cov: "covers lines ?e ?ch"
      using pushChunk_covers [where a = start and b = ?e and k = start and lines = lines and chunks = chunks] True less.prems assms by (auto intro: covers_mono)
    show ?thesis
    proof (cases "?e \<ge> ?n")
      case ends: True
      then have "?e = ?n" by simp
      then show ?thesis using True ok cov by (subst windowLoop.simps) (simp add: Let_def)
    next
      case False
      have "nat (?n - (?e - overlap)) < nat (?n - start)" "0 \<le> ?e - overlap" using True False assms less.prems(1) by auto
      from less.hyps [OF this ok covers_mono [OF cov]] show ?thesis
        using True False assms(1) by (subst windowLoop.simps) (simp add: Let_def)
    qed
  next
    case False
    then show ?thesis using less.prems covers_mono [of lines start chunks ?n] by (subst windowLoop.simps) auto
  qed
qed

section \<open>Properties\<close>

lemma chunkFile_default: "\<exists>cs. chunkFile cwd files root f symbols None = Some cs"
  using windowLoop_ends [of DEFAULT_CHUNK_OVERLAP_LINES DEFAULT_CHUNK_MAX_LINES]
  by (auto simp: chunkFile_def Let_def chunkByWindow_def nullish_def DEFAULT_CHUNK_OVERLAP_LINES_def DEFAULT_CHUNK_MAX_LINES_def
      split: option.split)

lemma chunkFiles_default: "\<exists>cs. chunkFiles cwd files root fs symbols None = Some cs"
proof (induction fs)
  case (Cons f fs)
  then show ?case using chunkFile_default [of cwd files root f symbols] by auto
qed simp

text \<open>
  C31. Chunking a text by windows ends exactly when the overlap is smaller than the window or the whole text
  fits into one window; otherwise the window never moves forward and the loop runs forever. With the default
  options the chunking of any list of files ends.
\<close>

theorem window_chunking_ends_iff:
  "((\<exists>chunks. chunkByWindow f path (js_split content [CHR 0x0A]) (Some \<lparr>co_maxLines = Some m, co_overlapLines = Some v\<rparr>) = Some chunks)
     = (v < m \<or> int (length (js_split content [CHR 0x0A])) \<le> m))
   \<and> (\<exists>chunks. chunkFiles cwd files root fs symbols None = Some chunks)"
proof -
  let ?ls = "js_split content [CHR 0x0A]"
  have "\<exists>r. windowLoop f path ?ls m v 0 [] = Some r" if "int (length ?ls) \<le> m"
    using that by (subst windowLoop.simps) (auto simp: Let_def)
  moreover have "v < m \<or> int (length ?ls) \<le> m" if "windowLoop f path ?ls m v 0 [] = Some r" for r
    using windowLoop_runs_forever [OF that] js_split_ne [of content "[CHR 0x0A]"] by auto
  ultimately show ?thesis
    using windowLoop_ends [of v m] chunkFiles_default by (auto simp: chunkByWindow_def nullish_def)
qed

text \<open>
  C32. Chunks are true ranges of the text: each has the lines between its first and last line number, which
  lie within the text, and no window is longer than the limit; and they cover it: every line that is not blank
  is in some chunk. This holds for symbol chunks when the symbols start within the text, nested and overlapping
  ones included, and for window chunks when the overlap is not negative and smaller than the window; the loop
  then ends.
\<close>

theorem chunks_cover_text:
  assumes "list_all (symbol_ok lines) symbols" and "0 \<le> v" and "v < m"
  shows "list_all (chunk_ok lines) (chunkBySymbols file path lines symbols)
    \<and> covers lines (int (length lines)) (chunkBySymbols file path lines symbols)
    \<and> (\<exists>chunks. chunkByWindow file path lines (Some \<lparr>co_maxLines = Some m, co_overlapLines = Some v\<rparr>) = Some chunks
        \<and> list_all (\<lambda>c. chunk_ok lines c \<and> chunk_lines c \<le> m) chunks \<and> covers lines (int (length lines)) chunks)"
  using chunkBySymbols_ok [OF assms(1)] windowLoop_ok [OF assms(2,3), of 0 lines "[]"]
  by (simp add: chunkByWindow_def nullish_def covers_def [of lines 0])

definition sample_file :: indexed_file where
  "sample_file = \<lparr>if_id = ''f'', if_path = ''a.ts'', if_extension = ''.ts'', if_language = ''typescript'', if_sizeBytes = 4,
     if_status = FileIndexed, if_ignoredReason = None, if_workspaceRoot = None\<rparr>"

definition sample_symbol :: indexed_symbol where
  "sample_symbol = \<lparr>sy_id = ''s'', sy_fileId = ''f'', sy_name = ''b'', sy_kind = SkFunction, sy_lineStart = 3, sy_lineEnd = 9\<rparr>"

theorem chunks_cover_text_witness:
  "covers [''a'', [], ''b''] 3 (chunkBySymbols sample_file ''a.ts'' [''a'', [], ''b''] [sample_symbol])
   \<and> (\<exists>chunks. chunkByWindow sample_file ''a.ts'' [''a'', [], ''b''] (Some \<lparr>co_maxLines = Some 2, co_overlapLines = Some 1\<rparr>) = Some chunks
        \<and> covers [''a'', [], ''b''] 3 chunks)"
  using chunks_cover_text [of "[''a'', [], ''b'']" "[sample_symbol]" 1 2]
  by (auto simp: symbol_ok_def sample_symbol_def)

end
