(* ===== verification/TextFiles.thy ===== *)
theory TextFiles
  imports ScanPaths JsonText
begin

text \<open>
  Files and the tools that read and change one file: \<^verbatim>\<open>tool-paths.ts\<close>, \<^verbatim>\<open>diff-summary.ts\<close>, \<^verbatim>\<open>read-tool.ts\<close>,
  \<^verbatim>\<open>write-tool.ts\<close> and \<^verbatim>\<open>edit-tool.ts\<close> of \<^verbatim>\<open>packages/opencode-app/src/tools\<close>.

  A file system maps the segments of an absolute path to a file or a directory, in the order in which
  directories list their entries. It has no symbolic links and no permissions, and the calls of \<^verbatim>\<open>node:fs\<close> fail
  only for the reasons in \<open>io_code\<close>. \<open>host\<close> holds what the process environment decides: the working
  directory, the texts of system errors (by call, code and path) and \<^verbatim>\<open>Buffer.toString\<close>, which replaces malformed bytes.
\<close>

section \<open>The file system\<close>

datatype fs_node = FileNode buffer | DirNode

type_synonym filesystem = "(string list \<times> fs_node) list"

datatype io_code = ENOENT | EISDIR | ENOTDIR | EEXIST | ERR_INVALID_ARG_VALUE

record host =
  hs_cwd :: string
  hs_sysMessage :: "string \<Rightarrow> io_code \<Rightarrow> string \<Rightarrow> string"
  hs_toString :: "buffer \<Rightarrow> string"

text \<open>Why a path that does not exist cannot be opened.\<close>

definition missing_code :: "filesystem \<Rightarrow> string list \<Rightarrow> io_code" where
  "missing_code fs k =
     (if list_ex (\<lambda>s. CHR 0x00 \<in> set s) k then ERR_INVALID_ARG_VALUE
      else if list_ex (\<lambda>i. case map_of fs (take i k) of Some (FileNode b) \<Rightarrow> True | _ \<Rightarrow> False) [0..<length k]
      then ENOTDIR else ENOENT)"

definition existsSync :: "host \<Rightarrow> filesystem \<Rightarrow> string \<Rightarrow> bool" where
  "existsSync H fs p = (map_of fs (resolve_segs (hs_cwd H) p) \<noteq> None)"

definition readFileSync :: "host \<Rightarrow> filesystem \<Rightarrow> string \<Rightarrow> string + buffer" where
  "readFileSync H fs p =
     (let k = resolve_segs (hs_cwd H) p in
      case map_of fs k of
        Some (FileNode b) \<Rightarrow> Inr b
      | Some DirNode \<Rightarrow> Inl (hs_sysMessage H ''read'' EISDIR p)
      | None \<Rightarrow> Inl (hs_sysMessage H ''open'' (missing_code fs k) p))"

definition writeFileSync :: "host \<Rightarrow> filesystem \<Rightarrow> string \<Rightarrow> string \<Rightarrow> string + filesystem" where
  "writeFileSync H fs p s =
     (let k = resolve_segs (hs_cwd H) p in
      case map_of fs k of
        Some (FileNode b) \<Rightarrow> Inr (AList.update k (FileNode (utf8_encode s)) fs)
      | Some DirNode \<Rightarrow> Inl (hs_sysMessage H ''open'' EISDIR p)
      | None \<Rightarrow>
          if k \<noteq> [] \<and> CHR 0x00 \<notin> set (last k) \<and> map_of fs (butlast k) = Some DirNode
          then Inr (AList.update k (FileNode (utf8_encode s)) fs)
          else Inl (hs_sysMessage H ''open'' (missing_code fs k) p))"

text \<open>\<^verbatim>\<open>mkdirSync(path, { recursive: true })\<close>: every directory on the way that is missing, from the top.\<close>

fun mkdirs :: "string list \<Rightarrow> string list \<Rightarrow> filesystem \<Rightarrow> io_code + filesystem" where
  "mkdirs k [] fs =
     (case map_of fs k of
        Some DirNode \<Rightarrow> Inr fs
      | Some (FileNode b) \<Rightarrow> Inl EEXIST
      | None \<Rightarrow> Inr (AList.update k DirNode fs))"
| "mkdirs k (s # ss) fs =
     (case map_of fs k of
        Some DirNode \<Rightarrow> mkdirs (k @ [s]) ss fs
      | Some (FileNode b) \<Rightarrow> Inl ENOTDIR
      | None \<Rightarrow> mkdirs (k @ [s]) ss (AList.update k DirNode fs))"

definition mkdirSync :: "host \<Rightarrow> filesystem \<Rightarrow> string \<Rightarrow> string + filesystem" where
  "mkdirSync H fs p =
     (let k = resolve_segs (hs_cwd H) p in
      case (if list_ex (\<lambda>s. CHR 0x00 \<in> set s) k then Inl ERR_INVALID_ARG_VALUE else mkdirs [] k fs) of
        Inl c \<Rightarrow> Inl (hs_sysMessage H ''mkdir'' c p)
      | Inr fs' \<Rightarrow> Inr fs')"

definition unlinkSync :: "host \<Rightarrow> filesystem \<Rightarrow> string \<Rightarrow> string + filesystem" where
  "unlinkSync H fs p =
     (let k = resolve_segs (hs_cwd H) p in
      case map_of fs k of
        Some (FileNode b) \<Rightarrow> Inr (AList.delete k fs)
      | Some DirNode \<Rightarrow> Inl (hs_sysMessage H ''unlink'' EISDIR p)
      | None \<Rightarrow> Inl (hs_sysMessage H ''unlink'' (missing_code fs k) p))"

definition path_dirname :: "string \<Rightarrow> string \<Rightarrow> string" where
  "path_dirname cwd p = ''/'' @ js_join ''/'' (butlast (resolve_segs cwd p))"

text \<open>The path of a list of segments.\<close>

definition absolute_text :: "string list \<Rightarrow> string" where
  "absolute_text k = ''/'' @ js_join ''/'' k"

section \<open>Repository paths\<close>

text \<open>\<^verbatim>\<open>path.resolve(root, p)\<close> with two arguments; an empty argument is skipped.\<close>

definition path_resolve2 :: "string \<Rightarrow> string \<Rightarrow> string \<Rightarrow> string" where
  "path_resolve2 cwd root p = path_resolve cwd (if isAbsolute p \<or> root = [] then p else root @ ''/'' @ p)"

definition normalizeRelativePath :: "string \<Rightarrow> string" where
  "normalizeRelativePath v = js_join ''/'' (js_split v ''/'')"

definition resolveRepoPath :: "host \<Rightarrow> string \<Rightarrow> string \<Rightarrow> string + string \<times> string" where
  "resolveRepoPath H repoRoot requestedPath =
     (let absolutePath = path_resolve2 (hs_cwd H) repoRoot requestedPath;
          relative = path_relative (hs_cwd H) repoRoot absolutePath
      in if js_startsWith relative ''..'' \<or> isAbsolute relative
         then Inl (''Path '' @ [CHR 0x27] @ requestedPath @ [CHR 0x27] @ '' is outside the repository.'')
         else Inr (absolutePath, normalizeRelativePath (if relative = [] then ''.'' else relative)))"

section \<open>Lines and diff summaries\<close>

text \<open>\<^verbatim>\<open>s.split(/\r?\n/)\<close>.\<close>

function split_newlines :: "string \<Rightarrow> string \<Rightarrow> string list" where
  "split_newlines acc [] = [rev acc]"
| "split_newlines acc (c # cs) =
     (if c = CHR 0x0A then rev acc # split_newlines [] cs
      else if c = CHR 0x0D \<and> cs \<noteq> [] \<and> hd cs = CHR 0x0A then rev acc # split_newlines [] (tl cs)
      else split_newlines (c # acc) cs)"
  by pat_completeness auto
termination
  by (relation "measure (\<lambda>(acc, s). length s)") auto

definition pop_empty :: "string list \<Rightarrow> string list" where
  "pop_empty ls = (if ls \<noteq> [] \<and> last ls = [] then butlast ls else ls)"

definition splitComparableLines :: "string \<Rightarrow> string list" where
  "splitComparableLines content = (if content = [] then [] else pop_empty (split_newlines [] content))"

function diff_prefix :: "'a list \<Rightarrow> 'a list \<Rightarrow> nat \<Rightarrow> nat" where
  "diff_prefix b a p =
     (if p < length b \<and> p < length a \<and> b ! p = a ! p then diff_prefix b a (p + 1) else p)"
  by pat_completeness auto
termination
  by (relation "measure (\<lambda>(b, a, p). length b - p)") auto

function diff_suffix :: "'a list \<Rightarrow> 'a list \<Rightarrow> nat \<Rightarrow> nat \<Rightarrow> nat" where
  "diff_suffix b a p s =
     (if s < length b - p \<and> s < length a - p \<and> b ! (length b - 1 - s) = a ! (length a - 1 - s)
      then diff_suffix b a p (s + 1) else s)"
  by pat_completeness auto
termination
  by (relation "measure (\<lambda>(b, a, p, s). length b - s)") auto

declare diff_prefix.simps [simp del] diff_suffix.simps [simp del]

record diff_summary =
  ds_filesChanged :: nat
  ds_additions :: nat
  ds_deletions :: nat
  ds_paths :: "string list"

definition summarizeTextDiff :: "string \<Rightarrow> string \<Rightarrow> string \<Rightarrow> diff_summary" where
  "summarizeTextDiff filePath before after =
     (if before = after then \<lparr>ds_filesChanged = 0, ds_additions = 0, ds_deletions = 0, ds_paths = []\<rparr>
      else
        let beforeLines = splitComparableLines before; afterLines = splitComparableLines after;
            p = diff_prefix beforeLines afterLines 0; s = diff_suffix beforeLines afterLines p 0
        in \<lparr>ds_filesChanged = 1, ds_additions = length afterLines - p - s,
            ds_deletions = length beforeLines - p - s, ds_paths = [filePath]\<rparr>)"

definition combineDiffSummaries :: "diff_summary list \<Rightarrow> diff_summary" where
  "combineDiffSummaries summaries =
     (let paths = js_unique (concat (map ds_paths summaries)) in
      \<lparr>ds_filesChanged = length paths, ds_additions = sum_list (map ds_additions summaries),
       ds_deletions = sum_list (map ds_deletions summaries), ds_paths = paths\<rparr>)"

section \<open>Results of tools\<close>

text \<open>The last constructor is the cast of a text that names no tool.\<close>

datatype tool_name =
    Read | Write | Edit | Shell | Glob | Grep | ApplyPatch | Todo | Task
  | SemanticSearch | GraphFindSymbol | GraphFindReferences | GraphCallHierarchy
  | CastName string

datatype tool_status = Succeeded | Failed | PermissionRequired | Unsupported

record tool_metadata =
  md_truncated :: bool
  md_bytesRead :: "nat option"
  md_bytesReturned :: "nat option"
  md_omittedBytes :: "nat option"
  md_exitCode :: "int option option"
  md_durationMs :: "int option"
  md_diffSummary :: "diff_summary option"

record 'o tool_result =
  tr_toolName :: tool_name
  tr_status :: tool_status
  tr_output :: "'o option"
  tr_error :: "string option"
  tr_metadata :: tool_metadata

definition metadata0 :: tool_metadata where
  "metadata0 = \<lparr>md_truncated = False, md_bytesRead = None, md_bytesReturned = None, md_omittedBytes = None,
     md_exitCode = None, md_durationMs = None, md_diffSummary = None\<rparr>"

definition failedResult :: "tool_name \<Rightarrow> string \<Rightarrow> 'o tool_result" where
  "failedResult t e =
     \<lparr>tr_toolName = t, tr_status = Failed, tr_output = None, tr_error = Some e, tr_metadata = metadata0\<rparr>"

definition succeededResult :: "tool_name \<Rightarrow> 'o \<Rightarrow> tool_metadata \<Rightarrow> 'o tool_result" where
  "succeededResult t x md =
     \<lparr>tr_toolName = t, tr_status = Succeeded, tr_output = Some x, tr_error = None, tr_metadata = md\<rparr>"

section \<open>Reading\<close>

record read_input =
  ri_path :: string
  ri_offset :: "nat option"
  ri_limit :: "nat option"
  ri_maxBytes :: "nat option"

record read_output =
  ro_path :: string
  ro_content :: string
  ro_startLine :: nat
  ro_endLine :: nat

record sliced_lines =
  sl_content :: string
  sl_startLine :: nat
  sl_endLine :: nat
  sl_truncated :: bool

definition sliceLines :: "string \<Rightarrow> nat \<Rightarrow> nat option \<Rightarrow> sliced_lines" where
  "sliceLines content offset limit =
     (let lines = pop_empty (split_newlines [] content);
          selected = drop offset (case limit of None \<Rightarrow> lines | Some l \<Rightarrow> if l = 0 then lines else take (offset + l) lines)
      in \<lparr>sl_content = js_join [CHR 0x0A] selected,
          sl_startLine = (if selected \<noteq> [] then offset + 1 else offset),
          sl_endLine = (if selected \<noteq> [] then offset + length selected else offset),
          sl_truncated = (0 < offset \<or> (case limit of None \<Rightarrow> False | Some l \<Rightarrow> offset + l < length lines))\<rparr>)"

definition executeReadTool :: "host \<Rightarrow> string \<Rightarrow> read_input \<Rightarrow> filesystem \<Rightarrow> read_output tool_result" where
  "executeReadTool H repoRoot i fs =
     (case resolveRepoPath H repoRoot (ri_path i) of
        Inl e \<Rightarrow> failedResult Read e
      | Inr (absolutePath, relativePath) \<Rightarrow>
          (case readFileSync H fs absolutePath of
             Inl e \<Rightarrow> failedResult Read e
           | Inr buffer \<Rightarrow>
               let bytesRead = length buffer;
                   over = (case ri_maxBytes i of None \<Rightarrow> False | Some m \<Rightarrow> m < bytesRead);
                   content = hs_toString H (case ri_maxBytes i of
                     Some m \<Rightarrow> if m \<noteq> 0 \<and> m < bytesRead then take m buffer else buffer | None \<Rightarrow> buffer);
                   r = sliceLines content (nullish (ri_offset i) 0) (ri_limit i);
                   bytesReturned = length (utf8_encode (sl_content r))
               in succeededResult Read
                    \<lparr>ro_path = relativePath, ro_content = sl_content r, ro_startLine = sl_startLine r, ro_endLine = sl_endLine r\<rparr>
                    (metadata0\<lparr>md_truncated := over \<or> sl_truncated r, md_bytesRead := Some bytesRead,
                       md_bytesReturned := Some bytesReturned, md_omittedBytes := Some (bytesRead - bytesReturned)\<rparr>)))"

section \<open>Writing\<close>

record write_input =
  wi_path :: string
  wi_content :: string
  wi_createDirs :: "bool option"

record write_output =
  wo_path :: string
  wo_bytesWritten :: nat

definition executeWriteTool ::
  "host \<Rightarrow> string \<Rightarrow> write_input \<Rightarrow> filesystem \<Rightarrow> write_output tool_result \<times> filesystem" where
  "executeWriteTool H repoRoot i fs =
     (case resolveRepoPath H repoRoot (wi_path i) of
        Inl e \<Rightarrow> (failedResult Write e, fs)
      | Inr (absolutePath, relativePath) \<Rightarrow>
          (case (if existsSync H fs absolutePath
                 then (case readFileSync H fs absolutePath of Inl e \<Rightarrow> Inl e | Inr b \<Rightarrow> Inr (hs_toString H b))
                 else Inr []) of
             Inl e \<Rightarrow> (failedResult Write e, fs)
           | Inr before \<Rightarrow>
               (case (if wi_createDirs i = Some True then mkdirSync H fs (path_dirname (hs_cwd H) absolutePath) else Inr fs) of
                  Inl e \<Rightarrow> (failedResult Write e, fs)
                | Inr fs1 \<Rightarrow>
                    (case writeFileSync H fs1 absolutePath (wi_content i) of
                       Inl e \<Rightarrow> (failedResult Write e, fs1)
                     | Inr fs2 \<Rightarrow>
                         let bytesWritten = length (utf8_encode (wi_content i)) in
                         (succeededResult Write \<lparr>wo_path = relativePath, wo_bytesWritten = bytesWritten\<rparr>
                            (metadata0\<lparr>md_bytesReturned := Some bytesWritten,
                               md_diffSummary := Some (summarizeTextDiff relativePath before (wi_content i))\<rparr>), fs2)))))"

section \<open>Editing\<close>

record edit_input =
  ei_path :: string
  ei_oldText :: string
  ei_newText :: string
  ei_replaceAll :: "bool option"

record edit_output =
  eo_path :: string
  eo_replacements :: nat

text \<open>The replacement patterns of \<^verbatim>\<open>String.prototype.replace\<close> for a string pattern: a dollar sign, the match, what is
  before it and what is after it.\<close>

fun expand_replacement :: "string \<Rightarrow> string \<Rightarrow> string \<Rightarrow> string \<Rightarrow> string" where
  "expand_replacement pre matched post (c # d # cs) =
     (if c = CHR ''$'' then
        (if d = CHR ''$'' then CHR ''$'' # expand_replacement pre matched post cs
         else if d = CHR ''&'' then matched @ expand_replacement pre matched post cs
         else if d = CHR 0x60 then pre @ expand_replacement pre matched post cs
         else if d = CHR 0x27 then post @ expand_replacement pre matched post cs
         else c # expand_replacement pre matched post (d # cs))
      else c # expand_replacement pre matched post (d # cs))"
| "expand_replacement pre matched post cs = cs"

definition js_replace :: "string \<Rightarrow> string \<Rightarrow> string \<Rightarrow> string" where
  "js_replace s old new =
     (case js_indexOf s old of
        None \<Rightarrow> s
      | Some i \<Rightarrow>
          let pre = take i s; post = drop (i + length old) s in pre @ expand_replacement pre old post new @ post)"

definition executeEditTool ::
  "host \<Rightarrow> string \<Rightarrow> edit_input \<Rightarrow> filesystem \<Rightarrow> edit_output tool_result \<times> filesystem" where
  "executeEditTool H repoRoot i fs =
     (case resolveRepoPath H repoRoot (ei_path i) of
        Inl e \<Rightarrow> (failedResult Edit e, fs)
      | Inr (absolutePath, relativePath) \<Rightarrow>
          (case readFileSync H fs absolutePath of
             Inl e \<Rightarrow> (failedResult Edit e, fs)
           | Inr b \<Rightarrow>
               let original = hs_toString H b in
               if \<not> js_includes original (ei_oldText i)
               then (failedResult Edit (''Text to replace was not found in '' @ relativePath @ ''.''), fs)
               else
                 let all = (ei_replaceAll i = Some True);
                     replacements = (if all then length (js_split original (ei_oldText i)) - 1 else 1);
                     updated = (if all then js_join (ei_newText i) (js_split original (ei_oldText i))
                                else js_replace original (ei_oldText i) (ei_newText i))
                 in case writeFileSync H fs absolutePath updated of
                      Inl e \<Rightarrow> (failedResult Edit e, fs)
                    | Inr fs' \<Rightarrow>
                        (succeededResult Edit \<lparr>eo_path = relativePath, eo_replacements = replacements\<rparr>
                           (metadata0\<lparr>md_bytesRead := Some (length (utf8_encode original)),
                              md_bytesReturned := Some (length (utf8_encode updated)),
                              md_diffSummary := Some (summarizeTextDiff relativePath original updated)\<rparr>), fs')))"

end
