(* ===== verification/FileTools.thy ===== *)
theory FileTools
  imports TextFiles
begin

text \<open>
  What the file tools of \<open>TextFiles\<close> do: repository paths stay below the root, the calls that change files keep
  the file system well formed and touch nothing outside the repository, a diff summary describes the smallest
  changed block, an edit replaces exactly the occurrences it should, and a written file is read back.
\<close>

section \<open>Repository paths, and what the calls change\<close>

abbreviation root_segs :: "host \<Rightarrow> string \<Rightarrow> string list" where
  "root_segs H root \<equiv> resolve_segs (hs_cwd H) root"

lemma resolve_path_resolve [simp]: "resolve_segs cwd (path_resolve cwd p) = resolve_segs cwd p"
  by (simp only: path_resolve_def resolve_join [OF resolve_segs_ok])

lemma resolveRepoPath_inside:
  assumes "resolveRepoPath H root p = Inr (a, r)"
  shows "\<exists>s. resolve_segs (hs_cwd H) a = root_segs H root @ s \<and> r = (if s = [] then ''.'' else js_join ''/'' s)"
proof -
  let ?rel = "path_relative (hs_cwd H) root a"
  have a: "\<not> js_startsWith ?rel ''..''" "r = normalizeRelativePath (if ?rel = [] then ''.'' else ?rel)"
    using assms by (auto simp: resolveRepoPath_def Let_def split: if_splits)
  have "prefix (root_segs H root) (resolve_segs (hs_cwd H) a)"
    using a(1) relative_outside [of "hs_cwd H" root a] by (auto simp: js_startsWith_iff)
  then obtain s where s: "resolve_segs (hs_cwd H) a = root_segs H root @ s" by (auto simp: prefix_def)
  have "(?rel = []) = (s = [])"
  proof (cases s)
    case (Cons x xs)
    have "list_all seg_ok (x # xs)" using resolve_segs_ok [of "hs_cwd H" a] s Cons by simp
    then show ?thesis using join_seg(1) Cons relative_inside [OF s] by simp
  qed (simp add: relative_inside [OF s])
  then show ?thesis
    using s a(2) by (simp add: relative_inside [OF s] normalizeRelativePath_def js_join_split)
qed

lemma resolveRepoPath_outside:
  "\<not> prefix (root_segs H root) (resolve_segs (hs_cwd H) (path_resolve2 (hs_cwd H) root p)) \<Longrightarrow> \<exists>e. resolveRepoPath H root p = Inl e"
  using resolveRepoPath_inside [of H root p]
  by (cases "resolveRepoPath H root p") (auto simp: prefix_def resolveRepoPath_def Let_def split: if_splits)

text \<open>Everything but the root is in a directory.\<close>

definition wf_fs :: "filesystem \<Rightarrow> bool" where
  "wf_fs fs \<longleftrightarrow> map_of fs [] = Some DirNode \<and> (\<forall>k n i. map_of fs k = Some n \<longrightarrow> i < length k \<longrightarrow> map_of fs (take i k) = Some DirNode)"

text \<open>What is not below the directory \<open>R\<close> is as it was.\<close>

definition same_outside :: "string list \<Rightarrow> filesystem \<Rightarrow> filesystem \<Rightarrow> bool" where
  "same_outside R fs fs' \<longleftrightarrow> (\<forall>k. \<not> prefix R k \<longrightarrow> map_of fs' k = map_of fs k)"

text \<open>The repository is a directory of a well-formed file system.\<close>

definition repo_fs :: "string list \<Rightarrow> filesystem \<Rightarrow> bool" where
  "repo_fs R fs \<longleftrightarrow> wf_fs fs \<and> map_of fs R = Some DirNode"

lemma same_outside_refl [simp]: "same_outside R fs fs"
  by (simp add: same_outside_def)

lemma same_outside_trans: "same_outside R a b \<Longrightarrow> same_outside R b c \<Longrightarrow> same_outside R a c"
  by (simp add: same_outside_def)

lemma wf_fsD: "wf_fs fs \<Longrightarrow> map_of fs k = Some n \<Longrightarrow> i < length k \<Longrightarrow> map_of fs (take i k) = Some DirNode"
  by (auto simp: wf_fs_def)

lemma wf_fs_parent: "wf_fs fs \<Longrightarrow> map_of fs (k @ [s]) = Some n \<Longrightarrow> map_of fs k = Some DirNode"
  using wf_fsD [of fs "k @ [s]" n "length k"] by simp

lemma strict_prefix_dir: "wf_fs fs \<Longrightarrow> map_of fs k = Some n \<Longrightarrow> strict_prefix q k \<Longrightarrow> map_of fs q = Some DirNode"
  by (auto simp: strict_prefix_def prefix_def dest: wf_fsD [of _ _ _ "length q"])

lemma mkdirs_map:
  "mkdirs k ss fs = Inr fs' \<Longrightarrow>
     map_of fs' q = (if map_of fs q = None \<and> (\<exists>i \<le> length ss. q = k @ take i ss) then Some DirNode else map_of fs q)"
proof (induction k ss fs rule: mkdirs.induct)
  case (1 k fs)
  then show ?case by (auto simp: update_conv' split: option.splits fs_node.splits)
next
  case (2 k s ss fs)
  have ex: "(\<exists>i \<le> length (s # ss). q = k @ take i (s # ss)) = (q = k \<or> (\<exists>i \<le> length ss. q = (k @ [s]) @ take i ss))"
  proof
    assume "\<exists>i \<le> length (s # ss). q = k @ take i (s # ss)"
    then obtain i where "i \<le> length (s # ss)" "q = k @ take i (s # ss)" by blast
    then show "q = k \<or> (\<exists>i \<le> length ss. q = (k @ [s]) @ take i ss)" by (cases i) auto
  next
    assume "q = k \<or> (\<exists>i \<le> length ss. q = (k @ [s]) @ take i ss)"
    then show "\<exists>i \<le> length (s # ss). q = k @ take i (s # ss)"
    proof
      assume "\<exists>i \<le> length ss. q = (k @ [s]) @ take i ss"
      then obtain i where "i \<le> length ss" "q = (k @ [s]) @ take i ss" by blast
      then show ?thesis by (intro exI [of _ "Suc i"]) simp
    qed (auto intro: exI [of _ 0])
  qed
  show ?case
  proof (cases "map_of fs k")
    case None
    then have "mkdirs (k @ [s]) ss (AList.update k DirNode fs) = Inr fs'" using 2 by simp
    from "2.IH"(1) [OF None this] show ?thesis unfolding ex using None by (auto simp: update_conv')
  next
    case (Some n)
    then have "n = DirNode" "mkdirs (k @ [s]) ss fs = Inr fs'" using "2.prems" by (auto split: fs_node.splits)
    then show ?thesis using "2.IH"(2) [OF Some] Some unfolding ex by auto
  qed
qed

lemma mkdirs_no_file: "mkdirs k ss fs = Inr fs' \<Longrightarrow> i \<le> length ss \<Longrightarrow> map_of fs (k @ take i ss) \<noteq> Some (FileNode b)"
proof (induction k ss fs arbitrary: i rule: mkdirs.induct)
  case (1 k fs)
  then show ?case by (auto split: option.splits fs_node.splits)
next
  case (2 k s ss fs)
  show ?case
  proof (cases i)
    case 0
    then show ?thesis using "2.prems" by auto
  next
    case (Suc j)
    show ?thesis
    proof (cases "map_of fs k")
      case None
      then show ?thesis using "2.IH"(1) [OF None, of j] "2.prems" Suc by (simp add: update_conv' split: if_splits)
    next
      case (Some n)
      then have "n = DirNode" "mkdirs (k @ [s]) ss fs = Inr fs'" using "2.prems" by (auto split: fs_node.splits)
      then show ?thesis using "2.IH"(2) [OF Some, of j] "2.prems"(2) Suc by simp
    qed
  qed
qed

lemma mkdirs_from_root:
  assumes "mkdirs [] k fs = Inr fs'"
  shows "map_of fs' q = (if prefix q k then Some DirNode else map_of fs q)"
proof -
  have "(\<exists>i \<le> length k. q = [] @ take i k) = prefix q k"
    by (auto simp: prefix_def intro!: exI [of _ "length q"]) (metis append_take_drop_id)
  then show ?thesis
    using mkdirs_map [OF assms, of q] mkdirs_no_file [OF assms] by (cases "map_of fs q"; cases "the (map_of fs q)") auto
qed

lemma mkdirs_wf: "mkdirs [] k fs = Inr fs' \<Longrightarrow> wf_fs fs \<Longrightarrow> wf_fs fs'"
  unfolding wf_fs_def mkdirs_from_root
  by (auto dest: prefix_order.trans [OF take_is_prefix] split: if_splits)

text \<open>A check of well-formedness that evaluates.\<close>

definition wf_check :: "filesystem \<Rightarrow> bool" where
  "wf_check fs \<longleftrightarrow> map_of fs [] = Some DirNode \<and> list_all (\<lambda>(k, n). k = [] \<or> map_of fs (butlast k) = Some DirNode) fs"

lemma wf_check:
  assumes "wf_check fs"
  shows "wf_fs fs"
  unfolding wf_fs_def
proof (intro conjI allI impI)
  show "map_of fs [] = Some DirNode" using assms by (simp add: wf_check_def)
  fix k n i assume "map_of fs k = Some n" "i < length k"
  then show "map_of fs (take i k) = Some DirNode"
  proof (induction k arbitrary: n rule: rev_induct)
    case (snoc x k)
    have "(k @ [x], n) \<in> set fs" using snoc.prems(1) by (rule map_of_SomeD)
    then have "map_of fs k = Some DirNode" using assms by (force simp: wf_check_def list_all_iff)
    then show ?case using snoc by (cases "i = length k") auto
  qed simp
qed

text \<open>A step that keeps the repository and what is outside it.\<close>

definition contained :: "string list \<Rightarrow> filesystem \<Rightarrow> filesystem \<Rightarrow> bool" where
  "contained R fs fs' \<longleftrightarrow> (repo_fs R fs \<longrightarrow> repo_fs R fs' \<and> same_outside R fs fs')"

lemma contained_refl [simp]: "contained R fs fs"
  by (simp add: contained_def)

lemma contained_trans [trans]: "contained R a b \<Longrightarrow> contained R b c \<Longrightarrow> contained R a c"
  using same_outside_trans by (auto simp: contained_def)

lemma parent_dirs:
  "wf_fs fs \<Longrightarrow> map_of fs (butlast k) = Some DirNode \<Longrightarrow> i < length k \<Longrightarrow> map_of fs (take i k) = Some DirNode"
  using wf_fsD [of fs "butlast k" DirNode i]
  by (cases "i = length (butlast k)") (auto simp: take_butlast butlast_conv_take)

lemma wf_put_file:
  assumes wf: "wf_fs fs" and k: "k \<noteq> []" "map_of fs (butlast k) = Some DirNode" "map_of fs k \<noteq> Some DirNode"
  shows "wf_fs (AList.update k (FileNode b) fs)"
  unfolding wf_fs_def update_conv'
proof (intro conjI allI impI)
  show "((map_of fs)(k \<mapsto> FileNode b)) [] = Some DirNode" using wf k(1) by (simp add: wf_fs_def)
next
  fix q n i assume q: "((map_of fs)(k \<mapsto> FileNode b)) q = Some n" and i: "i < length q"
  have "map_of fs (take i q) = Some DirNode"
    using q parent_dirs [OF wf k(2)] wf_fsD [OF wf _ i] i by (cases "q = k") auto
  moreover have "take i q \<noteq> k" using calculation k(3) by auto
  ultimately show "((map_of fs)(k \<mapsto> FileNode b)) (take i q) = Some DirNode" by simp
qed

lemma writeFileSync_iff:
  assumes "wf_fs fs"
  shows "writeFileSync H fs p s = Inr fs' \<longleftrightarrow>
    (let k = resolve_segs (hs_cwd H) p in k \<noteq> [] \<and> map_of fs (butlast k) = Some DirNode \<and> map_of fs k \<noteq> Some DirNode
       \<and> (map_of fs k = None \<longrightarrow> CHR 0x00 \<notin> set (last k)) \<and> fs' = AList.update k (FileNode (utf8_encode s)) fs)"
proof -
  let ?k = "resolve_segs (hs_cwd H) p"
  have "?k \<noteq> [] \<and> map_of fs (butlast ?k) = Some DirNode" if "map_of fs ?k = Some (FileNode b)" for b
    using that assms wf_fsD [OF assms that, of "length ?k - 1"] by (cases "?k = []") (auto simp: wf_fs_def butlast_conv_take)
  then show ?thesis by (auto simp: writeFileSync_def Let_def split: option.splits fs_node.splits)
qed

lemma contained_write:
  assumes "writeFileSync H fs p s = Inr fs'" and "resolve_segs (hs_cwd H) p = R @ t"
  shows "contained R fs fs'"
  unfolding contained_def
proof
  assume fs: "repo_fs R fs"
  then have wf: "wf_fs fs" "map_of fs R = Some DirNode" by (auto simp: repo_fs_def)
  have w: "R @ t \<noteq> []" "map_of fs (butlast (R @ t)) = Some DirNode" "map_of fs (R @ t) \<noteq> Some DirNode"
    "fs' = AList.update (R @ t) (FileNode (utf8_encode s)) fs"
    using assms(1) unfolding writeFileSync_iff [OF wf(1)] assms(2) Let_def by auto
  then have "t \<noteq> []" using wf by auto
  then show "repo_fs R fs' \<and> same_outside R fs fs'"
    using wf wf_put_file [OF wf(1) w(1-3)] by (auto simp: repo_fs_def same_outside_def w(4) update_conv' prefix_def)
qed

lemma contained_unlink:
  assumes "unlinkSync H fs p = Inr fs'" and "resolve_segs (hs_cwd H) p = R @ t"
  shows "contained R fs fs'"
  unfolding contained_def
proof
  assume fs: "repo_fs R fs"
  then have wf: "wf_fs fs" "map_of fs R = Some DirNode" by (auto simp: repo_fs_def)
  obtain b where b: "map_of fs (R @ t) = Some (FileNode b)" "fs' = AList.delete (R @ t) fs"
    using assms by (auto simp: unlinkSync_def Let_def split: option.splits fs_node.splits)
  have "wf_fs fs'"
    unfolding wf_fs_def b(2) delete_conv'
  proof (intro conjI allI impI)
    show "((map_of fs)(R @ t := None)) [] = Some DirNode" using wf(1) b(1) by (auto simp: wf_fs_def)
  next
    fix q n i assume q: "((map_of fs)(R @ t := None)) q = Some n" "i < length q"
    then have "map_of fs (take i q) = Some DirNode" using wf_fsD [OF wf(1), of q n i] by (auto split: if_splits)
    then show "((map_of fs)(R @ t := None)) (take i q) = Some DirNode" using b(1) by auto
  qed
  moreover have "t \<noteq> []" using b wf by auto
  ultimately show "repo_fs R fs' \<and> same_outside R fs fs'"
    using wf by (auto simp: repo_fs_def same_outside_def b(2) delete_conv' prefix_def)
qed

lemma dirname_segs [simp]: "resolve_segs cwd (path_dirname cwd p) = butlast (resolve_segs cwd p)"
proof -
  have "list_all seg_ok (butlast (resolve_segs cwd p))"
    using resolve_segs_ok [of cwd p] by (auto simp: list_all_iff dest: in_set_butlastD)
  then show ?thesis by (simp only: path_dirname_def resolve_join)
qed

lemma contained_mkdir_parent:
  assumes "mkdirSync H fs (path_dirname (hs_cwd H) p) = Inr fs'" and "resolve_segs (hs_cwd H) p = R @ t"
  shows "contained R fs fs'"
  unfolding contained_def
proof
  assume fs: "repo_fs R fs"
  then have wf: "wf_fs fs" "map_of fs R = Some DirNode" by (auto simp: repo_fs_def)
  have m: "mkdirs [] (butlast (R @ t)) fs = Inr fs'"
    using assms by (auto simp: mkdirSync_def Let_def split: sum.splits if_splits)
  have "map_of fs' q = map_of fs q" if q: "\<not> prefix R q" for q
  proof (cases "prefix q (butlast (R @ t))")
    case True
    then have "prefix q (R @ t)" using prefixeq_butlast prefix_order.trans by blast
    with q have "strict_prefix q R" by (metis prefix_def prefix_same_cases prefix_order.le_neq_trans)
    then show ?thesis using mkdirs_from_root [OF m, of q] True strict_prefix_dir [OF wf] by simp
  qed (simp add: mkdirs_from_root [OF m])
  moreover have "map_of fs' R = Some DirNode" using wf(2) by (simp add: mkdirs_from_root [OF m])
  ultimately show "repo_fs R fs' \<and> same_outside R fs fs'"
    using mkdirs_wf [OF m wf(1)] by (simp add: repo_fs_def same_outside_def)
qed

section \<open>Diff summaries\<close>

lemma diff_prefix_props:
  assumes "p \<le> length b" "p \<le> length a" "take p b = take p a"
  defines "q \<equiv> diff_prefix b a p"
  shows "q \<le> length b \<and> q \<le> length a \<and> take q b = take q a \<and> \<not> (q < length b \<and> q < length a \<and> b ! q = a ! q)"
  unfolding q_def using assms(1-3)
proof (induction b a p rule: diff_prefix.induct)
  case (1 b a p)
  show ?case
  proof (cases "p < length b \<and> p < length a \<and> b ! p = a ! p")
    case True
    then have "take (p + 1) b = take (p + 1) a" using 1 by (simp add: take_Suc_conv_app_nth)
    then show ?thesis using 1 True by (simp add: diff_prefix.simps [of b a p])
  next
    case False
    then have "diff_prefix b a p = p" by (simp only: diff_prefix.simps [of b a p] if_False)
    then show ?thesis using 1(2-4) False by simp
  qed
qed

lemma diff_suffix_props:
  assumes "s \<le> length b - p" "s \<le> length a - p" "drop (length b - s) b = drop (length a - s) a"
  defines "t \<equiv> diff_suffix b a p s"
  shows "t \<le> length b - p \<and> t \<le> length a - p \<and> drop (length b - t) b = drop (length a - t) a
    \<and> \<not> (t < length b - p \<and> t < length a - p \<and> b ! (length b - 1 - t) = a ! (length a - 1 - t))"
  unfolding t_def using assms(1-3)
proof (induction b a p s rule: diff_suffix.induct)
  case (1 b a p s)
  show ?case
  proof (cases "s < length b - p \<and> s < length a - p \<and> b ! (length b - 1 - s) = a ! (length a - 1 - s)")
    case True
    have dr: "drop (length xs - (s + 1)) xs = xs ! (length xs - 1 - s) # drop (length xs - s) xs"
      if "s < length xs" for xs :: "'a list"
      using that Cons_nth_drop_Suc [of "length xs - (s + 1)" xs] by (simp add: Suc_diff_Suc)
    moreover have "s < length b" "s < length a" using True by auto
    ultimately have "drop (length b - (s + 1)) b = drop (length a - (s + 1)) a"
      using True 1(4) dr [of b] dr [of a] by simp
    then show ?thesis using 1 True by (simp add: diff_suffix.simps [of b a p s])
  next
    case False
    then have "diff_suffix b a p s = s" by (simp only: diff_suffix.simps [of b a p s] if_False)
    then show ?thesis using 1(2-4) False by simp
  qed
qed

lemma diff_lengths:
  fixes b a :: "'a list"
  defines "p \<equiv> diff_prefix b a 0"
  defines "s \<equiv> diff_suffix b a p 0"
  shows "\<exists>pre m1 m2 suf. b = pre @ m1 @ suf \<and> a = pre @ m2 @ suf \<and> length m1 = length b - p - s \<and> length m2 = length a - p - s"
    and "b = pre @ m1 @ suf \<Longrightarrow> a = pre @ m2 @ suf \<Longrightarrow> length b - p - s \<le> length m1 \<and> length a - p - s \<le> length m2"
proof -
  have P: "p \<le> length b" "p \<le> length a" "take p b = take p a" "\<not> (p < length b \<and> p < length a \<and> b ! p = a ! p)"
    using diff_prefix_props [of 0 b a] by (auto simp: p_def)
  have S: "s \<le> length b - p" "s \<le> length a - p" "drop (length b - s) b = drop (length a - s) a"
    "\<not> (s < length b - p \<and> s < length a - p \<and> b ! (length b - 1 - s) = a ! (length a - 1 - s))"
    using diff_suffix_props [of 0 b p a] by (auto simp: s_def)
  have cut: "xs = take p xs @ take (length xs - p - s) (drop p xs) @ drop (length xs - s) xs" if "s \<le> length xs - p" "p \<le> length xs" for xs :: "'a list"
  proof -
    have "drop p xs = take (length xs - p - s) (drop p xs) @ drop (length xs - s) xs"
      using append_take_drop_id [of "length xs - p - s" "drop p xs"] that by simp
    then show ?thesis by (metis append_take_drop_id)
  qed
  show "\<exists>pre m1 m2 suf. b = pre @ m1 @ suf \<and> a = pre @ m2 @ suf \<and> length m1 = length b - p - s \<and> length m2 = length a - p - s"
  proof (intro exI conjI)
    show "b = take p b @ take (length b - p - s) (drop p b) @ drop (length b - s) b" by (rule cut [OF S(1) P(1)])
    show "a = take p b @ take (length a - p - s) (drop p a) @ drop (length b - s) b"
      using cut [OF S(2) P(2)] unfolding P(3) [symmetric] S(3) [symmetric] .
  qed simp_all
  assume ba: "b = pre @ m1 @ suf" "a = pre @ m2 @ suf"
  have len: "length b = length pre + length m1 + length suf" "length a = length pre + length m2 + length suf"
    using arg_cong [OF ba(1), of length] arg_cong [OF ba(2), of length] by simp_all
  have "length pre \<le> p"
  proof (rule ccontr)
    assume "\<not> length pre \<le> p"
    then have "b ! p = pre ! p" "a ! p = pre ! p" by (simp_all add: ba(1) [THEN arg_cong, of "\<lambda>l. l ! p"] ba(2) [THEN arg_cong, of "\<lambda>l. l ! p"] nth_append)
    then show False using P(4) len \<open>\<not> length pre \<le> p\<close> by simp
  qed
  moreover have "length pre + length suf \<le> p + s"
  proof (cases "s < length b - p \<and> s < length a - p")
    case True
    have "length suf \<le> s"
    proof (rule ccontr)
      assume "\<not> length suf \<le> s"
      then have tail_nth: "(ys @ suf) ! (length (ys @ suf) - 1 - s) = suf ! (length suf - 1 - s)" for ys :: "'a list"
        by (auto simp: nth_append)
      have "b ! (length b - 1 - s) = suf ! (length suf - 1 - s)" "a ! (length a - 1 - s) = suf ! (length suf - 1 - s)"
        using tail_nth [of "pre @ m1"] tail_nth [of "pre @ m2"] by (simp_all only: ba append_assoc)
      then show False using S(4) True by simp
    qed
    then show ?thesis using calculation by simp
  next
    case False
    then have "p + s = length b \<or> p + s = length a" using P(1,2) S(1,2) by linarith
    then show ?thesis using len by auto
  qed
  ultimately show "length b - p - s \<le> length m1 \<and> length a - p - s \<le> length m2" using len by auto
qed

text \<open>
  The summary of a change to a text is that of the smallest single block: the two texts agree, line by line,
  outside a block of as many old lines as the deletions and as many new lines as the additions, and no common
  beginning and end leave smaller blocks between them; equal texts give the empty summary.
\<close>

theorem diff_summary_is_smallest_block:
  assumes "before \<noteq> after" and d: "d = summarizeTextDiff f before after"
  shows "(\<exists>pre old new suf. splitComparableLines before = pre @ old @ suf \<and> splitComparableLines after = pre @ new @ suf
      \<and> length old = ds_deletions d \<and> length new = ds_additions d)
    \<and> (\<forall>pre old new suf. splitComparableLines before = pre @ old @ suf \<and> splitComparableLines after = pre @ new @ suf
      \<longrightarrow> ds_deletions d \<le> length old \<and> ds_additions d \<le> length new)
    \<and> ds_filesChanged d = 1 \<and> ds_paths d = [f]"
  using assms(1) diff_lengths(1) [of "splitComparableLines before" "splitComparableLines after"]
    diff_lengths(2) [of "splitComparableLines before" _ _ _ "splitComparableLines after"]
  unfolding d summarizeTextDiff_def Let_def by simp

section \<open>Editing\<close>

lemma js_indexOf_Some:
  "js_indexOf s p = Some i \<Longrightarrow> i + length p \<le> length s \<and> s = take i s @ p @ drop (i + length p) s"
proof (induction s arbitrary: i)
  case (Cons c cs)
  show ?case
  proof (cases "js_startsWith (c # cs) p")
    case True
    then have "length p \<le> length (c # cs)" "c # cs = p @ drop (length p) (c # cs)"
      by (metis js_startsWith_def length_take min.cobounded1 min_def, metis js_startsWith_def append_take_drop_id)
    then show ?thesis using True Cons.prems by simp
  next
    case False
    then show ?thesis using Cons by auto
  qed
qed (simp split: if_splits)

lemma js_indexOf_None_iff: "js_indexOf s p = None \<longleftrightarrow> \<not> js_includes s p"
  by (induction s) auto

lemma js_indexOf_append:
  "js_indexOf s p = Some i \<Longrightarrow> js_indexOf (s @ r) p = Some i"
proof (induction s arbitrary: i)
  case Nil
  then show ?case by (cases r) (auto split: if_splits)
next
  case (Cons c cs)
  have "js_startsWith (c # cs @ r) p" if "js_startsWith (c # cs) p" using that by (auto simp: js_startsWith_iff) (metis append_Cons append_assoc)
  moreover have "\<not> js_startsWith (c # cs @ r) p" if "\<not> js_startsWith (c # cs) p" "js_indexOf cs p = Some j" for j
  proof -
    have "length p \<le> length cs" using js_indexOf_Some [OF that(2)] by simp
    then have "take (length p) (c # cs @ r) = take (length p) (c # cs)" using take_append [of "length p" "c # cs" r] by simp
    then show ?thesis using that(1) unfolding js_startsWith_def by argo
  qed
  ultimately show ?case using Cons by (auto split: if_splits)
qed

text \<open>The first occurrence of \<open>old\<close> after \<open>a\<close> is the one that follows it directly.\<close>

definition first_after :: "string \<Rightarrow> string \<Rightarrow> bool" where
  "first_after a old = (js_indexOf (a @ old) old = Some (length a))"

lemma first_after_iff: "js_indexOf (a @ old @ b) old = Some (length a) \<longleftrightarrow> first_after a old"
proof
  assume h: "js_indexOf (a @ old @ b) old = Some (length a)"
  obtain i where i: "js_indexOf (a @ old) old = Some i"
    using js_indexOf_None_iff [of "a @ old" old] js_includes_iff [of "a @ old" old] by fastforce
  from js_indexOf_append [OF i, of b] h i show "first_after a old" by (simp add: first_after_def)
qed (use js_indexOf_append [of "a @ old" old "length a" b] in \<open>simp add: first_after_def\<close>)

lemma split_aux_index:
  "old \<noteq> [] \<Longrightarrow> js_split_aux old acc s =
     (case js_indexOf s old of None \<Rightarrow> [rev acc @ s] | Some i \<Rightarrow> (rev acc @ take i s) # js_split_aux old [] (drop (i + length old) s))"
proof (induction s arbitrary: acc)
  case (Cons c cs)
  then show ?case by (auto split: option.splits)
qed simp

lemma split_pieces:
  assumes "old \<noteq> []"
  shows "(\<forall>a \<in> set (butlast (js_split s old)). first_after a old) \<and> \<not> js_includes (last (js_split s old)) old"
proof (induction "length s" arbitrary: s rule: less_induct)
  case less
  show ?case
  proof (cases "js_indexOf s old")
    case None
    then have "js_split s old = [s]" using split_aux_index [OF assms, of "[]" s] by (simp add: js_split_def)
    then show ?thesis using None by (simp add: js_indexOf_None_iff)
  next
    case (Some i)
    let ?a = "take i s" and ?b = "drop (i + length old) s"
    have s: "s = ?a @ old @ ?b" "i + length old \<le> length s" using js_indexOf_Some [OF Some] by auto
    have "length ?b < length s" using s(2) assms by (cases old) auto
    from less [OF this] have IH: "(\<forall>a \<in> set (butlast (js_split ?b old)). first_after a old) \<and> \<not> js_includes (last (js_split ?b old)) old" .
    have "first_after ?a old" using Some s first_after_iff [of ?a old ?b] by (metis add_leD1 length_take min.absorb2)
    then show ?thesis using IH assms Some by (simp add: js_split_def split_aux_index [of old "[]" s])
  qed
qed

text \<open>The texts that \<^verbatim>\<open>String.replace\<close> does not insert as they are.\<close>

definition dollar_patterns :: "string set" where
  "dollar_patterns = {''$$'', ''$&'', [CHR ''$'', CHR 0x60], [CHR ''$'', CHR 0x27]}"

lemma expand_plain: "\<forall>p \<in> dollar_patterns. \<not> js_includes t p \<Longrightarrow> expand_replacement pre m post t = t"
  by (induction pre m post t rule: expand_replacement.induct) (auto simp: dollar_patterns_def js_startsWith_def)

text \<open>
  C36. An edit changes exactly the text it is asked to change. For a file that holds \<open>t\<close> and an old text that is not empty: when the
  old text does not occur the edit fails and no file changes; otherwise it succeeds, only this file changes, and \<open>t\<close> is cut into
  pieces at occurrences of the old text, each the first one after the piece before it, which an inserted text joins
  again. With \<^verbatim>\<open>replaceAll\<close> all occurrences are replaced and the inserted text is the new text. Otherwise the first one is, and the
  inserted text is the new text with its dollar patterns expanded by \<^verbatim>\<open>String.replace\<close>: the new text itself whenever it holds none of
  the four patterns, and not what was asked for when it does. The number of replacements is reported.
\<close>

theorem edit_replaces_occurrences:
  assumes dec: "\<And>s. hs_toString H (utf8_encode s) = s" and wf: "wf_fs fs"
    and path: "resolveRepoPath H root (ei_path i) = Inr (a, r)" and k: "k = resolve_segs (hs_cwd H) a"
    and cont: "map_of fs k = Some (FileNode (utf8_encode t))"
    and old: "ei_oldText i \<noteq> []" and run: "executeEditTool H root i fs = (res, fs')"
  shows "if js_includes t (ei_oldText i) then
       \<exists>pieces inserted. t = js_join (ei_oldText i) pieces \<and> 2 \<le> length pieces
         \<and> map_of fs' = (map_of fs)(k \<mapsto> FileNode (utf8_encode (js_join inserted pieces)))
         \<and> tr_status res = Succeeded \<and> tr_output res = Some \<lparr>eo_path = r, eo_replacements = length pieces - 1\<rparr>
         \<and> (\<forall>a \<in> set (butlast pieces). first_after a (ei_oldText i))
         \<and> (if ei_replaceAll i = Some True then \<not> js_includes (last pieces) (ei_oldText i) \<and> inserted = ei_newText i
            else length pieces = 2 \<and> inserted = expand_replacement (pieces ! 0) (ei_oldText i) (pieces ! 1) (ei_newText i))
         \<and> ((\<forall>p \<in> dollar_patterns. \<not> js_includes (ei_newText i) p) \<longrightarrow> inserted = ei_newText i)
     else tr_status res = Failed \<and> fs' = fs"
proof (cases "js_includes t (ei_oldText i)")
  case False
  then show ?thesis using run by (simp add: executeEditTool_def path readFileSync_def k [symmetric] cont dec failedResult_def) auto
next
  case True
  let ?old = "ei_oldText i" and ?new = "ei_newText i"
  define pieces where "pieces = (if ei_replaceAll i = Some True then js_split t ?old
    else [take (the (js_indexOf t ?old)) t, drop (the (js_indexOf t ?old) + length ?old) t])"
  define ins where "ins = (if ei_replaceAll i = Some True then ?new else expand_replacement (pieces ! 0) ?old (pieces ! 1) ?new)"
  obtain j where j: "js_indexOf t ?old = Some j" using True js_indexOf_None_iff by blast
  have t: "t = take j t @ ?old @ drop (j + length ?old) t" "j + length ?old \<le> length t" using js_indexOf_Some [OF j] by auto
  have first: "first_after (take j t) ?old" using j t first_after_iff [of "take j t" ?old "drop (j + length ?old) t"]
    by (metis add_leD1 length_take min.absorb2)
  have split: "js_split t ?old = take j t # js_split (drop (j + length ?old) t) ?old"
    using split_aux_index [OF old, of "[]" t] j by (simp add: js_split_def)
  have two: "2 \<le> length pieces" unfolding pieces_def split by (simp add: js_split_def Suc_le_eq)
  have upd: "(if ei_replaceAll i = Some True then js_join ?new (js_split t ?old) else js_replace t ?old ?new) = js_join ins pieces"
    using j by (simp add: pieces_def ins_def js_replace_def Let_def)
  have join: "t = js_join ?old pieces" using j t(1) js_join_split [OF old, of t] by (simp add: pieces_def)
  have w: "writeFileSync H fs a (js_join ins pieces) = Inr (AList.update k (FileNode (utf8_encode (js_join ins pieces))) fs)"
    using cont by (simp add: writeFileSync_def k [symmetric] Let_def)
  have out: "fs' = AList.update k (FileNode (utf8_encode (js_join ins pieces))) fs \<and> tr_status res = Succeeded
      \<and> tr_output res = Some \<lparr>eo_path = r, eo_replacements = length pieces - 1\<rparr>"
    using run True
    by (auto simp: executeEditTool_def path readFileSync_def k [symmetric] cont dec Let_def upd w succeededResult_def)
      (simp_all add: pieces_def)
  have plain: "(\<forall>p \<in> dollar_patterns. \<not> js_includes ?new p) \<longrightarrow> ins = ?new" using expand_plain by (simp add: ins_def)
  show ?thesis
    using True join two out plain split_pieces [OF old, of t] first j
    by (auto simp: update_conv' pieces_def ins_def intro!: exI [of _ pieces] exI [of _ ins])
qed

section \<open>Writing and reading back\<close>

abbreviation nl :: string where
  "nl \<equiv> [CHR 0x0A]"

lemma split_newlines_nonempty [simp]: "split_newlines acc s \<noteq> []"
  by (induction acc s rule: split_newlines.induct) auto

lemma join_split_newlines: "CHR 0x0D \<notin> set s \<Longrightarrow> js_join nl (split_newlines acc s) = rev acc @ s"
  by (induction acc s rule: split_newlines.induct) (auto simp: js_join_Cons)

lemma js_join_snoc: "xs \<noteq> [] \<Longrightarrow> js_join sep (xs @ [x]) = js_join sep xs @ sep @ x"
  by (induction sep xs rule: js_join.induct) (auto simp: js_join_Cons)

lemma pop_split_empty [simp]: "pop_empty (split_newlines [] []) = []"
  by (simp add: pop_empty_def)

lemma comparable_lines: "splitComparableLines s = pop_empty (split_newlines [] s)"
  by (simp add: splitComparableLines_def pop_empty_def)

lemma join_comparable_lines:
  assumes "CHR 0x0D \<notin> set s"
  shows "s = js_join nl (splitComparableLines s) \<or> s = js_join nl (splitComparableLines s) @ nl"
proof -
  let ?ls = "split_newlines [] s"
  have j: "js_join nl ?ls = s" using join_split_newlines [OF assms, of "[]"] by simp
  show ?thesis
  proof (cases "last ?ls = []")
    case True
    then have ls: "?ls = butlast ?ls @ [[]]" by (metis append_butlast_last_id split_newlines_nonempty)
    show ?thesis
    proof (cases "butlast ?ls = []")
      case True
      then have "?ls = [[]]" using ls by simp
      then have "s = []" using j by simp
      then show ?thesis by (simp add: splitComparableLines_def)
    next
      case False
      then have "s = js_join nl (butlast ?ls) @ nl" using js_join_snoc [OF False, of nl "[]"] ls j by simp
      then show ?thesis using True by (simp add: comparable_lines pop_empty_def)
    qed
  next
    case False
    then show ?thesis using j by (simp add: comparable_lines pop_empty_def)
  qed
qed

lemma mkdir_keeps_files:
  assumes "mkdirSync H fs p = Inr fs'"
  shows "(map_of fs' q = Some (FileNode b)) = (map_of fs q = Some (FileNode b))"
proof -
  obtain k where m: "mkdirs [] k fs = Inr fs'" using assms by (auto simp: mkdirSync_def Let_def split: sum.splits if_splits)
  show ?thesis
  proof (cases "prefix q k")
    case True
    then obtain r where "k = q @ r" by (auto simp: prefix_def)
    then have "map_of fs q \<noteq> Some (FileNode b)" using mkdirs_no_file [OF m, of "length q"] by simp
    then show ?thesis using True by (simp add: mkdirs_from_root [OF m])
  qed (simp add: mkdirs_from_root [OF m])
qed

text \<open>The steps of a write that got as far as a file system \<open>fs1\<close> with the directories made.\<close>

lemma write_tool_cases:
  assumes "executeWriteTool H root i fs = (res, fs')"
  obtains (failed) "tr_status res = Failed" "fs' = fs"
  | (made) a r fs1 where "resolveRepoPath H root (wi_path i) = Inr (a, r)"
      "fs1 = fs \<or> mkdirSync H fs (path_dirname (hs_cwd H) a) = Inr fs1" "tr_status res = Failed" "fs' = fs1"
  | (written) a r fs1 where "resolveRepoPath H root (wi_path i) = Inr (a, r)"
      "fs1 = fs \<or> mkdirSync H fs (path_dirname (hs_cwd H) a) = Inr fs1" "writeFileSync H fs1 a (wi_content i) = Inr fs'"
      "tr_status res = Succeeded"
proof (cases "resolveRepoPath H root (wi_path i)")
  case (Inl e)
  then show thesis using assms failed by (auto simp: executeWriteTool_def failedResult_def)
next
  case (Inr ar)
  obtain a r where ar: "ar = (a, r)" by (cases ar)
  let ?before = "if existsSync H fs a then (case readFileSync H fs a of Inl e \<Rightarrow> Inl e | Inr b \<Rightarrow> Inr (hs_toString H b)) else Inr []"
  let ?made = "if wi_createDirs i = Some True then mkdirSync H fs (path_dirname (hs_cwd H) a) else Inr fs"
  note unfold = executeWriteTool_def Inr ar sum.case prod.case
  show thesis
  proof (cases ?before)
    case (Inl e)
    then show thesis using assms failed by (auto simp only: unfold failedResult_def tool_result.simps prod.inject)
  next
    case before: (Inr b)
    show thesis
    proof (cases ?made)
      case (Inl e)
      then show thesis using assms before failed by (auto simp only: unfold failedResult_def tool_result.simps prod.inject)
    next
      case fs1: (Inr fs1)
      then have m: "fs1 = fs \<or> mkdirSync H fs (path_dirname (hs_cwd H) a) = Inr fs1" by (auto split: if_splits)
      show thesis
      proof (cases "writeFileSync H fs1 a (wi_content i)")
        case (Inl e)
        then show thesis using assms before fs1 made [OF Inr [unfolded ar] m]
          by (auto simp only: unfold failedResult_def tool_result.simps prod.inject)
      next
        case w: (Inr fs2)
        then show thesis using assms before fs1 written [OF Inr [unfolded ar] m]
          by (auto simp only: unfold succeededResult_def Let_def tool_result.simps prod.inject)
      qed
    qed
  qed
qed

lemma contained_write_tool: "executeWriteTool H root i fs = (res, fs') \<Longrightarrow> contained (root_segs H root) fs fs'"
proof (erule write_tool_cases)
  fix a r fs1
  assume r: "resolveRepoPath H root (wi_path i) = Inr (a, r)"
    and m: "fs1 = fs \<or> mkdirSync H fs (path_dirname (hs_cwd H) a) = Inr fs1"
  obtain t where t: "resolve_segs (hs_cwd H) a = root_segs H root @ t" using resolveRepoPath_inside [OF r] by blast
  have 1: "contained (root_segs H root) fs fs1" using m contained_mkdir_parent [OF _ t] by auto
  then show "contained (root_segs H root) fs fs'" if "fs' = fs1" using that by simp
  show "contained (root_segs H root) fs fs'" if "writeFileSync H fs1 a (wi_content i) = Inr fs'"
    using contained_trans [OF 1 contained_write [OF that t]] .
qed simp

lemma contained_edit_tool: "executeEditTool H root i fs = (res, fs') \<Longrightarrow> contained (root_segs H root) fs fs'"
  by (auto simp: executeEditTool_def Let_def split: sum.splits if_splits prod.splits
        dest!: resolveRepoPath_inside intro: contained_write)

text \<open>What the runner relies on: a tool that changes files changes them below the repository root only.\<close>

locale repo_tool =
  fixes run :: "host \<Rightarrow> string \<Rightarrow> 'i \<Rightarrow> filesystem \<Rightarrow> 'r \<times> filesystem"
  assumes stays_inside: "run H root i fs = (res, fs') \<Longrightarrow> contained (root_segs H root) fs fs'"
begin

lemma inside: "contained (root_segs H root) fs (snd (run H root i fs))"
  by (cases "run H root i fs") (auto intro: stays_inside)

lemma outside_kept:
  "repo_fs (root_segs H root) fs \<Longrightarrow> \<not> prefix (root_segs H root) k \<Longrightarrow> map_of (snd (run H root i fs)) k = map_of fs k"
  using inside [of H root fs i] by (simp add: contained_def same_outside_def)

end

interpretation write_tool: repo_tool executeWriteTool
  by unfold_locales (rule contained_write_tool)

interpretation edit_tool: repo_tool executeEditTool
  by unfold_locales (rule contained_edit_tool)

text \<open>
  A file that the write tool has written is read back line by line: after a successful write the read tool
  succeeds on the same path and returns the lines of the content, which without carriage returns is the content up
  to one final newline. Every other file is as it was, and a write that fails changes no file at all.
\<close>

theorem written_file_reads_back:
  assumes dec: "\<And>s. hs_toString H (utf8_encode s) = s" and repo: "repo_fs (root_segs H root) fs"
    and run: "executeWriteTool H root i fs = (res, fs')"
    and path: "resolveRepoPath H root (wi_path i) = Inr (a, r)" and k: "k = resolve_segs (hs_cwd H) a"
    and c: "c = js_join nl (splitComparableLines (wi_content i))"
  shows "(tr_status res = Succeeded \<longrightarrow>
       tr_output (executeReadTool H root \<lparr>ri_path = wi_path i, ri_offset = None, ri_limit = None, ri_maxBytes = None\<rparr> fs')
         = Some \<lparr>ro_path = r, ro_content = c, ro_startLine = (if splitComparableLines (wi_content i) = [] then 0 else 1),
             ro_endLine = length (splitComparableLines (wi_content i))\<rparr>)
     \<and> (tr_status res = Succeeded \<and> q = k \<or> (map_of fs' q = Some (FileNode b) \<longleftrightarrow> map_of fs q = Some (FileNode b)))
     \<and> (CHR 0x0D \<in> set (wi_content i) \<or> wi_content i = c \<or> wi_content i = c @ nl)"
proof -
  have lines: "CHR 0x0D \<in> set (wi_content i) \<or> wi_content i = c \<or> wi_content i = c @ nl"
    using join_comparable_lines c by blast
  show ?thesis
    using run
  proof (cases rule: write_tool_cases)
    case failed
    then show ?thesis using lines by simp
  next
    case (made a' r' fs1)
    then have "(map_of fs' q = Some (FileNode b)) = (map_of fs q = Some (FileNode b))" for q
      using mkdir_keeps_files by auto
    then show ?thesis using made lines by simp
  next
    case (written a' r' fs1)
    then have a: "a' = a" "r' = r" using path by auto
    obtain t where t: "resolve_segs (hs_cwd H) a = root_segs H root @ t" using resolveRepoPath_inside [OF path] by blast
    have "contained (root_segs H root) fs fs1" using written(2) contained_mkdir_parent [OF _ t] a by auto
    then have "wf_fs fs1" using repo by (simp add: contained_def repo_fs_def)
    from writeFileSync_iff [OF this] have fs': "fs' = AList.update k (FileNode (utf8_encode (wi_content i))) fs1"
      using written(3) by (simp add: a k Let_def)
    have keep: "(map_of fs1 q = Some (FileNode b)) = (map_of fs q = Some (FileNode b))"
      using written(2) mkdir_keeps_files by auto
    have "readFileSync H fs' a = Inr (utf8_encode (wi_content i))"
      by (simp add: readFileSync_def k [symmetric] fs' update_conv')
    then have "tr_output (executeReadTool H root \<lparr>ri_path = wi_path i, ri_offset = None, ri_limit = None, ri_maxBytes = None\<rparr> fs')
         = Some \<lparr>ro_path = r, ro_content = c, ro_startLine = (if splitComparableLines (wi_content i) = [] then 0 else 1),
             ro_endLine = length (splitComparableLines (wi_content i))\<rparr>"
      by (simp add: executeReadTool_def path dec sliceLines_def Let_def comparable_lines succeededResult_def c)
    then show ?thesis using written(4) keep lines by (simp add: fs' update_conv')
  qed
qed

section \<open>Witnesses\<close>

text \<open>A host that decodes well-formed UTF-8, and a repository with one file.\<close>

definition host0 :: host where
  "host0 = \<lparr>hs_cwd = ''/'', hs_sysMessage = (\<lambda>call code p. call @ '' '' @ p),
     hs_toString = (\<lambda>b. case utf8_decode b of None \<Rightarrow> b | Some s \<Rightarrow> s)\<rparr>"

definition fs0 :: filesystem where
  "fs0 = [([], DirNode), ([''r''], DirNode), ([''r'', ''f''], FileNode ''aXbX'')]"

lemma host0_decodes: "hs_toString host0 (utf8_encode s) = s"
  by (simp add: host0_def utf8_decode_encode)

lemma segs0: "root_segs host0 ''/r'' = [''r'']" "resolve_segs (hs_cwd host0) ''/r/f'' = [''r'', ''f'']"
  "resolveRepoPath host0 ''/r'' ''f'' = Inr (''/r/f'', ''f'')"
  by code_simp+

lemma fs0_repo: "repo_fs [''r''] fs0"
  unfolding repo_fs_def wf_fs_def fs0_def by (auto simp: less_Suc_eq take_Cons' split: if_splits)

theorem diff_summary_is_smallest_block_witness:
  "(''a'' :: string) \<noteq> ''b'' \<and> ds_filesChanged (summarizeTextDiff ''f'' ''a'' ''b'') = 1
   \<and> (\<exists>pre old new suf. splitComparableLines ''a'' = pre @ old @ suf \<and> splitComparableLines ''b'' = pre @ new @ suf
      \<and> length old = ds_deletions (summarizeTextDiff ''f'' ''a'' ''b'') \<and> length new = ds_additions (summarizeTextDiff ''f'' ''a'' ''b''))"
  using diff_summary_is_smallest_block [of "''a''" "''b''" _ "''f''", OF _ refl] by simp

text \<open>The first \<^verbatim>\<open>X\<close> is replaced by a new text that holds the pattern for the match.\<close>

theorem edit_replaces_occurrences_witness:
  "\<exists>pieces. ''aXbX'' = js_join ''X'' pieces \<and> length pieces = 2 \<and> first_after (hd pieces) ''X''
     \<and> map_of (snd (executeEditTool host0 ''/r'' \<lparr>ei_path = ''f'', ei_oldText = ''X'', ei_newText = ''<$&>'', ei_replaceAll = None\<rparr> fs0))
       = (map_of fs0)([''r'', ''f''] \<mapsto> FileNode (utf8_encode (js_join ''<X>'' pieces)))"
proof -
  let ?i = "\<lparr>ei_path = ''f'', ei_oldText = ''X'', ei_newText = ''<$&>'', ei_replaceAll = None\<rparr>"
  have enc: "utf8_encode ''aXbX'' = ''aXbX''" by code_simp
  have inc: "js_includes ''aXbX'' ''X''" by code_simp
  have exp: "expand_replacement x ''X'' y ''<$&>'' = ''<X>''" for x y by simp
  have "map_of fs0 [''r'', ''f''] = Some (FileNode (utf8_encode ''aXbX''))" unfolding enc by (simp add: fs0_def)
  from edit_replaces_occurrences [of host0 fs0 "''/r''" ?i, simplified edit_input.simps, OF host0_decodes _ segs0(3) _ this,
      of "fst (executeEditTool host0 ''/r'' ?i fs0)" "snd (executeEditTool host0 ''/r'' ?i fs0)"]
  obtain pieces where ps: "''aXbX'' = js_join ''X'' pieces" "length pieces = 2" "\<forall>a \<in> set (butlast pieces). first_after a ''X''"
    "map_of (snd (executeEditTool host0 ''/r'' ?i fs0)) = (map_of fs0)([''r'', ''f''] \<mapsto> FileNode (utf8_encode (js_join ''<X>'' pieces)))"
    using fs0_repo segs0 inc by (auto simp: repo_fs_def exp)
  have "hd pieces \<in> set (butlast pieces)" using ps(2) by (cases pieces) auto
  then show ?thesis using ps by blast
qed

theorem written_file_reads_back_witness:
  "tr_output (executeReadTool host0 ''/r'' \<lparr>ri_path = ''f'', ri_offset = None, ri_limit = None, ri_maxBytes = None\<rparr>
     (snd (executeWriteTool host0 ''/r'' \<lparr>wi_path = ''f'', wi_content = ''xy'', wi_createDirs = None\<rparr> fs0)))
   = Some \<lparr>ro_path = ''f'', ro_content = ''xy'', ro_startLine = 1, ro_endLine = 1\<rparr>"
proof -
  let ?i = "\<lparr>wi_path = ''f'', wi_content = ''xy'', wi_createDirs = None\<rparr>"
  have ok: "tr_status (fst (executeWriteTool host0 ''/r'' ?i fs0)) = Succeeded" by code_simp
  have ls: "splitComparableLines ''xy'' = [''xy'']" by code_simp
  from written_file_reads_back [of host0 "''/r''" fs0 ?i, OF host0_decodes, of "fst (executeWriteTool host0 ''/r'' ?i fs0)"
      "snd (executeWriteTool host0 ''/r'' ?i fs0)" "''/r/f''" "''f''" "[''r'', ''f'']" _ "[]" "[]"]
  show ?thesis using fs0_repo segs0 ok ls by simp
qed

end
