(* ===== verification/PatchTool.thy ===== *)
theory PatchTool
  imports FileTools
begin

text \<open>
  The patch tool, \<^verbatim>\<open>packages/opencode-app/src/tools/apply-patch-tool.ts\<close>: the patch language, the placement of hunks in
  the lines of a file, and the operations on files. The theorems show that the parser reads what a patch document
  says, that hunks are placed whenever they can be, and what a whole patch does to a file.
\<close>

section \<open>The tool\<close>

record patch_hunk =
  ph_oldLines :: "string list"
  ph_newLines :: "string list"

datatype patch_operation =
    AddFile string "string list"
  | DeleteFile string
  | UpdateFile string "patch_hunk list"

record apply_patch_output =
  ao_paths :: "string list"
  ao_filesChanged :: nat
  ao_additions :: nat
  ao_deletions :: nat

abbreviation quote_path :: "string \<Rightarrow> string" where
  "quote_path s \<equiv> [CHR 0x27] @ s @ [CHR 0x27]"

text \<open>\<^verbatim>\<open>patch.replace(/\r\n/g, "\n")\<close>.\<close>

fun crlf_to_lf :: "string \<Rightarrow> string" where
  "crlf_to_lf (c # d # cs) =
     (if c = CHR 0x0D \<and> d = CHR 0x0A then CHR 0x0A # crlf_to_lf cs else c # crlf_to_lf (d # cs))"
| "crlf_to_lf cs = cs"

text \<open>\<^verbatim>\<open>while (lines.at(-1) === "") lines.pop()\<close>.\<close>

definition pop_blank :: "string list \<Rightarrow> string list" where
  "pop_blank ls = rev (dropWhile (\<lambda>l. l = []) (rev ls))"

fun parseAddLines :: "string \<Rightarrow> string list \<Rightarrow> string list \<Rightarrow> string + string list \<times> string list" where
  "parseAddLines filePath contentLines [] = Inr (contentLines, [])"
| "parseAddLines filePath contentLines (l # ls) =
     (if js_startsWith l ''*** '' then Inr (contentLines, l # ls)
      else if \<not> js_startsWith l ''+'' then Inl (''Add file '' @ quote_path filePath @ '' lines must start with '' @ quote_path ''+'' @ ''.'')
      else parseAddLines filePath (contentLines @ [drop 1 l]) ls)"

definition flush_hunk :: "patch_hunk option \<Rightarrow> patch_hunk list \<Rightarrow> patch_hunk list" where
  "flush_hunk current hunks = (case current of None \<Rightarrow> hunks | Some h \<Rightarrow> hunks @ [h])"

definition empty_hunk :: patch_hunk where
  "empty_hunk = \<lparr>ph_oldLines = [], ph_newLines = []\<rparr>"

fun parseHunkLines ::
  "string \<Rightarrow> patch_hunk list \<Rightarrow> patch_hunk option \<Rightarrow> string list \<Rightarrow> string + patch_hunk list \<times> string list" where
  "parseHunkLines filePath hunks current [] = Inr (flush_hunk current hunks, [])"
| "parseHunkLines filePath hunks current (l # ls) =
     (if js_startsWith l ''*** '' then Inr (flush_hunk current hunks, l # ls)
      else if js_startsWith l ''@@'' then parseHunkLines filePath (flush_hunk current hunks) (Some empty_hunk) ls
      else
        let h = nullish current empty_hunk; v = drop 1 l in
        if js_startsWith l '' '' then
          parseHunkLines filePath hunks (Some (h\<lparr>ph_oldLines := ph_oldLines h @ [v], ph_newLines := ph_newLines h @ [v]\<rparr>)) ls
        else if js_startsWith l ''-'' then
          parseHunkLines filePath hunks (Some (h\<lparr>ph_oldLines := ph_oldLines h @ [v]\<rparr>)) ls
        else if js_startsWith l ''+'' then
          parseHunkLines filePath hunks (Some (h\<lparr>ph_newLines := ph_newLines h @ [v]\<rparr>)) ls
        else Inl (''Unsupported patch line in '' @ quote_path filePath @ '': '' @ l))"

lemma parseAddLines_rest: "parseAddLines f acc ls = Inr (acc', rest) \<Longrightarrow> length rest \<le> length ls"
  by (induction f acc ls rule: parseAddLines.induct) (auto split: if_splits)

lemma parseHunkLines_rest: "parseHunkLines f hs cur ls = Inr (hs', rest) \<Longrightarrow> length rest \<le> length ls"
  by (induction ls arbitrary: hs cur) (auto simp: Let_def split: if_splits intro: le_SucI)

text \<open>The loop over the lines between the two markers.\<close>

function parseOperations :: "patch_operation list \<Rightarrow> string list \<Rightarrow> string + patch_operation list" where
  "parseOperations ops [] = Inr ops"
| "parseOperations ops (line # ls) =
     (if js_startsWith line ''*** Add File: '' then
        let filePath = js_trim (drop (length ''*** Add File: '') line) in
        (case parseAddLines filePath [] ls of
           Inl e \<Rightarrow> Inl e
         | Inr (contentLines, rest) \<Rightarrow> parseOperations (ops @ [AddFile filePath contentLines]) rest)
      else if js_startsWith line ''*** Delete File: '' then
        parseOperations (ops @ [DeleteFile (js_trim (drop (length ''*** Delete File: '') line))]) ls
      else if js_startsWith line ''*** Update File: '' then
        let filePath = js_trim (drop (length ''*** Update File: '') line) in
        (case parseHunkLines filePath [] None ls of
           Inl e \<Rightarrow> Inl e
         | Inr (hunks, rest) \<Rightarrow>
             if hunks = [] then Inl (''Update file '' @ quote_path filePath @ '' has no hunks.'')
             else parseOperations (ops @ [UpdateFile filePath hunks]) rest)
      else Inl (''Unsupported patch directive: '' @ line))"
  by pat_completeness auto
termination
proof (relation "measure (\<lambda>(ops, ls). length ls)")
  fix ops line ls x x2 contentLines rest
  assume "parseAddLines x [] ls = Inr x2" "(contentLines, rest) = x2"
  then show "((ops @ [AddFile x contentLines], rest), ops, line # ls) \<in> measure (\<lambda>(ops, ls). length ls)"
    using parseAddLines_rest [of x "[]" ls contentLines rest] by simp
next
  fix ops line ls x x2 hunks rest
  assume "parseHunkLines x [] None ls = Inr x2" "(hunks, rest) = x2"
  then show "((ops @ [UpdateFile x hunks], rest), ops, line # ls) \<in> measure (\<lambda>(ops, ls). length ls)"
    using parseHunkLines_rest [of x "[]" None ls hunks rest] by simp
qed simp_all

definition parseApplyPatch :: "string \<Rightarrow> string + patch_operation list" where
  "parseApplyPatch patch =
     (let lines = pop_blank (js_split (crlf_to_lf patch) nl) in
      if lines = [] \<or> hd lines \<noteq> ''*** Begin Patch'' \<or> last lines \<noteq> ''*** End Patch''
      then Inl ''Patch must be wrapped in *** Begin Patch and *** End Patch markers.''
      else
        (case parseOperations [] (butlast (tl lines)) of
           Inl e \<Rightarrow> Inl e
         | Inr ops \<Rightarrow> if ops = [] then Inl ''Patch did not contain any file operations.'' else Inr ops))"

text \<open>The first index from which the lines of the sequence follow.\<close>

function findLineSequence :: "string list \<Rightarrow> string list \<Rightarrow> nat \<Rightarrow> nat option" where
  "findLineSequence lines sequence index =
     (if sequence = [] then Some index
      else if index + length sequence \<le> length lines then
        if list_all (\<lambda>offset. lines ! (index + offset) = sequence ! offset) [0..<length sequence] then Some index
        else findLineSequence lines sequence (index + 1)
      else None)"
  by pat_completeness auto
termination
  by (relation "measure (\<lambda>(lines, sequence, index). Suc (length lines) - index)") auto

declare findLineSequence.simps [simp del]

definition splitFileLines :: "string \<Rightarrow> string list" where
  "splitFileLines content = (if content = [] then [] else pop_empty (split_newlines [] content))"

definition formatPatchLines :: "string list \<Rightarrow> string" where
  "formatPatchLines lines = (if lines \<noteq> [] then js_join nl lines @ nl else [])"

fun placeHunks :: "string \<Rightarrow> patch_hunk list \<Rightarrow> string list \<Rightarrow> nat \<Rightarrow> string + string list" where
  "placeHunks filePath [] lines cursor = Inr lines"
| "placeHunks filePath (hunk # hunks) lines cursor =
     (case findLineSequence lines (ph_oldLines hunk) cursor of
        None \<Rightarrow> Inl (''Patch hunk did not match '' @ filePath @ ''.'')
      | Some start \<Rightarrow>
          placeHunks filePath hunks
            (take start lines @ ph_newLines hunk @ drop (start + length (ph_oldLines hunk)) lines)
            (start + length (ph_newLines hunk)))"

definition applyUpdateHunks :: "string \<Rightarrow> patch_hunk list \<Rightarrow> string \<Rightarrow> string + string" where
  "applyUpdateHunks content hunks filePath =
     (case placeHunks filePath hunks (splitFileLines content) 0 of
        Inl e \<Rightarrow> Inl e
      | Inr lines \<Rightarrow>
          Inr (if lines \<noteq> [] then js_join nl lines @ (if js_endsWith content nl then nl else []) else []))"

fun applyOperation :: "host \<Rightarrow> string \<Rightarrow> patch_operation \<Rightarrow> filesystem \<Rightarrow> (string + diff_summary) \<times> filesystem" where
  "applyOperation H repoRoot (AddFile filePath ls) fs =
     (case resolveRepoPath H repoRoot filePath of
        Inl e \<Rightarrow> (Inl e, fs)
      | Inr (absolutePath, relativePath) \<Rightarrow>
          if existsSync H fs absolutePath
          then (Inl (''Cannot add '' @ quote_path relativePath @ '' because it already exists.''), fs)
          else
            let after = formatPatchLines ls in
            case mkdirSync H fs (path_dirname (hs_cwd H) absolutePath) of
              Inl e \<Rightarrow> (Inl e, fs)
            | Inr fs1 \<Rightarrow>
                (case writeFileSync H fs1 absolutePath after of
                   Inl e \<Rightarrow> (Inl e, fs1)
                 | Inr fs2 \<Rightarrow> (Inr (summarizeTextDiff relativePath [] after), fs2)))"
| "applyOperation H repoRoot (DeleteFile filePath) fs =
     (case resolveRepoPath H repoRoot filePath of
        Inl e \<Rightarrow> (Inl e, fs)
      | Inr (absolutePath, relativePath) \<Rightarrow>
          (case readFileSync H fs absolutePath of
             Inl e \<Rightarrow> (Inl e, fs)
           | Inr b \<Rightarrow>
               (case unlinkSync H fs absolutePath of
                  Inl e \<Rightarrow> (Inl e, fs)
                | Inr fs' \<Rightarrow> (Inr (summarizeTextDiff relativePath (hs_toString H b) []), fs'))))"
| "applyOperation H repoRoot (UpdateFile filePath hunks) fs =
     (case resolveRepoPath H repoRoot filePath of
        Inl e \<Rightarrow> (Inl e, fs)
      | Inr (absolutePath, relativePath) \<Rightarrow>
          (case readFileSync H fs absolutePath of
             Inl e \<Rightarrow> (Inl e, fs)
           | Inr b \<Rightarrow>
               let before = hs_toString H b in
               case applyUpdateHunks before hunks relativePath of
                 Inl e \<Rightarrow> (Inl e, fs)
               | Inr after \<Rightarrow>
                   (case writeFileSync H fs absolutePath after of
                      Inl e \<Rightarrow> (Inl e, fs)
                    | Inr fs' \<Rightarrow> (Inr (summarizeTextDiff relativePath before after), fs'))))"

text \<open>\<^verbatim>\<open>operations.map\<close>: the first error ends it, and the operations before it have been done.\<close>

fun applyOperations ::
  "host \<Rightarrow> string \<Rightarrow> patch_operation list \<Rightarrow> diff_summary list \<Rightarrow> filesystem \<Rightarrow> (string + diff_summary list) \<times> filesystem" where
  "applyOperations H repoRoot [] summaries fs = (Inr summaries, fs)"
| "applyOperations H repoRoot (operation # ops) summaries fs =
     (case applyOperation H repoRoot operation fs of
        (Inl e, fs') \<Rightarrow> (Inl e, fs')
      | (Inr d, fs') \<Rightarrow> applyOperations H repoRoot ops (summaries @ [d]) fs')"

definition executeApplyPatchTool ::
  "host \<Rightarrow> string \<Rightarrow> string \<Rightarrow> filesystem \<Rightarrow> apply_patch_output tool_result \<times> filesystem" where
  "executeApplyPatchTool H repoRoot patch fs =
     (case parseApplyPatch patch of
        Inl e \<Rightarrow> (failedResult ApplyPatch e, fs)
      | Inr operations \<Rightarrow>
          (case applyOperations H repoRoot operations [] fs of
             (Inl e, fs') \<Rightarrow> (failedResult ApplyPatch e, fs')
           | (Inr summaries, fs') \<Rightarrow>
               let d = combineDiffSummaries summaries in
               (succeededResult ApplyPatch
                  \<lparr>ao_paths = ds_paths d, ao_filesChanged = ds_filesChanged d, ao_additions = ds_additions d,
                   ao_deletions = ds_deletions d\<rparr>
                  (metadata0\<lparr>md_diffSummary := Some d\<rparr>), fs')))"

section \<open>Patch documents\<close>

datatype hunk_line = Keep string | Del string | Ins string

datatype patch_doc = AddDoc string "string list" | DeleteDoc string | UpdateDoc string "hunk_line list list"

fun hunk_line_text :: "hunk_line \<Rightarrow> string" where
  "hunk_line_text (Keep s) = CHR '' '' # s"
| "hunk_line_text (Del s) = CHR ''-'' # s"
| "hunk_line_text (Ins s) = CHR ''+'' # s"

fun hunk_line_string :: "hunk_line \<Rightarrow> string" where
  "hunk_line_string (Keep s) = s" | "hunk_line_string (Del s) = s" | "hunk_line_string (Ins s) = s"

fun old_line :: "hunk_line \<Rightarrow> string list" where
  "old_line (Keep s) = [s]" | "old_line (Del s) = [s]" | "old_line (Ins s) = []"

fun new_line :: "hunk_line \<Rightarrow> string list" where
  "new_line (Keep s) = [s]" | "new_line (Del s) = []" | "new_line (Ins s) = [s]"

definition hunk_of :: "hunk_line list \<Rightarrow> patch_hunk" where
  "hunk_of h = \<lparr>ph_oldLines = concat (map old_line h), ph_newLines = concat (map new_line h)\<rparr>"

fun doc_operation :: "patch_doc \<Rightarrow> patch_operation" where
  "doc_operation (AddDoc p ls) = AddFile p ls"
| "doc_operation (DeleteDoc p) = DeleteFile p"
| "doc_operation (UpdateDoc p hs) = UpdateFile p (map hunk_of hs)"

fun doc_lines :: "patch_doc \<Rightarrow> string list" where
  "doc_lines (AddDoc p ls) = (''*** Add File: '' @ p) # map ((#) (CHR ''+'')) ls"
| "doc_lines (DeleteDoc p) = [''*** Delete File: '' @ p]"
| "doc_lines (UpdateDoc p hs) = (''*** Update File: '' @ p) # concat (map (\<lambda>h. ''@@'' # map hunk_line_text h) hs)"

text \<open>A line of a document has no line break in it, and a path no blanks at its ends.\<close>

definition plain :: "string \<Rightarrow> bool" where
  "plain s \<longleftrightarrow> CHR 0x0A \<notin> set s \<and> CHR 0x0D \<notin> set s"

fun doc_ok :: "patch_doc \<Rightarrow> bool" where
  "doc_ok (AddDoc p ls) = (plain p \<and> js_trim p = p \<and> list_all plain ls)"
| "doc_ok (DeleteDoc p) = (plain p \<and> js_trim p = p)"
| "doc_ok (UpdateDoc p hs) = (plain p \<and> js_trim p = p \<and> hs \<noteq> [] \<and> list_all (list_all (\<lambda>l. plain (hunk_line_string l))) hs)"

definition patch_lines :: "patch_doc list \<Rightarrow> string list" where
  "patch_lines docs = ''*** Begin Patch'' # concat (map doc_lines docs) @ [''*** End Patch'']"

definition section_start :: "string list \<Rightarrow> bool" where
  "section_start ls = (ls = [] \<or> js_startsWith (hd ls) ''*** '')"

lemma js_startsWith_Cons [simp]: "js_startsWith (c # s) (d # p) = (c = d \<and> js_startsWith s p)"
  by (auto simp: js_startsWith_def)

lemma js_startsWith_no [simp]: "\<not> js_startsWith [] (d # p)"
  by (simp add: js_startsWith_def)

lemma parse_add_lines:
  "section_start rest \<Longrightarrow> parseAddLines f acc (map ((#) (CHR ''+'')) ls @ rest) = Inr (acc @ ls, rest)"
proof (induction ls arbitrary: acc)
  case Nil
  then show ?case by (cases rest) (simp_all add: section_start_def)
qed simp

lemma parse_hunk:
  "parseHunkLines f hs (Some h) (map hunk_line_text ls @ rest)
   = parseHunkLines f hs (Some \<lparr>ph_oldLines = ph_oldLines h @ concat (map old_line ls), ph_newLines = ph_newLines h @ concat (map new_line ls)\<rparr>) rest"
proof (induction ls arbitrary: h)
  case Nil
  show ?case by (cases h) simp
next
  case (Cons l ls)
  then show ?case by (cases l) (simp_all add: Let_def)
qed

lemma parse_hunks:
  "section_start rest \<Longrightarrow>
     parseHunkLines f hs cur (concat (map (\<lambda>h. ''@@'' # map hunk_line_text h) hls) @ rest)
     = Inr (flush_hunk cur hs @ map hunk_of hls, rest)"
proof (induction hls arbitrary: hs cur)
  case Nil
  then show ?case by (cases rest) (simp_all add: section_start_def)
next
  case (Cons h hls)
  then show ?case by (simp add: parse_hunk empty_hunk_def hunk_of_def flush_hunk_def)
qed

lemma doc_lines_start: "section_start (concat (map doc_lines docs))"
proof (cases docs)
  case (Cons d ds)
  then show ?thesis by (cases d) (simp_all add: section_start_def)
qed (simp add: section_start_def)

lemma parse_doc_lines:
  "list_all doc_ok docs \<Longrightarrow> parseOperations ops (concat (map doc_lines docs)) = Inr (ops @ map doc_operation docs)"
proof (induction docs arbitrary: ops)
  case (Cons d docs)
  note rest = doc_lines_start [of docs]
  show ?case using Cons by (cases d) (simp_all add: parse_add_lines [OF rest] parse_hunks [OF rest] flush_hunk_def)
qed simp

lemma crlf_plain: "CHR 0x0D \<notin> set s \<Longrightarrow> crlf_to_lf s = s"
  by (induction s rule: crlf_to_lf.induct) auto

lemma crlf_step: "CHR 0x0D \<notin> set s \<Longrightarrow> crlf_to_lf (s @ CHR 0x0D # CHR 0x0A # r) = s @ CHR 0x0A # crlf_to_lf r"
proof (induction s)
  case (Cons c s)
  then show ?case by (cases s) auto
qed simp

lemma lf_step: "CHR 0x0D \<notin> set s \<Longrightarrow> crlf_to_lf (s @ CHR 0x0A # r) = s @ CHR 0x0A # crlf_to_lf r"
proof (induction s)
  case Nil
  then show ?case by (cases r) auto
next
  case (Cons c s)
  then show ?case by (cases s) auto
qed

lemma crlf_join:
  assumes "eol = nl \<or> eol = [CHR 0x0D, CHR 0x0A]"
    and "list_all plain ls"
  shows "crlf_to_lf (js_join eol ls) = js_join nl ls"
  using assms(2)
proof (induction ls rule: induct_list012)
  case (3 x y ys)
  then have "CHR 0x0D \<notin> set x" by (simp add: plain_def)
  with 3 assms(1) show ?case using crlf_step [of x "js_join eol (y # ys)"] lf_step [of x "js_join eol (y # ys)"] by auto
qed (simp_all add: plain_def crlf_plain)

lemma split_join_char: "ls \<noteq> [] \<Longrightarrow> list_all (\<lambda>s. c \<notin> set s) ls \<Longrightarrow> js_split (js_join [c] ls) [c] = ls"
proof (induction "[c]" ls rule: js_join.induct)
  case (3 x y ys)
  then show ?case using js_split_step [of "[c]" x "js_join [c] (y # ys)"] by simp
qed (simp_all add: js_split_no_sep)

lemma doc_lines_plain: "list_all doc_ok docs \<Longrightarrow> list_all plain (concat (map doc_lines docs))"
proof (induction docs)
  case (Cons d docs)
  have "plain (hunk_line_text l)" if "plain (hunk_line_string l)" for l using that by (cases l) (auto simp: plain_def)
  with Cons show ?case by (cases d) (auto simp: list_all_iff plain_def)
qed simp

lemma pop_blank_padding: "ls \<noteq> [] \<Longrightarrow> last ls \<noteq> [] \<Longrightarrow> pop_blank (ls @ replicate n []) = ls"
proof -
  assume "ls \<noteq> []" "last ls \<noteq> []"
  then have "dropWhile (\<lambda>l. l = []) (rev ls) = rev ls" by (cases ls rule: rev_cases) auto
  then show ?thesis by (simp add: pop_blank_def dropWhile_append)
qed

lemma parse_patch_text:
  assumes "list_all doc_ok docs" and "docs \<noteq> []" and "eol = nl \<or> eol = [CHR 0x0D, CHR 0x0A]"
  shows "parseApplyPatch (js_join eol (patch_lines docs @ replicate n [])) = Inr (map doc_operation docs)"
proof -
  let ?ls = "patch_lines docs @ replicate n []"
  have p: "list_all plain ?ls" using doc_lines_plain [OF assms(1)] by (auto simp: patch_lines_def plain_def list_all_iff)
  then have "js_split (crlf_to_lf (js_join eol ?ls)) nl = ?ls"
    using crlf_join [OF assms(3) p] by (simp add: split_join_char patch_lines_def list_all_iff plain_def)
  moreover have "pop_blank ?ls = patch_lines docs" by (intro pop_blank_padding) (simp_all add: patch_lines_def)
  ultimately show ?thesis
    using parse_doc_lines [OF assms(1), of "[]"] assms(2) by (simp add: parseApplyPatch_def patch_lines_def)
qed

text \<open>
  C34. The parser reads a patch document as it was meant: for every list of additions, deletions and updates whose
  lines have no line breaks, the text made of the markers and the lines of the sections, ended by either
  kind of line end and any number of blank lines, parses to exactly these operations, each hunk with its kept and
  removed lines as the old lines and its kept and inserted lines as the new ones.
\<close>

theorem patch_text_parses_back:
  assumes "list_all doc_ok docs" and "docs \<noteq> []" and "eol = nl \<or> eol = [CHR 0x0D, CHR 0x0A]"
  shows "parseApplyPatch (js_join eol (patch_lines docs @ replicate n [])) = Inr (map doc_operation docs)"
  using assms by (rule parse_patch_text)

section \<open>Placing hunks\<close>

text \<open>The hunks apply to the lines in order: each old block is found after the one before it and is replaced.\<close>

inductive hunks_apply :: "patch_hunk list \<Rightarrow> string list \<Rightarrow> string list \<Rightarrow> bool" where
  no_hunk: "hunks_apply [] ls ls"
| hunk: "hunks_apply hs rest out \<Longrightarrow>
    hunks_apply (h # hs) (c @ ph_oldLines h @ rest) (c @ ph_newLines h @ out)"

inductive_cases hunks_apply_Cons: "hunks_apply (h # hs) ls out"

inductive_simps hunks_apply_Nil: "hunks_apply [] ls out"

lemma block_at_iff:
  assumes "i + length s \<le> length ls"
  shows "list_all (\<lambda>j. ls ! (i + j) = s ! j) [0..<length s] \<longleftrightarrow> take (length s) (drop i ls) = s"
proof
  assume "list_all (\<lambda>j. ls ! (i + j) = s ! j) [0..<length s]"
  then have "\<forall>j < length s. ls ! (i + j) = s ! j" by (simp add: list_all_iff)
  then show "take (length s) (drop i ls) = s" using assms by (intro nth_equalityI) simp_all
next
  assume t: "take (length s) (drop i ls) = s"
  have "ls ! (i + j) = s ! j" if "j < length s" for j
    using arg_cong [OF t, of "\<lambda>l. l ! j"] that assms by simp
  then show "list_all (\<lambda>j. ls ! (i + j) = s ! j) [0..<length s]" by (simp add: list_all_iff)
qed

lemma findLineSequence_Some:
  "findLineSequence ls s i = Some k \<Longrightarrow> i \<le> length ls \<Longrightarrow> i \<le> k \<and> (\<exists>c r. drop i ls = c @ s @ r \<and> length c = k - i)"
proof (induction ls s i rule: findLineSequence.induct)
  case (1 ls s i)
  show ?case
  proof (cases "s = []")
    case True
    then have "k = i" using 1(2) by (simp add: findLineSequence.simps [of ls "[]" i])
    then show ?thesis using True by auto
  next
    case False
    then have len: "i + length s \<le> length ls" using 1(2) by (simp add: findLineSequence.simps [of ls s i] split: if_splits)
    let ?here = "list_all (\<lambda>j. ls ! (i + j) = s ! j) [0..<length s]"
    show ?thesis
    proof (cases ?here)
      case True
      then have "k = i" using 1(2) False len by (simp add: findLineSequence.simps [of ls s i])
      moreover have "drop i ls = s @ drop (length s) (drop i ls)"
        using True block_at_iff [OF len] by (metis append_take_drop_id)
      ultimately show ?thesis by auto
    next
      case no: False
      then have k: "findLineSequence ls s (i + 1) = Some k" using 1(2) False len by (simp add: findLineSequence.simps [of ls s i])
      have lt: "i < length ls" using len False by (cases s) auto
      then obtain c r where cr: "i + 1 \<le> k" "drop (i + 1) ls = c @ s @ r" "length c = k - (i + 1)"
        using 1(1) [OF False len no k] by auto
      have "drop i ls = (ls ! i # c) @ s @ r" using lt cr(2) Cons_nth_drop_Suc [of i ls] by simp
      then show ?thesis using cr by (intro conjI exI [of _ "ls ! i # c"] exI [of _ r]) auto
    qed
  qed
qed

lemma findLineSequence_found:
  "drop i ls = c @ s @ r \<Longrightarrow> i \<le> length ls \<Longrightarrow> \<exists>k \<le> i + length c. findLineSequence ls s i = Some k"
proof (induction ls s i arbitrary: c rule: findLineSequence.induct)
  case (1 ls s i)
  have len: "i + length c + length s \<le> length ls" using arg_cong [OF 1(2), of length] 1(3) by simp
  let ?here = "list_all (\<lambda>j. ls ! (i + j) = s ! j) [0..<length s]"
  show ?case
  proof (cases "s = [] \<or> ?here")
    case True
    then show ?thesis using len by (auto simp: findLineSequence.simps [of ls s i])
  next
    case False
    have "c \<noteq> []" using False 1(2) block_at_iff [of i s ls] len by auto
    then obtain x c' where c: "c = x # c'" by (cases c) auto
    have d: "drop (i + 1) ls = c' @ s @ r" using 1(2) c by (metis append_Cons drop_drop drop_Suc_Cons drop0 One_nat_def add.commute)
    have le: "i + 1 \<le> length ls" using len c by simp
    have f: "findLineSequence ls s i = findLineSequence ls s (i + 1)"
      using False len by (simp add: findLineSequence.simps [of ls s i])
    from 1(1) [OF _ _ _ d le] False len show ?thesis unfolding f by (auto simp: c)
  qed
qed

lemma hunks_apply_prepend: "hunks_apply hs rest out \<Longrightarrow> \<exists>out'. hunks_apply hs (p @ rest) out'"
proof (cases hs)
  case (Cons h hs')
  assume "hunks_apply hs rest out"
  then obtain c r o' where "rest = c @ ph_oldLines h @ r" "hunks_apply hs' r o'" unfolding Cons by (elim hunks_apply_Cons) blast
  then have "hunks_apply hs (p @ rest) ((p @ c) @ ph_newLines h @ o')" using hunk [of hs' r o' h "p @ c"] Cons by simp
  then show ?thesis ..
qed (auto intro: no_hunk)

lemma placeHunks_sound:
  "placeHunks f hs (a @ ls) (length a) = Inr out \<Longrightarrow> \<exists>out'. out = a @ out' \<and> hunks_apply hs ls out'"
proof (induction hs arbitrary: a ls)
  case Nil
  then show ?case by (auto intro: no_hunk)
next
  case (Cons h hs)
  obtain k where k: "findLineSequence (a @ ls) (ph_oldLines h) (length a) = Some k"
    and rest: "placeHunks f hs (take k (a @ ls) @ ph_newLines h @ drop (k + length (ph_oldLines h)) (a @ ls)) (k + length (ph_newLines h)) = Inr out"
    using Cons.prems by (auto split: option.splits)
  obtain c r where cr: "length a \<le> k" "ls = c @ ph_oldLines h @ r" "length c = k - length a"
    using findLineSequence_Some [OF k] by auto
  have "take k (a @ ls) @ ph_newLines h @ drop (k + length (ph_oldLines h)) (a @ ls) = (a @ c @ ph_newLines h) @ r"
    "k + length (ph_newLines h) = length (a @ c @ ph_newLines h)"
    using cr by auto
  from Cons.IH [OF rest [unfolded this]] show ?case using hunk [of hs r _ h c] cr(2) by auto
qed

lemma placeHunks_complete:
  "hunks_apply hs ls out \<Longrightarrow> \<exists>out'. placeHunks f hs (a @ ls) (length a) = Inr out'"
proof (induction hs arbitrary: a ls out)
  case (Cons h hs)
  obtain c r o' where cr: "ls = c @ ph_oldLines h @ r" "hunks_apply hs r o'" using Cons.prems by (elim hunks_apply_Cons) blast
  obtain k where k: "k \<le> length a + length c" "findLineSequence (a @ ls) (ph_oldLines h) (length a) = Some k"
    using findLineSequence_found [of "length a" "a @ ls" c "ph_oldLines h" r] cr by auto
  obtain c' r' where cr': "length a \<le> k" "ls = c' @ ph_oldLines h @ r'" "length c' = k - length a"
    using findLineSequence_Some [OF k(2)] by auto
  have "length r \<le> length r'" using arg_cong [OF cr(1), of length] arg_cong [OF cr'(2), of length] k(1) cr'(1,3) by simp
  moreover have "suffix r ls" "suffix r' ls" using cr(1) cr'(2) by (metis append.assoc suffixI)+
  ultimately have "suffix r r'" by (metis suffix_length_suffix)
  then obtain p where "r' = p @ r" by (auto simp: suffix_def)
  then obtain o2 where "hunks_apply hs r' o2" using hunks_apply_prepend [OF cr(2)] by metis
  from Cons.IH [OF this, of "a @ c' @ ph_newLines h"]
  show ?case using k(2) cr' by simp
qed simp

lemma placeHunks_iff:
  "(\<exists>out. placeHunks f hs ls 0 = Inr out) \<longleftrightarrow> (\<exists>out. hunks_apply hs ls out)"
  "placeHunks f hs ls 0 = Inr out \<Longrightarrow> hunks_apply hs ls out"
  using placeHunks_sound [of f hs "[]" ls] placeHunks_complete [of hs ls _ f "[]"] by auto

section \<open>Operations on files\<close>

lemma contained_operation: "applyOperation H root op fs = (x, fs') \<Longrightarrow> contained (root_segs H root) fs fs'"
proof (cases op)
  case (AddFile f ls)
  assume a: "applyOperation H root op fs = (x, fs')"
  show ?thesis
  proof (cases "resolveRepoPath H root f")
    case (Inr ar)
    then obtain p r t where r: "resolveRepoPath H root f = Inr (p, r)" "resolve_segs (hs_cwd H) p = root_segs H root @ t"
      using resolveRepoPath_inside by (metis prod.exhaust)
    show ?thesis
      using a r contained_mkdir_parent [OF _ r(2), of fs] contained_write [OF _ r(2)] contained_trans
      by (fastforce simp: AddFile Let_def split: sum.splits if_splits)
  qed (use a in \<open>simp add: AddFile\<close>)
next
  case (DeleteFile f)
  assume "applyOperation H root op fs = (x, fs')"
  then show ?thesis
    by (auto simp: DeleteFile split: sum.splits prod.splits dest!: resolveRepoPath_inside intro: contained_unlink)
next
  case (UpdateFile f hs)
  assume "applyOperation H root op fs = (x, fs')"
  then show ?thesis
    by (auto simp: UpdateFile Let_def split: sum.splits prod.splits dest!: resolveRepoPath_inside intro: contained_write)
qed

lemma contained_operations: "applyOperations H root ops ds fs = (x, fs') \<Longrightarrow> contained (root_segs H root) fs fs'"
proof (induction ops arbitrary: ds fs)
  case (Cons op ops)
  then show ?case
    by (auto split: prod.splits sum.splits dest: contained_operation intro: contained_trans)
qed simp

lemma contained_patch_tool: "executeApplyPatchTool H root patch fs = (res, fs') \<Longrightarrow> contained (root_segs H root) fs fs'"
  by (auto simp: executeApplyPatchTool_def Let_def split: sum.splits prod.splits dest: contained_operations)

interpretation patch_tool: repo_tool executeApplyPatchTool
  by unfold_locales (rule contained_patch_tool)

lemma file_lines: "splitFileLines s = splitComparableLines s"
  by (simp add: splitFileLines_def splitComparableLines_def)

text \<open>
  C9. A patch document that updates one file does what its hunks say. For a file of the repository whose text
  is \<open>t\<close>: when the old blocks of the hunks stand in the lines of \<open>t\<close> in this order, without overlap, the tool succeeds
  and the file gets the lines with each block replaced and the rest kept, with the final newline as before; when
  they do not, the tool fails and no file is changed. No other file changes in either case.
\<close>

theorem patch_updates_file:
  assumes dec: "\<And>s. hs_toString H (utf8_encode s) = s" and wf: "wf_fs fs"
    and path: "resolveRepoPath H root p = Inr (a, r)" and k: "k = resolve_segs (hs_cwd H) a"
    and cont: "map_of fs k = Some (FileNode (utf8_encode t))"
    and doc: "doc_ok (UpdateDoc p hls)"
    and run: "executeApplyPatchTool H root (js_join nl (patch_lines [UpdateDoc p hls])) fs = (res, fs')"
  shows "if \<exists>out. hunks_apply (map hunk_of hls) (splitFileLines t) out then
       tr_status res = Succeeded \<and> (\<exists>out. hunks_apply (map hunk_of hls) (splitFileLines t) out
         \<and> map_of fs' = (map_of fs)(k \<mapsto> FileNode (utf8_encode
             (if out = [] then [] else js_join nl out @ (if js_endsWith t nl then nl else [])))))
     else tr_status res = Failed \<and> fs' = fs"
proof -
  have parse: "parseApplyPatch (js_join nl (patch_lines [UpdateDoc p hls])) = Inr [UpdateFile p (map hunk_of hls)]"
    using parse_patch_text [of "[UpdateDoc p hls]" nl 0] doc by simp
  have readf: "readFileSync H fs a = Inr (utf8_encode t)" by (simp add: readFileSync_def k [symmetric] cont)
  have writef: "writeFileSync H fs a s = Inr (AList.update k (FileNode (utf8_encode s)) fs)" for s
    by (simp add: writeFileSync_def k [symmetric] Let_def cont)
  show ?thesis
  proof (cases "placeHunks r (map hunk_of hls) (splitFileLines t) 0")
    case (Inl e)
    then have "\<not> (\<exists>out. hunks_apply (map hunk_of hls) (splitFileLines t) out)"
      using placeHunks_iff(1) [of r "map hunk_of hls" "splitFileLines t"] by auto
    then show ?thesis
      using run Inl by (auto simp: executeApplyPatchTool_def parse path readf writef dec Let_def applyUpdateHunks_def failedResult_def)
  next
    case (Inr out)
    let ?new = "if out = [] then [] else js_join nl out @ (if js_endsWith t nl then nl else [])"
    have "applyUpdateHunks t (map hunk_of hls) r = Inr ?new" by (simp add: applyUpdateHunks_def Inr)
    then have "tr_status res = Succeeded \<and> fs' = AList.update k (FileNode (utf8_encode ?new)) fs"
      using run by (auto simp: executeApplyPatchTool_def parse path readf writef dec Let_def succeededResult_def simp del: js_join.simps)
    then have "tr_status res = Succeeded \<and> map_of fs' = (map_of fs)(k \<mapsto> FileNode (utf8_encode ?new))" by (simp only: update_conv')
    with placeHunks_iff(2) [OF Inr] show ?thesis by (auto simp del: js_join.simps)
  qed
qed

section \<open>Witnesses\<close>

theorem patch_text_parses_back_witness:
  "parseApplyPatch (js_join nl (patch_lines [AddDoc ''a'' [''x''], DeleteDoc ''f''] @ replicate 1 [])) = Inr [AddFile ''a'' [''x''], DeleteFile ''f'']"
proof -
  have ok: "list_all doc_ok [AddDoc ''a'' [''x''], DeleteDoc ''f'']" by code_simp
  show ?thesis using patch_text_parses_back [OF ok, of nl 1] by simp
qed

theorem patch_updates_file_witness:
  "tr_status (fst (executeApplyPatchTool host0 ''/r'' (js_join nl (patch_lines [UpdateDoc ''f'' [[Del ''aXbX'', Ins ''y'']]])) fs0)) = Succeeded"
proof -
  let ?run = "executeApplyPatchTool host0 ''/r'' (js_join nl (patch_lines [UpdateDoc ''f'' [[Del ''aXbX'', Ins ''y'']]])) fs0"
  have enc: "utf8_encode ''aXbX'' = ''aXbX''" and ls: "splitFileLines ''aXbX'' = [''aXbX'']"
    and ok: "doc_ok (UpdateDoc ''f'' [[Del ''aXbX'', Ins ''y'']])" by code_simp+
  have cont: "map_of fs0 [''r'', ''f''] = Some (FileNode (utf8_encode ''aXbX''))" unfolding enc by (simp add: fs0_def)
  have "hunks_apply (map hunk_of [[Del ''aXbX'', Ins ''y'']]) (splitFileLines ''aXbX'') [''y'']"
    using hunk [of "[]" "[]" "[]" "hunk_of [Del ''aXbX'', Ins ''y'']" "[]"] by (simp add: hunk_of_def ls no_hunk)
  then show ?thesis
    using patch_updates_file [of host0 fs0, OF host0_decodes _ segs0(3) _ cont ok, of "fst ?run" "snd ?run"] fs0_repo segs0
    by (auto simp: repo_fs_def split: if_splits)
qed

end
