(* ===== verification/SearchTool.thy ===== *)
theory SearchTool
  imports FileTools
begin

text \<open>
  The search tools, \<^verbatim>\<open>packages/opencode-app/src/tools/search-tool.ts\<close>: the walk over a directory, glob patterns and the
  glob and grep tools. \<open>RegExp\<close> stands for the constructor of the language with the flags \<^verbatim>\<open>g\<close> and \<^verbatim>\<open>i\<close>: it gives the
  test of a pattern on a line, or nothing for a malformed pattern.
\<close>

section \<open>The walk\<close>

definition SKIPPED_DIRS :: "string list" where
  "SKIPPED_DIRS = [''.git'', ''.dh'', ''node_modules'', ''dist'', ''build'', ''.next'']"

lemma key_length: "x \<in> set fs \<Longrightarrow> length (fst x) \<le> Max (insert 0 ((length \<circ> fst) ` set fs))"
  by (intro Max_ge) auto

text \<open>The files below a directory, as the lists of their segments.\<close>

function walkFiles :: "filesystem \<Rightarrow> string list \<Rightarrow> string list list" where
  "walkFiles fs base =
     concat (map (\<lambda>(k, n).
         if last k \<in> set SKIPPED_DIRS then []
         else case n of DirNode \<Rightarrow> walkFiles fs k | FileNode b \<Rightarrow> [k])
       (filter (\<lambda>(k, n). k \<noteq> [] \<and> butlast k = base) fs))"
  by pat_completeness auto
termination
proof (relation "measure (\<lambda>(fs, base). Suc (Max (insert 0 ((length \<circ> fst) ` set fs))) - length base)")
  fix fs base x k n
  assume "x \<in> set (filter (\<lambda>(k, n). k \<noteq> [] \<and> butlast k = base) fs)" "(k, n) = x"
  then have k: "(k, n) \<in> set fs" "k \<noteq> []" "butlast k = base" by auto
  then have "length k = Suc (length base)" by (cases k rule: rev_cases) auto
  moreover have "length k \<le> Max (insert 0 ((length \<circ> fst) ` set fs))" using key_length [OF k(1)] by simp
  ultimately show "((fs, k), fs, base) \<in> measure (\<lambda>(fs, base). Suc (Max (insert 0 ((length \<circ> fst) ` set fs))) - length base)"
    by simp
qed simp

declare walkFiles.simps [simp del]

text \<open>Only reading the first directory can fail: those below it were found in a listing.\<close>

definition readdir_check :: "host \<Rightarrow> filesystem \<Rightarrow> string \<Rightarrow> string option" where
  "readdir_check H fs base =
     (let k = resolve_segs (hs_cwd H) base in
      case map_of fs k of
        Some DirNode \<Rightarrow> None
      | Some (FileNode b) \<Rightarrow> Some (hs_sysMessage H ''scandir'' ENOTDIR base)
      | None \<Rightarrow> Some (hs_sysMessage H ''scandir'' (missing_code fs k) base))"

section \<open>Glob patterns\<close>

text \<open>The parts of the regular expression that \<^verbatim>\<open>globMatcher\<close> builds, and whether they match a whole string. A dot
  does not match a line terminator.\<close>

datatype glob_item = GlobDirs | GlobAny | GlobSegment | GlobOne | GlobChar char

fun glob_items :: "string \<Rightarrow> glob_item list" where
  "glob_items [] = []"
| "glob_items (c # cs) =
     (if c = CHR ''*'' then
        (case cs of
           [] \<Rightarrow> [GlobSegment]
         | d # ds \<Rightarrow>
             if d = CHR ''*'' then
               (case ds of
                  [] \<Rightarrow> [GlobAny]
                | e # es \<Rightarrow> if e = CHR ''/'' then GlobDirs # glob_items es else GlobAny # glob_items (e # es))
             else GlobSegment # glob_items (d # ds))
      else if c = CHR ''?'' then GlobOne # glob_items cs
      else GlobChar c # glob_items cs)"

definition line_end :: "char \<Rightarrow> bool" where
  "line_end c \<longleftrightarrow> c = CHR 0x0A \<or> c = CHR 0x0D"

function glob_match :: "glob_item list \<Rightarrow> string \<Rightarrow> bool" where
  "glob_match [] s = (s = [])"
| "glob_match (GlobChar c # gs) s = (case s of [] \<Rightarrow> False | d # ds \<Rightarrow> d = c \<and> glob_match gs ds)"
| "glob_match (GlobOne # gs) s = (case s of [] \<Rightarrow> False | d # ds \<Rightarrow> d \<noteq> CHR ''/'' \<and> glob_match gs ds)"
| "glob_match (GlobSegment # gs) s =
     (glob_match gs s \<or> (case s of [] \<Rightarrow> False | d # ds \<Rightarrow> d \<noteq> CHR ''/'' \<and> glob_match (GlobSegment # gs) ds))"
| "glob_match (GlobAny # gs) s =
     (glob_match gs s \<or> (case s of [] \<Rightarrow> False | d # ds \<Rightarrow> \<not> line_end d \<and> glob_match (GlobAny # gs) ds))"
| "glob_match (GlobDirs # gs) s =
     (glob_match gs s \<or>
      list_ex (\<lambda>i. s ! i = CHR ''/'' \<and> \<not> list_ex line_end (take i s) \<and> glob_match gs (drop (Suc i) s)) [0..<length s])"
  by pat_completeness auto
termination
  by (relation "measures [\<lambda>(gs, s). length gs, \<lambda>(gs, s). length s]") auto

definition globMatcher :: "string \<Rightarrow> string \<Rightarrow> bool" where
  "globMatcher pattern v = glob_match (glob_items pattern) v"

section \<open>The tools\<close>

text \<open>Hits are collected up to the limit; the first one beyond it ends the search.\<close>

fun collect_hits :: "nat \<Rightarrow> 'a list \<Rightarrow> 'a list \<Rightarrow> 'a list \<times> bool" where
  "collect_hits limit matches [] = (matches, False)"
| "collect_hits limit matches (x # xs) =
     (if length matches < limit then collect_hits limit (matches @ [x]) xs else (matches, True))"

record glob_input =
  gi_pattern :: string
  gi_cwd :: "string option"
  gi_limit :: "nat option"

record grep_input =
  pi_pattern :: string
  pi_include :: "string option"
  pi_cwd :: "string option"
  pi_limit :: "nat option"
  pi_caseSensitive :: "bool option"

record grep_match =
  gm_path :: string
  gm_line :: nat
  gm_text :: string

text \<open>The directory that a search starts in.\<close>

definition search_base :: "host \<Rightarrow> string \<Rightarrow> string option \<Rightarrow> string + string" where
  "search_base H repoRoot cwd =
     (case cwd of
        None \<Rightarrow> Inr repoRoot
      | Some c \<Rightarrow> if c = [] then Inr repoRoot
          else (case resolveRepoPath H repoRoot c of Inl e \<Rightarrow> Inl e | Inr (a, r) \<Rightarrow> Inr a))"

definition file_matches :: "host \<Rightarrow> string \<Rightarrow> string \<Rightarrow> (string \<Rightarrow> bool) \<Rightarrow> string list \<Rightarrow> bool" where
  "file_matches H repoRoot base matcher k =
     (matcher (normalizeRelativePath (path_relative (hs_cwd H) base (absolute_text k)))
      \<or> matcher (normalizeRelativePath (path_relative (hs_cwd H) repoRoot (absolute_text k))))"

definition executeGlobTool :: "host \<Rightarrow> string \<Rightarrow> glob_input \<Rightarrow> filesystem \<Rightarrow> string list tool_result" where
  "executeGlobTool H repoRoot i fs =
     (case search_base H repoRoot (gi_cwd i) of
        Inl e \<Rightarrow> failedResult Glob e
      | Inr base \<Rightarrow>
          (case readdir_check H fs base of
             Some e \<Rightarrow> failedResult Glob e
           | None \<Rightarrow>
               let matcher = globMatcher (normalizeRelativePath (gi_pattern i));
                   hits = filter (file_matches H repoRoot base matcher) (walkFiles fs (resolve_segs (hs_cwd H) base));
                   (matches, truncated) = collect_hits (nullish (gi_limit i) 100) []
                     (map (\<lambda>k. normalizeRelativePath (path_relative (hs_cwd H) repoRoot (absolute_text k))) hits)
               in succeededResult Glob matches (metadata0\<lparr>md_truncated := truncated\<rparr>)))"

text \<open>\<^verbatim>\<open>pattern.replace(/[.*+?^${}()|[\]\\]/g, "\\$&")\<close>.\<close>

definition escape_pattern :: "string \<Rightarrow> string" where
  "escape_pattern s = concat (map (\<lambda>c. if c \<in> set ''.*+?^${}()|[]'' \<or> c = CHR 0x5C then [CHR 0x5C, c] else [c]) s)"

definition compilePattern :: "(string \<Rightarrow> bool \<Rightarrow> (string \<Rightarrow> bool) option) \<Rightarrow> string \<Rightarrow> bool \<Rightarrow> (string \<Rightarrow> bool) option" where
  "compilePattern RegExp pattern caseSensitive =
     (case RegExp pattern caseSensitive of
        Some test \<Rightarrow> Some test
      | None \<Rightarrow> RegExp (escape_pattern pattern) caseSensitive)"

definition line_hits :: "(string \<Rightarrow> bool) \<Rightarrow> string \<Rightarrow> string list \<Rightarrow> grep_match list" where
  "line_hits test path lines =
     map (\<lambda>(i, t). \<lparr>gm_path = path, gm_line = i + 1, gm_text = t\<rparr>) (filter (\<lambda>(i, t). test t) (enumerate 0 lines))"

definition file_hits ::
  "host \<Rightarrow> string \<Rightarrow> filesystem \<Rightarrow> (string \<Rightarrow> bool) \<Rightarrow> string list \<Rightarrow> grep_match list" where
  "file_hits H repoRoot fs test k =
     (case map_of fs k of
        Some (FileNode b) \<Rightarrow>
          if CHR 0x00 \<in> set b then []
          else line_hits test (normalizeRelativePath (path_relative (hs_cwd H) repoRoot (absolute_text k)))
                 (split_newlines [] (hs_toString H b))
      | _ \<Rightarrow> [])"

definition executeGrepTool ::
  "host \<Rightarrow> (string \<Rightarrow> bool \<Rightarrow> (string \<Rightarrow> bool) option) \<Rightarrow> string \<Rightarrow> grep_input \<Rightarrow> filesystem \<Rightarrow> grep_match list tool_result" where
  "executeGrepTool H RegExp repoRoot i fs =
     (case search_base H repoRoot (pi_cwd i) of
        Inl e \<Rightarrow> failedResult Grep e
      | Inr base \<Rightarrow>
          (case compilePattern RegExp (pi_pattern i) (nullish (pi_caseSensitive i) False) of
             None \<Rightarrow> failedResult Grep ''Invalid regular expression''
           | Some test \<Rightarrow>
               (case readdir_check H fs base of
                  Some e \<Rightarrow> failedResult Grep e
                | None \<Rightarrow>
                    let inc = globMatcher (normalizeRelativePath (nullish (pi_include i) ''**/*''));
                        files = filter (file_matches H repoRoot base inc) (walkFiles fs (resolve_segs (hs_cwd H) base));
                        (matches, truncated) = collect_hits (nullish (pi_limit i) 100) []
                          (concat (map (file_hits H repoRoot fs test) files))
                    in succeededResult Grep matches (metadata0\<lparr>md_truncated := truncated\<rparr>))))"

section \<open>What the walk and the limit give\<close>

lemma collect_hits_eq:
  "length ms \<le> n \<Longrightarrow> collect_hits n ms xs = (take n (ms @ xs), n < length ms + length xs)"
  by (induction n ms xs rule: collect_hits.induct) (auto simp: take_Cons')

text \<open>A file is found exactly when none of the names on the way to it from the base is skipped.\<close>

definition visible_from :: "string list \<Rightarrow> string list \<Rightarrow> bool" where
  "visible_from base k \<longleftrightarrow> (\<exists>s. s \<noteq> [] \<and> k = base @ s \<and> set s \<inter> set SKIPPED_DIRS = {})"

lemma distinct_concat_map:
  "distinct xs \<Longrightarrow> (\<And>x. x \<in> set xs \<Longrightarrow> distinct (f x)) \<Longrightarrow>
   (\<And>x y. x \<in> set xs \<Longrightarrow> y \<in> set xs \<Longrightarrow> x \<noteq> y \<Longrightarrow> set (f x) \<inter> set (f y) = {}) \<Longrightarrow> distinct (concat (map f xs))"
proof (induction xs)
  case (Cons x xs)
  have "set (f x) \<inter> set (f y) = {}" if "y \<in> set xs" for y
    using Cons.prems(3) [of x y] Cons.prems(1) that by auto
  then show ?case using Cons by auto
qed simp

lemma walk_inside: "k \<in> set (walkFiles fs base) \<Longrightarrow> visible_from base k \<and> (\<exists>b. (k, FileNode b) \<in> set fs)"
proof (induction fs base arbitrary: k rule: walkFiles.induct)
  case (1 fs base)
  then obtain c n where c: "(c, n) \<in> set fs" "c \<noteq> []" "butlast c = base" "last c \<notin> set SKIPPED_DIRS"
    and k: "k \<in> set (case n of DirNode \<Rightarrow> walkFiles fs c | FileNode b \<Rightarrow> [c])"
    by (subst (asm) walkFiles.simps) (auto split: if_splits)
  have cb: "c = base @ [last c]" using c(2,3) by (metis append_butlast_last_id)
  show ?case
  proof (cases n)
    case (FileNode b)
    then show ?thesis using k c cb by (auto simp: visible_from_def intro!: exI [of _ "[last c]"])
  next
    case DirNode
    then have "k \<in> set (walkFiles fs c)" using k by simp
    with 1(1) [of "(c, n)" c n k] c DirNode
    have IH: "visible_from c k" "\<exists>b. (k, FileNode b) \<in> set fs" by auto
    then obtain s where "s \<noteq> []" "k = c @ s" "set s \<inter> set SKIPPED_DIRS = {}" by (auto simp: visible_from_def)
    then have "visible_from base k" unfolding visible_from_def using cb c(4) by (intro exI [of _ "last c # s"]) (metis Int_insert_left_if0 append_Cons append_assoc append_Nil list.distinct(1) list.simps(15))
    then show ?thesis using IH(2) by simp
  qed
qed

lemma walk_finds:
  assumes fs: "distinct (map fst fs)" "wf_fs fs" and k: "map_of fs k = Some (FileNode b)"
  shows "s \<noteq> [] \<Longrightarrow> k = base @ s \<Longrightarrow> set s \<inter> set SKIPPED_DIRS = {} \<Longrightarrow> k \<in> set (walkFiles fs base)"
proof (induction s arbitrary: base)
  case (Cons x s)
  show ?case
  proof (cases "s = []")
    case True
    then show ?thesis using Cons.prems map_of_SomeD [OF k] by (subst walkFiles.simps) force
  next
    case False
    then have sp: "strict_prefix (base @ [x]) k" using Cons.prems by (auto simp: strict_prefix_def)
    have d: "(base @ [x], DirNode) \<in> set fs" using map_of_SomeD [OF strict_prefix_dir [OF fs(2) k sp]] .
    have "k \<in> set (walkFiles fs (base @ [x]))" using Cons.IH [of "base @ [x]"] Cons.prems False by simp
    then show ?thesis using d Cons.prems by (subst walkFiles.simps) force
  qed
qed simp

lemma walk_iff:
  assumes "distinct (map fst fs)" "wf_fs fs"
  shows "k \<in> set (walkFiles fs base) \<longleftrightarrow> (\<exists>b. map_of fs k = Some (FileNode b)) \<and> visible_from base k"
  using walk_inside [of k fs base] walk_finds [OF assms] assms(1) by (auto simp: visible_from_def)

lemma walk_distinct: "distinct fs \<Longrightarrow> distinct (map fst fs) \<Longrightarrow> distinct (walkFiles fs base)"
proof (induction fs base rule: walkFiles.induct)
  case (1 fs base)
  let ?f = "\<lambda>(k, n). if last k \<in> set SKIPPED_DIRS then [] else case n of DirNode \<Rightarrow> walkFiles fs k | FileNode b \<Rightarrow> [k]"
  let ?xs = "filter (\<lambda>(k, n). k \<noteq> [] \<and> butlast k = base) fs"
  have sub: "prefix c k" if "k \<in> set (?f (c, n))" for c n k
    using that walk_inside [of k fs c] by (auto simp: visible_from_def split: if_splits fs_node.splits)
  show ?case
    unfolding walkFiles.simps [of fs base]
  proof (rule distinct_concat_map)
    show "distinct ?xs" using 1 by simp
    show "distinct (?f x)" if "x \<in> set ?xs" for x using 1 that by (cases x; cases "snd x") auto
    fix x y assume xy: "x \<in> set ?xs" "y \<in> set ?xs" "x \<noteq> y"
    obtain c n d m where cd: "x = (c, n)" "y = (d, m)" by (cases x; cases y)
    have "c \<noteq> d" using xy 1(3) cd by (auto dest: eq_key_imp_eq_value)
    moreover have "length c = Suc (length base)" "length d = Suc (length base)"
      using xy(1,2) cd by (cases c rule: rev_cases; cases d rule: rev_cases; auto)+
    ultimately have "\<not> (prefix c k \<and> prefix d k)" for k by (auto simp: prefix_def append_eq_append_conv)
    then show "set (?f x) \<inter> set (?f y) = {}" using sub cd by blast
  qed
qed

text \<open>The files that a search from \<open>base\<close> visits and a matcher accepts.\<close>

definition searched :: "host \<Rightarrow> string \<Rightarrow> string \<Rightarrow> (string \<Rightarrow> bool) \<Rightarrow> filesystem \<Rightarrow> string list set" where
  "searched H root base matcher fs = {k. (\<exists>b. map_of fs k = Some (FileNode b))
     \<and> visible_from (resolve_segs (hs_cwd H) base) k \<and> file_matches H root base matcher k}"

lemma searched_list:
  assumes "distinct (map fst fs)" "wf_fs fs"
    and "ks = filter (file_matches H root base matcher) (walkFiles fs (resolve_segs (hs_cwd H) base))"
  shows "distinct ks \<and> set ks = searched H root base matcher fs"
  using walk_distinct [of fs] assms(1) walk_iff [OF assms(1,2)]
  by (auto simp: assms(3) searched_def distinct_map)

text \<open>
  C37. A search finds what there is to find. The files that it visits are, each once, exactly those below its
  base directory with no skipped name on the way and a matching path; the glob tool returns the first of
  their paths up to the limit, the grep tool the first lines of their texts that the pattern accepts, with numbers
  counted from one, and either result is marked truncated exactly when there are more hits than the limit.
\<close>

theorem search_finds_visible_files:
  assumes fs: "distinct (map fst fs)" "wf_fs fs" and base: "search_base H root cwd = Inr base"
    and dir: "map_of fs (resolve_segs (hs_cwd H) base) = Some DirNode"
    and test: "compilePattern RegExp pat cs = Some test"
    and inc: "inc = globMatcher (normalizeRelativePath glob)"
  shows "\<exists>ks. distinct ks \<and> set ks = searched H root base inc fs
     \<and> (let r = executeGlobTool H root \<lparr>gi_pattern = glob, gi_cwd = cwd, gi_limit = Some n\<rparr> fs in
         tr_output r = Some (take n (map (\<lambda>k. path_relative (hs_cwd H) root (absolute_text k)) ks))
         \<and> md_truncated (tr_metadata r) = (n < length ks))
     \<and> (let r = executeGrepTool H RegExp root
               \<lparr>pi_pattern = pat, pi_include = Some glob, pi_cwd = cwd, pi_limit = Some n, pi_caseSensitive = Some cs\<rparr> fs;
             hits = concat (map (file_hits H root fs test) ks) in
         tr_output r = Some (take n hits) \<and> md_truncated (tr_metadata r) = (n < length hits))"
proof -
  let ?ks = "filter (file_matches H root base inc) (walkFiles fs (resolve_segs (hs_cwd H) base))"
  have rd: "readdir_check H fs base = None" using dir by (simp add: readdir_check_def)
  have nrm: "normalizeRelativePath s = s" for s by (simp add: normalizeRelativePath_def js_join_split)
  have "distinct ?ks \<and> set ?ks = searched H root base inc fs" using searched_list [OF fs] by simp
  then show ?thesis
    by (intro exI [of _ ?ks])
      (simp add: executeGlobTool_def executeGrepTool_def base test rd inc nrm collect_hits_eq Let_def succeededResult_def)
qed

text \<open>A regular expression that is a plain text: the lines that contain it.\<close>

theorem search_finds_visible_files_witness:
  "\<exists>ks. distinct ks \<and> set ks = searched host0 ''/r'' ''/r'' (globMatcher (normalizeRelativePath ''**/*'')) fs0
     \<and> md_truncated (tr_metadata (executeGlobTool host0 ''/r'' \<lparr>gi_pattern = ''**/*'', gi_cwd = None, gi_limit = Some 5\<rparr> fs0)) = (5 < length ks)"
proof -
  have d: "distinct (map fst fs0)" "map_of fs0 [''r''] = Some DirNode" by (simp_all add: fs0_def)
  show ?thesis
    using search_finds_visible_files [of fs0 host0 "''/r''" None "''/r''" "\<lambda>p c. Some (\<lambda>l. js_includes l p)" "''X''" True
        "\<lambda>l. js_includes l ''X''" _ "''**/*''" 5, OF d(1) _ _ _ _ refl] fs0_repo segs0(1) d(2)
    by (auto simp: search_base_def compilePattern_def repo_fs_def Let_def)
qed

end
