(* ===== verification/ShellTool.thy ===== *)
theory ShellTool
  imports FileTools
begin

text \<open>
  Shell commands: the guard of \<^verbatim>\<open>packages/runtime/src/hooks/bash-guard.ts\<close> and the shell tool of
  \<^verbatim>\<open>packages/opencode-app/src/tools/shell-tool.ts\<close>. The child process is the list of events that its
  listeners and the timer see, in order; the regular expressions of the guard are written out as searches.
\<close>

section \<open>The guard\<close>

datatype guard_level = Strict | Advisory

datatype permission_level = Deny | Ask | Allow | AutoApprove

record guard_decision =
  gd_allowed :: bool
  gd_blocked :: bool
  gd_reason :: string
  gd_suggestion :: "string option"
  gd_category :: "string option"

definition word_char :: "char \<Rightarrow> bool" where
  "word_char c = (let n = of_char c :: nat in
     48 \<le> n \<and> n \<le> 57 \<or> 65 \<le> n \<and> n \<le> 90 \<or> 97 \<le> n \<and> n \<le> 122 \<or> n = 95)"

text \<open>\<open>word_at s w i\<close>: the word \<open>w\<close> stands at position \<open>i\<close> with a word boundary on both sides.\<close>

definition word_at :: "string \<Rightarrow> string \<Rightarrow> nat \<Rightarrow> bool" where
  "word_at s w i \<longleftrightarrow> js_startsWith (drop i s) w \<and> (i = 0 \<or> \<not> word_char (s ! (i - 1)))
     \<and> (i + length w = length s \<or> \<not> word_char (s ! (i + length w)))"

definition has_word :: "string \<Rightarrow> string \<Rightarrow> bool" where
  "has_word s w = list_ex (word_at s w) [0..<length s]"

definition line_end_char :: "char \<Rightarrow> bool" where
  "line_end_char c \<longleftrightarrow> c = CHR 0x0A \<or> c = CHR 0x0D"

text \<open>
  \<open>word_then s w rest\<close>: the word \<open>w\<close>, one or more blanks, and from there some characters of one line up to a
  position \<open>j\<close> where \<open>rest\<close> holds; \<open>least\<close> is the least number of these characters.
\<close>

definition word_then :: "nat \<Rightarrow> string \<Rightarrow> string \<Rightarrow> (nat \<Rightarrow> bool) \<Rightarrow> bool" where
  "word_then least s w rest =
     list_ex (\<lambda>i. word_at s w i \<and>
       list_ex (\<lambda>p. i + length w < p \<and> list_all js_ws (take (p - (i + length w)) (drop (i + length w) s)) \<and>
         list_ex (\<lambda>j. p + least \<le> j \<and> \<not> list_ex line_end_char (take (j - p) (drop p s)) \<and> rest j) [0..<length s])
       [0..<length s]) [0..<length s]"

definition cat_source :: "string \<Rightarrow> bool" where
  "cat_source s =
     (let l = js_lower s in
      word_then 1 l ''cat'' (\<lambda>j. l ! j = CHR ''.'' \<and>
        list_ex (\<lambda>e. js_startsWith (drop (j + 1) l) e
            \<and> (j + 1 + length e = length l \<or> \<not> word_char (l ! (j + 1 + length e))))
          [''ts'', ''tsx'', ''js'', ''jsx'', ''go'', ''py'', ''rs'']))"

definition find_name :: "string \<Rightarrow> bool" where
  "find_name s =
     word_then 0 s ''find'' (\<lambda>j. js_startsWith (drop j s) ''-name''
       \<and> (j + 5 = length s \<or> \<not> word_char (s ! (j + 5))))"

record substitution_rule =
  sr_pattern :: "string \<Rightarrow> bool"
  sr_category :: string
  sr_suggestion :: string

definition SUBSTITUTION_RULES :: "substitution_rule list" where
  "SUBSTITUTION_RULES =
     [\<lparr>sr_pattern = (\<lambda>s. has_word s ''grep''), sr_category = ''content-search'',
       sr_suggestion = ''Use dh.find-references, dh.find-symbol, or Grep tool.''\<rparr>,
      \<lparr>sr_pattern = cat_source, sr_category = ''file-read'', sr_suggestion = ''Use view tool or dh.syntax-outline first.''\<rparr>,
      \<lparr>sr_pattern = find_name, sr_category = ''file-discovery'', sr_suggestion = ''Use glob tool or dh.find-symbol.''\<rparr>,
      \<lparr>sr_pattern = (\<lambda>s. has_word s ''sed'' \<or> has_word s ''awk''), sr_category = ''file-edit'',
       sr_suggestion = ''Use edit/patch tools instead of stream editing.''\<rparr>,
      \<lparr>sr_pattern = (\<lambda>s. has_word s ''head'' \<or> has_word s ''tail''), sr_category = ''partial-read'',
       sr_suggestion = ''Use view tool with offset/limit.''\<rparr>,
      \<lparr>sr_pattern = (\<lambda>s. has_word s ''wc''), sr_category = ''count'',
       sr_suggestion = ''Use diagnostics/read-based counting in tooling.''\<rparr>]"

definition ALLOWED_PREFIXES :: "string list" where
  "ALLOWED_PREFIXES =
     [''git'', ''npm'', ''pnpm'', ''yarn'', ''bun'', ''node'', ''npx'', ''docker'', ''make'', ''cargo'', ''go'', ''python'',
      ''pip'', ''pytest'', ''vitest'', ''tsc'', ''eslint'']"

definition cut_at :: "string \<Rightarrow> string \<Rightarrow> string" where
  "cut_at splitter s = (case js_indexOf s splitter of None \<Rightarrow> s | Some i \<Rightarrow> take i s)"

definition parseBaseCommand :: "string \<Rightarrow> string" where
  "parseBaseCommand command =
     takeWhile (\<lambda>c. \<not> js_ws c) (js_trim (fold cut_at [''&&'', '';'', ''||'', ''|''] command))"

definition evaluateBashCommand :: "string \<Rightarrow> guard_level \<Rightarrow> guard_decision" where
  "evaluateBashCommand command level =
     (let trimmed = js_trim command in
      if trimmed = [] then
        \<lparr>gd_allowed = True, gd_blocked = False, gd_reason = ''empty command'', gd_suggestion = None, gd_category = None\<rparr>
      else
        let base = parseBaseCommand trimmed in
        if list_ex (\<lambda>prefix. base = prefix \<or> js_startsWith base (prefix @ '' '')) ALLOWED_PREFIXES then
          \<lparr>gd_allowed = True, gd_blocked = False,
           gd_reason = ''Allowed command prefix '' @ [CHR 0x27] @ hd (js_split base '' '') @ [CHR 0x27] @ ''.'',
           gd_suggestion = None, gd_category = None\<rparr>
        else
          (case List.find (\<lambda>rule. sr_pattern rule trimmed) SUBSTITUTION_RULES of
             None \<Rightarrow> \<lparr>gd_allowed = True, gd_blocked = False, gd_reason = ''No blocked pattern matched.'',
                      gd_suggestion = None, gd_category = None\<rparr>
           | Some rule \<Rightarrow>
               if level = Advisory then
                 \<lparr>gd_allowed = True, gd_blocked = False,
                  gd_reason = ''Advisory: command matched '' @ sr_category rule @ ''.'',
                  gd_suggestion = Some (sr_suggestion rule), gd_category = Some (sr_category rule)\<rparr>
               else
                 \<lparr>gd_allowed = False, gd_blocked = True,
                  gd_reason = ''Blocked by bash guard ('' @ sr_category rule @ '').'',
                  gd_suggestion = Some (sr_suggestion rule), gd_category = Some (sr_category rule)\<rparr>))"

record shell_permission = guard_decision +
  sp_permissionLevel :: permission_level
  sp_requiresPermission :: bool

definition evaluateShellPermission :: "string \<Rightarrow> permission_level \<Rightarrow> shell_permission" where
  "evaluateShellPermission command level =
     (if level = Deny then
        \<lparr>gd_allowed = False, gd_blocked = True, gd_reason = ''Shell command denied by permission policy.'',
         gd_suggestion = None, gd_category = None, sp_permissionLevel = level, sp_requiresPermission = False\<rparr>
      else if level = Ask then
        \<lparr>gd_allowed = False, gd_blocked = False, gd_reason = ''Shell command requires permission before execution.'',
         gd_suggestion = None, gd_category = None, sp_permissionLevel = level, sp_requiresPermission = True\<rparr>
      else
        let g = evaluateBashCommand command (if level = AutoApprove then Strict else Advisory) in
        guard_decision.extend g \<lparr>sp_permissionLevel = level, sp_requiresPermission = False\<rparr>)"

section \<open>The shell tool\<close>

record shell_input =
  si_command :: string
  si_cwd :: "string option"
  si_timeoutMs :: "nat option"
  si_maxOutputBytes :: "nat option"

record shell_output =
  so_command :: string
  so_stdout :: string
  so_stderr :: string
  so_exitCode :: "int option"

datatype stream = Stdout | Stderr

text \<open>What happens to the child, in order; the last two carry the milliseconds since the start.\<close>

datatype child_event =
    ChildData stream buffer
  | TimerFired
  | ChildError string int
  | ChildClose "int option" int

text \<open>Events that a tool emits to the sink of its run.\<close>

datatype tool_event =
    ToolStarted tool_name
  | ToolDelta tool_name "stream option" string
  | ToolFinished tool_name tool_status tool_metadata
  | PermissionRequested tool_name permission_level string

text \<open>How a call ends: with a result, with an exception, or not at all.\<close>

datatype 'r outcome = Returned 'r | Thrown string | Pending

record shell_run =
  sh_stdout :: string
  sh_stderr :: string
  sh_bytesReturned :: nat
  sh_bytesSeen :: nat
  sh_timedOut :: bool
  sh_settled :: "shell_output tool_result option"
  sh_events :: "tool_event list"

definition shell_run0 :: shell_run where
  "shell_run0 = \<lparr>sh_stdout = [], sh_stderr = [], sh_bytesReturned = 0, sh_bytesSeen = 0, sh_timedOut = False,
     sh_settled = None, sh_events = []\<rparr>"

definition shell_append :: "host \<Rightarrow> nat \<Rightarrow> stream \<Rightarrow> buffer \<Rightarrow> shell_run \<Rightarrow> shell_run" where
  "shell_append H maxOutputBytes strm chunk r =
     (let remaining = maxOutputBytes - sh_bytesReturned r;
          returned = take remaining chunk;
          txt = hs_toString H returned;
          r1 = r\<lparr>sh_bytesSeen := sh_bytesSeen r + length chunk, sh_bytesReturned := sh_bytesReturned r + length returned\<rparr>;
          r2 = (if strm = Stdout then r1\<lparr>sh_stdout := sh_stdout r @ txt\<rparr> else r1\<lparr>sh_stderr := sh_stderr r @ txt\<rparr>)
      in if txt \<noteq> [] then r2\<lparr>sh_events := sh_events r @ [ToolDelta Shell (Some strm) txt]\<rparr> else r2)"

definition shell_metadata :: "shell_run \<Rightarrow> int option \<Rightarrow> int \<Rightarrow> tool_metadata" where
  "shell_metadata r exitCode ms =
     metadata0\<lparr>md_truncated := sh_bytesReturned r < sh_bytesSeen r, md_bytesReturned := Some (sh_bytesReturned r),
       md_omittedBytes := Some (sh_bytesSeen r - sh_bytesReturned r), md_exitCode := Some exitCode, md_durationMs := Some ms\<rparr>"

fun shell_step :: "host \<Rightarrow> string \<Rightarrow> nat \<Rightarrow> nat \<Rightarrow> child_event \<Rightarrow> shell_run \<Rightarrow> shell_run" where
  "shell_step H command timeoutMs maxOutputBytes (ChildData strm chunk) r = shell_append H maxOutputBytes strm chunk r"
| "shell_step H command timeoutMs maxOutputBytes TimerFired r =
     (if sh_settled r = None then r\<lparr>sh_timedOut := True\<rparr> else r)"
| "shell_step H command timeoutMs maxOutputBytes (ChildError message ms) r =
     (if sh_settled r \<noteq> None then r
      else r\<lparr>sh_settled := Some \<lparr>tr_toolName = Shell, tr_status = Failed, tr_output = None, tr_error = Some message,
             tr_metadata = shell_metadata r None ms\<rparr>\<rparr>)"
| "shell_step H command timeoutMs maxOutputBytes (ChildClose exitCode ms) r =
     (if sh_settled r \<noteq> None then r
      else
        let failed = (sh_timedOut r \<or> exitCode \<noteq> Some 0) in
        r\<lparr>sh_settled := Some \<lparr>tr_toolName = Shell, tr_status = (if failed then Failed else Succeeded),
             tr_output = Some \<lparr>so_command = command, so_stdout = sh_stdout r, so_stderr = sh_stderr r, so_exitCode = exitCode\<rparr>,
             tr_error =
               (if sh_timedOut r then Some (''Shell command timed out after '' @ show_nat timeoutMs @ ''ms.'')
                else if exitCode = Some 0 then None
                else Some (''Shell command exited with code ''
                       @ (case exitCode of None \<Rightarrow> ''null'' | Some c \<Rightarrow> show_int c) @ ''.'')),
             tr_metadata = shell_metadata r exitCode ms\<rparr>\<rparr>)"

text \<open>
  \<open>spawnShell command cwd timeoutMs fs\<close> is the child process: its events and the files it leaves. A working directory
  outside the repository throws.
\<close>

definition executeShellTool ::
  "host \<Rightarrow> (string \<Rightarrow> string \<Rightarrow> nat \<Rightarrow> filesystem \<Rightarrow> child_event list \<times> filesystem) \<Rightarrow> string \<Rightarrow> shell_input \<Rightarrow>
   permission_level \<Rightarrow> filesystem \<Rightarrow> shell_output tool_result outcome \<times> tool_event list \<times> filesystem" where
  "executeShellTool H spawnShell repoRoot i permissionLevel fs =
     (let permission = evaluateShellPermission (si_command i) permissionLevel in
      if \<not> gd_allowed permission then
        (Returned \<lparr>tr_toolName = Shell,
           tr_status = (if sp_requiresPermission permission then PermissionRequired else Failed),
           tr_output = None, tr_error = Some (gd_reason permission), tr_metadata = metadata0\<rparr>, [], fs)
      else
        (case (case si_cwd i of
                 None \<Rightarrow> Inr repoRoot
               | Some c \<Rightarrow> if c = [] then Inr repoRoot
                   else (case resolveRepoPath H repoRoot c of Inl e \<Rightarrow> Inl e | Inr (a, r) \<Rightarrow> Inr a)) of
           Inl e \<Rightarrow> (Thrown e, [], fs)
         | Inr cwd \<Rightarrow>
             let maxOutputBytes = nullish (si_maxOutputBytes i) 64000;
                 timeoutMs = nullish (si_timeoutMs i) 30000;
                 (events, fs') = spawnShell (si_command i) cwd timeoutMs fs;
                 r = fold (shell_step H (si_command i) timeoutMs maxOutputBytes) events shell_run0
             in ((case sh_settled r of None \<Rightarrow> Pending | Some res \<Rightarrow> Returned res), sh_events r, fs')))"

section \<open>What a run of the child gives\<close>

fun terminal :: "child_event \<Rightarrow> bool" where
  "terminal (ChildError m ms) = True" | "terminal (ChildClose c ms) = True" | "terminal ev = False"

fun data_bytes :: "child_event \<Rightarrow> nat" where
  "data_bytes (ChildData strm chunk) = length chunk" | "data_bytes ev = 0"

fun chunks :: "child_event list \<Rightarrow> (stream \<times> buffer) list" where
  "chunks [] = []" | "chunks (ChildData strm chunk # evs) = (strm, chunk) # chunks evs" | "chunks (ev # evs) = chunks evs"

text \<open>
  \<open>cut_chunks m cs ps\<close>: the pieces \<open>ps\<close> are the chunks \<open>cs\<close>, each cut at its end, and together they are the first \<open>m\<close> bytes of
  all chunks. The text of a stream is that of its pieces.
\<close>

definition cut_chunks :: "nat \<Rightarrow> (stream \<times> buffer) list \<Rightarrow> (stream \<times> buffer) list \<Rightarrow> bool" where
  "cut_chunks m cs ps \<longleftrightarrow> list_all2 (\<lambda>p c. fst p = fst c \<and> prefix (snd p) (snd c)) ps cs \<and> concat (map snd ps) = take m (concat (map snd cs))"

definition stream_text :: "host \<Rightarrow> stream \<Rightarrow> (stream \<times> buffer) list \<Rightarrow> string" where
  "stream_text H strm ps = concat (map (\<lambda>p. hs_toString H (snd p)) (filter (\<lambda>p. fst p = strm) ps))"

lemma chunks_bytes: "length (concat (map snd (chunks evs))) = sum_list (map data_bytes evs)"
  by (induction evs rule: chunks.induct) auto

lemma stream_text_bound:
  assumes "\<And>b. length (hs_toString H b) \<le> length b" "cut_chunks m cs ps"
  shows "length (stream_text H Stdout ps) + length (stream_text H Stderr ps) \<le> m"
proof -
  have "length (stream_text H Stdout ps) + length (stream_text H Stderr ps) \<le> length (concat (map snd ps))"
  proof (induction ps)
    case (Cons p ps)
    then show ?case using assms(1) [of "snd p"] by (cases "fst p") (simp_all add: stream_text_def)
  qed (simp add: stream_text_def)
  then show ?thesis using assms(2) by (simp add: cut_chunks_def)
qed

abbreviation shell_events :: "host \<Rightarrow> string \<Rightarrow> nat \<Rightarrow> nat \<Rightarrow> child_event list \<Rightarrow> shell_run \<Rightarrow> shell_run" where
  "shell_events H command timeoutMs maxOutputBytes \<equiv> fold (shell_step H command timeoutMs maxOutputBytes)"

lemma shell_append_fields:
  "sh_settled (shell_append H m strm c r) = sh_settled r" "sh_timedOut (shell_append H m strm c r) = sh_timedOut r"
  "sh_bytesSeen (shell_append H m strm c r) = sh_bytesSeen r + length c"
  "sh_bytesReturned (shell_append H m strm c r) = sh_bytesReturned r + min (m - sh_bytesReturned r) (length c)"
  by (simp_all add: shell_append_def Let_def min.commute)

lemma shell_append_texts:
  "sh_stdout (shell_append H m strm c r) = sh_stdout r @ (if strm = Stdout then hs_toString H (take (m - sh_bytesReturned r) c) else [])"
  "sh_stderr (shell_append H m strm c r) = sh_stderr r @ (if strm = Stderr then hs_toString H (take (m - sh_bytesReturned r) c) else [])"
  by (cases strm; simp add: shell_append_def Let_def)+

lemma shell_settled_stays: "sh_settled r = Some x \<Longrightarrow> sh_settled (shell_events H c t m evs r) = Some x"
proof (induction evs arbitrary: r)
  case (Cons ev evs)
  then show ?case by (cases ev) (simp_all add: shell_append_fields)
qed simp

lemma shell_open:
  assumes "list_all (\<lambda>ev. \<not> terminal ev) evs" "sh_settled r = None" "sh_bytesReturned r = min m (sh_bytesSeen r)"
    and "r' = shell_events H c t m evs r"
  shows "sh_settled r' = None \<and> sh_bytesSeen r' = sh_bytesSeen r + sum_list (map data_bytes evs)
    \<and> sh_bytesReturned r' = min m (sh_bytesSeen r') \<and> sh_timedOut r' = (sh_timedOut r \<or> TimerFired \<in> set evs)"
  unfolding assms(4) using assms(1-3)
proof (induction evs arbitrary: r)
  case (Cons ev evs)
  let ?r = "shell_step H c t m ev r"
  have "sh_settled ?r = None" "sh_bytesReturned ?r = min m (sh_bytesSeen ?r)" "sh_bytesSeen ?r = sh_bytesSeen r + data_bytes ev"
    "sh_timedOut ?r = (sh_timedOut r \<or> ev = TimerFired)"
    using Cons.prems by (cases ev; simp add: shell_append_fields)+
  with Cons.IH [of ?r] Cons.prems show ?case by auto
qed simp

lemma shell_texts:
  assumes "list_all (\<lambda>ev. \<not> terminal ev) evs" "sh_settled r = None" "sh_bytesReturned r = min m (sh_bytesSeen r)"
    and "r' = shell_events H c t m evs r"
  shows "\<exists>ps. cut_chunks (m - sh_bytesReturned r) (chunks evs) ps
    \<and> sh_stdout r' = sh_stdout r @ stream_text H Stdout ps \<and> sh_stderr r' = sh_stderr r @ stream_text H Stderr ps"
  unfolding assms(4) using assms(1-3)
proof (induction evs arbitrary: r)
  case (Cons ev evs)
  let ?r = "shell_step H c t m ev r" and ?left = "m - sh_bytesReturned r"
  have inv: "sh_settled ?r = None" "sh_bytesReturned ?r = min m (sh_bytesSeen ?r)"
    using Cons.prems by (cases ev; simp add: shell_append_fields)+
  obtain ps where ps: "cut_chunks (m - sh_bytesReturned ?r) (chunks evs) ps"
    "sh_stdout (shell_events H c t m evs ?r) = sh_stdout ?r @ stream_text H Stdout ps"
    "sh_stderr (shell_events H c t m evs ?r) = sh_stderr ?r @ stream_text H Stderr ps"
    using Cons.IH [OF _ inv] Cons.prems(1) by auto
  show ?case
  proof (cases ev)
    case (ChildData strm chunk)
    have "m - sh_bytesReturned ?r = ?left - length chunk" by (simp add: ChildData shell_append_fields)
    then have "cut_chunks ?left (chunks (ev # evs)) ((strm, take ?left chunk) # ps)"
      using ps(1) by (simp add: cut_chunks_def ChildData take_is_prefix)
    then show ?thesis using ps(2,3)
      by (intro exI [of _ "(strm, take ?left chunk) # ps"]) (simp add: ChildData shell_append_texts stream_text_def)
  next
    case TimerFired
    then show ?thesis using ps Cons.prems(2) by auto
  qed (use Cons.prems(1) in simp_all)
qed (simp add: cut_chunks_def stream_text_def)

text \<open>
  C38. A shell command settles once, and its output is bounded. The first of the events \<^verbatim>\<open>error\<close> and \<^verbatim>\<open>close\<close> decides,
  whatever comes after it; without one the call does not return. A closed process gives the texts of both streams: they are
  decoded from the chunks that came before, cut so that all of them together are the first bytes up to the limit, and since decoding
  never makes more characters than bytes, both texts together are no longer than the limit. The result counts the bytes kept and the rest as
  omitted and is marked truncated exactly when there is a rest; it is a success exactly when the process closed with code 0
  and the timer had not fired before.
\<close>

theorem shell_settles_once:
  assumes pre: "list_all (\<lambda>ev. \<not> terminal ev) pre" and seen: "seen = sum_list (map data_bytes pre)"
    and decode: "\<And>b. length (hs_toString H b) \<le> length b"
  shows "sh_settled (shell_events H command t m pre shell_run0) = None
    \<and> (terminal ev \<longrightarrow> (\<exists>res. sh_settled (shell_events H command t m (pre @ ev # post) shell_run0) = Some res
        \<and> (case tr_output res of
             None \<Rightarrow> \<exists>msg ms. ev = ChildError msg ms
           | Some out \<Rightarrow> (\<exists>ms. ev = ChildClose (so_exitCode out) ms) \<and> length (so_stdout out) + length (so_stderr out) \<le> m
               \<and> (\<exists>ps. cut_chunks m (chunks pre) ps \<and> so_stdout out = stream_text H Stdout ps \<and> so_stderr out = stream_text H Stderr ps))
        \<and> md_bytesReturned (tr_metadata res) = Some (min m seen)
        \<and> md_omittedBytes (tr_metadata res) = Some (seen - m)
        \<and> md_truncated (tr_metadata res) = (m < seen)
        \<and> (tr_status res = Succeeded \<longleftrightarrow> (\<exists>ms. ev = ChildClose (Some 0) ms) \<and> TimerFired \<notin> set pre)))"
proof -
  define r where "r = shell_events H command t m pre shell_run0"
  have r: "sh_settled r = None" "sh_bytesSeen r = seen" "sh_bytesReturned r = min m seen" "sh_timedOut r = (TimerFired \<in> set pre)"
    using shell_open [OF pre _ _ r_def] by (simp_all add: r_def seen shell_run0_def)
  obtain ps where ps: "cut_chunks m (chunks pre) ps" "sh_stdout r = stream_text H Stdout ps" "sh_stderr r = stream_text H Stderr ps"
    using shell_texts [OF pre _ _ r_def] by (auto simp: shell_run0_def)
  have out: "case tr_output res of
             None \<Rightarrow> \<exists>msg ms. ev = ChildError msg ms
           | Some out \<Rightarrow> (\<exists>ms. ev = ChildClose (so_exitCode out) ms) \<and> length (so_stdout out) + length (so_stderr out) \<le> m
               \<and> (\<exists>ps. cut_chunks m (chunks pre) ps \<and> so_stdout out = stream_text H Stdout ps \<and> so_stderr out = stream_text H Stderr ps)"
    if "terminal ev" "sh_settled (shell_step H command t m ev r) = Some res" for res
    using that r(1) ps stream_text_bound [OF decode ps(1)] by (cases ev) (auto simp: Let_def)
  have "\<exists>res. sh_settled (shell_step H command t m ev r) = Some res
        \<and> md_bytesReturned (tr_metadata res) = Some (min m seen) \<and> md_omittedBytes (tr_metadata res) = Some (seen - m)
        \<and> md_truncated (tr_metadata res) = (m < seen)
        \<and> (tr_status res = Succeeded \<longleftrightarrow> (\<exists>ms. ev = ChildClose (Some 0) ms) \<and> TimerFired \<notin> set pre)" if "terminal ev"
    using that r by (cases ev) (auto simp: shell_metadata_def Let_def min_def)
  then have res: "\<exists>res. sh_settled (shell_step H command t m ev r) = Some res \<and> (case tr_output res of
             None \<Rightarrow> \<exists>msg ms. ev = ChildError msg ms
           | Some out \<Rightarrow> (\<exists>ms. ev = ChildClose (so_exitCode out) ms) \<and> length (so_stdout out) + length (so_stderr out) \<le> m
               \<and> (\<exists>ps. cut_chunks m (chunks pre) ps \<and> so_stdout out = stream_text H Stdout ps \<and> so_stderr out = stream_text H Stderr ps))
        \<and> md_bytesReturned (tr_metadata res) = Some (min m seen) \<and> md_omittedBytes (tr_metadata res) = Some (seen - m)
        \<and> md_truncated (tr_metadata res) = (m < seen)
        \<and> (tr_status res = Succeeded \<longleftrightarrow> (\<exists>ms. ev = ChildClose (Some 0) ms) \<and> TimerFired \<notin> set pre)" if "terminal ev"
    using out that by blast
  have "sh_settled (shell_events H command t m (pre @ ev # post) shell_run0) = sh_settled (shell_step H command t m ev r)" if "terminal ev"
    using res [OF that] shell_settled_stays [of "shell_step H command t m ev r" _ H command t m post] by (auto simp: r_def)
  then show ?thesis using r(1) res unfolding r_def [symmetric] by simp
qed

lemma utf8_decode_length: "utf8_decode b = Some s \<Longrightarrow> length s \<le> length b"
proof (induction b arbitrary: s rule: utf8_decode.induct)
  case (2 b bs)
  then show ?case by (fastforce simp: Let_def split: if_splits list.splits)
qed simp

text \<open>A limit of 5 bytes: the first chunk fits, the second is cut, the third is lost.\<close>

theorem shell_settles_once_witness:
  "\<exists>res out. sh_settled (shell_events host0 ''ls'' 1000 5
         ([ChildData Stdout ''abc'', ChildData Stderr ''xyz'', ChildData Stdout ''d''] @ ChildClose (Some 0) 7 # [ChildError ''late'' 9]) shell_run0) = Some res
     \<and> tr_output res = Some out \<and> so_stdout out = ''abc'' \<and> so_stderr out = ''xy'' \<and> length (so_stdout out) + length (so_stderr out) \<le> 5
     \<and> md_bytesReturned (tr_metadata res) = Some 5 \<and> md_omittedBytes (tr_metadata res) = Some 2 \<and> tr_status res = Succeeded"
proof -
  let ?pre = "[ChildData Stdout ''abc'', ChildData Stderr ''xyz'', ChildData Stdout ''d'']"
  let ?r = "sh_settled (shell_events host0 ''ls'' 1000 5 (?pre @ ChildClose (Some 0) 7 # [ChildError ''late'' 9]) shell_run0)"
  have "length (hs_toString host0 b) \<le> length b" for b
    using utf8_decode_length [of b] by (simp add: host0_def split: option.split)
  note out = shell_settles_once [of ?pre 7 host0 "''ls''" 1000 5 "ChildClose (Some 0) 7" "[ChildError ''late'' 9]", OF _ _ this]
  have "map_option (\<lambda>res. map_option (\<lambda>out. (so_stdout out, so_stderr out)) (tr_output res)) ?r = Some (Some (''abc'', ''xy''))" by code_simp
  then obtain res o1 where r: "?r = Some res" "tr_output res = Some o1" "so_stdout o1 = ''abc''" "so_stderr o1 = ''xy''" by auto
  from out r(1,2) have "length (so_stdout o1) + length (so_stderr o1) \<le> 5" "md_bytesReturned (tr_metadata res) = Some 5"
    "md_omittedBytes (tr_metadata res) = Some 2" "tr_status res = Succeeded"
    by (simp_all del: fold.simps)
  then show ?thesis using r by (intro exI [of _ res] exI [of _ o1]) simp
qed

end
