(* ===== verification/ToolRunner.thy ===== *)
theory ToolRunner
  imports PatchTool SearchTool ShellTool Store
begin

text \<open>
  Running a tool call, \<^verbatim>\<open>packages/opencode-app/src/tools/tool-runner.ts\<close>, with the registry (\<^verbatim>\<open>tool-registry.ts\<close>), the
  todo and task tools, and the loop over the calls of a response (\<^verbatim>\<open>run-direct-command.ts\<close>). A call is looked up,
  parsed, checked against the permission policy and the write owner, dispatched and audited.

  The input schemas are those of the package \<^verbatim>\<open>zod\<close>: \<open>safeParse\<close> is the parser of the schema of a tool. It gives the
  messages of its issues or a value of the type that the schema describes, here a \<open>tool_input\<close> with the constructor of
  the tool.
\<close>

section \<open>Registry\<close>

datatype tool_category = CatRead | CatWrite | CatShell | CatTask | CatGraph

fun tool_text :: "tool_name \<Rightarrow> string" where
  "tool_text Read = ''read''" | "tool_text Write = ''write''" | "tool_text Edit = ''edit''" | "tool_text Shell = ''shell''"
| "tool_text Glob = ''glob''" | "tool_text Grep = ''grep''" | "tool_text ApplyPatch = ''apply_patch''"
| "tool_text Todo = ''todo''" | "tool_text Task = ''task''" | "tool_text SemanticSearch = ''semantic_search''"
| "tool_text GraphFindSymbol = ''graph_find_symbol''" | "tool_text GraphFindReferences = ''graph_find_references''"
| "tool_text GraphCallHierarchy = ''graph_call_hierarchy''" | "tool_text (CastName s) = s"

record tool_definition =
  td_name :: tool_name
  td_description :: string
  td_category :: tool_category
  td_defaultPermissionLevel :: permission_level
  td_streams :: bool
  td_executable :: bool

abbreviation tool_def :: "tool_name \<Rightarrow> string \<Rightarrow> tool_category \<Rightarrow> permission_level \<Rightarrow> bool \<Rightarrow> bool \<Rightarrow> tool_definition" where
  "tool_def n d c p s e \<equiv> \<lparr>td_name = n, td_description = d, td_category = c, td_defaultPermissionLevel = p,
     td_streams = s, td_executable = e\<rparr>"

definition TOOL_DEFINITIONS :: "tool_definition list" where
  "TOOL_DEFINITIONS =
     [tool_def Read ''Read a UTF-8 text file from the current repository.'' CatRead AutoApprove False True,
      tool_def Write ''Create or replace a UTF-8 text file in the current repository.'' CatWrite Ask False True,
      tool_def Edit ''Replace exact text in a repository file.'' CatWrite Ask False True,
      tool_def Shell ''Run a shell command through DH permission and bash guard policy.'' CatShell Ask True True,
      tool_def Glob ''Find repository files matching a glob-like pattern.'' CatRead AutoApprove False True,
      tool_def Grep ''Search repository text files for a literal or regex pattern.'' CatRead AutoApprove False True,
      tool_def ApplyPatch ''Apply a structured patch to repository files.'' CatWrite Ask False True,
      tool_def Todo ''Return a normalized non-persistent todo state for the current run.'' CatTask AutoApprove False True,
      tool_def Task ''Run a bounded subtask through an injected task executor.'' CatTask Ask True True,
      tool_def SemanticSearch ''Search DH semantic evidence for a query.'' CatRead AutoApprove False False,
      tool_def GraphFindSymbol ''Find a symbol through DH graph intelligence.'' CatGraph AutoApprove False False,
      tool_def GraphFindReferences ''Find symbol references through DH graph intelligence.'' CatGraph AutoApprove False False,
      tool_def GraphCallHierarchy ''Find call hierarchy through DH graph intelligence.'' CatGraph AutoApprove False False]"

definition getToolDefinition :: "string \<Rightarrow> tool_definition option" where
  "getToolDefinition toolName = List.find (\<lambda>d. tool_text (td_name d) = toolName) TOOL_DEFINITIONS"

section \<open>Inputs and outputs\<close>

datatype todo_status = TodoPending | TodoInProgress | TodoCompleted

record todo_item =
  ti_id :: "string option"
  ti_content :: string
  ti_status :: "todo_status option"

record todo_entry =
  te_id :: string
  te_content :: string
  te_status :: todo_status

record task_input =
  ki_prompt :: string
  ki_agentId :: "string option"
  ki_maxResultBytes :: "nat option"

record query_input =
  qi_query :: string
  qi_limit :: "nat option"

datatype tool_input =
    ReadIn read_input
  | WriteIn write_input
  | EditIn edit_input
  | ShellIn shell_input
  | GlobIn glob_input
  | GrepIn grep_input
  | ApplyPatchIn string
  | TodoIn "todo_item list"
  | TaskIn task_input
  | SemanticSearchIn query_input
  | GraphFindSymbolIn query_input
  | GraphFindReferencesIn query_input
  | GraphCallHierarchyIn query_input "string option"

fun input_tool :: "tool_input \<Rightarrow> tool_name" where
  "input_tool (ReadIn i) = Read" | "input_tool (WriteIn i) = Write" | "input_tool (EditIn i) = Edit"
| "input_tool (ShellIn i) = Shell" | "input_tool (GlobIn i) = Glob" | "input_tool (GrepIn i) = Grep"
| "input_tool (ApplyPatchIn p) = ApplyPatch" | "input_tool (TodoIn xs) = Todo" | "input_tool (TaskIn i) = Task"
| "input_tool (SemanticSearchIn q) = SemanticSearch" | "input_tool (GraphFindSymbolIn q) = GraphFindSymbol"
| "input_tool (GraphFindReferencesIn q) = GraphFindReferences" | "input_tool (GraphCallHierarchyIn q d) = GraphCallHierarchy"

datatype tool_output =
    ReadOut read_output
  | WriteOut write_output
  | EditOut edit_output
  | ShellOut shell_output
  | GlobOut "string list"
  | GrepOut "grep_match list"
  | ApplyPatchOut apply_patch_output
  | TodoOut "todo_entry list"
  | TaskOut string

definition wrap_output :: "('o \<Rightarrow> tool_output) \<Rightarrow> 'o tool_result \<Rightarrow> tool_output tool_result" where
  "wrap_output f r = \<lparr>tr_toolName = tr_toolName r, tr_status = tr_status r, tr_output = map_option f (tr_output r),
     tr_error = tr_error r, tr_metadata = tr_metadata r\<rparr>"

text \<open>\<^verbatim>\<open>parseToolInput\<close>, for a listed tool.\<close>

definition parseToolInput :: "(tool_name \<Rightarrow> json \<Rightarrow> string list + tool_input) \<Rightarrow> tool_name \<Rightarrow> json \<Rightarrow> string + tool_input" where
  "parseToolInput safeParse toolName input =
     (case safeParse toolName input of
        Inl issues \<Rightarrow> Inl (tool_text toolName @ '' input is invalid: '' @ js_join ''; '' issues)
      | Inr v \<Rightarrow> Inr v)"

section \<open>Todo and task\<close>

definition executeTodoTool :: "todo_item list \<Rightarrow> todo_entry list tool_result" where
  "executeTodoTool items =
     succeededResult Todo
       (map (\<lambda>(index, item). \<lparr>te_id = nullish (ti_id item) (''todo-'' @ show_nat (index + 1)), te_content = ti_content item,
            te_status = nullish (ti_status item) TodoPending\<rparr>) (enumerate 0 items))
       metadata0"

text \<open>The executor of subtasks is injected; it may change files, and it may throw.\<close>

type_synonym task_executor = "string \<Rightarrow> string option \<Rightarrow> filesystem \<Rightarrow> (string + string) \<times> filesystem"

definition executeTaskTool ::
  "host \<Rightarrow> task_executor option \<Rightarrow> task_input \<Rightarrow> filesystem \<Rightarrow> string tool_result outcome \<times> tool_event list \<times> filesystem" where
  "executeTaskTool H executor i fs =
     (case executor of
        None \<Rightarrow>
          (Returned \<lparr>tr_toolName = Task, tr_status = Unsupported, tr_output = None,
             tr_error = Some ''Task tool requires an injected task executor.'', tr_metadata = metadata0\<rparr>, [], fs)
      | Some run \<Rightarrow>
          (case run (ki_prompt i) (ki_agentId i) fs of
             (Inl e, fs') \<Rightarrow> (Thrown e, [], fs')
           | (Inr raw, fs') \<Rightarrow>
               let maxBytes = nullish (ki_maxResultBytes i) 16000;
                   buffer = utf8_encode raw;
                   returned = (if maxBytes < length buffer then take maxBytes buffer else buffer);
                   result = hs_toString H returned
               in (Returned (succeededResult Task result
                     (metadata0\<lparr>md_truncated := length returned < length buffer, md_bytesRead := Some (length buffer),
                        md_bytesReturned := Some (length returned),
                        md_omittedBytes := Some (length buffer - length returned)\<rparr>)),
                   [ToolDelta Task None result], fs')))"

section \<open>The runner\<close>

datatype audit_status = AuditCalled | AuditSucceeded | AuditFailed

record tool_usage_audit =
  ta_id :: string
  ta_sessionId :: string
  ta_envelopeId :: string
  ta_role :: agent_role
  ta_intent :: string
  ta_toolName :: string
  ta_status :: audit_status
  ta_timestamp :: timestamp

text \<open>What the runner is given: the host, the parser of the schemas, the language's \<^verbatim>\<open>RegExp\<close>, the shell of the system
  and the options of the runner.\<close>

record tool_runner =
  rn_host :: host
  rn_safeParse :: "tool_name \<Rightarrow> json \<Rightarrow> string list + tool_input"
  rn_RegExp :: "string \<Rightarrow> bool \<Rightarrow> (string \<Rightarrow> bool) option"
  rn_spawnShell :: "string \<Rightarrow> string \<Rightarrow> nat \<Rightarrow> filesystem \<Rightarrow> child_event list \<times> filesystem"
  rn_entropy :: entropy
  rn_repoRoot :: string
  rn_envelope :: execution_envelope
  rn_intent :: string
  rn_permissionOverrides :: "tool_name \<Rightarrow> permission_level option"
  rn_taskExecutor :: "task_executor option"

record runner_state =
  rs_files :: filesystem
  rs_events :: "tool_event list"
  rs_audit :: "tool_usage_audit list"
  rs_seq :: nat

text \<open>The id is the primary key of the audit table: a row with a used id is refused.\<close>

definition recordAudit :: "tool_runner \<Rightarrow> string \<Rightarrow> audit_status \<Rightarrow> runner_state \<Rightarrow> (string + unit) \<times> runner_state" where
  "recordAudit rn toolName status s =
     (let i = newId (rn_entropy rn) ''tool-audit'' (rs_seq s);
          row = \<lparr>ta_id = i, ta_sessionId = ee_sessionId (rn_envelope rn), ta_envelopeId = ee_id (rn_envelope rn),
            ta_role = ee_role (rn_envelope rn), ta_intent = rn_intent rn, ta_toolName = toolName, ta_status = status,
            ta_timestamp = clk (rn_entropy rn) (rs_seq s + 1)\<rparr>;
          s1 = s\<lparr>rs_seq := rs_seq s + 2\<rparr>
      in if i \<in> ta_id ` set (rs_audit s) then (Inl ''UNIQUE constraint failed: tool_usage_audit.id'', s1)
         else (Inr (), s1\<lparr>rs_audit := rs_audit s @ [row]\<rparr>))"

record tool_permission =
  tp_allowed :: bool
  tp_requiresPermission :: bool
  tp_reason :: string

definition evaluateToolPermission :: "tool_definition \<Rightarrow> permission_level \<Rightarrow> tool_permission" where
  "evaluateToolPermission d level =
     (let name = [CHR 0x27] @ tool_text (td_name d) @ [CHR 0x27] in
      if level = Deny then
        \<lparr>tp_allowed = False, tp_requiresPermission = False, tp_reason = ''Tool '' @ name @ '' is denied by permission policy.''\<rparr>
      else if level = Ask then
        \<lparr>tp_allowed = False, tp_requiresPermission = True, tp_reason = ''Tool '' @ name @ '' requires permission before execution.''\<rparr>
      else if level = Allow then
        \<lparr>tp_allowed = True, tp_requiresPermission = False, tp_reason = ''Tool explicitly allowed.''\<rparr>
      else if level = AutoApprove \<or> td_defaultPermissionLevel d = AutoApprove then
        \<lparr>tp_allowed = True, tp_requiresPermission = False, tp_reason = ''Tool auto-approved by policy.''\<rparr>
      else
        \<lparr>tp_allowed = False, tp_requiresPermission = True,
         tp_reason = ''Tool '' @ name @ '' requires permission before automatic execution.''\<rparr>)"

definition isWriteOwner :: "execution_envelope \<Rightarrow> bool" where
  "isWriteOwner e \<longleftrightarrow> ee_role e = RoleImplementer \<or> ee_agentId e = ''implementer'' \<or> ee_agentId e = ''fullstack_agent''"

definition unsupportedResult :: "tool_name \<Rightarrow> tool_output tool_result" where
  "unsupportedResult t =
     \<lparr>tr_toolName = t, tr_status = Unsupported, tr_output = None,
      tr_error = Some (''Tool '' @ [CHR 0x27] @ tool_text t @ [CHR 0x27] @ '' is catalogued but not executable in this milestone.''),
      tr_metadata = metadata0\<rparr>"

fun dispatch ::
  "tool_runner \<Rightarrow> permission_level \<Rightarrow> tool_input \<Rightarrow> filesystem \<Rightarrow> tool_output tool_result outcome \<times> tool_event list \<times> filesystem" where
  "dispatch rn level (ReadIn i) fs =
     (Returned (wrap_output ReadOut (executeReadTool (rn_host rn) (rn_repoRoot rn) i fs)), [], fs)"
| "dispatch rn level (WriteIn i) fs =
     (let (r, fs') = executeWriteTool (rn_host rn) (rn_repoRoot rn) i fs in (Returned (wrap_output WriteOut r), [], fs'))"
| "dispatch rn level (EditIn i) fs =
     (let (r, fs') = executeEditTool (rn_host rn) (rn_repoRoot rn) i fs in (Returned (wrap_output EditOut r), [], fs'))"
| "dispatch rn level (GlobIn i) fs =
     (Returned (wrap_output GlobOut (executeGlobTool (rn_host rn) (rn_repoRoot rn) i fs)), [], fs)"
| "dispatch rn level (GrepIn i) fs =
     (Returned (wrap_output GrepOut (executeGrepTool (rn_host rn) (rn_RegExp rn) (rn_repoRoot rn) i fs)), [], fs)"
| "dispatch rn level (ShellIn i) fs =
     (let (r, evs, fs') = executeShellTool (rn_host rn) (rn_spawnShell rn) (rn_repoRoot rn) i level fs
      in (map_outcome (wrap_output ShellOut) r, evs, fs'))"
| "dispatch rn level (TodoIn items) fs = (Returned (wrap_output TodoOut (executeTodoTool items)), [], fs)"
| "dispatch rn level (TaskIn i) fs =
     (let (r, evs, fs') = executeTaskTool (rn_host rn) (rn_taskExecutor rn) i fs in (map_outcome (wrap_output TaskOut) r, evs, fs'))"
| "dispatch rn level (ApplyPatchIn patch) fs =
     (let (r, fs') = executeApplyPatchTool (rn_host rn) (rn_repoRoot rn) patch fs in (Returned (wrap_output ApplyPatchOut r), [], fs'))"
| "dispatch rn level i fs = (Returned (unsupportedResult (input_tool i)), [], fs)"

text \<open>An audit row that cannot be written ends the run with its error.\<close>

definition audited ::
  "tool_runner \<Rightarrow> string \<Rightarrow> audit_status \<Rightarrow> (runner_state \<Rightarrow> 'r outcome \<times> runner_state) \<Rightarrow> runner_state \<Rightarrow> 'r outcome \<times> runner_state" where
  "audited rn toolName status k s =
     (case recordAudit rn toolName status s of (Inl e, s') \<Rightarrow> (Thrown e, s') | (Inr u, s') \<Rightarrow> k s')"

definition emit :: "tool_event list \<Rightarrow> runner_state \<Rightarrow> runner_state" where
  "emit evs s = s\<lparr>rs_events := rs_events s @ evs\<rparr>"

definition run_tool :: "tool_runner \<Rightarrow> string \<Rightarrow> json \<Rightarrow> runner_state \<Rightarrow> tool_output tool_result outcome \<times> runner_state" where
  "run_tool rn toolName rawInput s =
     (case getToolDefinition toolName of
        None \<Rightarrow>
          audited rn toolName AuditFailed
            (\<lambda>s. (Returned (failedResult (CastName toolName) (''Unknown tool '' @ [CHR 0x27] @ toolName @ [CHR 0x27] @ ''.'')), s)) s
      | Some d \<Rightarrow>
          audited rn (tool_text (td_name d)) AuditCalled (\<lambda>s.
            case parseToolInput (rn_safeParse rn) (td_name d) rawInput of
              Inl e \<Rightarrow> audited rn (tool_text (td_name d)) AuditFailed (\<lambda>s. (Returned (failedResult (td_name d) e), s)) s
            | Inr input \<Rightarrow>
                let level = nullish (rn_permissionOverrides rn (td_name d)) (td_defaultPermissionLevel d);
                    permission = evaluateToolPermission d level
                in if \<not> tp_allowed permission then
                     let s1 = (if tp_requiresPermission permission
                               then emit [PermissionRequested (td_name d) level (tp_reason permission)] s else s)
                     in audited rn (tool_text (td_name d)) AuditFailed
                          (\<lambda>s. (Returned \<lparr>tr_toolName = td_name d,
                             tr_status = (if tp_requiresPermission permission then PermissionRequired else Failed),
                             tr_output = None, tr_error = Some (tp_reason permission), tr_metadata = metadata0\<rparr>, s)) s1
                   else if td_category d = CatWrite \<and> \<not> isWriteOwner (rn_envelope rn) then
                     audited rn (tool_text (td_name d)) AuditFailed
                       (\<lambda>s. (Returned (failedResult (td_name d)
                          ''Only the Fullstack Agent can execute write tools; reviewer, tester, and read-only roles must report findings through artifacts.''), s)) s
                   else
                     let s1 = emit [ToolStarted (td_name d)] s;
                         (r, evs, fs') = dispatch rn level input (rs_files s1);
                         s2 = (emit evs s1)\<lparr>rs_files := fs'\<rparr>
                     in case r of
                          Thrown e \<Rightarrow> (Thrown e, s2)
                        | Pending \<Rightarrow> (Pending, s2)
                        | Returned result \<Rightarrow>
                            let s3 = emit [ToolFinished (td_name d) (tr_status result) (tr_metadata result)] s2 in
                            audited rn (tool_text (td_name d)) (if tr_status result = Succeeded then AuditSucceeded else AuditFailed)
                              (\<lambda>s. (Returned result, s)) s3) s)"

text \<open>The calls of one response, in order; an exception or a call that does not return ends the loop.\<close>

fun runToolCalls ::
  "tool_runner \<Rightarrow> (string \<times> json) list \<Rightarrow> tool_output tool_result list \<Rightarrow> runner_state \<Rightarrow>
   tool_output tool_result list outcome \<times> runner_state" where
  "runToolCalls rn [] results s = (Returned results, s)"
| "runToolCalls rn ((name, input) # calls) results s =
     (case run_tool rn name input s of
        (Returned r, s') \<Rightarrow> runToolCalls rn calls (results @ [r]) s'
      | (Thrown e, s') \<Rightarrow> (Thrown e, s')
      | (Pending, s') \<Rightarrow> (Pending, s'))"

section \<open>What a call may change\<close>

lemma audited_cases:
  assumes "audited rn t st k s = (out, s')"
  obtains (refused) "rs_files s' = rs_files s"
  | (written) s1 where "rs_files s1 = rs_files s" "k s1 = (out, s')"
proof (cases "fst (recordAudit rn t st s)")
  case (Inl e)
  then show thesis using assms refused by (auto simp: audited_def recordAudit_def Let_def split: if_splits)
next
  case (Inr u)
  let ?s1 = "snd (recordAudit rn t st s)"
  have "k ?s1 = (out, s')" using assms Inr by (cases "recordAudit rn t st s") (simp add: audited_def)
  moreover have "rs_files ?s1 = rs_files s" by (simp add: recordAudit_def Let_def)
  ultimately show thesis using written by blast
qed

lemma audited_return: "audited rn t st (Pair x) s = (out, s') \<Longrightarrow> rs_files s' = rs_files s"
  by (erule audited_cases) auto

lemma emit_files [simp]: "rs_files (emit evs s) = rs_files s"
  by (simp add: emit_def)

text \<open>The policy's answer to a call: the tool, its input and the permission level under which it is dispatched.\<close>

definition cleared :: "tool_runner \<Rightarrow> string \<Rightarrow> json \<Rightarrow> tool_definition \<Rightarrow> tool_input \<Rightarrow> permission_level \<Rightarrow> bool" where
  "cleared rn name rawInput d input level \<longleftrightarrow>
     getToolDefinition name = Some d \<and> parseToolInput (rn_safeParse rn) (td_name d) rawInput = Inr input
     \<and> level = nullish (rn_permissionOverrides rn (td_name d)) (td_defaultPermissionLevel d)
     \<and> (level = Allow \<or> level = AutoApprove) \<and> (td_category d = CatWrite \<longrightarrow> isWriteOwner (rn_envelope rn))"

lemma permission_levels:
  "tp_allowed (evaluateToolPermission d level) \<longleftrightarrow> level = Allow \<or> level = AutoApprove"
  "tp_requiresPermission (evaluateToolPermission d level) \<longleftrightarrow> level = Ask"
  by (cases level; simp add: evaluateToolPermission_def Let_def)+

lemma run_tool_files:
  assumes "run_tool rn name rawInput s = (out, s')"
  shows "rs_files s' = rs_files s
    \<or> (\<exists>d input level. cleared rn name rawInput d input level \<and> rs_files s' = snd (snd (dispatch rn level input (rs_files s))))"
proof (cases "getToolDefinition name")
  case None
  then show ?thesis using assms by (auto simp: run_tool_def dest: audited_return)
next
  case (Some d)
  note run = assms [unfolded run_tool_def Some option.case]
  from run show ?thesis
  proof (cases rule: audited_cases)
    case (written s1)
    let ?level = "nullish (rn_permissionOverrides rn (td_name d)) (td_defaultPermissionLevel d)"
    show ?thesis
    proof (cases "parseToolInput (rn_safeParse rn) (td_name d) rawInput")
      case (Inl e)
      then show ?thesis using written by (auto dest: audited_return)
    next
      case (Inr input)
      show ?thesis
      proof (cases "tp_allowed (evaluateToolPermission d ?level) \<and> \<not> (td_category d = CatWrite \<and> \<not> isWriteOwner (rn_envelope rn))")
        case True
        then have cl: "cleared rn name rawInput d input ?level" using Some Inr by (simp add: cleared_def permission_levels)
        obtain r evs fs' where dsp: "dispatch rn ?level input (rs_files s1) = (r, evs, fs')" by (cases "dispatch rn ?level input (rs_files s1)")
        have "rs_files s' = fs'"
          using written(2) True unfolding Inr Let_def sum.case
          by (cases r) (auto simp: dsp dest!: audited_return)
        then have "rs_files s' = snd (snd (dispatch rn ?level input (rs_files s)))" using dsp written(1) by simp
        with cl show ?thesis by blast
      next
        case False
        then have "rs_files s' = rs_files s1"
          using written(2) unfolding Inr Let_def sum.case
          by (auto split: if_splits dest!: audited_return)
        then show ?thesis using written(1) by simp
      qed
    qed
  qed simp
qed

lemma getToolDefinition_name: "getToolDefinition name = Some d \<Longrightarrow> tool_text (td_name d) = name"
  by (auto simp: getToolDefinition_def find_Some_iff)

lemma write_category:
  "getToolDefinition name = Some d \<Longrightarrow> td_category d = CatWrite \<longleftrightarrow> td_name d = Write \<or> td_name d = Edit \<or> td_name d = ApplyPatch"
proof -
  assume "getToolDefinition name = Some d"
  then have "d \<in> set TOOL_DEFINITIONS" by (auto simp: getToolDefinition_def find_Some_iff)
  then show ?thesis by (auto simp: TOOL_DEFINITIONS_def)
qed

lemma dispatch_contained:
  assumes "input_tool input \<noteq> Shell" "input_tool input \<noteq> Task"
  shows "contained (root_segs (rn_host rn) (rn_repoRoot rn)) fs (snd (snd (dispatch rn level input fs)))"
  using assms write_tool.inside edit_tool.inside patch_tool.inside by (cases input) (simp_all add: case_prod_beta)

lemma dispatch_read_only:
  assumes "input_tool input \<notin> {Write, Edit, ApplyPatch, Shell, Task}"
  shows "snd (snd (dispatch rn level input fs)) = fs"
  using assms by (cases input) auto

lemma dispatch_shell:
  "snd (snd (dispatch rn level (ShellIn i) fs)) \<noteq> fs \<Longrightarrow> gd_allowed (evaluateShellPermission (si_command i) level)"
  by (auto simp: executeShellTool_def Let_def split: prod.splits if_splits)

lemma dispatch_task: "snd (snd (dispatch rn level (TaskIn i) fs)) \<noteq> fs \<Longrightarrow> rn_taskExecutor rn \<noteq> None"
  by (cases "rn_taskExecutor rn") (simp_all add: executeTaskTool_def)

text \<open>The calls that may change files: a write tool for the write owner, a shell command that the guard lets through, and a
  task with an executor.\<close>

definition may_change :: "tool_runner \<Rightarrow> tool_definition \<Rightarrow> tool_input \<Rightarrow> permission_level \<Rightarrow> bool" where
  "may_change rn d input level =
     (case input of
        ShellIn i \<Rightarrow> gd_allowed (evaluateShellPermission (si_command i) level)
      | TaskIn i \<Rightarrow> rn_taskExecutor rn \<noteq> None
      | _ \<Rightarrow> td_name d \<in> {Write, Edit, ApplyPatch} \<and> isWriteOwner (rn_envelope rn))"

text \<open>The parser of a schema gives values of the type of the schema.\<close>

definition typed_inputs :: "tool_runner \<Rightarrow> bool" where
  "typed_inputs rn \<longleftrightarrow> (\<forall>n j v. rn_safeParse rn n j = Inr v \<longrightarrow> input_tool v = n)"

text \<open>A call that the policy clears and that may change files.\<close>

definition call_may_change :: "tool_runner \<Rightarrow> string \<times> json \<Rightarrow> bool" where
  "call_may_change rn call \<longleftrightarrow> (\<exists>d input level. cleared rn (fst call) (snd call) d input level \<and> may_change rn d input level)"

lemma run_tool_changes:
  assumes typed: "typed_inputs rn"
    and run: "run_tool rn name rawInput s = (out, s')" and changed: "rs_files s' \<noteq> rs_files s"
  shows "call_may_change rn (name, rawInput)
     \<and> (name \<noteq> ''shell'' \<longrightarrow> name \<noteq> ''task'' \<longrightarrow> contained (root_segs (rn_host rn) (rn_repoRoot rn)) (rs_files s) (rs_files s'))"
proof -
  obtain d input level where c: "cleared rn name rawInput d input level"
    and fs: "rs_files s' = snd (snd (dispatch rn level input (rs_files s)))"
    using run_tool_files [OF run] changed by blast
  have tool: "input_tool input = td_name d"
    using c typed by (auto simp: typed_inputs_def cleared_def parseToolInput_def split: sum.splits)
  have d: "getToolDefinition name = Some d" using c by (simp add: cleared_def)
  have wr: "isWriteOwner (rn_envelope rn)" if "td_name d \<in> {Write, Edit, ApplyPatch}"
    using c that write_category [OF d] by (auto simp: cleared_def)
  have "may_change rn d input level"
    using tool changed wr dispatch_read_only [of input rn level "rs_files s"] unfolding fs may_change_def
    by (cases input) (auto simp del: dispatch.simps dest: dispatch_shell dispatch_task)
  moreover have "contained (root_segs (rn_host rn) (rn_repoRoot rn)) (rs_files s) (rs_files s')"
    if "name \<noteq> ''shell''" "name \<noteq> ''task''"
  proof -
    have "td_name d \<noteq> Shell" "td_name d \<noteq> Task" using getToolDefinition_name [OF d] that by auto
    then show ?thesis unfolding fs using dispatch_contained tool by simp
  qed
  ultimately show ?thesis using c by (auto simp: call_may_change_def)
qed

text \<open>A shell command or a task that the policy lets run.\<close>

abbreviation outside_call :: "tool_runner \<Rightarrow> string \<times> json \<Rightarrow> bool" where
  "outside_call rn call \<equiv> fst call \<in> {''shell'', ''task''} \<and> call_may_change rn call"

lemma runToolCalls_changes:
  assumes typed: "typed_inputs rn" and "runToolCalls rn calls results s = (out, s')"
  shows "(rs_files s' = rs_files s \<or> (\<exists>call \<in> set calls. call_may_change rn call))
    \<and> (contained (root_segs (rn_host rn) (rn_repoRoot rn)) (rs_files s) (rs_files s') \<or> (\<exists>call \<in> set calls. outside_call rn call))"
  using assms(2)
proof (induction calls arbitrary: results s)
  case (Cons call calls)
  obtain name rawInput where call: "call = (name, rawInput)" by (cases call)
  obtain r s1 where r: "run_tool rn name rawInput s = (r, s1)" by (cases "run_tool rn name rawInput s")
  let ?R = "root_segs (rn_host rn) (rn_repoRoot rn)"
  have first: "rs_files s1 = rs_files s \<or> call_may_change rn call"
    "contained ?R (rs_files s) (rs_files s1) \<or> outside_call rn call"
    using run_tool_changes [OF typed r] unfolding call by (blast, cases "rs_files s1 = rs_files s") auto
  consider x where "r = Returned x" "runToolCalls rn calls (results @ [x]) s1 = (out, s')" | "s' = s1"
    using Cons.prems r by (cases r) (auto simp: call)
  then show ?case
  proof cases
    case 1
    from Cons.IH [OF 1(2)] first contained_trans show ?thesis by auto
  next
    case 2
    then show ?thesis using first by auto
  qed
qed simp

section \<open>Auditing\<close>

text \<open>The ids of the next audit rows are not in use.\<close>

definition fresh_audit :: "tool_runner \<Rightarrow> runner_state \<Rightarrow> bool" where
  "fresh_audit rn s \<longleftrightarrow> inj (rnd (rn_entropy rn))
     \<and> (\<forall>n \<ge> rs_seq s. newId (rn_entropy rn) ''tool-audit'' n \<notin> ta_id ` set (rs_audit s))"

abbreviation audit_trail :: "runner_state \<Rightarrow> (string \<times> audit_status) list" where
  "audit_trail s \<equiv> map (\<lambda>r. (ta_toolName r, ta_status r)) (rs_audit s)"

lemma audited_fresh:
  assumes "fresh_audit rn s"
  obtains s1 where "\<And>k. audited rn t st k s = k s1" "fresh_audit rn s1" "audit_trail s1 = audit_trail s @ [(t, st)]" "rs_events s1 = rs_events s"
proof
  let ?s1 = "snd (recordAudit rn t st s)"
  have new: "newId (rn_entropy rn) ''tool-audit'' (rs_seq s) \<notin> ta_id ` set (rs_audit s)" using assms by (simp add: fresh_audit_def)
  then have ok: "recordAudit rn t st s = (Inr (), ?s1)" by (simp add: recordAudit_def Let_def)
  show "\<And>k. audited rn t st k s = k ?s1" by (subst audited_def, subst ok) simp
  have inj: "newId (rn_entropy rn) ''tool-audit'' m \<noteq> newId (rn_entropy rn) ''tool-audit'' n" if "m \<noteq> n" for m n
    using assms that by (simp add: fresh_audit_def newId_def inj_eq)
  show "fresh_audit rn ?s1" using assms new inj by (auto simp: fresh_audit_def recordAudit_def Let_def)
  show "audit_trail ?s1 = audit_trail s @ [(t, st)]" "rs_events ?s1 = rs_events s" using new by (simp_all add: recordAudit_def Let_def)
qed

lemma fresh_emit [simp]: "fresh_audit rn (emit evs s) = fresh_audit rn s" "fresh_audit rn (s\<lparr>rs_files := fs\<rparr>) = fresh_audit rn s"
  by (simp_all add: fresh_audit_def emit_def)

lemma emit_audit [simp]: "rs_audit (emit evs s) = rs_audit s"
  by (simp add: emit_def)

lemma run_tool_audit:
  assumes fresh: "fresh_audit rn s" and run: "run_tool rn name rawInput s = (out, s')"
  shows "fresh_audit rn s' \<and> audit_trail s' = audit_trail s @
     (if getToolDefinition name = None then [(name, AuditFailed)]
      else (name, AuditCalled) # (case out of
        Returned r \<Rightarrow> [(name, if tr_status r = Succeeded then AuditSucceeded else AuditFailed)] | _ \<Rightarrow> []))"
proof (cases "getToolDefinition name")
  case None
  from fresh obtain s1 where s1: "\<And>k :: runner_state \<Rightarrow> tool_output tool_result outcome \<times> runner_state. audited rn name AuditFailed k s = k s1" "fresh_audit rn s1" "audit_trail s1 = audit_trail s @ [(name, AuditFailed)]"
    by (rule audited_fresh [of rn s name AuditFailed]) blast
  show ?thesis using run s1 by (simp add: run_tool_def None s1(1))
next
  case (Some d)
  have nm: "tool_text (td_name d) = name" by (rule getToolDefinition_name [OF Some])
  from fresh obtain s1 where s1: "\<And>k :: runner_state \<Rightarrow> tool_output tool_result outcome \<times> runner_state. audited rn name AuditCalled k s = k s1"
    "fresh_audit rn s1" "audit_trail s1 = audit_trail s @ [(name, AuditCalled)]"
    by (rule audited_fresh [of rn s name AuditCalled]) blast
  have fin: "fresh_audit rn s' \<and> audit_trail s' = audit_trail s @ [(name, AuditCalled), (name, st)] \<and> out = Returned x"
    if "fresh_audit rn s2" "audit_trail s2 = audit_trail s1" "audited rn name st (Pair (Returned x)) s2 = (out, s')" for st x s2
  proof -
    from that(1) obtain s3 where "\<And>k :: runner_state \<Rightarrow> tool_output tool_result outcome \<times> runner_state. audited rn name st k s2 = k s3"
      "fresh_audit rn s3" "audit_trail s3 = audit_trail s2 @ [(name, st)]"
      by (rule audited_fresh [of rn s2 name st]) blast
    then show ?thesis using that s1 by auto
  qed
  note run' = run [unfolded run_tool_def Some option.case nm s1(1)]
  let ?level = "nullish (rn_permissionOverrides rn (td_name d)) (td_defaultPermissionLevel d)"
  show ?thesis
  proof (cases "parseToolInput (rn_safeParse rn) (td_name d) rawInput")
    case (Inl e)
    then show ?thesis using run' by (auto simp: Some failedResult_def dest!: fin [OF s1(2) refl])
  next
    case (Inr input)
    show ?thesis
    proof (cases "tp_allowed (evaluateToolPermission d ?level) \<and> \<not> (td_category d = CatWrite \<and> \<not> isWriteOwner (rn_envelope rn))")
      case False
      then show ?thesis
        using run' s1(2) unfolding Inr Let_def sum.case
        by (auto simp: Some failedResult_def split: if_splits dest!: fin [rotated 2])
    next
      case True
      obtain r evs fs' where dsp: "dispatch rn ?level input (rs_files s1) = (r, evs, fs')" by (cases "dispatch rn ?level input (rs_files s1)")
      show ?thesis
      proof (cases r)
        case (Returned x)
        then show ?thesis
          using run' True s1(2) unfolding Inr Let_def sum.case
          by (auto simp: Some dsp split: if_splits dest!: fin [rotated 2])
      qed (use run' True s1 in \<open>auto simp: Inr Let_def Some dsp\<close>)
    qed
  qed
qed

section \<open>Tool calls\<close>

text \<open>
  C6. The calls of a response change files only as the policy says. If a file is different afterwards, one of the
  calls was cleared (its tool is listed, its input valid, its permission level allows it) and is a write tool of
  the write owner, a shell command that the guard lets through, or a task with an executor. If something outside the repository
  is different, or anything at all for an envelope that is not the write owner, then one of the calls was such a shell command or task: the
  other tools alone stay inside the repository and write for the write owner only. What a shell command or a task does is not
  bounded, and the files have no symbolic links, so that a path inside the repository names a file inside it.
\<close>

theorem tool_calls_follow_policy:
  assumes "typed_inputs rn" and "runToolCalls rn calls [] s = (out, s')"
  shows "(rs_files s' = rs_files s \<or> (\<exists>call \<in> set calls. call_may_change rn call))
    \<and> (contained (root_segs (rn_host rn) (rn_repoRoot rn)) (rs_files s) (rs_files s') \<or> (\<exists>call \<in> set calls. outside_call rn call))
    \<and> (isWriteOwner (rn_envelope rn) \<or> rs_files s' = rs_files s \<or> (\<exists>call \<in> set calls. outside_call rn call))"
proof -
  have owner: "isWriteOwner (rn_envelope rn)" if c: "call_may_change rn call" and n: "fst call \<notin> {''shell'', ''task''}" for call
  proof -
    obtain d input level where d: "cleared rn (fst call) (snd call) d input level" "may_change rn d input level"
      using c by (auto simp: call_may_change_def)
    have "input_tool input = td_name d" "tool_text (td_name d) = fst call"
      using d(1) assms(1) getToolDefinition_name by (auto simp: cleared_def typed_inputs_def parseToolInput_def split: sum.splits)
    then have "input_tool input \<noteq> Shell" "input_tool input \<noteq> Task" using n by auto
    then show ?thesis using d(2) by (cases input) (auto simp: may_change_def)
  qed
  show ?thesis using runToolCalls_changes [OF assms] owner by blast
qed

text \<open>
  C35. Every call leaves its trace in the audit table: a call of an unknown tool one failed row, any other call a row when
  it starts and, when it returns, a second row that says whether it succeeded. A call that throws or does not
  return has only the first. Earlier rows stay, and the ids of later rows are still free.
\<close>

theorem tool_calls_are_audited:
  assumes "fresh_audit rn s" and "run_tool rn name rawInput s = (out, s')"
  shows "fresh_audit rn s' \<and> audit_trail s' = audit_trail s @
     (if getToolDefinition name = None then [(name, AuditFailed)]
      else (name, AuditCalled) # (case out of
        Returned r \<Rightarrow> [(name, if tr_status r = Succeeded then AuditSucceeded else AuditFailed)] | _ \<Rightarrow> []))"
  using assms by (rule run_tool_audit)

section \<open>Witnesses\<close>

definition envelope0 :: execution_envelope where
  "envelope0 = \<lparr>ee_id = ''env'', ee_sessionId = ''s'', ee_lane = LaneQuick, ee_role = RoleTester, ee_agentId = ''tester'',
     ee_stage = ''quick_execute'', ee_workItemId = None,
     ee_resolvedModel = \<lparr>rm_providerId = ''p'', rm_modelId = ''m'', rm_variantId = ''v''\<rparr>,
     ee_activeSkills = [], ee_activeMcps = [], ee_requiredTools = [], ee_semanticMode = SemAuto, ee_createdAt = ''t''\<rparr>"

text \<open>A tester whose every call is allowed, with a parser that knows one write.\<close>

definition runner0 :: tool_runner where
  "runner0 = \<lparr>rn_host = host0,
     rn_safeParse = (\<lambda>n j. if n = Write then Inr (WriteIn \<lparr>wi_path = ''g'', wi_content = ''x'', wi_createDirs = None\<rparr>) else Inl [''no'']),
     rn_RegExp = (\<lambda>p c. None), rn_spawnShell = (\<lambda>c d t fs. ([], fs)),
     rn_entropy = \<lparr>rnd = (\<lambda>n. replicate n CHR ''x''), clk = (\<lambda>n. ''t'')\<rparr>, rn_repoRoot = ''/r'', rn_envelope = envelope0,
     rn_intent = ''test'', rn_permissionOverrides = (\<lambda>t. Some Allow), rn_taskExecutor = None\<rparr>"

definition state0 :: runner_state where
  "state0 = \<lparr>rs_files = fs0, rs_events = [], rs_audit = [], rs_seq = 0\<rparr>"

theorem tool_calls_follow_policy_witness:
  "rs_files (snd (runToolCalls runner0 [(''write'', JNull), (''shell'', JNull)] [] state0)) = fs0"
proof -
  let ?calls = "[(''write'', JNull), (''shell'', JNull)]"
  have "typed_inputs runner0" by (auto simp: typed_inputs_def runner0_def)
  moreover have "\<not> isWriteOwner (rn_envelope runner0)" by (simp add: isWriteOwner_def runner0_def envelope0_def)
  moreover have "\<not> call_may_change runner0 (''shell'', JNull)"
  proof -
    have "map_option td_name (getToolDefinition ''shell'') = Some Shell" by code_simp
    then show ?thesis by (auto simp: call_may_change_def cleared_def parseToolInput_def runner0_def)
  qed
  ultimately show ?thesis
    using tool_calls_follow_policy [of runner0 ?calls state0 "fst (runToolCalls runner0 ?calls [] state0)" "snd (runToolCalls runner0 ?calls [] state0)"]
    by (simp add: state0_def)
qed

theorem tool_calls_are_audited_witness:
  "audit_trail (snd (run_tool runner0 ''nothing'' JNull state0)) = [(''nothing'', AuditFailed)]"
proof -
  have inj: "inj (\<lambda>n. replicate n CHR ''x'')" by (rule injI) (metis length_replicate)
  have "getToolDefinition ''nothing'' = None" by code_simp
  then show ?thesis
    using tool_calls_are_audited [of runner0 state0 "''nothing''" JNull "fst (run_tool runner0 ''nothing'' JNull state0)"
        "snd (run_tool runner0 ''nothing'' JNull state0)"] inj
    by (simp add: fresh_audit_def runner0_def state0_def)
qed

end
