(* ===== verification/DetectProjects.thy ===== *)
theory DetectProjects
  imports FileTools
begin

text \<open>
  Workspace detection, \<^verbatim>\<open>packages/intelligence/src/workspace/detect-projects.ts\<close>: the directories with a marker file, the
  innermost ones among them, and the bounded scan of the files of each. The file system is that of
  \<open>TextFiles\<close>, which has no links, so \<^verbatim>\<open>followSymlinks\<close> has no effect. \<open>scan_env\<close> holds the process environment, the
  collation of \<^verbatim>\<open>localeCompare\<close> and SHA-256 as a hexadecimal text.
\<close>

section \<open>Data\<close>

record scan_env =
  sc_host :: host
  sc_ck :: collation
  sc_sha256 :: "string \<Rightarrow> string"

abbreviation sc_cwd :: "scan_env \<Rightarrow> string" where
  "sc_cwd E \<equiv> hs_cwd (sc_host E)"

datatype scan_stop = NoStop | MaxFilesReached | MaxDepthReached | MaxFileSizeScanStopped | ScanIoError

record scan_diagnostics =
  dg_filesVisited :: nat
  dg_filesIndexed :: nat
  dg_filesIgnored :: nat
  dg_dirsSkipped :: nat
  dg_errors :: nat
  dg_stopReason :: scan_stop

datatype index_status = IxIndexed | IxPending | IxIgnored

record indexed_file =
  xf_id :: string
  xf_path :: string
  xf_extension :: string
  xf_language :: string
  xf_sizeBytes :: nat
  xf_status :: index_status
  xf_ignoredReason :: "string option"
  xf_workspaceRoot :: "string option"

record workspace_markers =
  wm_hasPackageJson :: bool
  wm_hasCargoToml :: bool

record indexed_workspace =
  iw_root :: string
  iw_type :: string
  iw_files :: "indexed_file list"
  iw_diagnostics :: "scan_diagnostics option"
  iw_markers :: "workspace_markers option"
  iw_partial :: "bool option"

record scan_options =
  so_maxFiles :: nat
  so_maxDepth :: nat
  so_maxFileSizeBytes :: nat
  so_followSymlinks :: bool
  so_includeExtensions :: "string list"
  so_ignoreDirs :: "string list"

definition IGNORED_DIRECTORIES :: "string list" where
  "IGNORED_DIRECTORIES = [''.git'', ''node_modules'', ''.dh'', ''dist'']"

definition INDEXABLE_EXTENSIONS :: "(string, string) js_map" where
  "INDEXABLE_EXTENSIONS = [(''.ts'', ''typescript''), (''.tsx'', ''tsx''), (''.js'', ''javascript''), (''.jsx'', ''jsx''),
     (''.json'', ''json''), (''.md'', ''markdown''), (''.go'', ''go'')]"

definition DEFAULT_SCAN_OPTIONS :: scan_options where
  "DEFAULT_SCAN_OPTIONS = \<lparr>so_maxFiles = 10000, so_maxDepth = 32, so_maxFileSizeBytes = 1048576, so_followSymlinks = False,
     so_includeExtensions = map fst INDEXABLE_EXTENSIONS, so_ignoreDirs = IGNORED_DIRECTORIES\<rparr>"

text \<open>The optional settings of a caller.\<close>

record scan_request =
  sq_maxFiles :: "nat option"
  sq_maxDepth :: "nat option"
  sq_maxFileSizeBytes :: "nat option"
  sq_followSymlinks :: "bool option"
  sq_includeExtensions :: "string list option"
  sq_ignoreDirs :: "string list option"

definition resolveOptions :: "scan_request option \<Rightarrow> scan_options" where
  "resolveOptions options =
     (case options of
        None \<Rightarrow> DEFAULT_SCAN_OPTIONS
      | Some q \<Rightarrow> \<lparr>so_maxFiles = nullish (sq_maxFiles q) (so_maxFiles DEFAULT_SCAN_OPTIONS),
          so_maxDepth = nullish (sq_maxDepth q) (so_maxDepth DEFAULT_SCAN_OPTIONS),
          so_maxFileSizeBytes = nullish (sq_maxFileSizeBytes q) (so_maxFileSizeBytes DEFAULT_SCAN_OPTIONS),
          so_followSymlinks = nullish (sq_followSymlinks q) (so_followSymlinks DEFAULT_SCAN_OPTIONS),
          so_includeExtensions = nullish (sq_includeExtensions q) (so_includeExtensions DEFAULT_SCAN_OPTIONS),
          so_ignoreDirs = nullish (sq_ignoreDirs q) (so_ignoreDirs DEFAULT_SCAN_OPTIONS)\<rparr>)"

section \<open>The scan of one workspace\<close>

text \<open>\<^verbatim>\<open>path.extname\<close> of a name without slashes: from the last dot, unless that is the first character.\<close>

definition path_extname :: "string \<Rightarrow> string" where
  "path_extname s =
     (let ext = rev (takeWhile (\<lambda>c. c \<noteq> CHR ''.'') (rev s)) in
      if CHR ''.'' \<notin> set s \<or> length s = length ext + 1 \<or> s = ''..'' then [] else CHR ''.'' # ext)"

text \<open>\<^verbatim>\<open>fs.readdir(path, { withFileTypes: true })\<close>.\<close>

definition readdir :: "host \<Rightarrow> filesystem \<Rightarrow> string \<Rightarrow> (string \<times> fs_node) list option" where
  "readdir H fs p =
     (let k = resolve_segs (hs_cwd H) p in
      if map_of fs k = Some DirNode
      then Some (map (\<lambda>(q, n). (last q, n)) (filter (\<lambda>(q, n). q \<noteq> [] \<and> butlast q = k) fs))
      else None)"

definition stat :: "host \<Rightarrow> filesystem \<Rightarrow> string \<Rightarrow> fs_node option" where
  "stat H fs p = map_of fs (resolve_segs (hs_cwd H) p)"

fun node_size :: "fs_node \<Rightarrow> nat" where
  "node_size (FileNode b) = length b"
| "node_size DirNode = 0"

definition stableFileId :: "scan_env \<Rightarrow> string \<Rightarrow> string \<Rightarrow> string" where
  "stableFileId E workspaceRoot relativePath = ''file-'' @ take 12 (sc_sha256 E (workspaceRoot @ ''::'' @ relativePath))"

type_synonym scan_state = "indexed_file list \<times> scan_diagnostics"

definition diagnostics0 :: scan_diagnostics where
  "diagnostics0 = \<lparr>dg_filesVisited = 0, dg_filesIndexed = 0, dg_filesIgnored = 0, dg_dirsSkipped = 0, dg_errors = 0, dg_stopReason = NoStop\<rparr>"

text \<open>One entry that is not a directory.\<close>

definition scan_file :: "scan_env \<Rightarrow> filesystem \<Rightarrow> scan_options \<Rightarrow> string \<Rightarrow> string \<Rightarrow> string \<Rightarrow> scan_state \<Rightarrow> scan_state" where
  "scan_file E fs opts root entryName absolutePath st =
     (let (files, d0) = st;
          d = d0\<lparr>dg_filesVisited := dg_filesVisited d0 + 1\<rparr>;
          extension = path_extname entryName
      in case (if extension \<in> set (so_includeExtensions opts) then map_of INDEXABLE_EXTENSIONS extension else None) of
           None \<Rightarrow> (files, d\<lparr>dg_filesIgnored := dg_filesIgnored d + 1\<rparr>)
         | Some language \<Rightarrow>
             (case stat (sc_host E) fs absolutePath of
                None \<Rightarrow> (files, d\<lparr>dg_errors := dg_errors d + 1\<rparr>)
              | Some n \<Rightarrow>
                  if so_maxFileSizeBytes opts < node_size n
                  then (files, d\<lparr>dg_filesIgnored := dg_filesIgnored d + 1, dg_stopReason := MaxFileSizeScanStopped\<rparr>)
                  else
                    (case toWorkspaceRelativePath (sc_cwd E) root absolutePath of
                       None \<Rightarrow> (files, d\<lparr>dg_filesIgnored := dg_filesIgnored d + 1\<rparr>)
                     | Some relativePath \<Rightarrow>
                         let files' = files @ [\<lparr>xf_id = stableFileId E root relativePath, xf_path = relativePath,
                               xf_extension = extension, xf_language = language, xf_sizeBytes = node_size n,
                               xf_status = IxIndexed, xf_ignoredReason = None, xf_workspaceRoot = Some root\<rparr>];
                             d' = d\<lparr>dg_filesIndexed := dg_filesIndexed d + 1\<rparr>
                         in (files', if so_maxFiles opts \<le> length files' then d'\<lparr>dg_stopReason := MaxFilesReached\<rparr> else d'))))"

function (sequential) scan_walk :: "scan_env \<Rightarrow> filesystem \<Rightarrow> scan_options \<Rightarrow> string \<Rightarrow> string \<Rightarrow> nat \<Rightarrow> scan_state \<Rightarrow> scan_state"
and scan_entries :: "scan_env \<Rightarrow> filesystem \<Rightarrow> scan_options \<Rightarrow> string \<Rightarrow> string \<Rightarrow> nat \<Rightarrow> (string \<times> fs_node) list \<Rightarrow> scan_state \<Rightarrow> scan_state"
where
  "scan_walk E fs opts root scanPath depth st =
     (if dg_stopReason (snd st) \<noteq> NoStop then st
      else if so_maxDepth opts < depth
      then (fst st, (snd st)\<lparr>dg_stopReason := MaxDepthReached, dg_dirsSkipped := dg_dirsSkipped (snd st) + 1\<rparr>)
      else
        (case readdir (sc_host E) fs scanPath of
           None \<Rightarrow> (fst st, (snd st)\<lparr>dg_errors := dg_errors (snd st) + 1, dg_stopReason := ScanIoError\<rparr>)
         | Some entries \<Rightarrow> scan_entries E fs opts root scanPath depth entries st))"
| "scan_entries E fs opts root scanPath depth [] st = st"
| "scan_entries E fs opts root scanPath depth ((entryName, node) # entries) st =
     (if dg_stopReason (snd st) \<noteq> NoStop then st
      else
        let absolutePath = path_join scanPath entryName;
            skip = (fst st, (snd st)\<lparr>dg_dirsSkipped := dg_dirsSkipped (snd st) + 1\<rparr>)
        in scan_entries E fs opts root scanPath depth entries
             (case node of
                DirNode \<Rightarrow>
                  if entryName \<in> set (so_ignoreDirs opts) then skip
                  else if \<not> isPathWithinWorkspace (sc_cwd E) root absolutePath then skip
                  else scan_walk E fs opts root absolutePath (depth + 1) st
              | FileNode b \<Rightarrow> scan_file E fs opts root entryName absolutePath st))"
  by pat_completeness auto
termination
  by (relation "measures [\<lambda>x. case x of Inl (E, fs, opts, root, p, d, st) \<Rightarrow> Suc (so_maxDepth opts) - d
      | Inr (E, fs, opts, root, p, d, es, st) \<Rightarrow> so_maxDepth opts - d,
    \<lambda>x. case x of Inl y \<Rightarrow> 0 | Inr (E, fs, opts, root, p, d, es, st) \<Rightarrow> Suc (length es)]") auto

definition collectFiles :: "scan_env \<Rightarrow> filesystem \<Rightarrow> scan_options \<Rightarrow> string \<Rightarrow> string \<Rightarrow> scan_state" where
  "collectFiles E fs opts root currentPath =
     (let (files, d) = scan_walk E fs opts root currentPath 0 ([], diagnostics0) in (sort_key (\<lambda>f. sc_ck E (xf_path f)) files, d))"

definition markerExists :: "host \<Rightarrow> filesystem \<Rightarrow> string \<Rightarrow> bool" where
  "markerExists H fs filePath = (case stat H fs filePath of Some (FileNode b) \<Rightarrow> True | _ \<Rightarrow> False)"

definition detectWorkspaceMarkers :: "host \<Rightarrow> filesystem \<Rightarrow> string \<Rightarrow> workspace_markers" where
  "detectWorkspaceMarkers H fs root =
     \<lparr>wm_hasPackageJson = markerExists H fs (path_join root ''package.json''),
      wm_hasCargoToml = markerExists H fs (path_join root ''Cargo.toml'')\<rparr>"

definition detectWorkspaceType :: "workspace_markers \<Rightarrow> string" where
  "detectWorkspaceType markers =
     (if wm_hasPackageJson markers then ''node'' else if wm_hasCargoToml markers then ''rust'' else ''unknown'')"

definition buildWorkspace :: "scan_env \<Rightarrow> filesystem \<Rightarrow> scan_options \<Rightarrow> string \<Rightarrow> indexed_workspace" where
  "buildWorkspace E fs opts workspaceRoot =
     (let markers = detectWorkspaceMarkers (sc_host E) fs workspaceRoot;
          (files, d) = collectFiles E fs opts workspaceRoot workspaceRoot
      in \<lparr>iw_root = workspaceRoot, iw_type = detectWorkspaceType markers, iw_files = files, iw_diagnostics = Some d,
          iw_markers = Some markers, iw_partial = Some (dg_stopReason d \<noteq> NoStop)\<rparr>)"

section \<open>The roots\<close>

text \<open>\<^verbatim>\<open>discovered\<close> is a set in insertion order.\<close>

function (sequential) discover_walk :: "host \<Rightarrow> filesystem \<Rightarrow> scan_options \<Rightarrow> string \<Rightarrow> string \<Rightarrow> nat \<Rightarrow> string list \<Rightarrow> string list"
and discover_entries :: "host \<Rightarrow> filesystem \<Rightarrow> scan_options \<Rightarrow> string \<Rightarrow> string \<Rightarrow> nat \<Rightarrow> (string \<times> fs_node) list \<Rightarrow> string list \<Rightarrow> string list"
where
  "discover_walk H fs opts repoRoot scanPath depth discovered =
     (if so_maxDepth opts < depth then discovered
      else if \<not> isPathWithinWorkspace (hs_cwd H) repoRoot scanPath then discovered
      else
        let markers = detectWorkspaceMarkers H fs scanPath;
            discovered1 = (if wm_hasCargoToml markers \<or> wm_hasPackageJson markers
              then List.insert (canonicalizeAbsolutePath (hs_cwd H) scanPath) discovered else discovered)
        in case readdir H fs scanPath of
             None \<Rightarrow> discovered1
           | Some entries \<Rightarrow> discover_entries H fs opts repoRoot scanPath depth entries discovered1)"
| "discover_entries H fs opts repoRoot scanPath depth [] discovered = discovered"
| "discover_entries H fs opts repoRoot scanPath depth ((entryName, node) # entries) discovered =
     discover_entries H fs opts repoRoot scanPath depth entries
       (if node \<noteq> DirNode then discovered
        else if entryName \<in> set (so_ignoreDirs opts) then discovered
        else
          let absolutePath = path_join scanPath entryName in
          if \<not> isPathWithinWorkspace (hs_cwd H) repoRoot absolutePath then discovered
          else discover_walk H fs opts repoRoot absolutePath (depth + 1) discovered)"
  by pat_completeness auto
termination
  by (relation "measures [\<lambda>x. case x of Inl (H, fs, opts, root, p, d, st) \<Rightarrow> Suc (so_maxDepth opts) - d
      | Inr (H, fs, opts, root, p, d, es, st) \<Rightarrow> so_maxDepth opts - d,
    \<lambda>x. case x of Inl y \<Rightarrow> 0 | Inr (H, fs, opts, root, p, d, es, st) \<Rightarrow> Suc (length es)]") auto

definition discoverWorkspaceRootsByMarkers :: "host \<Rightarrow> filesystem \<Rightarrow> scan_options \<Rightarrow> string \<Rightarrow> string list" where
  "discoverWorkspaceRootsByMarkers H fs opts repoRoot = rev (discover_walk H fs opts repoRoot repoRoot 0 [])"

definition finalizeWorkspaceRoots :: "collation \<Rightarrow> string \<Rightarrow> string \<Rightarrow> string list \<Rightarrow> string list" where
  "finalizeWorkspaceRoots ck cwd repoRoot roots =
     (let canonicalRepoRoot = canonicalizeAbsolutePath cwd repoRoot;
          inRepo = filter (isPathWithinWorkspace cwd canonicalRepoRoot) (map (canonicalizeAbsolutePath cwd) roots);
          deduped = sort_key ck (js_unique inRepo);
          leafRoots = filter (\<lambda>candidate. \<not> list_ex (\<lambda>other. other \<noteq> candidate \<and> isSameOrParentPath cwd candidate other) deduped) deduped
      in sort_key ck leafRoots)"

definition detectProjects :: "scan_env \<Rightarrow> filesystem \<Rightarrow> string \<Rightarrow> scan_request option \<Rightarrow> indexed_workspace list" where
  "detectProjects E fs repoRoot options =
     (let workspaceRoot = canonicalizeAbsolutePath (sc_cwd E) repoRoot;
          scanOptions = resolveOptions options;
          candidateRoots = discoverWorkspaceRootsByMarkers (sc_host E) fs scanOptions workspaceRoot;
          workspaceRoots = finalizeWorkspaceRoots (sc_ck E) (sc_cwd E) workspaceRoot candidateRoots
      in if workspaceRoots = [] then [buildWorkspace E fs scanOptions workspaceRoot]
         else map (buildWorkspace E fs scanOptions) workspaceRoots)"

declare scan_walk.simps [simp del] scan_entries.simps [simp del] discover_walk.simps [simp del] discover_entries.simps [simp del]

section \<open>Paths of clean segments\<close>

text \<open>A segment that no path function changes, and a file system of such names, each with one entry.\<close>

definition clean_seg :: "string \<Rightarrow> bool" where
  "clean_seg s \<longleftrightarrow> seg_ok s \<and> CHR 0x5C \<notin> set s \<and> CHR 0x00 \<notin> set s"

definition clean_fs :: "filesystem \<Rightarrow> bool" where
  "clean_fs fs \<longleftrightarrow> wf_fs fs \<and> distinct (map fst fs) \<and> (\<forall>k \<in> fst ` set fs. list_all clean_seg k)"

lemma clean_segs_ok: "list_all clean_seg k \<Longrightarrow> list_all seg_ok k"
  by (auto simp: list_all_iff clean_seg_def)

lemma resolve_absolute_text [simp]: "list_all clean_seg k \<Longrightarrow> resolve_segs cwd (absolute_text k) = k"
  unfolding absolute_text_def by (rule resolve_join [OF clean_segs_ok])

lemma canonical_absolute_text [simp]: "list_all clean_seg k \<Longrightarrow> canonicalizeAbsolutePath cwd (absolute_text k) = absolute_text k"
  using join_no_backslash [of k] by (simp add: canonical_text list_all_iff clean_seg_def) (simp add: absolute_text_def)

lemma csegs_absolute_text [simp]: "list_all clean_seg k \<Longrightarrow> csegs cwd (absolute_text k) = k"
  by (simp add: csegs_def)

lemma within_absolute_text [simp]:
  "list_all clean_seg k \<Longrightarrow> list_all clean_seg q \<Longrightarrow> isPathWithinWorkspace cwd (absolute_text k) (absolute_text q) \<longleftrightarrow> prefix k q"
  by (simp add: within_iff_prefix)

lemma join_append: "ss \<noteq> [] \<Longrightarrow> ts \<noteq> [] \<Longrightarrow> js_join sep (ss @ ts) = js_join sep ss @ sep @ js_join sep ts"
  by (induction sep ss rule: js_join.induct) (auto simp: js_join_Cons)

lemma normalize_absolute_segs:
  assumes ok: "list_all seg_ok (k @ ns)" and ne: "ns \<noteq> []"
  shows "path_normalize (absolute_text k @ ''/'' @ js_join ''/'' ns) = absolute_text (k @ ns)"
proof -
  let ?p = "absolute_text k @ ''/'' @ js_join ''/'' ns"
  note ok = ok ok [unfolded list_all_append, THEN conjunct2]
  have split: "js_split (js_join ''/'' q) ''/'' = q" if "list_all seg_ok q" "q \<noteq> []" for q
    by (rule split_join) (use that in \<open>auto simp: list_all_iff seg_ok_def\<close>)
  have sp: "norm_segs False (js_split ?p ''/'') = k @ ns"
  proof (cases "k = []")
    case True
    have "js_split ?p ''/'' = [] # [] # ns"
      using True split_slash [of "''/'' @ js_join ''/'' ns"] split_slash [of "js_join ''/'' ns"] split [OF ok(2) ne] by (simp add: absolute_text_def)
    then show ?thesis using True norm_segs_id [OF ok(2)] by (simp add: norm_segs_Nil)
  next
    case False
    have "?p = ''/'' @ js_join ''/'' (k @ ns)" using False ne by (simp add: absolute_text_def join_append)
    then show ?thesis using norm_segs_id [OF ok(1)] split_slash split [OF ok(1)] ne by (simp add: norm_segs_Nil)
  qed
  obtain l n where ns: "ns = l @ [n]" using ne by (cases ns rule: rev_cases) auto
  have n: "n \<noteq> []" "CHR ''/'' \<notin> set n" using ok(2) by (auto simp: ns seg_ok_def)
  have "\<exists>t. ?p = t @ n" using ns by (cases "l = []") (auto simp: join_append)
  then have "\<not> js_endsWith ?p ''/''" using n by (auto simp: js_endsWith_iff) (metis last_appendR last_in_set last_snoc)
  moreover have "isAbsolute ?p" "?p \<noteq> []" by (simp_all add: absolute_text_def isAbsolute_def js_startsWith_def)
  moreover have "js_join ''/'' (k @ ns) \<noteq> []" using ns n by (cases "k @ l = []") (auto simp: join_append [of "k @ l" "[n]", simplified])
  ultimately show ?thesis
    by (simp only: path_normalize_def if_False Let_def sp if_True simp_thms absolute_text_def [of "k @ ns"]) simp
qed

lemma normalize_absolute_text:
  "list_all clean_seg (k @ ns) \<Longrightarrow> ns \<noteq> [] \<Longrightarrow> path_normalize (absolute_text k @ ''/'' @ js_join ''/'' ns) = absolute_text (k @ ns)"
  by (rule normalize_absolute_segs [OF clean_segs_ok])

lemma path_join_absolute_text [simp]:
  assumes "list_all clean_seg k" "clean_seg n"
  shows "path_join (absolute_text k) n = absolute_text (k @ [n])"
  using normalize_absolute_text [of k "[n]"] assms by (simp add: path_join_def absolute_text_def clean_seg_def seg_ok_def)

lemma relative_absolute_text:
  assumes "list_all clean_seg (k @ s)" "s \<noteq> []"
  shows "toWorkspaceRelativePath cwd (absolute_text k) (absolute_text (k @ s)) = Some (js_join ''/'' s)"
proof -
  obtain x xs where s: "s = x # xs" using assms(2) by (cases s) auto
  have c: "list_all clean_seg k" "list_all clean_seg s" using assms by auto
  have "normalizePathSlashes (path_relative cwd (canonicalizeAbsolutePath cwd (absolute_text k)) (canonicalizeAbsolutePath cwd (absolute_text (k @ s)))) = js_join ''/'' s"
    by (rule canonical_relative(1)) (use assms c in simp)
  then show ?thesis
    using join_seg [of x xs] clean_segs_ok [OF c(2)] by (simp add: toWorkspaceRelativePath_def Let_def s)
qed

lemma join_inj: "list_all clean_seg s \<Longrightarrow> list_all clean_seg t \<Longrightarrow> s \<noteq> [] \<Longrightarrow> t \<noteq> [] \<Longrightarrow> js_join ''/'' s = js_join ''/'' t \<Longrightarrow> s = t"
proof -
  have "js_split (js_join ''/'' u) ''/'' = u" if "list_all clean_seg u" "u \<noteq> []" for u
    by (rule split_join) (use that in \<open>auto simp: list_all_iff clean_seg_def seg_ok_def\<close>)
  then show "list_all clean_seg s \<Longrightarrow> list_all clean_seg t \<Longrightarrow> s \<noteq> [] \<Longrightarrow> t \<noteq> [] \<Longrightarrow> js_join ''/'' s = js_join ''/'' t \<Longrightarrow> s = t"
    by metis
qed

section \<open>What a scan finds\<close>

definition index_language :: "scan_options \<Rightarrow> string \<Rightarrow> string option" where
  "index_language opts name =
     (if path_extname name \<in> set (so_includeExtensions opts) then map_of INDEXABLE_EXTENSIONS (path_extname name) else None)"

text \<open>The files below \<open>R\<close> that a scan is meant to index, as the segments after \<open>R\<close>.\<close>

definition indexable :: "scan_options \<Rightarrow> filesystem \<Rightarrow> string list \<Rightarrow> string list \<Rightarrow> bool" where
  "indexable opts fs R u \<longleftrightarrow> u \<noteq> [] \<and> (\<exists>b. map_of fs (R @ u) = Some (FileNode b) \<and> length b \<le> so_maxFileSizeBytes opts)
     \<and> index_language opts (last u) \<noteq> None \<and> (\<forall>x \<in> set (butlast u). x \<notin> set (so_ignoreDirs opts))"

definition within_limit :: "scan_options \<Rightarrow> scan_state \<Rightarrow> bool" where
  "within_limit opts st \<longleftrightarrow>
     length (fst st) \<le> so_maxFiles opts \<and> (dg_stopReason (snd st) = NoStop \<longrightarrow> length (fst st) < so_maxFiles opts)"

text \<open>A step of the scan adds files of \<open>A\<close>, all of them unless it stops, and keeps to the limit.\<close>

definition scan_adds :: "scan_options \<Rightarrow> string list set \<Rightarrow> scan_state \<Rightarrow> scan_state \<Rightarrow> bool" where
  "scan_adds opts A st st' \<longleftrightarrow>
     (\<exists>new. fst st' = fst st @ new \<and> distinct (map xf_path new) \<and> set (map xf_path new) \<subseteq> js_join ''/'' ` A
        \<and> (dg_stopReason (snd st') = NoStop \<longrightarrow> set (map xf_path new) = js_join ''/'' ` A))
     \<and> (dg_stopReason (snd st) \<noteq> NoStop \<longrightarrow> dg_stopReason (snd st') \<noteq> NoStop)
     \<and> (within_limit opts st \<longrightarrow> within_limit opts st')"

lemma scan_adds_nothing:
  "fst st' = fst st \<Longrightarrow> (dg_stopReason (snd st') = NoStop \<Longrightarrow> A = {} \<and> dg_stopReason (snd st) = NoStop) \<Longrightarrow> scan_adds opts A st st'"
  by (auto simp: scan_adds_def within_limit_def)

lemma scan_adds_trans:
  assumes "scan_adds opts A st st1" "scan_adds opts B st1 st2" "js_join ''/'' ` A \<inter> js_join ''/'' ` B = {}"
  shows "scan_adds opts (A \<union> B) st st2"
proof -
  obtain new1 where n1: "fst st1 = fst st @ new1" "distinct (map xf_path new1)" "set (map xf_path new1) \<subseteq> js_join ''/'' ` A"
    "dg_stopReason (snd st1) = NoStop \<longrightarrow> set (map xf_path new1) = js_join ''/'' ` A"
    using assms(1) unfolding scan_adds_def by blast
  obtain new2 where n2: "fst st2 = fst st1 @ new2" "distinct (map xf_path new2)" "set (map xf_path new2) \<subseteq> js_join ''/'' ` B"
    "dg_stopReason (snd st2) = NoStop \<longrightarrow> set (map xf_path new2) = js_join ''/'' ` B"
    using assms(2) unfolding scan_adds_def by blast
  have stop: "dg_stopReason (snd st1) \<noteq> NoStop \<longrightarrow> dg_stopReason (snd st2) \<noteq> NoStop" using assms(2) unfolding scan_adds_def by blast
  have "fst st2 = fst st @ new1 @ new2 \<and> distinct (map xf_path (new1 @ new2)) \<and> set (map xf_path (new1 @ new2)) \<subseteq> js_join ''/'' ` (A \<union> B)
      \<and> (dg_stopReason (snd st2) = NoStop \<longrightarrow> set (map xf_path (new1 @ new2)) = js_join ''/'' ` (A \<union> B))"
  proof (intro conjI impI)
    show "distinct (map xf_path (new1 @ new2))" using n1(2,3) n2(2,3) assms(3) by fastforce
    show "set (map xf_path (new1 @ new2)) \<subseteq> js_join ''/'' ` (A \<union> B)" using n1(3) n2(3) by auto
    assume "dg_stopReason (snd st2) = NoStop"
    then show "set (map xf_path (new1 @ new2)) = js_join ''/'' ` (A \<union> B)"
      using n1(4) n2(4) stop by (simp add: image_Un)
  qed (simp add: n1 n2)
  then have "\<exists>new. fst st2 = fst st @ new \<and> distinct (map xf_path new) \<and> set (map xf_path new) \<subseteq> js_join ''/'' ` (A \<union> B)
      \<and> (dg_stopReason (snd st2) = NoStop \<longrightarrow> set (map xf_path new) = js_join ''/'' ` (A \<union> B))" by (rule exI)
  then show ?thesis using assms(1,2) unfolding scan_adds_def by simp
qed

lemma clean_fs_entry: "clean_fs fs \<Longrightarrow> map_of fs k = Some n \<Longrightarrow> list_all clean_seg k"
  by (auto simp: clean_fs_def dest: map_of_SomeD)

lemma scan_file_adds:
  assumes fs: "clean_fs fs" and e: "map_of fs (R @ u) = Some (FileNode b)" "u \<noteq> []" and ig: "\<forall>x \<in> set (butlast u). x \<notin> set (so_ignoreDirs opts)"
    and go: "dg_stopReason (snd st) = NoStop"
  shows "scan_adds opts {v. v = u \<and> indexable opts fs R v} st (scan_file E fs opts (absolute_text R) (last u) (absolute_text (R @ u)) st)"
proof -
  have c: "list_all clean_seg (R @ u)" "list_all clean_seg R" using clean_fs_entry [OF fs e(1)] by auto
  obtain files d where st: "st = (files, d)" by (cases st)
  have lang: "(if path_extname (last u) \<in> set (so_includeExtensions opts) then map_of INDEXABLE_EXTENSIONS (path_extname (last u)) else None) = index_language opts (last u)"
    by (simp add: index_language_def)
  have s: "stat (sc_host E) fs (absolute_text (R @ u)) = Some (FileNode b)" using e c by (simp add: stat_def)
  have ix: "{v. v = u \<and> indexable opts fs R v} = (if index_language opts (last u) \<noteq> None \<and> length b \<le> so_maxFileSizeBytes opts then {u} else {})"
    using e ig by (auto simp: indexable_def)
  show ?thesis
  proof (cases "index_language opts (last u)")
    case None
    then show ?thesis using go unfolding ix by (intro scan_adds_nothing) (simp_all add: scan_file_def st lang Let_def)
  next
    case (Some language)
    show ?thesis
    proof (cases "so_maxFileSizeBytes opts < length b")
      case True
      then show ?thesis using go Some by (intro scan_adds_nothing) (simp_all add: scan_file_def st lang Let_def s)
    next
      case False
      then show ?thesis
        using go Some e(2) unfolding ix scan_adds_def within_limit_def
        by (auto simp: scan_file_def st lang Let_def s relative_absolute_text [OF c(1)] split: if_splits)
    qed
  qed
qed

lemma readdir_entries:
  assumes fs: "clean_fs fs" and k: "list_all clean_seg k" and es: "readdir H fs (absolute_text k) = Some es"
  shows "distinct (map fst es)" and "(name, node) \<in> set es \<longleftrightarrow> map_of fs (k @ [name]) = Some node" and "map_of fs k = Some DirNode"
proof -
  let ?l = "filter (\<lambda>(q, n). q \<noteq> [] \<and> butlast q = k) fs"
  have e: "es = map (\<lambda>(q, n). (last q, n)) ?l" and d: "map_of fs k = Some DirNode"
    using es k by (auto simp: readdir_def Let_def split: if_splits)
  show "map_of fs k = Some DirNode" by (rule d)
  have dist: "distinct (map fst fs)" using fs by (simp add: clean_fs_def)
  have q: "q = k @ [last q]" if "(q, n) \<in> set ?l" for q n using that append_butlast_last_id [of q] by auto
  have "inj_on (last \<circ> fst) (set ?l)"
  proof (rule inj_onI)
    fix x y assume xy: "x \<in> set ?l" "y \<in> set ?l" "(last \<circ> fst) x = (last \<circ> fst) y"
    then have "fst x = fst y" using q [of "fst x" "snd x"] q [of "fst y" "snd y"] by simp
    moreover have "x \<in> set fs" "y \<in> set fs" using xy by auto
    ultimately show "x = y" using dist by (metis eq_key_imp_eq_value prod.collapse)
  qed
  moreover have "distinct ?l" using dist by (simp add: distinct_map)
  ultimately show "distinct (map fst es)" by (simp add: e distinct_map comp_def case_prod_beta)
  have "(name, node) \<in> set es \<longleftrightarrow> (k @ [name], node) \<in> set fs"
    using q by (force simp: e image_iff)
  then show "(name, node) \<in> set es \<longleftrightarrow> map_of fs (k @ [name]) = Some node" using dist by (simp add: map_of_eq_Some_iff)
qed

lemma file_has_no_below:
  assumes "clean_fs fs" "map_of fs k = Some (FileNode b)" "map_of fs (k @ s) = Some n"
  shows "s = []"
proof (rule ccontr)
  assume "s \<noteq> []"
  then have "map_of fs (take (length k) (k @ s)) = Some DirNode" using assms by (intro wf_fsD [of fs "k @ s" n]) (auto simp: clean_fs_def)
  then show False using assms(2) by simp
qed

lemma entries_below:
  assumes fs: "clean_fs fs" and u: "indexable opts fs R u" "strict_prefix t u" and k: "list_all clean_seg (R @ t)"
    and es: "readdir H fs (absolute_text (R @ t)) = Some es"
  shows "\<exists>name \<in> fst ` set es. prefix (t @ [name]) u"
proof -
  obtain x xs where x: "u = t @ x # xs" using u(2) by (auto elim: strict_prefixE')
  obtain b where b: "map_of fs (R @ u) = Some (FileNode b)" using u(1) by (auto simp: indexable_def)
  have "\<exists>n. map_of fs (R @ t @ [x]) = Some n"
  proof (cases xs)
    case (Cons y ys)
    then have "map_of fs (take (length (R @ t @ [x])) (R @ u)) = Some DirNode"
      using fs b x by (intro wf_fsD [of fs "R @ u" "FileNode b"]) (auto simp: clean_fs_def)
    then show ?thesis using x by simp
  qed (use b x in simp)
  then have "x \<in> fst ` set es" using readdir_entries(2) [OF fs k es, of x] by (force simp: image_iff)
  then show ?thesis using x by auto
qed

definition below :: "scan_options \<Rightarrow> filesystem \<Rightarrow> string list \<Rightarrow> string list \<Rightarrow> string list set" where
  "below opts fs R t = {u. indexable opts fs R u \<and> prefix t u}"

lemma below_disjoint:
  assumes fs: "clean_fs fs" and "a \<notin> B"
  shows "js_join ''/'' ` below opts fs R (t @ [a]) \<inter> js_join ''/'' ` (\<Union>b \<in> B. below opts fs R (t @ [b])) = {}"
proof -
  have cl: "list_all clean_seg u \<and> u \<noteq> []" if "indexable opts fs R u" for u
    using that clean_fs_entry [OF fs, of "R @ u"] by (auto simp: indexable_def)
  have "u \<noteq> v" if "prefix (t @ [a]) u" "prefix (t @ [b]) v" "b \<in> B" for u v b
    using that assms(2) by (auto simp: prefix_def)
  then show ?thesis
    using join_inj cl unfolding below_def by blast
qed

lemma scan_adds_below:
  "clean_fs fs \<Longrightarrow> root = absolute_text R \<Longrightarrow> p = absolute_text (R @ t) \<Longrightarrow> list_all clean_seg (R @ t)
     \<Longrightarrow> \<forall>x \<in> set t. x \<notin> set (so_ignoreDirs opts)
     \<Longrightarrow> scan_adds opts {u. indexable opts fs R u \<and> strict_prefix t u} st (scan_walk E fs opts root p depth st)"
  "clean_fs fs \<Longrightarrow> root = absolute_text R \<Longrightarrow> p = absolute_text (R @ t) \<Longrightarrow> list_all clean_seg (R @ t)
     \<Longrightarrow> \<forall>x \<in> set t. x \<notin> set (so_ignoreDirs opts)
     \<Longrightarrow> distinct (map fst es) \<Longrightarrow> \<forall>(name, node) \<in> set es. map_of fs (R @ t @ [name]) = Some node
     \<Longrightarrow> scan_adds opts (\<Union>name \<in> fst ` set es. below opts fs R (t @ [name])) st (scan_entries E fs opts root p depth es st)"
proof (induction E fs opts root p depth st and E fs opts root p depth es st arbitrary: t and t rule: scan_walk_scan_entries.induct)
  case (1 E fs opts root p depth st)
  note w = scan_walk.simps [of E fs opts root p depth st]
  show ?case
  proof (cases "dg_stopReason (snd st) = NoStop \<and> depth \<le> so_maxDepth opts \<and> readdir (sc_host E) fs p \<noteq> None")
    case True
    then obtain es where es: "readdir (sc_host E) fs p = Some es" by auto
    have pth: "list_all clean_seg (R @ t)" using "1.prems" by simp
    note ents = readdir_entries [OF "1.prems"(1) pth, of "sc_host E" es, folded "1.prems"(3), OF es]
    have "(\<Union>name \<in> fst ` set es. below opts fs R (t @ [name])) = {u. indexable opts fs R u \<and> strict_prefix t u}"
      using entries_below [OF "1.prems"(1) _ _ pth es [unfolded "1.prems"(3)]]
      by (fastforce simp: below_def strict_prefix_def prefix_def)
    then show ?thesis
      using "1.IH" [of es, OF _ _ es "1.prems" ents(1)] True es ents(2) unfolding w by auto
  next
    case False
    then show ?thesis unfolding w by (intro scan_adds_nothing) (auto split: option.splits if_splits)
  qed
next
  case (2 E fs opts root p depth st)
  then show ?case by (simp add: scan_entries.simps scan_adds_nothing)
next
  case (3 E fs opts root p depth entryName node es st)
  note w = scan_entries.simps(2) [of E fs opts root p depth entryName node es st]
  show ?case
  proof (cases "dg_stopReason (snd st) = NoStop")
    case False
    then show ?thesis unfolding w by (intro scan_adds_nothing) auto
  next
    case go: True
    let ?abs = "path_join p entryName"
    have e: "map_of fs (R @ t @ [entryName]) = Some node" using "3.prems"(7) by simp
    have cl: "list_all clean_seg (R @ t @ [entryName])" by (rule clean_fs_entry [OF "3.prems"(1) e])
    then have abs: "?abs = absolute_text (R @ t @ [entryName])" using "3.prems"(3,4) by simp
    let ?st1 = "case node of DirNode \<Rightarrow>
                  if entryName \<in> set (so_ignoreDirs opts) then (fst st, (snd st)\<lparr>dg_dirsSkipped := dg_dirsSkipped (snd st) + 1\<rparr>)
                  else if \<not> isPathWithinWorkspace (sc_cwd E) root ?abs then (fst st, (snd st)\<lparr>dg_dirsSkipped := dg_dirsSkipped (snd st) + 1\<rparr>)
                  else scan_walk E fs opts root ?abs (depth + 1) st
              | FileNode b \<Rightarrow> scan_file E fs opts root entryName ?abs st"
    have one: "scan_adds opts (below opts fs R (t @ [entryName])) st ?st1"
    proof (cases node)
      case (FileNode b)
      have "below opts fs R (t @ [entryName]) = {v. v = t @ [entryName] \<and> indexable opts fs R v}"
        using file_has_no_below [OF "3.prems"(1), of "R @ t @ [entryName]" b] e FileNode
        by (fastforce simp: below_def prefix_def indexable_def)
      then show ?thesis
        using scan_file_adds [OF "3.prems"(1), of R "t @ [entryName]" b opts st E] e FileNode "3.prems"(2,5) go abs by simp
    next
      case DirNode
      have bel: "below opts fs R (t @ [entryName]) = {u. indexable opts fs R u \<and> strict_prefix (t @ [entryName]) u}"
        using e DirNode by (auto simp: below_def strict_prefix_def indexable_def)
      show ?thesis
      proof (cases "entryName \<in> set (so_ignoreDirs opts)")
        case True
        then have "below opts fs R (t @ [entryName]) = {}"
          unfolding bel by (auto simp: indexable_def strict_prefix_def prefix_def butlast_append)
        then show ?thesis using True DirNode go by (intro scan_adds_nothing) simp_all
      next
        case False
        have "isPathWithinWorkspace (sc_cwd E) root ?abs" using cl "3.prems"(2) abs by simp
        then show ?thesis
          using "3.IH"(1) [OF _ _ _ DirNode False, of ?abs "(fst st, (snd st)\<lparr>dg_dirsSkipped := dg_dirsSkipped (snd st) + 1\<rparr>)" "t @ [entryName]"]
            "3.prems" False go DirNode cl abs bel by simp
      qed
    qed
    have rest: "scan_adds opts (\<Union>name \<in> fst ` set es. below opts fs R (t @ [name])) ?st1 (scan_entries E fs opts root p depth es ?st1)"
      using "3.IH"(2) [of ?abs "(fst st, (snd st)\<lparr>dg_dirsSkipped := dg_dirsSkipped (snd st) + 1\<rparr>)" t] "3.prems" go by simp
    have step: "scan_entries E fs opts root p depth ((entryName, node) # es) st = scan_entries E fs opts root p depth es ?st1"
      unfolding w Let_def by (simp only: go simp_thms if_False)
    have "entryName \<notin> fst ` set es" using "3.prems"(6) by auto
    from scan_adds_trans [OF one rest below_disjoint [OF "3.prems"(1) this]] show ?thesis unfolding step by simp
  qed
qed

section \<open>Which roots are found\<close>

definition marker_dir :: "scan_options \<Rightarrow> filesystem \<Rightarrow> string list \<Rightarrow> string list \<Rightarrow> bool" where
  "marker_dir opts fs R t \<longleftrightarrow> length t \<le> so_maxDepth opts \<and> (\<forall>x \<in> set t. x \<notin> set (so_ignoreDirs opts))
     \<and> (\<exists>m \<in> {''package.json'', ''Cargo.toml''}. \<exists>b. map_of fs (R @ t @ [m]) = Some (FileNode b))"

abbreviation root_texts :: "string list \<Rightarrow> string list set \<Rightarrow> string set" where
  "root_texts R A \<equiv> (\<lambda>t. absolute_text (R @ t)) ` A"

lemma same_or_parent: "isSameOrParentPath = isPathWithinWorkspace"
  by (intro ext) (simp add: isSameOrParentPath_def isPathWithinWorkspace_def Let_def)

lemma markers_found:
  assumes "list_all clean_seg k"
  shows "wm_hasCargoToml (detectWorkspaceMarkers H fs (absolute_text k)) \<or> wm_hasPackageJson (detectWorkspaceMarkers H fs (absolute_text k))
    \<longleftrightarrow> (\<exists>m \<in> {''package.json'', ''Cargo.toml''}. \<exists>b. map_of fs (k @ [m]) = Some (FileNode b))"
proof -
  have c: "clean_seg ''package.json''" "clean_seg ''Cargo.toml''" by (simp_all add: clean_seg_def seg_ok_def)
  have "markerExists H fs (path_join (absolute_text k) m) \<longleftrightarrow> (\<exists>b. map_of fs (k @ [m]) = Some (FileNode b))" if "clean_seg m" for m
    using assms that by (auto simp: markerExists_def stat_def split: option.splits fs_node.splits)
  then show ?thesis using c by (auto simp: detectWorkspaceMarkers_def)
qed

lemma discover_finds:
  "clean_fs fs \<Longrightarrow> repoRoot = absolute_text R \<Longrightarrow> p = absolute_text (R @ t) \<Longrightarrow> map_of fs (R @ t) = Some DirNode
     \<Longrightarrow> \<forall>x \<in> set t. x \<notin> set (so_ignoreDirs opts) \<Longrightarrow> depth = length t
     \<Longrightarrow> set (discover_walk H fs opts repoRoot p depth ds) = set ds \<union> root_texts R {u. marker_dir opts fs R u \<and> prefix t u}"
  "clean_fs fs \<Longrightarrow> repoRoot = absolute_text R \<Longrightarrow> p = absolute_text (R @ t) \<Longrightarrow> map_of fs (R @ t) = Some DirNode
     \<Longrightarrow> \<forall>x \<in> set t. x \<notin> set (so_ignoreDirs opts) \<Longrightarrow> depth = length t
     \<Longrightarrow> \<forall>(name, node) \<in> set es. map_of fs (R @ t @ [name]) = Some node
     \<Longrightarrow> set (discover_entries H fs opts repoRoot p depth es ds)
       = set ds \<union> root_texts R {u. marker_dir opts fs R u \<and> (\<exists>name. (name, DirNode) \<in> set es \<and> prefix (t @ [name]) u)}"
proof (induction H fs opts repoRoot p depth ds and H fs opts repoRoot p depth es ds arbitrary: t and t rule: discover_walk_discover_entries.induct)
  case (1 H fs opts repoRoot p depth ds)
  have cl: "list_all clean_seg (R @ t)" by (rule clean_fs_entry [OF "1.prems"(1,4)])
  show ?case
  proof (cases "so_maxDepth opts < depth")
    case True
    have "\<not> marker_dir opts fs R u" if "prefix t u" for u using True "1.prems"(6) prefix_length_le [OF that] by (simp add: marker_dir_def)
    then show ?thesis using True by (auto simp: discover_walk.simps)
  next
    case False
    obtain es where es: "readdir H fs p = Some es" using "1.prems"(3,4) cl by (simp add: readdir_def)
    note ents = readdir_entries [OF "1.prems"(1) cl, of H es, folded "1.prems"(3), OF es]
    have inw: "isPathWithinWorkspace (hs_cwd H) repoRoot p" using cl "1.prems"(2,3) by simp
    let ?m = "wm_hasCargoToml (detectWorkspaceMarkers H fs p) \<or> wm_hasPackageJson (detectWorkspaceMarkers H fs p)"
    let ?d = "if ?m then List.insert (canonicalizeAbsolutePath (hs_cwd H) p) ds else ds"
    have m: "?m = marker_dir opts fs R t"
      using markers_found [OF cl, of H fs] "1.prems"(3,5,6) False by (auto simp: marker_dir_def)
    have here: "set ?d = set ds \<union> root_texts R {u. marker_dir opts fs R u \<and> u = t}"
      using cl "1.prems"(3) unfolding m by auto
    have "\<exists>name. (name, DirNode) \<in> set es \<and> prefix (t @ [name]) u" if mu: "marker_dir opts fs R u" and tu: "strict_prefix t u" for u
    proof -
      obtain x xs where x: "u = t @ x # xs" using tu by (auto elim: strict_prefixE')
      obtain k n where k: "map_of fs (R @ u @ [k]) = Some n" using mu by (auto simp: marker_dir_def)
      have "map_of fs (take (length (R @ t @ [x])) (R @ u @ [k])) = Some DirNode"
        using "1.prems"(1) k x by (intro wf_fsD [of fs "R @ u @ [k]" n]) (auto simp: clean_fs_def)
      then show ?thesis using x ents(2) by auto
    qed
    then have all: "{u. marker_dir opts fs R u \<and> prefix t u}
        = {u. marker_dir opts fs R u \<and> u = t} \<union> {u. marker_dir opts fs R u \<and> (\<exists>name. (name, DirNode) \<in> set es \<and> prefix (t @ [name]) u)}"
      by (auto simp: strict_prefix_def prefix_def)
    have w: "discover_walk H fs opts repoRoot p depth ds = discover_entries H fs opts repoRoot p depth es ?d"
      using False inw by (simp add: discover_walk.simps [of H fs opts repoRoot p] Let_def es)
    have "set (discover_entries H fs opts repoRoot p depth es ?d)
        = set ?d \<union> root_texts R {u. marker_dir opts fs R u \<and> (\<exists>name. (name, DirNode) \<in> set es \<and> prefix (t @ [name]) u)}"
      using False inw es ents(2) "1.prems" by (intro "1.IH" [OF _ _ refl refl]) auto
    then show ?thesis unfolding w here all by auto
  qed
next
  case (2 H fs opts repoRoot p depth ds)
  then show ?case by (simp add: discover_entries.simps)
next
  case (3 H fs opts repoRoot p depth entryName node es ds)
  let ?abs = "path_join p entryName"
  have e: "map_of fs (R @ t @ [entryName]) = Some node" using "3.prems"(7) by simp
  have cl: "list_all clean_seg (R @ t @ [entryName])" by (rule clean_fs_entry [OF "3.prems"(1) e])
  then have abs: "?abs = absolute_text (R @ t @ [entryName])" using "3.prems"(3) by simp
  have inw: "isPathWithinWorkspace (hs_cwd H) repoRoot ?abs" using cl "3.prems"(2) abs by simp
  let ?ds = "if node \<noteq> DirNode then ds else if entryName \<in> set (so_ignoreDirs opts) then ds
      else if \<not> isPathWithinWorkspace (hs_cwd H) repoRoot ?abs then ds else discover_walk H fs opts repoRoot ?abs (depth + 1) ds"
  have one: "set ?ds = set ds \<union> root_texts R {u. marker_dir opts fs R u \<and> node = DirNode \<and> prefix (t @ [entryName]) u}"
  proof (cases "node = DirNode \<and> entryName \<notin> set (so_ignoreDirs opts)")
    case True
    then show ?thesis
      using "3.IH"(1) [of ?abs "t @ [entryName]"] inw e abs "3.prems" by simp
  next
    case False
    then have "{u. marker_dir opts fs R u \<and> node = DirNode \<and> prefix (t @ [entryName]) u} = {}"
      by (auto simp: marker_dir_def prefix_def)
    then show ?thesis using False by auto
  qed
  have "set (discover_entries H fs opts repoRoot p depth es ?ds)
      = set ?ds \<union> root_texts R {u. marker_dir opts fs R u \<and> (\<exists>name. (name, DirNode) \<in> set es \<and> prefix (t @ [name]) u)}"
    using "3.prems"(7) by (intro "3.IH"(2) [unfolded Let_def, OF "3.prems"(1-6)]) simp
  then show ?case unfolding discover_entries.simps Let_def one by auto
qed

text \<open>The innermost marker directories, or the repository itself when there is none.\<close>

definition workspace_dirs :: "scan_options \<Rightarrow> filesystem \<Rightarrow> string list \<Rightarrow> string list set" where
  "workspace_dirs opts fs R =
     (if Collect (marker_dir opts fs R) = {} then {[]}
      else {t. marker_dir opts fs R t \<and> \<not> (\<exists>t'. marker_dir opts fs R t' \<and> strict_prefix t t')})"

lemma marker_dir_clean: "clean_fs fs \<Longrightarrow> marker_dir opts fs R t \<Longrightarrow> list_all clean_seg (R @ t)"
  by (auto simp: marker_dir_def dest: clean_fs_entry [of fs "R @ t @ [_]"])

lemma absolute_text_inj: "list_all clean_seg k \<Longrightarrow> list_all clean_seg q \<Longrightarrow> absolute_text k = absolute_text q \<Longrightarrow> k = q"
  using resolve_absolute_text by metis

lemma finalize_roots:
  fixes R A
  assumes ds: "set ds = root_texts R A" and cl: "\<And>t. t \<in> A \<Longrightarrow> list_all clean_seg (R @ t)" and R: "list_all clean_seg R"
  shows "set (finalizeWorkspaceRoots ck cwd (absolute_text R) ds) = root_texts R {t \<in> A. \<not> (\<exists>t' \<in> A. strict_prefix t t')}"
    and "distinct (finalizeWorkspaceRoots ck cwd (absolute_text R) ds)"
proof -
  let ?in = "filter (isPathWithinWorkspace cwd (canonicalizeAbsolutePath cwd (absolute_text R))) (map (canonicalizeAbsolutePath cwd) ds)"
  have "set ?in = root_texts R A"
    using cl R unfolding set_filter set_map ds by (auto simp: image_iff)
  moreover define dd where "dd = sort_key ck (js_unique ?in)"
  ultimately have s: "set dd = root_texts R A" by simp
  have "(other \<noteq> absolute_text (R @ t) \<and> isPathWithinWorkspace cwd (absolute_text (R @ t)) other) \<longleftrightarrow> strict_prefix t t'"
    if "t \<in> A" "t' \<in> A" "other = absolute_text (R @ t')" for t t' other
    using that cl absolute_text_inj [of "R @ t'" "R @ t"] by (auto simp: strict_prefix_def)
  then have leaf: "list_ex (\<lambda>other. other \<noteq> absolute_text (R @ t) \<and> isPathWithinWorkspace cwd (absolute_text (R @ t)) other) dd
      \<longleftrightarrow> (\<exists>t' \<in> A. strict_prefix t t')" if "t \<in> A" for t
    using that unfolding list_ex_iff s by (simp add: image_iff)
  show "set (finalizeWorkspaceRoots ck cwd (absolute_text R) ds) = root_texts R {t \<in> A. \<not> (\<exists>t' \<in> A. strict_prefix t t')}"
    unfolding finalizeWorkspaceRoots_def Let_def same_or_parent dd_def [symmetric] set_sort set_filter s using leaf by auto
  show "distinct (finalizeWorkspaceRoots ck cwd (absolute_text R) ds)"
    by (simp add: finalizeWorkspaceRoots_def Let_def)
qed

lemma maximal_above:
  assumes "marker_dir opts fs R t"
  shows "\<exists>t'. prefix t t' \<and> marker_dir opts fs R t' \<and> \<not> (\<exists>t''. marker_dir opts fs R t'' \<and> strict_prefix t' t'')"
  using assms
proof (induction "so_maxDepth opts - length t" arbitrary: t rule: less_induct)
  case less
  show ?case
  proof (cases "\<exists>t''. marker_dir opts fs R t'' \<and> strict_prefix t t''")
    case True
    then obtain t'' where t: "marker_dir opts fs R t''" "strict_prefix t t''" by blast
    have "length t < length t''" using t(2) by (rule prefix_length_less)
    then have "so_maxDepth opts - length t'' < so_maxDepth opts - length t" using t(1) by (auto simp: marker_dir_def)
    from less.hyps [OF this t(1)] show ?thesis using t(2) prefix_order.trans by (metis prefix_order.less_imp_le)
  qed (use less.prems in blast)
qed

lemma detected_roots:
  assumes fs: "clean_fs fs" "map_of fs R = Some DirNode" and repo: "canonicalizeAbsolutePath (sc_cwd E) repo = absolute_text R"
  shows "set (map iw_root (detectProjects E fs repo q)) = root_texts R (workspace_dirs (resolveOptions q) fs R)"
    and "distinct (map iw_root (detectProjects E fs repo q))"
    and "ws \<in> set (detectProjects E fs repo q) \<Longrightarrow> ws = buildWorkspace E fs (resolveOptions q) (iw_root ws)"
proof -
  let ?o = "resolveOptions q"
  let ?A = "Collect (marker_dir ?o fs R)"
  have R: "list_all clean_seg R" by (rule clean_fs_entry [OF fs])
  have "set (discover_walk (sc_host E) fs ?o (absolute_text R) (absolute_text R) 0 []) = root_texts R ?A"
    using discover_finds(1) [OF fs(1) refl, of "absolute_text R" R "[]" ?o 0 "sc_host E" "[]"] fs(2) by simp
  then have dw: "set (discoverWorkspaceRootsByMarkers (sc_host E) fs ?o (absolute_text R)) = root_texts R ?A"
    by (simp add: discoverWorkspaceRootsByMarkers_def)
  have cl: "list_all clean_seg (R @ t)" if "t \<in> ?A" for t using marker_dir_clean [OF fs(1)] that by simp
  note fin = finalize_roots [of _ R ?A, OF dw cl R, of "sc_ck E" "sc_cwd E", simplified]
  let ?r = "finalizeWorkspaceRoots (sc_ck E) (sc_cwd E) (absolute_text R) (discoverWorkspaceRootsByMarkers (sc_host E) fs ?o (absolute_text R))"
  have "set ?r = {} \<longleftrightarrow> ?A = {}" unfolding fin(1) using maximal_above [of ?o fs R] by simp blast
  then have none: "?r = [] \<longleftrightarrow> ?A = {}" by simp
  have d: "detectProjects E fs repo q = (if ?r = [] then [buildWorkspace E fs ?o (absolute_text R)] else map (buildWorkspace E fs ?o) ?r)"
    by (simp add: detectProjects_def Let_def repo)
  have root: "iw_root (buildWorkspace E fs ?o r) = r" for r by (simp add: buildWorkspace_def Let_def split: prod.splits)
  show "distinct (map iw_root (detectProjects E fs repo q))" using fin(2) by (simp add: d root comp_def)
  show "ws \<in> set (detectProjects E fs repo q) \<Longrightarrow> ws = buildWorkspace E fs ?o (iw_root ws)"
    by (auto simp: d root split: if_splits)
  show "set (map iw_root (detectProjects E fs repo q)) = root_texts R (workspace_dirs ?o fs R)"
    using fin(1) none by (auto simp: d root workspace_dirs_def image_image comp_def)
qed

lemma built_workspace_files:
  fixes E
  assumes fs: "clean_fs fs" and R: "list_all clean_seg R" and pos: "0 < so_maxFiles opts"
  defines "ws \<equiv> buildWorkspace E fs opts (absolute_text R)"
  shows "length (iw_files ws) \<le> so_maxFiles opts" and "distinct (map xf_path (iw_files ws))"
    and "set (map xf_path (iw_files ws)) \<subseteq> js_join ''/'' ` Collect (indexable opts fs R)"
    and "iw_partial ws = Some False \<Longrightarrow> set (map xf_path (iw_files ws)) = js_join ''/'' ` Collect (indexable opts fs R)"
proof -
  obtain files d where w: "scan_walk E fs opts (absolute_text R) (absolute_text R) 0 ([], diagnostics0) = (files, d)" by fastforce
  have "{u. indexable opts fs R u \<and> strict_prefix [] u} = Collect (indexable opts fs R)" by (auto simp: indexable_def strict_prefix_def)
  then have a: "scan_adds opts (Collect (indexable opts fs R)) ([], diagnostics0) (files, d)"
    using scan_adds_below(1) [OF fs refl, of "absolute_text R" R "[]" opts "([], diagnostics0)" E 0] R by (simp add: w)
  have ws: "iw_files ws = sort_key (\<lambda>f. sc_ck E (xf_path f)) files" "iw_partial ws = Some (dg_stopReason d \<noteq> NoStop)"
    by (simp_all add: ws_def buildWorkspace_def collectFiles_def w Let_def)
  have p: "mset (map xf_path (iw_files ws)) = mset (map xf_path files)" by (simp add: ws)
  show "length (iw_files ws) \<le> so_maxFiles opts" using a pos by (simp add: ws scan_adds_def within_limit_def diagnostics0_def)
  show "distinct (map xf_path (iw_files ws))" using a mset_eq_imp_distinct_iff [OF p] by (auto simp: scan_adds_def)
  show "set (map xf_path (iw_files ws)) \<subseteq> js_join ''/'' ` Collect (indexable opts fs R)"
    "iw_partial ws = Some False \<Longrightarrow> set (map xf_path (iw_files ws)) = js_join ''/'' ` Collect (indexable opts fs R)"
    using a mset_eq_setD [OF p] by (auto simp: scan_adds_def ws)
qed

text \<open>
  C18. Detection finds the workspaces and their files. In a file system whose names hold no backslash and no zero byte, the workspaces
  of a repository are its innermost directories with a \<^verbatim>\<open>package.json\<close> or \<^verbatim>\<open>Cargo.toml\<close>, outside ignored directories and
  within the depth limit, each once, or the repository itself when it has none. Each lists, once, only files below it that have an
  indexable extension, are not too large and not below an ignored directory, at most the limit of them,
  and all of them unless the scan is reported as partial.
\<close>

theorem detection_finds_workspaces:
  assumes "clean_fs fs" "map_of fs R = Some DirNode" and "canonicalizeAbsolutePath (sc_cwd E) repo = absolute_text R"
    and "opts = resolveOptions q" "0 < so_maxFiles opts"
  shows "set (map iw_root (detectProjects E fs repo q)) = (\<lambda>t. absolute_text (R @ t)) ` workspace_dirs opts fs R
    \<and> distinct (map iw_root (detectProjects E fs repo q))
    \<and> (\<forall>ws \<in> set (detectProjects E fs repo q). \<exists>t \<in> workspace_dirs opts fs R.
         iw_root ws = absolute_text (R @ t) \<and> length (iw_files ws) \<le> so_maxFiles opts \<and> distinct (map xf_path (iw_files ws))
         \<and> set (map xf_path (iw_files ws)) \<subseteq> js_join ''/'' ` Collect (indexable opts fs (R @ t))
         \<and> (iw_partial ws = Some False \<longrightarrow> set (map xf_path (iw_files ws)) = js_join ''/'' ` Collect (indexable opts fs (R @ t))))"
proof (intro conjI ballI)
  note roots = detected_roots [OF assms(1-3), where q = q, folded assms(4)]
  show "set (map iw_root (detectProjects E fs repo q)) = root_texts R (workspace_dirs opts fs R)" by (rule roots(1))
  show "distinct (map iw_root (detectProjects E fs repo q))" by (rule roots(2))
  fix ws assume ws: "ws \<in> set (detectProjects E fs repo q)"
  then have "iw_root ws \<in> root_texts R (workspace_dirs opts fs R)" using roots(1) by auto
  then obtain t where t: "t \<in> workspace_dirs opts fs R" "iw_root ws = absolute_text (R @ t)" by auto
  have cl: "list_all clean_seg (R @ t)"
    using t(1) marker_dir_clean [OF assms(1), of opts R t] clean_fs_entry [OF assms(1,2)] by (auto simp: workspace_dirs_def split: if_splits)
  show "\<exists>t \<in> workspace_dirs opts fs R.
      iw_root ws = absolute_text (R @ t) \<and> length (iw_files ws) \<le> so_maxFiles opts \<and> distinct (map xf_path (iw_files ws))
      \<and> set (map xf_path (iw_files ws)) \<subseteq> js_join ''/'' ` Collect (indexable opts fs (R @ t))
      \<and> (iw_partial ws = Some False \<longrightarrow> set (map xf_path (iw_files ws)) = js_join ''/'' ` Collect (indexable opts fs (R @ t)))"
    using built_workspace_files [OF assms(1) cl assms(5), of E, folded t(2), folded roots(3) [OF ws]] t by blast
qed

definition scan_env0 :: scan_env where
  "scan_env0 = \<lparr>sc_host = host0, sc_ck = map of_char, sc_sha256 = id\<rparr>"

definition scan_fs0 :: filesystem where
  "scan_fs0 = [([], DirNode), ([''r''], DirNode), ([''r'', ''package.json''], FileNode ''{}''), ([''r'', ''b.ts''], FileNode ''x''),
     ([''r'', ''p''], DirNode), ([''r'', ''p'', ''node_modules''], DirNode), ([''r'', ''p'', ''node_modules'', ''c.ts''], FileNode ''x''),
     ([''r'', ''p'', ''Cargo.toml''], FileNode ''y''), ([''r'', ''p'', ''a.ts''], FileNode ''x'')]"

lemma scan_fs0_clean: "clean_fs scan_fs0"
proof -
  have "wf_check scan_fs0" by code_simp
  moreover have "distinct (map fst scan_fs0)" by code_simp
  moreover have "list_all (\<lambda>k. list_all clean_seg k) (map fst scan_fs0)" by code_simp
  ultimately show ?thesis by (auto simp: clean_fs_def list_all_iff intro: wf_check)
qed

definition scan_request0 :: scan_request where
  "scan_request0 = \<lparr>sq_maxFiles = Some 5, sq_maxDepth = Some 4, sq_maxFileSizeBytes = Some 9, sq_followSymlinks = None,
     sq_includeExtensions = None, sq_ignoreDirs = None\<rparr>"

lemma scan_options0:
  "resolveOptions (Some scan_request0) = \<lparr>so_maxFiles = 5, so_maxDepth = 4, so_maxFileSizeBytes = 9, so_followSymlinks = False,
     so_includeExtensions = map fst INDEXABLE_EXTENSIONS, so_ignoreDirs = IGNORED_DIRECTORIES\<rparr>"
  by (simp add: resolveOptions_def scan_request0_def DEFAULT_SCAN_OPTIONS_def)

lemma scan0:
  "map iw_root (detectProjects scan_env0 scan_fs0 ''/r'' (Some scan_request0)) = [''/r/p'']"
  "map (map xf_path \<circ> iw_files) (detectProjects scan_env0 scan_fs0 ''/r'' (Some scan_request0)) = [[''a.ts'']]"
  "map iw_partial (detectProjects scan_env0 scan_fs0 ''/r'' (Some scan_request0)) = [Some False]"
  unfolding detectProjects_def scan_options0 by code_simp+

theorem detection_finds_workspaces_witness:
  "\<exists>ws. detectProjects scan_env0 scan_fs0 ''/r'' (Some scan_request0) = [ws] \<and> iw_root ws = ''/r/p'' \<and> iw_partial ws = Some False
     \<and> (\<exists>t. absolute_text ([''r''] @ t) = ''/r/p''
            \<and> {''a.ts''} = js_join ''/'' ` Collect (indexable (resolveOptions (Some scan_request0)) scan_fs0 ([''r''] @ t)))"
proof -
  obtain ws where ws: "detectProjects scan_env0 scan_fs0 ''/r'' (Some scan_request0) = [ws]" "iw_root ws = ''/r/p''"
    "map xf_path (iw_files ws) = [''a.ts'']" "iw_partial ws = Some False"
    using scan0 by (cases "detectProjects scan_env0 scan_fs0 ''/r'' (Some scan_request0)") auto
  have "map_of scan_fs0 [''r''] = Some DirNode" "canonicalizeAbsolutePath (sc_cwd scan_env0) ''/r'' = absolute_text [''r'']"
    "0 < so_maxFiles (resolveOptions (Some scan_request0))"
    unfolding scan_options0 by code_simp+
  from detection_finds_workspaces [OF scan_fs0_clean this(1,2) refl this(3)]
  have "\<exists>t \<in> workspace_dirs (resolveOptions (Some scan_request0)) scan_fs0 [''r'']. iw_root ws = absolute_text ([''r''] @ t)
      \<and> set (map xf_path (iw_files ws)) = js_join ''/'' ` Collect (indexable (resolveOptions (Some scan_request0)) scan_fs0 ([''r''] @ t))"
    unfolding ws(1) using ws(4) by simp blast
  then obtain t where "absolute_text ([''r''] @ t) = ''/r/p''"
    "set (map xf_path (iw_files ws)) = js_join ''/'' ` Collect (indexable (resolveOptions (Some scan_request0)) scan_fs0 ([''r''] @ t))"
    unfolding ws(2) by (metis (full_types))
  then show ?thesis unfolding ws(3) using ws(1,2,4) by (metis (no_types) empty_set list.simps(15))
qed

end
