(* ===== verification/OperatorWorktree.thy ===== *)
theory OperatorWorktree
  imports DetectProjects
begin

text \<open>
  The operator-safe worktree lifecycle of \<^verbatim>\<open>packages/runtime/src/workspace\<close>: preflight
  (\<^verbatim>\<open>operator-safe-project-worktree-utils.ts\<close>), snapshot, temporary workspace, bounded apply, rollback and the execution
  report, with the types of \<^verbatim>\<open>packages/shared/src/types/operator-worktree.ts\<close>. An operation that touches files takes the
  file system and returns the new one beside its result; a rejected promise is a left value. Clock and random
  numbers enter as the texts they end up in (\<open>lifecycle_draws\<close>).
\<close>

section \<open>Data\<close>

datatype wt_mode = WtCheck | WtDryRun | WtExecute

datatype wt_reason =
    EmptyTargetPath | TargetOutsideRepo | InvalidRepoRoot | WorkspaceNotDetected | VcsRequiredButMissing | AlreadyIndexed
  | OperationNotSupported

datatype wt_warning = WorkspaceMissingMarkers | PartialWorkspaceScan | VcsUnverified | ExecuteIsBounded

datatype wt_risk = RiskLow | RiskModerate | RiskHigh

datatype wt_failure = FailNone | PreflightFailure | PrepareFailure | ApplyFailure | CleanupFailure | FailRollbackDegraded

datatype wt_outcome = OutBlocked | OutAdvisory | OutDryRun | OutSucceeded | OutFailed | OutCleanupFailed | OutRollbackDegraded

datatype wt_stage = StPreflight | StPrepare | StApply | StCleanup | StRollback

datatype wt_recommendation =
    Proceed | RunCheck | RunDryRun | AdjustTarget | AddWorkspaceMarker | RunFullIndex | DisableVcsRequirement

definition SUPPORTED_OPERATOR_WORKTREE_OPERATIONS :: "string list" where
  "SUPPORTED_OPERATOR_WORKTREE_OPERATIONS = [''index_workspace'']"

text \<open>The string literals of the unions.\<close>

fun mode_text :: "wt_mode \<Rightarrow> string" where
  "mode_text WtCheck = ''check''"
| "mode_text WtDryRun = ''dry_run''"
| "mode_text WtExecute = ''execute''"

fun reason_text :: "wt_reason \<Rightarrow> string" where
  "reason_text EmptyTargetPath = ''empty_target_path''"
| "reason_text TargetOutsideRepo = ''target_outside_repo''"
| "reason_text InvalidRepoRoot = ''invalid_repo_root''"
| "reason_text WorkspaceNotDetected = ''workspace_not_detected''"
| "reason_text VcsRequiredButMissing = ''vcs_required_but_missing''"
| "reason_text AlreadyIndexed = ''already_indexed''"
| "reason_text OperationNotSupported = ''operation_not_supported''"

fun warning_text :: "wt_warning \<Rightarrow> string" where
  "warning_text WorkspaceMissingMarkers = ''workspace_missing_markers''"
| "warning_text PartialWorkspaceScan = ''partial_workspace_scan''"
| "warning_text VcsUnverified = ''vcs_unverified''"
| "warning_text ExecuteIsBounded = ''execute_is_bounded''"

fun risk_text :: "wt_risk \<Rightarrow> string" where
  "risk_text RiskLow = ''low''"
| "risk_text RiskModerate = ''moderate''"
| "risk_text RiskHigh = ''high''"

fun failure_text :: "wt_failure \<Rightarrow> string" where
  "failure_text FailNone = ''none''"
| "failure_text PreflightFailure = ''preflight_failure''"
| "failure_text PrepareFailure = ''prepare_failure''"
| "failure_text ApplyFailure = ''apply_failure''"
| "failure_text CleanupFailure = ''cleanup_failure''"
| "failure_text FailRollbackDegraded = ''rollback_degraded''"

fun outcome_text :: "wt_outcome \<Rightarrow> string" where
  "outcome_text OutBlocked = ''blocked''"
| "outcome_text OutAdvisory = ''advisory''"
| "outcome_text OutDryRun = ''dry_run''"
| "outcome_text OutSucceeded = ''succeeded''"
| "outcome_text OutFailed = ''failed''"
| "outcome_text OutCleanupFailed = ''cleanup_failed''"
| "outcome_text OutRollbackDegraded = ''rollback_degraded''"

fun stage_text :: "wt_stage \<Rightarrow> string" where
  "stage_text StPreflight = ''preflight''"
| "stage_text StPrepare = ''prepare''"
| "stage_text StApply = ''apply''"
| "stage_text StCleanup = ''cleanup''"
| "stage_text StRollback = ''rollback''"

fun recommendation_text :: "wt_recommendation \<Rightarrow> string" where
  "recommendation_text Proceed = ''proceed''"
| "recommendation_text RunCheck = ''run_check''"
| "recommendation_text RunDryRun = ''run_dry_run''"
| "recommendation_text AdjustTarget = ''adjust_target''"
| "recommendation_text AddWorkspaceMarker = ''add_workspace_marker''"
| "recommendation_text RunFullIndex = ''run_full_index''"
| "recommendation_text DisableVcsRequirement = ''disable_vcs_requirement''"

record preflight_input =
  pi_mode :: wt_mode
  pi_operation :: string
  pi_repoRoot :: string
  pi_targetPath :: string
  pi_requireVcs :: "bool option"
  pi_alreadyIndexedFileIds :: "string list option"
  pi_knownWorkspaces :: "indexed_workspace list option"

text \<open>A path that may be \<^verbatim>\<open>null\<close> is an option.\<close>

record workspace_context =
  wc_root :: string
  wc_type :: string
  wc_markers :: "workspace_markers option"
  wc_partialScan :: bool
  wc_scanStopReason :: scan_stop
  wc_targetRelativePath :: "string option"
  wc_workspaceRelativePath :: "string option"
  wc_repoRelativePath :: "string option"

record preflight_result =
  pf_mode :: wt_mode
  pf_operation :: string
  pf_allowed :: bool
  pf_warnings :: "(wt_warning \<times> string) list"
  pf_blockingReasons :: "(wt_reason \<times> string) list"
  pf_recommendedAction :: wt_recommendation
  pf_repoRoot :: string
  pf_targetPath :: string
  pf_canonicalRepoRoot :: string
  pf_canonicalTargetPath :: string
  pf_workspace :: "workspace_context option"
  pf_idempotentSkip :: bool

text \<open>A field \<^verbatim>\<open>?: string | null\<close> is an option of an option: absent, null, or a text.\<close>

record snapshot_manifest =
  sm_id :: string
  sm_executionId :: string
  sm_reportId :: string
  sm_createdAt :: timestamp
  sm_operation :: string
  sm_mode :: wt_mode
  sm_repoRoot :: string
  sm_targetPath :: string
  sm_workspaceRoot :: "string option"
  sm_targetRelativePath :: "string option option"
  sm_workspaceRelativePath :: "string option option"
  sm_repoRelativePath :: "string option option"
  sm_files :: "string list"
  sm_warningCodes :: "wt_warning list"
  sm_idempotentSkip :: bool

record snapshot_result =
  sr_required :: bool
  sr_captured :: bool
  sr_artifactPath :: "string option"
  sr_manifest :: "snapshot_manifest option"
  sr_warnings :: "(wt_warning \<times> string) list"

record temp_manifest =
  tm_id :: string
  tm_executionId :: string
  tm_reportId :: string
  tm_createdAt :: timestamp
  tm_lastTouchedAt :: timestamp
  tm_operation :: string
  tm_mode :: wt_mode
  tm_repoRoot :: string
  tm_tempPath :: string
  tm_staleAfterMs :: int

record temp_result =
  tw_created :: bool
  tw_id :: "string option"
  tw_executionId :: "string option"
  tw_reportId :: "string option"
  tw_path :: "string option"
  tw_manifestPath :: "string option"
  tw_createdAt :: "timestamp option"
  tw_lastTouchedAt :: "timestamp option"
  tw_staleAfterMs :: int
  tw_note :: string

record apply_result =
  ap_applied :: bool
  ap_simulated :: bool
  ap_delegated :: bool
  ap_changedSurfaces :: "string list"
  ap_metadata :: "(string \<times> json) list"
  ap_message :: string

record rollback_result =
  rb_attempted :: bool
  rb_recovered :: bool
  rb_degraded :: bool
  rb_unavailable :: bool
  rb_message :: string

record stage_result =
  sg_stage :: wt_stage
  sg_success :: bool
  sg_details :: string

record execution_report =
  er_id :: string
  er_executionId :: string
  er_createdAt :: timestamp
  er_operation :: string
  er_mode :: wt_mode
  er_riskClass :: wt_risk
  er_outcome :: wt_outcome
  er_failureClass :: wt_failure
  er_recommendedAction :: wt_recommendation
  er_allowed :: bool
  er_warningCodes :: "wt_warning list"
  er_blockingCodes :: "wt_reason list"
  er_stages :: "stage_result list"
  er_repoRoot :: string
  er_targetPath :: string
  er_workspaceRoot :: "string option"
  er_workspaceRelativePath :: "string option option"
  er_repoRelativePath :: "string option option"
  er_relatedSnapshot :: "(string \<times> string option) option"
  er_relatedTempWorkspace :: "(string \<times> string option) option"
  er_snapshot :: "snapshot_result option"
  er_tempWorkspace :: "temp_result option"
  er_apply :: "apply_result option"
  er_rollback :: "rollback_result option"
  er_notes :: "string list"

section \<open>Written form\<close>

text \<open>\<^verbatim>\<open>JSON.stringify\<close> leaves out what is undefined.\<close>

definition field :: "string \<Rightarrow> json \<Rightarrow> (string \<times> json) list" where
  "field k v = [(k, v)]"

definition opt_field :: "string \<Rightarrow> ('a \<Rightarrow> json) \<Rightarrow> 'a option \<Rightarrow> (string \<times> json) list" where
  "opt_field k f x = (case x of None \<Rightarrow> [] | Some v \<Rightarrow> [(k, f v)])"

definition nullable :: "string option \<Rightarrow> json" where
  "nullable x = (case x of None \<Rightarrow> JNull | Some s \<Rightarrow> JStr s)"

definition strings :: "string list \<Rightarrow> json" where
  "strings xs = JArr (map JStr xs)"

definition snapshot_json :: "snapshot_manifest \<Rightarrow> json" where
  "snapshot_json m = JObj (
     field ''id'' (JStr (sm_id m)) @ field ''executionId'' (JStr (sm_executionId m)) @ field ''reportId'' (JStr (sm_reportId m))
     @ field ''createdAt'' (JStr (sm_createdAt m)) @ field ''operation'' (JStr (sm_operation m)) @ field ''mode'' (JStr (mode_text (sm_mode m)))
     @ field ''repoRoot'' (JStr (sm_repoRoot m)) @ field ''targetPath'' (JStr (sm_targetPath m))
     @ opt_field ''workspaceRoot'' JStr (sm_workspaceRoot m) @ opt_field ''targetRelativePath'' nullable (sm_targetRelativePath m)
     @ opt_field ''workspaceRelativePath'' nullable (sm_workspaceRelativePath m) @ opt_field ''repoRelativePath'' nullable (sm_repoRelativePath m)
     @ field ''files'' (strings (sm_files m))
     @ field ''metadata'' (JObj (field ''warningCodes'' (strings (map warning_text (sm_warningCodes m)))
         @ field ''idempotentSkip'' (JBool (sm_idempotentSkip m)))))"

definition temp_json :: "temp_manifest \<Rightarrow> json" where
  "temp_json m = JObj (
     field ''id'' (JStr (tm_id m)) @ field ''executionId'' (JStr (tm_executionId m)) @ field ''reportId'' (JStr (tm_reportId m))
     @ field ''createdAt'' (JStr (tm_createdAt m)) @ field ''lastTouchedAt'' (JStr (tm_lastTouchedAt m))
     @ field ''operation'' (JStr (tm_operation m)) @ field ''mode'' (JStr (mode_text (tm_mode m))) @ field ''repoRoot'' (JStr (tm_repoRoot m))
     @ field ''tempPath'' (JStr (tm_tempPath m)) @ field ''staleAfterMs'' (JNum (tm_staleAfterMs m)))"

definition warning_json :: "wt_warning \<times> string \<Rightarrow> json" where
  "warning_json w = JObj (field ''code'' (JStr (warning_text (fst w))) @ field ''message'' (JStr (snd w)))"

definition snapshot_result_json :: "snapshot_result \<Rightarrow> json" where
  "snapshot_result_json r = JObj (
     field ''required'' (JBool (sr_required r)) @ field ''captured'' (JBool (sr_captured r))
     @ opt_field ''artifactPath'' JStr (sr_artifactPath r) @ opt_field ''manifest'' snapshot_json (sr_manifest r)
     @ field ''warnings'' (JArr (map warning_json (sr_warnings r))))"

definition temp_result_json :: "temp_result \<Rightarrow> json" where
  "temp_result_json r = JObj (
     field ''created'' (JBool (tw_created r)) @ opt_field ''id'' JStr (tw_id r) @ opt_field ''executionId'' JStr (tw_executionId r)
     @ opt_field ''reportId'' JStr (tw_reportId r) @ opt_field ''path'' JStr (tw_path r) @ opt_field ''manifestPath'' JStr (tw_manifestPath r)
     @ opt_field ''createdAt'' JStr (tw_createdAt r) @ opt_field ''lastTouchedAt'' JStr (tw_lastTouchedAt r)
     @ field ''staleAfterMs'' (JNum (tw_staleAfterMs r)) @ field ''note'' (JStr (tw_note r)))"

definition apply_json :: "apply_result \<Rightarrow> json" where
  "apply_json r = JObj (
     field ''applied'' (JBool (ap_applied r)) @ field ''simulated'' (JBool (ap_simulated r)) @ field ''delegated'' (JBool (ap_delegated r))
     @ field ''changedSurfaces'' (strings (ap_changedSurfaces r)) @ field ''metadata'' (JObj (ap_metadata r))
     @ field ''message'' (JStr (ap_message r)))"

definition rollback_json :: "rollback_result \<Rightarrow> json" where
  "rollback_json r = JObj (
     field ''attempted'' (JBool (rb_attempted r)) @ field ''recovered'' (JBool (rb_recovered r)) @ field ''degraded'' (JBool (rb_degraded r))
     @ field ''unavailable'' (JBool (rb_unavailable r)) @ field ''message'' (JStr (rb_message r)))"

definition stage_json :: "stage_result \<Rightarrow> json" where
  "stage_json r = JObj (
     field ''stage'' (JStr (stage_text (sg_stage r))) @ field ''success'' (JBool (sg_success r)) @ field ''details'' (JStr (sg_details r)))"

definition related_json :: "string \<times> string option \<Rightarrow> json" where
  "related_json a = JObj (field ''artifactId'' (JStr (fst a)) @ opt_field ''path'' JStr (snd a))"

definition report_json :: "execution_report \<Rightarrow> json" where
  "report_json r = JObj (
     field ''id'' (JStr (er_id r)) @ field ''executionId'' (JStr (er_executionId r)) @ field ''createdAt'' (JStr (er_createdAt r))
     @ field ''operation'' (JStr (er_operation r)) @ field ''mode'' (JStr (mode_text (er_mode r)))
     @ field ''riskClass'' (JStr (risk_text (er_riskClass r))) @ field ''outcome'' (JStr (outcome_text (er_outcome r)))
     @ field ''failureClass'' (JStr (failure_text (er_failureClass r)))
     @ field ''recommendedAction'' (JStr (recommendation_text (er_recommendedAction r))) @ field ''allowed'' (JBool (er_allowed r))
     @ field ''warningCodes'' (strings (map warning_text (er_warningCodes r)))
     @ field ''blockingCodes'' (strings (map reason_text (er_blockingCodes r)))
     @ field ''stages'' (JArr (map stage_json (er_stages r)))
     @ field ''context'' (JObj (field ''repoRoot'' (JStr (er_repoRoot r)) @ field ''targetPath'' (JStr (er_targetPath r))
         @ opt_field ''workspaceRoot'' JStr (er_workspaceRoot r) @ opt_field ''workspaceRelativePath'' nullable (er_workspaceRelativePath r)
         @ opt_field ''repoRelativePath'' nullable (er_repoRelativePath r)))
     @ field ''relatedArtifacts'' (JObj (opt_field ''snapshot'' related_json (er_relatedSnapshot r)
         @ opt_field ''tempWorkspace'' related_json (er_relatedTempWorkspace r)))
     @ opt_field ''snapshot'' snapshot_result_json (er_snapshot r) @ opt_field ''tempWorkspace'' temp_result_json (er_tempWorkspace r)
     @ opt_field ''apply'' apply_json (er_apply r) @ opt_field ''rollback'' rollback_json (er_rollback r)
     @ field ''notes'' (strings (er_notes r)))"

definition artifact_text :: "json \<Rightarrow> string" where
  "artifact_text v = JSON_pretty [] v @ [CHR 0x0A]"

section \<open>Artifact directories and reports\<close>

text \<open>\<^verbatim>\<open>path.join\<close> of any number of parts.\<close>

definition path_joins :: "string list \<Rightarrow> string" where
  "path_joins ps = path_normalize (js_join ''/'' (filter (\<lambda>p. p \<noteq> []) ps))"

definition OPERATOR_SAFE_RUNTIME_ROOT :: "string list" where
  "OPERATOR_SAFE_RUNTIME_ROOT = [''.dh'', ''runtime'', ''operator-safe-worktree'']"

definition resolveOperatorSafeArtifactsRoot :: "string \<Rightarrow> string" where
  "resolveOperatorSafeArtifactsRoot repoRoot = path_joins (repoRoot # OPERATOR_SAFE_RUNTIME_ROOT)"

definition resolveOperatorSafeReportsDir :: "string \<Rightarrow> string" where
  "resolveOperatorSafeReportsDir repoRoot = path_join (resolveOperatorSafeArtifactsRoot repoRoot) ''reports''"

definition resolveOperatorSafeSnapshotsDir :: "string \<Rightarrow> string" where
  "resolveOperatorSafeSnapshotsDir repoRoot = path_join (resolveOperatorSafeArtifactsRoot repoRoot) ''snapshots''"

definition resolveOperatorSafeTempDir :: "string \<Rightarrow> string" where
  "resolveOperatorSafeTempDir repoRoot = path_join (resolveOperatorSafeArtifactsRoot repoRoot) ''temp''"

text \<open>The three directories are made whatever becomes of the others; the first failure is reported.\<close>

definition mkdir_all :: "host \<Rightarrow> string list \<Rightarrow> filesystem \<Rightarrow> (string + unit) \<times> filesystem" where
  "mkdir_all H ps fs =
     foldl (\<lambda>(r, fs) p. case mkdirSync H fs p of
         Inl e \<Rightarrow> (case r of Inl e0 \<Rightarrow> Inl e0 | Inr u \<Rightarrow> Inl e, fs)
       | Inr fs' \<Rightarrow> (r, fs')) (Inr (), fs) ps"

definition ensureOperatorSafeArtifactDirs :: "host \<Rightarrow> string \<Rightarrow> filesystem \<Rightarrow> (string + unit) \<times> filesystem" where
  "ensureOperatorSafeArtifactDirs H repoRoot fs =
     mkdir_all H [resolveOperatorSafeReportsDir repoRoot, resolveOperatorSafeSnapshotsDir repoRoot, resolveOperatorSafeTempDir repoRoot] fs"

text \<open>The clock in base 36 and the random characters of an id.\<close>

type_synonym id_draw = "string \<times> string"

definition makeArtifactId :: "string \<Rightarrow> id_draw \<Rightarrow> string" where
  "makeArtifactId pre d = pre @ ''-'' @ fst d @ ''-'' @ snd d"

record lifecycle_draws =
  ld_report :: id_draw
  ld_execution :: id_draw
  ld_snapshot :: id_draw
  ld_snapshotAt :: timestamp
  ld_tempStamp :: string
  ld_tempSuffix :: string
  ld_tempAt :: timestamp
  ld_reportAt :: timestamp

definition createOperatorSafeExecutionIdentity :: "lifecycle_draws \<Rightarrow> string \<times> string" where
  "createOperatorSafeExecutionIdentity D = (makeArtifactId ''opw'' (ld_report D), makeArtifactId ''opw-exec'' (ld_execution D))"

definition writeArtifact :: "host \<Rightarrow> string \<Rightarrow> json \<Rightarrow> filesystem \<Rightarrow> (string + unit) \<times> filesystem" where
  "writeArtifact H p v fs =
     (case writeFileSync H fs p (artifact_text v) of Inl e \<Rightarrow> (Inl e, fs) | Inr fs' \<Rightarrow> (Inr (), fs'))"

definition writeOperatorSafeExecutionReport :: "host \<Rightarrow> string \<Rightarrow> execution_report \<Rightarrow> filesystem \<Rightarrow> (string + string) \<times> filesystem" where
  "writeOperatorSafeExecutionReport H repoRoot report fs =
     (case ensureOperatorSafeArtifactDirs H repoRoot fs of
        (Inl e, fs1) \<Rightarrow> (Inl e, fs1)
      | (Inr u, fs1) \<Rightarrow>
          let reportPath = path_join (resolveOperatorSafeReportsDir repoRoot) (er_id report @ ''.json'') in
          (case writeArtifact H reportPath (report_json report) fs1 of
             (Inl e, fs2) \<Rightarrow> (Inl e, fs2)
           | (Inr u, fs2) \<Rightarrow> (Inr reportPath, fs2)))"

section \<open>Snapshot\<close>

text \<open>A text that is neither undefined, null nor empty.\<close>

definition truthy_text :: "string option option \<Rightarrow> string option" where
  "truthy_text x = (case x of Some (Some s) \<Rightarrow> if s = [] then None else Some s | _ \<Rightarrow> None)"

definition buildSnapshotManifest :: "lifecycle_draws \<Rightarrow> preflight_result \<Rightarrow> string \<Rightarrow> string \<Rightarrow> snapshot_manifest" where
  "buildSnapshotManifest D preflight executionId reportId =
     (let targetRelativePath = map_option wc_targetRelativePath (pf_workspace preflight);
          repoRelativePath = map_option wc_repoRelativePath (pf_workspace preflight)
      in \<lparr>sm_id = makeArtifactId ''snapshot'' (ld_snapshot D), sm_executionId = executionId, sm_reportId = reportId,
          sm_createdAt = ld_snapshotAt D, sm_operation = pf_operation preflight, sm_mode = pf_mode preflight,
          sm_repoRoot = pf_canonicalRepoRoot preflight, sm_targetPath = pf_canonicalTargetPath preflight,
          sm_workspaceRoot = map_option wc_root (pf_workspace preflight), sm_targetRelativePath = targetRelativePath,
          sm_workspaceRelativePath = map_option wc_workspaceRelativePath (pf_workspace preflight),
          sm_repoRelativePath = repoRelativePath,
          sm_files = (case truthy_text repoRelativePath of
             Some p \<Rightarrow> [p]
           | None \<Rightarrow> (case truthy_text targetRelativePath of Some p \<Rightarrow> [p] | None \<Rightarrow> [])),
          sm_warningCodes = map fst (pf_warnings preflight), sm_idempotentSkip = pf_idempotentSkip preflight\<rparr>)"

definition captureOperatorSafeSnapshot ::
  "host \<Rightarrow> lifecycle_draws \<Rightarrow> string \<Rightarrow> preflight_result \<Rightarrow> string \<Rightarrow> string \<Rightarrow> filesystem \<Rightarrow> (string + snapshot_result) \<times> filesystem" where
  "captureOperatorSafeSnapshot H D repoRoot preflight executionId reportId fs =
     (if pf_mode preflight = WtCheck
      then (Inr \<lparr>sr_required = False, sr_captured = False, sr_artifactPath = None, sr_manifest = None, sr_warnings = []\<rparr>, fs)
      else
        let manifest = buildSnapshotManifest D preflight executionId reportId in
        case ensureOperatorSafeArtifactDirs H repoRoot fs of
          (Inl e, fs1) \<Rightarrow> (Inl e, fs1)
        | (Inr u, fs1) \<Rightarrow>
            let artifactPath = path_join (resolveOperatorSafeSnapshotsDir repoRoot) (sm_id manifest @ ''.json'') in
            (case writeArtifact H artifactPath (snapshot_json manifest) fs1 of
               (Inl e, fs2) \<Rightarrow> (Inl e, fs2)
             | (Inr u, fs2) \<Rightarrow>
                 (Inr \<lparr>sr_required = True, sr_captured = True, sr_artifactPath = Some artifactPath, sr_manifest = Some manifest, sr_warnings = []\<rparr>, fs2)))"

section \<open>Temporary workspace\<close>

definition DEFAULT_OPERATOR_SAFE_TEMP_TTL_MS :: int where
  "DEFAULT_OPERATOR_SAFE_TEMP_TTL_MS = 4 * 60 * 60 * 1000"

text \<open>\<^verbatim>\<open>fs.mkdtemp(prefix)\<close> with the suffix that the system has chosen.\<close>

definition mkdtemp :: "host \<Rightarrow> string \<Rightarrow> string \<Rightarrow> filesystem \<Rightarrow> (string + string) \<times> filesystem" where
  "mkdtemp H pre chosen fs =
     (let p = pre @ chosen; k = resolve_segs (hs_cwd H) p in
      if k = [] \<or> map_of fs k \<noteq> None then (Inl (hs_sysMessage H ''mkdtemp'' EEXIST p), fs)
      else if map_of fs (butlast k) \<noteq> Some DirNode then (Inl (hs_sysMessage H ''mkdtemp'' (missing_code fs k) p), fs)
      else (Inr p, AList.update k DirNode fs))"

definition path_basename :: "string \<Rightarrow> string" where
  "path_basename p = last (js_split p ''/'')"

definition prepareOperatorSafeTempWorkspace ::
  "host \<Rightarrow> lifecycle_draws \<Rightarrow> string \<Rightarrow> string \<Rightarrow> wt_mode \<Rightarrow> string \<Rightarrow> string \<Rightarrow> int option \<Rightarrow> filesystem \<Rightarrow> (string + temp_result) \<times> filesystem" where
  "prepareOperatorSafeTempWorkspace H D repoRoot operation mode executionId reportId ttlMs fs =
     (let staleAfterMs = nullish ttlMs DEFAULT_OPERATOR_SAFE_TEMP_TTL_MS in
      if mode = WtCheck then
        (Inr \<lparr>tw_created = False, tw_id = None, tw_executionId = None, tw_reportId = None, tw_path = None, tw_manifestPath = None,
           tw_createdAt = None, tw_lastTouchedAt = None, tw_staleAfterMs = staleAfterMs,
           tw_note = ''Check mode is advisory-only; temp workspace is not provisioned.''\<rparr>, fs)
      else
        case ensureOperatorSafeArtifactDirs H repoRoot fs of
          (Inl e, fs1) \<Rightarrow> (Inl e, fs1)
        | (Inr u, fs1) \<Rightarrow>
            (case mkdtemp H (path_join (resolveOperatorSafeTempDir repoRoot) (operation @ ''-'' @ ld_tempStamp D @ ''-'')) (ld_tempSuffix D) fs1 of
               (Inl e, fs2) \<Rightarrow> (Inl e, fs2)
             | (Inr tempPath, fs2) \<Rightarrow>
                 let now = ld_tempAt D; tid = path_basename tempPath;
                     manifest = \<lparr>tm_id = tid, tm_executionId = executionId, tm_reportId = reportId, tm_createdAt = now, tm_lastTouchedAt = now,
                       tm_operation = operation, tm_mode = mode, tm_repoRoot = repoRoot, tm_tempPath = tempPath, tm_staleAfterMs = staleAfterMs\<rparr>;
                     manifestPath = path_join tempPath ''manifest.json''
                 in case writeArtifact H manifestPath (temp_json manifest) fs2 of
                      (Inl e, fs3) \<Rightarrow> (Inl e, fs3)
                    | (Inr u, fs3) \<Rightarrow>
                        (Inr \<lparr>tw_created = True, tw_id = Some tid, tw_executionId = Some executionId, tw_reportId = Some reportId,
                           tw_path = Some tempPath, tw_manifestPath = Some manifestPath, tw_createdAt = Some now, tw_lastTouchedAt = Some now,
                           tw_staleAfterMs = staleAfterMs, tw_note = ''Provisioned bounded temp workspace for operator-safe execution.''\<rparr>, fs3)))"

section \<open>Apply and rollback\<close>

definition runOperatorSafeBoundedApply :: "preflight_result \<Rightarrow> apply_result" where
  "runOperatorSafeBoundedApply preflight =
     (if \<not> pf_allowed preflight then
        \<lparr>ap_applied = False, ap_simulated = False, ap_delegated = False, ap_changedSurfaces = [],
         ap_metadata = [(''blocked'', JBool True), (''blockingCount'', JNum (int (length (pf_blockingReasons preflight))))],
         ap_message = ''Apply stage skipped because preflight blocked execution.''\<rparr>
      else if pf_mode preflight = WtCheck then
        \<lparr>ap_applied = False, ap_simulated = False, ap_delegated = False, ap_changedSurfaces = [],
         ap_metadata = [(''advisoryOnly'', JBool True)], ap_message = ''Check mode is advisory-only; no apply action executed.''\<rparr>
      else if pf_mode preflight = WtDryRun then
        \<lparr>ap_applied = False, ap_simulated = True, ap_delegated = False, ap_changedSurfaces = [],
         ap_metadata = [(''parityMode'', JStr ''dry_run'')], ap_message = ''Dry-run apply completed with bounded simulation only.''\<rparr>
      else
        \<lparr>ap_applied = False, ap_simulated = False, ap_delegated = True,
         ap_changedSurfaces = (case truthy_text (map_option wc_targetRelativePath (pf_workspace preflight)) of Some p \<Rightarrow> [p] | None \<Rightarrow> []),
         ap_metadata = [(''parityMode'', JStr ''execute''), (''delegatedToOperation'', JStr (pf_operation preflight))],
         ap_message = ''Execute mode passed bounded checks; side effects remain delegated to operation-specific runner.''\<rparr>)"

definition rollback_of :: "bool \<Rightarrow> bool \<Rightarrow> bool \<Rightarrow> bool \<Rightarrow> string \<Rightarrow> rollback_result" where
  "rollback_of attempted recovered degraded unavailable msg =
     \<lparr>rb_attempted = attempted, rb_recovered = recovered, rb_degraded = degraded, rb_unavailable = unavailable, rb_message = msg\<rparr>"

definition attemptOperatorSafeRollbackLight :: "wt_mode \<Rightarrow> snapshot_result option \<Rightarrow> apply_result option \<Rightarrow> rollback_result" where
  "attemptOperatorSafeRollbackLight mode snapshot apply' =
     (if mode = WtCheck then rollback_of False False False True ''Rollback-light is not applicable in check mode.''
      else if \<not> (case snapshot of None \<Rightarrow> False | Some s \<Rightarrow> sr_required s \<and> sr_captured s) then
        rollback_of False False False True ''Rollback-light unavailable because no compatible snapshot artifact was captured.''
      else
        case apply' of
          None \<Rightarrow> rollback_of False True False False ''No apply side effects detected; rollback-light not required.''
        | Some a \<Rightarrow>
            if \<not> ap_applied a \<and> \<not> ap_delegated a then
              rollback_of False True False False ''No apply side effects detected; rollback-light not required.''
            else if ap_delegated a \<and> \<not> ap_applied a then
              rollback_of False False False True ''Rollback-light unavailable for delegated execute apply in this bounded layer.''
            else
              rollback_of True False True False
                ''Rollback-light currently records degraded state only; explicit reverse apply is not implemented yet.'')"

section \<open>Preflight\<close>

definition findWorkspaceForTarget :: "string \<Rightarrow> string list \<Rightarrow> string \<Rightarrow> string option" where
  "findWorkspaceForTarget cwd workspaceRoots targetPath =
     (case sort_key (\<lambda>r. - int (length r)) (filter (\<lambda>r. isPathWithinWorkspace cwd r targetPath) workspaceRoots) of
        [] \<Rightarrow> None
      | r # rs \<Rightarrow> Some r)"

definition resolveRecommendation :: "wt_mode \<Rightarrow> bool \<Rightarrow> bool \<Rightarrow> bool \<Rightarrow> bool \<Rightarrow> wt_recommendation" where
  "resolveRecommendation mode hasBlockingReasons idempotentSkip hasPartialWarning hasMissingMarkerWarning =
     (if hasMissingMarkerWarning then AddWorkspaceMarker
      else if idempotentSkip then RunFullIndex
      else if hasBlockingReasons then AdjustTarget
      else if mode = WtExecute \<and> hasPartialWarning then RunDryRun
      else if mode = WtCheck then RunDryRun
      else Proceed)"

definition resolveRiskClass :: "wt_mode \<Rightarrow> nat \<Rightarrow> wt_risk" where
  "resolveRiskClass mode warningsCount =
     (if mode = WtExecute then RiskHigh else if 0 < warningsCount then RiskModerate else RiskLow)"

definition resolveOutcome :: "wt_mode \<Rightarrow> bool \<Rightarrow> bool \<Rightarrow> bool \<Rightarrow> bool \<Rightarrow> wt_outcome" where
  "resolveOutcome mode preflightAllowed applyDelegated applyFailed rollbackDegraded =
     (if \<not> preflightAllowed then OutBlocked
      else if mode = WtCheck then OutAdvisory
      else if mode = WtDryRun then OutDryRun
      else if applyFailed then OutFailed
      else if rollbackDegraded then OutRollbackDegraded
      else if applyDelegated then OutSucceeded else OutFailed)"

definition resolveFailureClass :: "wt_mode \<Rightarrow> bool \<Rightarrow> bool \<Rightarrow> bool \<Rightarrow> bool \<Rightarrow> wt_failure" where
  "resolveFailureClass mode preflightAllowed applyFailed rollbackDegraded applyDelegated =
     (if \<not> preflightAllowed then PreflightFailure
      else if rollbackDegraded then FailRollbackDegraded
      else if mode = WtCheck \<or> mode = WtDryRun then FailNone
      else if applyFailed then ApplyFailure
      else if \<not> applyDelegated then ApplyFailure
      else FailNone)"

definition normalizeWorkspaceRoots :: "string \<Rightarrow> indexed_workspace list \<Rightarrow> indexed_workspace list" where
  "normalizeWorkspaceRoots cwd workspaces = map (\<lambda>w. w\<lparr>iw_root := canonicalizeAbsolutePath cwd (iw_root w)\<rparr>) workspaces"

definition isSupportedOperation :: "string \<Rightarrow> bool" where
  "isSupportedOperation operation \<longleftrightarrow> operation \<in> set SUPPORTED_OPERATOR_WORKTREE_OPERATIONS"

fun stop_text :: "scan_stop \<Rightarrow> string" where
  "stop_text NoStop = ''none''"
| "stop_text MaxFilesReached = ''max_files_reached''"
| "stop_text MaxDepthReached = ''max_depth_reached''"
| "stop_text MaxFileSizeScanStopped = ''max_file_size_scan_stopped''"
| "stop_text ScanIoError = ''io_error''"

definition push_if :: "bool \<Rightarrow> 'a \<Rightarrow> 'a list" where
  "push_if b x = (if b then [x] else [])"

definition evaluateOperatorSafeProjectWorktree :: "scan_env \<Rightarrow> filesystem \<Rightarrow> preflight_input \<Rightarrow> preflight_result" where
  "evaluateOperatorSafeProjectWorktree E fs input =
     (let cwd = sc_cwd E;
          canonicalRepoRoot = canonicalizeAbsolutePath cwd (pi_repoRoot input);
          canonicalTargetPath = canonicalizeAbsolutePath cwd (pi_targetPath input);
          blocking1 =
            push_if (\<not> isSupportedOperation (pi_operation input))
              (OperationNotSupported, ''Operation '' @ [CHR 0x27] @ pi_operation input @ [CHR 0x27] @ '' is not supported by the bounded operator-safe layer.'')
            @ push_if (js_trim (pi_targetPath input) = []) (EmptyTargetPath, ''Target path is empty.'')
            @ push_if (\<not> existsSync (sc_host E) fs canonicalRepoRoot) (InvalidRepoRoot, ''Repository root does not exist.'')
            @ push_if (\<not> isPathWithinWorkspace cwd canonicalRepoRoot canonicalTargetPath)
                (TargetOutsideRepo, ''Target path is outside the repository boundary.'');
          projects = (if blocking1 \<noteq> [] then []
            else case pi_knownWorkspaces input of
                   Some ws \<Rightarrow> normalizeWorkspaceRoots cwd ws
                 | None \<Rightarrow> detectProjects E fs canonicalRepoRoot None);
          workspaceRoot = findWorkspaceForTarget cwd (map iw_root projects) canonicalTargetPath;
          workspace = (case workspaceRoot of None \<Rightarrow> None | Some r \<Rightarrow> if r = [] then None else List.find (\<lambda>w. iw_root w = r) projects);
          blocking2 = push_if (workspace = None) (WorkspaceNotDetected, ''No detected workspace contains the target path.'');
          missingMarkers = (case workspace of None \<Rightarrow> False
            | Some w \<Rightarrow> (case iw_markers w of None \<Rightarrow> False | Some m \<Rightarrow> \<not> wm_hasCargoToml m \<and> \<not> wm_hasPackageJson m));
          partialScan = (case workspace of None \<Rightarrow> False | Some w \<Rightarrow> iw_partial w = Some True);
          stopReason = Option.bind workspace (\<lambda>w. map_option dg_stopReason (iw_diagnostics w));
          noGit = (\<not> existsSync (sc_host E) fs (canonicalRepoRoot @ ''/.git''));
          requireVcs = (pi_requireVcs input = Some True);
          blocking3 = push_if (requireVcs \<and> noGit) (VcsRequiredButMissing, ''VCS (git) is required for this operation but .git was not found.'');
          warnings =
            push_if missingMarkers (WorkspaceMissingMarkers,
              ''Workspace has no recognized marker file (package.json or Cargo.toml); safety checks run in bounded mode.'')
            @ push_if partialScan (PartialWorkspaceScan, ''Workspace scan is partial (stop reason: ''
                @ (case stopReason of None \<Rightarrow> ''unknown'' | Some r \<Rightarrow> stop_text r) @ '').'')
            @ push_if (\<not> requireVcs \<and> noGit) (VcsUnverified, ''Git metadata is not present; continuing with bounded workspace checks only.'')
            @ push_if (pi_mode input = WtExecute) (ExecuteIsBounded,
                ''Execute mode is bounded to utility-safe checks and does not perform full worktree lifecycle actions.'');
          targetRelativePath = (case workspaceRoot of None \<Rightarrow> None | Some r \<Rightarrow> if r = [] then None else toWorkspaceRelativePath cwd r canonicalTargetPath);
          repoRelativePath = toRepoRelativePath cwd canonicalRepoRoot canonicalTargetPath;
          targetWorkspaceFile = (case targetRelativePath of
              None \<Rightarrow> None
            | Some p \<Rightarrow> if p = [] then None
                else List.find (\<lambda>f. xf_path f = p) (case workspace of None \<Rightarrow> [] | Some w \<Rightarrow> iw_files w));
          alreadyIndexed = (case targetWorkspaceFile of None \<Rightarrow> False | Some f \<Rightarrow> xf_id f \<in> set (nullish (pi_alreadyIndexedFileIds input) []));
          blocking = blocking1 @ blocking2 @ blocking3
            @ push_if alreadyIndexed (AlreadyIndexed, ''Target workspace file is already indexed in this run.'')
      in \<lparr>pf_mode = pi_mode input, pf_operation = pi_operation input, pf_allowed = (blocking = []), pf_warnings = warnings,
          pf_blockingReasons = blocking,
          pf_recommendedAction = resolveRecommendation (pi_mode input) (blocking \<noteq> []) alreadyIndexed partialScan missingMarkers,
          pf_repoRoot = pi_repoRoot input, pf_targetPath = normalizePathSlashes (pi_targetPath input),
          pf_canonicalRepoRoot = canonicalRepoRoot, pf_canonicalTargetPath = canonicalTargetPath,
          pf_workspace = map_option (\<lambda>w. \<lparr>wc_root = iw_root w, wc_type = iw_type w, wc_markers = iw_markers w, wc_partialScan = partialScan,
            wc_scanStopReason = nullish stopReason NoStop, wc_targetRelativePath = targetRelativePath,
            wc_workspaceRelativePath = targetRelativePath, wc_repoRelativePath = repoRelativePath\<rparr>) workspace,
          pf_idempotentSkip = alreadyIndexed\<rparr>)"

section \<open>The lifecycle\<close>

definition stage_of :: "wt_stage \<Rightarrow> bool \<Rightarrow> string \<Rightarrow> stage_result" where
  "stage_of st ok details = \<lparr>sg_stage = st, sg_success = ok, sg_details = details\<rparr>"

text \<open>The report that the lifecycle builds from the results of its stages.\<close>

definition lifecycle_report ::
  "lifecycle_draws \<Rightarrow> preflight_result \<Rightarrow> snapshot_result \<Rightarrow> temp_result \<Rightarrow> apply_result \<Rightarrow> rollback_result \<Rightarrow> execution_report" where
  "lifecycle_report D preflight snapshot tempWorkspace apply' rollback =
     (let (reportId, executionId) = createOperatorSafeExecutionIdentity D;
          ran = (ap_delegated apply' \<or> ap_applied apply' \<or> ap_simulated apply');
          applyFailed = (pf_allowed preflight \<and> \<not> ap_delegated apply' \<and> \<not> ap_applied apply' \<and> \<not> ap_simulated apply')
      in \<lparr>er_id = reportId, er_executionId = executionId, er_createdAt = ld_reportAt D, er_operation = pf_operation preflight,
          er_mode = pf_mode preflight, er_riskClass = resolveRiskClass (pf_mode preflight) (length (pf_warnings preflight)),
          er_outcome = resolveOutcome (pf_mode preflight) (pf_allowed preflight) ran applyFailed (rb_degraded rollback),
          er_failureClass = resolveFailureClass (pf_mode preflight) (pf_allowed preflight) applyFailed (rb_degraded rollback) ran,
          er_recommendedAction = pf_recommendedAction preflight, er_allowed = pf_allowed preflight,
          er_warningCodes = map fst (pf_warnings preflight), er_blockingCodes = map fst (pf_blockingReasons preflight),
          er_stages =
            [stage_of StPreflight (pf_allowed preflight)
               (if pf_allowed preflight then ''Preflight checks passed for bounded operator-safe execution.''
                else ''Preflight blocked execution with '' @ show_nat (length (pf_blockingReasons preflight)) @ '' blocking reason(s).''),
             stage_of StPrepare (pf_allowed preflight \<and> (sr_captured snapshot \<or> \<not> sr_required snapshot))
               (if sr_required snapshot then (if sr_captured snapshot then ''Snapshot metadata captured.'' else ''Snapshot was required but not captured.'')
                else ''Snapshot not required for this mode.''),
             stage_of StApply (pf_allowed preflight \<and> (ap_simulated apply' \<or> ap_delegated apply' \<or> ap_applied apply')) (ap_message apply'),
             stage_of StRollback (\<not> rb_degraded rollback) (rb_message rollback),
             stage_of StCleanup True
               (if tw_created tempWorkspace then ''Temp workspace lifecycle recorded; cleanup controlled by maintenance utilities.''
                else ''No temp workspace provisioned for advisory mode.'')],
          er_repoRoot = pf_canonicalRepoRoot preflight, er_targetPath = pf_canonicalTargetPath preflight,
          er_workspaceRoot = map_option wc_root (pf_workspace preflight),
          er_workspaceRelativePath = map_option wc_workspaceRelativePath (pf_workspace preflight),
          er_repoRelativePath = map_option wc_repoRelativePath (pf_workspace preflight),
          er_relatedSnapshot = map_option (\<lambda>m. (sm_id m, sr_artifactPath snapshot)) (sr_manifest snapshot),
          er_relatedTempWorkspace =
            (case (truthy_text (Some (tw_id tempWorkspace)), truthy_text (Some (tw_path tempWorkspace))) of
               (Some i, Some p) \<Rightarrow> Some (i, Some p) | _ \<Rightarrow> None),
          er_snapshot = Some snapshot, er_tempWorkspace = Some tempWorkspace, er_apply = Some apply', er_rollback = Some rollback,
          er_notes = [''Bounded operator-safe lifecycle executed.'',
              ''Execution apply remains delegated to operation-specific runner for execute mode.'']
            @ push_if (rb_unavailable rollback)
                ''Rollback-light is unavailable for this flow; this is distinct from rollback-degraded execution.''\<rparr>)"

definition runOperatorSafeProjectWorktreeLifecycle ::
  "scan_env \<Rightarrow> lifecycle_draws \<Rightarrow> preflight_input \<Rightarrow> filesystem \<Rightarrow> (string + preflight_result \<times> execution_report \<times> string) \<times> filesystem" where
  "runOperatorSafeProjectWorktreeLifecycle E D input fs =
     (let H = sc_host E;
          preflight = evaluateOperatorSafeProjectWorktree E fs input;
          (reportId, executionId) = createOperatorSafeExecutionIdentity D;
          root = pf_canonicalRepoRoot preflight
      in case captureOperatorSafeSnapshot H D root preflight executionId reportId fs of
           (Inl e, fs1) \<Rightarrow> (Inl e, fs1)
         | (Inr snapshot, fs1) \<Rightarrow>
             (case prepareOperatorSafeTempWorkspace H D root (pf_operation preflight) (pf_mode preflight) executionId reportId None fs1 of
                (Inl e, fs2) \<Rightarrow> (Inl e, fs2)
              | (Inr tempWorkspace, fs2) \<Rightarrow>
                  let apply' = runOperatorSafeBoundedApply preflight;
                      rollback = attemptOperatorSafeRollbackLight (pf_mode preflight) (Some snapshot) (Some apply');
                      report = lifecycle_report D preflight snapshot tempWorkspace apply' rollback
                  in case writeOperatorSafeExecutionReport H root report fs2 of
                       (Inl e, fs3) \<Rightarrow> (Inl e, fs3)
                     | (Inr reportPath, fs3) \<Rightarrow> (Inr (preflight, report, reportPath), fs3)))"

end
