(* ===== verification/OperatorMaintenance.thy ===== *)
theory OperatorMaintenance
  imports OperatorWorktree
begin

text \<open>
  Maintenance of the artifacts that the operator-safe lifecycle leaves behind,
  \<^verbatim>\<open>packages/runtime/src/workspace/operator-safe-maintenance-utils.ts\<close>: listing, inspection, pruning by age and cleanup of a
  report or one artifact.

  The code casts what it parses, so a parsed artifact stays a JSON value here and its fields are looked up one by one:
  \<open>None\<close> is \<^verbatim>\<open>undefined\<close>. \<open>maint_env\<close> holds the process environment, the collation of \<^verbatim>\<open>localeCompare\<close>, \<^verbatim>\<open>Date.parse\<close> of a value
  (\<open>None\<close> is \<^verbatim>\<open>NaN\<close>), \<^verbatim>\<open>Date.toISOString\<close>, the times of a file, and what \<^verbatim>\<open>+\<close> makes of a number and a lifetime that is no
  number. The inventory is sorted by \<^verbatim>\<open>localeCompare\<close> of the ids, which throws for an id that is no string: there an id counts as its
  text.
\<close>

section \<open>Data\<close>

datatype family = FamReport | FamSnapshot | FamTempWorkspace

datatype family_selector = SelAll | SelFamily family

datatype maint_mode = MtDryRun | MtApply

datatype maint_reason =
    ArtifactNotFound | FamilyNotSupported | PathOutsideOperatorSafeRoot | CleanupEligibilityUnproven
  | ArtifactTooRecentForPolicyPrune | MetadataUnreadableOrUntrusted | AlreadyRemoved | LinkedArtifactMissing
  | EligibleByPolicyPrune | EligibleByDegradedReport | EligibleByOrphanTarget | EligibleByTempStaleness
  | ReportOutcomeNotCleanupEligible | CleanupRequiresReportOrFamilyTarget | TargetFamilyNotCleanupSupported | InvalidCleanupTarget

datatype eligibility = Eligible | Retained | EligibilityUnknown

fun family_text :: "family \<Rightarrow> string" where
  "family_text FamReport = ''report''"
| "family_text FamSnapshot = ''snapshot''"
| "family_text FamTempWorkspace = ''temp_workspace''"

record maint_env =
  me_host :: host
  me_ck :: collation
  me_dateParse :: "json \<Rightarrow> int option"
  me_toISO :: "int \<Rightarrow> string"
  me_birthtimeMs :: "string list \<Rightarrow> int"
  me_mtimeMs :: "string list \<Rightarrow> int"
  me_addMs :: "int \<Rightarrow> json \<Rightarrow> int option"

record listed_artifact =
  la_family :: family
  la_artifactId :: json
  la_path :: string
  la_existsOnDisk :: bool
  la_createdAt :: "json option"
  la_lastTouchedAt :: "json option"
  la_operation :: "json option"
  la_mode :: "json option"
  la_executionId :: "json option"
  la_reportId :: "json option"
  la_outcome :: "json option"
  la_failureClass :: "json option"
  la_cleanupEligibility :: eligibility
  la_cleanupReason :: "maint_reason option"
  la_report :: "json option"
  la_snapshot :: "json option"
  la_tempManifest :: "json option"
  la_metadataUntrusted :: bool

record inventory_record =
  ir_family :: family
  ir_artifactId :: json
  ir_executionId :: "json option"
  ir_reportId :: "json option"
  ir_path :: string
  ir_existsOnDisk :: bool
  ir_createdAt :: "json option"
  ir_lastTouchedAt :: "json option"
  ir_operation :: "json option"
  ir_mode :: "json option"
  ir_outcome :: "json option"
  ir_failureClass :: "json option"
  ir_cleanupEligibility :: eligibility
  ir_cleanupReason :: "maint_reason option"

record inventory =
  iv_generatedAt :: string
  iv_selectedFamily :: family_selector
  iv_limit :: "int option"
  iv_totalCount :: nat
  iv_report :: "inventory_record list"
  iv_snapshot :: "inventory_record list"
  iv_tempWorkspace :: "inventory_record list"

record action_item =
  ai_family :: family
  ai_artifactId :: json
  ai_executionId :: "json option"
  ai_reportId :: "json option"
  ai_path :: string
  ai_reason :: maint_reason
  ai_detail :: "string option"

record maint_warning =
  mw_family :: family
  mw_artifactId :: json
  mw_reason :: maint_reason
  mw_message :: string

datatype maint_action = ActPrune | ActCleanup

record action_result =
  ar_action :: maint_action
  ar_mode :: maint_mode
  ar_requestedFamily :: family_selector
  ar_evaluated :: "action_item list"
  ar_planned :: "action_item list"
  ar_removed :: "action_item list"
  ar_retained :: "action_item list"
  ar_skipped :: "action_item list"
  ar_warnings :: "maint_warning list"

record prune_request =
  pq_mode :: maint_mode
  pq_family :: "family_selector option"
  pq_nowMs :: int
  pq_retentionOverridesMs :: "family \<Rightarrow> int option"

record cleanup_request =
  cq_mode :: maint_mode
  cq_reportId :: "string option"
  cq_family :: "family option"
  cq_artifactId :: "string option"
  cq_nowMs :: int

fun DEFAULT_RETENTION_MS :: "family \<Rightarrow> int" where
  "DEFAULT_RETENTION_MS FamReport = 7 * 24 * 60 * 60 * 1000"
| "DEFAULT_RETENTION_MS FamSnapshot = 3 * 24 * 60 * 60 * 1000"
| "DEFAULT_RETENTION_MS FamTempWorkspace = 24 * 60 * 60 * 1000"

section \<open>JSON values as objects\<close>

definition jget :: "json \<Rightarrow> string \<Rightarrow> json option" where
  "jget v f = (case v of JObj fs \<Rightarrow> map_of fs f | _ \<Rightarrow> None)"

definition truthy :: "json \<Rightarrow> bool" where
  "truthy v = (v \<notin> {JNull, JBool False, JNum 0, JStr []})"

text \<open>\<^verbatim>\<open>x ?? d\<close>: null is replaced too.\<close>

definition coalesce :: "json option \<Rightarrow> json \<Rightarrow> json" where
  "coalesce x d = (case x of None \<Rightarrow> d | Some JNull \<Rightarrow> d | Some v \<Rightarrow> v)"

definition coalesce2 :: "json option \<Rightarrow> json option \<Rightarrow> json option" where
  "coalesce2 x y = (case x of None \<Rightarrow> y | Some JNull \<Rightarrow> y | Some v \<Rightarrow> Some v)"

definition parseJsonSafe :: "string \<Rightarrow> json option" where
  "parseJsonSafe raw = JSON_parse raw"

section \<open>Helpers\<close>

definition defaultFamilySelector :: "family_selector option \<Rightarrow> family_selector" where
  "defaultFamilySelector v = nullish v SelAll"

definition isJsonFile :: "string \<Rightarrow> bool" where
  "isJsonFile entry = js_endsWith entry ''.json''"

definition stripJsonSuffix :: "string \<Rightarrow> string" where
  "stripJsonSuffix entry = (if js_endsWith entry ''.json'' then take (length entry - 5) entry else entry)"

definition readDirEntriesSafe :: "host \<Rightarrow> filesystem \<Rightarrow> string \<Rightarrow> string list" where
  "readDirEntriesSafe H fs dir = (case readdir H fs dir of None \<Rightarrow> [] | Some es \<Rightarrow> map fst es)"

definition isPathWithin :: "string \<Rightarrow> string \<Rightarrow> string \<Rightarrow> bool" where
  "isPathWithin cwd base candidate =
     (let relative = path_relative cwd base candidate in relative = [] \<or> \<not> js_startsWith relative ''..'' \<and> \<not> isAbsolute relative)"

definition resolveArtifactPath :: "string \<Rightarrow> family \<Rightarrow> string \<Rightarrow> string" where
  "resolveArtifactPath repoRoot fam artifactId =
     (case fam of
        FamReport \<Rightarrow> path_join (resolveOperatorSafeReportsDir repoRoot) (artifactId @ ''.json'')
      | FamSnapshot \<Rightarrow> path_join (resolveOperatorSafeSnapshotsDir repoRoot) (artifactId @ ''.json'')
      | FamTempWorkspace \<Rightarrow> path_join (resolveOperatorSafeTempDir repoRoot) artifactId)"

definition pruneEligibleReason :: "listed_artifact \<Rightarrow> maint_reason" where
  "pruneEligibleReason item = (if la_family item = FamTempWorkspace then EligibleByTempStaleness else EligibleByPolicyPrune)"

definition buildInventoryRecord :: "listed_artifact \<Rightarrow> inventory_record" where
  "buildInventoryRecord item =
     \<lparr>ir_family = la_family item, ir_artifactId = la_artifactId item, ir_executionId = la_executionId item, ir_reportId = la_reportId item,
      ir_path = la_path item, ir_existsOnDisk = la_existsOnDisk item, ir_createdAt = la_createdAt item,
      ir_lastTouchedAt = la_lastTouchedAt item, ir_operation = la_operation item, ir_mode = la_mode item, ir_outcome = la_outcome item,
      ir_failureClass = la_failureClass item, ir_cleanupEligibility = la_cleanupEligibility item, ir_cleanupReason = la_cleanupReason item\<rparr>"

definition toActionItem :: "listed_artifact \<Rightarrow> maint_reason \<Rightarrow> string option \<Rightarrow> action_item" where
  "toActionItem item reason detail =
     \<lparr>ai_family = la_family item, ai_artifactId = la_artifactId item, ai_executionId = la_executionId item, ai_reportId = la_reportId item,
      ai_path = la_path item, ai_reason = reason, ai_detail = detail\<rparr>"

definition getReportCleanupEligible :: "json \<Rightarrow> bool" where
  "getReportCleanupEligible report \<longleftrightarrow>
     jget report ''outcome'' \<in> Some ` JStr ` {''blocked'', ''failed'', ''cleanup_failed'', ''rollback_degraded''}"

definition classifyReportEligibility :: "json \<Rightarrow> eligibility \<times> maint_reason" where
  "classifyReportEligibility report =
     (if getReportCleanupEligible report then (Eligible, EligibleByDegradedReport) else (Retained, CleanupEligibilityUnproven))"

definition classifyTempEligibility ::
  "maint_env \<Rightarrow> int \<Rightarrow> json option \<Rightarrow> json option \<Rightarrow> bool \<Rightarrow> bool \<Rightarrow> eligibility \<times> maint_reason" where
  "classifyTempEligibility E nowMs createdAt staleAfterMs linkedReportExists metadataUntrusted =
     (if metadataUntrusted then (EligibilityUnknown, MetadataUnreadableOrUntrusted)
      else if \<not> linkedReportExists then (Eligible, EligibleByOrphanTarget)
      else
        case (createdAt, staleAfterMs) of
          (Some c, Some s) \<Rightarrow>
            if \<not> truthy c \<or> \<not> truthy s then (EligibilityUnknown, MetadataUnreadableOrUntrusted)
            else
              (case me_dateParse E c of
                 None \<Rightarrow> (EligibilityUnknown, MetadataUnreadableOrUntrusted)
               | Some createdMs \<Rightarrow>
                   (case (case s of JNum n \<Rightarrow> Some (createdMs + n) | _ \<Rightarrow> me_addMs E createdMs s) of
                      None \<Rightarrow> (Retained, CleanupEligibilityUnproven)
                    | Some t \<Rightarrow> if t \<le> nowMs then (Eligible, EligibleByTempStaleness) else (Retained, CleanupEligibilityUnproven)))
        | _ \<Rightarrow> (EligibilityUnknown, MetadataUnreadableOrUntrusted))"

section \<open>Reading the artifacts\<close>

definition missing_artifact :: "family \<Rightarrow> string \<Rightarrow> string \<Rightarrow> listed_artifact" where
  "missing_artifact fam artifactId p =
     \<lparr>la_family = fam, la_artifactId = JStr artifactId, la_path = p, la_existsOnDisk = False, la_createdAt = None, la_lastTouchedAt = None,
      la_operation = None, la_mode = None, la_executionId = None, la_reportId = None, la_outcome = None, la_failureClass = None,
      la_cleanupEligibility = EligibilityUnknown, la_cleanupReason = Some AlreadyRemoved, la_report = None, la_snapshot = None,
      la_tempManifest = None, la_metadataUntrusted = False\<rparr>"

text \<open>The times of a file; zero counts as unknown.\<close>

definition first_time :: "int list \<Rightarrow> int \<Rightarrow> int" where
  "first_time ts now = (case filter (\<lambda>t. t \<noteq> 0) ts of [] \<Rightarrow> now | t # _ \<Rightarrow> t)"

definition created_iso :: "maint_env \<Rightarrow> string \<Rightarrow> int \<Rightarrow> json" where
  "created_iso E p nowMs =
     (let k = resolve_segs (hs_cwd (me_host E)) p in JStr (me_toISO E (first_time [me_birthtimeMs E k, me_mtimeMs E k] nowMs)))"

definition touched_iso :: "maint_env \<Rightarrow> string \<Rightarrow> int \<Rightarrow> json" where
  "touched_iso E p nowMs = JStr (me_toISO E (first_time [me_mtimeMs E (resolve_segs (hs_cwd (me_host E)) p)] nowMs))"

definition untrusted_artifact :: "maint_env \<Rightarrow> int \<Rightarrow> family \<Rightarrow> string \<Rightarrow> string \<Rightarrow> listed_artifact" where
  "untrusted_artifact E nowMs fam artifactId p =
     (missing_artifact fam artifactId p)\<lparr>la_existsOnDisk := True, la_createdAt := Some (created_iso E p nowMs),
        la_lastTouchedAt := Some (touched_iso E p nowMs), la_cleanupReason := Some MetadataUnreadableOrUntrusted, la_metadataUntrusted := True\<rparr>"

text \<open>What \<^verbatim>\<open>readFile(...).catch(() => null)\<close> and \<^verbatim>\<open>parseJsonSafe\<close> give: a value that counts as true, or nothing.\<close>

definition read_json :: "host \<Rightarrow> filesystem \<Rightarrow> string \<Rightarrow> json option" where
  "read_json H fs p =
     (case readFileSync H fs p of
        Inl e \<Rightarrow> None
      | Inr b \<Rightarrow>
          let raw = hs_toString H b in
          if raw = [] then None else (case parseJsonSafe raw of None \<Rightarrow> None | Some v \<Rightarrow> if truthy v then Some v else None))"

definition read_report :: "maint_env \<Rightarrow> filesystem \<Rightarrow> string \<Rightarrow> int \<Rightarrow> string \<Rightarrow> listed_artifact" where
  "read_report E fs reportsDir nowMs entry =
     (let reportPath = path_join reportsDir entry; artifactId = stripJsonSuffix entry in
      if stat (me_host E) fs reportPath = None then missing_artifact FamReport artifactId reportPath
      else
        case read_json (me_host E) fs reportPath of
          None \<Rightarrow> untrusted_artifact E nowMs FamReport artifactId reportPath
        | Some parsed \<Rightarrow>
            let (el, reason) = classifyReportEligibility parsed; rid = coalesce (jget parsed ''id'') (JStr artifactId) in
            \<lparr>la_family = FamReport, la_artifactId = rid, la_path = reportPath, la_existsOnDisk = True,
             la_createdAt = Some (coalesce (jget parsed ''createdAt'') (created_iso E reportPath nowMs)),
             la_lastTouchedAt = Some (touched_iso E reportPath nowMs), la_operation = jget parsed ''operation'', la_mode = jget parsed ''mode'',
             la_executionId = jget parsed ''executionId'', la_reportId = Some rid, la_outcome = jget parsed ''outcome'',
             la_failureClass = jget parsed ''failureClass'', la_cleanupEligibility = el, la_cleanupReason = Some reason,
             la_report = Some parsed, la_snapshot = None, la_tempManifest = None, la_metadataUntrusted = False\<rparr>)"

definition readReportArtifacts :: "maint_env \<Rightarrow> filesystem \<Rightarrow> string \<Rightarrow> int \<Rightarrow> listed_artifact list" where
  "readReportArtifacts E fs repoRoot nowMs =
     (let reportsDir = resolveOperatorSafeReportsDir repoRoot in
      map (read_report E fs reportsDir nowMs)
        (sort_key (me_ck E) (filter isJsonFile (readDirEntriesSafe (me_host E) fs reportsDir))))"

text \<open>\<^verbatim>\<open>typeof v.reportId === "string" && knownReportIds.has(v.reportId)\<close>.\<close>

definition linked :: "json list \<Rightarrow> json \<Rightarrow> bool" where
  "linked knownReportIds v =
     (case jget v ''reportId'' of Some (JStr r) \<Rightarrow> JStr r \<in> set knownReportIds | _ \<Rightarrow> False)"

definition read_snapshot :: "maint_env \<Rightarrow> filesystem \<Rightarrow> json list \<Rightarrow> string \<Rightarrow> int \<Rightarrow> string \<Rightarrow> listed_artifact" where
  "read_snapshot E fs knownReportIds snapshotsDir nowMs entry =
     (let snapshotPath = path_join snapshotsDir entry; artifactId = stripJsonSuffix entry in
      if stat (me_host E) fs snapshotPath = None then missing_artifact FamSnapshot artifactId snapshotPath
      else
        case read_json (me_host E) fs snapshotPath of
          None \<Rightarrow> untrusted_artifact E nowMs FamSnapshot artifactId snapshotPath
        | Some parsed \<Rightarrow>
            let linkedReportExists = linked knownReportIds parsed in
            \<lparr>la_family = FamSnapshot, la_artifactId = coalesce (jget parsed ''id'') (JStr artifactId), la_path = snapshotPath, la_existsOnDisk = True,
             la_createdAt = Some (coalesce (jget parsed ''createdAt'') (created_iso E snapshotPath nowMs)),
             la_lastTouchedAt = Some (touched_iso E snapshotPath nowMs), la_operation = jget parsed ''operation'', la_mode = jget parsed ''mode'',
             la_executionId = jget parsed ''executionId'', la_reportId = jget parsed ''reportId'', la_outcome = None, la_failureClass = None,
             la_cleanupEligibility = (if linkedReportExists then Retained else Eligible),
             la_cleanupReason = Some (if linkedReportExists then CleanupEligibilityUnproven else EligibleByOrphanTarget),
             la_report = None, la_snapshot = Some parsed, la_tempManifest = None, la_metadataUntrusted = False\<rparr>)"

definition readSnapshotArtifacts :: "maint_env \<Rightarrow> filesystem \<Rightarrow> string \<Rightarrow> int \<Rightarrow> json list \<Rightarrow> listed_artifact list" where
  "readSnapshotArtifacts E fs repoRoot nowMs knownReportIds =
     (let snapshotsDir = resolveOperatorSafeSnapshotsDir repoRoot in
      map (read_snapshot E fs knownReportIds snapshotsDir nowMs)
        (sort_key (me_ck E) (filter isJsonFile (readDirEntriesSafe (me_host E) fs snapshotsDir))))"

definition read_temp :: "maint_env \<Rightarrow> filesystem \<Rightarrow> json list \<Rightarrow> string \<Rightarrow> int \<Rightarrow> string \<Rightarrow> listed_artifact" where
  "read_temp E fs knownReportIds tempDir nowMs entry =
     (let tempPath = path_join tempDir entry in
      if stat (me_host E) fs tempPath = None then missing_artifact FamTempWorkspace entry tempPath
      else
        case read_json (me_host E) fs (path_join tempPath ''manifest.json'') of
          None \<Rightarrow>
            let (el, reason) = classifyTempEligibility E nowMs None None False True in
            (untrusted_artifact E nowMs FamTempWorkspace entry tempPath)\<lparr>la_cleanupEligibility := el, la_cleanupReason := Some reason\<rparr>
        | Some manifest \<Rightarrow>
            let (el, reason) = classifyTempEligibility E nowMs (jget manifest ''createdAt'') (jget manifest ''staleAfterMs'')
                  (linked knownReportIds manifest) False
            in
            \<lparr>la_family = FamTempWorkspace,
             la_artifactId = (case jget manifest ''id'' of Some v \<Rightarrow> if truthy v then v else JStr entry | None \<Rightarrow> JStr entry),
             la_path = tempPath, la_existsOnDisk = True, la_createdAt = jget manifest ''createdAt'',
             la_lastTouchedAt = Some (coalesce (jget manifest ''lastTouchedAt'') (touched_iso E tempPath nowMs)),
             la_operation = jget manifest ''operation'', la_mode = jget manifest ''mode'', la_executionId = jget manifest ''executionId'',
             la_reportId = jget manifest ''reportId'', la_outcome = None, la_failureClass = None, la_cleanupEligibility = el,
             la_cleanupReason = Some reason, la_report = None, la_snapshot = None, la_tempManifest = Some manifest, la_metadataUntrusted = False\<rparr>)"

definition readTempArtifacts :: "maint_env \<Rightarrow> filesystem \<Rightarrow> string \<Rightarrow> int \<Rightarrow> json list \<Rightarrow> listed_artifact list" where
  "readTempArtifacts E fs repoRoot nowMs knownReportIds =
     (let tempDir = resolveOperatorSafeTempDir repoRoot in
      map (read_temp E fs knownReportIds tempDir nowMs) (sort_key (me_ck E) (readDirEntriesSafe (me_host E) fs tempDir)))"

definition collectArtifacts :: "maint_env \<Rightarrow> filesystem \<Rightarrow> string \<Rightarrow> int \<Rightarrow> listed_artifact list" where
  "collectArtifacts E fs repoRoot nowMs =
     (let reports = readReportArtifacts E fs repoRoot nowMs; reportIds = map la_artifactId reports in
      reports @ readSnapshotArtifacts E fs repoRoot nowMs reportIds @ readTempArtifacts E fs repoRoot nowMs reportIds)"

definition filterArtifactsByFamily :: "listed_artifact list \<Rightarrow> family_selector \<Rightarrow> listed_artifact list" where
  "filterArtifactsByFamily items sel = (case sel of SelAll \<Rightarrow> items | SelFamily f \<Rightarrow> filter (\<lambda>i. la_family i = f) items)"

section \<open>Listing and inspection\<close>

text \<open>\<^verbatim>\<open>Array.sort\<close> with a comparison function: stable insertion.\<close>

fun insert_by :: "('a \<Rightarrow> 'a \<Rightarrow> int) \<Rightarrow> 'a \<Rightarrow> 'a list \<Rightarrow> 'a list" where
  "insert_by cmp x [] = [x]"
| "insert_by cmp x (y # ys) = (if 0 < cmp y x then x # y # ys else y # insert_by cmp x ys)"

definition js_sort :: "('a \<Rightarrow> 'a \<Rightarrow> int) \<Rightarrow> 'a list \<Rightarrow> 'a list" where
  "js_sort cmp xs = fold (insert_by cmp) xs []"

definition key_compare :: "nat list \<Rightarrow> nat list \<Rightarrow> int" where
  "key_compare a b = (if a < b then - 1 else if b < a then 1 else 0)"

definition id_text :: "json \<Rightarrow> string" where
  "id_text v = (case v of JStr s \<Rightarrow> s | _ \<Rightarrow> JSON_stringify v)"

definition EPOCH :: json where
  "EPOCH = JStr ''1970-01-01T00:00:00.000Z''"

definition recency :: "maint_env \<Rightarrow> json \<Rightarrow> listed_artifact \<Rightarrow> int option" where
  "recency E d item = me_dateParse E (coalesce (coalesce2 (la_lastTouchedAt item) (la_createdAt item)) d)"

text \<open>A comparison that involves \<^verbatim>\<open>NaN\<close> gives \<^verbatim>\<open>NaN\<close>, which counts as 0.\<close>

definition compare_artifacts :: "maint_env \<Rightarrow> listed_artifact \<Rightarrow> listed_artifact \<Rightarrow> int" where
  "compare_artifacts E left right =
     (case (recency E EPOCH left, recency E EPOCH right) of
        (Some leftTs, Some rightTs) \<Rightarrow>
          if leftTs \<noteq> rightTs then rightTs - leftTs
          else if la_family left \<noteq> la_family right
          then key_compare (me_ck E (family_text (la_family left))) (me_ck E (family_text (la_family right)))
          else key_compare (me_ck E (id_text (la_artifactId left))) (me_ck E (id_text (la_artifactId right)))
      | _ \<Rightarrow> 0)"

definition sortArtifactsForInventory :: "maint_env \<Rightarrow> listed_artifact list \<Rightarrow> listed_artifact list" where
  "sortArtifactsForInventory E items = js_sort (compare_artifacts E) items"

type_synonym 'a outcome_fs = "(string + 'a) \<times> filesystem"

definition listOperatorSafeArtifacts ::
  "maint_env \<Rightarrow> string \<Rightarrow> family_selector option \<Rightarrow> int option \<Rightarrow> int \<Rightarrow> filesystem \<Rightarrow> inventory outcome_fs" where
  "listOperatorSafeArtifacts E repoRoot fam limit nowMs fs =
     (case ensureOperatorSafeArtifactDirs (me_host E) repoRoot fs of
        (Inl e, fs1) \<Rightarrow> (Inl e, fs1)
      | (Inr u, fs1) \<Rightarrow>
          let selectedFamily = defaultFamilySelector fam;
              filtered = sortArtifactsForInventory E (filterArtifactsByFamily (collectArtifacts E fs1 repoRoot nowMs) selectedFamily);
              limited = (case limit of None \<Rightarrow> filtered | Some l \<Rightarrow> if 0 < l then take (nat l) filtered else filtered);
              records = (\<lambda>f. map buildInventoryRecord (filter (\<lambda>i. la_family i = f) limited))
          in (Inr \<lparr>iv_generatedAt = me_toISO E nowMs, iv_selectedFamily = selectedFamily, iv_limit = limit, iv_totalCount = length limited,
                iv_report = records FamReport, iv_snapshot = records FamSnapshot, iv_tempWorkspace = records FamTempWorkspace\<rparr>, fs1))"

datatype inspect_details =
    ReportDetails (rd_operation: "json option") (rd_mode: "json option") (rd_outcome: "json option") (rd_failureClass: "json option")
      (rd_recommendedAction: "json option") (rd_warningCodes: json) (rd_blockingCodes: json) (rd_linkedSnapshotId: "json option")
      (rd_linkedTempWorkspaceId: "json option")
  | SnapshotDetails (sd_operation: "json option") (sd_mode: "json option") (sd_repoRoot: "json option") (sd_targetPath: "json option")
      (sd_workspaceRoot: "json option") (sd_workspaceRelativePath: "json option") (sd_repoRelativePath: "json option")
      (sd_warningCodes: json) (sd_idempotentSkip: json) (sd_linkedReportId: "json option") (sd_orphaned: bool)
  | TempDetails (td_operation: "json option") (td_mode: "json option") (td_tempPath: json) (td_staleAfterMs: "json option")
      (td_nextEligibleCleanupAt: "string option") (td_linkedReportId: "json option") (td_orphaned: bool)

text \<open>\<^verbatim>\<open>v?.f\<close> of a value that may be undefined or null.\<close>

definition opt_get :: "json option \<Rightarrow> string \<Rightarrow> json option" where
  "opt_get v f = (case v of None \<Rightarrow> None | Some x \<Rightarrow> jget x f)"

text \<open>\<^verbatim>\<open>v?.f.g\<close> throws when \<^verbatim>\<open>v\<close> is there and its field \<^verbatim>\<open>f\<close> is undefined or null.\<close>

definition strict_get :: "json option \<Rightarrow> string \<Rightarrow> string + json option" where
  "strict_get v f =
     (case v of
        None \<Rightarrow> Inr None
      | Some x \<Rightarrow> (case jget x f of None \<Rightarrow> Inl ''TypeError'' | Some JNull \<Rightarrow> Inl ''TypeError'' | Some y \<Rightarrow> Inr (Some y)))"

definition orphaned :: "json option \<Rightarrow> listed_artifact list \<Rightarrow> bool" where
  "orphaned linkedReportId allArtifacts =
     (case linkedReportId of
        None \<Rightarrow> True
      | Some r \<Rightarrow> \<not> truthy r \<or> \<not> list_ex (\<lambda>c. la_family c = FamReport \<and> la_artifactId c = r) allArtifacts)"

definition getInspectDetails :: "maint_env \<Rightarrow> listed_artifact \<Rightarrow> listed_artifact list \<Rightarrow> string + inspect_details" where
  "getInspectDetails E item allArtifacts =
     (case la_family item of
        FamReport \<Rightarrow>
          let r = la_report item in
          (case strict_get r ''relatedArtifacts'' of
             Inl e \<Rightarrow> Inl e
           | Inr related \<Rightarrow> Inr (ReportDetails (opt_get r ''operation'') (opt_get r ''mode'') (opt_get r ''outcome'') (opt_get r ''failureClass'')
               (opt_get r ''recommendedAction'') (coalesce (opt_get r ''warningCodes'') (JArr [])) (coalesce (opt_get r ''blockingCodes'') (JArr []))
               (coalesce2 (opt_get (opt_get related ''snapshot'') ''artifactId'') (opt_get (opt_get (opt_get r ''snapshot'') ''manifest'') ''id''))
               (coalesce2 (opt_get (opt_get related ''tempWorkspace'') ''artifactId'') (opt_get (opt_get r ''tempWorkspace'') ''id''))))
      | FamSnapshot \<Rightarrow>
          let s = la_snapshot item; linkedReportId = coalesce2 (opt_get s ''reportId'') (la_reportId item) in
          (case strict_get s ''metadata'' of
             Inl e \<Rightarrow> Inl e
           | Inr metadata \<Rightarrow> Inr (SnapshotDetails (opt_get s ''operation'') (opt_get s ''mode'') (opt_get s ''repoRoot'') (opt_get s ''targetPath'')
               (opt_get s ''workspaceRoot'') (coalesce2 (opt_get s ''workspaceRelativePath'') (opt_get s ''targetRelativePath''))
               (opt_get s ''repoRelativePath'') (coalesce (opt_get metadata ''warningCodes'') (JArr []))
               (coalesce (opt_get metadata ''idempotentSkip'') (JBool False)) linkedReportId (orphaned linkedReportId allArtifacts)))
      | FamTempWorkspace \<Rightarrow>
          let t = la_tempManifest item; linkedReportId = coalesce2 (opt_get t ''reportId'') (la_reportId item);
              createdMs = me_dateParse E (coalesce (coalesce2 (opt_get t ''createdAt'') (la_createdAt item)) (JStr []));
              staleAfterMs = opt_get t ''staleAfterMs''
          in Inr (TempDetails (opt_get t ''operation'') (opt_get t ''mode'') (coalesce (opt_get t ''tempPath'') (JStr (la_path item))) staleAfterMs
               (case (createdMs, staleAfterMs) of (Some c, Some (JNum n)) \<Rightarrow> Some (me_toISO E (c + n)) | _ \<Rightarrow> None)
               linkedReportId (orphaned linkedReportId allArtifacts)))"

record inspect_result =
  ns_family :: family
  ns_artifactId :: string
  ns_found :: bool
  ns_reason :: "maint_reason option"
  ns_record :: "inventory_record option"
  ns_details :: "inspect_details option"
  ns_warnings :: "(maint_reason \<times> string) list"

definition inspectOperatorSafeArtifact ::
  "maint_env \<Rightarrow> string \<Rightarrow> family \<Rightarrow> string \<Rightarrow> int \<Rightarrow> filesystem \<Rightarrow> inspect_result outcome_fs" where
  "inspectOperatorSafeArtifact E repoRoot fam artifactId nowMs fs =
     (case ensureOperatorSafeArtifactDirs (me_host E) repoRoot fs of
        (Inl e, fs1) \<Rightarrow> (Inl e, fs1)
      | (Inr u, fs1) \<Rightarrow>
          let allArtifacts = collectArtifacts E fs1 repoRoot nowMs in
          (case List.find (\<lambda>i. la_family i = fam \<and> la_artifactId i = JStr artifactId) allArtifacts of
             None \<Rightarrow>
               (Inr \<lparr>ns_family = fam, ns_artifactId = artifactId, ns_found = False, ns_reason = Some ArtifactNotFound, ns_record = None, ns_details = None,
                  ns_warnings = [(ArtifactNotFound, ''No '' @ family_text fam @ '' artifact with id '' @ [CHR 0x27] @ artifactId @ [CHR 0x27]
                    @ '' was found under operator-safe roots.'')]\<rparr>, fs1)
           | Some target \<Rightarrow>
               (case getInspectDetails E target allArtifacts of
                  Inl e \<Rightarrow> (Inl e, fs1)
                | Inr details \<Rightarrow>
                    (Inr \<lparr>ns_family = fam, ns_artifactId = artifactId, ns_found = True, ns_reason = None,
                       ns_record = Some (buildInventoryRecord target), ns_details = Some details,
                       ns_warnings =
                         push_if (la_metadataUntrusted target)
                           (MetadataUnreadableOrUntrusted, ''Artifact metadata is unreadable or untrusted; inspect output is partial.'')
                         @ push_if (la_cleanupReason target = Some CleanupEligibilityUnproven)
                             (CleanupEligibilityUnproven, ''Cleanup eligibility is unproven from artifact truth; retained by default.'')
                         @ push_if (la_cleanupReason target = Some AlreadyRemoved)
                             (AlreadyRemoved, ''Artifact metadata exists in inventory but path is already removed.'')\<rparr>, fs1))))"

section \<open>Removal\<close>

definition rm_recursive :: "string list \<Rightarrow> filesystem \<Rightarrow> filesystem" where
  "rm_recursive k fs = filter (\<lambda>(q, n). \<not> prefix k q) fs"

definition family_root :: "string \<Rightarrow> family \<Rightarrow> string" where
  "family_root repoRoot fam =
     (case fam of FamReport \<Rightarrow> resolveOperatorSafeReportsDir repoRoot | FamSnapshot \<Rightarrow> resolveOperatorSafeSnapshotsDir repoRoot
      | FamTempWorkspace \<Rightarrow> resolveOperatorSafeTempDir repoRoot)"

text \<open>The left value is the reason and the detail of a refusal.\<close>

definition removeArtifactPath :: "host \<Rightarrow> string \<Rightarrow> listed_artifact \<Rightarrow> filesystem \<Rightarrow> (maint_reason \<times> string + unit) \<times> filesystem" where
  "removeArtifactPath H repoRoot item fs =
     (if \<not> isPathWithin (hs_cwd H) (family_root repoRoot (la_family item)) (la_path item) then
        (Inl (PathOutsideOperatorSafeRoot, ''Refused delete outside family root: '' @ la_path item), fs)
      else if stat H fs (la_path item) = None then (Inl (AlreadyRemoved, ''Artifact path was already removed.''), fs)
      else (Inr (), rm_recursive (resolve_segs (hs_cwd H) (la_path item)) fs))"

text \<open>The lists of a result while the loop runs.\<close>

definition no_actions :: "maint_action \<Rightarrow> maint_mode \<Rightarrow> family_selector \<Rightarrow> action_result" where
  "no_actions act mode sel =
     \<lparr>ar_action = act, ar_mode = mode, ar_requestedFamily = sel, ar_evaluated = [], ar_planned = [], ar_removed = [], ar_retained = [],
      ar_skipped = [], ar_warnings = []\<rparr>"

definition warning_of :: "listed_artifact \<Rightarrow> maint_reason \<Rightarrow> string \<Rightarrow> maint_warning" where
  "warning_of item reason msg =
     \<lparr>mw_family = la_family item, mw_artifactId = la_artifactId item, mw_reason = reason, mw_message = msg\<rparr>"

text \<open>The end of both loops: a planned item is removed unless the request is a dry run, or skipped with the reason of the refusal.\<close>

definition remove_planned :: "maint_mode \<Rightarrow> host \<Rightarrow> string \<Rightarrow> listed_artifact \<Rightarrow> action_item \<Rightarrow> action_result \<times> filesystem \<Rightarrow> action_result \<times> filesystem" where
  "remove_planned mode H repoRoot item planned st =
     (let (r, fs) = st in
      if mode = MtDryRun then st
      else
        case removeArtifactPath H repoRoot item fs of
          (Inr u, fs') \<Rightarrow> (r\<lparr>ar_removed := ar_removed r @ [planned]\<rparr>, fs')
        | (Inl (reason, detail), fs') \<Rightarrow>
            (r\<lparr>ar_skipped := ar_skipped r @ [toActionItem item reason (Some detail)],
               ar_warnings := ar_warnings r @ [warning_of item reason detail]\<rparr>, fs'))"

section \<open>Prune\<close>

definition prune_item :: "maint_mode \<Rightarrow> maint_env \<Rightarrow> string \<Rightarrow> int \<Rightarrow> (family \<Rightarrow> int) \<Rightarrow> listed_artifact \<Rightarrow> action_result \<times> filesystem \<Rightarrow> action_result \<times> filesystem" where
  "prune_item mode E repoRoot nowMs retention item st =
     (let (r, fs) = st in
      if \<not> la_existsOnDisk item then
        let a = toActionItem item AlreadyRemoved (Some ''Artifact path not present on disk.'') in
        (r\<lparr>ar_evaluated := ar_evaluated r @ [a], ar_skipped := ar_skipped r @ [a]\<rparr>, fs)
      else
        case recency E (JStr []) item of
          None \<Rightarrow>
            let a = toActionItem item MetadataUnreadableOrUntrusted (Some ''Unable to parse recency for policy prune.'') in
            (r\<lparr>ar_evaluated := ar_evaluated r @ [a], ar_retained := ar_retained r @ [a],
               ar_warnings := ar_warnings r @ [warning_of item MetadataUnreadableOrUntrusted
                 ''Artifact retained because recency metadata is unreadable or untrusted.'']\<rparr>, fs)
        | Some touchedAt \<Rightarrow>
            let ageMs = nowMs - touchedAt; keep = retention (la_family item) in
            if ageMs \<le> keep then
              let a = toActionItem item ArtifactTooRecentForPolicyPrune
                    (Some (''Artifact age '' @ show_int ageMs @ ''ms is within retention '' @ show_int keep @ ''ms.'')) in
              (r\<lparr>ar_evaluated := ar_evaluated r @ [a], ar_retained := ar_retained r @ [a]\<rparr>, fs)
            else
              let a = toActionItem item (pruneEligibleReason item)
                    (Some (''Artifact age '' @ show_int ageMs @ ''ms exceeded retention '' @ show_int keep @ ''ms.'')) in
              remove_planned mode (me_host E) repoRoot item a
                (r\<lparr>ar_evaluated := ar_evaluated r @ [a], ar_planned := ar_planned r @ [a]\<rparr>, fs))"

definition pruneOperatorSafeArtifacts :: "maint_env \<Rightarrow> string \<Rightarrow> prune_request \<Rightarrow> filesystem \<Rightarrow> action_result outcome_fs" where
  "pruneOperatorSafeArtifacts E repoRoot q fs =
     (case ensureOperatorSafeArtifactDirs (me_host E) repoRoot fs of
        (Inl e, fs1) \<Rightarrow> (Inl e, fs1)
      | (Inr u, fs1) \<Rightarrow>
          let nowMs = pq_nowMs q; requestedFamily = defaultFamilySelector (pq_family q);
              retention = (\<lambda>f. nullish (pq_retentionOverridesMs q f) (DEFAULT_RETENTION_MS f));
              artifacts = filterArtifactsByFamily (collectArtifacts E fs1 repoRoot nowMs) requestedFamily;
              (r, fs2) = fold (prune_item (pq_mode q) E repoRoot nowMs retention) artifacts (no_actions ActPrune (pq_mode q) requestedFamily, fs1)
          in (Inr r, fs2))"

section \<open>Cleanup\<close>

definition truthy_string :: "string option \<Rightarrow> string option" where
  "truthy_string x = (case x of None \<Rightarrow> None | Some s \<Rightarrow> if s = [] then None else Some s)"

definition cleanup_eligible :: "bool \<Rightarrow> listed_artifact \<Rightarrow> bool" where
  "cleanup_eligible byReport item \<longleftrightarrow>
     la_cleanupEligibility item = Eligible
     \<or> byReport \<and> (la_family item \<noteq> FamReport \<or> (case la_report item of None \<Rightarrow> False | Some r \<Rightarrow> getReportCleanupEligible r))
     \<or> la_cleanupReason item \<in> {Some EligibleByOrphanTarget, Some EligibleByTempStaleness, Some EligibleByDegradedReport}"

definition cleanup_item :: "maint_mode \<Rightarrow> maint_env \<Rightarrow> string \<Rightarrow> bool \<Rightarrow> listed_artifact \<Rightarrow> action_result \<times> filesystem \<Rightarrow> action_result \<times> filesystem" where
  "cleanup_item mode E repoRoot byReport item st =
     (let (r0, fs) = st;
          r = r0\<lparr>ar_evaluated := ar_evaluated r0 @ [toActionItem item (nullish (la_cleanupReason item) CleanupEligibilityUnproven) None]\<rparr>
      in if \<not> cleanup_eligible byReport item then
           (r\<lparr>ar_retained := ar_retained r @ [toActionItem item CleanupEligibilityUnproven
              (Some ''Cleanup target retained because eligibility could not be proven from artifact truth.'')]\<rparr>, fs)
         else
           let planned = toActionItem item (nullish (la_cleanupReason item) EligibleByOrphanTarget) (Some ''Targeted cleanup eligible by bounded policy.'') in
           remove_planned mode (me_host E) repoRoot item planned (r\<lparr>ar_planned := ar_planned r @ [planned]\<rparr>, fs))"

text \<open>A cleanup that ends before the loop: one item, evaluated and skipped or retained, and one warning.\<close>

definition refused :: "action_result \<Rightarrow> family \<Rightarrow> string \<Rightarrow> string \<Rightarrow> maint_reason \<Rightarrow> string \<Rightarrow> string \<Rightarrow> action_result" where
  "refused r fam artifactId p reason detail msg =
     (let a = \<lparr>ai_family = fam, ai_artifactId = JStr artifactId, ai_executionId = None, ai_reportId = None, ai_path = p, ai_reason = reason, ai_detail = Some detail\<rparr> in
      r\<lparr>ar_evaluated := [a], ar_skipped := [a], ar_warnings := [\<lparr>mw_family = fam, mw_artifactId = JStr artifactId, mw_reason = reason, mw_message = msg\<rparr>]\<rparr>)"

definition cleanup_targets :: "maint_env \<Rightarrow> string \<Rightarrow> cleanup_request \<Rightarrow> listed_artifact list \<Rightarrow> action_result \<Rightarrow> action_result + listed_artifact list" where
  "cleanup_targets E repoRoot q artifacts r =
     (case (truthy_string (cq_reportId q), cq_family q, truthy_string (cq_artifactId q)) of
        (Some reportId, _, _) \<Rightarrow>
          (case List.find (\<lambda>i. la_family i = FamReport \<and> la_artifactId i = JStr reportId) artifacts of
             None \<Rightarrow> Inl (refused r FamReport reportId (resolveArtifactPath repoRoot FamReport reportId) ArtifactNotFound
                 ''Report target not found for cleanup.'' ''Cleanup report target was not found.'')
           | Some report \<Rightarrow>
               if \<not> (case la_report report of None \<Rightarrow> False | Some v \<Rightarrow> getReportCleanupEligible v) then
                 let a = toActionItem report ReportOutcomeNotCleanupEligible
                       (Some ''Cleanup refused because report outcome is not degraded/failed/blocked.'') in
                 Inl (r\<lparr>ar_evaluated := [a], ar_retained := [a],
                   ar_warnings := [\<lparr>mw_family = FamReport, mw_artifactId = la_artifactId report, mw_reason = CleanupEligibilityUnproven,
                     mw_message = ''Cleanup refused for recent successful/advisory report.''\<rparr>]\<rparr>)
               else Inr (filter (\<lambda>i. la_artifactId i = la_artifactId report \<or> la_reportId i = Some (la_artifactId report)) artifacts))
      | (None, Some fam, Some artifactId) \<Rightarrow>
          if fam = FamReport then
            Inl (refused r FamReport artifactId (resolveOperatorSafeArtifactsRoot repoRoot) TargetFamilyNotCleanupSupported
              ''Targeted cleanup supports snapshot or temp_workspace only.'' ''Targeted cleanup family is unsupported.'')
          else
            (case List.find (\<lambda>i. la_family i = fam \<and> la_artifactId i = JStr artifactId) artifacts of
               None \<Rightarrow> Inl (refused r fam artifactId (resolveArtifactPath repoRoot fam artifactId) ArtifactNotFound
                   ''Cleanup target artifact not found.'' ''Targeted cleanup artifact was not found.'')
             | Some target \<Rightarrow> Inr [target])
      | _ \<Rightarrow>
          Inl ((refused r FamReport ''(none)'' (resolveOperatorSafeArtifactsRoot repoRoot) CleanupRequiresReportOrFamilyTarget
            ''Cleanup requires --report <id> or --family <snapshot|temp_workspace> --id <artifact-id>.''
            ''Cleanup requires explicit report or artifact target.'')\<lparr>ar_evaluated := []\<rparr>))"

definition cleanupOperatorSafeArtifacts :: "maint_env \<Rightarrow> string \<Rightarrow> cleanup_request \<Rightarrow> filesystem \<Rightarrow> action_result outcome_fs" where
  "cleanupOperatorSafeArtifacts E repoRoot q fs =
     (case ensureOperatorSafeArtifactDirs (me_host E) repoRoot fs of
        (Inl e, fs1) \<Rightarrow> (Inl e, fs1)
      | (Inr u, fs1) \<Rightarrow>
          let byReport = (truthy_string (cq_reportId q) \<noteq> None);
              requestedFamily = (if byReport then SelAll else defaultFamilySelector (map_option SelFamily (cq_family q)));
              r0 = no_actions ActCleanup (cq_mode q) requestedFamily
          in case cleanup_targets E repoRoot q (collectArtifacts E fs1 repoRoot (cq_nowMs q)) r0 of
               Inl r \<Rightarrow> (Inr r, fs1)
             | Inr targets \<Rightarrow>
                 let (r, fs2) = fold (cleanup_item (cq_mode q) E repoRoot byReport) targets (r0, fs1) in (Inr r, fs2))"

section \<open>Settings\<close>

definition resolveOperatorSafePruneRetentionPolicyMs :: "family \<Rightarrow> int" where
  "resolveOperatorSafePruneRetentionPolicyMs = DEFAULT_RETENTION_MS"

definition resolveOperatorSafeMaintenanceFamily :: "string option \<Rightarrow> family_selector option" where
  "resolveOperatorSafeMaintenanceFamily v =
     (case truthy_string v of
        None \<Rightarrow> Some SelAll
      | Some s \<Rightarrow>
          if s = ''all'' then Some SelAll else if s = ''report'' then Some (SelFamily FamReport)
          else if s = ''snapshot'' then Some (SelFamily FamSnapshot) else if s = ''temp_workspace'' then Some (SelFamily FamTempWorkspace)
          else if s = ''temp'' then Some (SelFamily FamTempWorkspace) else None)"

definition resolveOperatorSafeMaintenanceMode :: "string option \<Rightarrow> maint_mode option" where
  "resolveOperatorSafeMaintenanceMode v =
     (if v = Some ''dry-run'' \<or> v = Some ''dry_run'' then Some MtDryRun else if v = Some ''apply'' then Some MtApply else None)"

end
