(* ===== verification/OperatorSafety.thy ===== *)
theory OperatorSafety
  imports OperatorMaintenance
begin

text \<open>
  What prune and cleanup of \<open>OperatorMaintenance\<close> do to the file system. The loops of both operations fulfil one contract, the locale
  \<open>artifact_step\<close>, from which it follows that exactly the reported items are removed. On a file system whose names are
  plain (\<open>clean_fs\<close>) every entry of the three directories is listed once, so the decisions of the loops can be stated on
  the list of artifacts.
\<close>

section \<open>Where the artifacts are\<close>

definition artifact_root :: "string list \<Rightarrow> string list" where
  "artifact_root R = R @ OPERATOR_SAFE_RUNTIME_ROOT"

fun family_dir :: "family \<Rightarrow> string" where
  "family_dir FamReport = ''reports''"
| "family_dir FamSnapshot = ''snapshots''"
| "family_dir FamTempWorkspace = ''temp''"

abbreviation family_segs :: "string list \<Rightarrow> family \<Rightarrow> string list" where
  "family_segs R f \<equiv> artifact_root R @ [family_dir f]"

lemma clean_names [simp]:
  "list_all clean_seg OPERATOR_SAFE_RUNTIME_ROOT" "clean_seg ''reports''" "clean_seg ''snapshots''" "clean_seg ''temp''" "clean_seg ''manifest.json''"
  by (simp_all add: OPERATOR_SAFE_RUNTIME_ROOT_def clean_seg_def seg_ok_def)

lemma clean_family_dir [simp]: "clean_seg (family_dir f)"
  by (cases f) simp_all

lemma clean_artifact_root [simp]: "list_all clean_seg (artifact_root R) \<longleftrightarrow> list_all clean_seg R"
  by (simp add: artifact_root_def)

lemma artifacts_root_text:
  assumes "list_all clean_seg R"
  shows "resolveOperatorSafeArtifactsRoot (absolute_text R) = absolute_text (artifact_root R)"
proof -
  have "filter (\<lambda>p. p \<noteq> []) (absolute_text R # OPERATOR_SAFE_RUNTIME_ROOT) = absolute_text R # OPERATOR_SAFE_RUNTIME_ROOT"
    by (simp add: absolute_text_def OPERATOR_SAFE_RUNTIME_ROOT_def)
  moreover have "js_join ''/'' (absolute_text R # OPERATOR_SAFE_RUNTIME_ROOT) = absolute_text R @ ''/'' @ js_join ''/'' OPERATOR_SAFE_RUNTIME_ROOT"
    by (simp add: OPERATOR_SAFE_RUNTIME_ROOT_def)
  moreover have "OPERATOR_SAFE_RUNTIME_ROOT \<noteq> []" by (simp add: OPERATOR_SAFE_RUNTIME_ROOT_def)
  ultimately show ?thesis
    using normalize_absolute_text [of R OPERATOR_SAFE_RUNTIME_ROOT] assms
    by (simp add: resolveOperatorSafeArtifactsRoot_def path_joins_def artifact_root_def)
qed

lemma family_root_text [simp]:
  assumes "list_all clean_seg R"
  shows "family_root (absolute_text R) f = absolute_text (family_segs R f)"
  using assms
  by (cases f) (simp_all add: family_root_def resolveOperatorSafeReportsDir_def resolveOperatorSafeSnapshotsDir_def resolveOperatorSafeTempDir_def artifacts_root_text)

lemma family_dirs_text:
  assumes "list_all clean_seg R"
  shows "resolveOperatorSafeReportsDir (absolute_text R) = absolute_text (family_segs R FamReport)"
    "resolveOperatorSafeSnapshotsDir (absolute_text R) = absolute_text (family_segs R FamSnapshot)"
    "resolveOperatorSafeTempDir (absolute_text R) = absolute_text (family_segs R FamTempWorkspace)"
  using family_root_text [OF assms, of FamReport] family_root_text [OF assms, of FamSnapshot] family_root_text [OF assms, of FamTempWorkspace]
  by (simp_all add: family_root_def)

section \<open>Making the directories\<close>

lemma clean_fsI: "wf_fs fs \<Longrightarrow> distinct (map fst fs) \<Longrightarrow> (\<And>k. map_of fs k \<noteq> None \<Longrightarrow> list_all clean_seg k) \<Longrightarrow> clean_fs fs"
  by (force simp: clean_fs_def map_of_eq_None_iff)

lemma mkdirs_distinct: "mkdirs k ss fs = Inr fs' \<Longrightarrow> distinct (map fst fs) \<Longrightarrow> distinct (map fst fs')"
  by (induction k ss fs rule: mkdirs.induct) (auto simp: distinct_update split: option.splits fs_node.splits)

lemma mkdirSync_clean:
  assumes fs: "clean_fs fs" and k: "list_all clean_seg k" and m: "mkdirSync H fs (absolute_text k) = Inr fs'"
  shows "clean_fs fs'" "map_of fs' q = (if prefix q k then Some DirNode else map_of fs q)"
proof -
  have mk: "mkdirs [] k fs = Inr fs'" using m k by (auto simp: mkdirSync_def Let_def split: sum.splits if_splits)
  show map: "map_of fs' q = (if prefix q k then Some DirNode else map_of fs q)" for q by (rule mkdirs_from_root [OF mk])
  show "clean_fs fs'"
  proof (rule clean_fsI)
    show "wf_fs fs'" using mkdirs_wf [OF mk] fs by (simp add: clean_fs_def)
    show "distinct (map fst fs')" using mkdirs_distinct [OF mk] fs by (simp add: clean_fs_def)
    fix q assume "map_of fs' q \<noteq> None"
    then show "list_all clean_seg q"
      using map k clean_fs_entry [OF fs] by (auto simp: prefix_def split: if_splits)
  qed
qed

lemma ex_family: "(\<exists>f. P f) \<longleftrightarrow> P FamReport \<or> P FamSnapshot \<or> P FamTempWorkspace"
  by (metis family.exhaust)

text \<open>The directories that \<^verbatim>\<open>ensureOperatorSafeArtifactDirs\<close> makes.\<close>

definition ensured :: "string list \<Rightarrow> string list \<Rightarrow> bool" where
  "ensured R q \<longleftrightarrow> (\<exists>f. prefix q (family_segs R f))"

lemma mkdir_all_clean:
  assumes "mkdir_all H (map absolute_text ks) fs = (r, fs')" "clean_fs fs" "\<forall>k \<in> set ks. list_all clean_seg k"
  shows "clean_fs fs' \<and> (\<forall>q. map_of fs' q = map_of fs q \<or> (\<exists>k \<in> set ks. prefix q k) \<and> map_of fs' q = Some DirNode)
    \<and> (r = Inr () \<longrightarrow> (\<forall>q. map_of fs' q = (if \<exists>k \<in> set ks. prefix q k then Some DirNode else map_of fs q)))"
proof -
  have "foldl (\<lambda>(r, fs) p. case mkdirSync H fs p of Inl e \<Rightarrow> (case r of Inl e0 \<Rightarrow> Inl e0 | Inr u \<Rightarrow> Inl e, fs) | Inr fs' \<Rightarrow> (r, fs')) (r0, fs) (map absolute_text ks) = (r, fs')
      \<Longrightarrow> clean_fs fs' \<and> (\<forall>q. map_of fs' q = map_of fs q \<or> (\<exists>k \<in> set ks. prefix q k) \<and> map_of fs' q = Some DirNode)
    \<and> (r = Inr () \<longrightarrow> r0 = Inr () \<and> (\<forall>q. map_of fs' q = (if \<exists>k \<in> set ks. prefix q k then Some DirNode else map_of fs q)))" for r0
    using assms(2,3)
  proof (induction ks arbitrary: r0 fs)
    case (Cons k ks)
    show ?case
    proof (cases "mkdirSync H fs (absolute_text k)")
      case (Inl e)
      then have "foldl (\<lambda>(r, fs) p. case mkdirSync H fs p of Inl e \<Rightarrow> (case r of Inl e0 \<Rightarrow> Inl e0 | Inr u \<Rightarrow> Inl e, fs) | Inr fs' \<Rightarrow> (r, fs'))
          (case r0 of Inl e0 \<Rightarrow> Inl e0 | Inr u \<Rightarrow> Inl e, fs) (map absolute_text ks) = (r, fs')" using Cons.prems(1) by simp
      from Cons.IH [OF this] Cons.prems show ?thesis by (auto split: sum.splits)
    next
      case (Inr fs1)
      note m = mkdirSync_clean [OF Cons.prems(2) _ Inr]
      have k: "list_all clean_seg k" using Cons.prems by simp
      have "foldl (\<lambda>(r, fs) p. case mkdirSync H fs p of Inl e \<Rightarrow> (case r of Inl e0 \<Rightarrow> Inl e0 | Inr u \<Rightarrow> Inl e, fs) | Inr fs' \<Rightarrow> (r, fs'))
          (r0, fs1) (map absolute_text ks) = (r, fs')" using Cons.prems(1) Inr by simp
      from Cons.IH [OF this m(1) [OF k]] Cons.prems(3) show ?thesis
        unfolding m(2) [OF k] by (auto split: if_splits) 
    qed
  qed auto
  from this [of "Inr ()"] assms(1) show ?thesis by (simp add: mkdir_all_def)
qed

lemma ensure_dirs:
  assumes "ensureOperatorSafeArtifactDirs H (absolute_text R) fs = (r, fs1)" "clean_fs fs" "list_all clean_seg R"
  shows "clean_fs fs1" "\<not> ensured R q \<Longrightarrow> map_of fs1 q = map_of fs q" "map_of fs1 q = map_of fs q \<or> map_of fs1 q = Some DirNode"
    "r = Inr u \<Longrightarrow> map_of fs1 q = (if ensured R q then Some DirNode else map_of fs q)"
proof -
  let ?ks = "[family_segs R FamReport, family_segs R FamSnapshot, family_segs R FamTempWorkspace]"
  have "mkdir_all H (map absolute_text ?ks) fs = (r, fs1)"
    using assms(1) by (simp add: ensureOperatorSafeArtifactDirs_def family_dirs_text [OF assms(3)])
  moreover have "\<forall>k \<in> set ?ks. list_all clean_seg k" using assms(3) by auto
  moreover have "(\<exists>k \<in> set ?ks. prefix q k) = ensured R q" for q
    by (simp add: ensured_def ex_family) blast
  ultimately show "clean_fs fs1" "\<not> ensured R q \<Longrightarrow> map_of fs1 q = map_of fs q" "map_of fs1 q = map_of fs q \<or> map_of fs1 q = Some DirNode"
    "r = Inr u \<Longrightarrow> map_of fs1 q = (if ensured R q then Some DirNode else map_of fs q)"
    using mkdir_all_clean [OF _ assms(2), of H ?ks r fs1] by (simp_all del: list.set) blast+
qed

section \<open>What the loops remove\<close>

lemma toActionItem_sel [simp]:
  "ai_path (toActionItem item reason d) = la_path item" "ai_family (toActionItem item reason d) = la_family item"
  "ai_artifactId (toActionItem item reason d) = la_artifactId item" "ai_reason (toActionItem item reason d) = reason"
  by (simp_all add: toActionItem_def)

lemma map_of_rm: "map_of (rm_recursive k fs) q = (if prefix k q then None else map_of fs q)"
  by (induction fs) (auto simp: rm_recursive_def)

lemma removeArtifactPath_map:
  assumes "removeArtifactPath H root item fs = (res, fs')"
  shows "map_of fs' q = (if res = Inr () \<and> prefix (resolve_segs (hs_cwd H) (la_path item)) q then None else map_of fs q)"
  using assms by (auto simp: removeArtifactPath_def map_of_rm split: if_splits)

text \<open>
  The contract of the body of the prune and the cleanup loop: an item leaves the files alone, or it is planned and handed
  to \<open>remove_planned\<close> under its own path, with the mode of the request.
\<close>

locale artifact_step =
  fixes mode :: maint_mode
    and step :: "maint_env \<Rightarrow> string \<Rightarrow> listed_artifact \<Rightarrow> action_result \<times> filesystem \<Rightarrow> action_result \<times> filesystem"
  assumes step_cases: "\<exists>a r'. ai_path a = la_path item \<and> ai_family a = la_family item \<and> ar_removed r' = ar_removed r \<and> ar_mode r' = ar_mode r
    \<and> step E root item (r, fs) \<in> {(r', fs), remove_planned mode (me_host E) root item a (r', fs)}"
begin

lemma step_removes:
  assumes "step E root item (r, fs) = (r', fs')"
  shows "ar_mode r' = ar_mode r \<and> (\<exists>new. ar_removed r' = ar_removed r @ new
    \<and> (\<forall>q. map_of fs' q = (if \<exists>a \<in> set new. prefix (resolve_segs (hs_cwd (me_host E)) (ai_path a)) q then None else map_of fs q))
    \<and> (\<forall>a \<in> set new. ai_path a = la_path item \<and> ai_family a = la_family item \<and> stat (me_host E) fs (la_path item) \<noteq> None
         \<and> isPathWithin (hs_cwd (me_host E)) (family_root root (la_family item)) (la_path item))
    \<and> (mode = MtDryRun \<longrightarrow> new = []))"
proof -
  obtain a r1 where a: "ai_path a = la_path item" "ai_family a = la_family item" "ar_removed r1 = ar_removed r" "ar_mode r1 = ar_mode r"
    "step E root item (r, fs) = (r1, fs) \<or> step E root item (r, fs) = remove_planned mode (me_host E) root item a (r1, fs)"
    using step_cases [of item r E root fs] by auto
  obtain res fs1 where rm: "removeArtifactPath (me_host E) root item fs = (res, fs1)" by fastforce
  show ?thesis
  proof (cases "step E root item (r, fs) = (r1, fs) \<or> mode = MtDryRun \<or> res \<noteq> Inr ()")
    case True
    then have "ar_mode r' = ar_mode r \<and> ar_removed r' = ar_removed r \<and> (\<forall>q. map_of fs' q = map_of fs q)"
      using a assms removeArtifactPath_map [OF rm] by (auto simp: remove_planned_def Let_def rm split: sum.splits prod.splits if_splits)
    then show ?thesis by (intro conjI exI [of _ "[]"]) auto
  next
    case False
    then have "r' = r1\<lparr>ar_removed := ar_removed r1 @ [a]\<rparr>" "fs' = fs1"
      using a(4,5) assms by (auto simp: remove_planned_def Let_def rm split: sum.splits prod.splits if_splits)
    moreover have "stat (me_host E) fs (la_path item) \<noteq> None" "isPathWithin (hs_cwd (me_host E)) (family_root root (la_family item)) (la_path item)"
      using rm False by (auto simp: removeArtifactPath_def split: if_splits)
    ultimately show ?thesis
      using a False removeArtifactPath_map [OF rm] by (intro conjI exI [of _ "[a]"]) auto
  qed
qed

lemma loop_removes:
  assumes "fold (step E root) items (r, fs) = (r', fs')"
  shows "ar_mode r' = ar_mode r \<and> (\<exists>new. ar_removed r' = ar_removed r @ new
    \<and> (\<forall>q. map_of fs' q = (if \<exists>a \<in> set new. prefix (resolve_segs (hs_cwd (me_host E)) (ai_path a)) q then None else map_of fs q))
    \<and> (\<forall>a \<in> set new. \<exists>item \<in> set items. ai_path a = la_path item \<and> ai_family a = la_family item)
    \<and> (mode = MtDryRun \<longrightarrow> new = []))"
  using assms
proof (induction items arbitrary: r fs)
  case (Cons item items)
  obtain r1 fs1 where s: "step E root item (r, fs) = (r1, fs1)" by fastforce
  then have f: "fold (step E root) items (r1, fs1) = (r', fs')" using Cons.prems by simp
  obtain n1 where n1: "ar_mode r1 = ar_mode r" "ar_removed r1 = ar_removed r @ n1"
    "\<forall>q. map_of fs1 q = (if \<exists>a \<in> set n1. prefix (resolve_segs (hs_cwd (me_host E)) (ai_path a)) q then None else map_of fs q)"
    "\<forall>a \<in> set n1. ai_path a = la_path item \<and> ai_family a = la_family item" "mode = MtDryRun \<longrightarrow> n1 = []"
    using step_removes [OF s] by auto
  obtain n2 where n2: "ar_mode r' = ar_mode r1" "ar_removed r' = ar_removed r1 @ n2"
    "\<forall>q. map_of fs' q = (if \<exists>a \<in> set n2. prefix (resolve_segs (hs_cwd (me_host E)) (ai_path a)) q then None else map_of fs1 q)"
    "\<forall>a \<in> set n2. \<exists>item \<in> set items. ai_path a = la_path item \<and> ai_family a = la_family item" "mode = MtDryRun \<longrightarrow> n2 = []"
    using Cons.IH [OF f] by auto
  have "map_of fs' q = (if \<exists>a \<in> set (n1 @ n2). prefix (resolve_segs (hs_cwd (me_host E)) (ai_path a)) q then None else map_of fs q)" for q
    using n1(3) n2(3) by auto
  then show ?case using n1(1,2,4,5) n2(1,2,4,5) by (intro conjI exI [of _ "n1 @ n2"]) auto
qed auto

end

interpretation prune_step: artifact_step mode "\<lambda>E root. prune_item mode E root nowMs retention" for mode nowMs retention
proof
  fix item r E root fs
  let ?s = "prune_item mode E root nowMs retention item (r, fs)" and ?a = "\<lambda>d. toActionItem item (pruneEligibleReason item) (Some d)"
  have "(ar_removed (fst ?s) = ar_removed r \<and> ar_mode (fst ?s) = ar_mode r \<and> snd ?s = fs)
      \<or> (\<exists>d. ?s = remove_planned mode (me_host E) root item (?a d) (r\<lparr>ar_evaluated := ar_evaluated r @ [?a d], ar_planned := ar_planned r @ [?a d]\<rparr>, fs))"
    by (cases "la_existsOnDisk item"; cases "recency E (JStr []) item") (auto simp: prune_item_def Let_def)
  then show "\<exists>a r'. ai_path a = la_path item \<and> ai_family a = la_family item \<and> ar_removed r' = ar_removed r \<and> ar_mode r' = ar_mode r
      \<and> ?s \<in> {(r', fs), remove_planned mode (me_host E) root item a (r', fs)}"
  proof (elim disjE exE)
    fix d assume "?s = remove_planned mode (me_host E) root item (?a d) (r\<lparr>ar_evaluated := ar_evaluated r @ [?a d], ar_planned := ar_planned r @ [?a d]\<rparr>, fs)"
    then show ?thesis
      by (intro exI [of _ "?a d"] exI [of _ "r\<lparr>ar_evaluated := ar_evaluated r @ [?a d], ar_planned := ar_planned r @ [?a d]\<rparr>"]) simp
  qed (intro exI [of _ "?a []"] exI [of _ "fst ?s"]; cases ?s; simp)
qed

interpretation cleanup_step: artifact_step mode "\<lambda>E root. cleanup_item mode E root byReport" for mode byReport
proof
  fix item r E root fs
  let ?s = "cleanup_item mode E root byReport item (r, fs)"
  let ?a = "toActionItem item (nullish (la_cleanupReason item) EligibleByOrphanTarget) (Some ''Targeted cleanup eligible by bounded policy.'')"
  let ?r = "r\<lparr>ar_evaluated := ar_evaluated r @ [toActionItem item (nullish (la_cleanupReason item) CleanupEligibilityUnproven) None]\<rparr>"
  show "\<exists>a r'. ai_path a = la_path item \<and> ai_family a = la_family item \<and> ar_removed r' = ar_removed r \<and> ar_mode r' = ar_mode r
      \<and> ?s \<in> {(r', fs), remove_planned mode (me_host E) root item a (r', fs)}"
  proof (cases "cleanup_eligible byReport item")
    case True
    then have "?s = remove_planned mode (me_host E) root item ?a (?r\<lparr>ar_planned := ar_planned ?r @ [?a]\<rparr>, fs)" by (simp add: cleanup_item_def Let_def)
    then show ?thesis by (intro exI [of _ ?a] exI [of _ "?r\<lparr>ar_planned := ar_planned ?r @ [?a]\<rparr>"]) simp
  next
    case False
    then show ?thesis by (intro exI [of _ ?a] exI [of _ "fst ?s"]) (simp add: cleanup_item_def Let_def)
  qed
qed

section \<open>What is listed\<close>

lemma dir_entries:
  assumes "clean_fs fs" "list_all clean_seg k" "map_of fs k = Some DirNode"
  shows "distinct (readDirEntriesSafe H fs (absolute_text k))"
    and "entry \<in> set (readDirEntriesSafe H fs (absolute_text k)) \<longleftrightarrow> map_of fs (k @ [entry]) \<noteq> None"
proof -
  obtain es where es: "readdir H fs (absolute_text k) = Some es" using assms by (simp add: readdir_def)
  note e = readdir_entries [OF assms(1,2) es]
  show "distinct (readDirEntriesSafe H fs (absolute_text k))" using e(1) by (simp add: readDirEntriesSafe_def es)
  show "entry \<in> set (readDirEntriesSafe H fs (absolute_text k)) \<longleftrightarrow> map_of fs (k @ [entry]) \<noteq> None"
    using e(2) [of entry] by (force simp: readDirEntriesSafe_def es image_iff)
qed

text \<open>The entries of a family in the order of the listing, and the reader of one.\<close>

definition family_entries :: "maint_env \<Rightarrow> filesystem \<Rightarrow> string list \<Rightarrow> family \<Rightarrow> string list" where
  "family_entries E fs R f =
     sort_key (me_ck E) (filter (\<lambda>e. f = FamTempWorkspace \<or> isJsonFile e) (readDirEntriesSafe (me_host E) fs (absolute_text (family_segs R f))))"

definition report_ids :: "maint_env \<Rightarrow> filesystem \<Rightarrow> string list \<Rightarrow> int \<Rightarrow> json list" where
  "report_ids E fs R nowMs =
     map (\<lambda>e. la_artifactId (read_report E fs (absolute_text (family_segs R FamReport)) nowMs e)) (family_entries E fs R FamReport)"

definition read_entry :: "maint_env \<Rightarrow> filesystem \<Rightarrow> string list \<Rightarrow> int \<Rightarrow> family \<Rightarrow> string \<Rightarrow> listed_artifact" where
  "read_entry E fs R nowMs f e =
     (let dir = absolute_text (family_segs R f); ids = report_ids E fs R nowMs in
      case f of FamReport \<Rightarrow> read_report E fs dir nowMs e | FamSnapshot \<Rightarrow> read_snapshot E fs ids dir nowMs e
      | FamTempWorkspace \<Rightarrow> read_temp E fs ids dir nowMs e)"

lemma collect_entries:
  assumes "list_all clean_seg R"
  shows "collectArtifacts E fs (absolute_text R) nowMs =
    concat (map (\<lambda>f. map (read_entry E fs R nowMs f) (family_entries E fs R f)) [FamReport, FamSnapshot, FamTempWorkspace])"
  by (simp add: collectArtifacts_def readReportArtifacts_def readSnapshotArtifacts_def readTempArtifacts_def family_dirs_text [OF assms]
      family_entries_def read_entry_def report_ids_def comp_def Let_def)

lemma read_entry_place:
  assumes "clean_fs fs" "list_all clean_seg R" "map_of fs (family_segs R f @ [e]) = Some n"
  shows "la_family (read_entry E fs R nowMs f e) = f" "la_path (read_entry E fs R nowMs f e) = absolute_text (family_segs R f @ [e])"
    "la_existsOnDisk (read_entry E fs R nowMs f e)"
proof -
  have "clean_seg e" using clean_fs_entry [OF assms(1,3)] by simp
  then have "path_join (absolute_text (family_segs R f)) e = absolute_text (family_segs R f @ [e])" using assms(2) by simp
  moreover have "stat (me_host E) fs (absolute_text (family_segs R f @ [e])) \<noteq> None"
    using assms clean_fs_entry [OF assms(1,3)] by (simp add: stat_def)
  ultimately show "la_family (read_entry E fs R nowMs f e) = f" "la_path (read_entry E fs R nowMs f e) = absolute_text (family_segs R f @ [e])"
    "la_existsOnDisk (read_entry E fs R nowMs f e)"
    by (cases f; simp add: read_entry_def read_report_def read_snapshot_def read_temp_def untrusted_artifact_def missing_artifact_def Let_def
        split: option.split prod.split)+
qed

text \<open>All that is below the three directories is listed once, under its own path.\<close>

lemma collected:
  fixes E nowMs
  assumes fs: "clean_fs fs" "list_all clean_seg R" and dirs: "\<And>f. map_of fs (family_segs R f) = Some DirNode"
  defines "arts \<equiv> collectArtifacts E fs (absolute_text R) nowMs"
  shows "item \<in> set arts \<Longrightarrow> la_existsOnDisk item \<and> (\<exists>e. clean_seg e \<and> la_path item = absolute_text (family_segs R (la_family item) @ [e])
      \<and> item = read_entry E fs R nowMs (la_family item) e \<and> map_of fs (family_segs R (la_family item) @ [e]) \<noteq> None)"
    and "distinct (map la_path arts)"
proof -
  have ents: "distinct (readDirEntriesSafe (me_host E) fs (absolute_text (family_segs R f)))"
    "e \<in> set (readDirEntriesSafe (me_host E) fs (absolute_text (family_segs R f))) \<longleftrightarrow> map_of fs (family_segs R f @ [e]) \<noteq> None" for e f
    using dir_entries [OF fs(1) _ dirs [of f], where H = "me_host E"] fs(2) by auto
  have ent: "e \<in> set (family_entries E fs R f) \<Longrightarrow> map_of fs (family_segs R f @ [e]) \<noteq> None" for e f
    using ents(2) by (simp add: family_entries_def)
  have arts: "item \<in> set arts \<longleftrightarrow> (\<exists>f. \<exists>e \<in> set (family_entries E fs R f). item = read_entry E fs R nowMs f e)" for item
    unfolding arts_def collect_entries [OF fs(2)] ex_family by auto
  have place: "la_family item = f \<and> la_existsOnDisk item \<and> clean_seg e \<and> la_path item = absolute_text (family_segs R f @ [e])"
    if en: "e \<in> set (family_entries E fs R f)" and it: "item = read_entry E fs R nowMs f e" for item f e
  proof -
    obtain n where n: "map_of fs (family_segs R f @ [e]) = Some n" using ent [OF en] by auto
    show ?thesis using read_entry_place [OF fs n] it clean_fs_entry [OF fs(1) n] by simp
  qed
  show "item \<in> set arts \<Longrightarrow> la_existsOnDisk item \<and> (\<exists>e. clean_seg e \<and> la_path item = absolute_text (family_segs R (la_family item) @ [e])
      \<and> item = read_entry E fs R nowMs (la_family item) e \<and> map_of fs (family_segs R (la_family item) @ [e]) \<noteq> None)"
    using place ent unfolding arts by metis
  have paths: "map la_path (map (read_entry E fs R nowMs f) (family_entries E fs R f)) = map (\<lambda>e. absolute_text (family_segs R f @ [e])) (family_entries E fs R f)" for f
    using place by (auto intro!: map_cong)
  have inj: "absolute_text (family_segs R f @ [e]) = absolute_text (family_segs R g @ [d]) \<longleftrightarrow> f = g \<and> e = d"
    if "e \<in> set (family_entries E fs R f)" "d \<in> set (family_entries E fs R g)" for e d f g
  proof -
    have "list_all clean_seg (family_segs R f @ [e])" "list_all clean_seg (family_segs R g @ [d])"
      using place [OF that(1) refl] place [OF that(2) refl] fs(2) by auto
    then show ?thesis using absolute_text_inj [of "family_segs R f @ [e]" "family_segs R g @ [d]"] by (cases f; cases g) auto
  qed
  define P where "P f = map (\<lambda>e. absolute_text (family_segs R f @ [e])) (family_entries E fs R f)" for f
  have "distinct (family_entries E fs R f)" for f using ents(1) by (simp add: family_entries_def)
  then have P: "distinct (P f)" for f using inj unfolding P_def distinct_map inj_on_def by blast
  have dis: "set (P f) \<inter> set (P g) = {}" if "f \<noteq> g" for f g using inj that unfolding P_def by fastforce
  have "map la_path arts = concat (map P [FamReport, FamSnapshot, FamTempWorkspace])"
    unfolding arts_def collect_entries [OF fs(2)] map_concat map_map P_def using paths by (simp only: comp_def map_map)
  then show "distinct (map la_path arts)" using P dis by (simp add: Int_Un_distrib)
qed

lemma filterArtifacts_subset: "set (filterArtifactsByFamily items sel) \<subseteq> set items"
  by (auto simp: filterArtifactsByFamily_def split: family_selector.splits)

lemma filterArtifacts_distinct: "distinct (map g items) \<Longrightarrow> distinct (map g (filterArtifactsByFamily items sel))"
  by (auto simp: filterArtifactsByFamily_def distinct_map inj_on_def split: family_selector.splits)

lemma cleanup_targets_subset: "cleanup_targets E root q arts r = Inr ts \<Longrightarrow> set ts \<subseteq> set arts"
  by (auto simp: cleanup_targets_def Let_def find_Some_iff split: option.splits if_splits)

lemma cleanup_targets_none: "cleanup_targets E root q arts (no_actions act m sel) = Inl r \<Longrightarrow> ar_removed r = [] \<and> ar_mode r = m"
  by (auto simp: cleanup_targets_def refused_def no_actions_def Let_def split: option.splits if_splits)

lemma no_actions_sel [simp]:
  "ar_removed (no_actions act m sel) = []" "ar_evaluated (no_actions act m sel) = []" "ar_planned (no_actions act m sel) = []"
  "ar_retained (no_actions act m sel) = []" "ar_skipped (no_actions act m sel) = []" "ar_mode (no_actions act m sel) = m"
  by (simp_all add: no_actions_def)

lemma ensured_family: "ensured R (family_segs R f)"
  by (auto simp: ensured_def)

definition removes :: "maint_mode \<Rightarrow> maint_env \<Rightarrow> listed_artifact list \<Rightarrow> filesystem \<Rightarrow> action_result \<Rightarrow> filesystem \<Rightarrow> bool" where
  "removes mode E items fs r fs' \<longleftrightarrow>
     (\<forall>k. map_of fs' k = (if \<exists>a \<in> set (ar_removed r). prefix (resolve_segs (hs_cwd (me_host E)) (ai_path a)) k then None else map_of fs k))
     \<and> (\<forall>a \<in> set (ar_removed r). \<exists>item \<in> set items. ai_path a = la_path item \<and> ai_family a = la_family item)
     \<and> ar_mode r = mode \<and> (mode = MtDryRun \<longrightarrow> ar_removed r = [])"

lemma removes_mono: "removes mode E items fs r fs' \<Longrightarrow> set items \<subseteq> set items' \<Longrightarrow> removes mode E items' fs r fs'"
  by (fastforce simp: removes_def)

lemma prune_runs:
  assumes "ensureOperatorSafeArtifactDirs (me_host E) root fs = (Inr u, fs1)" "pruneOperatorSafeArtifacts E root q fs = (res, fs')"
  shows "\<exists>r. res = Inr r \<and> removes (pq_mode q) E (collectArtifacts E fs1 root (pq_nowMs q)) fs1 r fs'"
proof -
  let ?arts = "filterArtifactsByFamily (collectArtifacts E fs1 root (pq_nowMs q)) (defaultFamilySelector (pq_family q))"
  obtain r where r: "res = Inr r"
    "fold (prune_item (pq_mode q) E root (pq_nowMs q) (\<lambda>f. nullish (pq_retentionOverridesMs q f) (DEFAULT_RETENTION_MS f))) ?arts
       (no_actions ActPrune (pq_mode q) (defaultFamilySelector (pq_family q)), fs1) = (r, fs')"
    using assms by (auto simp: pruneOperatorSafeArtifacts_def Let_def split: prod.splits)
  have "removes (pq_mode q) E ?arts fs1 r fs'" using prune_step.loop_removes [OF r(2)] by (auto simp: removes_def)
  then show ?thesis using r(1) removes_mono filterArtifacts_subset by blast
qed

lemma cleanup_runs:
  assumes "ensureOperatorSafeArtifactDirs (me_host E) root fs = (Inr u, fs1)" "cleanupOperatorSafeArtifacts E root c fs = (res, fs')"
  shows "\<exists>r. res = Inr r \<and> removes (cq_mode c) E (collectArtifacts E fs1 root (cq_nowMs c)) fs1 r fs'"
proof -
  define r0 where "r0 = no_actions ActCleanup (cq_mode c)
    (if truthy_string (cq_reportId c) \<noteq> None then SelAll else defaultFamilySelector (map_option SelFamily (cq_family c)))"
  show ?thesis
  proof (cases "cleanup_targets E root c (collectArtifacts E fs1 root (cq_nowMs c)) r0")
    case (Inl r)
    then have "res = Inr r" "fs' = fs1" using assms by (auto simp: cleanupOperatorSafeArtifacts_def Let_def r0_def)
    then show ?thesis using cleanup_targets_none [OF Inl [unfolded r0_def]] by (auto simp: removes_def)
  next
    case (Inr ts)
    obtain r where r: "res = Inr r" "fold (cleanup_item (cq_mode c) E root (truthy_string (cq_reportId c) \<noteq> None)) ts (r0, fs1) = (r, fs')"
      using assms Inr by (auto simp: cleanupOperatorSafeArtifacts_def Let_def r0_def split: prod.splits)
    have "removes (cq_mode c) E ts fs1 r fs'" using cleanup_step.loop_removes [OF r(2)] by (auto simp: removes_def r0_def)
    then show ?thesis using r(1) removes_mono cleanup_targets_subset [OF Inr] by blast
  qed
qed

lemma outside_artifact_root: "\<not> prefix (artifact_root R) k \<Longrightarrow> \<not> prefix k (artifact_root R) \<Longrightarrow> \<not> ensured R k"
  by (auto simp: ensured_def prefix_append prefix_Cons)

text \<open>
  C11. Maintenance removes only what it reports, below its own directories. When prune or cleanup fails, only its three
  directories may be new. Otherwise every removed item is an entry of the directory of its family; the file system
  afterwards is that with the directories made, less the removed items and what is below them, and when
  the request asks for a dry run nothing is removed. The result carries the mode of the request. In every case what lies neither below nor above the artifact root is as it was.
\<close>

theorem maintenance_removes_only_artifacts:
  assumes "clean_fs fs" "list_all clean_seg R" "fs1 = snd (ensureOperatorSafeArtifactDirs (me_host E) (absolute_text R) fs)"
    and "(mode, res, fs') \<in> {(pq_mode q, pruneOperatorSafeArtifacts E (absolute_text R) q fs), (cq_mode c, cleanupOperatorSafeArtifacts E (absolute_text R) c fs)}"
  shows "(case res of Inl e \<Rightarrow> fs' = fs1
     | Inr r \<Rightarrow> (\<forall>a \<in> set (ar_removed r). \<exists>e. ai_path a = absolute_text (artifact_root R @ [family_dir (ai_family a), e]))
         \<and> (\<forall>k. map_of fs' k = (if \<exists>a \<in> set (ar_removed r). prefix (resolve_segs (hs_cwd (me_host E)) (ai_path a)) k then None else map_of fs1 k))
         \<and> ar_mode r = mode \<and> (mode = MtDryRun \<longrightarrow> ar_removed r = []))
   \<and> (\<forall>k. \<not> prefix (artifact_root R) k \<and> \<not> prefix k (artifact_root R) \<longrightarrow> map_of fs' k = map_of fs k)"
proof -
  let ?H = "me_host E" and ?root = "absolute_text R"
  obtain er where en: "ensureOperatorSafeArtifactDirs ?H ?root fs = (er, fs1)" using assms(3) by (cases "ensureOperatorSafeArtifactDirs ?H ?root fs") simp
  note dirs = ensure_dirs [OF en assms(1,2)]
  show ?thesis
  proof (cases er)
    case (Inl e)
    then have "res = Inl e \<and> fs' = fs1"
      using assms(4) en by (auto simp: pruneOperatorSafeArtifacts_def cleanupOperatorSafeArtifacts_def)
    then show ?thesis using dirs(2) outside_artifact_root by auto
  next
    case (Inr u)
    have fam: "map_of fs1 (family_segs R f) = Some DirNode" for f using dirs(4) [OF Inr] ensured_family by simp
    obtain r nowMs where r: "res = Inr r" "removes mode E (collectArtifacts E fs1 ?root nowMs) fs1 r fs'"
      using assms(4) prune_runs [OF en [unfolded Inr]] cleanup_runs [OF en [unfolded Inr]] by (metis empty_iff insert_iff prod.inject)
    have place: "\<exists>e. clean_seg e \<and> ai_path a = absolute_text (artifact_root R @ [family_dir (ai_family a), e])" if "a \<in> set (ar_removed r)" for a
      using r(2) that collected(1) [OF dirs(1) assms(2) fam] by (fastforce simp: removes_def)
    have "\<not> prefix (resolve_segs (hs_cwd ?H) (ai_path a)) k" if a: "a \<in> set (ar_removed r)" and k: "\<not> prefix (artifact_root R) k" for a k
    proof -
      obtain e where "clean_seg e" "ai_path a = absolute_text (artifact_root R @ [family_dir (ai_family a), e])" using place [OF a] by blast
      then have "resolve_segs (hs_cwd ?H) (ai_path a) = artifact_root R @ [family_dir (ai_family a), e]" using assms(2) by simp
      then show ?thesis using k by (metis append_prefixD)
    qed
    then have "\<forall>k. \<not> prefix (artifact_root R) k \<and> \<not> prefix k (artifact_root R) \<longrightarrow> map_of fs' k = map_of fs k"
      using r(2) dirs(2) outside_artifact_root by (auto simp: removes_def)
    moreover have "\<forall>a \<in> set (ar_removed r). \<exists>e. ai_path a = absolute_text (artifact_root R @ [family_dir (ai_family a), e])" using place by blast
    ultimately show ?thesis using r by (simp add: removes_def)
  qed
qed

section \<open>What prune decides\<close>

text \<open>An artifact is due when it is older than its family is kept. Names that begin with two dots are taken for paths outside.\<close>

definition due :: "maint_env \<Rightarrow> int \<Rightarrow> (family \<Rightarrow> int) \<Rightarrow> listed_artifact \<Rightarrow> bool" where
  "due E nowMs retention item =
     (case recency E (JStr []) item of None \<Rightarrow> False | Some t \<Rightarrow> retention (la_family item) < nowMs - t)"

definition dotted :: "host \<Rightarrow> listed_artifact \<Rightarrow> bool" where
  "dotted H item = js_startsWith (last (resolve_segs (hs_cwd H) (la_path item))) ''..''"

abbreviation item_segs :: "maint_env \<Rightarrow> listed_artifact \<Rightarrow> string list" where
  "item_segs E item \<equiv> resolve_segs (hs_cwd (me_host E)) (la_path item)"

text \<open>Items that the loop can remove one after the other: different entries of directories at the same depth.\<close>

definition removable :: "maint_env \<Rightarrow> string \<Rightarrow> nat \<Rightarrow> listed_artifact list \<Rightarrow> filesystem \<Rightarrow> bool" where
  "removable E root n items fs \<longleftrightarrow> distinct (map (item_segs E) items)
     \<and> (\<forall>i \<in> set items. length (item_segs E i) = n \<and> map_of fs (item_segs E i) \<noteq> None \<and> la_existsOnDisk i
          \<and> (isPathWithin (hs_cwd (me_host E)) (family_root root (la_family i)) (la_path i) \<longleftrightarrow> \<not> dotted (me_host E) i))"

lemma removable_step:
  assumes "removable E root n (item # items) fs" "removeArtifactPath (me_host E) root item fs = (res, fs')"
  shows "(res = Inr ()) = (\<not> dotted (me_host E) item)" "removable E root n items fs'" "removable E root n items fs"
proof -
  show "(res = Inr ()) = (\<not> dotted (me_host E) item)"
    using assms by (auto simp: removable_def removeArtifactPath_def stat_def split: if_splits)
  have "\<not> prefix (item_segs E item) (item_segs E i)" if "i \<in> set items" for i
  proof
    assume "prefix (item_segs E item) (item_segs E i)"
    moreover have "length (item_segs E item) = length (item_segs E i)" using assms(1) that by (auto simp: removable_def)
    ultimately have "item_segs E item = item_segs E i" by (auto simp: prefix_def)
    then show False using assms(1) that by (auto simp: removable_def)
  qed
  then show "removable E root n items fs'"
    using assms(1) removeArtifactPath_map [OF assms(2)] by (simp add: removable_def)
  show "removable E root n items fs" using assms(1) by (simp add: removable_def)
qed

lemma prune_loop:
  assumes "removable E root n items fs" "fold (prune_item mode E root nowMs retention) items (r, fs) = (r', fs')"
  defines "d \<equiv> due E nowMs retention"
  shows "map ai_path (ar_evaluated r') = map ai_path (ar_evaluated r) @ map la_path items
    \<and> map ai_path (ar_planned r') = map ai_path (ar_planned r) @ map la_path (filter d items)
    \<and> map ai_path (ar_retained r') = map ai_path (ar_retained r) @ map la_path (filter (\<lambda>i. \<not> d i) items)
    \<and> map ai_path (ar_removed r') = map ai_path (ar_removed r)
        @ map la_path (filter (\<lambda>i. mode = MtApply \<and> d i \<and> \<not> dotted (me_host E) i) items)
    \<and> map ai_path (ar_skipped r') = map ai_path (ar_skipped r)
        @ map la_path (filter (\<lambda>i. mode = MtApply \<and> d i \<and> dotted (me_host E) i) items)"
  using assms(1,2)
proof (induction items arbitrary: r fs)
  case (Cons item items)
  obtain r1 fs1 where s: "prune_item mode E root nowMs retention item (r, fs) = (r1, fs1)" by fastforce
  then have f: "fold (prune_item mode E root nowMs retention) items (r1, fs1) = (r', fs')" using Cons.prems(2) by simp
  obtain res fs2 where rm: "removeArtifactPath (me_host E) root item fs = (res, fs2)" by fastforce
  have ex: "la_existsOnDisk item" using Cons.prems(1) by (simp add: removable_def)
  have mode: "mode \<noteq> MtDryRun \<longleftrightarrow> mode = MtApply" by (cases mode) auto
  show ?case
  proof (cases "d item")
    case False
    then have r1: "ar_planned r1 = ar_planned r" "ar_removed r1 = ar_removed r" "ar_skipped r1 = ar_skipped r"
      "map ai_path (ar_evaluated r1) = map ai_path (ar_evaluated r) @ [la_path item]"
      "map ai_path (ar_retained r1) = map ai_path (ar_retained r) @ [la_path item]" "fs1 = fs"
      using s ex by (auto simp: d_def due_def prune_item_def Let_def split: option.splits)
    show ?thesis using Cons.IH [OF _ f] removable_step(3) [OF Cons.prems(1) rm] False r1 by simp
  next
    case True
    then obtain t a where t: "prune_item mode E root nowMs retention item (r, fs)
        = remove_planned mode (me_host E) root item a (r\<lparr>ar_evaluated := ar_evaluated r @ [a], ar_planned := ar_planned r @ [a]\<rparr>, fs)" "ai_path a = la_path item"
      using ex by (auto simp: d_def due_def prune_item_def Let_def split: option.splits)
    have r1: "ar_retained r1 = ar_retained r" "ar_evaluated r1 = ar_evaluated r @ [a]" "ar_planned r1 = ar_planned r @ [a]"
      "map ai_path (ar_removed r1) = map ai_path (ar_removed r) @ (if mode = MtApply \<and> \<not> dotted (me_host E) item then [la_path item] else [])"
      "map ai_path (ar_skipped r1) = map ai_path (ar_skipped r) @ (if mode = MtApply \<and> dotted (me_host E) item then [la_path item] else [])"
      "fs1 = (if mode = MtApply then fs2 else fs)"
      using s t mode removable_step(1) [OF Cons.prems(1) rm]
      by (auto simp: remove_planned_def Let_def rm split: sum.splits prod.splits if_splits)
    show ?thesis using Cons.IH [OF _ f] removable_step(2,3) [OF Cons.prems(1) rm] True r1 t(2) by simp
  qed
qed simp

lemma relative_entry:
  assumes "list_all clean_seg (k @ [e])"
  shows "isPathWithin cwd (absolute_text k) (absolute_text (k @ [e])) \<longleftrightarrow> \<not> js_startsWith e ''..''"
proof -
  have k: "list_all clean_seg k" "e \<noteq> []" "CHR ''/'' \<notin> set e" using assms by (auto simp: clean_seg_def seg_ok_def)
  have "path_relative cwd (absolute_text k) (absolute_text (k @ [e])) = e"
    by (subst relative_inside [where s = "[e]"]) (use assms k in simp_all)
  moreover have "\<not> isAbsolute e" using k(2,3) by (cases e) (auto simp: isAbsolute_def js_startsWith_def)
  ultimately show ?thesis using k(2) by (simp add: isPathWithin_def)
qed

lemma listed_removable:
  assumes fs: "clean_fs fs" "list_all clean_seg R" "\<And>f. map_of fs (family_segs R f) = Some DirNode"
    and items: "set items \<subseteq> set (collectArtifacts E fs (absolute_text R) nowMs)" "distinct (map la_path items)"
  shows "removable E (absolute_text R) (length (artifact_root R) + 2) items fs"
proof -
  have place: "la_existsOnDisk i \<and> (\<exists>e. clean_seg e \<and> la_path i = absolute_text (family_segs R (la_family i) @ [e])
      \<and> map_of fs (family_segs R (la_family i) @ [e]) \<noteq> None)" if "i \<in> set items" for i
    using collected(1) [OF fs, of i E nowMs] items(1) that by blast
  have one: "length (item_segs E i) = length (artifact_root R) + 2 \<and> map_of fs (item_segs E i) \<noteq> None \<and> la_existsOnDisk i
      \<and> (isPathWithin (hs_cwd (me_host E)) (family_root (absolute_text R) (la_family i)) (la_path i) \<longleftrightarrow> \<not> dotted (me_host E) i)
      \<and> la_path i = absolute_text (item_segs E i)"
    if it: "i \<in> set items" for i
  proof -
    obtain e where e: "clean_seg e" "la_path i = absolute_text (family_segs R (la_family i) @ [e])" "map_of fs (family_segs R (la_family i) @ [e]) \<noteq> None"
      using place [OF it] by blast
    have cl: "list_all clean_seg (family_segs R (la_family i) @ [e])" using fs(2) e(1) by simp
    have "item_segs E i = family_segs R (la_family i) @ [e]" unfolding e(2) using cl by (rule resolve_absolute_text)
    then show ?thesis using e place [OF it] relative_entry [OF cl] fs(2) by (simp add: dotted_def)
  qed
  then have "inj_on (item_segs E) (set items)" using items(2) unfolding inj_on_def distinct_map by metis
  then show ?thesis using one items(2) by (simp add: removable_def distinct_map)
qed

text \<open>
  C16. Prune decides by age. The artifacts of the requested family are each evaluated once, in order; those older than
  the retention of their family are planned and the others, with those whose time cannot be read, are retained. A dry run
  stops there. In apply mode exactly the planned artifacts are removed, except those whose name begins with two dots,
  which are skipped; nothing else is.
\<close>

theorem prune_removes_what_is_due:
  assumes "clean_fs fs" "list_all clean_seg R"
    and "pruneOperatorSafeArtifacts E (absolute_text R) q fs = (Inr r, fs')"
    and "fs1 = snd (ensureOperatorSafeArtifactDirs (me_host E) (absolute_text R) fs)"
    and "arts = filterArtifactsByFamily (collectArtifacts E fs1 (absolute_text R) (pq_nowMs q)) (defaultFamilySelector (pq_family q))"
    and "isDue = due E (pq_nowMs q) (\<lambda>f. nullish (pq_retentionOverridesMs q f) (DEFAULT_RETENTION_MS f))"
  shows "map ai_path (ar_evaluated r) = map la_path arts
    \<and> map ai_path (ar_planned r) = map la_path (filter isDue arts)
    \<and> map ai_path (ar_retained r) = map la_path (filter (\<lambda>i. \<not> isDue i) arts)
    \<and> map ai_path (ar_removed r) = map la_path (filter (\<lambda>i. pq_mode q = MtApply \<and> isDue i \<and> \<not> dotted (me_host E) i) arts)
    \<and> map ai_path (ar_skipped r) = map la_path (filter (\<lambda>i. pq_mode q = MtApply \<and> isDue i \<and> dotted (me_host E) i) arts)
    \<and> (\<forall>k. map_of fs' k = (if \<exists>a \<in> set (ar_removed r). prefix (resolve_segs (hs_cwd (me_host E)) (ai_path a)) k then None else map_of fs1 k))"
proof -
  obtain er where en: "ensureOperatorSafeArtifactDirs (me_host E) (absolute_text R) fs = (er, fs1)"
    using assms(4) by (cases "ensureOperatorSafeArtifactDirs (me_host E) (absolute_text R) fs") simp
  have er: "er = Inr ()" using assms(3) en by (cases er) (auto simp: pruneOperatorSafeArtifacts_def)
  note dirs = ensure_dirs [OF en assms(1,2)]
  have fam: "map_of fs1 (family_segs R f) = Some DirNode" for f using dirs(4) [OF er] ensured_family by simp
  have sub: "set arts \<subseteq> set (collectArtifacts E fs1 (absolute_text R) (pq_nowMs q))" unfolding assms(5) by (rule filterArtifacts_subset)
  have dis: "distinct (map la_path arts)"
    unfolding assms(5) by (rule filterArtifacts_distinct, rule collected(2) [OF dirs(1) assms(2) fam])
  have loop: "fold (prune_item (pq_mode q) E (absolute_text R) (pq_nowMs q) (\<lambda>f. nullish (pq_retentionOverridesMs q f) (DEFAULT_RETENTION_MS f))) arts
      (no_actions ActPrune (pq_mode q) (defaultFamilySelector (pq_family q)), fs1) = (r, fs')"
    using assms(3) en er assms(5) by (auto simp: pruneOperatorSafeArtifacts_def Let_def split: prod.splits)
  show ?thesis
    using prune_loop [OF listed_removable [OF dirs(1) assms(2) fam sub dis] loop, folded assms(6)]
      prune_runs [OF en [unfolded er] assms(3)] by (simp add: removes_def)
qed

section \<open>What cleanup decides\<close>

lemma cleanup_loop:
  assumes "removable E root n items fs" "fold (cleanup_item mode E root byReport) items (r, fs) = (r', fs')"
  shows "map ai_path (ar_evaluated r') = map ai_path (ar_evaluated r) @ map la_path items
    \<and> map ai_path (ar_planned r') = map ai_path (ar_planned r) @ map la_path (filter (cleanup_eligible byReport) items)
    \<and> map ai_path (ar_retained r') = map ai_path (ar_retained r) @ map la_path (filter (\<lambda>i. \<not> cleanup_eligible byReport i) items)
    \<and> map ai_path (ar_removed r') = map ai_path (ar_removed r)
        @ map la_path (filter (\<lambda>i. mode = MtApply \<and> cleanup_eligible byReport i \<and> \<not> dotted (me_host E) i) items)"
  using assms
proof (induction items arbitrary: r fs)
  case (Cons item items)
  obtain r1 fs1 where s: "cleanup_item mode E root byReport item (r, fs) = (r1, fs1)" by fastforce
  then have f: "fold (cleanup_item mode E root byReport) items (r1, fs1) = (r', fs')" using Cons.prems(2) by simp
  obtain res fs2 where rm: "removeArtifactPath (me_host E) root item fs = (res, fs2)" by fastforce
  have mode: "mode \<noteq> MtDryRun \<longleftrightarrow> mode = MtApply" by (cases mode) auto
  show ?case
  proof (cases "cleanup_eligible byReport item")
    case False
    then have r1: "ar_planned r1 = ar_planned r" "ar_removed r1 = ar_removed r"
      "map ai_path (ar_evaluated r1) = map ai_path (ar_evaluated r) @ [la_path item]"
      "map ai_path (ar_retained r1) = map ai_path (ar_retained r) @ [la_path item]" "fs1 = fs"
      using s by (auto simp: cleanup_item_def Let_def)
    show ?thesis using Cons.IH [OF _ f] removable_step(3) [OF Cons.prems(1) rm] False r1 by simp
  next
    case True
    then have r1: "ar_retained r1 = ar_retained r" "map ai_path (ar_evaluated r1) = map ai_path (ar_evaluated r) @ [la_path item]"
      "map ai_path (ar_planned r1) = map ai_path (ar_planned r) @ [la_path item]"
      "map ai_path (ar_removed r1) = map ai_path (ar_removed r) @ (if mode = MtApply \<and> \<not> dotted (me_host E) item then [la_path item] else [])"
      "fs1 = (if mode = MtApply then fs2 else fs)"
      using s mode removable_step(1) [OF Cons.prems(1) rm]
      by (auto simp: cleanup_item_def remove_planned_def Let_def rm split: sum.splits prod.splits if_splits)
    show ?thesis using Cons.IH [OF _ f] removable_step(2,3) [OF Cons.prems(1) rm] True r1 by simp
  qed
qed simp

text \<open>
  What justifies a removal, read off the files and not off the classification of the listing: the metadata of an artifact
  is its own file, or the manifest of a workspace. A report failed when its file records one of four outcomes; an artifact is
  unclaimed when its metadata names no listed report; a workspace is past its lifetime when the time it was created plus
  the lifetime it was given is not after the time of the request.
\<close>

definition metadata :: "maint_env \<Rightarrow> filesystem \<Rightarrow> listed_artifact \<Rightarrow> json option" where
  "metadata E fs item =
     read_json (me_host E) fs (if la_family item = FamTempWorkspace then path_join (la_path item) ''manifest.json'' else la_path item)"

definition failed_report :: "maint_env \<Rightarrow> filesystem \<Rightarrow> listed_artifact \<Rightarrow> bool" where
  "failed_report E fs item \<longleftrightarrow> la_family item = FamReport
     \<and> (\<exists>v. metadata E fs item = Some v \<and> (\<exists>s \<in> {''blocked'', ''failed'', ''cleanup_failed'', ''rollback_degraded''}. jget v ''outcome'' = Some (JStr s)))"

definition unclaimed :: "maint_env \<Rightarrow> filesystem \<Rightarrow> listed_artifact list \<Rightarrow> listed_artifact \<Rightarrow> bool" where
  "unclaimed E fs arts item \<longleftrightarrow> (\<exists>v. metadata E fs item = Some v
     \<and> \<not> (\<exists>rep \<in> set arts. \<exists>x. la_family rep = FamReport \<and> la_artifactId rep = JStr x \<and> jget v ''reportId'' = Some (JStr x)))"

definition past_lifetime :: "maint_env \<Rightarrow> filesystem \<Rightarrow> int \<Rightarrow> listed_artifact \<Rightarrow> bool" where
  "past_lifetime E fs nowMs item \<longleftrightarrow> la_family item = FamTempWorkspace
     \<and> (\<exists>v c s created expiry. metadata E fs item = Some v \<and> jget v ''createdAt'' = Some c \<and> jget v ''staleAfterMs'' = Some s
          \<and> me_dateParse E c = Some created \<and> (case s of JNum n \<Rightarrow> Some (created + n) | _ \<Rightarrow> me_addMs E created s) = Some expiry
          \<and> expiry \<le> nowMs)"

text \<open>A report that the listing takes for failed, and an artifact that belongs to a report.\<close>

definition degraded :: "listed_artifact \<Rightarrow> bool" where
  "degraded item = (case la_report item of None \<Rightarrow> False | Some v \<Rightarrow> getReportCleanupEligible v)"

definition names_report :: "string \<Rightarrow> listed_artifact \<Rightarrow> bool" where
  "names_report rid item \<longleftrightarrow> la_artifactId item = JStr rid \<or> la_reportId item = Some (JStr rid)"

lemma find_SomeD: "List.find P xs = Some x \<Longrightarrow> x \<in> set xs \<and> P x"
  by (auto simp: find_Some_iff)

lemma report_eligible:
  fixes E fs dir nowMs e
  defines "item \<equiv> read_report E fs dir nowMs e"
  shows "cleanup_eligible byReport item \<Longrightarrow> degraded item" "degraded item \<Longrightarrow> failed_report E fs item"
  by (auto simp: item_def read_report_def missing_artifact_def untrusted_artifact_def cleanup_eligible_def degraded_def classifyReportEligibility_def
      getReportCleanupEligible_def failed_report_def metadata_def Let_def split: option.splits if_splits)

lemma linked_listed:
  assumes "\<not> linked (map la_artifactId reports) v" "\<And>rep. rep \<in> set arts \<Longrightarrow> la_family rep = FamReport \<Longrightarrow> rep \<in> set reports" "metadata E fs item = Some v"
  shows "unclaimed E fs arts item"
  using assms by (force simp: linked_def unclaimed_def split: option.splits json.splits)

lemma snapshot_eligible:
  fixes E fs reports dir nowMs e
  defines "item \<equiv> read_snapshot E fs (map la_artifactId reports) dir nowMs e"
  assumes "cleanup_eligible False item" "\<And>rep. rep \<in> set arts \<Longrightarrow> la_family rep = FamReport \<Longrightarrow> rep \<in> set reports"
  shows "unclaimed E fs arts item"
proof (rule linked_listed [where reports = reports])
  obtain v where v: "read_json (me_host E) fs (path_join dir e) = Some v" "\<not> linked (map la_artifactId reports) v" "la_path item = path_join dir e"
    "la_family item = FamSnapshot"
    using assms(2) unfolding item_def
    by (auto simp: read_snapshot_def missing_artifact_def untrusted_artifact_def cleanup_eligible_def Let_def split: option.splits if_splits)
  then show "\<not> linked (map la_artifactId reports) (the (metadata E fs item))" "metadata E fs item = Some (the (metadata E fs item))"
    by (simp_all add: metadata_def)
qed (rule assms(3))

lemma classify_temp:
  assumes "classifyTempEligibility E nowMs c s lk un = (el, reason)" "el = Eligible \<or> reason \<in> {EligibleByOrphanTarget, EligibleByTempStaleness, EligibleByDegradedReport}"
  shows "\<not> un \<and> (lk \<longrightarrow> (\<exists>cv sv created expiry. c = Some cv \<and> s = Some sv \<and> me_dateParse E cv = Some created
    \<and> (case sv of JNum n \<Rightarrow> Some (created + n) | _ \<Rightarrow> me_addMs E created sv) = Some expiry \<and> expiry \<le> nowMs))"
  using assms by (cases c; cases s) (auto simp: classifyTempEligibility_def split: option.splits if_splits)

lemma temp_eligible:
  fixes E fs reports dir nowMs e
  defines "item \<equiv> read_temp E fs (map la_artifactId reports) dir nowMs e"
  assumes el: "cleanup_eligible False item" and reports: "\<And>rep. rep \<in> set arts \<Longrightarrow> la_family rep = FamReport \<Longrightarrow> rep \<in> set reports"
  shows "unclaimed E fs arts item \<or> past_lifetime E fs nowMs item"
proof -
  let ?p = "path_join dir e"
  obtain v where v: "read_json (me_host E) fs (path_join ?p ''manifest.json'') = Some v" "stat (me_host E) fs ?p \<noteq> None"
    using el unfolding item_def
    by (auto simp: read_temp_def missing_artifact_def untrusted_artifact_def cleanup_eligible_def classifyTempEligibility_def Let_def split: option.splits if_splits)
  obtain el0 reason where c: "classifyTempEligibility E nowMs (jget v ''createdAt'') (jget v ''staleAfterMs'') (linked (map la_artifactId reports) v) False = (el0, reason)"
    by fastforce
  have it: "la_family item = FamTempWorkspace" "metadata E fs item = Some v" "la_cleanupEligibility item = el0" "la_cleanupReason item = Some reason"
    using v c by (auto simp: item_def read_temp_def metadata_def Let_def)
  have "el0 = Eligible \<or> reason \<in> {EligibleByOrphanTarget, EligibleByTempStaleness, EligibleByDegradedReport}"
    using el it(3,4) by (simp add: cleanup_eligible_def)
  from classify_temp [OF c this] linked_listed [OF _ reports it(2)] it(1,2) show ?thesis
    unfolding past_lifetime_def by blast
qed

lemma read_family [simp]:
  "la_family (read_report E fs dir nowMs e) = FamReport" "la_family (read_snapshot E fs ids dir nowMs e) = FamSnapshot"
  "la_family (read_temp E fs ids dir nowMs e) = FamTempWorkspace"
  by (simp_all add: read_report_def read_snapshot_def read_temp_def missing_artifact_def untrusted_artifact_def Let_def split: option.split prod.split)

lemma eligible_listed:
  assumes "clean_fs fs" "list_all clean_seg R" "\<And>f. map_of fs (family_segs R f) = Some DirNode"
    and arts: "arts = collectArtifacts E fs (absolute_text R) nowMs" and item: "item \<in> set arts"
  shows "la_family item = FamReport \<Longrightarrow> cleanup_eligible byReport item \<or> degraded item \<Longrightarrow> failed_report E fs item"
    and "la_family item \<noteq> FamReport \<Longrightarrow> cleanup_eligible False item \<Longrightarrow> unclaimed E fs arts item \<or> past_lifetime E fs nowMs item"
proof -
  define reports where "reports = readReportArtifacts E fs (absolute_text R) nowMs"
  have ids: "report_ids E fs R nowMs = map la_artifactId reports"
    by (simp add: reports_def report_ids_def readReportArtifacts_def family_dirs_text [OF assms(2)] family_entries_def Let_def comp_def)
  have fam: "rep \<in> set reports" if "rep \<in> set arts" "la_family rep = FamReport" for rep
    using that unfolding arts collectArtifacts_def reports_def [symmetric] Let_def
    by (auto simp: readSnapshotArtifacts_def readTempArtifacts_def Let_def)
  obtain e where e: "item = read_entry E fs R nowMs (la_family item) e" using collected(1) [OF assms(1-3)] item unfolding arts by blast
  show "failed_report E fs item" if "la_family item = FamReport" "cleanup_eligible byReport item \<or> degraded item"
  proof -
    have "item = read_report E fs (absolute_text (family_segs R FamReport)) nowMs e" using e that(1) by (simp add: read_entry_def Let_def)
    then show ?thesis using that(2) report_eligible by metis
  qed
  show "unclaimed E fs arts item \<or> past_lifetime E fs nowMs item" if "la_family item \<noteq> FamReport" and el: "cleanup_eligible False item"
  proof (cases "la_family item")
    case FamSnapshot
    then have "item = read_snapshot E fs (map la_artifactId reports) (absolute_text (family_segs R FamSnapshot)) nowMs e"
      using e by (simp add: read_entry_def Let_def ids)
    then show ?thesis using snapshot_eligible [OF _ fam] el by metis
  next
    case FamTempWorkspace
    then have "item = read_temp E fs (map la_artifactId reports) (absolute_text (family_segs R FamTempWorkspace)) nowMs e"
      using e by (simp add: read_entry_def Let_def ids)
    then show ?thesis using temp_eligible [OF _ fam] el by metis
  qed (use that(1) in simp)
qed

lemma cleanup_target_choice:
  assumes "cleanup_targets E root q arts r = Inr ts"
  shows "(\<exists>rid. truthy_string (cq_reportId q) = Some rid \<and> ts = filter (names_report rid) arts
      \<and> (\<exists>rep. List.find (\<lambda>i. la_family i = FamReport \<and> la_artifactId i = JStr rid) arts = Some rep \<and> degraded rep))
    \<or> (\<exists>f aid t. truthy_string (cq_reportId q) = None \<and> cq_family q = Some f \<and> f \<noteq> FamReport \<and> truthy_string (cq_artifactId q) = Some aid
         \<and> List.find (\<lambda>i. la_family i = f \<and> la_artifactId i = JStr aid) arts = Some t \<and> ts = [t])"
proof (cases "truthy_string (cq_reportId q)")
  case None
  then show ?thesis using assms by (auto simp: cleanup_targets_def Let_def split: option.splits if_splits)
next
  case (Some rid)
  then obtain rep where rep: "List.find (\<lambda>i. la_family i = FamReport \<and> la_artifactId i = JStr rid) arts = Some rep" "degraded rep"
    "ts = filter (\<lambda>i. la_artifactId i = la_artifactId rep \<or> la_reportId i = Some (la_artifactId rep)) arts"
    using assms by (auto simp: cleanup_targets_def Let_def degraded_def split: option.splits if_splits)
  moreover have "la_artifactId rep = JStr rid" using rep(1) by (auto simp: find_Some_iff)
  ultimately show ?thesis using Some by (auto simp: names_report_def [abs_def])
qed

text \<open>
  C17. Cleanup removes only what the files prove to be removable, and only when the request asks for apply: with a report id, a listed
  report with that id whose file records a blocked, failed, cleanup-failed or rollback-degraded outcome must exist, and what is removed
  belongs to it, with every removed report failed itself; with a family and an id, the artifact is a snapshot or temporary workspace of
  that id whose metadata can be read and names no listed report, or a workspace whose time of creation plus its lifetime has passed.
\<close>

theorem cleanup_removes_proven_targets:
  assumes "clean_fs fs" "list_all clean_seg R" "cleanupOperatorSafeArtifacts E (absolute_text R) q fs = (Inr r, fs')"
    and "fs1 = snd (ensureOperatorSafeArtifactDirs (me_host E) (absolute_text R) fs)"
    and "arts = collectArtifacts E fs1 (absolute_text R) (cq_nowMs q)"
    and "a \<in> set (ar_removed r)"
  shows "cq_mode q = MtApply \<and> (\<exists>item \<in> set arts. ai_path a = la_path item \<and>
     (case truthy_string (cq_reportId q) of
        Some rid \<Rightarrow> names_report rid item \<and> (la_family item = FamReport \<longrightarrow> failed_report E fs1 item)
          \<and> (\<exists>rep \<in> set arts. la_artifactId rep = JStr rid \<and> failed_report E fs1 rep)
      | None \<Rightarrow> cq_family q = Some (la_family item) \<and> la_family item \<noteq> FamReport
          \<and> (\<exists>aid. truthy_string (cq_artifactId q) = Some aid \<and> la_artifactId item = JStr aid)
          \<and> (unclaimed E fs1 arts item \<or> past_lifetime E fs1 (cq_nowMs q) item)))"
proof -
  obtain er where en: "ensureOperatorSafeArtifactDirs (me_host E) (absolute_text R) fs = (er, fs1)"
    using assms(4) by (cases "ensureOperatorSafeArtifactDirs (me_host E) (absolute_text R) fs") simp
  have er: "er = Inr ()" using assms(3) en by (cases er) (auto simp: cleanupOperatorSafeArtifacts_def)
  note dirs = ensure_dirs [OF en assms(1,2)]
  have fam: "map_of fs1 (family_segs R f) = Some DirNode" for f using dirs(4) [OF er] ensured_family by simp
  define r0 where "r0 = no_actions ActCleanup (cq_mode q)
    (if truthy_string (cq_reportId q) \<noteq> None then SelAll else defaultFamilySelector (map_option SelFamily (cq_family q)))"
  note arts = assms(5)
  obtain ts where ts: "cleanup_targets E (absolute_text R) q arts r0 = Inr ts"
  proof (cases "cleanup_targets E (absolute_text R) q arts r0")
    case (Inl r2)
    then have "r = r2" using assms(3) en er arts by (auto simp: cleanupOperatorSafeArtifacts_def Let_def r0_def)
    then show ?thesis using cleanup_targets_none [OF Inl [unfolded r0_def]] assms(6) by simp
  qed (rule that)
  then have loop: "fold (cleanup_item (cq_mode q) E (absolute_text R) (truthy_string (cq_reportId q) \<noteq> None)) ts (r0, fs1) = (r, fs')"
    using assms(3) en er arts by (auto simp: cleanupOperatorSafeArtifacts_def Let_def r0_def split: prod.splits)
  have sub: "set ts \<subseteq> set arts" by (rule cleanup_targets_subset [OF ts])
  have "distinct (map la_path arts)" unfolding arts by (rule collected(2) [OF dirs(1) assms(2) fam])
  then have "distinct (map la_path ts)" using cleanup_target_choice [OF ts] by (auto simp: distinct_map inj_on_def)
  from cleanup_loop [OF listed_removable [OF dirs(1) assms(2) fam sub [unfolded arts] this] loop]
  have "map ai_path (ar_removed r) = map la_path (filter (\<lambda>i. cq_mode q = MtApply \<and> cleanup_eligible (truthy_string (cq_reportId q) \<noteq> None) i \<and> \<not> dotted (me_host E) i) ts)"
    by (simp add: r0_def)
  then have "ai_path a \<in> set (map la_path (filter (\<lambda>i. cq_mode q = MtApply \<and> cleanup_eligible (truthy_string (cq_reportId q) \<noteq> None) i \<and> \<not> dotted (me_host E) i) ts))"
    using assms(6) by (metis list.set_map imageI)
  then obtain item where it: "item \<in> set ts" "ai_path a = la_path item" "cq_mode q = MtApply" "cleanup_eligible (truthy_string (cq_reportId q) \<noteq> None) item"
    by auto
  have sub': "item \<in> set arts" using it(1) sub by blast
  note listed = eligible_listed [OF dirs(1) assms(2) fam arts]
  have rep: "la_family item = FamReport \<longrightarrow> failed_report E fs1 item" using listed(1) [OF sub'] it(4) by blast
  have "case truthy_string (cq_reportId q) of
        Some rid \<Rightarrow> names_report rid item \<and> (la_family item = FamReport \<longrightarrow> failed_report E fs1 item)
          \<and> (\<exists>rep \<in> set arts. la_artifactId rep = JStr rid \<and> failed_report E fs1 rep)
      | None \<Rightarrow> cq_family q = Some (la_family item) \<and> la_family item \<noteq> FamReport
          \<and> (\<exists>aid. truthy_string (cq_artifactId q) = Some aid \<and> la_artifactId item = JStr aid)
          \<and> (unclaimed E fs1 arts item \<or> past_lifetime E fs1 (cq_nowMs q) item)"
    using cleanup_target_choice [OF ts]
  proof (elim disjE exE conjE)
    fix rid found assume rid: "truthy_string (cq_reportId q) = Some rid" "ts = filter (names_report rid) arts"
      "List.find (\<lambda>i. la_family i = FamReport \<and> la_artifactId i = JStr rid) arts = Some found" "degraded found"
    then show ?thesis using listed(1) [of found] rep it(1) by (auto dest!: find_SomeD)
  next
    fix f aid t assume f: "truthy_string (cq_reportId q) = None" "cq_family q = Some f" "f \<noteq> FamReport" "truthy_string (cq_artifactId q) = Some aid"
      "List.find (\<lambda>i. la_family i = f \<and> la_artifactId i = JStr aid) arts = Some t" "ts = [t]"
    then show ?thesis using listed(2) [OF sub'] it(1,4) by (auto dest!: find_SomeD)
  qed
  then show ?thesis using it(2,3) sub' by blast
qed

section \<open>An example\<close>

definition artifact_root0 :: "string list" where
  "artifact_root0 = [''r'', ''.dh'', ''runtime'', ''operator-safe-worktree'']"

definition maint_fs0 :: filesystem where
  "maint_fs0 = map (\<lambda>i. (take i artifact_root0, DirNode)) [0, 1, 2, 3, 4]
     @ map (\<lambda>d. (artifact_root0 @ [d], DirNode)) [''reports'', ''snapshots'', ''temp'']
     @ [(artifact_root0 @ [''reports'', ''a.json''], FileNode ''{\"outcome\":\"failed\"}''),
        (artifact_root0 @ [''snapshots'', ''s.json''], FileNode ''{\"reportId\":\"a\"}''),
        (artifact_root0 @ [''snapshots'', ''t.json''], FileNode ''{}'')]"

definition maint_env0 :: maint_env where
  "maint_env0 = \<lparr>me_host = host0, me_ck = map of_char, me_dateParse = (\<lambda>v. case v of JStr s \<Rightarrow> Some (int (length s)) | _ \<Rightarrow> None),
     me_toISO = (\<lambda>t. if t = 1 then ''x'' else ''yyyy''), me_birthtimeMs = (\<lambda>k. 1), me_mtimeMs = (\<lambda>k. if last k = ''a.json'' then 1 else 4),
     me_addMs = (\<lambda>t v. None)\<rparr>"

definition prune0 :: prune_request where
  "prune0 = \<lparr>pq_mode = MtApply, pq_family = None, pq_nowMs = 5, pq_retentionOverridesMs = (\<lambda>f. Some 2)\<rparr>"

definition cleanup0 :: cleanup_request where
  "cleanup0 = \<lparr>cq_mode = MtApply, cq_reportId = Some ''a'', cq_family = None, cq_artifactId = None, cq_nowMs = 5\<rparr>"

text \<open>A cleanup of the snapshot that no report claims, and one of a workspace of the report that was created at 1 and given 2 milliseconds.\<close>

definition cleanup1 :: cleanup_request where
  "cleanup1 = \<lparr>cq_mode = MtApply, cq_reportId = None, cq_family = Some FamSnapshot, cq_artifactId = Some ''t'', cq_nowMs = 5\<rparr>"

definition maint_fs1 :: filesystem where
  "maint_fs1 = maint_fs0 @ [(artifact_root0 @ [''temp'', ''w''], DirNode),
     (artifact_root0 @ [''temp'', ''w'', ''manifest.json''], FileNode ''{\"reportId\":\"a\",\"createdAt\":\"x\",\"staleAfterMs\":2}'')]"

definition cleanup2 :: "int \<Rightarrow> cleanup_request" where
  "cleanup2 nowMs = \<lparr>cq_mode = MtApply, cq_reportId = None, cq_family = Some FamTempWorkspace, cq_artifactId = Some ''w'', cq_nowMs = nowMs\<rparr>"

abbreviation artifact0 :: "string \<Rightarrow> string" where
  "artifact0 p \<equiv> ''/r/.dh/runtime/operator-safe-worktree/'' @ p"

lemma maint_fs0_clean: "clean_fs maint_fs0" "list_all clean_seg [''r'']" "absolute_text [''r''] = ''/r''"
proof -
  have "wf_check maint_fs0" by code_simp
  moreover have "distinct (map fst maint_fs0)" by code_simp
  moreover have "list_all (\<lambda>k. list_all clean_seg k) (map fst maint_fs0)" by code_simp
  ultimately show "clean_fs maint_fs0" by (auto simp: clean_fs_def list_all_iff intro: wf_check)
qed (code_simp+)

lemma prune0_run:
  "map_sum id (map ai_path \<circ> ar_removed) (fst (pruneOperatorSafeArtifacts maint_env0 ''/r'' prune0 maint_fs0)) = Inr [artifact0 ''reports/a.json'']"
  by code_simp

lemma cleanup0_run:
  "map_sum id (map ai_path \<circ> ar_removed) (fst (cleanupOperatorSafeArtifacts maint_env0 ''/r'' cleanup0 maint_fs0))
     = Inr [artifact0 ''reports/a.json'', artifact0 ''snapshots/s.json'']"
  by code_simp

lemma cleanup1_run:
  "map_sum id (map ai_path \<circ> ar_removed) (fst (cleanupOperatorSafeArtifacts maint_env0 ''/r'' cleanup1 maint_fs0)) = Inr [artifact0 ''snapshots/t.json'']"
  by code_simp

text \<open>The claimed workspace is removed at 3, when its lifetime has passed, and retained at 2.\<close>

lemma cleanup2_runs:
  "map_sum id (map ai_path \<circ> ar_removed) (fst (cleanupOperatorSafeArtifacts maint_env0 ''/r'' (cleanup2 3) maint_fs1)) = Inr [artifact0 ''temp/w'']"
  "map_sum id (map ai_path \<circ> ar_removed) (fst (cleanupOperatorSafeArtifacts maint_env0 ''/r'' (cleanup2 2) maint_fs1)) = Inr []"
  by code_simp+

lemma map_sum_Inr: "map_sum id f x = Inr y \<Longrightarrow> \<exists>r. x = Inr r \<and> f r = y"
  by (cases x) auto

theorem maintenance_removes_only_artifacts_witness:
  "\<exists>r fs'. cleanupOperatorSafeArtifacts maint_env0 ''/r'' cleanup0 maint_fs0 = (Inr r, fs') \<and> length (ar_removed r) = 2
     \<and> (\<forall>a \<in> set (ar_removed r). \<exists>e. ai_path a = absolute_text (artifact_root [''r''] @ [family_dir (ai_family a), e]))
     \<and> (\<forall>k. \<not> prefix (artifact_root [''r'']) k \<and> \<not> prefix k (artifact_root [''r'']) \<longrightarrow> map_of fs' k = map_of maint_fs0 k)"
proof -
  obtain r fs' where r: "cleanupOperatorSafeArtifacts maint_env0 ''/r'' cleanup0 maint_fs0 = (Inr r, fs')" "length (ar_removed r) = 2"
    using map_sum_Inr [OF cleanup0_run]
    by (cases "cleanupOperatorSafeArtifacts maint_env0 ''/r'' cleanup0 maint_fs0") (auto dest: arg_cong [where f = length])
  have "(MtApply, Inr r, fs') \<in> {(pq_mode prune0, pruneOperatorSafeArtifacts maint_env0 (absolute_text [''r'']) prune0 maint_fs0),
      (cq_mode cleanup0, cleanupOperatorSafeArtifacts maint_env0 (absolute_text [''r'']) cleanup0 maint_fs0)}"
    unfolding cleanup0_def [THEN arg_cong [where f = cq_mode]] cleanup_request.simps maint_fs0_clean(3) r(1) by simp
  note out = maintenance_removes_only_artifacts [OF maint_fs0_clean(1,2) refl this, unfolded sum.case]
  from conjunct1 [OF conjunct1 [OF out]] conjunct2 [OF out] r show ?thesis by blast
qed

theorem prune_removes_what_is_due_witness:
  "\<exists>r fs'. pruneOperatorSafeArtifacts maint_env0 ''/r'' prune0 maint_fs0 = (Inr r, fs')
     \<and> map ai_path (ar_removed r) = [artifact0 ''reports/a.json'']
     \<and> map ai_path (ar_planned r) = map la_path (filter (due maint_env0 5 (\<lambda>f. 2))
         (filterArtifactsByFamily (collectArtifacts maint_env0 (snd (ensureOperatorSafeArtifactDirs host0 ''/r'' maint_fs0)) ''/r'' 5) SelAll))"
proof -
  obtain r fs' where r: "pruneOperatorSafeArtifacts maint_env0 ''/r'' prune0 maint_fs0 = (Inr r, fs')"
    "map ai_path (ar_removed r) = [artifact0 ''reports/a.json'']"
    using map_sum_Inr [OF prune0_run] by (cases "pruneOperatorSafeArtifacts maint_env0 ''/r'' prune0 maint_fs0") auto
  have "pq_nowMs prune0 = 5" "(\<lambda>f. nullish (pq_retentionOverridesMs prune0 f) (DEFAULT_RETENTION_MS f)) = (\<lambda>f. 2)"
    "defaultFamilySelector (pq_family prune0) = SelAll" "me_host maint_env0 = host0"
    by (simp_all add: prune0_def nullish_def defaultFamilySelector_def maint_env0_def)
  then show ?thesis
    using prune_removes_what_is_due [OF maint_fs0_clean(1,2) _ refl refl refl, of maint_env0 prune0 r fs', unfolded maint_fs0_clean(3), OF r(1)] r
    by (intro exI [of _ r] exI [of _ fs']) simp
qed

lemma removed_member:
  assumes "map_sum id (map ai_path \<circ> ar_removed) (fst res) = Inr ps" "p \<in> set ps"
  shows "\<exists>r fs' a. res = (Inr r, fs') \<and> a \<in> set (ar_removed r) \<and> ai_path a = p"
proof -
  obtain r where r: "fst res = Inr r" "map ai_path (ar_removed r) = ps" using map_sum_Inr [OF assms(1)] by auto
  then obtain a where "a \<in> set (ar_removed r)" "ai_path a = p" using assms(2) by auto
  then show ?thesis using r(1) by (metis prod.collapse)
qed

theorem cleanup_removes_proven_targets_witness:
  "(\<exists>r fs' a rep. cleanupOperatorSafeArtifacts maint_env0 ''/r'' cleanup0 maint_fs0 = (Inr r, fs') \<and> a \<in> set (ar_removed r)
     \<and> ai_path a = artifact0 ''snapshots/s.json'' \<and> la_artifactId rep = JStr ''a''
     \<and> failed_report maint_env0 (snd (ensureOperatorSafeArtifactDirs host0 ''/r'' maint_fs0)) rep)
   \<and> (\<exists>r fs' a item. cleanupOperatorSafeArtifacts maint_env0 ''/r'' cleanup1 maint_fs0 = (Inr r, fs') \<and> a \<in> set (ar_removed r)
     \<and> ai_path a = artifact0 ''snapshots/t.json'' \<and> la_path item = artifact0 ''snapshots/t.json'' \<and> la_family item = FamSnapshot
     \<and> unclaimed maint_env0 (snd (ensureOperatorSafeArtifactDirs host0 ''/r'' maint_fs0))
         (collectArtifacts maint_env0 (snd (ensureOperatorSafeArtifactDirs host0 ''/r'' maint_fs0)) ''/r'' 5) item)"
proof (rule conjI)
  note removed = cleanup_removes_proven_targets [OF maint_fs0_clean(1,2) _ refl refl, where E = maint_env0, unfolded maint_fs0_clean(3)]
  have H: "me_host maint_env0 = host0" by (simp add: maint_env0_def)
  obtain r fs' a where r: "cleanupOperatorSafeArtifacts maint_env0 ''/r'' cleanup0 maint_fs0 = (Inr r, fs')" "a \<in> set (ar_removed r)"
    "ai_path a = artifact0 ''snapshots/s.json''"
    using removed_member [OF cleanup0_run, of "artifact0 ''snapshots/s.json''"] by auto
  have "truthy_string (cq_reportId cleanup0) = Some ''a''" by (simp add: cleanup0_def truthy_string_def)
  from removed [OF r(1,2), unfolded this option.case H] r
  show "\<exists>r fs' a rep. cleanupOperatorSafeArtifacts maint_env0 ''/r'' cleanup0 maint_fs0 = (Inr r, fs') \<and> a \<in> set (ar_removed r)
     \<and> ai_path a = artifact0 ''snapshots/s.json'' \<and> la_artifactId rep = JStr ''a''
     \<and> failed_report maint_env0 (snd (ensureOperatorSafeArtifactDirs host0 ''/r'' maint_fs0)) rep" by blast
  obtain r fs' a where r: "cleanupOperatorSafeArtifacts maint_env0 ''/r'' cleanup1 maint_fs0 = (Inr r, fs')" "a \<in> set (ar_removed r)"
    "ai_path a = artifact0 ''snapshots/t.json''"
    using removed_member [OF cleanup1_run, of "artifact0 ''snapshots/t.json''"] by auto
  have q: "truthy_string (cq_reportId cleanup1) = None" "cq_family cleanup1 = Some FamSnapshot" "cq_nowMs cleanup1 = 5"
    by (simp_all add: cleanup1_def truthy_string_def)
  obtain item where "la_path item = artifact0 ''snapshots/t.json''" "la_family item = FamSnapshot"
    "unclaimed maint_env0 (snd (ensureOperatorSafeArtifactDirs host0 ''/r'' maint_fs0))
         (collectArtifacts maint_env0 (snd (ensureOperatorSafeArtifactDirs host0 ''/r'' maint_fs0)) ''/r'' 5) item"
    using removed [OF r(1,2), unfolded q option.case H] unfolding r(3) past_lifetime_def option.inject
    by (metis family.distinct)
  with r show "\<exists>r fs' a item. cleanupOperatorSafeArtifacts maint_env0 ''/r'' cleanup1 maint_fs0 = (Inr r, fs') \<and> a \<in> set (ar_removed r)
     \<and> ai_path a = artifact0 ''snapshots/t.json'' \<and> la_path item = artifact0 ''snapshots/t.json'' \<and> la_family item = FamSnapshot
     \<and> unclaimed maint_env0 (snd (ensureOperatorSafeArtifactDirs host0 ''/r'' maint_fs0))
         (collectArtifacts maint_env0 (snd (ensureOperatorSafeArtifactDirs host0 ''/r'' maint_fs0)) ''/r'' 5) item" by blast
qed

end
