(* ===== verification/OperatorRun.thy ===== *)
theory OperatorRun
  imports OperatorSafety
begin

text \<open>
  The lifecycle and the maintenance together: what a run of \<open>OperatorWorktree\<close> writes, that the listing of \<open>OperatorMaintenance\<close> reads
  it back, and that a cleanup of its report takes it away again.
\<close>

section \<open>What the lifecycle writes\<close>

lemma mkdirs_existing: "\<forall>i \<le> length ss. map_of fs (k @ take i ss) = Some DirNode \<Longrightarrow> mkdirs k ss fs = Inr fs"
proof (induction ss arbitrary: k)
  case Nil
  then show ?case by simp
next
  case (Cons s ss)
  have "map_of fs k = Some DirNode" using Cons.prems by (auto dest: spec [of _ 0])
  moreover have "\<forall>i \<le> length ss. map_of fs ((k @ [s]) @ take i ss) = Some DirNode"
    using Cons.prems by (auto dest: spec [of _ "Suc _"])
  ultimately show ?case using Cons.IH by simp
qed

lemma ensure_existing:
  assumes "clean_fs fs" "list_all clean_seg R" "\<And>f. map_of fs (family_segs R f) = Some DirNode"
  shows "ensureOperatorSafeArtifactDirs H (absolute_text R) fs = (Inr (), fs)"
proof -
  have "mkdirSync H fs (absolute_text (family_segs R f)) = Inr fs" for f
  proof -
    let ?k = "family_segs R f"
    have cl: "list_all clean_seg ?k" using assms(2) by simp
    have "mkdirs [] ?k fs = Inr fs"
    proof (intro mkdirs_existing allI impI)
      fix i assume "i \<le> length ?k"
      then show "map_of fs ([] @ take i ?k) = Some DirNode"
        using assms(1,3) wf_fsD [of fs ?k DirNode i] by (cases "i = length ?k") (auto simp: clean_fs_def)
    qed
    moreover have "\<not> list_ex (\<lambda>s. CHR 0x00 \<in> set s) ?k"
      using cl by (auto simp: list_ex_iff list_all_iff clean_seg_def)
    ultimately show ?thesis using cl by (simp add: mkdirSync_def)
  qed
  from this [of FamReport] this [of FamSnapshot] this [of FamTempWorkspace] show ?thesis
    by (simp add: ensureOperatorSafeArtifactDirs_def mkdir_all_def family_dirs_text [OF assms(2)])
qed

lemma ensure_repeat:
  assumes "clean_fs fs" "list_all clean_seg R" "ensureOperatorSafeArtifactDirs H (absolute_text R) fs = (Inr u, fse)"
  shows "clean_fs fse" "map_of fse (family_segs R f) = Some DirNode"
    "\<lbrakk>clean_fs fs'; \<And>f. map_of fs' (family_segs R f) = Some DirNode\<rbrakk> \<Longrightarrow> ensureOperatorSafeArtifactDirs H (absolute_text R) fs' = (Inr (), fs')"
  using ensure_dirs(1,4) [OF assms(3,1,2)] ensured_family ensure_existing [OF _ assms(2)] by auto

lemma clean_fs_update:
  assumes fs: "clean_fs fs" and k: "list_all clean_seg k" "k \<noteq> []" "map_of fs (butlast k) = Some DirNode" "map_of fs k \<noteq> Some DirNode"
    and n: "n = DirNode \<longrightarrow> map_of fs k = None"
  shows "clean_fs (AList.update k n fs)"
proof (rule clean_fsI)
  show "distinct (map fst (AList.update k n fs))" using fs by (simp add: clean_fs_def distinct_update)
  show "\<And>q. map_of (AList.update k n fs) q \<noteq> None \<Longrightarrow> list_all clean_seg q"
    using clean_fs_entry [OF fs] k(1) by (auto simp: update_conv' split: if_splits)
  have wf: "wf_fs fs" using fs by (simp add: clean_fs_def)
  show "wf_fs (AList.update k n fs)"
  proof (cases n)
    case (FileNode b)
    then show ?thesis using wf_put_file [OF wf k(2-4)] by simp
  next
    case DirNode
    then have new: "map_of fs k = None" using n by simp
    show ?thesis
      unfolding wf_fs_def update_conv'
    proof (intro conjI allI impI)
      show "((map_of fs)(k \<mapsto> n)) [] = Some DirNode" using wf k(2) by (simp add: wf_fs_def)
      fix q m i assume q: "((map_of fs)(k \<mapsto> n)) q = Some m" and i: "i < length q"
      have "map_of fs (take i q) = Some DirNode"
        using q parent_dirs [OF wf k(3)] wf_fsD [OF wf _ i] i by (cases "q = k") auto
      then show "((map_of fs)(k \<mapsto> n)) (take i q) = Some DirNode" using DirNode by simp
    qed
  qed
qed

lemma writeArtifact_update:
  assumes "clean_fs fs" "list_all clean_seg k" "writeArtifact H (absolute_text k) v fs = (Inr u, fs')"
  shows "clean_fs fs'" "map_of fs' = (map_of fs)(k \<mapsto> FileNode (utf8_encode (artifact_text v)))" "map_of fs k \<noteq> Some DirNode"
proof -
  have "writeFileSync H fs (absolute_text k) (artifact_text v) = Inr fs'"
    using assms(3) by (auto simp: writeArtifact_def split: sum.splits)
  then have w: "k \<noteq> []" "map_of fs (butlast k) = Some DirNode" "map_of fs k \<noteq> Some DirNode"
    "fs' = AList.update k (FileNode (utf8_encode (artifact_text v))) fs"
    using assms(1,2) by (auto simp: writeFileSync_iff clean_fs_def Let_def)
  show "clean_fs fs'" unfolding w(4) by (rule clean_fs_update [OF assms(1,2) w(1-3)]) simp
  show "map_of fs' = (map_of fs)(k \<mapsto> FileNode (utf8_encode (artifact_text v)))" by (simp add: w(4) update_conv')
  show "map_of fs k \<noteq> Some DirNode" by (rule w(3))
qed

text \<open>The entries that a run of the lifecycle adds.\<close>

fun new_entry :: "lifecycle_draws \<Rightarrow> string \<Rightarrow> family \<Rightarrow> string" where
  "new_entry D op FamReport = makeArtifactId ''opw'' (ld_report D) @ ''.json''"
| "new_entry D op FamSnapshot = makeArtifactId ''snapshot'' (ld_snapshot D) @ ''.json''"
| "new_entry D op FamTempWorkspace = op @ ''-'' @ ld_tempStamp D @ ''-'' @ ld_tempSuffix D"

text \<open>Draws without a slash, a backslash or a zero byte, as base 36 and the random names of the system give.\<close>

definition plain :: "string \<Rightarrow> bool" where
  "plain s \<longleftrightarrow> CHR ''/'' \<notin> set s \<and> CHR 0x5C \<notin> set s \<and> CHR 0x00 \<notin> set s"

definition plain_draws :: "lifecycle_draws \<Rightarrow> bool" where
  "plain_draws D \<longleftrightarrow> plain (fst (ld_report D)) \<and> plain (snd (ld_report D)) \<and> plain (fst (ld_snapshot D)) \<and> plain (snd (ld_snapshot D))
     \<and> plain (ld_tempStamp D) \<and> plain (ld_tempSuffix D)"

lemma plain_append [simp]: "plain (s @ t) \<longleftrightarrow> plain s \<and> plain t"
  by (auto simp: plain_def)

lemma plain_clean: "plain s \<Longrightarrow> 2 < length s \<Longrightarrow> clean_seg s"
  by (auto simp: plain_def clean_seg_def seg_ok_def)

lemma new_entry_clean:
  assumes "plain_draws D" "isSupportedOperation op"
  shows "clean_seg (new_entry D op f)" "clean_seg (op @ ''-'' @ ld_tempStamp D @ ''-'')" "\<not> js_startsWith (new_entry D op f) ''..''"
proof -
  have op: "op = ''index_workspace''" using assms(2) by (simp add: isSupportedOperation_def SUPPORTED_OPERATOR_WORKTREE_OPERATIONS_def)
  show "clean_seg (new_entry D op f)" "clean_seg (op @ ''-'' @ ld_tempStamp D @ ''-'')" "\<not> js_startsWith (new_entry D op f) ''..''"
    using assms(1) unfolding op plain_draws_def
    by (cases f; auto simp: makeArtifactId_def js_startsWith_def plain_def intro!: plain_clean)+
qed

lemma preflight_sel [simp]:
  "pf_mode (evaluateOperatorSafeProjectWorktree E fs i) = pi_mode i" "pf_operation (evaluateOperatorSafeProjectWorktree E fs i) = pi_operation i"
  "pf_canonicalRepoRoot (evaluateOperatorSafeProjectWorktree E fs i) = canonicalizeAbsolutePath (sc_cwd E) (pi_repoRoot i)"
  by (simp_all add: evaluateOperatorSafeProjectWorktree_def Let_def)

lemma basename_absolute_text: "list_all clean_seg (k @ [n]) \<Longrightarrow> path_basename (absolute_text (k @ [n])) = n"
proof -
  assume c: "list_all clean_seg (k @ [n])"
  have "js_split (js_join ''/'' (k @ [n])) ''/'' = k @ [n]"
    by (rule split_join) (use clean_segs_ok [OF c] in \<open>auto simp: list_all_iff seg_ok_def\<close>)
  then show ?thesis using split_slash [of "js_join ''/'' (k @ [n])"] by (simp add: path_basename_def absolute_text_def)
qed

lemma absolute_text_snoc: "absolute_text (k @ [n @ m]) = absolute_text (k @ [n]) @ m"
  by (cases "k = []") (simp_all add: absolute_text_def join_append)

lemma snapshot_written:
  assumes fs: "clean_fs fs" "list_all clean_seg R" and name: "clean_seg (new_entry D op FamSnapshot)" and mode: "pf_mode pre \<noteq> WtCheck"
    and run: "captureOperatorSafeSnapshot H D (absolute_text R) pre xid rid fs = (Inr snap, fsA)"
  shows "\<exists>fse. ensureOperatorSafeArtifactDirs H (absolute_text R) fs = (Inr (), fse) \<and> clean_fs fsA
      \<and> map_of fsA = (map_of fse)(family_segs R FamSnapshot @ [new_entry D op FamSnapshot]
           \<mapsto> FileNode (utf8_encode (artifact_text (snapshot_json (buildSnapshotManifest D pre xid rid)))))
      \<and> sr_required snap \<and> sr_captured snap \<and> sr_warnings snap = [] \<and> sr_manifest snap = Some (buildSnapshotManifest D pre xid rid)"
proof -
  let ?m = "buildSnapshotManifest D pre xid rid"
  have p: "path_join (resolveOperatorSafeSnapshotsDir (absolute_text R)) (sm_id ?m @ ''.json'') = absolute_text (family_segs R FamSnapshot @ [new_entry D op FamSnapshot])"
    using fs(2) name by (simp add: family_dirs_text buildSnapshotManifest_def Let_def)
  obtain fse where en: "ensureOperatorSafeArtifactDirs H (absolute_text R) fs = (Inr (), fse)"
    "writeArtifact H (absolute_text (family_segs R FamSnapshot @ [new_entry D op FamSnapshot])) (snapshot_json ?m) fse = (Inr (), fsA)"
    "sr_required snap" "sr_captured snap" "sr_warnings snap = []" "sr_manifest snap = Some ?m"
    using run mode p by (auto simp: captureOperatorSafeSnapshot_def Let_def split: prod.splits sum.splits)
  note w = writeArtifact_update [OF ensure_repeat(1) [OF fs en(1)] _ en(2)]
  show ?thesis using en w fs(2) name by (intro exI [of _ fse]) simp
qed

lemma temp_written:
  assumes fs: "clean_fs fs" "list_all clean_seg R" "\<And>f. map_of fs (family_segs R f) = Some DirNode"
    and name: "clean_seg (new_entry D op FamTempWorkspace)" "clean_seg (op @ ''-'' @ ld_tempStamp D @ ''-'')" and mode: "mode \<noteq> WtCheck"
    and run: "prepareOperatorSafeTempWorkspace H D (absolute_text R) op mode xid rid None fs = (Inr tw, fsB)"
  shows "\<exists>m. let t = family_segs R FamTempWorkspace @ [new_entry D op FamTempWorkspace] in
      clean_fs fsB \<and> map_of fs t = None \<and> tm_reportId m = rid \<and> tm_id m = new_entry D op FamTempWorkspace
      \<and> map_of fsB = (map_of fs)(t \<mapsto> DirNode, t @ [''manifest.json''] \<mapsto> FileNode (utf8_encode (artifact_text (temp_json m))))"
proof -
  let ?n = "new_entry D op FamTempWorkspace"
  let ?t = "family_segs R FamTempWorkspace @ [?n]"
  have cl: "list_all clean_seg ?t" "list_all clean_seg (?t @ [''manifest.json''])" using fs(2) name by simp_all
  have p: "path_join (resolveOperatorSafeTempDir (absolute_text R)) (op @ ''-'' @ ld_tempStamp D @ ''-'') @ ld_tempSuffix D = absolute_text ?t"
    using fs(2) name(2) absolute_text_snoc [of "family_segs R FamTempWorkspace" "op @ ''-'' @ ld_tempStamp D @ ''-''" "ld_tempSuffix D"]
    by (simp add: family_dirs_text)
  obtain fs2 m where mk: "mkdtemp H (path_join (resolveOperatorSafeTempDir (absolute_text R)) (op @ ''-'' @ ld_tempStamp D @ ''-'')) (ld_tempSuffix D) fs = (Inr (absolute_text ?t), fs2)"
    "writeArtifact H (absolute_text (?t @ [''manifest.json''])) (temp_json m) fs2 = (Inr (), fsB)" "tm_reportId m = rid" "tm_id m = ?n"
    using run mode ensure_existing [OF fs, of H] p cl basename_absolute_text [OF cl(1)]
    by (auto simp: prepareOperatorSafeTempWorkspace_def mkdtemp_def Let_def split: prod.splits sum.splits if_splits)
  have t: "map_of fs ?t = None" "fs2 = AList.update ?t DirNode fs"
    using mk(1) p cl(1) by (auto simp: mkdtemp_def Let_def split: if_splits)
  have fs2: "clean_fs fs2" unfolding t(2) by (rule clean_fs_update [OF fs(1) cl(1)]) (use t(1) fs(3) [of FamTempWorkspace] in \<open>simp_all add: butlast_append\<close>)
  note w = writeArtifact_update [OF fs2 cl(2) mk(2)]
  show ?thesis using w t mk(3,4) by (intro exI [of _ m]) (simp add: Let_def update_conv')
qed

lemma report_written:
  assumes fs: "clean_fs fs" "list_all clean_seg R" "\<And>f. map_of fs (family_segs R f) = Some DirNode"
    and name: "clean_seg (new_entry D op FamReport)" "er_id rep = makeArtifactId ''opw'' (ld_report D)"
    and run: "writeOperatorSafeExecutionReport H (absolute_text R) rep fs = (Inr p, fsC)"
  shows "clean_fs fsC \<and> map_of fsC = (map_of fs)(family_segs R FamReport @ [new_entry D op FamReport] \<mapsto> FileNode (utf8_encode (artifact_text (report_json rep))))"
proof -
  have p: "path_join (resolveOperatorSafeReportsDir (absolute_text R)) (er_id rep @ ''.json'') = absolute_text (family_segs R FamReport @ [new_entry D op FamReport])"
    using fs(2) name by (simp add: family_dirs_text)
  have "writeArtifact H (absolute_text (family_segs R FamReport @ [new_entry D op FamReport])) (report_json rep) fs = (Inr (), fsC)"
    using run ensure_existing [OF fs, of H] p by (auto simp: writeOperatorSafeExecutionReport_def Let_def split: prod.splits sum.splits)
  from writeArtifact_update [OF fs(1) _ this] fs(2) name show ?thesis by simp
qed

lemma lifecycle_stages:
  assumes "canonicalizeAbsolutePath (sc_cwd E) (pi_repoRoot i) = absolute_text R"
  shows "runOperatorSafeProjectWorktreeLifecycle E D i fs =
    (let H = sc_host E; root = absolute_text R; pre = evaluateOperatorSafeProjectWorktree E fs i;
         rid = makeArtifactId ''opw'' (ld_report D); xid = makeArtifactId ''opw-exec'' (ld_execution D);
         a = runOperatorSafeBoundedApply pre; rb = (\<lambda>snap. attemptOperatorSafeRollbackLight (pi_mode i) (Some snap) (Some a))
     in case captureOperatorSafeSnapshot H D root pre xid rid fs of (Inl e, fsA) \<Rightarrow> (Inl e, fsA)
      | (Inr snap, fsA) \<Rightarrow> (case prepareOperatorSafeTempWorkspace H D root (pi_operation i) (pi_mode i) xid rid None fsA of (Inl e, fsB) \<Rightarrow> (Inl e, fsB)
      | (Inr tw, fsB) \<Rightarrow> (case writeOperatorSafeExecutionReport H root (lifecycle_report D pre snap tw a (rb snap)) fsB of (Inl e, fsC) \<Rightarrow> (Inl e, fsC)
      | (Inr p, fsC) \<Rightarrow> (Inr (pre, lifecycle_report D pre snap tw a (rb snap), p), fsC))))"
  unfolding runOperatorSafeProjectWorktreeLifecycle_def createOperatorSafeExecutionIdentity_def Let_def prod.case preflight_sel assms by (rule refl)

lemma lifecycle_report_id [simp]: "er_id (lifecycle_report D pre snap tw a rb) = makeArtifactId ''opw'' (ld_report D)"
  by (simp add: lifecycle_report_def createOperatorSafeExecutionIdentity_def Let_def)

lemma lifecycle_writes:
  assumes fs: "clean_fs fs" "list_all clean_seg R" "canonicalizeAbsolutePath (sc_cwd E) (pi_repoRoot i) = absolute_text R"
    and req: "plain_draws D" "isSupportedOperation (pi_operation i)" "pi_mode i \<noteq> WtCheck"
    and run: "runOperatorSafeProjectWorktreeLifecycle E D i fs = (Inr (pre, rep, p), fs1)"
    and fse: "fse = snd (ensureOperatorSafeArtifactDirs (sc_host E) (absolute_text R) fs)"
  defines "new \<equiv> \<lambda>f. family_segs R f @ [new_entry D (pi_operation i) f]"
  shows "\<exists>s m snap tw a rb. clean_fs fse \<and> (\<forall>f. map_of fse (family_segs R f) = Some DirNode) \<and> clean_fs fs1 \<and> map_of fse (new FamTempWorkspace) = None
    \<and> sm_reportId s = er_id rep \<and> tm_reportId m = er_id rep
    \<and> er_id rep = makeArtifactId ''opw'' (ld_report D) \<and> rep = lifecycle_report D pre snap tw a rb \<and> a = runOperatorSafeBoundedApply pre
    \<and> rb = attemptOperatorSafeRollbackLight (pi_mode i) (Some snap) (Some a) \<and> pf_mode pre = pi_mode i \<and> sr_warnings snap = [] \<and> sr_manifest snap = Some s
    \<and> map_of fs1 = (map_of fse)(new FamSnapshot \<mapsto> FileNode (utf8_encode (artifact_text (snapshot_json s))), new FamTempWorkspace \<mapsto> DirNode,
         new FamTempWorkspace @ [''manifest.json''] \<mapsto> FileNode (utf8_encode (artifact_text (temp_json m))),
         new FamReport \<mapsto> FileNode (utf8_encode (artifact_text (report_json rep))))"
proof -
  let ?root = "absolute_text R" and ?H = "sc_host E" and ?pre = "evaluateOperatorSafeProjectWorktree E fs i" and ?op = "pi_operation i"
  let ?rid = "makeArtifactId ''opw'' (ld_report D)" and ?xid = "makeArtifactId ''opw-exec'' (ld_execution D)"
  let ?s = "buildSnapshotManifest D ?pre ?xid ?rid" and ?a = "runOperatorSafeBoundedApply ?pre"
  note names = new_entry_clean [OF req(1,2)]
  let ?rb = "\<lambda>snap. attemptOperatorSafeRollbackLight (pi_mode i) (Some snap) (Some ?a)"
  note r = lifecycle_stages [OF fs(3), of D fs, unfolded Let_def]
  obtain cr fsA where c1: "captureOperatorSafeSnapshot ?H D ?root ?pre ?xid ?rid fs = (cr, fsA)" by (metis surj_pair)
  obtain snap where cr: "cr = Inr snap" using run unfolding r c1 prod.case by (cases cr) simp_all
  obtain tr fsB where c2: "prepareOperatorSafeTempWorkspace ?H D ?root ?op (pi_mode i) ?xid ?rid None fsA = (tr, fsB)" by (metis surj_pair)
  obtain tw where tr: "tr = Inr tw" using run unfolding r c1 cr prod.case sum.case c2 by (cases tr) simp_all
  obtain wr fsC where c3: "writeOperatorSafeExecutionReport ?H ?root (lifecycle_report D ?pre snap tw ?a (?rb snap)) fsB = (wr, fsC)" by (metis surj_pair)
  have eqs: "wr = Inr p" "fsC = fs1" "?pre = pre" "lifecycle_report D ?pre snap tw ?a (?rb snap) = rep"
  proof -
    obtain p' where w: "wr = Inr p'" using run unfolding r c1 cr prod.case sum.case c2 tr c3 by (cases wr) simp_all
    have e: "(Inr (?pre, lifecycle_report D ?pre snap tw ?a (?rb snap), p') :: string + _, fsC) = (Inr (pre, rep, p), fs1)"
      using run unfolding r c1 cr prod.case sum.case c2 tr c3 w .
    note i = e [unfolded prod.inject sum.inject]
    show "?pre = pre" by (rule conjunct1 [OF conjunct1 [OF i]])
    show "fsC = fs1" by (rule conjunct2 [OF i])
    show "lifecycle_report D ?pre snap tw ?a (?rb snap) = rep" by (rule conjunct1 [OF conjunct2 [OF conjunct1 [OF i]]])
    show "wr = Inr p" unfolding w by (rule arg_cong [OF conjunct2 [OF conjunct2 [OF conjunct1 [OF i]]]])
  qed
  note st = c1 [unfolded cr] c2 [unfolded tr] c3 [unfolded eqs(1,2)]
  have rep: "rep = lifecycle_report D ?pre snap tw ?a (?rb snap)" and pre: "pre = ?pre" by (rule eqs(4) [symmetric], rule eqs(3) [symmetric])
  obtain fsE where en: "ensureOperatorSafeArtifactDirs ?H ?root fs = (Inr (), fsE)" and A: "clean_fs fsA"
    "map_of fsA = (map_of fsE)(new FamSnapshot \<mapsto> FileNode (utf8_encode (artifact_text (snapshot_json ?s))))"
    and sn: "sr_warnings snap = []" "sr_manifest snap = Some ?s"
    using snapshot_written [OF fs(1,2) names(1) _ st(1)] req(3) by (auto simp: new_def)
  have fse: "fse = fsE" using fse en by simp
  note E = ensure_repeat(1,2) [OF fs(1,2) en, folded fse]
  have dA: "map_of fsA (family_segs R f) = Some DirNode" for f using E(2) by (simp add: A(2) new_def fse)
  obtain m where m: "clean_fs fsB" "map_of fsA (new FamTempWorkspace) = None" "tm_reportId m = ?rid"
    "map_of fsB = (map_of fsA)(new FamTempWorkspace \<mapsto> DirNode, new FamTempWorkspace @ [''manifest.json''] \<mapsto> FileNode (utf8_encode (artifact_text (temp_json m))))"
    using temp_written [OF A(1) fs(2) dA names(1,2) req(3) st(2)] by (auto simp: Let_def new_def)
  have dB: "map_of fsB (family_segs R f) = Some DirNode" for f using dA by (simp add: m(4) new_def)
  have rid: "er_id rep = ?rid" by (simp add: rep)
  note C = report_written [OF m(1) fs(2) dB names(1) rid st(3) [folded rep]]
  have "map_of fse (new FamTempWorkspace) = None" using m(2) by (simp add: A(2) fse new_def split: if_splits)
  moreover have "sm_reportId ?s = ?rid" by (simp add: buildSnapshotManifest_def Let_def)
  ultimately show ?thesis
    using C E A(2) m(3,4) rid rep pre sn by (intro exI [of _ ?s] exI [of _ m] exI [of _ snap] exI [of _ tw] exI) (simp add: new_def fse)
qed

text \<open>With the directories made and the names not taken, nothing fails.\<close>

lemma writeArtifact_ok:
  assumes "clean_fs fs" "list_all clean_seg (k @ [n])" "map_of fs k = Some DirNode" "map_of fs (k @ [n]) = None"
  shows "\<exists>fs'. writeArtifact H (absolute_text (k @ [n])) v fs = (Inr (), fs')"
proof -
  have "CHR 0x00 \<notin> set n" using assms(2) by (simp add: clean_seg_def)
  then show ?thesis
    unfolding writeArtifact_def writeFileSync_def Let_def resolve_absolute_text [OF assms(2)] using assms(3,4) by simp
qed

lemma snapshot_ok:
  assumes fs: "clean_fs fs" "list_all clean_seg R" "ensureOperatorSafeArtifactDirs H (absolute_text R) fs = (Inr (), fse)"
    and new: "clean_seg (new_entry D op FamSnapshot)" "map_of fse (family_segs R FamSnapshot @ [new_entry D op FamSnapshot]) = None"
  shows "\<exists>snap fsA. captureOperatorSafeSnapshot H D (absolute_text R) pre xid rid fs = (Inr snap, fsA)"
proof (cases "pf_mode pre = WtCheck")
  case False
  let ?m = "buildSnapshotManifest D pre xid rid"
  have p: "path_join (resolveOperatorSafeSnapshotsDir (absolute_text R)) (sm_id ?m @ ''.json'') = absolute_text (family_segs R FamSnapshot @ [new_entry D op FamSnapshot])"
    using fs(2) new(1) by (simp add: family_dirs_text buildSnapshotManifest_def Let_def)
  obtain fs' where "writeArtifact H (absolute_text (family_segs R FamSnapshot @ [new_entry D op FamSnapshot])) (snapshot_json ?m) fse = (Inr (), fs')"
    using writeArtifact_ok [OF ensure_repeat(1) [OF fs] _ ensure_repeat(2) [OF fs] new(2)] fs(2) new(1) by auto
  then show ?thesis unfolding captureOperatorSafeSnapshot_def Let_def p fs(3) using False by simp
qed (simp add: captureOperatorSafeSnapshot_def)

lemma temp_ok:
  assumes fs: "clean_fs fs" "list_all clean_seg R" "\<And>f. map_of fs (family_segs R f) = Some DirNode"
    and name: "clean_seg (new_entry D op FamTempWorkspace)" "clean_seg (op @ ''-'' @ ld_tempStamp D @ ''-'')"
    and new: "map_of fs (family_segs R FamTempWorkspace @ [new_entry D op FamTempWorkspace]) = None"
  shows "\<exists>tw fsB. prepareOperatorSafeTempWorkspace H D (absolute_text R) op mode xid rid None fs = (Inr tw, fsB)"
proof (cases "mode = WtCheck")
  case False
  let ?t = "family_segs R FamTempWorkspace @ [new_entry D op FamTempWorkspace]"
  have cl: "list_all clean_seg ?t" "list_all clean_seg (?t @ [''manifest.json''])" using fs(2) name by simp_all
  have p: "path_join (resolveOperatorSafeTempDir (absolute_text R)) (op @ ''-'' @ ld_tempStamp D @ ''-'') @ ld_tempSuffix D = absolute_text ?t"
    using fs(2) name(2) absolute_text_snoc [of "family_segs R FamTempWorkspace" "op @ ''-'' @ ld_tempStamp D @ ''-''" "ld_tempSuffix D"]
    by (simp add: family_dirs_text)
  let ?fs2 = "AList.update ?t DirNode fs"
  have mk: "mkdtemp H (path_join (resolveOperatorSafeTempDir (absolute_text R)) (op @ ''-'' @ ld_tempStamp D @ ''-'')) (ld_tempSuffix D) fs = (Inr (absolute_text ?t), ?fs2)"
    unfolding mkdtemp_def Let_def p resolve_absolute_text [OF cl(1)] using new fs(3) [of FamTempWorkspace] by (simp add: butlast_append)
  have fs2: "clean_fs ?fs2" by (rule clean_fs_update [OF fs(1) cl(1)]) (use new fs(3) [of FamTempWorkspace] in \<open>simp_all add: butlast_append\<close>)
  have none: "map_of ?fs2 (?t @ [''manifest.json'']) = None"
  proof (rule ccontr)
    assume "map_of ?fs2 (?t @ [''manifest.json'']) \<noteq> None"
    then obtain n where "map_of fs (?t @ [''manifest.json'']) = Some n" by (auto simp: update_conv')
    from wf_fsD [OF _ this, of "length ?t"] fs(1) new show False by (simp add: clean_fs_def)
  qed
  have t: "map_of ?fs2 ?t = Some DirNode" by (simp add: update_conv')
  have j: "path_join (absolute_text ?t) ''manifest.json'' = absolute_text (?t @ [''manifest.json''])"
    using path_join_absolute_text [OF cl(1), of "''manifest.json''"] by simp
  have "\<forall>v. \<exists>fs'. writeArtifact H (absolute_text (?t @ [''manifest.json''])) v ?fs2 = (Inr (), fs')"
    by (intro allI writeArtifact_ok [OF fs2 cl(2) t none])
  then obtain g where g: "writeArtifact H (absolute_text (?t @ [''manifest.json''])) v ?fs2 = (Inr (), g v)" for v by metis
  show ?thesis
    unfolding prepareOperatorSafeTempWorkspace_def Let_def ensure_existing [OF fs] prod.case sum.case mk j g using False by simp
qed (simp add: prepareOperatorSafeTempWorkspace_def Let_def)

lemma report_ok:
  assumes fs: "clean_fs fs" "list_all clean_seg R" "\<And>f. map_of fs (family_segs R f) = Some DirNode"
    and name: "clean_seg (new_entry D op FamReport)" "er_id rep = makeArtifactId ''opw'' (ld_report D)"
    and new: "map_of fs (family_segs R FamReport @ [new_entry D op FamReport]) = None"
  shows "\<exists>p fsC. writeOperatorSafeExecutionReport H (absolute_text R) rep fs = (Inr p, fsC)"
proof -
  have p: "path_join (resolveOperatorSafeReportsDir (absolute_text R)) (er_id rep @ ''.json'') = absolute_text (family_segs R FamReport @ [new_entry D op FamReport])"
    using fs(2) name by (simp add: family_dirs_text)
  have "list_all clean_seg (family_segs R FamReport @ [new_entry D op FamReport])" using fs(2) name(1) by simp
  from writeArtifact_ok [OF fs(1) this fs(3) new, of H "report_json rep"]
  show ?thesis unfolding writeOperatorSafeExecutionReport_def ensure_existing [OF fs] Let_def p by auto
qed

lemma lifecycle_returns:
  assumes fs: "clean_fs fs" "list_all clean_seg R" "canonicalizeAbsolutePath (sc_cwd E) (pi_repoRoot i) = absolute_text R"
    and req: "plain_draws D" "isSupportedOperation (pi_operation i)" "pi_mode i \<noteq> WtCheck"
    and fse: "ensureOperatorSafeArtifactDirs (sc_host E) (absolute_text R) fs = (Inr (), fse)"
    and new: "\<And>f. map_of fse (family_segs R f @ [new_entry D (pi_operation i) f]) = None"
  shows "\<exists>rep p fs1. runOperatorSafeProjectWorktreeLifecycle E D i fs = (Inr (evaluateOperatorSafeProjectWorktree E fs i, rep, p), fs1)"
proof -
  let ?root = "absolute_text R" and ?H = "sc_host E" and ?pre = "evaluateOperatorSafeProjectWorktree E fs i" and ?op = "pi_operation i"
  let ?rid = "makeArtifactId ''opw'' (ld_report D)" and ?xid = "makeArtifactId ''opw-exec'' (ld_execution D)"
  note names = new_entry_clean [OF req(1,2)] and dirs = ensure_repeat(2) [OF fs(1,2) fse]
  obtain snap fsA where c1: "captureOperatorSafeSnapshot ?H D ?root ?pre ?xid ?rid fs = (Inr snap, fsA)"
    using snapshot_ok [OF fs(1,2) fse names(1) new] by blast
  have A: "clean_fs fsA" "map_of fsA = (map_of fse)(family_segs R FamSnapshot @ [new_entry D ?op FamSnapshot]
      \<mapsto> FileNode (utf8_encode (artifact_text (snapshot_json (buildSnapshotManifest D ?pre ?xid ?rid)))))"
    using snapshot_written [OF fs(1,2) names(1) _ c1] req(3) fse by auto
  have dA: "map_of fsA (family_segs R f) = Some DirNode" for f using dirs by (simp add: A(2))
  have nA: "map_of fsA (family_segs R f @ [new_entry D ?op f]) = None" if "f \<noteq> FamSnapshot" for f using that new [of f] by (cases f) (simp_all add: A(2))
  obtain tw fsB where c2: "prepareOperatorSafeTempWorkspace ?H D ?root ?op (pi_mode i) ?xid ?rid None fsA = (Inr tw, fsB)"
    using temp_ok [OF A(1) fs(2) dA names(1,2) nA] by blast
  obtain m where B: "clean_fs fsB" "map_of fsB = (map_of fsA)(family_segs R FamTempWorkspace @ [new_entry D ?op FamTempWorkspace] \<mapsto> DirNode,
      family_segs R FamTempWorkspace @ [new_entry D ?op FamTempWorkspace] @ [''manifest.json''] \<mapsto> FileNode (utf8_encode (artifact_text (temp_json m))))"
    using temp_written [OF A(1) fs(2) dA names(1,2) req(3) c2] by (auto simp: Let_def)
  have dB: "map_of fsB (family_segs R f) = Some DirNode" for f using dA by (simp add: B(2))
  have nB: "map_of fsB (family_segs R FamReport @ [new_entry D ?op FamReport]) = None" using nA [of FamReport] by (simp add: B(2))
  let ?a = "runOperatorSafeBoundedApply ?pre"
  let ?rep = "lifecycle_report D ?pre snap tw ?a (attemptOperatorSafeRollbackLight (pi_mode i) (Some snap) (Some ?a))"
  obtain p fsC where c3: "writeOperatorSafeExecutionReport ?H ?root ?rep fsB = (Inr p, fsC)"
    using report_ok [OF B(1) fs(2) dB names(1) lifecycle_report_id nB] by blast
  show ?thesis unfolding lifecycle_stages [OF fs(3)] Let_def c1 prod.case sum.case c2 c3 by blast
qed

section \<open>Reading back what was written\<close>

named_theorems json_fields

lemma fields_keys [json_fields]:
  "distinct (map fst (field k v @ fs)) \<longleftrightarrow> k \<notin> fst ` set fs \<and> distinct (map fst fs)"
  "distinct (map fst (opt_field k f x @ fs)) \<longleftrightarrow> (x \<noteq> None \<longrightarrow> k \<notin> fst ` set fs) \<and> distinct (map fst fs)"
  "distinct (map fst (field k v))" "distinct (map fst (opt_field k f x))"
  "k' \<in> fst ` set (field k v @ fs) \<longleftrightarrow> k' = k \<or> k' \<in> fst ` set fs"
  "k' \<in> fst ` set (opt_field k f x @ fs) \<longleftrightarrow> x \<noteq> None \<and> k' = k \<or> k' \<in> fst ` set fs"
  "k' \<in> fst ` set (field k v) \<longleftrightarrow> k' = k" "k' \<in> fst ` set (opt_field k f x) \<longleftrightarrow> x \<noteq> None \<and> k' = k"
  by (auto simp: field_def opt_field_def split: option.split)

lemma fields_values [json_fields]:
  "list_all (\<lambda>(k, v). wf_json v) (field k v @ fs) \<longleftrightarrow> wf_json v \<and> list_all (\<lambda>(k, v). wf_json v) fs"
  "list_all (\<lambda>(k, v). wf_json v) (opt_field k f x @ fs) \<longleftrightarrow> (\<forall>v. x = Some v \<longrightarrow> wf_json (f v)) \<and> list_all (\<lambda>(k, v). wf_json v) fs"
  "list_all (\<lambda>(k, v). wf_json v) (field k v) \<longleftrightarrow> wf_json v"
  "list_all (\<lambda>(k, v). wf_json v) (opt_field k f x) \<longleftrightarrow> (\<forall>v. x = Some v \<longrightarrow> wf_json (f v))"
  by (auto simp: field_def opt_field_def split: option.split)

lemma wf_leaves [json_fields]: "wf_json (nullable x)" "wf_json (strings xs)"
  by (auto simp: nullable_def strings_def list_all_iff split: option.split)

lemma wf_arr [json_fields]: "(\<And>x. wf_json (f x)) \<Longrightarrow> wf_json (JArr (map f xs))"
  by (simp add: list_all_iff)

lemma wf_obj: "wf_json (JObj fs) \<longleftrightarrow> distinct (map fst fs) \<and> list_all (\<lambda>(k, v). wf_json v) fs"
  by simp

lemma wf_snapshot_json [json_fields]: "wf_json (snapshot_json m)"
  unfolding snapshot_json_def wf_obj by (simp add: json_fields del: map_append set_append list_all_append wf_json.simps(1))

lemma wf_temp_json [json_fields]: "wf_json (temp_json m)"
  unfolding temp_json_def wf_obj by (simp add: json_fields del: map_append set_append list_all_append wf_json.simps(1))

lemma wf_parts [json_fields]:
  "wf_json (warning_json w)" "wf_json (temp_result_json t)" "wf_json (rollback_json b)" "wf_json (stage_json s)" "wf_json (related_json a)"
  unfolding warning_json_def temp_result_json_def rollback_json_def stage_json_def related_json_def wf_obj
  by (simp_all add: json_fields del: map_append set_append list_all_append wf_json.simps(1))

lemma wf_snapshot_result_json [json_fields]: "wf_json (snapshot_result_json s)"
  unfolding snapshot_result_json_def wf_obj by (simp add: json_fields del: map_append set_append list_all_append wf_json.simps(1))

lemma wf_apply_json: "wf_json (apply_json (runOperatorSafeBoundedApply pre))"
  unfolding apply_json_def wf_obj
  by (simp add: json_fields runOperatorSafeBoundedApply_def del: map_append set_append list_all_append wf_json.simps(1))

lemma wf_report_json:
  assumes "er_apply r = Some (runOperatorSafeBoundedApply pre)"
  shows "wf_json (report_json r)"
  unfolding report_json_def wf_obj using assms wf_apply_json
  by (simp add: json_fields del: map_append set_append list_all_append wf_json.simps(1))

lemma read_written:
  assumes "\<And>s. hs_toString H (utf8_encode s) = s" "list_all clean_seg k" "wf_json v" "truthy v"
    and "map_of fs k = Some (FileNode (utf8_encode (artifact_text v)))"
  shows "read_json H fs (absolute_text k) = Some v"
  using assms JSON_parse_pretty [OF assms(3)]
  by (simp add: read_json_def readFileSync_def artifact_text_def parseJsonSafe_def Let_def)

lemma read_json_cong:
  assumes "list_all clean_seg k" "map_of fs k = map_of fs' k"
  shows "read_json H fs (absolute_text k) = read_json H fs' (absolute_text k)"
  using assms by (simp add: read_json_def readFileSync_def split: option.split fs_node.split)

text \<open>Which report an entry names depends on the entry alone.\<close>

lemma names_cong:
  assumes "list_all clean_seg R" "clean_seg e" "map_of fs (family_segs R f @ [e]) = map_of fs' (family_segs R f @ [e])"
    "map_of fs (family_segs R f @ [e, ''manifest.json'']) = map_of fs' (family_segs R f @ [e, ''manifest.json''])"
  shows "names_report rid (read_entry E fs R nowMs f e) = names_report rid (read_entry E fs' R nowMs f e)"
proof -
  let ?k = "family_segs R f @ [e]"
  have k: "path_join (absolute_text (family_segs R f)) e = absolute_text ?k" "list_all clean_seg ?k" using assms(1,2) by simp_all
  have m: "path_join (absolute_text ?k) ''manifest.json'' = absolute_text (?k @ [''manifest.json''])" using path_join_absolute_text [OF k(2), of "''manifest.json''"] by simp
  have "stat (me_host E) fs (absolute_text ?k) = stat (me_host E) fs' (absolute_text ?k)" using k(2) assms(3) by (simp add: stat_def)
  moreover have "read_json (me_host E) fs (absolute_text ?k) = read_json (me_host E) fs' (absolute_text ?k)" by (rule read_json_cong [OF k(2) assms(3)])
  moreover have "read_json (me_host E) fs (absolute_text (?k @ [''manifest.json''])) = read_json (me_host E) fs' (absolute_text (?k @ [''manifest.json'']))"
    by (rule read_json_cong) (use assms in simp_all)
  ultimately show ?thesis
    unfolding read_entry_def Let_def read_report_def read_snapshot_def read_temp_def k(1) m
    by (cases f) (simp_all add: names_report_def missing_artifact_def untrusted_artifact_def split: option.split prod.split)
qed

lemma lifecycle_outcome:
  assumes "rep = lifecycle_report D pre snap tw a rb" "a = runOperatorSafeBoundedApply pre"
    "rb = attemptOperatorSafeRollbackLight m (Some snap) (Some a)" "pf_mode pre \<noteq> WtCheck"
  shows "getReportCleanupEligible (report_json rep) \<longleftrightarrow> \<not> pf_allowed pre" "er_apply rep = Some a"
proof -
  have "rb_degraded rb = False"
    unfolding assms(2,3) by (auto simp: attemptOperatorSafeRollbackLight_def rollback_of_def runOperatorSafeBoundedApply_def)
  then have "er_outcome rep = (if \<not> pf_allowed pre then OutBlocked else if pf_mode pre = WtDryRun then OutDryRun else OutSucceeded)"
    using assms(4) unfolding assms(1,2)
    by (simp add: lifecycle_report_def createOperatorSafeExecutionIdentity_def Let_def resolveOutcome_def runOperatorSafeBoundedApply_def)
  moreover have "jget (report_json rep) ''outcome'' = Some (JStr (outcome_text (er_outcome rep)))"
    by (simp add: jget_def report_json_def field_def)
  ultimately show "getReportCleanupEligible (report_json rep) \<longleftrightarrow> \<not> pf_allowed pre" by (auto simp: getReportCleanupEligible_def)
  show "er_apply rep = Some a" by (simp add: assms(1) lifecycle_report_def createOperatorSafeExecutionIdentity_def Let_def)
qed

lemma written_ids:
  "jget (report_json rep) ''id'' = Some (JStr (er_id rep))" "jget (snapshot_json m) ''reportId'' = Some (JStr (sm_reportId m))"
  "jget (temp_json t) ''reportId'' = Some (JStr (tm_reportId t))"
  by (simp_all add: jget_def report_json_def snapshot_json_def temp_json_def field_def)

lemma read_new_report:
  assumes "list_all clean_seg R" "clean_seg e" "stat (me_host M) fs (absolute_text (family_segs R FamReport @ [e])) = Some st"
    "read_json (me_host M) fs (absolute_text (family_segs R FamReport @ [e])) = Some (report_json rep)"
  shows "names_report (er_id rep) (read_entry M fs R nowMs FamReport e)" "la_artifactId (read_entry M fs R nowMs FamReport e) = JStr (er_id rep)"
    "degraded (read_entry M fs R nowMs FamReport e) \<longleftrightarrow> getReportCleanupEligible (report_json rep)"
  using assms
  by (simp_all add: read_entry_def read_report_def names_report_def degraded_def written_ids coalesce_def Let_def split: prod.split)

lemma read_new_snapshot:
  assumes "list_all clean_seg R" "clean_seg e" "stat (me_host M) fs (absolute_text (family_segs R FamSnapshot @ [e])) = Some st"
    "read_json (me_host M) fs (absolute_text (family_segs R FamSnapshot @ [e])) = Some (snapshot_json m)"
  shows "names_report (sm_reportId m) (read_entry M fs R nowMs FamSnapshot e)"
  using assms
  by (simp add: read_entry_def read_snapshot_def names_report_def written_ids Let_def)

lemma read_new_temp:
  assumes "list_all clean_seg R" "clean_seg e" "stat (me_host M) fs (absolute_text (family_segs R FamTempWorkspace @ [e])) = Some st"
    "read_json (me_host M) fs (absolute_text (family_segs R FamTempWorkspace @ [e, ''manifest.json''])) = Some (temp_json m)"
  shows "names_report (tm_reportId m) (read_entry M fs R nowMs FamTempWorkspace e)"
proof -
  have "path_join (absolute_text (family_segs R FamTempWorkspace @ [e])) ''manifest.json'' = absolute_text (family_segs R FamTempWorkspace @ [e, ''manifest.json''])"
    using path_join_absolute_text [of "family_segs R FamTempWorkspace @ [e]" "''manifest.json''"] assms(1,2) by simp
  then show ?thesis
    using assms
    by (simp add: read_entry_def read_temp_def names_report_def written_ids Let_def split: prod.split)
qed

text \<open>What cleanup by report does when exactly the entries \<open>new f\<close> name the report.\<close>

lemma cleanup_by_report:
  assumes fs: "clean_fs fs" "list_all clean_seg R" "\<And>f. map_of fs (family_segs R f) = Some DirNode"
    and new: "\<And>f. map_of fs (family_segs R f @ [e f]) \<noteq> None" "\<And>f. \<not> js_startsWith (e f) ''..''" "\<And>f. e f \<in> set (family_entries M fs R f)"
    and names: "\<And>f d. d \<in> set (family_entries M fs R f) \<Longrightarrow> names_report rid (read_entry M fs R (cq_nowMs c) f d) \<longleftrightarrow> d = e f"
    and rep: "la_artifactId (read_entry M fs R (cq_nowMs c) FamReport (e FamReport)) = JStr rid"
    and req: "cq_reportId c = Some rid" "rid \<noteq> []" "cq_mode c = MtApply"
    and run: "cleanupOperatorSafeArtifacts M (absolute_text R) c fs = (res, fs')"
  shows "\<exists>r. res = Inr r \<and> (if degraded (read_entry M fs R (cq_nowMs c) FamReport (e FamReport))
      then ai_path ` set (ar_removed r) = range (\<lambda>f. absolute_text (family_segs R f @ [e f]))
        \<and> (\<forall>k. map_of fs' k = (if \<exists>f. prefix (family_segs R f @ [e f]) k then None else map_of fs k))
      else ar_removed r = [] \<and> fs' = fs)"
proof -
  let ?arts = "collectArtifacts M fs (absolute_text R) (cq_nowMs c)" and ?it = "\<lambda>f. read_entry M fs R (cq_nowMs c) f (e f)"
  let ?r0 = "no_actions ActCleanup MtApply SelAll"
  have en: "ensureOperatorSafeArtifactDirs (me_host M) (absolute_text R) fs = (Inr (), fs)" by (rule ensure_existing [OF fs])
  have arts: "item \<in> set ?arts \<longleftrightarrow> (\<exists>f. \<exists>d \<in> set (family_entries M fs R f). item = read_entry M fs R (cq_nowMs c) f d)" for item
    unfolding collect_entries [OF fs(2)] ex_family by auto
  have named: "item \<in> set ?arts \<and> names_report rid item \<longleftrightarrow> item \<in> range ?it" for item
    unfolding arts using names new(3) by blast
  have place: "la_family (?it f) = f" "la_path (?it f) = absolute_text (family_segs R f @ [e f])" for f
    using read_entry_place [OF fs(1,2)] new(1) [of f] by blast+
  have cl: "list_all clean_seg (family_segs R f @ [e f])" for f using new(1) clean_fs_entry [OF fs(1)] by blast
  have find: "List.find (\<lambda>i. la_family i = FamReport \<and> la_artifactId i = JStr rid) ?arts = Some (?it FamReport)"
  proof (cases "List.find (\<lambda>i. la_family i = FamReport \<and> la_artifactId i = JStr rid) ?arts")
    case None
    have "?it FamReport \<in> set ?arts" using named by blast
    then show ?thesis using None rep place(1) by (auto simp: find_None_iff)
  next
    case (Some i)
    then have "i \<in> set ?arts" "la_family i = FamReport" "names_report rid i" by (auto dest!: find_SomeD simp: names_report_def)
    then obtain f where "i = ?it f" using named by blast
    then show ?thesis using Some \<open>la_family i = FamReport\<close> place(1) by auto
  qed
  have tr: "truthy_string (cq_reportId c) = Some rid" using req by (simp add: truthy_string_def)
  show ?thesis
  proof (cases "degraded (?it FamReport)")
    case False
    then have "\<exists>r. cleanup_targets M (absolute_text R) c ?arts ?r0 = Inl r"
      using find tr by (auto simp: cleanup_targets_def degraded_def Let_def)
    then obtain r where r: "cleanup_targets M (absolute_text R) c ?arts ?r0 = Inl r" by blast
    then have "res = Inr r \<and> fs' = fs" using run en tr req(3) by (auto simp: cleanupOperatorSafeArtifacts_def Let_def)
    then show ?thesis using cleanup_targets_none [OF r] False by simp
  next
    case True
    let ?ts = "filter (names_report rid) ?arts"
    have ts: "cleanup_targets M (absolute_text R) c ?arts ?r0 = Inr ?ts"
      using find tr True rep by (simp add: cleanup_targets_def degraded_def Let_def names_report_def [abs_def])
    obtain r where r: "res = Inr r" "fold (cleanup_item (cq_mode c) M (absolute_text R) True) ?ts (?r0, fs) = (r, fs')"
      using run en tr req(3) ts by (auto simp: cleanupOperatorSafeArtifacts_def Let_def split: prod.splits)
    have set_ts: "set ?ts = range ?it" using named by auto
    have dis: "distinct (map la_path ?ts)" using collected(2) [OF fs] by (simp add: distinct_map_filter)
    have "removable M (absolute_text R) (length (artifact_root R) + 2) ?ts fs" by (rule listed_removable [OF fs _ dis]) auto
    from cleanup_loop [OF this r(2)]
    have "map ai_path (ar_removed r) = map la_path (filter (\<lambda>i. cleanup_eligible True i \<and> \<not> dotted (me_host M) i) ?ts)" using req by simp
    moreover have "cleanup_eligible True (?it f) \<and> \<not> dotted (me_host M) (?it f)" for f
    proof -
      have "cleanup_eligible True (?it f)" using True place(1) by (cases f) (simp_all add: cleanup_eligible_def degraded_def)
      then show ?thesis using new(2) [of f] unfolding dotted_def place(2) resolve_absolute_text [OF cl] by simp
    qed
    ultimately have "map ai_path (ar_removed r) = map la_path ?ts"
    proof -
      assume el: "\<And>f. cleanup_eligible True (?it f) \<and> \<not> dotted (me_host M) (?it f)"
        and rm: "map ai_path (ar_removed r) = map la_path (filter (\<lambda>i. cleanup_eligible True i \<and> \<not> dotted (me_host M) i) ?ts)"
      have "\<forall>i \<in> set ?ts. cleanup_eligible True i \<and> \<not> dotted (me_host M) i" unfolding set_ts using el by blast
      from filter_True [OF this] rm show ?thesis by (simp only:)
    qed
    from arg_cong [OF this, of set] have rem: "ai_path ` set (ar_removed r) = range (\<lambda>f. absolute_text (family_segs R f @ [e f]))"
      unfolding list.set_map set_ts image_image place(2) .
    have "removes (cq_mode c) M ?arts fs r fs'" using cleanup_runs [OF en run] r(1) by auto
    then have "map_of fs' k = (if \<exists>p \<in> ai_path ` set (ar_removed r). prefix (resolve_segs (hs_cwd (me_host M)) p) k then None else map_of fs k)" for k
      by (simp add: removes_def)
    then show ?thesis using r(1) True rem cl by simp
  qed
qed

lemma family_dir_inj [simp]: "family_dir f = family_dir g \<longleftrightarrow> f = g"
  by (cases f; cases g) simp_all

lemma family_entry_iff:
  assumes "clean_fs fs" "list_all clean_seg R" "map_of fs (family_segs R f) = Some DirNode"
  shows "d \<in> set (family_entries M fs R f) \<longleftrightarrow> (f = FamTempWorkspace \<or> isJsonFile d) \<and> map_of fs (family_segs R f @ [d]) \<noteq> None"
  using dir_entries(2) [OF assms(1) _ assms(3)] assms(2) by (simp add: family_entries_def conj_commute)

lemma nothing_below:
  assumes "clean_fs fs" "map_of fs k = None" "prefix k q"
  shows "map_of fs q = None"
proof (rule ccontr)
  assume "map_of fs q \<noteq> None"
  then obtain n where n: "map_of fs q = Some n" by blast
  obtain zs where zs: "q = k @ zs" using assms(3) by (auto simp: prefix_def)
  have wf: "wf_fs fs" using assms(1) by (simp add: clean_fs_def)
  have "zs \<noteq> []" using assms(2) n zs by auto
  then have "map_of fs (take (length k) q) = Some DirNode" by (intro wf_fsD [OF wf n]) (simp add: zs)
  then show False using assms(2) by (simp add: zs)
qed

text \<open>The entries of a run, read back, name its report.\<close>

lemma new_named:
  assumes R: "list_all clean_seg R" "\<And>f. clean_seg (e f)" and dec: "\<And>s. hs_toString (me_host M) (utf8_encode s) = s"
    and fs: "map_of fs (family_segs R FamReport @ [e FamReport]) = Some (FileNode (utf8_encode (artifact_text (report_json rep))))"
      "map_of fs (family_segs R FamSnapshot @ [e FamSnapshot]) = Some (FileNode (utf8_encode (artifact_text (snapshot_json s))))"
      "map_of fs (family_segs R FamTempWorkspace @ [e FamTempWorkspace]) = Some DirNode"
      "map_of fs (family_segs R FamTempWorkspace @ [e FamTempWorkspace, ''manifest.json'']) = Some (FileNode (utf8_encode (artifact_text (temp_json m))))"
    and ids: "sm_reportId s = er_id rep" "tm_reportId m = er_id rep" and wf: "wf_json (report_json rep)"
  shows "names_report (er_id rep) (read_entry M fs R nowMs f (e f))"
    "la_artifactId (read_entry M fs R nowMs FamReport (e FamReport)) = JStr (er_id rep)"
    "degraded (read_entry M fs R nowMs FamReport (e FamReport)) \<longleftrightarrow> getReportCleanupEligible (report_json rep)"
proof -
  let ?new = "\<lambda>f. family_segs R f @ [e f]"
  have cl: "list_all clean_seg (?new f)" "list_all clean_seg (family_segs R f @ [e f, ''manifest.json''])" for f using R by simp_all
  have st: "\<exists>n. stat (me_host M) fs (absolute_text (?new f)) = Some n" for f
    unfolding stat_def resolve_absolute_text [OF cl(1)] using fs by (cases f) (simp_all)
  have tr: "truthy (report_json rep)" "truthy (snapshot_json s)" "truthy (temp_json m)"
    by (simp_all add: truthy_def report_json_def snapshot_json_def temp_json_def)
  note read = read_written [where H = "me_host M", OF dec]
  obtain st0 where st0: "stat (me_host M) fs (absolute_text (?new FamReport)) = Some st0" using st by blast
  note rep = read_new_report [OF R(1,2) st0 read [OF cl(1) wf tr(1) fs(1)]]
  show "la_artifactId (read_entry M fs R nowMs FamReport (e FamReport)) = JStr (er_id rep)" by (rule rep(2))
  show "degraded (read_entry M fs R nowMs FamReport (e FamReport)) \<longleftrightarrow> getReportCleanupEligible (report_json rep)" by (rule rep(3))
  show "names_report (er_id rep) (read_entry M fs R nowMs f (e f))"
    using rep(1) read_new_snapshot [OF R(1,2) _ read [OF cl(1) wf_snapshot_json tr(2) fs(2)]]
      read_new_temp [OF R(1,2) _ read [OF cl(2) wf_temp_json tr(3) fs(4)]] st ids by (cases f) metis+
qed

text \<open>Where the entries \<open>e f\<close> are all that is new and only they name the report, the listing has no other entry that does.\<close>

lemma only_new_named:
  assumes R: "list_all clean_seg R" and fse: "clean_fs fse" "\<And>f. map_of fse (family_segs R f) = Some DirNode"
    and fs1: "clean_fs fs1" "\<And>f. map_of fs1 (family_segs R f) = Some DirNode" "\<And>f. map_of fs1 (family_segs R f @ [e f]) \<noteq> None"
      "\<And>k. (\<And>f. \<not> prefix (family_segs R f @ [e f]) k) \<Longrightarrow> map_of fs1 k = map_of fse k"
    and e: "\<And>f. f = FamTempWorkspace \<or> isJsonFile (e f)" "\<And>f. names_report rid (read_entry M fs1 R nowMs f (e f))"
    and fresh: "\<forall>item \<in> set (collectArtifacts M fse (absolute_text R) nowMs). \<not> names_report rid item"
  shows "e f \<in> set (family_entries M fs1 R f)"
    "d \<in> set (family_entries M fs1 R f) \<Longrightarrow> names_report rid (read_entry M fs1 R nowMs f d) \<longleftrightarrow> d = e f"
proof -
  note ent = family_entry_iff [OF fs1(1) R fs1(2)] family_entry_iff [OF fse(1) R fse(2)]
  show "e f \<in> set (family_entries M fs1 R f)" using e(1) fs1(3) unfolding ent by blast
  have old: "map_of fs1 (family_segs R f @ d # ds) = map_of fse (family_segs R f @ d # ds)" if "d \<noteq> e f" for d ds
    by (rule fs1(4)) (use that in \<open>auto simp: prefix_def\<close>)
  show "names_report rid (read_entry M fs1 R nowMs f d) \<longleftrightarrow> d = e f" if d: "d \<in> set (family_entries M fs1 R f)"
  proof (cases "d = e f")
    case False
    then have de: "d \<in> set (family_entries M fse R f)" using d old [OF False, of "[]"] unfolding ent by simp
    have "read_entry M fse R nowMs f d \<in> set (collectArtifacts M fse (absolute_text R) nowMs)"
      using de unfolding collect_entries [OF R] by (cases f) auto
    moreover have "clean_seg d" using de clean_fs_entry [OF fse(1)] unfolding ent by fastforce
    ultimately show ?thesis using names_cong [OF R, of d fs1 f fse] old [OF False] fresh False by auto
  qed (use e(2) in simp)
qed

lemma cleanup_after_run:
  fixes D i R
  defines "new \<equiv> \<lambda>f. family_segs R f @ [new_entry D (pi_operation i) f]"
  assumes fs: "clean_fs fs" "list_all clean_seg R" "canonicalizeAbsolutePath (sc_cwd E) (pi_repoRoot i) = absolute_text R"
    and req: "plain_draws D" "isSupportedOperation (pi_operation i)" "pi_mode i \<noteq> WtCheck"
    and run: "runOperatorSafeProjectWorktreeLifecycle E D i fs = (Inr (pre, rep, p), fs1)"
    and fse: "fse = snd (ensureOperatorSafeArtifactDirs (sc_host E) (absolute_text R) fs)"
    and env: "me_host M = sc_host E" "\<And>s. hs_toString (sc_host E) (utf8_encode s) = s"
    and fresh: "map_of fse (new FamReport) = None" "map_of fse (new FamSnapshot) = None"
      "\<forall>item \<in> set (collectArtifacts M fse (absolute_text R) (cq_nowMs c)). \<not> names_report (er_id rep) item"
    and clean: "cq_reportId c = Some (er_id rep)" "cq_mode c = MtApply" "cleanupOperatorSafeArtifacts M (absolute_text R) c fs1 = (res, fs2)"
  shows "\<exists>r. res = Inr r \<and> (if pf_allowed pre then ar_removed r = [] \<and> fs2 = fs1
    else ai_path ` set (ar_removed r) = range (\<lambda>f. absolute_text (new f)) \<and> map_of fs2 = map_of fse)"
proof -
  let ?e = "new_entry D (pi_operation i)"
  obtain s m snap tw a rb where E: "clean_fs fse" "\<And>f. map_of fse (family_segs R f) = Some DirNode" "clean_fs fs1" "map_of fse (new FamTempWorkspace) = None"
    and ids: "sm_reportId s = er_id rep" "tm_reportId m = er_id rep" "er_id rep = makeArtifactId ''opw'' (ld_report D)"
    and rep: "rep = lifecycle_report D pre snap tw a rb" "a = runOperatorSafeBoundedApply pre"
      "rb = attemptOperatorSafeRollbackLight (pi_mode i) (Some snap) (Some a)" "pf_mode pre = pi_mode i"
    and fs1: "map_of fs1 = (map_of fse)(new FamSnapshot \<mapsto> FileNode (utf8_encode (artifact_text (snapshot_json s))), new FamTempWorkspace \<mapsto> DirNode,
         new FamTempWorkspace @ [''manifest.json''] \<mapsto> FileNode (utf8_encode (artifact_text (temp_json m))),
         new FamReport \<mapsto> FileNode (utf8_encode (artifact_text (report_json rep))))"
    using lifecycle_writes [OF fs req run fse] unfolding new_def by blast
  note names = new_entry_clean [OF req(1,2)]
  have gone: "map_of fse (new f) = None" for f using fresh E(4) by (cases f) simp_all
  have cl: "clean_seg (?e f)" for f by (rule names(1))
  have apply_is: "er_apply rep = Some (runOperatorSafeBoundedApply pre)" and elig: "getReportCleanupEligible (report_json rep) \<longleftrightarrow> \<not> pf_allowed pre"
    using lifecycle_outcome [OF rep(1-3)] rep(2,4) req(3) by auto
  have fs1_new: "map_of fs1 (new FamReport) = Some (FileNode (utf8_encode (artifact_text (report_json rep))))"
    "map_of fs1 (new FamSnapshot) = Some (FileNode (utf8_encode (artifact_text (snapshot_json s))))"
    "map_of fs1 (new FamTempWorkspace) = Some DirNode"
    "map_of fs1 (family_segs R FamTempWorkspace @ [?e FamTempWorkspace, ''manifest.json'']) = Some (FileNode (utf8_encode (artifact_text (temp_json m))))"
    by (simp_all add: fs1 new_def)
  note N = new_named [where e = ?e and fs = fs1 and nowMs = "cq_nowMs c", OF fs(2) cl env(2) [folded env(1)] fs1_new [unfolded new_def] ids(1,2) wf_report_json [OF apply_is]]
  have old: "map_of fs1 k = map_of fse k" if "\<And>f. \<not> prefix (new f) k" for k
    using that [of FamReport] that [of FamSnapshot] that [of FamTempWorkspace] by (simp add: fs1) (metis prefix_order.refl prefixI)
  have dirs: "map_of fs1 (family_segs R f) = Some DirNode" for f
    using E(2) [of f] by (subst old) (auto simp: new_def dest: prefix_length_le)
  have ids: "er_id rep \<noteq> []" by (simp add: ids(3) makeArtifactId_def)
  have undone: "map_of fse k = (if \<exists>f. prefix (new f) k then None else map_of fs1 k)" for k
    using nothing_below [OF E(1) gone] old by auto
  have "map_of fs1 (new f) \<noteq> None" for f using fs1_new by (cases f) simp_all
  note here = this [unfolded new_def]
  have json: "f = FamTempWorkspace \<or> isJsonFile (?e f)" for f by (cases f) (simp_all add: isJsonFile_def js_endsWith_iff)
  note only = only_new_named [where e = ?e, OF fs(2) E(1,2,3) dirs here old [unfolded new_def] json N(1) fresh(3)]
  obtain r where r: "res = Inr r" "if \<not> pf_allowed pre then ai_path ` set (ar_removed r) = range (\<lambda>f. absolute_text (new f))
      \<and> (\<forall>k. map_of fs2 k = (if \<exists>f. prefix (new f) k then None else map_of fs1 k)) else ar_removed r = [] \<and> fs2 = fs1"
    using cleanup_by_report [where e = ?e, OF E(3) fs(2) dirs here names(3) only N(2) clean(1) ids clean(2,3)]
    unfolding N(3) elig new_def by blast
  have "map_of fs2 = map_of fse" if "\<not> pf_allowed pre" by (rule ext) (use that r(2) undone in simp)
  then show ?thesis using r by (intro exI [of _ r]) (simp split: if_splits)
qed

text \<open>
  C10. Cleanup undoes a blocked run. Where the artifact directories can be made and none of the ids drawn is taken or claimed, a
  lifecycle run of a supported operation in dry-run or execute mode returns its report, and a cleanup of that report in apply mode, on the same host, returns
  normally. When the preflight was blocked, the cleanup removes exactly the report, the snapshot and the temporary workspace of the run, and the file
  system is again what it was before the run with the artifact directories made. When the preflight allowed the run, it removes nothing.
\<close>

theorem cleanup_undoes_blocked_run:
  assumes "clean_fs fs" "list_all clean_seg R" "canonicalizeAbsolutePath (sc_cwd E) (pi_repoRoot i) = absolute_text R"
    and "plain_draws D" "isSupportedOperation (pi_operation i)" "pi_mode i \<noteq> WtCheck"
    and "new = (\<lambda>f. family_segs R f @ [new_entry D (pi_operation i) f])" "rid = makeArtifactId ''opw'' (ld_report D)"
    and "ensureOperatorSafeArtifactDirs (sc_host E) (absolute_text R) fs = (Inr (), fse)" "\<And>f. map_of fse (new f) = None"
    and "\<forall>item \<in> set (collectArtifacts M fse (absolute_text R) (cq_nowMs c)). \<not> names_report rid item"
    and "me_host M = sc_host E" "\<And>s. hs_toString (sc_host E) (utf8_encode s) = s"
    and "runOperatorSafeProjectWorktreeLifecycle E D i fs = (out, fs1)"
    and "cq_reportId c = Some rid" "cq_mode c = MtApply" "cleanupOperatorSafeArtifacts M (absolute_text R) c fs1 = (res, fs2)"
  shows "\<exists>pre rep p r. out = Inr (pre, rep, p) \<and> pre = evaluateOperatorSafeProjectWorktree E fs i \<and> er_id rep = rid \<and> res = Inr r
    \<and> (if pf_allowed pre then ar_removed r = [] \<and> fs2 = fs1
        else ai_path ` set (ar_removed r) = range (\<lambda>f. absolute_text (new f)) \<and> map_of fs2 = map_of fse)"
proof -
  note new = assms(10) [unfolded assms(7)]
  obtain rep p where r: "out = Inr (evaluateOperatorSafeProjectWorktree E fs i, rep, p)"
    using lifecycle_returns [OF assms(1-6,9) new] assms(14) by auto
  note run = assms(14) [unfolded r]
  have fse: "fse = snd (ensureOperatorSafeArtifactDirs (sc_host E) (absolute_text R) fs)" by (simp add: assms(9))
  have id: "er_id rep = rid" using lifecycle_writes [OF assms(1-6) run fse] unfolding assms(8) by blast
  show ?thesis
    using cleanup_after_run [OF assms(1-6) run fse assms(12,13) new new assms(11,15) [folded id] assms(16,17)] r id unfolding assms(7) by blast
qed

definition run_fs0 :: filesystem where
  "run_fs0 = [([], DirNode), ([''r''], DirNode)]"

definition draws0 :: lifecycle_draws where
  "draws0 = \<lparr>ld_report = (''1'', ''a''), ld_execution = (''1'', ''b''), ld_snapshot = (''1'', ''c''), ld_snapshotAt = ''t1'', ld_tempStamp = ''1'',
     ld_tempSuffix = ''d'', ld_tempAt = ''t2'', ld_reportAt = ''t3''\<rparr>"

definition input0 :: preflight_input where
  "input0 = \<lparr>pi_mode = WtDryRun, pi_operation = ''index_workspace'', pi_repoRoot = ''/r'', pi_targetPath = ''/x'', pi_requireVcs = None,
     pi_alreadyIndexedFileIds = None, pi_knownWorkspaces = None\<rparr>"

lemma run0_blocked: "\<not> pf_allowed (evaluateOperatorSafeProjectWorktree scan_env0 run_fs0 input0)"
  by code_simp

lemma run0_setting:
  "canonicalizeAbsolutePath (sc_cwd scan_env0) (pi_repoRoot input0) = absolute_text [''r'']" "plain_draws draws0"
  "isSupportedOperation (pi_operation input0)" "pi_mode input0 \<noteq> WtCheck" "me_host maint_env0 = sc_host scan_env0"
  by (code_simp, code_simp, code_simp, code_simp, simp add: maint_env0_def scan_env0_def)

definition run_dirs0 :: filesystem where
  "run_dirs0 = snd (ensureOperatorSafeArtifactDirs (sc_host scan_env0) (absolute_text [''r'']) run_fs0)"

lemma run0_fresh:
  "fst (ensureOperatorSafeArtifactDirs (sc_host scan_env0) (absolute_text [''r'']) run_fs0) = Inr ()"
  "list_all (\<lambda>f. map_of run_dirs0 (family_segs [''r''] f @ [new_entry draws0 (pi_operation input0) f]) = None) [FamReport, FamSnapshot, FamTempWorkspace]"
  "collectArtifacts maint_env0 run_dirs0 (absolute_text [''r'']) 5 = []"
  by code_simp+

lemma run_fs0_clean: "clean_fs run_fs0"
proof -
  have "wf_check run_fs0" by code_simp
  moreover have "distinct (map fst run_fs0)" by code_simp
  moreover have "list_all (\<lambda>k. list_all clean_seg k) (map fst run_fs0)" by code_simp
  ultimately show ?thesis by (auto simp: clean_fs_def list_all_iff intro: wf_check)
qed

theorem cleanup_undoes_blocked_run_witness:
  "\<exists>pre rep p fs1 r fs2. runOperatorSafeProjectWorktreeLifecycle scan_env0 draws0 input0 run_fs0 = (Inr (pre, rep, p), fs1)
     \<and> \<not> pf_allowed pre
     \<and> cleanupOperatorSafeArtifacts maint_env0 (absolute_text [''r'']) (cleanup0\<lparr>cq_reportId := Some ''opw-1-a''\<rparr>) fs1 = (Inr r, fs2)
     \<and> map_of fs2 = map_of run_dirs0"
proof -
  let ?c = "cleanup0\<lparr>cq_reportId := Some ''opw-1-a''\<rparr>"
  have rid: "''opw-1-a'' = makeArtifactId ''opw'' (ld_report draws0)" by (simp add: makeArtifactId_def draws0_def)
  obtain out fs1 where run: "runOperatorSafeProjectWorktreeLifecycle scan_env0 draws0 input0 run_fs0 = (out, fs1)" by fastforce
  obtain res fs2 where c: "cleanupOperatorSafeArtifacts maint_env0 (absolute_text [''r'']) ?c fs1 = (res, fs2)" by fastforce
  have q: "cq_reportId ?c = Some ''opw-1-a''" "cq_mode ?c = MtApply" "cq_nowMs ?c = 5" by (simp_all add: cleanup0_def)
  have h: "hs_toString (sc_host scan_env0) (utf8_encode s) = s" for s by (simp add: scan_env0_def host0_decodes)
  have e: "ensureOperatorSafeArtifactDirs (sc_host scan_env0) (absolute_text [''r'']) run_fs0 = (Inr (), run_dirs0)"
    using run0_fresh(1) unfolding run_dirs0_def by (metis prod.collapse)
  have n: "map_of run_dirs0 (family_segs [''r''] f @ [new_entry draws0 (pi_operation input0) f]) = None" for f
    using run0_fresh(2) by (cases f) (simp_all del: new_entry.simps)
  have i: "\<forall>item \<in> set (collectArtifacts maint_env0 run_dirs0 (absolute_text [''r'']) (cq_nowMs ?c)). \<not> names_report ''opw-1-a'' item"
    unfolding q(3) run0_fresh(3) by simp
  from cleanup_undoes_blocked_run [OF run_fs0_clean maint_fs0_clean(2) run0_setting(1-4) refl rid e n i run0_setting(5) h run q(1,2) c]
  show ?thesis using run0_blocked run c by auto
qed

end
