(* ===== verification/TuiState.thy ===== *)
theory TuiState
  imports RpcPeer
begin

text \<open>
  The terminal front end: its state and reducer (\<^verbatim>\<open>apps/tui/src/state.ts\<close>), the operations on it (\<^verbatim>\<open>app.ts\<close>), the screen
  (\<^verbatim>\<open>render.ts\<close>) and the input loop (\<^verbatim>\<open>main.ts\<close>). The client of the server is a record of functions, where \<open>None\<close> is an optional method that is missing and a left
  value the message of a thrown error; a stream of events is the list of its events and the error that ended it, if any.
  An operation runs to its end; events that arrive in between are those of its own stream.
\<close>

section \<open>State\<close>

datatype tui_status = Attaching | Connected | Running | ReadOnly

record tui_session =
  tn_id :: string
  tn_title :: "string option"
  tn_status :: "string option"
  tn_stage :: "string option"
  tn_updatedAt :: "string option"

record tui_model =
  tmo_id :: string
  tmo_name :: string
  tmo_providerId :: string
  tmo_modelId :: string

record tui_agent =
  tg_id :: string
  tg_displayName :: string
  tg_role :: string
  tg_permission :: string

record tui_context_item =
  tc_path :: string
  tc_label :: string
  tc_reason :: string
  tc_byteLength :: "int option"

datatype tui_role = Assistant | User | System

record tui_transcript_item =
  tt_role :: tui_role
  tt_sessionId :: "string option"
  tt_text :: string

record tui_permission =
  tpp_sessionId :: string
  tpp_tool :: string
  tpp_reason :: "string option"

record tui_log_item =
  tl_type :: string
  tl_sessionId :: string
  tl_label :: string

record tui_state =
  tu_serverUrl :: string
  tu_status :: tui_status
  tu_sessions :: "tui_session list"
  tu_currentSessionId :: "string option"
  tu_models :: "tui_model list"
  tu_agents :: "tui_agent list"
  tu_transcript :: "tui_transcript_item list"
  tu_eventLog :: "tui_log_item list"
  tu_contextItems :: "tui_context_item list"
  tu_contextWarnings :: "string list"
  tu_prompt :: string
  tu_model :: string
  tu_agentId :: string
  tu_finalStatus :: "string option"
  tu_runtimeDegradedReason :: "string option"
  tu_permissionPrompt :: "tui_permission option"
  tu_readOnlyReason :: "string option"

datatype run_event_type =
    SessionCreated | MessageStarted | TextDelta | ToolStarted | ToolDelta | ToolFinished | PermissionRequested | MessageFinished
  | SessionFinished | RuntimeDegraded

definition run_event_text :: "run_event_type \<Rightarrow> string" where
  "run_event_text t =
     (case t of SessionCreated \<Rightarrow> ''session.created'' | MessageStarted \<Rightarrow> ''message.started'' | TextDelta \<Rightarrow> ''text.delta''
      | ToolStarted \<Rightarrow> ''tool.started'' | ToolDelta \<Rightarrow> ''tool.delta'' | ToolFinished \<Rightarrow> ''tool.finished''
      | PermissionRequested \<Rightarrow> ''permission.requested'' | MessageFinished \<Rightarrow> ''message.finished'' | SessionFinished \<Rightarrow> ''session.finished''
      | RuntimeDegraded \<Rightarrow> ''runtime.degraded'')"

record tui_event =
  ru_type :: run_event_type
  ru_sessionId :: string
  ru_sequence :: nat
  ru_timestamp :: string
  ru_payload :: json

record run_report =
  rr_sessionId :: string
  rr_model :: string
  rr_agentId :: string
  rr_title :: "string option"
  rr_text :: string
  rr_events :: "tui_event list"
  rr_files :: "(string \<times> int) list"
  rr_finalStatus :: string
  rr_degradedReason :: "string option"

record ledger_entry =
  le_filePath :: string
  le_lineRange :: "int \<times> int"
  le_reason :: string

record context_report =
  cr_entries :: "ledger_entry list"
  cr_warnings :: "string list"

datatype tui_action =
    ServerConnected
  | ServerFailed string
  | SessionsLoaded "tui_session list"
  | SelectSession string
  | NextSession
  | SessionForked string string "string option"
  | SessionDeleted string
  | ModelsLoaded "tui_model list"
  | AgentsLoaded "tui_agent list"
  | ContextPlanned context_report
  | ContextFailed string
  | PromptChanged string
  | ModelSelected string
  | AgentSelected string
  | RunStarted string
  | RunEvent tui_event
  | PermissionResponded bool "string option"
  | RunReported run_report

definition createInitialTuiState :: "string \<Rightarrow> tui_state" where
  "createInitialTuiState serverUrl =
     \<lparr>tu_serverUrl = serverUrl, tu_status = Attaching, tu_sessions = [], tu_currentSessionId = None, tu_models = [], tu_agents = [],
      tu_transcript = [], tu_eventLog = [], tu_contextItems = [], tu_contextWarnings = [], tu_prompt = [], tu_model = ''default'',
      tu_agentId = ''general'', tu_finalStatus = None, tu_runtimeDegradedReason = None, tu_permissionPrompt = None, tu_readOnlyReason = None\<rparr>"

section \<open>Helpers\<close>

definition stringPayload :: "json option \<Rightarrow> string option" where
  "stringPayload v = (case v of Some (JStr s) \<Rightarrow> if s = [] then None else Some s | _ \<Rightarrow> None)"

definition toolPayload :: "json \<Rightarrow> string option" where
  "toolPayload payload =
     (case stringPayload (field ''tool'' payload) of None \<Rightarrow> stringPayload (field ''toolName'' payload) | Some t \<Rightarrow> Some t)"

definition diffSummaryLabel :: "json option \<Rightarrow> string option" where
  "diffSummaryLabel metadata =
     (case Option.bind metadata (field ''diffSummary'') of
        Some d \<Rightarrow>
          (case (field ''filesChanged'' d, field ''additions'' d, field ''deletions'' d, field ''paths'' d) of
             (Some (JNum f), Some (JNum a), Some (JNum r), Some (JArr ps)) \<Rightarrow>
               let paths = List.map_filter (\<lambda>p. case p of JStr s \<Rightarrow> Some s | _ \<Rightarrow> None) ps in
               Some (''diff: '' @ show_int f @ '' '' @ (if f = 1 then ''file changed'' else ''files changed'') @ '', +'' @ show_int a @ '' -'' @ show_int r
                 @ (if paths = [] then [] else '' ('' @ js_join '', '' (take 3 paths) @ '')''))
           | _ \<Rightarrow> None)
      | None \<Rightarrow> None)"

definition eventLabel :: "tui_event \<Rightarrow> string" where
  "eventLabel e =
     (case toolPayload (ru_payload e) of
        None \<Rightarrow> run_event_text (ru_type e)
      | Some tool \<Rightarrow>
          run_event_text (ru_type e) @ '': ''
          @ (case stringPayload (field ''path'' (ru_payload e)) of None \<Rightarrow> tool | Some p \<Rightarrow> tool @ '' '' @ p)
          @ (case diffSummaryLabel (field ''metadata'' (ru_payload e)) of None \<Rightarrow> [] | Some d \<Rightarrow> '' '' @ d))"

definition toEventLogItem :: "tui_event \<Rightarrow> tui_log_item" where
  "toEventLogItem e = \<lparr>tl_type = run_event_text (ru_type e), tl_sessionId = ru_sessionId e, tl_label = eventLabel e\<rparr>"

definition upsertSession :: "tui_session list \<Rightarrow> string \<Rightarrow> string \<Rightarrow> tui_session list" where
  "upsertSession sessions sid title =
     (if list_ex (\<lambda>s. tn_id s = sid) sessions then map (\<lambda>s. if tn_id s = sid then s\<lparr>tn_title := Some title\<rparr> else s) sessions
      else \<lparr>tn_id = sid, tn_title = Some title, tn_status = None, tn_stage = None, tn_updatedAt = None\<rparr> # sessions)"

definition toContextItemFromFile :: "string \<times> int \<Rightarrow> tui_context_item" where
  "toContextItemFromFile f =
     \<lparr>tc_path = fst f, tc_label = fst f @ '' ('' @ show_int (snd f) @ '' bytes)'', tc_reason = ''attached file'', tc_byteLength = Some (snd f)\<rparr>"

definition toContextItemFromLedger :: "ledger_entry \<Rightarrow> tui_context_item" where
  "toContextItemFromLedger e =
     \<lparr>tc_path = le_filePath e, tc_label = le_filePath e @ '':'' @ show_int (fst (le_lineRange e)) @ ''-'' @ show_int (snd (le_lineRange e)),
      tc_reason = le_reason e, tc_byteLength = None\<rparr>"

text \<open>The item has no \<^verbatim>\<open>byteLength\<close>: an entry that is replaced keeps its own.\<close>

definition upsertContextItem :: "tui_context_item list \<Rightarrow> string \<Rightarrow> string \<Rightarrow> string \<Rightarrow> tui_context_item list" where
  "upsertContextItem items path label reason =
     (if list_ex (\<lambda>i. tc_path i = path) items
      then map (\<lambda>i. if tc_path i = path then i\<lparr>tc_label := label, tc_reason := reason\<rparr> else i) items
      else items @ [\<lparr>tc_path = path, tc_label = label, tc_reason = reason, tc_byteLength = None\<rparr>])"

definition isPermissionEvent :: "tui_event \<Rightarrow> bool" where
  "isPermissionEvent e \<longleftrightarrow> ru_type e = PermissionRequested"

definition permission_of :: "tui_event \<Rightarrow> tui_permission" where
  "permission_of e =
     \<lparr>tpp_sessionId = ru_sessionId e, tpp_tool = nullish (toolPayload (ru_payload e)) ''unknown'',
      tpp_reason = stringPayload (field ''reason'' (ru_payload e))\<rparr>"

definition findPermissionPrompt :: "run_report \<Rightarrow> tui_permission option" where
  "findPermissionPrompt report = map_option permission_of (List.find isPermissionEvent (rev (rr_events report)))"

definition appendAssistantDelta :: "tui_transcript_item list \<Rightarrow> string \<Rightarrow> string \<Rightarrow> tui_transcript_item list" where
  "appendAssistantDelta transcript sid delta =
     (if transcript \<noteq> [] \<and> tt_role (last transcript) = Assistant \<and> tt_sessionId (last transcript) = Some sid
      then butlast transcript @ [(last transcript)\<lparr>tt_text := tt_text (last transcript) @ delta\<rparr>]
      else transcript @ [\<lparr>tt_role = Assistant, tt_sessionId = Some sid, tt_text = delta\<rparr>])"

definition add_log :: "string \<Rightarrow> string \<Rightarrow> string \<Rightarrow> tui_state \<Rightarrow> tui_state" where
  "add_log t sid label st = st\<lparr>tu_eventLog := tu_eventLog st @ [\<lparr>tl_type = t, tl_sessionId = sid, tl_label = label\<rparr>]\<rparr>"

section \<open>The reducer\<close>

definition selectSession :: "tui_state \<Rightarrow> string \<Rightarrow> tui_state" where
  "selectSession st sid =
     (if \<not> list_ex (\<lambda>s. tn_id s = sid) (tu_sessions st) then st
      else add_log ''session.selected'' sid (''session.selected: '' @ sid) (st\<lparr>tu_currentSessionId := Some sid\<rparr>))"

text \<open>\<^verbatim>\<open>findIndex\<close> gives -1 when nothing is found; the next index is then 0.\<close>

definition next_index :: "('a \<Rightarrow> bool) \<Rightarrow> 'a list \<Rightarrow> nat" where
  "next_index P xs = (case List.find (\<lambda>i. P (xs ! i)) [0..<length xs] of None \<Rightarrow> 0 | Some i \<Rightarrow> (i + 1) mod length xs)"

definition selectNextSession :: "tui_state \<Rightarrow> tui_state" where
  "selectNextSession st =
     (if tu_sessions st = [] then st
      else selectSession st (tn_id (tu_sessions st ! next_index (\<lambda>s. Some (tn_id s) = tu_currentSessionId st) (tu_sessions st))))"

definition forkTuiSession :: "tui_state \<Rightarrow> string \<Rightarrow> string \<Rightarrow> string option \<Rightarrow> tui_state" where
  "forkTuiSession st source sid title =
     add_log ''session.forked'' sid (''session.forked: '' @ source @ '' -> '' @ sid)
       (st\<lparr>tu_currentSessionId := Some sid, tu_sessions := upsertSession (tu_sessions st) sid (nullish title (''Fork of '' @ source))\<rparr>)"

definition deleteTuiSession :: "tui_state \<Rightarrow> string \<Rightarrow> tui_state" where
  "deleteTuiSession st sid =
     (let sessions = filter (\<lambda>s. tn_id s \<noteq> sid) (tu_sessions st) in
      add_log ''session.deleted'' sid (''session.deleted: '' @ sid)
        (st\<lparr>tu_sessions := sessions,
            tu_currentSessionId := (if tu_currentSessionId st = Some sid then (case sessions of [] \<Rightarrow> None | s # _ \<Rightarrow> Some (tn_id s))
                                    else tu_currentSessionId st)\<rparr>))"

definition applyPermissionResponse :: "tui_state \<Rightarrow> bool \<Rightarrow> string option \<Rightarrow> tui_state" where
  "applyPermissionResponse st allow reason =
     (case tu_permissionPrompt st of
        None \<Rightarrow> st
      | Some p \<Rightarrow>
          add_log ''permission.requested'' (tpp_sessionId p)
            (''permission.'' @ (if allow then ''approved'' else ''denied'') @ '': '' @ tpp_tool p
             @ (case reason of None \<Rightarrow> [] | Some r \<Rightarrow> if r = [] then [] else '' '' @ r))
            (st\<lparr>tu_permissionPrompt := None\<rparr>))"

definition applyRunEvent :: "tui_state \<Rightarrow> tui_event \<Rightarrow> tui_state" where
  "applyRunEvent st e =
     (let finished = (ru_type e = MessageFinished \<or> ru_type e = SessionFinished);
          base = st\<lparr>tu_currentSessionId := Some (ru_sessionId e),
                    tu_status := (if finished then Connected else tu_status st),
                    tu_finalStatus := (if finished then (case stringPayload (field ''finalStatus'' (ru_payload e)) of None \<Rightarrow> tu_finalStatus st | Some f \<Rightarrow> Some f)
                                       else tu_finalStatus st),
                    tu_runtimeDegradedReason :=
                      (if ru_type e = RuntimeDegraded then
                         (case stringPayload (field ''reason'' (ru_payload e)) of None \<Rightarrow> tu_runtimeDegradedReason st | Some r \<Rightarrow> Some r)
                       else tu_runtimeDegradedReason st)\<rparr>;
          logged = (\<lambda>s. s\<lparr>tu_eventLog := tu_eventLog s @ [toEventLogItem e]\<rparr>) in
      if ru_type e = TextDelta then
        base\<lparr>tu_transcript := appendAssistantDelta (tu_transcript base) (ru_sessionId e) (nullish (stringPayload (field ''text'' (ru_payload e))) [])\<rparr>
      else if ru_type e = PermissionRequested then logged (base\<lparr>tu_permissionPrompt := Some (permission_of e)\<rparr>)
      else if ru_type e = ToolStarted \<or> ru_type e = ToolDelta \<or> ru_type e = ToolFinished then
        logged (base\<lparr>tu_contextItems :=
          (case stringPayload (field ''path'' (ru_payload e)) of
             None \<Rightarrow> tu_contextItems base
           | Some p \<Rightarrow> upsertContextItem (tu_contextItems base) p p
               (run_event_text (ru_type e) @ (case toolPayload (ru_payload e) of None \<Rightarrow> [] | Some t \<Rightarrow> '': '' @ t)))\<rparr>)
      else logged base)"

fun reduceTuiState :: "tui_state \<Rightarrow> tui_action \<Rightarrow> tui_state" where
  "reduceTuiState st ServerConnected = st\<lparr>tu_status := Connected, tu_readOnlyReason := None\<rparr>"
| "reduceTuiState st (ServerFailed reason) = st\<lparr>tu_status := ReadOnly, tu_readOnlyReason := Some reason\<rparr>"
| "reduceTuiState st (SessionsLoaded sessions) =
     st\<lparr>tu_sessions := sessions,
        tu_currentSessionId :=
          (case tu_currentSessionId st of
             Some c \<Rightarrow> if c \<noteq> [] \<and> list_ex (\<lambda>s. tn_id s = c) sessions then Some c else (case sessions of [] \<Rightarrow> None | s # _ \<Rightarrow> Some (tn_id s))
           | None \<Rightarrow> (case sessions of [] \<Rightarrow> None | s # _ \<Rightarrow> Some (tn_id s)))\<rparr>"
| "reduceTuiState st (SelectSession sid) = selectSession st sid"
| "reduceTuiState st NextSession = selectNextSession st"
| "reduceTuiState st (SessionForked source sid title) = forkTuiSession st source sid title"
| "reduceTuiState st (SessionDeleted sid) = deleteTuiSession st sid"
| "reduceTuiState st (ModelsLoaded models) = st\<lparr>tu_models := models\<rparr>"
| "reduceTuiState st (AgentsLoaded agents) = st\<lparr>tu_agents := agents\<rparr>"
| "reduceTuiState st (ContextPlanned report) =
     st\<lparr>tu_contextItems := map toContextItemFromLedger (cr_entries report), tu_contextWarnings := cr_warnings report\<rparr>"
| "reduceTuiState st (ContextFailed reason) = st\<lparr>tu_contextWarnings := [reason]\<rparr>"
| "reduceTuiState st (PromptChanged v) = st\<lparr>tu_prompt := v\<rparr>"
| "reduceTuiState st (ModelSelected m) =
     add_log ''model.selected'' (nullish (tu_currentSessionId st) []) (''model.selected: '' @ m) (st\<lparr>tu_model := m\<rparr>)"
| "reduceTuiState st (AgentSelected a) =
     add_log ''agent.selected'' (nullish (tu_currentSessionId st) []) (''agent.selected: '' @ a) (st\<lparr>tu_agentId := a\<rparr>)"
| "reduceTuiState st (RunStarted message) =
     st\<lparr>tu_status := Running, tu_prompt := message, tu_eventLog := [], tu_contextItems := [], tu_contextWarnings := [],
        tu_finalStatus := None, tu_runtimeDegradedReason := None,
        tu_transcript := tu_transcript st @ [\<lparr>tt_role = User, tt_sessionId = tu_currentSessionId st, tt_text = message\<rparr>]\<rparr>"
| "reduceTuiState st (RunEvent e) = applyRunEvent st e"
| "reduceTuiState st (PermissionResponded allow reason) = applyPermissionResponse st allow reason"
| "reduceTuiState st (RunReported r) =
     st\<lparr>tu_status := Connected, tu_sessions := upsertSession (tu_sessions st) (rr_sessionId r) (nullish (rr_title r) (rr_sessionId r)),
        tu_currentSessionId := Some (rr_sessionId r), tu_prompt := [], tu_model := rr_model r, tu_agentId := rr_agentId r,
        tu_contextItems := (if rr_files r = [] then tu_contextItems st else map toContextItemFromFile (rr_files r)),
        tu_finalStatus := Some (rr_finalStatus r), tu_runtimeDegradedReason := rr_degradedReason r,
        tu_transcript := tu_transcript st @ [\<lparr>tt_role = Assistant, tt_sessionId = Some (rr_sessionId r), tt_text = rr_text r\<rparr>],
        tu_permissionPrompt := findPermissionPrompt r\<rparr>"

section \<open>The operations\<close>

record run_input =
  ri_message :: string
  ri_sessionId :: "string option"
  ri_model :: string
  ri_agentId :: string

record tui_client =
  tk_health :: "string option"
  tk_sessions :: "string + tui_session list"
  tk_models :: "(string + tui_model list) option"
  tk_agents :: "(string + tui_agent list) option"
  tk_inspectContext :: "(string \<Rightarrow> string + context_report) option"
  tk_run :: "run_input \<Rightarrow> string + run_report"
  tk_runStream :: "(run_input \<Rightarrow> tui_event list \<times> string option) option"
  tk_respondPermission :: "(string \<Rightarrow> string \<Rightarrow> bool \<Rightarrow> string option \<Rightarrow> string option) option"
  tk_forkSession :: "(string \<Rightarrow> string option \<Rightarrow> string + string \<times> string) option"
  tk_deleteSession :: "(string \<Rightarrow> string + string) option"

definition optional_load :: "(string + 'a) option \<Rightarrow> ('a \<Rightarrow> tui_action) \<Rightarrow> tui_state \<Rightarrow> string option \<times> tui_state" where
  "optional_load r act st =
     (case r of None \<Rightarrow> (None, st) | Some (Inl e) \<Rightarrow> (Some e, st) | Some (Inr x) \<Rightarrow> (None, reduceTuiState st (act x)))"

definition attach :: "tui_client \<Rightarrow> tui_state \<Rightarrow> tui_state" where
  "attach k st =
     (case tk_health k of
        Some e \<Rightarrow> reduceTuiState st (ServerFailed e)
      | None \<Rightarrow>
          let st1 = reduceTuiState st ServerConnected in
          (case tk_sessions k of
             Inl e \<Rightarrow> reduceTuiState st1 (ServerFailed e)
           | Inr sessions \<Rightarrow>
               (case optional_load (tk_models k) ModelsLoaded (reduceTuiState st1 (SessionsLoaded sessions)) of
                  (Some e, st2) \<Rightarrow> reduceTuiState st2 (ServerFailed e)
                | (None, st2) \<Rightarrow>
                    (case optional_load (tk_agents k) AgentsLoaded st2 of
                       (Some e, st3) \<Rightarrow> reduceTuiState st3 (ServerFailed e)
                     | (None, st3) \<Rightarrow> st3))))"

definition run_input_of :: "string \<Rightarrow> tui_state \<Rightarrow> run_input" where
  "run_input_of message st =
     \<lparr>ri_message = message, ri_sessionId = tu_currentSessionId st, ri_model = tu_model st, ri_agentId = tu_agentId st\<rparr>"

definition submitPrompt :: "tui_client \<Rightarrow> string \<Rightarrow> tui_state \<Rightarrow> tui_state" where
  "submitPrompt k message st =
     (let trimmed = js_trim message in
      if trimmed = [] \<or> tu_status st = ReadOnly then st
      else
        let st1 = reduceTuiState st (RunStarted trimmed);
            st2 = (case tk_inspectContext k of
                     None \<Rightarrow> st1
                   | Some inspect \<Rightarrow>
                       (case inspect trimmed of
                          Inl e \<Rightarrow> reduceTuiState st1 (ContextFailed e)
                        | Inr report \<Rightarrow> reduceTuiState st1 (ContextPlanned report)));
            input = run_input_of trimmed st2 in
        (case tk_runStream k of
           Some stream \<Rightarrow>
             (let (events, failure) = stream input; st3 = foldl (\<lambda>s e. reduceTuiState s (RunEvent e)) st2 events in
              case failure of None \<Rightarrow> st3 | Some e \<Rightarrow> reduceTuiState st3 (ServerFailed e))
         | None \<Rightarrow>
             (case tk_run k input of
                Inl e \<Rightarrow> reduceTuiState st2 (ServerFailed e)
              | Inr report \<Rightarrow> reduceTuiState st2 (RunReported report))))"

definition nextModel :: "tui_state \<Rightarrow> tui_state" where
  "nextModel st =
     (if tu_models st = [] then st
      else reduceTuiState st (ModelSelected (tmo_id (tu_models st ! next_index (\<lambda>m. tmo_id m = tu_model st) (tu_models st)))))"

definition nextAgent :: "tui_state \<Rightarrow> tui_state" where
  "nextAgent st =
     (if tu_agents st = [] then st
      else reduceTuiState st (AgentSelected (tg_id (tu_agents st ! next_index (\<lambda>a. tg_id a = tu_agentId st) (tu_agents st)))))"

definition forkCurrentSession :: "tui_client \<Rightarrow> string option \<Rightarrow> tui_state \<Rightarrow> tui_state" where
  "forkCurrentSession k title st =
     (case tu_currentSessionId st of
        None \<Rightarrow> st
      | Some sid \<Rightarrow>
          if sid = [] then st
          else
            (case tk_forkSession k of
               None \<Rightarrow> reduceTuiState st (ServerFailed ''session fork is not supported by this server.'')
             | Some fork \<Rightarrow>
                 (case fork sid (if title = Some [] then None else title) of
                    Inl e \<Rightarrow> reduceTuiState st (ServerFailed e)
                  | Inr (source, new) \<Rightarrow> reduceTuiState st (SessionForked source new title))))"

definition deleteAppSession :: "tui_client \<Rightarrow> string option \<Rightarrow> tui_state \<Rightarrow> tui_state" where
  "deleteAppSession k sid st =
     (case (case sid of None \<Rightarrow> tu_currentSessionId st | Some s \<Rightarrow> Some s) of
        None \<Rightarrow> st
      | Some target \<Rightarrow>
          if target = [] then st
          else
            (case tk_deleteSession k of
               None \<Rightarrow> reduceTuiState st (ServerFailed ''session delete is not supported by this server.'')
             | Some del \<Rightarrow>
                 (case del target of
                    Inl e \<Rightarrow> reduceTuiState st (ServerFailed e)
                  | Inr deleted \<Rightarrow> reduceTuiState st (SessionDeleted deleted))))"

definition respondPermission :: "tui_client \<Rightarrow> bool \<Rightarrow> string option \<Rightarrow> tui_state \<Rightarrow> tui_state" where
  "respondPermission k allow reason st =
     (case tu_permissionPrompt st of
        None \<Rightarrow> st
      | Some p \<Rightarrow>
          (case (case tk_respondPermission k of
                   None \<Rightarrow> None
                 | Some respond \<Rightarrow> respond (tpp_sessionId p) (tpp_tool p) allow (if reason = Some [] then None else reason)) of
             Some e \<Rightarrow> reduceTuiState st (ServerFailed e)
           | None \<Rightarrow> reduceTuiState st (PermissionResponded allow reason)))"

section \<open>The screen\<close>

definition tui_status_text :: "tui_status \<Rightarrow> string" where
  "tui_status_text s = (case s of Attaching \<Rightarrow> ''attaching'' | Connected \<Rightarrow> ''connected'' | Running \<Rightarrow> ''running'' | ReadOnly \<Rightarrow> ''read_only'')"

definition tui_role_text :: "tui_role \<Rightarrow> string" where
  "tui_role_text r = (case r of Assistant \<Rightarrow> ''assistant'' | User \<Rightarrow> ''user'' | System \<Rightarrow> ''system'')"

definition trimEnd :: "string \<Rightarrow> string" where
  "trimEnd s = rev (dropWhile js_ws (rev s))"

definition given_line :: "string \<Rightarrow> string option \<Rightarrow> string list" where
  "given_line label v = (case v of None \<Rightarrow> [] | Some s \<Rightarrow> if s = [] then [] else [label @ s])"

definition option_line :: "bool \<Rightarrow> string \<Rightarrow> string \<Rightarrow> string" where
  "option_line current i name = trimEnd (''  '' @ (if current then ''*'' else '' '') @ '' '' @ i @ '' '' @ name)"

definition last_eight :: "'a list \<Rightarrow> 'a list" where
  "last_eight xs = drop (length xs - 8) xs"

definition renderTuiScreen :: "tui_state \<Rightarrow> string" where
  "renderTuiScreen st =
     js_join [CHR 0x0A]
       ([''DH TUI'', ''server: '' @ tu_serverUrl st, ''status: '' @ tui_status_text (tu_status st)]
        @ given_line ''final: '' (tu_finalStatus st) @ given_line ''degraded: '' (tu_runtimeDegradedReason st)
        @ [''model: '' @ tu_model st, ''agent: '' @ tu_agentId st, [], ''sessions:'']
        @ (if tu_sessions st = [] then [''  none'']
           else map (\<lambda>s. option_line (Some (tn_id s) = tu_currentSessionId st) (tn_id s) (nullish (tn_title s) [])) (tu_sessions st))
        @ (if tu_models st = [] then []
           else [[], ''model options:''] @ map (\<lambda>m. option_line (tmo_id m = tu_model st) (tmo_id m) (tmo_name m)) (take 8 (tu_models st)))
        @ (if tu_agents st = [] then []
           else [[], ''agent options:''] @ map (\<lambda>a. option_line (tg_id a = tu_agentId st) (tg_id a) (tg_displayName a)) (take 8 (tu_agents st)))
        @ [[], ''transcript:'']
        @ (if tu_transcript st = [] then [''  empty''] else map (\<lambda>t. ''  '' @ tui_role_text (tt_role t) @ '': '' @ tt_text t) (tu_transcript st))
        @ [[], ''context:'']
        @ (if tu_contextItems st = [] then [''  none''] else map (\<lambda>i. ''  '' @ tc_label i @ '' - '' @ tc_reason i) (last_eight (tu_contextItems st)))
        @ map (\<lambda>w. ''  context warning: '' @ w) (tu_contextWarnings st)
        @ (case tu_permissionPrompt st of
             None \<Rightarrow> []
           | Some p \<Rightarrow> [[], ''permission: '' @ tpp_tool p, ''reason: '' @ nullish (tpp_reason p) ''not provided''])
        @ [[], ''events:'']
        @ (if tu_eventLog st = [] then [''  none''] else map (\<lambda>e. ''  '' @ tl_label e) (last_eight (tu_eventLog st)))
        @ (case tu_readOnlyReason st of None \<Rightarrow> [] | Some r \<Rightarrow> if r = [] then [] else [[], ''read-only: '' @ r])
        @ [[], ''prompt: '' @ tu_prompt st])"

section \<open>The input loop\<close>

definition isExitCommand :: "string \<Rightarrow> bool" where
  "isExitCommand line \<longleftrightarrow> js_trim line \<in> {''/quit'', ''/exit'', '':q''}"

definition argument_of :: "string \<Rightarrow> string \<Rightarrow> string" where
  "argument_of command trimmed = js_trim (drop (length command) trimmed)"

definition given_argument :: "string \<Rightarrow> string option" where
  "given_argument s = (if s = [] then None else Some s)"

definition handleInputLine :: "tui_client \<Rightarrow> string \<Rightarrow> tui_state \<Rightarrow> tui_state" where
  "handleInputLine k line st =
     (let trimmed = js_trim line in
      if trimmed = ''/next'' then reduceTuiState st NextSession
      else if trimmed = ''/model'' then nextModel st
      else if js_startsWith trimmed ''/model '' then
        (let m = argument_of ''/model'' trimmed in if m = [] then st else reduceTuiState st (ModelSelected m))
      else if trimmed = ''/agent'' then nextAgent st
      else if js_startsWith trimmed ''/agent '' then
        (let a = argument_of ''/agent'' trimmed in if a = [] then st else reduceTuiState st (AgentSelected a))
      else if js_startsWith trimmed ''/resume '' \<or> js_startsWith trimmed ''/session '' then
        (let s = js_trim (tl (dropWhile (\<lambda>c. c \<noteq> CHR '' '') trimmed)) in if s = [] then st else reduceTuiState st (SelectSession s))
      else if trimmed = ''/fork'' \<or> js_startsWith trimmed ''/fork '' then
        forkCurrentSession k (given_argument (argument_of ''/fork'' trimmed)) st
      else if trimmed = ''/delete'' \<or> js_startsWith trimmed ''/delete '' then
        deleteAppSession k (given_argument (argument_of ''/delete'' trimmed)) st
      else if trimmed = ''/approve'' then respondPermission k True None st
      else if trimmed = ''/deny'' \<or> js_startsWith trimmed ''/deny '' then
        respondPermission k False (given_argument (argument_of ''/deny'' trimmed)) st
      else submitPrompt k line st)"

text \<open>
  The loop reads one line after the other, each with what the server answers at that time, up to an exit command or the end of
  the input, and gives the final state and what it wrote.
\<close>

fun tui_loop :: "(string \<times> tui_client) list \<Rightarrow> tui_state \<Rightarrow> tui_state \<times> string list" where
  "tui_loop [] st = (st, [])"
| "tui_loop ((line, k) # rest) st =
     (if isExitCommand line then (st, [])
      else let st1 = handleInputLine k line st; (st2, out) = tui_loop rest st1 in (st2, ([CHR 0x0A] @ renderTuiScreen st1 @ [CHR 0x0A]) # out))"

definition runTui :: "string \<Rightarrow> tui_client \<Rightarrow> bool \<Rightarrow> (string \<times> tui_client) list \<Rightarrow> tui_state \<times> string list" where
  "runTui serverUrl k isTTY lines =
     (let st = attach k (createInitialTuiState serverUrl); screen = renderTuiScreen st @ [CHR 0x0A] in
      if \<not> isTTY \<or> tu_status st = ReadOnly then (st, [screen])
      else let (st1, out) = tui_loop lines st in (st1, screen # out))"

section \<open>A streamed reply\<close>

lemma add_log_simps [simp]:
  "tu_transcript (add_log t sid l st) = tu_transcript st" "tu_sessions (add_log t sid l st) = tu_sessions st"
  "tu_currentSessionId (add_log t sid l st) = tu_currentSessionId st" "tu_status (add_log t sid l st) = tu_status st"
  by (simp_all add: add_log_def)

lemma append_deltas: "appendAssistantDelta (appendAssistantDelta T s a) s b = appendAssistantDelta T s (a @ b)"
  by (simp add: appendAssistantDelta_def)

definition text_deltas :: "tui_event list \<Rightarrow> string list" where
  "text_deltas es = [nullish (stringPayload (field ''text'' (ru_payload e))) []. e \<leftarrow> es, ru_type e = TextDelta]"

text \<open>What the events of one session leave in the transcript, the log, the permission prompt and the status.\<close>

definition ends_run :: "tui_event \<Rightarrow> bool" where
  "ends_run e \<longleftrightarrow> ru_type e = MessageFinished \<or> ru_type e = SessionFinished"

definition run_events :: "tui_event list \<Rightarrow> tui_state \<Rightarrow> tui_state" where
  "run_events es st = foldl (\<lambda>s e. reduceTuiState s (RunEvent e)) st es"

lemma run_events_Cons [simp]: "run_events [] st = st" "run_events (e # es) st = run_events es (applyRunEvent st e)"
  by (simp_all add: run_events_def)

lemma applyRunEvent_fields:
  "tu_sessions (applyRunEvent st e) = tu_sessions st" "tu_prompt (applyRunEvent st e) = tu_prompt st"
  "tu_currentSessionId (applyRunEvent st e) = Some (ru_sessionId e)"
  "tu_status (applyRunEvent st e) = (if ends_run e then Connected else tu_status st)"
  "tu_permissionPrompt (applyRunEvent st e) = (if isPermissionEvent e then Some (permission_of e) else tu_permissionPrompt st)"
  "tu_eventLog (applyRunEvent st e) = tu_eventLog st @ (if ru_type e = TextDelta then [] else [toEventLogItem e])"
  "tu_transcript (applyRunEvent st e) =
     (if ru_type e = TextDelta then appendAssistantDelta (tu_transcript st) (ru_sessionId e) (nullish (stringPayload (field ''text'' (ru_payload e))) [])
      else tu_transcript st)"
  by (simp_all add: applyRunEvent_def Let_def ends_run_def isPermissionEvent_def)

lemma run_events_kept:
  "tu_sessions (run_events es st) = tu_sessions st" "tu_prompt (run_events es st) = tu_prompt st"
  by (induction es arbitrary: st) (simp_all add: applyRunEvent_fields)

lemma run_events_current:
  "tu_currentSessionId (run_events es st) = (if es = [] then tu_currentSessionId st else Some (ru_sessionId (last es)))"
  by (induction es arbitrary: st) (simp_all add: applyRunEvent_fields)

lemma run_events_status: "tu_status (run_events es st) = (if list_ex ends_run es then Connected else tu_status st)"
  by (induction es arbitrary: st) (simp_all add: applyRunEvent_fields)

lemma run_events_log: "tu_eventLog (run_events es st) = tu_eventLog st @ map toEventLogItem (filter (\<lambda>e. ru_type e \<noteq> TextDelta) es)"
  by (induction es arbitrary: st) (simp_all add: applyRunEvent_fields)

lemma run_events_permission:
  "tu_permissionPrompt (run_events es st) =
     (case List.find isPermissionEvent (rev es) of None \<Rightarrow> tu_permissionPrompt st | Some e \<Rightarrow> Some (permission_of e))"
proof (induction es arbitrary: st)
  case (Cons e es)
  show ?case by (cases "List.find isPermissionEvent (rev es)") (simp_all add: Cons applyRunEvent_fields find_append)
qed simp

lemma run_events_transcript:
  assumes "list_all (\<lambda>e. ru_sessionId e = s) es"
  shows "tu_transcript (run_events es st) =
    (if text_deltas es = [] then tu_transcript st else appendAssistantDelta (tu_transcript st) s (concat (text_deltas es)))"
  using assms
proof (induction es arbitrary: st)
  case (Cons e es)
  let ?d = "nullish (stringPayload (field ''text'' (ru_payload e))) []"
  show ?case
  proof (cases "ru_type e = TextDelta")
    case True
    have t: "text_deltas (e # es) = ?d # text_deltas es" using True by (simp add: text_deltas_def)
    have a: "tu_transcript (applyRunEvent st e) = appendAssistantDelta (tu_transcript st) s ?d"
      using True Cons.prems by (simp add: applyRunEvent_fields)
    show ?thesis using Cons.IH [of "applyRunEvent st e"] Cons.prems by (simp add: t a append_deltas)
  next
    case False
    have t: "text_deltas (e # es) = text_deltas es" using False by (simp add: text_deltas_def)
    have a: "tu_transcript (applyRunEvent st e) = tu_transcript st" using False by (simp add: applyRunEvent_fields)
    show ?thesis using Cons.IH [of "applyRunEvent st e"] Cons.prems by (simp add: t a)
  qed
qed (simp add: text_deltas_def)

lemma context_fields:
  fixes k st message
  defines "st2 \<equiv> (case tk_inspectContext k of
      None \<Rightarrow> reduceTuiState st (RunStarted message)
    | Some inspect \<Rightarrow>
        (case inspect message of
           Inl e \<Rightarrow> reduceTuiState (reduceTuiState st (RunStarted message)) (ContextFailed e)
         | Inr report \<Rightarrow> reduceTuiState (reduceTuiState st (RunStarted message)) (ContextPlanned report)))"
  shows "tu_transcript st2 = tu_transcript st @ [\<lparr>tt_role = User, tt_sessionId = tu_currentSessionId st, tt_text = message\<rparr>]"
    and "tu_sessions st2 = tu_sessions st" and "tu_currentSessionId st2 = tu_currentSessionId st" and "tu_status st2 = Running"
    and "tu_permissionPrompt st2 = tu_permissionPrompt st" and "tu_prompt st2 = message" and "tu_eventLog st2 = []"
    and "run_input_of message st2 = run_input_of message st"
  unfolding st2_def by (simp_all add: run_input_of_def split: option.split sum.split)

text \<open>
  C39. A streamed run shows as one question and one answer. Submitting a prompt to a client that streams, when the events all belong to one
  session, appends the trimmed prompt as the user's entry and, if any text came, one assistant's entry of that session whose
  text is all the pieces in order, whatever other events came between them. The log holds the other events in order, the open
  permission prompt is the last one requested, or else the one of before the run, the session becomes the current one but the list of
  sessions does not change, and the status is connected once an event ended the run, running otherwise, and read-only when the
  stream failed.
\<close>

theorem tui_streamed_run:
  assumes "js_trim message \<noteq> []" and "tu_status st \<noteq> ReadOnly" and "tk_runStream k = Some stream"
    and "stream (run_input_of (js_trim message) st) = (es, failure)" and "list_all (\<lambda>e. ru_sessionId e = s) es"
  shows "tu_transcript (submitPrompt k message st) =
      tu_transcript st @ [\<lparr>tt_role = User, tt_sessionId = tu_currentSessionId st, tt_text = js_trim message\<rparr>]
        @ (if text_deltas es = [] then [] else [\<lparr>tt_role = Assistant, tt_sessionId = Some s, tt_text = concat (text_deltas es)\<rparr>])
    \<and> tu_eventLog (submitPrompt k message st) = map toEventLogItem (filter (\<lambda>e. ru_type e \<noteq> TextDelta) es)
    \<and> tu_permissionPrompt (submitPrompt k message st) =
        (case List.find isPermissionEvent (rev es) of None \<Rightarrow> tu_permissionPrompt st | Some e \<Rightarrow> Some (permission_of e))
    \<and> tu_sessions (submitPrompt k message st) = tu_sessions st
    \<and> tu_currentSessionId (submitPrompt k message st) = (if es = [] then tu_currentSessionId st else Some s)
    \<and> tu_status (submitPrompt k message st) =
        (if failure \<noteq> None then ReadOnly else if list_ex ends_run es then Connected else Running)"
proof -
  define st2 where "st2 = (case tk_inspectContext k of
      None \<Rightarrow> reduceTuiState st (RunStarted (js_trim message))
    | Some inspect \<Rightarrow>
        (case inspect (js_trim message) of
           Inl e \<Rightarrow> reduceTuiState (reduceTuiState st (RunStarted (js_trim message))) (ContextFailed e)
         | Inr report \<Rightarrow> reduceTuiState (reduceTuiState st (RunStarted (js_trim message))) (ContextPlanned report)))"
  note f = context_fields [where k = k and st = st and message = "js_trim message", folded st2_def]
  let ?r = "run_events es st2"
  have p: "submitPrompt k message st = (case failure of None \<Rightarrow> ?r | Some e \<Rightarrow> reduceTuiState ?r (ServerFailed e))"
    using assms(1-4) f(8) unfolding submitPrompt_def Let_def st2_def [symmetric] run_events_def by (cases failure) simp_all
  have keep: "tu_transcript (submitPrompt k message st) = tu_transcript ?r" "tu_eventLog (submitPrompt k message st) = tu_eventLog ?r"
    "tu_permissionPrompt (submitPrompt k message st) = tu_permissionPrompt ?r" "tu_sessions (submitPrompt k message st) = tu_sessions ?r"
    "tu_currentSessionId (submitPrompt k message st) = tu_currentSessionId ?r"
    "tu_status (submitPrompt k message st) = (if failure \<noteq> None then ReadOnly else tu_status ?r)"
    by (simp_all add: p split: option.split)
  have "es \<noteq> [] \<Longrightarrow> ru_sessionId (last es) = s" using assms(5) by (simp add: list_all_iff)
  then show ?thesis
    unfolding keep run_events_kept run_events_current run_events_status run_events_log run_events_permission run_events_transcript [OF assms(5)]
    by (cases "List.find isPermissionEvent (rev es)") (simp_all add: f appendAssistantDelta_def)
qed

definition sample_stream :: "tui_event list" where
  "sample_stream =
     [\<lparr>ru_type = TextDelta, ru_sessionId = ''s1'', ru_sequence = 1, ru_timestamp = ''t'', ru_payload = JObj [(''text'', JStr ''Hel'')]\<rparr>,
      \<lparr>ru_type = ToolStarted, ru_sessionId = ''s1'', ru_sequence = 2, ru_timestamp = ''t'', ru_payload = JObj [(''tool'', JStr ''read''), (''path'', JStr ''a.ts'')]\<rparr>,
      \<lparr>ru_type = TextDelta, ru_sessionId = ''s1'', ru_sequence = 3, ru_timestamp = ''t'', ru_payload = JObj [(''text'', JStr ''lo'')]\<rparr>,
      \<lparr>ru_type = SessionFinished, ru_sessionId = ''s1'', ru_sequence = 4, ru_timestamp = ''t'', ru_payload = JObj []\<rparr>]"

definition sample_client :: tui_client where
  "sample_client =
     \<lparr>tk_health = None, tk_sessions = Inr [], tk_models = None, tk_agents = None, tk_inspectContext = None, tk_run = (\<lambda>i. Inl ''no run''),
      tk_runStream = Some (\<lambda>i. (sample_stream, None)), tk_respondPermission = None, tk_forkSession = None, tk_deleteSession = None\<rparr>"

theorem tui_streamed_run_witness:
  "tu_transcript (submitPrompt sample_client '' hi '' (createInitialTuiState ''u'')) =
     [\<lparr>tt_role = User, tt_sessionId = None, tt_text = ''hi''\<rparr>, \<lparr>tt_role = Assistant, tt_sessionId = Some ''s1'', tt_text = ''Hello''\<rparr>]"
proof -
  have h: "js_trim '' hi '' \<noteq> []" "tu_status (createInitialTuiState ''u'') \<noteq> ReadOnly" "tk_runStream sample_client = Some (\<lambda>i. (sample_stream, None))"
    "(\<lambda>i :: run_input. (sample_stream, None :: string option)) (run_input_of (js_trim '' hi '') (createInitialTuiState ''u'')) = (sample_stream, None)"
    "list_all (\<lambda>e. ru_sessionId e = ''s1'') sample_stream"
    by (simp_all add: js_trim_def js_ws_def createInitialTuiState_def sample_client_def sample_stream_def)
  have d: "text_deltas sample_stream = [''Hel'', ''lo'']" "js_trim '' hi '' = ''hi''" by code_simp+
  show ?thesis using tui_streamed_run [OF h] unfolding d by (simp add: createInitialTuiState_def)
qed

section \<open>Walking through the sessions\<close>

lemma next_index_unique:
  assumes "i < length xs" and "\<And>j. j < length xs \<Longrightarrow> P (xs ! j) \<longleftrightarrow> j = i"
  shows "next_index P xs = (i + 1) mod length xs"
proof -
  have "List.find (\<lambda>i. P (xs ! i)) [0..<length xs] = Some i"
    using assms by (auto simp: find_Some_iff)
  then show ?thesis by (simp add: next_index_def)
qed

lemma next_session_current:
  assumes "distinct (map tn_id (tu_sessions st))" and "i < length (tu_sessions st)" and "tu_currentSessionId st = Some (tn_id (tu_sessions st ! i))"
  shows "tu_currentSessionId (selectNextSession st) = Some (tn_id (tu_sessions st ! ((i + 1) mod length (tu_sessions st))))
    \<and> tu_sessions (selectNextSession st) = tu_sessions st"
proof -
  let ?n = "length (tu_sessions st)"
  have "tn_id (tu_sessions st ! j) = tn_id (tu_sessions st ! i) \<longleftrightarrow> j = i" if "j < ?n" for j
    using nth_eq_iff_index_eq [OF assms(1), of j i] that assms(2) by simp
  then have "next_index (\<lambda>s. Some (tn_id s) = tu_currentSessionId st) (tu_sessions st) = (i + 1) mod ?n"
    using assms(2,3) by (intro next_index_unique) auto
  moreover have "(i + 1) mod ?n < ?n" using assms(2) by (metis mod_less_divisor neq0_conv not_less_zero)
  moreover from this have "list_ex (\<lambda>s. tn_id s = tn_id (tu_sessions st ! ((i + 1) mod ?n))) (tu_sessions st)"
    by (auto simp: list_ex_iff intro: nth_mem)
  ultimately show ?thesis using assms(2) by (auto simp: selectNextSession_def selectSession_def)
qed

text \<open>Pressing next walks through all sessions in their order and comes back to the first.\<close>

lemma next_session_cycles:
  assumes "distinct (map tn_id (tu_sessions st))" and "i < length (tu_sessions st)" and "tu_currentSessionId st = Some (tn_id (tu_sessions st ! i))"
  shows "tu_currentSessionId ((selectNextSession ^^ j) st) = Some (tn_id (tu_sessions st ! ((i + j) mod length (tu_sessions st))))
    \<and> tu_sessions ((selectNextSession ^^ j) st) = tu_sessions st"
proof (induction j)
  case (Suc j)
  let ?n = "length (tu_sessions st)"
  have "(i + j) mod ?n < ?n" using assms(2) by (metis mod_less_divisor neq0_conv not_less_zero)
  then show ?case using next_session_current [of "(selectNextSession ^^ j) st" "(i + j) mod ?n"] Suc assms(1) by (simp add: mod_Suc_eq)
qed (use assms in simp)

section \<open>Read-only is final\<close>

text \<open>
  A failed call makes the front end read-only, and no input ends that: the status stays, no line adds to the transcript, and the
  server is asked for no further run.
\<close>

lemma read_only_reduce:
  assumes "tu_status st = ReadOnly"
  shows "tu_status (selectSession st sid) = ReadOnly" "tu_transcript (selectSession st sid) = tu_transcript st"
    "tu_status (selectNextSession st) = ReadOnly" "tu_transcript (selectNextSession st) = tu_transcript st"
    "tu_status (nextModel st) = ReadOnly" "tu_transcript (nextModel st) = tu_transcript st"
    "tu_status (nextAgent st) = ReadOnly" "tu_transcript (nextAgent st) = tu_transcript st"
    "tu_status (forkCurrentSession k title st) = ReadOnly" "tu_transcript (forkCurrentSession k title st) = tu_transcript st"
    "tu_status (deleteAppSession k target st) = ReadOnly" "tu_transcript (deleteAppSession k target st) = tu_transcript st"
    "tu_status (respondPermission k allow reason st) = ReadOnly" "tu_transcript (respondPermission k allow reason st) = tu_transcript st"
  using assms
  by (simp_all add: selectNextSession_def selectSession_def nextModel_def nextAgent_def forkCurrentSession_def deleteAppSession_def respondPermission_def
      forkTuiSession_def deleteTuiSession_def applyPermissionResponse_def Let_def split: option.split sum.split prod.split)

lemma read_only_line:
  assumes "tu_status st = ReadOnly"
  shows "tu_status (handleInputLine k line st) = ReadOnly \<and> tu_transcript (handleInputLine k line st) = tu_transcript st"
  using assms by (simp add: handleInputLine_def Let_def read_only_reduce submitPrompt_def)

lemma read_only_is_final:
  assumes "tu_status st = ReadOnly"
  shows "tu_status (fst (tui_loop lines st)) = ReadOnly \<and> tu_transcript (fst (tui_loop lines st)) = tu_transcript st"
  using assms
proof (induction lines st rule: tui_loop.induct)
  case (2 line k rest st)
  then show ?case using read_only_line [of st k line] by (cases "tui_loop rest (handleInputLine k line st)") auto
qed simp

end
