(* ===== verification/EmbeddingStore.thy ===== *)
theory EmbeddingStore
  imports AnnSearch Chunker "HOL-Library.Word"
begin

text \<open>
  Chunks and their embeddings: the two repositories (\<^verbatim>\<open>storage/src/sqlite/repositories/chunks-repo.ts\<close>,
  \<^verbatim>\<open>embeddings-repo.ts\<close>), the telemetry log (\<^verbatim>\<open>retrieval/src/semantic/telemetry-collector.ts\<close>), the embedding pipeline
  (\<^verbatim>\<open>embedding-pipeline.ts\<close>) and the search over what it has stored (\<^verbatim>\<open>semantic-search.ts\<close>).

  A table is the list of its rows in \<^verbatim>\<open>rowid\<close> order; a query without \<^verbatim>\<open>ORDER BY\<close> yields them in that order. The column
  \<^verbatim>\<open>vector_json\<close> is the vector that is written to it, and the caches of an index are what was written to the file of their
  model; numbers that are not integers are reals. The environment gives the random ids, the times, the SHA-256 prefix of a text, the
  draws of the index and the variables of the process; \<open>em_tick\<close> counts what was drawn. The text of an exception of
  the language is left out.
\<close>

section \<open>Rows and state\<close>

record chunk_row =
  cw_id :: string
  cw_fileId :: string
  cw_filePath :: string
  cw_symbolId :: "string option"
  cw_lineStart :: int
  cw_lineEnd :: int
  cw_content :: string
  cw_contentHash :: string
  cw_tokenEstimate :: nat
  cw_language :: string
  cw_createdAt :: string

record chunk_path_row =
  cpr_id :: string
  cpr_fileId :: string
  cpr_filePath :: string
  cpr_createdAt :: string

record embedding_row =
  eb_id :: string
  eb_chunkId :: string
  eb_modelName :: string
  eb_vector :: "real list"
  eb_vectorDim :: nat
  eb_createdAt :: string

datatype search_strategy = StratHnsw | StratFlatCache | StratDbScan

record pipeline_metrics =
  pm_durationMs :: real
  pm_chunksInput :: nat
  pm_chunksEmbedded :: nat
  pm_chunksSkipped :: nat
  pm_totalTokens :: nat
  pm_avgTokensPerChunk :: real
  pm_modelName :: string
  pm_usedMockProvider :: bool

record ann_build_metrics =
  am_durationMs :: real
  am_vectorCount :: nat
  am_modelName :: string

record search_metrics =
  sm_durationMs :: real
  sm_strategy :: search_strategy
  sm_resultCount :: nat
  sm_topK :: nat
  sm_minSimilarity :: real
  sm_modelName :: string

datatype path_failure = NormalizationFailed | FileReadFailed

record graph_unavailable =
  gu_reason :: string
  gu_attemptedAdapter :: string
  gu_engine :: "string option"
  gu_selectorLabel :: "string option"
  gu_runtimeBehavior :: "string option"

datatype telemetry_event =
    TePipeline pipeline_metrics
  | TeAnnBuild ann_build_metrics
  | TeSearch search_metrics
  | TeSemanticPathUnresolved string string string
  | TeEvidencePathUnresolved string "string option" string path_failure
  | TeGraphUnavailable graph_unavailable

text \<open>A line of the log is an event with its time, or None when it does not parse.\<close>

record emb_state =
  em_chunks :: "chunk_row list"
  em_embeddings :: "embedding_row list"
  em_flat :: "(string, (string \<times> string \<times> real list) list) js_map"
  em_hnsw :: "(string, real hnsw_serial) js_map"
  em_telemetry :: "(telemetry_event \<times> string) option list"
  em_draw :: nat
  em_tick :: nat

record emb_env =
  ev_id :: "string \<Rightarrow> nat \<Rightarrow> string"
  ev_now :: "nat \<Rightarrow> string"
  ev_elapsed :: "nat \<Rightarrow> real"
  ev_hash :: "string \<Rightarrow> string"
  ev_coin :: "nat \<Rightarrow> bool"
  ev_environ :: "string \<Rightarrow> string option"

datatype emb_error = ProviderError string | MissingVector | ForeignKeyFailed | IndexError

definition newest :: "('r \<Rightarrow> string) \<Rightarrow> 'r list \<Rightarrow> 'r list" where
  "newest stamp rows = rev (sort_key stamp (rev rows))"

section \<open>The repository of chunks\<close>

definition chunk_insert :: "chunk_row \<Rightarrow> chunk_row list \<Rightarrow> chunk_row list" where
  "chunk_insert r rows =
     (if list_ex (\<lambda>q. cw_id q = cw_id r) rows
      then map (\<lambda>q. if cw_id q = cw_id r
                    then q\<lparr>cw_content := cw_content r, cw_contentHash := cw_contentHash r, cw_tokenEstimate := cw_tokenEstimate r\<rparr> else q) rows
      else rows @ [r])"

definition chunks_save :: "emb_env \<Rightarrow> chunk_row \<Rightarrow> emb_state \<Rightarrow> chunk_row \<times> emb_state" where
  "chunks_save E input st =
     (let row = input\<lparr>cw_id := ev_id E ''chunk'' (em_tick st), cw_createdAt := ev_now E (em_tick st)\<rparr> in
      (row, st\<lparr>em_chunks := chunk_insert row (em_chunks st), em_tick := em_tick st + 1\<rparr>))"

text \<open>\<^verbatim>\<open>saveBatch\<close> takes the time once for all rows.\<close>

fun chunks_saveAll :: "emb_env \<Rightarrow> string \<Rightarrow> chunk_row list \<Rightarrow> emb_state \<Rightarrow> chunk_row list \<times> emb_state" where
  "chunks_saveAll E now [] st = ([], st)"
| "chunks_saveAll E now (input # inputs) st =
     (let row = input\<lparr>cw_id := ev_id E ''chunk'' (em_tick st), cw_createdAt := now\<rparr>;
          (rows, st') = chunks_saveAll E now inputs (st\<lparr>em_chunks := chunk_insert row (em_chunks st), em_tick := em_tick st + 1\<rparr>)
      in (row # rows, st'))"

definition chunks_saveBatch :: "emb_env \<Rightarrow> chunk_row list \<Rightarrow> emb_state \<Rightarrow> chunk_row list \<times> emb_state" where
  "chunks_saveBatch E inputs st = chunks_saveAll E (ev_now E (em_tick st)) inputs (st\<lparr>em_tick := em_tick st + 1\<rparr>)"

definition chunks_findById :: "string \<Rightarrow> emb_state \<Rightarrow> chunk_row option" where
  "chunks_findById i st = List.find (\<lambda>c. cw_id c = i) (em_chunks st)"

definition chunks_findByFileId :: "string \<Rightarrow> emb_state \<Rightarrow> chunk_row list" where
  "chunks_findByFileId fileId st = filter (\<lambda>c. cw_fileId c = fileId) (em_chunks st)"

definition chunks_findByContentHash :: "string \<Rightarrow> emb_state \<Rightarrow> chunk_row option" where
  "chunks_findByContentHash h st = List.find (\<lambda>c. cw_contentHash c = h) (em_chunks st)"

definition findContentHashesByFileId :: "string \<Rightarrow> emb_state \<Rightarrow> string list" where
  "findContentHashesByFileId fileId st = map cw_contentHash (sort_key cw_lineStart (chunks_findByFileId fileId st))"

definition chunks_listAll :: "emb_state \<Rightarrow> chunk_row list" where
  "chunks_listAll st = newest cw_createdAt (em_chunks st)"

definition references_chunk :: "emb_state \<Rightarrow> string \<Rightarrow> bool" where
  "references_chunk st i \<longleftrightarrow> list_ex (\<lambda>e. eb_chunkId e = i) (em_embeddings st)"

text \<open>A row that an embedding refers to cannot be deleted; the statement then deletes nothing.\<close>

definition chunks_deleteByFileId :: "string \<Rightarrow> emb_state \<Rightarrow> (emb_error + unit) \<times> emb_state" where
  "chunks_deleteByFileId fileId st =
     (if list_ex (\<lambda>c. references_chunk st (cw_id c)) (chunks_findByFileId fileId st) then (Inl ForeignKeyFailed, st)
      else (Inr (), st\<lparr>em_chunks := filter (\<lambda>c. cw_fileId c \<noteq> fileId) (em_chunks st)\<rparr>))"

definition findIdsByFileId :: "string \<Rightarrow> emb_state \<Rightarrow> string list" where
  "findIdsByFileId fileId st = map cw_id (chunks_findByFileId fileId st)"

definition chunks_count :: "emb_state \<Rightarrow> nat" where
  "chunks_count st = length (em_chunks st)"

definition listPathInventory :: "emb_state \<Rightarrow> chunk_path_row list" where
  "listPathInventory st =
     map (\<lambda>c. \<lparr>cpr_id = cw_id c, cpr_fileId = cw_fileId c, cpr_filePath = cw_filePath c, cpr_createdAt = cw_createdAt c\<rparr>)
       (newest cw_createdAt (em_chunks st))"

definition update_path :: "string \<times> string \<Rightarrow> nat \<times> emb_state \<Rightarrow> nat \<times> emb_state" where
  "update_path u s =
     (let (i, path) = u; (changed, st) = s in
      (changed + length (filter (\<lambda>c. cw_id c = i) (em_chunks st)),
       st\<lparr>em_chunks := map (\<lambda>c. if cw_id c = i then c\<lparr>cw_filePath := path\<rparr> else c) (em_chunks st)\<rparr>))"

definition updateFilePathsByChunkId :: "(string \<times> string) list \<Rightarrow> emb_state \<Rightarrow> nat \<times> emb_state" where
  "updateFilePathsByChunkId updates st = fold update_path updates (0, st)"

section \<open>The repository of embeddings\<close>

definition embedding_insert :: "embedding_row \<Rightarrow> embedding_row list \<Rightarrow> embedding_row list" where
  "embedding_insert r rows =
     (if list_ex (\<lambda>q. eb_id q = eb_id r) rows
      then map (\<lambda>q. if eb_id q = eb_id r then q\<lparr>eb_vector := eb_vector r, eb_vectorDim := eb_vectorDim r\<rparr> else q) rows
      else rows @ [r])"

definition insert_embedding :: "embedding_row \<Rightarrow> emb_state \<Rightarrow> (emb_error + unit) \<times> emb_state" where
  "insert_embedding row st =
     (if chunks_findById (eb_chunkId row) st = None then (Inl ForeignKeyFailed, st)
      else (Inr (), st\<lparr>em_embeddings := embedding_insert row (em_embeddings st)\<rparr>))"

definition embeddings_save :: "emb_env \<Rightarrow> embedding_row \<Rightarrow> emb_state \<Rightarrow> (emb_error + embedding_row) \<times> emb_state" where
  "embeddings_save E input st =
     (let row = input\<lparr>eb_id := ev_id E ''emb'' (em_tick st), eb_createdAt := ev_now E (em_tick st)\<rparr> in
      case insert_embedding row (st\<lparr>em_tick := em_tick st + 1\<rparr>) of
        (Inl e, st') \<Rightarrow> (Inl e, st')
      | (Inr _, st') \<Rightarrow> (Inr row, st'))"

fun embeddings_saveAll ::
  "emb_env \<Rightarrow> string \<Rightarrow> embedding_row list \<Rightarrow> emb_state \<Rightarrow> (emb_error + embedding_row list) \<times> emb_state" where
  "embeddings_saveAll E now [] st = (Inr [], st)"
| "embeddings_saveAll E now (input # inputs) st =
     (let row = input\<lparr>eb_id := ev_id E ''emb'' (em_tick st), eb_createdAt := now\<rparr> in
      case insert_embedding row (st\<lparr>em_tick := em_tick st + 1\<rparr>) of
        (Inl e, st1) \<Rightarrow> (Inl e, st1)
      | (Inr _, st1) \<Rightarrow>
          (case embeddings_saveAll E now inputs st1 of
             (Inl e, st2) \<Rightarrow> (Inl e, st2)
           | (Inr rows, st2) \<Rightarrow> (Inr (row # rows), st2)))"

definition embeddings_saveBatch :: "emb_env \<Rightarrow> embedding_row list \<Rightarrow> emb_state \<Rightarrow> (emb_error + embedding_row list) \<times> emb_state" where
  "embeddings_saveBatch E inputs st = embeddings_saveAll E (ev_now E (em_tick st)) inputs (st\<lparr>em_tick := em_tick st + 1\<rparr>)"

definition findByChunkId :: "string \<Rightarrow> emb_state \<Rightarrow> embedding_row option" where
  "findByChunkId i st = List.find (\<lambda>e. eb_chunkId e = i) (em_embeddings st)"

definition findByChunkIds :: "string list \<Rightarrow> emb_state \<Rightarrow> embedding_row list" where
  "findByChunkIds ids st = (if ids = [] then [] else filter (\<lambda>e. eb_chunkId e \<in> set ids) (em_embeddings st))"

definition listByModel :: "string \<Rightarrow> emb_state \<Rightarrow> embedding_row list" where
  "listByModel model st = newest eb_createdAt (filter (\<lambda>e. eb_modelName e = model) (em_embeddings st))"

definition delete_embeddings :: "(embedding_row \<Rightarrow> bool) \<Rightarrow> emb_state \<Rightarrow> emb_state" where
  "delete_embeddings P st = st\<lparr>em_embeddings := filter (\<lambda>e. \<not> P e) (em_embeddings st)\<rparr>"

definition deleteByChunkId :: "string \<Rightarrow> emb_state \<Rightarrow> emb_state" where
  "deleteByChunkId i = delete_embeddings (\<lambda>e. eb_chunkId e = i)"

definition deleteByChunkIds :: "string list \<Rightarrow> emb_state \<Rightarrow> emb_state" where
  "deleteByChunkIds ids st = (if ids = [] then st else delete_embeddings (\<lambda>e. eb_chunkId e \<in> set ids) st)"

definition deleteByModel :: "string \<Rightarrow> emb_state \<Rightarrow> emb_state" where
  "deleteByModel model = delete_embeddings (\<lambda>e. eb_modelName e = model)"

definition orphaned_embedding :: "emb_state \<Rightarrow> embedding_row \<Rightarrow> bool" where
  "orphaned_embedding st e \<longleftrightarrow> eb_chunkId e \<notin> cw_id ` set (em_chunks st)"

definition countOrphaned :: "emb_state \<Rightarrow> nat" where
  "countOrphaned st = length (filter (orphaned_embedding st) (em_embeddings st))"

definition deleteOrphaned :: "emb_state \<Rightarrow> nat \<times> emb_state" where
  "deleteOrphaned st = (countOrphaned st, delete_embeddings (orphaned_embedding st) st)"

definition countByModel :: "string \<Rightarrow> emb_state \<Rightarrow> nat" where
  "countByModel model st = length (filter (\<lambda>e. eb_modelName e = model) (em_embeddings st))"

section \<open>Telemetry\<close>

definition recordTelemetry :: "emb_env \<Rightarrow> telemetry_event \<Rightarrow> emb_state \<Rightarrow> emb_state" where
  "recordTelemetry E event st =
     st\<lparr>em_telemetry := em_telemetry st @ [Some (event, ev_now E (em_tick st))], em_tick := em_tick st + 1\<rparr>"

definition readTelemetryEvents :: "emb_state \<Rightarrow> (telemetry_event \<times> string) list" where
  "readTelemetryEvents st = List.map_filter id (em_telemetry st)"

record telemetry_summary =
  ts_totalEvents :: nat
  ts_pipeline :: "nat \<times> nat \<times> nat \<times> real \<times> real"
  ts_annBuild :: "nat \<times> real \<times> real"
  ts_search :: "nat \<times> real \<times> real \<times> (search_strategy, nat) js_map"
  ts_unresolvedPaths :: "nat \<times> nat"
  ts_dependencyGraphUnavailable :: nat

definition average :: "real \<Rightarrow> nat \<Rightarrow> real" where
  "average t n = (if 0 < n then t / real n else 0)"

definition count_strategy :: "search_metrics \<Rightarrow> (search_strategy, nat) js_map \<Rightarrow> (search_strategy, nat) js_map" where
  "count_strategy m b = AList.update (sm_strategy m) (nullish (map_of b (sm_strategy m)) 0 + 1) b"

definition summarizeTelemetryFromEvents :: "(telemetry_event \<times> string) list \<Rightarrow> telemetry_summary" where
  "summarizeTelemetryFromEvents events =
     (let pipelineEvents = List.map_filter (\<lambda>(e, _). case e of TePipeline m \<Rightarrow> Some m | _ \<Rightarrow> None) events;
          annEvents = List.map_filter (\<lambda>(e, _). case e of TeAnnBuild m \<Rightarrow> Some m | _ \<Rightarrow> None) events;
          searchEvents = List.map_filter (\<lambda>(e, _). case e of TeSearch m \<Rightarrow> Some m | _ \<Rightarrow> None) events;
          pTotalDur = sum_list (map pm_durationMs pipelineEvents);
          aTotalDur = sum_list (map am_durationMs annEvents);
          sTotalDur = sum_list (map sm_durationMs searchEvents)
      in \<lparr>ts_totalEvents = length events,
          ts_pipeline = (length pipelineEvents, sum_list (map pm_totalTokens pipelineEvents), sum_list (map pm_chunksEmbedded pipelineEvents),
            pTotalDur, average pTotalDur (length pipelineEvents)),
          ts_annBuild = (length annEvents, aTotalDur, average aTotalDur (length annEvents)),
          ts_search = (length searchEvents, sTotalDur, average sTotalDur (length searchEvents), fold count_strategy searchEvents []),
          ts_unresolvedPaths =
            (length (filter (\<lambda>(e, _). case e of TeSemanticPathUnresolved _ _ _ \<Rightarrow> True | _ \<Rightarrow> False) events),
             length (filter (\<lambda>(e, _). case e of TeEvidencePathUnresolved _ _ _ _ \<Rightarrow> True | _ \<Rightarrow> False) events)),
          ts_dependencyGraphUnavailable =
            length (filter (\<lambda>(e, _). case e of TeGraphUnavailable _ \<Rightarrow> True | _ \<Rightarrow> False) events)\<rparr>)"

definition summarizeTelemetry :: "emb_state \<Rightarrow> telemetry_summary" where
  "summarizeTelemetry st = summarizeTelemetryFromEvents (readTelemetryEvents st)"

text \<open>
  A window of times. \<open>parse\<close> is \<^verbatim>\<open>Date.parse\<close>, None for NaN: a bound that does not parse compares false with every time, and
  an empty or missing bound is no bound.
\<close>

record summary_window =
  sw_sinceIso :: "string option"
  sw_untilIso :: "string option"

definition bound_holds :: "(string \<Rightarrow> int option) \<Rightarrow> string option \<Rightarrow> (int \<Rightarrow> bool) \<Rightarrow> bool" where
  "bound_holds parse b test =
     (case b of None \<Rightarrow> True | Some s \<Rightarrow> if s = [] then True else (case parse s of None \<Rightarrow> False | Some t \<Rightarrow> test t))"

definition filterEventsByWindow ::
  "(string \<Rightarrow> int option) \<Rightarrow> summary_window \<Rightarrow> (telemetry_event \<times> string) list \<Rightarrow> (telemetry_event \<times> string) list" where
  "filterEventsByWindow parse w events =
     filter (\<lambda>(_, stamp). case parse stamp of
        None \<Rightarrow> False
      | Some time \<Rightarrow> bound_holds parse (sw_sinceIso w) (\<lambda>s. s \<le> time) \<and> bound_holds parse (sw_untilIso w) (\<lambda>u. time \<le> u)) events"

definition summarizeTelemetryInWindow :: "(string \<Rightarrow> int option) \<Rightarrow> summary_window \<Rightarrow> emb_state \<Rightarrow> telemetry_summary" where
  "summarizeTelemetryInWindow parse w st = summarizeTelemetryFromEvents (filterEventsByWindow parse w (readTelemetryEvents st))"

section \<open>Embedding providers\<close>

record embed_config =
  ec_providerId :: string
  ec_modelName :: string
  ec_apiKeyEnvVar :: string
  ec_baseUrl :: "string option"
  ec_dimensions :: nat
  ec_maxBatchSize :: nat

definition DEFAULT_EMBEDDING_CONFIG :: embed_config where
  "DEFAULT_EMBEDDING_CONFIG =
     \<lparr>ec_providerId = ''openai'', ec_modelName = ''text-embedding-3-small'', ec_apiKeyEnvVar = ''OPENAI_API_KEY'', ec_baseUrl = None,
      ec_dimensions = 1536, ec_maxBatchSize = 96\<rparr>"

text \<open>A provider answers the texts of a request with vectors and the number of tokens used, or throws.\<close>

record embed_provider =
  pv_config :: embed_config
  pv_embed :: "string list \<Rightarrow> string \<Rightarrow> string + real list list \<times> nat"

definition isEmbeddingKeyAvailable :: "emb_env \<Rightarrow> embed_config \<Rightarrow> bool" where
  "isEmbeddingKeyAvailable E c = (case ev_environ E (ec_apiKeyEnvVar c) of None \<Rightarrow> False | Some k \<Rightarrow> k \<noteq> [])"

text \<open>
  The answer of the service is an argument: an HTTP status that is not ok with its body, or the vectors with their indices and the
  number of tokens. It is called with the URL, the key, the model, the texts and the dimensions.
\<close>

type_synonym embed_service =
  "string \<Rightarrow> string \<Rightarrow> string \<Rightarrow> string list \<Rightarrow> nat \<Rightarrow> nat \<times> string + (real list \<times> nat) list \<times> nat"

definition createOpenAIEmbeddingProvider :: "emb_env \<Rightarrow> embed_service \<Rightarrow> embed_config \<Rightarrow> embed_provider" where
  "createOpenAIEmbeddingProvider E service config =
     \<lparr>pv_config = config,
      pv_embed = (\<lambda>texts model.
        case ev_environ E (ec_apiKeyEnvVar config) of
          None \<Rightarrow> Inl (''Missing API key: set '' @ ec_apiKeyEnvVar config @ '' in your environment.'')
        | Some key \<Rightarrow>
            if key = [] then Inl (''Missing API key: set '' @ ec_apiKeyEnvVar config @ '' in your environment.'')
            else
              (case service (nullish (ec_baseUrl config) ''https://api.openai.com/v1'' @ ''/embeddings'') key model texts (ec_dimensions config) of
                 Inl (status, body) \<Rightarrow> Inl (''Embedding API error '' @ show_nat status @ '': '' @ body)
               | Inr (data, totalTokens) \<Rightarrow> Inr (map fst (sort_key snd data), totalTokens)))\<rparr>"

text \<open>
  \<^verbatim>\<open>| 0\<close> makes a number a signed 32-bit integer. Before it the numbers stay below 2 to the 53, so the sums are exact, and the
  arithmetic is that of 32-bit words; \<^verbatim>\<open>>>> 0\<close> reads the word without sign.
\<close>

definition mockSeed :: "string \<Rightarrow> 32 word" where
  "mockSeed text = fold (\<lambda>c seed. push_bit 5 seed - seed + of_nat (of_char c)) text 0"

definition mockStep :: "32 word \<Rightarrow> 32 word" where
  "mockStep seed = seed * 1664525 + 1013904223"

primrec mockValues :: "nat \<Rightarrow> 32 word \<Rightarrow> real list" where
  "mockValues 0 seed = []"
| "mockValues (Suc n) seed = (real (unat (mockStep seed)) / 4294967295 * 2 - 1) # mockValues n (mockStep seed)"

definition mockVector :: "string \<Rightarrow> nat \<Rightarrow> real list" where
  "mockVector text n =
     (let vec = mockValues n (mockSeed text); mag = sqrt (sum_list (map (\<lambda>v. v * v) vec)) in
      if 0 < mag then map (\<lambda>v. v / mag) vec else vec)"

definition createMockEmbeddingProvider :: "embed_config \<Rightarrow> embed_provider" where
  "createMockEmbeddingProvider config =
     \<lparr>pv_config = config,
      pv_embed = (\<lambda>texts model. Inr (map (\<lambda>text. mockVector text (ec_dimensions config)) texts, sum_list (map estimateTokens texts)))\<rparr>"

definition createEmbeddingProvider :: "emb_env \<Rightarrow> embed_service \<Rightarrow> embed_config option \<Rightarrow> embed_provider" where
  "createEmbeddingProvider E service config =
     (let c = nullish config DEFAULT_EMBEDDING_CONFIG in
      if isEmbeddingKeyAvailable E c then createOpenAIEmbeddingProvider E service c else createMockEmbeddingProvider c)"

section \<open>The pipeline\<close>

record pipeline_result =
  pl_chunksStored :: nat
  pl_embeddingsStored :: nat
  pl_skippedDuplicates :: nat
  pl_totalTokens :: nat

definition new_chunk :: "emb_env \<Rightarrow> chunk_input \<Rightarrow> chunk_row" where
  "new_chunk E i =
     \<lparr>cw_id = [], cw_fileId = ck_fileId i, cw_filePath = ck_filePath i, cw_symbolId = ck_symbolId i, cw_lineStart = ck_lineStart i,
      cw_lineEnd = ck_lineEnd i, cw_content = ck_content i, cw_contentHash = ev_hash E (ck_content i),
      cw_tokenEstimate = estimateTokens (ck_content i), cw_language = ck_language i, cw_createdAt = []\<rparr>"

definition persistChunk :: "emb_env \<Rightarrow> chunk_input \<Rightarrow> emb_state \<Rightarrow> chunk_row \<times> emb_state" where
  "persistChunk E i st =
     (case chunks_findByContentHash (ev_hash E (ck_content i)) st of
        Some existing \<Rightarrow> (existing, st)
      | None \<Rightarrow> chunks_save E (new_chunk E i) st)"

fun persistChunks :: "emb_env \<Rightarrow> chunk_input list \<Rightarrow> emb_state \<Rightarrow> chunk_row list \<times> emb_state" where
  "persistChunks E [] st = ([], st)"
| "persistChunks E (i # is) st =
     (let (row, st1) = persistChunk E i st; (rows, st2) = persistChunks E is st1 in (row # rows, st2))"

definition has_embedding :: "string \<Rightarrow> emb_state \<Rightarrow> chunk_row \<Rightarrow> bool" where
  "has_embedding model st c = (case findByChunkId (cw_id c) st of None \<Rightarrow> False | Some e \<Rightarrow> eb_modelName e = model)"

definition new_embedding :: "string \<Rightarrow> chunk_row \<Rightarrow> real list \<Rightarrow> embedding_row" where
  "new_embedding model c v =
     \<lparr>eb_id = [], eb_chunkId = cw_id c, eb_modelName = model, eb_vector = v, eb_vectorDim = length v, eb_createdAt = []\<rparr>"

text \<open>
  The loop over the batches. With a batch size of 0 it asks for an empty batch again and again; the value None is that
  it does not end.
\<close>

function embedBatches ::
  "emb_env \<Rightarrow> embed_provider \<Rightarrow> chunk_row list \<Rightarrow> nat \<times> nat \<Rightarrow> emb_state \<Rightarrow> ((emb_error + nat \<times> nat) \<times> emb_state) option" where
  "embedBatches E p chunks counts st =
     (if chunks = [] then Some (Inr counts, st)
      else
        let size = ec_maxBatchSize (pv_config p); model = ec_modelName (pv_config p); batch = take size chunks in
        (case pv_embed p (map cw_content batch) model of
           Inl e \<Rightarrow> Some (Inl (ProviderError e), st)
         | Inr (vectors, used) \<Rightarrow>
             if length vectors < length batch then Some (Inl MissingVector, st)
             else
               (case embeddings_saveBatch E (map2 (new_embedding model) batch vectors) st of
                  (Inl e, st1) \<Rightarrow> Some (Inl e, st1)
                | (Inr _, st1) \<Rightarrow>
                    if size = 0 then None
                    else embedBatches E p (drop size chunks) (fst counts + used, snd counts + length batch) st1)))"
  by auto
termination by (relation "measure (\<lambda>(E, p, chunks, counts, st). length chunks)") auto

declare embedBatches.simps [simp del]

definition embedAndPersist ::
  "emb_env \<Rightarrow> chunk_row list \<Rightarrow> embed_provider \<Rightarrow> emb_state \<Rightarrow> ((emb_error + pipeline_result) \<times> emb_state) option" where
  "embedAndPersist E chunks p st =
     (let model = ec_modelName (pv_config p);
          toEmbed = filter (\<lambda>c. \<not> has_embedding model st c) chunks;
          skippedDuplicates = length (filter (has_embedding model st) chunks) in
      case embedBatches E p toEmbed (0, 0) st of
        None \<Rightarrow> None
      | Some (Inl e, st1) \<Rightarrow> Some (Inl e, st1)
      | Some (Inr (totalTokens, stored), st1) \<Rightarrow>
          Some (Inr \<lparr>pl_chunksStored = length chunks, pl_embeddingsStored = stored, pl_skippedDuplicates = skippedDuplicates,
                     pl_totalTokens = totalTokens\<rparr>,
            recordTelemetry E (TePipeline
              \<lparr>pm_durationMs = ev_elapsed E (em_tick st1), pm_chunksInput = length chunks, pm_chunksEmbedded = stored,
               pm_chunksSkipped = skippedDuplicates, pm_totalTokens = totalTokens,
               pm_avgTokensPerChunk = (if 0 < stored then real totalTokens / real stored else 0),
               pm_modelName = model, pm_usedMockProvider = (\<not> isEmbeddingKeyAvailable E (pv_config p))\<rparr>) st1))"

text \<open>The index of a model is built from its embeddings and replaces the file of the model.\<close>

definition buildAndWriteHnswIndex :: "emb_env \<Rightarrow> string \<Rightarrow> embedding_row list \<Rightarrow> emb_state \<Rightarrow> (emb_error + unit) \<times> emb_state" where
  "buildAndWriteHnswIndex E model embeddings st =
     (case buildFromEntries distance (ev_coin E) (map (\<lambda>e. (eb_chunkId e, eb_vector e)) embeddings)
             (new_hnsw model DEFAULT_HNSW_CONFIG, em_draw st) of
        None \<Rightarrow> (Inl IndexError, st)
      | Some (idx, draw) \<Rightarrow> (Inr (), st\<lparr>em_hnsw := AList.update model (serialize idx) (em_hnsw st), em_draw := draw\<rparr>))"

definition writeAnnIndex :: "emb_env \<Rightarrow> string \<Rightarrow> embedding_row list \<Rightarrow> emb_state \<Rightarrow> (emb_error + unit) \<times> emb_state" where
  "writeAnnIndex E model embeddings st =
     buildAndWriteHnswIndex E model embeddings
       (st\<lparr>em_flat := AList.update model (map (\<lambda>e. (eb_chunkId e, eb_modelName e, eb_vector e)) embeddings) (em_flat st)\<rparr>)"

definition rebuildAnnIndex :: "emb_env \<Rightarrow> string \<Rightarrow> emb_state \<Rightarrow> (emb_error + unit) \<times> emb_state" where
  "rebuildAnnIndex E model st =
     (let embeddings = listByModel model st in
      case writeAnnIndex E model embeddings st of
        (Inl e, st1) \<Rightarrow> (Inl e, st1)
      | (Inr _, st1) \<Rightarrow>
          (case buildAndWriteHnswIndex E model embeddings st1 of
             (Inl e, st2) \<Rightarrow> (Inl e, st2)
           | (Inr _, st2) \<Rightarrow>
               (Inr (), recordTelemetry E (TeAnnBuild
                  \<lparr>am_durationMs = ev_elapsed E (em_tick st2), am_vectorCount = length embeddings, am_modelName = model\<rparr>) st2)))"

definition then_rebuild ::
  "emb_env \<Rightarrow> embed_provider \<Rightarrow> ((emb_error + pipeline_result) \<times> emb_state) option \<Rightarrow> ((emb_error + pipeline_result) \<times> emb_state) option" where
  "then_rebuild E p r =
     (case r of
        None \<Rightarrow> None
      | Some (Inl e, st) \<Rightarrow> Some (Inl e, st)
      | Some (Inr result, st) \<Rightarrow>
          (case rebuildAnnIndex E (ec_modelName (pv_config p)) st of
             (Inl e, st1) \<Rightarrow> Some (Inl e, st1)
           | (Inr _, st1) \<Rightarrow> Some (Inr result, st1)))"

definition runEmbeddingPipeline ::
  "emb_env \<Rightarrow> chunk_input list \<Rightarrow> embed_provider \<Rightarrow> emb_state \<Rightarrow> ((emb_error + pipeline_result) \<times> emb_state) option" where
  "runEmbeddingPipeline E inputs p st =
     (let (storedChunks, st1) = persistChunks E inputs st in then_rebuild E p (embedAndPersist E storedChunks p st1))"

text \<open>The result of a refresh has, besides that of the pipeline, the number of chunks that were deleted, twice.\<close>

definition refreshFileChunks ::
  "emb_env \<Rightarrow> string \<Rightarrow> chunk_input list \<Rightarrow> embed_provider \<Rightarrow> emb_state
   \<Rightarrow> ((emb_error + pipeline_result \<times> nat \<times> nat) \<times> emb_state) option" where
  "refreshFileChunks E fileId inputs p st =
     (let ids = findIdsByFileId fileId st in
      case chunks_deleteByFileId fileId (deleteByChunkIds ids st) of
        (Inl e, st1) \<Rightarrow> Some (Inl e, st1)
      | (Inr _, st1) \<Rightarrow>
          (case runEmbeddingPipeline E inputs p st1 of
             None \<Rightarrow> None
           | Some (Inl e, st2) \<Rightarrow> Some (Inl e, st2)
           | Some (Inr result, st2) \<Rightarrow> Some (Inr (result, length ids, length ids), st2)))"

definition reembedAllChunks ::
  "emb_env \<Rightarrow> embed_provider \<Rightarrow> string option \<Rightarrow> emb_state \<Rightarrow> ((emb_error + pipeline_result) \<times> emb_state) option" where
  "reembedAllChunks E p oldModelName st =
     (let st1 = (case oldModelName of None \<Rightarrow> st | Some m \<Rightarrow> if m = [] then st else deleteByModel m st);
          st2 = snd (deleteOrphaned st1) in
      then_rebuild E p (embedAndPersist E (chunks_listAll st2) p st2))"

section \<open>Search\<close>

record search_result =
  sr_chunkId :: string
  sr_fileId :: string
  sr_filePath :: string
  sr_symbolId :: "string option"
  sr_lineStart :: int
  sr_lineEnd :: int
  sr_content :: string
  sr_similarity :: real
  sr_language :: string

record search_options =
  so_topK :: "nat option"
  so_minSimilarity :: "real option"
  so_modelName :: "string option"

definition linearScan :: "real list \<Rightarrow> (string \<times> real list) list \<Rightarrow> nat \<Rightarrow> real \<Rightarrow> (string \<times> real) list" where
  "linearScan q embeddings topK minSim =
     take topK (sort_key (\<lambda>h. - snd h)
       (filter (\<lambda>h. minSim \<le> snd h) (map (\<lambda>(chunkId, v). (chunkId, cosineSimilarity q v)) embeddings)))"

definition resolve_hit :: "emb_state \<Rightarrow> string \<times> real \<Rightarrow> search_result option" where
  "resolve_hit st h =
     map_option (\<lambda>c. \<lparr>sr_chunkId = cw_id c, sr_fileId = cw_fileId c, sr_filePath = cw_filePath c, sr_symbolId = cw_symbolId c,
         sr_lineStart = cw_lineStart c, sr_lineEnd = cw_lineEnd c, sr_content = cw_content c, sr_similarity = snd h,
         sr_language = cw_language c\<rparr>)
       (chunks_findById (fst h) st)"

definition resolveChunks :: "emb_state \<Rightarrow> (string \<times> real) list \<Rightarrow> search_result list" where
  "resolveChunks st hits = List.map_filter (resolve_hit st) hits"

definition log_search ::
  "emb_env \<Rightarrow> search_strategy \<Rightarrow> search_result list \<Rightarrow> nat \<Rightarrow> real \<Rightarrow> string \<Rightarrow> emb_state \<Rightarrow> (emb_error + search_result list) \<times> emb_state" where
  "log_search E strategy results topK minSim model st =
     (Inr results, recordTelemetry E (TeSearch
        \<lparr>sm_durationMs = ev_elapsed E (em_tick st), sm_strategy = strategy, sm_resultCount = length results, sm_topK = topK,
         sm_minSimilarity = minSim, sm_modelName = model\<rparr>) st)"

definition semanticSearch ::
  "emb_env \<Rightarrow> string \<Rightarrow> search_options \<Rightarrow> embed_provider \<Rightarrow> emb_state \<Rightarrow> (emb_error + search_result list) \<times> emb_state" where
  "semanticSearch E query options p st =
     (let topK = nullish (so_topK options) 10; minSim = nullish (so_minSimilarity options) (1 / 4);
          model = nullish (so_modelName options) (ec_modelName (pv_config p)) in
      case pv_embed p [query] model of
        Inl e \<Rightarrow> (Inl (ProviderError e), st)
      | Inr ([], _) \<Rightarrow> (Inr [], st)
      | Inr (queryVector # _, _) \<Rightarrow>
          if queryVector = [] then (Inr [], st)
          else
            let flatScan =
              (let flat = (case map_of (em_flat st) model of None \<Rightarrow> [] | Some entries \<Rightarrow> map (\<lambda>(chunkId, _, v). (chunkId, v)) entries);
                   (strategy, allEmbeddings) =
                     (if flat \<noteq> [] then (StratFlatCache, flat)
                      else (StratDbScan, map (\<lambda>e. (eb_chunkId e, eb_vector e)) (listByModel model st)))
               in if allEmbeddings = [] then (Inr [], st)
                  else log_search E strategy (resolveChunks st (linearScan queryVector allEmbeddings topK minSim)) topK minSim model st)
            in
            (case readHnswIndex (map_of (em_hnsw st) model) of
               None \<Rightarrow> flatScan
             | Some idx \<Rightarrow>
                 if hn_nodes idx = [] then flatScan
                 else
                   (case search_index distance queryVector topK None idx of
                      None \<Rightarrow> (Inl IndexError, st)
                    | Some hits \<Rightarrow>
                        log_search E StratHnsw (resolveChunks st (filter (\<lambda>h. minSim \<le> snd h) hits)) topK minSim model st)))"

end
