(* ===== verification/EmbeddingPipeline.thy ===== *)
theory EmbeddingPipeline
  imports EmbeddingStore
begin

text \<open>
  What the embedding pipeline keeps and stores, and what a search over its index returns.
\<close>

section \<open>The invariant of the store\<close>

text \<open>
  Ids and content hashes of chunks are unique, a hash is that of the content, every embedding belongs to a stored chunk and
  records the length of its vector; and the ids that are still to be drawn are new.
\<close>

definition wf_emb :: "emb_env \<Rightarrow> emb_state \<Rightarrow> bool" where
  "wf_emb E st \<longleftrightarrow> distinct (map cw_id (em_chunks st)) \<and> distinct (map cw_contentHash (em_chunks st))
     \<and> (\<forall>c \<in> set (em_chunks st). cw_contentHash c = ev_hash E (cw_content c))
     \<and> distinct (map eb_id (em_embeddings st))
     \<and> (\<forall>e \<in> set (em_embeddings st). eb_chunkId e \<in> cw_id ` set (em_chunks st) \<and> eb_vectorDim e = length (eb_vector e))"

definition fresh_row_ids :: "emb_env \<Rightarrow> emb_state \<Rightarrow> bool" where
  "fresh_row_ids E st \<longleftrightarrow> inj_on (ev_id E ''chunk'') {em_tick st..} \<and> inj_on (ev_id E ''emb'') {em_tick st..}
     \<and> (\<forall>n \<ge> em_tick st. ev_id E ''chunk'' n \<notin> cw_id ` set (em_chunks st) \<and> ev_id E ''emb'' n \<notin> eb_id ` set (em_embeddings st))"

definition good_store :: "emb_env \<Rightarrow> emb_state \<Rightarrow> bool" where
  "good_store E st \<longleftrightarrow> wf_emb E st \<and> fresh_row_ids E st"

lemma fresh_row_ids_later:
  "fresh_row_ids E st \<Longrightarrow> em_tick st \<le> em_tick st' \<Longrightarrow> em_chunks st' = em_chunks st \<Longrightarrow> em_embeddings st' = em_embeddings st \<Longrightarrow> fresh_row_ids E st'"
  unfolding fresh_row_ids_def by (auto elim!: inj_on_subset)

lemma good_store_later:
  "good_store E st \<Longrightarrow> em_tick st \<le> em_tick st' \<Longrightarrow> em_chunks st' = em_chunks st \<Longrightarrow> em_embeddings st' = em_embeddings st \<Longrightarrow> good_store E st'"
  using fresh_row_ids_later [of E st st'] by (simp add: good_store_def wf_emb_def)

lemma find_by_id:
  assumes "distinct (map f xs)" and "x \<in> set xs"
  shows "List.find (\<lambda>y. f y = f x) xs = Some x"
  using assms by (induction xs) (auto simp: image_iff)

lemma find_none: "List.find P xs = None \<longleftrightarrow> (\<forall>x \<in> set xs. \<not> P x)"
  by (auto simp: find_None_iff)

lemma find_someD: "List.find P xs = Some x \<Longrightarrow> x \<in> set xs \<and> P x"
  by (auto simp: find_Some_iff)

lemma list_ex_key: "list_ex (\<lambda>q. f q = k) xs \<longleftrightarrow> k \<in> f ` set xs"
  by (auto simp: list_ex_iff)

section \<open>Chunks\<close>

lemma save_chunk_good:
  assumes g: "good_store E st" and h: "chunks_findByContentHash (ev_hash E (ck_content i)) st = None"
    and s: "chunks_save E (new_chunk E i) st = (row, st')"
  shows "good_store E st'" and "em_chunks st' = em_chunks st @ [row]" and "em_embeddings st' = em_embeddings st"
    and "cw_contentHash row = ev_hash E (ck_content i)" and "em_flat st' = em_flat st" and "em_hnsw st' = em_hnsw st"
proof -
  have new: "ev_id E ''chunk'' (em_tick st) \<notin> cw_id ` set (em_chunks st)" using g by (simp add: good_store_def fresh_row_ids_def)
  then have ins: "chunk_insert r (em_chunks st) = em_chunks st @ [r]" if "cw_id r = ev_id E ''chunk'' (em_tick st)" for r
    using that by (simp add: chunk_insert_def list_ex_key)
  have r: "row = (new_chunk E i)\<lparr>cw_id := ev_id E ''chunk'' (em_tick st), cw_createdAt := ev_now E (em_tick st)\<rparr>"
    "st' = st\<lparr>em_chunks := em_chunks st @ [row], em_tick := em_tick st + 1\<rparr>"
    using s ins by (auto simp: chunks_save_def Let_def)
  have later: "ev_id E ''chunk'' n \<noteq> ev_id E ''chunk'' (em_tick st)" if "em_tick st < n" for n
    using g that unfolding good_store_def fresh_row_ids_def by (metis atLeast_iff inj_onD less_imp_le less_irrefl order_refl)
  have "fresh_row_ids E st'"
    using g later unfolding r(2) good_store_def fresh_row_ids_def by (auto simp: r(1) elim!: inj_on_subset)
  moreover have "wf_emb E st'"
    using g new h unfolding r(2) good_store_def wf_emb_def
    by (auto simp: r(1) new_chunk_def chunks_findByContentHash_def find_none)
  ultimately show "good_store E st'" by (simp add: good_store_def)
  show "em_chunks st' = em_chunks st @ [row]" "em_embeddings st' = em_embeddings st" "cw_contentHash row = ev_hash E (ck_content i)"
    "em_flat st' = em_flat st" "em_hnsw st' = em_hnsw st"
    by (simp_all add: r new_chunk_def)
qed

lemma persistChunk_good:
  assumes "good_store E st" and "persistChunk E i st = (row, st')"
  shows "good_store E st' \<and> (\<exists>new. em_chunks st' = em_chunks st @ new) \<and> em_embeddings st' = em_embeddings st
    \<and> row \<in> set (em_chunks st') \<and> cw_contentHash row = ev_hash E (ck_content i)"
proof (cases "chunks_findByContentHash (ev_hash E (ck_content i)) st")
  case None
  with assms(2) have "chunks_save E (new_chunk E i) st = (row, st')" by (simp add: persistChunk_def)
  from save_chunk_good [OF assms(1) None this] show ?thesis by simp
next
  case (Some c)
  then show ?thesis using assms find_someD [OF Some [unfolded chunks_findByContentHash_def]] by (simp add: persistChunk_def)
qed

lemma persistChunks_good:
  assumes "good_store E st" and "persistChunks E is st = (rows, st')"
  shows "good_store E st' \<and> (\<exists>new. em_chunks st' = em_chunks st @ new) \<and> em_embeddings st' = em_embeddings st
    \<and> set rows \<subseteq> set (em_chunks st') \<and> map cw_contentHash rows = map (\<lambda>i. ev_hash E (ck_content i)) is"
  using assms
proof (induction "is" arbitrary: st rows)
  case (Cons i "is")
  obtain row st1 where p: "persistChunk E i st = (row, st1)" by fastforce
  obtain rows' where ps: "persistChunks E is st1 = (rows', st')" "rows = row # rows'"
    using Cons.prems(2) p by (auto split: prod.splits)
  note a = persistChunk_good [OF Cons.prems(1) p]
  show ?case using Cons.IH [OF conjunct1 [OF a] ps(1)] a ps(2) by fastforce
qed simp

text \<open>A stored content is found again, so persisting the same inputs a second time stores nothing.\<close>

lemma persisted_again:
  assumes "good_store E st" and "\<And>i. i \<in> set is \<Longrightarrow> ev_hash E (ck_content i) \<in> cw_contentHash ` set (em_chunks st)"
  shows "snd (persistChunks E is st) = st"
  using assms
proof (induction "is")
  case (Cons i "is")
  from Cons.prems(2) [of i] obtain c where "chunks_findByContentHash (ev_hash E (ck_content i)) st = Some c"
    by (cases "chunks_findByContentHash (ev_hash E (ck_content i)) st") (auto simp: chunks_findByContentHash_def find_none)
  then show ?case using Cons by (cases "persistChunks E is st") (simp add: persistChunk_def)
qed simp

section \<open>Embeddings\<close>

lemma insert_embedding_good:
  fixes now :: string
  assumes g: "good_store E st" and c: "eb_chunkId input \<in> cw_id ` set (em_chunks st)" and d: "eb_vectorDim input = length (eb_vector input)"
  defines "row \<equiv> input\<lparr>eb_id := ev_id E ''emb'' (em_tick st), eb_createdAt := now\<rparr>"
  defines "st' \<equiv> st\<lparr>em_embeddings := em_embeddings st @ [row], em_tick := em_tick st + 1\<rparr>"
  shows "insert_embedding row (st\<lparr>em_tick := em_tick st + 1\<rparr>) = (Inr (), st')" and "good_store E st'"
proof -
  have new: "ev_id E ''emb'' (em_tick st) \<notin> eb_id ` set (em_embeddings st)" using g by (simp add: good_store_def fresh_row_ids_def)
  then have "embedding_insert row (em_embeddings st) = em_embeddings st @ [row]"
    by (simp add: embedding_insert_def list_ex_key row_def)
  moreover have "chunks_findById (eb_chunkId row) (st\<lparr>em_tick := em_tick st + 1\<rparr>) \<noteq> None"
    using c by (auto simp: chunks_findById_def find_none row_def)
  ultimately show "insert_embedding row (st\<lparr>em_tick := em_tick st + 1\<rparr>) = (Inr (), st')"
    by (simp add: insert_embedding_def st'_def)
  have later: "ev_id E ''emb'' n \<noteq> ev_id E ''emb'' (em_tick st)" if "em_tick st < n" for n
    using g that unfolding good_store_def fresh_row_ids_def by (metis atLeast_iff inj_onD less_imp_le less_irrefl order_refl)
  have "fresh_row_ids E st'"
    using g later unfolding st'_def good_store_def fresh_row_ids_def by (auto simp: row_def elim!: inj_on_subset)
  moreover have "wf_emb E st'"
    using g new c d unfolding st'_def good_store_def wf_emb_def by (auto simp: row_def)
  ultimately show "good_store E st'" by (simp add: good_store_def)
qed

lemma saveAll_good:
  assumes "good_store E st" and "\<And>r. r \<in> set inputs \<Longrightarrow> eb_chunkId r \<in> cw_id ` set (em_chunks st) \<and> eb_vectorDim r = length (eb_vector r)"
  shows "\<exists>rows st'. embeddings_saveAll E now inputs st = (Inr rows, st') \<and> good_store E st' \<and> em_chunks st' = em_chunks st
    \<and> em_embeddings st' = em_embeddings st @ rows
    \<and> map (\<lambda>r. (eb_chunkId r, eb_modelName r, eb_vector r)) rows = map (\<lambda>r. (eb_chunkId r, eb_modelName r, eb_vector r)) inputs"
  using assms
proof (induction inputs arbitrary: st)
  case (Cons r inputs)
  let ?row = "r\<lparr>eb_id := ev_id E ''emb'' (em_tick st), eb_createdAt := now\<rparr>"
  let ?st = "st\<lparr>em_embeddings := em_embeddings st @ [?row], em_tick := em_tick st + 1\<rparr>"
  have c: "eb_chunkId r \<in> cw_id ` set (em_chunks st)" "eb_vectorDim r = length (eb_vector r)" using Cons.prems(2) [of r] by simp_all
  note ins = insert_embedding_good [OF Cons.prems(1) c, where now = now]
  obtain rows st' where "embeddings_saveAll E now inputs ?st = (Inr rows, st')" "good_store E st'" "em_chunks st' = em_chunks st"
    "em_embeddings st' = em_embeddings ?st @ rows"
    "map (\<lambda>r. (eb_chunkId r, eb_modelName r, eb_vector r)) rows = map (\<lambda>r. (eb_chunkId r, eb_modelName r, eb_vector r)) inputs"
    using Cons.IH [OF ins(2)] Cons.prems(2) by auto
  then show ?case using ins(1) by (intro exI [of _ "?row # rows"] exI [of _ st']) (simp add: Let_def)
qed simp

lemma saveBatch_good:
  assumes "good_store E st" and "\<And>r. r \<in> set inputs \<Longrightarrow> eb_chunkId r \<in> cw_id ` set (em_chunks st) \<and> eb_vectorDim r = length (eb_vector r)"
  shows "\<exists>rows st'. embeddings_saveBatch E inputs st = (Inr rows, st') \<and> good_store E st' \<and> em_chunks st' = em_chunks st
    \<and> em_embeddings st' = em_embeddings st @ rows
    \<and> map (\<lambda>r. (eb_chunkId r, eb_modelName r, eb_vector r)) rows = map (\<lambda>r. (eb_chunkId r, eb_modelName r, eb_vector r)) inputs"
  using saveAll_good [of E "st\<lparr>em_tick := em_tick st + 1\<rparr>" inputs "ev_now E (em_tick st)"]
    good_store_later [OF assms(1), of "st\<lparr>em_tick := em_tick st + 1\<rparr>"] assms(2) by (simp add: embeddings_saveBatch_def)

section \<open>A provider that answers\<close>

text \<open>
  What the pipeline needs of a provider: a vector for each text, and batches that are not empty. The mock provider is one.
\<close>

locale total_provider =
  fixes p :: embed_provider
  assumes answers: "\<exists>vectors used. pv_embed p texts model = Inr (vectors, used) \<and> length vectors = length texts"
    and batch_pos: "0 < ec_maxBatchSize (pv_config p)"
begin

lemma batches_good:
  assumes "good_store E st" and "set chunks \<subseteq> set (em_chunks st)"
  shows "\<exists>tokens st' new. embedBatches E p chunks (t, n) st = Some (Inr (tokens, n + length chunks), st') \<and> good_store E st'
    \<and> em_chunks st' = em_chunks st \<and> em_embeddings st' = em_embeddings st @ new
    \<and> map eb_chunkId new = map cw_id chunks \<and> (\<forall>e \<in> set new. eb_modelName e = ec_modelName (pv_config p))"
  using assms
proof (induction "length chunks" arbitrary: chunks t n st rule: less_induct)
  case less
  show ?case
  proof (cases "chunks = []")
    case True
    then show ?thesis using less.prems(1) by (simp add: embedBatches.simps)
  next
    case False
    let ?size = "ec_maxBatchSize (pv_config p)" and ?m = "ec_modelName (pv_config p)"
    let ?batch = "take ?size chunks"
    obtain vs used where v: "pv_embed p (map cw_content ?batch) ?m = Inr (vs, used)" "length vs = length ?batch"
      using answers [of "map cw_content ?batch" ?m] by auto
    let ?inputs = "map2 (new_embedding ?m) ?batch vs"
    have "eb_chunkId r \<in> cw_id ` set (em_chunks st) \<and> eb_vectorDim r = length (eb_vector r)" if "r \<in> set ?inputs" for r
    proof -
      obtain c w where "r = new_embedding ?m c w" "c \<in> set ?batch" using \<open>r \<in> set ?inputs\<close> by (auto dest: set_zip_leftD)
      then show ?thesis using less.prems(2) by (auto simp: new_embedding_def dest: in_set_takeD)
    qed
    from saveBatch_good [OF less.prems(1) this] obtain rows st1 where s: "embeddings_saveBatch E ?inputs st = (Inr rows, st1)"
      "good_store E st1" "em_chunks st1 = em_chunks st" "em_embeddings st1 = em_embeddings st @ rows"
      "map (\<lambda>r. (eb_chunkId r, eb_modelName r, eb_vector r)) rows = map (\<lambda>r. (eb_chunkId r, eb_modelName r, eb_vector r)) ?inputs"
      by blast
    have f: "map fst (map (\<lambda>r. (eb_chunkId r, eb_modelName r, eb_vector r)) ?inputs) = map cw_id ?batch"
      "set (map (fst \<circ> snd) (map (\<lambda>r. (eb_chunkId r, eb_modelName r, eb_vector r)) ?inputs)) \<subseteq> {?m}"
      using v(2) by (auto simp: new_embedding_def comp_def case_prod_unfold map_fst_zip simp flip: map_map [of cw_id fst, unfolded comp_def])
    have rows: "map eb_chunkId rows = map cw_id ?batch" "\<forall>e \<in> set rows. eb_modelName e = ?m"
      using f unfolding s(5) [symmetric] by (auto simp: comp_def)
    have "set (drop ?size chunks) \<subseteq> set (em_chunks st1)" using less.prems(2) s(3) by (auto dest: in_set_dropD)
    from less.hyps [OF _ s(2) this, of "t + used" "n + length ?batch"] obtain tokens st' new where
      r: "embedBatches E p (drop ?size chunks) (t + used, n + length ?batch) st1
          = Some (Inr (tokens, n + length ?batch + length (drop ?size chunks)), st')" "good_store E st'"
        "em_chunks st' = em_chunks st1" "em_embeddings st' = em_embeddings st1 @ new"
        "map eb_chunkId new = map cw_id (drop ?size chunks)" "\<forall>e \<in> set new. eb_modelName e = ?m"
      using False batch_pos by auto
    have "length ?batch + length (drop ?size chunks) = length chunks" by simp
    then have "embedBatches E p chunks (t, n) st = Some (Inr (tokens, n + length chunks), st')"
      using False v s(1) r(1) batch_pos by (subst embedBatches.simps) (simp add: Let_def add.assoc)
    moreover have "map cw_id ?batch @ map cw_id (drop ?size chunks) = map cw_id chunks" by (simp flip: map_append)
    ultimately show ?thesis using r s rows by (intro exI [of _ tokens] exI [of _ st'] exI [of _ "rows @ new"]) auto
  qed
qed

lemma embed_good:
  fixes E chunks st
  defines "m \<equiv> ec_modelName (pv_config p)"
  assumes "good_store E st" and "set chunks \<subseteq> set (em_chunks st)"
  shows "\<exists>r st' new. embedAndPersist E chunks p st = Some (Inr r, st') \<and> good_store E st' \<and> em_chunks st' = em_chunks st
    \<and> em_embeddings st' = em_embeddings st @ new \<and> map eb_chunkId new = map cw_id (filter (\<lambda>c. \<not> has_embedding m st c) chunks)
    \<and> (\<forall>e \<in> set new. eb_modelName e = m) \<and> pl_chunksStored r = length chunks \<and> pl_embeddingsStored r = length new
    \<and> pl_skippedDuplicates r = length (filter (has_embedding m st) chunks)"
proof -
  let ?todo = "filter (\<lambda>c. \<not> has_embedding m st c) chunks"
  have "set ?todo \<subseteq> set (em_chunks st)" using assms(3) by auto
  from batches_good [OF assms(2) this, of 0 0] obtain tokens st1 new where
    b: "embedBatches E p ?todo (0, 0) st = Some (Inr (tokens, length ?todo), st1)" "good_store E st1" "em_chunks st1 = em_chunks st"
      "em_embeddings st1 = em_embeddings st @ new" "map eb_chunkId new = map cw_id ?todo" "\<forall>e \<in> set new. eb_modelName e = m"
    unfolding m_def by auto
  have len: "length new = length ?todo" using arg_cong [OF b(5), of length] by simp
  show ?thesis
    using b len good_store_later [OF b(2)]
    by (simp add: embedAndPersist_def m_def [symmetric] Let_def recordTelemetry_def)
qed

end

text \<open>The mock provider answers every request.\<close>

interpretation mock: total_provider "createMockEmbeddingProvider (c\<lparr>ec_maxBatchSize := Suc n\<rparr>)"
  for c n
  by unfold_locales (simp_all add: createMockEmbeddingProvider_def)

section \<open>The index\<close>

definition node_entries :: "'e ann_nodes \<Rightarrow> (string \<times> 'e list) list" where
  "node_entries nodes = map (\<lambda>(i, n). (an_chunkId n, an_vector n)) nodes"

lemma node_entries_update:
  assumes "map_of nodes k = Some n" and "an_chunkId n' = an_chunkId n" and "an_vector n' = an_vector n"
  shows "node_entries (AList.update k n' nodes) = node_entries nodes"
  using assms by (induction nodes) (auto simp: node_entries_def split: if_splits)

lemma linkNeighbor_entries: "linkNeighbor metric m i lc j nodes = Some nodes' \<Longrightarrow> node_entries nodes' = node_entries nodes"
  by (auto simp: linkNeighbor_def Let_def intro!: node_entries_update split: option.splits if_splits)

lemma linkAll_entries: "linkAll metric m i lc js nodes = Some nodes' \<Longrightarrow> node_entries nodes' = node_entries nodes"
  by (induction js arbitrary: nodes) (auto simp: bind_eq_Some_conv dest: linkNeighbor_entries)

lemma insertLayer_entries: "insertLayer metric cfg i q lc (e, nodes) = Some (e', nodes') \<Longrightarrow> node_entries nodes' = node_entries nodes"
  by (auto simp: insertLayer_def Let_def dest!: linkAll_entries intro!: node_entries_update split: option.splits if_splits)

lemma insertLayers_entries: "insertLayers metric cfg i q lc (e, nodes) = Some (e', nodes') \<Longrightarrow> node_entries nodes' = node_entries nodes"
proof (induction lc arbitrary: e nodes)
  case 0
  then show ?case using insertLayer_entries by simp
next
  case (Suc lc)
  then obtain e1 nodes1 where "insertLayer metric cfg i q (Suc lc) (e, nodes) = Some (e1, nodes1)"
    "insertLayers metric cfg i q lc (e1, nodes1) = Some (e', nodes')"
    by (auto simp: bind_eq_Some_conv)
  then show ?case using Suc.IH insertLayer_entries by metis
qed

lemma insertOne_entries:
  assumes "wf_index idx" and "v \<noteq> []" and "insertOne metric coin c v (idx, draw) = Some (idx', draw')"
  shows "node_entries (hn_nodes idx') = node_entries (hn_nodes idx) @ [(c, v)]"
proof -
  let ?node = "\<lambda>l. \<lparr>an_chunkId = c, an_vector = v, an_neighbors = replicate (Suc l) []\<rparr>"
  have "map_of (hn_nodes idx) (hn_nextId idx) = None"
    using assms(1) numbered_keys(2) [of "hn_nodes idx"] by (simp add: wf_index_def)
  then have "node_entries (AList.update (hn_nextId idx) (?node l) (hn_nodes idx)) = node_entries (hn_nodes idx) @ [(c, v)]" for l
    by (simp add: update_new node_entries_def)
  then show ?thesis
    using assms(2,3) by (auto simp: insertOne_def Let_def dest!: insertLayers_entries split: prod.splits if_splits)
qed

lemma build_entries:
  "wf_index idx \<Longrightarrow> buildFromEntries metric coin es (idx, draw) = Some (idx', draw') \<Longrightarrow>
   node_entries (hn_nodes idx') = node_entries (hn_nodes idx) @ filter (\<lambda>e. snd e \<noteq> []) es"
proof (induction es arbitrary: idx draw)
  case (Cons e es)
  obtain c v where e: "e = (c, v)" by fastforce
  show ?case
  proof (cases "v = []")
    case True
    then show ?thesis using Cons by (simp add: e insertOne_def)
  next
    case False
    obtain idx1 d1 where i: "insertOne metric coin c v (idx, draw) = Some (idx1, d1)" "wf_index idx1"
      using insertOne_wf [OF Cons.prems(1) False] by blast
    then have "buildFromEntries metric coin es (idx1, d1) = Some (idx', draw')" using Cons.prems(2) by (simp add: e)
    from Cons.IH [OF i(2) this] insertOne_entries [OF Cons.prems(1) False i(1)] False show ?thesis by (simp add: e)
  qed
qed simp

text \<open>What rebuilding leaves in the caches of the model.\<close>

definition index_over :: "string \<Rightarrow> embedding_row list \<Rightarrow> real hnsw \<Rightarrow> bool" where
  "index_over model rows idx \<longleftrightarrow> wf_index idx \<and> node_entries (hn_nodes idx) = filter (\<lambda>e. snd e \<noteq> []) (map (\<lambda>e. (eb_chunkId e, eb_vector e)) rows)
     \<and> hn_config idx = DEFAULT_HNSW_CONFIG \<and> hn_modelName idx = model"

lemma buildAndWrite_ok:
  "\<exists>idx st'. buildAndWriteHnswIndex E model rows st = (Inr (), st') \<and> index_over model rows idx
     \<and> em_hnsw st' = AList.update model (serialize idx) (em_hnsw st)
     \<and> em_chunks st' = em_chunks st \<and> em_embeddings st' = em_embeddings st \<and> em_flat st' = em_flat st \<and> em_tick st' = em_tick st"
proof -
  let ?es = "map (\<lambda>e. (eb_chunkId e, eb_vector e)) rows"
  let ?new = "new_hnsw model DEFAULT_HNSW_CONFIG"
  obtain idx draw where b: "buildFromEntries distance (ev_coin E) ?es (?new, em_draw st) = Some (idx, draw)"
    "wf_index idx" "hn_config idx = DEFAULT_HNSW_CONFIG" "hn_modelName idx = model"
    using build_wf [OF new_hnsw_wf [of model DEFAULT_HNSW_CONFIG], of distance "ev_coin E" ?es "em_draw st"] by (auto simp: new_hnsw_def)
  have "node_entries (hn_nodes idx) = filter (\<lambda>e. snd e \<noteq> []) ?es"
    using build_entries [OF new_hnsw_wf b(1)] by (simp add: new_hnsw_def node_entries_def)
  then show ?thesis using b by (intro exI [of _ idx]) (simp add: buildAndWriteHnswIndex_def index_over_def)
qed

lemma rebuild_ok:
  "\<exists>idx st'. rebuildAnnIndex E model st = (Inr (), st') \<and> index_over model (listByModel model st) idx
     \<and> map_of (em_hnsw st') model = Some (serialize idx)
     \<and> map_of (em_flat st') model = Some (map (\<lambda>e. (eb_chunkId e, eb_modelName e, eb_vector e)) (listByModel model st))
     \<and> em_chunks st' = em_chunks st \<and> em_embeddings st' = em_embeddings st \<and> em_tick st \<le> em_tick st'"
proof -
  let ?rows = "listByModel model st"
  let ?st = "st\<lparr>em_flat := AList.update model (map (\<lambda>e. (eb_chunkId e, eb_modelName e, eb_vector e)) ?rows) (em_flat st)\<rparr>"
  obtain st1 where a: "buildAndWriteHnswIndex E model ?rows ?st = (Inr (), st1)" "em_chunks st1 = em_chunks st"
    "em_embeddings st1 = em_embeddings st" "em_flat st1 = em_flat ?st" "em_tick st1 = em_tick st"
    using buildAndWrite_ok [of E model ?rows ?st] by auto
  obtain idx st2 where "buildAndWriteHnswIndex E model ?rows st1 = (Inr (), st2)" "index_over model ?rows idx"
    "em_hnsw st2 = AList.update model (serialize idx) (em_hnsw st1)" "em_chunks st2 = em_chunks st1" "em_embeddings st2 = em_embeddings st1"
    "em_flat st2 = em_flat st1" "em_tick st2 = em_tick st1"
    using buildAndWrite_ok [of E model ?rows st1] by blast
  then show ?thesis using a
    by (intro exI [of _ idx]) (simp add: rebuildAnnIndex_def writeAnnIndex_def Let_def recordTelemetry_def update_conv')
qed

lemma index_reads_back:
  assumes "index_over model rows idx"
  shows "readHnswIndex (Some (serialize idx)) = Some idx"
proof -
  have b: "wf_index idx" "hn_config idx = DEFAULT_HNSW_CONFIG" using assms by (simp_all add: index_over_def)
  then have "map fst ([] @ hn_nodes idx) = map int [0 ..< length ([] @ hn_nodes idx)]" "hn_nextId idx = int (length (hn_nodes idx))"
    by (simp_all add: wf_index_def)
  note l = load_nodes [OF this(1)] and n = this(2)
  show ?thesis
    using b(2) n by (simp add: readHnswIndex_def serialize_def deserialize_def l new_hnsw_def DEFAULT_HNSW_CONFIG_def)
qed

section \<open>A run of the pipeline\<close>

definition embedded_for :: "string \<Rightarrow> emb_state \<Rightarrow> chunk_row \<Rightarrow> bool" where
  "embedded_for model st c \<longleftrightarrow> (\<exists>e \<in> set (em_embeddings st). eb_chunkId e = cw_id c \<and> eb_modelName e = model)"

lemma has_embedding_row: "has_embedding model st c \<Longrightarrow> embedded_for model st c"
  by (auto simp: has_embedding_def findByChunkId_def embedded_for_def dest!: find_someD split: option.splits)

context total_provider
begin

lemma pipeline_good:
  fixes E st inputs
  defines "m \<equiv> ec_modelName (pv_config p)"
  assumes "good_store E st"
  shows "\<exists>r st' rows newChunks new idx. runEmbeddingPipeline E inputs p st = Some (Inr r, st') \<and> good_store E st'
    \<and> em_chunks st' = em_chunks st @ newChunks \<and> em_embeddings st' = em_embeddings st @ new
    \<and> set rows \<subseteq> set (em_chunks st') \<and> map cw_contentHash rows = map (\<lambda>i. ev_hash E (ck_content i)) inputs
    \<and> (\<forall>c \<in> set rows. embedded_for m st' c) \<and> (\<forall>e \<in> set new. eb_modelName e = m)
    \<and> pl_embeddingsStored r = length new \<and> pl_embeddingsStored r + pl_skippedDuplicates r = length inputs
    \<and> index_over m (listByModel m st') idx \<and> map_of (em_hnsw st') m = Some (serialize idx)
    \<and> map_of (em_flat st') m = Some (map (\<lambda>e. (eb_chunkId e, eb_modelName e, eb_vector e)) (listByModel m st'))"
proof -
  obtain rows st1 where ps: "persistChunks E inputs st = (rows, st1)" by fastforce
  note a = persistChunks_good [OF assms(2) ps]
  obtain r st2 new where e: "embedAndPersist E rows p st1 = Some (Inr r, st2)" "good_store E st2" "em_chunks st2 = em_chunks st1"
    "em_embeddings st2 = em_embeddings st1 @ new" "map eb_chunkId new = map cw_id (filter (\<lambda>c. \<not> has_embedding m st1 c) rows)"
    "\<forall>e \<in> set new. eb_modelName e = m" "pl_embeddingsStored r = length new" "pl_skippedDuplicates r = length (filter (has_embedding m st1) rows)"
    using embed_good [of E st1 rows] a unfolding m_def by blast
  obtain idx st3 where i: "rebuildAnnIndex E m st2 = (Inr (), st3)" "index_over m (listByModel m st2) idx"
    "map_of (em_hnsw st3) m = Some (serialize idx)"
    "map_of (em_flat st3) m = Some (map (\<lambda>e. (eb_chunkId e, eb_modelName e, eb_vector e)) (listByModel m st2))"
    "em_chunks st3 = em_chunks st2" "em_embeddings st3 = em_embeddings st2" "em_tick st2 \<le> em_tick st3"
    using rebuild_ok [of E m st2] by blast
  have run: "runEmbeddingPipeline E inputs p st = Some (Inr r, st3)"
    using ps e(1) i(1) by (simp add: runEmbeddingPipeline_def then_rebuild_def m_def)
  have lm: "listByModel m st3 = listByModel m st2" by (simp add: listByModel_def i(6))
  have emb: "embedded_for m st3 c" if "c \<in> set rows" for c
  proof (cases "has_embedding m st1 c")
    case True
    from has_embedding_row [OF this] show ?thesis using i(6) e(4) by (auto simp: embedded_for_def)
  next
    case False
    then have "cw_id c \<in> set (map eb_chunkId new)" using that unfolding e(5) by auto
    then show ?thesis using e(4,6) i(6) by (auto simp: embedded_for_def)
  qed
  have "length new + length (filter (has_embedding m st1) rows) = length rows"
    using arg_cong [OF e(5), of length] sum_length_filter_compl [of "has_embedding m st1" rows] by simp
  moreover have "length rows = length inputs" using a by (metis length_map)
  ultimately have "pl_embeddingsStored r + pl_skippedDuplicates r = length inputs" using e(7,8) by simp
  moreover have "good_store E st3" using good_store_later [OF e(2)] i(5-7) by simp
  moreover obtain nc where "em_chunks st1 = em_chunks st @ nc" using a by blast
  ultimately show ?thesis
    using run a e i lm emb
    by (intro exI [of _ r] exI [of _ st3] exI [of _ rows] exI [of _ nc] exI [of _ new] exI [of _ idx]) simp
qed

end

text \<open>
  A run of the pipeline over a well-formed store, with a provider that answers every text, succeeds and keeps the store well
  formed. It deletes and changes no row; afterwards the content of every input has a chunk, found by its hash, and every such
  chunk has an embedding of the provider's model; the new embeddings are of that model, and every input is counted either as
  embedded or as skipped.
\<close>

theorem pipeline_embeds_inputs:
  assumes "good_store E st" and "total_provider p"
  shows "\<exists>r st' newChunks new. runEmbeddingPipeline E inputs p st = Some (Inr r, st') \<and> good_store E st'
    \<and> em_chunks st' = em_chunks st @ newChunks \<and> em_embeddings st' = em_embeddings st @ new
    \<and> (\<forall>i \<in> set inputs. \<exists>c. chunks_findByContentHash (ev_hash E (ck_content i)) st' = Some c \<and> embedded_for (ec_modelName (pv_config p)) st' c)
    \<and> (\<forall>e \<in> set new. eb_modelName e = ec_modelName (pv_config p))
    \<and> pl_embeddingsStored r = length new \<and> pl_embeddingsStored r + pl_skippedDuplicates r = length inputs"
proof -
  let ?m = "ec_modelName (pv_config p)"
  from total_provider.pipeline_good [OF assms(2,1), of inputs] obtain r st' rows newChunks new where
    r: "runEmbeddingPipeline E inputs p st = Some (Inr r, st')" "good_store E st'" "em_chunks st' = em_chunks st @ newChunks"
      "em_embeddings st' = em_embeddings st @ new" "set rows \<subseteq> set (em_chunks st')"
      "map cw_contentHash rows = map (\<lambda>i. ev_hash E (ck_content i)) inputs" "\<forall>c \<in> set rows. embedded_for ?m st' c"
      "\<forall>e \<in> set new. eb_modelName e = ?m" "pl_embeddingsStored r = length new" "pl_embeddingsStored r + pl_skippedDuplicates r = length inputs"
    by blast
  have "\<exists>c. chunks_findByContentHash (ev_hash E (ck_content i)) st' = Some c \<and> embedded_for ?m st' c" if "i \<in> set inputs" for i
  proof -
    have "ev_hash E (ck_content i) \<in> set (map cw_contentHash rows)" unfolding r(6) using that by simp
    then obtain c where c: "c \<in> set rows" "cw_contentHash c = ev_hash E (ck_content i)" by auto
    have "distinct (map cw_contentHash (em_chunks st'))" using r(2) by (simp add: good_store_def wf_emb_def)
    from find_by_id [OF this, of c] have "chunks_findByContentHash (ev_hash E (ck_content i)) st' = Some c"
      using c r(5) by (auto simp: chunks_findByContentHash_def)
    then show ?thesis using r(7) c(1) by blast
  qed
  then show ?thesis using r by blast
qed

section \<open>A search of the index\<close>

lemma newest_set [simp]: "set (newest f rows) = set rows"
  by (simp add: newest_def)

lemma resolveChunks_similarities:
  assumes "\<And>h. h \<in> set hits \<Longrightarrow> fst h \<in> cw_id ` set (em_chunks st)"
  shows "map sr_similarity (resolveChunks st hits) = map snd hits"
  using assms
proof (induction hits)
  case (Cons h hits)
  obtain c where "chunks_findById (fst h) st = Some c"
    using Cons.prems [of h] by (cases "chunks_findById (fst h) st") (auto simp: chunks_findById_def find_none)
  then show ?case using Cons by (simp add: resolveChunks_def resolve_hit_def map_filter_simps)
qed (simp add: resolveChunks_def map_filter_simps)

lemma resolveChunks_row:
  assumes "r \<in> set (resolveChunks st hits)"
  shows "\<exists>c \<in> set (em_chunks st). (cw_id c, sr_similarity r) \<in> set hits \<and> sr_chunkId r = cw_id c \<and> sr_fileId r = cw_fileId c
    \<and> sr_filePath r = cw_filePath c \<and> sr_lineStart r = cw_lineStart c \<and> sr_lineEnd r = cw_lineEnd c \<and> sr_content r = cw_content c"
proof -
  obtain h where h: "h \<in> set hits" "resolve_hit st h = Some r" using assms by (auto simp: resolveChunks_def map_filter_def)
  then obtain c where c: "chunks_findById (fst h) st = Some c" "sr_similarity r = snd h" "sr_chunkId r = cw_id c" "sr_fileId r = cw_fileId c"
      "sr_filePath r = cw_filePath c" "sr_lineStart r = cw_lineStart c" "sr_lineEnd r = cw_lineEnd c" "sr_content r = cw_content c"
    by (auto simp: resolve_hit_def)
  have "c \<in> set (em_chunks st)" "cw_id c = fst h" using find_someD [OF c(1) [unfolded chunks_findById_def]] by simp_all
  then show ?thesis using c h(1) by (intro bexI [of _ c]) (simp_all add: prod_eq_iff)
qed

text \<open>The hits of a search: of rows of the model, with their similarity, best first, not more than asked for.\<close>

definition hits_ok :: "embedding_row list \<Rightarrow> real list \<Rightarrow> nat \<Rightarrow> real \<Rightarrow> (string \<times> real) list \<Rightarrow> bool" where
  "hits_ok rows q topK minSim hits \<longleftrightarrow> length hits \<le> topK \<and> sorted_wrt (\<ge>) (map snd hits)
     \<and> (\<forall>h \<in> set hits. minSim \<le> snd h \<and> (\<exists>e \<in> set rows. fst h = eb_chunkId e \<and> snd h = cosineSimilarity q (eb_vector e)))
     \<and> (0 < topK \<longrightarrow> rows \<noteq> [] \<longrightarrow> (\<forall>e \<in> set rows. minSim \<le> cosineSimilarity q (eb_vector e)) \<longrightarrow> hits \<noteq> [])"

lemma sort_key_Nil: "sort_key f xs = [] \<longleftrightarrow> xs = []"
  by (metis mset_sort mset_zero_iff)

lemma linearScan_ok: "hits_ok rows q topK minSim (linearScan q (map (\<lambda>e. (eb_chunkId e, eb_vector e)) rows) topK minSim)"
proof -
  define hits where "hits = filter (\<lambda>h. minSim \<le> snd h) (map (\<lambda>e. (eb_chunkId e, cosineSimilarity q (eb_vector e))) rows)"
  define found where "found = take topK (sort_key (\<lambda>h. - snd h) hits)"
  have s: "linearScan q (map (\<lambda>e. (eb_chunkId e, eb_vector e)) rows) topK minSim = found"
    by (simp add: linearScan_def comp_def found_def hits_def)
  have "sorted (map (\<lambda>h. - snd h) (sort_key (\<lambda>h. - snd h) hits))" by simp
  then have "sorted_wrt (\<ge>) (map snd found)" unfolding found_def by (simp add: sorted_wrt_map sorted_wrt_take)
  moreover have "set found \<subseteq> set hits" by (auto simp: found_def dest: in_set_takeD)
  then have "minSim \<le> snd h \<and> (\<exists>e \<in> set rows. fst h = eb_chunkId e \<and> snd h = cosineSimilarity q (eb_vector e))" if "h \<in> set found" for h
    using that by (fastforce simp: hits_def)
  moreover have "found \<noteq> []" if "0 < topK" "rows \<noteq> []" "\<forall>e \<in> set rows. minSim \<le> cosineSimilarity q (eb_vector e)"
  proof -
    have "hits \<noteq> []" using that(2,3) by (cases rows) (auto simp: hits_def)
    then show ?thesis using that(1) by (simp add: found_def sort_key_Nil)
  qed
  moreover have "length found \<le> topK" by (simp add: found_def)
  ultimately show ?thesis unfolding s hits_ok_def by blast
qed

lemma indexSearch_ok:
  assumes i: "index_over model rows idx" and ne: "hn_nodes idx \<noteq> []"
  shows "\<exists>hits. search_index distance q topK None idx = Some hits
    \<and> (hits_ok rows q topK minSim (filter (\<lambda>h. minSim \<le> snd h) hits))"
proof -
  have wf: "wf_index idx" using i by (simp add: index_over_def)
  have e: "hn_entryPointId idx \<noteq> -1"
  proof -
    have "hn_entryPointId idx \<in> fst ` set (hn_nodes idx)" using wf ne by (auto simp: wf_index_def intro: on_layer_key)
    then show ?thesis using numbered_keys(1) [of "hn_nodes idx"] wf by (auto simp: wf_index_def)
  qed
  let ?ef = "max (hc_efSearch (hn_config idx)) topK"
  define all where "all = searchLayer distance q (hn_nodes idx) (descend distance q (hn_nodes idx) (hn_maxLayer idx) 0 (hn_entryPointId idx)) ?ef 0"
  note f = search_found [OF wf ne, of distance q ?ef, folded all_def]
  define hit where "hit c = (an_chunkId (the (map_of (hn_nodes idx) (hi_id c))), 1 - hi_dist c)" for c :: "real heap_item"
  have ok: "item_ok distance q (hn_nodes idx) c" if "c \<in> set (take topK all)" for c
    using f(1) that by (auto simp: found_def dest: in_set_takeD)
  have row: "\<exists>r \<in> set rows. fst (hit c) = eb_chunkId r \<and> snd (hit c) = cosineSimilarity q (eb_vector r)" if c: "c \<in> set (take topK all)" for c
  proof -
    obtain n where n: "map_of (hn_nodes idx) (hi_id c) = Some n" "hi_dist c = distance q (an_vector n)"
      using ok [OF c] by (auto simp: item_ok_def)
    have "(an_chunkId n, an_vector n) \<in> set (node_entries (hn_nodes idx))"
      using map_of_SomeD [OF n(1)] by (force simp: node_entries_def)
    then show ?thesis using i n by (auto simp: index_over_def hit_def distance_def)
  qed
  have s: "search_index distance q topK None idx = Some (map hit (take topK all))"
    using results_of_ok [OF ok] e ne by (simp add: search_index_def Let_def all_def hit_def)
  have "sorted (map hi_dist (take topK all))" using f(2) by (simp add: take_map [symmetric] sorted_wrt_take)
  then have "sorted_wrt (\<ge>) (map snd (filter (\<lambda>h. minSim \<le> snd h) (map hit (take topK all))))"
    by (simp add: sorted_wrt_map sorted_wrt_filter hit_def)
  moreover have "filter (\<lambda>h. minSim \<le> snd h) (map hit (take topK all)) \<noteq> []"
    if "0 < topK" "\<forall>r \<in> set rows. minSim \<le> cosineSimilarity q (eb_vector r)"
  proof -
    have "all \<noteq> []" using f(1) by (simp add: found_def)
    then have h: "hd all \<in> set (take topK all)" using that(1) by (cases all; cases topK) simp_all
    from row [OF this] that(2) have "minSim \<le> snd (hit (hd all))" by auto
    then show ?thesis using h by (auto simp: filter_empty_conv)
  qed
  moreover have "length (filter (\<lambda>h. minSim \<le> snd h) (map hit (take topK all))) \<le> topK"
    by (rule order.trans [OF length_filter_le]) simp
  moreover have "\<exists>r \<in> set rows. fst h = eb_chunkId r \<and> snd h = cosineSimilarity q (eb_vector r)" if h: "h \<in> set (map hit (take topK all))" for h
  proof -
    obtain c where "c \<in> set (take topK all)" "h = hit c" using h by auto
    then show ?thesis using row by simp
  qed
  ultimately show ?thesis unfolding s hits_ok_def by (intro exI [of _ "map hit (take topK all)"]) simp
qed

text \<open>A search reads the index of the model, or, when that has no nodes, the flat cache.\<close>

lemma search_hits:
  fixes st model options
  defines "rows \<equiv> listByModel model st" and "k \<equiv> nullish (so_topK options) 10" and "low \<equiv> nullish (so_minSimilarity options) (1 / 4)"
  assumes i: "index_over model rows idx" "map_of (em_hnsw st) model = Some (serialize idx)"
      "map_of (em_flat st) model = Some (map (\<lambda>e. (eb_chunkId e, eb_modelName e, eb_vector e)) rows)"
    and q: "pv_embed p [query] model = Inr (q # qs, used)" "q \<noteq> []" "so_modelName options = None" "model = ec_modelName (pv_config p)"
  shows "\<exists>hits strategy. hits_ok rows q k low hits
    \<and> (semanticSearch E query options p st = log_search E strategy (resolveChunks st hits) k low model st
       \<or> hits = [] \<and> semanticSearch E query options p st = (Inr [], st))"
proof -
  have read: "readHnswIndex (map_of (em_hnsw st) model) = Some idx" using index_reads_back [OF i(1)] i(2) by simp
  have pairs: "map (\<lambda>(chunkId, _, v). (chunkId, v)) (map (\<lambda>e. (eb_chunkId e, eb_modelName e, eb_vector e)) rows)
      = map (\<lambda>e. (eb_chunkId e, eb_vector e)) rows" by simp
  note simps = semanticSearch_def Let_def q(1-3) read i(3) pairs k_def [symmetric] low_def [symmetric] q(4) [symmetric]
  consider (index) "hn_nodes idx \<noteq> []" | (flat) "hn_nodes idx = []" "rows \<noteq> []" | (none) "hn_nodes idx = []" "rows = []" by blast
  then show ?thesis
  proof cases
    case index
    obtain hits where h: "search_index distance q k None idx = Some hits" "hits_ok rows q k low (filter (\<lambda>h. low \<le> snd h) hits)"
      using indexSearch_ok [OF i(1) index, of q k low] by blast
    have "semanticSearch E query options p st = log_search E StratHnsw (resolveChunks st (filter (\<lambda>h. low \<le> snd h) hits)) k low model st"
      using index h(1) by (simp add: simps)
    then show ?thesis using h(2) by blast
  next
    case flat
    then have "semanticSearch E query options p st
        = log_search E StratFlatCache (resolveChunks st (linearScan q (map (\<lambda>e. (eb_chunkId e, eb_vector e)) rows) k low)) k low model st"
      by (simp add: simps del: map_map)
    then show ?thesis using linearScan_ok by blast
  next
    case none
    then have "semanticSearch E query options p st = (Inr [], st)" by (simp add: simps rows_def [symmetric])
    then show ?thesis using none by (intro exI [of _ "[]"]) (simp add: hits_ok_def)
  qed
qed

text \<open>
  After a run of the pipeline a search with the same provider finds what was stored: it succeeds without changing chunks or
  embeddings and returns at most the number of results asked for, the most similar first; every result is a stored chunk with
  its text and lines, and its similarity, at least the threshold, is that of the query with an embedding of this chunk
  for the model. When all embeddings of the model reach the threshold and a result is asked for, there is one. The
  search reads the index that the run has written.
\<close>

theorem search_finds_embedded_chunks:
  assumes "good_store E st" and "total_provider p" and "runEmbeddingPipeline E inputs p st = Some (Inr r, st')"
    and "pv_embed p [query] (ec_modelName (pv_config p)) = Inr (q # qs, used)" and "q \<noteq> []" and "so_modelName options = None"
  shows "\<exists>results st''. semanticSearch E query options p st' = (Inr results, st'')
    \<and> em_chunks st'' = em_chunks st' \<and> em_embeddings st'' = em_embeddings st'
    \<and> length results \<le> nullish (so_topK options) 10 \<and> sorted_wrt (\<ge>) (map sr_similarity results)
    \<and> (\<forall>x \<in> set results. nullish (so_minSimilarity options) (1 / 4) \<le> sr_similarity x
         \<and> (\<exists>c \<in> set (em_chunks st'). \<exists>e \<in> set (em_embeddings st'). eb_chunkId e = cw_id c \<and> eb_modelName e = ec_modelName (pv_config p)
              \<and> sr_similarity x = cosineSimilarity q (eb_vector e) \<and> sr_chunkId x = cw_id c \<and> sr_filePath x = cw_filePath c
              \<and> sr_lineStart x = cw_lineStart c \<and> sr_lineEnd x = cw_lineEnd c \<and> sr_content x = cw_content c))
    \<and> (0 < nullish (so_topK options) 10 \<and> listByModel (ec_modelName (pv_config p)) st' \<noteq> []
         \<and> (\<forall>e \<in> set (listByModel (ec_modelName (pv_config p)) st'). nullish (so_minSimilarity options) (1 / 4) \<le> cosineSimilarity q (eb_vector e))
         \<longrightarrow> results \<noteq> [])"
proof -
  define m where "m = ec_modelName (pv_config p)"
  define k where "k = nullish (so_topK options) 10"
  define low where "low = nullish (so_minSimilarity options) (1 / 4)"
  define rows where "rows = listByModel m st'"
  from total_provider.pipeline_good [OF assms(2,1), of inputs] obtain idx where
    g: "good_store E st'" "index_over m rows idx" "map_of (em_hnsw st') m = Some (serialize idx)"
      "map_of (em_flat st') m = Some (map (\<lambda>e. (eb_chunkId e, eb_modelName e, eb_vector e)) rows)"
    using assms(3) unfolding m_def rows_def by auto
  have rows: "set rows = {e \<in> set (em_embeddings st'). eb_modelName e = m}" by (auto simp: rows_def listByModel_def)
  have key: "eb_chunkId e \<in> cw_id ` set (em_chunks st')" if "e \<in> set rows" for e
    using g(1) that rows by (auto simp: good_store_def wf_emb_def)
  obtain hits strategy where h: "hits_ok rows q k low hits"
    "semanticSearch E query options p st' = log_search E strategy (resolveChunks st' hits) k low m st'
     \<or> hits = [] \<and> semanticSearch E query options p st' = (Inr [], st')"
    using search_hits [of m st' idx p query q qs used options E] g(2-4) assms(4-6) unfolding rows_def k_def low_def m_def by blast
  note ok = h(1) [unfolded hits_ok_def]
  have sims: "map sr_similarity (resolveChunks st' hits) = map snd hits"
    by (rule resolveChunks_similarities) (use ok key in auto)
  have row: "low \<le> sr_similarity x \<and> (\<exists>c \<in> set (em_chunks st'). \<exists>e \<in> set (em_embeddings st'). eb_chunkId e = cw_id c \<and> eb_modelName e = m
      \<and> sr_similarity x = cosineSimilarity q (eb_vector e) \<and> sr_chunkId x = cw_id c \<and> sr_filePath x = cw_filePath c
      \<and> sr_lineStart x = cw_lineStart c \<and> sr_lineEnd x = cw_lineEnd c \<and> sr_content x = cw_content c)" if x: "x \<in> set (resolveChunks st' hits)" for x
  proof -
    obtain c where c: "c \<in> set (em_chunks st')" "(cw_id c, sr_similarity x) \<in> set hits" "sr_chunkId x = cw_id c" "sr_filePath x = cw_filePath c"
      "sr_lineStart x = cw_lineStart c" "sr_lineEnd x = cw_lineEnd c" "sr_content x = cw_content c"
      using resolveChunks_row [OF x] by blast
    then obtain e where "e \<in> set rows" "cw_id c = eb_chunkId e" "sr_similarity x = cosineSimilarity q (eb_vector e)" "low \<le> sr_similarity x"
      using ok by force
    then show ?thesis using c rows by (intro conjI bexI [of _ c] bexI [of _ e]) auto
  qed
  have "length (resolveChunks st' hits) = length hits" using arg_cong [OF sims, of length] by simp
  then have "length (resolveChunks st' hits) \<le> k" "sorted_wrt (\<ge>) (map sr_similarity (resolveChunks st' hits))"
    "0 < k \<and> rows \<noteq> [] \<and> (\<forall>e \<in> set rows. low \<le> cosineSimilarity q (eb_vector e)) \<longrightarrow> resolveChunks st' hits \<noteq> []"
    using ok unfolding sims by auto
  moreover obtain st'' where "semanticSearch E query options p st' = (Inr (resolveChunks st' hits), st'')"
    "em_chunks st'' = em_chunks st'" "em_embeddings st'' = em_embeddings st'"
    using h(2) by (auto simp: log_search_def recordTelemetry_def resolveChunks_def map_filter_simps)
  ultimately show ?thesis using row unfolding m_def [symmetric] k_def [symmetric] low_def [symmetric] rows_def [symmetric] by blast
qed

section \<open>Refresh and new models\<close>

lemma good_store_filter:
  assumes "good_store E st" and "em_chunks st' = filter P (em_chunks st)" and "em_embeddings st' = filter Q (em_embeddings st)" and "em_tick st' = em_tick st"
    and "\<And>e. e \<in> set (em_embeddings st) \<Longrightarrow> Q e \<Longrightarrow> eb_chunkId e \<in> cw_id ` set (filter P (em_chunks st))"
  shows "good_store E st'"
  using assms unfolding good_store_def wf_emb_def fresh_row_ids_def by (auto simp: distinct_map_filter)

lemma delete_file_good:
  fixes E st fileId
  defines "st' \<equiv> snd (chunks_deleteByFileId fileId (deleteByChunkIds (findIdsByFileId fileId st) st))"
  assumes g: "good_store E st"
  shows "chunks_deleteByFileId fileId (deleteByChunkIds (findIdsByFileId fileId st) st) = (Inr (), st')"
    and "good_store E st'" and "em_chunks st' = filter (\<lambda>c. cw_fileId c \<noteq> fileId) (em_chunks st)"
proof -
  let ?ids = "findIdsByFileId fileId st"
  let ?st = "deleteByChunkIds ?ids st"
  have e: "em_embeddings ?st = filter (\<lambda>e. eb_chunkId e \<notin> set ?ids) (em_embeddings st)" "em_chunks ?st = em_chunks st" "em_tick ?st = em_tick st"
    by (simp_all add: deleteByChunkIds_def delete_embeddings_def)
  have ids: "set ?ids = cw_id ` {c \<in> set (em_chunks st). cw_fileId c = fileId}"
    by (auto simp: findIdsByFileId_def chunks_findByFileId_def)
  have "\<not> list_ex (\<lambda>c. references_chunk ?st (cw_id c)) (chunks_findByFileId fileId ?st)"
    by (auto simp: list_ex_iff references_chunk_def chunks_findByFileId_def e ids)
  then have d: "chunks_deleteByFileId fileId ?st = (Inr (), ?st\<lparr>em_chunks := filter (\<lambda>c. cw_fileId c \<noteq> fileId) (em_chunks st)\<rparr>)"
    by (simp add: chunks_deleteByFileId_def e)
  then show "chunks_deleteByFileId fileId ?st = (Inr (), st')" "em_chunks st' = filter (\<lambda>c. cw_fileId c \<noteq> fileId) (em_chunks st)"
    by (simp_all add: st'_def)
  show "good_store E st'"
  proof (rule good_store_filter [OF g])
    show "em_chunks st' = filter (\<lambda>c. cw_fileId c \<noteq> fileId) (em_chunks st)" "em_tick st' = em_tick st"
      "em_embeddings st' = filter (\<lambda>e. eb_chunkId e \<notin> set ?ids) (em_embeddings st)"
      using d e by (simp_all add: st'_def)
    show "eb_chunkId e \<in> cw_id ` set (filter (\<lambda>c. cw_fileId c \<noteq> fileId) (em_chunks st))"
      if e: "e \<in> set (em_embeddings st)" "eb_chunkId e \<notin> set ?ids" for e
    proof -
      obtain c where "c \<in> set (em_chunks st)" "eb_chunkId e = cw_id c" using g e(1) by (auto simp: good_store_def wf_emb_def)
      then show ?thesis using e(2) ids by auto
    qed
  qed
qed

lemma no_orphans: "good_store E st \<Longrightarrow> countOrphaned st = 0"
  by (auto simp: countOrphaned_def orphaned_embedding_def good_store_def wf_emb_def filter_empty_conv)

context total_provider
begin

text \<open>A refresh never fails on the foreign key, removes the chunks of the file and stores the new ones.\<close>

lemma refresh_good:
  assumes "good_store E st"
  shows "\<exists>r n st' newChunks. refreshFileChunks E fileId inputs p st = Some (Inr (r, n, n), st') \<and> good_store E st'
    \<and> n = length (chunks_findByFileId fileId st)
    \<and> em_chunks st' = filter (\<lambda>c. cw_fileId c \<noteq> fileId) (em_chunks st) @ newChunks
    \<and> (\<forall>i \<in> set inputs. ev_hash E (ck_content i) \<in> cw_contentHash ` set (em_chunks st'))"
proof -
  obtain st1 where d: "chunks_deleteByFileId fileId (deleteByChunkIds (findIdsByFileId fileId st) st) = (Inr (), st1)"
    "good_store E st1" "em_chunks st1 = filter (\<lambda>c. cw_fileId c \<noteq> fileId) (em_chunks st)"
    using delete_file_good [OF assms, of fileId] by metis
  obtain r st' rows newChunks where p: "runEmbeddingPipeline E inputs p st1 = Some (Inr r, st')" "good_store E st'"
    "em_chunks st' = em_chunks st1 @ newChunks" "set rows \<subseteq> set (em_chunks st')"
    "map cw_contentHash rows = map (\<lambda>i. ev_hash E (ck_content i)) inputs"
    using pipeline_good [OF d(2), of inputs] by blast
  have "ev_hash E (ck_content i) \<in> cw_contentHash ` set (em_chunks st')" if "i \<in> set inputs" for i
    using arg_cong [OF p(5), of set] p(4) that by fastforce
  then show ?thesis
    using p d by (simp add: refreshFileChunks_def Let_def) (simp add: findIdsByFileId_def)
qed

text \<open>After embedding all chunks for a model every chunk has an embedding of it.\<close>

lemma reembed_good:
  assumes g: "good_store E st"
  shows "\<exists>r st'. reembedAllChunks E p oldModel st = Some (Inr r, st') \<and> good_store E st' \<and> em_chunks st' = em_chunks st
    \<and> (\<forall>c \<in> set (em_chunks st'). embedded_for (ec_modelName (pv_config p)) st' c)"
proof -
  let ?m = "ec_modelName (pv_config p)"
  define st1 where "st1 = (case oldModel of None \<Rightarrow> st | Some m \<Rightarrow> if m = [] then st else deleteByModel m st)"
  define st2 where "st2 = snd (deleteOrphaned st1)"
  have "\<exists>Q. em_embeddings st2 = filter Q (em_embeddings st)" "em_chunks st2 = em_chunks st" "em_tick st2 = em_tick st"
    by (auto simp: st2_def st1_def deleteOrphaned_def deleteByModel_def delete_embeddings_def split: option.split intro: exI [of _ "\<lambda>_. True"])
  then obtain Q where q: "em_embeddings st2 = filter Q (em_embeddings st)" "em_chunks st2 = filter (\<lambda>_. True) (em_chunks st)" "em_tick st2 = em_tick st" by auto
  have g2: "good_store E st2" by (rule good_store_filter [OF g q(2,1,3)]) (use g in \<open>auto simp: good_store_def wf_emb_def\<close>)
  obtain r st3 new where e: "embedAndPersist E (chunks_listAll st2) p st2 = Some (Inr r, st3)" "good_store E st3" "em_chunks st3 = em_chunks st2"
    "em_embeddings st3 = em_embeddings st2 @ new" "map eb_chunkId new = map cw_id (filter (\<lambda>c. \<not> has_embedding ?m st2 c) (chunks_listAll st2))"
    "\<forall>e \<in> set new. eb_modelName e = ?m"
    using embed_good [OF g2, of "chunks_listAll st2"] by (auto simp: chunks_listAll_def newest_def)
  obtain idx st4 where i: "rebuildAnnIndex E ?m st3 = (Inr (), st4)" "em_chunks st4 = em_chunks st3" "em_embeddings st4 = em_embeddings st3" "em_tick st3 \<le> em_tick st4"
    using rebuild_ok [of E ?m st3] by blast
  have "embedded_for ?m st4 c" if "c \<in> set (em_chunks st4)" for c
  proof (cases "has_embedding ?m st2 c")
    case True
    from has_embedding_row [OF this] show ?thesis using i(3) e(4) by (auto simp: embedded_for_def)
  next
    case False
    then have "cw_id c \<in> set (map eb_chunkId new)" using that i(2) e(3) unfolding e(5) by (auto simp: chunks_listAll_def newest_def)
    then show ?thesis using e(4,6) i(3) by (auto simp: embedded_for_def)
  qed
  moreover have "reembedAllChunks E p oldModel st = Some (Inr r, st4)"
    using e(1) i(1) by (simp add: reembedAllChunks_def then_rebuild_def Let_def st1_def [symmetric] st2_def [symmetric])
  ultimately show ?thesis using good_store_later [OF e(2) i(4,2,3)] i(2) e(3) q(2) by simp
qed

end

section \<open>Examples\<close>

definition example_env :: emb_env where
  "example_env = \<lparr>ev_id = (\<lambda>prefix n. prefix @ ''-'' @ replicate n CHR ''i''), ev_now = (\<lambda>n. ''t''), ev_elapsed = (\<lambda>n. 0),
     ev_hash = (\<lambda>s. s), ev_coin = (\<lambda>n. False), ev_environ = (\<lambda>v. None)\<rparr>"

definition empty_store :: emb_state where
  "empty_store = \<lparr>em_chunks = [], em_embeddings = [], em_flat = [], em_hnsw = [], em_telemetry = [], em_draw = 0, em_tick = 0\<rparr>"

definition example_input :: "string \<Rightarrow> string \<Rightarrow> chunk_input" where
  "example_input f s = \<lparr>ck_fileId = f, ck_filePath = f @ ''.ts'', ck_symbolId = None, ck_lineStart = 1, ck_lineEnd = 1, ck_content = s,
     ck_language = ''typescript''\<rparr>"

text \<open>A provider that gives every text the vector (1), three texts at a time.\<close>

definition example_provider :: "string \<Rightarrow> embed_provider" where
  "example_provider model = \<lparr>pv_config = DEFAULT_EMBEDDING_CONFIG\<lparr>ec_modelName := model, ec_maxBatchSize := 3\<rparr>,
     pv_embed = (\<lambda>texts m. Inr (map (\<lambda>_. [1]) texts, length texts))\<rparr>"

interpretation example: total_provider "example_provider model"
  for model
  by unfold_locales (simp_all add: example_provider_def)

lemma empty_store_good: "good_store example_env empty_store"
  by (auto simp: good_store_def wf_emb_def fresh_row_ids_def empty_store_def example_env_def inj_on_def replicate_eq_replicate)

lemma pipeline_embeds_inputs_example:
  "\<exists>r st'. runEmbeddingPipeline example_env [example_input ''a'' ''x'', example_input ''b'' ''y''] (example_provider ''m'') empty_store = Some (Inr r, st')
     \<and> good_store example_env st' \<and> pl_embeddingsStored r + pl_skippedDuplicates r = 2
     \<and> (\<exists>c. chunks_findByContentHash ''y'' st' = Some c \<and> embedded_for ''m'' st' c)"
  using pipeline_embeds_inputs [OF empty_store_good example.total_provider_axioms, of "[example_input ''a'' ''x'', example_input ''b'' ''y'']" "''m''"]
  by (auto simp: example_env_def example_input_def example_provider_def)

lemma search_finds_embedded_chunks_example:
  "\<exists>r st' results st''. runEmbeddingPipeline example_env [example_input ''a'' ''x''] (example_provider ''m'') empty_store = Some (Inr r, st')
     \<and> semanticSearch example_env ''q'' \<lparr>so_topK = Some 3, so_minSimilarity = Some 1, so_modelName = None\<rparr> (example_provider ''m'') st'
         = (Inr results, st'')
     \<and> length results \<le> 3 \<and> (\<forall>x \<in> set results. 1 \<le> sr_similarity x)"
proof -
  let ?o = "\<lparr>so_topK = Some 3, so_minSimilarity = Some 1, so_modelName = None\<rparr>"
  obtain r st' where r: "runEmbeddingPipeline example_env [example_input ''a'' ''x''] (example_provider ''m'') empty_store = Some (Inr r, st')"
    using example.pipeline_good [OF empty_store_good] by blast
  have "pv_embed (example_provider ''m'') [''q''] (ec_modelName (pv_config (example_provider ''m''))) = Inr ([1] # [], 1)"
    by (simp add: example_provider_def)
  from search_finds_embedded_chunks [OF empty_store_good example.total_provider_axioms r this, of ?o] r show ?thesis by fastforce
qed

text \<open>
  A content that occurs twice among the inputs of a run is stored once but embedded twice, since the rows to embed are chosen
  before any of them is embedded.
\<close>

lemma repeated_content_embedded_twice:
  "case embedAndPersist example_env (fst (persistChunks example_env [example_input ''a'' ''x'', example_input ''b'' ''x''] empty_store))
     (example_provider ''m'') (snd (persistChunks example_env [example_input ''a'' ''x'', example_input ''b'' ''x''] empty_store)) of
     Some (Inr r, st) \<Rightarrow> length (em_chunks st) = 1 \<and> map eb_chunkId (em_embeddings st) = [''chunk-'', ''chunk-'']
   | _ \<Rightarrow> False"
  by code_simp

text \<open>
  A content that two files share belongs to the file that was indexed first. When that file is refreshed with another content, the
  chunk is deleted, and the content of the other file can no longer be found although the file has not changed.
\<close>

lemma refresh_deletes_shared_chunk:
  "let st = snd (persistChunks example_env [example_input ''a'' ''x'', example_input ''b'' ''x''] empty_store);
       st1 = snd (chunks_deleteByFileId ''a'' (deleteByChunkIds (findIdsByFileId ''a'' st) st));
       st2 = snd (persistChunks example_env [example_input ''a'' ''z''] st1)
   in chunks_findByContentHash ''x'' st \<noteq> None \<and> chunks_findByFileId ''b'' st = [] \<and> chunks_findByContentHash ''x'' st2 = None"
  by code_simp

text \<open>
  A chunk that has embeddings of two models is seen with the first one only: embedding it again for the second model, which it
  already has, stores a further row.
\<close>

lemma second_model_embedded_again:
  "let c = fst (persistChunk example_env (example_input ''a'' ''x'') empty_store);
       st = snd (persistChunk example_env (example_input ''a'' ''x'') empty_store);
       run = (\<lambda>m st. case embedAndPersist example_env [c] (example_provider m) st of Some (Inr r, st') \<Rightarrow> st' | _ \<Rightarrow> st)
   in map eb_modelName (em_embeddings (run ''n'' (run ''n'' (run ''m'' st)))) = [''m'', ''n'', ''n'']"
  by code_simp

section \<open>Mock vectors\<close>

lemma mockValues_length [simp]: "length (mockValues n seed) = n"
  by (induction n arbitrary: seed) simp_all

text \<open>A mock vector has the dimension asked for and length 1, unless all its components are 0.\<close>

lemma mockVector_unit:
  "length (mockVector text n) = n \<and> (sum_list (map (\<lambda>v. v * v) (mockVector text n)) = 1 \<or> (\<forall>v \<in> set (mockVector text n). v = 0))"
proof -
  define vec where "vec = mockValues n (mockSeed text)"
  define s where "s = sum_list (map (\<lambda>v. v * v) vec)"
  have s: "0 \<le> s" unfolding s_def by (rule sum_list_nonneg) auto
  show ?thesis
  proof (cases "0 < sqrt s")
    case True
    then have m: "mockVector text n = map (\<lambda>v. v / sqrt s) vec" by (simp add: mockVector_def Let_def vec_def s_def)
    have "sum_list (map (\<lambda>v. v * v) (map (\<lambda>v. v / sqrt s) vec)) = sum_list (map (\<lambda>v. v * v) vec) / s"
      using s by (induction vec) (simp_all add: add_divide_distrib)
    then have "sum_list (map (\<lambda>v. v * v) (mockVector text n)) = 1" unfolding m s_def [symmetric] using True by simp
    then show ?thesis by (simp add: m) (simp add: vec_def)
  next
    case False
    then have z: "s = 0" using s by simp
    have "\<forall>x \<in> set (map (\<lambda>v. v * v) vec). x = 0"
      by (subst sum_list_nonneg_eq_0_iff [symmetric]) (use z in \<open>auto simp: s_def\<close>)
    then show ?thesis using False by (simp add: mockVector_def Let_def vec_def [symmetric] s_def [symmetric]) (simp add: vec_def)
  qed
qed

end
