(* ===== verification/ChunkCleanup.thy ===== *)
theory ChunkCleanup
  imports EmbeddingPipeline DetectProjects
begin

text \<open>
  The cleanup of stored chunk paths (\<^verbatim>\<open>retrieval/src/semantic/historical-chunk-cleanup.ts\<close>): rows whose path normalizes to that of
  an existing file get it, and embeddings without a chunk are deleted. Files are those of \<open>TextFiles\<close>.
\<close>

section \<open>Classification\<close>

datatype cleanup_kind = KCanonical | KConvertible | KUnresolved

record cleanup_row =
  cl_chunkId :: string
  cl_fileId :: string
  cl_currentFilePath :: string
  cl_targetFilePath :: "string option"
  cl_telemetryFlagged :: bool
  cl_kind :: cleanup_kind
  cl_reason :: string

record cleanup_classification =
  cc_rowsScanned :: nat
  cc_telemetryFlaggedRows :: nat
  cc_telemetryFlaggedConvertibleRows :: nat
  cc_canonicalRows :: nat
  cc_convertibleRows :: nat
  cc_unresolvedRows :: nat
  cc_rows :: "cleanup_row list"

text \<open>An event is passed over when it is outside a bound; a bound that does not parse excludes nothing here.\<close>

definition beyond_bound :: "(string \<Rightarrow> int option) \<Rightarrow> string option \<Rightarrow> (int \<Rightarrow> bool) \<Rightarrow> bool" where
  "beyond_bound parse b test =
     (case b of None \<Rightarrow> False | Some s \<Rightarrow> if s = [] then False else (case parse s of None \<Rightarrow> False | Some t \<Rightarrow> test t))"

definition event_paths :: "telemetry_event \<Rightarrow> string list" where
  "event_paths e =
     (case e of
        TeSemanticPathUnresolved _ filePath originalFilePath \<Rightarrow> [filePath, originalFilePath]
      | TeEvidencePathUnresolved filePath normalized _ _ \<Rightarrow>
          filePath # (case normalized of None \<Rightarrow> [] | Some n \<Rightarrow> if n = [] then [] else [n])
      | _ \<Rightarrow> [])"

definition collectTelemetryPathSignals :: "(string \<Rightarrow> int option) \<Rightarrow> summary_window \<Rightarrow> emb_state \<Rightarrow> string set" where
  "collectTelemetryPathSignals parse w st =
     set (concat (map (\<lambda>(e, stamp). case parse stamp of
        None \<Rightarrow> []
      | Some time \<Rightarrow>
          if beyond_bound parse (sw_sinceIso w) (\<lambda>s. time < s) \<or> beyond_bound parse (sw_untilIso w) (\<lambda>u. u < time) then []
          else event_paths e) (readTelemetryEvents st)))"

definition classifyOneRow :: "host \<Rightarrow> filesystem \<Rightarrow> string \<Rightarrow> string set \<Rightarrow> chunk_path_row \<Rightarrow> cleanup_row" where
  "classifyOneRow H fs repoRoot signals row =
     (let flagged = cpr_filePath row \<in> signals;
          result = (\<lambda>target kind reason. \<lparr>cl_chunkId = cpr_id row, cl_fileId = cpr_fileId row, cl_currentFilePath = cpr_filePath row,
            cl_targetFilePath = target, cl_telemetryFlagged = flagged, cl_kind = kind, cl_reason = reason\<rparr>) in
      case normalizeToRepoRelativePath (hs_cwd H) repoRoot (cpr_filePath row) of
        None \<Rightarrow> result None KUnresolved
          (if flagged then ''Telemetry-flagged unresolved path cannot be normalized into repo-relative contract.''
           else ''Path cannot be normalized into repo-relative contract.'')
      | Some canonical \<Rightarrow>
          if canonical = cpr_filePath row then result (Some canonical) KCanonical ''Already canonical repo-relative path.''
          else if \<not> existsSync H fs (path_join repoRoot canonical)
          then result None KUnresolved ''Normalized path does not map to an existing file.''
          else result (Some canonical) KConvertible ''Deterministic normalization with existing file target.'')"

definition of_kind :: "cleanup_kind \<Rightarrow> cleanup_row list \<Rightarrow> nat" where
  "of_kind k rows = length (filter (\<lambda>r. cl_kind r = k) rows)"

definition classifyHistoricalChunkPaths ::
  "host \<Rightarrow> filesystem \<Rightarrow> string \<Rightarrow> (string \<Rightarrow> int option) \<Rightarrow> summary_window \<Rightarrow> emb_state \<Rightarrow> cleanup_classification" where
  "classifyHistoricalChunkPaths H fs repoRoot parse w st =
     (let rows = map (classifyOneRow H fs repoRoot (collectTelemetryPathSignals parse w st)) (listPathInventory st) in
      \<lparr>cc_rowsScanned = length rows, cc_telemetryFlaggedRows = length (filter cl_telemetryFlagged rows),
       cc_telemetryFlaggedConvertibleRows = length (filter (\<lambda>r. cl_kind r = KConvertible \<and> cl_telemetryFlagged r) rows),
       cc_canonicalRows = of_kind KCanonical rows, cc_convertibleRows = of_kind KConvertible rows, cc_unresolvedRows = of_kind KUnresolved rows,
       cc_rows = rows\<rparr>)"

section \<open>The run\<close>

record cleanup_options =
  cu_apply :: bool
  cu_observationWindow :: "summary_window option"
  cu_batchSize :: "nat option"
  cu_exampleLimit :: "nat option"
  cu_operator :: "string option"

record cleanup_meta =
  cm_runAt :: string
  cm_operator :: string
  cm_apply :: bool
  cm_observationWindow :: summary_window
  cm_batchSize :: nat

record cleanup_report =
  cp_meta :: cleanup_meta
  cp_telemetryBefore :: telemetry_summary
  cp_telemetryAfter :: telemetry_summary
  cp_storageBefore :: cleanup_classification
  cp_storageAfter :: cleanup_classification
  cp_eligibleForApply :: nat
  cp_updated :: nat
  cp_notUpdated :: nat
  cp_canonicalRowsUnchanged :: nat
  cp_updatedRows :: nat
  cp_skippedRows :: nat
  cp_unresolvedRowsRetained :: nat
  cp_orphanedBefore :: nat
  cp_orphanedAfter :: nat
  cp_orphanedDeleted :: nat
  cp_examples :: "string list \<times> string list \<times> string list"

text \<open>The size of a batch is positive, see \<open>positive_or\<close>.\<close>

function toBatches :: "'a list \<Rightarrow> nat \<Rightarrow> 'a list list" where
  "toBatches items n = (if items = [] \<or> n = 0 then [] else take n items # toBatches (drop n items) n)"
  by auto
termination by (relation "measure (\<lambda>(items, n). length items)") auto

declare toBatches.simps [simp del]

definition collectExamples :: "cleanup_row list \<Rightarrow> cleanup_kind \<Rightarrow> nat \<Rightarrow> string list" where
  "collectExamples rows kind limit =
     map (\<lambda>r. cl_currentFilePath r @
         (case cl_targetFilePath r of
            None \<Rightarrow> []
          | Some t \<Rightarrow> if t \<noteq> [] \<and> t \<noteq> cl_currentFilePath r then '' -> '' @ t else []))
       (take limit (filter (\<lambda>r. cl_kind r = kind) rows))"

definition positive_or :: "nat option \<Rightarrow> nat \<Rightarrow> nat" where
  "positive_or v d = (case v of None \<Rightarrow> d | Some n \<Rightarrow> if 0 < n then n else d)"

definition update_batch :: "cleanup_row list \<Rightarrow> nat \<times> emb_state \<Rightarrow> nat \<times> emb_state" where
  "update_batch batch s =
     (let (n, st') = updateFilePathsByChunkId (map (\<lambda>r. (cl_chunkId r, the (cl_targetFilePath r))) batch) (snd s) in (fst s + n, st'))"

definition runHistoricalChunkCleanup ::
  "emb_env \<Rightarrow> host \<Rightarrow> filesystem \<Rightarrow> string \<Rightarrow> (string \<Rightarrow> int option) \<Rightarrow> cleanup_options \<Rightarrow> emb_state \<Rightarrow> cleanup_report \<times> emb_state" where
  "runHistoricalChunkCleanup E H fs repoRoot parse options st =
     (let w = nullish (cu_observationWindow options) \<lparr>sw_sinceIso = None, sw_untilIso = None\<rparr>;
          batchSize = positive_or (cu_batchSize options) 200; exampleLimit = positive_or (cu_exampleLimit options) 5;
          operator = (case cu_operator options of None \<Rightarrow> ''unknown'' | Some t \<Rightarrow> if js_trim t = [] then ''unknown'' else js_trim t);
          storageBefore = classifyHistoricalChunkPaths H fs repoRoot parse w st;
          orphanedBefore = countOrphaned st;
          deterministicRows = filter (\<lambda>r. cl_kind r = KConvertible \<and> cl_targetFilePath r \<noteq> None \<and> cl_targetFilePath r \<noteq> Some []) (cc_rows storageBefore);
          (updatedRows, st1) = (if cu_apply options \<and> deterministicRows \<noteq> [] then fold update_batch (toBatches deterministicRows batchSize) (0, st) else (0, st));
          (deleted, st2) = (if cu_apply options then deleteOrphaned st1 else (0, st1));
          storageAfter = classifyHistoricalChunkPaths H fs repoRoot parse w st2;
          eligible = length deterministicRows
      in (\<lparr>cp_meta = \<lparr>cm_runAt = ev_now E (em_tick st2), cm_operator = operator, cm_apply = cu_apply options, cm_observationWindow = w, cm_batchSize = batchSize\<rparr>,
           cp_telemetryBefore = summarizeTelemetryInWindow parse w st, cp_telemetryAfter = summarizeTelemetryInWindow parse w st2,
           cp_storageBefore = storageBefore, cp_storageAfter = storageAfter, cp_eligibleForApply = eligible, cp_updated = updatedRows,
           cp_notUpdated = eligible - updatedRows, cp_canonicalRowsUnchanged = cc_canonicalRows storageBefore, cp_updatedRows = updatedRows,
           cp_skippedRows = eligible - updatedRows, cp_unresolvedRowsRetained = cc_unresolvedRows storageBefore, cp_orphanedBefore = orphanedBefore,
           cp_orphanedAfter = countOrphaned st2, cp_orphanedDeleted = deleted,
           cp_examples = (collectExamples (cc_rows storageAfter) KCanonical exampleLimit,
             collectExamples (cc_rows storageBefore) KConvertible exampleLimit, collectExamples (cc_rows storageAfter) KUnresolved exampleLimit)\<rparr>,
          st2\<lparr>em_tick := em_tick st2 + 1\<rparr>))"

section \<open>Canonical paths\<close>

text \<open>A canonical path without surrounding blanks normalizes to itself.\<close>

lemma canonical_path_fixed:
  assumes c: "list_all clean_seg (k @ s)" "s \<noteq> []" and q: "q = js_join ''/'' s" "js_trim q = q"
  shows "normalizeToRepoRelativePath cwd (absolute_text k) q = Some q"
proof -
  have ok: "list_all seg_ok s" "list_all clean_seg k" using c(1) clean_segs_ok by auto
  obtain x xs where s: "s = x # xs" using c(2) by (cases s) auto
  note j = join_seg [of x xs, folded s, OF ok(1), folded q(1)]
  have bs: "normalizePathSlashes q = q" unfolding q(1) by (rule join_no_backslash) (use c(1) in \<open>auto simp: list_all_iff clean_seg_def\<close>)
  have sp: "js_split q ''/'' = s" unfolding q(1) by (rule split_join) (use c ok in \<open>auto simp: list_all_iff seg_ok_def\<close>)
  have dot: "dropDotSlash q = q"
  proof (rule ccontr)
    assume "dropDotSlash q \<noteq> q"
    then have "js_startsWith q ''./''" by (simp add: dropDotSlash_def split: if_splits)
    then obtain t where "q = ''.'' @ ''/'' @ t" by (auto simp: js_startsWith_iff)
    then have "js_split q ''/'' = ''.'' # js_split t ''/''" using js_split_step [of "''/''" "''.''" t] by simp
    then show False using sp s ok(1) by (simp add: seg_ok_def)
  qed
  have tail: "\<not> js_endsWith q ''/''"
  proof
    assume "js_endsWith q ''/''"
    then obtain t where t: "q = t @ ''/''" by (auto simp: js_endsWith_iff)
    obtain l n where ln: "s = l @ [n]" using c(2) by (cases s rule: rev_cases) auto
    have "n \<noteq> []" "CHR ''/'' \<notin> set n" using ok(1) ln by (auto simp: seg_ok_def)
    moreover have "\<exists>u. q = u @ n" using ln q(1) by (cases "l = []") (auto simp: join_append)
    ultimately show False using t by (metis last_appendR last_in_set last_snoc)
  qed
  have norm: "path_normalize q = q"
    using j tail norm_segs_id [OF ok(1)] sp q(1) by (simp add: path_normalize_def Let_def)
  have "path_join (absolute_text k) q = absolute_text (k @ s)"
    using normalize_absolute_segs [OF clean_segs_ok [OF c(1)] c(2)] j(1) q(1) by (simp add: path_join_def absolute_text_def)
  then have abs: "canonicalizeAbsolutePath cwd (path_join (absolute_text k) q) = absolute_text (k @ s)" using c(1) by simp
  have "toRepoRelativePath cwd (absolute_text k) (absolute_text (k @ s)) = Some q"
    using c ok(2) q(1) by (auto simp: toRepoRelativePath_iff)
  then show ?thesis
    using j bs dot norm q(2) abs ok(2) c(1) by (simp add: normalizeToRepoRelativePath_def Let_def)
qed

lemma normalized_segs:
  assumes "normalizeToRepoRelativePath cwd base p = Some q"
  shows "\<exists>s. s \<noteq> [] \<and> list_all seg_ok s \<and> q = js_join ''/'' s"
proof -
  obtain t where "toRepoRelativePath cwd base t = Some q"
    using assms by (auto simp: normalizeToRepoRelativePath_def Let_def split: if_splits)
  then obtain s where "s \<noteq> []" "csegs cwd t = csegs cwd base @ s" "q = js_join ''/'' s" using toRepoRelativePath_iff by blast
  then show ?thesis using resolve_segs_ok [of cwd "canonicalizeAbsolutePath cwd t"] by (auto simp: csegs_def)
qed

lemma existing_target_fixed:
  assumes fs: "clean_fs fs" and k: "list_all clean_seg k" and n: "normalizeToRepoRelativePath (hs_cwd H) (absolute_text k) p = Some q"
    and x: "existsSync H fs (path_join (absolute_text k) q)" and t: "js_trim q = q"
  shows "normalizeToRepoRelativePath (hs_cwd H) (absolute_text k) q = Some q" and "q \<noteq> []"
proof -
  obtain s where s: "s \<noteq> []" "list_all seg_ok s" "q = js_join ''/'' s" using normalized_segs [OF n] by blast
  have ks: "list_all seg_ok (k @ s)" using s(2) clean_segs_ok [OF k] by simp
  obtain y ys where "s = y # ys" using s(1) by (cases s) auto
  then show ne: "q \<noteq> []" using join_seg(1) s by simp
  have "path_join (absolute_text k) q = absolute_text (k @ s)"
    using normalize_absolute_segs [OF ks s(1)] ne s(3) by (simp add: path_join_def absolute_text_def)
  then have "resolve_segs (hs_cwd H) (path_join (absolute_text k) q) = k @ s" using resolve_join [OF ks] by (simp add: absolute_text_def)
  then have "list_all clean_seg (k @ s)" using x clean_fs_entry [OF fs, of "k @ s"] by (auto simp: existsSync_def)
  from canonical_path_fixed [OF this s(1,3) t] show "normalizeToRepoRelativePath (hs_cwd H) (absolute_text k) q = Some q" .
qed

section \<open>Updates\<close>

definition set_paths :: "(string \<times> string) list \<Rightarrow> chunk_row \<Rightarrow> chunk_row" where
  "set_paths us c = (case map_of us (cw_id c) of None \<Rightarrow> c | Some p \<Rightarrow> c\<lparr>cw_filePath := p\<rparr>)"

lemma set_paths_fields [simp]: "cw_id (set_paths us c) = cw_id c" "cw_createdAt (set_paths us c) = cw_createdAt c"
  "cw_content (set_paths us c) = cw_content c" "cw_contentHash (set_paths us c) = cw_contentHash c" "cw_fileId (set_paths us c) = cw_fileId c"
  by (simp_all add: set_paths_def split: option.split)

lemma fold_update_path:
  assumes "distinct (map fst us)" and "distinct (map cw_id (em_chunks st))" and "fst ` set us \<subseteq> cw_id ` set (em_chunks st)"
  shows "fold update_path us (n, st) = (n + length us, st\<lparr>em_chunks := map (set_paths us) (em_chunks st)\<rparr>)"
  using assms
proof (induction us arbitrary: n st)
  case Nil
  have "map (set_paths []) (em_chunks st) = em_chunks st" by (simp add: set_paths_def map_idI)
  then show ?case by simp
next
  case (Cons u us)
  obtain i p where u: "u = (i, p)" by fastforce
  let ?st = "st\<lparr>em_chunks := map (\<lambda>c. if cw_id c = i then c\<lparr>cw_filePath := p\<rparr> else c) (em_chunks st)\<rparr>"
  have ids: "map cw_id (em_chunks ?st) = map cw_id (em_chunks st)" by simp
  obtain c where "c \<in> set (em_chunks st)" "cw_id c = i" using Cons.prems(3) u by auto
  then have "length (filter (\<lambda>c. cw_id c = i) (em_chunks st)) = 1"
    using Cons.prems(2) by (auto simp: in_set_conv_decomp filter_empty_conv image_iff)
  then have step: "update_path u (n, st) = (Suc n, ?st)" by (simp add: update_path_def u)
  have new: "map_of us i = None" using Cons.prems(1) u by (auto simp: map_of_eq_None_iff)
  have "fold update_path us (Suc n, ?st) = (Suc n + length us, ?st\<lparr>em_chunks := map (set_paths us) (em_chunks ?st)\<rparr>)"
  proof (rule Cons.IH)
    show "distinct (map fst us)" using Cons.prems(1) by simp
    show "distinct (map cw_id (em_chunks ?st))" unfolding ids by (rule Cons.prems(2))
    have "cw_id ` set (em_chunks ?st) = cw_id ` set (em_chunks st)" using ids by (metis set_map)
    with Cons.prems(3) show "fst ` set us \<subseteq> cw_id ` set (em_chunks ?st)" by simp
  qed
  moreover have "map (set_paths us) (em_chunks ?st) = map (set_paths (u # us)) (em_chunks st)"
    using new by (auto simp: set_paths_def u)
  ultimately show ?case using step by simp
qed

lemma update_path_add: "fold update_path us (n, st) = (n + fst (fold update_path us (0, st)), snd (fold update_path us (0, st)))"
proof (induction us arbitrary: n st)
  case (Cons u us)
  obtain m st1 where u: "update_path u (k, st) = (k + m, st1)" for k
    by (cases u) (auto simp: update_path_def)
  show ?case using u [of n] u [of 0] Cons.IH [of "n + m" st1] Cons.IH [of m st1] by simp
qed simp

definition path_updates :: "cleanup_row list \<Rightarrow> (string \<times> string) list" where
  "path_updates rows = map (\<lambda>r. (cl_chunkId r, the (cl_targetFilePath r))) rows"

lemma update_batches: "fold update_batch bs (n, st) = fold update_path (path_updates (concat bs)) (n, st)"
proof (induction bs arbitrary: n st)
  case (Cons b bs)
  have "update_batch b (n, st) = fold update_path (path_updates b) (n, st)"
    using update_path_add [of "path_updates b" n st]
    by (simp add: update_batch_def updateFilePathsByChunkId_def path_updates_def case_prod_unfold Let_def)
  then show ?case using Cons.IH by (cases "fold update_path (path_updates b) (n, st)") (simp add: path_updates_def)
qed (simp add: path_updates_def)

lemma concat_toBatches: "0 < n \<Longrightarrow> concat (toBatches xs n) = xs"
  by (induction xs n rule: toBatches.induct) (subst toBatches.simps, simp)

section \<open>What a run does\<close>

definition path_row :: "chunk_row \<Rightarrow> chunk_path_row" where
  "path_row c = \<lparr>cpr_id = cw_id c, cpr_fileId = cw_fileId c, cpr_filePath = cw_filePath c, cpr_createdAt = cw_createdAt c\<rparr>"

text \<open>The path of a chunk after a run.\<close>

definition converted_path :: "host \<Rightarrow> filesystem \<Rightarrow> string \<Rightarrow> string \<Rightarrow> string" where
  "converted_path H fs repoRoot p =
     (case normalizeToRepoRelativePath (hs_cwd H) repoRoot p of
        None \<Rightarrow> p
      | Some q \<Rightarrow> if existsSync H fs (path_join repoRoot q) then q else p)"

definition convert :: "host \<Rightarrow> filesystem \<Rightarrow> string \<Rightarrow> chunk_row \<Rightarrow> chunk_row" where
  "convert H fs repoRoot c = c\<lparr>cw_filePath := converted_path H fs repoRoot (cw_filePath c)\<rparr>"

lemma sort_key_map: "(\<And>x. f (g x) = f x) \<Longrightarrow> sort_key f (map g xs) = map g (sort_key f xs)"
proof (induction xs)
  case (Cons x xs)
  have "insort_key f (g x) (map g ys) = map g (insort_key f x ys)" for ys using Cons.prems by (induction ys) simp_all
  then show ?case using Cons by simp
qed simp

lemma newest_map: "(\<And>x. f (g x) = f x) \<Longrightarrow> newest f (map g xs) = map g (newest f xs)"
  by (simp add: newest_def rev_map sort_key_map)

lemma classify_kind:
  "cl_kind (classifyOneRow H fs R sig r) =
     (case normalizeToRepoRelativePath (hs_cwd H) R (cpr_filePath r) of
        None \<Rightarrow> KUnresolved
      | Some q \<Rightarrow> if q = cpr_filePath r then KCanonical else if existsSync H fs (path_join R q) then KConvertible else KUnresolved)"
  by (simp add: classifyOneRow_def Let_def split: option.split)

lemma classify_convertible:
  assumes "cl_kind (classifyOneRow H fs R sig r) = KConvertible"
  shows "\<exists>q. normalizeToRepoRelativePath (hs_cwd H) R (cpr_filePath r) = Some q \<and> q \<noteq> cpr_filePath r \<and> existsSync H fs (path_join R q)
    \<and> cl_targetFilePath (classifyOneRow H fs R sig r) = Some q \<and> converted_path H fs R (cpr_filePath r) = q"
  using assms by (auto simp: classifyOneRow_def Let_def converted_path_def split: option.splits if_splits)

lemma classify_other:
  assumes "cl_kind (classifyOneRow H fs R sig r) \<noteq> KConvertible"
  shows "converted_path H fs R (cpr_filePath r) = cpr_filePath r"
  using assms by (auto simp: classify_kind converted_path_def split: option.splits if_splits)

lemma converted_kind:
  assumes "clean_fs fs" and "list_all clean_seg k" and "\<And>q. normalizeToRepoRelativePath (hs_cwd H) (absolute_text k) (cw_filePath c) = Some q \<Longrightarrow> js_trim q = q"
  shows "cl_kind (classifyOneRow H fs (absolute_text k) sig (path_row (convert H fs (absolute_text k) c))) =
    (if cl_kind (classifyOneRow H fs (absolute_text k) sig (path_row c)) = KConvertible then KCanonical
     else cl_kind (classifyOneRow H fs (absolute_text k) sig (path_row c)))"
proof (cases "cl_kind (classifyOneRow H fs (absolute_text k) sig (path_row c)) = KConvertible")
  case True
  then obtain q where q: "normalizeToRepoRelativePath (hs_cwd H) (absolute_text k) (cw_filePath c) = Some q"
    "existsSync H fs (path_join (absolute_text k) q)" "converted_path H fs (absolute_text k) (cw_filePath c) = q"
    using classify_convertible [OF True] by (auto simp: path_row_def)
  from existing_target_fixed(1) [OF assms(1,2) q(1,2) assms(3) [OF q(1)]] show ?thesis
    using q True by (simp add: classify_kind path_row_def convert_def)
next
  case False
  from classify_other [OF this] have "convert H fs (absolute_text k) c = c" by (simp add: convert_def path_row_def)
  then show ?thesis using False by simp
qed

text \<open>No chunk normalizes to a path with blanks around it.\<close>

definition plain_targets :: "host \<Rightarrow> string list \<Rightarrow> chunk_row list \<Rightarrow> bool" where
  "plain_targets H k cs \<longleftrightarrow>
     (\<forall>c \<in> set cs. \<forall>q. normalizeToRepoRelativePath (hs_cwd H) (absolute_text k) (cw_filePath c) = Some q \<longrightarrow> js_trim q = q)"

text \<open>The updates that a run makes set the path of every chunk to its converted path.\<close>

lemma planned_updates:
  fixes H fs k sig cs
  assumes "distinct (map cw_id cs)" and "clean_fs fs" and "list_all clean_seg k"
    and t: "plain_targets H k cs"
  defines "rows \<equiv> filter (\<lambda>r. cl_kind r = KConvertible \<and> cl_targetFilePath r \<noteq> None \<and> cl_targetFilePath r \<noteq> Some [])
      (map (\<lambda>c. classifyOneRow H fs (absolute_text k) sig (path_row c)) cs)"
  shows "length rows = length (filter (\<lambda>c. cl_kind (classifyOneRow H fs (absolute_text k) sig (path_row c)) = KConvertible) cs)"
    and "distinct (map fst (path_updates rows))" and "fst ` set (path_updates rows) \<subseteq> cw_id ` set cs"
    and "\<And>c. c \<in> set cs \<Longrightarrow> set_paths (path_updates rows) c = convert H fs (absolute_text k) c"
proof -
  define cl where "cl c = classifyOneRow H fs (absolute_text k) sig (path_row c)" for c
  define todo where "todo = filter (\<lambda>c. cl_kind (cl c) = KConvertible) cs"
  have target: "cl_targetFilePath (cl c) = Some (converted_path H fs (absolute_text k) (cw_filePath c)) \<and> converted_path H fs (absolute_text k) (cw_filePath c) \<noteq> []"
    if c: "c \<in> set cs" and kind: "cl_kind (cl c) = KConvertible" for c
  proof -
    obtain q where q: "normalizeToRepoRelativePath (hs_cwd H) (absolute_text k) (cw_filePath c) = Some q" "existsSync H fs (path_join (absolute_text k) q)"
      "cl_targetFilePath (cl c) = Some q" "converted_path H fs (absolute_text k) (cw_filePath c) = q"
      using classify_convertible [OF kind [unfolded cl_def]] by (auto simp: cl_def path_row_def)
    have "js_trim q = q" using t c q(1) by (auto simp: plain_targets_def)
    from existing_target_fixed(2) [OF assms(2,3) q(1,2) this] show ?thesis using q by simp
  qed
  have id: "cl_chunkId (cl c) = cw_id c" for c
    by (simp add: cl_def classifyOneRow_def Let_def path_row_def split: option.split)
  have rows: "rows = map cl todo"
    unfolding rows_def todo_def filter_map cl_def [symmetric]
    by (rule arg_cong [where f = "map cl"], rule filter_cong) (use target in \<open>auto simp: comp_def\<close>)
  have ups: "path_updates rows = map (\<lambda>c. (cw_id c, converted_path H fs (absolute_text k) (cw_filePath c))) todo"
    unfolding rows path_updates_def map_map by (rule map_cong) (use target in \<open>auto simp: id todo_def\<close>)
  show "length rows = length (filter (\<lambda>c. cl_kind (classifyOneRow H fs (absolute_text k) sig (path_row c)) = KConvertible) cs)"
    unfolding rows by (simp add: todo_def cl_def)
  show "distinct (map fst (path_updates rows))" unfolding ups using assms(1) by (simp add: comp_def todo_def distinct_map_filter)
  show "fst ` set (path_updates rows) \<subseteq> cw_id ` set cs" unfolding ups todo_def by auto
  show "set_paths (path_updates rows) c = convert H fs (absolute_text k) c" if c: "c \<in> set cs" for c
  proof (cases "cl_kind (cl c) = KConvertible")
    case True
    then have "(cw_id c, converted_path H fs (absolute_text k) (cw_filePath c)) \<in> set (path_updates rows)"
      unfolding ups using c by (auto simp: todo_def)
    moreover have "distinct (map fst (path_updates rows))" unfolding ups using assms(1) by (simp add: comp_def todo_def distinct_map_filter)
    ultimately show ?thesis by (simp add: set_paths_def convert_def map_of_eq_Some_iff)
  next
    case False
    have "cw_id c \<notin> fst ` set (path_updates rows)"
      unfolding ups using c False assms(1) by (auto simp: todo_def distinct_map dest: inj_onD)
    then show ?thesis
      using classify_other [OF False [unfolded cl_def]] by (simp add: set_paths_def convert_def path_row_def map_of_eq_None_iff [THEN iffD2])
  qed
qed

lemma inventory_rows: "listPathInventory st = map path_row (newest cw_createdAt (em_chunks st))"
  by (simp add: listPathInventory_def path_row_def)

lemma newest_distinct [simp]: "distinct (map f (newest g xs)) \<longleftrightarrow> distinct (map f xs)"
  by (rule mset_eq_imp_distinct_iff) (simp add: newest_def)

lemma newest_filter_length: "length (filter P (newest f xs)) = length (filter P xs)"
  by (metis (no_types) mset_filter mset_rev mset_sort newest_def size_mset)

lemma convert_fields [simp]: "cw_id (convert H fs R c) = cw_id c" "cw_createdAt (convert H fs R c) = cw_createdAt c"
  by (simp_all add: convert_def)

lemma keep_embeddings: "good_store E st \<Longrightarrow> map cw_id (em_chunks st') = map cw_id (em_chunks st) \<Longrightarrow> em_embeddings st' = em_embeddings st \<Longrightarrow>
  deleteOrphaned st' = (0, st')"
proof -
  assume g: "good_store E st" and c: "map cw_id (em_chunks st') = map cw_id (em_chunks st)" and e: "em_embeddings st' = em_embeddings st"
  have "cw_id ` set (em_chunks st') = cw_id ` set (em_chunks st)" using c by (metis set_map)
  then have "\<not> orphaned_embedding st' x" if "x \<in> set (em_embeddings st')" for x
    using g e that by (auto simp: orphaned_embedding_def good_store_def wf_emb_def)
  then show ?thesis by (simp add: deleteOrphaned_def countOrphaned_def delete_embeddings_def filter_empty_conv cong: filter_cong)
qed

abbreviation class_of :: "host \<Rightarrow> filesystem \<Rightarrow> string list \<Rightarrow> string set \<Rightarrow> chunk_row \<Rightarrow> cleanup_kind" where
  "class_of H fs k sig c \<equiv> cl_kind (classifyOneRow H fs (absolute_text k) sig (path_row c))"

text \<open>One run that applies, on the chunks and in the numbers of its report.\<close>

lemma cleanup_run:
  fixes E H fs k parse options st
  defines "w \<equiv> nullish (cu_observationWindow options) \<lparr>sw_sinceIso = None, sw_untilIso = None\<rparr>"
  defines "sig \<equiv> collectTelemetryPathSignals parse w st"
  assumes g: "good_store E st" and fs: "clean_fs fs" "list_all clean_seg k" and a: "cu_apply options"
    and t: "plain_targets H k (em_chunks st)"
  shows "\<exists>report st'. runHistoricalChunkCleanup E H fs (absolute_text k) parse options st = (report, st')
    \<and> st' = st\<lparr>em_chunks := map (convert H fs (absolute_text k)) (em_chunks st), em_tick := em_tick st + 1\<rparr>
    \<and> cp_updatedRows report = length (filter (\<lambda>c. class_of H fs k sig c = KConvertible) (em_chunks st)) \<and> cp_skippedRows report = 0
    \<and> cp_storageBefore report = classifyHistoricalChunkPaths H fs (absolute_text k) parse w st
    \<and> cp_storageAfter report = classifyHistoricalChunkPaths H fs (absolute_text k) parse w st'"
proof -
  let ?R = "absolute_text k" and ?n = "positive_or (cu_batchSize options) 200"
  let ?cs = "newest cw_createdAt (em_chunks st)"
  define rows where "rows = filter (\<lambda>r. cl_kind r = KConvertible \<and> cl_targetFilePath r \<noteq> None \<and> cl_targetFilePath r \<noteq> Some [])
      (cc_rows (classifyHistoricalChunkPaths H fs ?R parse w st))"
  have r: "rows = filter (\<lambda>r. cl_kind r = KConvertible \<and> cl_targetFilePath r \<noteq> None \<and> cl_targetFilePath r \<noteq> Some [])
      (map (\<lambda>c. classifyOneRow H fs ?R sig (path_row c)) ?cs)"
    by (simp add: rows_def classifyHistoricalChunkPaths_def Let_def inventory_rows sig_def comp_def)
  have d: "distinct (map cw_id (em_chunks st))" using g by (simp add: good_store_def wf_emb_def)
  have "distinct (map cw_id ?cs)" "plain_targets H k ?cs" using d t by (simp_all add: plain_targets_def)
  note u = planned_updates [OF this(1) fs this(2), where sig = sig, folded r]
  have n: "0 < ?n" by (simp add: positive_or_def split: option.split)
  define st1 where "st1 = st\<lparr>em_chunks := map (convert H fs ?R) (em_chunks st)\<rparr>"
  have m: "map (set_paths (path_updates rows)) (em_chunks st) = map (convert H fs ?R) (em_chunks st)" using u(4) by simp
  have len: "length (path_updates rows) = length rows" by (simp add: path_updates_def)
  have "fold update_path (path_updates rows) (0, st) = (length rows, st1)"
    using fold_update_path [OF u(2) d, of 0] u(3) m len by (simp add: st1_def)
  moreover have "fold update_batch (toBatches rows ?n) (0, st) = fold update_path (path_updates rows) (0, st)"
    by (simp add: update_batches concat_toBatches [OF n])
  ultimately have upd: "(if cu_apply options \<and> rows \<noteq> [] then fold update_batch (toBatches rows ?n) (0, st) else (0, st)) = (length rows, st1)"
    using a by (auto simp: path_updates_def)
  have del: "deleteOrphaned st1 = (0, st1)" by (rule keep_embeddings [OF g]) (simp_all add: st1_def comp_def)
  have after: "classifyHistoricalChunkPaths H fs ?R parse w st1 = classifyHistoricalChunkPaths H fs ?R parse w (st1\<lparr>em_tick := em_tick st + 1\<rparr>)"
    by (simp add: classifyHistoricalChunkPaths_def listPathInventory_def collectTelemetryPathSignals_def readTelemetryEvents_def)
  have "length rows = length (filter (\<lambda>c. class_of H fs k sig c = KConvertible) (em_chunks st))"
    using u(1) by (simp add: newest_filter_length)
  then show ?thesis
    unfolding runHistoricalChunkCleanup_def Let_def w_def [symmetric] rows_def [symmetric] upd prod.case
    using a del after by (simp add: st1_def)
qed

lemma counts:
  "cc_canonicalRows (classifyHistoricalChunkPaths H fs (absolute_text k) parse w st) =
     length (filter (\<lambda>c. class_of H fs k (collectTelemetryPathSignals parse w st) c = KCanonical) (em_chunks st))"
  "cc_convertibleRows (classifyHistoricalChunkPaths H fs (absolute_text k) parse w st) =
     length (filter (\<lambda>c. class_of H fs k (collectTelemetryPathSignals parse w st) c = KConvertible) (em_chunks st))"
  "cc_unresolvedRows (classifyHistoricalChunkPaths H fs (absolute_text k) parse w st) =
     length (filter (\<lambda>c. class_of H fs k (collectTelemetryPathSignals parse w st) c = KUnresolved) (em_chunks st))"
  by (simp_all add: classifyHistoricalChunkPaths_def Let_def of_kind_def inventory_rows filter_map comp_def newest_filter_length)

lemma length_filter_union: "(\<And>x. \<not> (P x \<and> Q x)) \<Longrightarrow> length (filter (\<lambda>x. P x \<or> Q x) xs) = length (filter P xs) + length (filter Q xs)"
  by (induction xs) auto

lemma converted_counts:
  assumes "clean_fs fs" and "list_all clean_seg k" and "plain_targets H k cs"
  defines "cs' \<equiv> map (convert H fs (absolute_text k)) cs"
  shows "length (filter (\<lambda>c. class_of H fs k sig c = KConvertible) cs') = 0"
    and "length (filter (\<lambda>c. class_of H fs k sig c = KCanonical) cs')
      = length (filter (\<lambda>c. class_of H fs k sig c = KCanonical) cs) + length (filter (\<lambda>c. class_of H fs k sig c = KConvertible) cs)"
    and "length (filter (\<lambda>c. class_of H fs k sig c = KUnresolved) cs') = length (filter (\<lambda>c. class_of H fs k sig c = KUnresolved) cs)"
proof -
  have kind: "class_of H fs k sig (convert H fs (absolute_text k) c) = (if class_of H fs k sig c = KConvertible then KCanonical else class_of H fs k sig c)"
    if "c \<in> set cs" for c
    by (rule converted_kind [OF assms(1,2)]) (use assms(3) that in \<open>auto simp: plain_targets_def\<close>)
  show "length (filter (\<lambda>c. class_of H fs k sig c = KConvertible) cs') = 0"
    by (auto simp: cs'_def filter_map comp_def filter_empty_conv kind)
  have "length (filter (\<lambda>c. class_of H fs k sig c = KCanonical) cs')
      = length (filter (\<lambda>c. class_of H fs k sig c = KCanonical \<or> class_of H fs k sig c = KConvertible) cs)"
    unfolding cs'_def filter_map length_map comp_def by (rule arg_cong [where f = length], rule filter_cong) (auto simp: kind)
  then show "length (filter (\<lambda>c. class_of H fs k sig c = KCanonical) cs')
      = length (filter (\<lambda>c. class_of H fs k sig c = KCanonical) cs) + length (filter (\<lambda>c. class_of H fs k sig c = KConvertible) cs)"
    by (simp add: length_filter_union)
  show "length (filter (\<lambda>c. class_of H fs k sig c = KUnresolved) cs') = length (filter (\<lambda>c. class_of H fs k sig c = KUnresolved) cs)"
    unfolding cs'_def filter_map length_map comp_def by (rule arg_cong [where f = length], rule filter_cong) (auto simp: kind)
qed

lemma convert_again:
  assumes "clean_fs fs" and "list_all clean_seg k" and "plain_targets H k cs" and "c \<in> set cs"
  shows "convert H fs (absolute_text k) (convert H fs (absolute_text k) c) = convert H fs (absolute_text k) c"
proof -
  have "class_of H fs k {} (convert H fs (absolute_text k) c) \<noteq> KConvertible"
    using converted_kind [OF assms(1,2), of H c "{}"] assms(3,4) by (auto simp: plain_targets_def)
  from classify_other [OF this] show ?thesis by (simp add: convert_def path_row_def)
qed

lemma plain_targets_converted:
  assumes "clean_fs fs" and "list_all clean_seg k" and "plain_targets H k cs"
  shows "plain_targets H k (map (convert H fs (absolute_text k)) cs)"
proof -
  have "js_trim q' = q'" if c: "c \<in> set cs"
    and n: "normalizeToRepoRelativePath (hs_cwd H) (absolute_text k) (converted_path H fs (absolute_text k) (cw_filePath c)) = Some q'" for c q'
  proof (cases "converted_path H fs (absolute_text k) (cw_filePath c) = cw_filePath c")
    case True
    then show ?thesis using n c assms(3) by (auto simp: plain_targets_def)
  next
    case False
    then obtain q where q: "normalizeToRepoRelativePath (hs_cwd H) (absolute_text k) (cw_filePath c) = Some q"
      "existsSync H fs (path_join (absolute_text k) q)" "converted_path H fs (absolute_text k) (cw_filePath c) = q"
      by (auto simp: converted_path_def split: option.splits if_splits)
    have tq: "js_trim q = q" using c q(1) assms(3) by (auto simp: plain_targets_def)
    from existing_target_fixed(1) [OF assms(1,2) q(1,2) tq] n q(3) tq show ?thesis by simp
  qed
  then show ?thesis by (auto simp: plain_targets_def convert_def)
qed

text \<open>
  A cleanup that applies converges in one run. Over a well-formed store, and when no chunk normalizes to a path with
  blanks around it, it gives every chunk whose path normalizes to that of an existing file this path, in whatever batches,
  and changes no other path, no other column and no embedding. The report counts what was done: as many
  updates as there were convertible rows, none skipped, and afterwards no convertible row, the canonical ones grown by them
  and the unresolved ones as before. A second run updates nothing.
\<close>

theorem cleanup_converges:
  assumes "good_store E st" and "clean_fs fs" and "list_all clean_seg k" and "cu_apply options" and "plain_targets H k (em_chunks st)"
  shows "\<exists>report st' report2 st2. runHistoricalChunkCleanup E H fs (absolute_text k) parse options st = (report, st')
    \<and> em_chunks st' = map (\<lambda>c. c\<lparr>cw_filePath := converted_path H fs (absolute_text k) (cw_filePath c)\<rparr>) (em_chunks st)
    \<and> em_embeddings st' = em_embeddings st
    \<and> cp_updatedRows report = cc_convertibleRows (cp_storageBefore report) \<and> cp_skippedRows report = 0
    \<and> cc_convertibleRows (cp_storageAfter report) = 0
    \<and> cc_canonicalRows (cp_storageAfter report) = cc_canonicalRows (cp_storageBefore report) + cc_convertibleRows (cp_storageBefore report)
    \<and> cc_unresolvedRows (cp_storageAfter report) = cc_unresolvedRows (cp_storageBefore report)
    \<and> runHistoricalChunkCleanup E H fs (absolute_text k) parse options st' = (report2, st2)
    \<and> cp_updatedRows report2 = 0 \<and> em_chunks st2 = em_chunks st' \<and> em_embeddings st2 = em_embeddings st'"
proof -
  define w where "w = nullish (cu_observationWindow options) \<lparr>sw_sinceIso = None, sw_untilIso = None\<rparr>"
  define sig where "sig = collectTelemetryPathSignals parse w st"
  let ?conv = "convert H fs (absolute_text k)"
  obtain report st' where r: "runHistoricalChunkCleanup E H fs (absolute_text k) parse options st = (report, st')"
    "st' = st\<lparr>em_chunks := map ?conv (em_chunks st), em_tick := em_tick st + 1\<rparr>"
    "cp_updatedRows report = length (filter (\<lambda>c. class_of H fs k sig c = KConvertible) (em_chunks st))" "cp_skippedRows report = 0"
    "cp_storageBefore report = classifyHistoricalChunkPaths H fs (absolute_text k) parse w st"
    "cp_storageAfter report = classifyHistoricalChunkPaths H fs (absolute_text k) parse w st'"
    using cleanup_run [OF assms(1-5), of parse] unfolding w_def sig_def by blast
  have sig': "collectTelemetryPathSignals parse w st' = sig" by (simp add: r(2) sig_def collectTelemetryPathSignals_def readTelemetryEvents_def)
  have g': "good_store E st'"
    using assms(1) unfolding r(2) good_store_def wf_emb_def fresh_row_ids_def
    by (auto simp: comp_def convert_def image_image elim!: inj_on_subset)
  have t': "plain_targets H k (em_chunks st')" using plain_targets_converted [OF assms(2,3,5)] by (simp add: r(2))
  obtain report2 st2 where r2: "runHistoricalChunkCleanup E H fs (absolute_text k) parse options st' = (report2, st2)"
    "st2 = st'\<lparr>em_chunks := map ?conv (em_chunks st'), em_tick := em_tick st' + 1\<rparr>"
    "cp_updatedRows report2 = length (filter (\<lambda>c. class_of H fs k sig c = KConvertible) (em_chunks st'))"
    using cleanup_run [OF g' assms(2-4) t', of parse] unfolding w_def [symmetric] sig' by blast
  note n = converted_counts [OF assms(2,3,5), of sig]
  have again: "map ?conv (em_chunks st') = em_chunks st'" using convert_again [OF assms(2,3,5)] by (simp add: r(2))
  have cs: "em_chunks st' = map ?conv (em_chunks st)" "em_embeddings st' = em_embeddings st" by (simp_all add: r(2))
  have st2: "em_chunks st2 = em_chunks st'" "em_embeddings st2 = em_embeddings st'" using again by (simp_all add: r2(2))
  note count = counts [of H fs k parse w st, folded sig_def] counts [of H fs k parse w st', unfolded sig']
  have "cp_updatedRows report = cc_convertibleRows (cp_storageBefore report)" "cc_convertibleRows (cp_storageAfter report) = 0"
    "cc_canonicalRows (cp_storageAfter report) = cc_canonicalRows (cp_storageBefore report) + cc_convertibleRows (cp_storageBefore report)"
    "cc_unresolvedRows (cp_storageAfter report) = cc_unresolvedRows (cp_storageBefore report)" "cp_updatedRows report2 = 0"
    unfolding r(3,5,6) r2(3) count cs(1) using n by simp_all
  moreover have "em_chunks st' = map (\<lambda>c. c\<lparr>cw_filePath := converted_path H fs (absolute_text k) (cw_filePath c)\<rparr>) (em_chunks st)"
    by (simp add: cs(1) convert_def [abs_def])
  ultimately show ?thesis using r(1,4) r2(1) cs(2) st2 by blast
qed

text \<open>Without \<^verbatim>\<open>apply\<close> a run changes neither table.\<close>

lemma dry_run_keeps_tables:
  assumes "\<not> cu_apply options"
  shows "em_chunks (snd (runHistoricalChunkCleanup E H fs R parse options st)) = em_chunks st
    \<and> em_embeddings (snd (runHistoricalChunkCleanup E H fs R parse options st)) = em_embeddings st"
  using assms by (simp add: runHistoricalChunkCleanup_def Let_def)

section \<open>An example\<close>

text \<open>One chunk whose path is not canonical, one whose file is missing and one that is canonical.\<close>

definition cleanup_fs :: filesystem where
  "cleanup_fs = [([], DirNode), ([''r''], DirNode), ([''r'', ''a.ts''], FileNode [])]"

definition stored_chunk :: "string \<Rightarrow> string \<Rightarrow> chunk_row" where
  "stored_chunk i p = \<lparr>cw_id = i, cw_fileId = i, cw_filePath = p, cw_symbolId = None, cw_lineStart = 1, cw_lineEnd = 1, cw_content = i,
     cw_contentHash = i, cw_tokenEstimate = 1, cw_language = ''typescript'', cw_createdAt = ''t''\<rparr>"

definition cleanup_store :: emb_state where
  "cleanup_store = empty_store\<lparr>em_chunks := [stored_chunk ''1'' ''./a.ts'', stored_chunk ''2'' ''./b.ts'', stored_chunk ''3'' ''a.ts'']\<rparr>"

definition cleanup_all :: cleanup_options where
  "cleanup_all = \<lparr>cu_apply = True, cu_observationWindow = None, cu_batchSize = Some 1, cu_exampleLimit = None, cu_operator = None\<rparr>"

lemma cleanup_example:
  "good_store example_env cleanup_store" "clean_fs cleanup_fs" "plain_targets host0 [''r''] (em_chunks cleanup_store)"
proof -
  show "good_store example_env cleanup_store"
    by (auto simp: good_store_def wf_emb_def fresh_row_ids_def cleanup_store_def stored_chunk_def empty_store_def example_env_def inj_on_def
        replicate_eq_replicate)
  have "wf_check cleanup_fs" by code_simp
  moreover have "distinct (map fst cleanup_fs)" "list_all (\<lambda>k. list_all clean_seg k) (map fst cleanup_fs)" by code_simp+
  ultimately show "clean_fs cleanup_fs" by (auto simp: clean_fs_def list_all_iff intro: wf_check)
  have "list_all (\<lambda>c. case normalizeToRepoRelativePath (hs_cwd host0) (absolute_text [''r'']) (cw_filePath c) of None \<Rightarrow> True | Some q \<Rightarrow> js_trim q = q)
      (em_chunks cleanup_store)" by code_simp
  then show "plain_targets host0 [''r''] (em_chunks cleanup_store)" by (auto simp: plain_targets_def list_all_iff split: option.splits)
qed

lemma cleanup_converges_example:
  "\<exists>report st'. runHistoricalChunkCleanup example_env host0 cleanup_fs ''/r'' (\<lambda>s. None) cleanup_all cleanup_store = (report, st')
     \<and> map cw_filePath (em_chunks st') = [''a.ts'', ''./b.ts'', ''a.ts''] \<and> cc_convertibleRows (cp_storageAfter report) = 0"
proof -
  have k: "list_all clean_seg [''r'']" "cu_apply cleanup_all" by code_simp+
  have root: "absolute_text [''r''] = ''/r''" by code_simp
  have "map (\<lambda>c. converted_path host0 cleanup_fs ''/r'' (cw_filePath c)) (em_chunks cleanup_store) = [''a.ts'', ''./b.ts'', ''a.ts'']" by code_simp
  then show ?thesis
    using cleanup_converges [OF cleanup_example(1,2) k cleanup_example(3), of "\<lambda>s. None", unfolded root] by (auto simp: comp_def)
qed

end
