(* ===== verification/Spec2Isabelle.thy ===== *)
theory Spec2Isabelle
  imports BridgeCalls BridgeLog FullProgress McpSafety AnnSearch Chunker ToolRunner OperatorRun TuiState ChunkCleanup
begin

text \<open>
  dh-kit is a coding assistant for the terminal. A Rust host starts a TypeScript worker and talks to it in
  framed JSON-RPC over standard input and output; the worker runs workflow lanes (quick, delivery,
  migration, and the seven-stage full workflow), keeps sessions, checkpoints and work items in SQLite,
  chooses the MCP servers and skills that an agent may use, runs the file, patch, search and shell tools that a model calls, detects
  the workspaces of a repository, keeps reports and snapshots of operator runs, and retrieves code through chunks, embeddings
  and an approximate nearest-neighbour index. This development models the TypeScript code under
  \<^verbatim>\<open>src/packages\<close> that decides these things.

  \<^bold>\<open>How the theories follow the code.\<close> A function of the source is a HOL function of the same name; a record
  type is a \<^theory_text>\<open>record\<close>, a union of string literals a \<^theory_text>\<open>datatype\<close>; a thrown error is the left value of a sum (or
  \<^term>\<open>None\<close>), so every \<^verbatim>\<open>throw\<close> and early return is a branch; a class is a record of its fields and its methods
  pass the record on; a table of the store is a list of rows in row id order.

  \<^item> \<open>Prelude\<close>: JavaScript values, string, array and \<^verbatim>\<open>Map\<close> functions, stable sorting, the result type and its
    bind, and the generic lemmas on them. A string is a list of code units below 256; claims that depend on
    wider code units (collation, UTF-8 of arbitrary text) take the function as a parameter.
  \<^item> \<open>JsonText\<close>: \<^verbatim>\<open>JSON.stringify\<close>, \<^verbatim>\<open>JSON.parse\<close> and the byte conversion around them on the values that
    the messages carry, with the round trip on well-formed values.
  \<^item> \<open>StdioCodec\<close> (\<^verbatim>\<open>opencode-app/src/bridge/stdio-codec.ts\<close>): header block, \<^verbatim>\<open>Content-Length\<close>, frame bytes.
    Lemmas characterise the accepted headers and give the round trip of a written frame. The locale \<open>body_codec\<close> is
    what the peer needs of the body encoding, interpreted on the JSON functions.
  \<^item> \<open>RpcPeer\<close> (\<^verbatim>\<open>opencode-app/src/worker/worker-jsonrpc-stdio.ts\<close>): the peer's buffer, pending table, timers
    and outgoing frames, its handlers, and the events \<^verbatim>\<open>data\<close>, timeout, request and close. C1: any cutting of a
    frame stream into chunks has the effect of the messages one by one. C2: every request id is
    pending, settled or lost, exactly once; \<open>null_error_response_never_settles\<close> is the message that loses one.
  \<^item> \<open>BridgeResults\<close>, \<open>BridgeClient\<close>, \<open>BridgeCalls\<close> (\<^verbatim>\<open>opencode-app/src/bridge/dh-jsonrpc-stdio-client.ts\<close>): the client that spawns the
    Rust engine and queries it: the calls, answers and errors, and the client as a state machine over event-loop turns with its
    queue of continuations. C3: whatever happens, every call is answered once or waits for one request;
    C4: an answer reaches its call through any cutting of the bytes.
  \<^item> \<open>BridgeLog\<close> (\<^verbatim>\<open>opencode-sdk/src\<close>, \<^verbatim>\<open>storage/src/sqlite/repositories/hook-invocation-logs-repo.ts\<close>): the decisions that the policy
    code writes for the hooks, keys in snake case and JSON texts; \<open>camel_key_iff\<close> says which keys survive, C19
    that the latest decision is read back as it was given.
  \<^item> \<open>WorkItems\<close> (\<^verbatim>\<open>runtime/src/workflow/work-item-planner.ts\<close>): schedulable items, layers, blocked items.
    C28, C29: order and the graph-theoretic meaning of blocked; \<open>plan_partitions_pending\<close> the partition; a further lemma shows that an unfinished dependency does not hold an item back.
  \<^item> \<open>Workflow\<close>: lanes, stages, gates, handoffs and the lane lock (\<^verbatim>\<open>shared/src/types\<close>,
    \<^verbatim>\<open>shared/src/constants/stages.ts\<close>, \<^verbatim>\<open>gate-evaluator.ts\<close>, \<^verbatim>\<open>handoff-manager.ts\<close>, \<^verbatim>\<open>lane-lock-manager.ts\<close>).
  \<^item> \<open>Store\<close> (\<^verbatim>\<open>storage/src/sqlite\<close>): the tables the session code uses, upserts, foreign keys and
    listings of eight repositories. The locale \<open>child_repo\<close> states what a table of rows below a session
    promises and is interpreted on events, summaries, checkpoints and reverts.
  \<^item> \<open>SessionOps\<close>, \<open>SessionRevert\<close>, \<open>StageRunner\<close>, \<open>SessionTransfer\<close> (\<^verbatim>\<open>runtime/src/session\<close>,
    \<^verbatim>\<open>runtime/src/workflow/stage-runner.ts\<close>): run registry, checkpoints, revert and undo, advance, fork, delete,
    export and import, queries and the event stream. C23, C24 and
    C25 evaluate revert, undo and advance to the last row; C20, C22,
    and C21 are fork, delete and the export round trip; \<open>delete_with_workflow_loses_history\<close> is a delete that fails half-way.
  \<^item> \<open>ExtensionState\<close> (\<^verbatim>\<open>runtime/src/extensions\<close>): fingerprint texts, the state file, classification of a
    touch and the drift report; C40. The locale \<open>fingerprint_store\<close> is the contract between the
    touch and the state file.
  \<^item> \<open>McpRouting\<close>, \<open>McpSafety\<close> (\<^verbatim>\<open>opencode-app/src/planner\<close>, \<^verbatim>\<open>registry\<close>, \<^verbatim>\<open>executor/enforce-mcp-routing.ts\<close>): intent
    tags, scores, planner, enforcement against a runtime snapshot, skills, required tools, envelope; C26, C27.
  \<^item> \<open>FullWorkflow\<close>, \<open>FullProgress\<close> (\<^verbatim>\<open>runtime/src/workflow/full-workflow-runtime.ts\<close>): start, assignment of
    child sessions, approval, rejection, block and resume over state file and store. C12 and
    C13 are invariants of all reachable files, C5 the refinement of a
    two-field machine, C14 progress through the five gates.
  \<^item> \<open>BinaryHeap\<close>, \<open>AnnIndex\<close>, \<open>AnnSearch\<close> (\<^verbatim>\<open>retrieval/src/semantic/ann-index.ts\<close>): the two heaps as
    priority queues (C15, locale \<open>heap_order\<close>, interpreted on both orders), the layered graph, insertion, search
    and the written form (C7, C8, C30).
  \<^item> \<open>ScanPaths\<close> (\<^verbatim>\<open>intelligence/src/workspace/scan-paths.ts\<close>): POSIX paths and the helpers that keep a path
    below its root (C33).
  \<^item> \<open>Chunker\<close> (\<^verbatim>\<open>retrieval/src/semantic/chunker.ts\<close>): symbol chunks and windows, when the window loop ends
    (C31), and which lines the chunks hold (C32).
  \<^item> \<open>EmbeddingStore\<close> (\<^verbatim>\<open>storage/src/sqlite/repositories/chunks-repo.ts\<close>, \<^verbatim>\<open>embeddings-repo.ts\<close>, \<^verbatim>\<open>retrieval/src/semantic\<close>:
    \<^verbatim>\<open>embedding-pipeline\<close>, \<^verbatim>\<open>semantic-search\<close>, \<^verbatim>\<open>telemetry-collector\<close>): the tables of chunks and embeddings, the pipeline that fills them, the
    index files and the search over them, with the remote model as a parameter. \<open>EmbeddingPipeline\<close>: the invariant \<open>good_store\<close> of the tables,
    what a run of the pipeline stores for a provider that answers (locale \<open>total_provider\<close>, interpreted on the mock provider;
    \<open>pipeline_embeds_inputs\<close>) and what a search then returns (\<open>search_finds_embedded_chunks\<close>). \<open>ChunkCleanup\<close>
    (\<^verbatim>\<open>historical-chunk-cleanup.ts\<close>): the repair of stored paths, which converges in one run (\<open>cleanup_converges\<close>).

  \<^item> \<open>TextFiles\<close>, \<open>FileTools\<close> (\<^verbatim>\<open>opencode-app/src/tools\<close>: \<^verbatim>\<open>tool-paths\<close>, \<^verbatim>\<open>diff-summary\<close>, \<^verbatim>\<open>read-tool\<close>, \<^verbatim>\<open>write-tool\<close>,
    \<^verbatim>\<open>edit-tool\<close>): a file system of directories and byte files, the calls of \<^verbatim>\<open>node:fs\<close> that the tools make, and the
    tools. \<open>diff_summary_is_smallest_block\<close>, C36 and \<open>written_file_reads_back\<close> say what summary, edit and write do. The locale
    \<open>repo_tool\<close> is what the runner needs of a tool that writes (well-formed files, nothing outside the
    repository changes, read-only on failure of the path check) and is interpreted on write, edit and patch.
  \<^item> \<open>PatchTool\<close> (\<^verbatim>\<open>apply-patch-tool.ts\<close>): parser, hunk placement and application; C34 is the round trip of
    a patch document, C9 the effect of one on a file.
  \<^item> \<open>SearchTool\<close> (\<^verbatim>\<open>search-tool.ts\<close>): the walk, glob expressions and line search; C37.
  \<^item> \<open>ShellTool\<close> (\<^verbatim>\<open>shell-tool.ts\<close>, \<^verbatim>\<open>runtime/src/hooks/bash-guard.ts\<close>): the guard, and the events of a child process
    up to the result; C38.
  \<^item> \<open>ToolRunner\<close> (\<^verbatim>\<open>tool-registry.ts\<close>, \<^verbatim>\<open>tool-runner.ts\<close>, \<^verbatim>\<open>schemas.ts\<close>, \<^verbatim>\<open>todo-tool.ts\<close>, \<^verbatim>\<open>task-tool.ts\<close>): permission, dispatch,
    events and the audit rows of a call, and the loop over the calls of a response: C6, C35.
  \<^item> \<open>DetectProjects\<close> (\<^verbatim>\<open>intelligence/src/workspace/detect-projects.ts\<close>): the search for marker files, the choice of
    innermost roots and the bounded scan of each; C18.
  \<^item> \<open>OperatorWorktree\<close>, \<open>OperatorMaintenance\<close> (\<^verbatim>\<open>runtime/src/workspace/operator-safe-*.ts\<close>): preflight, snapshot, temporary
    workspace, apply, rollback and report of an operator run, with the JSON they are written in, and listing, inspection, prune and
    cleanup of what the runs leave behind. \<open>OperatorSafety\<close>: C11 is what prune and cleanup
    can remove at all (locale \<open>artifact_step\<close>, the contract of a loop body, interpreted on both loops),
    C16 and C17 what each of them decides. \<open>OperatorRun\<close>: a run and the cleanup of its report
    composed, through the written files (C10).
  \<^item> \<open>TuiState\<close> (\<^verbatim>\<open>apps/tui/src\<close>): the terminal front end, its reducer, its operations over a client, the screen and the input loop;
    C39 says what a streamed run leaves on the screen, \<open>next_session_cycles\<close> and \<open>read_only_is_final\<close> how the keys walk
    through the sessions and that a failed call is final.

  \<^bold>\<open>Loops and bounds.\<close> Loops over arrays are structural. The layer loop of the planner, the frame loops of
  peer and client, the queue of continuations, the sift loops of the heaps and the search loop of the index are \<^theory_text>\<open>function\<close>s with a termination proof;
  the search measure counts the unvisited nodes and the candidate queue. The window loop of the chunker may
  run forever in the source, so it is a \<^theory_text>\<open>partial_function\<close> whose value \<^term>\<open>None\<close> is the infinite run, and C31 says
  exactly when that happens. Layers drawn at random are bounded by the cap of the source. The walks of the workspace scan recurse on
  the depth limit. Only the JSON reader has fuel, the length of its text plus one, which the lemmas \<open>JSON_parse_stringify\<close> and
  \<open>JSON_parse_pretty\<close> show to be enough for every written text.

  \<^bold>\<open>Parameters.\<close> What the code takes from outside is an argument: clock and random ids (a property that needs
  fresh ids says so), SHA-256 and locale collation, the lossy decoding of bytes, the coin of the index and
  its distance function, the answers of the embedding service, the working directory, the error texts of the JSON parser and of the
  system, the \<^verbatim>\<open>RegExp\<close> of a search, the schema check of a tool's input, the child process of a shell command, the times of files and
  \<^verbatim>\<open>Date.parse\<close>, and the scout that reports the status of MCP servers. A property that assumes something of a parameter has a witness
  with a concrete function.

  \<^bold>\<open>Not modelled.\<close> The Rust engine and host (another language); the provider SDKs and request transforms
  (foreign wire formats, checked only against services); the HTTP server and client, the language server client,
  the command line and its presenters (I/O); diagnostics that report on a machine (file system, \<^verbatim>\<open>git\<close> and
  process state); symbol extraction through tree-sitter;
  lane commands and team agents, which
  compose prompts for a model around the session operations modelled here; the hook enforcement, whose evidence scores are fractions
  outside the numbers of the modelled JSON. Asynchrony is modelled where
  the code relies on it, as the event sequences of the peer and of the bridge client; the other operations run to completion, as
  they do on one thread between awaits.
\<close>

end
